(* ===== verification/Go_Prelude.thy ===== *)
theory Go_Prelude
  imports Main "HOL-Library.Word" "HOL-Library.Char_ord" "HOL-Library.List_Lexorder"
    "HOL-Library.Product_Lexorder" "HOL-Library.Sublist" "HOL-Library.Multiset"
begin

text \<open>
  Shared vocabulary of the development: how Go's strings, integers, maps and error returns are
  represented, and the generic lemmas the components use.

  \<^item> A Go \<^verbatim>\<open>string\<close> is a sequence of bytes: \<^typ>\<open>string\<close>, compared bytewise
    (the lexicographic order of \<^verbatim>\<open>HOL-Library.List_Lexorder\<close> over \<^verbatim>\<open>Char_ord\<close>).
  \<^item> A Go \<^verbatim>\<open>map[string]T\<close> is a partial function; reading a missing key gives the zero
    value, which \<open>map_get\<close> writes out.
  \<^item> A function returning \<^verbatim>\<open>(T, error)\<close> returns a sum, \<open>Inl\<close> the error.
  \<^item> \<^verbatim>\<open>int\<close> and \<^verbatim>\<open>int64\<close> are \<^typ>\<open>int\<close>; where a sum or a shift can leave the 64-bit
    range the wrap-around is written out with \<open>i64\<close>. \<^verbatim>\<open>uint64\<close> is a 64-bit word.
\<close>

named_theorems go_defs \<open>definitions unfolded by the evaluation of concrete inputs\<close>

section \<open>Errors as values\<close>

definition bind_res :: "'e + 'a \<Rightarrow> ('a \<Rightarrow> 'e + 'b) \<Rightarrow> 'e + 'b" where
  "bind_res r f = (case r of Inl e \<Rightarrow> Inl e | Inr x \<Rightarrow> f x)"

lemma bind_res_simps [simp]:
  "bind_res (Inl e) f = Inl e"
  "bind_res (Inr x) f = f x"
  by (simp_all add: bind_res_def)

lemma bind_res_Inr_iff [simp]:
  "bind_res r f = Inr y \<longleftrightarrow> (\<exists>x. r = Inr x \<and> f x = Inr y)"
  by (cases r) auto

lemma bind_res_cong [fundef_cong]:
  "r = r' \<Longrightarrow> (\<And>x. r' = Inr x \<Longrightarrow> f x = f' x) \<Longrightarrow> bind_res r f = bind_res r' f'"
  by (cases r) auto

lemma map_sum_eq_Inr_iff: "map_sum f g r = Inr y \<longleftrightarrow> (\<exists>x. r = Inr x \<and> g x = y)"
  by (cases r) auto

text \<open>\<open>guard_res c e\<close> is Go's \<^verbatim>\<open>if c { return e }\<close>.\<close>

definition guard_res :: "bool \<Rightarrow> 'e \<Rightarrow> 'e + unit" where
  "guard_res c e = (if c then Inl e else Inr ())"

lemma guard_res_Inr_iff [simp]: "guard_res c e = Inr u \<longleftrightarrow> \<not> c"
  by (simp add: guard_res_def)

text \<open>A loop that checks every element and stops at the first error.\<close>

fun check_all :: "('a \<Rightarrow> 'e + unit) \<Rightarrow> 'a list \<Rightarrow> 'e + unit" where
  "check_all f [] = Inr ()"
| "check_all f (x # xs) = bind_res (f x) (\<lambda>_. check_all f xs)"

lemma check_all_Inr_iff [simp]: "check_all f xs = Inr u \<longleftrightarrow> (\<forall>x\<in>set xs. f x = Inr ())"
  by (induction xs) auto

section \<open>Maps\<close>

definition map_get :: "'v \<Rightarrow> ('k \<rightharpoonup> 'v) \<Rightarrow> 'k \<Rightarrow> 'v" where
  "map_get z m k = (case m k of None \<Rightarrow> z | Some v \<Rightarrow> v)"

lemma map_get_upd [simp]: "map_get z (m(k \<mapsto> v)) k' = (if k' = k then v else map_get z m k')"
  by (simp add: map_get_def)

lemma map_get_Some: "m k = Some v \<Longrightarrow> map_get z m k = v"
  by (simp add: map_get_def)

lemma map_get_None: "m k = None \<Longrightarrow> map_get z m k = z"
  by (simp add: map_get_def)

lemma map_get_empty [simp]: "map_get z Map.empty k = z"
  by (simp add: map_get_def)

lemma map_of_snoc: "k \<notin> fst ` set xs \<Longrightarrow> map_of (xs @ [(k, v)]) = (map_of xs)(k \<mapsto> v)"
  by (induction xs) (auto simp: fun_upd_twist)

section \<open>64-bit signed integers\<close>

definition i64 :: "int \<Rightarrow> int" where
  "i64 x = signed_take_bit 63 x"

definition in_i64 :: "int \<Rightarrow> bool" where
  "in_i64 x \<longleftrightarrow> - (2 ^ 63) \<le> x \<and> x < 2 ^ 63"

lemma i64_id: "in_i64 x \<Longrightarrow> i64 x = x"
  unfolding i64_def in_i64_def by (rule signed_take_bit_int_eq_self) auto

lemma in_i64_i64: "in_i64 (i64 x)"
  unfolding in_i64_def i64_def
  using signed_take_bit_int_greater_eq_minus_exp [of 63 x] signed_take_bit_int_less_exp [of 63 x]
  by simp

section \<open>Strings\<close>

text \<open>
  \<^verbatim>\<open>strings.TrimSpace\<close> cuts Unicode white space off both ends. On a byte sequence it cuts
  every leading and trailing occurrence of the UTF-8 encodings below; no other encoding of white
  space exists, and a suffix equal to one of them is what
  \<^verbatim>\<open>utf8.DecodeLastRune\<close> decodes.
\<close>

definition white_spaces :: "string list" where
  "white_spaces =
    [[CHR 0x09], [CHR 0x0A], [CHR 0x0B], [CHR 0x0C],
     [CHR 0x0D], [CHR 0x20], [CHR 0xC2, CHR 0x85], [CHR 0xC2, CHR 0xA0],
     [CHR 0xE1, CHR 0x9A, CHR 0x80], [CHR 0xE2, CHR 0x80, CHR 0x80], [CHR 0xE2, CHR 0x80, CHR 0x81], [CHR 0xE2, CHR 0x80, CHR 0x82],
     [CHR 0xE2, CHR 0x80, CHR 0x83], [CHR 0xE2, CHR 0x80, CHR 0x84], [CHR 0xE2, CHR 0x80, CHR 0x85], [CHR 0xE2, CHR 0x80, CHR 0x86],
     [CHR 0xE2, CHR 0x80, CHR 0x87], [CHR 0xE2, CHR 0x80, CHR 0x88], [CHR 0xE2, CHR 0x80, CHR 0x89], [CHR 0xE2, CHR 0x80, CHR 0x8A],
     [CHR 0xE2, CHR 0x80, CHR 0xA8], [CHR 0xE2, CHR 0x80, CHR 0xA9], [CHR 0xE2, CHR 0x80, CHR 0xAF], [CHR 0xE2, CHR 0x81, CHR 0x9F],
     [CHR 0xE3, CHR 0x80, CHR 0x80]]"

definition rev_white_spaces :: "string list" where
  "rev_white_spaces = map rev white_spaces"

lemma white_spaces_nonempty [simp]: "[] \<notin> set white_spaces"
  by (simp add: white_spaces_def)

lemma rev_white_spaces_nonempty [simp]: "[] \<notin> set rev_white_spaces"
  by (simp add: rev_white_spaces_def white_spaces_def)

text \<open>\<open>strip_prefixes ws s\<close> removes elements of \<open>ws\<close> from the front as long as there is one.\<close>

fun strip_prefixes :: "nat \<Rightarrow> string list \<Rightarrow> string \<Rightarrow> string" where
  "strip_prefixes 0 ws s = s"
| "strip_prefixes (Suc n) ws s =
     (case List.find (\<lambda>w. prefix w s) ws of
        None \<Rightarrow> s
      | Some w \<Rightarrow> strip_prefixes n ws (drop (length w) s))"

definition trim_left :: "string \<Rightarrow> string" where
  "trim_left s = strip_prefixes (length s) white_spaces s"

definition trim_right :: "string \<Rightarrow> string" where
  "trim_right s = rev (strip_prefixes (length s) rev_white_spaces (rev s))"

definition trim_space :: "string \<Rightarrow> string" where
  "trim_space s = trim_right (trim_left s)"

text \<open>Each round removes at least one byte, so \<open>length s\<close> rounds reach a string with no such prefix.\<close>

lemma strip_prefixes_done:
  assumes "[] \<notin> set ws" "length s \<le> n" "w \<in> set ws"
  shows "\<not> prefix w (strip_prefixes n ws s)"
  using assms(2)
proof (induction n arbitrary: s)
  case 0
  then show ?case using assms(1,3) by (cases w) auto
next
  case (Suc n)
  show ?case
  proof (cases "List.find (\<lambda>w. prefix w s) ws")
    case None
    then have "\<not> prefix w s" using assms(3) by (auto simp: find_None_iff)
    with None show ?thesis by simp
  next
    case (Some v)
    then have v: "v \<in> set ws" "prefix v s" by (auto simp: find_Some_iff)
    then have "v \<noteq> []" using assms(1) by auto
    then have "length (drop (length v) s) \<le> n"
      using Suc.prems v(2) by (cases v) (auto dest: prefix_length_le)
    then show ?thesis using Suc.IH Some by simp
  qed
qed

lemma strip_prefixes_id:
  "(\<And>w. w \<in> set ws \<Longrightarrow> \<not> prefix w s) \<Longrightarrow> strip_prefixes n ws s = s"
  by (cases n) (auto split: option.splits simp: find_Some_iff)

lemma suffix_strip_prefixes: "suffix (strip_prefixes n ws s) s"
proof (induction n arbitrary: s)
  case (Suc n)
  then show ?case
    by (auto split: option.splits intro: suffix_order.trans suffix_drop)
qed simp

lemma trim_space_no_prefix:
  assumes "w \<in> set white_spaces"
  shows "\<not> prefix w (trim_space s)"
proof
  assume p: "prefix w (trim_space s)"
  have "prefix (trim_space s) (trim_left s)"
    unfolding trim_space_def trim_right_def
    using suffix_strip_prefixes [of _ _ "rev (trim_left s)"] by (metis rev_rev_ident suffix_to_prefix)
  then have "prefix w (trim_left s)" using p by (rule prefix_order.trans [rotated])
  then show False
    unfolding trim_left_def
    using strip_prefixes_done [OF white_spaces_nonempty _ assms, of s "length s"] by simp
qed

lemma trim_right_idem: "trim_right (trim_right s) = trim_right s"
proof -
  have "strip_prefixes n rev_white_spaces (strip_prefixes (length s) rev_white_spaces (rev s)) =
      strip_prefixes (length s) rev_white_spaces (rev s)" for n
    by (rule strip_prefixes_id) (rule strip_prefixes_done, simp_all)
  then show ?thesis by (simp add: trim_right_def)
qed

lemma trim_space_idem [simp]: "trim_space (trim_space s) = trim_space s"
proof -
  have "trim_left (trim_space s) = trim_space s"
    unfolding trim_left_def by (rule strip_prefixes_id) (rule trim_space_no_prefix)
  then show ?thesis
    by (metis trim_right_idem trim_space_def)
qed

lemma trim_space_Nil [simp]: "trim_space [] = []"
  by (simp add: trim_space_def trim_left_def trim_right_def)

text \<open>Character classes, as the source writes them: ranges of ASCII characters.\<close>

definition char_between :: "char \<Rightarrow> char \<Rightarrow> char \<Rightarrow> bool" where
  "char_between lo hi c \<longleftrightarrow> lo \<le> c \<and> c \<le> hi"

definition ascii_lower :: "char \<Rightarrow> bool" where
  "ascii_lower = char_between (CHR ''a'') (CHR ''z'')"

definition ascii_upper :: "char \<Rightarrow> bool" where
  "ascii_upper = char_between (CHR ''A'') (CHR ''Z'')"

definition ascii_digit :: "char \<Rightarrow> bool" where
  "ascii_digit = char_between (CHR ''0'') (CHR ''9'')"

text \<open>
  \<^verbatim>\<open>strings.ToLower\<close>. ASCII capitals are lowered (bit 5 is set, which adds 32); the two non-ASCII letters whose lower case is
  an ASCII letter are the dotted capital I (bytes C4 B0) and the Kelvin sign (bytes E2 84 AA).
  Every other non-ASCII letter is kept: Go maps it to another non-ASCII letter, so a comparison of
  the result with an ASCII literal has the same outcome.
\<close>

definition lower_char :: "char \<Rightarrow> char" where
  "lower_char c = (if ascii_upper c
     then Char (digit0 c) (digit1 c) (digit2 c) (digit3 c) (digit4 c) True (digit6 c) (digit7 c) else c)"

fun to_lower :: "string \<Rightarrow> string" where
  "to_lower [] = []"
| "to_lower (c # cs) =
     (if prefix [CHR 0xC4, CHR 0xB0] (c # cs)
      then CHR ''i'' # to_lower (drop 1 cs)
      else if prefix [CHR 0xE2, CHR 0x84, CHR 0xAA] (c # cs)
      then CHR ''k'' # to_lower (drop 2 cs)
      else lower_char c # to_lower cs)"

text \<open>\<^verbatim>\<open>strings.Split\<close> with a one-byte separator.\<close>

fun split_on :: "char \<Rightarrow> string \<Rightarrow> string list" where
  "split_on c [] = [[]]"
| "split_on c (x # xs) =
     (if x = c then [] # split_on c xs
      else (case split_on c xs of [] \<Rightarrow> [[x]] | p # ps \<Rightarrow> (x # p) # ps))"

text \<open>\<^verbatim>\<open>strings.Join\<close>.\<close>

fun join_with :: "string \<Rightarrow> string list \<Rightarrow> string" where
  "join_with sep [] = []"
| "join_with sep [x] = x"
| "join_with sep (x # y # xs) = x @ sep @ join_with sep (y # xs)"

lemma split_on_nonempty [simp]: "split_on c s \<noteq> []"
  by (induction s) (auto split: list.splits)

lemma split_on_absent: "c \<notin> set s \<Longrightarrow> split_on c s = [s]"
  by (induction s) auto

lemma split_on_no_sep: "p \<in> set (split_on c s) \<Longrightarrow> c \<notin> set p"
  by (induction s arbitrary: p) (auto split: if_splits list.splits)

lemma join_with_Cons_head: "join_with sep ((x # p) # ps) = x # join_with sep (p # ps)"
  by (cases ps) auto

lemma join_split_on: "join_with [c] (split_on c s) = s"
proof (induction s)
  case (Cons x xs)
  then show ?case
    by (cases "split_on c xs") (auto simp: join_with_Cons_head)
qed simp

section \<open>Sorting\<close>

text \<open>
  \<^verbatim>\<open>sort.SliceStable\<close> with a comparison given by keys is \<^const>\<open>sort_key\<close>, which is stable;
  \<^verbatim>\<open>sort.Strings\<close> is \<^const>\<open>sort\<close>. The result depends on the elements only, not on the order
  in which a Go map or a channel delivered them, as soon as the key separates them.
\<close>

lemma sort_key_perm_eq:
  assumes "mset xs = mset ys" "inj_on f (set xs)"
  shows "sort_key f xs = sort_key f ys"
by (rule sort_key_inj_key_eq) (use assms in \<open>simp_all\<close>)

end
