(* ===== verification/Go_Values.thy ===== *)
theory Go_Values
  imports Go_Prelude Complex_Main "HOL-Library.Log_Nat"
begin

text \<open>
  Dynamic values: Go's \<^verbatim>\<open>interface{}\<close> as the workflow engine inspects it, \<^verbatim>\<open>float64\<close>, and
  \<^verbatim>\<open>json.RawMessage\<close>.
\<close>

section \<open>float64\<close>

text \<open>
  An IEEE 754 double is a rational, an infinity or not a number (the two zeros are one value here).
  \<open>f64_of_rat\<close> rounds to nearest, ties to even: a value of magnitude in
  \<open>[2^e, 2^(e+1))\<close> is a multiple of \<open>2^(max (e - 52) (-1074))\<close>.
\<close>

datatype f64 = Fin rat | PInf | NInf | NaN

definition pow2 :: "int \<Rightarrow> rat" where
  "pow2 e = (if 0 \<le> e then 2 ^ nat e else 1 / 2 ^ nat (- e))"

definition floor_log2 :: "rat \<Rightarrow> int" where
  "floor_log2 r =
     (let (p, q) = quotient_of r; e = bitlen p - bitlen q
      in if r < pow2 e then e - 1 else e)"

definition round_half_even :: "rat \<Rightarrow> int" where
  "round_half_even x =
     (let f = \<lfloor>x\<rfloor>; d = x - of_int f
      in if d < 1 / 2 then f else if 1 / 2 < d then f + 1 else if even f then f else f + 1)"

definition f64_of_rat :: "rat \<Rightarrow> f64" where
  "f64_of_rat r =
     (if r = 0 then Fin 0
      else let q = max (floor_log2 \<bar>r\<bar> - 52) (-1074);
               v = of_int (round_half_even (\<bar>r\<bar> / pow2 q)) * pow2 q
           in if 2 ^ 1024 \<le> v then (if 0 < r then PInf else NInf) else Fin (sgn r * v))"

definition f64_of_int :: "int \<Rightarrow> f64" where
  "f64_of_int k = f64_of_rat (of_int k)"

text \<open>\<^verbatim>\<open>a < b\<close>: false whenever one side is not a number.\<close>

fun f64_less :: "f64 \<Rightarrow> f64 \<Rightarrow> bool" where
  "f64_less (Fin a) (Fin b) \<longleftrightarrow> a < b"
| "f64_less (Fin a) PInf \<longleftrightarrow> True"
| "f64_less NInf (Fin b) \<longleftrightarrow> True"
| "f64_less NInf PInf \<longleftrightarrow> True"
| "f64_less _ _ \<longleftrightarrow> False"

text \<open>\<^verbatim>\<open>a + b\<close>, \<^verbatim>\<open>math.Min\<close> and \<^verbatim>\<open>math.Max\<close> on two finite numbers, the only arguments the code gives them.\<close>

definition f64_add_fin :: "rat \<Rightarrow> rat \<Rightarrow> f64" where
  "f64_add_fin a b = f64_of_rat (a + b)"

section \<open>interface{} values\<close>

text \<open>
  The kinds the code distinguishes by reflection: nil, booleans, the signed and the unsigned
  integers, floats, strings, slices and arrays, maps with string keys, maps with other keys, and
  every other kind (structs, pointers, channels, functions) as an opaque token.
  A map is a list of entries; a decoded or built Go map has each key once and no order.
\<close>

datatype gval =
    GNil
  | GBool bool
  | GInt int
  | GUint nat
  | GFloat f64
  | GString string
  | GSlice "gval list"
  | GMap "(string \<times> gval) list"
  | GOtherMap nat
  | GOpaque nat

type_synonym fields = "string \<rightharpoonup> gval"

section \<open>json.RawMessage\<close>

text \<open>
  The code looks at a raw message only through its length, through a comparison of its trimmed
  text with \<^verbatim>\<open>null\<close> and through \<^verbatim>\<open>json.Unmarshal\<close>, so a raw message is represented by what
  these see: no bytes, bytes that do not decode, or the decoded value.
\<close>

datatype raw_message = RawEmpty | RawBad string | RawJSON gval

text \<open>\<^verbatim>\<open>json.Unmarshal\<close> into \<^verbatim>\<open>map[string]interface{}\<close>: an object, or \<^verbatim>\<open>null\<close> for the nil map.\<close>

fun unmarshal_object :: "raw_message \<Rightarrow> (string \<times> gval) list option" where
  "unmarshal_object (RawJSON (GMap kvs)) = Some kvs"
| "unmarshal_object (RawJSON GNil) = Some []"
| "unmarshal_object _ = None"

text \<open>\<^verbatim>\<open>json.Unmarshal\<close> into \<^verbatim>\<open>interface{}\<close>.\<close>

fun unmarshal_any :: "raw_message \<Rightarrow> gval option" where
  "unmarshal_any (RawJSON v) = Some v"
| "unmarshal_any _ = None"

section \<open>References to node outputs in strings\<close>

text \<open>
  The pattern \<^verbatim>\<open>\{\{([a-zA-Z0-9_\-]+)\.([a-zA-Z0-9_\-]+)\}\}\<close>, used by the compiler and by the
  scheduler. The character classes contain neither a dot nor a brace, so the greedy match is the
  only match at a position; matches are leftmost and do not overlap.
\<close>

definition ref_char :: "char \<Rightarrow> bool" where
  "ref_char c \<longleftrightarrow> ascii_lower c \<or> ascii_upper c \<or> ascii_digit c \<or> c = CHR ''_'' \<or> c = CHR ''-''"

definition match_ref :: "string \<Rightarrow> (string \<times> string \<times> string) option" where
  "match_ref s =
     (let r = drop 2 s; a = takeWhile ref_char r; r1 = dropWhile ref_char r;
          b = takeWhile ref_char (drop 1 r1); r2 = dropWhile ref_char (drop 1 r1)
      in if prefix ''{{'' s \<and> a \<noteq> [] \<and> prefix ''.'' r1 \<and> b \<noteq> [] \<and> prefix ''}}'' r2
         then Some (a, b, drop 2 r2) else None)"

lemma match_ref_shorter: "match_ref s = Some (a, b, rest) \<Longrightarrow> length rest < length s"
proof -
  assume m: "match_ref s = Some (a, b, rest)"
  let ?r2 = "dropWhile ref_char (drop 1 (dropWhile ref_char (drop 2 s)))"
  have "rest = drop 2 ?r2" and "prefix ''}}'' ?r2"
    using m by (auto simp: match_ref_def Let_def split: if_splits)
  then have "length rest < length ?r2"
    by (auto dest: prefix_length_le)
  also have "length ?r2 \<le> length (drop 1 (dropWhile ref_char (drop 2 s)))"
    by (rule length_dropWhile_le)
  also have "\<dots> \<le> length (dropWhile ref_char (drop 2 s))" by simp
  also have "\<dots> \<le> length (drop 2 s)" by (rule length_dropWhile_le)
  also have "\<dots> \<le> length s" by simp
  finally show ?thesis .
qed

function find_refs :: "string \<Rightarrow> (string \<times> string) list" where
  "find_refs [] = []"
| "find_refs (c # cs) =
     (case match_ref (c # cs) of
        None \<Rightarrow> find_refs cs
      | Some (a, b, rest) \<Rightarrow> (a, b) # find_refs rest)"
  by pat_completeness auto
termination
  by (relation "measure length") (auto dest: match_ref_shorter)

end
