(* ===== verification/Workflow_DSL.thy ===== *)
theory Workflow_DSL
  imports Go_Values
begin

text \<open>
  The workflow definition language: the structs of
  \<^verbatim>\<open>src/internal/module/agent/workflow/dsl/dsl.go\<close>. A pointer field is an option, a slice a list.
\<close>

definition CurrentVersion :: string where
  "CurrentVersion = ''1.0''"

definition ReducerAppend :: string where "ReducerAppend = ''append''"
definition ReducerSum :: string where "ReducerSum = ''sum''"
definition ReducerMin :: string where "ReducerMin = ''min''"
definition ReducerMax :: string where "ReducerMax = ''max''"
definition ReducerMerge :: string where "ReducerMerge = ''merge''"
definition ReducerFirst :: string where "ReducerFirst = ''first''"
definition ReducerLast :: string where "ReducerLast = ''last''"

lemmas reducer_defs = ReducerAppend_def ReducerSum_def ReducerMin_def ReducerMax_def
  ReducerMerge_def ReducerFirst_def ReducerLast_def

record BudgetDSL =
  bd_MaxNodeExecutions :: int
  bd_MaxParallelNodes :: int
  bd_TimeoutSec :: int
  bd_MaxTotalTokens :: int
  bd_MaxEstimatedCostMicros :: int

record RetryPolicyDSL =
  rp_MaxAttempts :: int
  rp_InitialBackoffMS :: int
  rp_MaxBackoffMS :: int
  rp_Multiplier :: f64
  rp_Jitter :: f64

record StateWriteDSL =
  sw_Path :: string
  sw_Source :: string
  sw_Reducer :: string

record CompensationDSL =
  cp_ToolName :: string
  cp_Properties :: raw_message
  cp_TimeoutSec :: int
  cp_Retry :: "RetryPolicyDSL option"

record NodeDSL =
  nd_ID :: string
  nd_Type :: string
  nd_Properties :: raw_message
  nd_InputSchema :: raw_message
  nd_OutputSchema :: raw_message
  nd_TimeoutSec :: int
  nd_Retry :: "RetryPolicyDSL option"
  nd_Policy :: raw_message
  nd_ProfileRef :: string
  nd_ProviderRef :: string
  nd_Writes :: "StateWriteDSL list"
  nd_Compensation :: "CompensationDSL option"

record EdgeDSL =
  ed_ID :: string
  ed_Source :: string
  ed_Target :: string
  ed_SourceHandle :: string
  ed_TargetHandle :: string

record WorkflowDSL =
  wf_ID :: "64 word"
  wf_UserID :: "64 word"
  wf_Name :: string
  wf_DSLVersion :: string
  wf_WorkflowVersion :: int
  wf_Budget :: "BudgetDSL option"
  wf_Nodes :: "NodeDSL list"
  wf_Edges :: "EdgeDSL list"

end
