(* ===== verification/Graph_Loops.thy ===== *)
theory Graph_Loops
  imports Go_Prelude
begin

text \<open>
  The two graph loops of the workflow compiler
  (\<^verbatim>\<open>src/internal/module/agent/workflow/ir/compiler.go\<close>): the topological sort over a ready
  queue and the breadth-first reachability search, with what they compute on any finite graph.
  The ready queue is an interface (\<open>ready_queue\<close>): the loop relies only on a pop that removes one
  of the queued elements.
\<close>

section \<open>The loops\<close>

text \<open>The inner loop over the outgoing edges of a popped node.\<close>

fun relax_edges :: "('a \<Rightarrow> 'q \<Rightarrow> 'q) \<Rightarrow> ('e \<Rightarrow> 'a) \<Rightarrow> 'e list \<Rightarrow> ('a \<rightharpoonup> int) \<Rightarrow> 'q \<Rightarrow> ('a \<rightharpoonup> int) \<times> 'q" where
  "relax_edges push target [] deg ready = (deg, ready)"
| "relax_edges push target (e # es) deg ready =
     (let d = map_get 0 deg (target e) - 1
      in relax_edges push target es (deg(target e \<mapsto> d)) (if d = 0 then push (target e) ready else ready))"

text \<open>The outer loop \<^verbatim>\<open>for ready.Len() > 0\<close>, with fuel.\<close>

fun topo_loop :: "nat \<Rightarrow> ('a \<Rightarrow> 'q \<Rightarrow> 'q) \<Rightarrow> ('q \<Rightarrow> ('a \<times> 'q) option) \<Rightarrow> ('e \<Rightarrow> 'a) \<Rightarrow> ('a \<Rightarrow> 'e list)
    \<Rightarrow> ('a \<rightharpoonup> int) \<Rightarrow> 'q \<Rightarrow> 'a list \<Rightarrow> 'a list option" where
  "topo_loop 0 push pop target out deg ready res = None"
| "topo_loop (Suc fuel) push pop target out deg ready res =
     (case pop ready of
        None \<Rightarrow> Some res
      | Some (i, ready1) \<Rightarrow>
          (let (deg', ready2) = relax_edges push target (out i) deg ready1
           in topo_loop fuel push pop target out deg' ready2 (res @ [i])))"

text \<open>
  \<^verbatim>\<open>hasPath\<close>: breadth-first search. \<open>scan_targets\<close> is the loop over the outgoing edges of the
  current node, \<open>None\<close> when it meets the target.
\<close>

fun scan_targets :: "'a \<Rightarrow> 'a list \<Rightarrow> 'a list \<Rightarrow> 'a list \<Rightarrow> ('a list \<times> 'a list) option" where
  "scan_targets t [] queue visited = Some (queue, visited)"
| "scan_targets t (x # xs) queue visited =
     (if x = t then None
      else if x \<in> set visited then scan_targets t xs queue visited
      else scan_targets t xs (queue @ [x]) (x # visited))"

fun bfs_loop :: "nat \<Rightarrow> ('a \<Rightarrow> 'a list) \<Rightarrow> 'a \<Rightarrow> 'a list \<Rightarrow> 'a list \<Rightarrow> bool option" where
  "bfs_loop fuel succs t [] visited = Some False"
| "bfs_loop 0 succs t (x # queue) visited = None"
| "bfs_loop (Suc fuel) succs t (x # queue) visited =
     (case scan_targets t (succs x) queue visited of
        None \<Rightarrow> Some True
      | Some (queue', visited') \<Rightarrow> bfs_loop fuel succs t queue' visited')"


section \<open>The ready queue as an interface\<close>

locale ready_queue =
  fixes push :: "'a \<Rightarrow> 'q \<Rightarrow> 'q"
    and pop :: "'q \<Rightarrow> ('a \<times> 'q) option"
    and elems :: "'q \<Rightarrow> 'a multiset"
  assumes elems_push: "elems (push x q) = add_mset x (elems q)"
    and pop_None: "pop q = None \<longleftrightarrow> elems q = {#}"
    and pop_Some: "pop q = Some (x, q') \<Longrightarrow> elems q = add_mset x (elems q')"
begin

text \<open>
  What one round of relaxation does, in closed form: every degree drops by the number of edges
  into the vertex, and a vertex is queued exactly when its degree reaches zero on the way.
\<close>

lemma relax_edges_degree:
  "relax_edges push target es deg q = (deg', q') \<Longrightarrow>
     map_get 0 deg' t = map_get 0 deg t - int (count_list (map target es) t)"
proof (induction es arbitrary: deg q)
  case (Cons e es)
  from Cons.IH Cons.prems show ?case by (fastforce simp: Let_def)
qed simp

lemma relax_edges_queue:
  "relax_edges push target es deg q = (deg', q') \<Longrightarrow>
     count (elems q') t = count (elems q) t +
       (if 1 \<le> map_get 0 deg t \<and> map_get 0 deg t \<le> int (count_list (map target es) t) then 1 else 0)"
proof (induction es arbitrary: deg q)
  case (Cons e es)
  let ?d = "map_get 0 deg (target e) - 1"
  have "relax_edges push target es (deg(target e \<mapsto> ?d)) (if ?d = 0 then push (target e) q else q) = (deg', q')"
    using Cons.prems by (simp only: relax_edges.simps Let_def)
  from Cons.IH [OF this] show ?case by (auto simp: elems_push simp del: fun_upd_apply)
qed auto

end

section \<open>Correctness of the topological loop\<close>

definition edge_rel :: "('e \<Rightarrow> 'a) \<Rightarrow> ('e \<Rightarrow> 'a) \<Rightarrow> 'e list \<Rightarrow> 'a rel" where
  "edge_rel source target es = (\<lambda>e. (source e, target e)) ` set es"

definition open_degree :: "('e \<Rightarrow> 'a) \<Rightarrow> ('e \<Rightarrow> 'a) \<Rightarrow> 'e list \<Rightarrow> 'a set \<Rightarrow> 'a \<Rightarrow> nat" where
  "open_degree source target es X t = length (filter (\<lambda>e. target e = t \<and> source e \<notin> X) es)"

definition ordered_prefix :: "('e \<Rightarrow> 'a) \<Rightarrow> ('e \<Rightarrow> 'a) \<Rightarrow> 'e list \<Rightarrow> 'a list \<Rightarrow> bool" where
  "ordered_prefix source target es res \<longleftrightarrow>
     (\<forall>i < length res. \<forall>e \<in> set es. target e = res ! i \<longrightarrow> source e \<in> set (take i res))"

text \<open>
  The loop invariant: no vertex is emitted or queued twice, the degree of a vertex counts its
  edges from vertices not yet emitted, a vertex is emitted or queued exactly when that degree is
  zero, and the emitted vertices are in order.
\<close>

definition topo_inv :: "'a list \<Rightarrow> ('e \<Rightarrow> 'a) \<Rightarrow> ('e \<Rightarrow> 'a) \<Rightarrow> 'e list \<Rightarrow> ('a \<rightharpoonup> int) \<Rightarrow> 'a multiset
    \<Rightarrow> 'a list \<Rightarrow> bool" where
  "topo_inv V source target es deg R res \<longleftrightarrow>
     (\<forall>t. count (mset res + R) t \<le> 1) \<and> set_mset (mset res + R) \<subseteq> set V \<and>
     (\<forall>t \<in> set V. map_get 0 deg t = int (open_degree source target es (set res) t)) \<and>
     (\<forall>t \<in> set V. map_get 0 deg t = 0 \<longleftrightarrow> t \<in># mset res + R) \<and>
     ordered_prefix source target es res"

lemma open_degree_insert:
  assumes "i \<notin> X"
  shows "open_degree source target es X t =
    open_degree source target es (insert i X) t + length (filter (\<lambda>e. source e = i \<and> target e = t) es)"
  using assms by (induction es) (auto simp: open_degree_def)

lemma open_degree_0_iff:
  "open_degree source target es X t = 0 \<longleftrightarrow> (\<forall>e \<in> set es. target e = t \<longrightarrow> source e \<in> X)"
  by (auto simp: open_degree_def filter_empty_conv)

lemma ordered_prefix_snoc:
  assumes "ordered_prefix source target es res" "\<forall>e \<in> set es. target e = x \<longrightarrow> source e \<in> set res"
  shows "ordered_prefix source target es (res @ [x])"
  using assms by (auto simp: ordered_prefix_def nth_append less_Suc_eq)

lemma count_targets:
  assumes "mset out = mset (filter (\<lambda>e. source e = i) es)"
  shows "count_list (map target out) t = length (filter (\<lambda>e. source e = i \<and> target e = t) es)"
proof -
  have "count_list (map target out) t = size (filter_mset (\<lambda>e. target e = t) (mset out))"
    by (induction out) auto
  also have "\<dots> = size (mset (filter (\<lambda>e. target e = t) (filter (\<lambda>e. source e = i) es)))"
    by (simp only: assms mset_filter)
  also have "\<dots> = length (filter (\<lambda>e. source e = i \<and> target e = t) es)"
    by (simp add: conj_commute flip: mset_filter)
  finally show ?thesis .
qed

context ready_queue
begin

lemma topo_inv_step:
  assumes inv: "topo_inv V source target es deg (elems q) res"
    and pop: "pop q = Some (i, q1)"
    and out: "mset out = mset (filter (\<lambda>e. source e = i) es)"
    and tgt: "\<forall>e \<in> set es. target e \<in> set V"
    and relax: "relax_edges push target out deg q1 = (deg', q2)"
  shows "topo_inv V source target es deg' (elems q2) (res @ [i])"
proof -
  have el: "elems q = add_mset i (elems q1)" using pop by (rule pop_Some)
  let ?c = "\<lambda>t. length (filter (\<lambda>e. source e = i \<and> target e = t) es)"
  let ?od = "open_degree source target es"
  note eff = relax_edges_degree [OF relax, unfolded count_targets [OF out]]
    relax_edges_queue [OF relax, unfolded count_targets [OF out]]
  have one: "count (mset res + elems q) t \<le> 1" for t using inv by (simp add: topo_inv_def)
  have iV: "i \<in> set V" using inv el by (simp add: topo_inv_def)
  have inot: "i \<notin> set res" using one [of i] el by (auto simp: count_eq_zero_iff)
  have degV: "map_get 0 deg t = int (?od (set res) t)" if "t \<in> set V" for t
    using inv that by (simp add: topo_inv_def)
  have zeroV: "map_get 0 deg t = 0 \<longleftrightarrow> t \<in># mset res + elems q" if "t \<in> set V" for t
    using inv that unfolding topo_inv_def by blast
  have deg'V: "map_get 0 deg' t = int (?od (set (res @ [i])) t)" if "t \<in> set V" for t
    using degV [OF that] eff(1) open_degree_insert [OF inot, of source target es t] by simp
  have c0: "?c t = 0" if "t \<notin> set V" for t
    using that tgt by (auto simp: filter_empty_conv)
  have cle: "int (?c t) \<le> map_get 0 deg t" if "t \<in> set V" for t
    using degV [OF that] open_degree_insert [OF inot, of source target es t] by simp
  have new: "count (mset (res @ [i]) + elems q2) t =
      count (mset res + elems q) t + (if t \<in> set V \<and> map_get 0 deg t \<noteq> 0 \<and> map_get 0 deg' t = 0 then 1 else 0)" for t
    using eff(1) [of t] eff(2) [of t] c0 [of t] cle [of t] degV [of t] el by (cases "t \<in> set V") auto
  have cnt: "count (mset (res @ [i]) + elems q2) t \<le> 1" for t
  proof (cases "t \<in> set V \<and> map_get 0 deg t \<noteq> 0")
    case True
    then have "count (mset res + elems q) t = 0" using zeroV by (auto simp: not_in_iff)
    then show ?thesis unfolding new using one [of t] by simp
  next
    case False
    then show ?thesis using new [of t] one [of t] by auto
  qed
  have sub: "set_mset (mset (res @ [i]) + elems q2) \<subseteq> set V"
  proof
    fix t assume "t \<in># mset (res @ [i]) + elems q2"
    then have "0 < count (mset (res @ [i]) + elems q2) t" by (simp only: count_greater_zero_iff)
    then have "0 < count (mset res + elems q) t \<or> t \<in> set V" using new [of t] by (auto split: if_splits)
    moreover have "set_mset (mset res + elems q) \<subseteq> set V" using inv by (simp add: topo_inv_def)
    ultimately show "t \<in> set V" by (metis count_greater_zero_iff subsetD)
  qed
  have zero: "map_get 0 deg' t = 0 \<longleftrightarrow> t \<in># mset (res @ [i]) + elems q2" if "t \<in> set V" for t
  proof -
    have "map_get 0 deg' t = 0 \<longleftrightarrow> 0 < count (mset (res @ [i]) + elems q2) t"
    proof (cases "map_get 0 deg t = 0")
      case True
      then have "0 < count (mset res + elems q) t" using zeroV [OF that] by simp
      moreover have "?c t = 0" using cle [OF that] True by linarith
      ultimately show ?thesis using new [of t] eff(1) [of t] True by simp
    next
      case False
      then have "count (mset res + elems q) t = 0" using zeroV [OF that] by (auto simp: not_in_iff)
      then show ?thesis using new [of t] that False by simp
    qed
    then show ?thesis by (simp only: count_greater_zero_iff)
  qed
  have "?od (set res) i = 0" using zeroV [OF iV] degV [OF iV] el by simp
  then have "ordered_prefix source target es (res @ [i])"
    using inv by (intro ordered_prefix_snoc) (auto simp: topo_inv_def open_degree_0_iff)
  then show ?thesis using cnt sub deg'V zero unfolding topo_inv_def by blast
qed

lemma topo_inv_distinct: "topo_inv V source target es deg R res \<Longrightarrow> distinct res \<and> set res \<subseteq> set V"
proof -
  assume inv: "topo_inv V source target es deg R res"
  have "count (mset res) t \<le> 1" for t
    using inv by (metis add_leD1 count_union topo_inv_def)
  then have "count (mset res) t = (if t \<in> set res then 1 else 0)" for t
    by (metis count_greater_eq_one_iff count_inI le_antisym set_mset_mset)
  then show ?thesis using inv by (auto simp: distinct_count_atmost_1 topo_inv_def)
qed

lemma topo_loop_correct:
  assumes "topo_inv V source target es deg (elems q) res" "length V < fuel + length res"
    and out: "\<And>i. i \<in> set V \<Longrightarrow> mset (out i) = mset (filter (\<lambda>e. source e = i) es)"
    and ends: "\<forall>e \<in> set es. source e \<in> set V \<and> target e \<in> set V"
  shows "\<exists>r. topo_loop fuel push pop target out deg q res = Some r \<and> distinct r \<and> set r \<subseteq> set V
    \<and> ordered_prefix source target es r
    \<and> (\<forall>t \<in> set V - set r. \<exists>e \<in> set es. target e = t \<and> source e \<in> set V - set r)"
  using assms(1,2)
proof (induction fuel arbitrary: deg q res)
  case 0
  then have "length res \<le> length V"
    using topo_inv_distinct [OF 0(1)] by (metis card_length card_mono distinct_card finite_set le_trans)
  with 0 show ?case by simp
next
  case (Suc fuel)
  show ?case
  proof (cases "pop q")
    case None
    then have "elems q = {#}" by (simp add: pop_None)
    then have "\<exists>e \<in> set es. target e = t \<and> source e \<in> set V - set res" if "t \<in> set V - set res" for t
      using Suc.prems(1) that ends open_degree_0_iff [of source target es "set res" t]
      by (auto simp: topo_inv_def)
    then show ?thesis
      using None topo_inv_distinct [OF Suc.prems(1)] Suc.prems(1) by (auto simp: topo_inv_def)
  next
    case (Some a)
    then obtain i q1 where pop: "pop q = Some (i, q1)" by (cases a) auto
    then have "elems q = add_mset i (elems q1)" by (rule pop_Some)
    then have "i \<in> set V" using Suc.prems(1) by (simp add: topo_inv_def)
    obtain deg' q2 where rel: "relax_edges push target (out i) deg q1 = (deg', q2)"
      by (cases "relax_edges push target (out i) deg q1")
    have "topo_inv V source target es deg' (elems q2) (res @ [i])"
      using topo_inv_step [OF Suc.prems(1) pop out [OF \<open>i \<in> set V\<close>] _ rel] ends by blast
    from Suc.IH [OF this] Suc.prems(2) show ?thesis by (simp add: pop rel)
  qed
qed

end

text \<open>A nonempty finite set in which every vertex has a predecessor contains a cycle.\<close>

lemma predecessors_cyclic:
  assumes "finite E" "U \<noteq> {}" "\<And>t. t \<in> U \<Longrightarrow> \<exists>s \<in> U. (s, t) \<in> E"
  shows "\<not> acyclic E"
proof
  assume "acyclic E"
  then have "wf E" using assms(1) by (rule finite_acyclic_wf [rotated])
  then obtain z where "z \<in> U" "\<And>y. (y, z) \<in> E \<Longrightarrow> y \<notin> U"
    using assms(2) by (metis wf_eq_minimal equals0I)
  with assms(3) show False by blast
qed

lemma ordered_prefix_before:
  assumes "ordered_prefix source target es r" "distinct r" "e \<in> set es" "i < length r" "target e = r ! i"
  shows "\<exists>j < i. source e = r ! j"
proof -
  have "source e \<in> set (take i r)" using assms by (auto simp: ordered_prefix_def)
  then show ?thesis using assms(4) by (auto simp: in_set_conv_nth)
qed

lemma ordered_acyclic:
  assumes "ordered_prefix source target es r" "distinct r" "\<forall>e \<in> set es. target e \<in> set r"
  shows "acyclic (edge_rel source target es)"
proof -
  let ?pos = "\<lambda>x. THE i. i < length r \<and> r ! i = x"
  have pos: "?pos (r ! i) = i" if "i < length r" for i
    using that assms(2) by (auto intro!: the_equality simp: nth_eq_iff_index_eq)
  have "(x, y) \<in> edge_rel source target es \<Longrightarrow> ?pos x < ?pos y" for x y
  proof -
    assume "(x, y) \<in> edge_rel source target es"
    then obtain e where e: "e \<in> set es" "x = source e" "y = target e" by (auto simp: edge_rel_def)
    then obtain i where i: "i < length r" "r ! i = y" using assms(3) by (metis in_set_conv_nth)
    with ordered_prefix_before [OF assms(1,2) e(1)] e obtain j where "j < i" "x = r ! j" by metis
    with i pos show ?thesis by fastforce
  qed
  then have "edge_rel source target es \<subseteq> measure ?pos" by auto
  then show ?thesis by (meson acyclic_subset wf_acyclic wf_measure)
qed

lemma complete_iff_acyclic:
  assumes r: "distinct r" "set r \<subseteq> set V" "ordered_prefix source target es r" "distinct V"
    and ends: "\<forall>e \<in> set es. source e \<in> set V \<and> target e \<in> set V"
    and rest: "\<forall>t \<in> set V - set r. \<exists>e \<in> set es. target e = t \<and> source e \<in> set V - set r"
  shows "length r = length V \<longleftrightarrow> acyclic (edge_rel source target es)"
proof
  assume "length r = length V"
  then have "set r = set V" using r by (metis card_subset_eq distinct_card finite_set)
  with r ends show "acyclic (edge_rel source target es)" by (intro ordered_acyclic [of _ _ _ r]) auto
next
  assume ac: "acyclic (edge_rel source target es)"
  have fin: "finite (edge_rel source target es)" by (simp add: edge_rel_def)
  have "set V - set r = {}"
  proof (rule ccontr)
    assume ne: "set V - set r \<noteq> {}"
    have "\<exists>s \<in> set V - set r. (s, t) \<in> edge_rel source target es" if "t \<in> set V - set r" for t
      using rest that unfolding edge_rel_def by (metis (no_types, lifting) image_eqI)
    from predecessors_cyclic [OF fin ne this] ac show False by blast
  qed
  then have "set r = set V" using r by blast
  then show "length r = length V" using r by (metis distinct_card)
qed

section \<open>Correctness of the breadth-first search\<close>

definition succ_rel :: "('a \<Rightarrow> 'a list) \<Rightarrow> 'a rel" where
  "succ_rel succs = {(x, y). y \<in> set (succs x)}"

lemma scan_targets_None_iff: "scan_targets t xs queue visited = None \<longleftrightarrow> t \<in> set xs"
  by (induction t xs queue visited rule: scan_targets.induct) auto

lemma scan_targets_Some:
  assumes "scan_targets t xs queue visited = Some (queue', visited')"
  shows "set visited' = set visited \<union> set xs" "\<exists>new. queue' = queue @ new \<and> visited' = rev new @ visited"
    "set queue' = set queue \<union> (set xs - set visited)" "distinct visited \<Longrightarrow> distinct visited'"
  using assms by (induction t xs queue visited rule: scan_targets.induct) (auto split: if_splits)

text \<open>
  Search invariant: everything visited is reachable from the source, and the successors of the
  vertices that left the queue are visited and are not the target.
\<close>

definition bfs_inv :: "('a \<Rightarrow> 'a list) \<Rightarrow> 'a \<Rightarrow> 'a \<Rightarrow> 'a list \<Rightarrow> 'a list \<Rightarrow> bool" where
  "bfs_inv succs s t queue visited \<longleftrightarrow>
     s \<in> set visited \<and> set queue \<subseteq> set visited \<and> distinct visited \<and>
     (\<forall>x \<in> set visited. (s, x) \<in> (succ_rel succs)\<^sup>*) \<and>
     (\<forall>x \<in> set visited - set queue. set (succs x) \<subseteq> set visited \<and> t \<notin> set (succs x))"

lemma bfs_inv_step:
  assumes inv: "bfs_inv succs s t (x # queue) visited"
    and sc: "scan_targets t (succs x) queue visited = Some (queue', visited')"
  shows "bfs_inv succs s t queue' visited'"
proof -
  have nt: "t \<notin> set (succs x)" using sc scan_targets_None_iff by (metis option.distinct(1))
  have sx: "(s, x) \<in> (succ_rel succs)\<^sup>*" using inv by (simp add: bfs_inv_def)
  then have reach: "(s, y) \<in> (succ_rel succs)\<^sup>*" if "y \<in> set (succs x)" for y
    using that by (auto simp: succ_rel_def intro: rtrancl_into_rtrancl)
  note eff = scan_targets_Some [OF sc]
  show ?thesis
    unfolding bfs_inv_def eff(1) eff(3)
    using inv nt reach eff(4) by (auto simp: bfs_inv_def)
qed

lemma bfs_inv_no_path:
  assumes "bfs_inv succs s t [] visited"
  shows "(s, t) \<notin> (succ_rel succs)\<^sup>+"
proof
  assume "(s, t) \<in> (succ_rel succs)\<^sup>+"
  then obtain x where x: "(s, x) \<in> (succ_rel succs)\<^sup>*" "(x, t) \<in> succ_rel succs"
    by (meson tranclD2)
  from x(1) have "x \<in> set visited"
    by (induction rule: rtrancl_induct) (use assms in \<open>auto simp: bfs_inv_def succ_rel_def\<close>)
  with x(2) assms show False by (auto simp: bfs_inv_def succ_rel_def)
qed

text \<open>
  With fuel for every vertex that can still be queued the search answers, and the answer is
  reachability in one or more steps. \<open>N\<close> bounds the vertices: the source and all successors.
\<close>

lemma bfs_loop_correct:
  assumes "bfs_inv succs s t queue visited" "set visited \<subseteq> N" "finite N"
    and "\<And>x. set (succs x) \<subseteq> N" "card N + length queue \<le> fuel + length visited"
  shows "bfs_loop fuel succs t queue visited = Some ((s, t) \<in> (succ_rel succs)\<^sup>+)"
  using assms(1,2,5)
proof (induction fuel arbitrary: queue visited)
  case 0
  have "length visited \<le> card N"
    using 0 assms(3) by (metis bfs_inv_def card_mono distinct_card)
  with 0 have "length queue = 0" by linarith
  with 0 show ?case using bfs_inv_no_path by fastforce
next
  case (Suc fuel)
  show ?case
  proof (cases queue)
    case Nil
    with Suc show ?thesis using bfs_inv_no_path by fastforce
  next
    case (Cons x rest)
    show ?thesis
    proof (cases "scan_targets t (succs x) rest visited")
      case None
      then have "t \<in> set (succs x)" by (simp add: scan_targets_None_iff)
      moreover have "(s, x) \<in> (succ_rel succs)\<^sup>*" using Suc.prems Cons by (simp add: bfs_inv_def)
      ultimately have "(s, t) \<in> (succ_rel succs)\<^sup>+"
        by (auto simp: succ_rel_def intro: rtrancl_into_trancl1)
      with None Cons show ?thesis by simp
    next
      case (Some a)
      then obtain queue' visited' where sc: "scan_targets t (succs x) rest visited = Some (queue', visited')"
        by (cases a) auto
      obtain new where "queue' = rest @ new" "visited' = rev new @ visited"
        using scan_targets_Some(2) [OF sc] by blast
      then have fuel: "card N + length queue' \<le> fuel + length visited'" using Suc.prems(3) Cons by simp
      have "set visited' \<subseteq> N" unfolding scan_targets_Some(1) [OF sc] using Suc.prems(2) assms(4) by blast
      then have "bfs_loop fuel succs t queue' visited' = Some ((s, t) \<in> (succ_rel succs)\<^sup>+)"
        using Suc.IH bfs_inv_step [OF Suc.prems(1) [unfolded Cons] sc] fuel by blast
      then show ?thesis using sc Cons by simp
    qed
  qed
qed

end
