(* ===== verification/Workflow_IR.thy ===== *)
theory Workflow_IR
  imports Workflow_DSL Graph_Loops
begin

text \<open>
  The workflow compiler, \<^verbatim>\<open>src/internal/module/agent/workflow/ir/compiler.go\<close>: \<open>Compile\<close> turns a
  definition into an immutable plan, or refuses it. Every \<^verbatim>\<open>return nil, fmt.Errorf\<close> is a
  constructor of \<open>compile_error\<close>. Clones made so that callers cannot share memory with the plan
  are the identity on these immutable values.
\<close>

section \<open>Data\<close>

datatype compile_error =
    NilDefinition
  | NoNodes
  | UnsupportedVersion string
  | BadWorkflowVersion
  | BadBudget string
  | EmptyNodeID
  | EmptyNodeType string
  | NegativeTimeout string
  | BadJSON string
  | BadRetry string string
  | EmptyWritePath string
  | BadWritePath string string
  | BadWriteSource string string
  | DuplicateWritePath string string
  | UnsupportedReducer string string
  | CompensationNotTool string
  | BadCompensationTool string
  | NegativeCompensationTimeout string
  | DuplicateNode string
  | EmptyEdgeID
  | DuplicateEdge string
  | UnknownSource string string
  | UnknownTarget string string
  | SelfEdge string string
  | CycleDetected
  | TopologicalFuel
  | UnknownReference string string
  | NoUpstreamPath string string
  | UnknownCompensationReference string string
  | NoCompensationUpstreamPath string string
  | MixedReducers string string string
  | ParallelWritesWithoutReducer string string string

record Node =
  n_ID :: string
  n_Type :: string
  n_Properties :: raw_message
  n_InputSchema :: raw_message
  n_OutputSchema :: raw_message
  n_TimeoutSec :: int
  n_Retry :: "RetryPolicyDSL option"
  n_Policy :: raw_message
  n_ProfileRef :: string
  n_ProviderRef :: string
  n_Writes :: "StateWriteDSL list"
  n_Compensation :: "CompensationDSL option"
  n_DeclarationRank :: nat

record Edge =
  e_ID :: string
  e_Source :: string
  e_Target :: string
  e_SourceHandle :: string
  e_TargetHandle :: string

record Plan =
  p_dslVersion :: string
  p_workflowVersion :: int
  p_nodes :: "Node list"
  p_edges :: "Edge list"
  p_nodeByID :: "string \<rightharpoonup> Node"
  p_nodeOrder :: "string \<rightharpoonup> nat"
  p_outgoing :: "string \<rightharpoonup> Edge list"
  p_inDegree :: "string \<rightharpoonup> int"
  p_topological :: "string list"

section \<open>Accessors\<close>

definition Plan_Node :: "Plan \<Rightarrow> string \<Rightarrow> Node option" where
  "Plan_Node p i = p_nodeByID p i"

definition Plan_NodeOrder :: "Plan \<Rightarrow> string \<Rightarrow> int" where
  "Plan_NodeOrder p i = (case p_nodeOrder p i of None \<Rightarrow> -1 | Some k \<Rightarrow> int k)"

definition Plan_Outgoing :: "Plan \<Rightarrow> string \<Rightarrow> Edge list" where
  "Plan_Outgoing p i = map_get [] (p_outgoing p) i"

definition Plan_InDegree :: "Plan \<Rightarrow> string \<Rightarrow> int" where
  "Plan_InDegree p i = map_get 0 (p_inDegree p) i"

section \<open>Validation of one node or edge\<close>

definition maxWorkflowNodeExecutions :: int where "maxWorkflowNodeExecutions = 1000"
definition maxWorkflowParallelNodes :: int where "maxWorkflowParallelNodes = 64"
definition maxWorkflowTimeoutSec :: int where "maxWorkflowTimeoutSec = 3600"
definition maxWorkflowTotalTokens :: int where "maxWorkflowTotalTokens = 10000000"
definition maxWorkflowCostMicros :: int where "maxWorkflowCostMicros = 1000000000000"

definition supportedReducers :: "string list" where
  "supportedReducers = [ReducerAppend, ReducerSum, ReducerMin, ReducerMax, ReducerMerge,
     ReducerFirst, ReducerLast]"

definition validateWorkflowBudget :: "BudgetDSL option \<Rightarrow> compile_error + unit" where
  "validateWorkflowBudget budget = (case budget of None \<Rightarrow> Inr () | Some b \<Rightarrow>
     if bd_MaxNodeExecutions b < 0 \<or> maxWorkflowNodeExecutions < bd_MaxNodeExecutions b
     then Inl (BadBudget ''max_node_executions'')
     else if bd_MaxParallelNodes b < 0 \<or> maxWorkflowParallelNodes < bd_MaxParallelNodes b
     then Inl (BadBudget ''max_parallel_nodes'')
     else if bd_TimeoutSec b < 0 \<or> maxWorkflowTimeoutSec < bd_TimeoutSec b
     then Inl (BadBudget ''timeout_sec'')
     else if bd_MaxTotalTokens b < 0 \<or> maxWorkflowTotalTokens < bd_MaxTotalTokens b
     then Inl (BadBudget ''max_total_tokens'')
     else if bd_MaxEstimatedCostMicros b < 0 \<or> maxWorkflowCostMicros < bd_MaxEstimatedCostMicros b
     then Inl (BadBudget ''max_estimated_cost_micros'')
     else Inr ())"

definition normalizeDSLVersion :: "string \<Rightarrow> compile_error + string" where
  "normalizeDSLVersion value =
     (if trim_space value \<in> set [[], ''1'', CurrentVersion] then Inr CurrentVersion
      else Inl (UnsupportedVersion value))"

fun state_ident_chars :: "bool \<Rightarrow> string \<Rightarrow> bool" where
  "state_ident_chars later [] = True"
| "state_ident_chars later (c # cs) =
     ((ascii_lower c \<or> ascii_upper c \<or> c = CHR ''_'' \<or> later \<and> ascii_digit c \<or> later \<and> c = CHR ''-'')
      \<and> state_ident_chars True cs)"

definition isStateIdentifier :: "string \<Rightarrow> bool" where
  "isStateIdentifier value \<longleftrightarrow> value \<noteq> [] \<and> state_ident_chars False value"

definition validateJSONObject :: "raw_message \<Rightarrow> string \<Rightarrow> compile_error + unit" where
  "validateJSONObject raw label = (case raw of
       RawEmpty \<Rightarrow> Inr ()
     | RawBad s \<Rightarrow> if trim_space s = ''null'' then Inr () else Inl (BadJSON label)
     | RawJSON v \<Rightarrow> if unmarshal_object raw = None then Inl (BadJSON label) else Inr ())"

definition validateRetry :: "string \<Rightarrow> RetryPolicyDSL option \<Rightarrow> compile_error + unit" where
  "validateRetry nodeID retry = (case retry of None \<Rightarrow> Inr () | Some r \<Rightarrow>
     if rp_MaxAttempts r < 0 \<or> 10 < rp_MaxAttempts r then Inl (BadRetry nodeID ''max_attempts'')
     else if rp_InitialBackoffMS r < 0 \<or> rp_MaxBackoffMS r < 0 then Inl (BadRetry nodeID ''backoff'')
     else if 0 < rp_MaxBackoffMS r \<and> rp_MaxBackoffMS r < rp_InitialBackoffMS r
     then Inl (BadRetry nodeID ''initial_backoff_ms'')
     else if f64_less (rp_Multiplier r) (Fin 0) \<or> f64_less (rp_Jitter r) (Fin 0)
       \<or> f64_less (Fin 1) (rp_Jitter r)
     then Inl (BadRetry nodeID ''multiplier/jitter'')
     else Inr ())"

text \<open>The loop over \<^verbatim>\<open>source.Writes\<close>; \<open>seen\<close> is \<^verbatim>\<open>seenWritePaths\<close>.\<close>

fun compile_writes :: "string \<Rightarrow> string list \<Rightarrow> StateWriteDSL list
    \<Rightarrow> compile_error + StateWriteDSL list" where
  "compile_writes i seen [] = Inr []"
| "compile_writes i seen (w # ws) =
     (let path = trim_space (sw_Path w); src0 = trim_space (sw_Source w);
          red = to_lower (trim_space (sw_Reducer w)); parts = split_on CHR ''.'' path
      in if path = [] then Inl (EmptyWritePath i)
         else if length parts \<noteq> 2 \<or> \<not> isStateIdentifier (parts ! 0) \<or> \<not> isStateIdentifier (parts ! 1)
         then Inl (BadWritePath i path)
         else let src = (if src0 = [] then parts ! 1 else src0)
              in if \<not> isStateIdentifier src then Inl (BadWriteSource i src)
                 else if path \<in> set seen then Inl (DuplicateWritePath i path)
                 else if red \<noteq> [] \<and> red \<notin> set supportedReducers then Inl (UnsupportedReducer i red)
                 else bind_res (compile_writes i (path # seen) ws) (\<lambda>rest.
                        Inr (\<lparr>sw_Path = path, sw_Source = src, sw_Reducer = red\<rparr> # rest)))"

definition compileCompensation :: "string \<Rightarrow> string \<Rightarrow> CompensationDSL option
    \<Rightarrow> compile_error + CompensationDSL option" where
  "compileCompensation nodeID nodeType source = (case source of None \<Rightarrow> Inr None | Some c \<Rightarrow>
     if nodeType \<noteq> ''tool'' then Inl (CompensationNotTool nodeID)
     else let toolName = trim_space (cp_ToolName c)
          in if toolName = [] \<or> \<not> isStateIdentifier toolName then Inl (BadCompensationTool nodeID)
             else if cp_TimeoutSec c < 0 then Inl (NegativeCompensationTimeout nodeID)
             else bind_res (validateJSONObject (cp_Properties c)
                     (''node '' @ nodeID @ '' compensation properties'')) (\<lambda>_.
                  bind_res (validateRetry (nodeID @ '' compensation'') (cp_Retry c)) (\<lambda>_.
                  Inr (Some \<lparr>cp_ToolName = toolName, cp_Properties = cp_Properties c,
                     cp_TimeoutSec = cp_TimeoutSec c, cp_Retry = cp_Retry c\<rparr>))))"

definition compileNode :: "NodeDSL \<Rightarrow> nat \<Rightarrow> compile_error + Node" where
  "compileNode source declarationRank =
     (let i = trim_space (nd_ID source); nodeType = trim_space (nd_Type source)
      in if i = [] then Inl EmptyNodeID
         else if nodeType = [] then Inl (EmptyNodeType i)
         else if nd_TimeoutSec source < 0 then Inl (NegativeTimeout i)
         else bind_res (validateJSONObject (nd_Properties source) (''node '' @ i @ '' properties'')) (\<lambda>_.
              bind_res (validateJSONObject (nd_InputSchema source) (''node '' @ i @ '' input_schema'')) (\<lambda>_.
              bind_res (validateJSONObject (nd_OutputSchema source) (''node '' @ i @ '' output_schema'')) (\<lambda>_.
              bind_res (validateJSONObject (nd_Policy source) (''node '' @ i @ '' policy'')) (\<lambda>_.
              bind_res (validateRetry i (nd_Retry source)) (\<lambda>_.
              bind_res (compile_writes i [] (nd_Writes source)) (\<lambda>writes.
              bind_res (compileCompensation i nodeType (nd_Compensation source)) (\<lambda>compensation.
              Inr \<lparr>n_ID = i, n_Type = nodeType, n_Properties = nd_Properties source,
                n_InputSchema = nd_InputSchema source, n_OutputSchema = nd_OutputSchema source,
                n_TimeoutSec = nd_TimeoutSec source, n_Retry = nd_Retry source,
                n_Policy = nd_Policy source, n_ProfileRef = trim_space (nd_ProfileRef source),
                n_ProviderRef = trim_space (nd_ProviderRef source), n_Writes = writes,
                n_Compensation = compensation, n_DeclarationRank = declarationRank\<rparr>))))))))"

text \<open>\<^verbatim>\<open>compileEdge\<close> inserts the edge id into \<open>seen\<close>; the model returns the grown list.\<close>

definition compileEdge :: "EdgeDSL \<Rightarrow> (string \<rightharpoonup> Node) \<Rightarrow> string list
    \<Rightarrow> compile_error + Edge \<times> string list" where
  "compileEdge source nodes seen =
     (let i = trim_space (ed_ID source); sourceID = trim_space (ed_Source source);
          targetID = trim_space (ed_Target source)
      in if i = [] then Inl EmptyEdgeID
         else if i \<in> set seen then Inl (DuplicateEdge i)
         else if nodes sourceID = None then Inl (UnknownSource i sourceID)
         else if nodes targetID = None then Inl (UnknownTarget i targetID)
         else if sourceID = targetID then Inl (SelfEdge i sourceID)
         else Inr (\<lparr>e_ID = i, e_Source = sourceID, e_Target = targetID,
                e_SourceHandle = trim_space (ed_SourceHandle source),
                e_TargetHandle = trim_space (ed_TargetHandle source)\<rparr>, i # seen))"

section \<open>The compile loops\<close>

definition empty_plan :: "string \<Rightarrow> int \<Rightarrow> Plan" where
  "empty_plan dslVersion workflowVersion =
     \<lparr>p_dslVersion = dslVersion, p_workflowVersion = workflowVersion, p_nodes = [], p_edges = [],
      p_nodeByID = Map.empty, p_nodeOrder = Map.empty, p_outgoing = Map.empty,
      p_inDegree = Map.empty, p_topological = []\<rparr>"

definition add_node :: "Plan \<Rightarrow> Node \<Rightarrow> nat \<Rightarrow> Plan" where
  "add_node p n index =
     p\<lparr>p_nodes := p_nodes p @ [n], p_nodeByID := (p_nodeByID p)(n_ID n \<mapsto> n),
       p_nodeOrder := (p_nodeOrder p)(n_ID n \<mapsto> index), p_inDegree := (p_inDegree p)(n_ID n \<mapsto> 0)\<rparr>"

fun compile_nodes :: "nat \<Rightarrow> NodeDSL list \<Rightarrow> Plan \<Rightarrow> compile_error + Plan" where
  "compile_nodes index [] p = Inr p"
| "compile_nodes index (source # rest) p =
     bind_res (compileNode source index) (\<lambda>n.
       if p_nodeByID p (n_ID n) \<noteq> None then Inl (DuplicateNode (n_ID n))
       else compile_nodes (Suc index) rest (add_node p n index))"

definition add_edge :: "Plan \<Rightarrow> Edge \<Rightarrow> Plan" where
  "add_edge p e =
     p\<lparr>p_edges := p_edges p @ [e],
       p_outgoing := (p_outgoing p)(e_Source e \<mapsto> map_get [] (p_outgoing p) (e_Source e) @ [e]),
       p_inDegree := (p_inDegree p)(e_Target e \<mapsto> map_get 0 (p_inDegree p) (e_Target e) + 1)\<rparr>"

fun compile_edges :: "EdgeDSL list \<Rightarrow> string list \<Rightarrow> Plan \<Rightarrow> compile_error + Plan" where
  "compile_edges [] edgeIDs p = Inr p"
| "compile_edges (source # rest) edgeIDs p =
     bind_res (compileEdge source (p_nodeByID p) edgeIDs) (\<lambda>(e, edgeIDs').
       compile_edges rest edgeIDs' (add_edge p e))"

text \<open>
  \<^verbatim>\<open>sort.SliceStable\<close> of every outgoing list by target order, source handle and id. The keys
  of \<^verbatim>\<open>plan.outgoing\<close> are the sources of the edges.
\<close>

definition edge_key :: "Plan \<Rightarrow> Edge \<Rightarrow> nat \<times> string \<times> string" where
  "edge_key p e = (map_get 0 (p_nodeOrder p) (e_Target e), e_SourceHandle e, e_ID e)"

definition sort_outgoing :: "Plan \<Rightarrow> Plan" where
  "sort_outgoing p = p\<lparr>p_outgoing :=
     fold (\<lambda>i m. m(i \<mapsto> sort_key (edge_key p) (map_get [] m i))) (remdups (map e_Source (p_edges p)))
       (p_outgoing p)\<rparr>"

section \<open>Topological order\<close>

text \<open>
  \<^verbatim>\<open>container/heap\<close> over \<^verbatim>\<open>nodeHeap\<close>: \<^verbatim>\<open>heap.Pop\<close> removes an element that is least under
  \<^verbatim>\<open>Less\<close>, the order of declaration with the id as tie break.
\<close>

definition heap_key :: "Plan \<Rightarrow> string \<Rightarrow> nat \<times> string" where
  "heap_key p i = (map_get 0 (p_nodeOrder p) i, i)"

definition heap_push :: "string \<Rightarrow> string list \<Rightarrow> string list" where
  "heap_push i h = h @ [i]"

definition heap_pop :: "Plan \<Rightarrow> string list \<Rightarrow> (string \<times> string list) option" where
  "heap_pop p h =
     (case sort_key (heap_key p) h of [] \<Rightarrow> None | i # _ \<Rightarrow> Some (i, remove1 i h))"

definition initial_ready :: "Plan \<Rightarrow> string list" where
  "initial_ready p = fold heap_push (filter (\<lambda>i. Plan_InDegree p i = 0) (map n_ID (p_nodes p))) []"

definition deterministicTopologicalOrder :: "Plan \<Rightarrow> compile_error + string list" where
  "deterministicTopologicalOrder p =
     (case topo_loop (Suc (length (p_nodes p))) heap_push (heap_pop p) e_Target (Plan_Outgoing p)
         (p_inDegree p) (initial_ready p) [] of
        None \<Rightarrow> Inl TopologicalFuel
      | Some result \<Rightarrow> if length result \<noteq> length (p_nodes p) then Inl CycleDetected else Inr result)"

section \<open>Reachability\<close>

definition succs_of :: "Plan \<Rightarrow> string \<Rightarrow> string list" where
  "succs_of p i = map e_Target (Plan_Outgoing p i)"

definition hasPath :: "Plan \<Rightarrow> string \<Rightarrow> string \<Rightarrow> bool" where
  "hasPath p source target =
     (bfs_loop (Suc (length (p_edges p))) (succs_of p) target [source] [source] = Some True)"

section \<open>References and global writes\<close>

fun collectReferences :: "gval \<Rightarrow> string list" where
  "collectReferences (GMap kvs) = concat (map (\<lambda>kv. collectReferences (snd kv)) kvs)"
| "collectReferences (GSlice vs) = concat (map collectReferences vs)"
| "collectReferences (GString s) = map fst (find_refs s)"
| "collectReferences _ = []"

definition references :: "raw_message \<Rightarrow> string list" where
  "references raw = (case unmarshal_any raw of
      None \<Rightarrow> [] | Some v \<Rightarrow> sort (remdups (collectReferences v)))"

definition check_reference :: "Plan \<Rightarrow> Node \<Rightarrow> string \<Rightarrow> compile_error + unit" where
  "check_reference p n r =
     (if p_nodeByID p r = None then Inl (UnknownReference (n_ID n) r)
      else if r = n_ID n \<or> \<not> hasPath p r (n_ID n) then Inl (NoUpstreamPath (n_ID n) r)
      else Inr ())"

definition check_compensation_reference :: "Plan \<Rightarrow> Node \<Rightarrow> string \<Rightarrow> compile_error + unit" where
  "check_compensation_reference p n r =
     (if p_nodeByID p r = None then Inl (UnknownCompensationReference (n_ID n) r)
      else if r \<noteq> n_ID n \<and> \<not> hasPath p r (n_ID n) then Inl (NoCompensationUpstreamPath (n_ID n) r)
      else Inr ())"

definition validateReferences :: "Plan \<Rightarrow> compile_error + unit" where
  "validateReferences p = check_all (\<lambda>n.
     bind_res (check_all (check_reference p n) (references (n_Properties n))) (\<lambda>_.
       case n_Compensation n of
         None \<Rightarrow> Inr ()
       | Some c \<Rightarrow> check_all (check_compensation_reference p n) (references (cp_Properties c))))
     (p_nodes p)"

text \<open>The declarations of one state path, in node order: \<^verbatim>\<open>writes[path]\<close>.\<close>

definition write_declarations :: "Plan \<Rightarrow> string \<Rightarrow> (string \<times> string) list" where
  "write_declarations p path =
     concat (map (\<lambda>n. map (\<lambda>w. (n_ID n, sw_Reducer w)) (filter (\<lambda>w. sw_Path w = path) (n_Writes n)))
       (p_nodes p))"

definition write_paths :: "Plan \<Rightarrow> string list" where
  "write_paths p = sort (remdups (concat (map (\<lambda>n. map sw_Path (n_Writes n)) (p_nodes p))))"

fun same_reducer :: "string \<Rightarrow> string \<times> string \<Rightarrow> (string \<times> string) list \<Rightarrow> compile_error + unit" where
  "same_reducer path first [] = Inr ()"
| "same_reducer path first (d # ds) =
     (if snd d \<noteq> snd first then Inl (MixedReducers path (fst first) (fst d))
      else same_reducer path first ds)"

fun check_pairs :: "Plan \<Rightarrow> string \<Rightarrow> (string \<times> string) list \<Rightarrow> compile_error + unit" where
  "check_pairs p path [] = Inr ()"
| "check_pairs p path (l # ds) =
     bind_res (check_all (\<lambda>r.
        if hasPath p (fst l) (fst r) \<or> hasPath p (fst r) (fst l) then Inr ()
        else if snd l = [] then Inl (ParallelWritesWithoutReducer (fst l) (fst r) path)
        else Inr ()) ds) (\<lambda>_. check_pairs p path ds)"

definition check_path_writes :: "Plan \<Rightarrow> string \<Rightarrow> compile_error + unit" where
  "check_path_writes p path =
     (case write_declarations p path of
        [] \<Rightarrow> Inr ()
      | d # ds \<Rightarrow> bind_res (same_reducer path d ds) (\<lambda>_. check_pairs p path (d # ds)))"

definition validateGlobalWrites :: "Plan \<Rightarrow> compile_error + unit" where
  "validateGlobalWrites p = check_all (check_path_writes p) (write_paths p)"

section \<open>Compile\<close>

definition Compile :: "WorkflowDSL option \<Rightarrow> compile_error + Plan" where
  "Compile definition = (case definition of None \<Rightarrow> Inl NilDefinition | Some d \<Rightarrow>
     if wf_Nodes d = [] then Inl NoNodes
     else bind_res (normalizeDSLVersion (wf_DSLVersion d)) (\<lambda>dslVersion.
       let workflowVersion = (if wf_WorkflowVersion d = 0 then 1 else wf_WorkflowVersion d)
       in if workflowVersion < 1 then Inl BadWorkflowVersion
          else bind_res (validateWorkflowBudget (wf_Budget d)) (\<lambda>_.
               bind_res (compile_nodes 0 (wf_Nodes d) (empty_plan dslVersion workflowVersion)) (\<lambda>p1.
               bind_res (compile_edges (wf_Edges d) [] p1) (\<lambda>p2.
               let p3 = sort_outgoing p2
               in bind_res (deterministicTopologicalOrder p3) (\<lambda>topological.
                  let p4 = p3\<lparr>p_topological := topological\<rparr>
                  in bind_res (validateReferences p4) (\<lambda>_.
                     bind_res (validateGlobalWrites p4) (\<lambda>_. Inr p4))))))))"

section \<open>Well-formed plans\<close>

definition plan_ids :: "Plan \<Rightarrow> string list" where
  "plan_ids p = map n_ID (p_nodes p)"

definition plan_rel :: "Plan \<Rightarrow> string rel" where
  "plan_rel p = edge_rel e_Source e_Target (p_edges p)"

text \<open>What the maps of a plan say about its lists of nodes and edges.\<close>

definition plan_wf :: "Plan \<Rightarrow> bool" where
  "plan_wf p \<longleftrightarrow>
     distinct (plan_ids p) \<and> distinct (map e_ID (p_edges p)) \<and>
     p_nodeByID p = map_of (map (\<lambda>n. (n_ID n, n)) (p_nodes p)) \<and>
     dom (p_nodeOrder p) = set (plan_ids p) \<and>
     (\<forall>k < length (p_nodes p). p_nodeOrder p (plan_ids p ! k) = Some k) \<and>
     dom (p_inDegree p) = set (plan_ids p) \<and>
     (\<forall>e \<in> set (p_edges p). e_Source e \<in> set (plan_ids p) \<and> e_Target e \<in> set (plan_ids p)
        \<and> e_Source e \<noteq> e_Target e) \<and>
     (\<forall>i. mset (Plan_Outgoing p i) = mset (filter (\<lambda>e. e_Source e = i) (p_edges p))) \<and>
     (\<forall>i. Plan_InDegree p i = int (length (filter (\<lambda>e. e_Target e = i) (p_edges p))))"

lemma plan_wf_D:
  assumes "plan_wf p"
  shows "distinct (plan_ids p)" "distinct (map e_ID (p_edges p))"
    "p_nodeByID p = map_of (map (\<lambda>n. (n_ID n, n)) (p_nodes p))"
    "dom (p_nodeOrder p) = set (plan_ids p)" "dom (p_inDegree p) = set (plan_ids p)"
    "\<And>k. k < length (p_nodes p) \<Longrightarrow> p_nodeOrder p (plan_ids p ! k) = Some k"
    "\<And>e. e \<in> set (p_edges p) \<Longrightarrow> e_Source e \<in> set (plan_ids p) \<and> e_Target e \<in> set (plan_ids p)
        \<and> e_Source e \<noteq> e_Target e"
    "\<And>i. mset (Plan_Outgoing p i) = mset (filter (\<lambda>e. e_Source e = i) (p_edges p))"
    "\<And>i. Plan_InDegree p i = int (length (filter (\<lambda>e. e_Target e = i) (p_edges p)))"
  using assms by (auto simp: plan_wf_def)

lemma plan_wf_lookup:
  assumes "plan_wf p"
  shows "p_nodeByID p i = Some n \<longleftrightarrow> n \<in> set (p_nodes p) \<and> n_ID n = i"
    and "p_nodeByID p i = None \<longleftrightarrow> i \<notin> set (plan_ids p)"
proof -
  have d: "distinct (map fst (map (\<lambda>n. (n_ID n, n)) (p_nodes p)))"
    using plan_wf_D(1) [OF assms] by (simp add: plan_ids_def comp_def)
  show "p_nodeByID p i = Some n \<longleftrightarrow> n \<in> set (p_nodes p) \<and> n_ID n = i"
    unfolding plan_wf_D(3) [OF assms] using map_of_eq_Some_iff [OF d] by auto
  show "p_nodeByID p i = None \<longleftrightarrow> i \<notin> set (plan_ids p)"
    unfolding plan_wf_D(3) [OF assms] by (simp add: map_of_eq_None_iff plan_ids_def image_image)
qed

lemma plan_wf_empty: "plan_wf (empty_plan v w)"
  by (simp add: plan_wf_def empty_plan_def plan_ids_def Plan_Outgoing_def Plan_InDegree_def)

lemma plan_wf_add_node:
  assumes wf: "plan_wf p" and fresh: "p_nodeByID p (n_ID n) = None"
  shows "plan_wf (add_node p n (length (p_nodes p)))"
proof -
  have new: "n_ID n \<notin> set (plan_ids p)" using plan_wf_lookup(2) [OF wf] fresh by simp
  then have noedge: "filter (\<lambda>e. e_Target e = n_ID n) (p_edges p) = []"
    using plan_wf_D(7) [OF wf] by (force simp: filter_empty_conv)
  have ids: "plan_ids (add_node p n (length (p_nodes p))) = plan_ids p @ [n_ID n]"
    by (simp add: plan_ids_def add_node_def)
  have byid: "p_nodeByID (add_node p n (length (p_nodes p))) =
      map_of (map (\<lambda>n. (n_ID n, n)) (p_nodes (add_node p n (length (p_nodes p)))))"
    using plan_wf_D(3) [OF wf] new
    by (simp add: add_node_def plan_ids_def map_of_snoc image_image del: map_of_append)
  have ord: "p_nodeOrder (add_node p n (length (p_nodes p))) ((plan_ids p @ [n_ID n]) ! k) = Some k"
    if "k < Suc (length (p_nodes p))" for k
  proof (cases "k < length (p_nodes p)")
    case True
    then have "plan_ids p ! k \<in> set (plan_ids p)" by (intro nth_mem) (simp add: plan_ids_def)
    then have "plan_ids p ! k \<noteq> n_ID n" using new by auto
    with True plan_wf_D(6) [OF wf True] show ?thesis by (simp add: add_node_def nth_append plan_ids_def)
  next
    case False
    with that have "k = length (p_nodes p)" by simp
    then show ?thesis by (simp add: add_node_def nth_append plan_ids_def)
  qed
  have ind: "Plan_InDegree (add_node p n (length (p_nodes p))) i =
      int (length (filter (\<lambda>e. e_Target e = i) (p_edges p)))" for i
    using plan_wf_D(9) [OF wf, of i] noedge by (simp add: Plan_InDegree_def add_node_def)
  have out: "Plan_Outgoing (add_node p n (length (p_nodes p))) = Plan_Outgoing p"
    by (simp add: fun_eq_iff Plan_Outgoing_def add_node_def)
  show ?thesis
    unfolding plan_wf_def ids byid ind out
    using plan_wf_D [OF wf] new ord by (auto simp: add_node_def)
qed

lemma plan_wf_add_edge:
  assumes wf: "plan_wf p" and e: "e_ID e \<notin> e_ID ` set (p_edges p)" "e_Source e \<in> set (plan_ids p)"
    "e_Target e \<in> set (plan_ids p)" "e_Source e \<noteq> e_Target e"
  shows "plan_wf (add_edge p e)"
proof -
  have ids: "plan_ids (add_edge p e) = plan_ids p" by (simp add: plan_ids_def add_edge_def)
  have out: "mset (Plan_Outgoing (add_edge p e) i) =
      mset (filter (\<lambda>x. e_Source x = i) (p_edges (add_edge p e)))" for i
    using plan_wf_D(8) [OF wf, of i] by (auto simp: Plan_Outgoing_def add_edge_def)
  have ind: "Plan_InDegree (add_edge p e) i =
      int (length (filter (\<lambda>x. e_Target x = i) (p_edges (add_edge p e))))" for i
    using plan_wf_D(9) [OF wf, of i] by (auto simp: Plan_InDegree_def add_edge_def)
  show ?thesis
    unfolding plan_wf_def ids out ind
    using plan_wf_D(1-7) [OF wf] e by (auto simp: add_edge_def)
qed

lemma mset_sort_fold:
  "mset (map_get [] (fold (\<lambda>i m. m(i \<mapsto> sort_key f (map_get [] m i))) ks m) j) = mset (map_get [] m j)"
  by (induction ks arbitrary: m) auto

lemma plan_wf_sort_outgoing: "plan_wf p \<Longrightarrow> plan_wf (sort_outgoing p)"
proof -
  assume wf: "plan_wf p"
  have "mset (Plan_Outgoing (sort_outgoing p) i) = mset (Plan_Outgoing p i)" for i
    by (simp add: Plan_Outgoing_def sort_outgoing_def mset_sort_fold)
  then show ?thesis using wf
    by (simp add: plan_wf_def plan_ids_def sort_outgoing_def Plan_InDegree_def)
qed

lemma plan_wf_topological: "plan_wf (p\<lparr>p_topological := t\<rparr>) = plan_wf p"
  by (simp add: plan_wf_def plan_ids_def Plan_Outgoing_def Plan_InDegree_def)

text \<open>The two compile loops keep the plan well-formed.\<close>

lemma compile_nodes_wf:
  "compile_nodes index ns p = Inr q \<Longrightarrow> plan_wf p \<Longrightarrow> index = length (p_nodes p) \<Longrightarrow>
     plan_wf q \<and> length (p_nodes q) = length (p_nodes p) + length ns \<and> p_edges q = p_edges p"
proof (induction index ns p rule: compile_nodes.induct)
  case (2 index source rest p)
  then obtain n where n: "compileNode source index = Inr n" "p_nodeByID p (n_ID n) = None"
    and rest: "compile_nodes (Suc index) rest (add_node p n index) = Inr q"
    by (auto split: if_splits)
  have "plan_wf (add_node p n index)" using plan_wf_add_node 2 n(2) by simp
  with "2.IH" [OF n(1)] n(2) rest "2.prems"(3) show ?case
    by (auto simp: add_node_def)
qed simp

lemma compileEdge_Inr:
  "compileEdge source nodes seen = Inr (e, seen') \<Longrightarrow>
     e_ID e \<notin> set seen \<and> seen' = e_ID e # seen \<and> nodes (e_Source e) \<noteq> None \<and> nodes (e_Target e) \<noteq> None
     \<and> e_Source e \<noteq> e_Target e"
  by (auto simp: compileEdge_def Let_def split: if_splits)

lemma compile_edges_wf:
  "compile_edges es seen p = Inr q \<Longrightarrow> plan_wf p \<Longrightarrow> set seen = e_ID ` set (p_edges p) \<Longrightarrow>
     plan_wf q \<and> p_nodes q = p_nodes p \<and> length (p_edges q) = length (p_edges p) + length es"
proof (induction es seen p rule: compile_edges.induct)
  case (2 source rest seen p)
  then obtain e seen' where e: "compileEdge source (p_nodeByID p) seen = Inr (e, seen')"
    and rest: "compile_edges rest seen' (add_edge p e) = Inr q"
    by auto
  note D = compileEdge_Inr [OF e]
  have "plan_wf (add_edge p e)"
    using plan_wf_add_edge [OF "2.prems"(2)] D "2.prems"(3) plan_wf_lookup(2) [OF "2.prems"(2)] by auto
  moreover have "set seen' = e_ID ` set (p_edges (add_edge p e))"
    using D "2.prems"(3) by (simp add: add_edge_def)
  ultimately show ?case
    using "2.IH" [OF e] rest by (auto simp: add_edge_def)
qed simp

section \<open>Correctness of the topological order and of reachability\<close>

interpretation node_heap: ready_queue heap_push "heap_pop p" mset for p
proof
  fix q :: "string list"
  have "heap_pop p q = None \<longleftrightarrow> sort_key (heap_key p) q = []"
    by (simp add: heap_pop_def split: list.splits)
  then show "heap_pop p q = None \<longleftrightarrow> mset q = {#}"
    by (metis mset_sort mset_zero_iff)
next
  fix x :: string and q q' :: "string list"
  assume "heap_pop p q = Some (x, q')"
  then obtain rest where "sort_key (heap_key p) q = x # rest" and q': "q' = remove1 x q"
    by (auto simp: heap_pop_def split: list.splits)
  then have "x \<in> set q" by (metis list.set_intros(1) set_sort)
  then show "mset q = add_mset x (mset q')" by (simp add: q')
qed (simp add: heap_push_def)

text \<open>The popped element is the least one: the order depends on the definition alone.\<close>

lemma heap_pop_least:
  "heap_pop p q = Some (x, q') \<Longrightarrow> y \<in> set q \<Longrightarrow> heap_key p x \<le> heap_key p y"
proof -
  assume "heap_pop p q = Some (x, q')" and y: "y \<in> set q"
  then obtain rest where x: "sort_key (heap_key p) q = x # rest"
    by (auto simp: heap_pop_def split: list.splits)
  then have "sorted (map (heap_key p) (x # rest))" by (metis sorted_sort_key)
  moreover have "y \<in> set (x # rest)" using y x by (metis set_sort)
  ultimately show ?thesis by auto
qed

lemma mset_initial_ready:
  "mset (initial_ready p) = mset (filter (\<lambda>i. Plan_InDegree p i = 0) (plan_ids p))"
proof -
  have "mset (fold heap_push xs h) = mset xs + mset h" for xs h
    by (induction xs arbitrary: h) (auto simp: heap_push_def)
  then show ?thesis by (simp add: initial_ready_def plan_ids_def)
qed

lemma initial_topo_inv:
  assumes "plan_wf p"
  shows "topo_inv (plan_ids p) e_Source e_Target (p_edges p) (p_inDegree p) (mset (initial_ready p)) []"
proof -
  have "distinct (filter (\<lambda>i. Plan_InDegree p i = 0) (plan_ids p))"
    using plan_wf_D(1) [OF assms] by (rule distinct_filter)
  then have "count (mset (initial_ready p)) t \<le> 1" for t
    unfolding mset_initial_ready by (simp add: distinct_count_atmost_1)
  moreover have "map_get 0 (p_inDegree p) t = int (open_degree e_Source e_Target (p_edges p) {} t)" for t
    using plan_wf_D(9) [OF assms] by (simp add: Plan_InDegree_def open_degree_def)
  ultimately show ?thesis
    unfolding topo_inv_def mset_initial_ready
    by (auto simp: ordered_prefix_def Plan_InDegree_def)
qed

text \<open>
  \<open>topological_order p r\<close>: every node once, every edge forward.
\<close>

definition topological_order :: "Plan \<Rightarrow> string list \<Rightarrow> bool" where
  "topological_order p r \<longleftrightarrow> distinct r \<and> set r = set (plan_ids p) \<and>
     (\<forall>i < length r. \<forall>j < length r. (r ! i, r ! j) \<in> plan_rel p \<longrightarrow> i < j)"

lemma topological_order_trancl:
  assumes "topological_order p r" "plan_wf p" "(x, y) \<in> (plan_rel p)\<^sup>+"
  shows "\<exists>i j. i < j \<and> j < length r \<and> r ! i = x \<and> r ! j = y"
  using assms(3)
proof (induction rule: trancl_induct)
  case (base y)
  then have "x \<in> set r" "y \<in> set r"
    using assms(1) plan_wf_D(7) [OF assms(2)]
    by (auto simp: plan_rel_def edge_rel_def topological_order_def)
  then obtain i j where ij: "i < length r" "j < length r" "r ! i = x" "r ! j = y"
    by (auto simp: in_set_conv_nth)
  then have "i < j" using base assms(1) by (auto simp: topological_order_def)
  with ij show ?case by blast
next
  case (step y z)
  then obtain i j where ij: "i < j" "j < length r" "r ! i = x" "r ! j = y" by blast
  have "z \<in> set r"
    using step(2) assms(1) plan_wf_D(7) [OF assms(2)]
    by (auto simp: plan_rel_def edge_rel_def topological_order_def)
  then obtain k where k: "k < length r" "r ! k = z" by (auto simp: in_set_conv_nth)
  then have "j < k" using ij step(2) assms(1) by (auto simp: topological_order_def)
  then have "i < k" using ij(1) by simp
  with ij k show ?case by blast
qed

lemma deterministicTopologicalOrder_cases:
  assumes wf: "plan_wf p"
  shows "if acyclic (plan_rel p)
    then \<exists>r. deterministicTopologicalOrder p = Inr r \<and> topological_order p r
    else deterministicTopologicalOrder p = Inl CycleDetected"
proof -
  have ends: "\<forall>e \<in> set (p_edges p). e_Source e \<in> set (plan_ids p) \<and> e_Target e \<in> set (plan_ids p)"
    using plan_wf_D(7) [OF wf] by blast
  have len: "length (plan_ids p) = length (p_nodes p)" by (simp add: plan_ids_def)
  have fuel: "length (plan_ids p) < Suc (length (p_nodes p)) + length ([] :: string list)"
    by (simp add: len)
  obtain r where r: "topo_loop (Suc (length (p_nodes p))) heap_push (heap_pop p) e_Target (Plan_Outgoing p)
      (p_inDegree p) (initial_ready p) [] = Some r" "distinct r" "set r \<subseteq> set (plan_ids p)"
      "ordered_prefix e_Source e_Target (p_edges p) r"
      "\<forall>t \<in> set (plan_ids p) - set r. \<exists>e \<in> set (p_edges p). e_Target e = t \<and> e_Source e \<in> set (plan_ids p) - set r"
    using node_heap.topo_loop_correct [where p = p, OF initial_topo_inv [OF wf] fuel plan_wf_D(8) [OF wf] ends]
    by blast
  have iff: "length r = length (p_nodes p) \<longleftrightarrow> acyclic (plan_rel p)"
    using complete_iff_acyclic [OF r(2-4) plan_wf_D(1) [OF wf] ends r(5)] by (simp add: len plan_rel_def)
  show ?thesis
  proof (cases "acyclic (plan_rel p)")
    case True
    with iff have "set r = set (plan_ids p)"
      using r(2,3) plan_wf_D(1) [OF wf] len by (metis card_subset_eq distinct_card finite_set)
    moreover have "i < j" if ij: "i < length r" "j < length r" "(r ! i, r ! j) \<in> plan_rel p" for i j
    proof -
      obtain e where "e \<in> set (p_edges p)" "r ! i = e_Source e" "r ! j = e_Target e"
        using ij(3) by (auto simp: plan_rel_def edge_rel_def)
      with ordered_prefix_before [OF r(4,2) _ ij(2)] obtain k where "k < j" "r ! i = r ! k" by metis
      then show "i < j" using r(2) ij by (metis dual_order.strict_trans nth_eq_iff_index_eq)
    qed
    ultimately have "topological_order p r" using r(2) by (simp add: topological_order_def)
    with True iff r(1) show ?thesis by (simp add: deterministicTopologicalOrder_def)
  next
    case False
    with iff r(1) show ?thesis by (simp add: deterministicTopologicalOrder_def)
  qed
qed

lemma succ_rel_succs_of:
  assumes "plan_wf p"
  shows "succ_rel (succs_of p) = plan_rel p"
proof -
  have "set (Plan_Outgoing p i) = {e \<in> set (p_edges p). e_Source e = i}" for i
    using plan_wf_D(8) [OF assms, of i] by (metis set_filter set_mset_mset)
  then show ?thesis by (auto simp: succ_rel_def succs_of_def plan_rel_def edge_rel_def)
qed

lemma hasPath_iff:
  assumes wf: "plan_wf p"
  shows "hasPath p s t \<longleftrightarrow> (s, t) \<in> (plan_rel p)\<^sup>+"
proof -
  let ?N = "insert s (e_Target ` set (p_edges p))"
  have "card ?N \<le> Suc (length (p_edges p))"
    by (metis card_insert_le_m1 card_image_le card_length diff_Suc_1 finite_set le_trans zero_less_Suc
        finite_imageI card_insert_if le_SucI Suc_le_mono)
  moreover have "set (succs_of p x) \<subseteq> ?N" for x
  proof -
    have "set (Plan_Outgoing p x) \<subseteq> set (p_edges p)"
      using plan_wf_D(8) [OF wf, of x] by (metis filter_is_subset set_mset_mset)
    then show ?thesis by (auto simp: succs_of_def)
  qed
  moreover have "bfs_inv (succs_of p) s t [s] [s]" by (simp add: bfs_inv_def)
  ultimately have "bfs_loop (Suc (length (p_edges p))) (succs_of p) t [s] [s] =
      Some ((s, t) \<in> (succ_rel (succs_of p))\<^sup>+)"
    by (intro bfs_loop_correct [where N = ?N]) auto
  then show ?thesis by (simp add: hasPath_def succ_rel_succs_of [OF wf])
qed

section \<open>What a compiled plan guarantees\<close>

lemma compile_loops_wf:
  assumes "compile_nodes 0 ns (empty_plan v w) = Inr p1" "compile_edges es [] p1 = Inr p2"
  shows "plan_wf (sort_outgoing p2)" "length (p_nodes p2) = length ns" "length (p_edges p2) = length es"
proof -
  have "plan_wf p1 \<and> length (p_nodes p1) = length ns \<and> p_edges p1 = []"
    using compile_nodes_wf [OF assms(1) plan_wf_empty] by (simp add: empty_plan_def)
  then have "plan_wf p2 \<and> length (p_nodes p2) = length ns \<and> length (p_edges p2) = length es"
    using compile_edges_wf [OF assms(2)] by simp
  then show "plan_wf (sort_outgoing p2)" "length (p_nodes p2) = length ns" "length (p_edges p2) = length es"
    by (simp_all add: plan_wf_sort_outgoing)
qed

lemma Compile_InrE:
  assumes "Compile definition = Inr p"
  obtains d p1 p2 t where "definition = Some d"
    "compile_nodes 0 (wf_Nodes d) (empty_plan CurrentVersion (p_workflowVersion p)) = Inr p1"
    "compile_edges (wf_Edges d) [] p1 = Inr p2"
    "deterministicTopologicalOrder (sort_outgoing p2) = Inr t" "p = (sort_outgoing p2)\<lparr>p_topological := t\<rparr>"
    "validateReferences p = Inr ()" "validateGlobalWrites p = Inr ()"
proof -
  obtain d where d: "definition = Some d" using assms by (auto simp: Compile_def split: option.splits)
  obtain v w p1 p2 t where v: "normalizeDSLVersion (wf_DSLVersion d) = Inr v"
    and st: "compile_nodes 0 (wf_Nodes d) (empty_plan v w) = Inr p1"
    "compile_edges (wf_Edges d) [] p1 = Inr p2"
    "deterministicTopologicalOrder (sort_outgoing p2) = Inr t" "p = (sort_outgoing p2)\<lparr>p_topological := t\<rparr>"
    "validateReferences p = Inr ()" "validateGlobalWrites p = Inr ()"
    using assms by (auto simp: Compile_def d Let_def split: if_splits)
  have "v = CurrentVersion" using v by (auto simp: normalizeDSLVersion_def split: if_splits)
  have "p_workflowVersion q = p_workflowVersion p0" if "compile_nodes k ns p0 = Inr q" for k ns p0 q
    using that by (induction k ns p0 rule: compile_nodes.induct)
      (auto simp: add_node_def split: if_splits)
  moreover have "p_workflowVersion q = p_workflowVersion p0" if "compile_edges es seen p0 = Inr q" for es seen p0 q
    using that by (induction es seen p0 rule: compile_edges.induct) (auto simp: add_edge_def)
  ultimately have "w = p_workflowVersion p"
    using st(1,2,4) by (fastforce simp: empty_plan_def sort_outgoing_def)
  with \<open>v = CurrentVersion\<close> st d that show thesis by blast
qed

lemma Compile_plan_wf:
  assumes "Compile definition = Inr p"
  shows "plan_wf p" "topological_order p (p_topological p)" "acyclic (plan_rel p)"
proof -
  obtain d :: WorkflowDSL and p1 p2 t where s: "compile_nodes 0 (wf_Nodes d) (empty_plan CurrentVersion (p_workflowVersion p)) = Inr p1"
    "compile_edges (wf_Edges d) [] p1 = Inr p2"
    "deterministicTopologicalOrder (sort_outgoing p2) = Inr t" "p = (sort_outgoing p2)\<lparr>p_topological := t\<rparr>"
    by (rule Compile_InrE [OF assms])
  note wf = compile_loops_wf(1) [OF s(1,2)]
  show "plan_wf p" using wf by (simp add: s(4) plan_wf_topological)
  have "acyclic (plan_rel (sort_outgoing p2)) \<and> topological_order (sort_outgoing p2) t"
    using deterministicTopologicalOrder_cases [OF wf] s(3) by (auto split: if_splits)
  then show "topological_order p (p_topological p)" "acyclic (plan_rel p)"
    by (simp_all add: s(4) topological_order_def plan_rel_def plan_ids_def)
qed

lemma same_reducer_Inr: "same_reducer path f ds = Inr u \<longleftrightarrow> (\<forall>d \<in> set ds. snd d = snd f)"
  by (induction path f ds rule: same_reducer.induct) auto

lemma check_pairs_Inr:
  "check_pairs p path ds = Inr u \<Longrightarrow> i < j \<Longrightarrow> j < length ds \<Longrightarrow> snd (ds ! i) \<noteq> [] \<or>
     hasPath p (fst (ds ! i)) (fst (ds ! j)) \<or> hasPath p (fst (ds ! j)) (fst (ds ! i))"
proof (induction p path ds arbitrary: i j rule: check_pairs.induct)
  case (2 p path l ds)
  show ?case
  proof (cases i)
    case 0
    then have "(l # ds) ! j \<in> set ds" using 2(3,4) by (cases j) auto
    then show ?thesis using 0 2(2) by (fastforce split: if_splits)
  next
    case (Suc k)
    then obtain m where "j = Suc m" "k < m" "m < length ds" using 2(3,4) by (cases j) auto
    then show ?thesis using 2 Suc by auto
  qed
qed simp

lemma write_declaration_mem:
  "n \<in> set (p_nodes p) \<Longrightarrow> w \<in> set (n_Writes n) \<Longrightarrow> (n_ID n, sw_Reducer w) \<in> set (write_declarations p (sw_Path w))"
  by (auto simp: write_declarations_def)

lemma write_path_checked:
  assumes "validateGlobalWrites p = Inr ()" "n \<in> set (p_nodes p)" "w \<in> set (n_Writes n)"
  shows "check_path_writes p (sw_Path w) = Inr ()"
  using assms by (auto simp: validateGlobalWrites_def write_paths_def)

lemma global_writes_safe:
  assumes ok: "validateGlobalWrites p = Inr ()"
    and n: "n \<in> set (p_nodes p)" "w \<in> set (n_Writes n)" and m: "m \<in> set (p_nodes p)" "x \<in> set (n_Writes m)"
    and same: "sw_Path w = sw_Path x" "n_ID n \<noteq> n_ID m"
  shows "sw_Reducer w = sw_Reducer x \<and> (sw_Reducer w \<noteq> [] \<or> hasPath p (n_ID n) (n_ID m) \<or> hasPath p (n_ID m) (n_ID n))"
proof -
  let ?ds = "write_declarations p (sw_Path w)"
  have mem: "(n_ID n, sw_Reducer w) \<in> set ?ds" "(n_ID m, sw_Reducer x) \<in> set ?ds"
    using write_declaration_mem [OF n] write_declaration_mem [OF m] same(1) by simp_all
  obtain f rest where ds: "?ds = f # rest" using mem(1) by (cases ?ds) auto
  have red: "\<forall>d \<in> set ?ds. snd d = snd f" and pairs: "check_pairs p (sw_Path w) ?ds = Inr ()"
    using write_path_checked [OF ok n] by (auto simp: check_path_writes_def ds same_reducer_Inr)
  obtain i j where i: "i < length ?ds" "?ds ! i = (n_ID n, sw_Reducer w)"
    and j: "j < length ?ds" "?ds ! j = (n_ID m, sw_Reducer x)"
    using mem by (meson in_set_conv_nth)
  have eq: "sw_Reducer w = sw_Reducer x" using bspec [OF red mem(1)] bspec [OF red mem(2)] by simp
  have "i < j \<or> j < i" using i j same(2) by (metis fst_conv nat_neq_iff)
  then have "sw_Reducer w \<noteq> [] \<or> hasPath p (n_ID n) (n_ID m) \<or> hasPath p (n_ID m) (n_ID n)"
    using check_pairs_Inr [OF pairs] i j eq by (metis fst_conv snd_conv)
  with eq show ?thesis by blast
qed

section \<open>Properties\<close>

text \<open>A three-node definition: \<open>a\<close> feeds \<open>b\<close> and \<open>c\<close>; \<open>b\<close> and \<open>c\<close> add to one total.\<close>

definition demo_node :: "string \<Rightarrow> string \<Rightarrow> StateWriteDSL list \<Rightarrow> NodeDSL" where
  "demo_node i props ws =
     \<lparr>nd_ID = i, nd_Type = ''llm'', nd_Properties = RawJSON (GMap [(''prompt'', GString props)]),
      nd_InputSchema = RawEmpty, nd_OutputSchema = RawEmpty, nd_TimeoutSec = 0, nd_Retry = None,
      nd_Policy = RawEmpty, nd_ProfileRef = [], nd_ProviderRef = [], nd_Writes = ws,
      nd_Compensation = None\<rparr>"

definition demo_edge :: "string \<Rightarrow> string \<Rightarrow> string \<Rightarrow> EdgeDSL" where
  "demo_edge i s t = \<lparr>ed_ID = i, ed_Source = s, ed_Target = t, ed_SourceHandle = [], ed_TargetHandle = []\<rparr>"

definition demo_workflow :: "EdgeDSL list \<Rightarrow> WorkflowDSL" where
  "demo_workflow es =
     \<lparr>wf_ID = 1, wf_UserID = 7, wf_Name = ''demo'', wf_DSLVersion = [], wf_WorkflowVersion = 0,
      wf_Budget = None,
      wf_Nodes = [demo_node ''c'' ''{{a.text}}'' [\<lparr>sw_Path = ''g.n'', sw_Source = ''n'', sw_Reducer = ''sum''\<rparr>],
        demo_node ''b'' ''{{a.text}}'' [\<lparr>sw_Path = ''g.n'', sw_Source = ''n'', sw_Reducer = ''sum''\<rparr>],
        demo_node ''a'' ''hello'' []],
      wf_Edges = es\<rparr>"

definition demo_edges :: "EdgeDSL list" where
  "demo_edges = [demo_edge ''e1'' ''a'' ''b'', demo_edge ''e2'' ''a'' ''c'']"

lemmas demo_defs = demo_workflow_def demo_node_def demo_edge_def demo_edges_def

definition demo_view :: "Plan \<Rightarrow> string list \<times> (string \<times> StateWriteDSL list) list" where
  "demo_view p = (p_topological p, map (\<lambda>n. (n_ID n, n_Writes n)) (p_nodes p))"

lemma demo_compiles:
  "map_sum id demo_view (Compile (Some (demo_workflow demo_edges))) = Inr ([''a'', ''c'', ''b''],
     [(''c'', [\<lparr>sw_Path = ''g.n'', sw_Source = ''n'', sw_Reducer = ''sum''\<rparr>]),
      (''b'', [\<lparr>sw_Path = ''g.n'', sw_Source = ''n'', sw_Reducer = ''sum''\<rparr>]), (''a'', [])])"
  by code_simp

lemma demo_compile_plan:
  obtains p where "Compile (Some (demo_workflow demo_edges)) = Inr p"
  using demo_compiles by (cases "Compile (Some (demo_workflow demo_edges))") auto

text \<open>
  C1. A definition that compiles gives a plan whose topological order lists every node exactly once
  and in which every edge of the plan goes forward; in particular the graph has no cycle.
\<close>

theorem Compile_topological:
  assumes "Compile definition = Inr p"
  shows "distinct (p_topological p) \<and> set (p_topological p) = set (map n_ID (p_nodes p))
    \<and> acyclic (plan_rel p)
    \<and> (\<forall>e \<in> set (p_edges p). \<exists>i j. i < j \<and> j < length (p_topological p)
         \<and> p_topological p ! i = e_Source e \<and> p_topological p ! j = e_Target e)"
proof -
  note P = Compile_plan_wf [OF assms]
  have "(e_Source e, e_Target e) \<in> (plan_rel p)\<^sup>+" if "e \<in> set (p_edges p)" for e
    using that by (auto simp: plan_rel_def edge_rel_def)
  then show ?thesis
    using P topological_order_trancl [OF P(2,1)] by (auto simp: topological_order_def plan_ids_def)
qed

theorem Compile_topological_witness:
  "\<exists>p. Compile (Some (demo_workflow demo_edges)) = Inr p
     \<and> distinct (p_topological p) \<and> p_topological p = [''a'', ''c'', ''b'']"
proof -
  obtain p where p: "Compile (Some (demo_workflow demo_edges)) = Inr p" by (rule demo_compile_plan)
  then show ?thesis using Compile_topological [OF p] demo_compiles by (auto simp: demo_view_def)
qed

text \<open>
  Cycle detection is exact: once the nodes and the edges of a definition have been accepted,
  the compiler answers that there is a cycle if and only if the graph has one, and otherwise the
  topological sort succeeds. The bound on the loop (one round per node and one more) is never the
  reason for an answer.
\<close>

theorem Compile_cycle_iff:
  assumes "compile_nodes 0 ns (empty_plan v w) = Inr p1" "compile_edges es [] p1 = Inr p2"
  shows "(deterministicTopologicalOrder (sort_outgoing p2) = Inl CycleDetected \<longleftrightarrow> \<not> acyclic (plan_rel p2))
    \<and> deterministicTopologicalOrder (sort_outgoing p2) \<noteq> Inl TopologicalFuel"
proof -
  have "plan_rel (sort_outgoing p2) = plan_rel p2" by (simp add: plan_rel_def sort_outgoing_def)
  then show ?thesis
    using deterministicTopologicalOrder_cases [OF compile_loops_wf(1) [OF assms]] by (auto split: if_splits)
qed

definition cyclic_edges :: "EdgeDSL list" where
  "cyclic_edges = [demo_edge ''e1'' ''a'' ''b'', demo_edge ''e2'' ''b'' ''a'']"

theorem Compile_cycle_iff_witness:
  "\<exists>p1 p2. compile_nodes 0 (wf_Nodes (demo_workflow cyclic_edges)) (empty_plan ''1.0'' 1) = Inr p1
     \<and> compile_edges cyclic_edges [] p1 = Inr p2 \<and> \<not> acyclic (plan_rel p2)"
proof -
  let ?r = "bind_res (compile_nodes 0 (wf_Nodes (demo_workflow cyclic_edges)) (empty_plan ''1.0'' 1)) (\<lambda>p1.
      bind_res (compile_edges cyclic_edges [] p1) (\<lambda>p2. deterministicTopologicalOrder (sort_outgoing p2)))"
  have r: "?r = Inl CycleDetected" by code_simp
  have "\<exists>p1 p2. compile_nodes 0 (wf_Nodes (demo_workflow cyclic_edges)) (empty_plan ''1.0'' 1) = Inr p1
      \<and> compile_edges cyclic_edges [] p1 = Inr p2"
  proof -
    have "map_sum id (\<lambda>_. ()) (bind_res (compile_nodes 0 (wf_Nodes (demo_workflow cyclic_edges)) (empty_plan ''1.0'' 1))
        (\<lambda>p1. compile_edges cyclic_edges [] p1)) = Inr ()" by code_simp
    then show ?thesis by (auto simp: map_sum_eq_Inr_iff)
  qed
  then obtain p1 p2 where p: "compile_nodes 0 (wf_Nodes (demo_workflow cyclic_edges)) (empty_plan ''1.0'' 1) = Inr p1"
    "compile_edges cyclic_edges [] p1 = Inr p2" by blast
  then show ?thesis using Compile_cycle_iff [OF p] r by auto
qed

text \<open>
  The breadth-first search answers reachability: on a well-formed plan it is true exactly when
  there is a path of one or more edges, and its fuel (one more than the number of edges) is enough.
\<close>

theorem hasPath_reachability:
  assumes "plan_wf p"
  shows "hasPath p s t \<longleftrightarrow> (s, t) \<in> (plan_rel p)\<^sup>+"
  by (rule hasPath_iff [OF assms])

theorem hasPath_reachability_witness:
  "\<exists>p. plan_wf p \<and> hasPath p ''a'' ''b'' \<and> (''a'', ''b'') \<in> (plan_rel p)\<^sup>+ \<and> (''b'', ''a'') \<notin> (plan_rel p)\<^sup>+"
proof -
  obtain p where p: "Compile (Some (demo_workflow demo_edges)) = Inr p" by (rule demo_compile_plan)
  have "map_sum id (\<lambda>p. (hasPath p ''a'' ''b'', hasPath p ''b'' ''a'')) (Compile (Some (demo_workflow demo_edges))) = Inr (True, False)"
    by code_simp
  then have "hasPath p ''a'' ''b''" "\<not> hasPath p ''b'' ''a''" by (simp_all add: p)
  then show ?thesis
    using hasPath_reachability [OF Compile_plan_wf(1) [OF p]] Compile_plan_wf(1) [OF p] by blast
qed

text \<open>
  C2. Data flow is safe. In a compiled plan every node that a placeholder in a node's properties mentions is a
  node of the plan that runs strictly before it, since a path of edges leads from the referenced node to the
  referring one. A placeholder in a node's compensation mentions the node itself or, again, a node that runs
  strictly before it.
\<close>

theorem Compile_references_upstream:
  assumes "Compile definition = Inr p" "n \<in> set (p_nodes p)"
  defines "upstream \<equiv> \<lambda>r. r \<in> set (map n_ID (p_nodes p)) \<and> (r, n_ID n) \<in> (plan_rel p)\<^sup>+
    \<and> (\<exists>i j. i < j \<and> j < length (p_topological p) \<and> p_topological p ! i = r \<and> p_topological p ! j = n_ID n)"
  shows "(\<forall>r\<in>set (references (n_Properties n)). upstream r)
    \<and> (\<forall>c. n_Compensation n = Some c \<longrightarrow> (\<forall>r\<in>set (references (cp_Properties c)). r = n_ID n \<or> upstream r))"
proof -
  note P = Compile_plan_wf [OF assms(1)]
  obtain d :: WorkflowDSL where ok: "validateReferences p = Inr ()"
    by (rule Compile_InrE [OF assms(1)])
  have up: "upstream r" if "p_nodeByID p r \<noteq> None" "hasPath p r (n_ID n)" for r
    using that plan_wf_lookup(2) [OF P(1)] hasPath_iff [OF P(1)] topological_order_trancl [OF P(2,1), of r "n_ID n"]
    by (auto simp: upstream_def plan_ids_def)
  have "upstream r" if "r \<in> set (references (n_Properties n))" for r
  proof -
    have "check_reference p n r = Inr ()" using ok assms(2) that by (auto simp: validateReferences_def)
    then show ?thesis by (intro up) (auto simp: check_reference_def split: if_splits)
  qed
  moreover have "r = n_ID n \<or> upstream r" if "n_Compensation n = Some c" "r \<in> set (references (cp_Properties c))" for c r
  proof -
    have "check_compensation_reference p n r = Inr ()" using ok assms(2) that by (auto simp: validateReferences_def)
    then show ?thesis using up [of r] by (auto simp: check_compensation_reference_def split: if_splits)
  qed
  ultimately show ?thesis by blast
qed

theorem Compile_references_upstream_witness:
  "\<exists>p n. Compile (Some (demo_workflow demo_edges)) = Inr p \<and> n \<in> set (p_nodes p)
     \<and> ''a'' \<in> set (references (n_Properties n)) \<and> (''a'', n_ID n) \<in> (plan_rel p)\<^sup>+"
proof -
  obtain p where p: "Compile (Some (demo_workflow demo_edges)) = Inr p" by (rule demo_compile_plan)
  have "map_sum id (\<lambda>p. list_ex (\<lambda>n. List.member (references (n_Properties n)) ''a'') (p_nodes p))
      (Compile (Some (demo_workflow demo_edges))) = Inr True"
    by code_simp
  then obtain n where "n \<in> set (p_nodes p)" "''a'' \<in> set (references (n_Properties n))"
    by (auto simp: p list_ex_iff)
  then show ?thesis using Compile_references_upstream [OF p] p by blast
qed

text \<open>
  C3. No write race: in a compiled plan two different nodes that declare a write of the same state
  path use the same reducer, and either that reducer is set or one of the two runs before the other.
\<close>

theorem Compile_no_write_race:
  assumes "Compile definition = Inr p"
    and "n \<in> set (p_nodes p)" "w \<in> set (n_Writes n)" "m \<in> set (p_nodes p)" "x \<in> set (n_Writes m)"
    and "sw_Path w = sw_Path x" "n_ID n \<noteq> n_ID m"
  shows "sw_Reducer w = sw_Reducer x
    \<and> (sw_Reducer w \<noteq> [] \<or> (n_ID n, n_ID m) \<in> (plan_rel p)\<^sup>+ \<or> (n_ID m, n_ID n) \<in> (plan_rel p)\<^sup>+)"
proof -
  obtain d :: WorkflowDSL where ok: "validateGlobalWrites p = Inr ()"
    by (rule Compile_InrE [OF assms(1)])
  show ?thesis
    using global_writes_safe [OF ok assms(2-7)] hasPath_iff [OF Compile_plan_wf(1) [OF assms(1)]] by blast
qed

theorem Compile_no_write_race_witness:
  "\<exists>p n m w x. Compile (Some (demo_workflow demo_edges)) = Inr p \<and> n \<in> set (p_nodes p) \<and> m \<in> set (p_nodes p)
     \<and> w \<in> set (n_Writes n) \<and> x \<in> set (n_Writes m) \<and> n_ID n \<noteq> n_ID m \<and> sw_Path w = sw_Path x
     \<and> sw_Reducer w = sw_Reducer x"
proof -
  obtain p where p: "Compile (Some (demo_workflow demo_edges)) = Inr p" by (rule demo_compile_plan)
  have "map_sum id (\<lambda>p. list_ex (\<lambda>n. list_ex (\<lambda>m. list_ex (\<lambda>w. list_ex (\<lambda>x. n_ID n \<noteq> n_ID m \<and> sw_Path w = sw_Path x)
      (n_Writes m)) (n_Writes n)) (p_nodes p)) (p_nodes p)) (Compile (Some (demo_workflow demo_edges))) = Inr True"
    by code_simp
  then obtain n m w x where
    h: "n \<in> set (p_nodes p)" "w \<in> set (n_Writes n)" "m \<in> set (p_nodes p)" "x \<in> set (n_Writes m)"
      "sw_Path w = sw_Path x" "n_ID n \<noteq> n_ID m"
    by (auto simp: p list_ex_iff)
  then show ?thesis using Compile_no_write_race [OF p h] p by blast
qed

end
