(* ===== verification/Blackboard.thy ===== *)
theory Blackboard
  imports Go_Values
begin

text \<open>
  The workflow blackboard, \<^verbatim>\<open>src/internal/module/agent/workflow/engine/blackboard.go\<close>: a state made
  of one map of fields per node, a version counter and the log of the applied deltas.

  Values are immutable in HOL, so the defensive copies (\<^verbatim>\<open>cloneState\<close>, \<^verbatim>\<open>cloneFields\<close>,
  \<^verbatim>\<open>cloneEvent\<close>, \<^verbatim>\<open>cloneValue\<close>) are identities and do not appear. Every method holds the mutex for
  its whole body, so one method call is one step. The clock reading of \<^verbatim>\<open>ApplyDelta\<close> is an
  argument. The version is a \<^verbatim>\<open>uint64\<close>, a 64-bit word, and wraps.
\<close>

type_synonym bb_state = "string \<rightharpoonup> fields"

record StateEvent =
  ev_Sequence :: "64 word"
  ev_NodeID :: string
  ev_Delta :: fields
  ev_AppliedAt :: int

record StateCommit =
  sc_Snapshot :: bb_state
  sc_StateVersion :: "64 word"
  sc_Events :: "StateEvent list"

record Blackboard =
  bb_state :: bb_state
  bb_version :: "64 word"
  bb_events :: "StateEvent list"

datatype replay_error =
    SequenceMismatch "64 word" "64 word"
  | EventWithoutNode "64 word"

section \<open>Operations\<close>

definition NewBlackboard :: Blackboard where
  "NewBlackboard = \<lparr>bb_state = Map.empty, bb_version = 0, bb_events = []\<rparr>"

definition LoadSnapshotAtVersion :: "bb_state \<Rightarrow> 64 word \<Rightarrow> Blackboard \<Rightarrow> Blackboard" where
  "LoadSnapshotAtVersion snapshot version b =
     b\<lparr>bb_state := snapshot, bb_version := version, bb_events := []\<rparr>"

definition LoadSnapshot :: "bb_state \<Rightarrow> Blackboard \<Rightarrow> Blackboard" where
  "LoadSnapshot snapshot b = LoadSnapshotAtVersion snapshot 0 b"

definition GetSnapshot :: "Blackboard \<Rightarrow> bb_state" where
  "GetSnapshot b = bb_state b"

definition applyEventLocked :: "StateEvent \<Rightarrow> Blackboard \<Rightarrow> Blackboard" where
  "applyEventLocked event b =
     (let nodeFields = map_get Map.empty (bb_state b) (ev_NodeID event) ++ ev_Delta event
      in b\<lparr>bb_state := (bb_state b)(ev_NodeID event \<mapsto> nodeFields),
           bb_version := ev_Sequence event, bb_events := bb_events b @ [event]\<rparr>)"

definition delta_event :: "int \<Rightarrow> string \<Rightarrow> fields \<Rightarrow> Blackboard \<Rightarrow> StateEvent" where
  "delta_event now nodeID delta b =
     \<lparr>ev_Sequence = bb_version b + 1, ev_NodeID = nodeID, ev_Delta = delta, ev_AppliedAt = now\<rparr>"

definition ApplyDelta :: "int \<Rightarrow> string \<Rightarrow> fields \<Rightarrow> Blackboard \<Rightarrow> StateEvent \<times> Blackboard" where
  "ApplyDelta now nodeID delta b =
     (let event = delta_event now nodeID delta b in (event, applyEventLocked event b))"

text \<open>An error of \<^verbatim>\<open>Replay\<close> leaves the events before it applied: the state is returned with it.\<close>

fun Replay :: "StateEvent list \<Rightarrow> Blackboard \<Rightarrow> Blackboard \<times> replay_error option" where
  "Replay [] b = (b, None)"
| "Replay (event # rest) b =
     (if ev_Sequence event \<noteq> bb_version b + 1
      then (b, Some (SequenceMismatch (bb_version b + 1) (ev_Sequence event)))
      else if ev_NodeID event = [] then (b, Some (EventWithoutNode (ev_Sequence event)))
      else Replay rest (applyEventLocked event b))"

definition Commit :: "Blackboard \<Rightarrow> StateCommit" where
  "Commit b = \<lparr>sc_Snapshot = bb_state b, sc_StateVersion = bb_version b, sc_Events = bb_events b\<rparr>"

definition GetValue :: "string \<Rightarrow> string \<Rightarrow> Blackboard \<Rightarrow> gval option" where
  "GetValue nodeID field b = (case bb_state b nodeID of None \<Rightarrow> None | Some fs \<Rightarrow> fs field)"

definition EventsAfter :: "64 word \<Rightarrow> Blackboard \<Rightarrow> StateEvent list" where
  "EventsAfter sequence b = filter (\<lambda>e. sequence < ev_Sequence e) (bb_events b)"

text \<open>\<^verbatim>\<open>stateView\<close>: one captured generation; \<open>None\<close> is the nil view.\<close>

record stateView =
  sv_state :: bb_state
  sv_version :: "64 word"

definition View :: "Blackboard \<Rightarrow> stateView" where
  "View b = \<lparr>sv_state = bb_state b, sv_version = bb_version b\<rparr>"

definition view_GetValue :: "stateView option \<Rightarrow> string \<Rightarrow> string \<Rightarrow> gval option" where
  "view_GetValue v nodeID field = (case v of None \<Rightarrow> None | Some v \<Rightarrow>
     (case sv_state v nodeID of None \<Rightarrow> None | Some fs \<Rightarrow> fs field))"

definition view_GetSnapshot :: "stateView option \<Rightarrow> bb_state" where
  "view_GetSnapshot v = (case v of None \<Rightarrow> Map.empty | Some v \<Rightarrow> sv_state v)"

definition view_Version :: "stateView option \<Rightarrow> 64 word" where
  "view_Version v = (case v of None \<Rightarrow> 0 | Some v \<Rightarrow> sv_version v)"

section \<open>The store interface\<close>

text \<open>
  What the scheduler relies on: a store of fields per node, written by deltas, with a counter of
  the generations.
\<close>

locale delta_store =
  fixes put :: "string \<Rightarrow> fields \<Rightarrow> 's \<Rightarrow> 's"
    and get :: "string \<Rightarrow> string \<Rightarrow> 's \<Rightarrow> gval option"
    and gen :: "'s \<Rightarrow> 64 word"
  assumes get_put: "get n f (put m d s) = (if n = m \<and> f \<in> dom d then d f else get n f s)"
    and gen_put: "gen (put m d s) = gen s + 1"
begin

definition put_all :: "(string \<times> fields) list \<Rightarrow> 's \<Rightarrow> 's" where
  "put_all ds s = fold (\<lambda>(m, d). put m d) ds s"

lemma put_all_simps [simp]:
  "put_all [] s = s"
  "put_all (md # ds) s = put_all ds (put (fst md) (snd md) s)"
  by (simp_all add: put_all_def case_prod_beta)

lemma put_all_append: "put_all (xs @ ys) s = put_all ys (put_all xs s)"
  by (simp add: put_all_def)

lemma gen_put_all: "gen (put_all ds s) = gen s + of_nat (length ds)"
  by (induction ds arbitrary: s) (auto simp: gen_put)

lemma get_put_all_other:
  "(\<And>d. (n, d) \<in> set ds \<Longrightarrow> f \<notin> dom d) \<Longrightarrow> get n f (put_all ds s) = get n f s"
  by (induction ds arbitrary: s) (force simp: get_put)+

lemma get_put_all_last:
  assumes "f \<in> dom d" "\<And>d'. (n, d') \<in> set ys \<Longrightarrow> f \<notin> dom d'"
  shows "get n f (put_all (xs @ (n, d) # ys) s) = d f"
  using get_put_all_other [OF assms(2)] assms(1) by (simp add: put_all_append get_put)

text \<open>Deltas of different nodes commute: what a store answers does not depend on their order.\<close>

lemma get_put_all_perm:
  assumes "distinct (map fst xs)" "mset xs = mset ys"
  shows "get n f (put_all xs s) = get n f (put_all ys s)"
proof -
  have d: "distinct (map fst ys)" using assms by (metis distinct_map mset_eq_imp_distinct_iff mset_eq_setD)
  have s: "set xs = set ys" using assms(2) by (rule mset_eq_setD)
  show ?thesis
  proof (cases "\<exists>d. (n, d) \<in> set xs \<and> f \<in> dom d")
    case True
    then obtain e where e: "(n, e) \<in> set xs" "f \<in> dom e" by blast
    have *: "get n f (put_all zs s) = e f" if z: "distinct (map fst zs)" "(n, e) \<in> set zs" for zs
    proof -
      obtain as bs where zs: "zs = as @ (n, e) # bs" using split_list [OF z(2)] by blast
      then have "n \<notin> fst ` set bs" using z(1) by simp
      then have "(n, d') \<notin> set bs" for d' by (metis fst_conv imageI)
      then show ?thesis unfolding zs using get_put_all_last [OF e(2)] by blast
    qed
    show ?thesis using * [OF assms(1) e(1)] * [OF d] e(1) s by simp
  next
    case False
    then show ?thesis using get_put_all_other s by metis
  qed
qed

end

lemma GetValue_applyEventLocked:
  "GetValue n f (applyEventLocked e b) =
     (if n = ev_NodeID e \<and> f \<in> dom (ev_Delta e) then ev_Delta e f else GetValue n f b)"
  by (auto simp: GetValue_def applyEventLocked_def map_get_def map_add_def Let_def split: option.splits)

text \<open>The clock reading of a delta is a function of the version it follows, so each delta has its own.\<close>

interpretation blackboard: delta_store "\<lambda>n d b. snd (ApplyDelta (clock (bb_version b)) n d b)" GetValue bb_version
  for clock :: "64 word \<Rightarrow> int"
proof unfold_locales
  show "GetValue n f (snd (ApplyDelta (clock (bb_version b)) m d b)) = (if n = m \<and> f \<in> dom d then d f else GetValue n f b)"
    for n f m d b
    by (simp add: ApplyDelta_def Let_def GetValue_applyEventLocked delta_event_def)
  show "bb_version (snd (ApplyDelta (clock (bb_version b)) m d b)) = bb_version b + 1" for m d b
    by (simp add: ApplyDelta_def applyEventLocked_def delta_event_def Let_def)
qed

section \<open>The event log\<close>

text \<open>
  The log invariant: the events are numbered consecutively up to the version, and they carry the
  state at the start of the log, \<open>base\<close>, to the current one.
\<close>

definition apply_events :: "StateEvent list \<Rightarrow> bb_state \<Rightarrow> bb_state" where
  "apply_events es s = fold (\<lambda>e s. s(ev_NodeID e \<mapsto> map_get Map.empty s (ev_NodeID e) ++ ev_Delta e)) es s"

fun consecutive :: "64 word \<Rightarrow> StateEvent list \<Rightarrow> bool" where
  "consecutive v [] = True"
| "consecutive v (e # es) \<longleftrightarrow> ev_Sequence e = v + 1 \<and> ev_NodeID e \<noteq> [] \<and> consecutive (v + 1) es"

definition log_from :: "bb_state \<Rightarrow> 64 word \<Rightarrow> Blackboard \<Rightarrow> bool" where
  "log_from base v b \<longleftrightarrow> consecutive v (bb_events b) \<and> bb_version b = v + of_nat (length (bb_events b))
     \<and> bb_state b = apply_events (bb_events b) base"

lemma consecutive_append:
  "consecutive v (xs @ ys) \<longleftrightarrow> consecutive v xs \<and> consecutive (v + of_nat (length xs)) ys"
proof (induction xs arbitrary: v)
  case (Cons x xs)
  have "v + 1 + of_nat (length xs) = v + of_nat (length (x # xs))" by simp
  then show ?case using Cons by (simp only: append_Cons consecutive.simps conj_assoc)
qed simp

lemma apply_events_append [simp]: "apply_events (xs @ ys) s = apply_events ys (apply_events xs s)"
  by (simp add: apply_events_def)

lemma apply_events_Nil [simp]: "apply_events [] s = s"
  by (simp add: apply_events_def)

lemma log_from_load: "log_from s v (LoadSnapshotAtVersion s v b)"
  by (simp add: log_from_def LoadSnapshotAtVersion_def)

lemma log_from_applyEventLocked:
  assumes "log_from base v b" "ev_Sequence e = bb_version b + 1" "ev_NodeID e \<noteq> []"
  shows "log_from base v (applyEventLocked e b)"
  using assms
  by (auto simp: log_from_def applyEventLocked_def consecutive_append apply_events_def Let_def)

lemma log_from_ApplyDelta:
  assumes "log_from base v b" "n \<noteq> []"
  shows "log_from base v (snd (ApplyDelta now n d b))"
  using log_from_applyEventLocked [OF assms(1)] assms(2) by (simp add: ApplyDelta_def delta_event_def Let_def)

lemma log_from_Replay: "log_from base v b \<Longrightarrow> log_from base v (fst (Replay es b))"
  by (induction es b rule: Replay.induct) (auto intro: log_from_applyEventLocked)

text \<open>\<^verbatim>\<open>Replay\<close> is total on consecutive events and stops at the first other one.\<close>

lemma applyEventLocked_eq:
  "applyEventLocked e b = b\<lparr>bb_state := apply_events [e] (bb_state b), bb_version := ev_Sequence e,
     bb_events := bb_events b @ [e]\<rparr>"
  by (simp add: applyEventLocked_def apply_events_def Let_def)

lemma Replay_consecutive:
  "consecutive (bb_version b) es \<Longrightarrow> Replay (es @ rest) b =
     Replay rest (b\<lparr>bb_state := apply_events es (bb_state b),
       bb_version := bb_version b + of_nat (length es), bb_events := bb_events b @ es\<rparr>)"
proof (induction es arbitrary: b)
  case (Cons e es)
  let ?b = "applyEventLocked e b"
  have v: "bb_version ?b = bb_version b + 1" using Cons.prems by (simp add: applyEventLocked_eq)
  have "Replay ((e # es) @ rest) b = Replay (es @ rest) ?b" using Cons.prems by simp
  also have "\<dots> = Replay rest (?b\<lparr>bb_state := apply_events es (bb_state ?b),
      bb_version := bb_version ?b + of_nat (length es), bb_events := bb_events ?b @ es\<rparr>)"
    by (rule Cons.IH) (use Cons.prems v in simp)
  finally show ?case
    using v by (simp add: applyEventLocked_eq apply_events_append [of "[e]", symmetric] add.assoc
        del: apply_events_append)
qed simp

lemma Replay_stops:
  "\<not> consecutive (bb_version b) [e] \<Longrightarrow> fst (Replay (e # es) b) = b \<and> snd (Replay (e # es) b) \<noteq> None"
  by auto

lemma consecutive_split:
  "\<exists>pre post. es = pre @ post \<and> consecutive v pre \<and> (post = [] \<or> \<not> consecutive (v + of_nat (length pre)) [hd post])"
proof (induction es arbitrary: v)
  case (Cons e es)
  show ?case
  proof (cases "consecutive v [e]")
    case True
    obtain pre post where "es = pre @ post" "consecutive (v + 1) pre"
      "post = [] \<or> \<not> consecutive (v + 1 + of_nat (length pre)) [hd post]"
      using Cons.IH [of "v + 1"] by blast
    then show ?thesis using True by (intro exI [of _ "e # pre"] exI [of _ post]) (simp add: add.assoc)
  next
    case False
    then show ?thesis by (intro exI [of _ "[]"] exI [of _ "e # es"]) simp
  qed
qed simp

lemma consecutive_sequences:
  assumes "consecutive v es" "unat v + length es < 2 ^ 64" "i < length es"
  shows "unat (ev_Sequence (es ! i)) = unat v + Suc i"
  using assms
proof (induction es arbitrary: v i)
  case (Cons e es)
  have v1: "unat (v + 1) = unat v + 1" using Cons.prems(2) by (simp add: unat_plus_simple unat_word_ariths)
  show ?case
  proof (cases i)
    case 0
    then show ?thesis using Cons.prems(1) v1 by simp
  next
    case (Suc j)
    then show ?thesis using Cons.IH [of "v + 1" j] Cons.prems v1 by simp
  qed
qed simp

section \<open>Recovery\<close>

definition apply_all :: "(int \<times> string \<times> fields) list \<Rightarrow> Blackboard \<Rightarrow> Blackboard" where
  "apply_all ds b = fold (\<lambda>(now, n, d) b. snd (ApplyDelta now n d b)) ds b"

lemma apply_all_log:
  assumes "\<forall>(now, n, d) \<in> set ds. n \<noteq> []"
  shows "\<exists>es. apply_all ds b = b\<lparr>bb_state := apply_events es (bb_state b),
     bb_version := bb_version b + of_nat (length ds), bb_events := bb_events b @ es\<rparr>
     \<and> length es = length ds \<and> consecutive (bb_version b) es"
  using assms
proof (induction ds arbitrary: b)
  case Nil
  then show ?case by (simp add: apply_all_def)
next
  case (Cons x ds)
  obtain now n d where x: "x = (now, n, d)" by (cases x)
  define e where "e = delta_event now n d b"
  let ?b = "applyEventLocked e b"
  have v: "bb_version ?b = bb_version b + 1" by (simp add: applyEventLocked_eq e_def delta_event_def)
  obtain es where es: "apply_all ds ?b = ?b\<lparr>bb_state := apply_events es (bb_state ?b),
     bb_version := bb_version ?b + of_nat (length ds), bb_events := bb_events ?b @ es\<rparr>"
     "length es = length ds" "consecutive (bb_version ?b) es"
    using Cons.IH [of ?b] Cons.prems by auto
  have "apply_all (x # ds) b = apply_all ds ?b" by (simp add: apply_all_def x ApplyDelta_def e_def Let_def)
  moreover have "consecutive (bb_version b) (e # es)"
    using es(3) v Cons.prems by (simp add: e_def delta_event_def x)
  ultimately show ?case using es v
    by (intro exI [of _ "e # es"])
      (simp add: applyEventLocked_eq apply_events_append [of "[e]", symmetric] add.assoc del: apply_events_append)
qed

lemma EventsAfter_version:
  assumes "consecutive v pre" "consecutive (v + of_nat (length pre)) post"
    and "unat v + length pre + length post < 2 ^ 64"
  shows "filter (\<lambda>e. v + of_nat (length pre) < ev_Sequence e) (pre @ post) = post"
proof -
  let ?w = "v + of_nat (length pre)"
  have w: "unat ?w = unat v + length pre"
    using assms(3) by (simp add: unat_word_ariths unat_of_nat)
  have "\<not> ?w < ev_Sequence e" if e: "e \<in> set pre" for e
  proof -
    obtain i where "i < length pre" "pre ! i = e" using e by (auto simp: in_set_conv_nth)
    then have "unat (ev_Sequence e) \<le> unat ?w"
      using consecutive_sequences [OF assms(1)] assms(3) w by fastforce
    then show ?thesis by (simp add: word_less_nat_alt)
  qed
  moreover have "?w < ev_Sequence e" if e: "e \<in> set post" for e
  proof -
    obtain i where "i < length post" "post ! i = e" using e by (auto simp: in_set_conv_nth)
    then have "unat ?w < unat (ev_Sequence e)"
      using consecutive_sequences [OF assms(2)] assms(3) w by fastforce
    then show ?thesis by (simp add: word_less_nat_alt)
  qed
  ultimately show ?thesis by (simp add: filter_id_conv filter_empty_conv)
qed

text \<open>
  C26. Crash recovery. Take a blackboard \<open>b0\<close> whose log is consecutive, apply the deltas \<open>ds1\<close>, take
  a snapshot with its version, and apply \<open>ds2\<close>. Loading the snapshot at its version into any
  blackboard and replaying \<^verbatim>\<open>EventsAfter\<close> that version succeeds and gives the same state, the same
  version and exactly the events since the snapshot, as long as the 64-bit version does not wrap.
\<close>

theorem Replay_recovers:
  assumes log: "log_from base v b0" and "unat v + length (bb_events b0) + length ds1 + length ds2 < 2 ^ 64"
    and n1: "\<forall>(now, n, d) \<in> set ds1. n \<noteq> []" and n2: "\<forall>(now, n, d) \<in> set ds2. n \<noteq> []"
    and b1: "b1 = apply_all ds1 b0" and b2: "b2 = apply_all ds2 b1"
  shows "Replay (EventsAfter (bb_version b1) b2) (LoadSnapshotAtVersion (GetSnapshot b1) (bb_version b1) b)
    = (b\<lparr>bb_state := GetSnapshot b2, bb_version := bb_version b2, bb_events := EventsAfter (bb_version b1) b2\<rparr>, None)
    \<and> length (EventsAfter (bb_version b1) b2) = length ds2"
proof -
  obtain es1 where 1: "b1 = b0\<lparr>bb_state := apply_events es1 (bb_state b0),
     bb_version := bb_version b0 + of_nat (length ds1), bb_events := bb_events b0 @ es1\<rparr>"
     "length es1 = length ds1" "consecutive (bb_version b0) es1"
    using apply_all_log [OF n1, of b0] b1 by blast
  obtain es2 where 2: "b2 = b1\<lparr>bb_state := apply_events es2 (bb_state b1),
     bb_version := bb_version b1 + of_nat (length ds2), bb_events := bb_events b1 @ es2\<rparr>"
     "length es2 = length ds2" "consecutive (bb_version b1) es2"
    using apply_all_log [OF n2, of b1] b2 by blast
  have v1: "bb_version b1 = v + of_nat (length (bb_events b1))"
    using log 1 by (simp add: log_from_def)
  have c: "consecutive v (bb_events b1)"
    using log 1 by (simp add: log_from_def consecutive_append)
  have "EventsAfter (bb_version b1) b2 = es2"
  proof -
    have "unat v + length (bb_events b1) + length es2 < 2 ^ 64" using assms(2) 1 2(2) by simp
    moreover have "bb_events b2 = bb_events b1 @ es2" using 2(1) by simp
    ultimately show ?thesis
      unfolding EventsAfter_def using EventsAfter_version [OF c, of es2] 2(3) v1 by simp
  qed
  moreover have "Replay (es2 @ []) (LoadSnapshotAtVersion (GetSnapshot b1) (bb_version b1) b)
    = (b\<lparr>bb_state := GetSnapshot b2, bb_version := bb_version b2, bb_events := es2\<rparr>, None)"
    by (subst Replay_consecutive) (use 2 in \<open>simp_all add: LoadSnapshotAtVersion_def GetSnapshot_def\<close>)
  ultimately show ?thesis using 2(2) by simp
qed

theorem Replay_recovers_witness:
  "\<exists>b1 b2. b1 = apply_all [(10, ''a'', [''x'' \<mapsto> GBool True])] NewBlackboard
    \<and> b2 = apply_all [(20, ''b'', [''y'' \<mapsto> GBool False]), (30, ''a'', [''x'' \<mapsto> GNil])] b1
    \<and> snd (Replay (EventsAfter (bb_version b1) b2) (LoadSnapshotAtVersion (GetSnapshot b1) (bb_version b1) NewBlackboard)) = None
    \<and> GetValue ''a'' ''x'' b2 = Some GNil \<and> length (EventsAfter (bb_version b1) b2) = 2"
proof -
  let ?d1 = "[(10, ''a'', [''x'' \<mapsto> GBool True])] :: (int \<times> string \<times> fields) list"
  let ?d2 = "[(20, ''b'', [''y'' \<mapsto> GBool False]), (30, ''a'', [''x'' \<mapsto> GNil])] :: (int \<times> string \<times> fields) list"
  have "log_from Map.empty 0 NewBlackboard" by (simp add: log_from_def NewBlackboard_def)
  moreover have "GetValue ''a'' ''x'' (apply_all ?d2 (apply_all ?d1 NewBlackboard)) = Some GNil" by code_simp
  ultimately show ?thesis
    using Replay_recovers [of Map.empty 0 NewBlackboard ?d1 ?d2 _ _ NewBlackboard, OF _ _ _ _ refl refl]
    by (simp add: NewBlackboard_def)
qed

text \<open>
  Replay fails closed. Whatever the events are, replay applies the longest prefix that continues
  the log (each sequence one above the version before it, each node id non-empty), reports an error
  exactly when something is left over, and leaves no trace of the rest; the log invariant survives.
\<close>

theorem Replay_fails_closed:
  "\<exists>pre post. events = pre @ post \<and> consecutive (bb_version b) pre
     \<and> fst (Replay events b) = b\<lparr>bb_state := apply_events pre (bb_state b),
           bb_version := bb_version b + of_nat (length pre), bb_events := bb_events b @ pre\<rparr>
     \<and> (snd (Replay events b) = None \<longleftrightarrow> post = [])
     \<and> (post = [] \<or> \<not> consecutive (bb_version b) (pre @ [hd post]))
     \<and> (\<forall>base v. log_from base v b \<longrightarrow> log_from base v (fst (Replay events b)))"
proof -
  obtain pre post where s: "events = pre @ post" "consecutive (bb_version b) pre"
    "post = [] \<or> \<not> consecutive (bb_version b + of_nat (length pre)) [hd post]"
    using consecutive_split by blast
  let ?b = "b\<lparr>bb_state := apply_events pre (bb_state b),
     bb_version := bb_version b + of_nat (length pre), bb_events := bb_events b @ pre\<rparr>"
  have r: "Replay events b = Replay post ?b" using Replay_consecutive [OF s(2)] s(1) by simp
  have "fst (Replay events b) = ?b \<and> (snd (Replay events b) = None \<longleftrightarrow> post = [])"
  proof (cases post)
    case (Cons e es)
    then show ?thesis using Replay_stops [of ?b e es] s(3) r by simp
  qed (simp add: r)
  moreover have "post = [] \<or> \<not> consecutive (bb_version b) (pre @ [hd post])"
    using s(2,3) by (simp add: consecutive_append)
  moreover have "\<forall>base v. log_from base v b \<longrightarrow> log_from base v (fst (Replay events b))"
    using log_from_Replay by blast
  ultimately show ?thesis
    by (intro exI [of _ pre] exI [of _ post]) (use s(1,2) in \<open>simp only: simp_thms\<close>)
qed

theorem Replay_fails_closed_witness:
  "snd (Replay [\<lparr>ev_Sequence = 1, ev_NodeID = ''a'', ev_Delta = Map.empty, ev_AppliedAt = 5\<rparr>,
      \<lparr>ev_Sequence = 3, ev_NodeID = ''a'', ev_Delta = Map.empty, ev_AppliedAt = 6\<rparr>] NewBlackboard)
      = Some (SequenceMismatch 2 3)
   \<and> (\<exists>pre post. [\<lparr>ev_Sequence = 1, ev_NodeID = ''a'', ev_Delta = Map.empty, ev_AppliedAt = 5\<rparr>,
      \<lparr>ev_Sequence = 3, ev_NodeID = ''a'', ev_Delta = Map.empty, ev_AppliedAt = 6\<rparr>] = pre @ post \<and> post \<noteq> [])"
proof -
  let ?es = "[\<lparr>ev_Sequence = 1, ev_NodeID = ''a'', ev_Delta = Map.empty, ev_AppliedAt = 5\<rparr>,
      \<lparr>ev_Sequence = 3, ev_NodeID = ''a'', ev_Delta = Map.empty, ev_AppliedAt = 6\<rparr>] :: StateEvent list"
  have r: "snd (Replay ?es NewBlackboard) = Some (SequenceMismatch 2 3)"
    by (simp add: NewBlackboard_def applyEventLocked_def Let_def)
  then show ?thesis using Replay_fails_closed [of ?es NewBlackboard] by auto
qed

end
