(* ===== verification/Go_Errors.thy ===== *)
theory Go_Errors
  imports Go_Values
begin

text \<open>
  Go error values. An error is a tree: a leaf, a wrapper around one cause (\<^verbatim>\<open>fmt.Errorf\<close> with
  \<^verbatim>\<open>%w\<close> at its end, \<open>EWrap\<close>, or at its front, \<open>ENote\<close>, or a struct with an \<^verbatim>\<open>Unwrap\<close> method) or an \<^verbatim>\<open>errors.Join\<close>. \<^verbatim>\<open>errors.Is\<close> and
  \<^verbatim>\<open>errors.As\<close> search the tree in preorder, which is the list \<open>chain\<close>.

  The structs that carry data through an error are those of
  \<^verbatim>\<open>src/internal/module/agent/runtime/errors.go\<close>, \<^verbatim>\<open>runtime/types.go\<close>,
  \<^verbatim>\<open>workflow/engine/checkpoint.go\<close> and \<^verbatim>\<open>workflow/tool/executor.go\<close>. Errors of code outside the
  model are leaves: \<open>ERetryable\<close> for a type with \<^verbatim>\<open>IsRetryable\<close>, \<open>ETransient\<close> for one with
  \<^verbatim>\<open>Retryable\<close>, \<open>ENet\<close> for a \<^verbatim>\<open>net.Error\<close> (its \<^verbatim>\<open>Timeout\<close> and \<^verbatim>\<open>Temporary\<close>),
  \<open>EAPI\<close> for the error of the OpenAI client with its HTTP status, \<open>EMsg\<close> for any other. \<open>EProvider\<close> is the
  \<^verbatim>\<open>ProviderCallError\<close> of \<^verbatim>\<open>model/provider_error.go\<close>.
\<close>

record WorkflowSuspension =
  su_NodeID :: string
  su_Reason :: string
  su_ResumeToken :: string
  su_Metadata :: "(string \<times> gval) list"

record ToolContinuation =
  tc_Version :: string
  tc_Prompt :: string
  tc_ResumeKind :: string
  tc_ApprovalID :: string
  tc_State :: raw_message

record RunError =
  re_Code :: string
  re_Step :: int
  re_ActionID :: string
  re_ApprovalID :: string
  re_Message :: string

record ExecutionError =
  xe_Code :: string
  xe_ToolName :: string
  xe_Attempt :: int
  xe_Retryable :: bool

definition ErrorInvalidRequest :: string where "ErrorInvalidRequest = ''invalid_request''"
definition ErrorInvalidAction :: string where "ErrorInvalidAction = ''invalid_action''"
definition ErrorEmptyResponse :: string where "ErrorEmptyResponse = ''empty_response''"
definition ErrorModel :: string where "ErrorModel = ''model_error''"
definition ErrorUnknownTool :: string where "ErrorUnknownTool = ''unknown_tool''"
definition ErrorTool :: string where "ErrorTool = ''tool_error''"
definition ErrorRAG :: string where "ErrorRAG = ''rag_error''"
definition ErrorUnsupported :: string where "ErrorUnsupported = ''unsupported_action''"
definition ErrorMaxSteps :: string where "ErrorMaxSteps = ''max_steps_exceeded''"
definition ErrorBudgetExceeded :: string where "ErrorBudgetExceeded = ''budget_exceeded''"
definition ErrorConcurrencyLimit :: string where "ErrorConcurrencyLimit = ''concurrency_limit_exceeded''"
definition ErrorTimeout :: string where "ErrorTimeout = ''timeout''"
definition ErrorCanceled :: string where "ErrorCanceled = ''canceled''"
definition ErrorApprovalRequired :: string where "ErrorApprovalRequired = ''approval_required''"

lemmas error_code_defs = ErrorInvalidRequest_def ErrorInvalidAction_def ErrorEmptyResponse_def
  ErrorModel_def ErrorUnknownTool_def ErrorTool_def ErrorRAG_def ErrorUnsupported_def
  ErrorMaxSteps_def ErrorBudgetExceeded_def ErrorConcurrencyLimit_def ErrorTimeout_def
  ErrorCanceled_def ErrorApprovalRequired_def

datatype gerr =
    ECanceled
  | EDeadline
  | EMsg string
  | ESentinel string
  | ERetryable bool string
  | ENet bool bool string
  | EWrap string gerr
  | ENote gerr string
  | EJoin gerr gerr
  | ESuspension WorkflowSuspension "gerr option"
  | EToolSuspension ToolContinuation "gerr option"
  | ERun RunError "gerr option"
  | EExec ExecutionError gerr
  | EApprovalPending string
  | ETransient bool string
  | EProvider string bool "gerr option"
  | EAPI int string

fun chain :: "gerr \<Rightarrow> gerr list" where
  "chain (EWrap s e) = EWrap s e # chain e"
| "chain (ENote e s) = ENote e s # chain e"
| "chain (EJoin e f) = EJoin e f # chain e @ chain f"
| "chain (ESuspension s c) = ESuspension s c # (case c of None \<Rightarrow> [] | Some e \<Rightarrow> chain e)"
| "chain (EToolSuspension s c) = EToolSuspension s c # (case c of None \<Rightarrow> [] | Some e \<Rightarrow> chain e)"
| "chain (ERun r c) = ERun r c # (case c of None \<Rightarrow> [] | Some e \<Rightarrow> chain e)"
| "chain (EExec x e) = EExec x e # chain e"
| "chain (EProvider code allowed c) = EProvider code allowed c # (case c of None \<Rightarrow> [] | Some e \<Rightarrow> chain e)"
| "chain e = [e]"

text \<open>\<^verbatim>\<open>errors.Is\<close> with a sentinel, \<^verbatim>\<open>errors.As\<close> with a type, given by its partial projection.\<close>

definition errors_Is :: "gerr \<Rightarrow> gerr \<Rightarrow> bool" where
  "errors_Is e target \<longleftrightarrow> target \<in> set (chain e)"

definition errors_As :: "(gerr \<Rightarrow> 'a option) \<Rightarrow> gerr \<Rightarrow> 'a option" where
  "errors_As proj e = (case List.find (\<lambda>x. proj x \<noteq> None) (chain e) of None \<Rightarrow> None | Some x \<Rightarrow> proj x)"

fun as_suspension :: "gerr \<Rightarrow> WorkflowSuspension option" where
  "as_suspension (ESuspension s c) = Some s"
| "as_suspension _ = None"

fun as_tool_suspension :: "gerr \<Rightarrow> ToolContinuation option" where
  "as_tool_suspension (EToolSuspension s c) = Some s"
| "as_tool_suspension _ = None"

fun as_run_error :: "gerr \<Rightarrow> RunError option" where
  "as_run_error (ERun r c) = Some r"
| "as_run_error _ = None"

fun as_retryable :: "gerr \<Rightarrow> bool option" where
  "as_retryable (ERetryable b s) = Some b"
| "as_retryable (EExec x e) = Some (xe_Retryable x)"
| "as_retryable _ = None"

fun as_transient :: "gerr \<Rightarrow> bool option" where
  "as_transient (ETransient b s) = Some b"
| "as_transient _ = None"

fun as_approval_pending :: "gerr \<Rightarrow> string option" where
  "as_approval_pending (EApprovalPending i) = Some i"
| "as_approval_pending _ = None"

text \<open>\<^verbatim>\<open>context.DeadlineExceeded\<close> is a \<^verbatim>\<open>net.Error\<close> with both answers true.\<close>

fun as_net :: "gerr \<Rightarrow> (bool \<times> bool) option" where
  "as_net (ENet timeout temporary s) = Some (timeout, temporary)"
| "as_net EDeadline = Some (True, True)"
| "as_net _ = None"

definition HasErrorCode :: "gerr \<Rightarrow> string \<Rightarrow> bool" where
  "HasErrorCode err code = (case errors_As as_run_error err of None \<Rightarrow> False | Some r \<Rightarrow> re_Code r = code)"

definition ApprovalIDFromError :: "gerr \<Rightarrow> string" where
  "ApprovalIDFromError err = (case errors_As as_run_error err of
      None \<Rightarrow> [] | Some r \<Rightarrow> if re_Code r \<noteq> ErrorApprovalRequired then [] else re_ApprovalID r)"

definition ToolContinuationFromError :: "gerr \<Rightarrow> ToolContinuation option" where
  "ToolContinuationFromError err = errors_As as_tool_suspension err"

definition ErrApprovalRequired :: gerr where
  "ErrApprovalRequired = ESentinel ''tool approval required''"

lemma chain_ne [simp]: "chain e \<noteq> []"
  by (cases e) auto

section \<open>Messages\<close>

text \<open>Decimal output of \<^verbatim>\<open>%d\<close>.\<close>

definition digit_char :: "nat \<Rightarrow> char" where
  "digit_char d = ''0123456789'' ! (d mod 10)"

function show_nat :: "nat \<Rightarrow> string" where
  "show_nat n = (if n < 10 then [digit_char n] else show_nat (n div 10) @ [digit_char (n mod 10)])"
  by pat_completeness auto
termination by (relation "measure id") auto

declare show_nat.simps [simp del]

definition show_int :: "int \<Rightarrow> string" where
  "show_int i = (if i < 0 then CHR ''-'' # show_nat (nat (- i)) else show_nat (nat i))"

definition suspension_text :: "WorkflowSuspension \<Rightarrow> string" where
  "suspension_text s =
     (if su_Reason s \<noteq> [] then ''workflow suspended at node '' @ su_NodeID s @ '': '' @ su_Reason s
      else ''workflow suspended at node '' @ su_NodeID s)"

definition run_error_prefix :: "RunError \<Rightarrow> string" where
  "run_error_prefix r = re_Code r @ (if 0 < re_Step r then '' at step '' @ show_int (re_Step r) else [])
     @ (if re_ActionID r \<noteq> [] then '' action '' @ re_ActionID r else [])"

fun error_text :: "gerr \<Rightarrow> string" where
  "error_text ECanceled = ''context canceled''"
| "error_text EDeadline = ''context deadline exceeded''"
| "error_text (EMsg s) = s"
| "error_text (ESentinel s) = s"
| "error_text (ERetryable b s) = s"
| "error_text (ENet a b s) = s"
| "error_text (EWrap s e) = s @ error_text e"
| "error_text (ENote e s) = error_text e @ s"
| "error_text (EJoin e f) = error_text e @ [CHR 0x0A] @ error_text f"
| "error_text (ESuspension s c) = suspension_text s"
| "error_text (EToolSuspension s c) =
     (if tc_Prompt s \<noteq> [] then ''tool suspended: '' @ tc_Prompt s else ''tool suspended'')"
| "error_text (ERun r c) =
     (if re_Message r \<noteq> [] then run_error_prefix r @ '': '' @ re_Message r
      else case c of Some e \<Rightarrow> run_error_prefix r @ '': '' @ error_text e | None \<Rightarrow> run_error_prefix r)"
| "error_text (EExec x e) = ''tool '' @ xe_ToolName x @ '' '' @ xe_Code x @ '': '' @ error_text e"
| "error_text (EApprovalPending i) = (if i = [] then ''tool approval is pending'' else ''tool approval '' @ i @ '' is pending'')"
| "error_text (ETransient b s) = s"
| "error_text (EProvider code allowed c) = (case c of Some e \<Rightarrow> error_text e | None \<Rightarrow> code)"
| "error_text (EAPI status s) = s"

end
