(* ===== verification/State_Writes.thy ===== *)
theory State_Writes
  imports Blackboard Workflow_IR Go_Errors "HOL-Library.AList"
begin

text \<open>
  How the scheduler reads and writes the blackboard for one node
  (\<^verbatim>\<open>src/internal/module/agent/workflow/engine/scheduler.go\<close>): the resolution of placeholders in
  the node's properties, the check of its declared state writes, the reducers and the application
  of its outputs. \<^verbatim>\<open>fmt.Sprintf("%v", x)\<close> is the parameter \<open>fmt_v\<close>.

  A slice of a typed element and an array have the same shape as \<open>GSlice\<close>; a float has no signed
  zero in the model, so \<^verbatim>\<open>math.Min\<close> and \<^verbatim>\<open>math.Max\<close> agree with the order of the rationals.
\<close>

section \<open>Inputs\<close>

function resolve_string :: "(gval \<Rightarrow> string) \<Rightarrow> bb_state \<Rightarrow> string \<Rightarrow> string" where
  "resolve_string fmt_v snapshot s = (case match_ref s of
      Some (a, b, rest) \<Rightarrow>
        (case snapshot a of
           None \<Rightarrow> ''{{'' @ a @ ''.'' @ b @ ''}}''
         | Some fs \<Rightarrow> (case fs b of None \<Rightarrow> ''{{'' @ a @ ''.'' @ b @ ''}}'' | Some v \<Rightarrow> fmt_v v))
        @ resolve_string fmt_v snapshot rest
    | None \<Rightarrow> (case s of [] \<Rightarrow> [] | c # cs \<Rightarrow> c # resolve_string fmt_v snapshot cs))"
  by pat_completeness auto
termination by (relation "measure (\<lambda>(_, _, s). length s)") (auto dest: match_ref_shorter)

declare resolve_string.simps [simp del]

fun resolveInputValue :: "(gval \<Rightarrow> string) \<Rightarrow> bb_state \<Rightarrow> gval \<Rightarrow> gval" where
  "resolveInputValue fmt_v snapshot (GString s) = GString (resolve_string fmt_v snapshot s)"
| "resolveInputValue fmt_v snapshot (GMap kvs) =
     GMap (map (\<lambda>kv. (fst kv, resolveInputValue fmt_v snapshot (snd kv))) kvs)"
| "resolveInputValue fmt_v snapshot (GSlice vs) = GSlice (map (resolveInputValue fmt_v snapshot) vs)"
| "resolveInputValue fmt_v snapshot v = v"

definition resolveRawInputs :: "(gval \<Rightarrow> string) \<Rightarrow> raw_message \<Rightarrow> bb_state \<Rightarrow> (string \<times> gval) list" where
  "resolveRawInputs fmt_v properties snapshot = (case unmarshal_object properties of
      None \<Rightarrow> [] | Some kvs \<Rightarrow> map (\<lambda>kv. (fst kv, resolveInputValue fmt_v snapshot (snd kv))) kvs)"

section \<open>Reducers\<close>

fun appendReducerValues :: "gval list \<Rightarrow> gval \<Rightarrow> gval list" where
  "appendReducerValues target (GSlice vs) = target @ vs"
| "appendReducerValues target v = target @ [v]"

fun reducerStringMap :: "gval \<Rightarrow> (string \<times> gval) list option" where
  "reducerStringMap (GMap kvs) = Some kvs"
| "reducerStringMap _ = None"

fun reducerNumber :: "gval \<Rightarrow> rat option" where
  "reducerNumber (GInt i) = (case f64_of_int i of Fin r \<Rightarrow> Some r | _ \<Rightarrow> None)"
| "reducerNumber (GUint n) = (case f64_of_int (int n) of Fin r \<Rightarrow> Some r | _ \<Rightarrow> None)"
| "reducerNumber (GFloat (Fin r)) = Some r"
| "reducerNumber _ = None"

definition merge_entries :: "(string \<times> gval) list \<Rightarrow> (string \<times> gval) list \<Rightarrow> (string \<times> gval) list" where
  "merge_entries base entries = fold (\<lambda>(k, v) m. AList.update k v m) entries base"

datatype reduce_error =
    MergeNeedsObjectState
  | MergeNeedsObjectInput
  | NeedsNumericInput string
  | NeedsNumericState string
  | UnsupportedStateReducer string

definition reduceStateValue :: "string \<Rightarrow> gval \<Rightarrow> gval \<Rightarrow> bool \<Rightarrow> reduce_error + gval" where
  "reduceStateValue reducer current incoming exists =
     (if reducer = [] then Inr incoming
      else if reducer = ReducerFirst then Inr (if exists then current else incoming)
      else if reducer = ReducerLast then Inr incoming
      else if reducer = ReducerAppend
      then Inr (GSlice (appendReducerValues (if exists then appendReducerValues [] current else []) incoming))
      else if reducer = ReducerMerge
      then bind_res (if exists
             then (case reducerStringMap current of None \<Rightarrow> Inl MergeNeedsObjectState | Some m \<Rightarrow> Inr (merge_entries [] m))
             else Inr []) (\<lambda>merged.
           case reducerStringMap incoming of
             None \<Rightarrow> Inl MergeNeedsObjectInput
           | Some m \<Rightarrow> Inr (GMap (merge_entries merged m)))
      else if reducer \<in> set [ReducerSum, ReducerMin, ReducerMax]
      then (case reducerNumber incoming of
              None \<Rightarrow> Inl (NeedsNumericInput reducer)
            | Some new \<Rightarrow>
                if \<not> exists then Inr (GFloat (Fin new))
                else case reducerNumber current of
                       None \<Rightarrow> Inl (NeedsNumericState reducer)
                     | Some cur \<Rightarrow>
                         if reducer = ReducerSum then Inr (GFloat (f64_add_fin cur new))
                         else if reducer = ReducerMin then Inr (GFloat (Fin (min cur new)))
                         else Inr (GFloat (Fin (max cur new))))
      else Inl (UnsupportedStateReducer reducer))"

section \<open>Applying the outputs of a node\<close>

definition validateStateWrites :: "Node \<Rightarrow> fields \<Rightarrow> gerr + unit" where
  "validateStateWrites node outputs = check_all (\<lambda>w.
     guard_res (outputs (sw_Source w) = None)
       (EMsg (''declared state write '' @ sw_Path w @ '' requires missing output field '' @ sw_Source w)))
     (n_Writes node)"

text \<open>\<^verbatim>\<open>strings.SplitN(path, ".", 2)\<close>: the text before and after the first dot.\<close>

definition path_namespace :: "string \<Rightarrow> string" where
  "path_namespace path = takeWhile (\<lambda>c. c \<noteq> CHR ''.'') path"

definition path_field :: "string \<Rightarrow> string" where
  "path_field path = drop 1 (dropWhile (\<lambda>c. c \<noteq> CHR ''.'') path)"

record stateWriteMutation =
  mu_namespace :: string
  mu_field :: string
  mu_value :: gval

definition reduce_err :: "string \<Rightarrow> string \<Rightarrow> gerr" where
  "reduce_err path i = EMsg (''reduce state write '' @ path @ '' from node '' @ i)"

text \<open>The first loop (\<open>clock\<close> below gives the reading each delta takes): all reducers run against the blackboard before anything is written.\<close>

fun write_mutations :: "string \<Rightarrow> fields \<Rightarrow> StateWriteDSL list \<Rightarrow> Blackboard
    \<Rightarrow> gerr + stateWriteMutation list" where
  "write_mutations i outputs [] b = Inr []"
| "write_mutations i outputs (w # ws) b =
     (let ns = path_namespace (sw_Path w); fld = path_field (sw_Path w);
          incoming = map_get GNil outputs (sw_Source w);
          current = GetValue ns fld b
      in case reduceStateValue (sw_Reducer w) (case current of None \<Rightarrow> GNil | Some v \<Rightarrow> v) incoming (current \<noteq> None) of
           Inl e \<Rightarrow> Inl (reduce_err (sw_Path w) i)
         | Inr v \<Rightarrow> bind_res (write_mutations i outputs ws b) (\<lambda>rest.
             Inr (\<lparr>mu_namespace = ns, mu_field = fld, mu_value = v\<rparr> # rest)))"

definition applyResultDelta :: "(64 word \<Rightarrow> int) \<Rightarrow> string \<Rightarrow> Node \<Rightarrow> fields \<Rightarrow> Blackboard \<Rightarrow> gerr + Blackboard" where
  "applyResultDelta clock i node outputs b =
     bind_res (write_mutations i outputs (n_Writes node) b) (\<lambda>mutations.
       Inr (fold (\<lambda>m b. snd (ApplyDelta (clock (bb_version b)) (mu_namespace m) [mu_field m \<mapsto> mu_value m] b)) mutations
              (snd (ApplyDelta (clock (bb_version b)) i outputs b))))"

section \<open>Paths of a compiled node\<close>

lemma compile_writes_paths:
  assumes "compile_writes i seen ws = Inr ws'"
  shows "distinct (map sw_Path ws') \<and> set (map sw_Path ws') \<inter> set seen = {}
    \<and> (\<forall>w\<in>set ws'. CHR ''.'' \<in> set (sw_Path w))"
  using assms
proof (induction i seen ws arbitrary: ws' rule: compile_writes.induct)
  case (2 i seen w ws)
  let ?path = "trim_space (sw_Path w)"
  let ?src = "if trim_space (sw_Source w) = [] then split_on CHR ''.'' ?path ! 1 else trim_space (sw_Source w)"
  obtain rest where r: "compile_writes i (?path # seen) ws = Inr rest" "?path \<notin> set seen"
      "length (split_on CHR ''.'' ?path) = 2"
      "ws' = \<lparr>sw_Path = ?path, sw_Source = ?src, sw_Reducer = to_lower (trim_space (sw_Reducer w))\<rparr> # rest"
    using "2.prems" by (auto simp: Let_def split: if_splits)
  have dot: "CHR ''.'' \<in> set ?path"
  proof (rule ccontr)
    assume "CHR ''.'' \<notin> set ?path"
    then have "split_on CHR ''.'' ?path = [?path]" by (rule split_on_absent)
    then show False using r(3) by simp
  qed
  have "distinct (map sw_Path rest) \<and> set (map sw_Path rest) \<inter> set (?path # seen) = {}
    \<and> (\<forall>w\<in>set rest. CHR ''.'' \<in> set (sw_Path w))"
    using "2.prems" r by (intro "2.IH" [OF refl refl refl refl _ _ refl]) (auto simp: Let_def split: if_splits)
  then show ?case using r(2,4) dot by auto
qed simp

lemma path_parts: "CHR ''.'' \<in> set p \<Longrightarrow> path_namespace p @ ''.'' @ path_field p = p"
proof -
  assume "CHR ''.'' \<in> set p"
  then have "dropWhile (\<lambda>c. c \<noteq> CHR ''.'') p \<noteq> []" by (simp add: dropWhile_eq_Nil_conv)
  then have "CHR ''.'' # drop 1 (dropWhile (\<lambda>c. c \<noteq> CHR ''.'') p) = dropWhile (\<lambda>c. c \<noteq> CHR ''.'') p"
    using hd_dropWhile [of "\<lambda>c. c \<noteq> CHR ''.''" p]
    by (cases "dropWhile (\<lambda>c. c \<noteq> CHR ''.'') p") auto
  then show ?thesis unfolding path_namespace_def path_field_def by (metis append_Cons append_Nil takeWhile_dropWhile_id)
qed

definition write_slot :: "StateWriteDSL \<Rightarrow> string \<times> string" where
  "write_slot w = (path_namespace (sw_Path w), path_field (sw_Path w))"

lemma write_slots_distinct:
  assumes "distinct (map sw_Path ws)" "\<forall>w\<in>set ws. CHR ''.'' \<in> set (sw_Path w)"
  shows "distinct (map write_slot ws)"
proof -
  have p: "sw_Path v = sw_Path w" if "v \<in> set ws" "w \<in> set ws" "write_slot v = write_slot w" for v w
    using that assms(2) path_parts [of "sw_Path v"] path_parts [of "sw_Path w"] by (simp add: write_slot_def)
  have d: "distinct ws" "inj_on sw_Path (set ws)" using assms(1) by (simp_all add: distinct_map)
  then have "inj_on write_slot (set ws)" using p by (meson inj_onD inj_onI)
  with d(1) show ?thesis by (simp add: distinct_map)
qed

lemma compile_nodes_origin:
  "compile_nodes k ns p = Inr q \<Longrightarrow> n \<in> set (p_nodes q) \<Longrightarrow> n \<in> set (p_nodes p) \<or> (\<exists>src j. compileNode src j = Inr n)"
proof (induction k ns p rule: compile_nodes.induct)
  case (2 index source rest p)
  then show ?case by (auto simp: add_node_def split: if_splits)
qed simp

lemma compile_edges_nodes: "compile_edges es seen p = Inr q \<Longrightarrow> p_nodes q = p_nodes p"
proof (induction es seen p rule: compile_edges.induct)
  case (2 source rest edgeIDs p)
  then show ?case by (auto simp: add_edge_def)
qed simp

lemma compiled_node_origin:
  assumes "Compile definition = Inr p" "n \<in> set (p_nodes p)"
  obtains src j where "compileNode src j = Inr n"
proof -
  obtain d :: WorkflowDSL and p1 p2 t where
    c: "compile_nodes 0 (wf_Nodes d) (empty_plan CurrentVersion (p_workflowVersion p)) = Inr p1"
    "compile_edges (wf_Edges d) [] p1 = Inr p2" "p = (sort_outgoing p2)\<lparr>p_topological := t\<rparr>"
    by (rule Compile_InrE [OF assms(1)])
  have "p_nodes p = p_nodes p1" using c(3) compile_edges_nodes [OF c(2)] by (simp add: sort_outgoing_def)
  then show ?thesis using compile_nodes_origin [OF c(1)] assms(2) that by (auto simp: empty_plan_def)
qed

lemma compiled_writes:
  assumes "Compile definition = Inr p" "n \<in> set (p_nodes p)"
  shows "distinct (map write_slot (n_Writes n))"
proof -
  obtain src j where "compileNode src j = Inr n" by (rule compiled_node_origin [OF assms])
  then obtain i ws where "compile_writes i [] ws = Inr (n_Writes n)"
    by (auto simp: compileNode_def Let_def split: if_splits)
  then show ?thesis using compile_writes_paths write_slots_distinct by blast
qed

section \<open>The effect on the blackboard\<close>

definition reduced :: "fields \<Rightarrow> Blackboard \<Rightarrow> StateWriteDSL \<Rightarrow> reduce_error + gval" where
  "reduced outputs b w =
     (let current = GetValue (fst (write_slot w)) (snd (write_slot w)) b
      in reduceStateValue (sw_Reducer w) (case current of None \<Rightarrow> GNil | Some v \<Rightarrow> v)
           (map_get GNil outputs (sw_Source w)) (current \<noteq> None))"

lemma write_mutations_Inr:
  "write_mutations i outputs ws b = Inr ms \<longleftrightarrow>
     list_all2 (\<lambda>w m. write_slot w = (mu_namespace m, mu_field m) \<and> reduced outputs b w = Inr (mu_value m)) ws ms"
proof (induction ws arbitrary: ms)
  case Nil
  then show ?case by auto
next
  case (Cons w ws)
  then show ?case
    by (cases ms) (auto simp: Let_def reduced_def write_slot_def split: sum.splits
        intro!: stateWriteMutation.equality)
qed

lemma write_mutations_Inl:
  "(\<exists>e. write_mutations i outputs ws b = Inl e) \<longleftrightarrow> (\<exists>w\<in>set ws. \<exists>e. reduced outputs b w = Inl e)"
proof (induction ws)
  case (Cons w ws)
  then show ?case
    by (cases "write_mutations i outputs ws b")
      (auto simp: Let_def reduced_def write_slot_def split: sum.splits)
qed simp

lemma applyResultDelta_put_all:
  assumes "write_mutations i outputs (n_Writes node) b = Inr ms"
  shows "applyResultDelta clock i node outputs b = Inr (blackboard.put_all clock
     ((i, outputs) # map (\<lambda>m. (mu_namespace m, [mu_field m \<mapsto> mu_value m])) ms) b)"
proof -
  have "fold (\<lambda>m b. snd (ApplyDelta (clock (bb_version b)) (mu_namespace m) [mu_field m \<mapsto> mu_value m] b)) ms c
      = blackboard.put_all clock (map (\<lambda>m. (mu_namespace m, [mu_field m \<mapsto> mu_value m])) ms) c" for c
    by (induction ms arbitrary: c) simp_all
  then show ?thesis using assms by (simp add: applyResultDelta_def)
qed

text \<open>
  Applying a node's outputs is all or nothing and does what the declarations say. For a node of
  a compiled plan, the step fails exactly when a reducer rejects its value, and then the blackboard
  is untouched; otherwise every declared state path holds its reducer applied to the value it had
  before the step and to the node's output, the node's own fields hold its outputs, every other
  field is unchanged, and one event is logged for the outputs and one per declared write.
\<close>

theorem applyResultDelta_effect:
  assumes "Compile definition = Inr p" "n \<in> set (p_nodes p)"
  shows "((\<exists>e. applyResultDelta clock (n_ID n) n outputs b = Inl e)
        \<longleftrightarrow> (\<exists>w\<in>set (n_Writes n). \<exists>e. reduced outputs b w = Inl e))
    \<and> (\<forall>b'. applyResultDelta clock (n_ID n) n outputs b = Inr b' \<longrightarrow>
        (\<forall>w\<in>set (n_Writes n). \<exists>v. reduced outputs b w = Inr v
            \<and> GetValue (fst (write_slot w)) (snd (write_slot w)) b' = Some v)
        \<and> (\<forall>m f. (m, f) \<notin> write_slot ` set (n_Writes n) \<longrightarrow>
            GetValue m f b' = (if m = n_ID n \<and> f \<in> dom outputs then outputs f else GetValue m f b))
        \<and> bb_version b' = bb_version b + 1 + of_nat (length (n_Writes n)))"
proof (cases "write_mutations (n_ID n) outputs (n_Writes n) b")
  case (Inl e)
  then show ?thesis using write_mutations_Inl by (fastforce simp: applyResultDelta_def)
next
  case (Inr ms)
  let ?d = "\<lambda>m. (mu_namespace m, [mu_field m \<mapsto> mu_value m])"
  let ?b' = "blackboard.put_all clock ((n_ID n, outputs) # map ?d ms) b"
  have r: "applyResultDelta clock (n_ID n) n outputs b = Inr ?b'" by (rule applyResultDelta_put_all [OF Inr])
  have l: "list_all2 (\<lambda>w m. write_slot w = (mu_namespace m, mu_field m) \<and> reduced outputs b w = Inr (mu_value m)) (n_Writes n) ms"
    using Inr by (simp add: write_mutations_Inr)
  have slots: "map write_slot (n_Writes n) = map (\<lambda>m. (mu_namespace m, mu_field m)) ms"
    using l by (auto simp: list_all2_conv_all_nth intro: nth_equalityI)
  have "\<exists>v. reduced outputs b w = Inr v \<and> GetValue (fst (write_slot w)) (snd (write_slot w)) ?b' = Some v"
    if w: "w \<in> set (n_Writes n)" for w
  proof -
    obtain k where k: "k < length (n_Writes n)" "n_Writes n ! k = w" using w by (auto simp: in_set_conv_nth)
    let ?m = "ms ! k"
    have m: "write_slot w = (mu_namespace ?m, mu_field ?m)" "reduced outputs b w = Inr (mu_value ?m)" "k < length ms"
      using l k by (auto simp: list_all2_conv_all_nth)
    have parts: "map ?d ms = map ?d (take k ms) @ ?d ?m # map ?d (drop (Suc k) ms)"
      using arg_cong [OF id_take_nth_drop [OF m(3)], of "map ?d"] by simp
    have "distinct (map (\<lambda>m. (mu_namespace m, mu_field m)) ms)" using compiled_writes [OF assms] slots by simp
    then have "distinct (map (\<lambda>m. (mu_namespace m, mu_field m)) (drop k ms))" by (metis distinct_drop drop_map)
    then have "(mu_namespace ?m, mu_field ?m) \<notin> (\<lambda>m. (mu_namespace m, mu_field m)) ` set (drop (Suc k) ms)"
      unfolding Cons_nth_drop_Suc [OF m(3), symmetric] by simp
    then have "mu_field ?m \<notin> dom d" if "(mu_namespace ?m, d) \<in> set (map ?d (drop (Suc k) ms))" for d
      using that by (auto simp: image_iff)
    then have "GetValue (mu_namespace ?m) (mu_field ?m) (blackboard.put_all clock (((n_ID n, outputs) # map ?d (take k ms)) @ ?d ?m # map ?d (drop (Suc k) ms)) b)
        = [mu_field ?m \<mapsto> mu_value ?m] (mu_field ?m)"
      by (intro blackboard.get_put_all_last) auto
    then show ?thesis using m by (simp add: parts del: blackboard.put_all_simps)
  qed
  moreover have "GetValue m f ?b' = (if m = n_ID n \<and> f \<in> dom outputs then outputs f else GetValue m f b)"
    if mf: "(m, f) \<notin> write_slot ` set (n_Writes n)" for m f
  proof -
    have "(m, f) \<notin> (\<lambda>m. (mu_namespace m, mu_field m)) ` set ms" using mf slots by (metis list.set_map)
    then have "f \<notin> dom d" if "(m, d) \<in> set (map ?d ms)" for d using that by (auto simp: image_iff)
    then show ?thesis using blackboard.get_put_all_other [of m "map ?d ms" f] by (simp add: blackboard.get_put)
  qed
  moreover have "bb_version ?b' = bb_version b + 1 + of_nat (length (n_Writes n))"
    using blackboard.gen_put_all [of clock "(n_ID n, outputs) # map ?d ms" b] list_all2_lengthD [OF l]
    by (simp del: blackboard.put_all_simps)
  ultimately show ?thesis using r Inr write_mutations_Inl by fastforce
qed

definition demo_outputs :: fields where
  "demo_outputs = [''n'' \<mapsto> GFloat (Fin 4), ''text'' \<mapsto> GString ''hi'']"

definition demo_board :: Blackboard where
  "demo_board = snd (ApplyDelta 1 ''start'' [''q'' \<mapsto> GNil] NewBlackboard)"

theorem applyResultDelta_effect_witness:
  "\<exists>p n b'. Compile (Some (demo_workflow demo_edges)) = Inr p \<and> n \<in> set (p_nodes p)
     \<and> applyResultDelta (\<lambda>_. 9) (n_ID n) n demo_outputs demo_board = Inr b'
     \<and> GetValue ''g'' ''n'' b' = Some (GFloat (Fin 4)) \<and> GetValue ''c'' ''text'' b' = Some (GString ''hi'')"
proof -
  obtain p where p: "Compile (Some (demo_workflow demo_edges)) = Inr p" by (rule demo_compile_plan)
  have n: "n_ID (p_nodes p ! 0) = ''c''" "n_Writes (p_nodes p ! 0) = [\<lparr>sw_Path = ''g.n'', sw_Source = ''n'', sw_Reducer = ''sum''\<rparr>]"
    "p_nodes p ! 0 \<in> set (p_nodes p)"
    using demo_compiles by (auto simp: p demo_view_def map_eq_Cons_conv)
  let ?w = "\<lparr>sw_Path = ''g.n'', sw_Source = ''n'', sw_Reducer = ''sum''\<rparr> :: StateWriteDSL"
  have r: "reduced demo_outputs demo_board ?w = Inr (GFloat (Fin 4))" "write_slot ?w = (''g'', ''n'')" by code_simp+
  note E = applyResultDelta_effect [OF p n(3), of "\<lambda>_. 9" demo_outputs demo_board]
  have "\<nexists>e. applyResultDelta (\<lambda>_. 9) (n_ID (p_nodes p ! 0)) (p_nodes p ! 0) demo_outputs demo_board = Inl e"
    using E n(2) r(1) by simp
  then obtain b' where b': "applyResultDelta (\<lambda>_. 9) (n_ID (p_nodes p ! 0)) (p_nodes p ! 0) demo_outputs demo_board = Inr b'"
    by (meson sum.exhaust)
  note E2 = E [THEN conjunct2, rule_format, OF b']
  have w: "?w \<in> set (n_Writes (p_nodes p ! 0))" by (simp add: n(2))
  have "GetValue ''g'' ''n'' b' = Some (GFloat (Fin 4))"
    using E2 [THEN conjunct1, rule_format, OF w] r by simp
  moreover have "GetValue ''c'' ''text'' b' = Some (GString ''hi'')"
    using E2 [THEN conjunct2, THEN conjunct1, rule_format, of "''c''" "''text''"] n(1,2) r(2) by (simp add: demo_outputs_def)
  ultimately show ?thesis using p n(3) b' by blast
qed

end
