(* ===== verification/Node_Lifecycle.thy ===== *)
theory Node_Lifecycle
  imports Go_Errors Workflow_DSL
begin

text \<open>
  The life of one workflow node: its states and transitions
  (\<^verbatim>\<open>src/internal/module/agent/workflow/engine/node_state.go\<close>), the retry policy
  (\<^verbatim>\<open>engine/node_retry.go\<close>), and the operations of \<^verbatim>\<open>engine/scheduler.go\<close> that move a node's trace
  from state to state. Statuses are the strings the code stores in checkpoints; a trace read from a
  checkpoint may carry any string.
\<close>

definition NodeStatusPending :: string where "NodeStatusPending = ''pending''"
definition NodeStatusRunning :: string where "NodeStatusRunning = ''running''"
definition NodeStatusRetrying :: string where "NodeStatusRetrying = ''retrying''"
definition NodeStatusSuccess :: string where "NodeStatusSuccess = ''success''"
definition NodeStatusFailed :: string where "NodeStatusFailed = ''failed''"
definition NodeStatusSkipped :: string where "NodeStatusSkipped = ''skipped''"
definition NodeStatusSuspended :: string where "NodeStatusSuspended = ''suspended''"
definition NodeStatusCanceled :: string where "NodeStatusCanceled = ''canceled''"
definition NodeStatusTimedOut :: string where "NodeStatusTimedOut = ''timed_out''"

lemmas node_status_defs = NodeStatusPending_def NodeStatusRunning_def NodeStatusRetrying_def
  NodeStatusSuccess_def NodeStatusFailed_def NodeStatusSkipped_def NodeStatusSuspended_def
  NodeStatusCanceled_def NodeStatusTimedOut_def

definition nodeStateTransitions :: "(string \<times> string list) list" where
  "nodeStateTransitions =
     [(NodeStatusPending, [NodeStatusRunning, NodeStatusSkipped, NodeStatusCanceled, NodeStatusTimedOut]),
      (NodeStatusRunning, [NodeStatusRetrying, NodeStatusSuccess, NodeStatusFailed, NodeStatusSuspended,
         NodeStatusCanceled, NodeStatusTimedOut]),
      (NodeStatusRetrying, [NodeStatusRunning, NodeStatusFailed, NodeStatusCanceled, NodeStatusTimedOut]),
      (NodeStatusSuspended, [NodeStatusRunning, NodeStatusSuccess, NodeStatusCanceled])]"

definition validateNodeStateTransition :: "string \<Rightarrow> string \<Rightarrow> gerr + unit" where
  "validateNodeStateTransition current0 next =
     (let current = (if current0 = [] then NodeStatusPending else current0)
      in if current = next then Inr ()
         else case map_of nodeStateTransitions current of
                None \<Rightarrow> Inl (EMsg (''node state '' @ current @ '' is terminal''))
              | Some allowed \<Rightarrow> if next \<notin> set allowed
                  then Inl (EMsg (''node state transition '' @ current @ '' -> '' @ next @ '' is not allowed''))
                  else Inr ())"

section \<open>Retry policy\<close>

record nodeRetryPolicy =
  pol_maxAttempts :: int
  pol_initial :: int
  pol_maximum :: int
  pol_multiplier :: f64
  pol_jitter :: f64

definition defaultNodeRetryInitialBackoff :: int where "defaultNodeRetryInitialBackoff = 100000000"
definition defaultNodeRetryMaxBackoff :: int where "defaultNodeRetryMaxBackoff = 5000000000"
definition defaultNodeRetryMultiplier :: f64 where "defaultNodeRetryMultiplier = Fin 2"

text \<open>A \<^verbatim>\<open>time.Duration\<close> is an \<^verbatim>\<open>int64\<close> of nanoseconds: the product with a millisecond wraps.\<close>

definition normalizeNodeRetryPolicy :: "RetryPolicyDSL option \<Rightarrow> nodeRetryPolicy" where
  "normalizeNodeRetryPolicy source =
     (let policy = \<lparr>pol_maxAttempts = 1, pol_initial = defaultNodeRetryInitialBackoff,
        pol_maximum = defaultNodeRetryMaxBackoff, pol_multiplier = defaultNodeRetryMultiplier,
        pol_jitter = Fin 0\<rparr>
      in case source of None \<Rightarrow> policy | Some r \<Rightarrow>
         let initial = (if 0 < rp_InitialBackoffMS r then i64 (rp_InitialBackoffMS r * 1000000) else pol_initial policy);
             maximum = (if 0 < rp_MaxBackoffMS r then i64 (rp_MaxBackoffMS r * 1000000) else pol_maximum policy)
         in \<lparr>pol_maxAttempts = (if 0 < rp_MaxAttempts r then rp_MaxAttempts r else pol_maxAttempts policy),
             pol_initial = initial,
             pol_maximum = (if maximum < initial then initial else maximum),
             pol_multiplier = (if f64_less (Fin 0) (rp_Multiplier r) then rp_Multiplier r else pol_multiplier policy),
             pol_jitter = rp_Jitter r\<rparr>)"

definition shouldRetryNode :: "gerr option \<Rightarrow> bool" where
  "shouldRetryNode err = (case err of None \<Rightarrow> False | Some e \<Rightarrow>
     if errors_Is e ECanceled \<or> errors_Is e EDeadline then False
     else if errors_As as_suspension e \<noteq> None then False
     else case errors_As as_retryable e of
            Some retryable \<Rightarrow> retryable
          | None \<Rightarrow> (case errors_As as_net e of None \<Rightarrow> False | Some tt \<Rightarrow> fst tt \<or> snd tt))"

lemma normalizeNodeRetryPolicy_attempts: "1 \<le> pol_maxAttempts (normalizeNodeRetryPolicy r)"
  by (auto simp: normalizeNodeRetryPolicy_def Let_def split: option.splits)

section \<open>Traces\<close>

record NodeTrace =
  nt_NodeID :: string
  nt_NodeType :: string
  nt_Status :: string
  nt_Attempt :: int
  nt_MaxAttempts :: int
  nt_StartedAt :: int
  nt_FinishedAt :: int
  nt_DurationMs :: int
  nt_Error :: string

definition zero_trace :: NodeTrace where
  "zero_trace = \<lparr>nt_NodeID = [], nt_NodeType = [], nt_Status = [], nt_Attempt = 0, nt_MaxAttempts = 0,
     nt_StartedAt = 0, nt_FinishedAt = 0, nt_DurationMs = 0, nt_Error = []\<rparr>"

definition node_err :: "string \<Rightarrow> gerr \<Rightarrow> gerr" where
  "node_err i e = EWrap (''node '' @ i @ '': '') e"

text \<open>
  The three operations act on the trace of one node (\<^verbatim>\<open>s.traces[node.ID]\<close>, the zero value when
  absent) under the trace mutex; they are written on that trace, and the scheduler stores the result.
\<close>

definition markNodeAttempt :: "string \<Rightarrow> string \<Rightarrow> int \<Rightarrow> int \<Rightarrow> int \<Rightarrow> NodeTrace \<Rightarrow> gerr + NodeTrace" where
  "markNodeAttempt nodeID nodeType now attempt maxAttempts trace =
     (case validateNodeStateTransition (nt_Status trace) NodeStatusRunning of
        Inl e \<Rightarrow> Inl (node_err nodeID e)
      | Inr _ \<Rightarrow>
          let trace1 = (if nt_NodeID trace = [] then trace\<lparr>nt_NodeID := nodeID, nt_NodeType := nodeType\<rparr> else trace);
              trace2 = (if nt_StartedAt trace1 = 0 then trace1\<lparr>nt_StartedAt := now\<rparr> else trace1)
          in Inr (trace2\<lparr>nt_Status := NodeStatusRunning, nt_Attempt := attempt, nt_MaxAttempts := maxAttempts,
               nt_FinishedAt := 0, nt_DurationMs := 0, nt_Error := []\<rparr>))"

definition markNodeRetrying :: "string \<Rightarrow> gerr \<Rightarrow> NodeTrace \<Rightarrow> gerr + NodeTrace" where
  "markNodeRetrying nodeID retryErr trace =
     (case validateNodeStateTransition (nt_Status trace) NodeStatusRetrying of
        Inl e \<Rightarrow> Inl (node_err nodeID e)
      | Inr _ \<Rightarrow> Inr (trace\<lparr>nt_Status := NodeStatusRetrying, nt_Error := error_text retryErr\<rparr>))"

text \<open>\<open>now\<close> is the clock reading used when \<open>finishedAt\<close> is zero.\<close>

definition finishNodeTrace :: "string \<Rightarrow> string \<Rightarrow> string \<Rightarrow> gerr option \<Rightarrow> int \<Rightarrow> int \<Rightarrow> NodeTrace \<Rightarrow> gerr + NodeTrace" where
  "finishNodeTrace nodeID nodeType status err now finishedAt0 trace =
     (if nodeID = [] then Inl (EMsg ''cannot transition trace for empty node id'')
      else let finishedAt = (if finishedAt0 = 0 then now else finishedAt0)
      in case validateNodeStateTransition (nt_Status trace) status of
           Inl e \<Rightarrow> Inl (node_err nodeID e)
         | Inr _ \<Rightarrow>
             let trace1 = (if nt_NodeID trace = [] then trace\<lparr>nt_NodeID := nodeID, nt_NodeType := nodeType\<rparr> else trace);
                 trace2 = (if nt_StartedAt trace1 = 0 \<and> status \<noteq> NodeStatusSkipped
                           then trace1\<lparr>nt_StartedAt := finishedAt\<rparr> else trace1);
                 trace3 = trace2\<lparr>nt_Status := status, nt_FinishedAt := finishedAt\<rparr>;
                 trace4 = (if 0 < nt_StartedAt trace3
                           then trace3\<lparr>nt_DurationMs := finishedAt - nt_StartedAt trace3\<rparr> else trace3)
             in Inr (trace4\<lparr>nt_Error := (case err of Some e \<Rightarrow> error_text e | None \<Rightarrow> [])\<rparr>))"

definition markNodeSuccess :: "string \<Rightarrow> string \<Rightarrow> int \<Rightarrow> int \<Rightarrow> NodeTrace \<Rightarrow> gerr + NodeTrace" where
  "markNodeSuccess nodeID nodeType now finishedAt trace =
     finishNodeTrace nodeID nodeType NodeStatusSuccess None now finishedAt trace"

section \<open>The state machine\<close>

text \<open>
  The transition system as a step relation, and the operations as its moves. A state with no entry
  in the table is final.
\<close>

definition norm_status :: "string \<Rightarrow> string" where
  "norm_status s = (if s = [] then NodeStatusPending else s)"

definition final_statuses :: "string list" where
  "final_statuses = [NodeStatusSuccess, NodeStatusFailed, NodeStatusSkipped, NodeStatusCanceled, NodeStatusTimedOut]"

inductive status_step :: "string \<Rightarrow> string \<Rightarrow> bool" where
  start: "status_step NodeStatusPending NodeStatusRunning"
| skip: "status_step NodeStatusPending NodeStatusSkipped"
| attempt_failed: "status_step NodeStatusRunning NodeStatusRetrying"
| again: "status_step NodeStatusRetrying NodeStatusRunning"
| succeed: "status_step NodeStatusRunning NodeStatusSuccess"
| fail: "s \<in> {NodeStatusRunning, NodeStatusRetrying} \<Longrightarrow> status_step s NodeStatusFailed"
| suspend: "status_step NodeStatusRunning NodeStatusSuspended"
| resume: "s \<in> {NodeStatusRunning, NodeStatusSuccess} \<Longrightarrow> status_step NodeStatusSuspended s"
| cancel: "s \<in> {NodeStatusPending, NodeStatusRunning, NodeStatusRetrying, NodeStatusSuspended}
    \<Longrightarrow> status_step s NodeStatusCanceled"
| time_out: "s \<in> {NodeStatusPending, NodeStatusRunning, NodeStatusRetrying} \<Longrightarrow> status_step s NodeStatusTimedOut"

inductive_simps status_step_iff: "status_step s t"

lemma validate_iff: "validateNodeStateTransition s t = Inr () \<longleftrightarrow> norm_status s = t \<or> status_step (norm_status s) t"
  unfolding validateNodeStateTransition_def Let_def norm_status_def [symmetric] status_step_iff
  by (auto simp: nodeStateTransitions_def node_status_defs split: if_splits)

lemma final_no_step: "s \<in> set final_statuses \<Longrightarrow> \<not> status_step s t"
  by (auto simp: final_statuses_def node_status_defs status_step_iff)

datatype trace_act =
    TAttempt int int int
  | TRetry gerr
  | TFinish string "gerr option" int int

fun trace_op :: "string \<Rightarrow> string \<Rightarrow> trace_act \<Rightarrow> NodeTrace \<Rightarrow> gerr + NodeTrace" where
  "trace_op i ty (TAttempt now attempt maxAttempts) t = markNodeAttempt i ty now attempt maxAttempts t"
| "trace_op i ty (TRetry e) t = markNodeRetrying i e t"
| "trace_op i ty (TFinish status err now finishedAt) t = finishNodeTrace i ty status err now finishedAt t"

fun act_target :: "trace_act \<Rightarrow> string" where
  "act_target (TAttempt now attempt maxAttempts) = NodeStatusRunning"
| "act_target (TRetry e) = NodeStatusRetrying"
| "act_target (TFinish status err now finishedAt) = status"

text \<open>A history of one trace; an operation that reports an error has not touched it.\<close>

fun trace_run :: "string \<Rightarrow> string \<Rightarrow> trace_act list \<Rightarrow> NodeTrace \<Rightarrow> NodeTrace" where
  "trace_run i ty [] t = t"
| "trace_run i ty (x # xs) t = trace_run i ty xs (case trace_op i ty x t of Inl e \<Rightarrow> t | Inr t' \<Rightarrow> t')"

lemma trace_op_status:
  "trace_op i ty x t = Inr t' \<Longrightarrow> nt_Status t' = act_target x \<and> validateNodeStateTransition (nt_Status t) (act_target x) = Inr ()"
  by (cases x) (auto simp: markNodeAttempt_def markNodeRetrying_def finishNodeTrace_def Let_def
      split: sum.splits if_splits option.splits)

lemma trace_op_accepts:
  "i \<noteq> [] \<Longrightarrow> (\<exists>t'. trace_op i ty x t = Inr t') \<longleftrightarrow> validateNodeStateTransition (nt_Status t) (act_target x) = Inr ()"
  by (cases x) (auto simp: markNodeAttempt_def markNodeRetrying_def finishNodeTrace_def Let_def split: sum.splits)

definition known_act :: "trace_act \<Rightarrow> bool" where
  "known_act x \<longleftrightarrow> act_target x \<noteq> []"

lemma norm_status_id [simp]: "s \<noteq> [] \<Longrightarrow> norm_status s = s"
  by (simp add: norm_status_def)

lemma trace_run_path:
  assumes "\<forall>x\<in>set xs. known_act x"
  shows "status_step\<^sup>*\<^sup>* (norm_status (nt_Status t)) (norm_status (nt_Status (trace_run i ty xs t)))"
  using assms
proof (induction xs arbitrary: t)
  case (Cons x xs)
  show ?case
  proof (cases "trace_op i ty x t")
    case (Inr t')
    note S = trace_op_status [OF Inr]
    have n: "norm_status (nt_Status t') = act_target x" using S Cons.prems by (simp add: known_act_def)
    have "norm_status (nt_Status t) = act_target x \<or> status_step (norm_status (nt_Status t)) (act_target x)"
      using S validate_iff by blast
    then have "status_step\<^sup>*\<^sup>* (norm_status (nt_Status t)) (norm_status (nt_Status t'))" using n by auto
    then show ?thesis using Cons Inr by (auto intro: rtranclp_trans)
  qed (use Cons in simp)
qed simp

lemma final_path: "status_step\<^sup>*\<^sup>* s t \<Longrightarrow> s \<in> set final_statuses \<Longrightarrow> t = s"
  by (induction rule: converse_rtranclp_induct) (auto dest: final_no_step)

text \<open>
  A node's trace follows its state machine. On a node with an id, an operation on the trace
  succeeds exactly when the machine allows the move or the status stays; whatever operations are
  tried, the status at the end is reached from the one at the start by moves of the machine, and a
  node that succeeded, failed, was skipped, canceled or timed out keeps that status.
\<close>

theorem trace_follows_machine:
  assumes "i \<noteq> []" "\<forall>x\<in>set xs. known_act x"
  shows "(\<forall>x t. (\<exists>t'. trace_op i ty x t = Inr t')
        \<longleftrightarrow> norm_status (nt_Status t) = act_target x \<or> status_step (norm_status (nt_Status t)) (act_target x))
    \<and> status_step\<^sup>*\<^sup>* (norm_status (nt_Status t0)) (norm_status (nt_Status (trace_run i ty xs t0)))
    \<and> (nt_Status t0 \<in> set final_statuses \<longrightarrow> norm_status (nt_Status (trace_run i ty xs t0)) = nt_Status t0)"
proof -
  have p: "status_step\<^sup>*\<^sup>* (norm_status (nt_Status t0)) (norm_status (nt_Status (trace_run i ty xs t0)))"
    by (rule trace_run_path [OF assms(2)])
  moreover have "norm_status (nt_Status (trace_run i ty xs t0)) = nt_Status t0" if f: "nt_Status t0 \<in> set final_statuses"
  proof -
    have "norm_status (nt_Status t0) = nt_Status t0" using f by (auto simp: final_statuses_def node_status_defs)
    with final_path [OF p] f show ?thesis by simp
  qed
  ultimately show ?thesis using trace_op_accepts [OF assms(1)] validate_iff by blast
qed

theorem trace_follows_machine_witness:
  "status_step\<^sup>*\<^sup>* NodeStatusPending (norm_status (nt_Status (trace_run ''n'' ''tool''
      [TAttempt 5 1 2, TRetry (EMsg ''x''), TAttempt 6 2 2, TFinish NodeStatusSuccess None 0 9, TFinish NodeStatusFailed None 0 9] zero_trace)))
   \<and> nt_Status (trace_run ''n'' ''tool''
      [TAttempt 5 1 2, TRetry (EMsg ''x''), TAttempt 6 2 2, TFinish NodeStatusSuccess None 0 9, TFinish NodeStatusFailed None 0 9] zero_trace)
     = NodeStatusSuccess"
proof -
  let ?xs = "[TAttempt 5 1 2, TRetry (EMsg ''x''), TAttempt 6 2 2, TFinish NodeStatusSuccess None 0 9, TFinish NodeStatusFailed None 0 9]"
  have "\<forall>x\<in>set ?xs. known_act x" by (simp add: known_act_def node_status_defs)
  moreover have "norm_status (nt_Status zero_trace) = NodeStatusPending" by (simp add: zero_trace_def norm_status_def)
  moreover have "nt_Status (trace_run ''n'' ''tool'' ?xs zero_trace) = NodeStatusSuccess" by code_simp
  ultimately show ?thesis
    using trace_follows_machine [of "''n''" ?xs "''tool''" zero_trace] by (metis list.distinct(1))
qed

end
