(* ===== verification/Budget.thy ===== *)
theory Budget
  imports Go_Errors
begin

text \<open>
  Workflow-wide budgets: \<^verbatim>\<open>TokenUsage\<close> and \<^verbatim>\<open>Budget\<close> of
  \<^verbatim>\<open>src/internal/module/agent/runtime/types.go\<close> and the \<^verbatim>\<open>BudgetTracker\<close> of
  \<^verbatim>\<open>runtime/budget_tracker.go\<close>, which concurrent branches of a workflow share.

  Every method of the tracker holds its mutex, so a concurrent history is a sequence of operations;
  \<open>budget_op\<close> is one of them and \<open>budget_run\<close> a sequence. Reservations live in a list, a reservation
  is named by its position, and \<^verbatim>\<open>sync.Once\<close> is its flag. Sums wrap at 64 bits.
\<close>

record TokenUsage =
  tu_InputTokens :: int
  tu_OutputTokens :: int
  tu_TotalTokens :: int
  tu_Estimated :: bool
  tu_EstimatedCostMicros :: int
  tu_CostEstimated :: bool
  tu_PricingVersion :: string

definition zero_usage :: TokenUsage where
  "zero_usage = \<lparr>tu_InputTokens = 0, tu_OutputTokens = 0, tu_TotalTokens = 0, tu_Estimated = False,
     tu_EstimatedCostMicros = 0, tu_CostEstimated = False, tu_PricingVersion = []\<rparr>"

definition usage_Add :: "TokenUsage \<Rightarrow> TokenUsage \<Rightarrow> TokenUsage" where
  "usage_Add u other =
     \<lparr>tu_InputTokens = i64 (tu_InputTokens u + tu_InputTokens other),
      tu_OutputTokens = i64 (tu_OutputTokens u + tu_OutputTokens other),
      tu_TotalTokens = i64 (tu_TotalTokens u + tu_TotalTokens other),
      tu_Estimated = (tu_Estimated u \<or> tu_Estimated other),
      tu_EstimatedCostMicros = i64 (tu_EstimatedCostMicros u + tu_EstimatedCostMicros other),
      tu_CostEstimated = (tu_CostEstimated u \<or> tu_CostEstimated other),
      tu_PricingVersion =
        (if tu_PricingVersion u = [] then tu_PricingVersion other
         else if tu_PricingVersion other = [] \<or> tu_PricingVersion u = tu_PricingVersion other
         then tu_PricingVersion u
         else ''mixed'')\<rparr>"

text \<open>\<^verbatim>\<open>Timeout\<close> is in nanoseconds; a zero \<^verbatim>\<open>Deadline\<close> is \<open>None\<close>.\<close>

record Budget =
  bg_MaxSteps :: int
  bg_MaxInputTokens :: int
  bg_MaxOutputTokens :: int
  bg_MaxTotalTokens :: int
  bg_MaxEstimatedCostMicros :: int
  bg_Timeout :: int
  bg_Deadline :: "int option"

record BudgetSnapshot =
  bs_NodeExecutions :: int
  bs_Usage :: TokenUsage
  bs_Reserved :: TokenUsage

record BudgetTracker =
  bt_budget :: Budget
  bt_nodeExecutions :: int
  bt_usage :: TokenUsage
  bt_reserved :: TokenUsage

section \<open>Operations\<close>

definition maxZero :: "int \<Rightarrow> int" where
  "maxZero value = (if value < 0 then 0 else value)"

definition normalizedUsage :: "TokenUsage \<Rightarrow> TokenUsage" where
  "normalizedUsage usage =
     (let u1 = (if tu_InputTokens usage < 0 then usage\<lparr>tu_InputTokens := 0\<rparr> else usage);
          u2 = (if tu_OutputTokens u1 < 0 then u1\<lparr>tu_OutputTokens := 0\<rparr> else u1);
          u3 = (if tu_TotalTokens u2 \<le> 0
                then u2\<lparr>tu_TotalTokens := i64 (tu_InputTokens u2 + tu_OutputTokens u2)\<rparr> else u2)
      in if tu_EstimatedCostMicros u3 < 0 then u3\<lparr>tu_EstimatedCostMicros := 0\<rparr> else u3)"

definition budgetExceededError :: "int \<Rightarrow> string \<Rightarrow> int \<Rightarrow> int \<Rightarrow> gerr" where
  "budgetExceededError step dimension actual limit =
     ERun \<lparr>re_Code = ErrorBudgetExceeded, re_Step = step, re_ActionID = [], re_ApprovalID = [],
       re_Message = dimension @ '' token budget exceeded: required '' @ show_int actual @ '', limit ''
         @ show_int limit\<rparr> None"

definition costBudgetExceededError :: "int \<Rightarrow> int \<Rightarrow> int \<Rightarrow> gerr" where
  "costBudgetExceededError step actual limit =
     ERun \<lparr>re_Code = ErrorBudgetExceeded, re_Step = step, re_ActionID = [], re_ApprovalID = [],
       re_Message = ''run estimated cost budget exceeded: required '' @ show_int actual
         @ '' micros, limit '' @ show_int limit @ '' micros''\<rparr> None"

definition NewBudgetTracker :: "Budget \<Rightarrow> gerr + BudgetTracker" where
  "NewBudgetTracker budget =
     (if bg_MaxSteps budget < 0 \<or> bg_MaxInputTokens budget < 0 \<or> bg_MaxOutputTokens budget < 0
         \<or> bg_MaxTotalTokens budget < 0 \<or> bg_MaxEstimatedCostMicros budget < 0
      then Inl (EMsg ''budget limits cannot be negative'')
      else Inr \<lparr>bt_budget = budget, bt_nodeExecutions = 0, bt_usage = zero_usage, bt_reserved = zero_usage\<rparr>)"

definition NewBudgetTrackerFromSnapshot :: "Budget \<Rightarrow> BudgetSnapshot \<Rightarrow> gerr + BudgetTracker" where
  "NewBudgetTrackerFromSnapshot budget snapshot =
     bind_res (NewBudgetTracker budget) (\<lambda>tracker.
     bind_res (guard_res (bs_NodeExecutions snapshot < 0)
       (EMsg ''budget snapshot node executions cannot be negative'')) (\<lambda>_.
     bind_res (guard_res (tu_TotalTokens (normalizedUsage (bs_Reserved snapshot)) \<noteq> 0
         \<or> tu_EstimatedCostMicros (bs_Reserved snapshot) \<noteq> 0)
       (EMsg ''budget snapshot cannot contain in-flight reservations'')) (\<lambda>_.
     Inr (tracker\<lparr>bt_nodeExecutions := bs_NodeExecutions snapshot,
                  bt_usage := normalizedUsage (bs_Usage snapshot)\<rparr>))))"

definition Snapshot :: "BudgetTracker \<Rightarrow> BudgetSnapshot" where
  "Snapshot t = \<lparr>bs_NodeExecutions = bt_nodeExecutions t, bs_Usage = bt_usage t, bs_Reserved = bt_reserved t\<rparr>"

definition AdmitStep :: "BudgetTracker \<Rightarrow> gerr option \<times> BudgetTracker" where
  "AdmitStep t =
     (if 0 < bg_MaxSteps (bt_budget t) \<and> bg_MaxSteps (bt_budget t) \<le> bt_nodeExecutions t
      then (Some (ERun \<lparr>re_Code = ErrorBudgetExceeded, re_Step = bt_nodeExecutions t + 1, re_ActionID = [],
              re_ApprovalID = [], re_Message = ''node execution budget exceeded: limit ''
                @ show_int (bg_MaxSteps (bt_budget t))\<rparr> None), t)
      else (None, t\<lparr>bt_nodeExecutions := bt_nodeExecutions t + 1\<rparr>))"

definition admitUsageLocked :: "BudgetTracker \<Rightarrow> TokenUsage \<Rightarrow> bool \<Rightarrow> gerr option" where
  "admitUsageLocked t incoming includeReserved =
     (let b = bt_budget t; input = tu_InputTokens incoming; output = tu_OutputTokens incoming
      in if 0 < bg_MaxInputTokens b \<and> bg_MaxInputTokens b < input
         then Some (budgetExceededError 0 ''input'' input (bg_MaxInputTokens b))
         else if 0 < bg_MaxOutputTokens b \<and> bg_MaxOutputTokens b < output
         then Some (budgetExceededError 0 ''output'' output (bg_MaxOutputTokens b))
         else let total0 = i64 (tu_TotalTokens (bt_usage t) + tu_TotalTokens incoming);
                  cost0 = i64 (tu_EstimatedCostMicros (bt_usage t) + tu_EstimatedCostMicros incoming);
                  total = (if includeReserved then i64 (total0 + tu_TotalTokens (bt_reserved t)) else total0);
                  cost = (if includeReserved then i64 (cost0 + tu_EstimatedCostMicros (bt_reserved t)) else cost0)
              in if 0 < bg_MaxTotalTokens b \<and> bg_MaxTotalTokens b < total
                 then Some (budgetExceededError 0 ''workflow total'' total (bg_MaxTotalTokens b))
                 else if 0 < bg_MaxEstimatedCostMicros b \<and> bg_MaxEstimatedCostMicros b < cost
                 then Some (costBudgetExceededError 0 cost (bg_MaxEstimatedCostMicros b))
                 else None)"

definition subtractReservedLocked :: "TokenUsage \<Rightarrow> BudgetTracker \<Rightarrow> BudgetTracker" where
  "subtractReservedLocked usage t =
     (let r = bt_reserved t
      in t\<lparr>bt_reserved := r\<lparr>
           tu_InputTokens := maxZero (i64 (tu_InputTokens r - tu_InputTokens usage)),
           tu_OutputTokens := maxZero (i64 (tu_OutputTokens r - tu_OutputTokens usage)),
           tu_TotalTokens := maxZero (i64 (tu_TotalTokens r - tu_TotalTokens usage)),
           tu_EstimatedCostMicros :=
             maxZero (i64 (tu_EstimatedCostMicros r - tu_EstimatedCostMicros usage))\<rparr>\<rparr>)"

text \<open>A reservation: whether it has a tracker, the estimate, and whether its \<^verbatim>\<open>once\<close> has fired.\<close>

record UsageReservation =
  ur_tracked :: bool
  ur_estimate :: TokenUsage
  ur_done :: bool

definition ReserveUsage :: "TokenUsage \<Rightarrow> BudgetTracker \<Rightarrow> gerr + UsageReservation \<times> BudgetTracker" where
  "ReserveUsage estimate t =
     (let est = normalizedUsage estimate
      in case admitUsageLocked t est True of
           Some err \<Rightarrow> Inl err
         | None \<Rightarrow> Inr (\<lparr>ur_tracked = True, ur_estimate = est, ur_done = False\<rparr>,
             t\<lparr>bt_reserved := usage_Add (bt_reserved t) est\<rparr>))"

definition reservation_Commit :: "TokenUsage \<Rightarrow> UsageReservation \<Rightarrow> BudgetTracker
    \<Rightarrow> gerr option \<times> UsageReservation \<times> BudgetTracker" where
  "reservation_Commit actual r t =
     (if ur_done r then (None, r, t)
      else if \<not> ur_tracked r then (None, r\<lparr>ur_done := True\<rparr>, t)
      else let act = normalizedUsage actual; t1 = subtractReservedLocked (ur_estimate r) t
           in (admitUsageLocked t1 act False, r\<lparr>ur_done := True\<rparr>,
               t1\<lparr>bt_usage := usage_Add (bt_usage t1) act\<rparr>))"

definition reservation_Release :: "UsageReservation \<Rightarrow> BudgetTracker \<Rightarrow> UsageReservation \<times> BudgetTracker" where
  "reservation_Release r t =
     (if ur_done r then (r, t)
      else if \<not> ur_tracked r then (r\<lparr>ur_done := True\<rparr>, t)
      else (r\<lparr>ur_done := True\<rparr>, subtractReservedLocked (ur_estimate r) t))"

definition RecordBudgetUsage :: "TokenUsage \<Rightarrow> BudgetTracker \<Rightarrow> gerr option \<times> BudgetTracker" where
  "RecordBudgetUsage usage t =
     (case ReserveUsage zero_usage t of
        Inl err \<Rightarrow> (Some err, t)
      | Inr (r, t1) \<Rightarrow> let (err, r2, t2) = reservation_Commit usage r t1 in (err, t2))"

section \<open>Histories\<close>

datatype tracker_op =
    OAdmit
  | OReserve TokenUsage
  | OCommit nat TokenUsage
  | ORelease nat
  | ORecord TokenUsage

record budget_sys =
  sys_tracker :: BudgetTracker
  sys_reservations :: "UsageReservation list"

fun budget_op :: "tracker_op \<Rightarrow> budget_sys \<Rightarrow> gerr option \<times> budget_sys" where
  "budget_op OAdmit s = (let (e, t) = AdmitStep (sys_tracker s) in (e, s\<lparr>sys_tracker := t\<rparr>))"
| "budget_op (OReserve est) s = (case ReserveUsage est (sys_tracker s) of
      Inl e \<Rightarrow> (Some e, s)
    | Inr (r, t) \<Rightarrow> (None, s\<lparr>sys_tracker := t, sys_reservations := sys_reservations s @ [r]\<rparr>))"
| "budget_op (OCommit i act) s = (if i < length (sys_reservations s)
      then let (e, r, t) = reservation_Commit act (sys_reservations s ! i) (sys_tracker s)
           in (e, s\<lparr>sys_tracker := t, sys_reservations := (sys_reservations s)[i := r]\<rparr>)
      else (None, s))"
| "budget_op (ORelease i) s = (if i < length (sys_reservations s)
      then let (r, t) = reservation_Release (sys_reservations s ! i) (sys_tracker s)
           in (None, s\<lparr>sys_tracker := t, sys_reservations := (sys_reservations s)[i := r]\<rparr>)
      else (None, s))"
| "budget_op (ORecord u) s = (let (e, t) = RecordBudgetUsage u (sys_tracker s) in (e, s\<lparr>sys_tracker := t\<rparr>))"

fun budget_run :: "tracker_op list \<Rightarrow> budget_sys \<Rightarrow> budget_sys" where
  "budget_run [] s = s"
| "budget_run (x # xs) s = budget_run xs (snd (budget_op x s))"

section \<open>Step admission\<close>

text \<open>
  The contract of a step counter with a cap (none when the cap is not positive): a grant counts one
  step and happens below the cap only, a refusal changes nothing and happens at the cap only.
\<close>

locale step_budget =
  fixes admit :: "'t \<Rightarrow> 'e option \<times> 't" and used :: "'t \<Rightarrow> int" and cap :: "'t \<Rightarrow> int"
  assumes cap_admit: "cap (snd (admit t)) = cap t"
    and granted: "fst (admit t) = None \<Longrightarrow> used (snd (admit t)) = used t + 1 \<and> (0 < cap t \<longrightarrow> used t < cap t)"
    and refused: "fst (admit t) \<noteq> None \<Longrightarrow> snd (admit t) = t \<and> 0 < cap t \<and> cap t \<le> used t"
begin

fun grants :: "nat \<Rightarrow> 't \<Rightarrow> nat" where
  "grants 0 t = 0"
| "grants (Suc n) t = (if fst (admit t) = None then 1 else 0) + grants n (snd (admit t))"

fun admit_n :: "nat \<Rightarrow> 't \<Rightarrow> 't" where
  "admit_n 0 t = t"
| "admit_n (Suc n) t = admit_n n (snd (admit t))"

lemma grants_uncapped: "cap t \<le> 0 \<Longrightarrow> grants n t = n"
proof (induction n arbitrary: t)
  case (Suc n)
  then have "fst (admit t) = None" using refused by fastforce
  then show ?case using Suc cap_admit [of t] by simp
qed simp

lemma grants_capped:
  "0 < cap t \<Longrightarrow> used t \<le> cap t \<Longrightarrow> grants n t = min n (nat (cap t - used t))"
proof (induction n arbitrary: t)
  case (Suc n)
  show ?case
  proof (cases "fst (admit t) = None")
    case True
    then show ?thesis using Suc granted [OF True] cap_admit [of t] by auto
  next
    case False
    then show ?thesis using Suc refused [OF False] by auto
  qed
qed simp

lemma used_admit_n: "used (admit_n n t) = used t + int (grants n t)"
proof (induction n arbitrary: t)
  case (Suc n)
  then show ?case using granted [of t] refused [of t] by (cases "fst (admit t) = None") auto
qed simp

lemma used_le: "0 < cap t \<Longrightarrow> used t \<le> cap t \<Longrightarrow> used (snd (admit t)) \<le> cap t"
  using granted [of t] refused [of t] by (cases "fst (admit t) = None") auto

end

interpretation tracker_steps: step_budget AdmitStep bt_nodeExecutions "\<lambda>t. bg_MaxSteps (bt_budget t)"
  by unfold_locales (auto simp: AdmitStep_def split: if_splits)

section \<open>Accounting\<close>

text \<open>The four counted quantities of a usage, so that each law is stated once.\<close>

datatype ufield = UInput | UOutput | UTotal | UCost

fun uval :: "ufield \<Rightarrow> TokenUsage \<Rightarrow> int" where
  "uval UInput u = tu_InputTokens u"
| "uval UOutput u = tu_OutputTokens u"
| "uval UTotal u = tu_TotalTokens u"
| "uval UCost u = tu_EstimatedCostMicros u"

definition usage_sane :: "TokenUsage \<Rightarrow> bool" where
  "usage_sane u \<longleftrightarrow> tu_InputTokens u < 2 ^ 62 \<and> tu_OutputTokens u < 2 ^ 62"

lemma uval_normalized_nonneg: "usage_sane u \<Longrightarrow> 0 \<le> uval k (normalizedUsage u)"
  by (cases k) (auto simp: normalizedUsage_def usage_sane_def Let_def i64_id in_i64_def)

lemma uval_zero [simp]: "uval k zero_usage = 0"
  by (cases k) (auto simp: zero_usage_def)

lemma normalized_zero [simp]: "normalizedUsage zero_usage = zero_usage"
  by (simp add: normalizedUsage_def zero_usage_def Let_def i64_def)

lemma uval_Add:
  "0 \<le> uval k u \<Longrightarrow> 0 \<le> uval k v \<Longrightarrow> uval k u + uval k v < 2 ^ 63 \<Longrightarrow> uval k (usage_Add u v) = uval k u + uval k v"
  by (cases k) (auto simp: usage_Add_def i64_id in_i64_def)

lemma uval_subtract:
  "0 \<le> uval k v \<Longrightarrow> uval k v \<le> uval k (bt_reserved t) \<Longrightarrow> uval k (bt_reserved t) < 2 ^ 63 \<Longrightarrow>
   uval k (bt_reserved (subtractReservedLocked v t)) = uval k (bt_reserved t) - uval k v"
  by (cases k) (auto simp: subtractReservedLocked_def Let_def i64_id in_i64_def maxZero_def)

lemma subtract_simps [simp]:
  "bt_usage (subtractReservedLocked v t) = bt_usage t"
  "bt_budget (subtractReservedLocked v t) = bt_budget t"
  "bt_nodeExecutions (subtractReservedLocked v t) = bt_nodeExecutions t"
  by (simp_all add: subtractReservedLocked_def Let_def)

definition open_part :: "ufield \<Rightarrow> UsageReservation \<Rightarrow> int" where
  "open_part k r = (if ur_tracked r \<and> \<not> ur_done r then uval k (ur_estimate r) else 0)"

definition open_sum :: "ufield \<Rightarrow> UsageReservation list \<Rightarrow> int" where
  "open_sum k rs = (\<Sum>r\<leftarrow>rs. open_part k r)"

lemma open_part_done [simp]: "open_part k (r\<lparr>ur_done := True\<rparr>) = 0"
  by (simp add: open_part_def)

lemma open_sum_simps [simp]:
  "open_sum k [] = 0" "open_sum k (rs @ [r]) = open_sum k rs + open_part k r"
  by (simp_all add: open_sum_def)

lemma open_sum_update:
  "i < length rs \<Longrightarrow> open_sum k (rs[i := r]) = open_sum k rs - open_part k (rs ! i) + open_part k r"
proof (induction rs arbitrary: i)
  case (Cons x xs)
  then show ?case by (cases i) (auto simp: open_sum_def)
qed simp

lemma open_sum_nonneg: "(\<And>r. r \<in> set rs \<Longrightarrow> 0 \<le> open_part k r) \<Longrightarrow> 0 \<le> open_sum k rs"
  unfolding open_sum_def by (rule sum_list_nonneg) auto

lemma open_part_le_sum:
  assumes "\<And>r. r \<in> set rs \<Longrightarrow> 0 \<le> open_part k r" "i < length rs"
  shows "open_part k (rs ! i) \<le> open_sum k rs"
proof -
  have "0 \<le> open_sum k (rs[i := (rs ! i)\<lparr>ur_done := True\<rparr>])"
    by (rule open_sum_nonneg) (use assms in \<open>auto dest!: set_update_subset_insert [THEN subsetD]\<close>)
  then show ?thesis using open_sum_update [OF assms(2)] by simp
qed

text \<open>
  The accounting invariant, for histories whose summed amounts stay below \<open>2 ^ 63\<close>: no quantity is
  negative, the reserved amounts are exactly those of the open reservations, and \<open>M\<close> bounds the sum
  of what is used and reserved.
\<close>

definition level :: "ufield \<Rightarrow> budget_sys \<Rightarrow> int" where
  "level k s = uval k (bt_usage (sys_tracker s)) + uval k (bt_reserved (sys_tracker s))"

definition budget_inv :: "(ufield \<Rightarrow> int) \<Rightarrow> budget_sys \<Rightarrow> bool" where
  "budget_inv M s \<longleftrightarrow> (\<forall>k. 0 \<le> uval k (bt_usage (sys_tracker s))
      \<and> uval k (bt_reserved (sys_tracker s)) = open_sum k (sys_reservations s)
      \<and> (\<forall>r\<in>set (sys_reservations s). 0 \<le> uval k (ur_estimate r))
      \<and> level k s \<le> M k)"

lemma budget_invI:
  assumes "\<And>k. 0 \<le> uval k (bt_usage (sys_tracker s))"
    and "\<And>k. uval k (bt_reserved (sys_tracker s)) = open_sum k (sys_reservations s)"
    and "\<And>k r. r \<in> set (sys_reservations s) \<Longrightarrow> 0 \<le> uval k (ur_estimate r)"
    and "\<And>k. level k s \<le> M k"
  shows "budget_inv M s"
  using assms by (auto simp: budget_inv_def)

fun op_usage :: "tracker_op \<Rightarrow> TokenUsage" where
  "op_usage (OReserve u) = u"
| "op_usage (OCommit i u) = u"
| "op_usage (ORecord u) = u"
| "op_usage _ = zero_usage"

definition op_mass :: "ufield \<Rightarrow> tracker_op \<Rightarrow> int" where
  "op_mass k x = uval k (normalizedUsage (op_usage x))"

lemma budget_inv_reserved:
  assumes "budget_inv M s"
  shows "0 \<le> uval k (bt_reserved (sys_tracker s))"
    and "i < length (sys_reservations s) \<Longrightarrow> open_part k (sys_reservations s ! i) \<le> uval k (bt_reserved (sys_tracker s))"
proof -
  have "0 \<le> open_part k r" if "r \<in> set (sys_reservations s)" for r
    using assms that by (auto simp: budget_inv_def open_part_def)
  then show "0 \<le> uval k (bt_reserved (sys_tracker s))"
    "i < length (sys_reservations s) \<Longrightarrow> open_part k (sys_reservations s ! i) \<le> uval k (bt_reserved (sys_tracker s))"
    using assms open_sum_nonneg open_part_le_sum by (auto simp: budget_inv_def)
qed

lemma budget_inv_mono: "budget_inv M s \<Longrightarrow> (\<And>k. M k \<le> M' k) \<Longrightarrow> budget_inv M' s"
  unfolding budget_inv_def by (meson order_trans)

lemma ReserveUsage_step:
  assumes inv: "budget_inv M s" and "usage_sane u" "\<And>k. M k + uval k (normalizedUsage u) < 2 ^ 63"
    and r: "ReserveUsage u (sys_tracker s) = Inr (r, t)"
  shows "budget_inv (\<lambda>k. M k + uval k (normalizedUsage u))
      (s\<lparr>sys_tracker := t, sys_reservations := sys_reservations s @ [r]\<rparr>)"
    and "uval k (bt_reserved t) = uval k (bt_reserved (sys_tracker s)) + uval k (normalizedUsage u)"
    and "bt_usage t = bt_usage (sys_tracker s)" "bt_budget t = bt_budget (sys_tracker s)"
    and "r = \<lparr>ur_tracked = True, ur_estimate = normalizedUsage u, ur_done = False\<rparr>"
proof -
  have t: "t = (sys_tracker s)\<lparr>bt_reserved := usage_Add (bt_reserved (sys_tracker s)) (normalizedUsage u)\<rparr>"
    and r': "r = \<lparr>ur_tracked = True, ur_estimate = normalizedUsage u, ur_done = False\<rparr>"
    using r by (auto simp: ReserveUsage_def Let_def split: option.splits)
  have n: "0 \<le> uval k (normalizedUsage u)" for k using assms(2) by (rule uval_normalized_nonneg)
  have i: "0 \<le> uval k (bt_usage (sys_tracker s))" "level k s \<le> M k" for k
    using inv by (auto simp: budget_inv_def)
  have *: "uval k (bt_reserved t) = uval k (bt_reserved (sys_tracker s)) + uval k (normalizedUsage u)" for k
  proof -
    have "uval k (bt_reserved (sys_tracker s)) + uval k (normalizedUsage u) < 2 ^ 63"
      using i [of k] assms(3) [of k] by (simp add: level_def)
    then show ?thesis unfolding t using uval_Add [OF budget_inv_reserved(1) [OF inv] n] by simp
  qed
  show "uval k (bt_reserved t) = uval k (bt_reserved (sys_tracker s)) + uval k (normalizedUsage u)"
    "bt_usage t = bt_usage (sys_tracker s)" "bt_budget t = bt_budget (sys_tracker s)"
    "r = \<lparr>ur_tracked = True, ur_estimate = normalizedUsage u, ur_done = False\<rparr>"
    using * t r' by simp_all
  show "budget_inv (\<lambda>k. M k + uval k (normalizedUsage u))
      (s\<lparr>sys_tracker := t, sys_reservations := sys_reservations s @ [r]\<rparr>)"
  proof (rule budget_invI)
    fix k
    show "level k (s\<lparr>sys_tracker := t, sys_reservations := sys_reservations s @ [r]\<rparr>) \<le> M k + uval k (normalizedUsage u)"
      using i(2) [of k] * [of k] by (simp add: level_def t)
  qed (use inv * n in \<open>auto simp: budget_inv_def t r' open_part_def\<close>)
qed

text \<open>Closing an open reservation, by a commit of \<open>act\<close> or by a release.\<close>

lemma close_step:
  assumes inv: "budget_inv M s" and i: "i < length (sys_reservations s)"
    and r: "r = sys_reservations s ! i" "ur_tracked r" "\<not> ur_done r"
    and act: "\<And>k. 0 \<le> uval k act" "\<And>k. M k + uval k act < 2 ^ 63"
    and t: "t = (subtractReservedLocked (ur_estimate r) (sys_tracker s))\<lparr>bt_usage := usage_Add (bt_usage (sys_tracker s)) act\<rparr>"
  shows "budget_inv (\<lambda>k. M k + uval k act)
      (s\<lparr>sys_tracker := t, sys_reservations := (sys_reservations s)[i := r\<lparr>ur_done := True\<rparr>]\<rparr>)"
    and "uval k (bt_usage t) = uval k (bt_usage (sys_tracker s)) + uval k act"
    and "uval k (bt_reserved t) = uval k (bt_reserved (sys_tracker s)) - uval k (ur_estimate r)"
proof -
  have b: "0 \<le> uval k (bt_usage (sys_tracker s))" "level k s \<le> M k" "0 \<le> uval k (ur_estimate r)" for k
    using inv i r(1) by (auto simp: budget_inv_def)
  have p: "uval k (ur_estimate r) \<le> uval k (bt_reserved (sys_tracker s))" for k
    using budget_inv_reserved(2) [OF inv i, of k] r by (simp add: open_part_def)
  have u: "uval k (bt_usage t) = uval k (bt_usage (sys_tracker s)) + uval k act" for k
  proof -
    have "uval k (bt_usage (sys_tracker s)) + uval k act < 2 ^ 63"
      using b(2) [of k] act(2) [of k] budget_inv_reserved(1) [OF inv, of k] by (simp add: level_def)
    then show ?thesis using uval_Add [OF b(1) act(1)] by (simp add: t)
  qed
  have v: "uval k (bt_reserved t) = uval k (bt_reserved (sys_tracker s)) - uval k (ur_estimate r)" for k
  proof -
    have "uval k (bt_reserved (sys_tracker s)) < 2 ^ 63"
      using b [of k] act [of k] by (simp add: level_def)
    then show ?thesis using uval_subtract [OF b(3) p] by (simp add: t)
  qed
  show "uval k (bt_usage t) = uval k (bt_usage (sys_tracker s)) + uval k act"
    "uval k (bt_reserved t) = uval k (bt_reserved (sys_tracker s)) - uval k (ur_estimate r)" using u v by auto
  have o: "open_sum k ((sys_reservations s)[i := r\<lparr>ur_done := True\<rparr>]) = open_sum k (sys_reservations s) - uval k (ur_estimate r)" for k
    using open_sum_update [OF i] r by (simp add: open_part_def)
  have e: "0 \<le> uval k (ur_estimate x)" if "x \<in> set ((sys_reservations s)[i := r\<lparr>ur_done := True\<rparr>])" for k x
    using set_update_subset_insert [THEN subsetD, OF that] inv b(3) by (auto simp: budget_inv_def)
  show "budget_inv (\<lambda>k. M k + uval k act)
      (s\<lparr>sys_tracker := t, sys_reservations := (sys_reservations s)[i := r\<lparr>ur_done := True\<rparr>]\<rparr>)"
  proof (rule budget_invI)
    fix k
    show "level k (s\<lparr>sys_tracker := t, sys_reservations := (sys_reservations s)[i := r\<lparr>ur_done := True\<rparr>]\<rparr>) \<le> M k + uval k act"
      using b [of k] u [of k] v [of k] by (simp add: level_def)
    show "0 \<le> uval k (bt_usage (sys_tracker (s\<lparr>sys_tracker := t, sys_reservations := (sys_reservations s)[i := r\<lparr>ur_done := True\<rparr>]\<rparr>)))"
      using b [of k] u [of k] act(1) [of k] by simp
  qed (use inv u v o e in \<open>auto simp: budget_inv_def\<close>)
qed

text \<open>What an operation adds to the used amounts, and by how much it exceeds what was reserved.\<close>

fun op_spent :: "ufield \<Rightarrow> tracker_op \<Rightarrow> budget_sys \<Rightarrow> int" where
  "op_spent k (OCommit i u) s =
     (if i < length (sys_reservations s) \<and> ur_tracked (sys_reservations s ! i) \<and> \<not> ur_done (sys_reservations s ! i)
      then uval k (normalizedUsage u) else 0)"
| "op_spent k (ORecord u) s =
     (case ReserveUsage zero_usage (sys_tracker s) of Inl e \<Rightarrow> 0 | Inr x \<Rightarrow> uval k (normalizedUsage u))"
| "op_spent k _ s = 0"

fun op_overshoot :: "ufield \<Rightarrow> tracker_op \<Rightarrow> budget_sys \<Rightarrow> int" where
  "op_overshoot k (OCommit i u) s =
     max 0 (op_spent k (OCommit i u) s - (if i < length (sys_reservations s) then open_part k (sys_reservations s ! i) else 0))"
| "op_overshoot k x s = op_spent k x s"

fun run_spent :: "ufield \<Rightarrow> tracker_op list \<Rightarrow> budget_sys \<Rightarrow> int" where
  "run_spent k [] s = 0"
| "run_spent k (x # xs) s = op_spent k x s + run_spent k xs (snd (budget_op x s))"

fun run_overshoot :: "ufield \<Rightarrow> tracker_op list \<Rightarrow> budget_sys \<Rightarrow> int" where
  "run_overshoot k [] s = 0"
| "run_overshoot k (x # xs) s = op_overshoot k x s + run_overshoot k xs (snd (budget_op x s))"

definition limit_of :: "ufield \<Rightarrow> Budget \<Rightarrow> int" where
  "limit_of k b = (case k of UTotal \<Rightarrow> bg_MaxTotalTokens b | UCost \<Rightarrow> bg_MaxEstimatedCostMicros b | _ \<Rightarrow> 0)"

lemma admit_within_limit:
  assumes "admitUsageLocked t u True = None" "0 < limit_of k (bt_budget t)"
    and "\<And>k. 0 \<le> uval k (bt_usage t)" "\<And>k. 0 \<le> uval k u" "\<And>k. 0 \<le> uval k (bt_reserved t)"
    and "\<And>k. uval k (bt_usage t) + uval k (bt_reserved t) + uval k u < 2 ^ 63"
  shows "uval k (bt_usage t) + uval k (bt_reserved t) + uval k u \<le> limit_of k (bt_budget t)"
proof -
  have i: "i64 (uval k (bt_usage t) + uval k u) = uval k (bt_usage t) + uval k u"
    "i64 (uval k (bt_usage t) + uval k u + uval k (bt_reserved t)) = uval k (bt_usage t) + uval k u + uval k (bt_reserved t)" for k
    using assms(3-6) [of k] by (intro i64_id; simp add: in_i64_def)+
  show ?thesis
    using assms(1,2) i [of UTotal] i [of UCost]
    by (cases k) (auto simp: admitUsageLocked_def Let_def limit_of_def split: if_splits)
qed

definition step_ok :: "(ufield \<Rightarrow> int) \<Rightarrow> tracker_op \<Rightarrow> budget_sys \<Rightarrow> budget_sys \<Rightarrow> bool" where
  "step_ok M x s s' \<longleftrightarrow> budget_inv (\<lambda>k. M k + op_mass k x) s'
     \<and> bt_budget (sys_tracker s') = bt_budget (sys_tracker s)
     \<and> (\<forall>k. uval k (bt_usage (sys_tracker s')) = uval k (bt_usage (sys_tracker s)) + op_spent k x s)
     \<and> (\<forall>k B. 0 < limit_of k (bt_budget (sys_tracker s)) \<longrightarrow> limit_of k (bt_budget (sys_tracker s)) \<le> B
          \<longrightarrow> level k s \<le> B \<longrightarrow> level k s' \<le> B + op_overshoot k x s)"

lemma budget_invD:
  assumes "budget_inv M s"
  shows "0 \<le> uval k (bt_usage (sys_tracker s))"
    and "uval k (bt_reserved (sys_tracker s)) = open_sum k (sys_reservations s)"
    and "r \<in> set (sys_reservations s) \<Longrightarrow> 0 \<le> uval k (ur_estimate r)"
    and "level k s \<le> M k"
  using assms by (auto simp: budget_inv_def)

text \<open>Operations that leave the used and reserved amounts alone.\<close>

lemma step_ok_same:
  assumes inv: "budget_inv M s"
    and "\<And>k. 0 \<le> op_mass k x" "\<And>k. op_spent k x s = 0" "\<And>k. 0 \<le> op_overshoot k x s"
    and eqs: "bt_usage (sys_tracker s') = bt_usage (sys_tracker s)" "bt_reserved (sys_tracker s') = bt_reserved (sys_tracker s)"
      "bt_budget (sys_tracker s') = bt_budget (sys_tracker s)"
    and res: "\<And>k. open_sum k (sys_reservations s') = open_sum k (sys_reservations s)"
      "\<And>k r. r \<in> set (sys_reservations s') \<Longrightarrow> 0 \<le> uval k (ur_estimate r)"
  shows "step_ok M x s s'"
proof -
  have lv: "level k s' = level k s" for k by (simp add: level_def eqs)
  have "budget_inv (\<lambda>k. M k + op_mass k x) s'"
  proof (rule budget_invI)
    show "level k s' \<le> M k + op_mass k x" for k
      using budget_invD(4) [OF inv, of k] assms(2) [of k] lv by simp
  qed (use budget_invD(1,2) [OF inv] eqs res in simp_all)
  moreover have "level k s' \<le> B + op_overshoot k x s" if "level k s \<le> B" for k B
    using that assms(4) [of k] lv [of k] by simp
  ultimately show ?thesis using assms(3) eqs(1,3) by (simp add: step_ok_def)
qed

lemma step_ok_Reserve:
  assumes inv: "budget_inv M s" and "usage_sane u" "\<And>k. M k + uval k (normalizedUsage u) < 2 ^ 63"
  shows "step_ok M (OReserve u) s (snd (budget_op (OReserve u) s))"
proof (cases "ReserveUsage u (sys_tracker s)")
  case (Inl e)
  then show ?thesis
    by (intro step_ok_same [OF inv])
      (auto simp: op_mass_def uval_normalized_nonneg [OF assms(2)] budget_invD(3) [OF inv])
next
  case (Inr x)
  obtain r t where x: "x = (r, t)" by (cases x)
  note R = ReserveUsage_step [OF inv assms(2,3) Inr [unfolded x]]
  have n: "0 \<le> uval k (normalizedUsage u)" for k using assms(2) by (rule uval_normalized_nonneg)
  have "level k (s\<lparr>sys_tracker := t, sys_reservations := sys_reservations s @ [r]\<rparr>) \<le> limit_of k (bt_budget (sys_tracker s))"
    if "0 < limit_of k (bt_budget (sys_tracker s))" for k
  proof -
    have a: "admitUsageLocked (sys_tracker s) (normalizedUsage u) True = None"
      using Inr by (auto simp: ReserveUsage_def Let_def split: option.splits)
    have "uval k (bt_usage (sys_tracker s)) + uval k (bt_reserved (sys_tracker s)) + uval k (normalizedUsage u)
        \<le> limit_of k (bt_budget (sys_tracker s))"
    proof (rule admit_within_limit [OF a that])
      show "uval k (bt_usage (sys_tracker s)) + uval k (bt_reserved (sys_tracker s)) + uval k (normalizedUsage u) < 2 ^ 63" for k
        using budget_invD(4) [OF inv, of k] assms(3) [of k] by (simp add: level_def)
    qed (simp_all add: budget_invD(1) [OF inv] n budget_inv_reserved(1) [OF inv])
    then show ?thesis using R(2,3) by (simp add: level_def)
  qed
  then show ?thesis using R(1,3,4) by (fastforce simp: step_ok_def Inr x op_mass_def)
qed

lemma step_ok_close:
  assumes "budget_inv M s" "i < length (sys_reservations s)"
    and "r = sys_reservations s ! i" "ur_tracked r" "\<not> ur_done r"
    and "\<And>k. 0 \<le> uval k act" "\<And>k. M k + uval k act < 2 ^ 63"
    and "t = (subtractReservedLocked (ur_estimate r) (sys_tracker s))\<lparr>bt_usage := usage_Add (bt_usage (sys_tracker s)) act\<rparr>"
    and "\<And>k. op_mass k x = uval k act" "\<And>k. op_spent k x s = uval k act"
    and "\<And>k. uval k act - uval k (ur_estimate r) \<le> op_overshoot k x s"
  shows "step_ok M x s (s\<lparr>sys_tracker := t, sys_reservations := (sys_reservations s)[i := r\<lparr>ur_done := True\<rparr>]\<rparr>)"
proof -
  note C = close_step [OF assms(1-8)]
  have "level k (s\<lparr>sys_tracker := t, sys_reservations := (sys_reservations s)[i := r\<lparr>ur_done := True\<rparr>]\<rparr>)
      \<le> B + op_overshoot k x s" if "level k s \<le> B" for k B
    using that C(2,3) [of k] assms(11) [of k] by (simp add: level_def)
  then show ?thesis using C(1,2) assms(8-10) by (simp add: step_ok_def)
qed

lemma usage_Add_zero_field: "uval k (usage_Add u zero_usage) = i64 (uval k u)"
  by (cases k) (simp_all add: usage_Add_def zero_usage_def)

text \<open>A second commit or release of a reservation, or one without a tracker, has no effect.\<close>

lemma step_ok_closed:
  assumes inv: "budget_inv M s" and c: "i < length (sys_reservations s)"
      "\<not> (ur_tracked (sys_reservations s ! i) \<and> \<not> ur_done (sys_reservations s ! i))"
    and s': "s' \<in> {s, s\<lparr>sys_reservations := (sys_reservations s)[i := (sys_reservations s ! i)\<lparr>ur_done := True\<rparr>]\<rparr>}"
    and "\<And>k. 0 \<le> op_mass k x" "\<And>k. op_spent k x s = 0" "\<And>k. 0 \<le> op_overshoot k x s"
  shows "step_ok M x s s'"
proof -
  let ?rs = "(sys_reservations s)[i := (sys_reservations s ! i)\<lparr>ur_done := True\<rparr>]"
  have e: "0 \<le> uval k (ur_estimate r)" if "r \<in> set ?rs" for k r
    using set_update_subset_insert [THEN subsetD, OF that] budget_invD(3) [OF inv] nth_mem [OF c(1)] by auto
  have o: "open_sum k ?rs = open_sum k (sys_reservations s)" for k
    using c open_sum_update [OF c(1)] by (auto simp: open_part_def)
  show ?thesis
    by (rule step_ok_same [OF inv assms(5-7)]) (use s' e o budget_invD(3) [OF inv] in auto)
qed

lemma step_ok_Commit:
  assumes inv: "budget_inv M s" and "usage_sane u" "\<And>k. M k + uval k (normalizedUsage u) < 2 ^ 63"
  shows "step_ok M (OCommit i u) s (snd (budget_op (OCommit i u) s))"
proof -
  have n: "0 \<le> uval k (normalizedUsage u)" for k using assms(2) by (rule uval_normalized_nonneg)
  let ?r = "sys_reservations s ! i"
  consider (out) "\<not> i < length (sys_reservations s)"
    | (closed) "i < length (sys_reservations s)" "\<not> (ur_tracked ?r \<and> \<not> ur_done ?r)"
    | (opened) "i < length (sys_reservations s)" "ur_tracked ?r" "\<not> ur_done ?r" by blast
  then show ?thesis
  proof cases
    case out
    then show ?thesis
      by (intro step_ok_same [OF inv]) (auto simp: op_mass_def n budget_invD(3) [OF inv])
  next
    case closed
    then have "snd (budget_op (OCommit i u) s) \<in> {s, s\<lparr>sys_reservations := (sys_reservations s)[i := ?r\<lparr>ur_done := True\<rparr>]\<rparr>}"
      by (auto simp: reservation_Commit_def)
    then show ?thesis by (rule step_ok_closed [OF inv closed]) (auto simp: op_mass_def n open_part_def closed)
  next
    case opened
    then show ?thesis
      using step_ok_close [OF inv opened(1) refl opened(2,3) n assms(3) refl, of "OCommit i u"]
      by (simp add: reservation_Commit_def Let_def op_mass_def open_part_def)
  qed
qed

lemma zero_commit_state:
  "(subtractReservedLocked v t)\<lparr>bt_usage := usage_Add (bt_usage t) zero_usage\<rparr> = subtractReservedLocked v t"
  if "\<And>k. in_i64 (uval k (bt_usage t))"
proof -
  have "usage_Add (bt_usage t) zero_usage = bt_usage t"
    using that [of UInput] that [of UOutput] that [of UTotal] that [of UCost]
    by (simp add: usage_Add_def zero_usage_def i64_id)
  then show ?thesis by (simp add: subtractReservedLocked_def Let_def)
qed

lemma step_ok_Release:
  assumes inv: "budget_inv M s" and m: "\<And>k. M k < 2 ^ 63"
  shows "step_ok M (ORelease i) s (snd (budget_op (ORelease i) s))"
proof -
  let ?r = "sys_reservations s ! i"
  consider (out) "\<not> i < length (sys_reservations s)"
    | (closed) "i < length (sys_reservations s)" "\<not> (ur_tracked ?r \<and> \<not> ur_done ?r)"
    | (opened) "i < length (sys_reservations s)" "ur_tracked ?r" "\<not> ur_done ?r" by blast
  then show ?thesis
  proof cases
    case out
    then show ?thesis
      by (intro step_ok_same [OF inv]) (auto simp: op_mass_def budget_invD(3) [OF inv])
  next
    case closed
    then have "snd (budget_op (ORelease i) s) \<in> {s, s\<lparr>sys_reservations := (sys_reservations s)[i := ?r\<lparr>ur_done := True\<rparr>]\<rparr>}"
      by (auto simp: reservation_Release_def)
    then show ?thesis by (rule step_ok_closed [OF inv closed]) (auto simp: op_mass_def)
  next
    case opened
    have "in_i64 (uval k (bt_usage (sys_tracker s)))" for k
      using budget_invD(1,4) [OF inv, of k] budget_inv_reserved(1) [OF inv, of k] m [of k]
      by (auto simp: level_def in_i64_def)
    then have z: "(subtractReservedLocked v (sys_tracker s))\<lparr>bt_usage := usage_Add (bt_usage (sys_tracker s)) zero_usage\<rparr>
        = subtractReservedLocked v (sys_tracker s)" for v
      by (rule zero_commit_state)
    have "- uval k (ur_estimate ?r) \<le> 0" for k using budget_invD(3) [OF inv nth_mem [OF opened(1)]] by simp
    then have "step_ok M (ORelease i) s (s\<lparr>sys_tracker := subtractReservedLocked (ur_estimate ?r) (sys_tracker s),
        sys_reservations := (sys_reservations s)[i := ?r\<lparr>ur_done := True\<rparr>]\<rparr>)"
      by (intro step_ok_close [OF inv opened(1) refl opened(2,3), of zero_usage]) (use m in \<open>auto simp: z op_mass_def\<close>)
    then show ?thesis using opened by (simp add: reservation_Release_def)
  qed
qed

lemma step_ok_Admit:
  assumes inv: "budget_inv M s"
  shows "step_ok M OAdmit s (snd (budget_op OAdmit s))"
  by (intro step_ok_same [OF inv])
    (auto simp: op_mass_def AdmitStep_def budget_invD(3) [OF inv] split: if_splits)

lemma budget_inv_drop:
  assumes "budget_inv M (s\<lparr>sys_reservations := rs @ [r]\<rparr>)" "\<And>k. open_part k r = 0"
  shows "budget_inv M (s\<lparr>sys_reservations := rs\<rparr>)"
proof (rule budget_invI)
  show "level k (s\<lparr>sys_reservations := rs\<rparr>) \<le> M k" for k
    using budget_invD(4) [OF assms(1), of k] by (simp add: level_def)
qed (use budget_invD(1-3) [OF assms(1)] assms(2) in auto)

text \<open>\<^verbatim>\<open>RecordBudgetUsage\<close> is a reservation of nothing followed by its commit.\<close>

lemma step_ok_Record:
  assumes inv: "budget_inv M s" and u: "usage_sane u" "\<And>k. M k + uval k (normalizedUsage u) < 2 ^ 63"
  shows "step_ok M (ORecord u) s (snd (budget_op (ORecord u) s))"
proof (cases "ReserveUsage zero_usage (sys_tracker s)")
  case (Inl e)
  then show ?thesis
    by (intro step_ok_same [OF inv])
      (auto simp: op_mass_def uval_normalized_nonneg [OF u(1)] budget_invD(3) [OF inv] RecordBudgetUsage_def)
next
  case (Inr x)
  obtain r t where x: "x = (r, t)" by (cases x)
  let ?s1 = "s\<lparr>sys_tracker := t, sys_reservations := sys_reservations s @ [r]\<rparr>"
  let ?i = "length (sys_reservations s)"
  have n: "0 \<le> uval k (normalizedUsage u)" for k using u(1) by (rule uval_normalized_nonneg)
  have m: "M k + uval k (normalizedUsage zero_usage) < 2 ^ 63" for k
    using u(2) [of k] n [of k] by simp
  note R = ReserveUsage_step [OF inv _ m Inr [unfolded x]]
  have zs: "usage_sane zero_usage" by (simp add: usage_sane_def zero_usage_def)
  have inv1: "budget_inv M ?s1" using R(1) [OF zs] by simp
  have s2: "snd (budget_op (OCommit ?i u) ?s1) =
      (snd (budget_op (ORecord u) s))\<lparr>sys_reservations := sys_reservations s @ [r\<lparr>ur_done := True\<rparr>]\<rparr>"
    using R(5) [OF zs] by (simp add: Inr x RecordBudgetUsage_def reservation_Commit_def Let_def)
  have c: "step_ok M (OCommit ?i u) ?s1 (snd (budget_op (OCommit ?i u) ?s1))"
    by (rule step_ok_Commit [OF inv1 u])
  let ?s' = "snd (budget_op (ORecord u) s)"
  have inv2: "budget_inv (\<lambda>k. M k + uval k (normalizedUsage u)) ?s'"
  proof -
    have "budget_inv (\<lambda>k. M k + uval k (normalizedUsage u)) (?s'\<lparr>sys_reservations := sys_reservations s @ [r\<lparr>ur_done := True\<rparr>]\<rparr>)"
      using c s2 by (simp add: step_ok_def op_mass_def)
    then have "budget_inv (\<lambda>k. M k + uval k (normalizedUsage u)) (?s'\<lparr>sys_reservations := sys_reservations s\<rparr>)"
      by (rule budget_inv_drop) simp
    moreover have "?s'\<lparr>sys_reservations := sys_reservations s\<rparr> = ?s'" by (simp add: Let_def case_prod_beta)
    ultimately show ?thesis by simp
  qed
  have lv: "level k (snd (budget_op (OCommit ?i u) ?s1)) = level k ?s'" "level k ?s1 = level k s" for k
    unfolding s2 using R(2,3) [OF zs] by (simp_all add: level_def)
  have sp: "op_spent k (OCommit ?i u) ?s1 = uval k (normalizedUsage u)"
    "op_overshoot k (OCommit ?i u) ?s1 = uval k (normalizedUsage u)" for k
    using R(5) [OF zs] n [of k] by (simp_all add: open_part_def)
  show ?thesis
    using c inv2 R(3,4) [OF zs] lv sp unfolding step_ok_def s2
    by (simp add: op_mass_def Inr x)
qed

lemma budget_op_ok:
  assumes "budget_inv M s" "usage_sane (op_usage x)" "\<And>k. M k + op_mass k x < 2 ^ 63"
  shows "step_ok M x s (snd (budget_op x s))"
  using assms
proof (cases x)
  case (ORelease i)
  then show ?thesis using step_ok_Release [OF assms(1)] assms(3) by (simp add: op_mass_def del: budget_op.simps)
qed (use assms step_ok_Admit step_ok_Reserve step_ok_Commit step_ok_Record in
    \<open>simp_all add: op_mass_def del: budget_op.simps\<close>)

definition run_mass :: "ufield \<Rightarrow> tracker_op list \<Rightarrow> int" where
  "run_mass k xs = (\<Sum>x\<leftarrow>xs. op_mass k x)"

lemma run_mass_simps [simp]: "run_mass k [] = 0" "run_mass k (x # xs) = op_mass k x + run_mass k xs"
  by (simp_all add: run_mass_def)

lemma run_mass_nonneg: "(\<forall>x\<in>set xs. usage_sane (op_usage x)) \<Longrightarrow> 0 \<le> run_mass k xs"
  unfolding run_mass_def by (rule sum_list_nonneg) (auto simp: op_mass_def uval_normalized_nonneg)

lemma budget_run_ok:
  assumes "budget_inv M s" "\<forall>x\<in>set xs. usage_sane (op_usage x)" "\<And>k. M k + run_mass k xs < 2 ^ 63"
  shows "budget_inv (\<lambda>k. M k + run_mass k xs) (budget_run xs s)
    \<and> bt_budget (sys_tracker (budget_run xs s)) = bt_budget (sys_tracker s)
    \<and> (\<forall>k. uval k (bt_usage (sys_tracker (budget_run xs s))) = uval k (bt_usage (sys_tracker s)) + run_spent k xs s)
    \<and> (\<forall>k B. 0 < limit_of k (bt_budget (sys_tracker s)) \<longrightarrow> limit_of k (bt_budget (sys_tracker s)) \<le> B
         \<longrightarrow> level k s \<le> B \<longrightarrow> level k (budget_run xs s) \<le> B + run_overshoot k xs s)"
  using assms
proof (induction xs arbitrary: s M)
  case (Cons x xs)
  have p: "0 \<le> run_mass k xs" "0 \<le> op_mass k x" for k
    using Cons.prems(2) by (auto intro: run_mass_nonneg simp: op_mass_def uval_normalized_nonneg)
  have m: "M k + op_mass k x < 2 ^ 63" for k using Cons.prems(3) [of k] p(1) [of k] by simp
  let ?s = "snd (budget_op x s)"
  have ok: "step_ok M x s ?s"
    by (rule budget_op_ok [OF Cons.prems(1) _ m]) (use Cons.prems(2) in simp)
  have o: "0 \<le> op_overshoot k x s" for k
    using Cons.prems(2) by (cases x) (auto simp: uval_normalized_nonneg split: sum.splits)
  have inv: "budget_inv (\<lambda>k. M k + op_mass k x) ?s" using ok by (simp add: step_ok_def)
  have m': "M k + op_mass k x + run_mass k xs < 2 ^ 63" for k using Cons.prems(3) [of k] by simp
  have sane: "\<forall>x\<in>set xs. usage_sane (op_usage x)" using Cons.prems(2) by simp
  note IH = Cons.IH [OF inv sane m']
  have "level k (budget_run (x # xs) s) \<le> B + run_overshoot k (x # xs) s"
    if "0 < limit_of k (bt_budget (sys_tracker s))" "limit_of k (bt_budget (sys_tracker s)) \<le> B" "level k s \<le> B" for k B
  proof -
    have 1: "level k ?s \<le> B + op_overshoot k x s" and 2: "bt_budget (sys_tracker ?s) = bt_budget (sys_tracker s)"
      using ok that by (auto simp: step_ok_def)
    have "limit_of k (bt_budget (sys_tracker ?s)) \<le> B + op_overshoot k x s" using 2 that(2) o [of k] by simp
    then have "level k (budget_run xs ?s) \<le> (B + op_overshoot k x s) + run_overshoot k xs ?s"
      using IH 1 2 that(1) by simp
    then show ?thesis by (simp add: add.assoc)
  qed
  then show ?case using IH ok by (simp add: step_ok_def add.assoc)
qed simp

lemma budget_op_steps:
  "bt_nodeExecutions (sys_tracker (snd (budget_op x s))) =
     (if x = OAdmit then bt_nodeExecutions (snd (AdmitStep (sys_tracker s))) else bt_nodeExecutions (sys_tracker s))"
  by (cases x) (auto simp: case_prod_beta ReserveUsage_def reservation_Commit_def reservation_Release_def
      RecordBudgetUsage_def Let_def split: option.splits sum.splits)

lemma budget_op_budget: "bt_budget (sys_tracker (snd (budget_op x s))) = bt_budget (sys_tracker s)"
  by (cases x) (auto simp: case_prod_beta ReserveUsage_def reservation_Commit_def reservation_Release_def
      RecordBudgetUsage_def AdmitStep_def Let_def split: option.splits sum.splits)

lemma uval_nonnegD:
  assumes "\<forall>k. 0 \<le> uval k u"
  shows "0 \<le> tu_InputTokens u" "0 \<le> tu_OutputTokens u" "0 \<le> tu_TotalTokens u" "0 \<le> tu_EstimatedCostMicros u"
  using assms [rule_format, of UInput] assms [rule_format, of UOutput] assms [rule_format, of UTotal]
    assms [rule_format, of UCost] by simp_all

definition usage_normal :: "TokenUsage \<Rightarrow> bool" where
  "usage_normal u \<longleftrightarrow> (\<forall>k. 0 \<le> uval k u) \<and> (uval UTotal u = 0 \<longrightarrow> uval UInput u = 0 \<and> uval UOutput u = 0)"

lemma normalized_normal:
  assumes "usage_sane u"
  shows "usage_normal (normalizedUsage u)"
proof -
  have "uval UTotal (normalizedUsage u) = 0 \<longrightarrow> uval UInput (normalizedUsage u) = 0 \<and> uval UOutput (normalizedUsage u) = 0"
    using assms by (auto simp: normalizedUsage_def usage_sane_def Let_def i64_id in_i64_def)
  then show ?thesis using uval_normalized_nonneg [OF assms] by (simp add: usage_normal_def)
qed

lemma normalized_id: "usage_normal u \<Longrightarrow> normalizedUsage u = u"
proof -
  assume n: "usage_normal u"
  then have "\<forall>k. 0 \<le> uval k u" by (simp add: usage_normal_def)
  note p = uval_nonnegD [OF this]
  then show ?thesis using n by (auto simp: usage_normal_def normalizedUsage_def Let_def i64_def)
qed

lemma usage_normal_op:
  assumes "budget_inv M s" "usage_sane (op_usage x)" "\<And>k. M k + op_mass k x < 2 ^ 63"
    and n: "usage_normal (bt_usage (sys_tracker s))"
  shows "usage_normal (bt_usage (sys_tracker (snd (budget_op x s))))"
proof -
  have e: "uval k (bt_usage (sys_tracker (snd (budget_op x s)))) = uval k (bt_usage (sys_tracker s)) + op_spent k x s" for k
    using budget_op_ok [OF assms(1-3)] by (simp add: step_ok_def)
  have "(\<forall>k. 0 \<le> op_spent k x s) \<and> (op_spent UTotal x s = 0 \<longrightarrow> op_spent UInput x s = 0 \<and> op_spent UOutput x s = 0)"
    using normalized_normal [OF assms(2)] by (cases x) (auto simp: usage_normal_def split: sum.splits)
  then have o: "0 \<le> op_spent k x s" "op_spent UTotal x s = 0 \<Longrightarrow> op_spent UInput x s = 0 \<and> op_spent UOutput x s = 0" for k
    by auto
  have u: "0 \<le> uval k (bt_usage (sys_tracker s))" for k using n by (simp add: usage_normal_def)
  have "uval k (bt_usage (sys_tracker s)) + op_spent k x s = 0 \<longleftrightarrow> uval k (bt_usage (sys_tracker s)) = 0 \<and> op_spent k x s = 0" for k
    using u [of k] o(1) [of k] by auto
  then show ?thesis using n o u unfolding usage_normal_def e by (simp del: uval.simps)
qed

lemma usage_normal_run:
  assumes "budget_inv M s" "\<forall>x\<in>set xs. usage_sane (op_usage x)" "\<And>k. M k + run_mass k xs < 2 ^ 63"
    and "usage_normal (bt_usage (sys_tracker s))"
  shows "usage_normal (bt_usage (sys_tracker (budget_run xs s)))"
  using assms
proof (induction xs arbitrary: s M)
  case (Cons x xs)
  have m: "M k + op_mass k x < 2 ^ 63" for k
    using Cons.prems(3) [of k] run_mass_nonneg [of xs k] Cons.prems(2) by simp
  have x: "usage_sane (op_usage x)" using Cons.prems(2) by simp
  have inv: "budget_inv (\<lambda>k. M k + op_mass k x) (snd (budget_op x s))"
    using budget_op_ok [OF Cons.prems(1) x m] by (simp add: step_ok_def)
  have m': "M k + op_mass k x + run_mass k xs < 2 ^ 63" for k using Cons.prems(3) [of k] by simp
  show ?case
    using Cons.IH [OF inv _ m' usage_normal_op [OF Cons.prems(1) x m Cons.prems(4)]] Cons.prems(2) by simp
qed simp

section \<open>Properties\<close>

definition fresh_sys :: "BudgetTracker \<Rightarrow> budget_sys" where
  "fresh_sys t = \<lparr>sys_tracker = t, sys_reservations = []\<rparr>"

lemma NewBudgetTracker_inv:
  assumes "NewBudgetTracker b = Inr t"
  shows "budget_inv (\<lambda>_. 0) (fresh_sys t)" "usage_normal (bt_usage t)" "bt_nodeExecutions t = 0" "bt_budget t = b"
  using assms by (auto simp: NewBudgetTracker_def fresh_sys_def budget_inv_def level_def usage_normal_def zero_usage_def [symmetric]
      split: if_splits) (simp_all add: zero_usage_def)

text \<open>
  C27. The shared budget holds under every interleaving. Take a new tracker and any sequence of
  admissions, reservations, commits, releases and direct records by concurrent branches, whose
  amounts sum to less than \<open>2 ^ 63\<close>. Then the amounts used are exactly the sum of what was committed
  (spend is never lost, also when the commit reports an error), the amounts reserved are exactly
  those of the open reservations, and, where a total or cost limit is set, what is used and reserved
  exceeds it by at most what commits spent beyond their own reservations.
\<close>

theorem budget_run_within:
  assumes "NewBudgetTracker b = Inr t" "\<forall>x\<in>set xs. usage_sane (op_usage x)" "\<forall>k. run_mass k xs < 2 ^ 63"
  shows "(\<forall>k. uval k (bt_usage (sys_tracker (budget_run xs (fresh_sys t)))) = run_spent k xs (fresh_sys t))
    \<and> (\<forall>k. uval k (bt_reserved (sys_tracker (budget_run xs (fresh_sys t))))
          = open_sum k (sys_reservations (budget_run xs (fresh_sys t))))
    \<and> (\<forall>k. 0 < limit_of k b \<longrightarrow>
          uval k (bt_usage (sys_tracker (budget_run xs (fresh_sys t))))
          + uval k (bt_reserved (sys_tracker (budget_run xs (fresh_sys t))))
          \<le> limit_of k b + run_overshoot k xs (fresh_sys t))"
proof -
  note N = NewBudgetTracker_inv [OF assms(1)]
  have m: "0 + run_mass k xs < 2 ^ 63" for k using assms(3) by simp
  note R = budget_run_ok [OF N(1) assms(2) m]
  have z: "uval k (bt_usage t) = 0" "level k (fresh_sys t) = 0" for k
    using assms(1) by (auto simp: NewBudgetTracker_def level_def fresh_sys_def split: if_splits)
  have "level k (budget_run xs (fresh_sys t)) \<le> limit_of k b + run_overshoot k xs (fresh_sys t)"
    if "0 < limit_of k b" for k
    using R that z(2) [of k] N(4) by (simp add: fresh_sys_def)
  then show ?thesis
    using R z(1) by (simp add: fresh_sys_def level_def budget_inv_def)
qed

definition demo_usage :: "int \<Rightarrow> TokenUsage" where
  "demo_usage n = zero_usage\<lparr>tu_InputTokens := n, tu_EstimatedCostMicros := 3\<rparr>"

definition demo_budget :: Budget where
  "demo_budget = \<lparr>bg_MaxSteps = 2, bg_MaxInputTokens = 0, bg_MaxOutputTokens = 0, bg_MaxTotalTokens = 100,
     bg_MaxEstimatedCostMicros = 0, bg_Timeout = 0, bg_Deadline = None\<rparr>"

definition demo_tracker :: BudgetTracker where
  "demo_tracker = \<lparr>bt_budget = demo_budget, bt_nodeExecutions = 0, bt_usage = zero_usage, bt_reserved = zero_usage\<rparr>"

definition demo_ops :: "tracker_op list" where
  "demo_ops = [OReserve (demo_usage 60), OReserve (demo_usage 50), OReserve (demo_usage 40), OCommit 0 (demo_usage 55)]"

lemma demo_NewBudgetTracker: "NewBudgetTracker demo_budget = Inr demo_tracker"
  by code_simp

lemma demo_ops_sane: "\<forall>x\<in>set demo_ops. usage_sane (op_usage x)"
  by (simp add: demo_ops_def demo_usage_def usage_sane_def zero_usage_def)

lemma demo_ops_mass: "\<forall>k. run_mass k demo_ops < 2 ^ 63"
proof
  fix k
  have "run_mass UInput demo_ops = 205" "run_mass UOutput demo_ops = 0" "run_mass UTotal demo_ops = 205"
    "run_mass UCost demo_ops = 12" by code_simp+
  then show "run_mass k demo_ops < 2 ^ 63" by (cases k) simp_all
qed

theorem budget_run_within_witness:
  "uval UTotal (bt_usage (sys_tracker (budget_run demo_ops (fresh_sys demo_tracker)))) = 55
    \<and> length (sys_reservations (budget_run demo_ops (fresh_sys demo_tracker))) = 2
    \<and> uval UTotal (bt_usage (sys_tracker (budget_run demo_ops (fresh_sys demo_tracker))))
      + uval UTotal (bt_reserved (sys_tracker (budget_run demo_ops (fresh_sys demo_tracker)))) \<le> 100"
proof -
  have "run_overshoot UTotal demo_ops (fresh_sys demo_tracker) = 0 \<and> limit_of UTotal demo_budget = 100
    \<and> run_spent UTotal demo_ops (fresh_sys demo_tracker) = 55
    \<and> length (sys_reservations (budget_run demo_ops (fresh_sys demo_tracker))) = 2"
    by code_simp
  then show ?thesis
    using budget_run_within [OF demo_NewBudgetTracker demo_ops_sane demo_ops_mass]
    by (metis add.right_neutral zero_less_numeral)
qed

text \<open>
  Step admission is exact under every interleaving: after any history on a tracker with a step
  limit, the number of admitted node executions is the number of requests so far or the limit,
  whichever is smaller; no branch can push it beyond the limit and no request below it is refused.
\<close>

theorem budget_run_steps:
  assumes "0 < bg_MaxSteps (bt_budget (sys_tracker s))"
    and "bt_nodeExecutions (sys_tracker s) \<le> bg_MaxSteps (bt_budget (sys_tracker s))"
  shows "bt_nodeExecutions (sys_tracker (budget_run xs s)) =
    min (bt_nodeExecutions (sys_tracker s) + int (count_list xs OAdmit)) (bg_MaxSteps (bt_budget (sys_tracker s)))"
  using assms
proof (induction xs arbitrary: s)
  case (Cons x xs)
  let ?s = "snd (budget_op x s)"
  have b: "bt_budget (sys_tracker ?s) = bt_budget (sys_tracker s)" by (rule budget_op_budget)
  have g: "bt_nodeExecutions (snd (AdmitStep (sys_tracker s))) =
      min (bt_nodeExecutions (sys_tracker s) + 1) (bg_MaxSteps (bt_budget (sys_tracker s)))"
    using tracker_steps.granted [of "sys_tracker s"] tracker_steps.refused [of "sys_tracker s"] Cons.prems
    by (cases "fst (AdmitStep (sys_tracker s)) = None") auto
  have "bt_nodeExecutions (sys_tracker (budget_run xs ?s)) =
    min (bt_nodeExecutions (sys_tracker ?s) + int (count_list xs OAdmit)) (bg_MaxSteps (bt_budget (sys_tracker s)))"
    using Cons.IH [of ?s] Cons.prems b g budget_op_steps [of x s] by (auto split: if_splits)
  then show ?case using g budget_op_steps [of x s] by (auto split: if_splits simp: min_def)
qed simp

theorem budget_run_steps_witness:
  "bt_nodeExecutions (sys_tracker (budget_run [OAdmit, OReserve (demo_usage 60), OAdmit, OAdmit, OAdmit] (fresh_sys demo_tracker))) = 2"
  using budget_run_steps [of "fresh_sys demo_tracker" "[OAdmit, OReserve (demo_usage 60), OAdmit, OAdmit, OAdmit]"]
  by (simp add: fresh_sys_def demo_tracker_def demo_budget_def)

text \<open>
  Budgets survive a checkpoint: at a point of a history where every reservation has been
  committed or released, the snapshot is accepted by \<^verbatim>\<open>NewBudgetTrackerFromSnapshot\<close>, and the
  restored tracker has the budget, the executions and the usage of the original.
\<close>

theorem budget_snapshot_roundtrip:
  assumes "NewBudgetTracker b = Inr t0" "\<forall>x\<in>set xs. usage_sane (op_usage x)" "\<forall>k. run_mass k xs < 2 ^ 63"
    and "s = budget_run xs (fresh_sys t0)" "\<forall>r\<in>set (sys_reservations s). ur_done r" "0 \<le> bt_nodeExecutions (sys_tracker s)"
  shows "NewBudgetTrackerFromSnapshot b (Snapshot (sys_tracker s)) = Inr ((sys_tracker s)\<lparr>bt_reserved := zero_usage\<rparr>)"
proof -
  note N = NewBudgetTracker_inv [OF assms(1)]
  have m: "0 + run_mass k xs < 2 ^ 63" for k using assms(3) by simp
  note R = budget_run_ok [OF N(1) assms(2) m]
  have "usage_normal (bt_usage (sys_tracker s))"
    unfolding assms(4) by (rule usage_normal_run [OF N(1) assms(2) m]) (use N(2) in \<open>simp add: fresh_sys_def\<close>)
  then have u: "normalizedUsage (bt_usage (sys_tracker s)) = bt_usage (sys_tracker s)" by (rule normalized_id)
  have "open_sum k (sys_reservations s) = 0" for k
    using assms(5) by (simp add: open_sum_def open_part_def cong: map_cong)
  then have z: "uval k (bt_reserved (sys_tracker s)) = 0" for k using R assms(4) by (simp add: budget_inv_def)
  then have "usage_normal (bt_reserved (sys_tracker s))" by (simp add: usage_normal_def del: uval.simps)
  from normalized_id [OF this] have r: "tu_TotalTokens (normalizedUsage (bt_reserved (sys_tracker s))) = 0"
    "tu_EstimatedCostMicros (bt_reserved (sys_tracker s)) = 0"
    using z [of UTotal] z [of UCost] by simp_all
  have b: "bt_budget (sys_tracker s) = b" using R assms(4) N(4) by (simp add: fresh_sys_def)
  have t0: "t0 = \<lparr>bt_budget = b, bt_nodeExecutions = 0, bt_usage = zero_usage, bt_reserved = zero_usage\<rparr>"
    using assms(1) by (simp add: NewBudgetTracker_def split: if_splits)
  show ?thesis
    using assms(1,6) u r b
    by (simp add: NewBudgetTrackerFromSnapshot_def Snapshot_def guard_res_def t0 BudgetTracker.equality)
qed

theorem budget_snapshot_roundtrip_witness:
  "NewBudgetTrackerFromSnapshot demo_budget
      (Snapshot (sys_tracker (budget_run (demo_ops @ [ORelease 1]) (fresh_sys demo_tracker))))
   = Inr ((sys_tracker (budget_run (demo_ops @ [ORelease 1]) (fresh_sys demo_tracker)))\<lparr>bt_reserved := zero_usage\<rparr>)"
proof (rule budget_snapshot_roundtrip [OF demo_NewBudgetTracker, of "demo_ops @ [ORelease 1]"])
  show "\<forall>x\<in>set (demo_ops @ [ORelease 1]). usage_sane (op_usage x)"
    using demo_ops_sane by (auto simp: usage_sane_def zero_usage_def)
  show "\<forall>k. run_mass k (demo_ops @ [ORelease 1]) < 2 ^ 63"
    using demo_ops_mass by (simp add: run_mass_def op_mass_def)
  show "\<forall>r\<in>set (sys_reservations (budget_run (demo_ops @ [ORelease 1]) (fresh_sys demo_tracker))). ur_done r" by code_simp
  show "0 \<le> bt_nodeExecutions (sys_tracker (budget_run (demo_ops @ [ORelease 1]) (fresh_sys demo_tracker)))" by code_simp
qed simp

end
