(* ===== verification/Scheduler.thy ===== *)
theory Scheduler
  imports State_Writes Node_Lifecycle Budget
begin

text \<open>
  The wave scheduler of workflows, \<^verbatim>\<open>src/internal/module/agent/workflow/engine/scheduler.go\<close>, with
  the checkpoint of \<^verbatim>\<open>engine/checkpoint.go\<close>.

  A wave runs one goroutine per ready node. Goroutines share the semaphore, the trace map and the
  budget tracker; the rest of a goroutine is local. The model advances one goroutine at a time: a
  \<^emph>\<open>schedule\<close> is a list of node ids, each entry one micro-step of that node's goroutine (taking a
  semaphore slot; marking an attempt and admitting it; running the node and deciding about a retry).
  A step of a goroutine that waits for a slot has no effect when none is free. Every interleaving
  of the critical sections is a schedule.

  What the program gets from outside is the record \<open>sched_env\<close>: what each node implementation does
  at each attempt, the state of the context at each point where the code asks for it, the outcome
  of each back-off wait, clock readings, the persistence hook and the formatting of values.
\<close>

datatype exec_outcome = Returned fields | Failed gerr | Panicked string

record sched_env =
  env_execute :: "string \<Rightarrow> nat \<Rightarrow> stateView \<Rightarrow> (string \<times> gval) list \<Rightarrow> exec_outcome"
  env_ctx_err :: "string \<Rightarrow> nat \<Rightarrow> gerr option"
  env_wait :: "string \<Rightarrow> nat \<Rightarrow> gerr option"
  env_semaphore :: "string \<Rightarrow> gerr option"
  env_attempt_at :: "string \<Rightarrow> nat \<Rightarrow> int"
  env_finished_at :: "string \<Rightarrow> int"
  env_wave_ctx :: "nat \<Rightarrow> nat \<Rightarrow> gerr option"
  env_clock :: "64 word \<Rightarrow> int"
  env_now :: int
  env_hook :: "(StateCommit \<Rightarrow> gerr option) option"
  env_fmt :: "gval \<Rightarrow> string"

record Scheduler =
  s_plan :: Plan
  s_blackboard :: Blackboard
  s_traces :: "string \<rightharpoonup> NodeTrace"
  s_budget :: "BudgetTracker option"
  s_maxParallel :: int

record nodeResult =
  nr_id :: string
  nr_node :: "Node option"
  nr_outputs :: fields
  nr_err :: "gerr option"
  nr_skipped :: bool
  nr_finishedAt :: int

text \<open>\<^verbatim>\<open>nr_node\<close> is \<open>None\<close> for the zero \<^verbatim>\<open>ir.Node\<close>, whose id and type are empty.\<close>

definition nr_nodeID :: "nodeResult \<Rightarrow> string" where
  "nr_nodeID r = (case nr_node r of None \<Rightarrow> [] | Some n \<Rightarrow> n_ID n)"

definition nr_nodeType :: "nodeResult \<Rightarrow> string" where
  "nr_nodeType r = (case nr_node r of None \<Rightarrow> [] | Some n \<Rightarrow> n_Type n)"

section \<open>Construction\<close>

datatype scheduler_error = CompileFailed compile_error | NilImplementation | DuplicateImplementation string | MissingImplementation string

fun collect_impls :: "string option list \<Rightarrow> string list \<Rightarrow> scheduler_error + string list" where
  "collect_impls [] seen = Inr seen"
| "collect_impls (None # rest) seen = Inl NilImplementation"
| "collect_impls (Some i # rest) seen =
     (if i \<in> set seen then Inl (DuplicateImplementation i) else collect_impls rest (seen @ [i]))"

text \<open>
  An implementation is given by its \<^verbatim>\<open>ID()\<close>, \<open>None\<close> a nil one; its behaviour is in the environment.
  \<open>budget\<close> and \<open>maxParallel\<close> are what the options set.
\<close>

definition NewScheduler :: "WorkflowDSL option \<Rightarrow> string option list \<Rightarrow> BudgetTracker option \<Rightarrow> int
    \<Rightarrow> scheduler_error + Scheduler" where
  "NewScheduler definition nodeImpls budget maxParallel =
     (case Compile definition of
        Inl e \<Rightarrow> Inl (CompileFailed e)
      | Inr plan \<Rightarrow>
          bind_res (collect_impls nodeImpls []) (\<lambda>nodesMap.
          bind_res (check_all (\<lambda>n. guard_res (n_ID n \<notin> set nodesMap) (MissingImplementation (n_ID n))) (p_nodes plan)) (\<lambda>_.
          Inr \<lparr>s_plan = plan, s_blackboard = NewBlackboard, s_traces = Map.empty, s_budget = budget,
               s_maxParallel = (if 0 < maxParallel then maxParallel else 0)\<rparr>)))"

section \<open>Traces\<close>

definition trace_of :: "Scheduler \<Rightarrow> string \<Rightarrow> NodeTrace" where
  "trace_of s i = map_get zero_trace (s_traces s) i"

definition set_trace :: "string \<Rightarrow> NodeTrace \<Rightarrow> Scheduler \<Rightarrow> Scheduler" where
  "set_trace i t s = s\<lparr>s_traces := (s_traces s)(i \<mapsto> t)\<rparr>"

definition GetTraces :: "Scheduler \<Rightarrow> NodeTrace list" where
  "GetTraces s = map (\<lambda>n. case s_traces s (n_ID n) of
      Some t \<Rightarrow> t
    | None \<Rightarrow> zero_trace\<lparr>nt_NodeID := n_ID n, nt_NodeType := n_Type n, nt_Status := NodeStatusPending\<rparr>)
    (p_nodes (s_plan s))"

definition loadTraces :: "NodeTrace list \<Rightarrow> Scheduler \<Rightarrow> Scheduler" where
  "loadTraces traces s = s\<lparr>s_traces :=
     fold (\<lambda>t m. if nt_NodeID t \<noteq> [] then m(nt_NodeID t \<mapsto> t) else m) traces Map.empty\<rparr>"

section \<open>One goroutine\<close>

text \<open>
  Where a goroutine is: waiting for a slot, about to start attempt \<open>k\<close>, running attempt \<open>k\<close>,
  finished with an error or outputs.
\<close>

datatype nphase = NWaiting | NAttempt nat | NExec nat | NDone "gerr + fields"

definition node_begin :: "sched_env \<Rightarrow> Node \<Rightarrow> nat \<Rightarrow> Scheduler \<Rightarrow> nphase \<times> Scheduler" where
  "node_begin env node k s =
     (let maxAttempts = pol_maxAttempts (normalizeNodeRetryPolicy (n_Retry node)); i = n_ID node
      in if maxAttempts < int k
         then (NDone (Inl (EMsg ''node retry policy exhausted without a result'')), s)
         else case markNodeAttempt i (n_Type node) (env_attempt_at env i k) (int k) maxAttempts (trace_of s i) of
                Inl e \<Rightarrow> (NDone (Inl e), s)
              | Inr t \<Rightarrow>
                  let s1 = set_trace i t s
                  in case s_budget s1 of
                       None \<Rightarrow> (NExec k, s1)
                     | Some bt \<Rightarrow>
                         let (refused, bt') = AdmitStep bt; s2 = s1\<lparr>s_budget := Some bt'\<rparr>
                         in case refused of
                              Some e \<Rightarrow> (NDone (Inl (EWrap (''node '' @ i @ '' execution budget: '') e)), s2)
                            | None \<Rightarrow> (NExec k, s2))"

definition node_finish :: "sched_env \<Rightarrow> stateView \<Rightarrow> (string \<times> gval) list \<Rightarrow> Node \<Rightarrow> nat \<Rightarrow> Scheduler
    \<Rightarrow> nphase \<times> Scheduler" where
  "node_finish env view inputs node k s =
     (let maxAttempts = pol_maxAttempts (normalizeNodeRetryPolicy (n_Retry node)); i = n_ID node
      in case env_execute env i k view inputs of
           Returned outputs \<Rightarrow> (NDone (Inr outputs), s)
         | Panicked msg \<Rightarrow> (NDone (Inl (EMsg (''node panic: '' @ msg))), s)
         | Failed err \<Rightarrow>
             (case env_ctx_err env i k of
                Some contextErr \<Rightarrow> (NDone (Inl contextErr), s)
              | None \<Rightarrow>
                  if int k = maxAttempts \<or> \<not> shouldRetryNode (Some err) then (NDone (Inl err), s)
                  else case markNodeRetrying i err (trace_of s i) of
                         Inl transitionErr \<Rightarrow> (NDone (Inl (EJoin err transitionErr)), s)
                       | Inr t \<Rightarrow>
                           (case env_wait env i k of
                              Some waitErr \<Rightarrow> (NDone (Inl waitErr), set_trace i t s)
                            | None \<Rightarrow> (NAttempt (Suc k), set_trace i t s))))"

section \<open>One wave\<close>

record wave =
  w_phase :: "string \<rightharpoonup> nphase"
  w_results :: "nodeResult list"
  w_sched :: Scheduler

fun holds_slot :: "nphase option \<Rightarrow> bool" where
  "holds_slot (Some (NAttempt k)) = True"
| "holds_slot (Some (NExec k)) = True"
| "holds_slot _ = False"

definition active_count :: "string list \<Rightarrow> wave \<Rightarrow> nat" where
  "active_count ids w = length (filter (\<lambda>i. holds_slot (w_phase w i)) ids)"

definition parallelism :: "Scheduler \<Rightarrow> string list \<Rightarrow> nat" where
  "parallelism s readyIDs =
     (if s_maxParallel s \<le> 0 \<or> int (length readyIDs) < s_maxParallel s then length readyIDs
      else nat (s_maxParallel s))"

text \<open>A goroutine that ends releases its slot and sends its result.\<close>

definition node_result :: "sched_env \<Rightarrow> Node \<Rightarrow> gerr + fields \<Rightarrow> nodeResult" where
  "node_result env node r =
     \<lparr>nr_id = n_ID node, nr_node = Some node, nr_outputs = (case r of Inl e \<Rightarrow> Map.empty | Inr out \<Rightarrow> out),
      nr_err = (case r of Inl e \<Rightarrow> Some e | Inr out \<Rightarrow> None), nr_skipped = False,
      nr_finishedAt = env_finished_at env (n_ID node)\<rparr>"

definition settle :: "sched_env \<Rightarrow> Node \<Rightarrow> nphase \<times> Scheduler \<Rightarrow> wave \<Rightarrow> wave" where
  "settle env node ps w =
     (let w1 = w\<lparr>w_phase := (w_phase w)(n_ID node \<mapsto> fst ps), w_sched := snd ps\<rparr>
      in case fst ps of
           NDone r \<Rightarrow> w1\<lparr>w_results := w_results w @ [node_result env node r]\<rparr>
         | _ \<Rightarrow> w1)"

definition wave_step :: "sched_env \<Rightarrow> stateView \<Rightarrow> nat \<Rightarrow> string list \<Rightarrow> string \<Rightarrow> wave \<Rightarrow> wave" where
  "wave_step env view par ids i w =
     (case Plan_Node (s_plan (w_sched w)) i of
        None \<Rightarrow> w
      | Some node \<Rightarrow>
          (case w_phase w i of
             Some NWaiting \<Rightarrow>
               (case env_semaphore env i of
                  Some e \<Rightarrow> settle env node (NDone (Inl e), w_sched w) w
                | None \<Rightarrow> if active_count ids w < par then settle env node (NAttempt 1, w_sched w) w else w)
           | Some (NAttempt k) \<Rightarrow> settle env node (node_begin env node k (w_sched w)) w
           | Some (NExec k) \<Rightarrow>
               settle env node (node_finish env view
                 (resolveRawInputs (env_fmt env) (n_Properties node) (view_GetSnapshot (Some view))) node k (w_sched w)) w
           | _ \<Rightarrow> w))"

definition is_skipped :: "Scheduler \<Rightarrow> (string \<rightharpoonup> int) \<Rightarrow> string \<Rightarrow> bool" where
  "is_skipped s activeInputs i \<longleftrightarrow> map_get 0 activeInputs i = 0 \<and> 0 < Plan_InDegree (s_plan s) i"

text \<open>The launching loop: a missing or skipped node has its result at once, the others wait for a slot.\<close>

definition launch :: "sched_env \<Rightarrow> (string \<rightharpoonup> int) \<Rightarrow> string \<Rightarrow> wave \<Rightarrow> wave" where
  "launch env activeInputs i w =
     (case Plan_Node (s_plan (w_sched w)) i of
        None \<Rightarrow> w\<lparr>w_results := w_results w @ [\<lparr>nr_id = i, nr_node = None, nr_outputs = Map.empty,
           nr_err = Some (EMsg (''compiled node '' @ i @ '' is missing'')), nr_skipped = False,
           nr_finishedAt = env_finished_at env i\<rparr>]\<rparr>
      | Some node \<Rightarrow>
          if is_skipped (w_sched w) activeInputs i
          then w\<lparr>w_results := w_results w @ [\<lparr>nr_id = i, nr_node = Some node, nr_outputs = Map.empty, nr_err = None,
                 nr_skipped = True, nr_finishedAt = env_finished_at env i\<rparr>]\<rparr>
          else w\<lparr>w_phase := (w_phase w)(i \<mapsto> NWaiting)\<rparr>)"

definition start_wave :: "sched_env \<Rightarrow> string list \<Rightarrow> (string \<rightharpoonup> int) \<Rightarrow> Scheduler \<Rightarrow> wave" where
  "start_wave env readyIDs activeInputs s =
     fold (launch env activeInputs) readyIDs \<lparr>w_phase = Map.empty, w_results = [], w_sched = s\<rparr>"

definition run_wave :: "sched_env \<Rightarrow> string list \<Rightarrow> string list \<Rightarrow> (string \<rightharpoonup> int) \<Rightarrow> Scheduler \<Rightarrow> wave" where
  "run_wave env schedule readyIDs activeInputs s =
     fold (wave_step env (View (s_blackboard s)) (parallelism s readyIDs) readyIDs) schedule
       (start_wave env readyIDs activeInputs s)"

text \<open>
  The collecting loop waits for as many results as nodes were started. A schedule that stops before
  is not a run of the wave: \<open>None\<close>.
\<close>

definition executeWave :: "sched_env \<Rightarrow> string list \<Rightarrow> string list \<Rightarrow> (string \<rightharpoonup> int) \<Rightarrow> Scheduler
    \<Rightarrow> (nodeResult list \<times> Scheduler) option" where
  "executeWave env schedule readyIDs activeInputs s =
     (let w = run_wave env schedule readyIDs activeInputs s
      in if length (w_results w) < length readyIDs then None else Some (w_results w, w_sched w))"

section \<open>Merging the results of a wave\<close>

definition id_key :: "Plan \<Rightarrow> string \<Rightarrow> int \<times> string" where
  "id_key p i = (Plan_NodeOrder p i, i)"

definition sortNodeIDs :: "Scheduler \<Rightarrow> string list \<Rightarrow> string list" where
  "sortNodeIDs s ids = sort_key (id_key (s_plan s)) ids"

definition sortResults :: "Scheduler \<Rightarrow> nodeResult list \<Rightarrow> nodeResult list" where
  "sortResults s results = sort_key (\<lambda>r. id_key (s_plan s) (nr_id r)) results"

text \<open>
  \<^verbatim>\<open>recordResult\<close> fills in the node id of a suspension that has none, in the error object itself:
  the first suspension in the chain.
\<close>

fun name_suspension :: "string \<Rightarrow> gerr \<Rightarrow> gerr \<times> bool" where
  "name_suspension i (ESuspension su c) =
     (ESuspension (if su_NodeID su = [] then su\<lparr>su_NodeID := i\<rparr> else su) c, True)"
| "name_suspension i (EWrap p e) = (let (e', b) = name_suspension i e in (EWrap p e', b))"
| "name_suspension i (ENote e p) = (let (e', b) = name_suspension i e in (ENote e' p, b))"
| "name_suspension i (EJoin e f) =
     (let (e', b) = name_suspension i e
      in if b then (EJoin e' f, True) else let (f', b') = name_suspension i f in (EJoin e' f', b'))"
| "name_suspension i (EToolSuspension t (Some e)) = (let (e', b) = name_suspension i e in (EToolSuspension t (Some e'), b))"
| "name_suspension i (ERun r (Some e)) = (let (e', b) = name_suspension i e in (ERun r (Some e'), b))"
| "name_suspension i (EExec x e) = (let (e', b) = name_suspension i e in (EExec x e', b))"
| "name_suspension i e = (e, False)"

definition finish_status :: "gerr \<Rightarrow> string \<times> gerr" where
  "finish_status e =
     (case errors_As as_suspension e of
        Some su \<Rightarrow> (NodeStatusSuspended, ESuspension su None)
      | None \<Rightarrow> if errors_Is e ECanceled then (NodeStatusCanceled, e)
                else if errors_Is e EDeadline then (NodeStatusTimedOut, e)
                else (NodeStatusFailed, e))"

definition store_trace :: "string \<Rightarrow> Scheduler \<Rightarrow> gerr + NodeTrace \<Rightarrow> gerr option \<times> Scheduler" where
  "store_trace i s r = (case r of Inl e \<Rightarrow> (Some e, s) | Inr t \<Rightarrow> (None, set_trace i t s))"

definition recordResult :: "sched_env \<Rightarrow> nodeResult \<Rightarrow> Scheduler \<Rightarrow> gerr option \<times> nodeResult \<times> Scheduler" where
  "recordResult env result s =
     (let i = nr_nodeID result; ty = nr_nodeType result; t = trace_of s i; fin = nr_finishedAt result
      in if nr_skipped result
         then let (e, s') = store_trace i s (finishNodeTrace i ty NodeStatusSkipped None (env_now env) fin t) in (e, result, s')
         else case nr_err result of
                None \<Rightarrow> let (e, s') = store_trace i s (markNodeSuccess i ty (env_now env) fin t) in (e, result, s')
              | Some err0 \<Rightarrow>
                  let err = fst (name_suspension (nr_id result) err0);
                      (status, shown) = finish_status err;
                      (e, s') = store_trace i s (finishNodeTrace i ty status (Some shown) (env_now env) fin t)
                  in (e, result\<lparr>nr_err := Some err\<rparr>, s'))"

definition join_err :: "gerr option \<Rightarrow> gerr option \<Rightarrow> gerr option" where
  "join_err a b = (case (a, b) of (None, x) \<Rightarrow> x | (x, None) \<Rightarrow> x | (Some x, Some y) \<Rightarrow> Some (EJoin x y))"

definition process_result :: "sched_env \<Rightarrow> nodeResult \<Rightarrow> Scheduler \<Rightarrow> nodeResult \<times> Scheduler" where
  "process_result env r0 s =
     (let r1 = (case nr_node r0 of
                  Some node \<Rightarrow> if nr_err r0 = None \<and> \<not> nr_skipped r0
                    then (case validateStateWrites node (nr_outputs r0) of Inl e \<Rightarrow> r0\<lparr>nr_err := Some e\<rparr> | Inr _ \<Rightarrow> r0)
                    else r0
                | None \<Rightarrow> r0);
          (r2, s2) = (case nr_node r1 of
                  Some node \<Rightarrow> if nr_err r1 = None \<and> \<not> nr_skipped r1
                    then (case applyResultDelta (env_clock env) (nr_id r1) node (nr_outputs r1) (s_blackboard s) of
                            Inl e \<Rightarrow> (r1\<lparr>nr_err := Some e\<rparr>, s)
                          | Inr b \<Rightarrow> (r1, s\<lparr>s_blackboard := b\<rparr>))
                    else (r1, s)
                | None \<Rightarrow> (r1, s));
          (traceErr, r3, s3) = recordResult env r2 s2
      in (r3\<lparr>nr_err := join_err (nr_err r3) traceErr\<rparr>, s3))"

fun process_results :: "sched_env \<Rightarrow> nodeResult list \<Rightarrow> Scheduler \<Rightarrow> nodeResult list \<times> Scheduler" where
  "process_results env [] s = ([], s)"
| "process_results env (r # rs) s =
     (let (r', s1) = process_result env r s; (rs', s2) = process_results env rs s1 in (r' # rs', s2))"

text \<open>\<open>ctxErr k\<close> is what \<^verbatim>\<open>ctx.Err()\<close> answers when the loop is at result \<open>k\<close>.\<close>

fun selectWaveError :: "(nat \<Rightarrow> gerr option) \<Rightarrow> nat \<Rightarrow> nodeResult list \<Rightarrow> gerr option" where
  "selectWaveError ctxErr k [] = ctxErr k"
| "selectWaveError ctxErr k (r # rs) =
     (case nr_err r of
        None \<Rightarrow> selectWaveError ctxErr (Suc k) rs
      | Some err \<Rightarrow>
          (case errors_As as_suspension err of
             Some su \<Rightarrow> Some (ESuspension su None)
           | None \<Rightarrow>
               if (case ctxErr k of None \<Rightarrow> False | Some c \<Rightarrow> errors_Is err c) then selectWaveError ctxErr (Suc k) rs
               else Some (EWrap (''node ['' @ nr_id r @ ''] execution error: '') err)))"

section \<open>Advancing the graph\<close>

definition branch_of :: "fields \<Rightarrow> string" where
  "branch_of outputs = (case outputs ''_branch'' of Some (GString b) \<Rightarrow> b | _ \<Rightarrow> [])"

fun advance_edges :: "bool \<Rightarrow> string \<Rightarrow> bool \<Rightarrow> Edge list \<Rightarrow> (string \<rightharpoonup> int) \<Rightarrow> (string \<rightharpoonup> int) \<Rightarrow> string list
    \<Rightarrow> (string \<rightharpoonup> int) \<times> (string \<rightharpoonup> int) \<times> string list" where
  "advance_edges router activeBranch sourceExecuted [] deg act ready = (deg, act, ready)"
| "advance_edges router activeBranch sourceExecuted (e # es) deg act ready =
     (let edgeActive = (sourceExecuted \<and> \<not> (router \<and> activeBranch \<noteq> [] \<and> e_SourceHandle e \<noteq> activeBranch));
          act' = (if edgeActive then act(e_Target e \<mapsto> map_get 0 act (e_Target e) + 1) else act);
          d = map_get 0 deg (e_Target e) - 1
      in advance_edges router activeBranch sourceExecuted es (deg(e_Target e \<mapsto> d)) act'
           (if d = 0 then ready @ [e_Target e] else ready))"

text \<open>The ready set is a list in which an element may repeat; it is read through \<^const>\<open>remdups\<close>.\<close>

definition advanceDownstream :: "Plan \<Rightarrow> string \<Rightarrow> fields \<Rightarrow> bool
    \<Rightarrow> (string \<rightharpoonup> int) \<Rightarrow> (string \<rightharpoonup> int) \<Rightarrow> string list \<Rightarrow> (string \<rightharpoonup> int) \<times> (string \<rightharpoonup> int) \<times> string list" where
  "advanceDownstream p i outputs sourceExecuted deg act ready =
     advance_edges (case Plan_Node p i of None \<Rightarrow> False | Some n \<Rightarrow> n_Type n = ''router'') (branch_of outputs)
       sourceExecuted (Plan_Outgoing p i) deg act ready"

fun advance_results :: "Plan \<Rightarrow> nodeResult list \<Rightarrow> (string \<rightharpoonup> int) \<Rightarrow> (string \<rightharpoonup> int) \<Rightarrow> string list
    \<Rightarrow> (string \<rightharpoonup> int) \<times> (string \<rightharpoonup> int) \<times> string list" where
  "advance_results p [] deg act ready = (deg, act, ready)"
| "advance_results p (r # rs) deg act ready =
     (let (deg', act', ready') = advanceDownstream p (nr_id r) (nr_outputs r) (\<not> nr_skipped r) deg act ready
      in advance_results p rs deg' act' ready')"

section \<open>The main loop\<close>

text \<open>
  The state between two waves. \<open>lp_order\<close> lists the nodes merged so far, in order; the code does not
  keep it, the statements below use it.
\<close>

record loop_state =
  lp_degree :: "string \<rightharpoonup> int"
  lp_active :: "string \<rightharpoonup> int"
  lp_ready :: "string list"
  lp_sched :: Scheduler
  lp_wave :: nat
  lp_order :: "string list"

text \<open>
  How a run ends: with the code's return value; or, in the model only, because a schedule did not
  complete its wave or the fuel ran out.
\<close>

datatype run_end = Finished "gerr option" | ScheduleIncomplete | OutOfFuel

definition persist :: "sched_env \<Rightarrow> 64 word \<Rightarrow> Blackboard \<Rightarrow> gerr option" where
  "persist env versionBeforeWave b = (case env_hook env of
      None \<Rightarrow> None
    | Some hook \<Rightarrow> if versionBeforeWave < bb_version b
        then map_option (EWrap ''persist workflow state commit: '') (hook (Commit b)) else None)"

text \<open>One iteration: \<open>Inl\<close> when the loop returns from its body.\<close>

definition loop_body :: "sched_env \<Rightarrow> string list \<Rightarrow> loop_state \<Rightarrow> (run_end \<times> loop_state) + loop_state" where
  "loop_body env schedule l =
     (let s = lp_sched l
      in case executeWave env schedule (lp_ready l) (lp_active l) s of
           None \<Rightarrow> Inl (ScheduleIncomplete, l)
         | Some (collected, s1) \<Rightarrow>
             let (results, s2) = process_results env (sortResults s1 collected) s1;
                 l2 = l\<lparr>lp_sched := s2, lp_wave := Suc (lp_wave l), lp_order := lp_order l @ map nr_id results\<rparr>
             in case persist env (bb_version (s_blackboard s)) (s_blackboard s2) of
                  Some e \<Rightarrow> Inl (Finished (Some e), l2)
                | None \<Rightarrow>
                    (case selectWaveError (env_wave_ctx env (lp_wave l)) 0 results of
                       Some e \<Rightarrow> Inl (Finished (Some e), l2)
                     | None \<Rightarrow>
                         let (deg, act, nextReady) = advance_results (s_plan s2) results (lp_degree l) (lp_active l) []
                         in Inr (l2\<lparr>lp_degree := deg, lp_active := act, lp_ready := sortNodeIDs s2 (remdups nextReady)\<rparr>)))"

fun first_stalled :: "NodeTrace list \<Rightarrow> gerr option" where
  "first_stalled [] = None"
| "first_stalled (t # ts) =
     (if nt_Status t \<noteq> NodeStatusSuccess \<and> nt_Status t \<noteq> NodeStatusSkipped
      then Some (EMsg (''workflow execution stalled at node '' @ nt_NodeID t @ '' with status '' @ nt_Status t))
      else first_stalled ts)"

text \<open>\<^verbatim>\<open>for len(readyIDs) > 0\<close>; \<open>schedules n\<close> is the interleaving of wave \<open>n\<close>.\<close>

fun wave_loop :: "nat \<Rightarrow> sched_env \<Rightarrow> (nat \<Rightarrow> string list) \<Rightarrow> loop_state \<Rightarrow> run_end \<times> loop_state" where
  "wave_loop fuel env schedules l =
     (if lp_ready l = [] then (Finished (first_stalled (GetTraces (lp_sched l))), l)
      else case fuel of
             0 \<Rightarrow> (OutOfFuel, l)
           | Suc fuel' \<Rightarrow>
               (case loop_body env (schedules (lp_wave l)) l of
                  Inl r \<Rightarrow> r
                | Inr l' \<Rightarrow> wave_loop fuel' env schedules l'))"

declare wave_loop.simps [simp del]

text \<open>
  A wave merges at least one node and no node twice, so one round per node, and one for a checkpoint
  that names an unknown current node, is enough fuel.
\<close>

definition executePrepared :: "sched_env \<Rightarrow> (nat \<Rightarrow> string list) \<Rightarrow> (string \<rightharpoonup> int) \<Rightarrow> (string \<rightharpoonup> int) \<Rightarrow> string list
    \<Rightarrow> Scheduler \<Rightarrow> run_end \<times> loop_state" where
  "executePrepared env schedules currentInDegree activeInputs readyIDs s =
     wave_loop (Suc (length (p_nodes (s_plan s)))) env schedules
       \<lparr>lp_degree = currentInDegree, lp_active = activeInputs, lp_ready = sortNodeIDs s (remdups readyIDs),
        lp_sched = s, lp_wave = 0, lp_order = []\<rparr>"

definition root_ids :: "Plan \<Rightarrow> string list" where
  "root_ids p = filter (\<lambda>i. Plan_InDegree p i = 0) (map n_ID (p_nodes p))"

definition Execute :: "sched_env \<Rightarrow> (nat \<Rightarrow> string list) \<Rightarrow> fields \<Rightarrow> Scheduler \<Rightarrow> run_end \<times> loop_state" where
  "Execute env schedules initialInputs s =
     (let b = snd (ApplyDelta (env_clock env (bb_version (s_blackboard s))) ''start'' initialInputs (s_blackboard s));
          roots = root_ids (s_plan s)
      in executePrepared env schedules (p_inDegree (s_plan s)) (fold (\<lambda>i m. m(i \<mapsto> 1)) roots Map.empty) roots
           (s\<lparr>s_blackboard := b\<rparr>))"

section \<open>Checkpoints\<close>

record WorkflowCheckpoint =
  ck_CurrentNodeID :: string
  ck_Blackboard :: bb_state
  ck_StateVersion :: "64 word"
  ck_Traces :: "NodeTrace list"
  ck_SuspendedAt :: int
  ck_Reason :: string
  ck_ResumeToken :: string
  ck_Metadata :: "(string \<times> gval) list"
  ck_RetryCurrentNode :: bool
  ck_Budget :: BudgetSnapshot

definition GetBudgetSnapshot :: "Scheduler \<Rightarrow> BudgetSnapshot" where
  "GetBudgetSnapshot s = (case s_budget s of
      None \<Rightarrow> \<lparr>bs_NodeExecutions = 0, bs_Usage = zero_usage, bs_Reserved = zero_usage\<rparr>
    | Some t \<Rightarrow> Snapshot t)"

definition GetCheckpoint :: "int \<Rightarrow> WorkflowSuspension option \<Rightarrow> Scheduler \<Rightarrow> WorkflowCheckpoint" where
  "GetCheckpoint now suspension s =
     \<lparr>ck_CurrentNodeID = (case suspension of None \<Rightarrow> [] | Some su \<Rightarrow> su_NodeID su),
      ck_Blackboard = GetSnapshot (s_blackboard s), ck_StateVersion = bb_version (s_blackboard s),
      ck_Traces = GetTraces s, ck_SuspendedAt = now,
      ck_Reason = (case suspension of None \<Rightarrow> [] | Some su \<Rightarrow> su_Reason su),
      ck_ResumeToken = (case suspension of None \<Rightarrow> [] | Some su \<Rightarrow> su_ResumeToken su),
      ck_Metadata = (case suspension of None \<Rightarrow> [] | Some su \<Rightarrow> su_Metadata su),
      ck_RetryCurrentNode = (case suspension of None \<Rightarrow> False
        | Some su \<Rightarrow> map_of (su_Metadata su) ''approval_request_id'' \<noteq> None),
      ck_Budget = GetBudgetSnapshot s\<rparr>"

definition replayDownstream :: "Scheduler \<Rightarrow> string \<Rightarrow> bool \<Rightarrow> (string \<rightharpoonup> int) \<Rightarrow> (string \<rightharpoonup> int) \<Rightarrow> string list
    \<Rightarrow> (string \<rightharpoonup> int) \<times> (string \<rightharpoonup> int) \<times> string list" where
  "replayDownstream s i sourceExecuted deg act ready =
     advanceDownstream (s_plan s) i (map_get Map.empty (GetSnapshot (s_blackboard s)) i) sourceExecuted deg act ready"

fun replay_nodes :: "Scheduler \<Rightarrow> (string \<rightharpoonup> NodeTrace) \<Rightarrow> string list \<Rightarrow> (string \<rightharpoonup> int) \<Rightarrow> (string \<rightharpoonup> int) \<Rightarrow> string list
    \<Rightarrow> (string \<rightharpoonup> int) \<times> (string \<rightharpoonup> int) \<times> string list" where
  "replay_nodes s terminal [] deg act ready = (deg, act, ready)"
| "replay_nodes s terminal (i # is) deg act ready =
     (case terminal i of
        None \<Rightarrow> replay_nodes s terminal is deg act ready
      | Some t \<Rightarrow>
          (let (deg', act', ready') = replayDownstream s i (nt_Status t = NodeStatusSuccess) deg act ready
           in replay_nodes s terminal is deg' act' ready'))"

definition terminal_traces :: "NodeTrace list \<Rightarrow> (string \<rightharpoonup> NodeTrace)" where
  "terminal_traces ts = fold (\<lambda>t m. if nt_Status t = NodeStatusSuccess \<or> nt_Status t = NodeStatusSkipped
     then m(nt_NodeID t \<mapsto> t) else m) ts Map.empty"

text \<open>The ready ids come from a Go map; their order is fixed by the sort that follows.\<close>

definition ExecuteFromCheckpoint :: "sched_env \<Rightarrow> (nat \<Rightarrow> string list) \<Rightarrow> WorkflowCheckpoint \<Rightarrow> fields \<Rightarrow> Scheduler
    \<Rightarrow> run_end \<times> loop_state" where
  "ExecuteFromCheckpoint env schedules checkpoint resumeInputs s =
     (let s1 = loadTraces (ck_Traces checkpoint)
            (s\<lparr>s_blackboard := LoadSnapshotAtVersion (ck_Blackboard checkpoint) (ck_StateVersion checkpoint) (s_blackboard s)\<rparr>);
          terminal = terminal_traces (ck_Traces checkpoint);
          cur = ck_CurrentNodeID checkpoint;
          (deg, act, readySet) = replay_nodes s1 terminal (map n_ID (p_nodes (s_plan s1))) (p_inDegree (s_plan s1)) Map.empty [];
          ready_ids = (\<lambda>terminal readySet. sortNodeIDs s1 (filter (\<lambda>i. terminal i = None) (remdups readySet)))
      in if cur \<noteq> [] \<and> \<not> ck_RetryCurrentNode checkpoint
         then let b = snd (ApplyDelta (env_clock env (bb_version (s_blackboard s1))) cur resumeInputs (s_blackboard s1));
                  s2 = s1\<lparr>s_blackboard := b\<rparr>;
                  node = Plan_Node (s_plan s2) cur;
                  i = (case node of None \<Rightarrow> [] | Some n \<Rightarrow> n_ID n); ty = (case node of None \<Rightarrow> [] | Some n \<Rightarrow> n_Type n)
              in case markNodeSuccess i ty (env_now env) (env_now env) (trace_of s2 i) of
                   Inl e \<Rightarrow> (Finished (Some e), \<lparr>lp_degree = deg, lp_active = act, lp_ready = [], lp_sched = s2, lp_wave = 0, lp_order = []\<rparr>)
                 | Inr t \<Rightarrow>
                     let s3 = set_trace i t s2;
                         terminal' = terminal(cur \<mapsto> trace_of s3 cur);
                         (deg', act', readySet') = replayDownstream s3 cur True deg act readySet
                     in executePrepared env schedules deg' act' (ready_ids terminal' readySet') s3
         else let readySet' = (if cur \<noteq> [] \<and> cur \<notin> set readySet \<and> map_get 0 deg cur = 0 then readySet @ [cur] else readySet)
              in executePrepared env schedules deg act (ready_ids terminal readySet') s1)"

end
