(* ===== verification/Scheduler_Waves.thy ===== *)
theory Scheduler_Waves
  imports Scheduler
begin

text \<open>
  What holds of one wave under every schedule: goroutines do not influence each other, the
  semaphore bounds how many run, no interleaving gets stuck, and the step budget is respected.
\<close>

section \<open>Independent agents\<close>

text \<open>
  A system of agents: a step of one agent leaves the local state of the others alone, and either
  has no effect on its own (it is blocked) or is the step the agent would take by itself. Then the
  local states at which agents stop do not depend on the interleaving.
\<close>

locale independent_agents =
  fixes step :: "'i \<Rightarrow> 'w \<Rightarrow> 'w"
    and locl :: "'i \<Rightarrow> 'w \<Rightarrow> 'l"
    and alone_step :: "'i \<Rightarrow> 'l \<Rightarrow> 'l"
    and stopped :: "'l \<Rightarrow> bool"
    and ok :: "'w \<Rightarrow> bool"
  assumes ok_step: "ok w \<Longrightarrow> ok (step i w)"
    and own: "ok w \<Longrightarrow> locl i (step i w) = locl i w \<or> locl i (step i w) = alone_step i (locl i w)"
    and other: "ok w \<Longrightarrow> j \<noteq> i \<Longrightarrow> locl j (step i w) = locl j w"
    and stays: "stopped l \<Longrightarrow> alone_step i l = l"
begin

lemma ok_run: "ok w \<Longrightarrow> ok (fold step xs w)"
  by (induction xs arbitrary: w) (auto intro: ok_step)

lemma locl_run:
  "ok w \<Longrightarrow> \<exists>n. locl i (fold step xs w) = (alone_step i ^^ n) (locl i w)"
proof (induction xs arbitrary: w)
  case Nil
  have "locl i (fold step [] w) = (alone_step i ^^ 0) (locl i w)" by simp
  then show ?case by blast
next
  case (Cons j xs)
  then obtain n where n: "locl i (fold step xs (step j w)) = (alone_step i ^^ n) (locl i (step j w))"
    using ok_step by blast
  have "locl i (step j w) = locl i w \<or> locl i (step j w) = alone_step i (locl i w)"
    using own other Cons.prems by (cases "j = i") auto
  then have "\<exists>m. locl i (fold step xs (step j w)) = (alone_step i ^^ m) (locl i w)"
    using n by (metis funpow_Suc_right o_apply)
  then show ?case by simp
qed

lemma stopped_funpow: "stopped l \<Longrightarrow> (alone_step i ^^ n) l = l"
  by (induction n) (simp_all add: stays)

lemma interleaving_irrelevant:
  assumes "ok w" "ok w'" "locl i w = locl i w'" "stopped (locl i (fold step xs w))" "stopped (locl i (fold step ys w'))"
  shows "locl i (fold step xs w) = locl i (fold step ys w')"
proof -
  obtain m n where m: "locl i (fold step xs w) = (alone_step i ^^ m) (locl i w)"
    and n: "locl i (fold step ys w') = (alone_step i ^^ n) (locl i w)" using locl_run assms(1-3) by metis
  have "(alone_step i ^^ (m + n)) (locl i w) = (alone_step i ^^ n) (locl i (fold step xs w))"
    by (simp add: m funpow_add add.commute [of m])
  moreover have "(alone_step i ^^ (m + n)) (locl i w) = (alone_step i ^^ m) (locl i (fold step ys w'))"
    by (simp add: n funpow_add)
  ultimately show ?thesis using stopped_funpow assms(4,5) by metis
qed

end

section \<open>A goroutine alone\<close>

type_synonym local_state = "nphase option \<times> NodeTrace option \<times> nodeResult list"

definition local_of :: "string \<Rightarrow> wave \<Rightarrow> local_state" where
  "local_of i w = (w_phase w i, s_traces (w_sched w) i, filter (\<lambda>r. nr_id r = i) (w_results w))"

definition alone :: "Plan \<Rightarrow> string \<Rightarrow> local_state \<Rightarrow> wave" where
  "alone p i l = (case l of (ph, tr, rs) \<Rightarrow>
     \<lparr>w_phase = (\<lambda>j. if j = i then ph else None), w_results = rs,
      w_sched = \<lparr>s_plan = p, s_blackboard = NewBlackboard, s_traces = (\<lambda>j. if j = i then tr else None),
        s_budget = None, s_maxParallel = 0\<rparr>\<rparr>)"

definition alone_step :: "sched_env \<Rightarrow> stateView \<Rightarrow> Plan \<Rightarrow> string \<Rightarrow> local_state \<Rightarrow> local_state" where
  "alone_step env view p i l = (let w = wave_step env view 1 [] i (alone p i l)
     in (w_phase w i, s_traces (w_sched w) i, w_results w))"

definition uncapped :: "Scheduler \<Rightarrow> bool" where
  "uncapped s \<longleftrightarrow> (\<forall>t. s_budget s = Some t \<longrightarrow> bg_MaxSteps (bt_budget t) \<le> 0)"

fun stopped :: "local_state \<Rightarrow> bool" where
  "stopped (ph, tr, rs) \<longleftrightarrow> ph = None \<or> (\<exists>r. ph = Some (NDone r))"

lemma AdmitStep_uncapped:
  "bg_MaxSteps (bt_budget t) \<le> 0 \<Longrightarrow> AdmitStep t = (None, t\<lparr>bt_nodeExecutions := bt_nodeExecutions t + 1\<rparr>)"
  by (simp add: AdmitStep_def)

text \<open>The two critical sections depend on the shared state only through the node's own trace.\<close>

lemma node_begin_local:
  assumes "uncapped s" "uncapped s'" "s_traces s (n_ID node) = s_traces s' (n_ID node)"
  shows "fst (node_begin env node k s) = fst (node_begin env node k s')"
    and "s_traces (snd (node_begin env node k s)) (n_ID node) = s_traces (snd (node_begin env node k s')) (n_ID node)"
proof -
  have t: "trace_of s (n_ID node) = trace_of s' (n_ID node)" using assms(3) by (simp add: trace_of_def map_get_def)
  show "fst (node_begin env node k s) = fst (node_begin env node k s')"
    "s_traces (snd (node_begin env node k s)) (n_ID node) = s_traces (snd (node_begin env node k s')) (n_ID node)"
    using assms t unfolding node_begin_def
    by (auto simp: Let_def set_trace_def uncapped_def AdmitStep_uncapped split: sum.splits option.splits)
qed

lemma node_begin_frame:
  "j \<noteq> n_ID node \<Longrightarrow> s_traces (snd (node_begin env node k s)) j = s_traces s j"
  "s_plan (snd (node_begin env node k s)) = s_plan s"
  "s_blackboard (snd (node_begin env node k s)) = s_blackboard s"
  "s_maxParallel (snd (node_begin env node k s)) = s_maxParallel s"
  "uncapped s \<Longrightarrow> uncapped (snd (node_begin env node k s))"
  unfolding node_begin_def
  by (auto simp: Let_def set_trace_def uncapped_def AdmitStep_uncapped case_prod_beta split: sum.splits option.splits)

lemma node_finish_local:
  assumes "s_traces s (n_ID node) = s_traces s' (n_ID node)"
  shows "fst (node_finish env view inputs node k s) = fst (node_finish env view inputs node k s')"
    and "s_traces (snd (node_finish env view inputs node k s)) (n_ID node) = s_traces (snd (node_finish env view inputs node k s')) (n_ID node)"
proof -
  have t: "trace_of s (n_ID node) = trace_of s' (n_ID node)" using assms by (simp add: trace_of_def map_get_def)
  show "fst (node_finish env view inputs node k s) = fst (node_finish env view inputs node k s')"
    "s_traces (snd (node_finish env view inputs node k s)) (n_ID node) = s_traces (snd (node_finish env view inputs node k s')) (n_ID node)"
    using assms t unfolding node_finish_def
    by (auto simp: Let_def set_trace_def split: sum.splits option.splits exec_outcome.splits)
qed

lemma node_finish_frame:
  "j \<noteq> n_ID node \<Longrightarrow> s_traces (snd (node_finish env view inputs node k s)) j = s_traces s j"
  "s_plan (snd (node_finish env view inputs node k s)) = s_plan s"
  "s_blackboard (snd (node_finish env view inputs node k s)) = s_blackboard s"
  "s_maxParallel (snd (node_finish env view inputs node k s)) = s_maxParallel s"
  "s_budget (snd (node_finish env view inputs node k s)) = s_budget s"
  unfolding node_finish_def
  by (auto simp: Let_def set_trace_def split: sum.splits option.splits exec_outcome.splits)

section \<open>One micro-step\<close>

definition plan_named :: "Plan \<Rightarrow> bool" where
  "plan_named p \<longleftrightarrow> (\<forall>i n. Plan_Node p i = Some n \<longrightarrow> n_ID n = i)"

lemma settle_simps:
  "w_phase (settle env node ps w) = (w_phase w)(n_ID node \<mapsto> fst ps)"
  "w_sched (settle env node ps w) = snd ps"
  "w_results (settle env node ps w) = w_results w @ (case fst ps of NDone r \<Rightarrow> [node_result env node r] | _ \<Rightarrow> [])"
  by (simp_all add: settle_def Let_def split: nphase.splits)

lemma node_result_id [simp]: "nr_id (node_result env node r) = n_ID node"
  by (simp add: node_result_def)

text \<open>
  Every effective step is one of these: the node's goroutine moves to a new phase, the scheduler's
  plan, blackboard and parallelism stay, and other traces stay.
\<close>

inductive moves :: "sched_env \<Rightarrow> stateView \<Rightarrow> string \<Rightarrow> wave \<Rightarrow> nphase \<times> Scheduler \<Rightarrow> bool" for env view i w where
  canceled: "w_phase w i = Some NWaiting \<Longrightarrow> env_semaphore env i = Some e \<Longrightarrow> moves env view i w (NDone (Inl e), w_sched w)"
| acquired: "w_phase w i = Some NWaiting \<Longrightarrow> env_semaphore env i = None \<Longrightarrow> moves env view i w (NAttempt 1, w_sched w)"
| begun: "w_phase w i = Some (NAttempt k) \<Longrightarrow> Plan_Node (s_plan (w_sched w)) i = Some node
    \<Longrightarrow> moves env view i w (node_begin env node k (w_sched w))"
| ended: "w_phase w i = Some (NExec k) \<Longrightarrow> Plan_Node (s_plan (w_sched w)) i = Some node
    \<Longrightarrow> moves env view i w (node_finish env view
        (resolveRawInputs (env_fmt env) (n_Properties node) (view_GetSnapshot (Some view))) node k (w_sched w))"

lemma wave_step_cases:
  obtains (idle) "wave_step env view par ids i w = w"
    | (moved) node ps where "Plan_Node (s_plan (w_sched w)) i = Some node" "moves env view i w ps"
        "wave_step env view par ids i w = settle env node ps w"
        "w_phase w i = Some NWaiting \<Longrightarrow> env_semaphore env i = None \<Longrightarrow> active_count ids w < par"
proof (cases "Plan_Node (s_plan (w_sched w)) i")
  case None
  then have "wave_step env view par ids i w = w" by (simp add: wave_step_def)
  then show ?thesis by (rule idle)
next
  case (Some node)
  show ?thesis
  proof (cases "w_phase w i")
    case None
    then have "wave_step env view par ids i w = w" using Some by (simp add: wave_step_def)
    then show ?thesis by (rule idle)
  next
    case (Some ph)
    note P = \<open>Plan_Node (s_plan (w_sched w)) i = Some node\<close>
    show ?thesis
    proof (cases ph)
      case NWaiting
      show ?thesis
      proof (cases "env_semaphore env i")
        case None
        show ?thesis
        proof (cases "active_count ids w < par")
          case True
          have "moves env view i w (NAttempt 1, w_sched w)" using moves.acquired Some NWaiting None by simp
          then show ?thesis by (rule moved [OF P]) (use P Some NWaiting None True in \<open>simp_all add: wave_step_def\<close>)
        next
          case False
          then have "wave_step env view par ids i w = w" using P Some NWaiting None by (simp add: wave_step_def)
          then show ?thesis by (rule idle)
        qed
      next
        case (Some e)
        have "moves env view i w (NDone (Inl e), w_sched w)" using moves.canceled \<open>w_phase w i = Some ph\<close> NWaiting Some by simp
        then show ?thesis by (rule moved [OF P]) (use P \<open>w_phase w i = Some ph\<close> NWaiting Some in \<open>simp_all add: wave_step_def\<close>)
      qed
    next
      case (NAttempt k)
      have "moves env view i w (node_begin env node k (w_sched w))" using moves.begun P Some NAttempt by simp
      then show ?thesis by (rule moved [OF P]) (use P Some NAttempt in \<open>simp_all add: wave_step_def\<close>)
    next
      case (NExec k)
      have "moves env view i w (node_finish env view
          (resolveRawInputs (env_fmt env) (n_Properties node) (view_GetSnapshot (Some view))) node k (w_sched w))"
        using moves.ended P Some NExec by simp
      then show ?thesis by (rule moved [OF P]) (use P Some NExec in \<open>simp_all add: wave_step_def\<close>)
    next
      case (NDone r)
      then have "wave_step env view par ids i w = w" using P Some by (simp add: wave_step_def)
      then show ?thesis by (rule idle)
    qed
  qed
qed

lemma moves_frame:
  assumes "moves env view i w ps" "plan_named (s_plan (w_sched w))"
  shows "s_plan (snd ps) = s_plan (w_sched w)" "s_blackboard (snd ps) = s_blackboard (w_sched w)"
    "s_maxParallel (snd ps) = s_maxParallel (w_sched w)"
    "j \<noteq> i \<Longrightarrow> s_traces (snd ps) j = s_traces (w_sched w) j"
    "uncapped (w_sched w) \<Longrightarrow> uncapped (snd ps)"
  using assms
  by (auto elim!: moves.cases simp: node_begin_frame node_finish_frame plan_named_def)
    (auto simp: uncapped_def node_finish_frame)

lemma wave_step_frame:
  assumes "plan_named (s_plan (w_sched w))"
  shows "s_plan (w_sched (wave_step env view par ids i w)) = s_plan (w_sched w)"
    "s_blackboard (w_sched (wave_step env view par ids i w)) = s_blackboard (w_sched w)"
    "s_maxParallel (w_sched (wave_step env view par ids i w)) = s_maxParallel (w_sched w)"
    "uncapped (w_sched w) \<Longrightarrow> uncapped (w_sched (wave_step env view par ids i w))"
    "j \<noteq> i \<Longrightarrow> local_of j (wave_step env view par ids i w) = local_of j w"
  using moves_frame [OF _ assms] assms
  by (cases rule: wave_step_cases [of env view par ids i w];
      auto simp: settle_simps local_of_def plan_named_def split: nphase.splits)+

lemma wave_step_own:
  assumes n: "plan_named (s_plan (w_sched w))" and u: "uncapped (w_sched w)"
  shows "local_of i (wave_step env view par ids i w) = local_of i w
    \<or> local_of i (wave_step env view par ids i w) = alone_step env view (s_plan (w_sched w)) i (local_of i w)"
proof (cases rule: wave_step_cases [of env view par ids i w])
  case idle
  then show ?thesis by simp
next
  case (moved node ps)
  let ?a = "alone (s_plan (w_sched w)) i (local_of i w)"
  have a: "w_phase ?a i = w_phase w i" "s_traces (w_sched ?a) i = s_traces (w_sched w) i" "s_plan (w_sched ?a) = s_plan (w_sched w)"
    "w_results ?a = filter (\<lambda>r. nr_id r = i) (w_results w)" "uncapped (w_sched ?a)"
    by (auto simp: alone_def local_of_def uncapped_def)
  have i: "n_ID node = i" using n moved(1) by (auto simp: plan_named_def)
  have "\<exists>ps'. wave_step env view 1 [] i ?a = settle env node ps' ?a \<and> fst ps' = fst ps
      \<and> s_traces (snd ps') i = s_traces (snd ps) i"
    using moved(2)
  proof cases
    case (canceled e)
    then show ?thesis using moved(1) a by (simp add: wave_step_def) blast
  next
    case acquired
    then show ?thesis using moved(1) a by (simp add: wave_step_def active_count_def) blast
  next
    case (begun k node')
    then have "node' = node" using moved(1) by simp
    then show ?thesis
      using begun a moved(1) node_begin_local [OF a(5) u, of node env k] i
      by (intro exI [of _ "node_begin env node k (w_sched ?a)"]) (simp add: wave_step_def)
  next
    case (ended k node')
    then have "node' = node" using moved(1) by simp
    then show ?thesis
      using ended a moved(1) node_finish_local [of "w_sched ?a" node "w_sched w" env view _ k] i
      by (intro exI [of _ "node_finish env view (resolveRawInputs (env_fmt env) (n_Properties node)
          (view_GetSnapshot (Some view))) node k (w_sched ?a)"]) (simp add: wave_step_def)
  qed
  then obtain ps' where "wave_step env view 1 [] i ?a = settle env node ps' ?a" "fst ps' = fst ps"
    "s_traces (snd ps') i = s_traces (snd ps) i" by blast
  then have "local_of i (wave_step env view par ids i w) = alone_step env view (s_plan (w_sched w)) i (local_of i w)"
    unfolding alone_step_def Let_def
    by (simp add: moved(3) settle_simps a i) (simp add: local_of_def settle_simps i split: nphase.splits)
  then show ?thesis by blast
qed

lemma alone_stopped: "stopped l \<Longrightarrow> alone_step env view p i l = l"
  by (cases l) (auto simp: alone_step_def alone_def wave_step_def Let_def split: option.splits)

interpretation goroutines: independent_agents "wave_step env view par ids" local_of "alone_step env view p" stopped
    "\<lambda>w. s_plan (w_sched w) = p \<and> plan_named p \<and> uncapped (w_sched w)" for env view par ids p
proof unfold_locales
  fix w :: wave and i j
  assume ok: "s_plan (w_sched w) = p \<and> plan_named p \<and> uncapped (w_sched w)"
  then show "s_plan (w_sched (wave_step env view par ids i w)) = p \<and> plan_named p \<and> uncapped (w_sched (wave_step env view par ids i w))"
    using wave_step_frame(1,4) by auto
  show "local_of i (wave_step env view par ids i w) = local_of i w
      \<or> local_of i (wave_step env view par ids i w) = alone_step env view p i (local_of i w)"
    using wave_step_own [of w i] ok by auto
  show "j \<noteq> i \<Longrightarrow> local_of j (wave_step env view par ids i w) = local_of j w"
    using wave_step_frame(5) ok by auto
next
  show "stopped l \<Longrightarrow> alone_step env view p i l = l" for l i by (rule alone_stopped)
qed

section \<open>Results of a wave\<close>

text \<open>
  A ready node has exactly one result when it is missing, skipped or finished, and none before;
  nodes outside the wave have none.
\<close>

definition wave_inv :: "string list \<Rightarrow> wave \<Rightarrow> bool" where
  "wave_inv ids w \<longleftrightarrow> (\<forall>i. length (filter (\<lambda>r. nr_id r = i) (w_results w)) =
     (if i \<in> set ids \<and> stopped (local_of i w) then 1 else 0))
     \<and> (\<forall>i. i \<notin> set ids \<longrightarrow> w_phase w i = None)
     \<and> (\<forall>i ph. w_phase w i = Some ph \<longrightarrow> Plan_Node (s_plan (w_sched w)) i \<noteq> None)"

lemma launch_frame: "w_sched (launch env act i w) = w_sched w"
  by (simp add: launch_def split: option.splits)

lemma launch_inv:
  assumes "wave_inv ids w" "plan_named (s_plan (w_sched w))" "i \<notin> set ids"
  shows "wave_inv (ids @ [i]) (launch env act i w)"
  unfolding wave_inv_def
proof (intro conjI allI impI)
  fix j
  have l: "length (filter (\<lambda>r. nr_id r = j) (w_results w)) = (if j \<in> set ids \<and> stopped (local_of j w) then 1 else 0)"
    "j \<notin> set ids \<Longrightarrow> w_phase w j = None" using assms(1) by (auto simp: wave_inv_def)
  show "length (filter (\<lambda>r. nr_id r = j) (w_results (launch env act i w))) =
      (if j \<in> set (ids @ [i]) \<and> stopped (local_of j (launch env act i w)) then 1 else 0)"
    using l assms(3) by (auto simp: launch_def local_of_def split: option.splits)
  show "w_phase (launch env act i w) j = None" if "j \<notin> set (ids @ [i])"
    using l(2) that by (auto simp: launch_def split: option.splits)
  show "Plan_Node (s_plan (w_sched (launch env act i w))) j \<noteq> None" if "w_phase (launch env act i w) j = Some ph" for ph
    using that assms(1) by (auto simp: launch_def wave_inv_def split: option.splits if_splits)
qed

lemma start_wave_inv:
  assumes "distinct ids" "plan_named (s_plan s)"
  shows "wave_inv ids (start_wave env ids act s)" "w_sched (start_wave env ids act s) = s"
proof -
  have "wave_inv (pre @ ids) (fold (launch env act) ids w) \<and> w_sched (fold (launch env act) ids w) = w_sched w"
    if "wave_inv pre w" "distinct (pre @ ids)" "plan_named (s_plan (w_sched w))" for pre w
    using that
  proof (induction ids arbitrary: pre w)
    case (Cons i ids)
    have "wave_inv (pre @ [i]) (launch env act i w)" using launch_inv [OF Cons.prems(1,3)] Cons.prems(2) by simp
    from Cons.IH [OF this] Cons.prems show ?case by (simp add: launch_frame)
  qed simp
  moreover have "wave_inv [] \<lparr>w_phase = Map.empty, w_results = [], w_sched = s\<rparr>" by (simp add: wave_inv_def)
  ultimately show "wave_inv ids (start_wave env ids act s)" "w_sched (start_wave env ids act s) = s"
    unfolding start_wave_def using assms by fastforce+
qed

lemma wave_step_inv:
  assumes inv: "wave_inv ids w" and n: "plan_named (s_plan (w_sched w))"
  shows "wave_inv ids (wave_step env view par ids' i w)"
proof (cases rule: wave_step_cases [of env view par ids' i w])
  case (moved node ps)
  have i: "n_ID node = i" using n moved(1) by (auto simp: plan_named_def)
  have ph: "w_phase w i \<noteq> None" "\<And>r. w_phase w i \<noteq> Some (NDone r)" using moved(2) by (auto elim: moves.cases)
  then have iid: "i \<in> set ids" using inv by (auto simp: wave_inv_def)
  have p: "s_plan (snd ps) = s_plan (w_sched w)" by (rule moves_frame(1) [OF moved(2) n])
  have l: "length (filter (\<lambda>r. nr_id r = j) (w_results w)) = (if j \<in> set ids \<and> stopped (local_of j w) then 1 else 0)" for j
    using inv by (simp add: wave_inv_def)
  have l': "length (filter (\<lambda>r. nr_id r = j) (w_results (settle env node ps w))) =
      (if j \<in> set ids \<and> stopped (local_of j (settle env node ps w)) then 1 else 0)" for j
  proof (cases "j = i")
    case True
    have "length (filter (\<lambda>r. nr_id r = i) (w_results w)) = 0" using l [of i] ph by (auto simp: local_of_def)
    then show ?thesis using iid i by (cases "fst ps") (simp_all add: True settle_simps local_of_def)
  next
    case False
    then show ?thesis using l [of j] i by (cases "fst ps") (simp_all add: settle_simps local_of_def)
  qed
  show ?thesis
    unfolding moved(3) wave_inv_def
    using l' inv moved(1) iid i p by (auto simp: wave_inv_def settle_simps)
qed (use inv in simp)

lemma length_by_class:
  assumes "finite S" "\<And>r. r \<in> set rs \<Longrightarrow> f r \<in> S"
  shows "length rs = (\<Sum>i\<in>S. length (filter (\<lambda>r. f r = i) rs))"
  using assms(2)
proof (induction rs)
  case (Cons r rs)
  have "(\<Sum>i\<in>S. length (filter (\<lambda>x. f x = i) (r # rs))) =
      (\<Sum>i\<in>S. (if i = f r then 1 else 0) + length (filter (\<lambda>x. f x = i) rs))"
    by (intro sum.cong) auto
  also have "\<dots> = 1 + length rs" using Cons assms(1) by (simp add: sum.distrib)
  finally show ?case by simp
qed simp

lemma sum_as_filter:
  "distinct ids \<Longrightarrow> (\<Sum>i\<in>set ids. if P i then 1 else (0 :: nat)) = length (filter P ids)"
  by (induction ids) auto

lemma wave_inv_complete:
  assumes "wave_inv ids w" "distinct ids"
  shows "length (w_results w) = length (filter (\<lambda>i. stopped (local_of i w)) ids)"
    and "length ids \<le> length (w_results w) \<longleftrightarrow> (\<forall>i\<in>set ids. stopped (local_of i w))"
proof -
  have sub: "nr_id r \<in> set ids" if "r \<in> set (w_results w)" for r
    using assms(1) that by (auto simp: wave_inv_def filter_empty_conv split: if_splits)
  have "length (w_results w) = (\<Sum>i\<in>set ids. length (filter (\<lambda>r. nr_id r = i) (w_results w)))"
    by (rule length_by_class) (use sub in auto)
  also have "\<dots> = (\<Sum>i\<in>set ids. if stopped (local_of i w) then 1 else 0)"
    using assms(1) by (intro sum.cong) (auto simp: wave_inv_def)
  also have "\<dots> = length (filter (\<lambda>i. stopped (local_of i w)) ids)"
    by (rule sum_as_filter [OF assms(2)])
  finally show l: "length (w_results w) = length (filter (\<lambda>i. stopped (local_of i w)) ids)" .
  show "length ids \<le> length (w_results w) \<longleftrightarrow> (\<forall>i\<in>set ids. stopped (local_of i w))"
    unfolding l by (metis filter_id_conv filter_False length_filter_le length_filter_less le_antisym linorder_not_le)
qed

section \<open>The semaphore\<close>

lemma count_update:
  assumes "distinct ids"
  shows "length (filter (\<lambda>j. P ((f(i := x)) j)) ids) \<le> length (filter (\<lambda>j. P (f j)) ids) + (if P (f i) then 0 else 1)"
proof -
  let ?A = "{j. P (f j)} \<inter> set ids"
  have "{j. P ((f(i := x)) j)} \<inter> set ids \<subseteq> (if P (f i) then ?A else insert i ?A)" by auto
  then have "card ({j. P ((f(i := x)) j)} \<inter> set ids) \<le> card (if P (f i) then ?A else insert i ?A)"
    by (intro card_mono) auto
  also have "\<dots> \<le> card ?A + (if P (f i) then 0 else 1)" by (simp add: card_insert_if)
  finally show ?thesis using assms by (simp add: distinct_length_filter)
qed

lemma active_count_settle:
  assumes "distinct ids" "n_ID node = i"
  shows "active_count ids (settle env node ps w) \<le> active_count ids w + (if holds_slot (w_phase w i) then 0 else 1)"
    and "\<not> holds_slot (Some (fst ps)) \<Longrightarrow> active_count ids (settle env node ps w) \<le> active_count ids w"
proof -
  show "active_count ids (settle env node ps w) \<le> active_count ids w + (if holds_slot (w_phase w i) then 0 else 1)"
    using count_update [OF assms(1), of holds_slot "w_phase w" i "Some (fst ps)"]
    by (simp add: active_count_def settle_simps assms(2) del: fun_upd_apply)
  show "active_count ids (settle env node ps w) \<le> active_count ids w" if "\<not> holds_slot (Some (fst ps))"
  proof -
    have "filter (\<lambda>j. holds_slot (((w_phase w)(i \<mapsto> fst ps)) j)) ids
        = filter (\<lambda>j. j \<noteq> i) (filter (\<lambda>j. holds_slot (w_phase w j)) ids)"
      using that by (induction ids) auto
    then show ?thesis by (simp add: active_count_def settle_simps assms(2) del: filter_filter)
  qed
qed

lemma wave_step_semaphore:
  assumes "active_count ids w \<le> par" "distinct ids" "plan_named (s_plan (w_sched w))"
  shows "active_count ids (wave_step env view par ids i w) \<le> par"
proof (cases rule: wave_step_cases [of env view par ids i w])
  case (moved node ps)
  have i: "n_ID node = i" using assms(3) moved(1) by (auto simp: plan_named_def)
  note A = active_count_settle [OF assms(2) i, where env = env and ps = ps and w = w]
  have "active_count ids (settle env node ps w) \<le> par"
    using moved(2)
  proof cases
    case (canceled e)
    then show ?thesis using A(2) assms(1) by simp
  next
    case acquired
    then show ?thesis using A(1) moved(4) by simp
  qed (use A(1) assms(1) in simp_all)
  then show ?thesis by (simp add: moved(3))
qed (use assms in simp)

section \<open>Progress\<close>

definition phase_measure :: "Plan \<Rightarrow> string \<Rightarrow> nphase option \<Rightarrow> nat" where
  "phase_measure p i ph =
     (let m = (case Plan_Node p i of None \<Rightarrow> 0 | Some n \<Rightarrow> nat (pol_maxAttempts (normalizeNodeRetryPolicy (n_Retry n))))
      in case ph of
           Some NWaiting \<Rightarrow> 2 * m + 2
         | Some (NAttempt k) \<Rightarrow> 2 * (m + 1 - k) + 1
         | Some (NExec k) \<Rightarrow> (if k \<le> m then 2 * (m + 1 - k) else 2)
         | _ \<Rightarrow> 0)"

definition wave_measure :: "string list \<Rightarrow> wave \<Rightarrow> nat" where
  "wave_measure ids w = (\<Sum>i\<leftarrow>ids. phase_measure (s_plan (w_sched w)) i (w_phase w i))"

lemma node_begin_phase:
  assumes "node_begin env node k s = (ph, s')"
  shows "ph = NExec k \<and> int k \<le> pol_maxAttempts (normalizeNodeRetryPolicy (n_Retry node)) \<or> (\<exists>r. ph = NDone r)"
  using assms unfolding node_begin_def
  by (auto simp: Let_def case_prod_beta split: sum.splits option.splits if_splits)

lemma node_finish_phase:
  assumes "node_finish env view inputs node k s = (ph, s')"
  shows "ph = NAttempt (Suc k) \<and> int k \<noteq> pol_maxAttempts (normalizeNodeRetryPolicy (n_Retry node)) \<or> (\<exists>r. ph = NDone r)"
  using assms unfolding node_finish_def
  by (auto simp: Let_def split: sum.splits option.splits if_splits exec_outcome.splits)

lemma moves_decreases:
  assumes "moves env view i w ps" "Plan_Node (s_plan (w_sched w)) i = Some node"
  shows "phase_measure (s_plan (w_sched w)) i (Some (fst ps)) < phase_measure (s_plan (w_sched w)) i (w_phase w i)"
proof -
  have m: "1 \<le> pol_maxAttempts (normalizeNodeRetryPolicy (n_Retry node))" by (rule normalizeNodeRetryPolicy_attempts)
  show ?thesis
    using assms(1)
  proof cases
    case (begun k node')
    then have "fst ps = NExec k \<and> int k \<le> pol_maxAttempts (normalizeNodeRetryPolicy (n_Retry node)) \<or> (\<exists>r. fst ps = NDone r)"
      using node_begin_phase [of env node k "w_sched w" "fst ps" "snd ps"] assms(2) by simp
    then show ?thesis using begun(2) assms(2) by (auto simp: phase_measure_def Let_def)
  next
    case (ended k node')
    then have "fst ps = NAttempt (Suc k) \<and> int k \<noteq> pol_maxAttempts (normalizeNodeRetryPolicy (n_Retry node)) \<or> (\<exists>r. fst ps = NDone r)"
      using node_finish_phase [of env view _ node k "w_sched w" "fst ps" "snd ps"] assms(2) by simp
    then show ?thesis using ended(2) assms(2) by (auto simp: phase_measure_def Let_def)
  qed (use m assms(2) in \<open>auto simp: phase_measure_def Let_def\<close>)
qed

lemma sum_list_less_at:
  fixes f g :: "'a \<Rightarrow> nat"
  assumes "distinct xs" "i \<in> set xs" "f i < g i" "\<And>j. j \<noteq> i \<Longrightarrow> f j = g j"
  shows "(\<Sum>x\<leftarrow>xs. f x) < (\<Sum>x\<leftarrow>xs. g x)"
proof -
  have "sum f (set xs) < sum g (set xs)"
    by (rule sum_strict_mono_ex1) (use assms in \<open>auto simp: less_imp_le, metis le_refl less_imp_le\<close>)
  then show ?thesis using assms(1) by (simp add: sum_list_distinct_conv_sum_set)
qed

lemma wave_step_decreases:
  assumes "plan_named (s_plan (w_sched w))" "distinct ids" "i \<in> set ids"
    and "wave_step env view par ids i w \<noteq> w"
  shows "wave_measure ids (wave_step env view par ids i w) < wave_measure ids w"
proof (cases rule: wave_step_cases [of env view par ids i w])
  case (moved node ps)
  have i: "n_ID node = i" using assms(1) moved(1) by (auto simp: plan_named_def)
  have p: "s_plan (snd ps) = s_plan (w_sched w)" by (rule moves_frame(1) [OF moved(2) assms(1)])
  show ?thesis
    unfolding wave_measure_def moved(3) settle_simps p i
    using moves_decreases [OF moved(2,1)]
    by (intro sum_list_less_at [OF assms(2,3)]) auto
qed (use assms(4) in simp)

text \<open>No deadlock: as long as a result is missing, some ready node can take a step.\<close>

lemma wave_can_step:
  assumes "wave_inv ids w" "plan_named (s_plan (w_sched w))" "0 < par"
    and "i \<in> set ids" "\<not> stopped (local_of i w)"
  shows "\<exists>j\<in>set ids. wave_step env view par ids j w \<noteq> w"
proof (cases "\<exists>j\<in>set ids. holds_slot (w_phase w j)")
  case True
  then obtain j where j: "j \<in> set ids" "holds_slot (w_phase w j)" by blast
  then obtain node where P: "Plan_Node (s_plan (w_sched w)) j = Some node"
    using assms(1) by (cases "w_phase w j") (auto simp: wave_inv_def)
  then have nj: "n_ID node = j" using assms(2) by (auto simp: plan_named_def)
  obtain ps where m: "moves env view j w ps" "wave_step env view par ids j w = settle env node ps w"
  proof (cases "the (w_phase w j)")
    case (NAttempt k)
    then show ?thesis using j(2) P moves.begun [of w j k node env view] that
      by (cases "w_phase w j") (auto simp: wave_step_def)
  next
    case (NExec k)
    then show ?thesis using j(2) P moves.ended [of w j k node env view] that
      by (cases "w_phase w j") (auto simp: wave_step_def)
  qed (use j(2) in \<open>cases "w_phase w j"; auto\<close>)+
  have "phase_measure (s_plan (w_sched w)) j (Some (fst ps)) < phase_measure (s_plan (w_sched w)) j (w_phase w j)"
    by (rule moves_decreases [OF m(1) P])
  then have "w_phase (settle env node ps w) j \<noteq> w_phase w j" by (auto simp: settle_simps nj)
  then show ?thesis using j(1) m(2) by metis
next
  case False
  then have a: "active_count ids w = 0" by (auto simp: active_count_def filter_empty_conv)
  obtain ph where ph: "w_phase w i = Some ph" "\<And>r. ph \<noteq> NDone r"
    using assms(5) by (cases "w_phase w i") (auto simp: local_of_def)
  then have w: "w_phase w i = Some NWaiting" using False assms(4) by (cases ph) force+
  then obtain node where P: "Plan_Node (s_plan (w_sched w)) i = Some node"
    using assms(1) by (auto simp: wave_inv_def)
  then have ni: "n_ID node = i" using assms(2) by (auto simp: plan_named_def)
  have "w_phase (wave_step env view par ids i w) i \<noteq> w_phase w i"
    using P w a assms(3) ni by (cases "env_semaphore env i") (auto simp: wave_step_def settle_simps)
  then show ?thesis using assms(4) by metis
qed

lemma wave_completes:
  assumes "wave_inv ids w" "plan_named (s_plan (w_sched w))" "0 < par" "distinct ids"
  shows "\<exists>ys. set ys \<subseteq> set ids \<and> length ys \<le> wave_measure ids w
    \<and> (\<forall>i\<in>set ids. stopped (local_of i (fold (wave_step env view par ids) ys w)))"
  using assms
proof (induction "wave_measure ids w" arbitrary: w rule: less_induct)
  case less
  show ?case
  proof (cases "\<forall>i\<in>set ids. stopped (local_of i w)")
    case True
    then show ?thesis by (intro exI [of _ "[]"]) simp
  next
    case False
    then obtain j where j: "j \<in> set ids" "wave_step env view par ids j w \<noteq> w"
      using wave_can_step [OF less.prems(1-3)] by blast
    let ?w = "wave_step env view par ids j w"
    have d: "wave_measure ids ?w < wave_measure ids w" by (rule wave_step_decreases [OF less.prems(2,4) j])
    have "plan_named (s_plan (w_sched ?w))" using wave_step_frame(1) [OF less.prems(2)] less.prems(2) by simp
    from less.hyps [OF d wave_step_inv [OF less.prems(1,2)] this less.prems(3,4)]
    obtain ys where "set ys \<subseteq> set ids" "length ys \<le> wave_measure ids ?w"
      "\<forall>i\<in>set ids. stopped (local_of i (fold (wave_step env view par ids) ys ?w))" by blast
    then show ?thesis using j(1) d by (intro exI [of _ "j # ys"]) auto
  qed
qed

section \<open>Whole waves\<close>

lemma plan_wf_named: "plan_wf p \<Longrightarrow> plan_named p"
  using plan_wf_lookup by (auto simp: plan_named_def Plan_Node_def)

lemma parallelism_pos: "ids \<noteq> [] \<Longrightarrow> 0 < parallelism s ids"
  by (auto simp: parallelism_def)

lemma run_wave_inv:
  assumes "plan_named (s_plan s)" "distinct ids" and w: "w = run_wave env xs ids act s"
  shows "wave_inv ids w" "s_plan (w_sched w) = s_plan s" "s_blackboard (w_sched w) = s_blackboard s"
    "s_maxParallel (w_sched w) = s_maxParallel s" "active_count ids w \<le> parallelism s ids"
proof -
  let ?step = "wave_step env (View (s_blackboard s)) (parallelism s ids) ids"
  let ?I = "\<lambda>w. wave_inv ids w \<and> s_plan (w_sched w) = s_plan s \<and> s_blackboard (w_sched w) = s_blackboard s
    \<and> s_maxParallel (w_sched w) = s_maxParallel s \<and> active_count ids w \<le> parallelism s ids"
  have start: "?I (start_wave env ids act s)"
  proof -
    have "\<not> holds_slot (w_phase (fold (launch env act) xs w) i)" if "\<And>i. \<not> holds_slot (w_phase w i)" for xs w i
      using that
    proof (induction xs arbitrary: w)
      case (Cons j xs)
      have "\<not> holds_slot (w_phase (launch env act j w) i)" for i
        using Cons.prems by (auto simp: launch_def split: option.splits)
      then show ?case using Cons.IH by simp
    qed simp
    then have "active_count ids (start_wave env ids act s) = 0"
      by (simp add: active_count_def start_wave_def filter_empty_conv)
    then show ?thesis using start_wave_inv [OF assms(2,1)] by simp
  qed
  have "?I (fold ?step xs w0)" if "?I w0" for w0
    using that
  proof (induction xs arbitrary: w0)
    case (Cons i xs)
    have n: "plan_named (s_plan (w_sched w0))" using Cons.prems assms(1) by simp
    have "?I (?step i w0)"
      using Cons.prems wave_step_inv [OF _ n] wave_step_frame(1-3) [OF n] wave_step_semaphore [OF _ assms(2) n] by simp
    then show ?case using Cons.IH by simp
  qed simp
  from this [OF start] show "wave_inv ids w" "s_plan (w_sched w) = s_plan s" "s_blackboard (w_sched w) = s_blackboard s"
    "s_maxParallel (w_sched w) = s_maxParallel s" "active_count ids w \<le> parallelism s ids"
    by (simp_all add: w run_wave_def)
qed

lemma executeWave_Some:
  assumes "plan_named (s_plan s)" "distinct ids"
  shows "executeWave env xs ids act s = Some (rs, s') \<longleftrightarrow>
    (\<forall>i. stopped (local_of i (run_wave env xs ids act s)))
    \<and> rs = w_results (run_wave env xs ids act s) \<and> s' = w_sched (run_wave env xs ids act s)"
proof -
  let ?w = "run_wave env xs ids act s"
  note R = run_wave_inv [OF assms refl, of env xs act]
  have "length (w_results ?w) < length ids \<longleftrightarrow> \<not> (\<forall>i\<in>set ids. stopped (local_of i ?w))"
    using wave_inv_complete(2) [OF R(1) assms(2)] by linarith
  moreover have "stopped (local_of i ?w)" if "i \<notin> set ids" for i
    using R(1) that by (simp add: wave_inv_def local_of_def)
  ultimately show ?thesis by (auto simp: executeWave_def Let_def)
qed

lemma filters_eq_mset:
  assumes "\<And>i. filter (\<lambda>r. f r = i) xs = filter (\<lambda>r. f r = i) ys"
  shows "mset xs = mset ys"
proof (rule multiset_eqI)
  fix r
  have "count (mset zs) r = count (mset (filter (\<lambda>x. f x = f r) zs)) r" for zs by simp
  then show "count (mset xs) r = count (mset ys) r" using assms by metis
qed

lemma single_filter_inj:
  assumes "\<And>i. length (filter (\<lambda>r. f r = i) xs) \<le> 1"
  shows "inj_on f (set xs)"
proof (rule inj_onI)
  fix x y assume "x \<in> set xs" "y \<in> set xs" "f x = f y"
  then have "x \<in> set (filter (\<lambda>r. f r = f x) xs)" "y \<in> set (filter (\<lambda>r. f r = f x) xs)" by auto
  moreover have "length (filter (\<lambda>r. f r = f x) xs) \<le> 1" by (rule assms)
  ultimately show "x = y" by (cases "filter (\<lambda>r. f r = f x) xs") auto
qed

text \<open>Two schedulers that differ in their budget tracker only.\<close>

definition same_but_budget :: "Scheduler \<Rightarrow> Scheduler \<Rightarrow> bool" where
  "same_but_budget s s' \<longleftrightarrow> s_plan s' = s_plan s \<and> s_blackboard s' = s_blackboard s \<and> s_traces s' = s_traces s
     \<and> s_maxParallel s' = s_maxParallel s"

lemma same_but_budgetD:
  assumes "same_but_budget s s'"
  shows "s_plan s' = s_plan s" "s_blackboard s' = s_blackboard s" "s_traces s' = s_traces s" "s_maxParallel s' = s_maxParallel s"
  using assms by (auto simp: same_but_budget_def)

lemma start_wave_local:
  assumes "same_but_budget s s'"
  shows "local_of i (start_wave env ids act s) = local_of i (start_wave env ids act s')"
proof -
  have "w_phase (fold (launch env act) ids w) = w_phase (fold (launch env act) ids w')
      \<and> w_results (fold (launch env act) ids w) = w_results (fold (launch env act) ids w')
      \<and> w_sched (fold (launch env act) ids w) = w_sched w \<and> w_sched (fold (launch env act) ids w') = w_sched w'"
    if "w_phase w = w_phase w'" "w_results w = w_results w'" "s_plan (w_sched w) = s_plan (w_sched w')" for w w'
    using that
  proof (induction ids arbitrary: w w')
    case (Cons j ids)
    have "w_phase (launch env act j w) = w_phase (launch env act j w')"
      "w_results (launch env act j w) = w_results (launch env act j w')"
      using Cons.prems by (auto simp: launch_def is_skipped_def split: option.splits)
    with Cons.IH [of "launch env act j w" "launch env act j w'"] Cons.prems(3) show ?case by (simp add: launch_frame)
  qed simp
  from this [of "\<lparr>w_phase = Map.empty, w_results = [], w_sched = s\<rparr>" "\<lparr>w_phase = Map.empty, w_results = [], w_sched = s'\<rparr>"]
  show ?thesis using same_but_budgetD [OF assms] by (simp add: start_wave_def local_of_def)
qed

lemma executeWave_local:
  assumes "plan_named (s_plan s)" "distinct ids" "uncapped s" "uncapped s'" and same: "same_but_budget s s'"
    and "executeWave env xs ids act s = Some (r1, s1)" "executeWave env ys ids act s' = Some (r2, s2)"
  shows "sortResults s r1 = sortResults s r2" "same_but_budget s1 s2" "uncapped s1"
proof -
  let ?w0 = "start_wave env ids act s" and ?w0' = "start_wave env ids act s'"
  note S = same_but_budgetD [OF same]
  have n': "plan_named (s_plan s')" using assms(1) S(1) by simp
  have ok: "s_plan (w_sched ?w0) = s_plan s \<and> plan_named (s_plan s) \<and> uncapped (w_sched ?w0)"
    using start_wave_inv(2) [OF assms(2,1)] assms(1,3) by simp
  have ok': "s_plan (w_sched ?w0') = s_plan s \<and> plan_named (s_plan s) \<and> uncapped (w_sched ?w0')"
    using start_wave_inv(2) [OF assms(2) n'] assms(1,4) S(1) by simp
  note E1 = assms(6) [unfolded executeWave_Some [OF assms(1,2)]]
  note E2 = assms(7) [unfolded executeWave_Some [OF n' assms(2)]]
  have par: "parallelism s' ids = parallelism s ids" using S(4) by (simp add: parallelism_def)
  have l: "local_of i (run_wave env xs ids act s) = local_of i (run_wave env ys ids act s')" for i
    using goroutines.interleaving_irrelevant [OF ok ok' start_wave_local [OF same],
        of i env "View (s_blackboard s)" "parallelism s ids" ids xs ys] E1 E2
    by (simp add: run_wave_def S(2) par)
  have "s_traces s1 = s_traces s2" using l E1 E2 by (auto simp: local_of_def)
  moreover have "s_plan s2 = s_plan s1" "s_blackboard s2 = s_blackboard s1" "s_maxParallel s2 = s_maxParallel s1"
    using run_wave_inv(2-4) [OF assms(1,2) refl, of env xs act] run_wave_inv(2-4) [OF n' assms(2) refl, of env ys act] E1 E2 S by simp_all
  ultimately show "same_but_budget s1 s2" by (simp add: same_but_budget_def)
  show "uncapped s1" using goroutines.ok_run [OF ok] E1 by (simp add: run_wave_def)
  have m: "mset r1 = mset r2"
    by (rule filters_eq_mset [of nr_id]) (use l E1 E2 in \<open>simp add: local_of_def\<close>)
  have "inj_on nr_id (set r1)"
    by (rule single_filter_inj) (use run_wave_inv(1) [OF assms(1,2) refl] E1 in \<open>simp add: wave_inv_def\<close>)
  then have "inj_on (\<lambda>r. id_key (s_plan s) (nr_id r)) (set r1)" by (auto simp: inj_on_def id_key_def)
  then show "sortResults s r1 = sortResults s r2" unfolding sortResults_def by (rule sort_key_perm_eq [OF m])
qed

section \<open>The step budget in a wave\<close>

text \<open>How many attempts a schedule starts: steps that take a node from an admitted attempt to its execution.\<close>

fun starts_attempt :: "nphase option \<Rightarrow> nphase option \<Rightarrow> bool" where
  "starts_attempt (Some (NAttempt k)) (Some (NExec j)) = True"
| "starts_attempt _ _ = False"

fun started_attempts :: "(string \<Rightarrow> wave \<Rightarrow> wave) \<Rightarrow> string list \<Rightarrow> wave \<Rightarrow> int" where
  "started_attempts step [] w = 0"
| "started_attempts step (i # is) w =
     (if starts_attempt (w_phase w i) (w_phase (step i w) i) then 1 else 0) + started_attempts step is (step i w)"

lemma node_begin_budget:
  assumes "s_budget s = Some t"
  shows "\<exists>t'. s_budget (snd (node_begin env node k s)) = Some t' \<and> bt_budget t' = bt_budget t
    \<and> bt_nodeExecutions t' = bt_nodeExecutions t + (if \<exists>j. fst (node_begin env node k s) = NExec j then 1 else 0)
    \<and> (0 < bg_MaxSteps (bt_budget t) \<longrightarrow> bt_nodeExecutions t \<le> bg_MaxSteps (bt_budget t)
        \<longrightarrow> bt_nodeExecutions t' \<le> bg_MaxSteps (bt_budget t))"
  using assms unfolding node_begin_def
  by (auto simp: Let_def set_trace_def AdmitStep_def split: sum.splits option.splits)

lemma wave_step_budget:
  assumes "s_budget (w_sched w) = Some t" "plan_named (s_plan (w_sched w))"
  shows "\<exists>t'. s_budget (w_sched (wave_step env view par ids i w)) = Some t' \<and> bt_budget t' = bt_budget t
    \<and> bt_nodeExecutions t' = bt_nodeExecutions t
        + (if starts_attempt (w_phase w i) (w_phase (wave_step env view par ids i w) i) then 1 else 0)
    \<and> (0 < bg_MaxSteps (bt_budget t) \<longrightarrow> bt_nodeExecutions t \<le> bg_MaxSteps (bt_budget t)
        \<longrightarrow> bt_nodeExecutions t' \<le> bg_MaxSteps (bt_budget t))"
proof (cases rule: wave_step_cases [of env view par ids i w])
  case idle
  have "\<not> starts_attempt x x" for x by (cases x rule: holds_slot.cases) auto
  then show ?thesis using idle assms(1) by simp
next
  case (moved node ps)
  have i: "n_ID node = i" using assms(2) moved(1) by (auto simp: plan_named_def)
  show ?thesis
    using moved(2)
  proof cases
    case (begun k node')
    have "starts_attempt (Some (NAttempt k)) (Some ph) \<longleftrightarrow> (\<exists>j. ph = NExec j)" for ph by (cases ph) auto
    then show ?thesis
      using node_begin_budget [OF assms(1), of env node k] begun moved(1,3) i by (simp add: settle_simps)
  next
    case (ended k node')
    then show ?thesis using assms(1) moved(1,3) by (simp add: settle_simps node_finish_frame(5))
  qed (use assms(1) moved(3) in \<open>simp_all add: settle_simps\<close>)
qed

lemma run_budget:
  assumes "s_budget (w_sched w) = Some t" "plan_named (s_plan (w_sched w))"
  shows "\<exists>t'. s_budget (w_sched (fold (wave_step env view par ids) xs w)) = Some t' \<and> bt_budget t' = bt_budget t
    \<and> bt_nodeExecutions t' = bt_nodeExecutions t + started_attempts (wave_step env view par ids) xs w
    \<and> (0 < bg_MaxSteps (bt_budget t) \<longrightarrow> bt_nodeExecutions t \<le> bg_MaxSteps (bt_budget t)
        \<longrightarrow> bt_nodeExecutions t' \<le> bg_MaxSteps (bt_budget t))"
  using assms
proof (induction xs arbitrary: w t)
  case (Cons i xs)
  let ?w = "wave_step env view par ids i w"
  obtain t1 where t1: "s_budget (w_sched ?w) = Some t1" "bt_budget t1 = bt_budget t"
    "bt_nodeExecutions t1 = bt_nodeExecutions t + (if starts_attempt (w_phase w i) (w_phase ?w i) then 1 else 0)"
    "0 < bg_MaxSteps (bt_budget t) \<longrightarrow> bt_nodeExecutions t \<le> bg_MaxSteps (bt_budget t)
        \<longrightarrow> bt_nodeExecutions t1 \<le> bg_MaxSteps (bt_budget t)"
    using wave_step_budget [OF Cons.prems] by blast
  have n: "plan_named (s_plan (w_sched ?w))" using wave_step_frame(1) Cons.prems(2) by simp
  show ?case using Cons.IH [OF t1(1) n] t1(2-4) by (auto simp del: starts_attempt.simps)
qed simp

section \<open>Properties\<close>

text \<open>An environment in which the node \<open>b\<close> fails once in a retryable way and every other attempt returns.\<close>

definition demo_env :: sched_env where
  "demo_env = \<lparr>env_execute = (\<lambda>i k view inputs. if i = ''b'' \<and> k = 1 then Failed (ERetryable True ''busy'') else Returned [''n'' \<mapsto> GFloat (Fin 1)]),
     env_ctx_err = (\<lambda>i k. None), env_wait = (\<lambda>i k. None), env_semaphore = (\<lambda>i. None), env_attempt_at = (\<lambda>i k. 10 + int k),
     env_finished_at = (\<lambda>i. 20), env_wave_ctx = (\<lambda>n k. None), env_clock = (\<lambda>v. 5), env_now = 30, env_hook = None,
     env_fmt = (\<lambda>v. [])\<rparr>"

definition demo_sched :: "BudgetTracker option \<Rightarrow> Plan \<Rightarrow> Scheduler" where
  "demo_sched bt p = \<lparr>s_plan = p, s_blackboard = NewBlackboard, s_traces = Map.empty, s_budget = bt, s_maxParallel = 1\<rparr>"

lemma executeWave_extends:
  assumes "plan_named (s_plan s)" "distinct ids"
  shows "\<exists>ys rs s'. executeWave env (xs @ ys) ids act s = Some (rs, s')"
proof (cases "ids = []")
  case True
  then show ?thesis by (auto simp: executeWave_def Let_def)
next
  case False
  let ?w = "run_wave env xs ids act s"
  note R = run_wave_inv [OF assms refl, of env xs act]
  have n: "plan_named (s_plan (w_sched ?w))" using R(2) assms(1) by simp
  obtain ys where "\<forall>i\<in>set ids. stopped (local_of i (fold (wave_step env (View (s_blackboard s)) (parallelism s ids) ids) ys ?w))"
    using wave_completes [OF R(1) n parallelism_pos [OF False] assms(2)] by blast
  moreover have "run_wave env (xs @ ys) ids act s
      = fold (wave_step env (View (s_blackboard s)) (parallelism s ids) ids) ys ?w" by (simp add: run_wave_def)
  ultimately have c: "\<forall>i\<in>set ids. stopped (local_of i (run_wave env (xs @ ys) ids act s))" by simp
  have "\<not> length (w_results (run_wave env (xs @ ys) ids act s)) < length ids"
    using wave_inv_complete(2) [OF run_wave_inv(1) [OF assms refl] assms(2)] c by (metis linorder_not_le)
  then show ?thesis by (auto simp: executeWave_def Let_def)
qed

text \<open>
  The outcome of a wave does not depend on the interleaving of its goroutines. On a well-formed
  plan, with no step limit, two schedules that both run the wave to its end give the same results
  after sorting and the same traces, and neither touches the blackboard or the plan. Retries,
  back-off, refused slots and panics are all included.
\<close>

theorem wave_deterministic:
  assumes "plan_wf (s_plan s)" "distinct readyIDs" "uncapped s"
    and "executeWave env schedule1 readyIDs act s = Some (r1, s1)" "executeWave env schedule2 readyIDs act s = Some (r2, s2)"
  shows "sortResults s r1 = sortResults s r2 \<and> s_traces s1 = s_traces s2
    \<and> s_blackboard s1 = s_blackboard s \<and> s_blackboard s2 = s_blackboard s \<and> s_plan s1 = s_plan s \<and> s_plan s2 = s_plan s"
proof -
  note n = plan_wf_named [OF assms(1)]
  have e: "s1 = w_sched (run_wave env schedule1 readyIDs act s)" "s2 = w_sched (run_wave env schedule2 readyIDs act s)"
    using assms(4,5) executeWave_Some [OF n assms(2)] by blast+
  show ?thesis
    using executeWave_local [OF n assms(2,3,3) _ assms(4,5)] run_wave_inv(2,3) [OF n assms(2) refl] e
    by (simp add: same_but_budget_def)
qed

theorem wave_deterministic_witness:
  "\<exists>p xs ys r1 s1 r2 s2. Compile (Some (demo_workflow demo_edges)) = Inr p
     \<and> executeWave demo_env (''b'' # xs) [''c'', ''b''] [''b'' \<mapsto> 1, ''c'' \<mapsto> 1] (demo_sched None p) = Some (r1, s1)
     \<and> executeWave demo_env (''c'' # ys) [''c'', ''b''] [''b'' \<mapsto> 1, ''c'' \<mapsto> 1] (demo_sched None p) = Some (r2, s2)
     \<and> sortResults (demo_sched None p) r1 = sortResults (demo_sched None p) r2 \<and> s_traces s1 = s_traces s2"
proof -
  obtain p where p: "Compile (Some (demo_workflow demo_edges)) = Inr p" by (rule demo_compile_plan)
  note wf = Compile_plan_wf(1) [OF p]
  let ?s = "demo_sched None p"
  have h: "plan_wf (s_plan ?s)" "distinct [''c'', ''b'']" "uncapped ?s" using wf by (simp_all add: demo_sched_def uncapped_def)
  note X = executeWave_extends [OF plan_wf_named [OF h(1)] h(2), of demo_env _ "[''b'' \<mapsto> 1, ''c'' \<mapsto> 1]"]
  obtain xs r1 s1 where 1: "executeWave demo_env ([''b''] @ xs) [''c'', ''b''] [''b'' \<mapsto> 1, ''c'' \<mapsto> 1] ?s = Some (r1, s1)"
    using X by blast
  obtain ys r2 s2 where 2: "executeWave demo_env ([''c''] @ ys) [''c'', ''b''] [''b'' \<mapsto> 1, ''c'' \<mapsto> 1] ?s = Some (r2, s2)"
    using X by blast
  show ?thesis using wave_deterministic [OF h 1 2] p 1 2 by (metis append_Cons append_Nil)
qed

text \<open>
  The semaphore works: whatever the schedule, at every point of a wave at most the configured
  number of nodes holds a slot (all of the ready nodes when no limit is configured), and a node has
  at most one result.
\<close>

theorem wave_parallelism_bound:
  assumes "plan_wf (s_plan s)" "distinct readyIDs"
  shows "active_count readyIDs (run_wave env schedule readyIDs act s) \<le> parallelism s readyIDs
    \<and> (0 < s_maxParallel s \<longrightarrow> int (active_count readyIDs (run_wave env schedule readyIDs act s)) \<le> s_maxParallel s)
    \<and> (\<forall>i. length (filter (\<lambda>r. nr_id r = i) (w_results (run_wave env schedule readyIDs act s))) \<le> 1)"
proof -
  note R = run_wave_inv [OF plan_wf_named [OF assms(1)] assms(2) refl, of env schedule act]
  show ?thesis using R(1,5) by (auto simp: wave_inv_def parallelism_def split: if_splits)
qed

theorem wave_parallelism_bound_witness:
  "\<exists>p. Compile (Some (demo_workflow demo_edges)) = Inr p
     \<and> active_count [''c'', ''b''] (run_wave demo_env [''b'', ''c'', ''b''] [''c'', ''b''] [''b'' \<mapsto> 1, ''c'' \<mapsto> 1] (demo_sched None p)) \<le> 1"
proof -
  obtain p where p: "Compile (Some (demo_workflow demo_edges)) = Inr p" by (rule demo_compile_plan)
  have h: "plan_wf (s_plan (demo_sched None p))" "distinct [''c'', ''b'']" using Compile_plan_wf(1) [OF p] by (simp_all add: demo_sched_def)
  show ?thesis
    using wave_parallelism_bound [OF h, of demo_env "[''b'', ''c'', ''b'']" "[''b'' \<mapsto> 1, ''c'' \<mapsto> 1]"] p
    by (intro exI [of _ p]) (simp add: demo_sched_def)
qed

text \<open>
  C28. A wave always finishes: from every point that any interleaving can reach, there is a
  continuation that completes the wave. Slots, retries and errors never leave it stuck.
\<close>

theorem wave_never_stuck:
  assumes "plan_wf (s_plan s)" "distinct readyIDs"
  shows "\<exists>rest results s'. executeWave env (schedule @ rest) readyIDs act s = Some (results, s')
    \<and> length results = length readyIDs"
proof -
  note n = plan_wf_named [OF assms(1)]
  obtain rest results s' where e: "executeWave env (schedule @ rest) readyIDs act s = Some (results, s')"
    using executeWave_extends [OF n assms(2)] by blast
  then have "results = w_results (run_wave env (schedule @ rest) readyIDs act s)"
    "\<forall>i. stopped (local_of i (run_wave env (schedule @ rest) readyIDs act s))"
    using executeWave_Some [OF n assms(2)] by blast+
  then have "length results = length readyIDs"
    using wave_inv_complete(1) [OF run_wave_inv(1) [OF n assms(2) refl] assms(2)] by (simp add: filter_True)
  then show ?thesis using e by blast
qed

theorem wave_never_stuck_witness:
  "\<exists>p rest results s'. Compile (Some (demo_workflow demo_edges)) = Inr p
     \<and> executeWave demo_env ([''b'', ''c'', ''b''] @ rest) [''c'', ''b''] [''b'' \<mapsto> 1, ''c'' \<mapsto> 1] (demo_sched None p) = Some (results, s')
     \<and> length results = 2"
proof -
  obtain p where p: "Compile (Some (demo_workflow demo_edges)) = Inr p" by (rule demo_compile_plan)
  have h: "plan_wf (s_plan (demo_sched None p))" "distinct [''c'', ''b'']" using Compile_plan_wf(1) [OF p] by (simp_all add: demo_sched_def)
  show ?thesis
    using wave_never_stuck [OF h, of demo_env "[''b'', ''c'', ''b'']" "[''b'' \<mapsto> 1, ''c'' \<mapsto> 1]"] p
    by (auto simp: numeral_2_eq_2)
qed

text \<open>
  The step budget holds in every interleaving: the tracker counts exactly the attempts that
  were started, retries included, and with a limit set it never admits more than the limit, however
  many goroutines ask at the same time.
\<close>

theorem wave_step_budget_respected:
  assumes "plan_wf (s_plan s)" "distinct readyIDs" "s_budget s = Some t"
    and "0 < bg_MaxSteps (bt_budget t)" "bt_nodeExecutions t \<le> bg_MaxSteps (bt_budget t)"
  shows "\<exists>t'. s_budget (w_sched (run_wave env schedule readyIDs act s)) = Some t'
    \<and> bt_nodeExecutions t' = bt_nodeExecutions t
        + started_attempts (wave_step env (View (s_blackboard s)) (parallelism s readyIDs) readyIDs) schedule (start_wave env readyIDs act s)
    \<and> bt_nodeExecutions t' \<le> bg_MaxSteps (bt_budget t)"
proof -
  have s: "w_sched (start_wave env readyIDs act s) = s" by (rule start_wave_inv(2) [OF assms(2) plan_wf_named [OF assms(1)]])
  show ?thesis
    using run_budget [of "start_wave env readyIDs act s" t env "View (s_blackboard s)" "parallelism s readyIDs" readyIDs schedule]
      assms plan_wf_named [OF assms(1)] by (auto simp: s run_wave_def)
qed

theorem wave_step_budget_respected_witness:
  "\<exists>p t'. Compile (Some (demo_workflow demo_edges)) = Inr p
     \<and> s_budget (w_sched (run_wave demo_env [''b'', ''c'', ''b'', ''b'', ''c'', ''c''] [''c'', ''b''] [''b'' \<mapsto> 1, ''c'' \<mapsto> 1] (demo_sched (Some demo_tracker) p))) = Some t'
     \<and> bt_nodeExecutions t' \<le> 2"
proof -
  obtain p where p: "Compile (Some (demo_workflow demo_edges)) = Inr p" by (rule demo_compile_plan)
  have h: "plan_wf (s_plan (demo_sched (Some demo_tracker) p))" "distinct [''c'', ''b'']" "s_budget (demo_sched (Some demo_tracker) p) = Some demo_tracker"
    "0 < bg_MaxSteps (bt_budget demo_tracker)" "bt_nodeExecutions demo_tracker \<le> bg_MaxSteps (bt_budget demo_tracker)"
    using Compile_plan_wf(1) [OF p] by (simp_all add: demo_sched_def demo_tracker_def demo_budget_def)
  have "bg_MaxSteps (bt_budget demo_tracker) = 2" by (simp add: demo_tracker_def demo_budget_def)
  then show ?thesis
    using wave_step_budget_respected [OF h, of demo_env "[''b'', ''c'', ''b'', ''b'', ''c'', ''c'']" "[''b'' \<mapsto> 1, ''c'' \<mapsto> 1]"] p
    by (auto intro!: exI [of _ p])
qed

end
