(* ===== verification/Scheduler_Runs.thy ===== *)
theory Scheduler_Runs
  imports Scheduler_Waves
begin

text \<open>
  Whole runs of the scheduler: the order in which nodes are merged, termination, independence of the
  interleavings, and what a run that ends says about the nodes.
\<close>

section \<open>Advancing the graph is relaxing its edges\<close>

interpretation fifo: ready_queue "\<lambda>x q. q @ [x]" "\<lambda>q. case q of [] \<Rightarrow> None | x # q' \<Rightarrow> Some (x, q')" mset
  by unfold_locales (auto split: list.splits)

lemma advance_edges_relax:
  "(case advance_edges router br ex es deg act ready of (deg', act', ready') \<Rightarrow> (deg', ready'))
     = relax_edges (\<lambda>x q. q @ [x]) e_Target es deg ready"
  by (induction es arbitrary: deg act ready) (simp_all add: Let_def del: fun_upd_apply)

lemma relax_edges_prefix:
  "relax_edges (\<lambda>x q. q @ [x]) target es deg (pre @ q)
     = (case relax_edges (\<lambda>x q. q @ [x]) target es deg q of (deg', q') \<Rightarrow> (deg', pre @ q'))"
proof (induction es arbitrary: deg q)
  case (Cons e es)
  let ?d = "map_get 0 deg (target e) - 1"
  have "pre @ (if ?d = 0 then q @ [target e] else q) = (if ?d = 0 then (pre @ q) @ [target e] else pre @ q)" by simp
  then show ?case
    using Cons [of "deg(target e \<mapsto> ?d)" "if ?d = 0 then q @ [target e] else q"] by (simp only: relax_edges.simps Let_def)
qed simp

definition run_inv :: "Plan \<Rightarrow> (string \<rightharpoonup> int) \<Rightarrow> string list \<Rightarrow> string list \<Rightarrow> bool" where
  "run_inv p deg queue order \<longleftrightarrow> topo_inv (plan_ids p) e_Source e_Target (p_edges p) deg (mset queue) order"

lemma run_inv_advance:
  assumes inv: "run_inv p deg (i # q) order" and wf: "plan_wf p"
    and adv: "advanceDownstream p i outputs ex deg act next = (deg', act', next')" and "q = q0 @ next"
  shows "run_inv p deg' (q0 @ next') (order @ [i])"
proof -
  have r: "relax_edges (\<lambda>x q. q @ [x]) e_Target (Plan_Outgoing p i) deg next = (deg', next')"
    using adv unfolding advanceDownstream_def by (metis (no_types, lifting) advance_edges_relax case_prod_conv)
  have "relax_edges (\<lambda>x q. q @ [x]) e_Target (Plan_Outgoing p i) deg q = (deg', q0 @ next')"
    unfolding assms(4) relax_edges_prefix r by simp
  from fifo.topo_inv_step [OF inv [unfolded run_inv_def] _ plan_wf_D(8) [OF wf] _ this]
  show ?thesis using plan_wf_D(7) [OF wf] by (auto simp: run_inv_def)
qed

lemma run_inv_advance_results:
  assumes "run_inv p deg (map nr_id rs @ next) order" "plan_wf p"
    and "advance_results p rs deg act next = (deg', act', next')"
  shows "run_inv p deg' next' (order @ map nr_id rs)"
  using assms
proof (induction rs arbitrary: deg act "next" order)
  case (Cons r rs)
  obtain d1 a1 n1 where a: "advanceDownstream p (nr_id r) (nr_outputs r) (\<not> nr_skipped r) deg act next = (d1, a1, n1)"
    by (cases "advanceDownstream p (nr_id r) (nr_outputs r) (\<not> nr_skipped r) deg act next") auto
  have "run_inv p deg (nr_id r # (map nr_id rs @ next)) order" using Cons.prems(1) by simp
  from run_inv_advance [OF this Cons.prems(2) a refl]
  have "run_inv p d1 (map nr_id rs @ n1) (order @ [nr_id r])" .
  from Cons.IH [OF this Cons.prems(2)] Cons.prems(3) a show ?case by simp
qed simp

lemma run_inv_mset: "mset q = mset q' \<Longrightarrow> run_inv p deg q order = run_inv p deg q' order"
  by (simp add: run_inv_def)

lemma run_inv_distinct:
  assumes "run_inv p deg q order"
  shows "distinct (order @ q)" "set (order @ q) \<subseteq> set (plan_ids p)"
proof -
  have c: "count (mset (order @ q)) t \<le> 1" for t using assms by (simp add: run_inv_def topo_inv_def)
  have "count (mset (order @ q)) t = (if t \<in> set (order @ q) then 1 else 0)" for t
    using c [of t] by (metis count_greater_eq_one_iff count_inI le_antisym set_mset_mset)
  then show "distinct (order @ q)" by (simp only: distinct_count_atmost_1) simp
  show "set (order @ q) \<subseteq> set (plan_ids p)" using assms by (auto simp: run_inv_def topo_inv_def)
qed

section \<open>The merge keeps ids and the plan\<close>

lemma recordResult_frame:
  assumes "recordResult env r s = (e, r', s')"
  shows "nr_id r' = nr_id r \<and> s_plan s' = s_plan s \<and> s_blackboard s' = s_blackboard s \<and> s_budget s' = s_budget s
    \<and> s_maxParallel s' = s_maxParallel s \<and> nr_skipped r' = nr_skipped r \<and> nr_outputs r' = nr_outputs r
    \<and> (nr_err r' = None \<longleftrightarrow> nr_err r = None)"
  using assms unfolding recordResult_def
  by (auto simp: Let_def store_trace_def set_trace_def split: if_splits option.splits sum.splits prod.splits)

lemma process_result_frame:
  assumes "process_result env r s = (r', s')"
  shows "nr_id r' = nr_id r \<and> s_plan s' = s_plan s \<and> s_budget s' = s_budget s \<and> s_maxParallel s' = s_maxParallel s
    \<and> nr_skipped r' = nr_skipped r \<and> nr_outputs r' = nr_outputs r"
  using assms unfolding process_result_def
  by (auto simp: Let_def split: if_splits option.splits sum.splits prod.splits dest!: recordResult_frame)

lemma process_results_frame:
  "process_results env rs s = (rs', s') \<Longrightarrow> map nr_id rs' = map nr_id rs \<and> s_plan s' = s_plan s
     \<and> s_budget s' = s_budget s \<and> s_maxParallel s' = s_maxParallel s"
  by (induction rs arbitrary: s rs' s') (auto simp: Let_def split: prod.splits dest!: process_result_frame)

section \<open>Waves of a run\<close>

lemma executeWave_ids:
  assumes "plan_named (s_plan s)" "distinct ids" "executeWave env xs ids act s = Some (rs, s1)"
  shows "mset (map nr_id rs) = mset ids" "s_plan s1 = s_plan s" "s_blackboard s1 = s_blackboard s"
    "s_maxParallel s1 = s_maxParallel s"
proof -
  let ?w = "run_wave env xs ids act s"
  note E = assms(3) [unfolded executeWave_Some [OF assms(1,2)]]
  note R = run_wave_inv [OF assms(1,2) refl, of env xs act]
  show "s_plan s1 = s_plan s" "s_blackboard s1 = s_blackboard s" "s_maxParallel s1 = s_maxParallel s" using E R by simp_all
  show "mset (map nr_id rs) = mset ids"
  proof (rule multiset_eqI)
    fix i
    have "count (mset (map nr_id rs)) i = length (filter (\<lambda>r. nr_id r = i) rs)"
      by (induction rs) auto
    also have "\<dots> = (if i \<in> set ids then 1 else 0)" using R(1) E by (simp add: wave_inv_def)
    also have "\<dots> = count (mset ids) i" using assms(2) by (simp add: distinct_count_atmost_1)
    finally show "count (mset (map nr_id rs)) i = count (mset ids) i" .
  qed
qed

lemma mset_sortResults [simp]: "mset (sortResults s rs) = mset rs"
  by (simp add: sortResults_def)

lemma mset_sortNodeIDs [simp]: "mset (sortNodeIDs s ids) = mset ids"
  by (simp add: sortNodeIDs_def)

definition loop_inv :: "Plan \<Rightarrow> loop_state \<Rightarrow> bool" where
  "loop_inv p l \<longleftrightarrow> s_plan (lp_sched l) = p \<and> run_inv p (lp_degree l) (lp_ready l) (lp_order l)"

lemma loop_body_Inr:
  assumes wf: "plan_wf p" and inv: "loop_inv p l" and b: "loop_body env xs l = Inr l'"
  shows "loop_inv p l'" "mset (lp_order l') = mset (lp_order l) + mset (lp_ready l)"
proof -
  let ?s = "lp_sched l"
  have p: "s_plan ?s = p" and r: "run_inv p (lp_degree l) (lp_ready l) (lp_order l)" using inv by (auto simp: loop_inv_def)
  have n: "plan_named (s_plan ?s)" using plan_wf_named [OF wf] p by simp
  have d: "distinct (lp_ready l)" using run_inv_distinct(1) [OF r] by simp
  obtain rs s1 rs' s2 deg act nxt where
    e: "executeWave env xs (lp_ready l) (lp_active l) ?s = Some (rs, s1)"
    and pr: "process_results env (sortResults s1 rs) s1 = (rs', s2)"
    and ad: "advance_results (s_plan s2) rs' (lp_degree l) (lp_active l) [] = (deg, act, nxt)"
    and l': "l' = l\<lparr>lp_sched := s2, lp_wave := Suc (lp_wave l), lp_order := lp_order l @ map nr_id rs',
        lp_degree := deg, lp_active := act, lp_ready := sortNodeIDs s2 (remdups nxt)\<rparr>"
    using b unfolding loop_body_def by (auto simp: Let_def split: option.splits prod.splits)
  note E = executeWave_ids [OF n d e]
  note P = process_results_frame [OF pr]
  have "mset (map nr_id rs') = mset (map nr_id rs)"
    using P by (metis mset_map mset_sortResults)
  then have m: "mset (map nr_id rs') = mset (lp_ready l)" using E(1) by simp
  have "run_inv p (lp_degree l) (map nr_id rs' @ []) (lp_order l)" using r run_inv_mset [OF m] by simp
  from run_inv_advance_results [OF this wf] ad P E(2) p
  have nr: "run_inv p deg nxt (lp_order l @ map nr_id rs')" by simp
  have "distinct nxt" using run_inv_distinct(1) [OF nr] by simp
  then show "loop_inv p l'" using nr P E(2) p run_inv_mset [of "sortNodeIDs s2 nxt" nxt]
    by (simp add: loop_inv_def l' distinct_remdups_id)
  show "mset (lp_order l') = mset (lp_order l) + mset (lp_ready l)" using m by (simp add: l')
qed

definition order_ok :: "Plan \<Rightarrow> string list \<Rightarrow> bool" where
  "order_ok p order \<longleftrightarrow> distinct order \<and> set order \<subseteq> set (plan_ids p) \<and> ordered_prefix e_Source e_Target (p_edges p) order"

lemma run_inv_order_ok: "run_inv p deg q order \<Longrightarrow> order_ok p order"
proof -
  assume r: "run_inv p deg q order"
  have "ordered_prefix e_Source e_Target (p_edges p) order" using r by (simp only: run_inv_def topo_inv_def)
  then show ?thesis using run_inv_distinct [OF r] by (simp add: order_ok_def)
qed

lemma loop_body_Inl:
  assumes wf: "plan_wf p" and inv: "loop_inv p l" and b: "loop_body env xs l = Inl (e, l')"
  shows "order_ok p (lp_order l')" "e = ScheduleIncomplete \<or> (\<exists>err. e = Finished (Some err))" "s_plan (lp_sched l') = p"
proof -
  let ?s = "lp_sched l"
  have p: "s_plan ?s = p" and r: "run_inv p (lp_degree l) (lp_ready l) (lp_order l)" using inv by (auto simp: loop_inv_def)
  have n: "plan_named (s_plan ?s)" using plan_wf_named [OF wf] p by simp
  have d: "distinct (lp_ready l)" using run_inv_distinct(1) [OF r] by simp
  have "order_ok p (lp_order l') \<and> (e = ScheduleIncomplete \<or> (\<exists>err. e = Finished (Some err))) \<and> s_plan (lp_sched l') = p"
  proof (cases "executeWave env xs (lp_ready l) (lp_active l) ?s")
    case None
    then show ?thesis using b run_inv_order_ok [OF r] p by (auto simp: loop_body_def Let_def)
  next
    case (Some c)
    obtain rs s1 where c: "c = (rs, s1)" by (cases c)
    obtain rs' s2 where pr: "process_results env (sortResults s1 rs) s1 = (rs', s2)"
      by (cases "process_results env (sortResults s1 rs) s1")
    note E = executeWave_ids [OF n d Some [unfolded c]]
    note P = process_results_frame [OF pr]
    have "mset (map nr_id rs') = mset (lp_ready l)" using P E(1) by (metis mset_map mset_sortResults)
    then have ri: "run_inv p (lp_degree l) (map nr_id rs' @ []) (lp_order l)" using r run_inv_mset by (metis append_Nil2)
    obtain deg act nxt where "advance_results p rs' (lp_degree l) Map.empty [] = (deg, act, nxt)"
      by (cases "advance_results p rs' (lp_degree l) Map.empty []") auto
    then have "order_ok p (lp_order l @ map nr_id rs')"
      using run_inv_order_ok [OF run_inv_advance_results [OF ri wf]] by blast
    then show ?thesis
      using b Some c pr P E(2) p by (auto simp: loop_body_def Let_def split: option.splits prod.splits)
  qed
  then show "order_ok p (lp_order l')" "e = ScheduleIncomplete \<or> (\<exists>err. e = Finished (Some err))" "s_plan (lp_sched l') = p"
    by auto
qed

text \<open>At the end of the loop no node is ready, so on an acyclic plan every node has been merged.\<close>

lemma run_inv_complete:
  assumes "run_inv p deg [] order" "plan_wf p" "acyclic (plan_rel p)"
  shows "set order = set (plan_ids p)"
proof -
  have o: "distinct order" "set order \<subseteq> set (plan_ids p)" "ordered_prefix e_Source e_Target (p_edges p) order"
    using run_inv_order_ok [OF assms(1)] by (auto simp: order_ok_def)
  have ends: "\<forall>e \<in> set (p_edges p). e_Source e \<in> set (plan_ids p) \<and> e_Target e \<in> set (plan_ids p)"
    using plan_wf_D(7) [OF assms(2)] by blast
  have "\<exists>e \<in> set (p_edges p). e_Target e = t \<and> e_Source e \<in> set (plan_ids p) - set order" if "t \<in> set (plan_ids p) - set order" for t
    using assms(1) that ends open_degree_0_iff [of e_Source e_Target "p_edges p" "set order" t]
    by (auto simp: run_inv_def topo_inv_def)
  then have "length order = length (plan_ids p)"
    using complete_iff_acyclic [OF o plan_wf_D(1) [OF assms(2)] ends] assms(3) by (simp add: plan_rel_def)
  then show ?thesis using o plan_wf_D(1) [OF assms(2)] by (metis card_subset_eq distinct_card finite_set)
qed

lemma first_stalled_None:
  "first_stalled ts = None \<longleftrightarrow> (\<forall>t\<in>set ts. nt_Status t = NodeStatusSuccess \<or> nt_Status t = NodeStatusSkipped)"
  by (induction ts) auto

lemma wave_loop_run:
  assumes wf: "plan_wf p" and ac: "acyclic (plan_rel p)" and inv: "loop_inv p l"
    and "length (plan_ids p) \<le> fuel + length (lp_order l)" "wave_loop fuel env schedules l = (e, l')"
  shows "e \<noteq> OutOfFuel \<and> order_ok p (lp_order l') \<and> s_plan (lp_sched l') = p
    \<and> (e = Finished None \<longrightarrow> set (lp_order l') = set (plan_ids p)
        \<and> (\<forall>t\<in>set (GetTraces (lp_sched l')). nt_Status t = NodeStatusSuccess \<or> nt_Status t = NodeStatusSkipped))"
  using inv assms(4,5)
proof (induction fuel arbitrary: l)
  case 0
  have r: "run_inv p (lp_degree l) (lp_ready l) (lp_order l)" using 0(1) by (simp add: loop_inv_def)
  have "lp_ready l = []"
  proof (rule ccontr)
    assume ne: "lp_ready l \<noteq> []"
    have "length (lp_order l @ lp_ready l) \<le> length (plan_ids p)"
      using run_inv_distinct [OF r] by (metis card_mono distinct_card finite_set card_length le_trans)
    with ne 0(2) show False by (cases "lp_ready l") auto
  qed
  then show ?case
    using 0 r run_inv_complete [OF _ wf ac] run_inv_order_ok first_stalled_None
    by (auto simp: wave_loop.simps [of 0] loop_inv_def)
next
  case (Suc fuel)
  have r: "run_inv p (lp_degree l) (lp_ready l) (lp_order l)" using Suc.prems(1) by (simp add: loop_inv_def)
  show ?case
  proof (cases "lp_ready l = []")
    case True
    then show ?thesis
      using Suc.prems r run_inv_complete [OF _ wf ac] run_inv_order_ok first_stalled_None
      by (auto simp: wave_loop.simps [of "Suc fuel"] loop_inv_def)
  next
    case False
    show ?thesis
    proof (cases "loop_body env (schedules (lp_wave l)) l")
      case (Inl x)
      then have "loop_body env (schedules (lp_wave l)) l = Inl (e, l')" using Suc.prems(3) False by (simp add: wave_loop.simps [of "Suc fuel"])
      from loop_body_Inl [OF wf Suc.prems(1) this] show ?thesis by auto
    next
      case (Inr l1)
      note B = loop_body_Inr [OF wf Suc.prems(1) Inr]
      have "length (lp_order l1) = length (lp_order l) + length (lp_ready l)" using B(2) by (metis size_mset size_union)
      then have "length (plan_ids p) \<le> fuel + length (lp_order l1)" using Suc.prems(2) False by (cases "lp_ready l") auto
      from Suc.IH [OF B(1) this] show ?thesis using Suc.prems(3) False Inr by (simp add: wave_loop.simps [of "Suc fuel"])
    qed
  qed
qed

lemma Execute_start:
  assumes "plan_wf (s_plan s)"
  shows "loop_inv (s_plan s) \<lparr>lp_degree = p_inDegree (s_plan s), lp_active = act,
     lp_ready = sortNodeIDs s' (remdups (root_ids (s_plan s))), lp_sched = s\<lparr>s_blackboard := b\<rparr>, lp_wave = 0, lp_order = []\<rparr>"
proof -
  have "distinct (root_ids (s_plan s))" using plan_wf_D(1) [OF assms] by (simp add: root_ids_def plan_ids_def)
  then have "mset (sortNodeIDs s' (remdups (root_ids (s_plan s)))) = mset (initial_ready (s_plan s))"
    by (simp add: distinct_remdups_id root_ids_def plan_ids_def mset_initial_ready)
  then show ?thesis using initial_topo_inv [OF assms] by (simp add: loop_inv_def run_inv_def)
qed

section \<open>Runs do not depend on the interleavings\<close>

lemma recordResult_same:
  assumes "same_but_budget s s'" "recordResult env r s = (e, r1, t)" "recordResult env r s' = (e', r1', t')"
  shows "e = e' \<and> r1 = r1' \<and> same_but_budget t t'"
proof -
  have "trace_of s' i = trace_of s i" for i using assms(1) by (simp add: trace_of_def same_but_budget_def)
  then show ?thesis
    using assms unfolding recordResult_def
    by (auto simp: Let_def store_trace_def set_trace_def same_but_budget_def split: if_splits option.splits sum.splits prod.splits)
qed

lemma process_result_same:
  assumes "same_but_budget s s'"
  shows "fst (process_result env r s) = fst (process_result env r s')
    \<and> same_but_budget (snd (process_result env r s)) (snd (process_result env r s'))"
proof -
  define mid where "mid s = (let r1 = (case nr_node r of
                  Some node \<Rightarrow> if nr_err r = None \<and> \<not> nr_skipped r
                    then (case validateStateWrites node (nr_outputs r) of Inl e \<Rightarrow> r\<lparr>nr_err := Some e\<rparr> | Inr _ \<Rightarrow> r)
                    else r
                | None \<Rightarrow> r) in (case nr_node r1 of
                  Some node \<Rightarrow> if nr_err r1 = None \<and> \<not> nr_skipped r1
                    then (case applyResultDelta (env_clock env) (nr_id r1) node (nr_outputs r1) (s_blackboard s) of
                            Inl e \<Rightarrow> (r1\<lparr>nr_err := Some e\<rparr>, s)
                          | Inr b \<Rightarrow> (r1, s\<lparr>s_blackboard := b\<rparr>))
                    else (r1, s)
                | None \<Rightarrow> (r1, s)))" for s :: Scheduler
  have b: "s_blackboard s' = s_blackboard s" using assms by (simp add: same_but_budget_def)
  have m: "fst (mid s') = fst (mid s) \<and> same_but_budget (snd (mid s)) (snd (mid s'))"
    using assms unfolding mid_def b by (auto simp: Let_def same_but_budget_def split: option.splits sum.splits)
  have u: "process_result env r t = (case mid t of (r2, s2) \<Rightarrow> case recordResult env r2 s2 of (traceErr, r3, s3) \<Rightarrow>
      (r3\<lparr>nr_err := join_err (nr_err r3) traceErr\<rparr>, s3))" for t
    by (simp add: process_result_def mid_def Let_def)
  obtain r2 s2 s2' where ms: "mid s = (r2, s2)" "mid s' = (r2, s2')" "same_but_budget s2 s2'"
    using m by (metis prod.collapse)
  obtain e r3 s3 where r3: "recordResult env r2 s2 = (e, r3, s3)" by (metis prod.exhaust)
  obtain e' r3' s3' where r3': "recordResult env r2 s2' = (e', r3', s3')" by (metis prod.exhaust)
  from recordResult_same [OF ms(3) r3 r3'] show ?thesis by (simp add: u ms r3 r3')
qed

lemma process_results_same:
  assumes "same_but_budget s s'"
  shows "fst (process_results env rs s) = fst (process_results env rs s')
    \<and> same_but_budget (snd (process_results env rs s)) (snd (process_results env rs s'))"
  using assms
proof (induction rs arbitrary: s s')
  case (Cons r rs)
  then show ?case using process_result_same [OF Cons.prems, of env r] by (simp add: Let_def case_prod_beta)
qed simp

definition same_loop :: "loop_state \<Rightarrow> loop_state \<Rightarrow> bool" where
  "same_loop l l' \<longleftrightarrow> same_but_budget (lp_sched l) (lp_sched l') \<and> lp_degree l' = lp_degree l \<and> lp_active l' = lp_active l
     \<and> lp_ready l' = lp_ready l \<and> lp_wave l' = lp_wave l \<and> lp_order l' = lp_order l"

lemma sort_same: "same_but_budget s s' \<Longrightarrow> sortResults s' = sortResults s \<and> sortNodeIDs s' = sortNodeIDs s"
  by (auto simp: sortResults_def sortNodeIDs_def same_but_budget_def)

lemma loop_body_same:
  assumes wf: "plan_wf p" and inv: "loop_inv p l" and same: "same_loop l l'"
    and un: "uncapped (lp_sched l)" "uncapped (lp_sched l')"
    and fin: "\<And>m. loop_body env xs l \<noteq> Inl (ScheduleIncomplete, m)" "\<And>m. loop_body env ys l' \<noteq> Inl (ScheduleIncomplete, m)"
  shows "(\<exists>e m m'. loop_body env xs l = Inl (e, m) \<and> loop_body env ys l' = Inl (e, m') \<and> same_loop m m')
    \<or> (\<exists>m m'. loop_body env xs l = Inr m \<and> loop_body env ys l' = Inr m' \<and> same_loop m m'
        \<and> uncapped (lp_sched m) \<and> uncapped (lp_sched m'))"
proof -
  let ?s = "lp_sched l" and ?s' = "lp_sched l'"
  have S: "same_but_budget ?s ?s'" and L: "lp_degree l' = lp_degree l" "lp_active l' = lp_active l" "lp_ready l' = lp_ready l"
    "lp_wave l' = lp_wave l" "lp_order l' = lp_order l" using same by (auto simp: same_loop_def)
  have n: "plan_named (s_plan ?s)" using inv plan_wf_named [OF wf] by (simp add: loop_inv_def)
  have d: "distinct (lp_ready l)"
    using run_inv_distinct(1) [of p "lp_degree l" "lp_ready l" "lp_order l"] inv by (simp add: loop_inv_def)
  obtain r1 s1 where e1: "executeWave env xs (lp_ready l) (lp_active l) ?s = Some (r1, s1)"
    using fin(1) by (cases "executeWave env xs (lp_ready l) (lp_active l) ?s") (auto simp: loop_body_def Let_def)
  obtain r2 s2 where e2: "executeWave env ys (lp_ready l) (lp_active l) ?s' = Some (r2, s2)"
    using fin(2) L by (cases "executeWave env ys (lp_ready l) (lp_active l) ?s'") (auto simp: loop_body_def Let_def)
  note E = executeWave_local [OF n d un S e1 e2]
  have n': "plan_named (s_plan ?s')" using n same_but_budgetD(1) [OF S] by simp
  have S': "same_but_budget ?s' ?s" using same_but_budgetD [OF S] by (simp add: same_but_budget_def)
  have u2: "uncapped s2" by (rule executeWave_local(3) [OF n' d un(2,1) S' e2 e1])
  have sp: "s_plan s1 = s_plan ?s" using executeWave_ids(2) [OF n d e1] .
  then have so: "sortResults s2 r2 = sortResults s1 r1"
    using E(1) same_but_budgetD(1) [OF E(2)] by (simp add: sortResults_def)
  obtain rs t where t: "process_results env (sortResults s1 r1) s1 = (rs, t)"
    by (cases "process_results env (sortResults s1 r1) s1")
  obtain rs2 t' where t2: "process_results env (sortResults s1 r1) s2 = (rs2, t')"
    by (cases "process_results env (sortResults s1 r1) s2")
  have st: "same_but_budget t t'" and t': "process_results env (sortResults s2 r2) s2 = (rs, t')"
    using process_results_same [OF E(2), of env "sortResults s1 r1"] t t2 so by simp_all
  have ut: "uncapped t" "uncapped t'"
    using process_results_frame [OF t] process_results_frame [OF t'] E(3) u2 by (simp_all add: uncapped_def)
  have bb: "s_blackboard ?s' = s_blackboard ?s" "s_blackboard t' = s_blackboard t" "s_plan t' = s_plan t"
    using same_but_budgetD [OF S] same_but_budgetD [OF st] by simp_all
  obtain deg act nxt where a: "advance_results (s_plan t) rs (lp_degree l) (lp_active l) [] = (deg, act, nxt)"
    by (cases "advance_results (s_plan t) rs (lp_degree l) (lp_active l) []") auto
  show ?thesis
    unfolding loop_body_def Let_def L e1 e2 bb
    using st ut a sort_same [OF st]
    by (auto simp: t t' L bb same_loop_def split: option.splits)
qed

lemma wave_loop_same:
  assumes "plan_wf p" "loop_inv p l" "same_loop l l'" "uncapped (lp_sched l)" "uncapped (lp_sched l')"
    and "wave_loop fuel env sch l = (Finished e, m)" "wave_loop fuel env sch' l' = (Finished e', m')"
  shows "e = e' \<and> same_loop m m'"
  using assms(2-7)
proof (induction fuel arbitrary: l l')
  case 0
  have r: "lp_ready l' = lp_ready l" using "0.prems"(2) by (simp add: same_loop_def)
  have "GetTraces (lp_sched l') = GetTraces (lp_sched l)"
    using "0.prems"(2) by (simp add: same_loop_def same_but_budget_def GetTraces_def)
  then show ?case using "0.prems" r by (auto simp: wave_loop.simps [of 0] split: if_splits)
next
  case (Suc fuel)
  have r: "lp_ready l' = lp_ready l" "lp_wave l' = lp_wave l" using Suc.prems(2) by (auto simp: same_loop_def)
  have g: "GetTraces (lp_sched l') = GetTraces (lp_sched l)"
    using Suc.prems(2) by (simp add: same_loop_def same_but_budget_def GetTraces_def)
  show ?case
  proof (cases "lp_ready l = []")
    case True
    then show ?thesis using Suc.prems r g by (auto simp: wave_loop.simps [of "Suc fuel"])
  next
    case False
    have b: "loop_body env (sch (lp_wave l)) l = Inl (Finished e, m)
        \<or> (\<exists>l1. loop_body env (sch (lp_wave l)) l = Inr l1 \<and> wave_loop fuel env sch l1 = (Finished e, m))"
      using Suc.prems(5) False by (auto simp: wave_loop.simps [of "Suc fuel"] split: sum.splits)
    have b': "loop_body env (sch' (lp_wave l)) l' = Inl (Finished e', m')
        \<or> (\<exists>l1. loop_body env (sch' (lp_wave l)) l' = Inr l1 \<and> wave_loop fuel env sch' l1 = (Finished e', m'))"
      using Suc.prems(6) False r by (auto simp: wave_loop.simps [of "Suc fuel"] split: sum.splits)
    have fin: "\<And>x. loop_body env (sch (lp_wave l)) l \<noteq> Inl (ScheduleIncomplete, x)"
      "\<And>x. loop_body env (sch' (lp_wave l)) l' \<noteq> Inl (ScheduleIncomplete, x)" using b b' by auto
    from loop_body_same [OF assms(1) Suc.prems(1-4) fin] show ?thesis
    proof (elim disjE exE conjE)
      fix x k k'
      assume "loop_body env (sch (lp_wave l)) l = Inl (x, k)" "loop_body env (sch' (lp_wave l)) l' = Inl (x, k')" "same_loop k k'"
      then show ?thesis using b b' by auto
    next
      fix k k'
      assume k: "loop_body env (sch (lp_wave l)) l = Inr k" "loop_body env (sch' (lp_wave l)) l' = Inr k'" "same_loop k k'"
        "uncapped (lp_sched k)" "uncapped (lp_sched k')"
      have "wave_loop fuel env sch k = (Finished e, m)" "wave_loop fuel env sch' k' = (Finished e', m')" using b b' k by auto
      from Suc.IH [OF loop_body_Inr(1) [OF assms(1) Suc.prems(1) k(1)] k(3-5) this] show ?thesis .
    qed
  qed
qed

text \<open>Schedules that complete every wave exist, whatever the nodes do.\<close>

lemma wave_loop_schedules_cong:
  assumes "\<And>n. lp_wave l \<le> n \<Longrightarrow> sch n = sch' n"
  shows "wave_loop fuel env sch l = wave_loop fuel env sch' l"
  using assms
proof (induction fuel arbitrary: l)
  case 0
  then show ?case by (simp add: wave_loop.simps [of 0])
next
  case (Suc fuel)
  have "lp_wave l1 = Suc (lp_wave l)" if "loop_body env xs l = Inr l1" for xs l1
    using that unfolding loop_body_def by (auto simp: Let_def split: option.splits prod.splits)
  then have "wave_loop fuel env sch l1 = wave_loop fuel env sch' l1" if "loop_body env xs l = Inr l1" for xs l1
    using that Suc.prems by (intro Suc.IH) (metis Suc_leD)
  then show ?case using Suc.prems [of "lp_wave l"] by (auto simp: wave_loop.simps [of "Suc fuel"] split: sum.splits)
qed

lemma wave_loop_can_finish:
  assumes wf: "plan_wf p" and ac: "acyclic (plan_rel p)" and "loop_inv p l" "length (plan_ids p) \<le> fuel + length (lp_order l)"
  shows "\<exists>sch e m. wave_loop fuel env sch l = (Finished e, m)"
  using assms(3,4)
proof (induction fuel arbitrary: l)
  case 0
  have "fst (wave_loop 0 env (\<lambda>_. []) l) \<noteq> OutOfFuel"
    using wave_loop_run [OF wf ac 0, of env "\<lambda>_. []"] by (cases "wave_loop 0 env (\<lambda>_. []) l") simp
  then show ?case by (auto simp: wave_loop.simps [of 0] split: if_splits)
next
  case (Suc fuel)
  show ?case
  proof (cases "lp_ready l = []")
    case True
    then show ?thesis by (simp add: wave_loop.simps [of "Suc fuel"])
  next
    case False
    let ?s = "lp_sched l"
    have n: "plan_named (s_plan ?s)" using Suc.prems(1) plan_wf_named [OF wf] by (simp add: loop_inv_def)
    have d: "distinct (lp_ready l)"
      using run_inv_distinct(1) [of p "lp_degree l" "lp_ready l" "lp_order l"] Suc.prems(1) by (simp add: loop_inv_def)
    obtain xs rs s1 where x: "executeWave env ([] @ xs) (lp_ready l) (lp_active l) ?s = Some (rs, s1)"
      using executeWave_extends [OF n d] by blast
    have ni: "loop_body env xs l \<noteq> Inl (ScheduleIncomplete, k)" for k
      using x by (auto simp: loop_body_def Let_def split: prod.splits option.splits)
    show ?thesis
    proof (cases "loop_body env xs l")
      case (Inl r)
      obtain e k where r: "r = (e, k)" by (cases r)
      then obtain err where "e = Finished (Some err)"
        using loop_body_Inl(2) [OF wf Suc.prems(1) Inl [unfolded r]] Inl r ni by blast
      then have "wave_loop (Suc fuel) env (\<lambda>_. xs) l = (Finished (Some err), k)"
        using Inl r False by (simp add: wave_loop.simps [of "Suc fuel"])
      then show ?thesis by blast
    next
      case (Inr l1)
      note B = loop_body_Inr [OF wf Suc.prems(1) Inr]
      have "length (lp_order l1) = length (lp_order l) + length (lp_ready l)" using B(2) by (metis size_mset size_union)
      then have len: "length (plan_ids p) \<le> fuel + length (lp_order l1)" using Suc.prems(2) False by (cases "lp_ready l") auto
      obtain sch e m where s: "wave_loop fuel env sch l1 = (Finished e, m)" using Suc.IH [OF B(1) len] by blast
      have w: "lp_wave l1 = Suc (lp_wave l)"
        using Inr unfolding loop_body_def by (auto simp: Let_def split: option.splits prod.splits)
      have "wave_loop fuel env (sch(lp_wave l := xs)) l1 = (Finished e, m)"
        using wave_loop_schedules_cong [of l1 "sch(lp_wave l := xs)" sch fuel env] s w by simp
      then have "wave_loop (Suc fuel) env (sch(lp_wave l := xs)) l = (Finished e, m)"
        using Inr False by (simp add: wave_loop.simps [of "Suc fuel"])
      then show ?thesis by blast
    qed
  qed
qed

lemma Execute_can_finish:
  assumes "Compile definition = Inr (s_plan s)"
  shows "\<exists>schedules r l. Execute env schedules inputs s = (Finished r, l)"
proof -
  note C = Compile_plan_wf [OF assms]
  show ?thesis
    unfolding Execute_def executePrepared_def Let_def
    by (rule wave_loop_can_finish [OF C(1,3) Execute_start [OF C(1)]]) (simp add: plan_ids_def)
qed

text \<open>
  C29. A run respects the graph and ends. Whatever the nodes do, whatever the interleavings are and
  wherever an error stops it, the run of a compiled plan merges every node at most once, and only
  after all of its predecessors; the loop takes at most one round per node. A run that returns no
  error has merged every node of the plan, and every node ended in success or was skipped.
\<close>

theorem Execute_order:
  assumes "Compile definition = Inr (s_plan s)" "Execute env schedules inputs s = (e, l)"
  shows "e \<noteq> OutOfFuel \<and> distinct (lp_order l) \<and> set (lp_order l) \<subseteq> set (map n_ID (p_nodes (s_plan s)))
    \<and> (\<forall>k < length (lp_order l). \<forall>x \<in> set (p_edges (s_plan s)).
          e_Target x = lp_order l ! k \<longrightarrow> e_Source x \<in> set (take k (lp_order l)))
    \<and> (e = Finished None \<longrightarrow> set (lp_order l) = set (map n_ID (p_nodes (s_plan s)))
        \<and> (\<forall>t\<in>set (GetTraces (lp_sched l)). nt_Status t = NodeStatusSuccess \<or> nt_Status t = NodeStatusSkipped))"
proof -
  note C = Compile_plan_wf [OF assms(1)]
  have "e \<noteq> OutOfFuel \<and> order_ok (s_plan s) (lp_order l) \<and> s_plan (lp_sched l) = s_plan s
    \<and> (e = Finished None \<longrightarrow> set (lp_order l) = set (plan_ids (s_plan s))
        \<and> (\<forall>t\<in>set (GetTraces (lp_sched l)). nt_Status t = NodeStatusSuccess \<or> nt_Status t = NodeStatusSkipped))"
    using assms(2) unfolding Execute_def executePrepared_def Let_def
    by (intro wave_loop_run [OF C(1,3) Execute_start [OF C(1)]]) (auto simp: plan_ids_def)
  then show ?thesis by (auto simp: order_ok_def ordered_prefix_def plan_ids_def)
qed

theorem Execute_order_witness:
  "\<exists>p schedules r l. Compile (Some (demo_workflow demo_edges)) = Inr p
     \<and> Execute demo_env schedules Map.empty (demo_sched None p) = (Finished r, l)
     \<and> distinct (lp_order l) \<and> set (lp_order l) \<subseteq> set (map n_ID (p_nodes p))"
proof -
  obtain p where p: "Compile (Some (demo_workflow demo_edges)) = Inr p" by (rule demo_compile_plan)
  have c: "Compile (Some (demo_workflow demo_edges)) = Inr (s_plan (demo_sched None p))" using p by (simp add: demo_sched_def)
  obtain schedules r l where e: "Execute demo_env schedules Map.empty (demo_sched None p) = (Finished r, l)"
    using Execute_can_finish [OF c] by blast
  show ?thesis using Execute_order [OF c e] p e by (auto simp: demo_sched_def)
qed

text \<open>
  C30. Runs are deterministic: two runs of a compiled plan from the same scheduler, in the same
  environment and without a step limit, under any two families of interleavings that complete,
  return the same error or success and leave the same blackboard, the same traces, the same event
  log and the same merge order.
\<close>

theorem Execute_deterministic:
  assumes "Compile definition = Inr (s_plan s)" "uncapped s"
    and "Execute env schedules1 inputs s = (Finished r1, l1)" "Execute env schedules2 inputs s = (Finished r2, l2)"
  shows "r1 = r2 \<and> s_blackboard (lp_sched l1) = s_blackboard (lp_sched l2) \<and> s_traces (lp_sched l1) = s_traces (lp_sched l2)
    \<and> lp_order l1 = lp_order l2"
proof -
  note C = Compile_plan_wf [OF assms(1)]
  have "r1 = r2 \<and> same_loop l1 l2"
    using assms(2-4) unfolding Execute_def executePrepared_def Let_def
    by (intro wave_loop_same [OF C(1) Execute_start [OF C(1)]]) (auto simp: same_loop_def same_but_budget_def uncapped_def)
  then show ?thesis by (auto simp: same_loop_def same_but_budget_def)
qed

theorem Execute_deterministic_witness:
  "\<exists>p schedules r l. Compile (Some (demo_workflow demo_edges)) = Inr p
     \<and> Execute demo_env schedules Map.empty (demo_sched None p) = (Finished r, l)
     \<and> (\<forall>schedules' r' l'. Execute demo_env schedules' Map.empty (demo_sched None p) = (Finished r', l')
          \<longrightarrow> r' = r \<and> s_blackboard (lp_sched l') = s_blackboard (lp_sched l))"
proof -
  obtain p where p: "Compile (Some (demo_workflow demo_edges)) = Inr p" by (rule demo_compile_plan)
  have c: "Compile (Some (demo_workflow demo_edges)) = Inr (s_plan (demo_sched None p))" "uncapped (demo_sched None p)"
    using p by (simp_all add: demo_sched_def uncapped_def)
  obtain schedules r l where e: "Execute demo_env schedules Map.empty (demo_sched None p) = (Finished r, l)"
    using Execute_can_finish [OF c(1)] by blast
  show ?thesis using Execute_deterministic [OF c _ e] p e by blast
qed

end
