(* ===== verification/Scheduler_Resume.thy ===== *)
theory Scheduler_Resume
  imports Scheduler_Runs
begin

text \<open>
  How runs of the scheduler end: a run from the start never stalls, and what a run that continues a
  checkpoint can reach.
\<close>

section \<open>Which traces a wave touches\<close>

lemma run_wave_trace_other:
  assumes "plan_named (s_plan s)" "distinct ids" "j \<notin> set ids"
  shows "s_traces (w_sched (run_wave env xs ids act s)) j = s_traces s j"
proof -
  let ?step = "wave_step env (View (s_blackboard s)) (parallelism s ids) ids"
  have "s_traces (w_sched (fold ?step xs w)) j = s_traces (w_sched w) j"
    if "wave_inv ids w" "plan_named (s_plan (w_sched w))" for w
    using that
  proof (induction xs arbitrary: w)
    case (Cons i xs)
    have "s_traces (w_sched (?step i w)) j = s_traces (w_sched w) j"
    proof (cases "i = j")
      case True
      then have "?step i w = w" using Cons.prems(1) assms(3) by (simp add: wave_inv_def wave_step_def split: option.splits)
      then show ?thesis by simp
    next
      case False
      then have "local_of j (?step i w) = local_of j w" using wave_step_frame(5) [OF Cons.prems(2)] by metis
      then show ?thesis by (simp add: local_of_def)
    qed
    then show ?case
      using Cons.IH [of "?step i w"] wave_step_inv [OF Cons.prems] wave_step_frame(1) [OF Cons.prems(2)] Cons.prems(2) by simp
  qed simp
  then show ?thesis using start_wave_inv [OF assms(2,1)] assms(1) by (simp add: run_wave_def)
qed

text \<open>A result names its node, or reports that there is none.\<close>

definition result_named :: "nodeResult \<Rightarrow> bool" where
  "result_named r \<longleftrightarrow> (case nr_node r of None \<Rightarrow> nr_err r \<noteq> None | Some n \<Rightarrow> n_ID n = nr_id r)"

lemma executeWave_named:
  assumes "plan_named (s_plan s)" "distinct ids" "executeWave env xs ids act s = Some (rs, s1)" "r \<in> set rs"
  shows "result_named r"
proof -
  let ?P = "\<lambda>w. \<forall>r\<in>set (w_results w). result_named r"
  have l: "?P (fold (launch env act) js w)" if "?P w" "plan_named (s_plan (w_sched w))" for js w
    using that
  proof (induction js arbitrary: w)
    case (Cons i js)
    have "?P (launch env act i w)"
      using Cons.prems by (auto simp: launch_def result_named_def plan_named_def split: option.splits)
    then show ?case using Cons.IH [of "launch env act i w"] Cons.prems(2) by (simp add: launch_frame)
  qed simp
  have st: "?P (wave_step env view par ids i w)" if "?P w" for view par i w
    using that by (cases rule: wave_step_cases [of env view par ids i w])
      (auto simp: settle_simps result_named_def node_result_def split: nphase.splits)
  have "?P (fold (wave_step env view par ids) ys w)" if "?P w" for view par ys w
    using that
  proof (induction ys arbitrary: w)
    case (Cons y ys)
    show ?case using Cons.IH [OF st [OF Cons.prems]] by simp
  qed simp
  then have "?P (run_wave env xs ids act s)"
    unfolding run_wave_def start_wave_def using l [of "\<lparr>w_phase = Map.empty, w_results = [], w_sched = s\<rparr>" ids] assms(1) by auto
  then show ?thesis using assms(3,4) by (simp add: executeWave_def Let_def split: if_splits)
qed

lemma recordResult_trace:
  assumes "recordResult env r s = (e, r', s')"
  shows "j \<noteq> nr_nodeID r \<Longrightarrow> s_traces s' j = s_traces s j"
    and "nr_err r = None \<Longrightarrow> e = None \<Longrightarrow> \<exists>t. s_traces s' (nr_nodeID r) = Some t
      \<and> (nt_Status t = NodeStatusSuccess \<or> nt_Status t = NodeStatusSkipped)"
  using assms unfolding recordResult_def markNodeSuccess_def
  by (auto simp: Let_def store_trace_def set_trace_def finishNodeTrace_def
      split: if_splits option.splits sum.splits prod.splits)

lemma recordResult_status:
  assumes "recordResult env r s = (e, r', s')" "nr_err r = None" "e = None"
  shows "\<exists>t. s_traces s' (nr_nodeID r) = Some t \<and> (nt_Status t = NodeStatusSuccess \<or> nt_Status t = NodeStatusSkipped)"
  by (rule recordResult_trace(2) [OF assms])

lemma process_result_trace:
  assumes "process_result env r s = (r', s')" "result_named r"
  shows "j \<noteq> nr_id r \<Longrightarrow> j \<noteq> [] \<Longrightarrow> s_traces s' j = s_traces s j"
    and "nr_err r' = None \<Longrightarrow> \<exists>t. s_traces s' (nr_id r) = Some t
      \<and> (nt_Status t = NodeStatusSuccess \<or> nt_Status t = NodeStatusSkipped)"
proof -
  obtain r2 s2 e r3 s3 where rec: "recordResult env r2 s2 = (e, r3, s3)"
    and out: "r' = r3\<lparr>nr_err := join_err (nr_err r3) e\<rparr>" "s' = s3"
    and mid: "nr_node r2 = nr_node r" "nr_id r2 = nr_id r" "s_traces s2 = s_traces s" "nr_err r \<noteq> None \<Longrightarrow> nr_err r2 \<noteq> None"
    using assms(1) unfolding process_result_def
    by (auto simp: Let_def split: if_splits option.splits sum.splits prod.splits)
  note R = recordResult_trace(1) [OF rec] recordResult_status [OF rec] recordResult_frame [OF rec]
  have id: "nr_nodeID r2 = (case nr_node r of None \<Rightarrow> [] | Some n \<Rightarrow> nr_id r)"
    using assms(2) mid(1) by (auto simp: nr_nodeID_def result_named_def split: option.splits)
  show "s_traces s' j = s_traces s j" if "j \<noteq> nr_id r" "j \<noteq> []"
    using R(1) [of j] that id out(2) mid(3) by (auto split: option.splits)
  show "\<exists>t. s_traces s' (nr_id r) = Some t \<and> (nt_Status t = NodeStatusSuccess \<or> nt_Status t = NodeStatusSkipped)" if "nr_err r' = None"
  proof -
    have en: "nr_err r3 = None" "e = None" using that out(1) by (cases "nr_err r3"; cases e; simp add: join_err_def)+
    then have "nr_err r2 = None" using R(3) by simp
    then have "nr_node r \<noteq> None" using mid(4) assms(2) by (cases "nr_node r") (auto simp: result_named_def)
    then have "nr_nodeID r2 = nr_id r" using id by (auto split: option.splits)
    then show ?thesis using R(2) \<open>nr_err r2 = None\<close> en(2) out(2) by simp
  qed
qed

definition trace_settled :: "Scheduler \<Rightarrow> string \<Rightarrow> bool" where
  "trace_settled s i \<longleftrightarrow> (\<exists>t. s_traces s i = Some t \<and> (nt_Status t = NodeStatusSuccess \<or> nt_Status t = NodeStatusSkipped))"

lemma process_results_traces:
  assumes "process_results env rs s = (rs', s')" "\<forall>r\<in>set rs. result_named r" "distinct (map nr_id rs)"
  shows "(\<forall>j. j \<notin> set (map nr_id rs) \<longrightarrow> j \<noteq> [] \<longrightarrow> s_traces s' j = s_traces s j)
    \<and> ((\<forall>r\<in>set rs'. nr_err r = None) \<longrightarrow> [] \<notin> set (map nr_id rs) \<longrightarrow> (\<forall>i\<in>set (map nr_id rs). trace_settled s' i))"
  using assms
proof (induction rs arbitrary: s rs')
  case (Cons r rs)
  obtain r1 s1 rs1 where p: "process_result env r s = (r1, s1)" "process_results env rs s1 = (rs1, s')" "rs' = r1 # rs1"
    using Cons.prems(1) by (auto split: prod.splits)
  have IH: "(\<forall>j. j \<notin> set (map nr_id rs) \<longrightarrow> j \<noteq> [] \<longrightarrow> s_traces s' j = s_traces s1 j)
    \<and> ((\<forall>r\<in>set rs1. nr_err r = None) \<longrightarrow> [] \<notin> set (map nr_id rs) \<longrightarrow> (\<forall>i\<in>set (map nr_id rs). trace_settled s' i))"
    using Cons.IH [OF p(2)] Cons.prems(2,3) by simp
  have n: "result_named r" and d: "nr_id r \<notin> set (map nr_id rs)" using Cons.prems(2,3) by auto
  note T = process_result_trace [OF p(1) n]
  have same: "s_traces s' j = s_traces s j" if "j \<notin> set (map nr_id (r # rs))" "j \<noteq> []" for j
    using IH T(1) [of j] that by simp
  have "trace_settled s' (nr_id r)" if "nr_err r1 = None" "nr_id r \<noteq> []"
    using T(2) [OF that(1)] IH d that(2) by (simp add: trace_settled_def)
  then show ?case using same IH p(3) by auto
qed simp

lemma wave_traces:
  assumes "plan_named (s_plan s)" "distinct ids" "executeWave env xs ids act s = Some (rs, s1)"
    "process_results env (sortResults s1 rs) s1 = (rs', s2)"
  shows "\<And>j. j \<notin> set ids \<Longrightarrow> j \<noteq> [] \<Longrightarrow> s_traces s2 j = s_traces s j"
    and "\<forall>r\<in>set rs'. nr_err r = None \<Longrightarrow> [] \<notin> set ids \<Longrightarrow> i \<in> set ids \<Longrightarrow> trace_settled s2 i"
    and "mset (map nr_id rs') = mset ids" "s_plan s2 = s_plan s"
proof -
  note E = executeWave_ids [OF assms(1-3)]
  note P = process_results_frame [OF assms(4)]
  have m: "mset (map nr_id (sortResults s1 rs)) = mset ids" using E(1) by (metis mset_map mset_sortResults)
  have st: "set (map nr_id (sortResults s1 rs)) = set ids" using m by (metis set_mset_mset)
  have dt: "distinct (map nr_id (sortResults s1 rs))" using m assms(2) by (metis mset_eq_imp_distinct_iff)
  have named: "\<forall>r\<in>set (sortResults s1 rs). result_named r"
    using executeWave_named [OF assms(1-3)] by (metis mset_sortResults set_mset_mset)
  note T = process_results_traces [OF assms(4) named dt, unfolded st]
  show "s_traces s2 j = s_traces s j" if "j \<notin> set ids" "j \<noteq> []" for j
  proof -
    have "s1 = w_sched (run_wave env xs ids act s)" using assms(3) by (simp add: executeWave_def Let_def split: if_splits)
    then show ?thesis using run_wave_trace_other [OF assms(1,2) that(1)] T that by auto
  qed
  show "trace_settled s2 i" if "\<forall>r\<in>set rs'. nr_err r = None" "[] \<notin> set ids" "i \<in> set ids" using T that by auto
  show "mset (map nr_id rs') = mset ids" using P m by simp
  show "s_plan s2 = s_plan s" using P E(2) by simp
qed

lemma compileNode_id: "compileNode source index = Inr n \<Longrightarrow> n_ID n \<noteq> []"
  unfolding compileNode_def by (auto simp: Let_def split: if_splits)

lemma compile_nodes_ids: "compile_nodes index ns p = Inr q \<Longrightarrow> [] \<notin> set (plan_ids p) \<Longrightarrow> [] \<notin> set (plan_ids q)"
proof (induction index ns p rule: compile_nodes.induct)
  case (2 index source rest p)
  then obtain n where n: "compileNode source index = Inr n" "p_nodeByID p (n_ID n) = None"
    and rest: "compile_nodes (Suc index) rest (add_node p n index) = Inr q"
    by (auto split: if_splits)
  show ?case using "2.IH" [OF n(1)] n rest "2.prems"(2) compileNode_id [OF n(1)] by (simp add: add_node_def plan_ids_def)
qed simp

lemma Compile_ids_nonempty: "Compile definition = Inr p \<Longrightarrow> [] \<notin> set (plan_ids p)"
proof -
  assume "Compile definition = Inr p"
  then obtain d :: WorkflowDSL and p1 p2 t where s: "compile_nodes 0 (wf_Nodes d) (empty_plan CurrentVersion (p_workflowVersion p)) = Inr p1"
    "compile_edges (wf_Edges d) [] p1 = Inr p2" "p = (sort_outgoing p2)\<lparr>p_topological := t\<rparr>"
    by (rule Compile_InrE) blast
  have "p_nodes p2 = p_nodes p1"
    using compile_edges_wf [OF s(2)] compile_nodes_wf [OF s(1) plan_wf_empty] by (simp add: empty_plan_def)
  then show ?thesis using compile_nodes_ids [OF s(1)] s(3) by (simp add: plan_ids_def empty_plan_def sort_outgoing_def)
qed

section \<open>A run from the start never stalls\<close>

text \<open>
  The documented behaviour of a context: \<^verbatim>\<open>ctx.Err()\<close> is nil, \<^verbatim>\<open>context.Canceled\<close> or
  \<^verbatim>\<open>context.DeadlineExceeded\<close>, and does not change any more once it is not nil.
\<close>

definition ctx_contract :: "(nat \<Rightarrow> gerr option) \<Rightarrow> bool" where
  "ctx_contract c \<longleftrightarrow> (\<forall>k. c k \<in> {None, Some ECanceled, Some EDeadline} \<and> (c k \<noteq> None \<longrightarrow> c (Suc k) = c k))"

lemma selectWaveError_ctx: "ctx_contract c \<Longrightarrow> c k \<noteq> None \<Longrightarrow> selectWaveError c k rs \<noteq> None"
proof (induction rs arbitrary: k)
  case (Cons r rs)
  have "c (Suc k) \<noteq> None" using Cons.prems by (auto simp: ctx_contract_def)
  then show ?case using Cons.IH [OF Cons.prems(1)] by (auto split: option.splits)
qed simp

lemma selectWaveError_None: "ctx_contract c \<Longrightarrow> selectWaveError c k rs = None \<Longrightarrow> \<forall>r\<in>set rs. nr_err r = None"
proof (induction rs arbitrary: k)
  case (Cons r rs)
  have "nr_err r = None"
  proof (rule ccontr)
    assume "nr_err r \<noteq> None"
    then have "c k \<noteq> None" "selectWaveError c (Suc k) rs = None"
      using Cons.prems(2) by (auto split: option.splits if_splits)
    then show False using selectWaveError_ctx [OF Cons.prems(1), of "Suc k" rs] Cons.prems(1) by (auto simp: ctx_contract_def)
  qed
  then show ?case using Cons by auto
qed simp

lemma selectWaveError_not_msg: "ctx_contract c \<Longrightarrow> selectWaveError c k rs \<noteq> Some (EMsg m)"
proof (induction rs arbitrary: k)
  case Nil
  have "c k \<in> {None, Some ECanceled, Some EDeadline}" using Nil by (simp add: ctx_contract_def)
  then show ?case by auto
qed (auto split: option.splits)

definition ordered_settled :: "loop_state \<Rightarrow> bool" where
  "ordered_settled l \<longleftrightarrow> (\<forall>i\<in>set (lp_order l). trace_settled (lp_sched l) i)"

lemma loop_body_settled:
  assumes wf: "plan_wf p" "[] \<notin> set (plan_ids p)" and inv: "loop_inv p l" and ctx: "\<And>n. ctx_contract (env_wave_ctx env n)"
  shows "loop_body env xs l = Inr l' \<Longrightarrow> ordered_settled l \<Longrightarrow> ordered_settled l'"
    and "loop_body env xs l = Inl (Finished (Some (EMsg m)), l') \<Longrightarrow> False"
proof -
  have r: "run_inv p (lp_degree l) (lp_ready l) (lp_order l)" and p: "s_plan (lp_sched l) = p" using inv by (auto simp: loop_inv_def)
  have n: "plan_named (s_plan (lp_sched l))" using plan_wf_named [OF wf(1)] p by simp
  have d: "distinct (lp_ready l)" "set (lp_order l) \<inter> set (lp_ready l) = {}" "[] \<notin> set (lp_order l @ lp_ready l)"
    using run_inv_distinct [OF r] wf(2) by auto
  show "ordered_settled l'" if b: "loop_body env xs l = Inr l'" and o: "ordered_settled l"
  proof -
    obtain rs s1 rs' s2 where
      e: "executeWave env xs (lp_ready l) (lp_active l) (lp_sched l) = Some (rs, s1)"
      and pr: "process_results env (sortResults s1 rs) s1 = (rs', s2)"
      and sel: "selectWaveError (env_wave_ctx env (lp_wave l)) 0 rs' = None"
      and l': "lp_sched l' = s2" "lp_order l' = lp_order l @ map nr_id rs'"
      using b unfolding loop_body_def by (auto simp: Let_def split: option.splits prod.splits)
    note W = wave_traces [OF n d(1) e pr]
    have "set (map nr_id rs') = set (lp_ready l)" using W(3) by (metis set_mset_mset)
    moreover have "trace_settled s2 i" if "i \<in> set (lp_ready l)" for i
      using W(2) [OF selectWaveError_None [OF ctx sel]] d(3) that by simp
    moreover have "trace_settled s2 i" if "i \<in> set (lp_order l)" for i
    proof -
      have "s_traces s2 i = s_traces (lp_sched l) i" using W(1) d(2,3) that by (metis disjoint_iff Un_iff set_append)
      then show ?thesis using o that by (simp add: ordered_settled_def trace_settled_def)
    qed
    ultimately show ?thesis unfolding ordered_settled_def l' set_append by blast
  qed
  show False if "loop_body env xs l = Inl (Finished (Some (EMsg m)), l')"
    using that selectWaveError_not_msg [OF ctx] unfolding loop_body_def
    by (auto simp: Let_def persist_def split: option.splits prod.splits if_splits)
qed

lemma settled_loop_end:
  assumes "plan_wf p" "acyclic (plan_rel p)" "loop_inv p l" "ordered_settled l" "lp_ready l = []"
  shows "first_stalled (GetTraces (lp_sched l)) = None"
proof -
  have "run_inv p (lp_degree l) [] (lp_order l)" "s_plan (lp_sched l) = p" using assms(3,5) by (auto simp: loop_inv_def)
  then have "set (lp_order l) = n_ID ` set (p_nodes (s_plan (lp_sched l)))"
    using run_inv_complete [OF _ assms(1,2)] by (simp add: plan_ids_def)
  then show ?thesis using assms(4) by (fastforce simp: first_stalled_None GetTraces_def ordered_settled_def trace_settled_def)
qed

lemma wave_loop_never_stalls:
  assumes wf: "plan_wf p" "[] \<notin> set (plan_ids p)" "acyclic (plan_rel p)" and ctx: "\<And>n. ctx_contract (env_wave_ctx env n)"
    and "loop_inv p l" "ordered_settled l"
  shows "wave_loop fuel env schedules l \<noteq> (Finished (Some (EMsg m)), l')"
  using assms(5,6)
proof (induction fuel arbitrary: l)
  case 0
  show ?case using settled_loop_end [OF wf(1,3) 0] by (simp add: wave_loop.simps [of 0])
next
  case (Suc fuel)
  show ?case
  proof (cases "lp_ready l = []")
    case True
    then show ?thesis using settled_loop_end [OF wf(1,3) Suc.prems] by (simp add: wave_loop.simps [of "Suc fuel"])
  next
    case False
    show ?thesis
    proof (cases "loop_body env (schedules (lp_wave l)) l")
      case (Inl x)
      then show ?thesis using loop_body_settled(2) [OF wf(1,2) Suc.prems(1) ctx] False
        by (auto simp: wave_loop.simps [of "Suc fuel"])
    next
      case (Inr l1)
      then show ?thesis
        using Suc.IH [OF loop_body_Inr(1) [OF wf(1) Suc.prems(1) Inr] loop_body_settled(1) [OF wf(1,2) Suc.prems(1) ctx Inr Suc.prems(2)]] False
        by (simp add: wave_loop.simps [of "Suc fuel"])
    qed
  qed
qed

text \<open>
  C31. A run from the start never stalls: when the context behaves as documented, the final check of
  \<^verbatim>\<open>executePrepared\<close>, which looks for a node that neither succeeded nor was skipped and is the only
  source of a bare message error, never fires. A run that fails was stopped by a node's error, a
  suspension, the persistence hook or the context.
\<close>

theorem Execute_never_stalls:
  assumes "Compile definition = Inr (s_plan s)" "\<And>n. ctx_contract (env_wave_ctx env n)"
  shows "Execute env schedules inputs s \<noteq> (Finished (Some (EMsg m)), l)"
proof -
  note C = Compile_plan_wf [OF assms(1)]
  show ?thesis unfolding Execute_def executePrepared_def Let_def
    by (rule wave_loop_never_stalls [OF C(1) Compile_ids_nonempty [OF assms(1)] C(3) assms(2) Execute_start [OF C(1)]])
      (simp add: ordered_settled_def)
qed

theorem Execute_never_stalls_witness:
  "\<exists>p schedules r l. Compile (Some (demo_workflow demo_edges)) = Inr p
     \<and> Execute demo_env schedules Map.empty (demo_sched None p) = (Finished r, l) \<and> (\<forall>m. r \<noteq> Some (EMsg m))"
proof -
  obtain p where p: "Compile (Some (demo_workflow demo_edges)) = Inr p" by (rule demo_compile_plan)
  have c: "Compile (Some (demo_workflow demo_edges)) = Inr (s_plan (demo_sched None p))" using p by (simp add: demo_sched_def)
  have x: "\<And>n. ctx_contract (env_wave_ctx demo_env n)" by (simp add: ctx_contract_def demo_env_def)
  obtain schedules r l where e: "Execute demo_env schedules Map.empty (demo_sched None p) = (Finished r, l)"
    using Execute_can_finish [OF c] by blast
  show ?thesis using Execute_never_stalls [OF c x, of schedules "Map.empty"] p e by blast
qed

section \<open>Continuing a checkpoint\<close>

text \<open>
  A run that continues a checkpoint starts from what the checkpoint says, which need not be a state
  of a run. Still no node becomes ready twice: a node is made ready when its degree reaches zero,
  and degrees only fall.
\<close>

definition ready_once :: "(string \<rightharpoonup> int) \<Rightarrow> string list \<Rightarrow> bool" where
  "ready_once deg q \<longleftrightarrow> distinct q \<and> (\<forall>i\<in>set q. map_get 0 deg i \<le> 0)"

lemma advance_edges_ready_once:
  "advance_edges router br ex es deg act q = (deg', act', q') \<Longrightarrow> ready_once deg (pre @ q) \<Longrightarrow>
     ready_once deg' (pre @ q') \<and> set q' \<subseteq> set q \<union> e_Target ` set es"
proof (induction es arbitrary: deg act q)
  case (Cons e es)
  let ?d = "map_get 0 deg (e_Target e) - 1"
  let ?deg = "deg(e_Target e \<mapsto> ?d)" and ?q = "if ?d = 0 then q @ [e_Target e] else q"
  have up: "map_get 0 ?deg i = (if i = e_Target e then ?d else map_get 0 deg i)" for i by (simp add: map_get_def)
  have "ready_once ?deg (pre @ ?q)"
  proof (cases "e_Target e \<in> set (pre @ q)")
    case True
    then have "map_get 0 deg (e_Target e) \<le> 0" using Cons.prems(2) unfolding ready_once_def by blast
    then have "?q = q" "?d \<le> 0" by auto
    then show ?thesis using Cons.prems(2) unfolding ready_once_def up by auto
  next
    case False
    then show ?thesis using Cons.prems(2) unfolding ready_once_def up by auto
  qed
  from Cons.IH [OF _ this] Cons.prems(1) show ?case by (auto simp: Let_def simp del: fun_upd_apply split: if_splits)
qed simp

lemma advanceDownstream_ready_once:
  assumes "plan_wf p" "advanceDownstream p i out ex deg act q = (deg', act', q')" "ready_once deg (pre @ q)"
  shows "ready_once deg' (pre @ q') \<and> set q' \<subseteq> set q \<union> e_Target ` set (p_edges p)"
proof -
  have "set (Plan_Outgoing p i) \<subseteq> set (p_edges p)"
    using plan_wf_D(8) [OF assms(1), of i] by (metis filter_is_subset set_mset_mset)
  then show ?thesis using advance_edges_ready_once [OF assms(2) [unfolded advanceDownstream_def] assms(3)] by blast
qed

lemma advance_results_ready_once:
  "advance_results p rs deg act q = (deg', act', q') \<Longrightarrow> plan_wf p \<Longrightarrow> ready_once deg (pre @ q) \<Longrightarrow>
     ready_once deg' (pre @ q') \<and> set q' \<subseteq> set q \<union> e_Target ` set (p_edges p)"
proof (induction rs arbitrary: deg act q)
  case (Cons r rs)
  obtain d1 a1 q1 where a: "advanceDownstream p (nr_id r) (nr_outputs r) (\<not> nr_skipped r) deg act q = (d1, a1, q1)"
    by (cases "advanceDownstream p (nr_id r) (nr_outputs r) (\<not> nr_skipped r) deg act q") auto
  note A = advanceDownstream_ready_once [OF Cons.prems(2) a Cons.prems(3)]
  from Cons.IH [OF _ Cons.prems(2)] A Cons.prems(1) a show ?case by fastforce
qed simp

lemma replay_nodes_ready_once:
  "replay_nodes s terminal js deg act q = (deg', act', q') \<Longrightarrow> plan_wf (s_plan s) \<Longrightarrow> ready_once deg q \<Longrightarrow>
     ready_once deg' q' \<and> set q' \<subseteq> set q \<union> e_Target ` set (p_edges (s_plan s))"
proof (induction js arbitrary: deg act q)
  case (Cons j js)
  show ?case
  proof (cases "terminal j")
    case None
    then show ?thesis using Cons by simp
  next
    case (Some t)
    obtain d1 a1 q1 where a: "replayDownstream s j (nt_Status t = NodeStatusSuccess) deg act q = (d1, a1, q1)"
      by (cases "replayDownstream s j (nt_Status t = NodeStatusSuccess) deg act q") auto
    have "ready_once d1 q1 \<and> set q1 \<subseteq> set q \<union> e_Target ` set (p_edges (s_plan s))"
      using advanceDownstream_ready_once [OF Cons.prems(2) a [unfolded replayDownstream_def], of "[]"] Cons.prems(3) by simp
    then show ?thesis using Cons.IH [of d1 a1 q1] Cons.prems(1,2) Some a by fastforce
  qed
qed simp

text \<open>What stays true of a node that is not ready and has no incoming edge.\<close>

definition resume_inv :: "Plan \<Rightarrow> string \<Rightarrow> string \<Rightarrow> NodeTrace option \<Rightarrow> loop_state \<Rightarrow> bool" where
  "resume_inv p cur y t l \<longleftrightarrow> s_plan (lp_sched l) = p \<and> ready_once (lp_degree l) (lp_order l @ lp_ready l)
     \<and> set (lp_order l @ lp_ready l) \<subseteq> insert cur (set (plan_ids p)) \<and> y \<notin> set (lp_order l @ lp_ready l)
     \<and> s_traces (lp_sched l) y = t"

lemma ready_once_mset: "mset q = mset q' \<Longrightarrow> ready_once deg q \<Longrightarrow> ready_once deg q'"
  unfolding ready_once_def by (metis mset_eq_imp_distinct_iff mset_eq_setD)

lemma loop_body_resume:
  assumes wf: "plan_wf p" and y: "y \<notin> e_Target ` set (p_edges p)" "y \<noteq> []" and inv: "resume_inv p cur y t l"
  shows "loop_body env xs l = Inr l' \<Longrightarrow> resume_inv p cur y t l' \<and> length (lp_order l') = length (lp_order l) + length (lp_ready l)"
    and "loop_body env xs l = Inl (e, l') \<Longrightarrow> y \<notin> set (lp_order l') \<and> (e = ScheduleIncomplete \<or> (\<exists>err. e = Finished (Some err)))"
proof -
  let ?s = "lp_sched l"
  have p: "s_plan ?s = p" using inv by (simp add: resume_inv_def)
  have n: "plan_named (s_plan ?s)" using plan_wf_named [OF wf] p by simp
  have d: "distinct (lp_ready l)" and yr: "y \<notin> set (lp_ready l)" using inv by (auto simp: resume_inv_def ready_once_def)
  show "resume_inv p cur y t l' \<and> length (lp_order l') = length (lp_order l) + length (lp_ready l)" if b: "loop_body env xs l = Inr l'"
  proof -
    obtain rs s1 rs' s2 deg act nxt where
      e: "executeWave env xs (lp_ready l) (lp_active l) ?s = Some (rs, s1)"
      and pr: "process_results env (sortResults s1 rs) s1 = (rs', s2)"
      and ad: "advance_results (s_plan s2) rs' (lp_degree l) (lp_active l) [] = (deg, act, nxt)"
      and l': "l' = l\<lparr>lp_sched := s2, lp_wave := Suc (lp_wave l), lp_order := lp_order l @ map nr_id rs',
          lp_degree := deg, lp_active := act, lp_ready := sortNodeIDs s2 (remdups nxt)\<rparr>"
      using b unfolding loop_body_def by (auto simp: Let_def split: option.splits prod.splits)
    note W = wave_traces [OF n d e pr]
    have m: "mset (lp_order l @ map nr_id rs') = mset (lp_order l @ lp_ready l)" using W(3) by simp
    have ms: "set (lp_order l @ map nr_id rs') = set (lp_order l @ lp_ready l)" using m by (rule mset_eq_setD)
    have "ready_once (lp_degree l) ((lp_order l @ map nr_id rs') @ [])"
      using ready_once_mset [OF m [symmetric]] inv by (simp add: resume_inv_def)
    from advance_results_ready_once [OF ad _ this] W(4) p wf
    have A: "ready_once deg ((lp_order l @ map nr_id rs') @ nxt)" "set nxt \<subseteq> e_Target ` set (p_edges p)" by auto
    have dn: "remdups nxt = nxt" using A(1) by (simp add: ready_once_def distinct_remdups_id)
    have "ready_once deg ((lp_order l @ map nr_id rs') @ sortNodeIDs s2 nxt)" by (rule ready_once_mset [OF _ A(1)]) simp
    moreover have "set nxt \<subseteq> set (plan_ids p)" "y \<notin> set nxt" using A(2) y(1) plan_wf_D(7) [OF wf] by auto
    moreover have "set (sortNodeIDs s2 nxt) = set nxt" by (simp add: sortNodeIDs_def)
    ultimately have "resume_inv p cur y t l'"
      using inv ms W(4) W(1) [OF yr y(2)] unfolding resume_inv_def l' dn by auto
    moreover have "length (map nr_id rs') = length (lp_ready l)" using W(3) by (metis size_mset)
    ultimately show ?thesis by (simp add: l')
  qed
  show "y \<notin> set (lp_order l') \<and> (e = ScheduleIncomplete \<or> (\<exists>err. e = Finished (Some err)))" if b: "loop_body env xs l = Inl (e, l')"
  proof (cases "executeWave env xs (lp_ready l) (lp_active l) ?s")
    case None
    then show ?thesis using b inv by (auto simp: loop_body_def Let_def resume_inv_def)
  next
    case (Some c)
    obtain rs s1 where c: "c = (rs, s1)" by (cases c)
    obtain rs' s2 where pr: "process_results env (sortResults s1 rs) s1 = (rs', s2)" by (cases "process_results env (sortResults s1 rs) s1")
    have "set (map nr_id rs') = set (lp_ready l)" using wave_traces(3) [OF n d Some [unfolded c] pr] by (rule mset_eq_setD)
    then have "y \<notin> set (lp_order l @ map nr_id rs')" using inv by (auto simp: resume_inv_def)
    then show ?thesis using b Some c pr by (auto simp: loop_body_def Let_def split: option.splits prod.splits)
  qed
qed

lemma stalled_trace:
  assumes "y \<in> set (plan_ids (s_plan s))"
    "\<And>t. s_traces s y = Some t \<Longrightarrow> nt_Status t \<noteq> NodeStatusSuccess \<and> nt_Status t \<noteq> NodeStatusSkipped"
  shows "first_stalled (GetTraces s) \<noteq> None"
proof -
  obtain n where n: "n \<in> set (p_nodes (s_plan s))" "n_ID n = y" using assms(1) by (auto simp: plan_ids_def)
  let ?t = "case s_traces s (n_ID n) of Some t \<Rightarrow> t
    | None \<Rightarrow> zero_trace\<lparr>nt_NodeID := n_ID n, nt_NodeType := n_Type n, nt_Status := NodeStatusPending\<rparr>"
  have "?t \<in> set (GetTraces s)" using n(1) by (auto simp: GetTraces_def)
  moreover have "nt_Status ?t \<noteq> NodeStatusSuccess \<and> nt_Status ?t \<noteq> NodeStatusSkipped"
    using assms(2) n(2) by (auto simp: NodeStatusPending_def NodeStatusSuccess_def NodeStatusSkipped_def split: option.splits)
  ultimately show ?thesis unfolding first_stalled_None by blast
qed

lemma wave_loop_resume:
  assumes wf: "plan_wf p" and y: "y \<notin> e_Target ` set (p_edges p)" "y \<noteq> []" "y \<in> set (plan_ids p)"
    and t: "\<And>tr. t = Some tr \<Longrightarrow> nt_Status tr \<noteq> NodeStatusSuccess \<and> nt_Status tr \<noteq> NodeStatusSkipped"
    and "resume_inv p cur y t l" "Suc (length (plan_ids p)) \<le> fuel + length (lp_order l)"
    "wave_loop fuel env schedules l = (e, l')"
  shows "e \<noteq> OutOfFuel \<and> e \<noteq> Finished None \<and> y \<notin> set (lp_order l')"
  using assms(6-8)
proof (induction fuel arbitrary: l)
  case 0
  have "length (lp_order l @ lp_ready l) = card (set (lp_order l @ lp_ready l))"
    using 0(1) by (metis resume_inv_def ready_once_def distinct_card)
  also have "\<dots> \<le> card (insert cur (set (plan_ids p)))" using 0(1) by (intro card_mono) (auto simp: resume_inv_def)
  also have "\<dots> \<le> Suc (length (plan_ids p))" by (metis card_insert_le_m1 card_length diff_Suc_1 le_SucI list.set_finite card_insert_if Suc_le_mono)
  finally have "lp_ready l = []" using 0(2) by (cases "lp_ready l") auto
  then show ?case using 0 stalled_trace [of y "lp_sched l"] y(3) t by (auto simp: wave_loop.simps [of 0] resume_inv_def)
next
  case (Suc fuel)
  show ?case
  proof (cases "lp_ready l = []")
    case True
    then show ?thesis using Suc.prems stalled_trace [of y "lp_sched l"] y(3) t by (auto simp: wave_loop.simps [of "Suc fuel"] resume_inv_def)
  next
    case False
    show ?thesis
    proof (cases "loop_body env (schedules (lp_wave l)) l")
      case (Inl x)
      then have "loop_body env (schedules (lp_wave l)) l = Inl (e, l')" using Suc.prems(3) False by (simp add: wave_loop.simps [of "Suc fuel"])
      from loop_body_resume(2) [OF wf y(1,2) Suc.prems(1) this] show ?thesis by auto
    next
      case (Inr l1)
      note B = loop_body_resume(1) [OF wf y(1,2) Suc.prems(1) Inr]
      then have "Suc (length (plan_ids p)) \<le> fuel + length (lp_order l1)" using Suc.prems(2) False by (cases "lp_ready l") auto
      with Suc.IH [of l1] B show ?thesis using Suc.prems(3) False Inr by (simp add: wave_loop.simps [of "Suc fuel"])
    qed
  qed
qed

lemma executePrepared_resume:
  assumes wf: "plan_wf (s_plan s)" and y: "y \<notin> e_Target ` set (p_edges (s_plan s))" "y \<noteq> []" "y \<in> set (plan_ids (s_plan s))"
    and t: "\<And>tr. s_traces s y = Some tr \<Longrightarrow> nt_Status tr \<noteq> NodeStatusSuccess \<and> nt_Status tr \<noteq> NodeStatusSkipped"
    and ready: "ready_once deg q" "set q \<subseteq> insert cur (e_Target ` set (p_edges (s_plan s)))" "y \<noteq> cur"
    and run: "executePrepared env schedules deg act (sortNodeIDs s' (filter P (remdups q))) s = (e, l)"
  shows "e \<noteq> OutOfFuel \<and> e \<noteq> Finished None \<and> y \<notin> set (lp_order l)"
proof -
  let ?q = "sortNodeIDs s (remdups (sortNodeIDs s' (filter P (remdups q))))"
  have "set ?q \<subseteq> set q" "distinct ?q" by (auto simp: sortNodeIDs_def)
  then have "ready_once deg ?q" using ready(1) by (auto simp: ready_once_def)
  moreover have "set ?q \<subseteq> insert cur (set (plan_ids (s_plan s)))" "y \<notin> set ?q"
    using \<open>set ?q \<subseteq> set q\<close> ready(2,3) y(1) plan_wf_D(7) [OF wf] by auto
  ultimately have "resume_inv (s_plan s) cur y (s_traces s y)
     \<lparr>lp_degree = deg, lp_active = act, lp_ready = ?q, lp_sched = s, lp_wave = 0, lp_order = []\<rparr>"
    by (simp add: resume_inv_def)
  from wave_loop_resume [OF wf y t this _ run [unfolded executePrepared_def]]
  show ?thesis by (simp add: plan_ids_def)
qed

lemma loadTraces_Some:
  assumes "s_traces (loadTraces ts s) y = Some t"
  shows "t \<in> set ts \<and> nt_NodeID t = y"
proof -
  have "fold (\<lambda>t m. if nt_NodeID t \<noteq> [] then m(nt_NodeID t \<mapsto> t) else m) ts m y = Some t
      \<Longrightarrow> m y = Some t \<or> t \<in> set ts \<and> nt_NodeID t = y" for m
  proof (induction ts arbitrary: m)
    case (Cons a ts)
    then show ?case by (cases "nt_NodeID a = []"; cases "nt_NodeID a = y") fastforce+
  qed simp
  then show ?thesis using assms by (auto simp: loadTraces_def)
qed

lemma resume_start:
  assumes "plan_wf (s_plan s)" "replay_nodes s terminal js deg Map.empty [] = (deg', act', q)"
  shows "ready_once deg' q" "set q \<subseteq> e_Target ` set (p_edges (s_plan s))"
  using replay_nodes_ready_once [OF assms(2,1)] by (auto simp: ready_once_def)

lemma resume_with_inputs:
  assumes "plan_wf (s_plan s)" "ready_once deg q" "set q \<subseteq> e_Target ` set (p_edges (s_plan s))"
    "replayDownstream s i True deg act q = (deg', act', q')"
  shows "ready_once deg' q'" "set q' \<subseteq> e_Target ` set (p_edges (s_plan s))"
  using advanceDownstream_ready_once [OF assms(1) assms(4) [unfolded replayDownstream_def], of "[]"] assms(2,3) by auto

lemma ready_once_snoc: "ready_once deg q \<Longrightarrow> cur \<notin> set q \<Longrightarrow> map_get 0 deg cur = 0 \<Longrightarrow> ready_once deg (q @ [cur])"
  by (auto simp: ready_once_def)

text \<open>
  C32. Continuing a checkpoint terminates, but leaves out entry nodes: \<^verbatim>\<open>ExecuteFromCheckpoint\<close>
  rebuilds the ready set from the edges of finished nodes and the current node only. An entry node
  (one without predecessors) that is not the current node and had not finished when the checkpoint
  was taken, for example the second of two parallel approvals, is never run again, so that the
  continued run cannot return without an error, whatever the nodes do and however often it is tried.
\<close>

theorem ExecuteFromCheckpoint_skips_roots:
  assumes "Compile definition = Inr (s_plan s)" "y \<in> set (map n_ID (p_nodes (s_plan s)))" "Plan_InDegree (s_plan s) y = 0"
    and "y \<noteq> ck_CurrentNodeID ck"
    and "\<forall>t\<in>set (ck_Traces ck). nt_NodeID t = y \<longrightarrow> nt_Status t \<noteq> NodeStatusSuccess \<and> nt_Status t \<noteq> NodeStatusSkipped"
    and "ExecuteFromCheckpoint env schedules ck resumeInputs s = (e, l)"
  shows "e \<noteq> OutOfFuel \<and> e \<noteq> Finished None \<and> y \<notin> set (lp_order l)"
proof -
  let ?p = "s_plan s" and ?cur = "ck_CurrentNodeID ck"
  define s1 where "s1 = loadTraces (ck_Traces ck)
    (s\<lparr>s_blackboard := LoadSnapshotAtVersion (ck_Blackboard ck) (ck_StateVersion ck) (s_blackboard s)\<rparr>)"
  note wf = Compile_plan_wf(1) [OF assms(1)]
  have p1: "s_plan s1 = ?p" by (simp add: s1_def loadTraces_def)
  have y3: "y \<in> set (plan_ids ?p)" using assms(2) by (simp add: plan_ids_def)
  have y: "y \<notin> e_Target ` set (p_edges ?p)" "y \<noteq> []" "y \<in> set (plan_ids ?p)"
    using y3 assms(3) plan_wf_D(9) [OF wf, of y] Compile_ids_nonempty [OF assms(1)] by (auto simp: filter_empty_conv)
  have t1: "nt_Status tr \<noteq> NodeStatusSuccess \<and> nt_Status tr \<noteq> NodeStatusSkipped" if "s_traces s1 y = Some tr" for tr
    using loadTraces_Some [OF that [unfolded s1_def]] assms(5) by blast
  obtain deg act q where rp: "replay_nodes s1 (terminal_traces (ck_Traces ck)) (map n_ID (p_nodes (s_plan s1))) (p_inDegree (s_plan s1)) Map.empty []
      = (deg, act, q)"
    by (cases "replay_nodes s1 (terminal_traces (ck_Traces ck)) (map n_ID (p_nodes (s_plan s1))) (p_inDegree (s_plan s1)) Map.empty []") auto
  have q: "ready_once deg q" "set q \<subseteq> e_Target ` set (p_edges ?p)" using resume_start [OF _ rp] wf p1 by auto
  show ?thesis
  proof (cases "?cur \<noteq> [] \<and> \<not> ck_RetryCurrentNode ck")
    case False
    define q' where "q' = (if ?cur \<noteq> [] \<and> ?cur \<notin> set q \<and> map_get 0 deg ?cur = 0 then q @ [?cur] else q)"
    have q': "ready_once deg q'" "set q' \<subseteq> insert ?cur (e_Target ` set (p_edges ?p))" using q ready_once_snoc by (auto simp: q'_def)
    have "executePrepared env schedules deg act (sortNodeIDs s1 (filter (\<lambda>i. terminal_traces (ck_Traces ck) i = None) (remdups q'))) s1 = (e, l)"
      using assms(6) rp False unfolding ExecuteFromCheckpoint_def Let_def s1_def [symmetric] by (auto simp: q'_def)
    from executePrepared_resume [OF _ _ _ _ _ q'(1) _ assms(4) this] show ?thesis using wf p1 y t1 q'(2) by auto
  next
    case True
    define s2 where "s2 = s1\<lparr>s_blackboard := snd (ApplyDelta (env_clock env (bb_version (s_blackboard s1))) ?cur resumeInputs (s_blackboard s1))\<rparr>"
    define i where "i = (case Plan_Node (s_plan s2) ?cur of None \<Rightarrow> [] | Some n \<Rightarrow> n_ID n)"
    define ty where "ty = (case Plan_Node (s_plan s2) ?cur of None \<Rightarrow> [] | Some n \<Rightarrow> n_Type n)"
    have "i = [] \<or> i = ?cur" using plan_wf_named [OF wf] p1 by (auto simp: i_def s2_def plan_named_def split: option.splits)
    then have iy: "i \<noteq> y" using y(2) assms(4) by auto
    show ?thesis
    proof (cases "markNodeSuccess i ty (env_now env) (env_now env) (trace_of s2 i)")
      case (Inl err)
      then show ?thesis using assms(6) rp True
        unfolding ExecuteFromCheckpoint_def Let_def s1_def [symmetric] s2_def [symmetric] i_def [symmetric] ty_def [symmetric] by auto
    next
      case (Inr t)
      define s3 where "s3 = set_trace i t s2"
      have p3: "s_plan s3 = ?p" "s_traces s3 y = s_traces s1 y" using p1 iy by (simp_all add: s3_def s2_def set_trace_def)
      obtain deg' act' q' where rd: "replayDownstream s3 ?cur True deg act q = (deg', act', q')"
        by (cases "replayDownstream s3 ?cur True deg act q") auto
      have q': "ready_once deg' q'" "set q' \<subseteq> e_Target ` set (p_edges ?p)" using resume_with_inputs [OF _ q(1) _ rd] q(2) p3(1) wf by auto
      have "executePrepared env schedules deg' act' (sortNodeIDs s1 (filter (\<lambda>i. ((terminal_traces (ck_Traces ck))(?cur \<mapsto> trace_of s3 ?cur)) i = None) (remdups q'))) s3 = (e, l)"
        using assms(6) rp True Inr rd
        unfolding ExecuteFromCheckpoint_def Let_def s1_def [symmetric] s2_def [symmetric] i_def [symmetric] ty_def [symmetric]
        by (simp add: s3_def [symmetric] del: fun_upd_apply)
      from executePrepared_resume [OF _ _ _ _ _ q'(1) _ assms(4) this] show ?thesis using wf p3 y t1 q'(2) by auto
    qed
  qed
qed

definition approvals_workflow :: WorkflowDSL where
  "approvals_workflow = (demo_workflow [])\<lparr>wf_Nodes := [demo_node ''first'' ''approve'' [], demo_node ''second'' ''approve'' []]\<rparr>"

definition approvals_checkpoint :: WorkflowCheckpoint where
  "approvals_checkpoint =
     \<lparr>ck_CurrentNodeID = ''first'', ck_Blackboard = Map.empty, ck_StateVersion = 1,
      ck_Traces = [zero_trace\<lparr>nt_NodeID := ''first'', nt_Status := NodeStatusSuspended\<rparr>,
        zero_trace\<lparr>nt_NodeID := ''second'', nt_Status := NodeStatusSuspended\<rparr>],
      ck_SuspendedAt = 0, ck_Reason = [], ck_ResumeToken = [], ck_Metadata = [], ck_RetryCurrentNode = False,
      ck_Budget = \<lparr>bs_NodeExecutions = 0, bs_Usage = zero_usage, bs_Reserved = zero_usage\<rparr>\<rparr>"

theorem ExecuteFromCheckpoint_skips_roots_witness:
  "\<exists>p. Compile (Some approvals_workflow) = Inr p
     \<and> (\<forall>schedules. fst (ExecuteFromCheckpoint demo_env schedules approvals_checkpoint Map.empty (demo_sched None p)) \<noteq> Finished None)"
proof -
  have v: "map_sum id (\<lambda>p. (map n_ID (p_nodes p), Plan_InDegree p ''second'')) (Compile (Some approvals_workflow)) = Inr ([''first'', ''second''], 0)"
    by code_simp
  then obtain p where p: "Compile (Some approvals_workflow) = Inr p" by (cases "Compile (Some approvals_workflow)") auto
  have c: "Compile (Some approvals_workflow) = Inr (s_plan (demo_sched None p))" using p by (simp add: demo_sched_def)
  have h: "''second'' \<in> set (map n_ID (p_nodes (s_plan (demo_sched None p))))" "Plan_InDegree (s_plan (demo_sched None p)) ''second'' = 0"
    "''second'' \<noteq> ck_CurrentNodeID approvals_checkpoint"
    "\<forall>t\<in>set (ck_Traces approvals_checkpoint). nt_NodeID t = ''second'' \<longrightarrow> nt_Status t \<noteq> NodeStatusSuccess \<and> nt_Status t \<noteq> NodeStatusSkipped"
    using v p by (simp_all add: demo_sched_def approvals_checkpoint_def NodeStatusSuspended_def NodeStatusSuccess_def NodeStatusSkipped_def)
  have "fst (ExecuteFromCheckpoint demo_env schedules approvals_checkpoint Map.empty (demo_sched None p)) \<noteq> Finished None" for schedules
    using ExecuteFromCheckpoint_skips_roots [OF c h] by (metis prod.collapse)
  then show ?thesis using p by blast
qed

end
