(* ===== verification/Compensation.thy ===== *)
theory Compensation
  imports Scheduler
begin

text \<open>
  Compensation of a workflow, \<^verbatim>\<open>src/internal/module/agent/workflow/engine/compensation.go\<close>: which
  governed tool calls undo a run, in which order, and the retry loop that runs one of them.
\<close>

record CompensationTask =
  ct_Sequence :: int
  ct_SourceNodeID :: string
  ct_StepID :: string
  ct_ToolName :: string
  ct_Inputs :: "(string \<times> gval) list"
  ct_TimeoutSec :: int
  ct_Retry :: "RetryPolicyDSL option"

definition trace_table :: "NodeTrace list \<Rightarrow> (string \<rightharpoonup> NodeTrace)" where
  "trace_table ts = fold (\<lambda>t m. m(nt_NodeID t \<mapsto> t)) ts Map.empty"

text \<open>The body of the loop over the topological order, which the code walks from its last element.\<close>

fun compensation_tasks :: "(gval \<Rightarrow> string) \<Rightarrow> Plan \<Rightarrow> bb_state \<Rightarrow> (string \<rightharpoonup> NodeTrace) \<Rightarrow> string list
    \<Rightarrow> CompensationTask list \<Rightarrow> CompensationTask list" where
  "compensation_tasks fmt p snapshot traces [] tasks = tasks"
| "compensation_tasks fmt p snapshot traces (i # ids) tasks =
     (case Plan_Node p i of
        None \<Rightarrow> compensation_tasks fmt p snapshot traces ids tasks
      | Some node \<Rightarrow>
          (case n_Compensation node of
             None \<Rightarrow> compensation_tasks fmt p snapshot traces ids tasks
           | Some c \<Rightarrow>
               if nt_Status (map_get zero_trace traces (n_ID node)) \<noteq> NodeStatusSuccess
               then compensation_tasks fmt p snapshot traces ids tasks
               else compensation_tasks fmt p snapshot traces ids (tasks @
                 [\<lparr>ct_Sequence = int (length tasks) + 1, ct_SourceNodeID = n_ID node,
                   ct_StepID = n_ID node @ ''$compensate'', ct_ToolName = cp_ToolName c,
                   ct_Inputs = resolveRawInputs fmt (cp_Properties c) snapshot,
                   ct_TimeoutSec = cp_TimeoutSec c, ct_Retry = cp_Retry c\<rparr>])))"

definition CompensationPlan :: "(gval \<Rightarrow> string) \<Rightarrow> Scheduler \<Rightarrow> CompensationTask list" where
  "CompensationPlan fmt s =
     compensation_tasks fmt (s_plan s) (GetSnapshot (s_blackboard s)) (trace_table (GetTraces s))
       (rev (p_topological (s_plan s))) []"

text \<open>
  \<open>execute k\<close> is the answer of the callback at attempt \<open>k\<close>, \<open>ctxErr k\<close> the state of the execution
  context after it, \<open>wait k\<close> the outcome of the back-off wait. The result has the outputs, the
  attempt and the error.
\<close>

function compensation_loop :: "(nat \<Rightarrow> gerr + fields) \<Rightarrow> (nat \<Rightarrow> gerr option) \<Rightarrow> (nat \<Rightarrow> gerr option) \<Rightarrow> int \<Rightarrow> nat
    \<Rightarrow> fields option \<times> int \<times> gerr option" where
  "compensation_loop execute ctxErr wait maxAttempts attempt =
     (if int attempt \<le> maxAttempts
      then case execute attempt of
             Inr outputs \<Rightarrow> (Some outputs, int attempt, None)
           | Inl err \<Rightarrow>
               if int attempt = maxAttempts \<or> \<not> shouldRetryNode (Some err) \<or> ctxErr attempt \<noteq> None
               then (None, int attempt, Some err)
               else case wait attempt of
                      Some e \<Rightarrow> (None, int attempt, Some e)
                    | None \<Rightarrow> compensation_loop execute ctxErr wait maxAttempts (Suc attempt)
      else (None, maxAttempts, Some (EMsg ''compensation retry policy exhausted without a result'')))"
  by pat_completeness auto
termination by (relation "measure (\<lambda>(execute, ctxErr, wait, maxAttempts, attempt). nat (maxAttempts + 1) - attempt)") auto

declare compensation_loop.simps [simp del]

definition ExecuteCompensationTask :: "CompensationTask \<Rightarrow> (nat \<Rightarrow> gerr + fields) option \<Rightarrow> (nat \<Rightarrow> gerr option)
    \<Rightarrow> (nat \<Rightarrow> gerr option) \<Rightarrow> fields option \<times> int \<times> gerr option" where
  "ExecuteCompensationTask task execute ctxErr wait = (case execute of
      None \<Rightarrow> (None, 0, Some (EMsg ''compensation executor is required''))
    | Some f \<Rightarrow> compensation_loop f ctxErr wait (pol_maxAttempts (normalizeNodeRetryPolicy (ct_Retry task))) 1)"

section \<open>The plan\<close>

definition compensable :: "Plan \<Rightarrow> (string \<rightharpoonup> NodeTrace) \<Rightarrow> string \<Rightarrow> bool" where
  "compensable p traces i = (case Plan_Node p i of None \<Rightarrow> False
     | Some node \<Rightarrow> n_Compensation node \<noteq> None \<and> nt_Status (map_get zero_trace traces (n_ID node)) = NodeStatusSuccess)"

lemma compensation_tasks_sources:
  assumes "\<And>i n. Plan_Node p i = Some n \<Longrightarrow> n_ID n = i"
  shows "map ct_SourceNodeID (compensation_tasks fmt p snapshot traces ids tasks)
    = map ct_SourceNodeID tasks @ filter (compensable p traces) ids"
  using assms by (induction ids arbitrary: tasks) (auto simp: compensable_def split: option.splits)

lemma compensation_tasks_numbered:
  assumes "\<And>k. k < length tasks \<Longrightarrow> ct_Sequence (tasks ! k) = int k + 1"
    and "k < length (compensation_tasks fmt p snapshot traces ids tasks)"
  shows "ct_Sequence (compensation_tasks fmt p snapshot traces ids tasks ! k) = int k + 1"
  using assms
proof (induction ids arbitrary: tasks)
  case (Cons i ids)
  have snoc: "\<And>k. k < length (tasks @ [t]) \<Longrightarrow> ct_Sequence ((tasks @ [t]) ! k) = int k + 1"
    if "ct_Sequence t = int (length tasks) + 1" for t
    using Cons.prems(1) that by (auto simp: nth_append less_Suc_eq)
  show ?case using Cons.prems(2) Cons.IH [OF Cons.prems(1)] Cons.IH [OF snoc] by (auto split: option.splits if_splits)
qed simp

lemma fold_table_other: "j \<notin> nt_NodeID ` set ts \<Longrightarrow> fold (\<lambda>t m. m(nt_NodeID t \<mapsto> t)) ts m j = m j"
  by (induction ts arbitrary: m) auto

lemma trace_table_lookup:
  assumes "distinct (map nt_NodeID ts)" "t \<in> set ts"
  shows "trace_table ts (nt_NodeID t) = Some t"
proof -
  have "fold (\<lambda>t m. m(nt_NodeID t \<mapsto> t)) ts m (nt_NodeID t) = Some t" for m
    using assms
  proof (induction ts arbitrary: m)
    case (Cons x ts)
    show ?case
    proof (cases "t = x")
      case True
      then show ?thesis using Cons.prems(1) fold_table_other [of "nt_NodeID t" ts "m(nt_NodeID x \<mapsto> x)"] by (simp del: fun_upd_apply add: fun_upd_same)
    next
      case False
      then show ?thesis using Cons.IH [of "m(nt_NodeID x \<mapsto> x)"] Cons.prems by (simp del: fun_upd_apply)
    qed
  qed simp
  then show ?thesis by (simp add: trace_table_def)
qed

lemma trace_table_GetTraces:
  assumes "plan_wf (s_plan s)" "\<And>i t. s_traces s i = Some t \<Longrightarrow> nt_NodeID t = i" "i \<in> set (plan_ids (s_plan s))"
  shows "(nt_Status (map_get zero_trace (trace_table (GetTraces s)) i) = NodeStatusSuccess)
    = (\<exists>t. s_traces s i = Some t \<and> nt_Status t = NodeStatusSuccess)"
proof -
  let ?tr = "\<lambda>n. case s_traces s (n_ID n) of Some t \<Rightarrow> t
    | None \<Rightarrow> zero_trace\<lparr>nt_NodeID := n_ID n, nt_NodeType := n_Type n, nt_Status := NodeStatusPending\<rparr>"
  have key: "nt_NodeID (?tr n) = n_ID n" for n using assms(2) by (auto split: option.splits)
  obtain n where n: "n \<in> set (p_nodes (s_plan s))" "n_ID n = i" using assms(3) by (auto simp: plan_ids_def)
  have "distinct (map nt_NodeID (GetTraces s))"
    using plan_wf_D(1) [OF assms(1)] by (simp add: GetTraces_def plan_ids_def comp_def key)
  moreover have "?tr n \<in> set (GetTraces s)" using n(1) by (auto simp: GetTraces_def)
  ultimately have "trace_table (GetTraces s) i = Some (?tr n)" using trace_table_lookup [of "GetTraces s" "?tr n"] key [of n] n(2) by simp
  then show ?thesis using n(2)
    by (auto simp: map_get_def NodeStatusPending_def NodeStatusSuccess_def split: option.splits)
qed

text \<open>
  The compensation plan undoes exactly what succeeded, last first: on a compiled plan its tasks
  are, without repetition, the nodes that declare a compensation and whose trace says success; they
  are numbered from one; and a node that depends on another, directly or not, is undone before it.
\<close>

theorem CompensationPlan_reverse_order:
  fixes fmt s
  defines "tasks \<equiv> CompensationPlan fmt s"
  assumes "Compile definition = Inr (s_plan s)" "\<And>i t. s_traces s i = Some t \<Longrightarrow> nt_NodeID t = i"
  shows "map ct_Sequence tasks = map int [1..<Suc (length tasks)]
    \<and> distinct (map ct_SourceNodeID tasks)
    \<and> set (map ct_SourceNodeID tasks) = {n_ID n | n. n \<in> set (p_nodes (s_plan s))
        \<and> n_Compensation n \<noteq> None \<and> (\<exists>t. s_traces s (n_ID n) = Some t \<and> nt_Status t = NodeStatusSuccess)}
    \<and> (\<forall>i j. i < j \<and> j < length tasks \<longrightarrow>
          (ct_SourceNodeID (tasks ! i), ct_SourceNodeID (tasks ! j)) \<notin> (plan_rel (s_plan s))\<^sup>+)"
proof -
  let ?p = "s_plan s"
  note wf = Compile_plan_wf [OF assms(2)]
  have named: "n_ID n = i" if "Plan_Node ?p i = Some n" for i n
    using that plan_wf_lookup(1) [OF wf(1)] by (simp add: Plan_Node_def)
  have src: "map ct_SourceNodeID tasks = filter (compensable ?p (trace_table (GetTraces s))) (rev (p_topological ?p))"
    unfolding tasks_def CompensationPlan_def by (simp add: compensation_tasks_sources [OF named])
  have ids: "distinct (p_topological ?p)" "set (p_topological ?p) = set (plan_ids ?p)" using wf(2) by (auto simp: topological_order_def)
  have num: "ct_Sequence (tasks ! k) = int k + 1" if "k < length tasks" for k
    using that unfolding tasks_def CompensationPlan_def by (intro compensation_tasks_numbered) auto
  have seq: "map ct_Sequence tasks = map int [1..<Suc (length tasks)]"
    by (rule nth_equalityI) (simp_all add: num del: upt_Suc)
  have "compensable ?p (trace_table (GetTraces s)) (n_ID n)
      = (n_Compensation n \<noteq> None \<and> (\<exists>t. s_traces s (n_ID n) = Some t \<and> nt_Status t = NodeStatusSuccess))"
    if "n \<in> set (p_nodes ?p)" for n
    using that trace_table_GetTraces [OF wf(1) assms(3), of "n_ID n"] plan_wf_lookup(1) [OF wf(1), of "n_ID n" n]
    by (simp add: compensable_def Plan_Node_def plan_ids_def)
  then have sset: "set (map ct_SourceNodeID tasks) = {n_ID n | n. n \<in> set (p_nodes ?p)
        \<and> n_Compensation n \<noteq> None \<and> (\<exists>t. s_traces s (n_ID n) = Some t \<and> nt_Status t = NodeStatusSuccess)}"
    unfolding src using ids(2) by (auto simp: plan_ids_def)
  have "(p_topological ?p ! j, p_topological ?p ! i) \<notin> (plan_rel ?p)\<^sup>+" if "i < j" "j < length (p_topological ?p)" for i j
  proof
    assume "(p_topological ?p ! j, p_topological ?p ! i) \<in> (plan_rel ?p)\<^sup>+"
    then obtain a b where "a < b" "b < length (p_topological ?p)" "p_topological ?p ! a = p_topological ?p ! j"
      "p_topological ?p ! b = p_topological ?p ! i" using topological_order_trancl [OF wf(2,1)] by blast
    then have "a = j" "b = i" using nth_eq_iff_index_eq [OF ids(1)] that by auto
    then show False using \<open>a < b\<close> that(1) by simp
  qed
  then have "sorted_wrt (\<lambda>x y. (y, x) \<notin> (plan_rel ?p)\<^sup>+) (p_topological ?p)" by (simp add: sorted_wrt_iff_nth_less)
  then have "sorted_wrt (\<lambda>x y. (x, y) \<notin> (plan_rel ?p)\<^sup>+) (map ct_SourceNodeID tasks)"
    unfolding src by (intro sorted_wrt_filter) (simp add: sorted_wrt_rev)
  then have "\<forall>i j. i < j \<and> j < length tasks \<longrightarrow> (ct_SourceNodeID (tasks ! i), ct_SourceNodeID (tasks ! j)) \<notin> (plan_rel ?p)\<^sup>+"
    by (simp add: sorted_wrt_iff_nth_less)
  moreover have "distinct (map ct_SourceNodeID tasks)" unfolding src using ids(1) by simp
  ultimately show ?thesis using seq sset by blast
qed

definition undo_node :: "string \<Rightarrow> NodeDSL" where
  "undo_node i = (demo_node i ''run'' [])\<lparr>nd_Type := ''tool'', nd_Compensation :=
     Some \<lparr>cp_ToolName = ''undo'', cp_Properties = RawEmpty, cp_TimeoutSec = 0, cp_Retry = None\<rparr>\<rparr>"

definition undo_workflow :: WorkflowDSL where
  "undo_workflow = (demo_workflow [demo_edge ''e'' ''pay'' ''ship''])\<lparr>wf_Nodes := [undo_node ''ship'', undo_node ''pay'']\<rparr>"

definition undo_sched :: "Plan \<Rightarrow> Scheduler" where
  "undo_sched p = \<lparr>s_plan = p, s_blackboard = NewBlackboard,
     s_traces = (\<lambda>i. Some (zero_trace\<lparr>nt_NodeID := i, nt_Status := NodeStatusSuccess\<rparr>)), s_budget = None, s_maxParallel = 1\<rparr>"

theorem CompensationPlan_reverse_order_witness:
  "\<exists>p. Compile (Some undo_workflow) = Inr p
     \<and> set (map ct_SourceNodeID (CompensationPlan (\<lambda>_. []) (undo_sched p))) = {''pay'', ''ship''}
     \<and> distinct (map ct_SourceNodeID (CompensationPlan (\<lambda>_. []) (undo_sched p)))"
proof -
  have v: "map_sum id (\<lambda>p. (map (\<lambda>n. (n_ID n, n_Compensation n = None)) (p_nodes p))) (Compile (Some undo_workflow))
      = Inr [(''ship'', False), (''pay'', False)]" by code_simp
  then obtain p where p: "Compile (Some undo_workflow) = Inr p" by (cases "Compile (Some undo_workflow)") auto
  have c: "Compile (Some undo_workflow) = Inr (s_plan (undo_sched p))" using p by (simp add: undo_sched_def)
  have t: "\<And>i t. s_traces (undo_sched p) i = Some t \<Longrightarrow> nt_NodeID t = i" by (auto simp: undo_sched_def)
  have "map (\<lambda>n. (n_ID n, n_Compensation n = None)) (p_nodes p) = [(''ship'', False), (''pay'', False)]" using v p by simp
  then have "{n_ID n | n. n \<in> set (p_nodes p) \<and> n_Compensation n \<noteq> None} = {''pay'', ''ship''}"
    by (auto simp: map_eq_Cons_conv) metis+
  then show ?thesis using CompensationPlan_reverse_order [OF c t, of "\<lambda>_. []"] p by (simp add: undo_sched_def)
qed

section \<open>One task\<close>

lemma compensation_loop_spec:
  assumes "compensation_loop execute ctxErr wait mx k = (out, n, err)" "int k \<le> mx"
  shows "int k \<le> n \<and> n \<le> mx
    \<and> (\<forall>j. k \<le> j \<and> int j < n \<longrightarrow> (\<exists>e. execute j = Inl e \<and> shouldRetryNode (Some e)) \<and> ctxErr j = None \<and> wait j = None)
    \<and> (case execute (nat n) of
         Inr outputs \<Rightarrow> out = Some outputs \<and> err = None
       | Inl e \<Rightarrow> out = None \<and> (if n = mx \<or> \<not> shouldRetryNode (Some e) \<or> ctxErr (nat n) \<noteq> None then err = Some e
                               else err = wait (nat n) \<and> err \<noteq> None))"
  using assms
proof (induction "nat mx - k" arbitrary: k)
  case 0
  then have "int k = mx" by simp
  then show ?case using 0 by (auto simp: compensation_loop.simps [of _ _ _ _ k] split: sum.splits)
next
  case (Suc x)
  show ?case
  proof (cases "\<exists>e. execute k = Inl e \<and> shouldRetryNode (Some e) \<and> ctxErr k = None \<and> wait k = None \<and> int k \<noteq> mx")
    case True
    then have c: "compensation_loop execute ctxErr wait mx (Suc k) = (out, n, err)" "int (Suc k) \<le> mx"
      using Suc.prems by (auto simp: compensation_loop.simps [of _ _ _ _ k])
    have "x = nat mx - Suc k" using Suc.hyps(2) by simp
    note IH = Suc.hyps(1) [OF this c]
    have "(\<exists>e. execute j = Inl e \<and> shouldRetryNode (Some e)) \<and> ctxErr j = None \<and> wait j = None" if "k \<le> j" "int j < n" for j
      using IH True that by (cases "j = k") auto
    then show ?thesis using IH by simp
  next
    case False
    have nk: "n = int k" using Suc.prems False
      by (auto simp: compensation_loop.simps [of _ _ _ _ k] split: sum.splits if_splits option.splits)
    then show ?thesis using Suc.prems False
      by (auto simp: compensation_loop.simps [of _ _ _ _ k] split: sum.splits if_splits option.splits) (metis option.distinct(1))
  qed
qed

text \<open>
  A compensation task is retried like a node and always ends with a definite outcome: the
  attempt reported lies between one and the policy's maximum; every attempt before it failed with
  an error that may be retried, under a live context and an undisturbed wait; and the answer is the
  outputs of that attempt if it succeeded, otherwise its error or the error of the interrupted wait.
  The message about an exhausted policy is never returned.
\<close>

theorem ExecuteCompensationTask_outcome:
  assumes "ExecuteCompensationTask task (Some execute) ctxErr wait = (out, n, err)"
  shows "1 \<le> n \<and> n \<le> pol_maxAttempts (normalizeNodeRetryPolicy (ct_Retry task))
    \<and> (\<forall>j. 1 \<le> j \<and> int j < n \<longrightarrow> (\<exists>e. execute j = Inl e \<and> shouldRetryNode (Some e)) \<and> ctxErr j = None \<and> wait j = None)
    \<and> (case execute (nat n) of
         Inr outputs \<Rightarrow> out = Some outputs \<and> err = None
       | Inl e \<Rightarrow> out = None \<and> (if n = pol_maxAttempts (normalizeNodeRetryPolicy (ct_Retry task)) \<or> \<not> shouldRetryNode (Some e)
                                  \<or> ctxErr (nat n) \<noteq> None then err = Some e else err = wait (nat n) \<and> err \<noteq> None))"
proof -
  have "int 1 \<le> pol_maxAttempts (normalizeNodeRetryPolicy (ct_Retry task))" using normalizeNodeRetryPolicy_attempts by simp
  from compensation_loop_spec [OF _ this, of execute ctxErr wait out n err] assms show ?thesis
    by (simp add: ExecuteCompensationTask_def)
qed

definition undo_task :: CompensationTask where
  "undo_task = \<lparr>ct_Sequence = 1, ct_SourceNodeID = ''pay'', ct_StepID = ''pay$compensate'', ct_ToolName = ''refund'', ct_Inputs = [],
     ct_TimeoutSec = 0, ct_Retry = Some \<lparr>rp_MaxAttempts = 3, rp_InitialBackoffMS = 0, rp_MaxBackoffMS = 0, rp_Multiplier = Fin 0, rp_Jitter = Fin 0\<rparr>\<rparr>"

definition undo_execute :: "nat \<Rightarrow> gerr + fields" where
  "undo_execute k = (if k < 2 then Inl (ERetryable True ''busy'') else Inr [''ok'' \<mapsto> GBool True])"

theorem ExecuteCompensationTask_outcome_witness:
  "\<exists>n. ExecuteCompensationTask undo_task (Some undo_execute) (\<lambda>_. None) (\<lambda>_. None) = (Some [''ok'' \<mapsto> GBool True], n, None) \<and> n = 2 \<and> n \<le> 3"
proof -
  have r: "ExecuteCompensationTask undo_task (Some undo_execute) (\<lambda>_. None) (\<lambda>_. None) = (Some [''ok'' \<mapsto> GBool True], 2, None)"
    by (simp add: ExecuteCompensationTask_def undo_task_def undo_execute_def normalizeNodeRetryPolicy_def Let_def compensation_loop.simps
        shouldRetryNode_def errors_Is_def errors_As_def) blast
  show ?thesis using ExecuteCompensationTask_outcome [OF r] r by (simp add: undo_task_def normalizeNodeRetryPolicy_def Let_def)
qed

end
