(* ===== verification/Snowflake.thy ===== *)
theory Snowflake
  imports Go_Prelude "HOL-Library.Word"
begin

text \<open>
  The id generator \<^verbatim>\<open>src/pkg/pkg/snowflake/snowflake.go\<close>: a node with a worker id, the last
  timestamp and a sequence number; ids of 41 bits of milliseconds, 10 bits of worker and 12 bits of
  sequence; worker slots claimed in a shared hash.

  The clock is a function from a reading number to milliseconds. The spin loop of
  \<^verbatim>\<open>tilNextMillis\<close> may not end, so that it is a partial function; an operation that starts at
  reading \<open>k\<close> returns the number of the next reading. The sleep after a large rollback only delays.
\<close>

unbundle bit_operations_syntax

definition epoch :: int where "epoch = 1288834974657"
definition workerIDBits :: nat where "workerIDBits = 10"
definition sequenceBits :: nat where "sequenceBits = 12"
definition maxWorkerID :: int where "maxWorkerID = 1023"
definition sequenceMask :: int where "sequenceMask = 4095"
definition workerIDShift :: nat where "workerIDShift = sequenceBits"
definition timestampShift :: nat where "timestampShift = sequenceBits + workerIDBits"
definition maxTolerateTimeDifference :: int where "maxTolerateTimeDifference = 5"

record customNode =
  sn_lastTimestamp :: int
  sn_workerID :: int
  sn_sequence :: int

datatype snowflake_error = BadWorkerID | Overdrawn | NotInitialised

definition NewCustomNode :: "int \<Rightarrow> snowflake_error + customNode" where
  "NewCustomNode workerID =
     (if workerID < 0 \<or> maxWorkerID < workerID then Inl BadWorkerID
      else Inr \<lparr>sn_lastTimestamp = -1, sn_workerID = workerID, sn_sequence = 0\<rparr>)"

partial_function (option) tilNextMillis :: "(nat \<Rightarrow> int) \<Rightarrow> nat \<Rightarrow> int \<Rightarrow> (int \<times> nat) option" where
  "tilNextMillis clock k lastTimestamp =
     (if clock k \<le> lastTimestamp then tilNextMillis clock (Suc k) lastTimestamp else Some (clock k, Suc k))"

text \<open>The 64-bit value; the conversion to \<^verbatim>\<open>uint64\<close> and the wrap-around of the shift are truncation.\<close>

definition make_id :: "int \<Rightarrow> int \<Rightarrow> int \<Rightarrow> 64 word" where
  "make_id now workerID sequence =
     word_of_int (push_bit timestampShift (now - epoch) OR push_bit workerIDShift workerID OR sequence)"

definition generate :: "(nat \<Rightarrow> int) \<Rightarrow> nat \<Rightarrow> customNode \<Rightarrow> ((snowflake_error + 64 word) \<times> customNode \<times> nat) option" where
  "generate clock k n =
     (let realNow = clock k;
          now = (if realNow < sn_lastTimestamp n then sn_lastTimestamp n else realNow);
          issue = (\<lambda>now sequence k'.
            (Inr (make_id now (sn_workerID n) sequence), n\<lparr>sn_lastTimestamp := now, sn_sequence := sequence\<rparr>, k'))
      in if now = sn_lastTimestamp n
         then let sequence = (sn_sequence n + 1) AND sequenceMask
              in if sequence = 0
                 then if realNow < sn_lastTimestamp n
                      then if maxTolerateTimeDifference < now + 1 - realNow
                           then Some (Inl Overdrawn, n\<lparr>sn_sequence := sequence\<rparr>, Suc k)
                           else Some (issue (now + 1) sequence (Suc k))
                      else map_option (\<lambda>(t, k'). issue t sequence k') (tilNextMillis clock (Suc k) (sn_lastTimestamp n))
                 else Some (issue now sequence (Suc k))
         else Some (issue now 0 (Suc k)))"

definition GenerateID :: "(nat \<Rightarrow> int) \<Rightarrow> nat \<Rightarrow> customNode option \<Rightarrow> ((snowflake_error + 64 word) \<times> customNode option \<times> nat) option" where
  "GenerateID clock k globalNode = (case globalNode of
      None \<Rightarrow> Some (Inl NotInitialised, None, k)
    | Some n \<Rightarrow> map_option (\<lambda>(r, n', k'). (r, Some n', k')) (generate clock k n))"

text \<open>\<open>calls\<close> calls of \<^verbatim>\<open>GenerateID\<close> in a row, with the answers in order.\<close>

fun generate_run :: "(nat \<Rightarrow> int) \<Rightarrow> nat \<Rightarrow> nat \<Rightarrow> customNode \<Rightarrow> ((snowflake_error + 64 word) list \<times> customNode \<times> nat) option" where
  "generate_run clock 0 k n = Some ([], n, k)"
| "generate_run clock (Suc calls) k n =
     (case generate clock k n of
        None \<Rightarrow> None
      | Some (r, n', k') \<Rightarrow> map_option (\<lambda>(rs, m, k2). (r # rs, m, k2)) (generate_run clock calls k' n'))"

section \<open>Ids\<close>

definition in_range :: "int \<Rightarrow> int \<Rightarrow> int \<Rightarrow> bool" where
  "in_range now w q \<longleftrightarrow> 0 \<le> now - epoch \<and> now - epoch < 2 ^ 41 \<and> 0 \<le> w \<and> w \<le> maxWorkerID \<and> 0 \<le> q \<and> q \<le> sequenceMask"

lemma or_fields:
  fixes a b :: int
  assumes "0 \<le> b" "b < 2 ^ n"
  shows "push_bit n a OR b = a * 2 ^ n + b"
proof -
  have "push_bit n a AND b = 0"
    using assms by (auto simp: bit_eq_iff bit_simps not_le) (metis bit_take_bit_iff take_bit_int_eq_self)
  then have "push_bit n a OR b = push_bit n a + b" by (simp add: disjunctive_add_eq_or)
  then show ?thesis by (simp add: push_bit_eq_mult)
qed

lemma uint_word64: "0 \<le> x \<Longrightarrow> x < 2 ^ 64 \<Longrightarrow> uint (word_of_int x :: 64 word) = x"
  by (simp add: unsigned_of_int take_bit_int_eq_self)

lemma make_id_value:
  assumes "in_range now w q"
  shows "uint (make_id now w q) = (now - epoch) * 2 ^ 22 + w * 2 ^ 12 + q"
proof -
  have w: "push_bit 12 w OR q = w * 2 ^ 12 + q" by (rule or_fields) (use assms in \<open>auto simp: in_range_def sequenceMask_def\<close>)
  have "push_bit 22 (now - epoch) OR (w * 2 ^ 12 + q) = (now - epoch) * 2 ^ 22 + (w * 2 ^ 12 + q)"
    by (rule or_fields) (use assms in \<open>auto simp: in_range_def sequenceMask_def maxWorkerID_def\<close>)
  then have e: "make_id now w q = word_of_int ((now - epoch) * 2 ^ 22 + (w * 2 ^ 12 + q))"
    by (simp add: make_id_def timestampShift_def workerIDShift_def sequenceBits_def workerIDBits_def w or.assoc)
  have "0 \<le> (now - epoch) * 2 ^ 22 + (w * 2 ^ 12 + q)" "(now - epoch) * 2 ^ 22 + (w * 2 ^ 12 + q) < 2 ^ 64"
    using assms by (auto simp: in_range_def sequenceMask_def maxWorkerID_def)
  then show ?thesis unfolding e by (subst uint_word64) simp_all
qed

lemma make_id_less_iff:
  assumes "in_range t w q" "in_range t' w q'"
  shows "make_id t w q < make_id t' w q' \<longleftrightarrow> t < t' \<or> t = t' \<and> q < q'"
  unfolding word_less_def make_id_value [OF assms(1)] make_id_value [OF assms(2)]
  using assms by (auto simp: in_range_def sequenceMask_def)

lemma make_id_eq_iff:
  assumes "in_range t w q" "in_range t' w' q'"
  shows "make_id t w q = make_id t' w' q' \<longleftrightarrow> t = t' \<and> w = w' \<and> q = q'"
proof
  assume "make_id t w q = make_id t' w' q'"
  then have "(t - epoch) * 2 ^ 22 + w * 2 ^ 12 + q = (t' - epoch) * 2 ^ 22 + w' * 2 ^ 12 + q'"
    using make_id_value [OF assms(1)] make_id_value [OF assms(2)] by simp
  moreover from this have "t = t'" using assms by (auto simp: in_range_def sequenceMask_def maxWorkerID_def)
  ultimately have e: "w * 4096 + q = w' * 4096 + q'" by simp
  have "0 \<le> q" "q \<le> 4095" "0 \<le> q'" "q' \<le> 4095" using assms by (auto simp: in_range_def sequenceMask_def)
  then have "w = w'" using e by linarith
  then show "t = t' \<and> w = w' \<and> q = q'" using e \<open>t = t'\<close> by simp
qed simp

section \<open>One call\<close>

lemma tilNextMillis_later:
  assumes "tilNextMillis clock k lim = Some (t, k')"
  shows "lim < t \<and> k < k' \<and> t = clock (k' - 1)"
  using assms
proof (induction rule: tilNextMillis.raw_induct [where P = "\<lambda>clock k lim r. lim < fst r \<and> k < snd r \<and> fst r = clock (snd r - 1)",
      of clock k lim "(t, k')", unfolded fst_conv snd_conv, rotated, consumes 1])
  case (1 f clock k lim r)
  then show ?case by (cases r) (fastforce split: if_splits)
qed

lemma tilNextMillis_returns:
  assumes "lim < clock j" "k \<le> j"
  shows "\<exists>r. tilNextMillis clock k lim = Some r"
  using assms(2)
proof (induction "j - k" arbitrary: k)
  case 0
  then show ?case using assms(1) by (simp add: tilNextMillis.simps [of clock k])
next
  case (Suc d)
  then show ?case using Suc.hyps(1) [of "Suc k"] by (simp add: tilNextMillis.simps [of clock k])
qed

lemma next_sequence:
  assumes "0 \<le> q" "q \<le> sequenceMask"
  shows "(q + 1) AND sequenceMask = (if q = sequenceMask then 0 else q + 1)"
proof -
  have "(q + 1) AND sequenceMask = (q + 1) mod 4096"
    using take_bit_eq_mask [of 12 "q + 1"] by (simp add: sequenceMask_def mask_eq_exp_minus_1 take_bit_eq_mod)
  then show ?thesis using assms by (auto simp: sequenceMask_def)
qed

definition node_ok :: "customNode \<Rightarrow> bool" where
  "node_ok n \<longleftrightarrow> 0 \<le> sn_sequence n \<and> sn_sequence n \<le> sequenceMask \<and> 0 \<le> sn_workerID n \<and> sn_workerID n \<le> maxWorkerID"

lemma generate_eq:
  assumes "node_ok n"
  shows "generate clock k n =
    (let issue = (\<lambda>t q k'. (Inr (make_id t (sn_workerID n) q), n\<lparr>sn_lastTimestamp := t, sn_sequence := q\<rparr>, k'))
     in if sn_lastTimestamp n < clock k then Some (issue (clock k) 0 (Suc k))
        else if sn_sequence n \<noteq> sequenceMask then Some (issue (sn_lastTimestamp n) (sn_sequence n + 1) (Suc k))
        else if clock k = sn_lastTimestamp n
        then map_option (\<lambda>(t, k'). issue t 0 k') (tilNextMillis clock (Suc k) (sn_lastTimestamp n))
        else if 5 < sn_lastTimestamp n + 1 - clock k then Some (Inl Overdrawn, n\<lparr>sn_sequence := 0\<rparr>, Suc k)
        else Some (issue (sn_lastTimestamp n + 1) 0 (Suc k)))"
proof -
  have q: "0 \<le> sn_sequence n" "sn_sequence n \<le> sequenceMask" using assms by (auto simp: node_ok_def)
  show ?thesis unfolding generate_def Let_def next_sequence [OF q] maxTolerateTimeDifference_def using q(1) by auto
qed

text \<open>The two ways a call ends: an id later than everything issued before, or the overdraft error.\<close>

lemma generate_cases:
  assumes "generate clock k n = Some (r, n', k')" "node_ok n"
  obtains (overdrawn) "r = Inl Overdrawn" "n' = n\<lparr>sn_sequence := 0\<rparr>" "sn_sequence n = sequenceMask"
      "clock k < sn_lastTimestamp n" "k' = Suc k"
  | (issued) t q j where "r = Inr (make_id t (sn_workerID n) q)" "n' = n\<lparr>sn_lastTimestamp := t, sn_sequence := q\<rparr>"
      "0 \<le> q" "q \<le> sequenceMask" "sn_lastTimestamp n < t \<or> t = sn_lastTimestamp n \<and> sn_sequence n < q"
      "t \<le> max (sn_lastTimestamp n) (clock j + 5)" "clock k \<le> t" "k < k'"
proof -
  have q: "0 \<le> sn_sequence n" "sn_sequence n \<le> sequenceMask" "0 \<le> sequenceMask" using assms(2) by (auto simp: node_ok_def sequenceMask_def)
  note G = assms(1) [unfolded generate_eq [OF assms(2)] Let_def]
  consider "sn_lastTimestamp n < clock k"
    | "clock k \<le> sn_lastTimestamp n" "sn_sequence n \<noteq> sequenceMask"
    | "clock k = sn_lastTimestamp n" "sn_sequence n = sequenceMask"
    | "clock k < sn_lastTimestamp n" "sn_sequence n = sequenceMask" "5 < sn_lastTimestamp n + 1 - clock k"
    | "clock k < sn_lastTimestamp n" "sn_sequence n = sequenceMask" "\<not> 5 < sn_lastTimestamp n + 1 - clock k" by linarith
  then show ?thesis
  proof cases
    case 1
    then show ?thesis using G q(3) by (intro issued [of "clock k" 0 k]) auto
  next
    case 2
    then show ?thesis using G q by (intro issued [of "sn_lastTimestamp n" "sn_sequence n + 1" k]) auto
  next
    case 3
    note at_last = 3
    then obtain t k2 where t: "tilNextMillis clock (Suc k) (sn_lastTimestamp n) = Some (t, k2)"
      and o: "r = Inr (make_id t (sn_workerID n) 0)" "n' = n\<lparr>sn_lastTimestamp := t, sn_sequence := 0\<rparr>" "k' = k2"
      using G by auto
    then show ?thesis using tilNextMillis_later [OF t] q(3) at_last by (intro issued [of t 0 "k2 - 1"]) auto
  next
    case 4
    then show ?thesis using G by (intro overdrawn) auto
  next
    case 5
    then show ?thesis using G q(3) by (intro issued [of "sn_lastTimestamp n + 1" 0 k]) auto
  qed
qed

section \<open>Runs\<close>

definition clock_in_range :: "(nat \<Rightarrow> int) \<Rightarrow> bool" where
  "clock_in_range clock \<longleftrightarrow> (\<forall>j. epoch \<le> clock j \<and> clock j + 5 < epoch + 2 ^ 41)"

lemma generate_run_increasing:
  assumes "generate_run clock calls k n = Some (rs, m, k')" "node_ok n" "clock_in_range clock"
    "sn_lastTimestamp n < epoch + 2 ^ 41" "\<forall>r\<in>set rs. \<exists>i. r = Inr i"
  shows "sorted_wrt (<) (map projr rs)
    \<and> (\<forall>i\<in>set (map projr rs). \<exists>t q. i = make_id t (sn_workerID n) q \<and> in_range t (sn_workerID n) q
         \<and> (sn_lastTimestamp n < t \<or> t = sn_lastTimestamp n \<and> sn_sequence n < q))"
  using assms
proof (induction calls arbitrary: k n rs)
  case (Suc calls)
  obtain r n1 k1 rs1 where g: "generate clock k n = Some (r, n1, k1)" and rest: "generate_run clock calls k1 n1 = Some (rs1, m, k')"
    and rs: "rs = r # rs1" using Suc.prems(1) by (auto split: option.splits)
  from g Suc.prems(2) show ?case
  proof (cases rule: generate_cases)
    case overdrawn
    then show ?thesis using Suc.prems(5) rs by auto
  next
    case (issued t q j)
    have "clock j + 5 < epoch + 2 ^ 41" using Suc.prems(3) by (simp add: clock_in_range_def)
    then have hi: "t < epoch + 2 ^ 41" using issued(6) Suc.prems(4) by linarith
    have "epoch \<le> t" using issued(7) Suc.prems(3) order_trans unfolding clock_in_range_def by blast
    then have ir: "in_range t (sn_workerID n) q" using hi issued(3,4) Suc.prems(2) by (simp add: in_range_def node_ok_def)
    have ok: "node_ok n1" "sn_lastTimestamp n1 < epoch + 2 ^ 41" "sn_workerID n1 = sn_workerID n" "sn_lastTimestamp n1 = t" "sn_sequence n1 = q"
      using issued(2-4) Suc.prems(2) hi by (auto simp: node_ok_def)
    have IH: "sorted_wrt (<) (map projr rs1)"
      "\<And>i. i \<in> set (map projr rs1) \<Longrightarrow> \<exists>t' q'. i = make_id t' (sn_workerID n) q' \<and> in_range t' (sn_workerID n) q' \<and> (t < t' \<or> t' = t \<and> q < q')"
      using Suc.IH [OF rest ok(1) Suc.prems(3) ok(2)] Suc.prems(5) unfolding rs ok(3-5) by auto
    have "make_id t (sn_workerID n) q < i" if i: "i \<in> set (map projr rs1)" for i
      using IH(2) [OF i] make_id_less_iff [OF ir] by blast
    then have "sorted_wrt (<) (map projr rs)" using IH(1) issued(1) rs by simp
    moreover have "\<exists>t' q'. i = make_id t' (sn_workerID n) q' \<and> in_range t' (sn_workerID n) q'
         \<and> (sn_lastTimestamp n < t' \<or> t' = sn_lastTimestamp n \<and> sn_sequence n < q')" if i: "i \<in> set (map projr rs)" for i
    proof (cases "i \<in> set (map projr rs1)")
      case True
      from IH(2) [OF this] obtain t' q' where "i = make_id t' (sn_workerID n) q'" "in_range t' (sn_workerID n) q'" "t < t' \<or> t' = t \<and> q < q'"
        by blast
      moreover from this have "sn_lastTimestamp n < t' \<or> t' = sn_lastTimestamp n \<and> sn_sequence n < q'" using issued(5) by auto
      ultimately show ?thesis by blast
    next
      case False
      then show ?thesis using i issued(1,5) ir rs by auto
    qed
    ultimately show ?thesis by blast
  qed
qed simp

lemma new_node_ok: "NewCustomNode w = Inr n \<Longrightarrow> node_ok n \<and> sn_lastTimestamp n = -1 \<and> sn_workerID n = w"
  by (auto simp: NewCustomNode_def node_ok_def sequenceMask_def split: if_splits)

text \<open>
  C33. Ids are unique and grow. Two nodes with different worker ids each answer a number of calls
  under arbitrary clocks, which may jump back, whose readings stay in the 41-bit range. As long as no
  call of a node returned an error, its ids strictly increase; and no id of one node is an id of the
  other.
\<close>

theorem generate_unique:
  assumes "NewCustomNode w1 = Inr n1" "NewCustomNode w2 = Inr n2" "w1 \<noteq> w2"
    and "clock_in_range clock1" "clock_in_range clock2"
    and "generate_run clock1 calls1 k1 n1 = Some (rs1, m1, k1')" "generate_run clock2 calls2 k2 n2 = Some (rs2, m2, k2')"
    and "\<forall>r\<in>set rs1. \<exists>i. r = Inr i" "\<forall>r\<in>set rs2. \<exists>i. r = Inr i"
  shows "sorted_wrt (<) (map projr rs1) \<and> sorted_wrt (<) (map projr rs2) \<and> set (map projr rs1) \<inter> set (map projr rs2) = {}"
proof -
  note N1 = new_node_ok [OF assms(1)] and N2 = new_node_ok [OF assms(2)]
  have e: "(-1 :: int) < epoch + 2 ^ 41" by (simp add: epoch_def)
  have R1: "sorted_wrt (<) (map projr rs1)" "\<forall>i\<in>set (map projr rs1). \<exists>t q. i = make_id t w1 q \<and> in_range t w1 q"
    using generate_run_increasing [OF assms(6) _ assms(4) _ assms(8)] N1 e by (simp, force)
  have R2: "sorted_wrt (<) (map projr rs2)" "\<forall>i\<in>set (map projr rs2). \<exists>t q. i = make_id t w2 q \<and> in_range t w2 q"
    using generate_run_increasing [OF assms(7) _ assms(5) _ assms(9)] N2 e by (simp, force)
  have "i \<noteq> j" if "i \<in> set (map projr rs1)" "j \<in> set (map projr rs2)" for i j
    using R1(2) R2(2) that make_id_eq_iff assms(3) by metis
  then show ?thesis using R1(1) R2(1) by blast
qed

definition demo_clock :: "nat \<Rightarrow> int" where
  "demo_clock j = epoch + (if j = 1 then 7 else 10)"

theorem generate_unique_witness:
  "\<exists>rs1 rs2. generate_run demo_clock 3 0 \<lparr>sn_lastTimestamp = -1, sn_workerID = 1, sn_sequence = 0\<rparr> = Some rs1
     \<and> generate_run demo_clock 3 0 \<lparr>sn_lastTimestamp = -1, sn_workerID = 2, sn_sequence = 0\<rparr> = Some rs2
     \<and> length (fst rs1) = 3 \<and> sorted_wrt (<) (map projr (fst rs1)) \<and> set (map projr (fst rs1)) \<inter> set (map projr (fst rs2)) = {}"
proof -
  let ?n = "\<lambda>w. \<lparr>sn_lastTimestamp = -1, sn_workerID = w, sn_sequence = 0\<rparr>"
  let ?rs = "\<lambda>w. [Inr (make_id (epoch + 10) w 0), Inr (make_id (epoch + 10) w 1), Inr (make_id (epoch + 10) w 2)]"
  have r: "generate_run demo_clock 3 0 (?n w) = Some (?rs w, \<lparr>sn_lastTimestamp = epoch + 10, sn_workerID = w, sn_sequence = 2\<rparr>, 3)"
    if "0 \<le> w" "w \<le> maxWorkerID" for w
    using that by (simp add: numeral_3_eq_3 generate_eq node_ok_def sequenceMask_def demo_clock_def epoch_def)
  have h: "NewCustomNode 1 = Inr (?n 1)" "NewCustomNode 2 = Inr (?n 2)" "(1::int) \<noteq> 2" "clock_in_range demo_clock" "clock_in_range demo_clock"
    by (simp_all add: NewCustomNode_def maxWorkerID_def clock_in_range_def demo_clock_def)
  have r1: "generate_run demo_clock 3 0 (?n 1) = Some (?rs 1, \<lparr>sn_lastTimestamp = epoch + 10, sn_workerID = 1, sn_sequence = 2\<rparr>, 3)"
    and r2: "generate_run demo_clock 3 0 (?n 2) = Some (?rs 2, \<lparr>sn_lastTimestamp = epoch + 10, sn_workerID = 2, sn_sequence = 2\<rparr>, 3)"
    using r [of 1] r [of 2] by (simp_all add: maxWorkerID_def)
  from generate_unique [OF h r1 r2] show ?thesis unfolding r1 r2 by simp
qed

text \<open>
  A call returns: only an exhausted millisecond under an exact clock makes it wait, and then it
  returns as soon as some later reading is past the last timestamp.
\<close>

theorem generate_returns:
  assumes "node_ok n" "sn_sequence n = sequenceMask \<Longrightarrow> clock k = sn_lastTimestamp n \<Longrightarrow> \<exists>j > k. sn_lastTimestamp n < clock j"
  shows "\<exists>r n' k'. generate clock k n = Some (r, n', k')"
proof -
  have "\<exists>r. tilNextMillis clock (Suc k) (sn_lastTimestamp n) = Some r"
    if "sn_sequence n = sequenceMask" "clock k = sn_lastTimestamp n"
    using assms(2) [OF that] tilNextMillis_returns [of "sn_lastTimestamp n" clock _ "Suc k"] by (auto simp: Suc_le_eq)
  then show ?thesis unfolding generate_eq [OF assms(1)] Let_def by auto
qed

theorem generate_returns_witness:
  "\<exists>r n' k'. generate (\<lambda>j. int j) 7 \<lparr>sn_lastTimestamp = 7, sn_workerID = 1, sn_sequence = 4095\<rparr> = Some (r, n', k')"
  by (rule generate_returns) (auto simp: node_ok_def sequenceMask_def maxWorkerID_def)

section \<open>An id issued twice\<close>

lemma generate_run_append:
  "generate_run clock (a + b) k n =
     (case generate_run clock a k n of None \<Rightarrow> None
      | Some (rs, m, k1) \<Rightarrow> map_option (\<lambda>(rs', m', k2). (rs @ rs', m', k2)) (generate_run clock b k1 m))"
  by (induction a arbitrary: k n) (auto split: option.splits simp: map_option_case)

lemma generate_burst:
  assumes "node_ok n" "\<And>j. j < c \<Longrightarrow> clock (k + j) = sn_lastTimestamp n" "sn_sequence n + int c \<le> sequenceMask"
  shows "generate_run clock c k n = Some (map (\<lambda>i. Inr (make_id (sn_lastTimestamp n) (sn_workerID n) (sn_sequence n + 1 + int i))) [0..<c],
     n\<lparr>sn_sequence := sn_sequence n + int c\<rparr>, k + c)"
  using assms
proof (induction c arbitrary: k n)
  case (Suc c)
  let ?n = "n\<lparr>sn_sequence := sn_sequence n + 1\<rparr>"
  have "clock k = sn_lastTimestamp n" using Suc.prems(2) [of 0] by simp
  then have g: "generate clock k n = Some (Inr (make_id (sn_lastTimestamp n) (sn_workerID n) (sn_sequence n + 1)), ?n, Suc k)"
    using Suc.prems(3) by (auto simp: generate_eq [OF Suc.prems(1)])
  have "node_ok ?n" "\<And>j. j < c \<Longrightarrow> clock (Suc k + j) = sn_lastTimestamp ?n" "sn_sequence ?n + int c \<le> sequenceMask"
    using Suc.prems(1,3) Suc.prems(2) [of "Suc _"] by (auto simp: node_ok_def)
  note IH = Suc.IH [OF this]
  have sp: "map f [0..<Suc c] = f 0 # map (\<lambda>i. f (Suc i)) [0..<c]" for f :: "nat \<Rightarrow> snowflake_error + 64 word"
    by (simp add: upt_conv_Cons map_Suc_upt [symmetric] comp_def del: upt_Suc)
  show ?case unfolding sp using IH g by (simp add: algebra_simps del: upt_Suc)
qed simp

text \<open>
  An id issued twice. The error about overdrawn borrowed time leaves the node with sequence
  number zero but the old timestamp, so that the next call counts through numbers already issued: on
  any new node, a burst that uses up the millisecond \<open>t\<close>, one call at a clock five milliseconds back,
  and one more call when the clock is right again return the id of the second call once more.
\<close>

theorem generate_duplicate:
  assumes "NewCustomNode w = Inr n" "0 \<le> t"
  shows "\<exists>rs m k. generate_run (\<lambda>j. if j = 4096 then t - 5 else t) 4098 0 n = Some (rs, m, k)
    \<and> rs ! 1 = Inr (make_id t w 1) \<and> rs ! 4096 = Inl Overdrawn \<and> rs ! 4097 = rs ! 1"
proof -
  let ?clock = "\<lambda>j::nat. if j = 4096 then t - 5 else t"
  note N = new_node_ok [OF assms(1)]
  define n1 where "n1 = n\<lparr>sn_lastTimestamp := t, sn_sequence := 0\<rparr>"
  have ok: "node_ok n" "node_ok n1" "node_ok (n1\<lparr>sn_sequence := 4095\<rparr>)" "node_ok (n1\<lparr>sn_sequence := 0\<rparr>)"
    using N by (auto simp: node_ok_def n1_def sequenceMask_def)
  have a: "generate ?clock 0 n = Some (Inr (make_id t w 0), n1, 1)" using N assms(2) by (auto simp: generate_eq [OF ok(1)] n1_def)
  have b: "generate_run ?clock 4095 1 n1 = Some (map (\<lambda>i. Inr (make_id t w (1 + int i))) [0..<4095], n1\<lparr>sn_sequence := 4095\<rparr>, 4096)"
    using generate_burst [OF ok(2), of 4095 ?clock 1] N by (simp add: n1_def sequenceMask_def)
  have c: "generate ?clock 4096 (n1\<lparr>sn_sequence := 4095\<rparr>) = Some (Inl Overdrawn, n1\<lparr>sn_sequence := 0\<rparr>, 4097)"
    unfolding generate_eq [OF ok(3)] by (simp add: sequenceMask_def n1_def)
  have d: "generate ?clock 4097 (n1\<lparr>sn_sequence := 0\<rparr>) = Some (Inr (make_id t w 1), n1\<lparr>sn_sequence := 1\<rparr>, 4098)"
    unfolding generate_eq [OF ok(4)] using N by (simp add: sequenceMask_def n1_def)
  have cd: "generate_run ?clock 2 4096 (n1\<lparr>sn_sequence := 4095\<rparr>) = Some ([Inl Overdrawn, Inr (make_id t w 1)], n1\<lparr>sn_sequence := 1\<rparr>, 4098)"
    using c d by (simp add: numeral_2_eq_2)
  let ?rs = "map (\<lambda>i. Inr (make_id t w (1 + int i))) [0..<4095] @ [Inl Overdrawn, Inr (make_id t w 1)]"
  have "generate_run ?clock (4095 + 2) 1 n1 = Some (?rs, n1\<lparr>sn_sequence := 1\<rparr>, 4098)"
    unfolding generate_run_append b using cd by simp
  then have "generate_run ?clock (Suc (4095 + 2)) 0 n = Some (Inr (make_id t w 0) # ?rs, n1\<lparr>sn_sequence := 1\<rparr>, 4098)"
    unfolding generate_run.simps a by simp
  moreover have "(Inr (make_id t w 0) # ?rs) ! 1 = Inr (make_id t w 1)" "(Inr (make_id t w 0) # ?rs) ! 4096 = Inl Overdrawn"
    "(Inr (make_id t w 0) # ?rs) ! 4097 = Inr (make_id t w 1)"
    by (simp_all add: nth_append nth_Cons')
  ultimately show ?thesis by simp
qed

theorem generate_duplicate_witness:
  "\<exists>rs m k. generate_run (\<lambda>j. if j = 4096 then epoch - 5 else epoch) 4098 0 \<lparr>sn_lastTimestamp = -1, sn_workerID = 3, sn_sequence = 0\<rparr>
     = Some (rs, m, k) \<and> rs ! 4097 = rs ! 1"
proof -
  have h: "NewCustomNode 3 = Inr \<lparr>sn_lastTimestamp = -1, sn_workerID = 3, sn_sequence = 0\<rparr>" "0 \<le> epoch"
    by (simp_all add: NewCustomNode_def maxWorkerID_def epoch_def)
  from generate_duplicate [OF h] show ?thesis by blast
qed

section \<open>Worker slots\<close>

text \<open>
  The hash \<^verbatim>\<open>machine_slots\<close>: for a slot the time of the last heartbeat and the owner. The script of
  \<^verbatim>\<open>MustInit\<close> runs atomically in the store; the store itself is outside the program.
\<close>

type_synonym slots = "nat \<rightharpoonup> int \<times> string"

fun claim_slot :: "int \<Rightarrow> int \<Rightarrow> string \<Rightarrow> nat list \<Rightarrow> slots \<Rightarrow> int \<times> slots" where
  "claim_slot now timeout ip [] h = (-1, h)"
| "claim_slot now timeout ip (i # rest) h =
     (case h i of
        None \<Rightarrow> (int i, h(i \<mapsto> (now, ip)))
      | Some (last_time, _) \<Rightarrow> if timeout < now - last_time then (int i, h(i \<mapsto> (now, ip))) else claim_slot now timeout ip rest h)"

text \<open>\<open>None\<close> is a panic.\<close>

definition MustInit :: "int \<Rightarrow> string \<Rightarrow> slots \<Rightarrow> (customNode \<times> slots) option" where
  "MustInit now ip h =
     (if ip = [] then None
      else let (workID, h') = claim_slot now 30000 ip [0..<1024] h
           in case NewCustomNode workID of Inl _ \<Rightarrow> None | Inr n \<Rightarrow> Some (n, h'))"

definition keepAlive_tick :: "int \<Rightarrow> int \<Rightarrow> string \<Rightarrow> slots \<Rightarrow> slots" where
  "keepAlive_tick now workerID ip h = h(nat workerID \<mapsto> (now, ip))"

lemma claim_slot_cases:
  assumes "claim_slot now timeout ip js h = (w, h')"
  shows "w = -1 \<and> h' = h \<and> (\<forall>i\<in>set js. \<exists>t p. h i = Some (t, p) \<and> now - t \<le> timeout)
    \<or> (\<exists>i\<in>set js. w = int i \<and> h' = h(i \<mapsto> (now, ip)) \<and> (\<forall>t p. h i = Some (t, p) \<longrightarrow> timeout < now - t))"
  using assms by (induction js) (auto split: option.splits if_splits)

lemma MustInit_cases:
  assumes "ip \<noteq> []"
  shows "MustInit now ip h = None \<and> (\<forall>i<1024. \<exists>t p. h i = Some (t, p) \<and> now - t \<le> 30000)
    \<or> (\<exists>i n. i < 1024 \<and> NewCustomNode (int i) = Inr n \<and> MustInit now ip h = Some (n, h(i \<mapsto> (now, ip)))
         \<and> (\<forall>t p. h i = Some (t, p) \<longrightarrow> 30000 < now - t))"
proof -
  obtain w h' where c: "claim_slot now 30000 ip [0..<1024] h = (w, h')" by (cases "claim_slot now 30000 ip [0..<1024] h")
  from claim_slot_cases [OF c] show ?thesis
    using assms c by (auto simp: MustInit_def NewCustomNode_def maxWorkerID_def)
qed

text \<open>
  Processes over time: a process starts and claims a slot, a live process sends a heartbeat, a
  process dies. A start happens at a moment when every live process has sent a heartbeat within the
  timeout, which is what \<^verbatim>\<open>keepAlive\<close> with its period of ten seconds is for.
\<close>

record slot_world =
  sw_slots :: slots
  sw_live :: "(nat \<times> string) list"

definition beats :: "int \<Rightarrow> slot_world \<Rightarrow> bool" where
  "beats now s \<longleftrightarrow> (\<forall>(i, ip)\<in>set (sw_live s). \<exists>t p. sw_slots s i = Some (t, p) \<and> now - t \<le> 30000)"

inductive slot_reach :: "slot_world \<Rightarrow> bool" where
  reach_init: "slot_reach \<lparr>sw_slots = Map.empty, sw_live = []\<rparr>"
| reach_start: "slot_reach s \<Longrightarrow> beats now s \<Longrightarrow> MustInit now ip (sw_slots s) = Some (n, h) \<Longrightarrow>
     slot_reach \<lparr>sw_slots = h, sw_live = (nat (sn_workerID n), ip) # sw_live s\<rparr>"
| reach_beat: "slot_reach s \<Longrightarrow> (i, ip) \<in> set (sw_live s) \<Longrightarrow> slot_reach (s\<lparr>sw_slots := keepAlive_tick now (int i) ip (sw_slots s)\<rparr>)"
| reach_die: "slot_reach s \<Longrightarrow> slot_reach (s\<lparr>sw_live := remove1 p (sw_live s)\<rparr>)"

inductive_cases slot_reachE: "slot_reach s"

lemma distinct_map_remove1: "distinct (map f xs) \<Longrightarrow> distinct (map f (remove1 x xs))"
  by (induction xs) (auto simp: image_iff dest: notin_set_remove1)

text \<open>
  No two live processes share a worker id. In every world that starts, heartbeats and deaths can
  reach, the slots of the live processes are pairwise different and below 1024.
\<close>

theorem worker_slots_exclusive:
  assumes "slot_reach s"
  shows "distinct (map fst (sw_live s)) \<and> (\<forall>(i, ip)\<in>set (sw_live s). i < 1024 \<and> NewCustomNode (int i) \<noteq> Inl BadWorkerID)"
  using assms
proof (induction rule: slot_reach.induct)
  case (reach_start s now ip n h)
  have "ip \<noteq> []" using reach_start.hyps(3) by (auto simp: MustInit_def)
  from MustInit_cases [OF this, of now "sw_slots s"] reach_start.hyps(3) obtain i where
    i: "i < 1024" "NewCustomNode (int i) = Inr n" "\<And>t p. sw_slots s i = Some (t, p) \<Longrightarrow> 30000 < now - t" by auto
  have w: "nat (sn_workerID n) = i" using new_node_ok [OF i(2)] by simp
  have "i \<notin> fst ` set (sw_live s)"
  proof
    assume "i \<in> fst ` set (sw_live s)"
    then obtain t p where "sw_slots s i = Some (t, p)" "now - t \<le> 30000" using reach_start.hyps(2) by (fastforce simp: beats_def)
    then show False using i(3) by fastforce
  qed
  then show ?case using reach_start.IH i(1,2) w by simp
next
  case (reach_die s p)
  then show ?case using distinct_map_remove1 [of fst "sw_live s" p] by (auto dest: notin_set_remove1)
qed auto

theorem worker_slots_exclusive_witness:
  "\<exists>s. slot_reach s \<and> map fst (sw_live s) = [1, 0] \<and> distinct (map fst (sw_live s))"
proof -
  let ?n = "\<lambda>w. \<lparr>sn_lastTimestamp = -1, sn_workerID = w, sn_sequence = 0\<rparr>"
  let ?s = "\<lparr>sw_slots = [0 \<mapsto> (100, ''a'')], sw_live = [(0, ''a'')]\<rparr>"
  let ?s2 = "\<lparr>sw_slots = [0 \<mapsto> (100, ''a''), 1 \<mapsto> (200, ''b'')], sw_live = [(1, ''b''), (0, ''a'')]\<rparr>"
  obtain rest where u: "[0..<1024] = 0 # 1 # rest"
    using upt_conv_Cons [of 0 1024] upt_conv_Cons [of "Suc 0" 1024] unfolding One_nat_def by (metis less_numeral_extra(1) one_less_numeral_iff semiring_norm(76) One_nat_def zero_less_numeral)
  have "MustInit 100 ''a'' Map.empty = Some (?n 0, [0 \<mapsto> (100, ''a'')])"
    unfolding MustInit_def u by (simp add: NewCustomNode_def maxWorkerID_def)
  then have "slot_reach ?s" using reach_start [OF reach_init, of 100 "''a''" "?n 0"] by (simp add: beats_def)
  moreover have "MustInit 200 ''b'' [0 \<mapsto> (100, ''a'')] = Some (?n 1, [0 \<mapsto> (100, ''a''), 1 \<mapsto> (200, ''b'')])"
    unfolding MustInit_def u by (simp add: NewCustomNode_def maxWorkerID_def)
  ultimately have r: "slot_reach ?s2" using reach_start [of ?s 200 "''b''" "?n 1"] by (simp add: beats_def)
  show ?thesis using worker_slots_exclusive [OF r] r by (intro exI [of _ ?s2]) simp
qed

end
