(* ===== verification/Tool_Spec.thy ===== *)
theory Tool_Spec
  imports Go_Errors
begin

text \<open>
  Tool registration: \<^verbatim>\<open>src/internal/module/agent/workflow/tool/spec.go\<close> and the registry of
  \<^verbatim>\<open>workflow/tool/registry.go\<close>. Durations are nanoseconds. The JSON schema compiler is a package
  outside the program and a parameter: from a specification it makes an input check or an error.
\<close>

type_synonym inputs = "(string \<times> gval) list"

definition CategoryRead :: string where "CategoryRead = ''read''"
definition CategoryWrite :: string where "CategoryWrite = ''write''"
definition CategoryRisky :: string where "CategoryRisky = ''risky''"
definition CategoryInternal :: string where "CategoryInternal = ''internal''"
definition PermissionAuthenticated :: string where "PermissionAuthenticated = ''authenticated''"
definition PermissionInternal :: string where "PermissionInternal = ''internal''"
definition ApprovalNever :: string where "ApprovalNever = ''never''"
definition ApprovalRequired :: string where "ApprovalRequired = ''required''"

lemmas tool_constants = CategoryRead_def CategoryWrite_def CategoryRisky_def CategoryInternal_def
  PermissionAuthenticated_def PermissionInternal_def ApprovalNever_def ApprovalRequired_def

definition Millisecond :: int where "Millisecond = 1000000"
definition Second :: int where "Second = 1000000000"

record RetryPolicy =
  rt_MaxAttempts :: int
  rt_InitialBackoff :: int
  rt_MaxBackoff :: int

definition RetryPolicy_normalized :: "RetryPolicy \<Rightarrow> RetryPolicy" where
  "RetryPolicy_normalized p =
     (let attempts = (if rt_MaxAttempts p < 1 then 1 else rt_MaxAttempts p);
          initial = (if rt_InitialBackoff p \<le> 0 then 100 * Millisecond else rt_InitialBackoff p);
          maximum = (if rt_MaxBackoff p \<le> 0 then Second else rt_MaxBackoff p)
      in \<lparr>rt_MaxAttempts = attempts, rt_InitialBackoff = initial, rt_MaxBackoff = (if maximum < initial then initial else maximum)\<rparr>)"

record ToolSpec =
  ts_Name :: string
  ts_Description :: string
  ts_InputSchema :: raw_message
  ts_Category :: string
  ts_Permission :: string
  ts_Timeout :: int
  ts_Retry :: RetryPolicy
  ts_IdempotencyRequired :: bool
  ts_Approval :: string
  ts_SensitiveFields :: "string list"

datatype spec_error = NameRequired | InvalidCategory string string | InvalidPermission string string | MustRequireApproval string string

definition Normalize :: "ToolSpec \<Rightarrow> spec_error + ToolSpec" where
  "Normalize s =
     (let name = trim_space (ts_Name s);
          category = (if ts_Category s = [] then CategoryRisky else ts_Category s);
          permission = (if ts_Permission s = [] then PermissionAuthenticated else ts_Permission s);
          approval = (if ts_Approval s = []
            then (if category = CategoryWrite \<or> category = CategoryRisky then ApprovalRequired else ApprovalNever)
            else ts_Approval s)
      in if name = [] then Inl NameRequired
         else if category \<notin> {CategoryRead, CategoryWrite, CategoryRisky, CategoryInternal} then Inl (InvalidCategory name category)
         else if permission \<notin> {PermissionAuthenticated, PermissionInternal} then Inl (InvalidPermission name permission)
         else if (category = CategoryWrite \<or> category = CategoryRisky) \<and> approval \<noteq> ApprovalRequired
         then Inl (MustRequireApproval name category)
         else Inr \<lparr>ts_Name = name, ts_Description = trim_space (ts_Description s),
                ts_InputSchema = (if ts_InputSchema s = RawEmpty then RawJSON (GMap [(''type'', GString ''object'')]) else ts_InputSchema s),
                ts_Category = category, ts_Permission = (if category = CategoryInternal then PermissionInternal else permission),
                ts_Timeout = (if ts_Timeout s \<le> 0 then 30 * Second else ts_Timeout s), ts_Retry = RetryPolicy_normalized (ts_Retry s),
                ts_IdempotencyRequired = ts_IdempotencyRequired s, ts_Approval = approval, ts_SensitiveFields = ts_SensitiveFields s\<rparr>)"

definition RequiresApproval :: "ToolSpec \<Rightarrow> bool" where
  "RequiresApproval s \<longleftrightarrow> ts_Approval s = ApprovalRequired \<or> ts_Category s = CategoryWrite \<or> ts_Category s = CategoryRisky"

lemma RetryPolicy_normalized_bounds:
  "1 \<le> rt_MaxAttempts (RetryPolicy_normalized p)" "0 < rt_InitialBackoff (RetryPolicy_normalized p)"
  "rt_InitialBackoff (RetryPolicy_normalized p) \<le> rt_MaxBackoff (RetryPolicy_normalized p)"
  by (auto simp: RetryPolicy_normalized_def Let_def Millisecond_def Second_def)

lemma RetryPolicy_normalized_idem: "RetryPolicy_normalized (RetryPolicy_normalized p) = RetryPolicy_normalized p"
  by (auto simp: RetryPolicy_normalized_def Let_def Millisecond_def Second_def)

lemma four_guards:
  "(if a then Inl e1 else if b then Inl e2 else if c then Inl e3 else if d then Inl e4 else Inr x) = Inr y \<Longrightarrow>
     \<not> a \<and> \<not> b \<and> \<not> c \<and> \<not> d \<and> y = x"
  by (simp split: if_splits)

lemma Normalize_Inr:
  assumes "Normalize s = Inr t"
  shows "ts_Name t = trim_space (ts_Name s)" "ts_Name t \<noteq> []" "ts_Description t = trim_space (ts_Description s)"
    "ts_InputSchema t \<noteq> RawEmpty" "ts_Category t = (if ts_Category s = [] then CategoryRisky else ts_Category s)"
    "ts_Category t \<in> {CategoryRead, CategoryWrite, CategoryRisky, CategoryInternal}"
    "ts_Permission t \<in> {PermissionAuthenticated, PermissionInternal}" "ts_Category t = CategoryInternal \<Longrightarrow> ts_Permission t = PermissionInternal"
    "0 < ts_Timeout t" "ts_Retry t = RetryPolicy_normalized (ts_Retry s)"
    "ts_Category t = CategoryWrite \<or> ts_Category t = CategoryRisky \<Longrightarrow> ts_Approval t = ApprovalRequired" "ts_Approval t \<noteq> []"
proof -
  let ?cat = "if ts_Category s = [] then CategoryRisky else ts_Category s"
  let ?perm = "if ts_Permission s = [] then PermissionAuthenticated else ts_Permission s"
  let ?appr = "if ts_Approval s = [] then (if ?cat = CategoryWrite \<or> ?cat = CategoryRisky then ApprovalRequired else ApprovalNever) else ts_Approval s"
  note G = four_guards [OF assms [unfolded Normalize_def Let_def]]
  have c: "trim_space (ts_Name s) \<noteq> []" "?cat \<in> {CategoryRead, CategoryWrite, CategoryRisky, CategoryInternal}"
    "?perm \<in> {PermissionAuthenticated, PermissionInternal}" "\<not> ((?cat = CategoryWrite \<or> ?cat = CategoryRisky) \<and> ?appr \<noteq> ApprovalRequired)"
    using G by blast+
  have t: "t = \<lparr>ts_Name = trim_space (ts_Name s), ts_Description = trim_space (ts_Description s),
      ts_InputSchema = (if ts_InputSchema s = RawEmpty then RawJSON (GMap [(''type'', GString ''object'')]) else ts_InputSchema s),
      ts_Category = ?cat, ts_Permission = (if ?cat = CategoryInternal then PermissionInternal else ?perm),
      ts_Timeout = (if ts_Timeout s \<le> 0 then 30 * Second else ts_Timeout s), ts_Retry = RetryPolicy_normalized (ts_Retry s),
      ts_IdempotencyRequired = ts_IdempotencyRequired s, ts_Approval = ?appr, ts_SensitiveFields = ts_SensitiveFields s\<rparr>"
    using G by blast
  show "ts_Name t = trim_space (ts_Name s)" "ts_Name t \<noteq> []" "ts_Description t = trim_space (ts_Description s)" "ts_InputSchema t \<noteq> RawEmpty"
    "ts_Category t = ?cat" "0 < ts_Timeout t" "ts_Retry t = RetryPolicy_normalized (ts_Retry s)"
    using c(1) by (simp_all add: t Second_def)
  show "ts_Category t \<in> {CategoryRead, CategoryWrite, CategoryRisky, CategoryInternal}" using c(2) by (simp only: t ToolSpec.select_convs)
  show "ts_Permission t \<in> {PermissionAuthenticated, PermissionInternal}" using c(3) by (simp add: t)
  show "ts_Category t = CategoryInternal \<Longrightarrow> ts_Permission t = PermissionInternal" by (simp add: t)
  show "ts_Category t = CategoryWrite \<or> ts_Category t = CategoryRisky \<Longrightarrow> ts_Approval t = ApprovalRequired"
    using c(4) by (simp only: t ToolSpec.select_convs) blast
  show "ts_Approval t \<noteq> []" by (simp add: t ApprovalRequired_def ApprovalNever_def)
qed

lemma Normalize_fixed:
  assumes "trim_space (ts_Name t) = ts_Name t" "ts_Name t \<noteq> []" "trim_space (ts_Description t) = ts_Description t" "ts_InputSchema t \<noteq> RawEmpty"
    "ts_Category t \<in> {CategoryRead, CategoryWrite, CategoryRisky, CategoryInternal}" "ts_Permission t \<in> {PermissionAuthenticated, PermissionInternal}"
    "ts_Category t = CategoryInternal \<Longrightarrow> ts_Permission t = PermissionInternal" "0 < ts_Timeout t"
    "RetryPolicy_normalized (ts_Retry t) = ts_Retry t" "ts_Category t = CategoryWrite \<or> ts_Category t = CategoryRisky \<Longrightarrow> ts_Approval t = ApprovalRequired"
    "ts_Approval t \<noteq> []"
  shows "Normalize t = Inr t"
proof -
  have ne: "ts_Category t \<noteq> []" "ts_Permission t \<noteq> []" using assms(5,6) by (auto simp: tool_constants)
  show ?thesis unfolding Normalize_def Let_def using assms ne by (cases t) (simp, blast)
qed

text \<open>
  C34. Normalising a tool specification is safe and stable. A specification that is accepted has a
  name, a positive timeout and a sane retry policy; a tool that writes or is risky requires approval,
  and so does every tool of an unstated category; an internal tool needs the internal permission; and
  normalising the result again changes nothing.
\<close>

theorem Normalize_safe:
  assumes "Normalize s = Inr t"
  shows "Normalize t = Inr t \<and> ts_Name t \<noteq> [] \<and> 0 < ts_Timeout t \<and> 1 \<le> rt_MaxAttempts (ts_Retry t)
    \<and> 0 < rt_InitialBackoff (ts_Retry t) \<and> rt_InitialBackoff (ts_Retry t) \<le> rt_MaxBackoff (ts_Retry t)
    \<and> (RequiresApproval t \<longleftrightarrow> ts_Approval t = ApprovalRequired)
    \<and> (ts_Category s \<in> {[], CategoryWrite, CategoryRisky} \<longrightarrow> RequiresApproval t)
    \<and> (ts_Category t = CategoryInternal \<longrightarrow> ts_Permission t = PermissionInternal)"
proof -
  note N = Normalize_Inr [OF assms]
  have "Normalize t = Inr t"
    by (rule Normalize_fixed [OF _ N(2) _ N(4,6,7,8,9) _ N(11,12)]) (simp_all add: N(1,3,10) RetryPolicy_normalized_idem)
  moreover have "ts_Category s \<in> {[], CategoryWrite, CategoryRisky} \<Longrightarrow> RequiresApproval t"
    using N(5) by (auto simp: RequiresApproval_def)
  ultimately show ?thesis using N RetryPolicy_normalized_bounds by (auto simp: RequiresApproval_def)
qed

definition demo_spec :: ToolSpec where
  "demo_spec = \<lparr>ts_Name = '' post '', ts_Description = [], ts_InputSchema = RawEmpty, ts_Category = CategoryWrite, ts_Permission = [],
     ts_Timeout = 0, ts_Retry = \<lparr>rt_MaxAttempts = 0, rt_InitialBackoff = 0, rt_MaxBackoff = 0\<rparr>, ts_IdempotencyRequired = True,
     ts_Approval = [], ts_SensitiveFields = []\<rparr>"

lemma demo_spec_normal: "\<exists>t. Normalize demo_spec = Inr t \<and> ts_Category t = CategoryWrite \<and> ts_Name t = ''post''"
proof -
  have "trim_space '' post '' = ''post''" by code_simp
  then show ?thesis by (simp add: Normalize_def demo_spec_def Let_def tool_constants)
qed

theorem Normalize_safe_witness: "\<exists>t. Normalize demo_spec = Inr t \<and> RequiresApproval t \<and> Normalize t = Inr t"
proof -
  obtain t where t: "Normalize demo_spec = Inr t" using demo_spec_normal by blast
  from Normalize_safe [OF t] t show ?thesis by (auto simp: demo_spec_def)
qed

section \<open>The registry\<close>

text \<open>A handler is a token; its behaviour is a parameter of the executor.\<close>

record RegisteredTool =
  rg_Spec :: ToolSpec
  rg_Handler :: nat
  rg_validate :: "inputs \<Rightarrow> gerr option"

text \<open>The Go map of tools, with its keys in the order of registration.\<close>

type_synonym ToolRegistry = "(string \<times> RegisteredTool) list"

type_synonym schema_compiler = "ToolSpec \<Rightarrow> gerr + (inputs \<Rightarrow> gerr option)"

datatype register_error = HandlerNil | SpecRejected spec_error | SchemaRejected string gerr | DuplicateTool string

definition NewRegistry :: ToolRegistry where
  "NewRegistry = []"

definition registry_Get :: "ToolRegistry \<Rightarrow> string \<Rightarrow> RegisteredTool option" where
  "registry_Get r name = map_of r name"

definition RegisterHandler :: "schema_compiler \<Rightarrow> ToolSpec \<Rightarrow> nat option \<Rightarrow> ToolRegistry \<Rightarrow> register_error + ToolRegistry" where
  "RegisterHandler compile spec handler r = (case handler of
      None \<Rightarrow> Inl HandlerNil
    | Some h \<Rightarrow>
        (case Normalize spec of
           Inl e \<Rightarrow> Inl (SpecRejected e)
         | Inr normalized \<Rightarrow>
             (case compile normalized of
                Inl e \<Rightarrow> Inl (SchemaRejected (ts_Name normalized) e)
              | Inr validator \<Rightarrow>
                  if map_of r (ts_Name normalized) \<noteq> None then Inl (DuplicateTool (ts_Name normalized))
                  else Inr (r @ [(ts_Name normalized, \<lparr>rg_Spec = normalized, rg_Handler = h, rg_validate = validator\<rparr>)]))))"

definition Register :: "schema_compiler \<Rightarrow> (ToolSpec \<times> nat) option \<Rightarrow> ToolRegistry \<Rightarrow> register_error + ToolRegistry" where
  "Register compile tool r = (case tool of None \<Rightarrow> Inl HandlerNil | Some (spec, h) \<Rightarrow> RegisterHandler compile spec (Some h) r)"

definition Specs :: "ToolRegistry \<Rightarrow> ToolSpec list" where
  "Specs r = sort_key ts_Name (map (\<lambda>(k, t). rg_Spec t) r)"

text \<open>What a registration stands for, if it is acceptable at all.\<close>

definition candidate :: "schema_compiler \<Rightarrow> ToolSpec \<times> nat option \<Rightarrow> RegisteredTool option" where
  "candidate compile reg = (case reg of (spec, handler) \<Rightarrow>
     (case (handler, Normalize spec) of
        (Some h, Inr n) \<Rightarrow> (case compile n of Inr v \<Rightarrow> Some \<lparr>rg_Spec = n, rg_Handler = h, rg_validate = v\<rparr> | Inl _ \<Rightarrow> None)
      | _ \<Rightarrow> None))"

fun register_all :: "schema_compiler \<Rightarrow> (ToolSpec \<times> nat option) list \<Rightarrow> ToolRegistry \<Rightarrow> ToolRegistry" where
  "register_all compile [] r = r"
| "register_all compile ((spec, h) # regs) r =
     register_all compile regs (case RegisterHandler compile spec h r of Inl _ \<Rightarrow> r | Inr r' \<Rightarrow> r')"

fun first_named :: "string \<Rightarrow> RegisteredTool option list \<Rightarrow> RegisteredTool option" where
  "first_named n [] = None"
| "first_named n (None # cs) = first_named n cs"
| "first_named n (Some t # cs) = (if ts_Name (rg_Spec t) = n then Some t else first_named n cs)"

definition registry_ok :: "ToolRegistry \<Rightarrow> bool" where
  "registry_ok r \<longleftrightarrow> distinct (map fst r) \<and> (\<forall>(k, t)\<in>set r. ts_Name (rg_Spec t) = k)"

lemma RegisterHandler_step:
  "(case RegisterHandler compile spec h r of Inl _ \<Rightarrow> r | Inr r' \<Rightarrow> r') =
     (case candidate compile (spec, h) of None \<Rightarrow> r
      | Some t \<Rightarrow> if map_of r (ts_Name (rg_Spec t)) = None then r @ [(ts_Name (rg_Spec t), t)] else r)"
  by (auto simp: RegisterHandler_def candidate_def split: option.splits sum.splits)

lemma registry_ok_snoc:
  "registry_ok r \<Longrightarrow> map_of r (ts_Name (rg_Spec t)) = None \<Longrightarrow> registry_ok (r @ [(ts_Name (rg_Spec t), t)])"
  by (auto simp: registry_ok_def map_of_eq_None_iff)

lemma register_all_spec:
  assumes "registry_ok r"
  shows "registry_ok (register_all compile regs r)
    \<and> map_of (register_all compile regs r) n = (case map_of r n of Some t \<Rightarrow> Some t | None \<Rightarrow> first_named n (map (candidate compile) regs))"
  using assms
proof (induction compile regs r rule: register_all.induct)
  case (2 compile spec h regs r)
  show ?case
  proof (cases "candidate compile (spec, h)")
    case None
    then show ?thesis using 2 RegisterHandler_step [where compile = compile and spec = spec and h = h and r = r]
      by (simp split: option.splits)
  next
    case (Some t)
    let ?r = "if map_of r (ts_Name (rg_Spec t)) = None then r @ [(ts_Name (rg_Spec t), t)] else r"
    have "registry_ok ?r" using 2(2) registry_ok_snoc by simp
    then have IH: "registry_ok (register_all compile regs ?r)"
      "map_of (register_all compile regs ?r) n = (case map_of ?r n of Some t \<Rightarrow> Some t | None \<Rightarrow> first_named n (map (candidate compile) regs))"
      using 2(1) RegisterHandler_step [where compile = compile and spec = spec and h = h and r = r] Some by simp_all
    then show ?thesis using RegisterHandler_step [where compile = compile and spec = spec and h = h and r = r] Some by (auto simp: map_add_def split: option.splits)
  qed
qed (auto split: option.splits)

text \<open>
  The registry keeps the first of each name. After any sequence of registrations, accepted or
  not, looking up a name gives the first acceptable registration whose normalised specification has
  that name, and nothing if there is none; \<^verbatim>\<open>Specs\<close> lists the specifications strictly sorted by name,
  exactly one for each name that can be looked up.
\<close>

theorem registry_first_wins:
  fixes compile regs
  defines "r \<equiv> register_all compile regs NewRegistry"
  shows "(\<forall>n. registry_Get r n = first_named n (map (candidate compile) regs))
    \<and> sorted_wrt (<) (map ts_Name (Specs r)) \<and> set (map ts_Name (Specs r)) = {n. registry_Get r n \<noteq> None}"
proof -
  have ok: "registry_ok NewRegistry" by (simp add: registry_ok_def NewRegistry_def)
  have R: "registry_ok r" "map_of r n = first_named n (map (candidate compile) regs)" for n
    using register_all_spec [OF ok, of compile regs n] by (auto simp: r_def NewRegistry_def)
  have "map ts_Name (map (\<lambda>(k, t). rg_Spec t) r) = map fst r" using R(1) by (auto simp: registry_ok_def)
  moreover have "mset (map ts_Name (Specs r)) = mset (map ts_Name (map (\<lambda>(k, t). rg_Spec t) r))"
    unfolding Specs_def mset_map [of ts_Name] mset_sort ..
  ultimately have m: "mset (map ts_Name (Specs r)) = mset (map fst r)" by metis
  then have "distinct (map ts_Name (Specs r))" using R(1) by (metis mset_eq_imp_distinct_iff registry_ok_def)
  moreover have "sorted (map ts_Name (Specs r))" by (simp add: Specs_def)
  ultimately have "sorted_wrt (<) (map ts_Name (Specs r))" by (simp add: strict_sorted_iff)
  moreover have "set (map ts_Name (Specs r)) = set (map fst r)" using m by (rule mset_eq_setD)
  moreover have "set (map fst r) = {n. registry_Get r n \<noteq> None}" by (simp add: registry_Get_def map_of_eq_None_iff)
  ultimately show ?thesis using R(2) by (simp add: registry_Get_def)
qed

end
