(* ===== verification/Circuit_Breaker.thy ===== *)
theory Circuit_Breaker
  imports Go_Errors
begin

text \<open>
  The circuit breaker of the tool executor, \<^verbatim>\<open>src/internal/module/agent/workflow/tool/circuit_breaker.go\<close>:
  one small state machine per tool behind a mutex. An operation takes the clock reading it makes (in
  nanoseconds); the calls of the state observer are kept as a log.
\<close>

definition CircuitClosed :: string where "CircuitClosed = ''closed''"
definition CircuitOpen :: string where "CircuitOpen = ''open''"
definition CircuitHalfOpen :: string where "CircuitHalfOpen = ''half_open''"

lemmas circuit_states = CircuitClosed_def CircuitOpen_def CircuitHalfOpen_def

record circuitEntry =
  ce_state :: string
  ce_failures :: int
  ce_openedAt :: int
  ce_halfOpenInFlight :: bool

record ToolCircuitBreaker =
  cb_entries :: "string \<rightharpoonup> circuitEntry"
  cb_failureThreshold :: int
  cb_openTimeout :: int
  cb_observed :: "(string \<times> string) list"

definition ErrCircuitOpen :: gerr where
  "ErrCircuitOpen = ESentinel ''tool circuit breaker is open''"

definition NewToolCircuitBreaker :: "int \<Rightarrow> int \<Rightarrow> ToolCircuitBreaker" where
  "NewToolCircuitBreaker failureThreshold openTimeout =
     \<lparr>cb_entries = Map.empty, cb_failureThreshold = (if failureThreshold \<le> 0 then 5 else failureThreshold),
      cb_openTimeout = (if openTimeout \<le> 0 then 30 * 1000000000 else openTimeout), cb_observed = []\<rparr>"

definition breaker_observe :: "string \<Rightarrow> string \<Rightarrow> ToolCircuitBreaker \<Rightarrow> ToolCircuitBreaker" where
  "breaker_observe toolName state b = b\<lparr>cb_observed := cb_observed b @ [(toolName, state)]\<rparr>"

definition closed_entry :: circuitEntry where
  "closed_entry = \<lparr>ce_state = CircuitClosed, ce_failures = 0, ce_openedAt = 0, ce_halfOpenInFlight = False\<rparr>"

definition breaker_entry :: "string \<Rightarrow> ToolCircuitBreaker \<Rightarrow> circuitEntry \<times> ToolCircuitBreaker" where
  "breaker_entry toolName b = (case cb_entries b toolName of
      Some entry \<Rightarrow> (entry, b)
    | None \<Rightarrow> (closed_entry, breaker_observe toolName CircuitClosed (b\<lparr>cb_entries := (cb_entries b)(toolName \<mapsto> closed_entry)\<rparr>)))"

definition put_entry :: "string \<Rightarrow> circuitEntry \<Rightarrow> ToolCircuitBreaker \<Rightarrow> ToolCircuitBreaker" where
  "put_entry toolName entry b = b\<lparr>cb_entries := (cb_entries b)(toolName \<mapsto> entry)\<rparr>"

definition breaker_Allow :: "int \<Rightarrow> string \<Rightarrow> ToolCircuitBreaker \<Rightarrow> gerr option \<times> ToolCircuitBreaker" where
  "breaker_Allow now toolName b0 =
     (let (entry, b) = breaker_entry toolName b0
      in if ce_state entry = CircuitOpen
         then if now - ce_openedAt entry < cb_openTimeout b then (Some ErrCircuitOpen, b)
              else (None, breaker_observe toolName CircuitHalfOpen
                     (put_entry toolName (entry\<lparr>ce_state := CircuitHalfOpen, ce_halfOpenInFlight := True\<rparr>) b))
         else if ce_state entry = CircuitHalfOpen
         then if ce_halfOpenInFlight entry then (Some ErrCircuitOpen, b)
              else (None, put_entry toolName (entry\<lparr>ce_halfOpenInFlight := True\<rparr>) b)
         else (None, b))"

definition breaker_RecordSuccess :: "string \<Rightarrow> ToolCircuitBreaker \<Rightarrow> ToolCircuitBreaker" where
  "breaker_RecordSuccess toolName b0 =
     (let (entry, b) = breaker_entry toolName b0;
          b1 = put_entry toolName closed_entry b
      in if ce_state entry \<noteq> CircuitClosed \<or> ce_failures entry \<noteq> 0 then breaker_observe toolName CircuitClosed b1 else b1)"

definition breaker_RecordFailure :: "int \<Rightarrow> string \<Rightarrow> ToolCircuitBreaker \<Rightarrow> ToolCircuitBreaker" where
  "breaker_RecordFailure now toolName b0 =
     (let (entry, b) = breaker_entry toolName b0;
          entry1 = entry\<lparr>ce_failures := ce_failures entry + 1\<rparr>
      in if ce_state entry1 = CircuitHalfOpen \<or> cb_failureThreshold b \<le> ce_failures entry1
         then breaker_observe toolName CircuitOpen
                (put_entry toolName (entry1\<lparr>ce_state := CircuitOpen, ce_openedAt := now, ce_halfOpenInFlight := False\<rparr>) b)
         else put_entry toolName entry1 b)"

text \<open>The breaker an executor without one uses.\<close>

definition noop_Allow :: "int \<Rightarrow> string \<Rightarrow> unit \<Rightarrow> gerr option \<times> unit" where
  "noop_Allow now toolName b = (None, b)"

definition noop_Record :: "string \<Rightarrow> unit \<Rightarrow> unit" where
  "noop_Record toolName b = b"

definition IsCircuitOpen :: "gerr \<Rightarrow> bool" where
  "IsCircuitOpen err = errors_Is err ErrCircuitOpen"

section \<open>What callers rely on\<close>

datatype breaker_op = OpAllow int string | OpSuccess string | OpFailure int string

fun op_tool :: "breaker_op \<Rightarrow> string" where
  "op_tool (OpAllow t x) = x"
| "op_tool (OpSuccess x) = x"
| "op_tool (OpFailure t x) = x"

locale circuit_breaker =
  fixes allow :: "int \<Rightarrow> string \<Rightarrow> 'b \<Rightarrow> gerr option \<times> 'b"
    and success :: "string \<Rightarrow> 'b \<Rightarrow> 'b"
    and failure :: "int \<Rightarrow> string \<Rightarrow> 'b \<Rightarrow> 'b"
  assumes allow_other: "x \<noteq> y \<Longrightarrow> fst (allow now y (snd (allow now' x b))) = fst (allow now y b)"
    and success_other: "x \<noteq> y \<Longrightarrow> fst (allow now y (success x b)) = fst (allow now y b)"
    and failure_other: "x \<noteq> y \<Longrightarrow> fst (allow now y (failure now' x b)) = fst (allow now y b)"
    and success_allows: "fst (allow now x (success x b)) = None"
    and refusal: "fst (allow now x b) \<in> {None, Some ErrCircuitOpen}"
begin

fun perform :: "breaker_op \<Rightarrow> 'b \<Rightarrow> 'b" where
  "perform (OpAllow now x) b = snd (allow now x b)"
| "perform (OpSuccess x) b = success x b"
| "perform (OpFailure now x) b = failure now x b"

lemma perform_other: "op_tool p \<noteq> y \<Longrightarrow> fst (allow now y (perform p b)) = fst (allow now y b)"
  by (cases p) (simp_all add: allow_other success_other failure_other)

text \<open>Tools do not disturb one another.\<close>

lemma others_do_not_matter:
  "\<forall>p\<in>set ops. op_tool p \<noteq> y \<Longrightarrow> fst (allow now y (fold perform ops b)) = fst (allow now y b)"
  by (induction ops arbitrary: b) (auto simp: perform_other)

lemma allowed_after_success:
  "\<forall>p\<in>set ops. op_tool p \<noteq> y \<Longrightarrow> fst (allow now y (fold perform ops (success y b))) = None"
  by (simp add: others_do_not_matter success_allows)

end

lemmas breaker_defs = breaker_Allow_def breaker_RecordSuccess_def breaker_RecordFailure_def breaker_entry_def
  breaker_observe_def put_entry_def

interpretation noop: circuit_breaker noop_Allow noop_Record "\<lambda>_. noop_Record"
  by unfold_locales (simp_all add: noop_Allow_def noop_Record_def)

interpretation tools: circuit_breaker breaker_Allow breaker_RecordSuccess breaker_RecordFailure
  by unfold_locales
    (auto simp: breaker_defs closed_entry_def circuit_states Let_def split: option.splits prod.splits if_splits)

section \<open>The state machine\<close>

definition entry_of :: "string \<Rightarrow> ToolCircuitBreaker \<Rightarrow> circuitEntry" where
  "entry_of x b = map_get closed_entry (cb_entries b) x"

lemma breaker_entry_simps:
  "fst (breaker_entry x b) = entry_of x b"
  "entry_of y (snd (breaker_entry x b)) = entry_of y b"
  "cb_failureThreshold (snd (breaker_entry x b)) = cb_failureThreshold b"
  "cb_openTimeout (snd (breaker_entry x b)) = cb_openTimeout b"
  by (auto simp: breaker_entry_def entry_of_def map_get_def breaker_observe_def split: option.splits)

lemma put_entry_simps:
  "entry_of y (put_entry x e b) = (if y = x then e else entry_of y b)"
  "entry_of y (breaker_observe x st b) = entry_of y b"
  "cb_failureThreshold (put_entry x e b) = cb_failureThreshold b" "cb_openTimeout (put_entry x e b) = cb_openTimeout b"
  "cb_failureThreshold (breaker_observe x st b) = cb_failureThreshold b" "cb_openTimeout (breaker_observe x st b) = cb_openTimeout b"
  by (simp_all add: put_entry_def entry_of_def map_get_def breaker_observe_def)

text \<open>One step of the machine of a tool.\<close>

fun entry_step :: "int \<Rightarrow> int \<Rightarrow> breaker_op \<Rightarrow> circuitEntry \<Rightarrow> circuitEntry" where
  "entry_step threshold timeout (OpAllow now x) e =
     (if ce_state e = CircuitOpen \<and> timeout \<le> now - ce_openedAt e \<or> ce_state e = CircuitHalfOpen
      then e\<lparr>ce_state := CircuitHalfOpen, ce_halfOpenInFlight := True\<rparr> else e)"
| "entry_step threshold timeout (OpSuccess x) e = closed_entry"
| "entry_step threshold timeout (OpFailure now x) e =
     (let e1 = e\<lparr>ce_failures := ce_failures e + 1\<rparr>
      in if ce_state e = CircuitHalfOpen \<or> threshold \<le> ce_failures e + 1
         then e1\<lparr>ce_state := CircuitOpen, ce_openedAt := now, ce_halfOpenInFlight := False\<rparr> else e1)"

lemma perform_entry:
  "entry_of x (tools.perform p b) =
     (if op_tool p = x then entry_step (cb_failureThreshold b) (cb_openTimeout b) p (entry_of x b) else entry_of x b)"
  "cb_failureThreshold (tools.perform p b) = cb_failureThreshold b" "cb_openTimeout (tools.perform p b) = cb_openTimeout b"
proof -
  obtain e b1 where eb: "breaker_entry (op_tool p) b = (e, b1)" by (cases "breaker_entry (op_tool p) b")
  have E: "e = entry_of (op_tool p) b" "entry_of y b1 = entry_of y b" "cb_failureThreshold b1 = cb_failureThreshold b" "cb_openTimeout b1 = cb_openTimeout b" for y
    using breaker_entry_simps [where x = "op_tool p" and b = b] eb by simp_all
  show "entry_of x (tools.perform p b) =
     (if op_tool p = x then entry_step (cb_failureThreshold b) (cb_openTimeout b) p (entry_of x b) else entry_of x b)"
    using eb E
    by (cases p) (auto simp: breaker_Allow_def breaker_RecordSuccess_def breaker_RecordFailure_def put_entry_simps Let_def circuit_states)
  show "cb_failureThreshold (tools.perform p b) = cb_failureThreshold b" "cb_openTimeout (tools.perform p b) = cb_openTimeout b"
    using eb E by (cases p; simp add: breaker_Allow_def breaker_RecordSuccess_def breaker_RecordFailure_def put_entry_simps Let_def)+
qed

lemma Allow_answer:
  "fst (breaker_Allow now x b) =
     (if ce_state (entry_of x b) = CircuitOpen \<and> now - ce_openedAt (entry_of x b) < cb_openTimeout b
       \<or> ce_state (entry_of x b) = CircuitHalfOpen \<and> ce_halfOpenInFlight (entry_of x b) then Some ErrCircuitOpen else None)"
proof -
  obtain e b1 where eb: "breaker_entry x b = (e, b1)" by (cases "breaker_entry x b")
  have "e = entry_of x b" "cb_openTimeout b1 = cb_openTimeout b" using breaker_entry_simps [where x = x and b = b] eb by simp_all
  then show ?thesis using eb by (simp add: breaker_Allow_def circuit_states)
qed

definition entry_ok :: "int \<Rightarrow> circuitEntry \<Rightarrow> bool" where
  "entry_ok threshold e \<longleftrightarrow>
     ce_state e = CircuitClosed \<and> 0 \<le> ce_failures e \<and> ce_failures e < threshold \<and> \<not> ce_halfOpenInFlight e
     \<or> ce_state e = CircuitOpen \<and> threshold \<le> ce_failures e \<and> \<not> ce_halfOpenInFlight e
     \<or> ce_state e = CircuitHalfOpen \<and> threshold \<le> ce_failures e \<and> ce_halfOpenInFlight e"

lemma entry_step_ok: "entry_ok threshold e \<Longrightarrow> 0 < threshold \<Longrightarrow> entry_ok threshold (entry_step threshold timeout p e)"
  by (cases p) (auto simp: entry_ok_def closed_entry_def circuit_states Let_def)

text \<open>The entry of a tool after a history, from the beginning.\<close>

lemma run_entry:
  "entry_of x (fold tools.perform ops b) =
     fold (entry_step (cb_failureThreshold b) (cb_openTimeout b)) (filter (\<lambda>p. op_tool p = x) ops) (entry_of x b)"
  "cb_failureThreshold (fold tools.perform ops b) = cb_failureThreshold b"
  "cb_openTimeout (fold tools.perform ops b) = cb_openTimeout b"
  by (induction ops arbitrary: b) (auto simp: perform_entry simp del: tools.perform.simps)

lemma steps_ok: "entry_ok threshold e \<Longrightarrow> 0 < threshold \<Longrightarrow> entry_ok threshold (fold (entry_step threshold timeout) ps e)"
  by (induction ps arbitrary: e) (auto simp: entry_step_ok)

text \<open>Failures recorded for a tool since its last success.\<close>

fun recent_failures :: "string \<Rightarrow> breaker_op list \<Rightarrow> int" where
  "recent_failures x [] = 0"
| "recent_failures x (OpFailure t y # h) = (if y = x then recent_failures x h + 1 else recent_failures x h)"
| "recent_failures x (OpSuccess y # h) = (if y = x then 0 else recent_failures x h)"
| "recent_failures x (OpAllow t y # h) = recent_failures x h"

lemma recent_failures_nonneg: "0 \<le> recent_failures x h"
  by (induction x h rule: recent_failures.induct) auto

lemma new_entry [simp]: "entry_of x (NewToolCircuitBreaker threshold timeout) = closed_entry"
  by (simp add: entry_of_def NewToolCircuitBreaker_def map_get_def)

lemma run_failures:
  "ce_failures (entry_of x (fold tools.perform (rev h) (NewToolCircuitBreaker threshold timeout))) = recent_failures x h"
  by (induction x h rule: recent_failures.induct)
    (auto simp: perform_entry Let_def new_entry closed_entry_def simp del: tools.perform.simps)

text \<open>
  The circuit opens exactly after the configured number of failures in a row. After any history
  of calls on a new breaker, a tool is let through freely if and only if fewer than the threshold of
  its failures have been recorded since its last success; otherwise it is open, or half open with
  exactly one probe on its way; calls on other tools do not count.
\<close>

theorem breaker_opens_after_failures:
  fixes threshold timeout h x
  defines "b \<equiv> fold tools.perform (rev h) (NewToolCircuitBreaker threshold timeout)"
  defines "e \<equiv> entry_of x b"
  shows "(ce_state e = CircuitClosed \<longleftrightarrow> recent_failures x h < (if threshold \<le> 0 then 5 else threshold))
    \<and> (ce_state e \<noteq> CircuitClosed \<longrightarrow> ce_state e = CircuitOpen \<and> \<not> ce_halfOpenInFlight e
          \<or> ce_state e = CircuitHalfOpen \<and> ce_halfOpenInFlight e)
    \<and> (recent_failures x h < (if threshold \<le> 0 then 5 else threshold) \<longrightarrow> fst (breaker_Allow now x b) = None)"
proof -
  let ?n = "if threshold \<le> 0 then 5 else threshold"
  have "entry_ok ?n e"
    unfolding e_def b_def run_entry(1)
    using steps_ok [of ?n closed_entry "cb_openTimeout (NewToolCircuitBreaker threshold timeout)"]
    by (simp add: closed_entry_def entry_ok_def NewToolCircuitBreaker_def entry_of_def map_get_def)
  moreover have "ce_failures e = recent_failures x h" unfolding e_def b_def by (rule run_failures)
  ultimately show ?thesis by (auto simp: entry_ok_def Allow_answer e_def [symmetric] circuit_states)
qed

theorem breaker_opens_after_failures_witness:
  "recent_failures ''t'' [OpFailure 3 ''t'', OpFailure 2 ''u'', OpSuccess ''t'', OpFailure 1 ''t''] = 1
     \<and> fst (breaker_Allow 9 ''t'' (fold tools.perform (rev [OpFailure 3 ''t'', OpFailure 2 ''u'', OpSuccess ''t'', OpFailure 1 ''t''])
         (NewToolCircuitBreaker 2 10))) = None"
  using breaker_opens_after_failures [of "''t''" "[OpFailure 3 ''t'', OpFailure 2 ''u'', OpSuccess ''t'', OpFailure 1 ''t'']" 2 10 9]
  by simp

text \<open>Calls of a probe's tool that record nothing leave the probe in flight.\<close>

definition records :: "string \<Rightarrow> breaker_op \<Rightarrow> bool" where
  "records x p \<longleftrightarrow> op_tool p = x \<and> (\<forall>t. p \<noteq> OpAllow t x)"

lemma probe_stays:
  assumes "ce_state (entry_of x b) = CircuitHalfOpen" "ce_halfOpenInFlight (entry_of x b)" "\<forall>p\<in>set ops. \<not> records x p"
  shows "ce_state (entry_of x (fold tools.perform ops b)) = CircuitHalfOpen \<and> ce_halfOpenInFlight (entry_of x (fold tools.perform ops b))"
  using assms
proof (induction ops arbitrary: b)
  case (Cons p ops)
  have "entry_of x (tools.perform p b) = entry_of x b"
    unfolding perform_entry(1) using Cons.prems by (cases p) (auto simp: records_def circuit_states)
  then show ?case using Cons.IH [of "tools.perform p b"] Cons.prems by simp
qed simp

text \<open>
  One probe at a time: when a call is let through on a tool that is not closed, every later
  call on that tool, at any time, is refused until its success or its failure is recorded.
\<close>

theorem breaker_single_probe:
  assumes "ce_state (entry_of x b) \<noteq> CircuitClosed" "entry_ok (cb_failureThreshold b) (entry_of x b)"
    and "fst (breaker_Allow now x b) = None" "\<forall>p\<in>set ops. \<not> records x p"
  shows "fst (breaker_Allow later x (fold tools.perform ops (snd (breaker_Allow now x b)))) = Some ErrCircuitOpen"
proof -
  let ?b = "tools.perform (OpAllow now x) b"
  have "ce_state (entry_of x ?b) = CircuitHalfOpen \<and> ce_halfOpenInFlight (entry_of x ?b)"
    using assms(1-3) unfolding perform_entry(1) Allow_answer by (auto simp: entry_ok_def circuit_states split: if_splits)
  with probe_stays [of x ?b ops] assms(4) show ?thesis by (simp add: Allow_answer)
qed

definition demo_breaker :: ToolCircuitBreaker where
  "demo_breaker = fold tools.perform [OpAllow 0 ''t'', OpFailure 1 ''t''] (NewToolCircuitBreaker 1 10)"

lemma demo_entry:
  "entry_of ''t'' demo_breaker = \<lparr>ce_state = CircuitOpen, ce_failures = 1, ce_openedAt = 1, ce_halfOpenInFlight = False\<rparr>"
  "cb_failureThreshold demo_breaker = 1" "cb_openTimeout demo_breaker = 10"
  unfolding demo_breaker_def run_entry
  by (simp_all add: NewToolCircuitBreaker_def entry_of_def map_get_def closed_entry_def circuit_states Let_def)

theorem breaker_single_probe_witness:
  "fst (breaker_Allow 20 ''t'' demo_breaker) = None
     \<and> fst (breaker_Allow 1000 ''t'' (fold tools.perform [OpAllow 30 ''u'', OpAllow 40 ''t''] (snd (breaker_Allow 20 ''t'' demo_breaker)))) = Some ErrCircuitOpen"
proof -
  have a: "fst (breaker_Allow 20 ''t'' demo_breaker) = None" by (simp add: Allow_answer demo_entry circuit_states)
  show ?thesis
    using breaker_single_probe [OF _ _ a, of "[OpAllow 30 ''u'', OpAllow 40 ''t'']" 1000] a
    by (simp add: demo_entry entry_ok_def records_def circuit_states)
qed

end
