(* ===== verification/Tool_Executor.thy ===== *)
theory Tool_Executor
  imports Tool_Spec Circuit_Breaker
begin

text \<open>
  The governance pipeline of tool calls, \<^verbatim>\<open>Executor\<close> of
  \<^verbatim>\<open>src/internal/module/agent/workflow/tool/executor.go\<close>: identity, input schema, guardrail, approval,
  idempotency, circuit breaker, the attempts of the handler, result archive and audit.

  The services behind interfaces (approval gate, idempotency store, result archive, guardrail,
  handler, context) and the JSON and SHA-256 functions are the record \<open>exec_env\<close>: what each of them
  answers in one execution. An execution returns its result, the breaker it leaves and the list of
  its effects in order; every call of a service that may change something is an effect. Durations of
  calls are not modelled.
\<close>

definition CodeUnknownTool :: string where "CodeUnknownTool = ''unknown_tool''"
definition CodeInvalidInput :: string where "CodeInvalidInput = ''invalid_input''"
definition CodeUnauthenticated :: string where "CodeUnauthenticated = ''unauthenticated''"
definition CodeForbidden :: string where "CodeForbidden = ''forbidden''"
definition CodeApprovalRequired :: string where "CodeApprovalRequired = ''approval_required''"
definition CodeIdempotencyRequired :: string where "CodeIdempotencyRequired = ''idempotency_required''"
definition CodeIdempotencyConflict :: string where "CodeIdempotencyConflict = ''idempotency_conflict''"
definition CodeAlreadyExecuting :: string where "CodeAlreadyExecuting = ''already_executing''"
definition CodeCircuitOpen :: string where "CodeCircuitOpen = ''circuit_open''"
definition CodeResultTooLarge :: string where "CodeResultTooLarge = ''result_too_large''"
definition CodeTimeout :: string where "CodeTimeout = ''timeout''"
definition CodeCanceled :: string where "CodeCanceled = ''canceled''"
definition CodeSuspended :: string where "CodeSuspended = ''suspended''"
definition CodeExecutionFailed :: string where "CodeExecutionFailed = ''execution_failed''"

definition ErrUnknownTool :: gerr where "ErrUnknownTool = ESentinel ''unknown tool''"
definition ErrInvalidInput :: gerr where "ErrInvalidInput = ESentinel ''invalid tool input''"
definition ErrUnauthenticated :: gerr where "ErrUnauthenticated = ESentinel ''tool caller is unauthenticated''"
definition ErrForbidden :: gerr where "ErrForbidden = ESentinel ''tool execution is forbidden''"
definition tool_ErrApprovalRequired :: gerr where "tool_ErrApprovalRequired = ESentinel ''tool approval is required''"
definition ErrIdempotencyRequired :: gerr where "ErrIdempotencyRequired = ESentinel ''tool idempotency key is required''"
definition ErrIdempotencyConflict :: gerr where
  "ErrIdempotencyConflict = ESentinel ''tool idempotency key conflicts with another input''"
definition ErrAlreadyExecuting :: gerr where "ErrAlreadyExecuting = ESentinel ''tool execution is already in progress''"
definition ErrResultTooLarge :: gerr where "ErrResultTooLarge = ESentinel ''tool result exceeds the configured size limit''"

definition DefaultMaxResultBytes :: int where "DefaultMaxResultBytes = 1048576"

definition ResultPolicy_normalized :: "int \<Rightarrow> int" where
  "ResultPolicy_normalized maxBytes = (if maxBytes \<le> 0 then DefaultMaxResultBytes else maxBytes)"

record CallerIdentity =
  ci_UserID :: "64 word"
  ci_Internal :: bool

record ExecutionRequest =
  rq_ToolName :: string
  rq_Inputs :: inputs
  rq_Identity :: CallerIdentity
  rq_RunID :: string
  rq_StepID :: string
  rq_Source :: string
  rq_IdempotencyKey :: string

record ApprovalCheck =
  ac_Tool :: ToolSpec
  ac_Identity :: CallerIdentity
  ac_RunID :: string
  ac_StepID :: string
  ac_Source :: string
  ac_Inputs :: inputs
  ac_IdempotencyKey :: string

record ApprovalGrant =
  ag_ApprovalID :: string
  ag_AttemptID :: string
  ag_IdempotencyKey :: string

record IdempotencyCheck =
  ic_ToolName :: string
  ic_UserID :: "64 word"
  ic_IdempotencyKey :: string
  ic_InputDigest :: string
  ic_LeaseUntil :: int

record ResultReference =
  rr_Storage :: string
  rr_Bucket :: string
  rr_Key :: string
  rr_Digest :: string
  rr_Length :: int
  rr_ContentType :: string

record IdempotencyClaim =
  cl_ExecutionID :: string
  cl_AttemptID :: string
  cl_UserID :: "64 word"
  cl_Replayed :: bool
  cl_Outputs :: fields
  cl_OutputReference :: "ResultReference option"

record ResultSnapshot =
  sn_Outputs :: fields
  sn_Payload :: string
  sn_Digest :: string
  sn_Length :: int
  sn_Reference :: "ResultReference option"

record ResultArchiveRequest =
  ar_ToolName :: string
  ar_UserID :: "64 word"
  ar_RunID :: string
  ar_StepID :: string
  ar_Source :: string
  ar_ResultID :: string
  ar_Snapshot :: ResultSnapshot

record AuditEvent =
  au_ToolName :: string
  au_Category :: string
  au_UserID :: "64 word"
  au_RunID :: string
  au_StepID :: string
  au_Source :: string
  au_Decision :: string
  au_ErrorCode :: string
  au_Attempts :: int
  au_IdempotencyKey :: string
  au_Inputs :: inputs
  au_InputDigest :: string
  au_InputLength :: int
  au_OutputDigest :: string
  au_OutputLength :: int
  au_OutputReference :: "ResultReference option"

section \<open>Redaction of audited inputs\<close>

definition defaultSensitiveFields :: "string list" where
  "defaultSensitiveFields = [''api_key'', ''apikey'', ''authorization'', ''cookie'', ''credential'', ''password'', ''secret'',
     ''token'', ''access_token'', ''refresh_token'', ''content'', ''message'', ''prompt'', ''query'', ''system_prompt'', ''text'']"

definition field_key :: "string \<Rightarrow> string" where
  "field_key s = to_lower (trim_space s)"

definition redacted :: gval where
  "redacted = GString ''[REDACTED]''"

text \<open>\<open>redact_value\<close> is the switch on the type of a value that is not itself sensitive.\<close>

fun redactMap :: "string set \<Rightarrow> inputs \<Rightarrow> inputs" and redact_value :: "string set \<Rightarrow> gval \<Rightarrow> gval"
  and redact_item :: "string set \<Rightarrow> gval \<Rightarrow> gval" where
  "redactMap sensitive [] = []"
| "redactMap sensitive ((key, value) # kvs) =
     (key, if field_key key \<in> sensitive then redacted else redact_value sensitive value) # redactMap sensitive kvs"
| "redact_value sensitive (GMap kvs) = GMap (redactMap sensitive kvs)"
| "redact_value sensitive (GSlice items) = GSlice (map (redact_item sensitive) items)"
| "redact_value sensitive v = v"
| "redact_item sensitive (GMap kvs) = GMap (redactMap sensitive kvs)"
| "redact_item sensitive v = v"

definition RedactInputs :: "inputs \<Rightarrow> string list \<Rightarrow> inputs" where
  "RedactInputs inputs sensitiveFields = redactMap (set defaultSensitiveFields \<union> set (map field_key sensitiveFields)) inputs"

section \<open>Services and effects\<close>

datatype breaker_impl = NoBreaker | Breaker ToolCircuitBreaker

fun impl_Allow :: "int \<Rightarrow> string \<Rightarrow> breaker_impl \<Rightarrow> gerr option \<times> breaker_impl" where
  "impl_Allow now toolName NoBreaker = (None, NoBreaker)"
| "impl_Allow now toolName (Breaker b) = (let (e, b') = breaker_Allow now toolName b in (e, Breaker b'))"

fun impl_RecordSuccess :: "string \<Rightarrow> breaker_impl \<Rightarrow> breaker_impl" where
  "impl_RecordSuccess toolName NoBreaker = NoBreaker"
| "impl_RecordSuccess toolName (Breaker b) = Breaker (breaker_RecordSuccess toolName b)"

fun impl_RecordFailure :: "int \<Rightarrow> string \<Rightarrow> breaker_impl \<Rightarrow> breaker_impl" where
  "impl_RecordFailure now toolName NoBreaker = NoBreaker"
| "impl_RecordFailure now toolName (Breaker b) = Breaker (breaker_RecordFailure now toolName b)"

datatype effect =
    FxAuthorize ApprovalCheck | FxApprovalComplete ApprovalGrant | FxApprovalRelease ApprovalGrant
  | FxClaim IdempotencyCheck | FxIdemComplete IdempotencyClaim | FxIdemFail IdempotencyClaim
  | FxHandler nat inputs | FxRecordSuccess | FxRecordFailure
  | FxArchive ResultArchiveRequest | FxDiscard ResultReference
  | FxAudit AuditEvent | FxLog string

text \<open>
  \<open>xv_lifecycle\<close> says whether the approval gate also has \<^verbatim>\<open>Complete\<close> and \<^verbatim>\<open>Release\<close>; functions
  of a number take the attempt; \<open>None\<close> for a service means that the executor has none.
\<close>

record exec_env =
  xv_ctx_err :: "gerr option"
  xv_ctx_user :: "64 word option"
  xv_guardrail :: "(string \<Rightarrow> inputs \<Rightarrow> gerr + inputs) option"
  xv_authorize :: "ApprovalCheck \<Rightarrow> gerr + ApprovalGrant"
  xv_lifecycle :: bool
  xv_approval_complete :: "gerr option"
  xv_approval_release :: "gerr option"
  xv_claim :: "(IdempotencyCheck \<Rightarrow> gerr + IdempotencyClaim) option"
  xv_claim_complete :: "gerr option"
  xv_claim_fail :: "gerr option"
  xv_archive :: "(ResultArchiveRequest \<Rightarrow> gerr + ResultReference option) option"
  xv_discard :: "gerr option"
  xv_max_bytes :: int
  xv_wait :: "nat \<Rightarrow> gerr option"
  xv_late_ctx_err :: "nat \<Rightarrow> gerr option"
  xv_claim_at :: int
  xv_allow_at :: int
  xv_failure_at :: "nat \<Rightarrow> int"
  xv_attempt_id :: string
  xv_json_inputs :: "inputs \<Rightarrow> string option"
  xv_json_outputs :: "fields \<Rightarrow> gerr + string"
  xv_sha256 :: "string \<Rightarrow> string"

type_synonym outcome = "(gerr + fields) \<times> breaker_impl \<times> effect list"

type_synonym handler = "nat \<Rightarrow> inputs \<Rightarrow> gerr + fields"

definition DigestInputs :: "exec_env \<Rightarrow> inputs \<Rightarrow> string" where
  "DigestInputs env inputs = (case xv_json_inputs env inputs of None \<Rightarrow> [] | Some payload \<Rightarrow> xv_sha256 env payload)"

definition digestToolValue :: "exec_env \<Rightarrow> string option \<Rightarrow> string \<times> int" where
  "digestToolValue env encoded = (case encoded of
      None \<Rightarrow> ([], 0)
    | Some payload \<Rightarrow> if payload = [] then ([], 0) else (xv_sha256 env payload, int (length payload)))"

definition encoded_outputs :: "exec_env \<Rightarrow> fields \<Rightarrow> string option" where
  "encoded_outputs env outputs = (case xv_json_outputs env outputs of Inl _ \<Rightarrow> None | Inr payload \<Rightarrow> Some payload)"

definition buildResultSnapshot :: "exec_env \<Rightarrow> fields \<Rightarrow> ResultSnapshot \<times> gerr option" where
  "buildResultSnapshot env outputs = (case xv_json_outputs env outputs of
      Inl err \<Rightarrow> (\<lparr>sn_Outputs = Map.empty, sn_Payload = [], sn_Digest = [], sn_Length = 0, sn_Reference = None\<rparr>,
        Some (EWrap ''encode tool result: '' err))
    | Inr payload \<Rightarrow>
        (\<lparr>sn_Outputs = outputs, sn_Payload = payload, sn_Digest = xv_sha256 env payload, sn_Length = int (length payload), sn_Reference = None\<rparr>,
         if 0 < xv_max_bytes env \<and> xv_max_bytes env < int (length payload)
         then Some (ENote ErrResultTooLarge ('': got '' @ show_int (int (length payload)) @ '' bytes, limit '' @ show_int (xv_max_bytes env)))
         else None))"

definition executionSuspended :: "gerr \<Rightarrow> bool" where
  "executionSuspended err \<longleftrightarrow> errors_As as_tool_suspension err \<noteq> None"

definition retryable :: "gerr \<Rightarrow> bool" where
  "retryable err =
     (if errors_Is err ECanceled \<or> errors_Is err EDeadline then False
      else case errors_As as_transient err of
             Some b \<Rightarrow> b
           | None \<Rightarrow> (case errors_As as_net err of None \<Rightarrow> False | Some tt \<Rightarrow> fst tt \<or> snd tt))"

definition classifyExecutionError :: "gerr \<Rightarrow> string" where
  "classifyExecutionError err =
     (if errors_Is err ECanceled then CodeCanceled else if errors_Is err EDeadline then CodeTimeout else CodeExecutionFailed)"

definition breakerFailure :: "gerr option \<Rightarrow> gerr \<Rightarrow> bool" where
  "breakerFailure ctxErr err \<longleftrightarrow> \<not> errors_Is err ECanceled \<and> ctxErr = None"

definition exec_failure :: "string \<Rightarrow> ToolSpec \<Rightarrow> int \<Rightarrow> gerr \<Rightarrow> ExecutionError \<times> gerr" where
  "exec_failure code spec attempt cause = (\<lparr>xe_Code = code, xe_ToolName = ts_Name spec, xe_Attempt = attempt, xe_Retryable = False\<rparr>, cause)"

definition authorizeIdentity :: "exec_env \<Rightarrow> CallerIdentity \<Rightarrow> ToolSpec \<Rightarrow> (ExecutionError \<times> gerr) option" where
  "authorizeIdentity env identity spec =
     (if ts_Permission spec = PermissionInternal \<and> \<not> ci_Internal identity then Some (exec_failure CodeForbidden spec 0 ErrForbidden)
      else if ts_Permission spec = PermissionAuthenticated \<and> ci_UserID identity = 0
      then Some (exec_failure CodeUnauthenticated spec 0 ErrUnauthenticated)
      else case xv_ctx_err env of Some err \<Rightarrow> Some (exec_failure (classifyExecutionError err) spec 0 err) | None \<Rightarrow> None)"

definition log_error :: "string \<Rightarrow> gerr option \<Rightarrow> effect list" where
  "log_error operation err = (case err of None \<Rightarrow> [] | Some _ \<Rightarrow> [FxLog operation])"

definition releaseApproval :: "exec_env \<Rightarrow> ApprovalGrant \<Rightarrow> effect list" where
  "releaseApproval env grant =
     (if ag_ApprovalID grant = [] \<or> \<not> xv_lifecycle env then []
      else FxApprovalRelease grant # log_error ''release tool approval'' (xv_approval_release env))"

definition completeApproval :: "exec_env \<Rightarrow> string \<Rightarrow> ApprovalGrant \<Rightarrow> effect list" where
  "completeApproval env operation grant =
     (if ag_ApprovalID grant = [] \<or> \<not> xv_lifecycle env then []
      else FxApprovalComplete grant # log_error operation (xv_approval_complete env))"

definition failIdempotency :: "exec_env \<Rightarrow> IdempotencyClaim \<Rightarrow> effect list" where
  "failIdempotency env claim =
     (if xv_claim env = None \<or> cl_ExecutionID claim = [] then []
      else FxIdemFail claim # log_error ''persist tool execution failure'' (xv_claim_fail env))"

definition zero_grant :: ApprovalGrant where
  "zero_grant = \<lparr>ag_ApprovalID = [], ag_AttemptID = [], ag_IdempotencyKey = []\<rparr>"

definition zero_claim :: IdempotencyClaim where
  "zero_claim = \<lparr>cl_ExecutionID = [], cl_AttemptID = [], cl_UserID = 0, cl_Replayed = False, cl_Outputs = Map.empty, cl_OutputReference = None\<rparr>"

section \<open>The pipeline\<close>

text \<open>\<open>stop_with\<close> is \<^verbatim>\<open>record(...); return nil, execErr\<close> after the effects \<open>fx\<close>.\<close>

definition audit :: "AuditEvent \<Rightarrow> string \<Rightarrow> string \<Rightarrow> int \<Rightarrow> effect" where
  "audit event decision code attempts = FxAudit (event\<lparr>au_Decision := decision, au_ErrorCode := code, au_Attempts := attempts\<rparr>)"

definition stop_with :: "AuditEvent \<Rightarrow> string \<Rightarrow> ExecutionError \<times> gerr \<Rightarrow> breaker_impl \<Rightarrow> effect list \<Rightarrow> outcome" where
  "stop_with event decision failure b fx =
     (Inl (EExec (fst failure) (snd failure)), b, fx @ [audit event decision (xe_Code (fst failure)) (xe_Attempt (fst failure))])"

text \<open>Everything before the approval: the decision and the error, or the inputs after the guardrail.\<close>

definition prechecks :: "exec_env \<Rightarrow> ExecutionRequest \<Rightarrow> ToolSpec \<Rightarrow> handler option \<Rightarrow> (inputs \<Rightarrow> gerr option) option
    \<Rightarrow> (string \<times> ExecutionError \<times> gerr) + inputs" where
  "prechecks env request spec handler validate =
     (if handler = None then Inl (''failed'', exec_failure CodeExecutionFailed spec 0 (EMsg ''tool handler is not configured''))
      else case authorizeIdentity env (rq_Identity request) spec of
        Some err \<Rightarrow> Inl (''denied'', err)
      | None \<Rightarrow>
          (case (case validate of None \<Rightarrow> None | Some v \<Rightarrow> v (rq_Inputs request)) of
             Some err \<Rightarrow> Inl (''denied'', exec_failure CodeInvalidInput spec 0 (ENote ErrInvalidInput ('': '' @ error_text err)))
           | None \<Rightarrow>
               if 0 < ci_UserID (rq_Identity request) \<and> (\<exists>u \<in> set_option (xv_ctx_user env). u \<noteq> ci_UserID (rq_Identity request))
               then Inl (''denied'', exec_failure CodeForbidden spec 0 (ENote ErrForbidden '': authenticated identity mismatch''))
               else case xv_guardrail env of
                      None \<Rightarrow> Inr (rq_Inputs request)
                    | Some guard \<Rightarrow>
                        (case guard (ts_Name spec) (rq_Inputs request) of
                           Inl err \<Rightarrow> Inl (''denied'', exec_failure CodeForbidden spec 0 (ENote ErrForbidden ('': '' @ error_text err)))
                         | Inr guarded \<Rightarrow> Inr guarded)))"

definition start_event :: "exec_env \<Rightarrow> ExecutionRequest \<Rightarrow> ToolSpec \<Rightarrow> inputs \<Rightarrow> AuditEvent" where
  "start_event env request spec inputs =
     (let d = digestToolValue env (xv_json_inputs env inputs)
      in \<lparr>au_ToolName = ts_Name spec, au_Category = ts_Category spec, au_UserID = ci_UserID (rq_Identity request),
          au_RunID = rq_RunID request, au_StepID = rq_StepID request, au_Source = rq_Source request, au_Decision = [], au_ErrorCode = [],
          au_Attempts = 0, au_IdempotencyKey = rq_IdempotencyKey request, au_Inputs = RedactInputs inputs (ts_SensitiveFields spec),
          au_InputDigest = fst d, au_InputLength = snd d, au_OutputDigest = [], au_OutputLength = 0, au_OutputReference = None\<rparr>)"

definition approval_check :: "ExecutionRequest \<Rightarrow> ToolSpec \<Rightarrow> inputs \<Rightarrow> ApprovalCheck" where
  "approval_check request spec inputs =
     \<lparr>ac_Tool = spec, ac_Identity = rq_Identity request, ac_RunID = rq_RunID request, ac_StepID = rq_StepID request,
      ac_Source = rq_Source request, ac_Inputs = inputs, ac_IdempotencyKey = trim_space (rq_IdempotencyKey request)\<rparr>"

definition approval_phase :: "exec_env \<Rightarrow> ExecutionRequest \<Rightarrow> ToolSpec \<Rightarrow> inputs
    \<Rightarrow> (ExecutionError \<times> gerr) + ApprovalGrant \<times> string" where
  "approval_phase env request spec inputs =
     (let key = trim_space (rq_IdempotencyKey request)
      in if \<not> RequiresApproval spec then Inr (zero_grant, key)
         else case xv_authorize env (approval_check request spec inputs) of
                Inl err \<Rightarrow> Inl (exec_failure CodeApprovalRequired spec 0 (EJoin tool_ErrApprovalRequired err))
              | Inr grant \<Rightarrow>
                  if trim_space (ag_ApprovalID grant) = []
                  then Inl (exec_failure CodeApprovalRequired spec 0 (ENote tool_ErrApprovalRequired '': approval grant has no identity''))
                  else Inr (grant, if key = [] then trim_space (ag_IdempotencyKey grant) else key))"

definition retry_policy :: "ToolSpec \<Rightarrow> RetryPolicy" where
  "retry_policy spec =
     (let policy = RetryPolicy_normalized (ts_Retry spec)
      in if ts_Category spec = CategoryWrite \<and> \<not> ts_IdempotencyRequired spec then policy\<lparr>rt_MaxAttempts := 1\<rparr> else policy)"

definition idempotency_check :: "exec_env \<Rightarrow> ExecutionRequest \<Rightarrow> ToolSpec \<Rightarrow> inputs \<Rightarrow> string \<Rightarrow> IdempotencyCheck" where
  "idempotency_check env request spec inputs key =
     \<lparr>ic_ToolName = ts_Name spec, ic_UserID = ci_UserID (rq_Identity request), ic_IdempotencyKey = key,
      ic_InputDigest = DigestInputs env inputs,
      ic_LeaseUntil = xv_claim_at env + ts_Timeout spec + rt_MaxBackoff (retry_policy spec)\<rparr>"

text \<open>After the handler succeeded: snapshot, archive, breaker, idempotency record, approval, audit.\<close>

definition with_output :: "ResultSnapshot \<Rightarrow> AuditEvent \<Rightarrow> AuditEvent" where
  "with_output snapshot event = event\<lparr>au_OutputDigest := sn_Digest snapshot, au_OutputLength := sn_Length snapshot\<rparr>"

definition commit_result :: "exec_env \<Rightarrow> ToolSpec \<Rightarrow> ApprovalGrant \<Rightarrow> IdempotencyClaim \<Rightarrow> string \<Rightarrow> AuditEvent
    \<Rightarrow> nat \<Rightarrow> fields \<Rightarrow> ResultSnapshot \<Rightarrow> breaker_impl \<Rightarrow> effect list \<Rightarrow> outcome" where
  "commit_result env spec grant claim key event attempt outputs snapshot b fx =
     (let b' = impl_RecordSuccess (ts_Name spec) b;
          stored = (xv_claim env \<noteq> None \<and> cl_ExecutionID claim \<noteq> []);
          fx' = fx @ [FxRecordSuccess] @ (if stored then [FxIdemComplete claim] else [])
      in case (if stored then xv_claim_complete env else None) of
           Some completeErr \<Rightarrow>
             stop_with event ''failed'' (exec_failure CodeExecutionFailed spec (int attempt) (EWrap ''persist tool result: '' completeErr)) b'
               (fx' @ (case (xv_archive env, sn_Reference snapshot) of
                         (Some _, Some ref) \<Rightarrow> FxDiscard ref # log_error ''discard uncommitted tool result'' (xv_discard env)
                       | _ \<Rightarrow> []) @ releaseApproval env grant)
         | None \<Rightarrow>
             (Inr outputs, b', fx' @ completeApproval env ''complete tool approval'' grant @
               [audit ((with_output snapshot event)\<lparr>au_IdempotencyKey := key, au_OutputReference := sn_Reference snapshot\<rparr>) ''succeeded'' [] (int attempt)]))"

definition handle_result :: "exec_env \<Rightarrow> ExecutionRequest \<Rightarrow> ToolSpec \<Rightarrow> ApprovalGrant \<Rightarrow> IdempotencyClaim \<Rightarrow> string \<Rightarrow> AuditEvent
    \<Rightarrow> nat \<Rightarrow> fields \<Rightarrow> breaker_impl \<Rightarrow> effect list \<Rightarrow> outcome" where
  "handle_result env request spec grant claim key event attempt outputs b fx =
     (let (snapshot, snapshotErr) = buildResultSnapshot env outputs; settle = failIdempotency env claim @ releaseApproval env grant
      in case snapshotErr of
           Some err \<Rightarrow>
             stop_with (with_output snapshot event) ''failed''
               (exec_failure (if errors_Is err ErrResultTooLarge then CodeResultTooLarge else CodeExecutionFailed) spec (int attempt) err) b (fx @ settle)
         | None \<Rightarrow>
             (case xv_archive env of
                None \<Rightarrow> commit_result env spec grant claim key event attempt outputs snapshot b fx
              | Some archive \<Rightarrow>
                  let req = \<lparr>ar_ToolName = ts_Name spec, ar_UserID = ci_UserID (rq_Identity request), ar_RunID = rq_RunID request,
                        ar_StepID = rq_StepID request, ar_Source = rq_Source request,
                        ar_ResultID = (if cl_ExecutionID claim = [] then xv_attempt_id env else cl_ExecutionID claim), ar_Snapshot = snapshot\<rparr>
                  in case archive req of
                       Inl archiveErr \<Rightarrow>
                         stop_with (with_output snapshot event) ''failed''
                           (exec_failure CodeExecutionFailed spec (int attempt) (EWrap ''archive tool result: '' archiveErr)) b
                           (fx @ [FxArchive req] @ settle)
                     | Inr reference \<Rightarrow>
                         commit_result env spec grant claim key event attempt outputs (snapshot\<lparr>sn_Reference := reference\<rparr>) b (fx @ [FxArchive req])))"

text \<open>The attempts. \<open>lastErr\<close> matters only after the loop, which the proofs show to be out of reach.\<close>

function attempt_loop :: "exec_env \<Rightarrow> ExecutionRequest \<Rightarrow> ToolSpec \<Rightarrow> handler \<Rightarrow> ApprovalGrant \<Rightarrow> IdempotencyClaim \<Rightarrow> string
    \<Rightarrow> AuditEvent \<Rightarrow> inputs \<Rightarrow> nat \<Rightarrow> gerr \<Rightarrow> breaker_impl \<Rightarrow> effect list \<Rightarrow> outcome" where
  "attempt_loop env request spec handler grant claim key event inputs attempt lastErr b fx =
     (let maxAttempts = rt_MaxAttempts (retry_policy spec); fx1 = fx @ [FxHandler attempt inputs];
          settle = failIdempotency env claim @ releaseApproval env grant
      in if int attempt \<le> maxAttempts
         then case handler attempt inputs of
                Inr outputs \<Rightarrow> handle_result env request spec grant claim key event attempt outputs b fx1
              | Inl err \<Rightarrow>
                  if executionSuspended err
                  then stop_with event ''suspended'' (exec_failure CodeSuspended spec (int attempt) err) b (fx1 @ settle)
                  else if \<not> retryable err \<or> int attempt = maxAttempts
                  then let failed = breakerFailure (xv_late_ctx_err env attempt) err;
                           b' = (if failed then impl_RecordFailure (xv_failure_at env attempt) (ts_Name spec) b else b)
                       in stop_with event ''failed''
                            (\<lparr>xe_Code = classifyExecutionError err, xe_ToolName = ts_Name spec, xe_Attempt = int attempt, xe_Retryable = retryable err\<rparr>, err)
                            b' (fx1 @ (if failed then [FxRecordFailure] else []) @ settle)
                  else case xv_wait env attempt of
                         Some waitErr \<Rightarrow>
                           stop_with event ''failed'' (exec_failure (classifyExecutionError waitErr) spec (int attempt) waitErr) b (fx1 @ settle)
                       | None \<Rightarrow> attempt_loop env request spec handler grant claim key event inputs (Suc attempt) err b fx1
         else stop_with event ''failed'' (exec_failure CodeExecutionFailed spec maxAttempts lastErr) b fx)"
  by pat_completeness auto
termination by (relation "measure (\<lambda>(env, request, spec, handler, grant, claim, key, event, inputs, attempt, lastErr, b, fx).
    nat (rt_MaxAttempts (retry_policy spec) + 1) - attempt)") auto

declare attempt_loop.simps [simp del]

definition guarded_run :: "exec_env \<Rightarrow> ExecutionRequest \<Rightarrow> ToolSpec \<Rightarrow> handler \<Rightarrow> ApprovalGrant \<Rightarrow> IdempotencyClaim \<Rightarrow> string
    \<Rightarrow> AuditEvent \<Rightarrow> inputs \<Rightarrow> breaker_impl \<Rightarrow> effect list \<Rightarrow> outcome" where
  "guarded_run env request spec handler grant claim key event inputs b fx =
     (let (refused, b1) = impl_Allow (xv_allow_at env) (ts_Name spec) b
      in case refused of
           Some err \<Rightarrow>
             stop_with event ''circuit_open'' (exec_failure CodeCircuitOpen spec 0 (EJoin ErrCircuitOpen err)) b1
               (fx @ failIdempotency env claim @ releaseApproval env grant)
         | None \<Rightarrow> attempt_loop env request spec handler grant claim key event inputs 1 (EMsg []) b1 fx)"

definition claim_phase :: "exec_env \<Rightarrow> ExecutionRequest \<Rightarrow> ToolSpec \<Rightarrow> handler \<Rightarrow> ApprovalGrant \<Rightarrow> string
    \<Rightarrow> AuditEvent \<Rightarrow> inputs \<Rightarrow> breaker_impl \<Rightarrow> effect list \<Rightarrow> outcome" where
  "claim_phase env request spec handler grant key event inputs b fx =
     (case (if ts_IdempotencyRequired spec then xv_claim env else None) of
        None \<Rightarrow> guarded_run env request spec handler grant zero_claim key event inputs b fx
      | Some store \<Rightarrow>
          (let check = idempotency_check env request spec inputs key; fx1 = fx @ [FxClaim check]
           in case store check of
                Inl err \<Rightarrow>
                  stop_with event ''denied''
                    (exec_failure (if errors_Is err ErrIdempotencyConflict then CodeIdempotencyConflict
                                   else if errors_Is err ErrAlreadyExecuting then CodeAlreadyExecuting else CodeExecutionFailed) spec 0 err)
                    b (fx1 @ releaseApproval env grant)
              | Inr claim \<Rightarrow>
                  if cl_Replayed claim
                  then (Inr (cl_Outputs claim), b, fx1 @ completeApproval env ''complete replayed tool approval'' grant @
                    [audit (event\<lparr>au_IdempotencyKey := key, au_OutputDigest := fst (digestToolValue env (encoded_outputs env (cl_Outputs claim))),
                       au_OutputLength := snd (digestToolValue env (encoded_outputs env (cl_Outputs claim))),
                       au_OutputReference := cl_OutputReference claim\<rparr>) ''replayed'' [] 0])
                  else guarded_run env request spec handler grant claim key event inputs b fx1))"

definition execute :: "exec_env \<Rightarrow> ExecutionRequest \<Rightarrow> ToolSpec \<Rightarrow> handler option \<Rightarrow> (inputs \<Rightarrow> gerr option) option \<Rightarrow> breaker_impl \<Rightarrow> outcome" where
  "execute env request spec handler validate b =
     (case prechecks env request spec handler validate of
        Inl (decision, failure) \<Rightarrow> stop_with (start_event env request spec (rq_Inputs request)) decision failure b []
      | Inr inputs \<Rightarrow>
          let event = start_event env request spec inputs;
              fx = (if RequiresApproval spec then [FxAuthorize (approval_check request spec inputs)] else [])
          in case approval_phase env request spec inputs of
               Inl failure \<Rightarrow> stop_with event ''approval_required'' failure b fx
             | Inr (grant, key) \<Rightarrow>
                 if ts_IdempotencyRequired spec \<and> key = []
                 then stop_with event ''denied'' (exec_failure CodeIdempotencyRequired spec 0 ErrIdempotencyRequired) b fx
                 else claim_phase env request spec (the handler) grant key event inputs b fx)"

section \<open>What every execution does\<close>

fun is_handler :: "effect \<Rightarrow> bool" where
  "is_handler (FxHandler k i) = True" | "is_handler _ = False"

fun is_audit :: "effect \<Rightarrow> bool" where
  "is_audit (FxAudit e) = True" | "is_audit _ = False"

fun settles_approval :: "effect \<Rightarrow> bool" where
  "settles_approval (FxApprovalComplete g) = True"
| "settles_approval (FxApprovalRelease g) = True"
| "settles_approval _ = False"

fun settles_claim :: "effect \<Rightarrow> bool" where
  "settles_claim (FxIdemComplete c) = True"
| "settles_claim (FxIdemFail c) = True"
| "settles_claim _ = False"

definition cnt :: "(effect \<Rightarrow> bool) \<Rightarrow> effect list \<Rightarrow> nat" where
  "cnt P fx = length (filter P fx)"

lemma cnt_simps [simp]: "cnt P [] = 0" "cnt P (x # fx) = (if P x then 1 else 0) + cnt P fx" "cnt P (fx @ gx) = cnt P fx + cnt P gx"
  by (simp_all add: cnt_def)

lemma cnt_log [simp]: "cnt is_handler (log_error s e) = 0" "cnt is_audit (log_error s e) = 0"
  "cnt settles_approval (log_error s e) = 0" "cnt settles_claim (log_error s e) = 0"
  by (auto simp: log_error_def split: option.splits)

definition held :: "exec_env \<Rightarrow> ApprovalGrant \<Rightarrow> nat" where
  "held env grant = (if ag_ApprovalID grant = [] \<or> \<not> xv_lifecycle env then 0 else 1)"

definition claimed :: "exec_env \<Rightarrow> IdempotencyClaim \<Rightarrow> nat" where
  "claimed env claim = (if xv_claim env = None \<or> cl_ExecutionID claim = [] then 0 else 1)"

lemma settle_counts [simp]:
  "cnt is_handler (releaseApproval env g) = 0" "cnt is_audit (releaseApproval env g) = 0"
  "cnt settles_approval (releaseApproval env g) = held env g" "cnt settles_claim (releaseApproval env g) = 0"
  "cnt is_handler (completeApproval env s g) = 0" "cnt is_audit (completeApproval env s g) = 0"
  "cnt settles_approval (completeApproval env s g) = held env g" "cnt settles_claim (completeApproval env s g) = 0"
  "cnt is_handler (failIdempotency env c) = 0" "cnt is_audit (failIdempotency env c) = 0"
  "cnt settles_approval (failIdempotency env c) = 0" "cnt settles_claim (failIdempotency env c) = claimed env c"
  by (auto simp: releaseApproval_def completeApproval_def failIdempotency_def held_def claimed_def)

text \<open>The audit record agrees with the result.\<close>

definition verdict :: "gerr + fields \<Rightarrow> AuditEvent \<Rightarrow> bool" where
  "verdict res ev = (case res of
      Inr _ \<Rightarrow> au_Decision ev \<in> {''succeeded'', ''replayed''} \<and> au_ErrorCode ev = []
    | Inl e \<Rightarrow> au_Decision ev \<notin> {''succeeded'', ''replayed''} \<and> (\<exists>x c. e = EExec x c \<and> au_ErrorCode ev = xe_Code x \<and> au_Attempts ev = xe_Attempt x))"

text \<open>
  \<open>ending fx handlers approvals claims (res, b, fx')\<close>: the outcome extends the effects \<open>fx\<close> with the
  given numbers of handler calls and settlements and ends with its only audit record.
\<close>

definition ending :: "effect list \<Rightarrow> nat \<Rightarrow> nat \<Rightarrow> nat \<Rightarrow> outcome \<Rightarrow> bool" where
  "ending fx handlers approvals claims out = (case out of (res, b, fx') \<Rightarrow>
     (\<exists>mid ev. fx' = fx @ mid @ [FxAudit ev] \<and> cnt is_audit mid = 0 \<and> cnt is_handler mid = handlers
        \<and> cnt settles_approval mid = approvals \<and> cnt settles_claim mid = claims \<and> verdict res ev))"

lemma ending_stop:
  assumes "cnt is_audit mid = 0" "decision \<notin> {''succeeded'', ''replayed''}"
  shows "ending fx (cnt is_handler mid) (cnt settles_approval mid) (cnt settles_claim mid) (stop_with ev decision failure b (fx @ mid))"
  using assms by (auto simp: ending_def stop_with_def audit_def verdict_def)

lemma ending_extend:
  assumes "ending (fx @ mid) h a c out" "cnt is_audit mid = 0"
  shows "ending fx (cnt is_handler mid + h) (cnt settles_approval mid + a) (cnt settles_claim mid + c) out"
  using assms unfolding ending_def by (force simp: split: prod.splits)

lemma ending_done:
  assumes "cnt is_audit mid = 0" "decision \<in> {''succeeded'', ''replayed''}"
  shows "ending fx (cnt is_handler mid) (cnt settles_approval mid) (cnt settles_claim mid) (Inr out, b, fx @ mid @ [audit ev decision [] k])"
  using assms by (auto simp: ending_def audit_def verdict_def)

lemma commit_result_ending:
  "ending fx 0 (held env grant) (claimed env claim) (commit_result env spec grant claim key ev attempt outputs snapshot b fx)"
proof -
  let ?stored = "xv_claim env \<noteq> None \<and> cl_ExecutionID claim \<noteq> []"
  let ?mid = "[FxRecordSuccess] @ (if ?stored then [FxIdemComplete claim] else [])"
  let ?discard = "case (xv_archive env, sn_Reference snapshot) of
      (Some _, Some ref) \<Rightarrow> FxDiscard ref # log_error ''discard uncommitted tool result'' (xv_discard env) | _ \<Rightarrow> []"
  have d: "cnt is_audit ?discard = 0" "cnt is_handler ?discard = 0" "cnt settles_approval ?discard = 0" "cnt settles_claim ?discard = 0"
    by (auto split: option.splits)
  show ?thesis
  proof (cases "if ?stored then xv_claim_complete env else None")
    case (Some e)
    then have st: "?stored" by (auto split: if_splits)
    show ?thesis
      using Some st d ending_stop [of "?mid @ ?discard @ releaseApproval env grant" "''failed''" fx ev
          "exec_failure CodeExecutionFailed spec (int attempt) (EWrap ''persist tool result: '' e)" "impl_RecordSuccess (ts_Name spec) b"]
      by (auto simp: commit_result_def Let_def claimed_def)
  next
    case None
    then show ?thesis
      using ending_done [of "?mid @ completeApproval env ''complete tool approval'' grant" "''succeeded''" fx]
      by (auto simp: commit_result_def Let_def claimed_def)
  qed
qed

lemma handle_result_ending:
  "ending fx 0 (held env grant) (claimed env claim) (handle_result env request spec grant claim key ev attempt outputs b fx)"
proof -
  obtain snapshot err where s: "buildResultSnapshot env outputs = (snapshot, err)" by (cases "buildResultSnapshot env outputs")
  let ?settle = "failIdempotency env claim @ releaseApproval env grant"
  show ?thesis
  proof (cases err)
    case (Some e)
    then show ?thesis using s ending_stop [of ?settle "''failed''" fx] by (simp add: handle_result_def)
  next
    case None
    show ?thesis
    proof (cases "xv_archive env")
      case None2: None
      then show ?thesis using None s commit_result_ending by (simp add: handle_result_def)
    next
      case (Some archive)
      let ?req = "\<lparr>ar_ToolName = ts_Name spec, ar_UserID = ci_UserID (rq_Identity request), ar_RunID = rq_RunID request,
                        ar_StepID = rq_StepID request, ar_Source = rq_Source request,
                        ar_ResultID = (if cl_ExecutionID claim = [] then xv_attempt_id env else cl_ExecutionID claim), ar_Snapshot = snapshot\<rparr>"
      show ?thesis
      proof (cases "archive ?req")
        case (Inl e)
        then show ?thesis using s None Some ending_stop [of "[FxArchive ?req] @ ?settle" "''failed''" fx] by (simp add: handle_result_def)
      next
        case (Inr ref)
        have "ending (fx @ [FxArchive ?req]) 0 (held env grant) (claimed env claim)
            (commit_result env spec grant claim key ev attempt outputs (snapshot\<lparr>sn_Reference := ref\<rparr>) b (fx @ [FxArchive ?req]))"
          by (rule commit_result_ending)
        from ending_extend [OF this] show ?thesis using s None Some Inr by (simp add: handle_result_def)
      qed
    qed
  qed
qed

text \<open>One attempt: it ends the execution, or the loop goes on.\<close>

lemma attempt_step:
  assumes "int attempt \<le> rt_MaxAttempts (retry_policy spec)"
  shows "ending fx 1 (held env grant) (claimed env claim) (attempt_loop env request spec handler grant claim key ev inputs attempt lastErr b fx)
    \<or> int attempt < rt_MaxAttempts (retry_policy spec) \<and> (\<exists>err. handler attempt inputs = Inl err \<and> retryable err \<and>
        attempt_loop env request spec handler grant claim key ev inputs attempt lastErr b fx =
          attempt_loop env request spec handler grant claim key ev inputs (Suc attempt) err b (fx @ [FxHandler attempt inputs]))"
proof -
  let ?fx = "fx @ [FxHandler attempt inputs]" and ?settle = "failIdempotency env claim @ releaseApproval env grant"
  note L = attempt_loop.simps [of env request spec handler grant claim key ev inputs attempt lastErr b fx]
  have stop: "ending fx 1 (held env grant) (claimed env claim) (stop_with ev decision failure b' (?fx @ extra @ ?settle))"
    if "decision \<notin> {''succeeded'', ''replayed''}" "cnt is_audit extra = 0" "cnt is_handler extra = 0" "cnt settles_approval extra = 0" "cnt settles_claim extra = 0"
    for decision failure b' extra
    using ending_stop [of "[FxHandler attempt inputs] @ extra @ ?settle" decision fx ev failure b'] that by simp
  show ?thesis
  proof (cases "handler attempt inputs")
    case (Inr outputs)
    have "ending fx 1 (held env grant) (claimed env claim) (handle_result env request spec grant claim key ev attempt outputs b ?fx)"
      using ending_extend [OF handle_result_ending [of ?fx]] by simp
    then show ?thesis using L Inr assms by (simp add: Let_def)
  next
    case (Inl err)
    consider "executionSuspended err" | "\<not> executionSuspended err" "\<not> retryable err \<or> int attempt = rt_MaxAttempts (retry_policy spec)"
      | e where "\<not> executionSuspended err" "\<not> (\<not> retryable err \<or> int attempt = rt_MaxAttempts (retry_policy spec))" "xv_wait env attempt = Some e"
      | "\<not> executionSuspended err" "\<not> (\<not> retryable err \<or> int attempt = rt_MaxAttempts (retry_policy spec))" "xv_wait env attempt = None" by fastforce
    then show ?thesis
    proof cases
      case 1
      then show ?thesis using L Inl assms stop [of "''suspended''" "[]"] by (simp add: Let_def)
    next
      case 2
      then show ?thesis
        using L Inl assms stop [of "''failed''" "[]"] stop [of "''failed''" "[FxRecordFailure]"] by (simp add: Let_def)
    next
      case 3
      then show ?thesis using L Inl assms stop [of "''failed''" "[]"] by (simp add: Let_def)
    next
      case 4
      then show ?thesis using L Inl assms by (simp add: Let_def)
    qed
  qed
qed

lemma attempt_loop_ending:
  assumes "int attempt \<le> rt_MaxAttempts (retry_policy spec)"
  shows "\<exists>h\<ge>1. int (attempt + h) \<le> rt_MaxAttempts (retry_policy spec) + 1 \<and>
    ending fx h (held env grant) (claimed env claim) (attempt_loop env request spec handler grant claim key ev inputs attempt lastErr b fx)"
  using assms
proof (induction "nat (rt_MaxAttempts (retry_policy spec)) - attempt" arbitrary: attempt lastErr fx)
  case 0
  then show ?case using attempt_step [OF 0(2), of fx env grant claim request handler key ev inputs lastErr b] by (intro exI [of _ 1]) auto
next
  case (Suc d)
  let ?loop = "attempt_loop env request spec handler grant claim key ev inputs"
  from attempt_step [OF Suc.prems, of fx env grant claim request handler key ev inputs lastErr b] show ?case
  proof
    assume "ending fx 1 (held env grant) (claimed env claim) (?loop attempt lastErr b fx)"
    then show ?case using Suc.prems by (intro exI [of _ 1]) simp
  next
    assume "int attempt < rt_MaxAttempts (retry_policy spec) \<and> (\<exists>err. handler attempt inputs = Inl err \<and> retryable err \<and>
        ?loop attempt lastErr b fx = ?loop (Suc attempt) err b (fx @ [FxHandler attempt inputs]))"
    then obtain err where lt: "int (Suc attempt) \<le> rt_MaxAttempts (retry_policy spec)"
      and eq: "?loop attempt lastErr b fx = ?loop (Suc attempt) err b (fx @ [FxHandler attempt inputs])" by auto
    have "d = nat (rt_MaxAttempts (retry_policy spec)) - Suc attempt" using Suc.hyps(2) by simp
    from Suc.hyps(1) [OF this lt, of "fx @ [FxHandler attempt inputs]" err] obtain h where
      h: "h \<ge> 1" "int (Suc attempt + h) \<le> rt_MaxAttempts (retry_policy spec) + 1"
        "ending (fx @ [FxHandler attempt inputs]) h (held env grant) (claimed env claim) (?loop (Suc attempt) err b (fx @ [FxHandler attempt inputs]))"
      by blast
    from ending_extend [OF h(3)] h(1,2) eq show ?case by (intro exI [of _ "Suc h"]) simp
  qed
qed

lemma retry_policy_attempts: "1 \<le> rt_MaxAttempts (retry_policy spec)"
  using RetryPolicy_normalized_bounds(1) by (simp add: retry_policy_def Let_def)

lemma guarded_run_ending:
  obtains h where "ending fx h (held env grant) (claimed env claim) (guarded_run env request spec handler grant claim key ev inputs b fx)"
    "int h \<le> rt_MaxAttempts (retry_policy spec)" "h \<noteq> 0 \<longleftrightarrow> fst (impl_Allow (xv_allow_at env) (ts_Name spec) b) = None"
proof -
  obtain refused b1 where r: "impl_Allow (xv_allow_at env) (ts_Name spec) b = (refused, b1)" by (cases "impl_Allow (xv_allow_at env) (ts_Name spec) b")
  show ?thesis
  proof (cases refused)
    case (Some e)
    then show ?thesis
      using r ending_stop [of "failIdempotency env claim @ releaseApproval env grant" "''circuit_open''" fx] retry_policy_attempts [of spec]
      by (intro that [of 0]) (simp_all add: guarded_run_def)
  next
    case None
    from attempt_loop_ending [of 1 spec fx env grant claim request handler key ev inputs "EMsg []" b1] retry_policy_attempts [of spec]
    obtain h where "h \<ge> 1" "int (1 + h) \<le> rt_MaxAttempts (retry_policy spec) + 1"
      "ending fx h (held env grant) (claimed env claim) (attempt_loop env request spec handler grant claim key ev inputs 1 (EMsg []) b1 fx)" by auto
    then show ?thesis using r None by (intro that [of h]) (simp_all add: guarded_run_def)
  qed
qed

end
