(* ===== verification/Tool_Governance.thy ===== *)
theory Tool_Governance
  imports Tool_Executor
begin

text \<open>
  What the governance pipeline guarantees for a whole execution: audit, gates before the handler,
  settlement of approvals and idempotency claims, the circuit breaker.
\<close>

text \<open>The phases an execution can end in, with what it did until then.\<close>

lemma claim_phase_cases:
  fixes env request spec handler grant key ev inputs b fx
  defines "check \<equiv> idempotency_check env request spec inputs key"
    and "out \<equiv> claim_phase env request spec handler grant key ev inputs b fx"
  obtains (unclaimed) store err where "ts_IdempotencyRequired spec" "xv_claim env = Some store" "store check = Inl err"
      "ending fx 0 (held env grant) 0 out"
  | (replayed) store claim where "ts_IdempotencyRequired spec" "xv_claim env = Some store" "store check = Inr claim" "cl_Replayed claim"
      "ending fx 0 (held env grant) 0 out"
  | (ran) claim h where "case (if ts_IdempotencyRequired spec then xv_claim env else None) of None \<Rightarrow> claim = zero_claim
        | Some store \<Rightarrow> store check = Inr claim \<and> \<not> cl_Replayed claim"
      "int h \<le> rt_MaxAttempts (retry_policy spec)" "h \<noteq> 0 \<longleftrightarrow> fst (impl_Allow (xv_allow_at env) (ts_Name spec) b) = None"
      "ending fx h (held env grant) (claimed env claim) out"
proof (cases "if ts_IdempotencyRequired spec then xv_claim env else None")
  case None
  obtain h where h: "ending fx h (held env grant) (claimed env zero_claim) (guarded_run env request spec handler grant zero_claim key ev inputs b fx)"
    "int h \<le> rt_MaxAttempts (retry_policy spec)" "h \<noteq> 0 \<longleftrightarrow> fst (impl_Allow (xv_allow_at env) (ts_Name spec) b) = None"
    by (rule guarded_run_ending)
  then show ?thesis using None by (intro ran [of zero_claim h]) (simp_all add: out_def claim_phase_def)
next
  case (Some store)
  then have s: "ts_IdempotencyRequired spec" "xv_claim env = Some store" by (auto split: if_splits)
  show ?thesis
  proof (cases "store check")
    case (Inl err)
    then show ?thesis using s ending_stop [of "[FxClaim check] @ releaseApproval env grant" "''denied''" fx]
      by (intro unclaimed [of store err]) (simp_all add: out_def claim_phase_def Let_def check_def)
  next
    case claim: (Inr claim)
    show ?thesis
    proof (cases "cl_Replayed claim")
      case True
      then show ?thesis using s claim ending_done [of "[FxClaim check] @ completeApproval env ''complete replayed tool approval'' grant" "''replayed''" fx]
        by (intro replayed [of store claim]) (simp_all add: out_def claim_phase_def Let_def check_def)
    next
      case False
      obtain h where h: "ending (fx @ [FxClaim check]) h (held env grant) (claimed env claim)
            (guarded_run env request spec handler grant claim key ev inputs b (fx @ [FxClaim check]))"
        "int h \<le> rt_MaxAttempts (retry_policy spec)" "h \<noteq> 0 \<longleftrightarrow> fst (impl_Allow (xv_allow_at env) (ts_Name spec) b) = None"
        by (rule guarded_run_ending)
      from ending_extend [OF h(1)] h(2,3) show ?thesis
        using s claim False by (intro ran [of claim h]) (simp_all add: out_def claim_phase_def Let_def check_def)
    qed
  qed
qed

lemma execute_cases:
  fixes env request spec handler validate b
  defines "out \<equiv> execute env request spec handler validate b"
  obtains (denied) decision failure where "prechecks env request spec handler validate = Inl (decision, failure)" "ending [] 0 0 0 out"
  | (unapproved) inputs failure where "prechecks env request spec handler validate = Inr inputs"
    "approval_phase env request spec inputs = Inl failure" "ending [] 0 0 0 out"
  | (no_key) inputs grant key where "prechecks env request spec handler validate = Inr inputs"
    "approval_phase env request spec inputs = Inr (grant, key)" "ts_IdempotencyRequired spec" "key = []" "ending [] 0 0 0 out"
  | (claiming) inputs grant key fx where "prechecks env request spec handler validate = Inr inputs"
    "approval_phase env request spec inputs = Inr (grant, key)" "ts_IdempotencyRequired spec \<Longrightarrow> key \<noteq> []"
    "out = claim_phase env request spec (the handler) grant key (start_event env request spec inputs) inputs b fx"
    "\<And>h a c. ending fx h a c out \<Longrightarrow> ending [] h a c out"
proof (cases "prechecks env request spec handler validate")
  case (Inl df)
  obtain decision failure where df: "df = (decision, failure)" by (cases df)
  have "decision \<notin> {''succeeded'', ''replayed''}"
    using Inl df by (auto simp: prechecks_def split: if_splits option.splits sum.splits)
  then show ?thesis
    using Inl df ending_stop [of "[]" decision "[]"] by (intro denied [of decision failure]) (simp_all add: execute_def out_def)
next
  case (Inr inputs)
  let ?fx = "if RequiresApproval spec then [FxAuthorize (approval_check request spec inputs)] else []"
  have fx0: "cnt is_audit ?fx = 0" "cnt is_handler ?fx = 0" "cnt settles_approval ?fx = 0" "cnt settles_claim ?fx = 0" by auto
  show ?thesis
  proof (cases "approval_phase env request spec inputs")
    case inner: (Inl failure)
    then show ?thesis using Inr fx0 ending_stop [of ?fx "''approval_required''" "[]"]
      by (intro unapproved [of inputs failure]) (simp_all add: execute_def out_def Let_def)
  next
    case inner: (Inr gk)
    obtain grant key where gk: "gk = (grant, key)" by (cases gk)
    show ?thesis
    proof (cases "ts_IdempotencyRequired spec \<and> key = []")
      case True
      then show ?thesis using Inr inner gk fx0 ending_stop [of ?fx "''denied''" "[]"]
        by (intro no_key [of inputs grant key]) (simp_all add: execute_def out_def Let_def)
    next
      case False
      have "out = claim_phase env request spec (the handler) grant key (start_event env request spec inputs) inputs b ?fx"
        using Inr inner gk False unfolding out_def execute_def Let_def by auto
      then show ?thesis using Inr inner gk False ending_extend [of "[]" ?fx] fx0
        by (intro claiming [of inputs grant key ?fx]) auto
    qed
  qed
qed

lemma ending_total:
  assumes "ending [] h a c (res, b', fx)"
  shows "\<exists>pre ev. fx = pre @ [FxAudit ev] \<and> cnt is_audit pre = 0 \<and> verdict res ev" "cnt is_handler fx = h"
    "cnt settles_approval fx = a" "cnt settles_claim fx = c"
  using assms by (auto simp: ending_def)

text \<open>A tool that writes, a request for it and services that grant it, for the witnesses.\<close>

definition demo_write :: ToolSpec where
  "demo_write = \<lparr>ts_Name = ''post'', ts_Description = [], ts_InputSchema = RawEmpty, ts_Category = CategoryWrite, ts_Permission = PermissionAuthenticated,
     ts_Timeout = Second, ts_Retry = \<lparr>rt_MaxAttempts = 2, rt_InitialBackoff = 1, rt_MaxBackoff = 1\<rparr>, ts_IdempotencyRequired = True,
     ts_Approval = ApprovalRequired, ts_SensitiveFields = []\<rparr>"

definition demo_request :: ExecutionRequest where
  "demo_request = \<lparr>rq_ToolName = ''post'', rq_Inputs = [], rq_Identity = \<lparr>ci_UserID = 7, ci_Internal = False\<rparr>, rq_RunID = ''r'', rq_StepID = ''s'',
     rq_Source = ''workflow'', rq_IdempotencyKey = ''k''\<rparr>"

definition tool_env :: exec_env where
  "tool_env = \<lparr>xv_ctx_err = None, xv_ctx_user = None, xv_guardrail = None,
     xv_authorize = (\<lambda>_. Inr \<lparr>ag_ApprovalID = ''a'', ag_AttemptID = ''1'', ag_IdempotencyKey = []\<rparr>), xv_lifecycle = True,
     xv_approval_complete = None, xv_approval_release = None, xv_claim = Some (\<lambda>_. Inr (zero_claim\<lparr>cl_ExecutionID := ''x''\<rparr>)),
     xv_claim_complete = None, xv_claim_fail = None, xv_archive = None, xv_discard = None, xv_max_bytes = 100, xv_wait = (\<lambda>_. None),
     xv_late_ctx_err = (\<lambda>_. None), xv_claim_at = 0, xv_allow_at = 20, xv_failure_at = (\<lambda>_. 30), xv_attempt_id = ''att'',
     xv_json_inputs = (\<lambda>_. Some ''{}''), xv_json_outputs = (\<lambda>_. Inr ''{}''), xv_sha256 = id\<rparr>"

text \<open>The first attempt fails in a way that may be retried, the second succeeds.\<close>

definition demo_handler :: handler where
  "demo_handler attempt inputs = (if attempt = 1 then Inl (ETransient True ''busy'') else Inr Map.empty)"

lemmas demo_call_defs = demo_write_def demo_request_def tool_env_def demo_handler_def

lemma demo_trim: "trim_space ''k'' = ''k''" "trim_space ''a'' = ''a''"
  by code_simp+

lemma demo_phases:
  "prechecks tool_env demo_request demo_write (Some demo_handler) None = Inr []"
  "approval_phase tool_env demo_request demo_write [] = Inr (\<lparr>ag_ApprovalID = ''a'', ag_AttemptID = ''1'', ag_IdempotencyKey = []\<rparr>, ''k'')"
  by (simp_all add: demo_call_defs prechecks_def approval_phase_def authorizeIdentity_def RequiresApproval_def demo_trim Let_def tool_constants)

lemma demo_policy: "retry_policy demo_write = \<lparr>rt_MaxAttempts = 2, rt_InitialBackoff = 1, rt_MaxBackoff = 1\<rparr>"
  by (simp add: retry_policy_def RetryPolicy_normalized_def demo_call_defs)

lemma demo_fields:
  "ts_IdempotencyRequired demo_write" "ts_Name demo_write = ''post''" "xv_claim tool_env = Some (\<lambda>_. Inr (zero_claim\<lparr>cl_ExecutionID := ''x''\<rparr>))"
  "xv_claim_complete tool_env = None" "xv_archive tool_env = None" "xv_max_bytes tool_env = 100" "xv_wait tool_env k = None"
  "xv_json_outputs tool_env out = Inr ''{}''" "xv_lifecycle tool_env" "xv_approval_complete tool_env = None"
  by (simp_all add: demo_call_defs)

lemma demo_run:
  "\<exists>b' fx. execute tool_env demo_request demo_write (Some demo_handler) None NoBreaker = (Inr Map.empty, b', fx)
     \<and> length (filter is_handler fx) = 2"
proof -
  have "retryable (ETransient True ''busy'')" "\<not> executionSuspended (ETransient True ''busy'')"
    by (auto simp: retryable_def executionSuspended_def errors_Is_def errors_As_def)
  then show ?thesis
    unfolding execute_def demo_phases(1)
    by (simp add: demo_phases(2) demo_fields Let_def claim_phase_def guarded_run_def attempt_loop.simps demo_policy demo_handler_def
        handle_result_def commit_result_def buildResultSnapshot_def completeApproval_def log_error_def audit_def zero_claim_def)
qed

section \<open>Audit, gates and settlement\<close>

text \<open>
  C35. Every execution is audited once. Whatever the services answer, the effects of an execution end
  with one audit record, which is the only one, and the record agrees with what the caller gets: it
  says succeeded or replayed, without an error code, exactly when outputs are returned, and otherwise
  carries the code and the attempt of the returned error.
\<close>

theorem execute_audited_once:
  assumes "execute env request spec handler validate b = (res, b', fx)"
  shows "\<exists>pre ev. fx = pre @ [FxAudit ev] \<and> (\<forall>e\<in>set pre. \<not> is_audit e) \<and> verdict res ev"
proof -
  have "\<exists>h a c. ending [] h a c (res, b', fx)"
    by (cases rule: execute_cases [of env request spec handler validate b], unfold assms)
      (blast, blast, blast, metis claim_phase_cases)
  then obtain h a c where "ending [] h a c (res, b', fx)" by blast
  from ending_total(1) [OF this] obtain pre ev where p: "fx = pre @ [FxAudit ev]" "cnt is_audit pre = 0" "verdict res ev" by blast
  then have "\<forall>e\<in>set pre. \<not> is_audit e" by (simp add: cnt_def filter_empty_conv)
  then show ?thesis using p by blast
qed

theorem execute_audited_once_witness:
  "\<exists>res b' pre ev. execute tool_env demo_request demo_write (Some demo_handler) None NoBreaker = (res, b', pre @ [FxAudit ev])
     \<and> pre \<noteq> [] \<and> (\<forall>e\<in>set pre. \<not> is_audit e) \<and> au_Decision ev \<in> {''succeeded'', ''replayed''}"
proof -
  obtain b' fx where x: "execute tool_env demo_request demo_write (Some demo_handler) None NoBreaker = (Inr Map.empty, b', fx)"
    "length (filter is_handler fx) = 2" using demo_run by blast
  from execute_audited_once [OF x(1)] obtain pre ev where "fx = pre @ [FxAudit ev]" "\<forall>e\<in>set pre. \<not> is_audit e" "verdict (Inr Map.empty) ev" by blast
  then show ?thesis using x by (auto simp: verdict_def)
qed

text \<open>
  C36. Nothing runs before its gates. If the handler is called at all, the caller is authorised, the
  inputs pass the schema and the guardrail, an approval has been granted under an identity if the
  tool requires one, an idempotency key is present and freshly claimed if the tool requires one, and
  the circuit breaker let the call through; and it is called at most as often as the retry policy
  says, and once if the tool writes without idempotency.
\<close>

theorem execute_gates:
  assumes "execute env request spec handler validate b = (res, b', fx)" "\<exists>e\<in>set fx. is_handler e"
  shows "handler \<noteq> None \<and> authorizeIdentity env (rq_Identity request) spec = None
    \<and> (\<forall>v. validate = Some v \<longrightarrow> v (rq_Inputs request) = None)
    \<and> (\<exists>inputs grant key. prechecks env request spec handler validate = Inr inputs
        \<and> (RequiresApproval spec \<longrightarrow> xv_authorize env (approval_check request spec inputs) = Inr grant \<and> trim_space (ag_ApprovalID grant) \<noteq> [])
        \<and> (ts_IdempotencyRequired spec \<longrightarrow> key \<noteq> [] \<and> (\<forall>store. xv_claim env = Some store \<longrightarrow>
             (\<exists>claim. store (idempotency_check env request spec inputs key) = Inr claim \<and> \<not> cl_Replayed claim))))
    \<and> fst (impl_Allow (xv_allow_at env) (ts_Name spec) b) = None
    \<and> int (length (filter is_handler fx)) \<le> rt_MaxAttempts (retry_policy spec)
    \<and> (ts_Category spec = CategoryWrite \<and> \<not> ts_IdempotencyRequired spec \<longrightarrow> length (filter is_handler fx) = 1)"
proof -
  have ne: "cnt is_handler fx \<noteq> 0" using assms(2) by (simp add: cnt_def filter_empty_conv)
  have no: "\<not> ending [] 0 a c (execute env request spec handler validate b)" for a c
    using ne ending_total(2) [of 0 a c res b' fx] assms(1) by auto
  show ?thesis
  proof (cases rule: execute_cases [of env request spec handler validate b])
    case (claiming inputs grant key fx0)
    have pre: "handler \<noteq> None" "authorizeIdentity env (rq_Identity request) spec = None" "\<forall>v. validate = Some v \<longrightarrow> v (rq_Inputs request) = None"
      using claiming(1) by (auto simp: prechecks_def split: if_splits option.splits sum.splits)
    have appr: "RequiresApproval spec \<longrightarrow> xv_authorize env (approval_check request spec inputs) = Inr grant \<and> trim_space (ag_ApprovalID grant) \<noteq> []"
      using claiming(2) by (auto simp: approval_phase_def Let_def split: if_splits sum.splits)
    show ?thesis
    proof (cases rule: claim_phase_cases [where env = env and request = request and spec = spec and handler = "the handler" and grant = grant and key = key
          and ev = "start_event env request spec inputs" and inputs = inputs and b = b and fx = fx0])
      case (ran claim h)
      have e: "ending [] h (held env grant) (claimed env claim) (res, b', fx)" using ran(4) claiming(4,5) assms(1) by simp
      have n: "length (filter is_handler fx) = h" using ending_total(2) [OF e] by (simp add: cnt_def)
      have "ts_IdempotencyRequired spec \<longrightarrow> key \<noteq> [] \<and> (\<forall>store. xv_claim env = Some store \<longrightarrow>
             (\<exists>claim. store (idempotency_check env request spec inputs key) = Inr claim \<and> \<not> cl_Replayed claim))"
        using claiming(3) ran(1) by auto
      moreover have "ts_Category spec = CategoryWrite \<and> \<not> ts_IdempotencyRequired spec \<longrightarrow> h = 1"
        using ran(2) ne n by (cases "filter is_handler fx") (auto simp: retry_policy_def Let_def cnt_def)
      ultimately show ?thesis using pre appr claiming(1) ran(2,3) n ne by (auto simp: cnt_def)
    qed (use claiming(4,5) no in metis)+
  qed (use no in blast)+
qed

theorem execute_gates_witness:
  "\<exists>b' fx. execute tool_env demo_request demo_write (Some demo_handler) None NoBreaker = (Inr Map.empty, b', fx)
     \<and> length (filter is_handler fx) = 2 \<and> 2 \<le> rt_MaxAttempts (retry_policy demo_write)"
proof -
  obtain b' fx where x: "execute tool_env demo_request demo_write (Some demo_handler) None NoBreaker = (Inr Map.empty, b', fx)"
    "length (filter is_handler fx) = 2" using demo_run by blast
  then have "\<exists>e\<in>set fx. is_handler e" by (metis filter_empty_conv length_0_conv zero_neq_numeral)
  from execute_gates [OF x(1) this] have "int (length (filter is_handler fx)) \<le> rt_MaxAttempts (retry_policy demo_write)" by blast
  then show ?thesis using x by auto
qed

text \<open>
  Approvals and claims are settled exactly once. An approval grant with an identity, on a gate
  with a life cycle, is completed or released exactly once on every path, with one exception: when
  the tool requires an idempotency key and neither the caller nor the grant has one, the execution
  ends without releasing the grant. A fresh idempotency claim is completed or failed exactly once.
\<close>

theorem execute_settles:
  assumes "execute env request spec handler validate b = (res, b', fx)" "prechecks env request spec handler validate = Inr inputs"
    and "approval_phase env request spec inputs = Inr (grant, key)"
  shows "length (filter settles_approval fx) =
      (if ts_IdempotencyRequired spec \<and> key = [] \<or> ag_ApprovalID grant = [] \<or> \<not> xv_lifecycle env then 0 else 1)
    \<and> (\<forall>store claim. ts_IdempotencyRequired spec \<and> key \<noteq> [] \<and> xv_claim env = Some store
         \<and> store (idempotency_check env request spec inputs key) = Inr claim \<and> \<not> cl_Replayed claim \<longrightarrow>
         length (filter settles_claim fx) = (if cl_ExecutionID claim = [] then 0 else 1))"
proof (cases rule: execute_cases [of env request spec handler validate b])
  case (no_key inputs' grant' key')
  then show ?thesis using ending_total(3,4) [of 0 0 0 res b' fx] assms by (simp add: cnt_def)
next
  case (claiming inputs' grant' key' fx0)
  then have e: "inputs' = inputs" "grant' = grant" "key' = key" using assms(2,3) by auto
  note out = claiming(4,5) [unfolded e assms(1)]
  show ?thesis
  proof (cases rule: claim_phase_cases [where env = env and request = request and spec = spec and handler = "the handler" and grant = grant and key = key
          and ev = "start_event env request spec inputs" and inputs = inputs and b = b and fx = fx0])
    case (unclaimed store err)
    then have "ending [] 0 (held env grant) 0 (res, b', fx)" using out by simp
    from ending_total(3) [OF this] unclaimed(1-3) claiming(3) e show ?thesis by (auto simp: cnt_def held_def)
  next
    case (replayed store claim)
    then have "ending [] 0 (held env grant) 0 (res, b', fx)" using out by simp
    from ending_total(3) [OF this] replayed(1-4) claiming(3) e show ?thesis by (auto simp: cnt_def held_def)
  next
    case (ran claim h)
    then have "ending [] h (held env grant) (claimed env claim) (res, b', fx)" using out by simp
    from ending_total(3,4) [OF this] ran(1) claiming(3) e show ?thesis by (auto simp: cnt_def held_def claimed_def)
  qed
qed (use assms in auto)

theorem execute_settles_witness:
  "\<exists>b' fx. execute tool_env demo_request demo_write (Some demo_handler) None NoBreaker = (Inr Map.empty, b', fx)
     \<and> length (filter settles_approval fx) = 1 \<and> length (filter settles_claim fx) = 1"
proof -
  obtain b' fx where x: "execute tool_env demo_request demo_write (Some demo_handler) None NoBreaker = (Inr Map.empty, b', fx)"
    using demo_run by blast
  from execute_settles [OF x demo_phases] x show ?thesis by (simp add: demo_call_defs zero_claim_def)
qed

section \<open>Executions and the circuit breaker\<close>

fun is_record :: "effect \<Rightarrow> bool" where
  "is_record FxRecordSuccess = True" | "is_record FxRecordFailure = True" | "is_record _ = False"

lemma cnt_record [simp]: "cnt is_record (log_error s e) = 0" "cnt is_record (releaseApproval env g) = 0"
  "cnt is_record (completeApproval env s g) = 0" "cnt is_record (failIdempotency env c) = 0"
  by (auto simp: log_error_def releaseApproval_def completeApproval_def failIdempotency_def split: option.splits)

text \<open>
  \<open>leaves n cb out\<close>: from the breaker \<open>cb\<close> the outcome made calls of the breaker, all for the tool \<open>n\<close>,
  and no success or failure that is not among its effects.
\<close>

definition leaves :: "string \<Rightarrow> ToolCircuitBreaker \<Rightarrow> outcome \<Rightarrow> bool" where
  "leaves n cb out = (case out of (res, b', fx) \<Rightarrow>
     (\<exists>ops. b' = Breaker (fold tools.perform ops cb) \<and> (\<forall>p\<in>set ops. op_tool p = n) \<and> (cnt is_record fx = 0 \<longrightarrow> ops = [])))"

lemma leaves_same: "leaves n cb (res, Breaker cb, fx)"
  by (auto simp: leaves_def intro!: exI [of _ "[]"])

lemma leaves_recorded:
  assumes "op_tool p = n" "cnt is_record fx \<noteq> 0"
  shows "leaves n cb (res, Breaker (tools.perform p cb), fx)"
  using assms by (auto simp: leaves_def intro!: exI [of _ "[p]"])

lemma stop_leaves: "leaves n cb (stop_with ev d failure (Breaker cb) fx)"
  by (simp add: stop_with_def leaves_same)

lemma commit_result_leaves: "leaves (ts_Name spec) cb (commit_result env spec grant claim key ev k outputs sn (Breaker cb) fx)"
proof -
  have "leaves (ts_Name spec) cb (res, Breaker (tools.perform (OpSuccess (ts_Name spec)) cb), fx @ FxRecordSuccess # gx)" for res gx
    by (rule leaves_recorded) simp_all
  then show ?thesis by (simp add: commit_result_def Let_def stop_with_def split: option.split)
qed

lemma handle_result_leaves: "leaves (ts_Name spec) cb (handle_result env request spec grant claim key ev k outputs (Breaker cb) fx)"
  by (simp add: handle_result_def Let_def stop_leaves commit_result_leaves split: option.split sum.split prod.split)

lemma attempt_loop_leaves:
  "leaves (ts_Name spec) cb (attempt_loop env request spec handler grant claim key ev inputs attempt lastErr (Breaker cb) fx)"
proof (induction "nat (rt_MaxAttempts (retry_policy spec) + 1) - attempt" arbitrary: attempt lastErr fx rule: less_induct)
  case less
  let ?max = "rt_MaxAttempts (retry_policy spec)"
  have fail: "leaves (ts_Name spec) cb (stop_with ev ''failed'' failure (Breaker (breaker_RecordFailure t (ts_Name spec) cb)) (gx @ FxHandler k i # FxRecordFailure # hx))"
    for failure t gx k i hx
    using leaves_recorded [of "OpFailure t (ts_Name spec)"] by (simp add: stop_with_def)
  have IH: "leaves (ts_Name spec) cb (attempt_loop env request spec handler grant claim key ev inputs (Suc attempt) err (Breaker cb) gx)"
    if "int attempt \<le> ?max" for err gx
    by (rule less) (use that in linarith)
  show ?case
    by (subst attempt_loop.simps)
      (simp add: Let_def stop_leaves handle_result_leaves fail IH split: option.split sum.split)
qed

lemma guarded_run_leaves:
  fixes env spec cb
  defines "n \<equiv> ts_Name spec"
  assumes "guarded_run env request spec handler grant claim key ev inputs (Breaker cb) fx = (res, b', fx')"
  obtains (refused) "fst (breaker_Allow (xv_allow_at env) n cb) \<noteq> None" "b' = Breaker (snd (breaker_Allow (xv_allow_at env) n cb))"
  | (let_through) "fst (breaker_Allow (xv_allow_at env) n cb) = None" "leaves n (snd (breaker_Allow (xv_allow_at env) n cb)) (res, b', fx')"
proof (cases "breaker_Allow (xv_allow_at env) n cb")
  case (Pair refused cb1)
  show ?thesis
  proof (cases refused)
    case (Some e)
    then show ?thesis using assms(2) Pair by (intro refused) (auto simp: guarded_run_def n_def stop_with_def)
  next
    case None
    then have "(res, b', fx') = attempt_loop env request spec handler grant claim key ev inputs 1 (EMsg []) (Breaker cb1) fx"
      using assms(2) Pair by (simp add: guarded_run_def n_def)
    then show ?thesis using Pair None attempt_loop_leaves [of spec cb1] by (intro let_through) (simp_all add: n_def)
  qed
qed

text \<open>An execution reaches the breaker, or leaves it as it is and calls no handler.\<close>

lemma execute_reaches:
  assumes "execute env request spec handler validate b = (res, b', fx)"
  shows "b' = b \<and> cnt is_handler fx = 0
    \<or> (\<exists>grant claim key ev inputs gx. guarded_run env request spec (the handler) grant claim key ev inputs b gx = (res, b', fx))"
proof (cases rule: execute_cases [of env request spec handler validate b])
  case (claiming inputs grant key fx0)
  let ?out = "claim_phase env request spec (the handler) grant key (start_event env request spec inputs) inputs b fx0"
  note out = claiming(4,5) [unfolded assms]
  show ?thesis
  proof (cases rule: claim_phase_cases [where env = env and request = request and spec = spec and handler = "the handler" and grant = grant
        and key = key and ev = "start_event env request spec inputs" and inputs = inputs and b = b and fx = fx0])
    case (unclaimed store err)
    then have "cnt is_handler fx = 0" using out ending_total(2) by metis
    then show ?thesis using out(1) unclaimed(1-3) by (auto simp: claim_phase_def stop_with_def Let_def)
  next
    case (replayed store claim)
    then have "cnt is_handler fx = 0" using out ending_total(2) by metis
    then show ?thesis using out(1) replayed(1-4) by (auto simp: claim_phase_def Let_def)
  next
    case (ran claim h)
    then show ?thesis using out(1) by (force simp: claim_phase_def Let_def split: option.splits if_splits)
  qed
qed (use assms in \<open>auto simp: execute_def stop_with_def audit_def Let_def\<close>)

lemma execute_refused:
  assumes "execute env request spec handler validate (Breaker cb) = (res, b', fx)" "fst (breaker_Allow (xv_allow_at env) (ts_Name spec) cb) \<noteq> None"
  shows "cnt is_handler fx = 0"
proof -
  have r: "fst (impl_Allow (xv_allow_at env) (ts_Name spec) (Breaker cb)) \<noteq> None" using assms(2) by (auto split: prod.splits)
  have "\<exists>a c. ending [] 0 a c (execute env request spec handler validate (Breaker cb))"
  proof (cases rule: execute_cases [of env request spec handler validate "Breaker cb"])
    case (claiming inputs grant key fx0)
    show ?thesis
      by (cases rule: claim_phase_cases [where env = env and request = request and spec = spec and handler = "the handler" and grant = grant
            and key = key and ev = "start_event env request spec inputs" and inputs = inputs and b = "Breaker cb" and fx = fx0])
        (metis claiming(4,5) r)+
  qed blast+
  then show ?thesis using assms(1) ending_total(2) by metis
qed

text \<open>A tool whose probe is in flight.\<close>

definition probing :: "string \<Rightarrow> ToolCircuitBreaker \<Rightarrow> bool" where
  "probing n cb \<longleftrightarrow> ce_state (entry_of n cb) = CircuitHalfOpen \<and> ce_halfOpenInFlight (entry_of n cb)"

lemma probing_refuses: "probing n cb \<Longrightarrow> fst (breaker_Allow now n cb) = Some ErrCircuitOpen"
  by (simp add: probing_def Allow_answer)

lemma probing_keeps:
  assumes "probing n cb" "\<forall>p\<in>set ops. \<not> records n p"
  shows "probing n (fold tools.perform ops cb)"
  using probe_stays [of n cb ops] assms by (simp add: probing_def)

lemma execute_keeps_probing:
  assumes "execute env request spec handler validate (Breaker cb) = (res, b', fx)" "probing n cb"
  shows "\<exists>cb'. b' = Breaker cb' \<and> probing n cb'"
  using execute_reaches [OF assms(1)]
proof (elim disjE exE conjE)
  assume "b' = Breaker cb"
  then show ?thesis using assms(2) by blast
next
  fix grant claim key ev inputs gx
  assume "guarded_run env request spec (the handler) grant claim key ev inputs (Breaker cb) gx = (res, b', fx)"
  then show ?thesis
  proof (cases rule: guarded_run_leaves)
    case refused
    then show ?thesis using probing_keeps [OF assms(2), of "[OpAllow (xv_allow_at env) (ts_Name spec)]"] by (auto simp: records_def)
  next
    case let_through
    then have ne: "ts_Name spec \<noteq> n" using probing_refuses [OF assms(2)] by auto
    from let_through(2) obtain ops where ops: "b' = Breaker (fold tools.perform ops (snd (breaker_Allow (xv_allow_at env) (ts_Name spec) cb)))"
      "\<forall>p\<in>set ops. op_tool p = ts_Name spec" by (auto simp: leaves_def)
    show ?thesis
      using probing_keeps [OF assms(2), of "OpAllow (xv_allow_at env) (ts_Name spec) # ops"] ops ne by (auto simp: records_def)
  qed
qed

text \<open>Executions one after the other on one executor: the tool and the effects of each.\<close>

record call =
  ca_env :: exec_env
  ca_request :: ExecutionRequest
  ca_spec :: ToolSpec
  ca_handler :: "handler option"
  ca_validate :: "(inputs \<Rightarrow> gerr option) option"

fun run_calls :: "breaker_impl \<Rightarrow> call list \<Rightarrow> (string \<times> effect list) list" where
  "run_calls b [] = []"
| "run_calls b (c # cs) =
     (let (res, b', fx) = execute (ca_env c) (ca_request c) (ca_spec c) (ca_handler c) (ca_validate c) b
      in (ts_Name (ca_spec c), fx) # run_calls b' cs)"

lemma run_calls_probing:
  "probing n cb \<Longrightarrow> (n, fx) \<in> set (run_calls (Breaker cb) cs) \<Longrightarrow> cnt is_handler fx = 0"
proof (induction cs arbitrary: cb)
  case (Cons c cs)
  obtain res b' gx where x: "execute (ca_env c) (ca_request c) (ca_spec c) (ca_handler c) (ca_validate c) (Breaker cb) = (res, b', gx)"
    by (metis prod_cases3)
  obtain cb' where "b' = Breaker cb'" "probing n cb'" using execute_keeps_probing [OF x Cons.prems(1)] by blast
  then show ?case
    using Cons execute_refused [OF x] probing_refuses [OF Cons.prems(1)] by (auto simp: x)
qed simp

text \<open>
  A probe that records nothing shuts the tool for good. When the circuit of a tool is not closed
  and an execution is let through to the handler as its probe, but ends without recording a success or
  a failure on the breaker (the handler suspends or is cancelled, the result is too large, or it
  cannot be archived), no later execution of that tool on this executor calls its handler, whatever
  executions of this and other tools follow.
\<close>

theorem abandoned_probe_shuts_tool:
  assumes "execute env request spec handler validate (Breaker cb) = (res, b', fx)"
    and "ce_state (entry_of (ts_Name spec) cb) \<noteq> CircuitClosed" "entry_ok (cb_failureThreshold cb) (entry_of (ts_Name spec) cb)"
    and "\<exists>e\<in>set fx. is_handler e" "\<forall>e\<in>set fx. \<not> is_record e"
    and "(ts_Name spec, later) \<in> set (run_calls b' calls)"
  shows "\<forall>e\<in>set later. \<not> is_handler e"
proof -
  let ?n = "ts_Name spec"
  have h: "cnt is_handler fx \<noteq> 0" "cnt is_record fx = 0" using assms(4,5) by (auto simp: cnt_def filter_empty_conv)
  then obtain grant claim key ev inputs gx where
    "guarded_run env request spec (the handler) grant claim key ev inputs (Breaker cb) gx = (res, b', fx)"
    using execute_reaches [OF assms(1)] by auto
  then have "\<exists>cb'. b' = Breaker cb' \<and> probing ?n cb'"
  proof (cases rule: guarded_run_leaves)
    case refused
    then show ?thesis using execute_refused [OF assms(1)] h(1) by blast
  next
    case let_through
    then have "b' = Breaker (tools.perform (OpAllow (xv_allow_at env) ?n) cb)" using h(2) by (auto simp: leaves_def)
    moreover have "probing ?n (tools.perform (OpAllow (xv_allow_at env) ?n) cb)"
      using assms(2,3) let_through(1) unfolding probing_def perform_entry(1) Allow_answer by (auto simp: entry_ok_def circuit_states split: if_splits)
    ultimately show ?thesis by blast
  qed
  then show ?thesis using run_calls_probing assms(6) by (force simp: cnt_def filter_empty_conv)
qed

text \<open>A handler that suspends, on a tool that has just become half open.\<close>

definition demo_read :: ToolSpec where
  "demo_read = demo_write\<lparr>ts_Name := ''t'', ts_Category := CategoryRead, ts_IdempotencyRequired := False, ts_Approval := ApprovalNever\<rparr>"

definition demo_pause :: gerr where
  "demo_pause = EToolSuspension \<lparr>tc_Version = [], tc_Prompt = [], tc_ResumeKind = [], tc_ApprovalID = [], tc_State = RawEmpty\<rparr> None"

lemma demo_abandons:
  "\<exists>res b' fx. execute tool_env demo_request demo_read (Some (\<lambda>_ _. Inl demo_pause)) None (Breaker demo_breaker) = (res, b', fx)
     \<and> (\<exists>e\<in>set fx. is_handler e) \<and> (\<forall>e\<in>set fx. \<not> is_record e)"
proof -
  have p: "prechecks tool_env demo_request demo_read (Some (\<lambda>_ _. Inl demo_pause)) None = Inr []"
    "approval_phase tool_env demo_request demo_read [] = Inr (zero_grant, ''k'')" "\<not> ts_IdempotencyRequired demo_read" "\<not> RequiresApproval demo_read"
    by (simp_all add: demo_call_defs demo_read_def prechecks_def approval_phase_def authorizeIdentity_def RequiresApproval_def demo_trim Let_def tool_constants)
  have "executionSuspended demo_pause" by (simp add: executionSuspended_def demo_pause_def errors_As_def)
  moreover have "fst (breaker_Allow 20 ''t'' demo_breaker) = None" by (simp add: Allow_answer demo_entry circuit_states)
  moreover have "ts_Name demo_read = ''t''" "xv_allow_at tool_env = 20" by (simp_all add: demo_read_def tool_env_def)
  moreover have "1 \<le> rt_MaxAttempts (retry_policy demo_read)" by (rule retry_policy_attempts)
  moreover obtain r cb where "breaker_Allow 20 ''t'' demo_breaker = (r, cb)" by (cases "breaker_Allow 20 ''t'' demo_breaker")
  ultimately show ?thesis
    unfolding execute_def p(1)
    by (simp add: p(2-4) claim_phase_def guarded_run_def attempt_loop.simps Let_def stop_with_def audit_def failIdempotency_def zero_claim_def
        releaseApproval_def zero_grant_def)
qed

theorem abandoned_probe_shuts_tool_witness:
  "\<exists>res b' fx later. execute tool_env demo_request demo_read (Some (\<lambda>_ _. Inl demo_pause)) None (Breaker demo_breaker) = (res, b', fx)
     \<and> run_calls b' [\<lparr>ca_env = tool_env\<lparr>xv_allow_at := 1000000\<rparr>, ca_request = demo_request, ca_spec = demo_read, ca_handler = Some demo_handler, ca_validate = None\<rparr>]
         = [(''t'', later)] \<and> (\<forall>e\<in>set later. \<not> is_handler e)"
proof -
  let ?c = "\<lparr>ca_env = tool_env\<lparr>xv_allow_at := 1000000\<rparr>, ca_request = demo_request, ca_spec = demo_read, ca_handler = Some demo_handler, ca_validate = None\<rparr>"
  have n: "ts_Name demo_read = ''t''" by (simp add: demo_read_def)
  obtain res b' fx where x: "execute tool_env demo_request demo_read (Some (\<lambda>_ _. Inl demo_pause)) None (Breaker demo_breaker) = (res, b', fx)"
    "\<exists>e\<in>set fx. is_handler e" "\<forall>e\<in>set fx. \<not> is_record e" using demo_abandons by blast
  obtain later where l: "run_calls b' [?c] = [(''t'', later)]" 
    by (cases "execute (tool_env\<lparr>xv_allow_at := 1000000\<rparr>) demo_request demo_read (Some demo_handler) None b'") (auto simp: n)
  have "\<forall>e\<in>set later. \<not> is_handler e"
    by (rule abandoned_probe_shuts_tool [OF x(1) _ _ x(2,3), of later "[?c]"]) (use l n in \<open>simp_all add: demo_entry entry_ok_def circuit_states\<close>)
  then show ?thesis using x(1) l by blast
qed

end
