(* ===== verification/Tool_Node.thy ===== *)
theory Tool_Node
  imports Tool_Governance Scheduler
begin

text \<open>
  The callers of the governance pipeline: \<^verbatim>\<open>ExecuteRegistered\<close>, \<^verbatim>\<open>ExecuteAdHoc\<close> with its cache of
  compiled schemas and \<^verbatim>\<open>waitBackoff\<close> of \<^verbatim>\<open>src/internal/module/agent/workflow/tool/executor.go\<close>, and
  \<^verbatim>\<open>ToolNode\<close> of \<^verbatim>\<open>workflow/tool/registry.go\<close>, through which a workflow runs a tool; and what the
  redaction of audited inputs hides.
\<close>

section \<open>Redaction\<close>

text \<open>A value shows a sensitive field: some object in it, at any depth, has one that is not redacted.\<close>

fun exposed :: "string set \<Rightarrow> gval \<Rightarrow> bool" where
  "exposed sensitive (GMap kvs) \<longleftrightarrow>
     (\<exists>kv\<in>set kvs. if field_key (fst kv) \<in> sensitive then snd kv \<noteq> redacted else exposed sensitive (snd kv))"
| "exposed sensitive (GSlice items) \<longleftrightarrow> (\<exists>v\<in>set items. exposed sensitive v)"
| "exposed sensitive _ \<longleftrightarrow> False"

fun is_slice :: "gval \<Rightarrow> bool" where
  "is_slice (GSlice items) = True" | "is_slice _ = False"

text \<open>No list is an element of a list, outside the redacted fields.\<close>

fun flat :: "string set \<Rightarrow> gval \<Rightarrow> bool" where
  "flat sensitive (GMap kvs) \<longleftrightarrow> (\<forall>kv\<in>set kvs. field_key (fst kv) \<in> sensitive \<or> flat sensitive (snd kv))"
| "flat sensitive (GSlice items) \<longleftrightarrow> (\<forall>v\<in>set items. \<not> is_slice v \<and> flat sensitive v)"
| "flat sensitive _ \<longleftrightarrow> True"

lemma redact_hides:
  shows "flat sensitive (GMap kvs) \<Longrightarrow> \<not> exposed sensitive (GMap (redactMap sensitive kvs))"
    and "flat sensitive v \<Longrightarrow> \<not> exposed sensitive (redact_value sensitive v)"
    and "flat sensitive v \<Longrightarrow> \<not> is_slice v \<Longrightarrow> \<not> exposed sensitive (redact_item sensitive v)"
  by (induction sensitive kvs and sensitive v and sensitive v rule: redactMap_redact_value_redact_item.induct) auto

lemma redactMap_keys: "map fst (redactMap sensitive kvs) = map fst kvs"
  by (induction kvs) auto

lemma redactMap_map: "redactMap sensitive kvs = map (\<lambda>(k, v). (k, if field_key k \<in> sensitive then redacted else redact_value sensitive v)) kvs"
  by (induction kvs) auto

text \<open>
  Audited inputs hide the sensitive fields. The redacted inputs have the fields of the inputs in
  their order. If no list is an element of another list, no object in them, at any depth, has a
  sensitive field (a default one or one of the tool's, compared without case and outer white space)
  with a value other than the placeholder; and a field that is not sensitive and holds neither
  an object nor a list is unchanged.
\<close>

theorem RedactInputs_hides:
  fixes inputs fs
  defines "sensitive \<equiv> set defaultSensitiveFields \<union> set (map field_key fs)"
  assumes "flat sensitive (GMap inputs)"
  shows "\<not> exposed sensitive (GMap (RedactInputs inputs fs)) \<and> map fst (RedactInputs inputs fs) = map fst inputs
    \<and> (\<forall>k v. (k, v) \<in> set inputs \<and> field_key k \<notin> sensitive \<and> (\<forall>kvs. v \<noteq> GMap kvs) \<and> \<not> is_slice v \<longrightarrow> (k, v) \<in> set (RedactInputs inputs fs))"
proof (intro conjI allI impI)
  show "\<not> exposed sensitive (GMap (RedactInputs inputs fs))" 
    unfolding RedactInputs_def sensitive_def [symmetric] by (rule redact_hides(1) [OF assms(2)])
  show "map fst (RedactInputs inputs fs) = map fst inputs" by (simp add: RedactInputs_def redactMap_keys)
  fix k v
  assume a: "(k, v) \<in> set inputs \<and> field_key k \<notin> sensitive \<and> (\<forall>kvs. v \<noteq> GMap kvs) \<and> \<not> is_slice v"
  then have "redact_value sensitive v = v" by (cases v) auto
  then show "(k, v) \<in> set (RedactInputs inputs fs)"
    using a unfolding RedactInputs_def sensitive_def [symmetric] redactMap_map by (force intro: rev_image_eqI)
qed

theorem RedactInputs_hides_witness:
  "flat (set defaultSensitiveFields \<union> set (map field_key [])) (GMap [(''user'', GMap [(''Password '', GString ''p'')]), (''n'', GBool True)])
     \<and> \<not> exposed (set defaultSensitiveFields \<union> set (map field_key []))
         (GMap (RedactInputs [(''user'', GMap [(''Password '', GString ''p'')]), (''n'', GBool True)] []))"
  using RedactInputs_hides [of "[]" "[(''user'', GMap [(''Password '', GString ''p'')]), (''n'', GBool True)]"] by simp

text \<open>A list in a list is passed through as it is.\<close>

lemma RedactInputs_nested_list:
  "RedactInputs [(''rows'', GSlice [GSlice [GMap [(''password'', GString ''p'')]]])] [] = [(''rows'', GSlice [GSlice [GMap [(''password'', GString ''p'')]]])]"
proof -
  have "field_key ''rows'' \<notin> set defaultSensitiveFields" by code_simp
  then show ?thesis by (simp add: RedactInputs_def)
qed

section \<open>Backoff between attempts\<close>

text \<open>
  The delay before the next attempt, an \<^verbatim>\<open>int64\<close> number of nanoseconds: the shift drops the bits that
  leave the word.
\<close>

definition backoff_delay :: "RetryPolicy \<Rightarrow> nat \<Rightarrow> int" where
  "backoff_delay policy attempt =
     (let delay = sint (push_bit (attempt - 1) (word_of_int (rt_InitialBackoff policy) :: 64 word))
      in if rt_MaxBackoff policy < delay then rt_MaxBackoff policy else delay)"

lemma sint_fits: "0 \<le> v \<Longrightarrow> v < 2 ^ 63 \<Longrightarrow> sint (word_of_int v :: 64 word) = v"
  by (simp add: sint_sbintrunc' signed_take_bit_int_eq_self)

lemma shifted_exact:
  assumes "0 \<le> i" "i * 2 ^ k < 2 ^ 63"
  shows "sint (push_bit k (word_of_int i :: 64 word)) = i * 2 ^ k"
proof -
  have "push_bit k (word_of_int i :: 64 word) = word_of_int (i * 2 ^ k)"
    by (simp add: push_bit_eq_mult)
  then show ?thesis using assms sint_fits [of "i * 2 ^ k"] by (simp only:) simp
qed

text \<open>
  Backoff doubles up to the maximum as long as it fits. If the initial backoff, doubled once for
  every attempt already made, still fits in 63 bits, the delay is that value or the maximum, whichever
  is smaller; the delay never exceeds the maximum; but from the 65th attempt on it is always zero,
  since every bit has been shifted out, so the attempts follow one another without any wait.
\<close>

theorem backoff_delay_bounds:
  assumes "0 \<le> rt_InitialBackoff policy"
  shows "(rt_InitialBackoff policy * 2 ^ (attempt - 1) < 2 ^ 63 \<longrightarrow>
      backoff_delay policy attempt = min (rt_InitialBackoff policy * 2 ^ (attempt - 1)) (rt_MaxBackoff policy))
    \<and> backoff_delay policy attempt \<le> rt_MaxBackoff policy
    \<and> (65 \<le> attempt \<and> 0 \<le> rt_MaxBackoff policy \<longrightarrow> backoff_delay policy attempt = 0)"
proof (intro conjI impI)
  assume "rt_InitialBackoff policy * 2 ^ (attempt - 1) < 2 ^ 63"
  from shifted_exact [OF assms this]
  show "backoff_delay policy attempt = min (rt_InitialBackoff policy * 2 ^ (attempt - 1)) (rt_MaxBackoff policy)"
    by (simp add: backoff_delay_def Let_def)
next
  show "backoff_delay policy attempt \<le> rt_MaxBackoff policy" by (simp add: backoff_delay_def Let_def)
next
  assume a: "65 \<le> attempt \<and> 0 \<le> rt_MaxBackoff policy"
  have "push_bit (attempt - 1) (word_of_int (rt_InitialBackoff policy) :: 64 word) = 0"
    by (rule bit_word_eqI) (use a in \<open>auto simp: bit_push_bit_iff\<close>)
  then show "backoff_delay policy attempt = 0" using a by (simp add: backoff_delay_def)
qed

theorem backoff_delay_bounds_witness:
  "backoff_delay \<lparr>rt_MaxAttempts = 100, rt_InitialBackoff = 100 * Millisecond, rt_MaxBackoff = Second\<rparr> 3 = 400 * Millisecond
     \<and> backoff_delay \<lparr>rt_MaxAttempts = 100, rt_InitialBackoff = 100 * Millisecond, rt_MaxBackoff = Second\<rparr> 70 = 0"
  using backoff_delay_bounds [of "\<lparr>rt_MaxAttempts = 100, rt_InitialBackoff = 100 * Millisecond, rt_MaxBackoff = Second\<rparr>" 3]
    backoff_delay_bounds [of "\<lparr>rt_MaxAttempts = 100, rt_InitialBackoff = 100 * Millisecond, rt_MaxBackoff = Second\<rparr>" 70]
  by (simp add: Millisecond_def Second_def)

section \<open>Registered and ad hoc tools\<close>

text \<open>\<open>handlers\<close> gives the behaviour of the handler that a token of the registry stands for.\<close>

definition ExecuteRegistered :: "exec_env \<Rightarrow> (nat \<Rightarrow> handler) \<Rightarrow> ToolRegistry option \<Rightarrow> ExecutionRequest \<Rightarrow> breaker_impl \<Rightarrow> outcome" where
  "ExecuteRegistered env handlers registry request b =
     (let unknown = EExec \<lparr>xe_Code = CodeUnknownTool, xe_ToolName = rq_ToolName request, xe_Attempt = 0, xe_Retryable = False\<rparr> ErrUnknownTool
      in case registry of
           None \<Rightarrow> (Inl unknown, b, [])
         | Some r \<Rightarrow>
             (case registry_Get r (rq_ToolName request) of
                None \<Rightarrow> (Inl unknown, b, [])
              | Some t \<Rightarrow> execute env request (rg_Spec t) (Some (handlers (rg_Handler t))) (Some (rg_validate t)) b))"

text \<open>
  The cache of compiled schemas. Its key is a string: the name of the tool, a zero byte and the bytes
  of the schema. Compiling looks at nothing else; \<open>bytes\<close> gives the bytes of a specification's schema.
\<close>

type_synonym input_validator = "inputs \<Rightarrow> gerr option"
type_synonym validator_cache = "(string \<times> input_validator) list"

definition validator_key :: "string \<Rightarrow> string \<Rightarrow> string" where
  "validator_key name schema = name @ [CHR 0x00] @ schema"

definition validator :: "(string \<Rightarrow> string \<Rightarrow> gerr + input_validator) \<Rightarrow> string \<Rightarrow> string \<Rightarrow> validator_cache
    \<Rightarrow> (gerr + input_validator) \<times> validator_cache" where
  "validator compile name schema cache =
     (let key = validator_key name schema
      in case map_of cache key of
           Some v \<Rightarrow> (Inr v, cache)
         | None \<Rightarrow> (case compile name schema of Inl err \<Rightarrow> (Inl err, cache) | Inr v \<Rightarrow> (Inr v, (key, v) # cache)))"

text \<open>\<open>quote\<close> is the formatting of \<^verbatim>\<open>%q\<close>.\<close>

definition spec_error_text :: "(string \<Rightarrow> string) \<Rightarrow> spec_error \<Rightarrow> string" where
  "spec_error_text quote e = (case e of
      NameRequired \<Rightarrow> ''tool name is required''
    | InvalidCategory n c \<Rightarrow> ''tool '' @ n @ '' has invalid category '' @ quote c
    | InvalidPermission n p \<Rightarrow> ''tool '' @ n @ '' has invalid permission '' @ quote p
    | MustRequireApproval n c \<Rightarrow> ''tool '' @ n @ '' category '' @ c @ '' must require approval'')"

definition ExecuteAdHoc :: "exec_env \<Rightarrow> (string \<Rightarrow> string) \<Rightarrow> (string \<Rightarrow> string \<Rightarrow> gerr + input_validator) \<Rightarrow> (raw_message \<Rightarrow> string) \<Rightarrow> ExecutionRequest \<Rightarrow> ToolSpec
    \<Rightarrow> handler option \<Rightarrow> validator_cache \<Rightarrow> breaker_impl \<Rightarrow> outcome \<times> validator_cache" where
  "ExecuteAdHoc env quote compile bytes request spec handler cache b =
     (let rejected = (\<lambda>name cause. (Inl (EExec \<lparr>xe_Code = CodeInvalidInput, xe_ToolName = name, xe_Attempt = 0, xe_Retryable = False\<rparr> cause), b, []))
      in case Normalize spec of
           Inl err \<Rightarrow> (rejected (rq_ToolName request) (EMsg (spec_error_text quote err)), cache)
         | Inr normalized \<Rightarrow>
             let (compiled, cache') = validator compile (ts_Name normalized) (bytes (ts_InputSchema normalized)) cache
             in case compiled of
                  Inl err \<Rightarrow> (rejected (ts_Name normalized) err, cache')
                | Inr v \<Rightarrow> (execute env request normalized handler (Some v) b, cache'))"

text \<open>The pipeline without the cache.\<close>

definition adhoc_uncached :: "exec_env \<Rightarrow> (string \<Rightarrow> string) \<Rightarrow> (string \<Rightarrow> string \<Rightarrow> gerr + input_validator) \<Rightarrow> (raw_message \<Rightarrow> string) \<Rightarrow> ExecutionRequest \<Rightarrow> ToolSpec
    \<Rightarrow> handler option \<Rightarrow> breaker_impl \<Rightarrow> outcome" where
  "adhoc_uncached env quote compile bytes request spec handler b =
     (let rejected = (\<lambda>name cause. (Inl (EExec \<lparr>xe_Code = CodeInvalidInput, xe_ToolName = name, xe_Attempt = 0, xe_Retryable = False\<rparr> cause), b, []))
      in case Normalize spec of
           Inl err \<Rightarrow> rejected (rq_ToolName request) (EMsg (spec_error_text quote err))
         | Inr normalized \<Rightarrow>
             (case compile (ts_Name normalized) (bytes (ts_InputSchema normalized)) of
                Inl err \<Rightarrow> rejected (ts_Name normalized) err
              | Inr v \<Rightarrow> execute env request normalized handler (Some v) b))"

fun adhoc_run :: "(string \<Rightarrow> string) \<Rightarrow> (string \<Rightarrow> string \<Rightarrow> gerr + input_validator) \<Rightarrow> (raw_message \<Rightarrow> string) \<Rightarrow> call list \<Rightarrow> validator_cache \<Rightarrow> breaker_impl
    \<Rightarrow> (gerr + fields) list" where
  "adhoc_run quote compile bytes [] cache b = []"
| "adhoc_run quote compile bytes (c # cs) cache b =
     (let ((res, b', fx), cache') = ExecuteAdHoc (ca_env c) quote compile bytes (ca_request c) (ca_spec c) (ca_handler c) cache b
      in res # adhoc_run quote compile bytes cs cache' b')"

fun uncached_run :: "(string \<Rightarrow> string) \<Rightarrow> (string \<Rightarrow> string \<Rightarrow> gerr + input_validator) \<Rightarrow> (raw_message \<Rightarrow> string) \<Rightarrow> call list \<Rightarrow> breaker_impl \<Rightarrow> (gerr + fields) list" where
  "uncached_run quote compile bytes [] b = []"
| "uncached_run quote compile bytes (c # cs) b =
     (let (res, b', fx) = adhoc_uncached (ca_env c) quote compile bytes (ca_request c) (ca_spec c) (ca_handler c) b
      in res # uncached_run quote compile bytes cs b')"

lemma validator_key_inj:
  assumes "validator_key n s = validator_key n' s'" "CHR 0x00 \<notin> set s" "CHR 0x00 \<notin> set s'"
  shows "n = n' \<and> s = s'"
proof -
  have "takeWhile (\<lambda>c. c \<noteq> CHR 0x00) (rev (validator_key m t)) = rev t" if "CHR 0x00 \<notin> set t" for m t
    using that by (auto simp: validator_key_def takeWhile_append)
  then have "rev s = rev s'" using assms by metis
  then show ?thesis using assms(1) by (simp add: validator_key_def)
qed

definition cache_ok :: "(string \<Rightarrow> string \<Rightarrow> gerr + input_validator) \<Rightarrow> validator_cache \<Rightarrow> bool" where
  "cache_ok compile cache \<longleftrightarrow> (\<forall>(key, v)\<in>set cache. \<exists>n s. key = validator_key n s \<and> CHR 0x00 \<notin> set s \<and> compile n s = Inr v)"

lemma cache_ok_Cons:
  "cache_ok compile ((key, v) # cache) \<longleftrightarrow>
     (\<exists>n s. key = validator_key n s \<and> CHR 0x00 \<notin> set s \<and> compile n s = Inr v) \<and> cache_ok compile cache"
  by (simp add: cache_ok_def)

lemma validator_transparent:
  assumes "cache_ok compile cache" "CHR 0x00 \<notin> set schema" "validator compile name schema cache = (res, cache')"
  shows "res = compile name schema \<and> cache_ok compile cache'"
proof (cases "map_of cache (validator_key name schema)")
  case None
  then show ?thesis using assms by (auto simp: validator_def cache_ok_Cons split: sum.splits) blast
next
  case (Some v)
  then obtain n s where "validator_key name schema = validator_key n s" "CHR 0x00 \<notin> set s" "compile n s = Inr v"
    using assms(1) map_of_SomeD [OF Some] by (auto simp: cache_ok_def)
  then show ?thesis using Some assms validator_key_inj [of name schema n s] by (auto simp: validator_def)
qed

text \<open>
  The schema cache changes nothing. For every sequence of ad hoc executions on one executor,
  starting with an empty cache, the results are those of an executor that compiles the schema every
  time, as long as the schemas contain no zero byte (which JSON text cannot).
\<close>

theorem adhoc_cache_transparent:
  assumes "\<And>m. CHR 0x00 \<notin> set (bytes m)"
  shows "adhoc_run quote compile bytes calls [] b = uncached_run quote compile bytes calls b"
proof -
  have "cache_ok compile cache \<Longrightarrow> adhoc_run quote compile bytes calls cache b = uncached_run quote compile bytes calls b" for cache
  proof (induction calls arbitrary: cache b)
    case (Cons c cs)
    show ?case
    proof (cases "Normalize (ca_spec c)")
      case (Inl e)
      then show ?thesis using Cons by (simp add: ExecuteAdHoc_def adhoc_uncached_def)
    next
      case (Inr n)
      obtain res cache' where v: "validator compile (ts_Name n) (bytes (ts_InputSchema n)) cache = (res, cache')" by fastforce
      from validator_transparent [OF Cons.prems assms v] Inr v Cons.IH [of cache'] show ?thesis
        by (auto simp: ExecuteAdHoc_def adhoc_uncached_def split: sum.split prod.split)
    qed
  qed simp
  then show ?thesis by (simp add: cache_ok_def)
qed

theorem adhoc_cache_transparent_witness:
  "adhoc_run id (\<lambda>n s. Inr (\<lambda>_. None)) (\<lambda>_. ''{}'') [\<lparr>ca_env = tool_env, ca_request = demo_request, ca_spec = demo_spec, ca_handler = None, ca_validate = None\<rparr>] [] NoBreaker
     = uncached_run id (\<lambda>n s. Inr (\<lambda>_. None)) (\<lambda>_. ''{}'') [\<lparr>ca_env = tool_env, ca_request = demo_request, ca_spec = demo_spec, ca_handler = None, ca_validate = None\<rparr>] NoBreaker"
  by (rule adhoc_cache_transparent) simp

section \<open>Tools as workflow nodes\<close>

definition SourceWorkflow :: string where "SourceWorkflow = ''workflow''"

record ToolNode =
  tn_id :: string
  tn_toolName :: string

text \<open>The part of \<^verbatim>\<open>ExecutionMetadata\<close> a node reads from its context.\<close>

record ExecutionMetadata =
  md_RunID :: string
  md_Source :: string

definition firstExecutionSource :: "string \<Rightarrow> string \<Rightarrow> string" where
  "firstExecutionSource v fallback = (if v \<noteq> [] then v else fallback)"

definition workflowIdempotencyKey :: "string \<Rightarrow> string \<Rightarrow> string \<Rightarrow> string" where
  "workflowIdempotencyKey runID stepID toolName =
     (if runID = [] \<or> stepID = [] \<or> toolName = [] then [] else runID @ '':'' @ stepID @ '':'' @ toolName)"

definition NewSuspensionErrorWithCause :: "string \<Rightarrow> string \<Rightarrow> string \<Rightarrow> (string \<times> gval) list \<Rightarrow> gerr option \<Rightarrow> gerr" where
  "NewSuspensionErrorWithCause nodeID reason resumeToken metadata cause =
     ESuspension \<lparr>su_NodeID = nodeID, su_Reason = reason, su_ResumeToken = resumeToken, su_Metadata = metadata\<rparr> cause"

definition tool_node_request :: "exec_env \<Rightarrow> ExecutionMetadata \<Rightarrow> ToolNode \<Rightarrow> inputs \<Rightarrow> ExecutionRequest" where
  "tool_node_request env metadata tn inputs =
     \<lparr>rq_ToolName = tn_toolName tn, rq_Inputs = inputs,
      rq_Identity = \<lparr>ci_UserID = (case xv_ctx_user env of None \<Rightarrow> 0 | Some u \<Rightarrow> u), ci_Internal = False\<rparr>,
      rq_RunID = md_RunID metadata, rq_StepID = tn_id tn, rq_Source = firstExecutionSource (md_Source metadata) SourceWorkflow,
      rq_IdempotencyKey = workflowIdempotencyKey (md_RunID metadata) (tn_id tn) (tn_toolName tn)\<rparr>"

text \<open>\<open>executor\<close> is \<open>None\<close> for a node without one, and the registry of the executor otherwise.\<close>

definition ToolNode_Execute :: "exec_env \<Rightarrow> (nat \<Rightarrow> handler) \<Rightarrow> ToolRegistry option option \<Rightarrow> ExecutionMetadata \<Rightarrow> ToolNode \<Rightarrow> inputs
    \<Rightarrow> breaker_impl \<Rightarrow> outcome" where
  "ToolNode_Execute env handlers executor metadata tn inputs b = (case executor of
      None \<Rightarrow> (Inl (EMsg (''tool '' @ tn_toolName tn @ '' executor is not configured'')), b, [])
    | Some registry \<Rightarrow>
        (let (res, b', fx) = ExecuteRegistered env handlers registry (tool_node_request env metadata tn inputs) b
         in case res of
              Inr outputs \<Rightarrow> (Inr outputs, b', fx)
            | Inl err \<Rightarrow>
                (case errors_As as_approval_pending err of
                   None \<Rightarrow> (Inl err, b', fx)
                 | Some approvalID \<Rightarrow>
                     (Inl (NewSuspensionErrorWithCause (tn_id tn) ''tool approval required'' []
                        [(''approval_request_id'', GString approvalID), (''tool_name'', GString (tn_toolName tn)),
                         (''idempotency_key'', GString (workflowIdempotencyKey (md_RunID metadata) (tn_id tn) (tn_toolName tn)))] (Some err)), b', fx))))"

lemma errors_As_exec_join:
  assumes "proj (EExec x (EJoin (ESentinel m) e)) = None" "proj (EJoin (ESentinel m) e) = None" "proj (ESentinel m) = None"
  shows "errors_As proj (EExec x (EJoin (ESentinel m) e)) = errors_As proj e"
  using assms by (simp add: errors_As_def)

text \<open>
  A tool that waits for approval suspends its workflow node. When a workflow node runs a
  registered tool that needs approval and the gate answers that the approval is pending, the node's
  error is a suspension that names the node and carries the identity of the approval request and the
  idempotency key; the scheduler files it as suspended and not as failed; neither the handler nor the
  idempotency store nor the breaker has been touched, so that a later run starts from the same place;
  and that run asks the gate with the same idempotency key, whatever its context holds besides the run.
\<close>

theorem tool_node_waits_for_approval:
  fixes env metadata tn inputs t handlers r b
  defines "request \<equiv> tool_node_request env metadata tn inputs"
  defines "out \<equiv> ToolNode_Execute env handlers (Some (Some r)) metadata tn inputs b"
  assumes "registry_Get r (tn_toolName tn) = Some t" "RequiresApproval (rg_Spec t)"
    and "prechecks env request (rg_Spec t) (Some (handlers (rg_Handler t))) (Some (rg_validate t)) = Inr guarded"
    and "xv_authorize env (approval_check request (rg_Spec t) guarded) = Inl gate" "errors_As as_approval_pending gate = Some approvalID"
  shows "(\<exists>err su ev. out = (Inl err, b, [FxAuthorize (approval_check request (rg_Spec t) guarded), FxAudit ev])
      \<and> finish_status (fst (name_suspension (tn_id tn) err)) = (NodeStatusSuspended, ESuspension su None)
      \<and> (tn_id tn \<noteq> [] \<longrightarrow> su_NodeID su = tn_id tn) \<and> (''approval_request_id'', GString approvalID) \<in> set (su_Metadata su)
      \<and> (''idempotency_key'', GString (rq_IdempotencyKey request)) \<in> set (su_Metadata su))
    \<and> (\<forall>env' metadata' inputs'. md_RunID metadata' = md_RunID metadata \<longrightarrow>
         rq_IdempotencyKey (tool_node_request env' metadata' tn inputs') = rq_IdempotencyKey request)"
proof -
  let ?spec = "rg_Spec t" and ?check = "approval_check request (rg_Spec t) guarded"
  let ?cause = "EJoin tool_ErrApprovalRequired gate"
  let ?err = "EExec (fst (exec_failure CodeApprovalRequired ?spec 0 ?cause)) ?cause"
  have n: "rq_ToolName request = tn_toolName tn" by (simp add: request_def tool_node_request_def)
  have "approval_phase env request ?spec guarded = Inl (exec_failure CodeApprovalRequired ?spec 0 ?cause)"
    using assms(4,6) by (simp add: approval_phase_def Let_def)
  then have x: "ExecuteRegistered env handlers (Some r) request b =
      (Inl ?err, b, [FxAuthorize ?check, audit (start_event env request ?spec guarded) ''approval_required'' CodeApprovalRequired 0])"
    using assms(3-5) by (simp add: ExecuteRegistered_def n execute_def Let_def stop_with_def exec_failure_def)
  have "errors_As as_approval_pending ?err = Some approvalID"
    using assms(7) errors_As_exec_join [of as_approval_pending] by (simp add: tool_ErrApprovalRequired_def)
  then have out: "\<exists>su. out = (Inl (ESuspension su (Some ?err)), b, [FxAuthorize ?check, audit (start_event env request ?spec guarded) ''approval_required'' CodeApprovalRequired 0])
      \<and> su_NodeID su = tn_id tn \<and> (''approval_request_id'', GString approvalID) \<in> set (su_Metadata su)
      \<and> (''idempotency_key'', GString (rq_IdempotencyKey request)) \<in> set (su_Metadata su)"
    using x unfolding out_def ToolNode_Execute_def request_def [symmetric]
    by (simp add: NewSuspensionErrorWithCause_def request_def tool_node_request_def)
  then obtain su where su: "out = (Inl (ESuspension su (Some ?err)), b, [FxAuthorize ?check, audit (start_event env request ?spec guarded) ''approval_required'' CodeApprovalRequired 0])"
    "su_NodeID su = tn_id tn" "(''approval_request_id'', GString approvalID) \<in> set (su_Metadata su)"
    "(''idempotency_key'', GString (rq_IdempotencyKey request)) \<in> set (su_Metadata su)" by blast
  have fin: "finish_status (ESuspension su' c) = (NodeStatusSuspended, ESuspension su' None)" for su' c
    by (simp add: finish_status_def errors_As_def)
  have "\<exists>err su ev. out = (Inl err, b, [FxAuthorize ?check, FxAudit ev])
      \<and> finish_status (fst (name_suspension (tn_id tn) err)) = (NodeStatusSuspended, ESuspension su None)
      \<and> (tn_id tn \<noteq> [] \<longrightarrow> su_NodeID su = tn_id tn) \<and> (''approval_request_id'', GString approvalID) \<in> set (su_Metadata su)
      \<and> (''idempotency_key'', GString (rq_IdempotencyKey request)) \<in> set (su_Metadata su)"
    by (intro exI [of _ "ESuspension su (Some ?err)"] exI [of _ "if su_NodeID su = [] then su\<lparr>su_NodeID := tn_id tn\<rparr> else su"])
      (use su in \<open>simp add: audit_def fin\<close>)
  then show ?thesis by (auto simp: request_def tool_node_request_def)
qed

definition demo_tool :: RegisteredTool where
  "demo_tool = \<lparr>rg_Spec = demo_write, rg_Handler = 0, rg_validate = (\<lambda>_. None)\<rparr>"

theorem tool_node_waits_for_approval_witness:
  "\<exists>err fx. ToolNode_Execute (tool_env\<lparr>xv_ctx_user := Some 7, xv_authorize := (\<lambda>_. Inl (EApprovalPending ''a1''))\<rparr>) (\<lambda>_. demo_handler)
      (Some (Some [(''post'', demo_tool)])) \<lparr>md_RunID = ''r'', md_Source = []\<rparr> \<lparr>tn_id = ''n'', tn_toolName = ''post''\<rparr> [] NoBreaker = (Inl err, NoBreaker, fx)
     \<and> fst (finish_status (fst (name_suspension ''n'' err))) = NodeStatusSuspended"
proof -
  let ?env = "tool_env\<lparr>xv_ctx_user := Some 7, xv_authorize := (\<lambda>_. Inl (EApprovalPending ''a1''))\<rparr>"
  let ?md = "\<lparr>md_RunID = ''r'', md_Source = []\<rparr>" and ?tn = "\<lparr>tn_id = ''n'', tn_toolName = ''post''\<rparr>"
  have "registry_Get [(''post'', demo_tool)] (tn_toolName ?tn) = Some demo_tool" by (simp add: registry_Get_def)
  moreover have "RequiresApproval (rg_Spec demo_tool)" by (simp add: demo_tool_def RequiresApproval_def demo_write_def)
  moreover have "prechecks ?env (tool_node_request ?env ?md ?tn []) (rg_Spec demo_tool) (Some demo_handler) (Some (rg_validate demo_tool)) = Inr []"
    by (simp add: demo_tool_def prechecks_def authorizeIdentity_def tool_node_request_def demo_write_def tool_env_def tool_constants)
  moreover have "xv_authorize ?env (approval_check (tool_node_request ?env ?md ?tn []) (rg_Spec demo_tool) []) = Inl (EApprovalPending ''a1'')" by simp
  moreover have "errors_As as_approval_pending (EApprovalPending ''a1'') = Some ''a1''" by (simp add: errors_As_def)
  ultimately have "\<exists>err su ev. ToolNode_Execute ?env (\<lambda>_. demo_handler) (Some (Some [(''post'', demo_tool)])) ?md ?tn [] NoBreaker = (Inl err, NoBreaker, ev)
      \<and> finish_status (fst (name_suspension ''n'' err)) = (NodeStatusSuspended, ESuspension su None)"
    using tool_node_waits_for_approval [where env = ?env and metadata = ?md and tn = ?tn and inputs = "[]" and t = demo_tool and r = "[(''post'', demo_tool)]"
        and handlers = "\<lambda>_. demo_handler" and b = NoBreaker and guarded = "[]" and gate = "EApprovalPending ''a1''" and approvalID = "''a1''"] by auto
  then show ?thesis by (metis fst_conv)
qed

end
