(* ===== verification/Admission.thy ===== *)
theory Admission
  imports Go_Errors
begin

text \<open>
  Admission of runs in one process: \<^verbatim>\<open>src/internal/module/agent/runtime/admission.go\<close>. The critical
  section of \<^verbatim>\<open>Acquire\<close> and of a release runs under the mutex, so that concurrent callers are a sequence
  of operations. A context is what the code reads of it: its error and the admission marker
  of this limiter, if it carries one. The release function is a permit with the state of its
  \<^verbatim>\<open>sync.Once\<close>.
\<close>

section \<open>What admission control promises\<close>

text \<open>
  An admission controller keeps, for every scope (a user, a workflow, a shared slot set), the number
  of runs that hold it, and grants one more only below the limit of the scope. \<open>limit s k = None\<close>
  stands for a scope without a limit.
\<close>

locale admission_control =
  fixes perform :: "'op \<Rightarrow> 's \<Rightarrow> 's"
    and ok :: "'s \<Rightarrow> bool"
    and live :: "'s \<Rightarrow> 'k \<Rightarrow> nat"
    and limit :: "'s \<Rightarrow> 'k \<Rightarrow> nat option"
  assumes ok_perform: "ok s \<Longrightarrow> ok (perform p s)"
    and limit_perform: "limit (perform p s) = limit s"
    and live_perform: "ok s \<Longrightarrow> live s k < live (perform p s) k \<Longrightarrow>
      live (perform p s) k = Suc (live s k) \<and> (\<forall>n. limit s k = Some n \<longrightarrow> live s k < n)"
begin

lemma ok_run: "ok s \<Longrightarrow> ok (fold perform ps s)"
  by (induction ps arbitrary: s) (auto simp: ok_perform)

lemma limit_run: "limit (fold perform ps s) = limit s"
  by (induction ps arbitrary: s) (auto simp: limit_perform)

lemma within_perform:
  assumes "ok s" "limit s k = Some n" "live s k \<le> n"
  shows "live (perform p s) k \<le> n"
  using live_perform [OF assms(1), of k p] assms(2,3) by (cases "live s k < live (perform p s) k") auto

text \<open>No sequence of operations takes a scope over its limit.\<close>

lemma within_run:
  assumes "ok s" "limit s k = Some n" "live s k \<le> n"
  shows "live (fold perform ps s) k \<le> n"
  using assms
proof (induction ps arbitrary: s)
  case (Cons p ps)
  then show ?case using within_perform [OF Cons.prems] ok_perform limit_perform by simp
qed simp

end

section \<open>The limiter\<close>

definition ErrConcurrencyLimitExceeded :: gerr where
  "ErrConcurrencyLimitExceeded = ESentinel ''concurrency limit exceeded''"

record AdmissionRequest =
  aq_UserID :: "64 word"
  aq_WorkflowID :: string

record ConcurrencyLimits =
  lim_MaxPerUser :: int
  lim_MaxPerWorkflow :: int

record InMemoryConcurrencyLimiter =
  lm_limits :: ConcurrencyLimits
  lm_users :: "64 word \<rightharpoonup> int"
  lm_workflows :: "string \<rightharpoonup> int"

record admissionMarker =
  mk_userID :: "64 word"
  mk_workflowID :: string

definition NewInMemoryConcurrencyLimiter :: "ConcurrencyLimits \<Rightarrow> InMemoryConcurrencyLimiter" where
  "NewInMemoryConcurrencyLimiter limits = \<lparr>lm_limits = limits, lm_users = Map.empty, lm_workflows = Map.empty\<rparr>"

text \<open>What \<^verbatim>\<open>Acquire\<close> hands out: a release that does nothing, or one that gives the permit back.\<close>

datatype release = ReleaseNothing | ReleasePermit AdmissionRequest

definition covers :: "admissionMarker \<Rightarrow> AdmissionRequest \<Rightarrow> bool" where
  "covers marker request \<longleftrightarrow> mk_userID marker = aq_UserID request
     \<and> (aq_WorkflowID request = [] \<or> mk_workflowID marker = [] \<or> mk_workflowID marker = aq_WorkflowID request)"

definition take_permit :: "AdmissionRequest \<Rightarrow> InMemoryConcurrencyLimiter \<Rightarrow> InMemoryConcurrencyLimiter" where
  "take_permit request l =
     (let u = aq_UserID request; w = aq_WorkflowID request;
          l1 = (if u \<noteq> 0 then l\<lparr>lm_users := (lm_users l)(u \<mapsto> map_get 0 (lm_users l) u + 1)\<rparr> else l)
      in if w \<noteq> [] then l1\<lparr>lm_workflows := (lm_workflows l1)(w \<mapsto> map_get 0 (lm_workflows l1) w + 1)\<rparr> else l1)"

definition Acquire :: "gerr option \<Rightarrow> admissionMarker option \<Rightarrow> AdmissionRequest \<Rightarrow> InMemoryConcurrencyLimiter option
    \<Rightarrow> (gerr + admissionMarker option \<times> release) \<times> InMemoryConcurrencyLimiter option" where
  "Acquire ctx_err marker request limiter = (case limiter of
      None \<Rightarrow> (Inr (marker, ReleaseNothing), None)
    | Some l \<Rightarrow>
        (case ctx_err of
           Some err \<Rightarrow> (Inl err, Some l)
         | None \<Rightarrow>
             if \<exists>mk \<in> set_option marker. covers mk request then (Inr (marker, ReleaseNothing), Some l)
             else
               let u = aq_UserID request; w = aq_WorkflowID request; limits = lm_limits l
               in if u \<noteq> 0 \<and> 0 < lim_MaxPerUser limits \<and> lim_MaxPerUser limits \<le> map_get 0 (lm_users l) u
                  then (Inl (ENote ErrConcurrencyLimitExceeded '': user run quota''), Some l)
                  else if w \<noteq> [] \<and> 0 < lim_MaxPerWorkflow limits \<and> lim_MaxPerWorkflow limits \<le> map_get 0 (lm_workflows l) w
                  then (Inl (ENote ErrConcurrencyLimitExceeded '': workflow run quota''), Some l)
                  else (Inr (Some \<lparr>mk_userID = u, mk_workflowID = w\<rparr>, ReleasePermit request), Some (take_permit request l))))"

definition decrementAdmission :: "'k \<Rightarrow> ('k \<rightharpoonup> int) \<Rightarrow> ('k \<rightharpoonup> int)" where
  "decrementAdmission key counts = (if map_get 0 counts key \<le> 1 then counts(key := None) else counts(key \<mapsto> map_get 0 counts key - 1))"

definition release_permit :: "AdmissionRequest \<Rightarrow> InMemoryConcurrencyLimiter \<Rightarrow> InMemoryConcurrencyLimiter" where
  "release_permit request l = l\<lparr>lm_users := decrementAdmission (aq_UserID request) (lm_users l),
     lm_workflows := decrementAdmission (aq_WorkflowID request) (lm_workflows l)\<rparr>"

section \<open>Callers\<close>

text \<open>The permits handed out, with whether they are still open; a release may be called again.\<close>

record admission_world =
  aw_limiter :: InMemoryConcurrencyLimiter
  aw_permits :: "(AdmissionRequest \<times> bool) list"

datatype admission_op = OpAcquire "gerr option" "admissionMarker option" AdmissionRequest | OpRelease nat

fun adm_step :: "admission_op \<Rightarrow> admission_world \<Rightarrow> (gerr + admissionMarker option \<times> release) option \<times> admission_world" where
  "adm_step (OpAcquire ctx_err marker request) a =
     (let (res, l) = Acquire ctx_err marker request (Some (aw_limiter a));
          permits = (case res of Inr (mk, ReleasePermit r) \<Rightarrow> aw_permits a @ [(r, True)] | _ \<Rightarrow> aw_permits a)
      in (Some res, \<lparr>aw_limiter = the l, aw_permits = permits\<rparr>))"
| "adm_step (OpRelease k) a =
     (None, if k < length (aw_permits a) \<and> snd (aw_permits a ! k)
            then \<lparr>aw_limiter = release_permit (fst (aw_permits a ! k)) (aw_limiter a), aw_permits = (aw_permits a)[k := (fst (aw_permits a ! k), False)]\<rparr>
            else a)"

definition new_world :: "ConcurrencyLimits \<Rightarrow> admission_world" where
  "new_world limits = \<lparr>aw_limiter = NewInMemoryConcurrencyLimiter limits, aw_permits = []\<rparr>"

section \<open>The specification\<close>

text \<open>The specification has no counters: it looks at the open permits.\<close>

definition open_users :: "(AdmissionRequest \<times> bool) list \<Rightarrow> 64 word \<Rightarrow> nat" where
  "open_users permits u = length (filter (\<lambda>(r, alive). alive \<and> aq_UserID r = u) permits)"

definition open_workflows :: "(AdmissionRequest \<times> bool) list \<Rightarrow> string \<Rightarrow> nat" where
  "open_workflows permits w = length (filter (\<lambda>(r, alive). alive \<and> aq_WorkflowID r = w) permits)"

fun spec_step :: "ConcurrencyLimits \<Rightarrow> admission_op \<Rightarrow> (AdmissionRequest \<times> bool) list
    \<Rightarrow> (gerr + admissionMarker option \<times> release) option \<times> (AdmissionRequest \<times> bool) list" where
  "spec_step limits (OpAcquire ctx_err marker request) permits = (case ctx_err of
      Some err \<Rightarrow> (Some (Inl err), permits)
    | None \<Rightarrow>
        if \<exists>mk \<in> set_option marker. covers mk request then (Some (Inr (marker, ReleaseNothing)), permits)
        else if aq_UserID request \<noteq> 0 \<and> 0 < lim_MaxPerUser limits \<and> lim_MaxPerUser limits \<le> int (open_users permits (aq_UserID request))
        then (Some (Inl (ENote ErrConcurrencyLimitExceeded '': user run quota'')), permits)
        else if aq_WorkflowID request \<noteq> [] \<and> 0 < lim_MaxPerWorkflow limits \<and> lim_MaxPerWorkflow limits \<le> int (open_workflows permits (aq_WorkflowID request))
        then (Some (Inl (ENote ErrConcurrencyLimitExceeded '': workflow run quota'')), permits)
        else (Some (Inr (Some \<lparr>mk_userID = aq_UserID request, mk_workflowID = aq_WorkflowID request\<rparr>, ReleasePermit request)), permits @ [(request, True)]))"
| "spec_step limits (OpRelease k) permits =
     (None, if k < length permits then permits[k := (fst (permits ! k), False)] else permits)"

text \<open>The counters agree with the open permits.\<close>

definition counters_ok :: "admission_world \<Rightarrow> bool" where
  "counters_ok a \<longleftrightarrow>
     (\<forall>u. map_get 0 (lm_users (aw_limiter a)) u = (if u = 0 then 0 else int (open_users (aw_permits a) u)))
   \<and> (\<forall>w. map_get 0 (lm_workflows (aw_limiter a)) w = (if w = [] then 0 else int (open_workflows (aw_permits a) w)))"

lemma decrement_get:
  "0 \<le> map_get 0 counts key \<Longrightarrow> map_get 0 (decrementAdmission key counts) k = (if k = key then max 0 (map_get 0 counts key - 1) else map_get 0 counts k)"
  by (auto simp: decrementAdmission_def map_get_def split: option.splits)

lemma length_filter_list_update:
  assumes "k < length xs" "P (xs ! k)" "\<not> P y"
  shows "Suc (length (filter P (xs[k := y]))) = length (filter P xs)"
  using assms by (induction xs arbitrary: k) (auto split: nat.splits simp: less_Suc_eq_0_disj nth_Cons')

lemma length_filter_list_update_same:
  assumes "k < length xs" "P (xs ! k) = P y"
  shows "length (filter P (xs[k := y])) = length (filter P xs)"
  using assms by (induction xs arbitrary: k) (auto split: nat.splits simp: less_Suc_eq_0_disj nth_Cons')

lemma open_close:
  assumes "k < length permits" "permits ! k = (r, True)"
  shows "open_users permits u = open_users (permits[k := (r, False)]) u + (if aq_UserID r = u then 1 else 0)"
    "open_workflows permits w = open_workflows (permits[k := (r, False)]) w + (if aq_WorkflowID r = w then 1 else 0)"
  unfolding open_users_def open_workflows_def
  using assms length_filter_list_update [of k permits "\<lambda>(r, alive). alive \<and> aq_UserID r = u" "(r, False)"]
    length_filter_list_update_same [of k permits "\<lambda>(r, alive). alive \<and> aq_UserID r = u" "(r, False)"]
    length_filter_list_update [of k permits "\<lambda>(r, alive). alive \<and> aq_WorkflowID r = w" "(r, False)"]
    length_filter_list_update_same [of k permits "\<lambda>(r, alive). alive \<and> aq_WorkflowID r = w" "(r, False)"]
  by auto

lemma open_snoc [simp]:
  "open_users (permits @ [(r, True)]) u = open_users permits u + (if aq_UserID r = u then 1 else 0)"
  "open_workflows (permits @ [(r, True)]) w = open_workflows permits w + (if aq_WorkflowID r = w then 1 else 0)"
  by (auto simp: open_users_def open_workflows_def)

lemma release_keeps:
  assumes "counters_ok a" "k < length (aw_permits a)" "aw_permits a ! k = (r, True)"
  shows "counters_ok \<lparr>aw_limiter = release_permit r (aw_limiter a), aw_permits = (aw_permits a)[k := (r, False)]\<rparr>"
  using assms(1) open_close [OF assms(2,3)]
  by (auto simp: counters_ok_def release_permit_def decrement_get split: if_splits)

lemma take_keeps:
  assumes "counters_ok a"
  shows "counters_ok \<lparr>aw_limiter = take_permit r (aw_limiter a), aw_permits = aw_permits a @ [(r, True)]\<rparr>"
proof -
  have u: "map_get 0 (lm_users (take_permit r l)) x = map_get 0 (lm_users l) x + (if x = aq_UserID r \<and> x \<noteq> 0 then 1 else 0)" for l x
    by (simp add: take_permit_def Let_def map_get_def)
  have w: "map_get 0 (lm_workflows (take_permit r l)) x = map_get 0 (lm_workflows l) x + (if x = aq_WorkflowID r \<and> x \<noteq> [] then 1 else 0)" for l x
    by (simp add: take_permit_def Let_def map_get_def)
  show ?thesis using assms by (simp add: counters_ok_def u w)
qed

lemma permit_limits [simp]: "lm_limits (take_permit r l) = lm_limits l" "lm_limits (release_permit r l) = lm_limits l"
  by (simp_all add: take_permit_def release_permit_def Let_def)

text \<open>One operation of the limiter is one operation of the specification.\<close>

lemma acquire_refines:
  assumes "counters_ok a" "adm_step (OpAcquire ctx_err marker request) a = (res, a')"
  shows "spec_step (lm_limits (aw_limiter a)) (OpAcquire ctx_err marker request) (aw_permits a) = (res, aw_permits a')
    \<and> (a' = a \<or> a' = \<lparr>aw_limiter = take_permit request (aw_limiter a), aw_permits = aw_permits a @ [(request, True)]\<rparr>)"
proof -
  let ?u = "aq_UserID request" and ?w = "aq_WorkflowID request" and ?l = "aw_limiter a"
  have get: "?u \<noteq> 0 \<Longrightarrow> map_get 0 (lm_users ?l) ?u = int (open_users (aw_permits a) ?u)"
    "?w \<noteq> [] \<Longrightarrow> map_get 0 (lm_workflows ?l) ?w = int (open_workflows (aw_permits a) ?w)"
    using assms(1) by (simp_all add: counters_ok_def)
  show ?thesis
  proof (cases "ctx_err \<noteq> None \<or> (\<exists>mk \<in> set_option marker. covers mk request)")
    case True
    then show ?thesis using assms(2) by (cases ctx_err) (auto simp: Acquire_def)
  next
    case False
    then show ?thesis using assms(2) get by (cases "?u = 0"; cases "?w = []") (auto simp: Acquire_def Let_def)
  qed
qed

lemma adm_step_refines:
  assumes "counters_ok a" "adm_step p a = (res, a')"
  shows "spec_step (lm_limits (aw_limiter a)) p (aw_permits a) = (res, aw_permits a') \<and> counters_ok a' \<and> lm_limits (aw_limiter a') = lm_limits (aw_limiter a)"
proof (cases p)
  case (OpAcquire ctx_err marker request)
  then show ?thesis using acquire_refines [OF assms(1), of ctx_err marker request res a'] assms take_keeps [OF assms(1), of request] by auto
next
  case (OpRelease k)
  show ?thesis
  proof (cases "k < length (aw_permits a) \<and> snd (aw_permits a ! k)")
    case True
    then have r: "aw_permits a ! k = (fst (aw_permits a ! k), True)" by (metis prod.collapse)
    show ?thesis using True OpRelease assms(2) release_keeps [OF assms(1) _ r] by auto
  next
    case False
    moreover have "permits[k := (fst (permits ! k), False)] = permits" if "k < length permits" "\<not> snd (permits ! k)" for permits :: "(AdmissionRequest \<times> bool) list"
      using that by (metis list_update_id prod.collapse)
    ultimately show ?thesis using OpRelease assms by auto
  qed
qed

section \<open>The limiter keeps its promise\<close>

datatype admission_scope = UserScope "64 word" | WorkflowScope string

fun live_permits :: "admission_world \<Rightarrow> admission_scope \<Rightarrow> nat" where
  "live_permits a (UserScope u) = open_users (aw_permits a) u"
| "live_permits a (WorkflowScope w) = open_workflows (aw_permits a) w"

fun scope_limit :: "admission_world \<Rightarrow> admission_scope \<Rightarrow> nat option" where
  "scope_limit a (UserScope u) = (let n = lim_MaxPerUser (lm_limits (aw_limiter a)) in if u \<noteq> 0 \<and> 0 < n then Some (nat n) else None)"
| "scope_limit a (WorkflowScope w) = (let n = lim_MaxPerWorkflow (lm_limits (aw_limiter a)) in if w \<noteq> [] \<and> 0 < n then Some (nat n) else None)"

lemma spec_step_live:
  assumes "spec_step limits p permits = (res, permits')"
  shows "open_users permits u < open_users permits' u \<Longrightarrow> open_users permits' u = Suc (open_users permits u)
      \<and> (u \<noteq> 0 \<and> 0 < lim_MaxPerUser limits \<longrightarrow> int (open_users permits u) < lim_MaxPerUser limits)"
    and "open_workflows permits w < open_workflows permits' w \<Longrightarrow> open_workflows permits' w = Suc (open_workflows permits w)
      \<and> (w \<noteq> [] \<and> 0 < lim_MaxPerWorkflow limits \<longrightarrow> int (open_workflows permits w) < lim_MaxPerWorkflow limits)"
proof -
  have rel: "open_users (xs[k := (fst (xs ! k), False)]) u \<le> open_users xs u \<and> open_workflows (xs[k := (fst (xs ! k), False)]) w \<le> open_workflows xs w"
    if "k < length xs" for xs :: "(AdmissionRequest \<times> bool) list" and k
  proof (cases "snd (xs ! k)")
    case True
    then have "xs ! k = (fst (xs ! k), True)" by (metis prod.collapse)
    from open_close [OF that this] show ?thesis by simp
  next
    case False
    then have "xs[k := (fst (xs ! k), False)] = xs" by (metis list_update_id prod.collapse)
    then show ?thesis by simp
  qed
  show "open_users permits u < open_users permits' u \<Longrightarrow> open_users permits' u = Suc (open_users permits u)
      \<and> (u \<noteq> 0 \<and> 0 < lim_MaxPerUser limits \<longrightarrow> int (open_users permits u) < lim_MaxPerUser limits)"
    using assms rel by (cases p) (fastforce split: option.splits if_splits)+
  show "open_workflows permits w < open_workflows permits' w \<Longrightarrow> open_workflows permits' w = Suc (open_workflows permits w)
      \<and> (w \<noteq> [] \<and> 0 < lim_MaxPerWorkflow limits \<longrightarrow> int (open_workflows permits w) < lim_MaxPerWorkflow limits)"
    using assms rel by (cases p) (fastforce split: option.splits if_splits)+
qed

interpretation in_memory: admission_control "\<lambda>p a. snd (adm_step p a)" counters_ok live_permits scope_limit
proof
  fix a p k
  obtain res a' where s: "adm_step p a = (res, a')" by fastforce
  show "counters_ok a \<Longrightarrow> counters_ok (snd (adm_step p a))" using adm_step_refines [OF _ s] s by simp
  have l: "lm_limits (aw_limiter (snd (adm_step p a))) = lm_limits (aw_limiter a)"
    by (cases p) (auto simp: Acquire_def Let_def split: option.splits)
  show "scope_limit (snd (adm_step p a)) = scope_limit a"
  proof
    fix x show "scope_limit (snd (adm_step p a)) x = scope_limit a x" using l by (cases x) (simp_all add: Let_def)
  qed
  show "live_permits (snd (adm_step p a)) k = Suc (live_permits a k) \<and> (\<forall>n. scope_limit a k = Some n \<longrightarrow> live_permits a k < n)"
    if "counters_ok a" "live_permits a k < live_permits (snd (adm_step p a)) k"
  proof -
    from adm_step_refines [OF that(1) s] have "spec_step (lm_limits (aw_limiter a)) p (aw_permits a) = (res, aw_permits a')" by blast
    note live = spec_step_live [OF this]
    show ?thesis
    proof (cases k)
      case (UserScope u)
      then show ?thesis using live(1) [of u] that(2) s by (auto simp: Let_def split: if_splits)
    next
      case (WorkflowScope w)
      then show ?thesis using live(2) [of w] that(2) s by (auto simp: Let_def split: if_splits)
    qed
  qed
qed

fun adm_run :: "admission_op list \<Rightarrow> admission_world \<Rightarrow> (gerr + admissionMarker option \<times> release) option list \<times> admission_world" where
  "adm_run [] a = ([], a)"
| "adm_run (p # ps) a = (let (r, a1) = adm_step p a; (rs, a2) = adm_run ps a1 in (r # rs, a2))"

fun spec_run :: "ConcurrencyLimits \<Rightarrow> admission_op list \<Rightarrow> (AdmissionRequest \<times> bool) list
    \<Rightarrow> (gerr + admissionMarker option \<times> release) option list \<times> (AdmissionRequest \<times> bool) list" where
  "spec_run limits [] permits = ([], permits)"
| "spec_run limits (p # ps) permits =
     (let (r, permits1) = spec_step limits p permits; (rs, permits2) = spec_run limits ps permits1 in (r # rs, permits2))"

lemma adm_run_refines:
  "counters_ok a \<Longrightarrow> adm_run ps a = (rs, a') \<Longrightarrow> spec_run (lm_limits (aw_limiter a)) ps (aw_permits a) = (rs, aw_permits a')
     \<and> a' = fold (\<lambda>p a. snd (adm_step p a)) ps a"
proof (induction ps arbitrary: a rs)
  case (Cons p ps)
  obtain r a1 where s: "adm_step p a = (r, a1)" by fastforce
  note S = adm_step_refines [OF Cons.prems(1) s]
  obtain rs1 a2 where t: "adm_run ps a1 = (rs1, a2)" by fastforce
  show ?case using Cons.IH [of a1 rs1] S Cons.prems(2) s t by auto
qed simp

lemma new_world_ok: "counters_ok (new_world limits)"
  by (simp add: counters_ok_def new_world_def NewInMemoryConcurrencyLimiter_def map_get_def open_users_def open_workflows_def)

text \<open>
  C37. The limiter refines a specification without counters. Take any sequence of acquisitions, by
  any users for any workflows and from any contexts, and of releases, each perhaps repeated, on
  a new limiter. Its answers are those of the specification, which only looks at the permits that
  are still open: refused exactly when the user or the workflow has as many open permits as the
  limit. And at the end no user and no workflow holds more permits than its limit.
\<close>

theorem limiter_refines_spec:
  assumes "adm_run ops (new_world limits) = (rs, a)"
  shows "spec_run limits ops [] = (rs, aw_permits a)
    \<and> (\<forall>u. u \<noteq> 0 \<and> 0 < lim_MaxPerUser limits \<longrightarrow> int (open_users (aw_permits a) u) \<le> lim_MaxPerUser limits)
    \<and> (\<forall>w. w \<noteq> [] \<and> 0 < lim_MaxPerWorkflow limits \<longrightarrow> int (open_workflows (aw_permits a) w) \<le> lim_MaxPerWorkflow limits)"
proof -
  let ?n = "new_world limits"
  have e: "lm_limits (aw_limiter ?n) = limits" "aw_permits ?n = []" by (simp_all add: new_world_def NewInMemoryConcurrencyLimiter_def)
  note R = adm_run_refines [OF new_world_ok assms]
  have z: "live_permits ?n k = 0" for k by (cases k) (simp_all add: e open_users_def open_workflows_def)
  have within: "live_permits a k \<le> n" if "scope_limit ?n k = Some n" for k n
    using in_memory.within_run [OF new_world_ok that, of ops] R z by simp
  have "u \<noteq> 0 \<and> 0 < lim_MaxPerUser limits \<Longrightarrow> int (open_users (aw_permits a) u) \<le> lim_MaxPerUser limits" for u
    using within [of "UserScope u" "nat (lim_MaxPerUser limits)"] e(1) by (simp add: Let_def) linarith
  moreover have "w \<noteq> [] \<and> 0 < lim_MaxPerWorkflow limits \<Longrightarrow> int (open_workflows (aw_permits a) w) \<le> lim_MaxPerWorkflow limits" for w
    using within [of "WorkflowScope w" "nat (lim_MaxPerWorkflow limits)"] e(1) by (simp add: Let_def) linarith
  ultimately show ?thesis using R e by auto
qed

theorem limiter_refines_spec_witness:
  "\<exists>a. adm_run [OpAcquire None None \<lparr>aq_UserID = 7, aq_WorkflowID = ''w''\<rparr>, OpAcquire None None \<lparr>aq_UserID = 7, aq_WorkflowID = []\<rparr>,
        OpRelease 0, OpRelease 0, OpAcquire None None \<lparr>aq_UserID = 7, aq_WorkflowID = []\<rparr>] (new_world \<lparr>lim_MaxPerUser = 1, lim_MaxPerWorkflow = 0\<rparr>)
      = ([Some (Inr (Some \<lparr>mk_userID = 7, mk_workflowID = ''w''\<rparr>, ReleasePermit \<lparr>aq_UserID = 7, aq_WorkflowID = ''w''\<rparr>)),
          Some (Inl (ENote ErrConcurrencyLimitExceeded '': user run quota'')), None, None,
          Some (Inr (Some \<lparr>mk_userID = 7, mk_workflowID = []\<rparr>, ReleasePermit \<lparr>aq_UserID = 7, aq_WorkflowID = []\<rparr>))], a)
    \<and> int (open_users (aw_permits a) 7) \<le> 1"
proof -
  obtain rs a where r: "adm_run [OpAcquire None None \<lparr>aq_UserID = 7, aq_WorkflowID = ''w''\<rparr>, OpAcquire None None \<lparr>aq_UserID = 7, aq_WorkflowID = []\<rparr>,
        OpRelease 0, OpRelease 0, OpAcquire None None \<lparr>aq_UserID = 7, aq_WorkflowID = []\<rparr>] (new_world \<lparr>lim_MaxPerUser = 1, lim_MaxPerWorkflow = 0\<rparr>) = (rs, a)"
    by fastforce
  from limiter_refines_spec [OF r] r show ?thesis by (auto simp: open_users_def open_workflows_def)
qed

end
