(* ===== verification/Shared_Admission.thy ===== *)
theory Shared_Admission
  imports Admission "HOL-Library.AList"
begin

text \<open>
  Admission shared by all processes: \<^verbatim>\<open>src/internal/module/agent/admission/shared.go\<close> and
  \<^verbatim>\<open>admission/provider.go\<close>. The decisions are made by a Lua script that the store runs atomically; the
  script is modelled with the few Redis commands it uses, on strings, sorted sets and hashes. The
  clock is the store's, in milliseconds. Key expiry is not modelled: a sorted set expires three
  leases after its last member was added, when all its members are stale, and the budget hash two
  minutes after its bucket began to be used, when the bucket is over. Lua's numbers stay below
  \<open>2 ^ 53\<close> here and are integers.
\<close>

section \<open>Redis values\<close>

text \<open>A sorted set is its members with their scores; no member occurs twice.\<close>

datatype redis_value = RString string | RZset "(string \<times> int) list" | RHash "string \<rightharpoonup> string"

type_synonym redis = "string \<rightharpoonup> redis_value"

fun zset_ok :: "redis_value option \<Rightarrow> bool" where
  "zset_ok None = True" | "zset_ok (Some (RZset z)) = True" | "zset_ok _ = False"

fun zset_members :: "redis_value option \<Rightarrow> (string \<times> int) list" where
  "zset_members (Some (RZset z)) = z" | "zset_members _ = []"

definition zcount_after :: "int \<Rightarrow> (string \<times> int) list \<Rightarrow> nat" where
  "zcount_after ms z = length (filter (\<lambda>(t, score). ms < score) z)"

definition zrem :: "string \<Rightarrow> string \<Rightarrow> redis \<Rightarrow> redis" where
  "zrem k token st = st(k \<mapsto> RZset (filter (\<lambda>(t, score). t \<noteq> token) (zset_members (st k))))"

definition zadd :: "string \<Rightarrow> int \<Rightarrow> string \<Rightarrow> redis \<Rightarrow> redis" where
  "zadd k score token st = st(k \<mapsto> RZset (AList.update token score (zset_members (st k))))"

definition zpurge :: "string \<Rightarrow> int \<Rightarrow> redis \<Rightarrow> redis" where
  "zpurge k ms st = st(k \<mapsto> RZset (filter (\<lambda>(t, score). ms < score) (zset_members (st k))))"

fun hash_kind_ok :: "redis_value option \<Rightarrow> bool" where
  "hash_kind_ok None = True" | "hash_kind_ok (Some (RHash h)) = True" | "hash_kind_ok _ = False"

fun hash_fields :: "redis_value option \<Rightarrow> string \<rightharpoonup> string" where
  "hash_fields (Some (RHash h)) = h" | "hash_fields _ = Map.empty"

text \<open>A field of the budget hash that the script accepts: one to sixteen decimal digits.\<close>

fun digits_value :: "nat \<Rightarrow> string \<Rightarrow> nat option" where
  "digits_value acc [] = Some acc"
| "digits_value acc (c # cs) = (if ascii_digit c then digits_value (10 * acc + (of_char c - 48)) cs else None)"

definition budget_field :: "string option \<Rightarrow> nat option" where
  "budget_field f = (case f of None \<Rightarrow> None | Some s \<Rightarrow> if s = [] \<or> 16 < length s then None else digits_value 0 s)"

section \<open>The lease script\<close>

record lease_args =
  la_action :: string
  la_digest :: string
  la_token :: string
  la_lease :: int
  la_tokens :: int
  la_cost :: int
  la_maxTokens :: int
  la_maxCost :: int

text \<open>
  What the minute bucket has used so far: \<open>None\<close> is the script's answer -1.
\<close>

definition budget_used :: "int \<Rightarrow> redis_value option \<Rightarrow> (int \<times> int) option" where
  "budget_used bucket v =
     (let h = hash_fields v
      in case h ''bucket'' of
           None \<Rightarrow> if v = None then Some (0, 0) else None
         | Some raw \<Rightarrow>
             (case (budget_field (Some raw), budget_field (h ''tokens''), budget_field (h ''cost'')) of
                (Some prior, Some tokens, Some cost) \<Rightarrow>
                  if bucket < int prior then None
                  else if int prior = bucket then Some (int tokens, int cost) else Some (0, 0)
              | _ \<Rightarrow> None))"

definition grant_slots :: "int \<Rightarrow> int \<Rightarrow> string \<Rightarrow> string list \<Rightarrow> redis \<Rightarrow> redis" where
  "grant_slots ms lease token keys st = fold (\<lambda>k st. zadd k (ms + lease) token (zpurge k ms st)) keys st"

definition spend_budget :: "string \<Rightarrow> int \<Rightarrow> int \<Rightarrow> int \<Rightarrow> redis \<Rightarrow> redis" where
  "spend_budget k bucket tokens cost st =
     st(k \<mapsto> RHash ((hash_fields (st k))(''bucket'' \<mapsto> show_int bucket, ''tokens'' \<mapsto> show_int tokens, ''cost'' \<mapsto> show_int cost)))"

text \<open>\<open>scopes\<close> are the keys after the first two, each with its limit.\<close>

definition leaseScript :: "int \<Rightarrow> lease_args \<Rightarrow> string \<Rightarrow> string \<Rightarrow> (string \<times> int) list \<Rightarrow> redis \<Rightarrow> int \<times> redis" where
  "leaseScript ms a ready budget scopes st =
     (let keys = map fst scopes
      in if st ready \<noteq> Some (RString (la_digest a)) then (-1, st)
         else if \<not> hash_kind_ok (st budget) then (-1, st)
         else if \<exists>k\<in>set keys. \<not> zset_ok (st k) \<or> 2048 < length (zset_members (st k)) then (-1, st)
         else if la_action a = ''release'' then (1, fold (\<lambda>k. zrem k (la_token a)) keys st)
         else if la_action a = ''renew''
         then if \<exists>k\<in>set keys. (case map_of (zset_members (st k)) (la_token a) of None \<Rightarrow> True | Some score \<Rightarrow> score \<le> ms) then (-3, st)
              else (1, fold (\<lambda>k. zadd k (ms + la_lease a) (la_token a)) keys st)
         else if \<exists>(k, limit)\<in>set scopes. limit \<le> int (zcount_after ms (zset_members (st k))) then (-2, st)
         else if 0 < la_tokens a
         then let bucket = ms div 60000
              in case budget_used bucket (st budget) of
                   None \<Rightarrow> (-1, st)
                 | Some (usedTokens, usedCost) \<Rightarrow>
                     if la_maxTokens a < usedTokens + la_tokens a \<or> 0 < la_maxCost a \<and> la_maxCost a < usedCost + la_cost a then (-4, st)
                     else (1, spend_budget budget bucket (usedTokens + la_tokens a) (usedCost + la_cost a) (grant_slots ms (la_lease a) (la_token a) keys st))
         else (1, grant_slots ms (la_lease a) (la_token a) keys st))"

definition initializeScript :: "string \<Rightarrow> string \<Rightarrow> redis \<Rightarrow> int \<times> redis" where
  "initializeScript ready digest st = (case st ready of
      None \<Rightarrow> (1, st(ready \<mapsto> RString digest))
    | Some (RString old) \<Rightarrow> if old \<noteq> digest then (0, st) else (1, st)
    | Some _ \<Rightarrow> (0, st))"

section \<open>Configuration and clients\<close>

definition ErrUnavailable :: gerr where "ErrUnavailable = ESentinel ''shared admission unavailable''"
definition ErrLeaseLost :: gerr where "ErrLeaseLost = ESentinel ''shared admission lease lost''"
definition ErrBudgetExceeded :: gerr where "ErrBudgetExceeded = ESentinel ''shared provider reservation budget exceeded''"

record Config =
  cf_Namespace :: string
  cf_Lease :: int
  cf_MaxRuns :: int
  cf_MaxPerUser :: int
  cf_MaxPerWorkflow :: int
  cf_MaxProviderCalls :: int
  cf_MaxPerProvider :: int
  cf_MaxTokensPerMinute :: int
  cf_MaxCostMicrosPerMinute :: int
  cf_OutputTokenLimit :: int
  cf_CostMicrosPerToken :: int

definition DefaultConfig :: Config where
  "DefaultConfig = \<lparr>cf_Namespace = ''agent-v1'', cf_Lease = 30 * 1000000000, cf_MaxRuns = 64, cf_MaxPerUser = 2, cf_MaxPerWorkflow = 2,
     cf_MaxProviderCalls = 8, cf_MaxPerProvider = 8, cf_MaxTokensPerMinute = 250000, cf_MaxCostMicrosPerMinute = 0,
     cf_OutputTokenLimit = 4096, cf_CostMicrosPerToken = 0\<rparr>"

definition Config_Validate :: "Config \<Rightarrow> gerr option" where
  "Config_Validate c =
     (if cf_Namespace c = [] \<or> 128 < length (cf_Namespace c) \<or> cf_Lease c < 6 * 1000000000 \<or> 60 * 1000000000 < cf_Lease c
         \<or> cf_OutputTokenLimit c < 1 \<or> 32768 < cf_OutputTokenLimit c \<or> cf_MaxTokensPerMinute c < 1 \<or> 1000000000 < cf_MaxTokensPerMinute c
         \<or> cf_MaxCostMicrosPerMinute c < 0 \<or> 1000000000000 < cf_MaxCostMicrosPerMinute c
         \<or> cf_CostMicrosPerToken c < 0 \<or> 1000000 < cf_CostMicrosPerToken c
      then Some (EMsg ''invalid shared admission policy'')
      else if \<exists>limit\<in>{cf_MaxRuns c, cf_MaxPerUser c, cf_MaxPerWorkflow c, cf_MaxProviderCalls c, cf_MaxPerProvider c}. limit < 1 \<or> 1024 < limit
      then Some (EMsg ''invalid shared concurrency limit'')
      else if 0 < cf_MaxCostMicrosPerMinute c \<and> cf_CostMicrosPerToken c = 0
      then Some (EMsg ''cost reservation requires explicit upper pricing bound'')
      else None)"

text \<open>\<^verbatim>\<open>Shared\<close>: \<open>sd_hash\<close> is SHA-256 in hexadecimal, \<open>sd_digest\<close> the digest of the configuration.\<close>

record Shared =
  sd_config :: Config
  sd_prefix :: string
  sd_digest :: string
  sd_hash :: "string \<Rightarrow> string"

definition New :: "(string \<Rightarrow> string) \<Rightarrow> (Config \<Rightarrow> string) \<Rightarrow> bool \<Rightarrow> Config \<Rightarrow> gerr + Shared" where
  "New hash json_config client config =
     (if \<not> client then Inl ErrUnavailable
      else case Config_Validate config of
             Some err \<Rightarrow> Inl err
           | None \<Rightarrow> Inr \<lparr>sd_config = config, sd_prefix = ''agent:admission:{'' @ hash (cf_Namespace config) @ ''}:'',
               sd_digest = hash (json_config config), sd_hash = hash\<rparr>)"

definition shared_key :: "Shared \<Rightarrow> string \<Rightarrow> string" where
  "shared_key s name = sd_prefix s @ ''scope:'' @ sd_hash s name"

definition ready_key :: "Shared \<Rightarrow> string" where "ready_key s = sd_prefix s @ ''ready''"
definition budget_key :: "Shared \<Rightarrow> string" where "budget_key s = sd_prefix s @ ''provider-budget''"

definition shared_Initialize :: "Shared \<Rightarrow> redis \<Rightarrow> gerr option \<times> redis" where
  "shared_Initialize s st =
     (let (result, st') = initializeScript (ready_key s) (sd_digest s) st in (if result \<noteq> 1 then Some ErrUnavailable else None, st'))"

definition shared_Ready :: "Shared \<Rightarrow> redis \<Rightarrow> gerr option" where
  "shared_Ready s st = (if st (ready_key s) = Some (RString (sd_digest s)) then None else Some ErrUnavailable)"

type_synonym scope = "string \<times> int"

definition run_scopes :: "Config \<Rightarrow> AdmissionRequest \<Rightarrow> scope list" where
  "run_scopes c request =
     [(''runs'', cf_MaxRuns c)]
     @ (if aq_UserID request \<noteq> 0 then [(''user:'' @ show_nat (unat (aq_UserID request)), cf_MaxPerUser c)] else [])
     @ (if aq_WorkflowID request \<noteq> [] then [(''workflow:'' @ aq_WorkflowID request, cf_MaxPerWorkflow c)] else [])"

text \<open>The scopes not covered by the context; the names of a request are pairwise different.\<close>

definition needed_scopes :: "string set \<Rightarrow> scope list \<Rightarrow> scope list" where
  "needed_scopes covered scopes = filter (\<lambda>(name, limit). name \<notin> covered) scopes"

definition script_error :: "int \<Rightarrow> gerr option" where
  "script_error result =
     (if result = 1 then None else if result = -2 then Some ErrConcurrencyLimitExceeded else if result = -3 then Some ErrLeaseLost
      else if result = -4 then Some ErrBudgetExceeded else Some ErrUnavailable)"

text \<open>One run of the script by a client for the token and the scopes of one lease.\<close>

definition lease_execute :: "Shared \<Rightarrow> int \<Rightarrow> string \<Rightarrow> string \<Rightarrow> scope list \<Rightarrow> int \<Rightarrow> int \<Rightarrow> redis \<Rightarrow> gerr option \<times> redis" where
  "lease_execute s ms action token scopes tokens cost st =
     (let c = sd_config s;
          args = \<lparr>la_action = action, la_digest = sd_digest s, la_token = token, la_lease = cf_Lease c div 1000000, la_tokens = tokens, la_cost = cost,
                 la_maxTokens = cf_MaxTokensPerMinute c, la_maxCost = cf_MaxCostMicrosPerMinute c\<rparr>;
          (result, st') = leaseScript ms args (ready_key s) (budget_key s) (map (\<lambda>(name, limit). (shared_key s name, limit)) scopes) st
      in (script_error result, st'))"

definition shared_acquire :: "Shared \<Rightarrow> int \<Rightarrow> gerr option \<Rightarrow> string \<Rightarrow> scope list \<Rightarrow> int \<Rightarrow> int \<Rightarrow> redis \<Rightarrow> gerr option \<times> redis" where
  "shared_acquire s ms ctx_err token scopes tokens cost st = (case ctx_err of
      Some err \<Rightarrow> (Some err, st)
    | None \<Rightarrow> lease_execute s ms ''acquire'' token scopes tokens cost st)"

text \<open>The answer: an error, or the scopes the new lease holds (none when the context covers all) and the names covered from now on.\<close>

definition shared_Acquire :: "Shared \<Rightarrow> int \<Rightarrow> gerr option \<Rightarrow> string set \<Rightarrow> string \<Rightarrow> AdmissionRequest \<Rightarrow> redis
    \<Rightarrow> (gerr + scope list \<times> string set) \<times> redis" where
  "shared_Acquire s ms ctx_err covered token request st =
     (if aq_WorkflowID request \<noteq> [] \<and> 128 < length (aq_WorkflowID request) then (Inl ErrUnavailable, st)
      else let scopes = run_scopes (sd_config s) request; needed = needed_scopes covered scopes; covered' = covered \<union> set (map fst scopes)
           in if needed = [] then (case ctx_err of Some err \<Rightarrow> (Inl err, st) | None \<Rightarrow> (Inr ([], covered'), st))
              else case shared_acquire s ms ctx_err token needed 0 0 st of
                     (Some err, st') \<Rightarrow> (Inl err, st')
                   | (None, st') \<Rightarrow> (Inr (needed, covered'), st'))"

text \<open>\<open>input\<close> is the estimate of the token counter for the request, \<open>maxOut\<close> its output limit.\<close>

definition call_tokens :: "Config \<Rightarrow> int \<Rightarrow> int \<Rightarrow> int" where
  "call_tokens c input maxOut = input + (if maxOut < 1 \<or> cf_OutputTokenLimit c < maxOut then cf_OutputTokenLimit c else maxOut)"

definition call_scopes :: "Config \<Rightarrow> string \<Rightarrow> scope list" where
  "call_scopes c provider = [(''provider:all'', cf_MaxProviderCalls c), (''provider:'' @ to_lower provider, cf_MaxPerProvider c)]"

definition AcquireCall :: "Shared \<Rightarrow> int \<Rightarrow> gerr option \<Rightarrow> string \<Rightarrow> string \<Rightarrow> int \<Rightarrow> int \<Rightarrow> redis \<Rightarrow> gerr option \<times> redis" where
  "AcquireCall s ms ctx_err token provider input maxOut st =
     (let c = sd_config s; tokens = call_tokens c input maxOut
      in if provider = [] \<or> 256 < length provider then (Some ErrUnavailable, st)
         else if tokens < 1 \<or> cf_MaxTokensPerMinute c < tokens then (Some ErrBudgetExceeded, st)
         else shared_acquire s ms ctx_err token (call_scopes c provider) tokens (tokens * cf_CostMicrosPerToken c) st)"

section \<open>All clients on one store\<close>

text \<open>
  Every operation is one run of the script by some process with this configuration, \<open>d\<close> milliseconds
  after the one before: a run or a provider call asks for admission, a lease is renewed, a lease is released. A
  process that dies does nothing. Tokens are arbitrary. \<open>sh_spent\<close> logs the reservations granted:
  the minute, the tokens and the cost.
\<close>

record shared_world =
  sh_shared :: Shared
  sh_redis :: redis
  sh_clock :: int
  sh_spent :: "(int \<times> int \<times> int) list"

datatype shared_op =
    ShRun nat "gerr option" "string set" string AdmissionRequest
  | ShCall nat "gerr option" string string int int
  | ShRenew nat string "scope list"
  | ShRelease nat string "scope list"

fun sh_step :: "shared_op \<Rightarrow> shared_world \<Rightarrow> shared_world" where
  "sh_step (ShRun d ctx_err covered token request) s =
     (let ms = sh_clock s + int d in s\<lparr>sh_clock := ms, sh_redis := snd (shared_Acquire (sh_shared s) ms ctx_err covered token request (sh_redis s))\<rparr>)"
| "sh_step (ShCall d ctx_err token provider input maxOut) s =
     (let ms = sh_clock s + int d; (err, st) = AcquireCall (sh_shared s) ms ctx_err token provider input maxOut (sh_redis s);
          tokens = call_tokens (sd_config (sh_shared s)) input maxOut
      in s\<lparr>sh_clock := ms, sh_redis := st,
           sh_spent := (if err = None then (ms div 60000, tokens, tokens * cf_CostMicrosPerToken (sd_config (sh_shared s))) # sh_spent s else sh_spent s)\<rparr>)"
| "sh_step (ShRenew d token scopes) s =
     (let ms = sh_clock s + int d in s\<lparr>sh_clock := ms, sh_redis := snd (lease_execute (sh_shared s) ms ''renew'' token scopes 0 0 (sh_redis s))\<rparr>)"
| "sh_step (ShRelease d token scopes) s =
     (let ms = sh_clock s + int d in s\<lparr>sh_clock := ms, sh_redis := snd (lease_execute (sh_shared s) ms ''release'' token scopes 0 0 (sh_redis s))\<rparr>)"

subsection \<open>Live leases\<close>

definition live_tokens :: "int \<Rightarrow> redis \<Rightarrow> string \<Rightarrow> string set" where
  "live_tokens ms st k = {t. \<exists>score. (t, score) \<in> set (zset_members (st k)) \<and> ms < score}"

definition zsets_ok :: "redis \<Rightarrow> bool" where
  "zsets_ok st \<longleftrightarrow> (\<forall>k. distinct (map fst (zset_members (st k))))"

lemma zcount_card:
  assumes "zsets_ok st"
  shows "zcount_after ms (zset_members (st k)) = card (live_tokens ms st k)"
proof -
  let ?z = "zset_members (st k)" and ?P = "\<lambda>(t, score). ms < score"
  have "distinct (map fst (filter ?P ?z))" using assms by (simp add: zsets_ok_def distinct_map_filter)
  moreover have "set (map fst (filter ?P ?z)) = live_tokens ms st k" by (force simp: live_tokens_def)
  ultimately show ?thesis by (metis distinct_card length_map zcount_after_def)
qed

lemma finite_live [simp]: "finite (live_tokens ms st k)"
proof -
  have "live_tokens ms st k \<subseteq> fst ` set (zset_members (st k))" by (force simp: live_tokens_def)
  then show ?thesis by (rule finite_subset) simp
qed

lemma zset_ops_ok:
  assumes "zsets_ok st"
  shows "zsets_ok (zrem k t st)" "zsets_ok (zadd k score t st)" "zsets_ok (zpurge k ms st)"
  using assms by (auto simp: zsets_ok_def zrem_def zadd_def zpurge_def distinct_map_filter distinct_update)

lemma set_alist_update: "set (AList.update k v al) \<subseteq> insert (k, v) (set al)"
  by (induction al) auto

lemma live_ops:
  "live_tokens ms (zrem k t st) k' \<subseteq> live_tokens ms st k'"
  "live_tokens ms (zpurge k ms' st) k' \<subseteq> live_tokens ms st k'"
  "live_tokens ms (zadd k score t st) k' \<subseteq> (if k' = k then insert t (live_tokens ms st k') else live_tokens ms st k')"
  using set_alist_update [of t score "zset_members (st k)"] by (auto simp: live_tokens_def zrem_def zpurge_def zadd_def)

lemma live_later: "ms \<le> ms' \<Longrightarrow> live_tokens ms' st k \<subseteq> live_tokens ms st k"
  by (force simp: live_tokens_def)

text \<open>Steps on single keys that make at most the tokens \<open>A\<close> live there, over several keys.\<close>

lemma fold_live:
  assumes "\<And>k st. zsets_ok st \<Longrightarrow> zsets_ok (f k st)"
    and "\<And>k st. live_tokens ms (f k st) k' \<subseteq> (if k' = k then A \<union> live_tokens ms st k' else live_tokens ms st k')"
  shows "zsets_ok st \<Longrightarrow> zsets_ok (fold f keys st) \<and> live_tokens ms (fold f keys st) k' \<subseteq> (if k' \<in> set keys then A \<union> live_tokens ms st k' else live_tokens ms st k')"
proof (induction keys arbitrary: st)
  case (Cons k keys)
  from Cons.IH [OF assms(1) [OF Cons.prems], of k] assms(2) [of k st] show ?case
    by (cases "k' = k"; cases "k' \<in> set keys") auto
qed simp

lemma zrem_all:
  assumes "zsets_ok st"
  shows "zsets_ok (fold (\<lambda>k. zrem k t) keys st) \<and> live_tokens ms (fold (\<lambda>k. zrem k t) keys st) k' \<subseteq> live_tokens ms st k'"
proof -
  have "live_tokens ms (zrem k t st) k' \<subseteq> (if k' = k then {} \<union> live_tokens ms st k' else live_tokens ms st k')" for k st using live_ops(1) by simp
  from fold_live [OF zset_ops_ok(1) this assms, of keys] show ?thesis by (simp split: if_splits)
qed

lemma zadd_all:
  assumes "zsets_ok st"
  shows "zsets_ok (fold (\<lambda>k. zadd k score t) keys st)
    \<and> live_tokens ms (fold (\<lambda>k. zadd k score t) keys st) k' \<subseteq> (if k' \<in> set keys then insert t (live_tokens ms st k') else live_tokens ms st k')"
proof -
  have "live_tokens ms (zadd k score t st) k' \<subseteq> (if k' = k then {t} \<union> live_tokens ms st k' else live_tokens ms st k')" for k st
    using live_ops(3) [of ms k score t st k'] by (cases "k' = k") simp_all
  from fold_live [OF zset_ops_ok(2) this assms, of keys] show ?thesis by (cases "k' \<in> set keys") simp_all
qed

lemma grant_slots_live:
  assumes "zsets_ok st"
  shows "zsets_ok (grant_slots ms' lease t keys st)
    \<and> live_tokens ms (grant_slots ms' lease t keys st) k' \<subseteq> (if k' \<in> set keys then insert t (live_tokens ms st k') else live_tokens ms st k')"
proof -
  have "live_tokens ms (zadd k (ms' + lease) t (zpurge k ms' st)) k' \<subseteq> (if k' = k then {t} \<union> live_tokens ms st k' else live_tokens ms st k')" for k st
    using live_ops(3) [of ms k "ms' + lease" t "zpurge k ms' st" k'] live_ops(2) [of ms k ms' st k'] by (cases "k' = k") auto
  from fold_live [OF zset_ops_ok(2) [OF zset_ops_ok(3)] this assms, of keys] show ?thesis by (cases "k' \<in> set keys") (simp_all add: grant_slots_def)
qed

lemma spend_budget_live:
  assumes "hash_kind_ok (st b)"
  shows "zset_members (spend_budget b bucket x y st k) = zset_members (st k)"
  using assms by (cases "st b") (auto simp: spend_budget_def elim: hash_kind_ok.elims)

lemma spend_budget_simps:
  assumes "hash_kind_ok (st b)"
  shows "live_tokens ms (spend_budget b bucket x y st) k = live_tokens ms st k" "zsets_ok (spend_budget b bucket x y st) \<longleftrightarrow> zsets_ok st"
  using assms by (simp_all add: live_tokens_def zsets_ok_def spend_budget_live)

lemma three_guards: "a \<or> b \<or> c \<Longrightarrow> (if a then x else if b then x else if c then x else y) = x"
  by auto

text \<open>What one run of the script does to the store.\<close>

lemma leaseScript_cases:
  fixes ms a ready budget scopes st
  defines "keys \<equiv> map fst scopes"
  assumes "leaseScript ms a ready budget scopes st = (result, st')"
  obtains (same) "st' = st" "result \<noteq> 1"
  | (released) "st' = fold (\<lambda>k. zrem k (la_token a)) keys st" "la_action a = ''release''"
  | (renewed) "st' = fold (\<lambda>k. zadd k (ms + la_lease a) (la_token a)) keys st" "\<And>k. k \<in> set keys \<Longrightarrow> la_token a \<in> live_tokens ms st k" "la_action a = ''renew''"
  | (granted) "la_action a \<noteq> ''release''" "la_action a \<noteq> ''renew''" "\<forall>(k', limit)\<in>set scopes. int (zcount_after ms (zset_members (st k'))) < limit" "result = 1"
      "la_tokens a \<le> 0" "st' = grant_slots ms (la_lease a) (la_token a) keys st"
  | (reserved) usedTokens usedCost where "la_action a \<noteq> ''release''" "la_action a \<noteq> ''renew''" "\<forall>(k', limit)\<in>set scopes. int (zcount_after ms (zset_members (st k'))) < limit" "result = 1" "0 < la_tokens a"
      "hash_kind_ok (st budget)" "budget_used (ms div 60000) (st budget) = Some (usedTokens, usedCost)"
      "usedTokens + la_tokens a \<le> la_maxTokens a" "0 < la_maxCost a \<Longrightarrow> usedCost + la_cost a \<le> la_maxCost a"
      "st' = spend_budget budget (ms div 60000) (usedTokens + la_tokens a) (usedCost + la_cost a) (grant_slots ms (la_lease a) (la_token a) keys st)"
proof (cases "st ready \<noteq> Some (RString (la_digest a)) \<or> \<not> hash_kind_ok (st budget) \<or> (\<exists>k\<in>set keys. \<not> zset_ok (st k) \<or> 2048 < length (zset_members (st k)))")
  case True
  then have "leaseScript ms a ready budget scopes st = (-1, st)" unfolding leaseScript_def Let_def keys_def by (rule three_guards)
  then show ?thesis using same assms(2) by simp
next
  case False
  then have L: "leaseScript ms a ready budget scopes st =
      (if la_action a = ''release'' then (1, fold (\<lambda>k. zrem k (la_token a)) keys st)
         else if la_action a = ''renew''
         then if \<exists>k\<in>set keys. (case map_of (zset_members (st k)) (la_token a) of None \<Rightarrow> True | Some score \<Rightarrow> score \<le> ms) then (-3, st)
              else (1, fold (\<lambda>k. zadd k (ms + la_lease a) (la_token a)) keys st)
         else if \<exists>(k, limit)\<in>set scopes. limit \<le> int (zcount_after ms (zset_members (st k))) then (-2, st)
         else if 0 < la_tokens a
         then let bucket = ms div 60000
              in case budget_used bucket (st budget) of
                   None \<Rightarrow> (-1, st)
                 | Some (usedTokens, usedCost) \<Rightarrow>
                     if la_maxTokens a < usedTokens + la_tokens a \<or> 0 < la_maxCost a \<and> la_maxCost a < usedCost + la_cost a then (-4, st)
                     else (1, spend_budget budget bucket (usedTokens + la_tokens a) (usedCost + la_cost a) (grant_slots ms (la_lease a) (la_token a) keys st))
         else (1, grant_slots ms (la_lease a) (la_token a) keys st))"
    unfolding leaseScript_def Let_def keys_def by simp
  show ?thesis
  proof (cases "la_action a = ''release'' \<or> la_action a = ''renew''")
    case True
    have "la_token a \<in> live_tokens ms st k"
      if "\<not> (case map_of (zset_members (st k)) (la_token a) of None \<Rightarrow> True | Some score \<Rightarrow> score \<le> ms)" for k
      using that by (auto simp: live_tokens_def split: option.splits dest: map_of_SomeD)
    then show ?thesis using True L assms(2) same released renewed by (auto split: if_splits)
  next
    case other: False
    show ?thesis
    proof (cases "\<exists>(k, limit)\<in>set scopes. limit \<le> int (zcount_after ms (zset_members (st k)))")
      case True
      then show ?thesis using L other assms(2) same by simp
    next
      case room: False
      then have r: "\<forall>(k', limit)\<in>set scopes. int (zcount_after ms (zset_members (st k'))) < limit" by auto
      show ?thesis
      proof (cases "0 < la_tokens a")
        case t: True
        then show ?thesis using L other room assms(2) same reserved [OF _ _ r] False
          by (cases "budget_used (ms div 60000) (st budget)") (auto simp: Let_def split: if_splits)
      next
        case t: False
        then show ?thesis using L other room assms(2) granted [OF _ _ r] by simp
      qed
    qed
  qed
qed

lemma grant_slots_other: "k \<notin> set keys \<Longrightarrow> grant_slots ms lease t keys st k = st k"
  unfolding grant_slots_def by (induction keys arbitrary: st) (auto simp: zadd_def zpurge_def)

text \<open>The script grants a slot only below the limit of every scope, and only to its own token.\<close>

lemma leaseScript_live:
  assumes "zsets_ok st" "leaseScript ms a ready budget scopes st = (result, st')" "budget \<notin> fst ` set scopes"
  shows "zsets_ok st' \<and> live_tokens ms st' k \<subseteq> insert (la_token a) (live_tokens ms st k)
    \<and> (live_tokens ms st' k \<subseteq> live_tokens ms st k \<or> la_action a \<notin> {''release'', ''renew''} \<and> k \<in> fst ` set scopes
        \<and> (\<forall>(k', limit)\<in>set scopes. int (zcount_after ms (zset_members (st k'))) < limit))"
  using assms(2)
proof (cases rule: leaseScript_cases)
  case same
  then show ?thesis using assms(1) by auto
next
  case released
  then show ?thesis using zrem_all [OF assms(1), of "la_token a" "map fst scopes" ms k] by auto
next
  case renewed
  then show ?thesis using zadd_all [OF assms(1), of "ms + la_lease a" "la_token a" "map fst scopes" ms k] by (cases "k \<in> set (map fst scopes)") auto
next
  case granted
  then show ?thesis using grant_slots_live [OF assms(1), of ms "la_lease a" "la_token a" "map fst scopes" ms k]
    by (cases "k \<in> set (map fst scopes)") auto
next
  case (reserved usedTokens usedCost)
  let ?g = "grant_slots ms (la_lease a) (la_token a) (map fst scopes) st"
  have "hash_kind_ok (?g budget)" using reserved(6) assms(3) grant_slots_other [of budget "map fst scopes"] by simp
  then show ?thesis using reserved(1-3,10) spend_budget_simps [of ?g budget] grant_slots_live [OF assms(1), of ms "la_lease a" "la_token a" "map fst scopes" ms k]
    by (cases "k \<in> set (map fst scopes)") auto
qed

definition name_limit :: "Config \<Rightarrow> string \<Rightarrow> nat option" where
  "name_limit c name =
     (if name = ''runs'' then Some (nat (cf_MaxRuns c))
      else if take 5 name = ''user:'' then Some (nat (cf_MaxPerUser c))
      else if take 9 name = ''workflow:'' then Some (nat (cf_MaxPerWorkflow c))
      else if name = ''provider:all'' then Some (nat (cf_MaxProviderCalls c))
      else if take 9 name = ''provider:'' then Some (nat (cf_MaxPerProvider c))
      else None)"

text \<open>Every scope a client asks for is checked against the limit of its name.\<close>

definition limited :: "Config \<Rightarrow> scope list \<Rightarrow> bool" where
  "limited c scopes \<longleftrightarrow> (\<forall>n\<in>fst ` set scopes. \<exists>l. (n, l) \<in> set scopes \<and> name_limit c n = Some (nat l))"

lemma name_limit_simps:
  "name_limit c ''runs'' = Some (nat (cf_MaxRuns c))" "name_limit c (''user:'' @ x) = Some (nat (cf_MaxPerUser c))"
  "name_limit c (''workflow:'' @ x) = Some (nat (cf_MaxPerWorkflow c))" "name_limit c ''provider:all'' = Some (nat (cf_MaxProviderCalls c))"
  "x \<noteq> ''all'' \<Longrightarrow> name_limit c (''provider:'' @ x) = Some (nat (cf_MaxPerProvider c))"
  by (simp_all add: name_limit_def)

lemma client_scopes_limited: "limited c (needed_scopes covered (run_scopes c request))" "limited c (call_scopes c provider)"
proof -
  have "name_limit c n = Some (nat l)" if "(n, l) \<in> set (run_scopes c request)" for n l
    using that unfolding run_scopes_def set_append Un_iff by (elim disjE) (simp_all only: set_simps if_split_asm name_limit_simps prod.inject insert_iff empty_iff simp_thms split: if_splits)
  then show "limited c (needed_scopes covered (run_scopes c request))" unfolding limited_def needed_scopes_def by fastforce
  show "limited c (call_scopes c provider)"
    unfolding limited_def
  proof
    fix n assume n: "n \<in> fst ` set (call_scopes c provider)"
    show "\<exists>l. (n, l) \<in> set (call_scopes c provider) \<and> name_limit c n = Some (nat l)"
    proof (cases "n = ''provider:all''")
      case True
      then show ?thesis using name_limit_simps(4) by (auto simp: call_scopes_def)
    next
      case False
      then have "n = ''provider:'' @ to_lower provider" "to_lower provider \<noteq> ''all''" using n by (auto simp: call_scopes_def)
      then show ?thesis using name_limit_simps(5) by (auto simp: call_scopes_def)
    qed
  qed
qed

definition slots_live :: "shared_world \<Rightarrow> string \<Rightarrow> nat" where
  "slots_live s name = zcount_after (sh_clock s) (zset_members (sh_redis s (shared_key (sh_shared s) name)))"

definition shared_limit :: "shared_world \<Rightarrow> string \<Rightarrow> nat option" where
  "shared_limit s name = name_limit (sd_config (sh_shared s)) name"

definition shared_ok :: "shared_world \<Rightarrow> bool" where
  "shared_ok s \<longleftrightarrow> inj (sd_hash (sh_shared s)) \<and> zsets_ok (sh_redis s)"

text \<open>A step of the store at time \<open>ms\<close>, for the scope \<open>name\<close>: nothing new is live, or one token below the limit.\<close>

definition scope_step :: "Shared \<Rightarrow> int \<Rightarrow> string \<Rightarrow> redis \<Rightarrow> redis \<Rightarrow> bool" where
  "scope_step sd ms name st st' \<longleftrightarrow> (let k = shared_key sd name in
     live_tokens ms st' k \<subseteq> live_tokens ms st k
     \<or> (\<exists>t. live_tokens ms st' k \<subseteq> insert t (live_tokens ms st k)) \<and> (\<forall>m. name_limit (sd_config sd) name = Some m \<longrightarrow> card (live_tokens ms st k) < m))"

lemma key_simps [simp]:
  "shared_key sd n \<noteq> budget_key sd" "budget_key sd \<noteq> shared_key sd n" "budget_key sd \<noteq> ready_key sd" "ready_key sd \<noteq> budget_key sd" "shared_key sd n \<noteq> ready_key sd"
  "inj (sd_hash sd) \<Longrightarrow> shared_key sd n = shared_key sd n' \<longleftrightarrow> n = n'"
  by (auto simp: shared_key_def budget_key_def ready_key_def inj_eq)

lemma lease_execute_step:
  assumes "zsets_ok st" "inj (sd_hash sd)" "action \<in> {''release'', ''renew''} \<or> limited (sd_config sd) scopes"
    and "lease_execute sd ms action token scopes tokens cost st = (e, st')"
  shows "zsets_ok st' \<and> scope_step sd ms name st st'"
proof -
  let ?args = "\<lparr>la_action = action, la_digest = sd_digest sd, la_token = token, la_lease = cf_Lease (sd_config sd) div 1000000, la_tokens = tokens, la_cost = cost,
                 la_maxTokens = cf_MaxTokensPerMinute (sd_config sd), la_maxCost = cf_MaxCostMicrosPerMinute (sd_config sd)\<rparr>"
  let ?scopes = "map (\<lambda>(name, limit). (shared_key sd name, limit)) scopes" and ?k = "shared_key sd name"
  obtain result where r: "leaseScript ms ?args (ready_key sd) (budget_key sd) ?scopes st = (result, st')"
    using assms(4) by (auto simp: lease_execute_def Let_def split: prod.splits)
  have "budget_key sd \<notin> fst ` set ?scopes" by force
  note L = leaseScript_live [OF assms(1) r this, of ?k]
  show ?thesis
  proof (cases "live_tokens ms st' ?k \<subseteq> live_tokens ms st ?k")
    case True
    then show ?thesis using L by (simp add: scope_step_def)
  next
    case False
    then have *: "limited (sd_config sd) scopes" "?k \<in> fst ` set ?scopes" "\<forall>(k', limit)\<in>set ?scopes. int (zcount_after ms (zset_members (st k'))) < limit"
      using L assms(3) by auto
    then obtain l where l: "(name, l) \<in> set scopes" "name_limit (sd_config sd) name = Some (nat l)"
      using assms(2) by (force simp: limited_def)
    then have "int (zcount_after ms (zset_members (st ?k))) < l" using *(3) by force
    then have "card (live_tokens ms st ?k) < nat l" by (simp add: zcount_card [OF assms(1)])
    then show ?thesis using L l(2) by (auto simp: scope_step_def Let_def)
  qed
qed

lemma scope_step_refl: "scope_step sd ms name st st"
  by (simp add: scope_step_def)

lemma sh_step_shared [simp]: "sh_shared (sh_step p s) = sh_shared s"
  by (cases p) (simp_all add: Let_def split: prod.split)

lemma sh_step_clock: "sh_clock s \<le> sh_clock (sh_step p s)"
  by (cases p) (simp_all add: Let_def split: prod.split)

lemma sh_step_scope:
  assumes "shared_ok s"
  shows "zsets_ok (sh_redis (sh_step p s)) \<and> scope_step (sh_shared s) (sh_clock (sh_step p s)) name (sh_redis s) (sh_redis (sh_step p s))"
proof -
  let ?sd = "sh_shared s" and ?st = "sh_redis s"
  have z: "zsets_ok ?st" "inj (sd_hash ?sd)" using assms by (simp_all add: shared_ok_def)
  have acq: "zsets_ok (snd (shared_acquire ?sd ms err token scopes tokens cost ?st)) \<and> scope_step ?sd ms name ?st (snd (shared_acquire ?sd ms err token scopes tokens cost ?st))"
    if "limited (sd_config ?sd) scopes" for ms err token scopes tokens cost
    using lease_execute_step [OF z, where action = "''acquire''"] that z(1)
    by (cases "lease_execute ?sd ms ''acquire'' token scopes tokens cost ?st") (auto simp: shared_acquire_def scope_step_refl split: option.split)
  show ?thesis
  proof (cases p)
    case (ShRun d err covered token request)
    show ?thesis
      using acq [OF client_scopes_limited(1), of "sh_clock s + int d" err token covered request 0 0] z(1)
      by (auto simp: ShRun Let_def shared_Acquire_def scope_step_refl split: option.splits prod.splits)
  next
    case (ShCall d err token provider input maxOut)
    show ?thesis
      using acq [OF client_scopes_limited(2), of "sh_clock s + int d" err token provider] z(1)
      by (auto simp: ShCall Let_def AcquireCall_def scope_step_refl split: prod.splits if_splits) (metis snd_conv)+
  next
    case (ShRenew d token scopes)
    show ?thesis
      using lease_execute_step [OF z, of "''renew''" scopes "sh_clock s + int d" token 0 0]
      by (cases "lease_execute ?sd (sh_clock s + int d) ''renew'' token scopes 0 0 ?st") (simp add: ShRenew Let_def)
  next
    case (ShRelease d token scopes)
    show ?thesis
      using lease_execute_step [OF z, of "''release''" scopes "sh_clock s + int d" token 0 0]
      by (cases "lease_execute ?sd (sh_clock s + int d) ''release'' token scopes 0 0 ?st") (simp add: ShRelease Let_def)
  qed
qed

interpretation shared: admission_control sh_step shared_ok slots_live shared_limit
proof
  fix s p name
  assume ok: "shared_ok s"
  note S = sh_step_scope [OF ok, of p]
  show ok': "shared_ok (sh_step p s)" using S ok by (simp add: shared_ok_def)
  let ?k = "shared_key (sh_shared s) name" and ?ms = "sh_clock (sh_step p s)"
  let ?old = "live_tokens (sh_clock s) (sh_redis s) ?k" and ?mid = "live_tokens ?ms (sh_redis s) ?k" and ?new = "live_tokens ?ms (sh_redis (sh_step p s)) ?k"
  have c: "slots_live s name = card ?old" "slots_live (sh_step p s) name = card ?new"
    using ok ok' by (simp_all add: slots_live_def zcount_card shared_ok_def)
  have mid: "card ?mid \<le> card ?old" by (rule card_mono) (simp_all add: live_later sh_step_clock)
  assume gt: "slots_live s name < slots_live (sh_step p s) name"
  have no: "\<not> ?new \<subseteq> ?mid" using gt c mid card_mono [of ?mid ?new] by auto
  then obtain t where t: "?new \<subseteq> insert t ?mid" "\<forall>m. name_limit (sd_config (sh_shared s)) name = Some m \<longrightarrow> card ?mid < m"
    using S [of name] by (auto simp: scope_step_def Let_def)
  have "card (insert t ?mid) \<le> Suc (card ?mid)" by (simp add: card_insert_if)
  then have "card ?new \<le> Suc (card ?mid)" using card_mono [OF _ t(1)] by simp
  then have "card ?new = Suc (card ?old) \<and> card ?mid = card ?old" using gt c mid by linarith
  then show "slots_live (sh_step p s) name = Suc (slots_live s name) \<and> (\<forall>n. shared_limit s name = Some n \<longrightarrow> slots_live s name < n)"
    using t(2) c by (simp add: shared_limit_def)
qed (simp add: shared_limit_def fun_eq_iff)

subsection \<open>The budget of a minute\<close>

definition minute_tokens :: "int \<Rightarrow> (int \<times> int \<times> int) list \<Rightarrow> int" where
  "minute_tokens b spent = sum_list (map (\<lambda>(b', t, c). t) (filter (\<lambda>(b', t, c). b' = b) spent))"

definition minute_cost :: "int \<Rightarrow> (int \<times> int \<times> int) list \<Rightarrow> int" where
  "minute_cost b spent = sum_list (map (\<lambda>(b', t, c). c) (filter (\<lambda>(b', t, c). b' = b) spent))"

lemma minute_Cons [simp]:
  "minute_tokens b ((b', t, c) # spent) = (if b' = b then t else 0) + minute_tokens b spent"
  "minute_cost b ((b', t, c) # spent) = (if b' = b then c else 0) + minute_cost b spent"
  by (simp_all add: minute_tokens_def minute_cost_def)

lemma minute_none: "\<forall>(b', t, c)\<in>set spent. b' < b \<Longrightarrow> minute_tokens b spent = 0 \<and> minute_cost b spent = 0"
  by (induction spent) (auto simp: minute_tokens_def minute_cost_def)

lemma digits_value_snoc:
  "digits_value acc (xs @ [c]) = (case digits_value acc xs of None \<Rightarrow> None | Some v \<Rightarrow> if ascii_digit c then Some (10 * v + (of_char c - 48)) else None)"
  by (induction acc xs rule: digits_value.induct) auto

lemma digit_char_value: "d < 10 \<Longrightarrow> ascii_digit (digit_char d) \<and> of_char (digit_char d) - (48 :: nat) = d"
proof -
  have "\<forall>d\<in>set [0..<10]. ascii_digit (digit_char d) \<and> of_char (digit_char d) - (48 :: nat) = d" by code_simp
  then show "d < 10 \<Longrightarrow> ascii_digit (digit_char d) \<and> of_char (digit_char d) - (48 :: nat) = d" by simp
qed

lemma digits_value_show: "digits_value 0 (show_nat n) = Some n"
proof (induction n rule: show_nat.induct)
  case (1 n)
  show ?case
  proof (cases "n < 10")
    case True
    then show ?thesis using digit_char_value [OF True] by (subst show_nat.simps) simp
  next
    case False
    have "n mod 10 < 10" by simp
    from digit_char_value [OF this] 1 False show ?thesis by (subst show_nat.simps) (simp add: digits_value_snoc)
  qed
qed

lemma budget_field_show: "0 \<le> i \<Longrightarrow> budget_field (Some (show_int i)) \<in> {None, Some (nat i)}"
  by (simp add: budget_field_def show_int_def digits_value_show)

text \<open>The hash is what the log says about its minute.\<close>

definition hash_matches :: "int \<Rightarrow> int \<Rightarrow> int \<Rightarrow> redis_value option \<Rightarrow> bool" where
  "hash_matches b t c v \<longleftrightarrow> (\<exists>h. v = Some (RHash h) \<and> h ''bucket'' = Some (show_int b) \<and> h ''tokens'' = Some (show_int t) \<and> h ''cost'' = Some (show_int c))"

lemma budget_used_matches:
  assumes "hash_matches b t c v" "0 \<le> b" "0 \<le> t" "0 \<le> c" "budget_used bucket v = Some (ut, uc)"
  shows "b \<le> bucket \<and> (ut, uc) = (if b = bucket then (t, c) else (0, 0))"
  using assms budget_field_show [OF assms(2)] budget_field_show [OF assms(3)] budget_field_show [OF assms(4)]
  by (auto simp: hash_matches_def budget_used_def Let_def split: option.splits if_splits)

definition budget_inv :: "shared_world \<Rightarrow> bool" where
  "budget_inv s \<longleftrightarrow> (let c = sd_config (sh_shared s); v = sh_redis s (budget_key (sh_shared s)); spent = sh_spent s in
     0 \<le> sh_clock s \<and> (\<forall>(b, t, x)\<in>set spent. 0 \<le> b \<and> b \<le> sh_clock s div 60000 \<and> 0 \<le> t \<and> 0 \<le> x)
     \<and> (\<forall>b. minute_tokens b spent \<le> cf_MaxTokensPerMinute c \<and> (0 < cf_MaxCostMicrosPerMinute c \<longrightarrow> minute_cost b spent \<le> cf_MaxCostMicrosPerMinute c))
     \<and> (if v = None then spent = []
        else \<exists>b. 0 \<le> b \<and> (\<forall>(b', t, x)\<in>set spent. b' \<le> b) \<and> hash_matches b (minute_tokens b spent) (minute_cost b spent) v))"

lemma zset_ops_other:
  "k' \<notin> set keys \<Longrightarrow> fold (\<lambda>k. zrem k t) keys st k' = st k'"
  "k' \<notin> set keys \<Longrightarrow> fold (\<lambda>k. zadd k score t) keys st k' = st k'"
  by (induction keys arbitrary: st) (auto simp: zrem_def zadd_def)

text \<open>A run of the script leaves the budget alone, or reserves on it.\<close>

lemma lease_execute_budget:
  fixes sd st
  defines "c \<equiv> sd_config sd" and "k \<equiv> budget_key sd"
  assumes "lease_execute sd ms action token scopes tokens cost st = (e, st')"
  shows "st' k = st k \<and> (e = None \<longrightarrow> tokens \<le> 0 \<or> action \<in> {''release'', ''renew''})
    \<or> e = None \<and> 0 < tokens \<and> (\<exists>ut uc. budget_used (ms div 60000) (st k) = Some (ut, uc) \<and> ut + tokens \<le> cf_MaxTokensPerMinute c
        \<and> (0 < cf_MaxCostMicrosPerMinute c \<longrightarrow> uc + cost \<le> cf_MaxCostMicrosPerMinute c) \<and> hash_matches (ms div 60000) (ut + tokens) (uc + cost) (st' k))"
proof -
  let ?args = "\<lparr>la_action = action, la_digest = sd_digest sd, la_token = token, la_lease = cf_Lease c div 1000000, la_tokens = tokens, la_cost = cost,
                 la_maxTokens = cf_MaxTokensPerMinute c, la_maxCost = cf_MaxCostMicrosPerMinute c\<rparr>"
  let ?scopes = "map (\<lambda>(name, limit). (shared_key sd name, limit)) scopes"
  obtain result where r: "leaseScript ms ?args (ready_key sd) k ?scopes st = (result, st')" "e = script_error result"
    using assms(3) by (auto simp: lease_execute_def Let_def c_def k_def split: prod.splits)
  have nk: "k \<notin> set (map fst ?scopes)" by (force simp: k_def)
  from r(1) show ?thesis
  proof (cases rule: leaseScript_cases)
    case same
    then show ?thesis using r(2) by (auto simp: script_error_def)
  next
    case released
    then show ?thesis using zset_ops_other(1) [OF nk] by simp
  next
    case renewed
    then show ?thesis using zset_ops_other(2) [OF nk] by simp
  next
    case granted
    then show ?thesis using grant_slots_other [OF nk] by simp
  next
    case (reserved ut uc)
    have "e = None" "hash_matches (ms div 60000) (ut + tokens) (uc + cost) (st' k)"
      using reserved(4,10) r(2) by (simp_all add: script_error_def hash_matches_def spend_budget_def)
    then show ?thesis using reserved(5,7-9) by auto
  qed
qed

lemma budget_inv_later:
  assumes "budget_inv s" "sh_clock s \<le> ms" "st (budget_key (sh_shared s)) = sh_redis s (budget_key (sh_shared s))"
  shows "budget_inv (s\<lparr>sh_clock := ms, sh_redis := st\<rparr>)"
proof -
  have d: "sh_clock s div 60000 \<le> ms div 60000" using assms(2) by (rule zdiv_mono1) simp
  have "b \<le> ms div 60000" if "b \<le> sh_clock s div 60000" for b using that d by simp
  then show ?thesis using assms unfolding budget_inv_def Let_def by auto
qed

lemma budget_inv_reserve:
  fixes s st ms
  defines "k \<equiv> budget_key (sh_shared s)" and "c \<equiv> sd_config (sh_shared s)"
  assumes "budget_inv s" "sh_clock s \<le> ms" "0 \<le> tokens" "0 \<le> cost"
    and "budget_used (ms div 60000) (sh_redis s k) = Some (ut, uc)" "ut + tokens \<le> cf_MaxTokensPerMinute c"
    and "0 < cf_MaxCostMicrosPerMinute c \<longrightarrow> uc + cost \<le> cf_MaxCostMicrosPerMinute c" "hash_matches (ms div 60000) (ut + tokens) (uc + cost) (st k)"
  shows "budget_inv (s\<lparr>sh_clock := ms, sh_redis := st, sh_spent := (ms div 60000, tokens, cost) # sh_spent s\<rparr>)"
proof -
  let ?m = "ms div 60000" and ?spent = "sh_spent s"
  note I = assms(3) [unfolded budget_inv_def Let_def, folded k_def c_def]
  have clock: "0 \<le> sh_clock s" and sp: "\<forall>(b, t, x)\<in>set ?spent. 0 \<le> b \<and> b \<le> sh_clock s div 60000 \<and> 0 \<le> t \<and> 0 \<le> x"
    and lim: "\<And>b. minute_tokens b ?spent \<le> cf_MaxTokensPerMinute c" "\<And>b. 0 < cf_MaxCostMicrosPerMinute c \<Longrightarrow> minute_cost b ?spent \<le> cf_MaxCostMicrosPerMinute c"
    using I by auto
  have d: "sh_clock s div 60000 \<le> ?m" using assms(4) by (rule zdiv_mono1) simp
  have m0: "0 \<le> ?m" using clock assms(4) by (simp add: pos_imp_zdiv_nonneg_iff)
  have pos: "0 \<le> minute_tokens b ?spent \<and> 0 \<le> minute_cost b ?spent" for b
    using sp by (auto simp: minute_tokens_def minute_cost_def intro!: sum_list_nonneg)
  have used: "ut = minute_tokens ?m ?spent \<and> uc = minute_cost ?m ?spent"
  proof (cases "sh_redis s k")
    case None
    then have "?spent = []" using I by simp
    then show ?thesis using assms(7) None by (simp add: budget_used_def minute_tokens_def minute_cost_def)
  next
    case (Some v)
    then obtain b where b: "0 \<le> b" "\<forall>(b', t, x)\<in>set ?spent. b' \<le> b" "hash_matches b (minute_tokens b ?spent) (minute_cost b ?spent) (Some v)" using I by auto
    from budget_used_matches [OF b(3) b(1) _ _ assms(7) [unfolded Some]] pos have B: "b \<le> ?m" "(ut, uc) = (if b = ?m then (minute_tokens b ?spent, minute_cost b ?spent) else (0, 0))" by auto
    show ?thesis
    proof (cases "b = ?m")
      case True
      then show ?thesis using B(2) by simp
    next
      case False
      then have "\<forall>(b', t, x)\<in>set ?spent. b' < ?m" using B(1) b(2) by force
      from minute_none [OF this] show ?thesis using B(2) False by simp
    qed
  qed
  have "\<forall>(b', t, x)\<in>set ?spent. b' \<le> ?m" using sp d by force
  moreover have "hash_matches ?m (tokens + minute_tokens ?m ?spent) (cost + minute_cost ?m ?spent) (st k)"
    using assms(10) used by (simp add: add.commute)
  moreover have "st k \<noteq> None" using assms(10) by (auto simp: hash_matches_def)
  ultimately show ?thesis
    unfolding budget_inv_def Let_def
    using clock assms(4-6,8,9) sp d lim used m0 by (auto simp: k_def c_def intro!: exI [of _ ?m])
qed

lemma budget_inv_step:
  assumes "budget_inv s" "Config_Validate (sd_config (sh_shared s)) = None"
  shows "budget_inv (sh_step p s)"
proof -
  let ?sd = "sh_shared s" and ?st = "sh_redis s"
  have other: "snd (lease_execute ?sd ms action token scopes 0 0 ?st) (budget_key ?sd) = ?st (budget_key ?sd)" for ms action token scopes
    using lease_execute_budget [of ?sd ms action token scopes 0 0 ?st] by (cases "lease_execute ?sd ms action token scopes 0 0 ?st") auto
  show ?thesis
  proof (cases p)
    case (ShRun d err covered token request)
    have "snd (shared_Acquire ?sd ms err covered token request ?st) (budget_key ?sd) = ?st (budget_key ?sd)" for ms
      using other [of ms "''acquire''" token "needed_scopes covered (run_scopes (sd_config ?sd) request)"]
      by (auto simp: shared_Acquire_def shared_acquire_def Let_def split: option.splits prod.splits)
    then show ?thesis using budget_inv_later [OF assms(1)] by (simp add: ShRun Let_def)
  next
    case (ShRenew d token scopes)
    then show ?thesis using budget_inv_later [OF assms(1)] other by (simp add: Let_def)
  next
    case (ShRelease d token scopes)
    then show ?thesis using budget_inv_later [OF assms(1)] other by (simp add: Let_def)
  next
    case (ShCall d err token provider input maxOut)
    let ?ms = "sh_clock s + int d" and ?c = "sd_config ?sd"
    let ?t = "call_tokens ?c input maxOut"
    have cpt: "0 \<le> cf_CostMicrosPerToken ?c" using assms(2) by (auto simp: Config_Validate_def split: if_splits)
    obtain e st where a: "AcquireCall ?sd ?ms err token provider input maxOut ?st = (e, st)" by fastforce
    have step: "sh_step p s = s\<lparr>sh_clock := ?ms, sh_redis := st,
        sh_spent := (if e = None then (?ms div 60000, ?t, ?t * cf_CostMicrosPerToken ?c) # sh_spent s else sh_spent s)\<rparr>"
      using a by (simp add: ShCall Let_def)
    show ?thesis
    proof (cases "lease_execute ?sd ?ms ''acquire'' token (call_scopes ?c provider) ?t (?t * cf_CostMicrosPerToken ?c) ?st = (e, st) \<and> 1 \<le> ?t")
      case False
      then have "st = ?st" "e \<noteq> None" using a by (auto simp: AcquireCall_def Let_def shared_acquire_def split: if_splits option.splits)
      then show ?thesis using budget_inv_later [OF assms(1), of ?ms ?st] step by auto
    next
      case True
      then have t: "0 < ?t" by simp
      from lease_execute_budget [OF conjunct1 [OF True]] show ?thesis
      proof (elim disjE conjE exE)
        assume "st (budget_key ?sd) = ?st (budget_key ?sd)" "e = None \<longrightarrow> ?t \<le> 0 \<or> ''acquire'' \<in> {''release'', ''renew''}"
        then show ?thesis using budget_inv_later [OF assms(1), of ?ms st] step t by auto
      next
        fix ut uc
        assume "e = None" "budget_used (?ms div 60000) (?st (budget_key ?sd)) = Some (ut, uc)" "ut + ?t \<le> cf_MaxTokensPerMinute ?c"
          "0 < cf_MaxCostMicrosPerMinute ?c \<longrightarrow> uc + ?t * cf_CostMicrosPerToken ?c \<le> cf_MaxCostMicrosPerMinute ?c"
          "hash_matches (?ms div 60000) (ut + ?t) (uc + ?t * cf_CostMicrosPerToken ?c) (st (budget_key ?sd))"
        then show ?thesis using budget_inv_reserve [OF assms(1), of ?ms ?t "?t * cf_CostMicrosPerToken ?c" ut uc st] step t cpt by simp
      qed
    qed
  qed
qed

text \<open>A store on which this configuration has just been initialised.\<close>

definition fresh_world :: "Shared \<Rightarrow> int \<Rightarrow> shared_world" where
  "fresh_world sd clock = \<lparr>sh_shared = sd, sh_redis = snd (shared_Initialize sd Map.empty), sh_clock = clock, sh_spent = []\<rparr>"

lemma fresh_world_ok:
  assumes "0 \<le> clock" "Config_Validate (sd_config sd) = None"
  shows "budget_inv (fresh_world sd clock)" "zsets_ok (sh_redis (fresh_world sd clock))" "slots_live (fresh_world sd clock) name = 0"
proof -
  have e: "sh_redis (fresh_world sd clock) = [ready_key sd \<mapsto> RString (sd_digest sd)]"
    by (simp add: fresh_world_def shared_Initialize_def initializeScript_def Let_def)
  show "budget_inv (fresh_world sd clock)"
    using assms(1) assms(2) e unfolding budget_inv_def Let_def
    by (auto simp: fresh_world_def minute_tokens_def minute_cost_def Config_Validate_def split: if_splits)
  show "zsets_ok (sh_redis (fresh_world sd clock))" "slots_live (fresh_world sd clock) name = 0"
    using e by (auto simp: zsets_ok_def slots_live_def zcount_after_def)
qed

text \<open>
  C38. Shared admission holds across processes. Let any number of processes with one valid
  configuration use a freshly initialised store: runs and provider calls that ask for admission with
  arbitrary tokens and from arbitrary contexts, renewals, releases, at any times of a clock that does
  not go back, in any order. Then at the end the leases alive in a scope are at most the limit of the
  scope (all runs, one user, one workflow, all provider calls, one provider), and in every minute
  the tokens reserved, and the cost where a cost budget is set, are within the budget of the minute.
\<close>

theorem shared_admission_within_limits:
  fixes ops :: "shared_op list"
  assumes "New hash json True config = Inr sd" "inj hash" "0 \<le> clock"
  defines "s \<equiv> fold sh_step ops (fresh_world sd clock)"
  shows "(\<forall>name n. name_limit config name = Some n \<longrightarrow> slots_live s name \<le> n)
    \<and> (\<forall>b. minute_tokens b (sh_spent s) \<le> cf_MaxTokensPerMinute config)
    \<and> (\<forall>b. 0 < cf_MaxCostMicrosPerMinute config \<longrightarrow> minute_cost b (sh_spent s) \<le> cf_MaxCostMicrosPerMinute config)"
proof -
  let ?w = "fresh_world sd clock"
  have v: "Config_Validate (sd_config sd) = None" "sd_config sd = config" "sd_hash sd = hash"
    using assms(1) by (auto simp: New_def split: option.splits)
  have sh: "sh_shared ?w = sd" by (simp add: fresh_world_def)
  note F = fresh_world_ok [OF assms(3) v(1)]
  have ok: "shared_ok ?w" using F(2) assms(2) v(3) sh by (simp add: shared_ok_def)
  have "slots_live s name \<le> n" if "name_limit config name = Some n" for name n
    unfolding s_def using shared.within_run [OF ok, of name n ops] F(3) that v(2) sh by (simp add: shared_limit_def)
  moreover have "budget_inv s' \<Longrightarrow> sh_shared s' = sd \<Longrightarrow> budget_inv (fold sh_step ops s') \<and> sh_shared (fold sh_step ops s') = sd" for s'
    using v(1) by (induction ops arbitrary: s') (simp_all add: budget_inv_step)
  from this [OF F(1) sh] have "budget_inv s" "sh_shared s = sd" by (simp_all add: s_def)
  ultimately show ?thesis using v(2) by (simp add: budget_inv_def Let_def)
qed

definition demo_shared :: Shared where
  "demo_shared = \<lparr>sd_config = DefaultConfig, sd_prefix = ''agent:admission:{agent-v1}:'', sd_digest = ''d'', sd_hash = id\<rparr>"

lemma demo_shared_new: "New id (\<lambda>_. ''d'') True DefaultConfig = Inr demo_shared"
  by (simp add: New_def Config_Validate_def DefaultConfig_def demo_shared_def)

definition demo_run_op :: shared_op where
  "demo_run_op = ShRun 5 None {} ''t'' \<lparr>aq_UserID = 0, aq_WorkflowID = []\<rparr>"

lemma demo_admitted: "slots_live (sh_step demo_run_op (fresh_world demo_shared 1000)) ''runs'' = 1"
proof -
  have st: "sh_redis (fresh_world demo_shared 1000) = [ready_key demo_shared \<mapsto> RString ''d'']"
    by (simp add: fresh_world_def shared_Initialize_def initializeScript_def Let_def demo_shared_def)
  have k: "shared_key demo_shared ''runs'' \<noteq> ready_key demo_shared" "budget_key demo_shared \<noteq> ready_key demo_shared" by simp_all
  have f: "sh_shared (fresh_world demo_shared 1000) = demo_shared" "sh_clock (fresh_world demo_shared 1000) = 1000" by (simp_all add: fresh_world_def)
  have c: "sd_digest demo_shared = ''d''" "cf_MaxRuns (sd_config demo_shared) = 64" "cf_Lease (sd_config demo_shared) = 30000000000"
    by (simp_all add: demo_shared_def DefaultConfig_def)
  show ?thesis
    using k by (simp add: demo_run_op_def slots_live_def Let_def f st c shared_Acquire_def run_scopes_def needed_scopes_def shared_acquire_def lease_execute_def
        leaseScript_def script_error_def grant_slots_def zadd_def zpurge_def zcount_after_def)
qed

theorem shared_admission_within_limits_witness:
  "slots_live (fold sh_step [demo_run_op] (fresh_world demo_shared 1000)) ''runs'' = 1
     \<and> slots_live (fold sh_step [demo_run_op] (fresh_world demo_shared 1000)) ''runs'' \<le> 64
     \<and> minute_tokens 0 (sh_spent (fold sh_step [demo_run_op] (fresh_world demo_shared 1000))) \<le> 250000"
  using shared_admission_within_limits [OF demo_shared_new, of 1000 "[demo_run_op]"] demo_admitted
  by (simp add: name_limit_def DefaultConfig_def)

end
