(* ===== verification/Rollout.thy ===== *)
theory Rollout
  imports Go_Prelude
begin

text \<open>
  The switch of entry points to the second runtime, \<^verbatim>\<open>src/internal/module/agent/runtime/rollout.go\<close>:
  a list of modes in an environment variable, kept as a bit mask.
\<close>

unbundle bit_operations_syntax

definition ModeChat :: string where "ModeChat = ''chat''"
definition ModeConsult :: string where "ModeConsult = ''consult''"
definition ModeAssist :: string where "ModeAssist = ''assist''"
definition ModeMulti :: string where "ModeMulti = ''multi''"
definition ModeWorkflow :: string where "ModeWorkflow = ''workflow''"

lemmas mode_defs = ModeChat_def ModeConsult_def ModeAssist_def ModeMulti_def ModeWorkflow_def

definition orderedModes :: "string list" where
  "orderedModes = [ModeChat, ModeConsult, ModeAssist, ModeMulti, ModeWorkflow]"

definition modeBits :: "(string \<times> 8 word) list" where
  "modeBits = [(ModeChat, push_bit 0 1), (ModeConsult, push_bit 1 1), (ModeAssist, push_bit 2 1), (ModeMulti, push_bit 3 1), (ModeWorkflow, push_bit 4 1)]"

record Rollout =
  ro_mask :: "8 word"

datatype rollout_error = EmptyMode | NoneCombined | UnknownMode string

fun parse_modes :: "string list \<Rightarrow> 8 word \<Rightarrow> rollout_error + Rollout" where
  "parse_modes [] bits = Inr \<lparr>ro_mask = bits\<rparr>"
| "parse_modes (part # parts) bits =
     (let token = to_lower (trim_space part)
      in if token = [] then Inl EmptyMode
         else if token = ''none'' then Inl NoneCombined
         else if token = ''all'' then parse_modes parts (fold (\<lambda>mode m. m OR the (map_of modeBits mode)) orderedModes bits)
         else case map_of modeBits token of
                None \<Rightarrow> Inl (UnknownMode token)
              | Some b \<Rightarrow> parse_modes parts (bits OR b))"

definition ParseRollout :: "string \<Rightarrow> rollout_error + Rollout" where
  "ParseRollout raw =
     (let raw' = trim_space raw
      in if raw' = [] \<or> to_lower raw' = ''none'' then Inr \<lparr>ro_mask = 0\<rparr>
         else parse_modes (split_on (CHR '','') raw') 0)"

definition Enabled :: "Rollout \<Rightarrow> string \<Rightarrow> bool" where
  "Enabled r mode = (case map_of modeBits mode of None \<Rightarrow> False | Some b \<Rightarrow> ro_mask r AND b \<noteq> 0)"

definition Modes :: "Rollout \<Rightarrow> string list" where
  "Modes r = filter (Enabled r) orderedModes"

definition Rollout_String :: "Rollout \<Rightarrow> string" where
  "Rollout_String r = (if ro_mask r = 0 then ''none'' else join_with '','' (Modes r))"

definition mode_bit :: "string \<Rightarrow> nat" where
  "mode_bit mode = (if mode = ModeChat then 0 else if mode = ModeConsult then 1 else if mode = ModeAssist then 2 else if mode = ModeMulti then 3 else 4)"

lemma modeBits_bit: "map_of modeBits mode = (if mode \<in> set orderedModes then Some (push_bit (mode_bit mode) 1) else None)"
  by (auto simp: modeBits_def orderedModes_def mode_bit_def mode_defs)

lemma Enabled_bit: "Enabled r mode \<longleftrightarrow> mode \<in> set orderedModes \<and> bit (ro_mask r) (mode_bit mode)"
  by (simp add: Enabled_def modeBits_bit and_exp_eq_0_iff_not_bit push_bit_of_1 del: push_bit_eq_0_iff)

text \<open>The bits that parsing can set, and which parts set them.\<close>

definition names_mode :: "string \<Rightarrow> string list \<Rightarrow> bool" where
  "names_mode mode parts \<longleftrightarrow> (\<exists>part\<in>set parts. to_lower (trim_space part) \<in> {mode, ''all''})"

definition every_mode :: "8 word" where
  "every_mode = Bit_Operations.mask 5"

lemma all_bits: "fold (\<lambda>mode m. m OR the (map_of modeBits mode)) orderedModes bits = bits OR every_mode"
proof -
  have "every_mode = 1 OR 2 OR 4 OR 8 OR 16" by (simp add: every_mode_def mask_eq_exp_minus_1)
  then show ?thesis by (simp only: orderedModes_def modeBits_def mode_defs) (simp add: or.assoc)
qed

lemma bit_every_mode: "bit every_mode i \<longleftrightarrow> i < 5"
  by (auto simp: every_mode_def bit_mask_iff)

lemma mode_bit_less: "mode_bit mode < 5"
  by (simp add: mode_bit_def)

lemma mode_bit_inj: "m \<in> set orderedModes \<Longrightarrow> m' \<in> set orderedModes \<Longrightarrow> mode_bit m = mode_bit m' \<longleftrightarrow> m = m'"
  by (auto simp: orderedModes_def mode_bit_def mode_defs)

lemma parse_modes_bits:
  assumes "parse_modes parts bits = Inr r" "mode \<in> set orderedModes"
  shows "bit (ro_mask r) (mode_bit mode) \<longleftrightarrow> bit bits (mode_bit mode) \<or> names_mode mode parts"
    and "(\<forall>i\<ge>5. \<not> bit bits i) \<Longrightarrow> (\<forall>i\<ge>5. \<not> bit (ro_mask r) i)"
  using assms
proof (induction parts bits rule: parse_modes.induct)
  case (2 part parts bits)
  let ?t = "to_lower (trim_space part)"
  have na: "''all'' \<notin> set orderedModes" by (simp add: orderedModes_def mode_defs)
  {
    case 1
    show ?case
    proof (cases "?t = ''all''")
      case True
      then show ?thesis using 1 "2.IH"(1) by (auto simp: all_bits bit_or_iff bit_every_mode mode_bit_less names_mode_def)
    next
      case False
      then have t: "?t \<in> set orderedModes" "parse_modes parts (bits OR push_bit (mode_bit ?t) 1) = Inr r"
        using 1(1) by (auto simp: Let_def modeBits_bit split: if_splits)
      then have "bit (ro_mask r) (mode_bit mode) \<longleftrightarrow> bit (bits OR push_bit (mode_bit ?t) 1) (mode_bit mode) \<or> names_mode mode parts"
        using "2.IH"(3) [of _ "push_bit (mode_bit ?t) 1"] 1 False by (auto simp: Let_def modeBits_bit split: if_splits)
      then show ?thesis
        using mode_bit_inj [OF 1(2) t(1)] mode_bit_less [of mode] False by (auto simp: bit_or_iff bit_push_bit_iff bit_1_iff bit_exp_iff names_mode_def)
    qed
  next
    case 2
    show ?case
    proof (cases "?t = ''all''")
      case True
      then show ?thesis using 2 "2.IH"(2) by (auto simp: all_bits bit_or_iff bit_every_mode)
    next
      case False
      then have t: "?t \<in> set orderedModes" "parse_modes parts (bits OR push_bit (mode_bit ?t) 1) = Inr r"
        using 2(2) by (auto simp: Let_def modeBits_bit split: if_splits)
      then show ?thesis
        using "2.IH"(4) [of _ "push_bit (mode_bit ?t) 1"] 2 False mode_bit_less [of ?t] by (auto simp: Let_def modeBits_bit bit_or_iff bit_push_bit_iff bit_1_iff bit_exp_iff split: if_splits)
    qed
  }
qed (auto simp: names_mode_def)

lemma round_trip_small:
  "\<forall>n\<in>set [0..<16]. ParseRollout (Rollout_String \<lparr>ro_mask = of_nat n\<rparr>) = Inr \<lparr>ro_mask = of_nat n\<rparr>"
  "\<forall>n\<in>set [16..<32]. ParseRollout (Rollout_String \<lparr>ro_mask = of_nat n\<rparr>) = Inr \<lparr>ro_mask = of_nat n\<rparr>"
  by code_simp+

lemma lower_char_comma: "lower_char (CHR '','') = CHR '',''"
  by code_simp

lemma to_lower_comma: "CHR '','' \<in> set s \<Longrightarrow> CHR '','' \<in> set (to_lower s)"
proof (induction s rule: to_lower.induct)
  case (2 c cs)
  consider (dotted) ds where "c # cs = [CHR 0xC4, CHR 0xB0] @ ds" | (kelvin) ds where "c # cs = [CHR 0xE2, CHR 0x84, CHR 0xAA] @ ds"
    | (plain) "\<not> prefix [CHR 0xC4, CHR 0xB0] (c # cs)" "\<not> prefix [CHR 0xE2, CHR 0x84, CHR 0xAA] (c # cs)"
    by (auto simp: prefix_def)
  then show ?case
  proof cases
    case dotted
    then show ?thesis using "2.IH"(1) "2.prems" by (auto simp: prefix_def)
  next
    case kelvin
    then show ?thesis using "2.IH"(2) "2.prems" by (auto simp: prefix_def)
  next
    case plain
    then show ?thesis using "2.IH"(3) "2.prems" lower_char_comma by (auto simp del: prefix_Cons)
  qed
qed simp

lemma round_trip_mask:
  fixes m :: "8 word"
  assumes "\<forall>i\<ge>5. \<not> bit m i"
  shows "ParseRollout (Rollout_String \<lparr>ro_mask = m\<rparr>) = Inr \<lparr>ro_mask = m\<rparr>"
proof -
  have "m = take_bit 5 m"
  proof (rule bit_word_eqI)
    show "bit m n \<longleftrightarrow> bit (take_bit 5 m) n" for n using assms by (cases "n < 5") (auto simp: bit_take_bit_iff)
  qed
  then have "unat m = take_bit 5 (unat m)" by (metis unsigned_take_bit_eq)
  then have "unat m < 2 ^ 5" by (metis take_bit_nat_less_exp)
  then have "unat m \<in> set [0..<16] \<or> unat m \<in> set [16..<32]" by (auto simp del: upt_rec_numeral)
  then have "ParseRollout (Rollout_String \<lparr>ro_mask = of_nat (unat m)\<rparr>) = Inr \<lparr>ro_mask = of_nat (unat m)\<rparr>" using round_trip_small by blast
  then show ?thesis by simp
qed

text \<open>
  The switch round-trips. If a setting is accepted, then printing the rollout and parsing it again
  gives the same rollout; a mode is enabled exactly if it is one of the five and the setting names it
  or names all, up to case and white space.
\<close>

theorem ParseRollout_roundtrip:
  assumes "ParseRollout raw = Inr r"
  shows "ParseRollout (Rollout_String r) = Inr r
    \<and> (\<forall>mode. Enabled r mode \<longleftrightarrow> mode \<in> set orderedModes \<and> names_mode mode (split_on (CHR '','') (trim_space raw)))"
proof -
  let ?raw = "trim_space raw"
  let ?parts = "split_on (CHR '','') ?raw"
  have r: "r = \<lparr>ro_mask = ro_mask r\<rparr>" by simp
  show ?thesis
  proof (cases "?raw = [] \<or> to_lower ?raw = ''none''")
    case True
    then have z: "r = \<lparr>ro_mask = 0\<rparr>" using assms by (simp add: ParseRollout_def)
    have "?parts = [?raw]" using True to_lower_comma [of ?raw] by (intro split_on_absent) auto
    then have "\<not> names_mode mode ?parts" if "mode \<in> set orderedModes" for mode
      using True that by (auto simp: names_mode_def orderedModes_def mode_defs)
    then show ?thesis using round_trip_mask [of 0] z by (auto simp: Enabled_bit Modes_def)
  next
    case False
    then have p: "parse_modes ?parts 0 = Inr r" using assms by (simp add: ParseRollout_def Let_def)
    have "\<forall>i\<ge>5. \<not> bit (ro_mask r) i" using parse_modes_bits(2) [OF p, of ModeChat] by (simp add: orderedModes_def)
    from round_trip_mask [OF this] have "ParseRollout (Rollout_String r) = Inr r" by (simp only: r [symmetric])
    then show ?thesis using parse_modes_bits(1) [OF p] by (auto simp: Enabled_bit Modes_def)
  qed
qed

theorem ParseRollout_roundtrip_witness:
  "ParseRollout '' Chat, workflow '' = Inr \<lparr>ro_mask = 17\<rparr> \<and> ParseRollout (Rollout_String \<lparr>ro_mask = 17\<rparr>) = Inr \<lparr>ro_mask = 17\<rparr>"
proof -
  have p: "ParseRollout '' Chat, workflow '' = Inr \<lparr>ro_mask = 17\<rparr>" by code_simp
  from ParseRollout_roundtrip [OF p] p show ?thesis by simp
qed

end
