(* ===== verification/Deletion_Protocol.thy ===== *)
theory Deletion_Protocol
  imports Go_Errors
begin

text \<open>
  The protocol that deletes a subject's data across stores:
  \<^verbatim>\<open>src/internal/module/agent/deletion/protocol.go\<close> and \<^verbatim>\<open>deletion/capability.go\<close>. A plan is a fixed chain of stages;
  a checkpoint records how far it is, and workers claim and complete stages under leases with
  optimistic revisions.

  A time is an \<^typ>\<open>int\<close> number of nanoseconds, zero for the zero time. SHA-256 in hexadecimal and the format
  of a time are the record \<open>digest_env\<close>. Go maps of counts are association lists with
  distinct keys; which of several invalid categories of an inventory is reported depends on the
  order of a Go map, so the error does not name it.
\<close>

record digest_env =
  dg_sha256 :: "string \<Rightarrow> string"
  dg_time :: "int \<Rightarrow> string"

definition ProtocolSchemaV1 :: string where "ProtocolSchemaV1 = ''agent-data-deletion-protocol/v1''"
definition CapabilitySnapshotSchemaV1 :: string where "CapabilitySnapshotSchemaV1 = ''agent-data-deletion-capabilities/v1''"
definition maxStageLease :: int where "maxStageLease = 15 * 60 * 1000000000"

definition CapabilitySubjectWriteFence :: string where "CapabilitySubjectWriteFence = ''subject_write_fence''"
definition CapabilityRelationshipMutation :: string where "CapabilityRelationshipMutation = ''relationship_mutation''"
definition CapabilityMinIOSubjectDelete :: string where "CapabilityMinIOSubjectDelete = ''minio_subject_delete''"
definition CapabilityQdrantSubjectDelete :: string where "CapabilityQdrantSubjectDelete = ''qdrant_subject_delete''"
definition CapabilityTweetServiceDelete :: string where "CapabilityTweetServiceDelete = ''tweet_service_delete''"
definition CapabilityMongoOwnedDelete :: string where "CapabilityMongoOwnedDelete = ''mongo_owned_delete''"
definition CapabilityCrossStoreVerify :: string where "CapabilityCrossStoreVerify = ''cross_store_verification''"
definition CapabilityRequestFinalize :: string where "CapabilityRequestFinalize = ''request_finalization''"

definition StageEnforceWriteFence :: string where "StageEnforceWriteFence = ''enforce_write_fence''"
definition StageDetachRelationships :: string where "StageDetachRelationships = ''detach_shared_relationships''"
definition StageDeleteMinIO :: string where "StageDeleteMinIO = ''delete_minio_tool_results''"
definition StageDeleteQdrant :: string where "StageDeleteQdrant = ''delete_qdrant_memory''"
definition StageDeleteTweets :: string where "StageDeleteTweets = ''request_tweet_service_deletion''"
definition StageDeleteMongo :: string where "StageDeleteMongo = ''delete_agent_owned_mongo''"
definition StageVerify :: string where "StageVerify = ''verify_zero_residuals''"
definition StageFinalize :: string where "StageFinalize = ''finalize_request''"

lemmas stage_names = StageEnforceWriteFence_def StageDetachRelationships_def StageDeleteMinIO_def StageDeleteQdrant_def StageDeleteTweets_def
  StageDeleteMongo_def StageVerify_def StageFinalize_def

lemmas capability_names = CapabilitySubjectWriteFence_def CapabilityRelationshipMutation_def CapabilityMinIOSubjectDelete_def
  CapabilityQdrantSubjectDelete_def CapabilityTweetServiceDelete_def CapabilityMongoOwnedDelete_def CapabilityCrossStoreVerify_def
  CapabilityRequestFinalize_def

definition knownExternalResources :: "string list" where
  "knownExternalResources = [''minio_tool_result_objects'', ''qdrant_episodic_memory'', ''tweet_service_published_content'']"

definition relationshipResolutionRequired :: "string list" where
  "relationshipResolutionRequired = [''project_ownerships'', ''project_scoped_mcp_connections_created'', ''marketplace_publisher_ownerships'']"

datatype deletion_error =
    ErrPlanNotReady | ErrCheckpointConflict | ErrStageBusy | ErrStageLeaseExpired | ErrStageNotRunning
  | DInvalid string | DWrapped string deletion_error | DInventory | DUnknownCapability string | DDuplicateCapability string | DCapabilityUnavailable string

record Inventory =
  iv_Owned :: "(string \<times> int) list"
  iv_Related :: "(string \<times> int) list"
  iv_Retained :: "(string \<times> int) list"
  iv_Unsupported :: "string list"

record Stage =
  sg_ID :: string
  sg_Sequence :: int
  sg_DependsOn :: "string list"
  sg_Boundary :: string
  sg_RequiredCapability :: string
  sg_Destructive :: bool
  sg_Irreversible :: bool
  sg_RequiredEvidence :: "string list"
  sg_PreservesOnFailure :: "string list"

record deletion_plan =
  dp_SchemaVersion :: string
  dp_Digest :: string
  dp_InventoryDigest :: string
  dp_CapabilityDigest :: string
  dp_Ready :: bool
  dp_Blockers :: "string list"
  dp_Stages :: "Stage list"
  dp_GeneratedAt :: int

definition StagePending :: string where "StagePending = ''pending''"
definition StageRunning :: string where "StageRunning = ''running''"
definition StageSucceeded :: string where "StageSucceeded = ''succeeded''"
definition StageFailed :: string where "StageFailed = ''failed''"

lemmas stage_statuses = StagePending_def StageRunning_def StageSucceeded_def StageFailed_def

record StageCheckpoint =
  sc_StageID :: string
  sc_Status :: string
  sc_Attempts :: int
  sc_LeaseToken :: string
  sc_LeaseUntil :: int
  sc_ReceiptDigest :: string
  sc_FailureCode :: string
  sc_StartedAt :: int
  sc_CompletedAt :: int

record Checkpoint =
  ck_PlanDigest :: string
  ck_Revision :: int
  ck_CurrentStageID :: string
  ck_Stages :: "StageCheckpoint list"
  ck_UpdatedAt :: int

record Protocol =
  pr_Plan :: deletion_plan
  pr_Checkpoint :: Checkpoint

section \<open>Identities and digests\<close>

definition hex_char :: "char \<Rightarrow> bool" where
  "hex_char c \<longleftrightarrow> ascii_digit c \<or> char_between (CHR ''a'') (CHR ''f'') c \<or> char_between (CHR ''A'') (CHR ''F'') c"

definition isSHA256 :: "string \<Rightarrow> bool" where
  "isSHA256 v \<longleftrightarrow> list_all hex_char v \<and> length v = 64"

definition isFailureCode :: "string \<Rightarrow> bool" where
  "isFailureCode v \<longleftrightarrow> v \<noteq> [] \<and> length v \<le> 64
     \<and> list_all (\<lambda>c. ascii_lower c \<or> ascii_digit c \<or> c = CHR ''_'' \<or> c = CHR ''-'' \<or> c = CHR ''.'') v"

definition isBoundedIdentity :: "string \<Rightarrow> nat \<Rightarrow> bool" where
  "isBoundedIdentity v limit \<longleftrightarrow> v \<noteq> [] \<and> length v \<le> limit
     \<and> list_all (\<lambda>c. ascii_lower c \<or> ascii_upper c \<or> ascii_digit c \<or> c = CHR ''_'' \<or> c = CHR ''-'' \<or> c = CHR ''.'' \<or> c = CHR ''/'') v"

definition normalizedStrings :: "string list \<Rightarrow> string list" where
  "normalizedStrings values = sort (remdups (filter (\<lambda>v. v \<noteq> []) (map trim_space values)))"

definition nul :: string where "nul = [CHR 0x00]"

definition appendMap :: "string \<Rightarrow> (string \<times> int) list \<Rightarrow> string list" where
  "appendMap category values = map (\<lambda>key. category @ '':'' @ key @ ''='' @ show_int (map_get 0 (map_of values) key)) (sort (map fst values))"

definition inventoryDigest :: "digest_env \<Rightarrow> Inventory \<Rightarrow> string" where
  "inventoryDigest dg inventory = dg_sha256 dg (join_with nul ([ProtocolSchemaV1] @ appendMap ''owned'' (iv_Owned inventory)
     @ appendMap ''related'' (iv_Related inventory) @ appendMap ''retained'' (iv_Retained inventory)
     @ map (\<lambda>v. ''unsupported:'' @ v) (normalizedStrings (iv_Unsupported inventory))))"

definition show_bool :: "bool \<Rightarrow> string" where
  "show_bool b = (if b then ''true'' else ''false'')"

definition stage_line :: "Stage \<Rightarrow> string" where
  "stage_line s = join_with ''|'' [sg_ID s, show_int (sg_Sequence s), join_with '','' (sg_DependsOn s), sg_Boundary s, sg_RequiredCapability s,
     show_bool (sg_Destructive s), show_bool (sg_Irreversible s), join_with '','' (sg_RequiredEvidence s), join_with '','' (sg_PreservesOnFailure s)]"

definition planDigest :: "digest_env \<Rightarrow> deletion_plan \<Rightarrow> string" where
  "planDigest dg plan = dg_sha256 dg (join_with nul
     ([dp_SchemaVersion plan, dp_InventoryDigest plan, dp_CapabilityDigest plan, dg_time dg (dp_GeneratedAt plan), show_bool (dp_Ready plan)]
      @ map (\<lambda>b. ''blocker:'' @ b) (normalizedStrings (dp_Blockers plan)) @ map stage_line (dp_Stages plan)))"

section \<open>Capabilities\<close>

record CapabilityDescriptor =
  cd_ID :: string
  cd_Adapter :: string
  cd_Version :: string

record CapabilitySnapshot =
  cs_SchemaVersion :: string
  cs_Digest :: string
  cs_Capabilities :: "CapabilityDescriptor list"

definition knownCapabilities :: "string list" where
  "knownCapabilities = [CapabilitySubjectWriteFence, CapabilityRelationshipMutation, CapabilityMinIOSubjectDelete, CapabilityQdrantSubjectDelete,
     CapabilityTweetServiceDelete, CapabilityMongoOwnedDelete, CapabilityCrossStoreVerify, CapabilityRequestFinalize]"

definition normalizeCapabilityDescriptor :: "CapabilityDescriptor \<Rightarrow> CapabilityDescriptor" where
  "normalizeCapabilityDescriptor d = \<lparr>cd_ID = trim_space (cd_ID d), cd_Adapter = trim_space (cd_Adapter d), cd_Version = trim_space (cd_Version d)\<rparr>"

definition validateCapabilityDescriptor :: "CapabilityDescriptor \<Rightarrow> deletion_error option" where
  "validateCapabilityDescriptor d =
     (if cd_ID d \<notin> set knownCapabilities then Some (DUnknownCapability (cd_ID d))
      else if \<not> isBoundedIdentity (cd_Adapter d) 96 \<or> \<not> isBoundedIdentity (cd_Version d) 64
      then Some (DInvalid ''data deletion capability adapter identity is invalid'') else None)"

definition capabilitySnapshotDigest :: "digest_env \<Rightarrow> CapabilitySnapshot \<Rightarrow> string" where
  "capabilitySnapshotDigest dg s = dg_sha256 dg (join_with nul (cs_SchemaVersion s # map (\<lambda>d. cd_ID d @ ''|'' @ cd_Adapter d @ ''|'' @ cd_Version d) (cs_Capabilities s)))"

text \<open>The providers in order; \<open>None\<close> is a nil provider. \<open>seen\<close> are the identities so far.\<close>

fun collect_descriptors :: "CapabilityDescriptor option list \<Rightarrow> string list \<Rightarrow> deletion_error + CapabilityDescriptor list" where
  "collect_descriptors [] seen = Inr []"
| "collect_descriptors (None # ps) seen = Inl (DInvalid ''data deletion capability provider is nil'')"
| "collect_descriptors (Some p # ps) seen =
     (let d = normalizeCapabilityDescriptor p
      in case validateCapabilityDescriptor d of
           Some err \<Rightarrow> Inl err
         | None \<Rightarrow>
             if cd_ID d \<in> set seen then Inl (DDuplicateCapability (cd_ID d))
             else case collect_descriptors ps (cd_ID d # seen) of Inl err \<Rightarrow> Inl err | Inr ds \<Rightarrow> Inr (d # ds))"

definition NewCapabilityRegistry :: "digest_env \<Rightarrow> CapabilityDescriptor option list \<Rightarrow> deletion_error + CapabilitySnapshot" where
  "NewCapabilityRegistry dg providers = (case collect_descriptors providers [] of
      Inl err \<Rightarrow> Inl err
    | Inr ds \<Rightarrow>
        let s = \<lparr>cs_SchemaVersion = CapabilitySnapshotSchemaV1, cs_Digest = [], cs_Capabilities = sort_key cd_ID ds\<rparr>
        in Inr (s\<lparr>cs_Digest := capabilitySnapshotDigest dg s\<rparr>))"

fun check_descriptors :: "string \<Rightarrow> CapabilityDescriptor list \<Rightarrow> deletion_error option" where
  "check_descriptors previous [] = None"
| "check_descriptors previous (d # ds) = (case validateCapabilityDescriptor d of
      Some err \<Rightarrow> Some err
    | None \<Rightarrow> if cd_ID d \<le> previous then Some (DInvalid ''data deletion capabilities must be unique and sorted'') else check_descriptors (cd_ID d) ds)"

definition ValidateCapabilitySnapshot :: "digest_env \<Rightarrow> CapabilitySnapshot \<Rightarrow> deletion_error option" where
  "ValidateCapabilitySnapshot dg s =
     (if cs_SchemaVersion s \<noteq> CapabilitySnapshotSchemaV1 \<or> \<not> isSHA256 (cs_Digest s)
      then Some (DInvalid ''data deletion capability snapshot identity is invalid'')
      else case check_descriptors [] (cs_Capabilities s) of
             Some err \<Rightarrow> Some err
           | None \<Rightarrow> if cs_Digest s \<noteq> capabilitySnapshotDigest dg s then Some (DInvalid ''data deletion capability snapshot digest mismatch'') else None)"

text \<open>\<^verbatim>\<open>sort.Search\<close>: the smallest index in \<open>[i, j)\<close> with the property, by bisection, or \<open>j\<close>.\<close>

function sort_search :: "nat \<Rightarrow> nat \<Rightarrow> (nat \<Rightarrow> bool) \<Rightarrow> nat" where
  "sort_search i j f = (if i < j then let h = (i + j) div 2 in if \<not> f h then sort_search (h + 1) j f else sort_search i h f else i)"
  by pat_completeness auto
termination by (relation "measure (\<lambda>(i, j, f). j - i)") auto

declare sort_search.simps [simp del]

definition CapabilityAvailable :: "CapabilitySnapshot \<Rightarrow> string \<Rightarrow> bool" where
  "CapabilityAvailable s capability =
     (let ids = map cd_ID (cs_Capabilities s); index = sort_search 0 (length ids) (\<lambda>i. capability \<le> ids ! i)
      in index < length ids \<and> ids ! index = capability)"

text \<open>A registry is its snapshot.\<close>

definition EmptyCapabilityRegistry :: "digest_env \<Rightarrow> CapabilitySnapshot" where
  "EmptyCapabilityRegistry dg = projr (NewCapabilityRegistry dg [])"

section \<open>Plans\<close>

definition stage_definitions :: "(string \<times> string \<times> string \<times> bool \<times> bool \<times> string list \<times> string list) list" where
  "stage_definitions =
     [(StageEnforceWriteFence, ''control'', CapabilitySubjectWriteFence, False, False, [''subject_fence_receipt'', ''legal_hold_recheck''], []),
      (StageDetachRelationships, ''mongo'', CapabilityRelationshipMutation, True, True, [''relationship_count_before'', ''relationship_count_after''], []),
      (StageDeleteMinIO, ''minio'', CapabilityMinIOSubjectDelete, True, True, [''object_manifest_digest'', ''zero_remaining_objects''], [''mongo_tool_result_references'']),
      (StageDeleteQdrant, ''qdrant'', CapabilityQdrantSubjectDelete, True, True, [''collection_filter_digest'', ''zero_remaining_points''], []),
      (StageDeleteTweets, ''tweet_service'', CapabilityTweetServiceDelete, True, True, [''service_request_id'', ''service_completion_receipt''], []),
      (StageDeleteMongo, ''mongo'', CapabilityMongoOwnedDelete, True, True, [''collection_counts_before'', ''collection_counts_after''],
        [''deletion_request'', ''governance_retention_records'']),
      (StageVerify, ''verification'', CapabilityCrossStoreVerify, False, False, [''cross_store_zero_residual_report''], []),
      (StageFinalize, ''control'', CapabilityRequestFinalize, False, False, [''final_protocol_digest'', ''completed_at''], [])]"

definition stage_at :: "nat \<Rightarrow> Stage" where
  "stage_at i = (case stage_definitions ! i of (name, boundary, capability, destructive, irreversible, evidence, preserves) \<Rightarrow>
     \<lparr>sg_ID = name, sg_Sequence = int i + 1, sg_DependsOn = (if 0 < i then [fst (stage_definitions ! (i - 1))] else []), sg_Boundary = boundary,
      sg_RequiredCapability = capability, sg_Destructive = destructive, sg_Irreversible = irreversible, sg_RequiredEvidence = evidence,
      sg_PreservesOnFailure = preserves\<rparr>)"

definition defaultStages :: "Stage list" where
  "defaultStages = map stage_at [0..<8]"

definition validateInventory :: "Inventory \<Rightarrow> deletion_error option" where
  "validateInventory inventory =
     (if \<exists>(name, count) \<in> set (iv_Owned inventory @ iv_Related inventory @ iv_Retained inventory). trim_space name = [] \<or> count < 0
      then Some DInventory else None)"

definition plan_blockers :: "Inventory \<Rightarrow> CapabilitySnapshot \<Rightarrow> Stage list \<Rightarrow> string list" where
  "plan_blockers inventory capabilities stages = normalizedStrings
     (map (\<lambda>s. ''missing_capability:'' @ sg_RequiredCapability s) (filter (\<lambda>s. \<not> CapabilityAvailable capabilities (sg_RequiredCapability s)) stages)
      @ map (\<lambda>r. ''unsupported_resource:'' @ r) (filter (\<lambda>r. r \<notin> set knownExternalResources) (normalizedStrings (iv_Unsupported inventory)))
      @ map (\<lambda>(r, count). ''relationship_resolution_required:'' @ r)
          (filter (\<lambda>(r, count). 0 < count \<and> r \<in> set relationshipResolutionRequired) (iv_Related inventory)))"

definition BuildPlan :: "digest_env \<Rightarrow> Inventory \<Rightarrow> CapabilitySnapshot \<Rightarrow> int \<Rightarrow> deletion_error + deletion_plan" where
  "BuildPlan dg inventory capabilities now =
     (if now = 0 then Inl (DInvalid ''data deletion plan time is required'')
      else case validateInventory inventory of
        Some err \<Rightarrow> Inl err
      | None \<Rightarrow>
          (case ValidateCapabilitySnapshot dg capabilities of
             Some err \<Rightarrow> Inl err
           | None \<Rightarrow>
               let stages = defaultStages; blockers = plan_blockers inventory capabilities stages;
                   plan = \<lparr>dp_SchemaVersion = ProtocolSchemaV1, dp_Digest = [], dp_InventoryDigest = inventoryDigest dg inventory,
                     dp_CapabilityDigest = cs_Digest capabilities, dp_Ready = (blockers = []), dp_Blockers = blockers, dp_Stages = stages, dp_GeneratedAt = now\<rparr>
               in Inr (plan\<lparr>dp_Digest := planDigest dg plan\<rparr>)))"

text \<open>The loop of \<^verbatim>\<open>ValidatePlan\<close> from index \<open>i\<close> on.\<close>

fun check_stages :: "nat \<Rightarrow> Stage list \<Rightarrow> Stage list \<Rightarrow> deletion_error option" where
  "check_stages i (s # ss) (w # ws) =
     (if sg_ID s \<noteq> sg_ID w \<or> sg_Sequence s \<noteq> int i + 1 \<or> sg_RequiredCapability s \<noteq> sg_RequiredCapability w
      then Some (DInvalid ''data deletion plan stages are invalid'')
      else if 0 < i \<and> sg_DependsOn s \<noteq> [sg_ID (defaultStages ! (i - 1))]
      then Some (DInvalid ''data deletion plan dependency chain is invalid'')
      else check_stages (Suc i) ss ws)"
| "check_stages i _ _ = None"

definition ValidatePlan :: "digest_env \<Rightarrow> deletion_plan \<Rightarrow> deletion_error option" where
  "ValidatePlan dg plan =
     (if dp_SchemaVersion plan \<noteq> ProtocolSchemaV1 \<or> \<not> isSHA256 (dp_Digest plan) \<or> \<not> isSHA256 (dp_InventoryDigest plan)
         \<or> \<not> isSHA256 (dp_CapabilityDigest plan) \<or> dp_GeneratedAt plan = 0
      then Some (DInvalid ''data deletion plan identity is invalid'')
      else if length (dp_Stages plan) \<noteq> length defaultStages then Some (DInvalid ''data deletion plan stage count is invalid'')
      else case check_stages 0 (dp_Stages plan) defaultStages of
             Some err \<Rightarrow> Some err
           | None \<Rightarrow>
               if dp_Ready plan \<noteq> (dp_Blockers plan = []) then Some (DInvalid ''data deletion plan readiness is invalid'')
               else if dp_Digest plan \<noteq> planDigest dg plan then Some (DInvalid ''data deletion plan digest mismatch'')
               else None)"

definition ValidatePlanCapabilities :: "digest_env \<Rightarrow> deletion_plan \<Rightarrow> CapabilitySnapshot \<Rightarrow> deletion_error option" where
  "ValidatePlanCapabilities dg plan capabilities = (case ValidatePlan dg plan of
      Some err \<Rightarrow> Some err
    | None \<Rightarrow>
        (case ValidateCapabilitySnapshot dg capabilities of
           Some err \<Rightarrow> Some err
         | None \<Rightarrow>
             if dp_CapabilityDigest plan \<noteq> cs_Digest capabilities
             then Some (DInvalid ''data deletion capability snapshot changed; preflight is required'')
             else case filter (\<lambda>s. \<not> CapabilityAvailable capabilities (sg_RequiredCapability s)) (dp_Stages plan) of
                    [] \<Rightarrow> None
                  | s # _ \<Rightarrow> Some (DCapabilityUnavailable (sg_RequiredCapability s))))"

section \<open>Checkpoints\<close>

definition pending_stage :: "string \<Rightarrow> StageCheckpoint" where
  "pending_stage i = \<lparr>sc_StageID = i, sc_Status = StagePending, sc_Attempts = 0, sc_LeaseToken = [], sc_LeaseUntil = 0, sc_ReceiptDigest = [],
     sc_FailureCode = [], sc_StartedAt = 0, sc_CompletedAt = 0\<rparr>"

definition NewCheckpoint :: "digest_env \<Rightarrow> deletion_plan \<Rightarrow> int \<Rightarrow> deletion_error + Checkpoint" where
  "NewCheckpoint dg plan now = (case ValidatePlan dg plan of
      Some err \<Rightarrow> Inl err
    | None \<Rightarrow>
        if now = 0 then Inl (DInvalid ''data deletion checkpoint time is required'')
        else Inr \<lparr>ck_PlanDigest = dp_Digest plan, ck_Revision = 1, ck_CurrentStageID = [], ck_Stages = map (\<lambda>s. pending_stage (sg_ID s)) (dp_Stages plan),
               ck_UpdatedAt = now\<rparr>)"

text \<open>
  The loop of \<^verbatim>\<open>validateCheckpoint\<close>: whether the frontier has been seen, the running stage, the
  stages left with those of the plan. It returns the running stage.
\<close>

fun scan_stages :: "bool \<Rightarrow> string \<Rightarrow> StageCheckpoint list \<Rightarrow> Stage list \<Rightarrow> deletion_error + string" where
  "scan_stages frontierSeen running (s # ss) (p # ps) =
     (if sc_StageID s \<noteq> sg_ID p \<or> sc_Attempts s < 0 then Inl (DInvalid ''data deletion checkpoint stages are invalid'')
      else if frontierSeen \<and> sc_Status s \<noteq> StagePending then Inl (DInvalid ''data deletion checkpoint stage order is invalid'')
      else if sc_Status s = StageSucceeded
      then if frontierSeen \<or> \<not> isSHA256 (sc_ReceiptDigest s) \<or> sc_CompletedAt s = 0 \<or> sc_LeaseToken s \<noteq> [] \<or> sc_LeaseUntil s \<noteq> 0
           then Inl (DInvalid ''data deletion succeeded checkpoint is invalid'')
           else scan_stages frontierSeen running ss ps
      else if sc_Status s = StagePending
      then if sc_LeaseToken s \<noteq> [] \<or> sc_LeaseUntil s \<noteq> 0 \<or> sc_ReceiptDigest s \<noteq> [] \<or> sc_FailureCode s \<noteq> [] \<or> sc_CompletedAt s \<noteq> 0
           then Inl (DInvalid ''data deletion pending checkpoint is invalid'')
           else scan_stages True running ss ps
      else if sc_Status s = StageRunning
      then if frontierSeen \<or> running \<noteq> [] \<or> trim_space (sc_LeaseToken s) = [] \<or> sc_LeaseUntil s = 0 \<or> sc_StartedAt s = 0
               \<or> sc_ReceiptDigest s \<noteq> [] \<or> sc_FailureCode s \<noteq> [] \<or> sc_CompletedAt s \<noteq> 0
           then Inl (DInvalid ''data deletion running checkpoint is invalid'')
           else scan_stages True (sc_StageID s) ss ps
      else if sc_Status s = StageFailed
      then if frontierSeen \<or> \<not> isFailureCode (sc_FailureCode s) \<or> sc_CompletedAt s = 0 \<or> sc_LeaseToken s \<noteq> [] \<or> sc_LeaseUntil s \<noteq> 0 \<or> sc_ReceiptDigest s \<noteq> []
           then Inl (DInvalid ''data deletion failed checkpoint is invalid'')
           else scan_stages True running ss ps
      else Inl (DInvalid ''data deletion checkpoint stage status is invalid''))"
| "scan_stages frontierSeen running _ _ = Inr running"

definition validateCheckpoint :: "Checkpoint \<Rightarrow> deletion_plan \<Rightarrow> deletion_error option" where
  "validateCheckpoint c plan =
     (if ck_PlanDigest c \<noteq> dp_Digest plan \<or> ck_Revision c < 1 \<or> ck_UpdatedAt c = 0 \<or> length (ck_Stages c) \<noteq> length (dp_Stages plan)
      then Some (DInvalid ''data deletion checkpoint identity is invalid'')
      else case scan_stages False [] (ck_Stages c) (dp_Stages plan) of
             Inl err \<Rightarrow> Some err
           | Inr running \<Rightarrow> if ck_CurrentStageID c \<noteq> running then Some (DInvalid ''data deletion checkpoint current stage is invalid'') else None)"

definition ValidateProtocol :: "digest_env \<Rightarrow> Protocol \<Rightarrow> deletion_error option" where
  "ValidateProtocol dg p = (case ValidatePlan dg (pr_Plan p) of Some err \<Rightarrow> Some err | None \<Rightarrow> validateCheckpoint (pr_Checkpoint p) (pr_Plan p))"

definition BuildProtocol :: "digest_env \<Rightarrow> Inventory \<Rightarrow> CapabilitySnapshot \<Rightarrow> int \<Rightarrow> deletion_error + Protocol" where
  "BuildProtocol dg inventory capabilities now = (case BuildPlan dg inventory capabilities now of
      Inl err \<Rightarrow> Inl err
    | Inr plan \<Rightarrow> (case NewCheckpoint dg plan now of Inl err \<Rightarrow> Inl err | Inr c \<Rightarrow> Inr \<lparr>pr_Plan = plan, pr_Checkpoint = c\<rparr>))"

text \<open>\<open>before\<close> says whether there is no stage before or the one before has succeeded.\<close>

fun next_index :: "nat \<Rightarrow> bool \<Rightarrow> StageCheckpoint list \<Rightarrow> deletion_error + nat" where
  "next_index i before [] = Inl (DInvalid ''data deletion protocol is already complete'')"
| "next_index i before (s # ss) =
     (if sc_Status s = StageSucceeded then next_index (Suc i) True ss
      else if \<not> before then Inl (DInvalid ''data deletion stage dependency is incomplete'')
      else if sc_Status s \<noteq> StagePending \<and> sc_Status s \<noteq> StageFailed \<and> sc_Status s \<noteq> StageRunning
      then Inl (DInvalid ''data deletion stage status is invalid'')
      else Inr i)"

definition nextStageIndex :: "Checkpoint \<Rightarrow> deletion_error + nat" where
  "nextStageIndex c = next_index 0 True (ck_Stages c)"

text \<open>Both operations return the checkpoint, which is unchanged after an error; \<open>None\<close> is a nil checkpoint.\<close>

definition ClaimNextStage :: "digest_env \<Rightarrow> Checkpoint option \<Rightarrow> deletion_plan \<Rightarrow> int \<Rightarrow> string \<Rightarrow> int \<Rightarrow> int \<Rightarrow> deletion_error + StageCheckpoint \<times> Checkpoint" where
  "ClaimNextStage dg checkpoint plan expectedRevision token now leaseUntil = (case checkpoint of
      None \<Rightarrow> Inl ErrCheckpointConflict
    | Some c \<Rightarrow>
        if expectedRevision \<noteq> ck_Revision c then Inl ErrCheckpointConflict
        else case ValidatePlan dg plan of Some err \<Rightarrow> Inl err | None \<Rightarrow>
          (case validateCheckpoint c plan of Some err \<Rightarrow> Inl err | None \<Rightarrow>
            if \<not> dp_Ready plan then Inl ErrPlanNotReady
            else let token' = trim_space token
              in if token' = [] \<or> 128 < length token' \<or> now = 0 \<or> leaseUntil \<le> now \<or> maxStageLease < leaseUntil - now
                 then Inl (DInvalid ''data deletion stage claim is invalid'')
                 else case nextStageIndex c of Inl err \<Rightarrow> Inl err | Inr i \<Rightarrow>
                   let stage = ck_Stages c ! i
                   in if sc_Status stage = StageRunning \<and> now < sc_LeaseUntil stage then Inl ErrStageBusy
                      else let stage' = stage\<lparr>sc_Status := StageRunning, sc_Attempts := sc_Attempts stage + 1, sc_LeaseToken := token', sc_LeaseUntil := leaseUntil,
                                 sc_ReceiptDigest := [], sc_FailureCode := [], sc_StartedAt := now, sc_CompletedAt := 0\<rparr>
                           in Inr (stage', c\<lparr>ck_Stages := (ck_Stages c)[i := stage'], ck_CurrentStageID := sc_StageID stage',
                                ck_Revision := ck_Revision c + 1, ck_UpdatedAt := now\<rparr>)))"

fun running_index :: "nat \<Rightarrow> string \<Rightarrow> string \<Rightarrow> StageCheckpoint list \<Rightarrow> nat option" where
  "running_index i current token [] = None"
| "running_index i current token (s # ss) =
     (if sc_StageID s = current \<and> sc_Status s = StageRunning \<and> sc_LeaseToken s = token then Some i else running_index (Suc i) current token ss)"

definition CompleteStage :: "digest_env \<Rightarrow> Checkpoint option \<Rightarrow> deletion_plan \<Rightarrow> int \<Rightarrow> string \<Rightarrow> string \<Rightarrow> string \<Rightarrow> string \<Rightarrow> int \<Rightarrow> deletion_error + Checkpoint" where
  "CompleteStage dg checkpoint plan expectedRevision token status receiptDigest failureCode now = (case checkpoint of
      None \<Rightarrow> Inl ErrCheckpointConflict
    | Some c \<Rightarrow>
        if expectedRevision \<noteq> ck_Revision c then Inl ErrCheckpointConflict
        else case ValidatePlan dg plan of Some err \<Rightarrow> Inl err | None \<Rightarrow>
          (case validateCheckpoint c plan of Some err \<Rightarrow> Inl err | None \<Rightarrow>
            if status \<noteq> StageSucceeded \<and> status \<noteq> StageFailed then Inl (DInvalid ''data deletion stage completion status is invalid'')
            else let token' = trim_space token; receipt = to_lower (trim_space receiptDigest); code = trim_space failureCode
              in if token' = [] \<or> now = 0 then Inl (DInvalid ''data deletion stage completion is invalid'')
                 else if status = StageSucceeded \<and> \<not> isSHA256 receipt
                 then Inl (DInvalid ''successful data deletion stage requires a SHA-256 receipt digest'')
                 else if status = StageFailed \<and> \<not> isFailureCode code
                 then Inl (DInvalid ''failed data deletion stage requires a bounded failure code'')
                 else case running_index 0 (ck_CurrentStageID c) token' (ck_Stages c) of None \<Rightarrow> Inl ErrStageNotRunning | Some i \<Rightarrow>
                   let stage = ck_Stages c ! i
                   in if sc_LeaseUntil stage \<le> now then Inl ErrStageLeaseExpired
                      else Inr (c\<lparr>ck_Stages := (ck_Stages c)[i := stage\<lparr>sc_Status := status, sc_ReceiptDigest := receipt, sc_FailureCode := code,
                                    sc_LeaseToken := [], sc_LeaseUntil := 0, sc_CompletedAt := now\<rparr>],
                                  ck_CurrentStageID := [], ck_Revision := ck_Revision c + 1, ck_UpdatedAt := now\<rparr>)))"

end
