(* ===== verification/Deletion_Runs.thy ===== *)
theory Deletion_Runs
  imports Deletion_Protocol
begin

text \<open>
  What the deletion protocol guarantees: valid checkpoints stay valid and stages succeed in the order
  of the plan, leases exclude one another, and plans are ready exactly when nothing blocks them.
\<close>

section \<open>The shape of a valid checkpoint\<close>

definition succ_ok :: "StageCheckpoint \<Rightarrow> bool" where
  "succ_ok s \<longleftrightarrow> sc_Status s = StageSucceeded \<and> isSHA256 (sc_ReceiptDigest s) \<and> sc_CompletedAt s \<noteq> 0 \<and> sc_LeaseToken s = [] \<and> sc_LeaseUntil s = 0"

definition pend_ok :: "StageCheckpoint \<Rightarrow> bool" where
  "pend_ok s \<longleftrightarrow> sc_Status s = StagePending \<and> sc_LeaseToken s = [] \<and> sc_LeaseUntil s = 0 \<and> sc_ReceiptDigest s = [] \<and> sc_FailureCode s = [] \<and> sc_CompletedAt s = 0"

definition run_ok :: "StageCheckpoint \<Rightarrow> bool" where
  "run_ok s \<longleftrightarrow> sc_Status s = StageRunning \<and> trim_space (sc_LeaseToken s) \<noteq> [] \<and> sc_LeaseUntil s \<noteq> 0 \<and> sc_StartedAt s \<noteq> 0
     \<and> sc_ReceiptDigest s = [] \<and> sc_FailureCode s = [] \<and> sc_CompletedAt s = 0"

definition fail_ok :: "StageCheckpoint \<Rightarrow> bool" where
  "fail_ok s \<longleftrightarrow> sc_Status s = StageFailed \<and> isFailureCode (sc_FailureCode s) \<and> sc_CompletedAt s \<noteq> 0 \<and> sc_LeaseToken s = [] \<and> sc_LeaseUntil s = 0
     \<and> sc_ReceiptDigest s = []"

lemmas stage_oks = succ_ok_def pend_ok_def run_ok_def fail_ok_def

text \<open>The first \<open>k\<close> stages have succeeded, the next is at the frontier, the rest are pending.\<close>

fun shape :: "nat \<Rightarrow> StageCheckpoint list \<Rightarrow> bool" where
  "shape k [] \<longleftrightarrow> k = 0"
| "shape 0 (s # ss) \<longleftrightarrow> (pend_ok s \<or> run_ok s \<or> fail_ok s) \<and> list_all pend_ok ss"
| "shape (Suc k) (s # ss) \<longleftrightarrow> succ_ok s \<and> shape k ss"

definition running_of :: "nat \<Rightarrow> StageCheckpoint list \<Rightarrow> string" where
  "running_of k ss = (if k < length ss \<and> sc_Status (ss ! k) = StageRunning then sc_StageID (ss ! k) else [])"

definition ids_ok :: "StageCheckpoint list \<Rightarrow> Stage list \<Rightarrow> bool" where
  "ids_ok ss ps \<longleftrightarrow> list_all2 (\<lambda>s p. sc_StageID s = sg_ID p \<and> 0 \<le> sc_Attempts s) ss ps"

lemma scan_after_frontier:
  "length ss = length ps \<Longrightarrow> scan_stages True running ss ps = Inr r \<longleftrightarrow> ids_ok ss ps \<and> list_all pend_ok ss \<and> r = running"
proof (induction ss ps rule: list_induct2)
  case (Cons s ss p ps)
  show ?case using Cons.IH by (auto simp: ids_ok_def pend_ok_def not_less stage_statuses)
qed (auto simp: ids_ok_def)

lemma shape_length: "shape k ss \<Longrightarrow> k \<le> length ss"
  by (induction k ss rule: shape.induct) auto

lemma scan_iff:
  "length ss = length ps \<Longrightarrow> scan_stages False [] ss ps = Inr r \<longleftrightarrow> ids_ok ss ps \<and> (\<exists>k. shape k ss \<and> r = running_of k ss)"
proof (induction ss ps rule: list_induct2)
  case Nil
  then show ?case by (auto simp: ids_ok_def running_of_def)
next
  case (Cons s ss p ps)
  have ids: "ids_ok (s # ss) (p # ps) \<longleftrightarrow> sc_StageID s = sg_ID p \<and> 0 \<le> sc_Attempts s \<and> ids_ok ss ps" by (simp add: ids_ok_def)
  have sh: "(\<exists>k. shape k (s # ss) \<and> r = running_of k (s # ss)) \<longleftrightarrow>
      (pend_ok s \<or> fail_ok s) \<and> list_all pend_ok ss \<and> r = [] \<or> run_ok s \<and> list_all pend_ok ss \<and> r = sc_StageID s
      \<or> succ_ok s \<and> (\<exists>k. shape k ss \<and> r = running_of k ss)" (is "?l \<longleftrightarrow> ?r")
  proof
    assume ?l
    then obtain k where "shape k (s # ss)" "r = running_of k (s # ss)" by blast
    then show ?r by (cases k) (auto simp: running_of_def stage_oks stage_statuses)
  next
    assume ?r
    then show ?l
    proof (elim disjE conjE exE)
      assume "pend_ok s" "list_all pend_ok ss" "r = []"
      then show ?l by (intro exI [of _ 0]) (simp add: running_of_def pend_ok_def stage_statuses)
    next
      assume "fail_ok s" "list_all pend_ok ss" "r = []"
      then show ?l by (intro exI [of _ 0]) (simp add: running_of_def fail_ok_def stage_statuses)
    next
      assume "run_ok s" "list_all pend_ok ss" "r = sc_StageID s"
      then show ?l by (intro exI [of _ 0]) (simp add: running_of_def run_ok_def stage_statuses)
    next
      fix k assume "succ_ok s" "shape k ss" "r = running_of k ss"
      then show ?l by (intro exI [of _ "Suc k"]) (simp add: running_of_def)
    qed
  qed
  show ?case
  proof (cases "sc_StageID s = sg_ID p \<and> 0 \<le> sc_Attempts s")
    case False
    then show ?thesis by (auto simp: ids)
  next
    case True
    note L = scan_after_frontier [OF Cons.hyps]
    consider "sc_Status s = StageSucceeded" | "sc_Status s = StagePending" | "sc_Status s = StageRunning" | "sc_Status s = StageFailed"
      | "sc_Status s \<notin> {StageSucceeded, StagePending, StageRunning, StageFailed}" by auto
    then show ?thesis
      unfolding ids sh using True Cons.IH by cases (auto simp: L stage_oks stage_statuses)
  qed
qed

definition valid_checkpoint :: "Checkpoint \<Rightarrow> deletion_plan \<Rightarrow> nat \<Rightarrow> bool" where
  "valid_checkpoint c plan k \<longleftrightarrow> ck_PlanDigest c = dp_Digest plan \<and> 1 \<le> ck_Revision c \<and> ck_UpdatedAt c \<noteq> 0 \<and> length (ck_Stages c) = length (dp_Stages plan)
     \<and> ids_ok (ck_Stages c) (dp_Stages plan) \<and> shape k (ck_Stages c) \<and> ck_CurrentStageID c = running_of k (ck_Stages c)"

lemma validateCheckpoint_iff: "validateCheckpoint c plan = None \<longleftrightarrow> (\<exists>k. valid_checkpoint c plan k)"
proof (cases "length (ck_Stages c) = length (dp_Stages plan)")
  case True
  have "validateCheckpoint c plan = None \<longleftrightarrow> ck_PlanDigest c = dp_Digest plan \<and> 1 \<le> ck_Revision c \<and> ck_UpdatedAt c \<noteq> 0
      \<and> scan_stages False [] (ck_Stages c) (dp_Stages plan) = Inr (ck_CurrentStageID c)"
    using True by (auto simp: validateCheckpoint_def not_less split: sum.splits)
  then show ?thesis unfolding scan_iff [OF True] valid_checkpoint_def using True by auto
qed (auto simp: validateCheckpoint_def valid_checkpoint_def)

lemma shape_nth:
  "shape k ss \<Longrightarrow> i < k \<Longrightarrow> succ_ok (ss ! i)"
  "shape k ss \<Longrightarrow> k < length ss \<Longrightarrow> pend_ok (ss ! k) \<or> run_ok (ss ! k) \<or> fail_ok (ss ! k)"
  by (induction k ss arbitrary: i rule: shape.induct) (auto simp: nth_Cons' split: if_splits)

lemma shape_unique: "shape k ss \<Longrightarrow> shape k' ss \<Longrightarrow> k = k'"
proof (induction k ss arbitrary: k' rule: shape.induct)
  case (2 s ss)
  then show ?case by (cases k') (auto simp: stage_oks stage_statuses)
next
  case (3 k s ss)
  then show ?case by (cases k') (auto simp: stage_oks stage_statuses)
qed simp

lemma shape_update:
  assumes "shape k ss" "k < length ss"
  shows "pend_ok s \<or> run_ok s \<or> fail_ok s \<Longrightarrow> shape k (ss[k := s])" "succ_ok s \<Longrightarrow> shape (Suc k) (ss[k := s])"
proof -
  have pend: "list_all pend_ok xs \<Longrightarrow> shape 0 xs" for xs by (cases xs) auto
  show "pend_ok s \<or> run_ok s \<or> fail_ok s \<Longrightarrow> shape k (ss[k := s])" "succ_ok s \<Longrightarrow> shape (Suc k) (ss[k := s])"
    using assms by (induction k ss rule: shape.induct) (auto simp: pend)
qed

lemma next_index_shape:
  "shape k ss \<Longrightarrow> next_index i True ss = (if k < length ss then Inr (i + k) else Inl (DInvalid ''data deletion protocol is already complete''))"
  by (induction k ss arbitrary: i rule: shape.induct) (auto simp: stage_oks stage_statuses)

section \<open>The two operations on a valid checkpoint\<close>

definition claimed_stage :: "StageCheckpoint \<Rightarrow> string \<Rightarrow> int \<Rightarrow> int \<Rightarrow> StageCheckpoint" where
  "claimed_stage stage token now leaseUntil = stage\<lparr>sc_Status := StageRunning, sc_Attempts := sc_Attempts stage + 1, sc_LeaseToken := trim_space token,
     sc_LeaseUntil := leaseUntil, sc_ReceiptDigest := [], sc_FailureCode := [], sc_StartedAt := now, sc_CompletedAt := 0\<rparr>"

definition completed_stage :: "StageCheckpoint \<Rightarrow> string \<Rightarrow> string \<Rightarrow> string \<Rightarrow> int \<Rightarrow> StageCheckpoint" where
  "completed_stage stage status receipt code now = stage\<lparr>sc_Status := status, sc_ReceiptDigest := to_lower (trim_space receipt), sc_FailureCode := trim_space code,
     sc_LeaseToken := [], sc_LeaseUntil := 0, sc_CompletedAt := now\<rparr>"

lemma claim_Inr:
  assumes "valid_checkpoint c plan k" "ClaimNextStage dg (Some c) plan expected token now leaseUntil = Inr (stage', c')"
  shows "k < length (ck_Stages c)" "trim_space token \<noteq> []" "now < leaseUntil" "leaseUntil - now \<le> maxStageLease" "now \<noteq> 0" "expected = ck_Revision c" "dp_Ready plan"
    "stage' = claimed_stage (ck_Stages c ! k) token now leaseUntil"
    "c' = c\<lparr>ck_Stages := (ck_Stages c)[k := stage'], ck_CurrentStageID := sc_StageID stage', ck_Revision := ck_Revision c + 1, ck_UpdatedAt := now\<rparr>"
    "sc_Status (ck_Stages c ! k) = StageRunning \<Longrightarrow> sc_LeaseUntil (ck_Stages c ! k) \<le> now"
proof -
  have n: "nextStageIndex c = (if k < length (ck_Stages c) then Inr k else Inl (DInvalid ''data deletion protocol is already complete''))"
    using assms(1) next_index_shape [of k "ck_Stages c" 0] by (simp add: nextStageIndex_def valid_checkpoint_def)
  show "k < length (ck_Stages c)" "trim_space token \<noteq> []" "now < leaseUntil" "leaseUntil - now \<le> maxStageLease" "now \<noteq> 0" "expected = ck_Revision c" "dp_Ready plan"
    "stage' = claimed_stage (ck_Stages c ! k) token now leaseUntil"
    "c' = c\<lparr>ck_Stages := (ck_Stages c)[k := stage'], ck_CurrentStageID := sc_StageID stage', ck_Revision := ck_Revision c + 1, ck_UpdatedAt := now\<rparr>"
    "sc_Status (ck_Stages c ! k) = StageRunning \<Longrightarrow> sc_LeaseUntil (ck_Stages c ! k) \<le> now"
    using assms(2) n by (auto simp: ClaimNextStage_def Let_def claimed_stage_def split: if_splits option.splits)
qed

lemma running_index_Some:
  "running_index i current token ss = Some j \<Longrightarrow>
     \<exists>d. j = i + d \<and> d < length ss \<and> sc_StageID (ss ! d) = current \<and> sc_Status (ss ! d) = StageRunning \<and> sc_LeaseToken (ss ! d) = token"
proof (induction ss arbitrary: i)
  case (Cons s ss)
  show ?case
  proof (cases "sc_StageID s = current \<and> sc_Status s = StageRunning \<and> sc_LeaseToken s = token")
    case True
    then show ?thesis using Cons.prems by (intro exI [of _ 0]) auto
  next
    case False
    then have "running_index (Suc i) current token ss = Some j" using Cons.prems by auto
    from Cons.IH [OF this] obtain d where "j = Suc i + d" "d < length ss" "sc_StageID (ss ! d) = current" "sc_Status (ss ! d) = StageRunning"
      "sc_LeaseToken (ss ! d) = token" by blast
    then show ?thesis by (intro exI [of _ "Suc d"]) simp
  qed
qed simp

lemma shape_pending: "shape k ss \<Longrightarrow> k < j \<Longrightarrow> j < length ss \<Longrightarrow> pend_ok (ss ! j)"
  by (induction k ss arbitrary: j rule: shape.induct) (auto simp: nth_Cons' list_all_length split: if_splits)

lemma shape_running:
  assumes "shape k ss" "j < length ss" "sc_Status (ss ! j) = StageRunning"
  shows "j = k"
  using assms shape_nth(1) [of k ss j] shape_pending [of k ss j]
  by (cases k j rule: linorder_cases) (auto simp: stage_oks stage_statuses)

lemma shape_succeeded:
  assumes "shape k ss" "j < length ss" "sc_Status (ss ! j) = StageSucceeded"
  shows "j < k"
  using assms shape_nth(2) [of k ss] shape_pending [of k ss j]
  by (cases k j rule: linorder_cases) (auto simp: stage_oks stage_statuses)

lemma running_index_frontier:
  assumes "shape k ss" "k < length ss" "sc_Status (ss ! k) = StageRunning" "sc_StageID (ss ! k) = current" "sc_LeaseToken (ss ! k) = token"
  shows "running_index i current token ss = Some (i + k)"
  using assms by (induction k ss arbitrary: i rule: shape.induct) (auto simp: stage_oks stage_statuses)

lemma complete_Inr:
  assumes "valid_checkpoint c plan k" "CompleteStage dg (Some c) plan expected token status receipt code now = Inr c'"
  shows "k < length (ck_Stages c)" "run_ok (ck_Stages c ! k)" "sc_LeaseToken (ck_Stages c ! k) = trim_space token" "now < sc_LeaseUntil (ck_Stages c ! k)" "now \<noteq> 0"
    "expected = ck_Revision c" "status = StageSucceeded \<and> isSHA256 (to_lower (trim_space receipt)) \<or> status = StageFailed \<and> isFailureCode (trim_space code)"
    "c' = c\<lparr>ck_Stages := (ck_Stages c)[k := completed_stage (ck_Stages c ! k) status receipt code now], ck_CurrentStageID := [], ck_Revision := ck_Revision c + 1, ck_UpdatedAt := now\<rparr>"
proof -
  obtain j where j: "running_index 0 (ck_CurrentStageID c) (trim_space token) (ck_Stages c) = Some j"
    using assms(2) by (auto simp: CompleteStage_def Let_def split: if_splits option.splits)
  from running_index_Some [OF j] have r: "j < length (ck_Stages c)" "sc_Status (ck_Stages c ! j) = StageRunning" "sc_LeaseToken (ck_Stages c ! j) = trim_space token" by auto
  have sh: "shape k (ck_Stages c)" using assms(1) by (simp add: valid_checkpoint_def)
  have e: "j = k" by (rule shape_running [OF sh r(1,2)])
  show "k < length (ck_Stages c)" "sc_LeaseToken (ck_Stages c ! k) = trim_space token" using r e by simp_all
  show "run_ok (ck_Stages c ! k)" using shape_nth(2) [OF sh] r e by (auto simp: stage_oks stage_statuses)
  show "now < sc_LeaseUntil (ck_Stages c ! k)" "now \<noteq> 0" "expected = ck_Revision c"
    "status = StageSucceeded \<and> isSHA256 (to_lower (trim_space receipt)) \<or> status = StageFailed \<and> isFailureCode (trim_space code)"
    "c' = c\<lparr>ck_Stages := (ck_Stages c)[k := completed_stage (ck_Stages c ! k) status receipt code now], ck_CurrentStageID := [], ck_Revision := ck_Revision c + 1, ck_UpdatedAt := now\<rparr>"
    using assms(2) j e by (auto simp: CompleteStage_def Let_def completed_stage_def split: if_splits option.splits)
qed

lemma ids_ok_update:
  assumes "ids_ok ss ps" "k < length ss" "sc_StageID s = sc_StageID (ss ! k)" "0 \<le> sc_Attempts s"
  shows "ids_ok (ss[k := s]) ps"
  using assms unfolding ids_ok_def by (auto simp: list_all2_conv_all_nth nth_list_update)

lemma claim_valid:
  assumes "valid_checkpoint c plan k" "ClaimNextStage dg (Some c) plan expected token now leaseUntil = Inr (stage', c')" "0 < now"
  shows "valid_checkpoint c' plan k"
proof -
  note C = claim_Inr [OF assms(1,2)]
  have v: "shape k (ck_Stages c)" "ids_ok (ck_Stages c) (dp_Stages plan)" using assms(1) by (simp_all add: valid_checkpoint_def)
  have "run_ok stage'" using C(2,3,8) assms(3) by (simp add: run_ok_def claimed_stage_def)
  then have "shape k ((ck_Stages c)[k := stage'])" using shape_update(1) [OF v(1) C(1)] by blast
  moreover have "ids_ok ((ck_Stages c)[k := stage']) (dp_Stages plan)"
    using v(2) C(1,8) by (intro ids_ok_update) (auto simp: claimed_stage_def ids_ok_def list_all2_conv_all_nth)
  moreover have "running_of k ((ck_Stages c)[k := stage']) = sc_StageID stage'" using C(1,8) by (simp add: running_of_def claimed_stage_def)
  ultimately show ?thesis using assms(1,3) C(9) by (simp add: valid_checkpoint_def)
qed

lemma complete_valid:
  assumes "valid_checkpoint c plan k" "CompleteStage dg (Some c) plan expected token status receipt code now = Inr c'"
    and "status = StageFailed \<Longrightarrow> trim_space receipt = []"
  shows "valid_checkpoint c' plan (if status = StageSucceeded then Suc k else k)"
proof -
  note C = complete_Inr [OF assms(1,2)]
  let ?s = "completed_stage (ck_Stages c ! k) status receipt code now" and ?k = "if status = StageSucceeded then Suc k else k"
  have v: "shape k (ck_Stages c)" "ids_ok (ck_Stages c) (dp_Stages plan)" using assms(1) by (simp_all add: valid_checkpoint_def)
  have "if status = StageSucceeded then succ_ok ?s else fail_ok ?s"
    using C(5,7) assms(3) by (auto simp: succ_ok_def fail_ok_def completed_stage_def stage_statuses)
  then have sh: "shape ?k ((ck_Stages c)[k := ?s])" using shape_update [OF v(1) C(1)] by (auto split: if_splits)
  moreover have "ids_ok ((ck_Stages c)[k := ?s]) (dp_Stages plan)"
    using v(2) C(1) by (intro ids_ok_update) (auto simp: completed_stage_def ids_ok_def list_all2_conv_all_nth)
  moreover have "running_of ?k ((ck_Stages c)[k := ?s]) = []"
  proof (rule ccontr)
    assume "running_of ?k ((ck_Stages c)[k := ?s]) \<noteq> []"
    then have r: "?k < length (ck_Stages c)" "sc_Status ((ck_Stages c)[k := ?s] ! ?k) = StageRunning" by (auto simp: running_of_def split: if_splits)
    have "?k \<noteq> k" using r C(1,7) by (auto simp: completed_stage_def stage_statuses)
    then show False using r shape_running [OF v(1) r(1)] by (auto split: if_splits)
  qed
  ultimately show ?thesis using assms(1) C(5,8) by (simp add: valid_checkpoint_def)
qed

section \<open>Plans and capabilities\<close>

lemma sort_search_finds:
  assumes "sorted ids" "i \<le> j" "j \<le> length ids" "\<And>m. m < i \<Longrightarrow> ids ! m < x" "\<And>m. j \<le> m \<Longrightarrow> m < length ids \<Longrightarrow> x \<le> ids ! m"
  defines "r \<equiv> sort_search i j (\<lambda>m. x \<le> ids ! m)"
  shows "r \<le> length ids \<and> (\<forall>m<r. ids ! m < x) \<and> (\<forall>m. r \<le> m \<and> m < length ids \<longrightarrow> x \<le> ids ! m)"
  unfolding r_def using assms(2-5)
proof (induction "j - i" arbitrary: i j rule: less_induct)
  case less
  show ?case
  proof (cases "i < j")
    case True
    let ?h = "(i + j) div 2"
    have h: "i \<le> ?h" "?h < j" using True by auto
    have hl: "?h < length ids" using h less.prems(2) by simp
    show ?thesis
    proof (cases "x \<le> ids ! ?h")
      case le: True
      have up: "x \<le> ids ! m" if "?h \<le> m" "m < length ids" for m using le that sorted_nth_mono [OF assms(1) that(1,2)] by simp
      have S: "sort_search i j (\<lambda>m. x \<le> ids ! m) = sort_search i ?h (\<lambda>m. x \<le> ids ! m)"
        using le True by (subst sort_search.simps) (simp add: Let_def)
      show ?thesis unfolding S by (rule less.hyps) (use h hl up less.prems(3) in auto)
    next
      case gt: False
      have down: "ids ! m < x" if "m < ?h + 1" for m using gt that hl sorted_nth_mono [OF assms(1), of m ?h] by auto
      have S: "sort_search i j (\<lambda>m. x \<le> ids ! m) = sort_search (?h + 1) j (\<lambda>m. x \<le> ids ! m)"
        using gt True by (subst sort_search.simps) (simp add: Let_def)
      show ?thesis unfolding S by (rule less.hyps) (use h down less.prems(2,4) in auto)
    qed
  next
    case False
    then have S: "sort_search i j (\<lambda>m. x \<le> ids ! m) = i" by (subst sort_search.simps) simp
    show ?thesis unfolding S using less.prems False by auto
  qed
qed

text \<open>Bisection finds a capability of a valid snapshot exactly if it is there.\<close>

lemma CapabilityAvailable_iff:
  assumes "sorted (map cd_ID (cs_Capabilities s))"
  shows "CapabilityAvailable s x \<longleftrightarrow> x \<in> cd_ID ` set (cs_Capabilities s)"
proof -
  let ?ids = "map cd_ID (cs_Capabilities s)"
  define r where "r = sort_search 0 (length ?ids) (\<lambda>m. x \<le> ?ids ! m)"
  have R: "r \<le> length ?ids" "\<And>m. m < r \<Longrightarrow> ?ids ! m < x" "\<And>m. r \<le> m \<Longrightarrow> m < length ?ids \<Longrightarrow> x \<le> ?ids ! m"
    using sort_search_finds [OF assms, of 0 "length ?ids" x] unfolding r_def by auto
  have "r < length ?ids \<and> ?ids ! r = x" if x: "x \<in> set ?ids"
  proof -
    obtain m where m: "m < length ?ids" "?ids ! m = x" using x by (metis in_set_conv_nth)
    have "r \<le> m" using R(2) [of m] m by (meson less_irrefl not_le)
    moreover have "?ids ! r \<le> ?ids ! m" using sorted_nth_mono [OF assms \<open>r \<le> m\<close> m(1)] .
    ultimately show ?thesis using R(3) [of r] m by auto
  qed
  then show ?thesis unfolding CapabilityAvailable_def Let_def r_def [symmetric] by (metis nth_mem set_map)
qed

lemma check_descriptors_sorted:
  "check_descriptors previous ds = None \<Longrightarrow> sorted_wrt (<) (previous # map cd_ID ds)"
proof (induction previous ds rule: check_descriptors.induct)
  case (2 previous d ds)
  then have "previous < cd_ID d" "sorted_wrt (<) (cd_ID d # map cd_ID ds)" by (auto split: option.splits if_splits)
  then show ?case by (auto intro: less_trans)
qed simp

lemma default_stages_ok: "check_stages 0 defaultStages defaultStages = None" "length defaultStages = 8"
  by code_simp+

lemma default_stage_ids: "map sg_ID defaultStages = [StageEnforceWriteFence, StageDetachRelationships, StageDeleteMinIO, StageDeleteQdrant,
    StageDeleteTweets, StageDeleteMongo, StageVerify, StageFinalize]" "map sg_RequiredCapability defaultStages = knownCapabilities"
  by code_simp+

lemma planDigest_update [simp]: "planDigest dg (plan\<lparr>dp_Digest := d\<rparr>) = planDigest dg plan"
  by (simp add: planDigest_def)

text \<open>Trimming keeps a blocker that starts with a letter from being dropped.\<close>

lemma normalizedStrings_empty_iff: "normalizedStrings values = [] \<longleftrightarrow> (\<forall>v\<in>set values. trim_space v = [])"
proof -
  have "normalizedStrings values = [] \<longleftrightarrow> filter (\<lambda>v. v \<noteq> []) (map trim_space values) = []"
    unfolding normalizedStrings_def by (metis remdups_eq_nil_iff set_empty set_sort)
  then show ?thesis by (auto simp: filter_empty_conv)
qed

lemma set_normalizedStrings: "set (normalizedStrings values) = {v \<in> trim_space ` set values. v \<noteq> []}"
  by (auto simp: normalizedStrings_def)

lemma strip_keeps: "c \<in> set s \<Longrightarrow> \<forall>w\<in>set ws. c \<notin> set w \<Longrightarrow> c \<in> set (strip_prefixes n ws s)"
proof (induction n arbitrary: s)
  case (Suc n)
  show ?case
  proof (cases "List.find (\<lambda>w. prefix w s) ws")
    case (Some w)
    then have w: "w \<in> set ws" "prefix w s" by (auto simp: find_Some_iff)
    then obtain t where "s = w @ t" by (auto simp: prefix_def)
    then have "c \<in> set (drop (length w) s)" using Suc.prems w(1) by auto
    then show ?thesis using Suc Some by simp
  qed (use Suc.prems in simp)
qed simp

text \<open>A character of no white space encoding survives trimming.\<close>

lemma trim_space_keeps:
  assumes "c \<in> set s" "\<forall>w\<in>set white_spaces. c \<notin> set w"
  shows "c \<in> set (trim_space s)"
proof -
  have "c \<in> set (trim_left s)" using strip_keeps [OF assms] by (simp add: trim_left_def)
  moreover have "\<forall>w\<in>set rev_white_spaces. c \<notin> set w" using assms(2) by (auto simp: rev_white_spaces_def)
  ultimately show ?thesis using strip_keeps [of c "rev (trim_left s)" rev_white_spaces] by (simp add: trim_space_def trim_right_def)
qed

lemma colon_solid: "\<forall>w\<in>set white_spaces. CHR '':'' \<notin> set w"
  by code_simp

lemma plan_blockers_empty_iff:
  "plan_blockers inventory capabilities stages = [] \<longleftrightarrow>
     (\<forall>s\<in>set stages. CapabilityAvailable capabilities (sg_RequiredCapability s))
     \<and> (\<forall>r\<in>set (iv_Unsupported inventory). trim_space r = [] \<or> trim_space r \<in> set knownExternalResources)
     \<and> (\<forall>(r, count)\<in>set (iv_Related inventory). 0 < count \<longrightarrow> r \<notin> set relationshipResolutionRequired)"
proof -
  have keep: "trim_space (a @ '':'' @ b) \<noteq> []" for a b using trim_space_keeps [OF _ colon_solid, of "a @ '':'' @ b"] by force
  have m: "trim_space (''missing_capability:'' @ b) \<noteq> []" "trim_space (''unsupported_resource:'' @ b) \<noteq> []" "trim_space (''relationship_resolution_required:'' @ b) \<noteq> []" for b
    using keep [of "''missing_capability''" b] keep [of "''unsupported_resource''" b] keep [of "''relationship_resolution_required''" b] by simp_all
  show ?thesis
    unfolding plan_blockers_def normalizedStrings_empty_iff set_append ball_Un set_map ball_simps set_filter using m
    by (auto simp: set_normalizedStrings simp del: append_Cons)
qed

lemma built_plan:
  assumes "BuildPlan dg inventory capabilities now = Inr plan" "\<And>x. isSHA256 (dg_sha256 dg x)"
  shows "ValidatePlan dg plan = None" "dp_Ready plan \<longleftrightarrow> plan_blockers inventory capabilities defaultStages = []"
    "ValidateCapabilitySnapshot dg capabilities = None" "dp_CapabilityDigest plan = cs_Digest capabilities" "dp_Stages plan = defaultStages"
proof -
  have n: "now \<noteq> 0" "ValidateCapabilitySnapshot dg capabilities = None" using assms(1) by (auto simp: BuildPlan_def split: if_splits option.splits)
  define blockers where "blockers = plan_blockers inventory capabilities defaultStages"
  define p0 where "p0 = \<lparr>dp_SchemaVersion = ProtocolSchemaV1, dp_Digest = [], dp_InventoryDigest = inventoryDigest dg inventory,
      dp_CapabilityDigest = cs_Digest capabilities, dp_Ready = (blockers = []), dp_Blockers = blockers, dp_Stages = defaultStages, dp_GeneratedAt = now\<rparr>"
  have plan: "plan = p0\<lparr>dp_Digest := planDigest dg p0\<rparr>"
    using assms(1) unfolding BuildPlan_def p0_def blockers_def Let_def by (auto split: if_splits option.splits)
  have cap: "isSHA256 (cs_Digest capabilities)" using n(2) by (auto simp: ValidateCapabilitySnapshot_def split: if_splits)
  have sha: "isSHA256 (planDigest dg p)" "isSHA256 (inventoryDigest dg i)" for p i using assms(2) by (simp_all add: planDigest_def inventoryDigest_def)
  have digest: "dp_Digest plan = planDigest dg plan" by (simp add: plan)
  show "ValidatePlan dg plan = None"
    unfolding ValidatePlan_def digest using n(1) cap default_stages_ok(1) sha(1) [of plan] sha(2) [of inventory] by (simp add: plan p0_def)
  show "dp_Ready plan \<longleftrightarrow> plan_blockers inventory capabilities defaultStages = []" "ValidateCapabilitySnapshot dg capabilities = None"
    "dp_CapabilityDigest plan = cs_Digest capabilities" "dp_Stages plan = defaultStages"
    using n(2) by (simp_all add: plan p0_def blockers_def)
qed

lemma ready_plan_capabilities:
  assumes "BuildPlan dg inventory capabilities now = Inr plan" "\<And>x. isSHA256 (dg_sha256 dg x)" "dp_Ready plan"
  shows "ValidatePlanCapabilities dg plan capabilities = None"
proof -
  note P = built_plan [OF assms(1,2)]
  have "filter (\<lambda>s. \<not> CapabilityAvailable capabilities (sg_RequiredCapability s)) (dp_Stages plan) = []"
    using assms(3) P(2,5) by (auto simp: plan_blockers_empty_iff filter_empty_conv)
  then show ?thesis using P by (simp add: ValidatePlanCapabilities_def)
qed

text \<open>
  Built plans are valid and ready exactly when nothing blocks them. If building a plan succeeds (with
  a SHA-256 function that gives 64 hexadecimal digits), the plan passes its validation, and it is ready
  if and only if the snapshot has all eight capabilities, every unsupported resource is one of
  the known external ones, and no relationship that needs resolution is left; and against the same
  capabilities a ready plan passes the capability check.
\<close>

theorem BuildPlan_valid:
  assumes "BuildPlan dg inventory capabilities now = Inr plan" "\<And>x. isSHA256 (dg_sha256 dg x)"
  shows "ValidatePlan dg plan = None
    \<and> (dp_Ready plan \<longleftrightarrow> set knownCapabilities \<subseteq> cd_ID ` set (cs_Capabilities capabilities)
         \<and> (\<forall>r\<in>set (iv_Unsupported inventory). trim_space r = [] \<or> trim_space r \<in> set knownExternalResources)
         \<and> (\<forall>(r, count)\<in>set (iv_Related inventory). 0 < count \<longrightarrow> r \<notin> set relationshipResolutionRequired))
    \<and> (dp_Ready plan \<longrightarrow> ValidatePlanCapabilities dg plan capabilities = None)"
proof -
  note P = built_plan [OF assms]
  have "check_descriptors [] (cs_Capabilities capabilities) = None"
    using P(3) by (auto simp: ValidateCapabilitySnapshot_def split: if_splits option.splits)
  then have sorted: "sorted (map cd_ID (cs_Capabilities capabilities))" using check_descriptors_sorted by (fastforce simp: strict_sorted_iff)
  have stages: "(\<forall>s\<in>set defaultStages. CapabilityAvailable capabilities (sg_RequiredCapability s)) \<longleftrightarrow> set knownCapabilities \<subseteq> cd_ID ` set (cs_Capabilities capabilities)"
    unfolding default_stage_ids(2) [symmetric] using CapabilityAvailable_iff [OF sorted] by auto
  show ?thesis using P(1,2) stages ready_plan_capabilities [OF assms] unfolding plan_blockers_empty_iff by blast
qed

section \<open>Runs\<close>

datatype deletion_op = DelClaim int string int int | DelComplete int string string string string int

text \<open>An operation by some worker; after an error the checkpoint is what it was.\<close>

fun del_step :: "digest_env \<Rightarrow> deletion_plan \<Rightarrow> deletion_op \<Rightarrow> Checkpoint \<Rightarrow> Checkpoint" where
  "del_step dg plan (DelClaim expected token now leaseUntil) c =
     (case ClaimNextStage dg (Some c) plan expected token now leaseUntil of Inl _ \<Rightarrow> c | Inr (stage, c') \<Rightarrow> c')"
| "del_step dg plan (DelComplete expected token status receipt code now) c =
     (case CompleteStage dg (Some c) plan expected token status receipt code now of Inl _ \<Rightarrow> c | Inr c' \<Rightarrow> c')"

text \<open>Times are after the zero time, and a failure is reported without a receipt.\<close>

fun op_ok :: "deletion_op \<Rightarrow> bool" where
  "op_ok (DelClaim expected token now leaseUntil) \<longleftrightarrow> 0 < now"
| "op_ok (DelComplete expected token status receipt code now) \<longleftrightarrow> 0 < now \<and> (status = StageFailed \<longrightarrow> trim_space receipt = [])"

lemma del_step_valid:
  assumes "valid_checkpoint c plan k" "op_ok p"
  shows "\<exists>k'\<ge>k. valid_checkpoint (del_step dg plan p c) plan k' \<and> (\<forall>i<k. ck_Stages (del_step dg plan p c) ! i = ck_Stages c ! i)
    \<and> ck_Revision c \<le> ck_Revision (del_step dg plan p c) \<and> (del_step dg plan p c \<noteq> c \<longrightarrow> ck_Revision (del_step dg plan p c) = ck_Revision c + 1)"
proof (cases p)
  case (DelClaim expected token now leaseUntil)
  show ?thesis
  proof (cases "ClaimNextStage dg (Some c) plan expected token now leaseUntil")
    case (Inl e)
    then show ?thesis using assms(1) by (intro exI [of _ k]) (simp add: DelClaim)
  next
    case (Inr x)
    obtain stage' c' where x: "x = (stage', c')" by (cases x)
    note C = claim_Inr [OF assms(1) Inr [unfolded x]]
    from claim_valid [OF assms(1) Inr [unfolded x]] assms(2) show ?thesis using Inr x C(1,9) by (intro exI [of _ k]) (simp add: DelClaim)
  qed
next
  case (DelComplete expected token status receipt code now)
  show ?thesis
  proof (cases "CompleteStage dg (Some c) plan expected token status receipt code now")
    case (Inl e)
    then show ?thesis using assms(1) by (intro exI [of _ k]) (simp add: DelComplete)
  next
    case (Inr c')
    note C = complete_Inr [OF assms(1) Inr]
    from complete_valid [OF assms(1) Inr] assms(2) show ?thesis
      using Inr C(1,8) by (intro exI [of _ "if status = StageSucceeded then Suc k else k"]) (simp add: DelComplete)
  qed
qed

lemma del_run_valid:
  assumes "valid_checkpoint c plan k" "\<forall>p\<in>set ops. op_ok p"
  shows "\<exists>k'\<ge>k. valid_checkpoint (fold (del_step dg plan) ops c) plan k' \<and> (\<forall>i<k. ck_Stages (fold (del_step dg plan) ops c) ! i = ck_Stages c ! i)"
  using assms
proof (induction ops arbitrary: c k)
  case Nil
  then show ?case by auto
next
  case (Cons p ops)
  then obtain k1 where k1: "k \<le> k1" "valid_checkpoint (del_step dg plan p c) plan k1" "\<forall>i<k. ck_Stages (del_step dg plan p c) ! i = ck_Stages c ! i"
    using del_step_valid [of c plan k p dg] by auto
  from Cons.IH [OF k1(2)] Cons.prems(2) obtain k2 where "k1 \<le> k2" "valid_checkpoint (fold (del_step dg plan) ops (del_step dg plan p c)) plan k2"
    "\<forall>i<k1. ck_Stages (fold (del_step dg plan) ops (del_step dg plan p c)) ! i = ck_Stages (del_step dg plan p c) ! i" by auto
  then show ?case using k1 by (intro exI [of _ k2]) auto
qed

lemma new_checkpoint_valid:
  assumes "NewCheckpoint dg plan now = Inr c"
  shows "valid_checkpoint c plan 0"
proof -
  have c: "c = \<lparr>ck_PlanDigest = dp_Digest plan, ck_Revision = 1, ck_CurrentStageID = [], ck_Stages = map (\<lambda>s. pending_stage (sg_ID s)) (dp_Stages plan), ck_UpdatedAt = now\<rparr>"
    "now \<noteq> 0" using assms by (auto simp: NewCheckpoint_def split: if_splits option.splits)
  have "pend_ok (pending_stage i)" for i by (simp add: pend_ok_def pending_stage_def)
  then have "shape 0 (map (\<lambda>s. pending_stage (sg_ID s)) ps)" for ps by (cases ps) (simp_all add: list_all_iff)
  then show ?thesis
    using c by (auto simp: valid_checkpoint_def ids_ok_def list_all2_conv_all_nth running_of_def pending_stage_def stage_statuses)
qed

lemma valid_prefix:
  assumes "valid_checkpoint c plan k" "i < length (ck_Stages c)" "sc_Status (ck_Stages c ! i) \<noteq> StagePending" "j < i"
  shows "sc_Status (ck_Stages c ! j) = StageSucceeded"
proof -
  have sh: "shape k (ck_Stages c)" using assms(1) by (simp add: valid_checkpoint_def)
  have "i \<le> k" using shape_pending [OF sh, of i] assms(2,3) by (meson not_le pend_ok_def)
  then show ?thesis using shape_nth(1) [OF sh, of j] assms(4) by (simp add: succ_ok_def)
qed

text \<open>
  C39. The protocol stays valid and in order. Build a protocol and let workers claim and complete
  stages in any order, with any revisions, tokens and times, where a failure is reported without a
  receipt. Then the protocol passes its validation at every point; a stage has been started only if
  all earlier stages of the plan have succeeded; and a stage that has succeeded keeps its record, with its
  receipt, whatever happens later.
\<close>

theorem deletion_in_order:
  assumes "BuildProtocol dg inventory capabilities t = Inr p" "\<And>x. isSHA256 (dg_sha256 dg x)" "\<forall>op\<in>set (ops @ later). op_ok op"
  defines "run \<equiv> \<lambda>ops. fold (del_step dg (pr_Plan p)) ops (pr_Checkpoint p)"
  shows "ValidateProtocol dg (p\<lparr>pr_Checkpoint := run ops\<rparr>) = None
    \<and> (\<forall>i<8. \<forall>j<i. sc_Status (ck_Stages (run ops) ! i) \<noteq> StagePending \<longrightarrow> sc_Status (ck_Stages (run ops) ! j) = StageSucceeded)
    \<and> (\<forall>i<8. sc_Status (ck_Stages (run ops) ! i) = StageSucceeded \<longrightarrow> ck_Stages (run (ops @ later)) ! i = ck_Stages (run ops) ! i)"
proof -
  obtain plan c where p: "BuildPlan dg inventory capabilities t = Inr plan" "NewCheckpoint dg plan t = Inr c" "p = \<lparr>pr_Plan = plan, pr_Checkpoint = c\<rparr>"
    using assms(1) by (auto simp: BuildProtocol_def split: sum.splits)
  have vp: "ValidatePlan dg plan = None" using p(2) by (auto simp: NewCheckpoint_def split: option.splits)
  have len: "length (dp_Stages plan) = 8" using p(1) default_stages_ok(2) unfolding BuildPlan_def Let_def by (auto split: if_splits option.splits)
  obtain k where k: "valid_checkpoint (run ops) plan k"
    using del_run_valid [OF new_checkpoint_valid [OF p(2)], of ops dg] assms(3) by (auto simp: run_def p(3))
  have l8: "length (ck_Stages (run ops)) = 8" using k len by (simp add: valid_checkpoint_def)
  have "ck_Stages (run (ops @ later)) ! i = ck_Stages (run ops) ! i" if "i < 8" "sc_Status (ck_Stages (run ops) ! i) = StageSucceeded" for i
  proof -
    have sh: "shape k (ck_Stages (run ops))" using k by (simp add: valid_checkpoint_def)
    have "i < k" using shape_succeeded [OF sh] that l8 by simp
    then show ?thesis using del_run_valid [OF k, of later dg] assms(3) by (auto simp: run_def p(3))
  qed
  moreover have "ValidateProtocol dg (p\<lparr>pr_Checkpoint := run ops\<rparr>) = None"
    using vp k validateCheckpoint_iff by (auto simp: ValidateProtocol_def p(3))
  ultimately show ?thesis using valid_prefix [OF k] l8 by auto
qed

text \<open>
  A lease is exclusive while it lasts and free afterwards. After a successful claim by a worker until a
  given time: before that time no stage can be claimed by anyone (not even by the same worker), a
  completion succeeds only with the token of the claim, and it does succeed with that token, the
  current revision and the required evidence; from that time on the claim can no longer be completed, by
  anyone, and another worker can take the stage over.
\<close>

theorem lease_exclusive:
  assumes "ClaimNextStage dg (Some c) plan expected token now leaseUntil = Inr (stage, c')" "0 < now"
  shows "(\<forall>e t n u. n < leaseUntil \<longrightarrow> (\<exists>err. ClaimNextStage dg (Some c') plan e t n u = Inl err))
    \<and> (\<forall>e t status receipt code n c''. CompleteStage dg (Some c') plan e t status receipt code n = Inr c'' \<longrightarrow> trim_space t = trim_space token \<and> n < leaseUntil)
    \<and> (\<forall>receipt code n. n \<noteq> 0 \<and> n < leaseUntil \<and> isSHA256 (to_lower (trim_space receipt))
         \<longrightarrow> (\<exists>c''. CompleteStage dg (Some c') plan (ck_Revision c') token StageSucceeded receipt code n = Inr c''))
    \<and> (\<forall>t n u. leaseUntil \<le> n \<and> n \<noteq> 0 \<and> n < u \<and> u - n \<le> maxStageLease \<and> trim_space t \<noteq> [] \<and> length (trim_space t) \<le> 128
         \<longrightarrow> (\<exists>stage' c''. ClaimNextStage dg (Some c') plan (ck_Revision c') t n u = Inr (stage', c'') \<and> sc_StageID stage' = sc_StageID stage))"
proof -
  have ok: "ValidatePlan dg plan = None" "validateCheckpoint c plan = None"
    using assms(1) by (auto simp: ClaimNextStage_def split: if_splits option.splits)
  from ok(2) obtain k where k: "valid_checkpoint c plan k" by (auto simp: validateCheckpoint_iff)
  note C = claim_Inr [OF k assms(1)]
  have v': "valid_checkpoint c' plan k" by (rule claim_valid [OF k assms])
  then have vc': "validateCheckpoint c' plan = None" by (auto simp: validateCheckpoint_iff)
  have k': "k < length (ck_Stages c')" "ck_Stages c' ! k = stage" "ck_CurrentStageID c' = sc_StageID stage" using C(1,9) by simp_all
  have st: "sc_Status stage = StageRunning" "sc_LeaseUntil stage = leaseUntil" "sc_LeaseToken stage = trim_space token" using C(8) by (simp_all add: claimed_stage_def)
  have sh: "shape k (ck_Stages c')" using v' by (simp add: valid_checkpoint_def)
  have found: "running_index 0 (ck_CurrentStageID c') (trim_space token) (ck_Stages c') = Some k"
    using running_index_frontier [OF sh k'(1)] k' st by simp
  have nxt: "nextStageIndex c' = Inr k" using next_index_shape [OF sh, of 0] k'(1) by (simp add: nextStageIndex_def)
  have "\<exists>err. ClaimNextStage dg (Some c') plan e t n u = Inl err" if "n < leaseUntil" for e t n u
  proof (cases "ClaimNextStage dg (Some c') plan e t n u")
    case (Inr x)
    then show ?thesis using claim_Inr(10) [OF v', of dg e t n u "fst x" "snd x"] st k' that by simp
  qed simp
  moreover have "trim_space t = trim_space token \<and> n < leaseUntil" if "CompleteStage dg (Some c') plan e t status receipt code n = Inr c''" for e t status receipt code n c''
    using complete_Inr(3,4) [OF v' that] k' st by simp
  moreover have "\<exists>c''. CompleteStage dg (Some c') plan (ck_Revision c') token StageSucceeded receipt code n = Inr c''"
    if "n \<noteq> 0 \<and> n < leaseUntil \<and> isSHA256 (to_lower (trim_space receipt))" for receipt code n
    using that ok(1) vc' found C(2) k' st by (simp add: CompleteStage_def stage_statuses not_le)
  moreover have "\<exists>stage' c''. ClaimNextStage dg (Some c') plan (ck_Revision c') t n u = Inr (stage', c'') \<and> sc_StageID stage' = sc_StageID stage"
    if "leaseUntil \<le> n \<and> n \<noteq> 0 \<and> n < u \<and> u - n \<le> maxStageLease \<and> trim_space t \<noteq> [] \<and> length (trim_space t) \<le> 128" for t n u
    using that ok(1) vc' nxt C(7) k' st by (simp add: ClaimNextStage_def Let_def not_le not_less)
  ultimately show ?thesis by blast
qed

section \<open>A deletion of eight stages\<close>

definition demo_digests :: digest_env where
  "demo_digests = \<lparr>dg_sha256 = (\<lambda>_. replicate 64 (CHR ''a'')), dg_time = (\<lambda>t. show_int (t div 1000000))\<rparr>"

definition demo_capabilities :: CapabilitySnapshot where
  "demo_capabilities = projr (NewCapabilityRegistry demo_digests (map (\<lambda>i. Some \<lparr>cd_ID = i, cd_Adapter = ''worker'', cd_Version = ''v1''\<rparr>) knownCapabilities))"

definition demo_inventory :: Inventory where
  "demo_inventory = \<lparr>iv_Owned = [(''sessions'', 3)], iv_Related = [(''project_memberships'', 1)], iv_Retained = [],
     iv_Unsupported = [''qdrant_episodic_memory'', ''minio_tool_result_objects'']\<rparr>"

definition demo_protocol :: Protocol where
  "demo_protocol = projr (BuildProtocol demo_digests demo_inventory demo_capabilities 7000000)"

definition demo_ops :: "deletion_op list" where
  "demo_ops = [DelClaim 1 ''w1'' 10 20, DelClaim 2 ''w2'' 15 30, DelClaim 2 ''w2'' 25 40, DelComplete 3 ''w1'' StageSucceeded (replicate 64 (CHR ''b'')) [] 26,
     DelComplete 3 ''w2'' StageSucceeded (replicate 64 (CHR ''b'')) [] 26]"

lemma demo_sha: "isSHA256 (dg_sha256 demo_digests x)"
  by (simp add: demo_digests_def isSHA256_def hex_char_def) code_simp

lemma demo_protocol_built: "BuildProtocol demo_digests demo_inventory demo_capabilities 7000000 = Inr demo_protocol"
  by code_simp

text \<open>The values of the demonstration, as code equations.\<close>

lemma demo_capabilities_value [code]:
  "demo_capabilities = \<lparr>cs_SchemaVersion = CapabilitySnapshotSchemaV1, cs_Digest = replicate 64 (CHR ''a''),
     cs_Capabilities = map (\<lambda>i. \<lparr>cd_ID = i, cd_Adapter = ''worker'', cd_Version = ''v1''\<rparr>)
       [CapabilityCrossStoreVerify, CapabilityMinIOSubjectDelete, CapabilityMongoOwnedDelete, CapabilityQdrantSubjectDelete, CapabilityRelationshipMutation,
        CapabilityRequestFinalize, CapabilitySubjectWriteFence, CapabilityTweetServiceDelete]\<rparr>"
  by code_simp

lemma demo_protocol_value [code]:
  "demo_protocol = \<lparr>pr_Plan = \<lparr>dp_SchemaVersion = ProtocolSchemaV1, dp_Digest = replicate 64 (CHR ''a''), dp_InventoryDigest = replicate 64 (CHR ''a''),
       dp_CapabilityDigest = replicate 64 (CHR ''a''), dp_Ready = True, dp_Blockers = [], dp_Stages = defaultStages, dp_GeneratedAt = 7000000\<rparr>,
     pr_Checkpoint = \<lparr>ck_PlanDigest = replicate 64 (CHR ''a''), ck_Revision = 1, ck_CurrentStageID = [],
       ck_Stages = map (\<lambda>s. pending_stage (sg_ID s)) defaultStages, ck_UpdatedAt = 7000000\<rparr>\<rparr>"
  by code_simp

lemma hex_char_code [code]: "hex_char c \<longleftrightarrow> c \<in> set ''0123456789abcdefABCDEF''"
proof -
  have "\<forall>b7 b6 b5 b4 b3 b2 b1 b0. hex_char (Char b0 b1 b2 b3 b4 b5 b6 b7) \<longleftrightarrow> Char b0 b1 b2 b3 b4 b5 b6 b7 \<in> set ''0123456789abcdefABCDEF''"
    by code_simp
  then show ?thesis by (cases c) blast
qed

lemma demo_plan_built: "BuildPlan demo_digests demo_inventory demo_capabilities 7000000 = Inr (pr_Plan demo_protocol)"
  by code_simp

lemma demo_ops_ok: "list_all op_ok demo_ops"
  by code_simp

lemma demo_ready: "set knownCapabilities \<subseteq> cd_ID ` set (cs_Capabilities demo_capabilities)"
  by code_simp

text \<open>The plan of the demonstration is ready and valid.\<close>

theorem BuildPlan_valid_witness:
  "dp_Ready (pr_Plan demo_protocol) \<and> ValidatePlan demo_digests (pr_Plan demo_protocol) = None
   \<and> ValidatePlanCapabilities demo_digests (pr_Plan demo_protocol) demo_capabilities = None"
proof -
  have "\<forall>r\<in>set (iv_Unsupported demo_inventory). trim_space r \<in> set knownExternalResources" by code_simp
  moreover have "\<forall>(r, count)\<in>set (iv_Related demo_inventory). 0 < count \<longrightarrow> r \<notin> set relationshipResolutionRequired" by code_simp
  ultimately show ?thesis using BuildPlan_valid [OF demo_plan_built demo_sha] demo_ready by blast
qed

text \<open>
  One worker claims the first stage; a second one is refused until the lease has expired, takes the
  stage over, and only its completion counts.
\<close>

theorem deletion_in_order_witness:
  "ValidateProtocol demo_digests (demo_protocol\<lparr>pr_Checkpoint := fold (del_step demo_digests (pr_Plan demo_protocol)) demo_ops (pr_Checkpoint demo_protocol)\<rparr>) = None
   \<and> map sc_Status (ck_Stages (fold (del_step demo_digests (pr_Plan demo_protocol)) demo_ops (pr_Checkpoint demo_protocol))) = StageSucceeded # replicate 7 StagePending"
proof
  show "ValidateProtocol demo_digests (demo_protocol\<lparr>pr_Checkpoint := fold (del_step demo_digests (pr_Plan demo_protocol)) demo_ops (pr_Checkpoint demo_protocol)\<rparr>) = None"
    using deletion_in_order [OF demo_protocol_built demo_sha, of demo_ops "[]"] demo_ops_ok by (simp add: list_all_iff)
qed code_simp

text \<open>While the first worker has the lease no one else can claim.\<close>

theorem lease_exclusive_witness:
  "\<exists>stage c. ClaimNextStage demo_digests (Some (pr_Checkpoint demo_protocol)) (pr_Plan demo_protocol) 1 ''w1'' 10 20 = Inr (stage, c)
   \<and> (\<exists>err. ClaimNextStage demo_digests (Some c) (pr_Plan demo_protocol) 2 ''w2'' 15 30 = Inl err)"
proof -
  have "isl (ClaimNextStage demo_digests (Some (pr_Checkpoint demo_protocol)) (pr_Plan demo_protocol) 1 ''w1'' 10 20) = False" by code_simp
  then obtain stage c where c: "ClaimNextStage demo_digests (Some (pr_Checkpoint demo_protocol)) (pr_Plan demo_protocol) 1 ''w1'' 10 20 = Inr (stage, c)"
    by (metis isl_def old.prod.exhaust sum.exhaust)
  then show ?thesis using lease_exclusive [OF c] by auto
qed

end
