(* ===== verification/Deletion_Audit.thy ===== *)
theory Deletion_Audit
  imports Deletion_Runs
begin

text \<open>
  The audit trail of a data deletion, \<^verbatim>\<open>src/internal/module/agent/deletion/audit.go\<close>: one event per claim
  and completion of a stage, chained by digests and bound to the plan, the capabilities and the
  revisions of request and checkpoint.
\<close>

section \<open>Events\<close>

definition AuditEventSchemaV1 :: string where "AuditEventSchemaV1 = ''agent-data-deletion-audit/v1''"
definition MaxAuditEvents :: int where "MaxAuditEvents = 128"

definition AuditStageClaimed :: string where "AuditStageClaimed = ''stage_claimed''"
definition AuditStageSucceeded :: string where "AuditStageSucceeded = ''stage_succeeded''"
definition AuditStageFailed :: string where "AuditStageFailed = ''stage_failed''"

lemmas audit_types = AuditStageClaimed_def AuditStageSucceeded_def AuditStageFailed_def

record DeletionAuditEvent =
  ae_SchemaVersion :: string
  ae_EventID :: string
  ae_RequestID :: string
  ae_Sequence :: int
  ae_Type :: string
  ae_StageID :: string
  ae_Attempt :: int
  ae_RequestRevision :: int
  ae_CheckpointRevision :: int
  ae_PlanDigest :: string
  ae_CapabilityDigest :: string
  ae_LeaseDigest :: string
  ae_ReceiptDigest :: string
  ae_FailureCode :: string
  ae_PreviousDigest :: string
  ae_EventDigest :: string
  ae_OccurredAt :: int

record AuditEventInput =
  ai_RequestID :: string
  ai_Sequence :: int
  ai_Type :: string
  ai_Stage :: StageCheckpoint
  ai_RequestRevision :: int
  ai_CheckpointRevision :: int
  ai_PlanDigest :: string
  ai_CapabilityDigest :: string
  ai_LeaseToken :: string
  ai_PreviousDigest :: string
  ai_OccurredAt :: int

definition LeaseTokenDigest :: "digest_env \<Rightarrow> string \<Rightarrow> string" where
  "LeaseTokenDigest dg token = dg_sha256 dg (trim_space token)"

definition auditEventDigest :: "digest_env \<Rightarrow> DeletionAuditEvent \<Rightarrow> string" where
  "auditEventDigest dg e = dg_sha256 dg (join_with nul
     [ae_SchemaVersion e, ae_RequestID e, show_int (ae_Sequence e), ae_Type e, ae_StageID e, show_int (ae_Attempt e), show_int (ae_RequestRevision e),
      show_int (ae_CheckpointRevision e), ae_PlanDigest e, ae_CapabilityDigest e, ae_LeaseDigest e, ae_ReceiptDigest e, ae_FailureCode e,
      ae_PreviousDigest e, dg_time dg (ae_OccurredAt e)])"

definition knownStageIDs :: "string list" where
  "knownStageIDs = map sg_ID defaultStages"

text \<open>What a type of event may carry.\<close>

definition audit_evidence :: "DeletionAuditEvent \<Rightarrow> deletion_error option" where
  "audit_evidence e =
     (if ae_Type e = AuditStageClaimed
      then if ae_ReceiptDigest e \<noteq> [] \<or> ae_FailureCode e \<noteq> [] then Some (DInvalid ''claimed data deletion audit event cannot contain completion evidence'') else None
      else if ae_Type e = AuditStageSucceeded
      then if \<not> isSHA256 (ae_ReceiptDigest e) \<or> ae_FailureCode e \<noteq> [] then Some (DInvalid ''succeeded data deletion audit event requires a receipt digest'') else None
      else if ae_Type e = AuditStageFailed
      then if ae_ReceiptDigest e \<noteq> [] \<or> \<not> isFailureCode (ae_FailureCode e) then Some (DInvalid ''failed data deletion audit event requires a failure code'') else None
      else Some (DInvalid ''data deletion audit event type is invalid''))"

definition ValidateAuditEvent :: "digest_env \<Rightarrow> DeletionAuditEvent \<Rightarrow> deletion_error option" where
  "ValidateAuditEvent dg e =
     (if ae_SchemaVersion e \<noteq> AuditEventSchemaV1 \<or> ae_EventID e = [] \<or> ae_EventID e \<noteq> ae_EventDigest e \<or> \<not> isSHA256 (ae_EventDigest e)
         \<or> \<not> isBoundedIdentity (ae_RequestID e) 64 \<or> ae_Sequence e < 1 \<or> MaxAuditEvents < ae_Sequence e \<or> ae_Attempt e < 1
         \<or> ae_RequestRevision e < 1 \<or> ae_CheckpointRevision e < 2 \<or> \<not> isSHA256 (ae_PlanDigest e) \<or> \<not> isSHA256 (ae_CapabilityDigest e)
         \<or> \<not> isSHA256 (ae_LeaseDigest e) \<or> ae_OccurredAt e = 0
      then Some (DInvalid ''data deletion audit event identity is invalid'')
      else if ae_StageID e \<notin> set knownStageIDs then Some (DInvalid (''unknown data deletion audit stage '' @ ae_StageID e))
      else if ae_Sequence e = 1 \<and> ae_PreviousDigest e \<noteq> [] then Some (DInvalid ''first data deletion audit event cannot have a previous digest'')
      else if ae_Sequence e \<noteq> 1 \<and> \<not> isSHA256 (ae_PreviousDigest e) then Some (DInvalid ''data deletion audit event previous digest is invalid'')
      else case audit_evidence e of
             Some err \<Rightarrow> Some err
           | None \<Rightarrow> if ae_EventDigest e \<noteq> auditEventDigest dg e then Some (DInvalid ''data deletion audit event digest mismatch'') else None)"

definition audit_event :: "digest_env \<Rightarrow> AuditEventInput \<Rightarrow> DeletionAuditEvent" where
  "audit_event dg i =
     (let e = \<lparr>ae_SchemaVersion = AuditEventSchemaV1, ae_EventID = [], ae_RequestID = trim_space (ai_RequestID i), ae_Sequence = ai_Sequence i,
            ae_Type = ai_Type i, ae_StageID = sc_StageID (ai_Stage i), ae_Attempt = sc_Attempts (ai_Stage i), ae_RequestRevision = ai_RequestRevision i,
            ae_CheckpointRevision = ai_CheckpointRevision i, ae_PlanDigest = ai_PlanDigest i, ae_CapabilityDigest = ai_CapabilityDigest i,
            ae_LeaseDigest = LeaseTokenDigest dg (ai_LeaseToken i), ae_ReceiptDigest = sc_ReceiptDigest (ai_Stage i), ae_FailureCode = sc_FailureCode (ai_Stage i),
            ae_PreviousDigest = ai_PreviousDigest i, ae_EventDigest = [], ae_OccurredAt = ai_OccurredAt i\<rparr>;
          d = auditEventDigest dg e
      in e\<lparr>ae_EventDigest := d, ae_EventID := d\<rparr>)"

definition NewAuditEvent :: "digest_env \<Rightarrow> AuditEventInput \<Rightarrow> deletion_error + DeletionAuditEvent" where
  "NewAuditEvent dg i =
     (if trim_space (ai_LeaseToken i) = [] then Inl (DInvalid ''data deletion audit lease token is required'')
      else let e = audit_event dg i in case ValidateAuditEvent dg e of Some err \<Rightarrow> Inl err | None \<Rightarrow> Inr e)"

section \<open>Trails\<close>

text \<open>How an event continues the one before it.\<close>

definition chain_link :: "DeletionAuditEvent option \<Rightarrow> DeletionAuditEvent \<Rightarrow> deletion_error option" where
  "chain_link previous e = (case previous of
      None \<Rightarrow> if ae_PreviousDigest e \<noteq> [] then Some (DInvalid ''data deletion audit chain does not start at its root'') else None
    | Some p \<Rightarrow>
        if ae_PreviousDigest e \<noteq> ae_EventDigest p \<or> ae_RequestID e \<noteq> ae_RequestID p \<or> ae_RequestRevision e \<noteq> ae_RequestRevision p + 1
           \<or> ae_CheckpointRevision e \<noteq> ae_CheckpointRevision p + 1 \<or> ae_OccurredAt e < ae_OccurredAt p
        then Some (DInvalid ''data deletion audit chain continuity is invalid'') else None)"

text \<open>
  One round of the loop over the trail, at an index, after an event, with the claim that is not yet
  completed; it returns the claim that is open afterwards.
\<close>

definition audit_step :: "digest_env \<Rightarrow> string \<Rightarrow> string \<Rightarrow> nat \<Rightarrow> DeletionAuditEvent option \<Rightarrow> DeletionAuditEvent option \<Rightarrow> DeletionAuditEvent
    \<Rightarrow> deletion_error + DeletionAuditEvent option" where
  "audit_step dg planD capD i previous active e =
     (case ValidateAuditEvent dg e of Some err \<Rightarrow> Inl (DWrapped (''validate data deletion audit event '' @ show_nat (i + 1)) err) | None \<Rightarrow>
      if ae_Sequence e \<noteq> int i + 1 \<or> ae_PlanDigest e \<noteq> planD \<or> ae_CapabilityDigest e \<noteq> capD
      then Inl (DInvalid ''data deletion audit event is not bound to its protocol'')
      else case chain_link previous e of Some err \<Rightarrow> Inl err | None \<Rightarrow>
        if ae_Type e = AuditStageClaimed
        then if active \<noteq> None then Inl (DInvalid ''data deletion audit trail contains concurrent stage claims'') else Inr (Some e)
        else if ae_Type e = AuditStageSucceeded \<or> ae_Type e = AuditStageFailed
        then (case active of
                None \<Rightarrow> Inl (DInvalid ''data deletion audit completion does not match its claim'')
              | Some a \<Rightarrow>
                  if ae_StageID a \<noteq> ae_StageID e \<or> ae_Attempt a \<noteq> ae_Attempt e \<or> ae_LeaseDigest a \<noteq> ae_LeaseDigest e
                  then Inl (DInvalid ''data deletion audit completion does not match its claim'') else Inr None)
        else Inr active)"

fun audit_chain :: "digest_env \<Rightarrow> string \<Rightarrow> string \<Rightarrow> nat \<Rightarrow> DeletionAuditEvent option \<Rightarrow> DeletionAuditEvent option \<Rightarrow> DeletionAuditEvent list
    \<Rightarrow> deletion_error + DeletionAuditEvent option" where
  "audit_chain dg planD capD i previous active [] = Inr active"
| "audit_chain dg planD capD i previous active (e # es) = (case audit_step dg planD capD i previous active e of
      Inl err \<Rightarrow> Inl err
    | Inr active' \<Rightarrow> audit_chain dg planD capD (Suc i) (Some e) active' es)"

definition ValidateAuditTrail :: "digest_env \<Rightarrow> DeletionAuditEvent list \<Rightarrow> int \<Rightarrow> string \<Rightarrow> string \<Rightarrow> string \<Rightarrow> deletion_error option" where
  "ValidateAuditTrail dg events n tailDigest planD capD =
     (if n < 0 \<or> MaxAuditEvents < n \<or> int (length events) \<noteq> n then Some (DInvalid ''data deletion audit event count is invalid'')
      else if n = 0 then if tailDigest \<noteq> [] then Some (DInvalid ''empty data deletion audit trail has a tail digest'') else None
      else if \<not> isSHA256 tailDigest then Some (DInvalid ''data deletion audit tail digest is invalid'')
      else case audit_chain dg planD capD 0 None None events of
             Inl err \<Rightarrow> Some err
           | Inr _ \<Rightarrow> if ae_EventDigest (last events) \<noteq> tailDigest then Some (DInvalid ''data deletion audit tail does not match the event chain'') else None)"

definition auditCheckpointStage :: "Checkpoint \<Rightarrow> string \<Rightarrow> StageCheckpoint option" where
  "auditCheckpointStage c stageID = List.find (\<lambda>s. sc_StageID s = stageID) (ck_Stages c)"

text \<open>What the tail says of the checkpoint.\<close>

definition tail_binding :: "digest_env \<Rightarrow> DeletionAuditEvent \<Rightarrow> StageCheckpoint \<Rightarrow> Checkpoint \<Rightarrow> deletion_error option" where
  "tail_binding dg e stage c =
     (if ae_Type e = AuditStageClaimed
      then if ck_CurrentStageID c \<noteq> sc_StageID stage \<or> sc_Status stage \<noteq> StageRunning \<or> sc_ReceiptDigest stage \<noteq> [] \<or> sc_FailureCode stage \<noteq> []
               \<or> LeaseTokenDigest dg (sc_LeaseToken stage) \<noteq> ae_LeaseDigest e
           then Some (DInvalid ''data deletion audit claim does not match running checkpoint state'') else None
      else if ae_Type e = AuditStageSucceeded
      then if ck_CurrentStageID c \<noteq> [] \<or> sc_Status stage \<noteq> StageSucceeded \<or> sc_ReceiptDigest stage \<noteq> ae_ReceiptDigest e
           then Some (DInvalid ''data deletion audit success does not match checkpoint state'') else None
      else if ae_Type e = AuditStageFailed
      then if ck_CurrentStageID c \<noteq> [] \<or> sc_Status stage \<noteq> StageFailed \<or> sc_FailureCode stage \<noteq> ae_FailureCode e
           then Some (DInvalid ''data deletion audit failure does not match checkpoint state'') else None
      else None)"

definition ValidateAuditProtocolBinding :: "digest_env \<Rightarrow> DeletionAuditEvent list \<Rightarrow> int \<Rightarrow> Protocol \<Rightarrow> deletion_error option" where
  "ValidateAuditProtocolBinding dg events requestRevision p =
     (if requestRevision < 1 then Some (DInvalid ''data deletion audit request revision is invalid'')
      else case ValidateProtocol dg p of Some err \<Rightarrow> Some err | None \<Rightarrow>
        let c = pr_Checkpoint p
        in if events = []
           then if ck_Revision c \<noteq> 1 then Some (DInvalid ''empty data deletion audit trail cannot describe an advanced checkpoint'') else None
           else let e = last events
             in if ae_RequestRevision e \<noteq> requestRevision \<or> ae_CheckpointRevision e \<noteq> ck_Revision c
                then Some (DInvalid ''data deletion audit tail revision does not match its checkpoint'')
                else case auditCheckpointStage c (ae_StageID e) of
                       None \<Rightarrow> Some (DInvalid ''data deletion audit tail stage does not match its checkpoint'')
                     | Some stage \<Rightarrow>
                         if sc_Attempts stage \<noteq> ae_Attempt e then Some (DInvalid ''data deletion audit tail stage does not match its checkpoint'')
                         else tail_binding dg e stage c)"

section \<open>How trails grow\<close>

lemma valid_event_type: "ValidateAuditEvent dg e = None \<Longrightarrow> ae_Type e \<in> {AuditStageClaimed, AuditStageSucceeded, AuditStageFailed}"
  by (auto simp: ValidateAuditEvent_def audit_evidence_def split: if_splits option.splits)

lemma audit_chain_append:
  "audit_chain dg planD capD i previous active (es @ fs) =
     (case audit_chain dg planD capD i previous active es of
        Inl err \<Rightarrow> Inl err
      | Inr a \<Rightarrow> audit_chain dg planD capD (i + length es) (if es = [] then previous else Some (last es)) a fs)"
proof (induction es arbitrary: i previous active)
  case (Cons e es)
  have last: "(if es = [] then Some e else Some (last es)) = Some (last (e # es))" by simp
  show ?case using Cons.IH by (simp add: last split: sum.splits)
qed simp

text \<open>The open claim at the end of a chain is its last event, if that is a claim.\<close>

lemma audit_chain_open:
  assumes "audit_chain dg planD capD i previous active es = Inr a" "es \<noteq> []"
  shows "a = (if ae_Type (last es) = AuditStageClaimed then Some (last es) else None)"
proof -
  obtain fs e where es: "es = fs @ [e]" using assms(2) by (metis rev_exhaust)
  have "ValidateAuditEvent dg e = None" using assms(1) unfolding es audit_chain_append by (auto simp: audit_step_def split: sum.splits option.splits)
  then have "ae_Type e \<in> {AuditStageClaimed, AuditStageSucceeded, AuditStageFailed}" by (rule valid_event_type)
  then show ?thesis using assms(1) unfolding es audit_chain_append
    by (auto simp: audit_types audit_step_def split: sum.splits option.splits if_splits)
qed

text \<open>What one more event needs, and that a claim after an open claim breaks the chain.\<close>

definition event_follows :: "DeletionAuditEvent list \<Rightarrow> DeletionAuditEvent \<Rightarrow> bool" where
  "event_follows es e \<longleftrightarrow>
     (if es = [] then ae_PreviousDigest e = [] \<and> ae_Type e = AuditStageClaimed
      else chain_link (Some (last es)) e = None
        \<and> (ae_Type (last es) = AuditStageClaimed) = (ae_Type e \<noteq> AuditStageClaimed)
        \<and> (ae_Type e \<noteq> AuditStageClaimed \<longrightarrow> ae_StageID (last es) = ae_StageID e \<and> ae_Attempt (last es) = ae_Attempt e \<and> ae_LeaseDigest (last es) = ae_LeaseDigest e))"

lemma audit_chain_snoc:
  assumes "audit_chain dg planD capD 0 None None es = Inr a" "ValidateAuditEvent dg e = None"
    "ae_Sequence e = int (length es) + 1" "ae_PlanDigest e = planD" "ae_CapabilityDigest e = capD"
  shows "(\<exists>a'. audit_chain dg planD capD 0 None None (es @ [e]) = Inr a') \<longleftrightarrow> event_follows es e"
proof -
  have t: "ae_Type e \<in> {AuditStageClaimed, AuditStageSucceeded, AuditStageFailed}" using valid_event_type [OF assms(2)] .
  show ?thesis
  proof (cases "es = []")
    case True
    then show ?thesis using assms t by (auto simp: event_follows_def chain_link_def audit_types audit_step_def)
  next
    case False
    then have a: "a = (if ae_Type (last es) = AuditStageClaimed then Some (last es) else None)" using audit_chain_open [OF assms(1)] by simp
    show ?thesis
      unfolding audit_chain_append assms(1) using assms(2-) t a False
      by (auto simp: event_follows_def audit_types audit_step_def split: option.splits if_splits)
  qed
qed

lemma trail_chain:
  assumes "ValidateAuditTrail dg es n tailD planD capD = None" "es \<noteq> []"
  shows "\<exists>a. audit_chain dg planD capD 0 None None es = Inr a" "ae_EventDigest (last es) = tailD" "n = int (length es)"
  using assms by (auto simp: ValidateAuditTrail_def split: if_splits sum.splits)

lemma trail_snoc:
  assumes "ValidateAuditTrail dg es n tailD planD capD = None" "ValidateAuditEvent dg e = None" "ae_Sequence e = n + 1"
    "ae_PlanDigest e = planD" "ae_CapabilityDigest e = capD"
  shows "ValidateAuditTrail dg (es @ [e]) (n + 1) (ae_EventDigest e) planD capD = None \<longleftrightarrow> event_follows es e"
proof -
  have n: "n = int (length es)" "n < MaxAuditEvents" "isSHA256 (ae_EventDigest e)"
    using assms(1-3) by (auto simp: ValidateAuditTrail_def ValidateAuditEvent_def split: if_splits sum.splits)
  obtain a where a: "audit_chain dg planD capD 0 None None es = Inr a" using trail_chain(1) [OF assms(1)] by (cases "es = []") auto
  have "ValidateAuditTrail dg (es @ [e]) (n + 1) (ae_EventDigest e) planD capD = None \<longleftrightarrow> (\<exists>a'. audit_chain dg planD capD 0 None None (es @ [e]) = Inr a')"
    using n by (auto simp: ValidateAuditTrail_def split: sum.splits)
  then show ?thesis using audit_chain_snoc [OF a assms(2)] assms(3-) n(1) by simp
qed

end
