(* ===== verification/Deletion_Store.thy ===== *)
theory Deletion_Store
  imports Deletion_Audit
begin

text \<open>
  The documents of data deletion and the updates the repository makes on them:
  \<^verbatim>\<open>src/internal/module/agent/repository/data_deletion_request.go\<close> and the subject leases and holds of
  \<^verbatim>\<open>repository/data_retention_hold.go\<close>. MongoDB applies each filter and update to one document atomically, so an update
  is a function on the collections. A field that an update can unset is an option, an object id is its
  hexadecimal text. That the client of the database may be nil is not modelled.

  A document does not hold the times of the program: BSON has dates of whole milliseconds, and the driver drops the
  rest of a \<^verbatim>\<open>time.Time\<close>, in the documents and updates it writes as in the filters it sends. So every write stores
  \<open>stored_request\<close> or \<open>stored_subject\<close> of the record that the update describes, a read returns what is stored, and
  a filter compares with \<open>bson_time\<close> of its argument.
\<close>

section \<open>Documents\<close>

definition DataDeletionRequested :: string where "DataDeletionRequested = ''requested''"
definition DataDeletionPreflightRunning :: string where "DataDeletionPreflightRunning = ''preflight_running''"
definition DataDeletionBlockedLegalHold :: string where "DataDeletionBlockedLegalHold = ''blocked_legal_hold''"
definition DataDeletionBlockedSubjectBusy :: string where "DataDeletionBlockedSubjectBusy = ''blocked_subject_busy''"
definition DataDeletionPreviewReady :: string where "DataDeletionPreviewReady = ''preview_ready''"
definition DataDeletionPreflightFailed :: string where "DataDeletionPreflightFailed = ''preflight_failed''"
definition DataDeletionCancelled :: string where "DataDeletionCancelled = ''cancelled''"
definition DataDeletionCompleted :: string where "DataDeletionCompleted = ''completed''"

lemmas request_statuses = DataDeletionRequested_def DataDeletionPreflightRunning_def DataDeletionBlockedLegalHold_def
  DataDeletionBlockedSubjectBusy_def DataDeletionPreviewReady_def DataDeletionPreflightFailed_def DataDeletionCancelled_def
  DataDeletionCompleted_def

record DataDeletionInventory =
  in_Owned :: "(string \<times> int) list"
  in_Related :: "(string \<times> int) list"
  in_Retained :: "(string \<times> int) list"

record DataDeletionRequest =
  rq_ID :: string
  rq_UserID :: "64 word"
  rq_Status :: string
  rq_ReasonCode :: string
  rq_ActorDigest :: string
  rq_ScopeVersion :: string
  rq_Inventory :: DataDeletionInventory
  rq_Unsupported :: "string list"
  rq_ExecutionProtocol :: "Protocol option"
  rq_ExecutionSupported :: bool
  rq_ExecutionAudit :: "DeletionAuditEvent list"
  rq_ExecutionAuditCount :: int
  rq_ExecutionAuditTail :: string
  rq_FailureCode :: string
  rq_RequestedAt :: int
  rq_PreflightedAt :: int
  rq_CancelledAt :: int
  rq_CompletedAt :: int
  rq_UpdatedAt :: int
  rq_LeaseToken :: string
  rq_LeaseUntil :: "int option"
  rq_Revision :: int
  rq_Active :: bool

record subject_fence =
  sf_SchemaVersion :: string
  sf_RequestID :: string
  sf_SubjectDigest :: string
  sf_PlanDigest :: string
  sf_CapabilityDigest :: string
  sf_FenceRevision :: int
  sf_EnforcedAt :: int

record subject_document =
  su_UserID :: "64 word"
  su_Held :: bool
  su_ReasonCode :: string
  su_OperatorDigest :: string
  su_HeldAt :: int
  su_HoldUntil :: "int option"
  su_Revision :: int
  su_LeaseToken :: string
  su_LeaseUntil :: "int option"
  su_WriteFence :: "subject_fence option"
  su_ActiveWrites :: "int option"

record deletion_store =
  ds_requests :: "string \<rightharpoonup> DataDeletionRequest"
  ds_subjects :: "64 word \<rightharpoonup> subject_document"

section \<open>Times in documents\<close>

definition bson_time :: "int \<Rightarrow> int" where
  "bson_time t = t div 1000000 * 1000000"

definition whole_ms :: "int \<Rightarrow> bool" where
  "whole_ms t \<longleftrightarrow> bson_time t = t"

definition stored_plan :: "deletion_plan \<Rightarrow> deletion_plan" where
  "stored_plan plan = plan\<lparr>dp_GeneratedAt := bson_time (dp_GeneratedAt plan)\<rparr>"

definition stored_stage :: "StageCheckpoint \<Rightarrow> StageCheckpoint" where
  "stored_stage x = x\<lparr>sc_LeaseUntil := bson_time (sc_LeaseUntil x), sc_StartedAt := bson_time (sc_StartedAt x), sc_CompletedAt := bson_time (sc_CompletedAt x)\<rparr>"

definition stored_checkpoint :: "Checkpoint \<Rightarrow> Checkpoint" where
  "stored_checkpoint c = c\<lparr>ck_Stages := map stored_stage (ck_Stages c), ck_UpdatedAt := bson_time (ck_UpdatedAt c)\<rparr>"

definition stored_protocol :: "Protocol \<Rightarrow> Protocol" where
  "stored_protocol p = \<lparr>pr_Plan = stored_plan (pr_Plan p), pr_Checkpoint = stored_checkpoint (pr_Checkpoint p)\<rparr>"

definition stored_event :: "DeletionAuditEvent \<Rightarrow> DeletionAuditEvent" where
  "stored_event e = e\<lparr>ae_OccurredAt := bson_time (ae_OccurredAt e)\<rparr>"

definition stored_request :: "DataDeletionRequest \<Rightarrow> DataDeletionRequest" where
  "stored_request r = r\<lparr>rq_ExecutionProtocol := map_option stored_protocol (rq_ExecutionProtocol r), rq_ExecutionAudit := map stored_event (rq_ExecutionAudit r),
     rq_RequestedAt := bson_time (rq_RequestedAt r), rq_PreflightedAt := bson_time (rq_PreflightedAt r), rq_CancelledAt := bson_time (rq_CancelledAt r),
     rq_CompletedAt := bson_time (rq_CompletedAt r), rq_UpdatedAt := bson_time (rq_UpdatedAt r), rq_LeaseUntil := map_option bson_time (rq_LeaseUntil r)\<rparr>"

definition stored_fence :: "subject_fence \<Rightarrow> subject_fence" where
  "stored_fence f = f\<lparr>sf_EnforcedAt := bson_time (sf_EnforcedAt f)\<rparr>"

definition stored_subject :: "subject_document \<Rightarrow> subject_document" where
  "stored_subject d = d\<lparr>su_HeldAt := bson_time (su_HeldAt d), su_HoldUntil := map_option bson_time (su_HoldUntil d),
     su_LeaseUntil := map_option bson_time (su_LeaseUntil d), su_WriteFence := map_option stored_fence (su_WriteFence d)\<rparr>"

datatype repo_error = RInvalid string | RNoDocuments string | RDeletion string deletion_error | RActiveRequest | RUnavailable

definition zero_id :: string where "zero_id = replicate 24 (CHR ''0'')"

section \<open>Requests\<close>

definition empty_inventory :: DataDeletionInventory where
  "empty_inventory = \<lparr>in_Owned = [], in_Related = [], in_Retained = []\<rparr>"

text \<open>
  \<open>rune_ok\<close> says whether all characters are lower-case letters, digits, underscores, dashes or dots,
  by the tables of Go's \<^verbatim>\<open>unicode\<close> package.
\<close>

definition ValidateDataDeletionRequestInput :: "(string \<Rightarrow> bool) \<Rightarrow> 64 word \<Rightarrow> string \<Rightarrow> string \<Rightarrow> int \<Rightarrow> repo_error option" where
  "ValidateDataDeletionRequestInput rune_ok userID reasonCode actor now =
     (let reasonCode' = trim_space reasonCode; actor' = trim_space actor
      in if userID = 0 \<or> now = 0 then Some (RInvalid ''data deletion request subject or time is invalid'')
         else if reasonCode' = [] \<or> 64 < length reasonCode' then Some (RInvalid ''data deletion request reason code must contain 1 to 64 characters'')
         else if \<not> rune_ok reasonCode' then Some (RInvalid ''data deletion request reason code contains unsupported characters'')
         else if actor' = [] \<or> 128 < length actor' then Some (RInvalid ''data deletion request actor must contain 1 to 128 characters'')
         else None)"

definition DataDeletionActorDigest :: "digest_env \<Rightarrow> string \<Rightarrow> string" where
  "DataDeletionActorDigest dg actor = dg_sha256 dg (to_lower (trim_space actor))"

text \<open>
  The unique index on active requests refuses a second active request of a user; \<open>oid\<close> is the new object id. The
  caller gets the request as it was built, not as it was stored.
\<close>

definition CreateDataDeletionRequest :: "digest_env \<Rightarrow> (string \<Rightarrow> bool) \<Rightarrow> string \<Rightarrow> 64 word \<Rightarrow> string \<Rightarrow> string \<Rightarrow> int \<Rightarrow> deletion_store
    \<Rightarrow> (repo_error + DataDeletionRequest) \<times> deletion_store" where
  "CreateDataDeletionRequest dg rune_ok oid userID reasonCode actor now st =
     (let reasonCode' = trim_space reasonCode; actor' = trim_space actor
      in case ValidateDataDeletionRequestInput rune_ok userID reasonCode' actor' now of Some err \<Rightarrow> (Inl err, st) | None \<Rightarrow>
           if \<exists>r\<in>ran (ds_requests st). rq_Active r \<and> rq_UserID r = userID then (Inl RActiveRequest, st)
           else let r = \<lparr>rq_ID = oid, rq_UserID = userID, rq_Status = DataDeletionRequested, rq_ReasonCode = reasonCode', rq_ActorDigest = DataDeletionActorDigest dg actor',
                      rq_ScopeVersion = [], rq_Inventory = empty_inventory, rq_Unsupported = [], rq_ExecutionProtocol = None, rq_ExecutionSupported = False,
                      rq_ExecutionAudit = [], rq_ExecutionAuditCount = 0, rq_ExecutionAuditTail = [], rq_FailureCode = [], rq_RequestedAt = now, rq_PreflightedAt = 0,
                      rq_CancelledAt = 0, rq_CompletedAt = 0, rq_UpdatedAt = now, rq_LeaseToken = [], rq_LeaseUntil = None, rq_Revision = 1, rq_Active = True\<rparr>
                in (Inr r, st\<lparr>ds_requests := (ds_requests st)(oid \<mapsto> stored_request r)\<rparr>))"

definition GetDataDeletionRequest :: "string \<Rightarrow> deletion_store \<Rightarrow> repo_error + DataDeletionRequest" where
  "GetDataDeletionRequest oid st =
     (if oid = zero_id then Inl (RInvalid ''data deletion request identity is invalid'')
      else case ds_requests st oid of None \<Rightarrow> Inl (RNoDocuments ''get data deletion request'') | Some r \<Rightarrow> Inr r)"

definition checkpoint_stages :: "DataDeletionRequest \<Rightarrow> StageCheckpoint list" where
  "checkpoint_stages r = (case rq_ExecutionProtocol r of None \<Rightarrow> [] | Some p \<Rightarrow> ck_Stages (pr_Checkpoint p))"

definition dataDeletionNoActiveStageFilter :: "int \<Rightarrow> DataDeletionRequest \<Rightarrow> bool" where
  "dataDeletionNoActiveStageFilter now r \<longleftrightarrow> \<not> (\<exists>s\<in>set (checkpoint_stages r). sc_Status s = StageRunning \<and> bson_time now < sc_LeaseUntil s)"

definition dataDeletionNoAuditEventsFilter :: "DataDeletionRequest \<Rightarrow> bool" where
  "dataDeletionNoAuditEventsFilter r \<longleftrightarrow> rq_ExecutionAuditCount r = 0"

text \<open>\<^verbatim>\<open>FindOneAndUpdate\<close> of one request by its id: the updated document as it is stored, or none if the filter does not match.\<close>

definition update_request :: "string \<Rightarrow> (DataDeletionRequest \<Rightarrow> bool) \<Rightarrow> (DataDeletionRequest \<Rightarrow> DataDeletionRequest) \<Rightarrow> deletion_store
    \<Rightarrow> DataDeletionRequest option \<times> deletion_store" where
  "update_request oid matches change st = (case ds_requests st oid of
      None \<Rightarrow> (None, st)
    | Some r \<Rightarrow> if matches r then (Some (stored_request (change r)), st\<lparr>ds_requests := (ds_requests st)(oid \<mapsto> stored_request (change r))\<rparr>) else (None, st))"

definition ClaimDataDeletionPreflight :: "string \<Rightarrow> string \<Rightarrow> int \<Rightarrow> int \<Rightarrow> deletion_store \<Rightarrow> (repo_error + DataDeletionRequest option) \<times> deletion_store" where
  "ClaimDataDeletionPreflight oid token now leaseUntil st =
     (if oid = zero_id \<or> token = [] \<or> now = 0 \<or> leaseUntil \<le> now then (Inl (RInvalid ''data deletion preflight claim is invalid''), st)
      else let (r, st') = update_request oid
             (\<lambda>r. rq_Active r
                \<and> rq_Status r \<in> {DataDeletionRequested, DataDeletionBlockedLegalHold, DataDeletionBlockedSubjectBusy, DataDeletionPreviewReady, DataDeletionPreflightFailed}
                \<and> (case rq_LeaseUntil r of None \<Rightarrow> True | Some u \<Rightarrow> u \<le> bson_time now) \<and> dataDeletionNoAuditEventsFilter r \<and> dataDeletionNoActiveStageFilter now r)
             (\<lambda>r. r\<lparr>rq_Status := DataDeletionPreflightRunning, rq_LeaseToken := token, rq_LeaseUntil := Some leaseUntil, rq_UpdatedAt := now, rq_FailureCode := [],
                    rq_Revision := rq_Revision r + 1\<rparr>) st
           in (Inr r, st'))"

definition CompleteDataDeletionPreflight :: "string \<Rightarrow> string \<Rightarrow> string \<Rightarrow> DataDeletionInventory \<Rightarrow> Protocol option \<Rightarrow> string list \<Rightarrow> string \<Rightarrow> int \<Rightarrow> deletion_store
    \<Rightarrow> (repo_error + DataDeletionRequest) \<times> deletion_store" where
  "CompleteDataDeletionPreflight oid token status inventory protocol unsupported failureCode now st =
     (if oid = zero_id \<or> token = [] \<or> now = 0 then (Inl (RInvalid ''data deletion preflight completion is invalid''), st)
      else if status \<notin> {DataDeletionBlockedLegalHold, DataDeletionBlockedSubjectBusy, DataDeletionPreviewReady, DataDeletionPreflightFailed}
      then (Inl (RInvalid ''data deletion preflight completion status is invalid''), st)
      else case update_request oid (\<lambda>r. rq_Active r \<and> rq_Status r = DataDeletionPreflightRunning \<and> rq_LeaseToken r = token)
             (\<lambda>r. r\<lparr>rq_Status := status, rq_ScopeVersion := ''agent-data-deletion-preview/v2'', rq_Inventory := inventory, rq_ExecutionProtocol := protocol,
                    rq_Unsupported := unsupported, rq_ExecutionSupported := False, rq_FailureCode := failureCode, rq_ExecutionAudit := [],
                    rq_ExecutionAuditCount := 0, rq_ExecutionAuditTail := [], rq_PreflightedAt := now, rq_UpdatedAt := now, rq_LeaseToken := [],
                    rq_LeaseUntil := None, rq_Revision := rq_Revision r + 1\<rparr>) st of
             (None, st') \<Rightarrow> (Inl (RNoDocuments ''complete data deletion preflight''), st')
           | (Some r, st') \<Rightarrow> (Inr r, st'))"

definition CancelDataDeletionRequest :: "string \<Rightarrow> int \<Rightarrow> deletion_store \<Rightarrow> (repo_error + DataDeletionRequest) \<times> deletion_store" where
  "CancelDataDeletionRequest oid now st =
     (if oid = zero_id \<or> now = 0 then (Inl (RInvalid ''data deletion cancellation is invalid''), st)
      else case update_request oid
             (\<lambda>r. rq_Active r \<and> (rq_Status r \<noteq> DataDeletionPreflightRunning \<or> (case rq_LeaseUntil r of None \<Rightarrow> False | Some u \<Rightarrow> u \<le> bson_time now))
                \<and> dataDeletionNoActiveStageFilter now r)
             (\<lambda>r. r\<lparr>rq_Status := DataDeletionCancelled, rq_Active := False, rq_CancelledAt := now, rq_UpdatedAt := now, rq_ExecutionSupported := False,
                    rq_LeaseToken := [], rq_LeaseUntil := None, rq_Revision := rq_Revision r + 1\<rparr>) st of
             (None, st') \<Rightarrow> (Inl (RNoDocuments ''cancel data deletion request''), st')
           | (Some r, st') \<Rightarrow> (Inr r, st'))"

definition dataDeletionProtocolCompleted :: "Protocol \<Rightarrow> bool" where
  "dataDeletionProtocolCompleted p =
     (let c = pr_Checkpoint p; ss = ck_Stages c; ps = dp_Stages (pr_Plan p)
      in ck_CurrentStageID c = [] \<and> ps \<noteq> [] \<and> length ss = length ps
         \<and> list_all2 (\<lambda>s d. sc_StageID s = sg_ID d \<and> sc_Status s = StageSucceeded) ss ps
         \<and> sc_StageID (last ss) = StageFinalize)"

definition checkpoint_matches :: "int \<Rightarrow> int \<Rightarrow> int \<Rightarrow> string \<Rightarrow> Protocol \<Rightarrow> DataDeletionRequest \<Rightarrow> bool" where
  "checkpoint_matches expectedRequestRevision expectedCheckpointRevision expectedAuditCount expectedAuditTail protocol r \<longleftrightarrow>
     rq_Active r \<and> rq_Status r = DataDeletionPreviewReady \<and> rq_ExecutionSupported r \<and> rq_Revision r = expectedRequestRevision
     \<and> (case rq_ExecutionProtocol r of None \<Rightarrow> False | Some p \<Rightarrow>
          dp_Ready (pr_Plan p) \<and> dp_Digest (pr_Plan p) = dp_Digest (pr_Plan protocol) \<and> ck_PlanDigest (pr_Checkpoint p) = dp_Digest (pr_Plan protocol)
          \<and> ck_Revision (pr_Checkpoint p) = expectedCheckpointRevision)
     \<and> rq_ExecutionAuditCount r = expectedAuditCount \<and> rq_ExecutionAuditTail r = expectedAuditTail"

definition swap_checkpoint :: "Protocol \<Rightarrow> DeletionAuditEvent \<Rightarrow> int \<Rightarrow> DataDeletionRequest \<Rightarrow> DataDeletionRequest" where
  "swap_checkpoint protocol e now r =
     (let r' = r\<lparr>rq_ExecutionProtocol := map_option (\<lambda>p. p\<lparr>pr_Checkpoint := pr_Checkpoint protocol\<rparr>) (rq_ExecutionProtocol r), rq_UpdatedAt := now,
                 rq_ExecutionAuditTail := ae_EventDigest e, rq_Revision := rq_Revision r + 1, rq_ExecutionAuditCount := rq_ExecutionAuditCount r + 1,
                 rq_ExecutionAudit := rq_ExecutionAudit r @ [e]\<rparr>
      in if dataDeletionProtocolCompleted protocol
         then r'\<lparr>rq_Status := DataDeletionCompleted, rq_Active := False, rq_ExecutionSupported := False, rq_CompletedAt := now, rq_LeaseToken := [], rq_LeaseUntil := None\<rparr>
         else r')"

definition CompareAndSwapDataDeletionCheckpoint :: "digest_env \<Rightarrow> string \<Rightarrow> int \<Rightarrow> int \<Rightarrow> int \<Rightarrow> string \<Rightarrow> Protocol \<Rightarrow> DeletionAuditEvent \<Rightarrow> int \<Rightarrow> deletion_store
    \<Rightarrow> (repo_error + DataDeletionRequest option) \<times> deletion_store" where
  "CompareAndSwapDataDeletionCheckpoint dg oid expectedRequestRevision expectedCheckpointRevision expectedAuditCount expectedAuditTail protocol e now st =
     (if oid = zero_id \<or> expectedRequestRevision < 1 \<or> expectedCheckpointRevision < 1 \<or> expectedAuditCount < 0 \<or> MaxAuditEvents \<le> expectedAuditCount
         \<or> ck_Revision (pr_Checkpoint protocol) \<noteq> expectedCheckpointRevision + 1 \<or> now = 0
      then (Inl (RInvalid ''data deletion checkpoint compare-and-swap is invalid''), st)
      else case ValidateProtocol dg protocol of Some err \<Rightarrow> (Inl (RDeletion ''validate data deletion protocol'' err), st) | None \<Rightarrow>
        case ValidateAuditEvent dg e of Some err \<Rightarrow> (Inl (RDeletion ''validate data deletion audit event'' err), st) | None \<Rightarrow>
          if ae_RequestID e \<noteq> oid \<or> ae_Sequence e \<noteq> expectedAuditCount + 1 \<or> ae_RequestRevision e \<noteq> expectedRequestRevision + 1
             \<or> ae_CheckpointRevision e \<noteq> ck_Revision (pr_Checkpoint protocol) \<or> ae_PlanDigest e \<noteq> dp_Digest (pr_Plan protocol)
             \<or> ae_CapabilityDigest e \<noteq> dp_CapabilityDigest (pr_Plan protocol) \<or> ae_PreviousDigest e \<noteq> expectedAuditTail \<or> ae_OccurredAt e \<noteq> now
          then (Inl (RInvalid ''data deletion audit event does not match checkpoint transition''), st)
          else if dataDeletionProtocolCompleted protocol \<and> (ae_Type e \<noteq> AuditStageSucceeded \<or> ae_StageID e \<noteq> StageFinalize)
          then (Inl (RInvalid ''data deletion final checkpoint requires a matching success audit event''), st)
          else let (r, st') = update_request oid
                 (checkpoint_matches expectedRequestRevision expectedCheckpointRevision expectedAuditCount expectedAuditTail protocol)
                 (swap_checkpoint protocol e now) st
               in (Inr r, st'))"

section \<open>Subjects: leases and legal holds\<close>

text \<open>\<open>holdActive\<close> compares the decoded time with the caller's, the filter \<open>lease_free\<close> is the database's.\<close>

datatype lease_state = SubjectLeaseAcquired | SubjectHeld | SubjectBusy

definition holdActive :: "subject_document \<Rightarrow> int \<Rightarrow> bool" where
  "holdActive d now \<longleftrightarrow> su_Held d \<and> (case su_HoldUntil d of None \<Rightarrow> True | Some u \<Rightarrow> now < u)"

definition lease_free :: "subject_document \<Rightarrow> int \<Rightarrow> bool" where
  "lease_free d now \<longleftrightarrow> (case su_LeaseUntil d of None \<Rightarrow> True | Some u \<Rightarrow> u \<le> bson_time now)"

definition new_subject :: "64 word \<Rightarrow> subject_document" where
  "new_subject userID = \<lparr>su_UserID = userID, su_Held = False, su_ReasonCode = [], su_OperatorDigest = [], su_HeldAt = 0, su_HoldUntil = None, su_Revision = 0,
     su_LeaseToken = [], su_LeaseUntil = None, su_WriteFence = None, su_ActiveWrites = None\<rparr>"

definition put_subject :: "64 word \<Rightarrow> subject_document \<Rightarrow> deletion_store \<Rightarrow> deletion_store" where
  "put_subject userID d st = st\<lparr>ds_subjects := (ds_subjects st)(userID \<mapsto> stored_subject d)\<rparr>"

text \<open>An upsert whose filter does not match an existing document is refused by the unique key.\<close>

definition AcquireDataRetentionSubjectLease :: "64 word \<Rightarrow> string \<Rightarrow> int \<Rightarrow> int \<Rightarrow> deletion_store \<Rightarrow> (repo_error + lease_state) \<times> deletion_store" where
  "AcquireDataRetentionSubjectLease userID token now leaseUntil st =
     (if userID = 0 \<or> token = [] \<or> now = 0 \<or> leaseUntil \<le> now then (Inl (RInvalid ''data retention subject lease is invalid''), st)
      else case ds_subjects st userID of
        None \<Rightarrow> (Inr SubjectLeaseAcquired, put_subject userID ((new_subject userID)\<lparr>su_LeaseToken := token, su_LeaseUntil := Some leaseUntil\<rparr>) st)
      | Some d \<Rightarrow>
          if (\<not> su_Held d \<or> (case su_HoldUntil d of None \<Rightarrow> False | Some u \<Rightarrow> u \<le> bson_time now)) \<and> (su_LeaseToken d = token \<or> lease_free d now)
          then (Inr SubjectLeaseAcquired, put_subject userID (d\<lparr>su_UserID := userID, su_Held := False, su_LeaseToken := token, su_LeaseUntil := Some leaseUntil\<rparr>) st)
          else if holdActive d now then (Inr SubjectHeld, st) else (Inr SubjectBusy, st))"

definition ReleaseDataRetentionSubjectLease :: "64 word \<Rightarrow> string \<Rightarrow> deletion_store \<Rightarrow> repo_error option \<times> deletion_store" where
  "ReleaseDataRetentionSubjectLease userID token st =
     (if userID = 0 \<or> token = [] then (Some (RInvalid ''data retention subject lease identity is invalid''), st)
      else case ds_subjects st userID of
        None \<Rightarrow> (None, st)
      | Some d \<Rightarrow> if su_LeaseToken d = token then (None, put_subject userID (d\<lparr>su_LeaseToken := [], su_LeaseUntil := None\<rparr>) st) else (None, st))"

definition ValidateDataRetentionHoldInput :: "(string \<Rightarrow> bool) \<Rightarrow> 64 word \<Rightarrow> string \<Rightarrow> string \<Rightarrow> int \<Rightarrow> int \<Rightarrow> repo_error option" where
  "ValidateDataRetentionHoldInput rune_ok userID reasonCode operator now holdUntil =
     (if userID = 0 \<or> now = 0 then Some (RInvalid ''data retention hold subject or time is invalid'')
      else if reasonCode = [] \<or> 64 < length reasonCode then Some (RInvalid ''data retention hold reason code must contain 1 to 64 characters'')
      else if \<not> rune_ok reasonCode then Some (RInvalid ''data retention hold reason code contains unsupported characters'')
      else if operator = [] \<or> 128 < length operator then Some (RInvalid ''data retention hold operator must contain 1 to 128 characters'')
      else if holdUntil \<noteq> 0 \<and> holdUntil \<le> now then Some (RInvalid ''data retention hold expiry must be in the future'')
      else None)"

text \<open>A zero \<open>holdUntil\<close> is a hold without end; \<open>None\<close> as an answer is success.\<close>

definition ApplyDataRetentionHold :: "digest_env \<Rightarrow> (string \<Rightarrow> bool) \<Rightarrow> 64 word \<Rightarrow> string \<Rightarrow> string \<Rightarrow> int \<Rightarrow> int \<Rightarrow> deletion_store \<Rightarrow> repo_error option \<times> deletion_store" where
  "ApplyDataRetentionHold dg rune_ok userID reasonCode operator now holdUntil st =
     (let reasonCode' = trim_space reasonCode; operator' = trim_space operator
      in case ValidateDataRetentionHoldInput rune_ok userID reasonCode' operator' now holdUntil of Some err \<Rightarrow> (Some err, st) | None \<Rightarrow>
           let hold = (\<lambda>d. d\<lparr>su_UserID := userID, su_Held := True, su_ReasonCode := reasonCode', su_OperatorDigest := dg_sha256 dg (to_lower operator'), su_HeldAt := now,
                   su_HoldUntil := (if holdUntil = 0 then None else Some holdUntil), su_LeaseToken := [], su_LeaseUntil := None, su_Revision := su_Revision d + 1\<rparr>)
           in case ds_subjects st userID of
                None \<Rightarrow> (None, put_subject userID (hold (new_subject userID)) st)
              | Some d \<Rightarrow> if lease_free d now then (None, put_subject userID (hold d) st) else (Some (RInvalid ''data retention subject is busy''), st))"

definition ReleaseDataRetentionHold :: "64 word \<Rightarrow> string \<Rightarrow> int \<Rightarrow> deletion_store \<Rightarrow> repo_error option \<times> deletion_store" where
  "ReleaseDataRetentionHold userID operator now st =
     (let operator' = trim_space operator
      in if userID = 0 \<or> operator' = [] \<or> 128 < length operator' \<or> now = 0 then (Some (RInvalid ''data retention hold release is invalid''), st)
         else case ds_subjects st userID of
           None \<Rightarrow> (Some (RInvalid ''data retention hold does not exist''), st)
         | Some d \<Rightarrow> if su_Held d then (None, put_subject userID (d\<lparr>su_Held := False, su_HoldUntil := None, su_Revision := su_Revision d + 1\<rparr>) st)
                     else (Some (RInvalid ''data retention hold does not exist''), st))"

end
