(* ===== verification/Deletion_Execution.thy ===== *)
theory Deletion_Execution
  imports Deletion_Store
begin

text \<open>
  The control plane that executes a deletion request stage by stage:
  \<^verbatim>\<open>src/internal/module/agent/service/data_deletion_execution.go\<close>. Any number of workers claim and complete stages of stored
  requests; every call of the repository may fail, and the reply to an update that took effect may be lost.
\<close>

section \<open>Calls to the repository\<close>

text \<open>A call is delivered, or its caller gets an error and the call has taken effect or not.\<close>

datatype delivery = Delivered | Lost bool

fun delivered :: "delivery \<Rightarrow> (repo_error + 'a) \<times> 's \<Rightarrow> 's \<Rightarrow> (repo_error + 'a) \<times> 's" where
  "delivered Delivered answer st = answer"
| "delivered (Lost applied) answer st = (Inl RUnavailable, if applied then snd answer else st)"

record calls =
  cl_get :: delivery
  cl_lease :: delivery
  cl_swap :: delivery
  cl_release :: delivery

datatype exec_error =
    ErrDataDeletionExecutionUnavailable "deletion_error option"
  | ErrDataDeletionExecutionConflict
  | ErrDataDeletionExecutionLegalHold
  | ErrDataDeletionExecutionSubjectBusy
  | XInvalid string
  | XToken
  | XRepo repo_error
  | XRepoWrapped string repo_error
  | XDeletion deletion_error
  | XDeletionWrapped string deletion_error

definition release_lease :: "delivery \<Rightarrow> 64 word \<Rightarrow> string \<Rightarrow> deletion_store \<Rightarrow> (repo_error + unit) \<times> deletion_store" where
  "release_lease dlv userID token st =
     delivered dlv (case ReleaseDataRetentionSubjectLease userID token st of (Some err, st') \<Rightarrow> (Inl err, st') | (None, st') \<Rightarrow> (Inr (), st')) st"

definition get_request :: "delivery \<Rightarrow> string \<Rightarrow> deletion_store \<Rightarrow> repo_error + DataDeletionRequest" where
  "get_request dlv oid st = fst (delivered dlv (GetDataDeletionRequest oid st, st) st)"

section \<open>Stages of a stored request\<close>

definition executableDataDeletionProtocol :: "digest_env \<Rightarrow> DataDeletionRequest \<Rightarrow> string \<Rightarrow> int \<Rightarrow> int \<Rightarrow> CapabilitySnapshot \<Rightarrow> exec_error + Protocol" where
  "executableDataDeletionProtocol dg r oid expectedRequestRevision expectedCheckpointRevision capabilities =
     (case rq_ExecutionProtocol r of None \<Rightarrow> Inl ErrDataDeletionExecutionConflict | Some p \<Rightarrow>
        if rq_ID r \<noteq> oid \<or> rq_Revision r \<noteq> expectedRequestRevision \<or> ck_Revision (pr_Checkpoint p) \<noteq> expectedCheckpointRevision
        then Inl ErrDataDeletionExecutionConflict
        else if \<not> rq_Active r \<or> rq_Status r \<noteq> DataDeletionPreviewReady \<or> \<not> rq_ExecutionSupported r \<or> \<not> dp_Ready (pr_Plan p)
        then Inl (ErrDataDeletionExecutionUnavailable None)
        else case ValidateProtocol dg p of Some err \<Rightarrow> Inl (XDeletionWrapped ''validate data deletion execution protocol'' err) | None \<Rightarrow>
          case ValidatePlanCapabilities dg (pr_Plan p) capabilities of Some err \<Rightarrow> Inl (ErrDataDeletionExecutionUnavailable (Some err)) | None \<Rightarrow>
            case ValidateAuditTrail dg (rq_ExecutionAudit r) (rq_ExecutionAuditCount r) (rq_ExecutionAuditTail r) (dp_Digest (pr_Plan p)) (dp_CapabilityDigest (pr_Plan p)) of
              Some err \<Rightarrow> Inl (XDeletionWrapped ''validate data deletion execution audit'' err)
            | None \<Rightarrow>
                (case ValidateAuditProtocolBinding dg (rq_ExecutionAudit r) (rq_Revision r) p of
                   Some err \<Rightarrow> Inl (XDeletionWrapped ''validate data deletion audit checkpoint binding'' err)
                 | None \<Rightarrow> Inr p))"

definition dataDeletionStageDefinition :: "deletion_plan \<Rightarrow> string \<Rightarrow> Stage option" where
  "dataDeletionStageDefinition plan stageID = List.find (\<lambda>s. sg_ID s = stageID) (dp_Stages plan)"

definition dataDeletionRunningStage :: "Checkpoint \<Rightarrow> string \<Rightarrow> StageCheckpoint option" where
  "dataDeletionRunningStage c leaseToken = List.find (\<lambda>s. sc_StageID s = ck_CurrentStageID c \<and> sc_Status s = StageRunning \<and> sc_LeaseToken s = leaseToken) (ck_Stages c)"

definition dataDeletionStageCheckpoint :: "Checkpoint \<Rightarrow> string \<Rightarrow> StageCheckpoint option" where
  "dataDeletionStageCheckpoint c stageID = List.find (\<lambda>s. sc_StageID s = stageID) (ck_Stages c)"

record DataDeletionStageClaim =
  dc_Request :: DataDeletionRequest
  dc_Definition :: Stage
  dc_Checkpoint :: StageCheckpoint
  dc_LeaseToken :: string

text \<open>The service: the digests, the capabilities of its registry and the duration of a lease.\<close>

record deletion_service =
  sv_digests :: digest_env
  sv_capabilities :: CapabilitySnapshot
  sv_leaseDuration :: int

text \<open>The event of a transition to a checkpoint and stage.\<close>

definition transition_event :: "DataDeletionRequest \<Rightarrow> Protocol \<Rightarrow> StageCheckpoint \<Rightarrow> string \<Rightarrow> int \<Rightarrow> string \<Rightarrow> int \<Rightarrow> AuditEventInput" where
  "transition_event r p stage kind expectedRequestRevision token now =
     \<lparr>ai_RequestID = rq_ID r, ai_Sequence = rq_ExecutionAuditCount r + 1, ai_Type = kind, ai_Stage = stage, ai_RequestRevision = expectedRequestRevision + 1,
      ai_CheckpointRevision = ck_Revision (pr_Checkpoint p), ai_PlanDigest = dp_Digest (pr_Plan p), ai_CapabilityDigest = dp_CapabilityDigest (pr_Plan p),
      ai_LeaseToken = token, ai_PreviousDigest = rq_ExecutionAuditTail r, ai_OccurredAt = now\<rparr>"

text \<open>From the claimed lease on: any error releases the lease, and the reply to the release is ignored.\<close>

definition claim_leased :: "calls \<Rightarrow> deletion_service \<Rightarrow> DataDeletionRequest \<Rightarrow> Protocol \<Rightarrow> int \<Rightarrow> int \<Rightarrow> string \<Rightarrow> int \<Rightarrow> deletion_store
    \<Rightarrow> (exec_error + DataDeletionStageClaim) \<times> deletion_store" where
  "claim_leased cs s r p expectedRequestRevision expectedCheckpointRevision token now st =
     (let dg = sv_digests s; give_up = (\<lambda>err st. (Inl err, snd (release_lease (cl_release cs) (rq_UserID r) token st)))
      in case ClaimNextStage dg (Some (pr_Checkpoint p)) (pr_Plan p) expectedCheckpointRevision token now (now + sv_leaseDuration s) of
        Inl err \<Rightarrow> give_up (XDeletion err) st
      | Inr (stage, c) \<Rightarrow>
          let p' = p\<lparr>pr_Checkpoint := c\<rparr>
          in case NewAuditEvent dg (transition_event r p' stage AuditStageClaimed expectedRequestRevision token now) of
               Inl err \<Rightarrow> give_up (XDeletion err) st
             | Inr e \<Rightarrow>
                 (case delivered (cl_swap cs) (CompareAndSwapDataDeletionCheckpoint dg (rq_ID r) expectedRequestRevision expectedCheckpointRevision
                         (rq_ExecutionAuditCount r) (rq_ExecutionAuditTail r) p' e now st) st of
                    (Inl err, st') \<Rightarrow> give_up (XRepo err) st'
                  | (Inr None, st') \<Rightarrow> give_up ErrDataDeletionExecutionConflict st'
                  | (Inr (Some updated), st') \<Rightarrow>
                      (case dataDeletionStageDefinition (pr_Plan p') (sc_StageID stage) of
                         None \<Rightarrow> give_up (XInvalid ''claimed data deletion stage is absent from plan'') st'
                       | Some d \<Rightarrow> (Inr \<lparr>dc_Request = updated, dc_Definition = d, dc_Checkpoint = stage, dc_LeaseToken = token\<rparr>, st'))))"

text \<open>\<open>token\<close> is the random token; \<open>None\<close> if the system's random source fails.\<close>

definition ClaimExecutionStage :: "calls \<Rightarrow> deletion_service \<Rightarrow> string option \<Rightarrow> string \<Rightarrow> int \<Rightarrow> int \<Rightarrow> int \<Rightarrow> deletion_store
    \<Rightarrow> (exec_error + DataDeletionStageClaim) \<times> deletion_store" where
  "ClaimExecutionStage cs s random requestID expectedRequestRevision expectedCheckpointRevision now st =
     (if requestID = zero_id \<or> expectedRequestRevision < 1 \<or> expectedCheckpointRevision < 1 \<or> now = 0
      then (Inl (XInvalid ''data deletion execution claim is invalid''), st)
      else case get_request (cl_get cs) requestID st of Inl err \<Rightarrow> (Inl (XRepo err), st) | Inr r \<Rightarrow>
        case executableDataDeletionProtocol (sv_digests s) r requestID expectedRequestRevision expectedCheckpointRevision (sv_capabilities s) of
          Inl err \<Rightarrow> (Inl err, st)
        | Inr p \<Rightarrow>
            (case random of None \<Rightarrow> (Inl XToken, st) | Some token \<Rightarrow>
              case delivered (cl_lease cs) (AcquireDataRetentionSubjectLease (rq_UserID r) token now (now + sv_leaseDuration s) st) st of
                (Inl err, st') \<Rightarrow> (Inl (XRepoWrapped ''acquire data deletion execution subject lease'' err), st')
              | (Inr SubjectHeld, st') \<Rightarrow> (Inl ErrDataDeletionExecutionLegalHold, st')
              | (Inr SubjectBusy, st') \<Rightarrow> (Inl ErrDataDeletionExecutionSubjectBusy, st')
              | (Inr SubjectLeaseAcquired, st') \<Rightarrow> claim_leased cs s r p expectedRequestRevision expectedCheckpointRevision token now st'))"

text \<open>Completion answers with the updated request as soon as there is one, with or without an error.\<close>

definition complete_stage :: "calls \<Rightarrow> deletion_service \<Rightarrow> DataDeletionRequest \<Rightarrow> Protocol \<Rightarrow> StageCheckpoint \<Rightarrow> int \<Rightarrow> int \<Rightarrow> string \<Rightarrow> string \<Rightarrow> string \<Rightarrow> string \<Rightarrow> int \<Rightarrow> deletion_store
    \<Rightarrow> (DataDeletionRequest option \<times> exec_error option) \<times> deletion_store" where
  "complete_stage cs s r p running expectedRequestRevision expectedCheckpointRevision leaseToken status receiptDigest failureCode now st =
     (let dg = sv_digests s
      in case CompleteStage dg (Some (pr_Checkpoint p)) (pr_Plan p) expectedCheckpointRevision leaseToken status receiptDigest failureCode now of
        Inl err \<Rightarrow> ((None, Some (XDeletion err)), st)
      | Inr c \<Rightarrow>
          let p' = p\<lparr>pr_Checkpoint := c\<rparr>
          in case dataDeletionStageCheckpoint c (sc_StageID running) of
               None \<Rightarrow> ((None, Some (XInvalid ''completed data deletion stage is absent from checkpoint'')), st)
             | Some completed \<Rightarrow>
                 (case NewAuditEvent dg (transition_event r p' completed (if status = StageFailed then AuditStageFailed else AuditStageSucceeded)
                         expectedRequestRevision leaseToken now) of
                    Inl err \<Rightarrow> ((None, Some (XDeletion err)), st)
                  | Inr e \<Rightarrow>
                      (case delivered (cl_swap cs) (CompareAndSwapDataDeletionCheckpoint dg (rq_ID r) expectedRequestRevision expectedCheckpointRevision
                              (rq_ExecutionAuditCount r) (rq_ExecutionAuditTail r) p' e now st) st of
                         (Inl err, st') \<Rightarrow> ((None, Some (XRepo err)), st')
                       | (Inr None, st') \<Rightarrow>
                           ((None, Some ErrDataDeletionExecutionConflict), snd (release_lease (cl_release cs) (rq_UserID r) leaseToken st'))
                       | (Inr (Some updated), st') \<Rightarrow>
                           (case release_lease (cl_release cs) (rq_UserID r) leaseToken st' of
                              (Inl err, st'') \<Rightarrow> ((Some updated, Some (XRepoWrapped ''release data deletion execution subject lease'' err)), st'')
                            | (Inr _, st'') \<Rightarrow> ((Some updated, None), st'')))))"

definition CompleteExecutionStage :: "calls \<Rightarrow> deletion_service \<Rightarrow> string \<Rightarrow> int \<Rightarrow> int \<Rightarrow> string \<Rightarrow> string \<Rightarrow> string \<Rightarrow> string \<Rightarrow> int \<Rightarrow> deletion_store
    \<Rightarrow> (DataDeletionRequest option \<times> exec_error option) \<times> deletion_store" where
  "CompleteExecutionStage cs s requestID expectedRequestRevision expectedCheckpointRevision leaseToken status receiptDigest failureCode now st =
     (if requestID = zero_id \<or> expectedRequestRevision < 1 \<or> expectedCheckpointRevision < 1 \<or> leaseToken = [] \<or> now = 0
      then ((None, Some (XInvalid ''data deletion execution completion is invalid'')), st)
      else case get_request (cl_get cs) requestID st of Inl err \<Rightarrow> ((None, Some (XRepo err)), st) | Inr r \<Rightarrow>
        case executableDataDeletionProtocol (sv_digests s) r requestID expectedRequestRevision expectedCheckpointRevision (sv_capabilities s) of
          Inl err \<Rightarrow> ((None, Some err), st)
        | Inr p \<Rightarrow>
            (case dataDeletionRunningStage (pr_Checkpoint p) leaseToken of
               None \<Rightarrow> ((None, Some (XDeletion ErrStageNotRunning)), st)
             | Some running \<Rightarrow>
                 complete_stage cs s r p running expectedRequestRevision expectedCheckpointRevision leaseToken status receiptDigest failureCode now st))"

end
