(* ===== verification/Execution_Runs.thy ===== *)
theory Execution_Runs
  imports Deletion_Execution
begin

text \<open>
  Runs of the deletion control plane: which transitions a stored request can make, that the audit trail and the
  checkpoint stay bound to each other in an orderly run, and that taking over a stage whose lease has
  expired ends the execution for good.
\<close>

section \<open>Effects on the stored requests\<close>

lemma put_subject_requests [simp]: "ds_requests (put_subject u d st) = ds_requests st"
  by (simp add: put_subject_def)

lemma release_requests [simp]: "ds_requests (snd (release_lease dlv u token st)) = ds_requests st"
  by (cases dlv) (auto simp: release_lease_def ReleaseDataRetentionSubjectLease_def split: option.splits)

lemma lease_requests [simp]: "ds_requests (snd (AcquireDataRetentionSubjectLease u token now lease st)) = ds_requests st"
  by (auto simp: AcquireDataRetentionSubjectLease_def split: option.splits)

lemma delivered_requests:
  assumes "delivered dlv (AcquireDataRetentionSubjectLease u token now lease st) st = (a, st')"
  shows "ds_requests st' = ds_requests st"
  using assms lease_requests [of u token now lease st] by (cases dlv) (auto split: if_splits)

lemma get_request_Inr: "get_request dlv oid st = Inr r \<Longrightarrow> ds_requests st oid = Some r"
  by (cases dlv) (auto simp: get_request_def GetDataDeletionRequest_def split: if_splits option.splits)

text \<open>What a swap stores and returns.\<close>

definition swapped :: "Protocol \<Rightarrow> DeletionAuditEvent \<Rightarrow> int \<Rightarrow> DataDeletionRequest \<Rightarrow> DataDeletionRequest" where
  "swapped p e now r = stored_request (swap_checkpoint p e now r)"

text \<open>A swap changes nothing, or it replaces the checkpoint of a request that matches.\<close>

definition swap_ok :: "digest_env \<Rightarrow> string \<Rightarrow> int \<Rightarrow> int \<Rightarrow> int \<Rightarrow> string \<Rightarrow> Protocol \<Rightarrow> DeletionAuditEvent \<Rightarrow> int \<Rightarrow> bool" where
  "swap_ok dg oid er ec n tailD p e now \<longleftrightarrow> n < MaxAuditEvents \<and> ValidateProtocol dg p = None \<and> ValidateAuditEvent dg e = None \<and> ae_RequestID e = oid \<and> ae_OccurredAt e = now
     \<and> ae_Sequence e = n + 1 \<and> ae_RequestRevision e = er + 1 \<and> ae_CheckpointRevision e = ck_Revision (pr_Checkpoint p) \<and> ck_Revision (pr_Checkpoint p) = ec + 1
     \<and> ae_PlanDigest e = dp_Digest (pr_Plan p) \<and> ae_CapabilityDigest e = dp_CapabilityDigest (pr_Plan p) \<and> ae_PreviousDigest e = tailD"

lemma swap_effect:
  assumes "CompareAndSwapDataDeletionCheckpoint dg oid er ec n tailD p e now st = (a, st')"
  shows "st' = st \<and> (\<forall>r. a \<noteq> Inr (Some r)) \<or>
    (\<exists>r. ds_requests st oid = Some r \<and> swap_ok dg oid er ec n tailD p e now \<and> a = Inr (Some (swapped p e now r))
      \<and> ds_requests st' = (ds_requests st)(oid \<mapsto> swapped p e now r))"
proof (cases "st' = st \<and> (\<forall>r. a \<noteq> Inr (Some r))")
  case False
  have "swap_ok dg oid er ec n tailD p e now \<and> (\<exists>r. update_request oid (checkpoint_matches er ec n tailD p) (swap_checkpoint p e now) st = (r, st') \<and> a = Inr r)"
    using assms False unfolding CompareAndSwapDataDeletionCheckpoint_def swap_ok_def
    by (auto split: if_splits option.splits prod.splits)
  then show ?thesis using False by (auto simp: update_request_def swapped_def split: option.splits if_splits)
qed simp

lemma delivered_swap:
  assumes "delivered dlv (CompareAndSwapDataDeletionCheckpoint dg oid er ec n tailD p e now st) st = (a, st')"
  shows "st' = st \<and> (\<forall>r. a \<noteq> Inr (Some r)) \<or>
    (\<exists>r. ds_requests st oid = Some r \<and> swap_ok dg oid er ec n tailD p e now \<and> ds_requests st' = (ds_requests st)(oid \<mapsto> swapped p e now r)
      \<and> (\<forall>r'. a = Inr (Some r') \<longrightarrow> r' = swapped p e now r))"
proof -
  obtain a0 st0 where c: "CompareAndSwapDataDeletionCheckpoint dg oid er ec n tailD p e now st = (a0, st0)" by (cases "CompareAndSwapDataDeletionCheckpoint dg oid er ec n tailD p e now st")
  note S = swap_effect [OF c]
  show ?thesis
  proof (cases dlv)
    case Delivered
    then show ?thesis using assms c S by auto
  next
    case (Lost applied)
    then show ?thesis using assms c S by (cases applied) auto
  qed
qed

section \<open>Transitions\<close>

text \<open>A request moves to a checkpoint, with the stage and the kind of event that explains it.\<close>

definition moves :: "deletion_service \<Rightarrow> DataDeletionRequest \<Rightarrow> Protocol \<Rightarrow> Checkpoint \<Rightarrow> StageCheckpoint \<Rightarrow> string \<Rightarrow> string \<Rightarrow> int \<Rightarrow> DataDeletionRequest \<Rightarrow> bool" where
  "moves s r p c stage kind token now r' \<longleftrightarrow> (\<exists>e. let p' = p\<lparr>pr_Checkpoint := c\<rparr> in
     NewAuditEvent (sv_digests s) (transition_event r p' stage kind (rq_Revision r) token now) = Inr e
     \<and> swap_ok (sv_digests s) (rq_ID r) (rq_Revision r) (ck_Revision (pr_Checkpoint p)) (rq_ExecutionAuditCount r) (rq_ExecutionAuditTail r) p' e now
     \<and> r' = swapped p' e now r)"

definition executes :: "deletion_service \<Rightarrow> DataDeletionRequest \<Rightarrow> Protocol \<Rightarrow> bool" where
  "executes s r p \<longleftrightarrow> executableDataDeletionProtocol (sv_digests s) r (rq_ID r) (rq_Revision r) (ck_Revision (pr_Checkpoint p)) (sv_capabilities s) = Inr p"

lemma executable_Inr:
  assumes "executableDataDeletionProtocol dg r oid er ec caps = Inr p"
  shows "rq_ID r = oid" "rq_Revision r = er" "ck_Revision (pr_Checkpoint p) = ec" "rq_ExecutionProtocol r = Some p"
  using assms by (auto simp: executableDataDeletionProtocol_def split: option.splits if_splits)

lemma claim_effect:
  assumes "ClaimExecutionStage cs s random oid er ec now st = (a, st')" "ds_requests st' \<noteq> ds_requests st \<or> (\<exists>claim. a = Inr claim)"
  shows "\<exists>r p stage c token r'. ds_requests st oid = Some r \<and> executes s r p \<and> rq_ID r = oid \<and> now \<noteq> 0
    \<and> ClaimNextStage (sv_digests s) (Some (pr_Checkpoint p)) (pr_Plan p) (ck_Revision (pr_Checkpoint p)) token now (now + sv_leaseDuration s) = Inr (stage, c)
    \<and> moves s r p c stage AuditStageClaimed token now r' \<and> ds_requests st' = (ds_requests st)(oid \<mapsto> r') \<and> (\<forall>claim. a = Inr claim \<longrightarrow> dc_Request claim = r')"
proof -
  have n: "now \<noteq> 0" using assms by (auto simp: ClaimExecutionStage_def split: if_splits)
  obtain r where r: "get_request (cl_get cs) oid st = Inr r" using assms by (auto simp: ClaimExecutionStage_def split: if_splits sum.splits)
  obtain p where p: "executableDataDeletionProtocol (sv_digests s) r oid er ec (sv_capabilities s) = Inr p"
    using assms r by (auto simp: ClaimExecutionStage_def split: if_splits sum.splits)
  note P = executable_Inr [OF p]
  obtain token where token: "random = Some token" using assms r p by (cases random) (auto simp: ClaimExecutionStage_def split: if_splits)
  obtain l st1 where l: "delivered (cl_lease cs) (AcquireDataRetentionSubjectLease (rq_UserID r) token now (now + sv_leaseDuration s) st) st = (l, st1)"
    by (cases "delivered (cl_lease cs) (AcquireDataRetentionSubjectLease (rq_UserID r) token now (now + sv_leaseDuration s) st) st")
  have st1: "ds_requests st1 = ds_requests st" by (rule delivered_requests [OF l])
  have cl: "claim_leased cs s r p er ec token now st1 = (a, st')"
    using assms r p token l st1 n by (auto simp: ClaimExecutionStage_def split: if_splits sum.splits lease_state.splits)
  let ?claim = "ClaimNextStage (sv_digests s) (Some (pr_Checkpoint p)) (pr_Plan p) ec token now (now + sv_leaseDuration s)"
  obtain stage c where c: "?claim = Inr (stage, c)"
    using assms(2) cl st1 unfolding claim_leased_def Let_def by (cases ?claim) auto
  define p' where "p' = p\<lparr>pr_Checkpoint := c\<rparr>"
  let ?event = "NewAuditEvent (sv_digests s) (transition_event r p' stage AuditStageClaimed er token now)"
  obtain e where e: "?event = Inr e"
    using assms(2) cl st1 c unfolding claim_leased_def Let_def p'_def by (cases ?event) (auto simp: p'_def)
  let ?swap = "delivered (cl_swap cs) (CompareAndSwapDataDeletionCheckpoint (sv_digests s) (rq_ID r) er ec (rq_ExecutionAuditCount r) (rq_ExecutionAuditTail r) p' e now st1) st1"
  obtain b st2 where b: "?swap = (b, st2)" by (cases ?swap)
  have fin: "ds_requests st' = ds_requests st2" "\<And>claim. a = Inr claim \<Longrightarrow> b = Inr (Some (dc_Request claim))"
    using cl c e [unfolded p'_def] b [unfolded p'_def] unfolding claim_leased_def Let_def by (auto split: sum.splits option.splits)
  have "\<not> (st2 = st1 \<and> (\<forall>r. b \<noteq> Inr (Some r)))" using assms(2) fin st1 by auto
  then obtain r0 where r0: "ds_requests st1 (rq_ID r) = Some r0"
      "swap_ok (sv_digests s) (rq_ID r) er ec (rq_ExecutionAuditCount r) (rq_ExecutionAuditTail r) p' e now"
      "ds_requests st2 = (ds_requests st1)(rq_ID r \<mapsto> swapped p' e now r0)" "\<forall>r'. b = Inr (Some r') \<longrightarrow> r' = swapped p' e now r0"
    using delivered_swap [OF b] by blast
  have "r0 = r" using get_request_Inr [OF r] r0(1) st1 P(1) by simp
  then have "moves s r p c stage AuditStageClaimed token now (swapped p' e now r)"
    unfolding moves_def Let_def p'_def [symmetric] using e r0(2) P by auto
  then show ?thesis
    using get_request_Inr [OF r] p P n c r0 fin st1 \<open>r0 = r\<close> unfolding executes_def
    by (intro exI [of _ r] exI [of _ p] exI [of _ stage] exI [of _ c] exI [of _ token] exI [of _ "swapped p' e now r"]) auto
qed

lemma complete_effect:
  assumes "CompleteExecutionStage cs s oid er ec token status receipt code now st = ((u, err), st')" "ds_requests st' \<noteq> ds_requests st \<or> u \<noteq> None \<or> err = None"
  shows "\<exists>r p running c stage r'. ds_requests st oid = Some r \<and> executes s r p \<and> rq_ID r = oid \<and> now \<noteq> 0
    \<and> dataDeletionRunningStage (pr_Checkpoint p) token = Some running
    \<and> CompleteStage (sv_digests s) (Some (pr_Checkpoint p)) (pr_Plan p) (ck_Revision (pr_Checkpoint p)) token status receipt code now = Inr c
    \<and> dataDeletionStageCheckpoint c (sc_StageID running) = Some stage
    \<and> moves s r p c stage (if status = StageFailed then AuditStageFailed else AuditStageSucceeded) token now r' \<and> ds_requests st' = (ds_requests st)(oid \<mapsto> r')
    \<and> (\<forall>r''. u = Some r'' \<longrightarrow> r'' = r')"
proof -
  have n: "now \<noteq> 0" using assms by (auto simp: CompleteExecutionStage_def split: if_splits)
  obtain r where r: "get_request (cl_get cs) oid st = Inr r" using assms by (auto simp: CompleteExecutionStage_def split: if_splits sum.splits)
  obtain p where p: "executableDataDeletionProtocol (sv_digests s) r oid er ec (sv_capabilities s) = Inr p"
    using assms r by (auto simp: CompleteExecutionStage_def split: if_splits sum.splits)
  note P = executable_Inr [OF p]
  obtain running where g: "dataDeletionRunningStage (pr_Checkpoint p) token = Some running"
    using assms r p by (auto simp: CompleteExecutionStage_def split: if_splits option.splits)
  have cl: "complete_stage cs s r p running er ec token status receipt code now st = ((u, err), st')"
    using assms r p g by (auto simp: CompleteExecutionStage_def split: if_splits)
  let ?complete = "CompleteStage (sv_digests s) (Some (pr_Checkpoint p)) (pr_Plan p) ec token status receipt code now"
  obtain c where c: "?complete = Inr c" using assms(2) cl unfolding complete_stage_def Let_def by (cases ?complete) auto
  obtain stage where stage: "dataDeletionStageCheckpoint c (sc_StageID running) = Some stage"
    using assms(2) cl c unfolding complete_stage_def Let_def by (cases "dataDeletionStageCheckpoint c (sc_StageID running)") auto
  define p' where "p' = p\<lparr>pr_Checkpoint := c\<rparr>"
  let ?kind = "if status = StageFailed then AuditStageFailed else AuditStageSucceeded"
  let ?event = "NewAuditEvent (sv_digests s) (transition_event r p' stage ?kind er token now)"
  obtain e where e: "?event = Inr e"
    using assms(2) cl c stage unfolding complete_stage_def Let_def by (cases ?event) (auto simp: p'_def)
  let ?swap = "delivered (cl_swap cs) (CompareAndSwapDataDeletionCheckpoint (sv_digests s) (rq_ID r) er ec (rq_ExecutionAuditCount r) (rq_ExecutionAuditTail r) p' e now st) st"
  obtain b st2 where b: "?swap = (b, st2)" by (cases ?swap)
  obtain x st3 where x: "release_lease (cl_release cs) (rq_UserID r) token st2 = (x, st3)" by (cases "release_lease (cl_release cs) (rq_UserID r) token st2")
  have fin: "ds_requests st' = ds_requests st2" "\<And>r'. u = Some r' \<Longrightarrow> b = Inr (Some r')" "err = None \<Longrightarrow> u \<noteq> None"
    using cl c stage e [unfolded p'_def] b [unfolded p'_def] x release_requests [of "cl_release cs" "rq_UserID r" token st2]
    unfolding complete_stage_def Let_def by (auto split: sum.splits option.splits prod.splits)
  have "\<not> (st2 = st \<and> (\<forall>r. b \<noteq> Inr (Some r)))" using assms(2) fin by auto
  then obtain r0 where r0: "ds_requests st (rq_ID r) = Some r0"
      "swap_ok (sv_digests s) (rq_ID r) er ec (rq_ExecutionAuditCount r) (rq_ExecutionAuditTail r) p' e now"
      "ds_requests st2 = (ds_requests st)(rq_ID r \<mapsto> swapped p' e now r0)" "\<forall>r'. b = Inr (Some r') \<longrightarrow> r' = swapped p' e now r0"
    using delivered_swap [OF b] by blast
  have "r0 = r" using get_request_Inr [OF r] r0(1) P(1) by simp
  then have "moves s r p c stage ?kind token now (swapped p' e now r)"
    unfolding moves_def Let_def p'_def [symmetric] using e r0(2) P by auto
  then show ?thesis
    using get_request_Inr [OF r] p P n c g stage r0 fin \<open>r0 = r\<close> unfolding executes_def
    by (intro exI [of _ r] exI [of _ p] exI [of _ running] exI [of _ c] exI [of _ stage] exI [of _ "swapped p' e now r"]) auto
qed

section \<open>Requests whose audit trail explains their checkpoint\<close>

lemma executes_iff:
  "executes s r p \<longleftrightarrow> rq_ExecutionProtocol r = Some p \<and> rq_Active r \<and> rq_Status r = DataDeletionPreviewReady \<and> rq_ExecutionSupported r \<and> dp_Ready (pr_Plan p)
     \<and> ValidateProtocol (sv_digests s) p = None \<and> ValidatePlanCapabilities (sv_digests s) (pr_Plan p) (sv_capabilities s) = None
     \<and> ValidateAuditTrail (sv_digests s) (rq_ExecutionAudit r) (rq_ExecutionAuditCount r) (rq_ExecutionAuditTail r) (dp_Digest (pr_Plan p)) (dp_CapabilityDigest (pr_Plan p)) = None
     \<and> ValidateAuditProtocolBinding (sv_digests s) (rq_ExecutionAudit r) (rq_Revision r) p = None"
  by (auto simp: executes_def executableDataDeletionProtocol_def split: option.splits if_splits)

lemma binding_iff:
  assumes "es \<noteq> []"
  shows "ValidateAuditProtocolBinding dg es revision p = None \<longleftrightarrow> 1 \<le> revision \<and> ValidateProtocol dg p = None \<and> ae_RequestRevision (last es) = revision
     \<and> ae_CheckpointRevision (last es) = ck_Revision (pr_Checkpoint p)
     \<and> (\<exists>stage. auditCheckpointStage (pr_Checkpoint p) (ae_StageID (last es)) = Some stage \<and> sc_Attempts stage = ae_Attempt (last es)
          \<and> tail_binding dg (last es) stage (pr_Checkpoint p) = None)"
  using assms by (auto simp: ValidateAuditProtocolBinding_def Let_def split: option.splits if_splits)

text \<open>A request whose times are those of a document, with whole milliseconds, and whose events are of the request.\<close>

definition audited :: "deletion_service \<Rightarrow> DataDeletionRequest \<Rightarrow> Protocol \<Rightarrow> bool" where
  "audited s r p \<longleftrightarrow> executes s r p \<and> (\<forall>e\<in>set (rq_ExecutionAudit r). ae_RequestID e = rq_ID r)
     \<and> (rq_ExecutionAudit r = [] \<longrightarrow> ck_CurrentStageID (pr_Checkpoint p) = []) \<and> stored_request r = r \<and> \<not> dataDeletionProtocolCompleted p"

text \<open>The time of the last event, before which nothing may happen in an orderly run.\<close>

definition last_event_at :: "DataDeletionRequest \<Rightarrow> int" where
  "last_event_at r = (if rq_ExecutionAudit r = [] then 0 else ae_OccurredAt (last (rq_ExecutionAudit r)))"

lemma NewAuditEvent_Inr: "NewAuditEvent dg i = Inr e \<Longrightarrow> e = audit_event dg i \<and> ValidateAuditEvent dg e = None"
  by (auto simp: NewAuditEvent_def Let_def split: if_splits option.splits)

lemma audit_event_fields [simp]:
  "ae_Type (audit_event dg i) = ai_Type i" "ae_StageID (audit_event dg i) = sc_StageID (ai_Stage i)" "ae_Attempt (audit_event dg i) = sc_Attempts (ai_Stage i)"
  "ae_LeaseDigest (audit_event dg i) = LeaseTokenDigest dg (ai_LeaseToken i)" "ae_ReceiptDigest (audit_event dg i) = sc_ReceiptDigest (ai_Stage i)"
  "ae_FailureCode (audit_event dg i) = sc_FailureCode (ai_Stage i)"
  by (simp_all add: audit_event_def Let_def)

lemma tail_valid:
  assumes "executes s r p" and ne: "rq_ExecutionAudit r \<noteq> []"
  shows "ValidateAuditEvent (sv_digests s) (last (rq_ExecutionAudit r)) = None"
proof -
  have t: "ValidateAuditTrail (sv_digests s) (rq_ExecutionAudit r) (rq_ExecutionAuditCount r) (rq_ExecutionAuditTail r) (dp_Digest (pr_Plan p)) (dp_CapabilityDigest (pr_Plan p)) = None"
    using assms(1) by (auto simp: executes_iff)
  obtain fs e where fs: "rq_ExecutionAudit r = fs @ [e]" using ne by (metis rev_exhaust)
  show ?thesis using trail_chain(1) [OF t ne] unfolding fs audit_chain_append by (auto simp: audit_step_def split: sum.splits option.splits)
qed

text \<open>An open claim at the tail is the claim of the running stage.\<close>

lemma tail_claim:
  assumes "executes s r p" "ck_CurrentStageID (pr_Checkpoint p) \<noteq> []" and ne: "rq_ExecutionAudit r \<noteq> []"
  defines "e \<equiv> last (rq_ExecutionAudit r)"
  shows "ae_Type e = AuditStageClaimed"
    "\<exists>stage. auditCheckpointStage (pr_Checkpoint p) (ae_StageID e) = Some stage \<and> sc_Attempts stage = ae_Attempt e \<and> sc_Status stage = StageRunning
       \<and> LeaseTokenDigest (sv_digests s) (sc_LeaseToken stage) = ae_LeaseDigest e"
proof -
  have b: "ValidateAuditProtocolBinding (sv_digests s) (rq_ExecutionAudit r) (rq_Revision r) p = None" using assms(1) by (auto simp: executes_iff)
  have "ValidateAuditEvent (sv_digests s) e = None" unfolding e_def by (rule tail_valid [OF assms(1) ne])
  then have kinds: "ae_Type e \<in> {AuditStageClaimed, AuditStageSucceeded, AuditStageFailed}" by (rule valid_event_type)
  obtain stage where st: "auditCheckpointStage (pr_Checkpoint p) (ae_StageID e) = Some stage" "sc_Attempts stage = ae_Attempt e"
    "tail_binding (sv_digests s) e stage (pr_Checkpoint p) = None" using b unfolding binding_iff [OF ne] e_def by blast
  show claimed: "ae_Type e = AuditStageClaimed" using kinds st(3) assms(2) by (auto simp: tail_binding_def audit_types split: if_splits)
  show "\<exists>stage. auditCheckpointStage (pr_Checkpoint p) (ae_StageID e) = Some stage \<and> sc_Attempts stage = ae_Attempt e \<and> sc_Status stage = StageRunning
       \<and> LeaseTokenDigest (sv_digests s) (sc_LeaseToken stage) = ae_LeaseDigest e"
    using st claimed by (auto simp: tail_binding_def split: if_splits)
qed

lemma stored_request_fields [simp]:
  "rq_ID (stored_request r) = rq_ID r" "rq_Revision (stored_request r) = rq_Revision r" "rq_Status (stored_request r) = rq_Status r"
  "rq_Active (stored_request r) = rq_Active r" "rq_ExecutionSupported (stored_request r) = rq_ExecutionSupported r" "rq_UserID (stored_request r) = rq_UserID r"
  "rq_ExecutionAudit (stored_request r) = map stored_event (rq_ExecutionAudit r)" "rq_ExecutionAuditCount (stored_request r) = rq_ExecutionAuditCount r"
  "rq_ExecutionAuditTail (stored_request r) = rq_ExecutionAuditTail r"
  "rq_ExecutionProtocol (stored_request r) = map_option stored_protocol (rq_ExecutionProtocol r)"
  by (simp_all add: stored_request_def)

lemma swap_checkpoint_fields [simp]:
  "rq_ID (swap_checkpoint p e now r) = rq_ID r" "rq_Revision (swap_checkpoint p e now r) = rq_Revision r + 1"
  "rq_ExecutionAudit (swap_checkpoint p e now r) = rq_ExecutionAudit r @ [e]" "rq_ExecutionAuditCount (swap_checkpoint p e now r) = rq_ExecutionAuditCount r + 1"
  "rq_ExecutionAuditTail (swap_checkpoint p e now r) = ae_EventDigest e"
  "rq_ExecutionProtocol (swap_checkpoint p e now r) = map_option (\<lambda>q. q\<lparr>pr_Checkpoint := pr_Checkpoint p\<rparr>) (rq_ExecutionProtocol r)"
  by (simp_all add: swap_checkpoint_def Let_def)

lemma stored_event_fields [simp]:
  "ae_Type (stored_event e) = ae_Type e" "ae_RequestID (stored_event e) = ae_RequestID e" "ae_EventDigest (stored_event e) = ae_EventDigest e"
  by (simp_all add: stored_event_def)

lemma stored_stage_fields [simp]: "sc_StageID (stored_stage x) = sc_StageID x" "sc_Status (stored_stage x) = sc_Status x"
  by (simp_all add: stored_stage_def)

text \<open>Storing is a projection, and it changes nothing when all times are whole milliseconds.\<close>

lemma bson_time_twice [simp]: "bson_time (bson_time t) = bson_time t"
  by (simp add: bson_time_def)

lemma whole_ms_iff: "whole_ms t \<longleftrightarrow> 1000000 dvd t"
  unfolding whole_ms_def bson_time_def by (metis dvd_div_mult_self dvd_triv_right)

lemma whole_ms_add: "whole_ms t \<Longrightarrow> whole_ms u \<Longrightarrow> whole_ms (t + u)"
  by (simp add: whole_ms_iff)

lemma stored_twice [simp]:
  "stored_plan (stored_plan plan) = stored_plan plan" "stored_stage (stored_stage x) = stored_stage x" "stored_checkpoint (stored_checkpoint c) = stored_checkpoint c"
  "stored_protocol (stored_protocol p) = stored_protocol p" "stored_event (stored_event e) = stored_event e"
  by (simp_all add: stored_plan_def stored_stage_def stored_checkpoint_def stored_protocol_def stored_event_def)

lemma stored_request_twice [simp]: "stored_request (stored_request r) = stored_request r"
  by (cases "rq_ExecutionProtocol r"; cases "rq_LeaseUntil r") (simp_all add: stored_request_def)

lemma stored_whole:
  "whole_ms (ae_OccurredAt e) \<Longrightarrow> stored_event e = e"
  "whole_ms (sc_LeaseUntil x) \<Longrightarrow> whole_ms (sc_StartedAt x) \<Longrightarrow> whole_ms (sc_CompletedAt x) \<Longrightarrow> stored_stage x = x"
  "stored_stage x = x \<Longrightarrow> whole_ms (sc_LeaseUntil x) \<and> whole_ms (sc_StartedAt x) \<and> whole_ms (sc_CompletedAt x)"
  by (cases e; simp add: stored_event_def whole_ms_def) (cases x; simp add: stored_stage_def whole_ms_def)+

lemma stored_checkpoint_iff: "stored_checkpoint c = c \<longleftrightarrow> (\<forall>x\<in>set (ck_Stages c). stored_stage x = x) \<and> whole_ms (ck_UpdatedAt c)"
proof -
  have "map stored_stage xs = xs \<longleftrightarrow> (\<forall>x\<in>set xs. stored_stage x = x)" for xs by (induction xs) auto
  then show ?thesis by (cases c) (simp add: stored_checkpoint_def whole_ms_def)
qed

lemma stored_request_parts:
  assumes "stored_request r = r"
  shows "map stored_event (rq_ExecutionAudit r) = rq_ExecutionAudit r" "map_option stored_protocol (rq_ExecutionProtocol r) = rq_ExecutionProtocol r"
  using assms stored_request_fields(7,10) [of r] by simp_all

lemma swapped_fields [simp]:
  "rq_ID (swapped p e now r) = rq_ID r" "rq_Revision (swapped p e now r) = rq_Revision r + 1" "stored_request (swapped p e now r) = swapped p e now r"
  by (simp_all add: swapped_def)

lemma swapped_whole:
  assumes "stored_request r = r" "rq_ExecutionProtocol r = Some p" "stored_checkpoint c = c" "whole_ms (ae_OccurredAt e)"
  shows "rq_ExecutionAudit (swapped (p\<lparr>pr_Checkpoint := c\<rparr>) e now r) = rq_ExecutionAudit r @ [e]"
    "rq_ExecutionAuditCount (swapped (p\<lparr>pr_Checkpoint := c\<rparr>) e now r) = rq_ExecutionAuditCount r + 1"
    "rq_ExecutionAuditTail (swapped (p\<lparr>pr_Checkpoint := c\<rparr>) e now r) = ae_EventDigest e"
    "rq_ExecutionProtocol (swapped (p\<lparr>pr_Checkpoint := c\<rparr>) e now r) = Some (p\<lparr>pr_Checkpoint := c\<rparr>)"
proof -
  have p: "stored_plan (pr_Plan p) = pr_Plan p"
    using stored_request_parts(2) [OF assms(1)] assms(2) by (simp add: stored_protocol_def) (metis Protocol.select_convs(1))
  show "rq_ExecutionProtocol (swapped (p\<lparr>pr_Checkpoint := c\<rparr>) e now r) = Some (p\<lparr>pr_Checkpoint := c\<rparr>)"
    using p assms(2,3) by (cases p) (simp add: swapped_def stored_protocol_def)
qed (use stored_request_parts(1) [OF assms(1)] stored_whole(1) [OF assms(4)] in \<open>simp_all add: swapped_def\<close>)

text \<open>The trail after a move is valid exactly if the event follows it.\<close>

lemma moves_trail:
  assumes "executes s r p" "moves s r p c stage kind token now r'" "stored_request r = r" "stored_checkpoint c = c" "whole_ms now"
  obtains e where "rq_ExecutionAudit r' = rq_ExecutionAudit r @ [e]" "e = audit_event (sv_digests s) (transition_event r (p\<lparr>pr_Checkpoint := c\<rparr>) stage kind (rq_Revision r) token now)"
    "swap_ok (sv_digests s) (rq_ID r) (rq_Revision r) (ck_Revision (pr_Checkpoint p)) (rq_ExecutionAuditCount r) (rq_ExecutionAuditTail r) (p\<lparr>pr_Checkpoint := c\<rparr>) e now"
    "r' = swapped (p\<lparr>pr_Checkpoint := c\<rparr>) e now r" "rq_ExecutionProtocol r' = Some (p\<lparr>pr_Checkpoint := c\<rparr>)"
    "ValidateAuditTrail (sv_digests s) (rq_ExecutionAudit r') (rq_ExecutionAuditCount r') (rq_ExecutionAuditTail r') (dp_Digest (pr_Plan p)) (dp_CapabilityDigest (pr_Plan p)) = None
       \<longleftrightarrow> event_follows (rq_ExecutionAudit r) e"
proof -
  let ?p = "p\<lparr>pr_Checkpoint := c\<rparr>"
  obtain e where e: "NewAuditEvent (sv_digests s) (transition_event r ?p stage kind (rq_Revision r) token now) = Inr e"
    "swap_ok (sv_digests s) (rq_ID r) (rq_Revision r) (ck_Revision (pr_Checkpoint p)) (rq_ExecutionAuditCount r) (rq_ExecutionAuditTail r) ?p e now"
    "r' = swapped ?p e now r" using assms(2) unfolding moves_def Let_def by blast
  have p: "rq_ExecutionProtocol r = Some p" using assms(1) by (simp add: executes_iff)
  have w: "whole_ms (ae_OccurredAt e)" using e(2) assms(5) by (simp add: swap_ok_def)
  note W = swapped_whole [OF assms(3) p assms(4) w, of now, folded e(3)]
  have t: "ValidateAuditTrail (sv_digests s) (rq_ExecutionAudit r) (rq_ExecutionAuditCount r) (rq_ExecutionAuditTail r) (dp_Digest (pr_Plan p)) (dp_CapabilityDigest (pr_Plan p)) = None"
    using assms(1) by (simp add: executes_iff)
  have ev: "e = audit_event (sv_digests s) (transition_event r ?p stage kind (rq_Revision r) token now)" using NewAuditEvent_Inr [OF e(1)] by simp
  have "ValidateAuditTrail (sv_digests s) (rq_ExecutionAudit r @ [e]) (rq_ExecutionAuditCount r + 1) (ae_EventDigest e) (dp_Digest (pr_Plan p)) (dp_CapabilityDigest (pr_Plan p)) = None
       \<longleftrightarrow> event_follows (rq_ExecutionAudit r) e"
    by (rule trail_snoc [OF t]) (use e(2) in \<open>auto simp: swap_ok_def\<close>)
  then have tr: "ValidateAuditTrail (sv_digests s) (rq_ExecutionAudit r') (rq_ExecutionAuditCount r') (rq_ExecutionAuditTail r') (dp_Digest (pr_Plan p)) (dp_CapabilityDigest (pr_Plan p)) = None
       \<longleftrightarrow> event_follows (rq_ExecutionAudit r) e" by (simp add: W)
  show ?thesis by (rule that [OF W(1) ev e(2,3) W(4) tr])
qed

section \<open>Stages by their names\<close>

lemma check_stages_ids: "check_stages i ss ws = None \<Longrightarrow> length ss = length ws \<Longrightarrow> map sg_ID ss = map sg_ID ws"
  by (induction i ss ws rule: check_stages.induct) (auto split: if_splits)

lemma protocol_stages:
  assumes "ValidateProtocol dg p = None"
  shows "map sc_StageID (ck_Stages (pr_Checkpoint p)) = map sg_ID defaultStages" "map sg_ID (dp_Stages (pr_Plan p)) = map sg_ID defaultStages"
    "\<exists>k. valid_checkpoint (pr_Checkpoint p) (pr_Plan p) k"
proof -
  have v: "ValidatePlan dg (pr_Plan p) = None" "validateCheckpoint (pr_Checkpoint p) (pr_Plan p) = None" using assms by (auto simp: ValidateProtocol_def split: option.splits)
  show ids: "map sg_ID (dp_Stages (pr_Plan p)) = map sg_ID defaultStages"
    using v(1) check_stages_ids [of 0 "dp_Stages (pr_Plan p)" defaultStages] unfolding ValidatePlan_def by (auto split: if_splits option.splits)
  show k: "\<exists>k. valid_checkpoint (pr_Checkpoint p) (pr_Plan p) k" using v(2) by (simp add: validateCheckpoint_iff)
  then have "map sc_StageID (ck_Stages (pr_Checkpoint p)) = map sg_ID (dp_Stages (pr_Plan p))"
    by (auto simp: valid_checkpoint_def ids_ok_def list_all2_conv_all_nth intro: nth_equalityI)
  then show "map sc_StageID (ck_Stages (pr_Checkpoint p)) = map sg_ID defaultStages" using ids by simp
qed

lemma default_ids: "distinct (map sg_ID defaultStages)" "[] \<notin> set (map sg_ID defaultStages)"
  by code_simp+

lemma find_by_key: "distinct (map f xs) \<Longrightarrow> k < length xs \<Longrightarrow> List.find (\<lambda>x. f x = f (xs ! k)) xs = Some (xs ! k)"
  unfolding find_Some_iff by (rule exI [of _ k]) (auto simp: distinct_conv_nth)

lemma find_stage:
  assumes "ValidateProtocol dg p = None" "stage \<in> set (ck_Stages (pr_Checkpoint p))"
  shows "auditCheckpointStage (pr_Checkpoint p) (sc_StageID stage) = Some stage" "sc_StageID stage \<noteq> []"
proof -
  let ?ss = "ck_Stages (pr_Checkpoint p)"
  obtain k where k: "k < length ?ss" "?ss ! k = stage" using assms(2) by (auto simp: in_set_conv_nth)
  show "auditCheckpointStage (pr_Checkpoint p) (sc_StageID stage) = Some stage"
    using find_by_key [of sc_StageID ?ss k] protocol_stages(1) [OF assms(1)] default_ids(1) k by (simp add: auditCheckpointStage_def)
  have "sc_StageID stage \<in> set (map sc_StageID ?ss)" using assms(2) by simp
  then show "sc_StageID stage \<noteq> []" using protocol_stages(1) [OF assms(1)] default_ids(2) by metis
qed

lemma idle_tail:
  assumes "audited s r p" "ck_CurrentStageID (pr_Checkpoint p) = []" "rq_ExecutionAudit r \<noteq> []"
  shows "ae_Type (last (rq_ExecutionAudit r)) \<noteq> AuditStageClaimed"
proof
  let ?e = "last (rq_ExecutionAudit r)"
  assume t: "ae_Type ?e = AuditStageClaimed"
  have v: "ValidateProtocol (sv_digests s) p = None" using assms(1) by (simp add: audited_def executes_iff)
  have "ValidateAuditProtocolBinding (sv_digests s) (rq_ExecutionAudit r) (rq_Revision r) p = None" using assms(1) by (simp add: audited_def executes_iff)
  then obtain stage where st: "auditCheckpointStage (pr_Checkpoint p) (ae_StageID ?e) = Some stage" "tail_binding (sv_digests s) ?e stage (pr_Checkpoint p) = None"
    unfolding binding_iff [OF assms(3)] by blast
  have "stage \<in> set (ck_Stages (pr_Checkpoint p))" using st(1) by (auto simp: auditCheckpointStage_def find_Some_iff)
  from find_stage(2) [OF v this] show False using st(2) t assms(2) by (simp add: tail_binding_def split: if_splits)
qed

section \<open>Orderly transitions keep the request executable\<close>

lemma moves_audited:
  assumes a: "audited s r p" and m: "moves s r p c stage kind token now r'" and t: "last_event_at r \<le> now" and w: "whole_ms now" "stored_checkpoint c = c"
    and c: "stage \<in> set (ck_Stages c)" "\<not> dataDeletionProtocolCompleted (p\<lparr>pr_Checkpoint := c\<rparr>)"
    and kind: "(ck_CurrentStageID (pr_Checkpoint p) = []) = (kind = AuditStageClaimed)"
    and follow: "kind \<noteq> AuditStageClaimed \<Longrightarrow> ae_StageID (last (rq_ExecutionAudit r)) = sc_StageID stage \<and> ae_Attempt (last (rq_ExecutionAudit r)) = sc_Attempts stage
      \<and> ae_LeaseDigest (last (rq_ExecutionAudit r)) = LeaseTokenDigest (sv_digests s) token"
    and bind: "tail_binding (sv_digests s) (audit_event (sv_digests s) (transition_event r (p\<lparr>pr_Checkpoint := c\<rparr>) stage kind (rq_Revision r) token now)) stage c = None"
  shows "audited s r' (p\<lparr>pr_Checkpoint := c\<rparr>)"
proof -
  let ?p = "p\<lparr>pr_Checkpoint := c\<rparr>" and ?es = "rq_ExecutionAudit r"
  have x: "executes s r p" "\<forall>e\<in>set ?es. ae_RequestID e = rq_ID r" "stored_request r = r" using a by (auto simp: audited_def)
  obtain e where e: "rq_ExecutionAudit r' = ?es @ [e]" "e = audit_event (sv_digests s) (transition_event r ?p stage kind (rq_Revision r) token now)"
    "swap_ok (sv_digests s) (rq_ID r) (rq_Revision r) (ck_Revision (pr_Checkpoint p)) (rq_ExecutionAuditCount r) (rq_ExecutionAuditTail r) ?p e now" "r' = swapped ?p e now r"
    "rq_ExecutionProtocol r' = Some ?p"
    "ValidateAuditTrail (sv_digests s) (rq_ExecutionAudit r') (rq_ExecutionAuditCount r') (rq_ExecutionAuditTail r') (dp_Digest (pr_Plan p)) (dp_CapabilityDigest (pr_Plan p)) = None
       \<longleftrightarrow> event_follows ?es e" using moves_trail [OF x(1) m x(3) w(2,1)] .
  note X = x(1) [unfolded executes_iff]
  have ty: "ae_Type e = kind" "ae_StageID e = sc_StageID stage" "ae_Attempt e = sc_Attempts stage" "ae_LeaseDigest e = LeaseTokenDigest (sv_digests s) token"
    unfolding e(2) by (simp_all add: transition_event_def)
  have v: "ValidateProtocol (sv_digests s) ?p = None" using e(3) by (simp add: swap_ok_def)
  have "event_follows ?es e"
  proof (cases "?es = []")
    case True
    then have "ck_CurrentStageID (pr_Checkpoint p) = []" "rq_ExecutionAuditTail r = []" using a X by (auto simp: audited_def ValidateAuditTrail_def split: if_splits)
    then show ?thesis using True kind ty e(3) by (simp add: event_follows_def swap_ok_def)
  next
    case False
    have tr: "ae_EventDigest (last ?es) = rq_ExecutionAuditTail r" using trail_chain(2) X False by blast
    have b: "ae_RequestRevision (last ?es) = rq_Revision r" "ae_CheckpointRevision (last ?es) = ck_Revision (pr_Checkpoint p)"
      using X binding_iff [OF False] by auto
    have i: "ae_RequestID (last ?es) = rq_ID r" using x(2) False by simp
    have link: "chain_link (Some (last ?es)) e = None"
      using e(3) tr b i t False by (simp add: chain_link_def swap_ok_def last_event_at_def)
    have alt: "(ae_Type (last ?es) = AuditStageClaimed) = (kind \<noteq> AuditStageClaimed)"
      using tail_claim(1) [OF x(1) _ False] idle_tail [OF a _ False] kind by blast
    show ?thesis unfolding event_follows_def using False link alt follow ty by simp
  qed
  then have trail: "ValidateAuditTrail (sv_digests s) (rq_ExecutionAudit r') (rq_ExecutionAuditCount r') (rq_ExecutionAuditTail r') (dp_Digest (pr_Plan p)) (dp_CapabilityDigest (pr_Plan p)) = None"
    using e(6) by simp
  have "1 \<le> rq_Revision r" using X by (auto simp: ValidateAuditProtocolBinding_def split: if_splits)
  moreover have "auditCheckpointStage c (sc_StageID stage) = Some stage" using find_stage(1) [OF v] c(1) by simp
  ultimately have binding: "ValidateAuditProtocolBinding (sv_digests s) (rq_ExecutionAudit r') (rq_Revision r') ?p = None"
    unfolding e(1) using binding_iff [of "?es @ [e]"] v e(3) ty bind [folded e(2)] by (simp add: e(4) swap_ok_def)
  have keep: "rq_Active r'" "rq_Status r' = DataDeletionPreviewReady" "rq_ExecutionSupported r'"
    using X c(2) by (simp_all add: e(4) swapped_def) (simp_all add: swap_checkpoint_def)
  have "executes s r' ?p" unfolding executes_iff using e(5) keep X v trail binding by simp
  then show ?thesis using x(2) e(1,3,4) c(2) by (auto simp: audited_def swap_ok_def)
qed

lemma audited_stored: "audited s r p \<Longrightarrow> stored_checkpoint (pr_Checkpoint p) = pr_Checkpoint p"
proof -
  assume "audited s r p"
  then have "stored_protocol p = p" using stored_request_parts(2) [of r] by (auto simp: audited_def executes_iff)
  then have "pr_Checkpoint (stored_protocol p) = pr_Checkpoint p" by simp
  then show ?thesis by (simp add: stored_protocol_def)
qed

lemma stored_checkpoint_update:
  assumes "stored_checkpoint c = c" "stored_stage x = x" "whole_ms now"
  shows "stored_checkpoint (c\<lparr>ck_Stages := (ck_Stages c)[i := x], ck_CurrentStageID := current, ck_Revision := n, ck_UpdatedAt := now\<rparr>)
    = c\<lparr>ck_Stages := (ck_Stages c)[i := x], ck_CurrentStageID := current, ck_Revision := n, ck_UpdatedAt := now\<rparr>"
  using assms set_update_subset_insert [of "ck_Stages c" i x] unfolding stored_checkpoint_iff by auto

lemma claim_audited:
  assumes a: "audited s r p" and idle: "ck_CurrentStageID (pr_Checkpoint p) = []" and t: "last_event_at r \<le> now" "whole_ms now" "whole_ms lease"
    and cl: "ClaimNextStage (sv_digests s) (Some (pr_Checkpoint p)) (pr_Plan p) (ck_Revision (pr_Checkpoint p)) token now lease = Inr (stage, c)"
    and m: "moves s r p c stage AuditStageClaimed token now r'"
  shows "audited s r' (p\<lparr>pr_Checkpoint := c\<rparr>)"
proof -
  have "ValidateProtocol (sv_digests s) p = None" using a by (simp add: audited_def executes_iff)
  then obtain k where k: "valid_checkpoint (pr_Checkpoint p) (pr_Plan p) k" using protocol_stages(3) by blast
  note C = claim_Inr [OF k cl]
  have stage: "sc_Status stage = StageRunning" "sc_ReceiptDigest stage = []" "sc_FailureCode stage = []" "sc_LeaseToken stage = trim_space token"
    using C(8) by (simp_all add: claimed_stage_def)
  have c: "stage \<in> set (ck_Stages c)" "ck_CurrentStageID c = sc_StageID stage" using C(1,9) by (simp_all add: set_update_memI)
  have "\<not> dataDeletionProtocolCompleted (p\<lparr>pr_Checkpoint := c\<rparr>)"
    using c(1) stage(1) by (auto simp: dataDeletionProtocolCompleted_def Let_def list_all2_conv_all_nth in_set_conv_nth stage_statuses)
  moreover have "stored_stage stage = stage" using t(2,3) C(8) by (intro stored_whole(2)) (simp_all add: claimed_stage_def whole_ms_iff)
  then have "stored_checkpoint c = c" unfolding C(9) by (intro stored_checkpoint_update audited_stored [OF a] t(2))
  ultimately show ?thesis
    by (intro moves_audited [OF a m t(1,2) _ c(1)])
      (use idle stage c(2) in \<open>simp_all add: tail_binding_def transition_event_def LeaseTokenDigest_def\<close>)
qed

lemma complete_audited:
  assumes a: "audited s r p" and t: "last_event_at r \<le> now" "whole_ms now"
    and g: "dataDeletionRunningStage (pr_Checkpoint p) token = Some running"
    and cl: "CompleteStage (sv_digests s) (Some (pr_Checkpoint p)) (pr_Plan p) (ck_Revision (pr_Checkpoint p)) token status receipt code now = Inr c"
    and st: "dataDeletionStageCheckpoint c (sc_StageID running) = Some stage"
    and m: "moves s r p c stage (if status = StageFailed then AuditStageFailed else AuditStageSucceeded) token now r'"
  shows "audited s r' (p\<lparr>pr_Checkpoint := c\<rparr>) \<or> dataDeletionProtocolCompleted (p\<lparr>pr_Checkpoint := c\<rparr>)"
proof -
  let ?kind = "if status = StageFailed then AuditStageFailed else AuditStageSucceeded" and ?ss = "ck_Stages (pr_Checkpoint p)"
  have v: "ValidateProtocol (sv_digests s) p = None" and x: "executes s r p" using a by (simp_all add: audited_def executes_iff)
  obtain k where k: "valid_checkpoint (pr_Checkpoint p) (pr_Plan p) k" using protocol_stages(3) [OF v] by blast
  have sh: "shape k ?ss" using k by (simp add: valid_checkpoint_def)
  note C = complete_Inr [OF k cl]
  have only: "x = ?ss ! k" if "x \<in> set ?ss" "sc_Status x = StageRunning" for x
    using that shape_running [OF sh] by (auto simp: in_set_conv_nth)
  have running: "running = ?ss ! k" "sc_StageID running = ck_CurrentStageID (pr_Checkpoint p)" "running \<in> set ?ss" "sc_LeaseToken running = token"
    using g only by (auto simp: dataDeletionRunningStage_def find_Some_iff)
  let ?done = "completed_stage (?ss ! k) status receipt code now"
  have v': "ValidateProtocol (sv_digests s) (p\<lparr>pr_Checkpoint := c\<rparr>) = None" using m by (auto simp: moves_def Let_def swap_ok_def)
  have c: "?done \<in> set (ck_Stages c)" "ck_CurrentStageID c = []" using C(1,8) by (simp_all add: set_update_memI)
  have st0: "stored_stage (?ss ! k) = ?ss ! k" using audited_stored [OF a] C(1) unfolding stored_checkpoint_iff by simp
  have "stored_stage ?done = ?done"
    using stored_whole(3) [OF st0] t(2) by (intro stored_whole(2)) (simp_all add: completed_stage_def whole_ms_iff)
  then have sc: "stored_checkpoint c = c" unfolding C(8) by (intro stored_checkpoint_update audited_stored [OF a] t(2))
  have "sc_StageID ?done = sc_StageID running" using running(1) by (simp add: completed_stage_def)
  then have stage: "stage = ?done"
    using find_stage(1) [OF v', of ?done] c(1) st by (simp add: auditCheckpointStage_def dataDeletionStageCheckpoint_def)
  have busy: "ck_CurrentStageID (pr_Checkpoint p) \<noteq> []" using find_stage(2) [OF v running(3)] running(2) by simp
  let ?e = "last (rq_ExecutionAudit r)"
  obtain x0 where x0: "auditCheckpointStage (pr_Checkpoint p) (ae_StageID ?e) = Some x0" "sc_Attempts x0 = ae_Attempt ?e" "sc_Status x0 = StageRunning"
    "LeaseTokenDigest (sv_digests s) (sc_LeaseToken x0) = ae_LeaseDigest ?e" using tail_claim(2) [OF x busy] a busy by (auto simp: audited_def)
  have x1: "sc_StageID x0 = ae_StageID ?e" "x0 \<in> set ?ss" using x0(1) by (auto simp: auditCheckpointStage_def find_Some_iff)
  have "x0 = running" using only [OF x1(2) x0(3)] running(1) by simp
  then have follow: "ae_StageID ?e = sc_StageID stage \<and> ae_Attempt ?e = sc_Attempts stage \<and> ae_LeaseDigest ?e = LeaseTokenDigest (sv_digests s) token"
    using x0 x1 running stage by (simp add: completed_stage_def)
  have bind: "tail_binding (sv_digests s) (audit_event (sv_digests s) (transition_event r (p\<lparr>pr_Checkpoint := c\<rparr>) stage ?kind (rq_Revision r) token now)) stage c = None"
    using C(7) c(2) stage by (auto simp: tail_binding_def transition_event_def completed_stage_def audit_types stage_statuses)
  show ?thesis
  proof (cases "dataDeletionProtocolCompleted (p\<lparr>pr_Checkpoint := c\<rparr>)")
    case False
    have "audited s r' (p\<lparr>pr_Checkpoint := c\<rparr>)"
      by (rule moves_audited [OF a m t sc _ False _ follow bind]) (use c(1) stage busy in \<open>simp_all add: audit_types\<close>)
    then show ?thesis ..
  qed simp
qed

section \<open>Runs of many workers\<close>

datatype exec_op =
    XClaim calls "string option" string int int int
  | XComplete calls string int int string string string string int

fun exec_run :: "deletion_service \<Rightarrow> exec_op \<Rightarrow> deletion_store \<Rightarrow> exec_error option \<times> deletion_store" where
  "exec_run s (XClaim cs random oid er ec now) st = (case ClaimExecutionStage cs s random oid er ec now st of (Inl err, st') \<Rightarrow> (Some err, st') | (Inr _, st') \<Rightarrow> (None, st'))"
| "exec_run s (XComplete cs oid er ec token status receipt code now) st =
     (case CompleteExecutionStage cs s oid er ec token status receipt code now st of ((_, err), st') \<Rightarrow> (err, st'))"

fun op_oid :: "exec_op \<Rightarrow> string" where
  "op_oid (XClaim cs random oid er ec now) = oid"
| "op_oid (XComplete cs oid er ec token status receipt code now) = oid"

fun op_now :: "exec_op \<Rightarrow> int" where
  "op_now (XClaim cs random oid er ec now) = now"
| "op_now (XComplete cs oid er ec token status receipt code now) = now"

fun is_claim :: "exec_op \<Rightarrow> bool" where
  "is_claim (XClaim cs random oid er ec now) = True"
| "is_claim (XComplete cs oid er ec token status receipt code now) = False"

text \<open>
  An operation is orderly for a request: its clock reads a whole number of milliseconds, it is not before the last
  event, and it claims only when no stage is open.
\<close>

definition op_orderly :: "string \<Rightarrow> exec_op \<Rightarrow> deletion_store \<Rightarrow> bool" where
  "op_orderly oid x st = (case ds_requests st oid of None \<Rightarrow> True | Some r \<Rightarrow>
     op_oid x = oid \<longrightarrow> whole_ms (op_now x) \<and> last_event_at r \<le> op_now x
       \<and> (is_claim x \<longrightarrow> (case rq_ExecutionProtocol r of None \<Rightarrow> True | Some p \<Rightarrow> ck_CurrentStageID (pr_Checkpoint p) = [])))"

fun orderly :: "deletion_service \<Rightarrow> string \<Rightarrow> exec_op list \<Rightarrow> deletion_store \<Rightarrow> bool" where
  "orderly s oid [] st = True"
| "orderly s oid (x # xs) st = (op_orderly oid x st \<and> orderly s oid xs (snd (exec_run s x st)))"

definition exec_all :: "deletion_service \<Rightarrow> exec_op list \<Rightarrow> deletion_store \<Rightarrow> deletion_store" where
  "exec_all s xs st = fold (\<lambda>x st. snd (exec_run s x st)) xs st"

definition completed_request :: "DataDeletionRequest \<Rightarrow> bool" where
  "completed_request r \<longleftrightarrow> rq_Status r = DataDeletionCompleted \<and> \<not> rq_Active r
     \<and> (case rq_ExecutionProtocol r of None \<Rightarrow> False | Some p \<Rightarrow> map sc_StageID (ck_Stages (pr_Checkpoint p)) = map sg_ID defaultStages
          \<and> list_all (\<lambda>x. sc_Status x = StageSucceeded) (ck_Stages (pr_Checkpoint p)))"

definition settled :: "deletion_service \<Rightarrow> DataDeletionRequest \<Rightarrow> bool" where
  "settled s r \<longleftrightarrow> (\<exists>p. audited s r p) \<or> completed_request r"

lemma completed_stored [simp]: "completed_request (stored_request r) = completed_request r"
  by (cases "rq_ExecutionProtocol r")
    (simp_all add: completed_request_def stored_protocol_def stored_checkpoint_def list.pred_map comp_def)

lemma moves_completed:
  assumes "executes s r p" "moves s r p c stage kind token now r'" "dataDeletionProtocolCompleted (p\<lparr>pr_Checkpoint := c\<rparr>)"
  shows "completed_request r'"
proof -
  let ?p = "p\<lparr>pr_Checkpoint := c\<rparr>"
  obtain e where e: "swap_ok (sv_digests s) (rq_ID r) (rq_Revision r) (ck_Revision (pr_Checkpoint p)) (rq_ExecutionAuditCount r) (rq_ExecutionAuditTail r) ?p e now"
    "r' = swapped ?p e now r" using assms(2) unfolding moves_def Let_def by blast
  let ?r = "swap_checkpoint ?p e now r"
  have "rq_ExecutionProtocol ?r = Some ?p" using assms(1) by (simp add: executes_iff)
  moreover have "map sc_StageID (ck_Stages c) = map sg_ID defaultStages" using protocol_stages(1) [of "sv_digests s" ?p] e(1) by (simp add: swap_ok_def)
  moreover have "list_all (\<lambda>x. sc_Status x = StageSucceeded) (ck_Stages c)"
    using assms(3) by (auto simp: dataDeletionProtocolCompleted_def Let_def list_all2_conv_all_nth list_all_length)
  moreover have "rq_Status ?r = DataDeletionCompleted" "\<not> rq_Active ?r" using assms(3) by (simp_all add: swap_checkpoint_def)
  ultimately have "completed_request ?r" unfolding completed_request_def by (simp del: swap_checkpoint_fields)
  then show ?thesis by (simp add: e(2) swapped_def)
qed

lemma moves_id: "moves s r p c stage kind token now r' \<Longrightarrow> rq_ID r' = rq_ID r"
  by (auto simp: moves_def Let_def)

lemma completed_not_executes: "completed_request r \<Longrightarrow> \<not> executes s r p"
  by (auto simp: completed_request_def executes_iff)

lemma exec_run_other:
  assumes "ds_requests (snd (exec_run s x st)) = ds_requests st \<or> op_oid x \<noteq> oid"
  shows "ds_requests (snd (exec_run s x st)) oid = ds_requests st oid"
proof (cases x)
  case (XClaim cs random oid' er ec now)
  obtain a st' where c: "ClaimExecutionStage cs s random oid' er ec now st = (a, st')" by (cases "ClaimExecutionStage cs s random oid' er ec now st")
  have st': "snd (exec_run s x st) = st'" using c by (simp add: XClaim split: sum.splits)
  show ?thesis
  proof (cases "ds_requests st' = ds_requests st")
    case False
    then obtain r' where "ds_requests st' = (ds_requests st)(oid' \<mapsto> r')" using claim_effect [OF c] by blast
    then show ?thesis using assms False st' by (simp add: XClaim)
  qed (use st' in simp)
next
  case (XComplete cs oid' er ec token status receipt code now)
  obtain u err st' where c: "CompleteExecutionStage cs s oid' er ec token status receipt code now st = ((u, err), st')"
    by (cases "CompleteExecutionStage cs s oid' er ec token status receipt code now st") auto
  have st': "snd (exec_run s x st) = st'" using c by (simp add: XComplete)
  show ?thesis
  proof (cases "ds_requests st' = ds_requests st")
    case False
    then obtain r' where "ds_requests st' = (ds_requests st)(oid' \<mapsto> r')" using complete_effect [OF c] by blast
    then show ?thesis using assms False st' by (simp add: XComplete)
  qed (use st' in simp)
qed

lemma exec_run_settled:
  assumes r: "ds_requests st oid = Some r" "rq_ID r = oid" "settled s r" and x: "op_orderly oid x st" and l: "whole_ms (sv_leaseDuration s)"
  shows "\<exists>r'. ds_requests (snd (exec_run s x st)) oid = Some r' \<and> rq_ID r' = oid \<and> settled s r'"
proof (cases "ds_requests (snd (exec_run s x st)) = ds_requests st \<or> op_oid x \<noteq> oid")
  case True
  then show ?thesis using exec_run_other [OF True] r by auto
next
  case False
  show ?thesis
  proof (cases x)
    case (XClaim cs random oid' er ec now)
    have o: "oid' = oid" using False by (simp add: XClaim)
    obtain a st' where c: "ClaimExecutionStage cs s random oid er ec now st = (a, st')" by (cases "ClaimExecutionStage cs s random oid er ec now st")
    have st': "snd (exec_run s x st) = st'" using c o by (simp add: XClaim split: sum.splits)
    then have "ds_requests st' \<noteq> ds_requests st \<or> (\<exists>claim. a = Inr claim)" using False by simp
    from claim_effect [OF c this] r(1) obtain p stage c' token r' where E: "executes s r p"
      "ClaimNextStage (sv_digests s) (Some (pr_Checkpoint p)) (pr_Plan p) (ck_Revision (pr_Checkpoint p)) token now (now + sv_leaseDuration s) = Inr (stage, c')"
      "moves s r p c' stage AuditStageClaimed token now r'" "ds_requests st' = (ds_requests st)(oid \<mapsto> r')" by auto
    have a: "audited s r p" using r(3) E(1) completed_not_executes [of r s p] by (auto simp: settled_def audited_def executes_iff)
    have ord: "last_event_at r \<le> now" "whole_ms now" "ck_CurrentStageID (pr_Checkpoint p) = []" using x r E(1) o by (auto simp: op_orderly_def XClaim executes_iff)
    show ?thesis using claim_audited [OF a ord(3,1,2) whole_ms_add [OF ord(2) l] E(2,3)] E(4) st' moves_id [OF E(3)] r(2) by (auto simp: settled_def)
  next
    case (XComplete cs oid' er ec token status receipt code now)
    have o: "oid' = oid" using False by (simp add: XComplete)
    obtain u err st' where c: "CompleteExecutionStage cs s oid er ec token status receipt code now st = ((u, err), st')"
      by (cases "CompleteExecutionStage cs s oid er ec token status receipt code now st") auto
    have st': "snd (exec_run s x st) = st'" using c o by (simp add: XComplete)
    then have "ds_requests st' \<noteq> ds_requests st \<or> u \<noteq> None \<or> err = None" using False by simp
    from complete_effect [OF c this] r(1) obtain p running c' stage r' where E: "executes s r p"
      "dataDeletionRunningStage (pr_Checkpoint p) token = Some running"
      "CompleteStage (sv_digests s) (Some (pr_Checkpoint p)) (pr_Plan p) (ck_Revision (pr_Checkpoint p)) token status receipt code now = Inr c'"
      "dataDeletionStageCheckpoint c' (sc_StageID running) = Some stage"
      "moves s r p c' stage (if status = StageFailed then AuditStageFailed else AuditStageSucceeded) token now r'" "ds_requests st' = (ds_requests st)(oid \<mapsto> r')" by auto
    have a: "audited s r p" using r(3) E(1) completed_not_executes [of r s p] by (auto simp: settled_def audited_def executes_iff)
    have ord: "last_event_at r \<le> now" "whole_ms now" using x r o by (auto simp: op_orderly_def XComplete)
    have "settled s r'" using complete_audited [OF a ord E(2-5)] moves_completed [OF E(1,5)] by (auto simp: settled_def)
    then show ?thesis using E(6) st' moves_id [OF E(5)] r(2) by auto
  qed
qed

lemma exec_all_settled:
  assumes "ds_requests st oid = Some r" "rq_ID r = oid" "settled s r" "orderly s oid xs st" "whole_ms (sv_leaseDuration s)"
  shows "\<exists>r'. ds_requests (exec_all s xs st) oid = Some r' \<and> rq_ID r' = oid \<and> settled s r'"
  using assms
proof (induction xs arbitrary: st r)
  case Nil
  then show ?case by (simp add: exec_all_def)
next
  case (Cons x xs)
  then obtain r1 where "ds_requests (snd (exec_run s x st)) oid = Some r1" "rq_ID r1 = oid" "settled s r1"
    using exec_run_settled [of st oid r s x] by auto
  from Cons.IH [OF this] Cons.prems(4,5) show ?case by (simp add: exec_all_def)
qed

section \<open>Orderly runs and takeovers\<close>

text \<open>
  A request as the database has it after a preflight at a time, enabled for execution. (The repository's own updates only
  ever clear \<^verbatim>\<open>execution_supported\<close>; the flag is set from outside.)
\<close>

definition fresh_request :: "deletion_service \<Rightarrow> Inventory \<Rightarrow> int \<Rightarrow> DataDeletionRequest \<Rightarrow> bool" where
  "fresh_request s inventory t r \<longleftrightarrow> (case BuildProtocol (sv_digests s) inventory (sv_capabilities s) t of Inl _ \<Rightarrow> False | Inr p \<Rightarrow>
     dp_Ready (pr_Plan p) \<and> rq_ExecutionProtocol r = Some (stored_protocol p) \<and> stored_request r = r \<and> rq_Active r \<and> rq_Status r = DataDeletionPreviewReady
     \<and> rq_ExecutionSupported r \<and> rq_ExecutionAudit r = [] \<and> rq_ExecutionAuditCount r = 0 \<and> rq_ExecutionAuditTail r = [] \<and> 1 \<le> rq_Revision r)"

lemma built_protocol:
  assumes "BuildProtocol dg inventory capabilities t = Inr p"
  shows "dp_GeneratedAt (pr_Plan p) = t" "whole_ms t \<Longrightarrow> stored_protocol p = p" "\<not> dataDeletionProtocolCompleted p"
proof -
  obtain plan c where pc: "BuildPlan dg inventory capabilities t = Inr plan" "NewCheckpoint dg plan t = Inr c" "p = \<lparr>pr_Plan = plan, pr_Checkpoint = c\<rparr>"
    using assms by (auto simp: BuildProtocol_def split: sum.splits)
  show g: "dp_GeneratedAt (pr_Plan p) = t" using pc by (auto simp: BuildPlan_def Let_def split: if_splits option.splits)
  have c: "ck_Stages c = map (\<lambda>x. pending_stage (sg_ID x)) (dp_Stages plan)" "ck_UpdatedAt c = t" using pc(2) by (auto simp: NewCheckpoint_def split: if_splits option.splits)
  have "stored_stage (pending_stage i) = pending_stage i" for i by (rule stored_whole(2)) (simp_all add: pending_stage_def whole_ms_iff)
  then have "stored_checkpoint c = c" if "whole_ms t" using c that by (simp add: stored_checkpoint_iff)
  then show "stored_protocol p = p" if "whole_ms t" using that g by (simp add: pc(3) stored_protocol_def stored_plan_def whole_ms_def)
  show "\<not> dataDeletionProtocolCompleted p"
    using c(1) by (cases "dp_Stages plan") (simp_all add: dataDeletionProtocolCompleted_def pc(3) pending_stage_def stage_statuses)
qed

lemma fresh_audited:
  assumes "fresh_request s inventory t r" "\<And>x. isSHA256 (dg_sha256 (sv_digests s) x)" "whole_ms t"
  shows "settled s r"
proof -
  obtain p where p: "BuildProtocol (sv_digests s) inventory (sv_capabilities s) t = Inr p" and r: "dp_Ready (pr_Plan p)" "rq_ExecutionProtocol r = Some (stored_protocol p)" "rq_Active r"
    "stored_request r = r" "rq_Status r = DataDeletionPreviewReady" "rq_ExecutionSupported r" "rq_ExecutionAudit r = []" "rq_ExecutionAuditCount r = 0" "rq_ExecutionAuditTail r = []" "1 \<le> rq_Revision r"
    using assms(1) by (auto simp: fresh_request_def split: sum.splits)
  note B = built_protocol [OF p]
  obtain plan c where pc: "BuildPlan (sv_digests s) inventory (sv_capabilities s) t = Inr plan" "NewCheckpoint (sv_digests s) plan t = Inr c" "p = \<lparr>pr_Plan = plan, pr_Checkpoint = c\<rparr>"
    using p by (auto simp: BuildProtocol_def split: sum.splits)
  have v: "ValidatePlan (sv_digests s) plan = None" by (rule built_plan(1) [OF pc(1) assms(2)])
  have c0: "validateCheckpoint c plan = None" using new_checkpoint_valid [OF pc(2)] by (auto simp: validateCheckpoint_iff)
  have c1: "ck_Revision c = 1" "ck_CurrentStageID c = []" using pc(2) v by (auto simp: NewCheckpoint_def split: if_splits)
  have "ValidatePlanCapabilities (sv_digests s) plan (sv_capabilities s) = None" using ready_plan_capabilities [OF pc(1) assms(2)] r(1) pc(3) by simp
  then have "executes s r p" unfolding executes_iff using r v c0 c1 pc(3) B(2) [OF assms(3)]
    by (auto simp: ValidateProtocol_def ValidateAuditTrail_def ValidateAuditProtocolBinding_def MaxAuditEvents_def)
  then show ?thesis using r(4,7) c1(2) pc(3) B(3) by (auto simp: settled_def audited_def)
qed

section \<open>Operations that succeed\<close>

definition hex_digits :: string where "hex_digits = ''0123456789abcdef''"

definition object_id :: "string \<Rightarrow> bool" where
  "object_id oid \<longleftrightarrow> length oid = 24 \<and> oid \<noteq> zero_id \<and> list_all (\<lambda>c. c \<in> set hex_digits) oid"

lemma object_id_text:
  assumes "object_id oid"
  shows "trim_space oid = oid" "isBoundedIdentity oid 64"
proof -
  have solid: "\<forall>w\<in>set white_spaces. \<forall>c\<in>set hex_digits. c \<notin> set w" by code_simp
  have hex: "\<forall>c\<in>set hex_digits. ascii_lower c \<or> ascii_digit c" by code_simp
  have chars: "c \<in> set hex_digits" if "c \<in> set oid" for c using assms that by (auto simp: object_id_def list_all_iff)
  have no: "\<not> prefix w oid" "\<not> prefix (rev w) (rev oid)" if w: "w \<in> set white_spaces" for w
  proof -
    have ne: "w \<noteq> []" using w white_spaces_nonempty by metis
    then obtain c where c: "c \<in> set w" by (cases w) auto
    have "c \<notin> set oid" using solid w chars c by blast
    then show "\<not> prefix w oid" "\<not> prefix (rev w) (rev oid)"
      using c set_mono_prefix [of w oid] set_mono_prefix [of "rev w" "rev oid"] by auto
  qed
  have "trim_left oid = oid" unfolding trim_left_def by (rule strip_prefixes_id) (rule no(1))
  moreover have "strip_prefixes n rev_white_spaces (rev oid) = rev oid" for n
    by (rule strip_prefixes_id) (use no(2) in \<open>auto simp: rev_white_spaces_def\<close>)
  ultimately show "trim_space oid = oid" by (simp add: trim_space_def trim_right_def)
  show "isBoundedIdentity oid 64" using assms hex chars by (auto simp: isBoundedIdentity_def object_id_def list_all_iff)
qed

text \<open>A transition of an audited request with room for its event is recorded.\<close>

lemma transition_recorded:
  assumes a: "audited s r p" and st: "ds_requests st oid = Some r" "rq_ID r = oid" "object_id oid" and n: "rq_ExecutionAuditCount r < MaxAuditEvents"
    and sha: "\<And>x. isSHA256 (dg_sha256 (sv_digests s) x)"
    and c: "validateCheckpoint c (pr_Plan p) = None" "ck_Revision c = ck_Revision (pr_Checkpoint p) + 1" "stage \<in> set (ck_Stages c)" "1 \<le> sc_Attempts stage"
    and k: "kind = AuditStageClaimed \<and> sc_ReceiptDigest stage = [] \<and> sc_FailureCode stage = []
      \<or> kind = AuditStageSucceeded \<and> isSHA256 (sc_ReceiptDigest stage) \<and> sc_FailureCode stage = []
      \<or> kind = AuditStageFailed \<and> sc_ReceiptDigest stage = [] \<and> isFailureCode (sc_FailureCode stage)"
    and fin: "dataDeletionProtocolCompleted (p\<lparr>pr_Checkpoint := c\<rparr>) \<Longrightarrow> kind = AuditStageSucceeded \<and> sc_StageID stage = StageFinalize"
    and t: "trim_space token \<noteq> []" "now \<noteq> 0"
  shows "\<exists>e. NewAuditEvent (sv_digests s) (transition_event r (p\<lparr>pr_Checkpoint := c\<rparr>) stage kind (rq_Revision r) token now) = Inr e
    \<and> CompareAndSwapDataDeletionCheckpoint (sv_digests s) oid (rq_Revision r) (ck_Revision (pr_Checkpoint p)) (rq_ExecutionAuditCount r) (rq_ExecutionAuditTail r)
        (p\<lparr>pr_Checkpoint := c\<rparr>) e now st
      = (Inr (Some (swapped (p\<lparr>pr_Checkpoint := c\<rparr>) e now r)), st\<lparr>ds_requests := (ds_requests st)(oid \<mapsto> swapped (p\<lparr>pr_Checkpoint := c\<rparr>) e now r)\<rparr>)"
proof -
  let ?p = "p\<lparr>pr_Checkpoint := c\<rparr>" and ?dg = "sv_digests s"
  let ?i = "transition_event r ?p stage kind (rq_Revision r) token now"
  define e where "e = audit_event ?dg ?i"
  have x: "executes s r p" using a by (simp add: audited_def)
  note X = x [unfolded executes_iff]
  have v: "ValidatePlan ?dg (pr_Plan p) = None" "validateCheckpoint (pr_Checkpoint p) (pr_Plan p) = None" using X by (auto simp: ValidateProtocol_def split: option.splits)
  have vp: "ValidateProtocol ?dg ?p = None" using v c(1) by (simp add: ValidateProtocol_def)
  have rr: "1 \<le> rq_Revision r" using X by (auto simp: ValidateAuditProtocolBinding_def split: if_splits)
  have cr: "1 \<le> ck_Revision (pr_Checkpoint p)" using v(2) by (auto simp: validateCheckpoint_iff valid_checkpoint_def)
  have pd: "isSHA256 (dp_Digest (pr_Plan p))" "isSHA256 (dp_CapabilityDigest (pr_Plan p))" using v(1) by (auto simp: ValidatePlan_def split: if_splits)
  have id: "sc_StageID stage \<in> set knownStageIDs"
    using protocol_stages(1) [OF vp] c(3) unfolding knownStageIDs_def by (metis Protocol.simps(2) Protocol.surjective Protocol.update_convs(2) image_eqI set_map)
  have tl: "0 \<le> rq_ExecutionAuditCount r" "rq_ExecutionAuditCount r = 0 \<Longrightarrow> rq_ExecutionAuditTail r = []"
    "rq_ExecutionAuditCount r \<noteq> 0 \<Longrightarrow> isSHA256 (rq_ExecutionAuditTail r)"
    using X by (auto simp: ValidateAuditTrail_def split: if_splits)
  have ed: "isSHA256 (auditEventDigest ?dg x)" "isSHA256 (LeaseTokenDigest ?dg x')" for x x' using sha by (simp_all add: auditEventDigest_def LeaseTokenDigest_def)
  have ne: "d \<noteq> []" if "isSHA256 d" for d using that by (auto simp: isSHA256_def)
  have f: "ae_SchemaVersion e = AuditEventSchemaV1" "ae_RequestID e = oid" "ae_Sequence e = rq_ExecutionAuditCount r + 1" "ae_Type e = kind" "ae_StageID e = sc_StageID stage"
    "ae_Attempt e = sc_Attempts stage" "ae_RequestRevision e = rq_Revision r + 1" "ae_CheckpointRevision e = ck_Revision c" "ae_PlanDigest e = dp_Digest (pr_Plan p)"
    "ae_CapabilityDigest e = dp_CapabilityDigest (pr_Plan p)" "ae_LeaseDigest e = LeaseTokenDigest ?dg token" "ae_ReceiptDigest e = sc_ReceiptDigest stage"
    "ae_FailureCode e = sc_FailureCode stage" "ae_PreviousDigest e = rq_ExecutionAuditTail r" "ae_EventDigest e = auditEventDigest ?dg e" "ae_EventID e = ae_EventDigest e"
    "ae_OccurredAt e = now"
    using object_id_text(1) [OF st(3)] st(2) by (simp_all add: e_def audit_event_def Let_def transition_event_def auditEventDigest_def)
  have tl': "rq_ExecutionAuditCount r = 0 \<or> isSHA256 (rq_ExecutionAuditTail r)" using tl(3) by blast
  have ev: "audit_evidence e = None" using k by (auto simp: audit_evidence_def f audit_types)
  have ve: "ValidateAuditEvent ?dg e = None"
    using n tl(1,2) tl' rr cr c(2,4) pd id ed ne object_id_text(2) [OF st(3)] t(2) ev f(15,16) by (simp add: ValidateAuditEvent_def f(1-14,17))
  have "ai_LeaseToken ?i = token" by (simp add: transition_event_def)
  then have new: "NewAuditEvent ?dg ?i = Inr e" using ve t(1) by (simp add: NewAuditEvent_def Let_def e_def [symmetric])
  have q: "rq_ExecutionProtocol r = Some p" "ck_PlanDigest (pr_Checkpoint p) = dp_Digest (pr_Plan p)" using X v(2) by (auto simp: validateCheckpoint_iff valid_checkpoint_def)
  have m: "checkpoint_matches (rq_Revision r) (ck_Revision (pr_Checkpoint p)) (rq_ExecutionAuditCount r) (rq_ExecutionAuditTail r) ?p r"
    using X q by (simp add: checkpoint_matches_def)
  have "CompareAndSwapDataDeletionCheckpoint ?dg oid (rq_Revision r) (ck_Revision (pr_Checkpoint p)) (rq_ExecutionAuditCount r) (rq_ExecutionAuditTail r) ?p e now st
      = (Inr (Some (swapped ?p e now r)), st\<lparr>ds_requests := (ds_requests st)(oid \<mapsto> swapped ?p e now r)\<rparr>)"
    using n tl(1) rr cr c(2) t(2) vp ve m st(1,3) fin
    by (auto simp: CompareAndSwapDataDeletionCheckpoint_def update_request_def swapped_def object_id_def f(2-5,7-10,14,17))
  then show ?thesis using new by blast
qed

text \<open>A claim succeeds while no stage is open, and a completion by the worker that has the open stage.\<close>

definition all_delivered :: calls where
  "all_delivered = \<lparr>cl_get = Delivered, cl_lease = Delivered, cl_swap = Delivered, cl_release = Delivered\<rparr>"

lemma default_nonempty: "length defaultStages = 8"
  by code_simp

lemma default_finalize: "last (map sg_ID defaultStages) = StageFinalize"
  by code_simp

lemma stage_definition:
  assumes "ValidateProtocol dg p = None" "x \<in> set (ck_Stages (pr_Checkpoint p))"
  shows "\<exists>d. dataDeletionStageDefinition (pr_Plan p) (sc_StageID x) = Some d"
proof -
  have "sc_StageID x \<in> set (map sg_ID (dp_Stages (pr_Plan p)))" using protocol_stages(1,2) [OF assms(1)] assms(2) by (metis image_eqI set_map)
  then obtain d where "d \<in> set (dp_Stages (pr_Plan p))" "sg_ID d = sc_StageID x" by auto
  then show ?thesis unfolding dataDeletionStageDefinition_def by (cases "List.find (\<lambda>s. sg_ID s = sc_StageID x) (dp_Stages (pr_Plan p))") (auto simp: find_None_iff)
qed

lemma claim_succeeds:
  assumes a: "audited s r p" and st: "ds_requests st oid = Some r" "rq_ID r = oid" "object_id oid" and n: "rq_ExecutionAuditCount r < MaxAuditEvents"
    and sha: "\<And>x. isSHA256 (dg_sha256 (sv_digests s) x)" and idle: "ck_CurrentStageID (pr_Checkpoint p) = []"
    and t: "trim_space token \<noteq> []" "length (trim_space token) \<le> 128" "0 < now" "0 < sv_leaseDuration s" "sv_leaseDuration s \<le> maxStageLease"
    and free: "fst (AcquireDataRetentionSubjectLease (rq_UserID r) token now (now + sv_leaseDuration s) st) = Inr SubjectLeaseAcquired"
  shows "\<exists>claim st'. ClaimExecutionStage all_delivered s (Some token) oid (rq_Revision r) (ck_Revision (pr_Checkpoint p)) now st = (Inr claim, st')"
proof -
  let ?dg = "sv_digests s" and ?c = "pr_Checkpoint p" and ?u = "now + sv_leaseDuration s"
  have x: "executes s r p" using a by (simp add: audited_def)
  note X = x [unfolded executes_iff]
  have v: "ValidateProtocol ?dg p = None" "ValidatePlan ?dg (pr_Plan p) = None" "validateCheckpoint ?c (pr_Plan p) = None"
    using X by (auto simp: ValidateProtocol_def split: option.splits)
  obtain k where k: "valid_checkpoint ?c (pr_Plan p) k" using v(3) by (auto simp: validateCheckpoint_iff)
  then have sh: "shape k (ck_Stages ?c)" and ids: "ids_ok (ck_Stages ?c) (dp_Stages (pr_Plan p))" by (simp_all add: valid_checkpoint_def)
  have len: "length (ck_Stages ?c) = 8" using protocol_stages(1) [OF v(1)] default_nonempty by (metis length_map)
  have fin: "sc_StageID (last (ck_Stages ?c)) = StageFinalize"
    using protocol_stages(1) [OF v(1)] default_finalize len by (metis last_map length_0_conv zero_neq_numeral)
  have kl: "k < length (ck_Stages ?c)"
  proof (rule ccontr)
    assume "\<not> ?thesis"
    then have k8: "k = length (ck_Stages ?c)" using shape_length [OF sh] by simp
    then have "dataDeletionProtocolCompleted p"
      using shape_nth(1) [OF sh] ids idle len fin
      by (auto simp: dataDeletionProtocolCompleted_def Let_def list_all2_conv_all_nth ids_ok_def succ_ok_def)
    then show False using a by (simp add: audited_def)
  qed
  have nr: "sc_Status (ck_Stages ?c ! k) \<noteq> StageRunning"
    using k kl idle find_stage(2) [OF v(1), of "ck_Stages ?c ! k"] by (auto simp: valid_checkpoint_def running_of_def)
  define stage where "stage = claimed_stage (ck_Stages ?c ! k) token now ?u"
  define c where "c = ?c\<lparr>ck_Stages := (ck_Stages ?c)[k := stage], ck_CurrentStageID := sc_StageID stage, ck_Revision := ck_Revision ?c + 1, ck_UpdatedAt := now\<rparr>"
  have claim: "ClaimNextStage ?dg (Some ?c) (pr_Plan p) (ck_Revision ?c) token now ?u = Inr (stage, c)"
    using X v nr t kl next_index_shape [OF sh, of 0] by (simp add: ClaimNextStage_def nextStageIndex_def Let_def stage_def c_def claimed_stage_def)
  have vc: "validateCheckpoint c (pr_Plan p) = None" using claim_valid [OF k claim t(3)] by (auto simp: validateCheckpoint_iff)
  have mem: "stage \<in> set (ck_Stages c)" using kl by (simp add: c_def set_update_memI)
  have fields: "sc_ReceiptDigest stage = []" "sc_FailureCode stage = []" "1 \<le> sc_Attempts stage" "sc_Status stage = StageRunning"
    using ids kl by (auto simp: stage_def claimed_stage_def ids_ok_def list_all2_conv_all_nth)
  have open_stage: "\<not> dataDeletionProtocolCompleted (p\<lparr>pr_Checkpoint := c\<rparr>)"
    using mem fields(4) by (auto simp: dataDeletionProtocolCompleted_def Let_def list_all2_conv_all_nth in_set_conv_nth stage_statuses)
  obtain st1 where l: "AcquireDataRetentionSubjectLease (rq_UserID r) token now ?u st = (Inr SubjectLeaseAcquired, st1)"
    using free by (cases "AcquireDataRetentionSubjectLease (rq_UserID r) token now ?u st") simp
  have st1: "ds_requests st1 oid = Some r" using lease_requests [of "rq_UserID r" token now ?u st] l st(1) by simp
  obtain e where e: "NewAuditEvent ?dg (transition_event r (p\<lparr>pr_Checkpoint := c\<rparr>) stage AuditStageClaimed (rq_Revision r) token now) = Inr e"
    "CompareAndSwapDataDeletionCheckpoint ?dg oid (rq_Revision r) (ck_Revision ?c) (rq_ExecutionAuditCount r) (rq_ExecutionAuditTail r) (p\<lparr>pr_Checkpoint := c\<rparr>) e now st1
      = (Inr (Some (swapped (p\<lparr>pr_Checkpoint := c\<rparr>) e now r)), st1\<lparr>ds_requests := (ds_requests st1)(oid \<mapsto> swapped (p\<lparr>pr_Checkpoint := c\<rparr>) e now r)\<rparr>)"
    using transition_recorded [OF a st1 st(2,3) n sha vc _ mem fields(3), of AuditStageClaimed token now] fields(1,2) open_stage t by (auto simp: c_def)
  have vp: "ValidateProtocol ?dg (p\<lparr>pr_Checkpoint := c\<rparr>) = None" using v(2) vc by (simp add: ValidateProtocol_def)
  obtain d where d: "dataDeletionStageDefinition (pr_Plan p) (sc_StageID stage) = Some d" using stage_definition [OF vp] mem by auto
  have exe: "executableDataDeletionProtocol ?dg r oid (rq_Revision r) (ck_Revision ?c) (sv_capabilities s) = Inr p" using x st(2) by (simp add: executes_def)
  have pos: "1 \<le> rq_Revision r" "1 \<le> ck_Revision ?c" using X k by (auto simp: ValidateAuditProtocolBinding_def valid_checkpoint_def split: if_splits)
  have get: "get_request Delivered oid st = Inr r" using st by (simp add: get_request_def GetDataDeletionRequest_def object_id_def)
  have leased: "claim_leased all_delivered s r p (rq_Revision r) (ck_Revision ?c) token now st1
      = (Inr \<lparr>dc_Request = swapped (p\<lparr>pr_Checkpoint := c\<rparr>) e now r, dc_Definition = d, dc_Checkpoint = stage, dc_LeaseToken = token\<rparr>,
         st1\<lparr>ds_requests := (ds_requests st1)(oid \<mapsto> swapped (p\<lparr>pr_Checkpoint := c\<rparr>) e now r)\<rparr>)"
    using claim e d st(2) by (simp add: claim_leased_def all_delivered_def Let_def)
  show ?thesis using get exe l leased pos t(3) st(3) by (simp add: ClaimExecutionStage_def all_delivered_def object_id_def)
qed

lemma complete_accepted:
  assumes "ValidatePlan dg plan = None" "validateCheckpoint c plan = None" "trim_space token = token" "token \<noteq> []" "now \<noteq> 0"
    and idx: "running_index 0 (ck_CurrentStageID c) token (ck_Stages c) = Some k" and "now < sc_LeaseUntil (ck_Stages c ! k)"
    and ev: "status = StageSucceeded \<and> isSHA256 (to_lower (trim_space receipt)) \<or> status = StageFailed \<and> isFailureCode (trim_space code)"
  shows "CompleteStage dg (Some c) plan (ck_Revision c) token status receipt code now
    = Inr (c\<lparr>ck_Stages := (ck_Stages c)[k := completed_stage (ck_Stages c ! k) status receipt code now], ck_CurrentStageID := [], ck_Revision := ck_Revision c + 1, ck_UpdatedAt := now\<rparr>)"
  using ev
proof
  assume "status = StageSucceeded \<and> isSHA256 (to_lower (trim_space receipt))"
  then show ?thesis using assms by (simp add: CompleteStage_def Let_def completed_stage_def stage_statuses)
next
  assume "status = StageFailed \<and> isFailureCode (trim_space code)"
  then show ?thesis using assms by (simp add: CompleteStage_def Let_def completed_stage_def stage_statuses)
qed

lemma completion_succeeds:
  assumes a: "audited s r p" and st: "ds_requests st oid = Some r" "rq_ID r = oid" "object_id oid" and n: "rq_ExecutionAuditCount r < MaxAuditEvents"
    and sha: "\<And>x. isSHA256 (dg_sha256 (sv_digests s) x)" and g: "dataDeletionRunningStage (pr_Checkpoint p) token = Some running"
    and t: "trim_space token = token" "now \<noteq> 0" "now < sc_LeaseUntil running" "rq_UserID r \<noteq> 0"
    and ev: "status = StageSucceeded \<and> isSHA256 (to_lower (trim_space receipt)) \<and> trim_space code = []
      \<or> status = StageFailed \<and> trim_space receipt = [] \<and> isFailureCode (trim_space code)"
  shows "\<exists>r' st'. CompleteExecutionStage all_delivered s oid (rq_Revision r) (ck_Revision (pr_Checkpoint p)) token status receipt code now st = ((Some r', None), st')"
proof -
  let ?dg = "sv_digests s" and ?c = "pr_Checkpoint p" and ?kind = "if status = StageFailed then AuditStageFailed else AuditStageSucceeded"
  have x: "executes s r p" using a by (simp add: audited_def)
  note X = x [unfolded executes_iff]
  have v: "ValidateProtocol ?dg p = None" "ValidatePlan ?dg (pr_Plan p) = None" "validateCheckpoint ?c (pr_Plan p) = None"
    using X by (auto simp: ValidateProtocol_def split: option.splits)
  obtain k where k: "valid_checkpoint ?c (pr_Plan p) k" using v(3) by (auto simp: validateCheckpoint_iff)
  then have sh: "shape k (ck_Stages ?c)" and ids: "ids_ok (ck_Stages ?c) (dp_Stages (pr_Plan p))" by (simp_all add: valid_checkpoint_def)
  obtain j where j: "j < length (ck_Stages ?c)" "ck_Stages ?c ! j = running" "sc_Status running = StageRunning" "sc_StageID running = ck_CurrentStageID ?c"
    "sc_LeaseToken running = token" using g by (auto simp: dataDeletionRunningStage_def find_Some_iff)
  have jk: "j = k" using shape_running [OF sh j(1)] j(2,3) by simp
  have run: "run_ok running" using shape_nth(2) [OF sh] j jk by (auto simp: stage_oks stage_statuses)
  have tok: "trim_space token \<noteq> []" using run j(5) by (simp add: run_ok_def)
  define done_stage where "done_stage = completed_stage running status receipt code now"
  define c where "c = ?c\<lparr>ck_Stages := (ck_Stages ?c)[k := done_stage], ck_CurrentStageID := [], ck_Revision := ck_Revision ?c + 1, ck_UpdatedAt := now\<rparr>"
  have idx: "running_index 0 (ck_CurrentStageID ?c) token (ck_Stages ?c) = Some k"
    using running_index_frontier [OF sh, of "ck_CurrentStageID ?c" token 0] j jk by simp
  have comp: "CompleteStage ?dg (Some ?c) (pr_Plan p) (ck_Revision ?c) token status receipt code now = Inr c"
    using complete_accepted [OF v(2,3) t(1) _ t(2) idx] tok t(1,3) ev j(2) jk by (auto simp: c_def done_stage_def)
  have "validateCheckpoint c (pr_Plan p) = None" using complete_valid [OF k comp] ev by (auto simp: validateCheckpoint_iff stage_statuses)
  then have vc: "validateCheckpoint c (pr_Plan p) = None" and vp: "ValidateProtocol ?dg (p\<lparr>pr_Checkpoint := c\<rparr>) = None" using v(2) by (simp_all add: ValidateProtocol_def)
  have mem: "done_stage \<in> set (ck_Stages c)" using j(1) jk by (simp add: c_def set_update_memI)
  have busy: "ck_CurrentStageID ?c \<noteq> []" using find_stage(2) [OF v(1), of running] j(1,2,4) by auto
  have ne: "rq_ExecutionAudit r \<noteq> []" using a busy by (auto simp: audited_def)
  obtain x0 where x0: "auditCheckpointStage ?c (ae_StageID (last (rq_ExecutionAudit r))) = Some x0" "sc_Attempts x0 = ae_Attempt (last (rq_ExecutionAudit r))"
    "sc_Status x0 = StageRunning" using tail_claim(2) [OF x busy ne] by blast
  obtain i where i: "i < length (ck_Stages ?c)" "ck_Stages ?c ! i = x0" using x0(1) by (auto simp: auditCheckpointStage_def find_Some_iff)
  have "i = k" using shape_running [OF sh i(1)] i(2) x0(3) by simp
  then have "x0 = running" using i(2) j(2) jk by simp
  then have att: "1 \<le> sc_Attempts running" using x0(2) tail_valid [OF x ne] by (auto simp: ValidateAuditEvent_def split: if_splits)
  have fields: "sc_StageID done_stage = sc_StageID running" "1 \<le> sc_Attempts done_stage" "sc_ReceiptDigest done_stage = to_lower (trim_space receipt)"
    "sc_FailureCode done_stage = trim_space code" "sc_Status done_stage = status" using att by (simp_all add: done_stage_def completed_stage_def)
  have kind: "?kind = AuditStageClaimed \<and> sc_ReceiptDigest done_stage = [] \<and> sc_FailureCode done_stage = []
      \<or> ?kind = AuditStageSucceeded \<and> isSHA256 (sc_ReceiptDigest done_stage) \<and> sc_FailureCode done_stage = []
      \<or> ?kind = AuditStageFailed \<and> sc_ReceiptDigest done_stage = [] \<and> isFailureCode (sc_FailureCode done_stage)"
    using ev by (auto simp: fields stage_statuses)
  have fin: "?kind = AuditStageSucceeded \<and> sc_StageID done_stage = StageFinalize" if d: "dataDeletionProtocolCompleted (p\<lparr>pr_Checkpoint := c\<rparr>)"
  proof -
    have all: "sc_Status (ck_Stages c ! i) = StageSucceeded" if "i < length (ck_Stages ?c)" for i
      using d that by (auto simp: dataDeletionProtocolCompleted_def Let_def list_all2_conv_all_nth c_def)
    have "k = length (ck_Stages ?c) - 1"
    proof (rule ccontr)
      assume "\<not> ?thesis"
      then have l: "Suc k < length (ck_Stages ?c)" using j(1) jk by simp
      then show False using shape_pending [OF sh _ l] all [OF l] by (simp add: c_def pend_ok_def stage_statuses)
    qed
    then have "last (ck_Stages c) = done_stage" using j(1) jk by (cases "ck_Stages ?c = []") (simp_all add: c_def last_list_update)
    moreover have "status = StageSucceeded" using all [of k] j(1) jk fields(5) by (simp add: c_def)
    ultimately show ?thesis using d by (simp add: dataDeletionProtocolCompleted_def Let_def stage_statuses)
  qed
  obtain e where e: "NewAuditEvent ?dg (transition_event r (p\<lparr>pr_Checkpoint := c\<rparr>) done_stage ?kind (rq_Revision r) token now) = Inr e"
    "CompareAndSwapDataDeletionCheckpoint ?dg oid (rq_Revision r) (ck_Revision ?c) (rq_ExecutionAuditCount r) (rq_ExecutionAuditTail r) (p\<lparr>pr_Checkpoint := c\<rparr>) e now st
      = (Inr (Some (swapped (p\<lparr>pr_Checkpoint := c\<rparr>) e now r)), st\<lparr>ds_requests := (ds_requests st)(oid \<mapsto> swapped (p\<lparr>pr_Checkpoint := c\<rparr>) e now r)\<rparr>)"
    using transition_recorded [OF a st n sha vc _ mem fields(2) kind fin tok t(2)] by (auto simp: c_def)
  have found: "dataDeletionStageCheckpoint c (sc_StageID running) = Some done_stage"
    using find_stage(1) [OF vp, of done_stage] mem fields(1) by (simp add: dataDeletionStageCheckpoint_def auditCheckpointStage_def)
  have exe: "executableDataDeletionProtocol ?dg r oid (rq_Revision r) (ck_Revision ?c) (sv_capabilities s) = Inr p" using x st(2) by (simp add: executes_def)
  have pos: "1 \<le> rq_Revision r" "1 \<le> ck_Revision ?c" using X k by (auto simp: ValidateAuditProtocolBinding_def valid_checkpoint_def split: if_splits)
  have get: "get_request Delivered oid st = Inr r" using st by (simp add: get_request_def GetDataDeletionRequest_def object_id_def)
  have rel: "\<exists>st''. release_lease Delivered (rq_UserID r) token st' = (Inr (), st'')" for st'
    using t(1,4) tok by (auto simp: release_lease_def ReleaseDataRetentionSubjectLease_def split: option.splits)
  let ?st = "st\<lparr>ds_requests := (ds_requests st)(oid \<mapsto> swapped (p\<lparr>pr_Checkpoint := c\<rparr>) e now r)\<rparr>"
  obtain st'' where st'': "release_lease Delivered (rq_UserID r) token ?st = (Inr (), st'')" using rel by blast
  have finished: "complete_stage all_delivered s r p running (rq_Revision r) (ck_Revision ?c) token status receipt code now st
      = ((Some (swapped (p\<lparr>pr_Checkpoint := c\<rparr>) e now r), None), st'')"
    using comp found e st'' st(2) by (simp add: complete_stage_def all_delivered_def Let_def)
  show ?thesis using get exe g finished pos t(1,2) tok st(3) by (simp add: CompleteExecutionStage_def all_delivered_def object_id_def)
qed

text \<open>Which claims and completions of a request succeed.\<close>

definition claims_succeed :: "deletion_service \<Rightarrow> DataDeletionRequest \<Rightarrow> Protocol \<Rightarrow> deletion_store \<Rightarrow> bool" where
  "claims_succeed s r p st \<longleftrightarrow> (\<forall>token now. ck_CurrentStageID (pr_Checkpoint p) = [] \<and> trim_space token \<noteq> [] \<and> length (trim_space token) \<le> 128
       \<and> 0 < now \<and> 0 < sv_leaseDuration s \<and> sv_leaseDuration s \<le> maxStageLease
       \<and> fst (AcquireDataRetentionSubjectLease (rq_UserID r) token now (now + sv_leaseDuration s) st) = Inr SubjectLeaseAcquired \<longrightarrow>
     (\<exists>claim st'. ClaimExecutionStage all_delivered s (Some token) (rq_ID r) (rq_Revision r) (ck_Revision (pr_Checkpoint p)) now st = (Inr claim, st')))"

definition completions_succeed :: "deletion_service \<Rightarrow> DataDeletionRequest \<Rightarrow> Protocol \<Rightarrow> deletion_store \<Rightarrow> bool" where
  "completions_succeed s r p st \<longleftrightarrow> (\<forall>token running now status receipt code. dataDeletionRunningStage (pr_Checkpoint p) token = Some running \<and> trim_space token = token
       \<and> now \<noteq> 0 \<and> now < sc_LeaseUntil running \<and> rq_UserID r \<noteq> 0
       \<and> (status = StageSucceeded \<and> isSHA256 (to_lower (trim_space receipt)) \<and> trim_space code = []
          \<or> status = StageFailed \<and> trim_space receipt = [] \<and> isFailureCode (trim_space code)) \<longrightarrow>
     (\<exists>r' st'. CompleteExecutionStage all_delivered s (rq_ID r) (rq_Revision r) (ck_Revision (pr_Checkpoint p)) token status receipt code now st = ((Some r', None), st')))"

lemma built_digest: "BuildPlan dg inventory capabilities t = Inr plan \<Longrightarrow> dp_Digest plan = planDigest dg plan"
  by (auto simp: BuildPlan_def Let_def planDigest_def split: if_splits option.splits)

text \<open>A trail of 128 events takes no more.\<close>

lemma full_trail_refuses:
  assumes "ds_requests st oid = Some r" "MaxAuditEvents \<le> rq_ExecutionAuditCount r" "op_oid x = oid"
  shows "(\<exists>err. fst (exec_run s x st) = Some err) \<and> ds_requests (snd (exec_run s x st)) = ds_requests st"
proof -
  have no: "\<not> moves s r p c stage kind token now r'" for p c stage kind token now r' using assms(2) by (auto simp: moves_def Let_def swap_ok_def)
  show ?thesis
  proof (cases x)
    case (XClaim cs random oid' er ec now)
    obtain a st' where c: "ClaimExecutionStage cs s random oid er ec now st = (a, st')" by (cases "ClaimExecutionStage cs s random oid er ec now st")
    have "ds_requests st' = ds_requests st \<and> (\<forall>claim. a \<noteq> Inr claim)" using claim_effect [OF c] assms(1) no by (cases "ds_requests st' = ds_requests st") auto
    then show ?thesis using c assms(3) by (cases a) (auto simp: XClaim)
  next
    case (XComplete cs oid' er ec token status receipt code now)
    obtain u err st' where c: "CompleteExecutionStage cs s oid er ec token status receipt code now st = ((u, err), st')"
      by (cases "CompleteExecutionStage cs s oid er ec token status receipt code now st") auto
    have "ds_requests st' = ds_requests st \<and> err \<noteq> None" using complete_effect [OF c] assms(1) no by (cases "ds_requests st' = ds_requests st") auto
    then show ?thesis using c assms(3) by (auto simp: XComplete)
  qed
qed

lemma never_executable:
  assumes "ds_requests st oid = Some r" "\<And>p. \<not> executes s r p" "op_oid x = oid"
  shows "(\<exists>err. fst (exec_run s x st) = Some err) \<and> snd (exec_run s x st) = st"
proof -
  have no: "\<exists>err. executableDataDeletionProtocol (sv_digests s) r oid er ec (sv_capabilities s) = Inl err" for er ec
  proof (cases "executableDataDeletionProtocol (sv_digests s) r oid er ec (sv_capabilities s)")
    case (Inr p)
    then show ?thesis using assms(2) [of p] executable_Inr [OF Inr] by (auto simp: executes_def)
  qed simp
  have get: "get_request dlv oid st = Inr r \<or> (\<exists>err. get_request dlv oid st = Inl err)" for dlv
    using get_request_Inr [of dlv oid st] assms(1) by (cases "get_request dlv oid st") auto
  show ?thesis
  proof (cases x)
    case (XClaim cs random oid' er ec now)
    then show ?thesis using assms(3) no [of er ec] get [of "cl_get cs"] by (auto simp: ClaimExecutionStage_def)
  next
    case (XComplete cs oid' er ec token status receipt code now)
    then show ?thesis using assms(3) no [of er ec] get [of "cl_get cs"] by (auto simp: CompleteExecutionStage_def)
  qed
qed

text \<open>
  C40. Stored requests execute with clocks of whole milliseconds, and not after a preflight at a finer time. Take a
  request as MongoDB has it after a preflight, enabled for execution. First: if the preflight and every claim and completion of this request read the clock in whole
  milliseconds, the lease lasts whole milliseconds, no operation on the request is before its last audit event
  and none claims while a stage is open, then whatever workers do, with any revisions, tokens, evidence and lost
  replies of the database, on this request and on others, at every point the request is completed, with all
  eight stages succeeded, or protocol, capabilities, audit trail and their binding are valid. While it is not
  completed and has less than 128 events, a claim with its current revisions succeeds if no stage is
  open and the lease of the subject is free, and the worker whose stage is open can complete it before its lease
  ends. (With 128 events every operation is refused; a stage whose lease has expired can only be taken over, which
  ends the execution.) Second: if the time of the preflight is not a whole number of milliseconds, so that
  the digest of the plan that was stored differs from the digest computed over it again, then every claim and every
  completion of the request fails and changes nothing.
\<close>

theorem orderly_execution:
  assumes "\<And>x. isSHA256 (dg_sha256 (sv_digests s) x)" "ds_requests st oid = Some r" "rq_ID r = oid" "object_id oid" "fresh_request s inventory t r"
    and "BuildPlan (sv_digests s) inventory (sv_capabilities s) t = Inr plan"
  shows "(whole_ms t \<and> whole_ms (sv_leaseDuration s) \<and> orderly s oid xs st \<longrightarrow>
      (\<exists>r'. ds_requests (exec_all s xs st) oid = Some r' \<and> (completed_request r' \<or>
        (\<exists>p. executableDataDeletionProtocol (sv_digests s) r' oid (rq_Revision r') (ck_Revision (pr_Checkpoint p)) (sv_capabilities s) = Inr p
          \<and> (rq_ExecutionAuditCount r' < 128 \<longrightarrow> claims_succeed s r' p (exec_all s xs st) \<and> completions_succeed s r' p (exec_all s xs st))))))
    \<and> (planDigest (sv_digests s) (stored_plan plan) \<noteq> planDigest (sv_digests s) plan \<longrightarrow>
      (\<forall>x. op_oid x = oid \<longrightarrow> (\<exists>err. fst (exec_run s x st) = Some err) \<and> snd (exec_run s x st) = st))"
proof (intro conjI impI)
  assume t: "whole_ms t \<and> whole_ms (sv_leaseDuration s) \<and> orderly s oid xs st"
  obtain r' where r': "ds_requests (exec_all s xs st) oid = Some r'" "rq_ID r' = oid" "settled s r'"
    using exec_all_settled [OF assms(2,3) fresh_audited [OF assms(5,1)]] t by blast
  show "\<exists>r'. ds_requests (exec_all s xs st) oid = Some r' \<and> (completed_request r' \<or>
        (\<exists>p. executableDataDeletionProtocol (sv_digests s) r' oid (rq_Revision r') (ck_Revision (pr_Checkpoint p)) (sv_capabilities s) = Inr p
          \<and> (rq_ExecutionAuditCount r' < 128 \<longrightarrow> claims_succeed s r' p (exec_all s xs st) \<and> completions_succeed s r' p (exec_all s xs st))))"
  proof (cases "completed_request r'")
    case False
    then obtain p where p: "audited s r' p" using r'(3) by (auto simp: settled_def)
    have "claims_succeed s r' p (exec_all s xs st) \<and> completions_succeed s r' p (exec_all s xs st)" if n: "rq_ExecutionAuditCount r' < 128"
    proof -
      have n': "rq_ExecutionAuditCount r' < MaxAuditEvents" using n by (simp add: MaxAuditEvents_def)
      show ?thesis unfolding claims_succeed_def completions_succeed_def r'(2)
        using claim_succeeds [OF p r'(1,2) assms(4) n' assms(1)] completion_succeeds [OF p r'(1,2) assms(4) n' assms(1)] by blast
    qed
    then show ?thesis using p r'(1,2) by (intro exI [of _ r']) (auto simp: audited_def executes_def)
  qed (use r' in blast)
next
  assume d: "planDigest (sv_digests s) (stored_plan plan) \<noteq> planDigest (sv_digests s) plan"
  have "\<not> executes s r q" for q
  proof
    assume "executes s r q"
    moreover obtain p where "BuildProtocol (sv_digests s) inventory (sv_capabilities s) t = Inr p" "rq_ExecutionProtocol r = Some (stored_protocol p)"
      using assms(5) by (auto simp: fresh_request_def split: sum.splits)
    moreover have "pr_Plan p = plan" using calculation(2) assms(6) by (auto simp: BuildProtocol_def split: sum.splits)
    ultimately have "ValidatePlan (sv_digests s) (stored_plan plan) = None"
      by (auto simp: executes_iff ValidateProtocol_def stored_protocol_def split: option.splits)
    then have "dp_Digest plan = planDigest (sv_digests s) (stored_plan plan)" by (auto simp: ValidatePlan_def stored_plan_def split: if_splits option.splits)
    then show False using d built_digest [OF assms(6)] by simp
  qed
  from never_executable [OF assms(2) this] show "\<forall>x. op_oid x = oid \<longrightarrow> (\<exists>err. fst (exec_run s x st) = Some err) \<and> snd (exec_run s x st) = st" by blast
qed

text \<open>
  Taking over an abandoned stage ends the execution for good. When a worker claims a stage while
  another stage claim is still open, because that worker died or its replies were lost and its lease
  has expired, the claim succeeds; but the audit trail then holds two claims in a row, which every later
  operation rejects: from then on each claim and each completion on the request, also the
  completion of the new claim, fails and changes nothing.
\<close>

lemma claim_after_claim:
  assumes "ValidateAuditTrail dg (es @ [e]) n tailD planD capD = None" "es \<noteq> []" "ae_Type (last es) = AuditStageClaimed"
  shows "ae_Type e \<noteq> AuditStageClaimed"
proof
  assume t: "ae_Type e = AuditStageClaimed"
  have "\<exists>a. audit_chain dg planD capD 0 None None (es @ [e]) = Inr a" using trail_chain(1) [OF assms(1)] by simp
  then obtain a where a: "audit_chain dg planD capD 0 None None es = Inr a" "\<exists>b. audit_step dg planD capD (length es) (Some (last es)) a e = Inr b"
    using assms(2) unfolding audit_chain_append by (auto split: sum.splits)
  have "a = Some (last es)" using audit_chain_open [OF a(1) assms(2)] assms(3) by simp
  then show False using a(2) t by (auto simp: audit_step_def split: option.splits if_splits)
qed

theorem takeover_ends_execution:
  assumes "ClaimExecutionStage cs s random oid er ec now st = (Inr claim, st')"
    and "ds_requests st oid = Some r" "rq_ExecutionProtocol r = Some p" "ck_CurrentStageID (pr_Checkpoint p) \<noteq> []" "rq_ExecutionAudit r \<noteq> []"
  shows "\<forall>x. op_oid x = oid \<longrightarrow> (\<exists>err. fst (exec_run s x st') = Some err) \<and> snd (exec_run s x st') = st'"
proof -
  from claim_effect [OF assms(1)] assms(2) obtain p' stage c token r' where E: "executes s r p'"
    "moves s r p' c stage AuditStageClaimed token now r'" "ds_requests st' = (ds_requests st)(oid \<mapsto> r')" by auto
  have p': "p' = p" using E(1) assms(3) by (simp add: executes_iff)
  obtain e where e: "NewAuditEvent (sv_digests s) (transition_event r (p\<lparr>pr_Checkpoint := c\<rparr>) stage AuditStageClaimed (rq_Revision r) token now) = Inr e"
    "r' = swapped (p\<lparr>pr_Checkpoint := c\<rparr>) e now r" using E(2) unfolding moves_def Let_def p' by blast
  let ?es = "map stored_event (rq_ExecutionAudit r)"
  have new: "rq_ExecutionAudit r' = ?es @ [stored_event e]" by (simp add: e(2) swapped_def)
  have kind: "ae_Type (stored_event e) = AuditStageClaimed" using NewAuditEvent_Inr [OF e(1)] by (simp add: transition_event_def)
  have "ae_Type (last (rq_ExecutionAudit r)) = AuditStageClaimed" using tail_claim(1) [OF E(1)] p' assms(4,5) by simp
  then have open_claim: "ae_Type (last ?es) = AuditStageClaimed" "?es \<noteq> []" using assms(5) by (simp_all add: last_map)
  have "\<not> executes s r' q" for q
  proof
    assume "executes s r' q"
    then have "ValidateAuditTrail (sv_digests s) (?es @ [stored_event e]) (rq_ExecutionAuditCount r') (rq_ExecutionAuditTail r') (dp_Digest (pr_Plan q)) (dp_CapabilityDigest (pr_Plan q)) = None"
      by (simp add: executes_iff new)
    from claim_after_claim [OF this open_claim(2,1)] show False using kind by simp
  qed
  then show ?thesis using never_executable [of st' oid r'] E(3) by simp
qed

text \<open>
  The same end comes with a claim at a time that is not a whole number of milliseconds, if the digest of its event as
  it is stored differs from the digest that was computed over it.
\<close>

lemma late_claim_ends_execution:
  assumes "ClaimExecutionStage cs s random oid er ec now st = (Inr claim, st')"
    and "\<And>e. ae_OccurredAt e = now \<Longrightarrow> auditEventDigest (sv_digests s) (stored_event e) \<noteq> auditEventDigest (sv_digests s) e"
  shows "\<forall>x. op_oid x = oid \<longrightarrow> (\<exists>err. fst (exec_run s x st') = Some err) \<and> snd (exec_run s x st') = st'"
proof -
  from claim_effect [OF assms(1)] obtain r p stage c token r' where E: "moves s r p c stage AuditStageClaimed token now r'" "ds_requests st' = (ds_requests st)(oid \<mapsto> r')" by auto
  obtain e where e: "NewAuditEvent (sv_digests s) (transition_event r (p\<lparr>pr_Checkpoint := c\<rparr>) stage AuditStageClaimed (rq_Revision r) token now) = Inr e"
    "r' = swapped (p\<lparr>pr_Checkpoint := c\<rparr>) e now r" using E(1) unfolding moves_def Let_def by blast
  have new: "rq_ExecutionAudit r' = map stored_event (rq_ExecutionAudit r) @ [stored_event e]" by (simp add: e(2) swapped_def)
  have ev: "ae_OccurredAt e = now" "ae_EventDigest e = auditEventDigest (sv_digests s) e"
    using NewAuditEvent_Inr [OF e(1)] by (auto simp: audit_event_def Let_def transition_event_def ValidateAuditEvent_def split: if_splits option.splits)
  have "\<not> executes s r' q" for q
  proof
    assume "executes s r' q"
    from tail_valid [OF this] have "ValidateAuditEvent (sv_digests s) (stored_event e) = None" by (simp add: new)
    then show False using assms(2) [OF ev(1)] ev(2) by (auto simp: ValidateAuditEvent_def split: if_splits option.splits)
  qed
  then show ?thesis using never_executable [of st' oid r'] E(2) by simp
qed

section \<open>A request and two workers\<close>

definition demo_service :: deletion_service where
  "demo_service = \<lparr>sv_digests = demo_digests, sv_capabilities = demo_capabilities, sv_leaseDuration = 10000000\<rparr>"

definition demo_oid :: string where "demo_oid = replicate 24 (CHR ''1'')"

definition demo_request :: DataDeletionRequest where
  "demo_request = \<lparr>rq_ID = demo_oid, rq_UserID = 5, rq_Status = DataDeletionPreviewReady, rq_ReasonCode = ''user_request'', rq_ActorDigest = [], rq_ScopeVersion = [],
     rq_Inventory = empty_inventory, rq_Unsupported = [], rq_ExecutionProtocol = Some demo_protocol, rq_ExecutionSupported = True, rq_ExecutionAudit = [],
     rq_ExecutionAuditCount = 0, rq_ExecutionAuditTail = [], rq_FailureCode = [], rq_RequestedAt = 5000000, rq_PreflightedAt = 7000000, rq_CancelledAt = 0, rq_CompletedAt = 0,
     rq_UpdatedAt = 7000000, rq_LeaseToken = [], rq_LeaseUntil = None, rq_Revision = 3, rq_Active = True\<rparr>"

definition demo_store :: deletion_store where
  "demo_store = \<lparr>ds_requests = [demo_oid \<mapsto> demo_request], ds_subjects = Map.empty\<rparr>"

text \<open>A stage is claimed and fails; the reply to its completion is lost.\<close>

definition demo_exec_ops :: "exec_op list" where
  "demo_exec_ops = [XClaim all_delivered (Some ''w1'') demo_oid 3 1 10000000,
     XComplete (all_delivered\<lparr>cl_swap := Lost True\<rparr>) demo_oid 4 2 ''w1'' StageFailed [] ''write_fence_failed'' 12000000]"

lemma demo_fresh: "fresh_request demo_service demo_inventory 7000000 demo_request"
  by code_simp

text \<open>The run is orderly, and all its operations take effect.\<close>

lemma demo_orderly: "orderly demo_service demo_oid demo_exec_ops demo_store"
  by code_simp

lemma demo_whole: "whole_ms 7000000" "whole_ms (sv_leaseDuration demo_service)"
  by (simp_all add: whole_ms_iff demo_service_def)

lemma demo_object: "object_id demo_oid"
  by code_simp

text \<open>The same request with a preflight nine nanoseconds after a whole millisecond, and a digest that tells its text from others.\<close>

definition late_mark :: string where
  "late_mark = ProtocolSchemaV1 @ nul @ replicate 64 (CHR ''b'') @ nul @ replicate 64 (CHR ''b'') @ nul @ ''9''"
definition late_digests :: digest_env where
  "late_digests = \<lparr>dg_sha256 = (\<lambda>x. replicate 64 (if prefix late_mark x then CHR ''a'' else CHR ''b'')), dg_time = show_int\<rparr>"
definition late_capabilities :: CapabilitySnapshot where
  "late_capabilities = demo_capabilities\<lparr>cs_Digest := replicate 64 (CHR ''b'')\<rparr>"
definition late_plan :: "deletion_plan" where
  "late_plan = \<lparr>dp_SchemaVersion = ProtocolSchemaV1, dp_Digest = replicate 64 (CHR ''a''), dp_InventoryDigest = replicate 64 (CHR ''b''),
       dp_CapabilityDigest = replicate 64 (CHR ''b''), dp_Ready = True, dp_Blockers = [], dp_Stages = defaultStages, dp_GeneratedAt = 9\<rparr>"

lemma late_sha: "isSHA256 (dg_sha256 late_digests x)"
  by (simp add: late_digests_def isSHA256_def hex_char_def) code_simp

lemma times: "show_int 9 = ''9''" "show_int 0 = ''0''" by code_simp+

lemma late_plan_digest: "planDigest late_digests \<lparr>dp_SchemaVersion = ProtocolSchemaV1, dp_Digest = d, dp_InventoryDigest = replicate 64 (CHR ''b''),
       dp_CapabilityDigest = replicate 64 (CHR ''b''), dp_Ready = True, dp_Blockers = [], dp_Stages = defaultStages, dp_GeneratedAt = 9\<rparr> = replicate 64 (CHR ''a'')"
  "planDigest late_digests (late_plan\<lparr>dp_GeneratedAt := 0\<rparr>) = replicate 64 (CHR ''b'')"
  by (simp_all add: planDigest_def late_digests_def late_plan_def late_mark_def times)

lemma late_head: "replicate 64 (CHR ''b'') = CHR ''b'' # replicate 63 (CHR ''b'')"
  using replicate_Suc [of 63 "CHR ''b''"] by simp

lemma late_head_a: "replicate 64 (CHR ''a'') = CHR ''a'' # replicate 63 (CHR ''a'')"
  using replicate_Suc [of 63 "CHR ''a''"] by simp

lemma late_inventory: "inventoryDigest late_digests demo_inventory = replicate 64 (CHR ''b'')"
  by (simp add: inventoryDigest_def late_digests_def late_mark_def late_head demo_inventory_def appendMap_def nul_def)

lemma late_capability: "capabilitySnapshotDigest late_digests late_capabilities = replicate 64 (CHR ''b'')"
  by (simp add: capabilitySnapshotDigest_def late_digests_def late_mark_def late_capabilities_def demo_capabilities_value ProtocolSchemaV1_def CapabilitySnapshotSchemaV1_def)

lemma late_built: "BuildPlan late_digests demo_inventory late_capabilities 9 = Inr late_plan"
proof -
  have "validateInventory demo_inventory = None" "plan_blockers demo_inventory late_capabilities defaultStages = []"
    "check_descriptors [] (cs_Capabilities late_capabilities) = None" "isSHA256 (cs_Digest late_capabilities)"
    "cs_SchemaVersion late_capabilities = CapabilitySnapshotSchemaV1" by code_simp+
  moreover have "cs_Digest late_capabilities = replicate 64 (CHR ''b'')" by (simp add: late_capabilities_def)
  ultimately show ?thesis using late_plan_digest(1) [of "[]"] late_inventory late_capability
    by (simp add: BuildPlan_def ValidateCapabilitySnapshot_def) (simp add: late_plan_def)
qed

definition late_service :: deletion_service where
  "late_service = \<lparr>sv_digests = late_digests, sv_capabilities = late_capabilities, sv_leaseDuration = 10000000\<rparr>"

definition late_checkpoint :: Checkpoint where
  "late_checkpoint = \<lparr>ck_PlanDigest = dp_Digest late_plan, ck_Revision = 1, ck_CurrentStageID = [], ck_Stages = map (\<lambda>s. pending_stage (sg_ID s)) defaultStages, ck_UpdatedAt = 9\<rparr>"

definition late_request :: DataDeletionRequest where
  "late_request = demo_request\<lparr>rq_ExecutionProtocol := Some (stored_protocol \<lparr>pr_Plan = late_plan, pr_Checkpoint = late_checkpoint\<rparr>)\<rparr>"

lemma late_protocol_built: "BuildProtocol late_digests demo_inventory late_capabilities 9 = Inr \<lparr>pr_Plan = late_plan, pr_Checkpoint = late_checkpoint\<rparr>"
  using built_plan(1) [OF late_built late_sha] late_built
  by (simp add: BuildProtocol_def NewCheckpoint_def) (simp add: late_checkpoint_def late_plan_def)

lemma late_fresh: "fresh_request late_service demo_inventory 9 late_request"
proof -
  have "stored_request demo_request = demo_request" by code_simp
  then have "stored_request late_request = late_request" by (simp add: late_request_def stored_request_def) (simp add: demo_request_def)
  moreover have "dp_Ready late_plan" by (simp add: late_plan_def)
  ultimately show ?thesis using late_protocol_built
    by (simp add: fresh_request_def late_service_def) (simp add: late_request_def demo_request_def)
qed

lemma late_digest: "planDigest late_digests (stored_plan late_plan) \<noteq> planDigest late_digests late_plan"
proof -
  have "stored_plan late_plan = late_plan\<lparr>dp_GeneratedAt := 0\<rparr>" by (simp add: stored_plan_def bson_time_def late_plan_def)
  then show ?thesis using late_plan_digest(1) [of "replicate 64 (CHR ''a'')"] late_plan_digest(2) by (simp add: late_plan_def late_head late_head_a)
qed

theorem orderly_execution_witness:
  "(\<exists>r. ds_requests (exec_all demo_service demo_exec_ops demo_store) demo_oid = Some r \<and> rq_Revision r = 5 \<and> length (rq_ExecutionAudit r) = 2 \<and> (completed_request r \<or>
    (\<exists>p. executableDataDeletionProtocol demo_digests r demo_oid (rq_Revision r) (ck_Revision (pr_Checkpoint p)) demo_capabilities = Inr p)))
   \<and> (\<exists>err. fst (exec_run late_service (hd demo_exec_ops) (demo_store\<lparr>ds_requests := [demo_oid \<mapsto> late_request]\<rparr>)) = Some err)"
proof
  have sv: "sv_digests demo_service = demo_digests" "sv_capabilities demo_service = demo_capabilities" by (simp_all add: demo_service_def)
  have "ds_requests demo_store demo_oid = Some demo_request" "rq_ID demo_request = demo_oid" by (simp_all add: demo_store_def demo_request_def)
  from orderly_execution [OF _ this demo_object demo_fresh, of "pr_Plan demo_protocol" demo_exec_ops, unfolded sv, OF demo_sha demo_plan_built]
  obtain r where r: "ds_requests (exec_all demo_service demo_exec_ops demo_store) demo_oid = Some r"
    "completed_request r \<or> (\<exists>p. executableDataDeletionProtocol demo_digests r demo_oid (rq_Revision r) (ck_Revision (pr_Checkpoint p)) demo_capabilities = Inr p)"
    using demo_whole demo_orderly by blast
  have "(case ds_requests (exec_all demo_service demo_exec_ops demo_store) demo_oid of None \<Rightarrow> False | Some r \<Rightarrow> rq_Revision r = 5 \<and> length (rq_ExecutionAudit r) = 2)"
    by code_simp
  then show "\<exists>r. ds_requests (exec_all demo_service demo_exec_ops demo_store) demo_oid = Some r \<and> rq_Revision r = 5 \<and> length (rq_ExecutionAudit r) = 2 \<and> (completed_request r \<or>
    (\<exists>p. executableDataDeletionProtocol demo_digests r demo_oid (rq_Revision r) (ck_Revision (pr_Checkpoint p)) demo_capabilities = Inr p))" using r by simp
next
  let ?st = "demo_store\<lparr>ds_requests := [demo_oid \<mapsto> late_request]\<rparr>"
  have sv: "sv_digests late_service = late_digests" "sv_capabilities late_service = late_capabilities" by (simp_all add: late_service_def)
  have "ds_requests ?st demo_oid = Some late_request" "rq_ID late_request = demo_oid" by (simp_all add: late_request_def demo_request_def)
  from orderly_execution [OF _ this demo_object late_fresh, of "late_plan" demo_exec_ops, unfolded sv, OF late_sha late_built]
  have "\<forall>x. op_oid x = demo_oid \<longrightarrow> (\<exists>err. fst (exec_run late_service x ?st) = Some err) \<and> snd (exec_run late_service x ?st) = ?st" using late_digest by blast
  moreover have "op_oid (hd demo_exec_ops) = demo_oid" by (simp add: demo_exec_ops_def)
  ultimately show "\<exists>err. fst (exec_run late_service (hd demo_exec_ops) ?st) = Some err" by blast
qed

text \<open>A worker claims a stage and dies; another takes the stage over and can never complete it.\<close>

definition abandoned :: deletion_store where
  "abandoned = snd (ClaimExecutionStage all_delivered demo_service (Some ''w1'') demo_oid 3 1 10000000 demo_store)"

definition taken_over :: "(exec_error + DataDeletionStageClaim) \<times> deletion_store" where
  "taken_over = ClaimExecutionStage all_delivered demo_service (Some ''w2'') demo_oid 4 2 30000000 abandoned"

theorem takeover_ends_execution_witness:
  "\<not> isl (fst taken_over) \<and> (\<exists>err. fst (exec_run demo_service (XComplete all_delivered demo_oid 5 3 ''w2'' StageSucceeded (replicate 64 (CHR ''b'')) [] 32000000) (snd taken_over)) = Some err)"
proof -
  have ok: "\<not> isl (fst taken_over)" by code_simp
  then obtain claim where w: "ClaimExecutionStage all_delivered demo_service (Some ''w2'') demo_oid 4 2 30000000 abandoned = (Inr claim, snd taken_over)"
    unfolding taken_over_def by (metis isl_def prod.collapse sum.exhaust)
  have "(case ds_requests abandoned demo_oid of None \<Rightarrow> False | Some r \<Rightarrow> rq_ExecutionAudit r \<noteq> []
     \<and> (case rq_ExecutionProtocol r of None \<Rightarrow> False | Some p \<Rightarrow> ck_CurrentStageID (pr_Checkpoint p) \<noteq> []))" by code_simp
  then obtain r p where "ds_requests abandoned demo_oid = Some r" "rq_ExecutionProtocol r = Some p"
    "ck_CurrentStageID (pr_Checkpoint p) \<noteq> []" "rq_ExecutionAudit r \<noteq> []" by (auto split: option.splits)
  from takeover_ends_execution [OF w this] show ?thesis using ok by (simp del: exec_run.simps)
qed

end
