(* ===== verification/Runtime_Types.thy ===== *)
theory Runtime_Types
  imports Budget Admission
begin

text \<open>
  The data of agent runs: \<^verbatim>\<open>src/internal/module/agent/runtime/types.go\<close>, the checkpoints of suspended runs of
  \<^verbatim>\<open>runtime/checkpoint.go\<close>, and the token counter of \<^verbatim>\<open>runtime/token_counter.go\<close>. The clone functions are
  identities on values and have no counterpart.
\<close>

section \<open>Types\<close>

definition RoleSystem :: string where "RoleSystem = ''system''"
definition RoleUser :: string where "RoleUser = ''user''"
definition RoleAssistant :: string where "RoleAssistant = ''assistant''"
definition RoleTool :: string where "RoleTool = ''tool''"

lemmas role_defs = RoleSystem_def RoleUser_def RoleAssistant_def RoleTool_def

definition ActionFinalAnswer :: string where "ActionFinalAnswer = ''final_answer''"
definition ActionToolCall :: string where "ActionToolCall = ''tool_call''"
definition ActionRAGSearch :: string where "ActionRAGSearch = ''rag_search''"
definition ActionAskHuman :: string where "ActionAskHuman = ''ask_human''"

lemmas action_types = ActionFinalAnswer_def ActionToolCall_def ActionRAGSearch_def ActionAskHuman_def

definition RunStatusRunning :: string where "RunStatusRunning = ''running''"
definition RunStatusCompleted :: string where "RunStatusCompleted = ''completed''"
definition RunStatusAwaitingHuman :: string where "RunStatusAwaitingHuman = ''awaiting_human''"
definition RunStatusApprovalRequired :: string where "RunStatusApprovalRequired = ''approval_required''"
definition RunStatusFailed :: string where "RunStatusFailed = ''failed''"

lemmas run_statuses = RunStatusRunning_def RunStatusCompleted_def RunStatusAwaitingHuman_def RunStatusApprovalRequired_def RunStatusFailed_def

definition ResumeKindHumanResponse :: string where "ResumeKindHumanResponse = ''human_response''"
definition ResumeKindToolApproval :: string where "ResumeKindToolApproval = ''tool_approval''"
definition ResumeKindDelegatedToolApproval :: string where "ResumeKindDelegatedToolApproval = ''delegated_tool_approval''"

lemmas resume_kinds = ResumeKindHumanResponse_def ResumeKindToolApproval_def ResumeKindDelegatedToolApproval_def

definition ToolCategoryWrite :: string where "ToolCategoryWrite = ''write''"
definition ToolCategoryRisky :: string where "ToolCategoryRisky = ''risky''"

definition ToolChoiceAuto :: string where "ToolChoiceAuto = ''auto''"
definition ToolChoiceRequired :: string where "ToolChoiceRequired = ''required''"
definition ToolChoiceNone :: string where "ToolChoiceNone = ''none''"

definition ToolChoice_Valid :: "string \<Rightarrow> bool" where
  "ToolChoice_Valid choice \<longleftrightarrow> choice = [] \<or> choice = ToolChoiceAuto \<or> choice = ToolChoiceRequired \<or> choice = ToolChoiceNone"

record Action =
  ac_ID :: string
  ac_Type :: string
  ac_Name :: string
  ac_Arguments :: raw_message
  ac_Content :: string

record Message =
  ms_Role :: string
  ms_Content :: string
  ms_Name :: string
  ms_ToolCallID :: string
  ms_Actions :: "Action list"

record Observation =
  ob_ActionID :: string
  ob_Name :: string
  ob_Content :: string
  ob_StructuredContent :: raw_message
  ob_IsError :: bool

record ToolDefinition =
  td_Name :: string
  td_Description :: string
  td_InputSchema :: raw_message
  td_Category :: string
  td_RequiresApproval :: bool

definition tool_ApprovalRequired :: "ToolDefinition \<Rightarrow> bool" where
  "tool_ApprovalRequired t \<longleftrightarrow> td_RequiresApproval t \<or> td_Category t = ToolCategoryWrite \<or> td_Category t = ToolCategoryRisky"

record RunContext =
  rc_RunID :: string
  rc_ParentRunID :: string
  rc_RoleID :: string
  rc_StrategyPlanDigest :: string
  rc_WorkflowID :: string
  rc_UserID :: "64 word"
  rc_Mode :: string
  rc_AgentProfileID :: string
  rc_AgentProfileVersion :: string
  rc_PromptTemplateID :: string
  rc_PromptTemplateVersion :: string
  rc_StartedAt :: int
  rc_Budget :: Budget

record RunRequest =
  rr_Context :: RunContext
  rr_Model :: string
  rr_Messages :: "Message list"
  rr_Tools :: "ToolDefinition list"
  rr_InitialToolChoice :: string

record ModelRoutingAttempt =
  ra_Model :: string
  ra_Provider :: string
  ra_FailureCode :: string
  ra_Decision :: string

record ModelRoutingTrace =
  rt_RequestedModel :: string
  rt_SelectedModel :: string
  rt_SelectedProvider :: string
  rt_Attempts :: "ModelRoutingAttempt list"
  rt_TerminalDecision :: string

record RunStep =
  st_Index :: int
  st_RoleID :: string
  st_StartedAt :: int
  st_FinishedAt :: int
  st_Model :: string
  st_Provider :: string
  st_Actions :: "Action list"
  st_Observations :: "Observation list"
  st_Usage :: TokenUsage
  st_ModelRouting :: "ModelRoutingTrace option"

record RunResult =
  rs_Context :: RunContext
  rs_Status :: string
  rs_FinalAnswer :: string
  rs_Messages :: "Message list"
  rs_Steps :: "RunStep list"
  rs_PendingAction :: "Action option"
  rs_PendingResumeKind :: string
  rs_PendingToolContinuation :: "ToolContinuation option"
  rs_ApprovalID :: string
  rs_Usage :: TokenUsage

record ModelRequest =
  mr_Context :: RunContext
  mr_StepIndex :: int
  mr_Model :: string
  mr_Messages :: "Message list"
  mr_Tools :: "ToolDefinition list"
  mr_ToolChoice :: string
  mr_MaxOutputTokens :: int

text \<open>
  \<open>mp_shared\<close> says whether \<^verbatim>\<open>Actions\<close> and \<^verbatim>\<open>Message.Actions\<close> are one slice, as in the responses of the
  OpenAI client: the runner writes into the one it reads.
\<close>

record ModelResponse =
  mp_shared :: bool
  mp_Message :: Message
  mp_Actions :: "Action list"
  mp_Usage :: TokenUsage
  mp_Model :: string
  mp_Provider :: string
  mp_ModelRouting :: "ModelRoutingTrace option"

record ToolCall =
  tl_RunContext :: RunContext
  tl_ActionID :: string
  tl_Name :: string
  tl_Arguments :: raw_message

record ToolResult =
  tr_Content :: string
  tr_StructuredContent :: raw_message

record ToolResumeRequest =
  tq_Call :: ToolCall
  tq_Continuation :: ToolContinuation
  tq_HumanResponse :: string
  tq_ApprovalID :: string
  tq_ResumeToken :: string

record RAGQuery =
  qy_RunContext :: RunContext
  qy_ActionID :: string
  qy_Name :: string
  qy_Arguments :: raw_message

record CostEstimate =
  ce_Micros :: int
  ce_PricingVersion :: string

section \<open>Checkpoints\<close>

definition ReActCheckpointVersion :: string where "ReActCheckpointVersion = ''react.v1''"

record RunCheckpoint =
  cp_Version :: string
  cp_Context :: RunContext
  cp_Model :: string
  cp_Messages :: "Message list"
  cp_Steps :: "RunStep list"
  cp_PendingAction :: Action
  cp_PendingResumeKind :: string
  cp_PendingToolContinuation :: "ToolContinuation option"
  cp_PendingApprovalID :: string
  cp_Usage :: TokenUsage

record ResumeRequest =
  rm_Checkpoint :: RunCheckpoint
  rm_HumanResponse :: string
  rm_ApprovalID :: string
  rm_ResumeToken :: string
  rm_Tools :: "ToolDefinition list"

definition actionsContain :: "Action list \<Rightarrow> string \<Rightarrow> string \<Rightarrow> bool" where
  "actionsContain actions actionID actionType \<longleftrightarrow> list_ex (\<lambda>a. ac_ID a = actionID \<and> ac_Type a = actionType) actions"

definition messageContainsAction :: "Message \<Rightarrow> string \<Rightarrow> string \<Rightarrow> bool" where
  "messageContainsAction message actionID actionType = actionsContain (ms_Actions message) actionID actionType"

definition hasFailedObservation :: "Observation list \<Rightarrow> string \<Rightarrow> bool" where
  "hasFailedObservation observations actionID \<longleftrightarrow> list_ex (\<lambda>b. ob_ActionID b = actionID \<and> ob_IsError b) observations"

definition latestAssistantMessage :: "Message list \<Rightarrow> Message option" where
  "latestAssistantMessage messages = List.find (\<lambda>m. ms_Role m = RoleAssistant) (rev messages)"

text \<open>
  The state of a continuation is raw JSON: empty, \<^verbatim>\<open>null\<close> or invalid JSON is refused. The representation does
  not tell \<^verbatim>\<open>null\<close> from \<^verbatim>\<open>null\<close> with white space around it, which the code would accept.
\<close>

definition validateToolContinuation :: "ToolContinuation option \<Rightarrow> gerr option" where
  "validateToolContinuation continuation = (case continuation of
      None \<Rightarrow> Some (EMsg ''agent runtime suspended tool continuation is incomplete'')
    | Some c \<Rightarrow>
        if trim_space (tc_Version c) = [] \<or> trim_space (tc_Prompt c) = [] \<or> tc_State c = RawEmpty \<or> tc_State c = RawJSON GNil
        then Some (EMsg ''agent runtime suspended tool continuation is incomplete'')
        else if (case tc_State c of RawBad _ \<Rightarrow> True | _ \<Rightarrow> False) then Some (EMsg ''agent runtime suspended tool continuation state is invalid'')
        else if tc_ResumeKind c = [] \<or> tc_ResumeKind c = ResumeKindHumanResponse
        then if trim_space (tc_ApprovalID c) \<noteq> [] then Some (EMsg ''agent runtime human tool continuation cannot contain an approval id'') else None
        else if tc_ResumeKind c = ResumeKindDelegatedToolApproval
        then if trim_space (tc_ApprovalID c) = [] then Some (EMsg ''agent runtime delegated approval continuation is incomplete'') else None
        else Some (EMsg ''agent runtime tool continuation resume kind is invalid''))"

definition validate_pending_human :: "RunCheckpoint \<Rightarrow> gerr option" where
  "validate_pending_human c =
     (if cp_PendingResumeKind c \<noteq> [] \<and> cp_PendingResumeKind c \<noteq> ResumeKindHumanResponse
      then Some (EMsg ''agent runtime human checkpoint resume kind is invalid'')
      else if trim_space (ac_ID (cp_PendingAction c)) = [] \<or> trim_space (ac_Content (cp_PendingAction c)) = []
      then Some (EMsg ''agent runtime checkpoint pending human action is incomplete'')
      else if trim_space (cp_PendingApprovalID c) \<noteq> [] then Some (EMsg ''agent runtime human checkpoint cannot contain an approval id'')
      else if cp_PendingToolContinuation c \<noteq> None then Some (EMsg ''agent runtime direct human checkpoint cannot contain a tool continuation'')
      else None)"

definition validate_pending_tool :: "RunCheckpoint \<Rightarrow> gerr option" where
  "validate_pending_tool c =
     (let kind = cp_PendingResumeKind c; approvalID = trim_space (cp_PendingApprovalID c)
      in if trim_space (ac_ID (cp_PendingAction c)) = [] \<or> trim_space (ac_Name (cp_PendingAction c)) = []
         then Some (EMsg ''agent runtime checkpoint pending tool action is incomplete'')
         else if kind = ResumeKindHumanResponse
         then if approvalID \<noteq> [] then Some (EMsg ''agent runtime suspended tool checkpoint cannot contain an approval id'')
              else validateToolContinuation (cp_PendingToolContinuation c)
         else if kind = ResumeKindDelegatedToolApproval
         then if approvalID = [] then Some (EMsg ''agent runtime delegated approval checkpoint is incomplete'')
              else (case validateToolContinuation (cp_PendingToolContinuation c) of Some err \<Rightarrow> Some err | None \<Rightarrow>
                let t = the (cp_PendingToolContinuation c)
                in if tc_ResumeKind t \<noteq> ResumeKindDelegatedToolApproval \<or> trim_space (tc_ApprovalID t) \<noteq> approvalID
                   then Some (EMsg ''agent runtime delegated approval continuation binding is invalid'') else None)
         else if kind = [] \<or> kind = ResumeKindToolApproval
         then if approvalID = [] then Some (EMsg ''agent runtime checkpoint pending approval action is incomplete'')
              else if cp_PendingToolContinuation c \<noteq> None then Some (EMsg ''agent runtime approval checkpoint cannot contain a tool continuation'')
              else None
         else Some (EMsg ''agent runtime tool checkpoint resume kind is invalid''))"

definition ValidateRunCheckpoint :: "RunCheckpoint \<Rightarrow> gerr option" where
  "ValidateRunCheckpoint c =
     (let pending = cp_PendingAction c
      in if cp_Version c \<noteq> ReActCheckpointVersion then Some (EMsg ''unsupported agent runtime checkpoint version'')
      else if trim_space (rc_RunID (cp_Context c)) = [] \<or> rc_UserID (cp_Context c) = 0 then Some (EMsg ''agent runtime checkpoint identity is incomplete'')
      else if trim_space (cp_Model c) = [] then Some (EMsg ''agent runtime checkpoint model is required'')
      else case (if ac_Type pending = ActionAskHuman then validate_pending_human c
                 else if ac_Type pending = ActionToolCall then validate_pending_tool c
                 else Some (EMsg ''agent runtime checkpoint is not resumable'')) of Some err \<Rightarrow> Some err | None \<Rightarrow>
        if cp_Messages c = [] \<or> cp_Steps c = [] then Some (EMsg ''agent runtime checkpoint execution history is empty'')
        else if \<not> (\<exists>m\<in>set_option (latestAssistantMessage (cp_Messages c)). messageContainsAction m (ac_ID pending) (ac_Type pending))
        then Some (EMsg ''agent runtime checkpoint pending action is not paired with the last assistant message'')
        else if \<not> actionsContain (st_Actions (last (cp_Steps c))) (ac_ID pending) (ac_Type pending)
        then Some (EMsg ''agent runtime checkpoint pending action is not paired with the last step'')
        else if ac_Type pending = ActionToolCall \<and> \<not> hasFailedObservation (st_Observations (last (cp_Steps c))) (ac_ID pending)
        then Some (EMsg ''agent runtime approval checkpoint has no failed pending observation'')
        else None)"

definition zero_action :: Action where
  "zero_action = \<lparr>ac_ID = [], ac_Type = [], ac_Name = [], ac_Arguments = RawEmpty, ac_Content = []\<rparr>"

definition NewRunCheckpoint :: "RunRequest \<Rightarrow> RunResult \<Rightarrow> gerr + RunCheckpoint" where
  "NewRunCheckpoint request result =
     (let pending = (case rs_PendingAction result of None \<Rightarrow> zero_action | Some a \<Rightarrow> a);
          approvalID = trim_space (rs_ApprovalID result);
          kind = (if rs_PendingResumeKind result \<noteq> [] then rs_PendingResumeKind result
                  else if ac_Type pending = ActionAskHuman then ResumeKindHumanResponse
                  else if ac_Type pending = ActionToolCall \<and> approvalID \<noteq> [] then ResumeKindToolApproval else []);
          c = \<lparr>cp_Version = ReActCheckpointVersion, cp_Context = rs_Context result, cp_Model = trim_space (rr_Model request), cp_Messages = rs_Messages result,
               cp_Steps = rs_Steps result, cp_PendingAction = pending, cp_PendingResumeKind = kind,
               cp_PendingToolContinuation = rs_PendingToolContinuation result, cp_PendingApprovalID = approvalID, cp_Usage = rs_Usage result\<rparr>
      in case ValidateRunCheckpoint c of Some err \<Rightarrow> Inl err | None \<Rightarrow> Inr c)"

section \<open>Counting tokens\<close>

text \<open>
  How many bytes the first rune of a string takes, as Go decodes UTF-8: an invalid byte is a rune of its own.
\<close>

definition continuation_byte :: "char \<Rightarrow> bool" where
  "continuation_byte = char_between (CHR 0x80) (CHR 0xBF)"

fun rune_width :: "string \<Rightarrow> nat" where
  "rune_width (a # b # c # d # s) =
     (if char_between (CHR 0xF0) (CHR 0xF4) a \<and> char_between (if a = CHR 0xF0 then CHR 0x90 else CHR 0x80) (if a = CHR 0xF4 then CHR 0x8F else CHR 0xBF) b
         \<and> continuation_byte c \<and> continuation_byte d then 4
      else rune_width [a, b, c])"
| "rune_width [a, b, c] =
     (if char_between (CHR 0xE0) (CHR 0xEF) a \<and> char_between (if a = CHR 0xE0 then CHR 0xA0 else CHR 0x80) (if a = CHR 0xED then CHR 0x9F else CHR 0xBF) b
         \<and> continuation_byte c then 3
      else rune_width [a, b])"
| "rune_width [a, b] = (if char_between (CHR 0xC2) (CHR 0xDF) a \<and> continuation_byte b then 2 else 1)"
| "rune_width _ = 1"

lemma rune_width_bounds: "1 \<le> rune_width s" "rune_width s \<le> 4" "s \<noteq> [] \<Longrightarrow> rune_width s \<le> length s"
  by (induction s rule: rune_width.induct) auto

text \<open>The numbers of ASCII runes and of other runes.\<close>

function count_runes :: "string \<Rightarrow> nat \<times> nat" where
  "count_runes [] = (0, 0)"
| "count_runes (c # s) =
     (let (ascii, nonASCII) = count_runes (drop (rune_width (c # s)) (c # s))
      in if c \<le> CHR 0x7F then (ascii + 1, nonASCII) else (ascii, nonASCII + 1))"
  by pat_completeness auto
termination
  by (relation "measure length") (use rune_width_bounds(1) in \<open>auto simp: less_Suc_eq_le, metis Suc_leI diff_Suc_less diff_le_mono2 le_trans not_less_eq_eq zero_less_Suc\<close>)

definition messageTokenOverhead :: int where "messageTokenOverhead = 4"

definition CountText :: "string \<Rightarrow> int" where
  "CountText text = (if text = [] then 0 else let (ascii, nonASCII) = count_runes text in (int ascii + 3) div 4 + int nonASCII)"

text \<open>\<open>raw_text\<close> gives the bytes of a raw message.\<close>

definition count_action :: "(raw_message \<Rightarrow> string) \<Rightarrow> Action \<Rightarrow> int" where
  "count_action raw_text a = 4 + CountText (ac_ID a) + CountText (ac_Type a) + CountText (ac_Name a) + CountText (ac_Content a) + CountText (raw_text (ac_Arguments a))"

definition CountMessages :: "(raw_message \<Rightarrow> string) \<Rightarrow> Message list \<Rightarrow> int" where
  "CountMessages raw_text messages = sum_list (map (\<lambda>m. messageTokenOverhead + CountText (ms_Role m) + CountText (ms_Name m) + CountText (ms_ToolCallID m)
     + CountText (ms_Content m) + sum_list (map (count_action raw_text) (ms_Actions m))) messages)"

definition EstimateRequest :: "(raw_message \<Rightarrow> string) \<Rightarrow> ModelRequest \<Rightarrow> TokenUsage" where
  "EstimateRequest raw_text request =
     (let n = CountMessages raw_text (mr_Messages request)
            + sum_list (map (\<lambda>t. 8 + CountText (td_Name t) + CountText (td_Description t) + CountText (raw_text (td_InputSchema t))) (mr_Tools request))
      in zero_usage\<lparr>tu_InputTokens := n, tu_TotalTokens := n, tu_Estimated := True\<rparr>)"

definition EstimateResponse :: "(raw_message \<Rightarrow> string) \<Rightarrow> ModelResponse \<Rightarrow> TokenUsage" where
  "EstimateResponse raw_text response =
     (let message = (if ms_Actions (mp_Message response) = [] \<and> mp_Actions response \<noteq> [] then (mp_Message response)\<lparr>ms_Actions := mp_Actions response\<rparr> else mp_Message response);
          n = CountMessages raw_text [message]
      in zero_usage\<lparr>tu_OutputTokens := n, tu_TotalTokens := n, tu_Estimated := True\<rparr>)"

lemma count_runes_length:
  "count_runes s = (a, n) \<Longrightarrow> a + n \<le> length s \<and> length s \<le> 4 * (a + n)"
proof (induction s arbitrary: a n rule: count_runes.induct)
  case (2 c s)
  let ?w = "rune_width (c # s)"
  obtain a' n' where r: "count_runes (drop ?w (c # s)) = (a', n')" by (cases "count_runes (drop ?w (c # s))")
  have "a' + n' \<le> length (drop ?w (c # s)) \<and> length (drop ?w (c # s)) \<le> 4 * (a' + n')" using "2.IH" r by simp
  moreover have "a + n = a' + n' + 1" using "2.prems" r by (auto split: if_splits)
  moreover have "1 \<le> ?w" "?w \<le> 4" "?w \<le> length (c # s)" using rune_width_bounds [of "c # s"] by auto
  ultimately show ?case by auto
qed simp

text \<open>A token estimate is between a sixteenth of the bytes and all of them.\<close>

lemma CountText_bounds: "int (length text) \<le> 16 * CountText text" "CountText text \<le> int (length text)"
proof -
  obtain a n where r: "count_runes text = (a, n)" by (cases "count_runes text")
  have l: "a + n \<le> length text" "length text \<le> 4 * (a + n)" using count_runes_length [OF r] by simp_all
  have a: "int a \<le> 4 * ((int a + 3) div 4)" by presburger
  have "(int a + 3) div 4 \<le> int a" by (cases a) (simp_all add: zdiv_int)
  then show "CountText text \<le> int (length text)" using l(1) r by (simp add: CountText_def)
  have "int (length text) \<le> 4 * (int a + int n)" using of_nat_mono [OF l(2), where 'a = int] by simp
  then have "int (length text) \<le> 16 * ((int a + 3) div 4 + int n)" using a of_nat_0_le_iff [where ?'a = int, of n] by (simp only: distrib_left)
  then show "int (length text) \<le> 16 * CountText text" using r by (simp add: CountText_def)
qed

end
