(* ===== verification/React_Runner.thy ===== *)
theory React_Runner
  imports Runtime_Types
begin

text \<open>
  The agent loop of \<^verbatim>\<open>src/internal/module/agent/runtime/runner.go\<close>: \<^verbatim>\<open>Run\<close> asks the model for actions, runs
  the tools and searches it asks for, and goes on until it has a final answer, a question to a human, a tool that
  waits for an approval, or an error; \<^verbatim>\<open>Resume\<close> takes a suspended run up again from its checkpoint.

  What the runner calls is a record \<open>run_env\<close> of functions: the interfaces \<^verbatim>\<open>ModelClient\<close>, \<^verbatim>\<open>ToolExecutor\<close> with
  its two optional extensions, \<^verbatim>\<open>RAGSearcher\<close>, \<^verbatim>\<open>TokenCounter\<close>, \<^verbatim>\<open>CostEstimator\<close> and \<^verbatim>\<open>AdmissionController\<close>
  (\<open>None\<close> for a nil or missing one), the two clocks, the state of the context and the formatting of \<^verbatim>\<open>%q\<close>.
  The outside answers as it likes: every answer may depend on the whole list of effects so far. The tracker of the
  workflow budget in the context is shared: \<open>en_others\<close> is what its other users do to it at each effect. A runner is
  never nil. Reading \<^verbatim>\<open>ctx.Err()\<close> twice in a row is one read, as an error of a context stays.
\<close>

section \<open>The outside\<close>

datatype run_effect =
    RClock
  | RTimer
  | RCtx "int option"
  | RAcquire AdmissionRequest bool
  | RReleasePermit AdmissionRequest
  | RReserve TokenUsage
  | RCommit TokenUsage
  | RReturn
  | RModel ModelRequest
  | RTool bool ToolCall
  | RResume ToolResumeRequest
  | RSearch RAGQuery

type_synonym run_log = "run_effect list"

record run_env =
  en_Complete :: "(run_log \<Rightarrow> ModelRequest \<Rightarrow> ModelResponse \<times> gerr option) option"
  en_Execute :: "(run_log \<Rightarrow> ToolCall \<Rightarrow> gerr + ToolResult) option"
  en_ExecuteApprovalGated :: "(run_log \<Rightarrow> ToolCall \<Rightarrow> gerr + ToolResult) option"
  en_ResumeTool :: "(run_log \<Rightarrow> ToolResumeRequest \<Rightarrow> gerr + ToolResult) option"
  en_Search :: "(run_log \<Rightarrow> RAGQuery \<Rightarrow> gerr + string) option"
  en_EstimateRequest :: "ModelRequest \<Rightarrow> TokenUsage"
  en_EstimateResponse :: "ModelResponse \<Rightarrow> TokenUsage"
  en_EstimateCost :: "(string \<Rightarrow> TokenUsage \<Rightarrow> gerr + CostEstimate) option"
  en_Acquire :: "(run_log \<Rightarrow> AdmissionRequest \<Rightarrow> gerr option) option"
  en_now :: "run_log \<Rightarrow> int"
  en_timer :: "run_log \<Rightarrow> int"
  en_ctx_Err :: "run_log \<Rightarrow> int option \<Rightarrow> gerr option"
  en_others :: "run_log \<Rightarrow> BudgetTracker \<Rightarrow> BudgetTracker"
  en_quote :: "string \<Rightarrow> string"
  en_unmarshal_error :: "raw_message \<Rightarrow> gerr"

record run_world =
  wd_log :: run_log
  wd_tracker :: "BudgetTracker option"

definition emit :: "run_env \<Rightarrow> run_effect \<Rightarrow> run_world \<Rightarrow> run_world" where
  "emit env e w = \<lparr>wd_log = wd_log w @ [e], wd_tracker = map_option (en_others env (wd_log w @ [e])) (wd_tracker w)\<rparr>"

definition clock :: "run_env \<Rightarrow> run_world \<Rightarrow> int \<times> run_world" where
  "clock env w = (en_now env (wd_log w), emit env RClock w)"

definition ctx_Err :: "run_env \<Rightarrow> int option \<Rightarrow> run_world \<Rightarrow> gerr option \<times> run_world" where
  "ctx_Err env deadline w = (en_ctx_Err env (wd_log w) deadline, emit env (RCtx deadline) w)"

definition run_error :: "string \<Rightarrow> int \<Rightarrow> string \<Rightarrow> string \<Rightarrow> string \<Rightarrow> gerr option \<Rightarrow> gerr" where
  "run_error code step actionID approvalID message cause =
     ERun \<lparr>re_Code = code, re_Step = step, re_ActionID = actionID, re_ApprovalID = approvalID, re_Message = message\<rparr> cause"

type_synonym run_outcome = "RunResult \<times> gerr option"

definition failResult :: "RunResult \<Rightarrow> gerr \<Rightarrow> run_outcome" where
  "failResult result err = (result\<lparr>rs_Status := RunStatusFailed\<rparr>, Some err)"

definition contextRunError :: "gerr \<Rightarrow> int \<Rightarrow> gerr" where
  "contextRunError err step = run_error (if errors_Is err EDeadline then ErrorTimeout else ErrorCanceled) step [] [] [] (Some err)"

definition invalidActionError :: "int \<Rightarrow> string \<Rightarrow> string \<Rightarrow> gerr" where
  "invalidActionError step actionID message = run_error ErrorInvalidAction step actionID [] message None"

text \<open>The admission of a run; a refusal has its error already as the runner reports it at the given step.\<close>

definition admission_request :: "RunRequest \<Rightarrow> AdmissionRequest" where
  "admission_request request = \<lparr>aq_UserID = rc_UserID (rr_Context request), aq_WorkflowID = rc_WorkflowID (rr_Context request)\<rparr>"

definition acquire :: "run_env \<Rightarrow> RunRequest \<Rightarrow> int \<Rightarrow> run_world \<Rightarrow> gerr option \<times> run_world" where
  "acquire env request step w = (case en_Acquire env of
      None \<Rightarrow> (None, w)
    | Some f \<Rightarrow>
        let err = f (wd_log w) (admission_request request)
        in (map_option (\<lambda>e. if errors_Is e ErrConcurrencyLimitExceeded then run_error ErrorConcurrencyLimit 0 [] [] [] (Some e) else contextRunError e step) err,
            emit env (RAcquire (admission_request request) (err = None)) w))"

definition release_run :: "run_env \<Rightarrow> RunRequest \<Rightarrow> run_world \<Rightarrow> run_world" where
  "release_run env request w = (if en_Acquire env = None then w else emit env (RReleasePermit (admission_request request)) w)"

text \<open>The deadline of the run context; \<open>None\<close> for a context that is only cancelled.\<close>

definition withBudgetContext :: "run_env \<Rightarrow> Budget \<Rightarrow> run_world \<Rightarrow> int option \<times> run_world" where
  "withBudgetContext env budget w =
     (if 0 < bg_Timeout budget
      then let timeoutDeadline = en_timer env (wd_log w) + bg_Timeout budget
           in (case bg_Deadline budget of
                 None \<Rightarrow> Some timeoutDeadline
               | Some d \<Rightarrow> Some (if timeoutDeadline < d then timeoutDeadline else d), emit env RTimer w)
      else (bg_Deadline budget, w))"

section \<open>Budgets\<close>

definition no_reservation :: UsageReservation where
  "no_reservation = \<lparr>ur_tracked = False, ur_estimate = zero_usage, ur_done = False\<rparr>"

definition reserveSharedBudget :: "run_env \<Rightarrow> Budget \<Rightarrow> string \<Rightarrow> TokenUsage \<Rightarrow> run_world \<Rightarrow> gerr + UsageReservation \<times> run_world" where
  "reserveSharedBudget env budget model requestEstimate w = (case wd_tracker w of
      None \<Rightarrow> Inr (no_reservation, w)
    | Some tracker \<Rightarrow>
        let est = (if 0 < bg_MaxOutputTokens budget
                   then requestEstimate\<lparr>tu_OutputTokens := bg_MaxOutputTokens budget, tu_TotalTokens := i64 (tu_InputTokens requestEstimate + bg_MaxOutputTokens budget)\<rparr>
                   else requestEstimate);
            priced = (if 0 < bg_MaxEstimatedCostMicros (bt_budget tracker)
                      then (case en_EstimateCost env of
                              None \<Rightarrow> Inl (run_error ErrorInvalidRequest 0 [] [] ''shared workflow cost budget requires a cost estimator'' None)
                            | Some f \<Rightarrow> (case f model est of
                                Inl err \<Rightarrow> Inl (run_error ErrorInvalidRequest 0 [] [] ''estimate shared workflow model cost'' (Some err))
                              | Inr cost \<Rightarrow> Inr (est\<lparr>tu_EstimatedCostMicros := ce_Micros cost, tu_CostEstimated := True, tu_PricingVersion := ce_PricingVersion cost\<rparr>)))
                      else Inr est)
        in bind_res priced (\<lambda>e. bind_res (ReserveUsage e tracker) (\<lambda>(r, t). Inr (r, emit env (RReserve e) (w\<lparr>wd_tracker := Some t\<rparr>)))))"

definition release_usage :: "run_env \<Rightarrow> UsageReservation \<Rightarrow> run_world \<Rightarrow> run_world" where
  "release_usage env r w = (case wd_tracker w of
      None \<Rightarrow> w
    | Some t \<Rightarrow> if ur_tracked r then emit env RReturn (w\<lparr>wd_tracker := Some (snd (reservation_Release r t))\<rparr>) else w)"

definition commit_usage :: "run_env \<Rightarrow> UsageReservation \<Rightarrow> TokenUsage \<Rightarrow> run_world \<Rightarrow> gerr option \<times> run_world" where
  "commit_usage env r usage w = (case wd_tracker w of
      None \<Rightarrow> (None, w)
    | Some t \<Rightarrow> if ur_tracked r then let (err, r', t') = reservation_Commit usage r t in (err, emit env (RCommit usage) (w\<lparr>wd_tracker := Some t'\<rparr>)) else (None, w))"

definition admitModelCall :: "Budget \<Rightarrow> TokenUsage \<Rightarrow> TokenUsage \<Rightarrow> int \<Rightarrow> gerr option" where
  "admitModelCall budget consumed estimated step =
     (if 0 < bg_MaxInputTokens budget \<and> bg_MaxInputTokens budget < tu_InputTokens estimated
      then Some (budgetExceededError step ''input'' (tu_InputTokens estimated) (bg_MaxInputTokens budget))
      else if bg_MaxTotalTokens budget \<le> 0 then None
      else let base = i64 (tu_TotalTokens consumed + tu_InputTokens estimated);
               reserved = (if 0 < bg_MaxOutputTokens budget then i64 (base + bg_MaxOutputTokens budget) else base)
           in if bg_MaxTotalTokens budget < reserved
              then Some (budgetExceededError step ''run total reservation'' reserved (bg_MaxTotalTokens budget)) else None)"

definition enforceCompletedUsage :: "Budget \<Rightarrow> TokenUsage \<Rightarrow> TokenUsage \<Rightarrow> int \<Rightarrow> gerr option" where
  "enforceCompletedUsage budget consumed current step =
     (let total = i64 (tu_TotalTokens consumed + tu_TotalTokens current);
          cost = i64 (tu_EstimatedCostMicros consumed + tu_EstimatedCostMicros current)
      in if 0 < bg_MaxOutputTokens budget \<and> bg_MaxOutputTokens budget < tu_OutputTokens current
         then Some (budgetExceededError step ''output'' (tu_OutputTokens current) (bg_MaxOutputTokens budget))
         else if 0 < bg_MaxTotalTokens budget \<and> bg_MaxTotalTokens budget < total
         then Some (budgetExceededError step ''run total'' total (bg_MaxTotalTokens budget))
         else if 0 < bg_MaxEstimatedCostMicros budget \<and> bg_MaxEstimatedCostMicros budget < cost
         then Some (costBudgetExceededError step cost (bg_MaxEstimatedCostMicros budget))
         else None)"

definition admitModelCost :: "run_env \<Rightarrow> Budget \<Rightarrow> string \<Rightarrow> TokenUsage \<Rightarrow> TokenUsage \<Rightarrow> int \<Rightarrow> gerr option" where
  "admitModelCost env budget model consumed requestEstimate step =
     (if bg_MaxEstimatedCostMicros budget \<le> 0 then None
      else case en_EstimateCost env of
        None \<Rightarrow> Some (run_error ErrorInvalidRequest step [] [] ''cost budget requires a cost estimator'' None)
      | Some f \<Rightarrow>
          if bg_MaxOutputTokens budget \<le> 0 then Some (run_error ErrorInvalidRequest step [] [] ''cost budget requires max output tokens'' None)
          else (case f model (zero_usage\<lparr>tu_InputTokens := tu_InputTokens requestEstimate, tu_OutputTokens := bg_MaxOutputTokens budget,
                  tu_TotalTokens := i64 (tu_InputTokens requestEstimate + bg_MaxOutputTokens budget), tu_Estimated := True\<rparr>) of
              Inl err \<Rightarrow> Some (run_error ErrorInvalidRequest step [] [] ''estimate model cost reservation'' (Some err))
            | Inr est \<Rightarrow>
                let cost = i64 (tu_EstimatedCostMicros consumed + ce_Micros est)
                in if bg_MaxEstimatedCostMicros budget < cost then Some (costBudgetExceededError step cost (bg_MaxEstimatedCostMicros budget)) else None))"

definition resolveCompletedCost :: "run_env \<Rightarrow> string \<Rightarrow> ModelResponse \<Rightarrow> TokenUsage \<Rightarrow> gerr + TokenUsage" where
  "resolveCompletedCost env requestedModel response usage =
     (if 0 < tu_EstimatedCostMicros usage then Inr usage
      else case en_EstimateCost env of
        None \<Rightarrow> Inr usage
      | Some f \<Rightarrow>
          let trimmed = trim_space (mp_Model response); modelName = (if trimmed = [] then requestedModel else trimmed)
          in bind_res (f modelName usage) (\<lambda>est. Inr (usage\<lparr>tu_EstimatedCostMicros := ce_Micros est, tu_CostEstimated := tu_Estimated usage,
               tu_PricingVersion := ce_PricingVersion est\<rparr>)))"

definition resolvedModelUsage :: "run_env \<Rightarrow> TokenUsage \<Rightarrow> ModelResponse \<Rightarrow> TokenUsage" where
  "resolvedModelUsage env requestEstimate response =
     (let usage = mp_Usage response
      in if 0 < tu_InputTokens usage \<or> 0 < tu_OutputTokens usage \<or> 0 < tu_TotalTokens usage
         then if tu_TotalTokens usage = 0 then usage\<lparr>tu_TotalTokens := i64 (tu_InputTokens usage + tu_OutputTokens usage)\<rparr> else usage
         else let i = tu_InputTokens requestEstimate; out = tu_OutputTokens (en_EstimateResponse env response)
              in zero_usage\<lparr>tu_InputTokens := i, tu_OutputTokens := out, tu_TotalTokens := i64 (i + out), tu_Estimated := True\<rparr>)"

section \<open>Actions\<close>

text \<open>A catalog has the trimmed names as keys, each once.\<close>

fun add_tools :: "(string \<Rightarrow> string) \<Rightarrow> ToolDefinition list \<Rightarrow> (string \<times> ToolDefinition) list \<Rightarrow> gerr + (string \<times> ToolDefinition) list" where
  "add_tools quote [] catalog = Inr catalog"
| "add_tools quote (tool # tools) catalog =
     (let name = trim_space (td_Name tool)
      in if name = [] then Inl (run_error ErrorInvalidRequest 0 [] [] ''tool name is required'' None)
         else if map_of catalog name \<noteq> None then Inl (run_error ErrorInvalidRequest 0 [] [] (''duplicate tool '' @ quote name) None)
         else add_tools quote tools (catalog @ [(name, tool\<lparr>td_Name := name\<rparr>)]))"

definition buildToolCatalog :: "(string \<Rightarrow> string) \<Rightarrow> ToolDefinition list \<Rightarrow> gerr + (string \<times> ToolDefinition) list" where
  "buildToolCatalog quote tools = add_tools quote tools []"

definition normalize_action :: "run_env \<Rightarrow> ModelResponse \<Rightarrow> int \<Rightarrow> nat \<Rightarrow> Action \<Rightarrow> gerr + Action" where
  "normalize_action env response step index action =
     (let a = (if ac_ID action = [] then action\<lparr>ac_ID := ''step-'' @ show_int step @ ''-action-'' @ show_nat (index + 1)\<rparr> else action)
      in if ac_Type a = ActionFinalAnswer
         then let a1 = (if ac_Content a = [] then a\<lparr>ac_Content := ms_Content (mp_Message response)\<rparr> else a)
              in if trim_space (ac_Content a1) = [] then Inl (invalidActionError step (ac_ID a1) ''final answer is empty'') else Inr a1
         else if ac_Type a = ActionAskHuman
         then if trim_space (ac_Content a) = [] then Inl (invalidActionError step (ac_ID a) ''human question is empty'') else Inr a
         else if ac_Type a = ActionToolCall \<or> ac_Type a = ActionRAGSearch
         then if trim_space (ac_Name a) = [] then Inl (invalidActionError step (ac_ID a) ''action name is required'')
              else let a1 = (if ac_Arguments a = RawEmpty then a\<lparr>ac_Arguments := RawJSON (GMap [])\<rparr> else a)
                   in (case unmarshal_object (ac_Arguments a1) of
                         None \<Rightarrow> Inl (run_error ErrorInvalidAction step (ac_ID a1) [] ''arguments must be a valid JSON object'' (Some (en_unmarshal_error env (ac_Arguments a1))))
                       | Some kvs \<Rightarrow> Inr a1)
         else Inl (invalidActionError step (ac_ID a) (''unknown action type '' @ en_quote env (ac_Type a))))"

fun normalize_from :: "run_env \<Rightarrow> ModelResponse \<Rightarrow> int \<Rightarrow> nat \<Rightarrow> Action list \<Rightarrow> gerr + Action list" where
  "normalize_from env response step index [] = Inr []"
| "normalize_from env response step index (a # as) =
     bind_res (normalize_action env response step index a) (\<lambda>b.
     bind_res (normalize_from env response step (Suc index) as) (\<lambda>bs. Inr (b # bs)))"

definition terminal_action :: "Action \<Rightarrow> bool" where
  "terminal_action a \<longleftrightarrow> ac_Type a = ActionFinalAnswer \<or> ac_Type a = ActionAskHuman"

text \<open>The actions, and the response with the slices the normalised actions were written into.\<close>

definition normalizeActions :: "run_env \<Rightarrow> ModelResponse \<Rightarrow> int \<Rightarrow> gerr + Action list \<times> ModelResponse" where
  "normalizeActions env response step =
     (let message = mp_Message response;
          actions = (if mp_Actions response \<noteq> [] then mp_Actions response
                     else if ms_Actions message \<noteq> [] then ms_Actions message
                     else if trim_space (ms_Content message) \<noteq> [] then [zero_action\<lparr>ac_Type := ActionFinalAnswer, ac_Content := ms_Content message\<rparr>]
                     else [])
      in if actions = [] then Inl (run_error ErrorEmptyResponse step [] [] ''model returned no content or actions'' None)
         else bind_res (normalize_from env response step 0 actions) (\<lambda>as.
           if list_ex terminal_action as \<and> length as \<noteq> 1
           then Inl (run_error ErrorInvalidAction step [] [] ''terminal actions cannot be combined with other actions'' None)
           else Inr (as, if mp_Actions response \<noteq> []
                         then (if mp_shared response then response\<lparr>mp_Actions := as, mp_Message := message\<lparr>ms_Actions := as\<rparr>\<rparr> else response\<lparr>mp_Actions := as\<rparr>)
                         else if ms_Actions message \<noteq> [] then response\<lparr>mp_Message := message\<lparr>ms_Actions := as\<rparr>\<rparr>
                         else response)))"

definition tool_call :: "RunContext \<Rightarrow> Action \<Rightarrow> ToolCall" where
  "tool_call runContext action = \<lparr>tl_RunContext = runContext, tl_ActionID = ac_ID action, tl_Name = ac_Name action, tl_Arguments = ac_Arguments action\<rparr>"

definition observation :: "Action \<Rightarrow> bool \<Rightarrow> Observation" where
  "observation action isError = \<lparr>ob_ActionID = ac_ID action, ob_Name = ac_Name action, ob_Content = [], ob_StructuredContent = RawEmpty, ob_IsError = isError\<rparr>"

text \<open>A failed call: an error of the context is reported before the error of the call.\<close>

definition failed_call :: "run_env \<Rightarrow> int option \<Rightarrow> Action \<Rightarrow> int \<Rightarrow> gerr \<Rightarrow> run_world \<Rightarrow> (Observation \<times> gerr option) \<times> run_world" where
  "failed_call env deadline action step err w =
     (let (cerr, w1) = ctx_Err env deadline w
      in ((observation action True, Some (case cerr of Some c \<Rightarrow> contextRunError c step | None \<Rightarrow> err)), w1))"

definition execute_tool :: "run_env \<Rightarrow> int option \<Rightarrow> RunContext \<Rightarrow> (string \<times> ToolDefinition) list \<Rightarrow> Action \<Rightarrow> int \<Rightarrow> run_world
    \<Rightarrow> (Observation \<times> gerr option) \<times> run_world" where
  "execute_tool env deadline runContext toolCatalog action step w =
     (let refuse = (\<lambda>code message cause. ((observation action True, Some (run_error code step (ac_ID action) [] message cause)), w))
      in case map_of toolCatalog (ac_Name action) of
           None \<Rightarrow> refuse ErrorUnknownTool (''tool '' @ en_quote env (ac_Name action) @ '' is not available'') None
         | Some definition \<Rightarrow>
             (case en_Execute env of
                None \<Rightarrow> refuse ErrorUnsupported ''tool executor is not configured'' None
              | Some execute \<Rightarrow>
                  let gated = tool_ApprovalRequired definition
                  in (case (if gated then en_ExecuteApprovalGated env else Some execute) of
                        None \<Rightarrow> refuse ErrorApprovalRequired (''tool '' @ en_quote env (ac_Name action) @ '' requires a governed approval executor'') (Some ErrApprovalRequired)
                      | Some f \<Rightarrow>
                          let call = tool_call runContext action; w1 = emit env (RTool gated call) w
                          in (case f (wd_log w) call of
                                Inl err \<Rightarrow> failed_call env deadline action step
                                  (if HasErrorCode err ErrorApprovalRequired \<or> errors_Is err ErrApprovalRequired
                                   then run_error ErrorApprovalRequired step (ac_ID action) (ApprovalIDFromError err) (''tool '' @ en_quote env (ac_Name action) @ '' requires approval'') (Some err)
                                   else run_error ErrorTool step (ac_ID action) [] [] (Some err)) w1
                              | Inr result \<Rightarrow>
                                  (((observation action False)\<lparr>ob_Content := tr_Content result, ob_StructuredContent := tr_StructuredContent result\<rparr>, None), w1)))))"

definition execute_search :: "run_env \<Rightarrow> int option \<Rightarrow> RunContext \<Rightarrow> Action \<Rightarrow> int \<Rightarrow> run_world \<Rightarrow> (Observation \<times> gerr option) \<times> run_world" where
  "execute_search env deadline runContext action step w = (case en_Search env of
      None \<Rightarrow> ((observation action True, Some (run_error ErrorUnsupported step (ac_ID action) [] ''RAG searcher is not configured'' None)), w)
    | Some f \<Rightarrow>
        let query = \<lparr>qy_RunContext = runContext, qy_ActionID = ac_ID action, qy_Name = ac_Name action, qy_Arguments = ac_Arguments action\<rparr>;
            w1 = emit env (RSearch query) w
        in (case f (wd_log w) query of
              Inl err \<Rightarrow> failed_call env deadline action step (run_error ErrorRAG step (ac_ID action) [] [] (Some err)) w1
            | Inr content \<Rightarrow> (((observation action False)\<lparr>ob_Content := content\<rparr>, None), w1)))"

definition executeAction :: "run_env \<Rightarrow> int option \<Rightarrow> RunContext \<Rightarrow> (string \<times> ToolDefinition) list \<Rightarrow> Action \<Rightarrow> int \<Rightarrow> run_world
    \<Rightarrow> (Observation \<times> gerr option) \<times> run_world" where
  "executeAction env deadline runContext toolCatalog action step w =
     (let (cerr, w1) = ctx_Err env deadline w
      in case cerr of
           Some err \<Rightarrow> ((observation action True, Some (contextRunError err step)), w1)
         | None \<Rightarrow>
             if ac_Type action = ActionToolCall then execute_tool env deadline runContext toolCatalog action step w1
             else if ac_Type action = ActionRAGSearch then execute_search env deadline runContext action step w1
             else ((observation action True,
                    Some (run_error ErrorUnsupported step (ac_ID action) [] (''action type '' @ en_quote env (ac_Type action) @ '' cannot be executed'') None)), w1))"

definition tool_message :: "Action \<Rightarrow> string \<Rightarrow> Message" where
  "tool_message action content = \<lparr>ms_Role = RoleTool, ms_Content = content, ms_Name = ac_Name action, ms_ToolCallID = ac_ID action, ms_Actions = []\<rparr>"

text \<open>
  The loop over the actions of a step, which \<^verbatim>\<open>runFromState\<close> and the two resume functions have alike: every
  observation is added to those of the step, every result to the messages; the first action that fails stops it.
\<close>

fun run_actions :: "run_env \<Rightarrow> int option \<Rightarrow> RunContext \<Rightarrow> (string \<times> ToolDefinition) list \<Rightarrow> int \<Rightarrow> Action list
    \<Rightarrow> Observation list \<Rightarrow> Message list \<Rightarrow> run_world \<Rightarrow> (Action \<times> gerr) option \<times> Observation list \<times> Message list \<times> run_world" where
  "run_actions env deadline runContext catalog step [] obs msgs w = (None, obs, msgs, w)"
| "run_actions env deadline runContext catalog step (action # actions) obs msgs w =
     (case executeAction env deadline runContext catalog action step w of
        ((b, Some err), w1) \<Rightarrow> (Some (action, err), obs @ [b], msgs, w1)
      | ((b, None), w1) \<Rightarrow>
          run_actions env deadline runContext catalog step actions (obs @ [b]) (msgs @ [tool_message action (ob_Content b)]) w1)"

definition suspendForToolContinuation :: "RunResult \<Rightarrow> Action \<Rightarrow> ToolContinuation \<Rightarrow> int \<Rightarrow> run_outcome" where
  "suspendForToolContinuation result action continuation stepIndex =
     (let r = result\<lparr>rs_PendingAction := Some action, rs_PendingToolContinuation := Some continuation\<rparr>
      in if tc_ResumeKind continuation = ResumeKindDelegatedToolApproval
         then let approvalID = trim_space (tc_ApprovalID continuation)
              in (r\<lparr>rs_Status := RunStatusApprovalRequired, rs_PendingResumeKind := ResumeKindDelegatedToolApproval, rs_ApprovalID := approvalID\<rparr>,
                  Some (run_error ErrorApprovalRequired stepIndex (ac_ID action) approvalID ''delegated tool approval required'' (Some ErrApprovalRequired)))
         else (r\<lparr>rs_Status := RunStatusAwaitingHuman, rs_PendingResumeKind := ResumeKindHumanResponse\<rparr>, None))"

text \<open>What an action that stopped the loop makes of the run.\<close>

definition stop_at :: "RunResult \<Rightarrow> Action \<Rightarrow> gerr \<Rightarrow> int \<Rightarrow> run_outcome" where
  "stop_at result action err step = (case ToolContinuationFromError err of
      Some continuation \<Rightarrow> suspendForToolContinuation result action continuation step
    | None \<Rightarrow>
        if HasErrorCode err ErrorApprovalRequired
        then (result\<lparr>rs_Status := RunStatusApprovalRequired, rs_PendingAction := Some action, rs_PendingResumeKind := ResumeKindToolApproval,
                rs_ApprovalID := ApprovalIDFromError err\<rparr>, Some err)
        else failResult result err)"

section \<open>The loop\<close>

definition DefaultMaxSteps :: int where "DefaultMaxSteps = 5"
definition MaxAllowedSteps :: int where "MaxAllowedSteps = 64"

definition finalStepSystemInstruction :: string where
  "finalStepSystemInstruction = ''The tool execution phase is complete. Do not request or call another tool. ''
     @ ''Using only the existing messages and observations, return the final answer now. ''
     @ ''Never invent missing identities, usernames, URLs, timestamps, metrics, source fields, or full content. ''
     @ ''If the available evidence is insufficient or a requested field is absent, state that plainly without calling a tool.''"

definition new_step :: "RunRequest \<Rightarrow> int \<Rightarrow> int \<Rightarrow> RunStep" where
  "new_step request stepIndex startedAt = \<lparr>st_Index = stepIndex, st_RoleID = rc_RoleID (rr_Context request), st_StartedAt = startedAt, st_FinishedAt = 0,
     st_Model = [], st_Provider = [], st_Actions = [], st_Observations = [], st_Usage = zero_usage, st_ModelRouting = None\<rparr>"

definition finish_step :: "run_env \<Rightarrow> RunResult \<Rightarrow> RunStep \<Rightarrow> run_world \<Rightarrow> RunResult \<times> run_world" where
  "finish_step env result step w =
     (let (t, w1) = clock env w in (result\<lparr>rs_Steps := rs_Steps result @ [step\<lparr>st_FinishedAt := t\<rparr>]\<rparr>, w1))"

definition model_request :: "RunRequest \<Rightarrow> (string \<times> ToolDefinition) list \<Rightarrow> int \<Rightarrow> int \<Rightarrow> RunResult \<Rightarrow> ModelRequest" where
  "model_request request toolCatalog maxSteps stepIndex result =
     (let m = \<lparr>mr_Context = rr_Context request, mr_StepIndex = stepIndex, mr_Model = rr_Model request, mr_Messages = rs_Messages result, mr_Tools = rr_Tools request,
               mr_ToolChoice = (if stepIndex = 1 then rr_InitialToolChoice request else []), mr_MaxOutputTokens = bg_MaxOutputTokens (rc_Budget (rr_Context request))\<rparr>
      in if stepIndex = maxSteps \<and> 0 < length toolCatalog
         then m\<lparr>mr_Tools := [], mr_ToolChoice := [],
                mr_Messages := mr_Messages m @ [\<lparr>ms_Role = RoleSystem, ms_Content = finalStepSystemInstruction, ms_Name = [], ms_ToolCallID = [], ms_Actions = []\<rparr>]\<rparr>
         else m)"

text \<open>The first part of a step: the checks and the reservation before the model is called.\<close>

definition admit_step :: "run_env \<Rightarrow> RunRequest \<Rightarrow> ModelRequest \<Rightarrow> int \<Rightarrow> RunResult \<Rightarrow> run_world
    \<Rightarrow> gerr + (TokenUsage \<times> UsageReservation) \<times> run_world" where
  "admit_step env request modelRequest stepIndex result w =
     (let budget = rc_Budget (rr_Context request); est = en_EstimateRequest env modelRequest
      in case admitModelCall budget (rs_Usage result) est stepIndex of Some err \<Rightarrow> Inl err | None \<Rightarrow>
         (case admitModelCost env budget (rr_Model request) (rs_Usage result) est stepIndex of Some err \<Rightarrow> Inl err | None \<Rightarrow>
          bind_res (reserveSharedBudget env budget (rr_Model request) est w) (\<lambda>(r, w1). Inr ((est, r), w1))))"

text \<open>The second part: the call, and the settlement of what it cost.\<close>

definition charge_failed :: "run_env \<Rightarrow> RunResult \<Rightarrow> RunStep \<Rightarrow> gerr \<Rightarrow> run_world \<Rightarrow> run_outcome \<times> run_world" where
  "charge_failed env result step err w =
     (let (result1, w1) = finish_step env result step w
      in (failResult (result1\<lparr>rs_Usage := usage_Add (rs_Usage result1) (st_Usage step)\<rparr>) err, w1))"

definition model_failed :: "run_env \<Rightarrow> int option \<Rightarrow> RunResult \<Rightarrow> RunStep \<Rightarrow> ModelResponse \<Rightarrow> gerr \<Rightarrow> run_world \<Rightarrow> run_outcome \<times> run_world" where
  "model_failed env deadline result step response err w =
     (let (result1, w1) = (case mp_ModelRouting response of
                             None \<Rightarrow> (result, w)
                           | Some trace \<Rightarrow> finish_step env result (step\<lparr>st_ModelRouting := Some trace\<rparr>) w);
          (cerr, w2) = ctx_Err env deadline w1
      in (failResult result1 (case cerr of Some c \<Rightarrow> contextRunError c (st_Index step) | None \<Rightarrow> run_error ErrorModel (st_Index step) [] [] [] (Some err)), w2))"

definition assistant_message :: "ModelResponse \<Rightarrow> Action list \<Rightarrow> Message" where
  "assistant_message response actions =
     (let m = (mp_Message response)\<lparr>ms_Role := RoleAssistant, ms_Actions := actions\<rparr>
      in if ac_Type (hd actions) = ActionFinalAnswer \<and> trim_space (ms_Content m) = [] then m\<lparr>ms_Content := ac_Content (hd actions)\<rparr> else m)"

definition settle_response :: "run_env \<Rightarrow> RunRequest \<Rightarrow> RunResult \<Rightarrow> RunStep \<Rightarrow> TokenUsage \<Rightarrow> UsageReservation \<Rightarrow> ModelResponse \<Rightarrow> run_world
    \<Rightarrow> (run_outcome + RunStep \<times> RunResult) \<times> run_world" where
  "settle_response env request result step est reservation response0 w =
     (case normalizeActions env response0 (st_Index step) of
        Inl err \<Rightarrow> (Inl (failResult result err), release_usage env reservation w)
      | Inr (actions, response) \<Rightarrow>
          let step1 = step\<lparr>st_ModelRouting := mp_ModelRouting response, st_Model := mp_Model response, st_Provider := mp_Provider response, st_Actions := actions,
                           st_Usage := resolvedModelUsage env est response\<rparr>
          in (case resolveCompletedCost env (rr_Model request) response (st_Usage step1) of
                Inl err \<Rightarrow>
                  let (out, w1) = charge_failed env result step1 (run_error ErrorModel (st_Index step) [] [] ''estimate model cost'' (Some err)) (release_usage env reservation w)
                  in (Inl out, w1)
              | Inr usage \<Rightarrow>
                  let step2 = step1\<lparr>st_Usage := usage\<rparr>; (cerr, w1) = commit_usage env reservation usage w
                  in (case (case cerr of Some err \<Rightarrow> Some err | None \<Rightarrow> enforceCompletedUsage (rc_Budget (rr_Context request)) (rs_Usage result) usage (st_Index step)) of
                        Some err \<Rightarrow> let (out, w2) = charge_failed env result step2 err w1 in (Inl out, w2)
                      | None \<Rightarrow> (Inr (step2, result\<lparr>rs_Usage := usage_Add (rs_Usage result) usage, rs_Messages := rs_Messages result @ [assistant_message response actions]\<rparr>), w1))))"

text \<open>The last part: what the actions ask for.\<close>

definition act :: "run_env \<Rightarrow> int option \<Rightarrow> RunRequest \<Rightarrow> (string \<times> ToolDefinition) list \<Rightarrow> int \<Rightarrow> RunStep \<Rightarrow> RunResult \<Rightarrow> run_world
    \<Rightarrow> (run_outcome + RunResult) \<times> run_world" where
  "act env deadline request toolCatalog maxSteps step result w =
     (let actions = st_Actions step; first = hd actions
      in if ac_Type first = ActionFinalAnswer
         then let (result1, w1) = finish_step env result step w
              in (Inl (result1\<lparr>rs_Status := RunStatusCompleted, rs_FinalAnswer := ac_Content first\<rparr>, None), w1)
         else if ac_Type first = ActionAskHuman
         then let (result1, w1) = finish_step env result step w
              in (Inl (result1\<lparr>rs_Status := RunStatusAwaitingHuman, rs_PendingAction := Some first, rs_PendingResumeKind := ResumeKindHumanResponse\<rparr>, None), w1)
         else if st_Index step = maxSteps
         then let (result1, w1) = finish_step env result step w
              in (Inl (failResult result1 (run_error ErrorMaxSteps maxSteps [] [] (''run returned a non-terminal action on reserved final step '' @ show_int maxSteps) None)), w1)
         else let (stop, obs, msgs, w1) = run_actions env deadline (rr_Context request) toolCatalog (st_Index step) actions (st_Observations step) (rs_Messages result) w;
                  (result1, w2) = finish_step env (result\<lparr>rs_Messages := msgs\<rparr>) (step\<lparr>st_Observations := obs\<rparr>) w1
              in (case stop of
                    Some (action, err) \<Rightarrow> (Inl (stop_at result1 action err (st_Index step)), w2)
                  | None \<Rightarrow> (Inr result1, w2)))"

definition run_step :: "run_env \<Rightarrow> (run_log \<Rightarrow> ModelRequest \<Rightarrow> ModelResponse \<times> gerr option) \<Rightarrow> int option \<Rightarrow> RunRequest \<Rightarrow> (string \<times> ToolDefinition) list
    \<Rightarrow> int \<Rightarrow> int \<Rightarrow> RunResult \<Rightarrow> run_world \<Rightarrow> (run_outcome + RunResult) \<times> run_world" where
  "run_step env answer deadline request toolCatalog maxSteps stepIndex result w =
     (let (cerr, w1) = ctx_Err env deadline w
      in case cerr of
           Some err \<Rightarrow> (Inl (failResult result (contextRunError err stepIndex)), w1)
         | None \<Rightarrow>
             let (startedAt, w2) = clock env w1; step = new_step request stepIndex startedAt; modelRequest = model_request request toolCatalog maxSteps stepIndex result
             in (case admit_step env request modelRequest stepIndex result w2 of
                   Inl err \<Rightarrow> (Inl (failResult result err), w2)
                 | Inr ((est, reservation), w3) \<Rightarrow>
                     let (response, merr) = answer (wd_log w3) modelRequest; w4 = emit env (RModel modelRequest) w3
                     in (case merr of
                           Some err \<Rightarrow> let (out, w5) = model_failed env deadline result step response err (release_usage env reservation w4) in (Inl out, w5)
                         | None \<Rightarrow>
                             (case settle_response env request result step est reservation response w4 of
                                (Inl out, w5) \<Rightarrow> (Inl out, w5)
                              | (Inr (step1, result1), w5) \<Rightarrow> act env deadline request toolCatalog maxSteps step1 result1 w5))))"

fun run_loop :: "run_env \<Rightarrow> (run_log \<Rightarrow> ModelRequest \<Rightarrow> ModelResponse \<times> gerr option) \<Rightarrow> int option \<Rightarrow> RunRequest \<Rightarrow> (string \<times> ToolDefinition) list
    \<Rightarrow> int \<Rightarrow> nat \<Rightarrow> int \<Rightarrow> RunResult \<Rightarrow> run_world \<Rightarrow> run_outcome \<times> run_world" where
  "run_loop env answer deadline request toolCatalog maxSteps 0 stepIndex result w =
     (failResult result (run_error ErrorMaxSteps maxSteps [] [] (''run did not reach a terminal action within '' @ show_int maxSteps @ '' steps'') None), w)"
| "run_loop env answer deadline request toolCatalog maxSteps (Suc n) stepIndex result w =
     (case run_step env answer deadline request toolCatalog maxSteps stepIndex result w of
        (Inl out, w1) \<Rightarrow> (out, w1)
      | (Inr result1, w1) \<Rightarrow> run_loop env answer deadline request toolCatalog maxSteps n (stepIndex + 1) result1 w1)"

definition effective_max_steps :: "Budget \<Rightarrow> int" where
  "effective_max_steps budget = (if bg_MaxSteps budget = 0 then DefaultMaxSteps else bg_MaxSteps budget)"

text \<open>The checks of a request: the catalog, or the error.\<close>

definition check_request :: "run_env \<Rightarrow> RunRequest \<Rightarrow> int \<Rightarrow> int \<Rightarrow> gerr + (string \<times> ToolDefinition) list" where
  "check_request env request maxSteps startStep =
     (if startStep < 1 then Inl (run_error ErrorInvalidRequest 0 [] [] ''invalid resume step'' None)
      else bind_res (buildToolCatalog (en_quote env) (rr_Tools request)) (\<lambda>toolCatalog.
        if \<not> ToolChoice_Valid (rr_InitialToolChoice request)
        then Inl (run_error ErrorInvalidRequest 0 [] [] (''invalid initial tool choice '' @ en_quote env (rr_InitialToolChoice request)) None)
        else if rr_InitialToolChoice request = ToolChoiceRequired \<and> length toolCatalog = 0
        then Inl (run_error ErrorInvalidRequest 0 [] [] ''required initial tool choice needs at least one tool'' None)
        else if rr_InitialToolChoice request = ToolChoiceRequired \<and> maxSteps < 2
        then Inl (run_error ErrorInvalidRequest 0 [] [] ''required initial tool choice needs at least two steps'' None)
        else Inr toolCatalog))"

definition with_max_steps :: "int \<Rightarrow> RunContext \<Rightarrow> RunContext" where
  "with_max_steps maxSteps c = c\<lparr>rc_Budget := (rc_Budget c)\<lparr>bg_MaxSteps := maxSteps\<rparr>\<rparr>"

definition runFromState :: "run_env \<Rightarrow> RunRequest \<Rightarrow> RunResult \<Rightarrow> int \<Rightarrow> run_world \<Rightarrow> run_outcome \<times> run_world" where
  "runFromState env request0 result0 startStep w = (case en_Complete env of
      None \<Rightarrow> (failResult result0 (run_error ErrorInvalidRequest 0 [] [] ''model client is required'' None), w)
    | Some answer \<Rightarrow>
        let maxSteps = effective_max_steps (rc_Budget (rr_Context request0))
        in if maxSteps < 1 \<or> MaxAllowedSteps < maxSteps
           then (failResult result0 (run_error ErrorInvalidRequest 0 [] [] (''max steps must be between 1 and '' @ show_int MaxAllowedSteps) None), w)
           else
             let request = request0\<lparr>rr_Context := with_max_steps maxSteps (rr_Context request0)\<rparr>; result = result0\<lparr>rs_Context := rr_Context request\<rparr>
             in (case check_request env request maxSteps startStep of
                   Inl err \<Rightarrow> (failResult result err, w)
                 | Inr toolCatalog \<Rightarrow>
                     (case acquire env request 0 w of
                        (Some err, w1) \<Rightarrow> (failResult result err, w1)
                      | (None, w1) \<Rightarrow>
                          let (deadline, w2) = withBudgetContext env (rc_Budget (rr_Context request)) w1;
                              (out, w3) = run_loop env answer deadline request toolCatalog maxSteps (nat (maxSteps - startStep + 1)) startStep result w2
                          in (out, release_run env request w3))))"

text \<open>Times are nanoseconds since Go's zero time, which is 0.\<close>

definition new_result :: "RunContext \<Rightarrow> Message list \<Rightarrow> RunStep list \<Rightarrow> TokenUsage \<Rightarrow> RunResult" where
  "new_result c msgs steps usage = \<lparr>rs_Context = c, rs_Status = RunStatusRunning, rs_FinalAnswer = [], rs_Messages = msgs, rs_Steps = steps, rs_PendingAction = None,
     rs_PendingResumeKind = [], rs_PendingToolContinuation = None, rs_ApprovalID = [], rs_Usage = usage\<rparr>"

definition Run :: "run_env \<Rightarrow> RunRequest \<Rightarrow> run_world \<Rightarrow> run_outcome \<times> run_world" where
  "Run env request w =
     (let (c, w1) = (if rc_StartedAt (rr_Context request) = 0
                     then let (t, w') = clock env w in ((rr_Context request)\<lparr>rc_StartedAt := t\<rparr>, w')
                     else (rr_Context request, w))
      in runFromState env (request\<lparr>rr_Context := c\<rparr>) (new_result c (rr_Messages request) [] zero_usage) 1 w1)"

section \<open>Resuming\<close>

definition observationsWithoutAction :: "Observation list \<Rightarrow> string \<Rightarrow> Observation list" where
  "observationsWithoutAction obs actionID = filter (\<lambda>b. ob_ActionID b \<noteq> actionID) obs"

text \<open>The actions from the first one with the identifier and type of the pending action.\<close>

definition actions_from :: "Action \<Rightarrow> Action list \<Rightarrow> Action list" where
  "actions_from pending actions = dropWhile (\<lambda>a. \<not> (ac_ID a = ac_ID pending \<and> ac_Type a = ac_Type pending)) actions"

text \<open>The last step with new observations, finished now; the code writes through a pointer to it.\<close>

definition refinish_step :: "run_env \<Rightarrow> RunResult \<Rightarrow> RunStep \<Rightarrow> Observation list \<Rightarrow> Message list \<Rightarrow> run_world \<Rightarrow> RunResult \<times> run_world" where
  "refinish_step env result step obs msgs w =
     (let (t, w1) = clock env w
      in (result\<lparr>rs_Steps := butlast (rs_Steps result) @ [step\<lparr>st_Observations := obs, st_FinishedAt := t\<rparr>], rs_Messages := msgs\<rparr>, w1))"

definition resumeApprovedAction :: "run_env \<Rightarrow> RunRequest \<Rightarrow> RunResult \<Rightarrow> Action \<Rightarrow> run_world \<Rightarrow> run_outcome \<times> run_world" where
  "resumeApprovedAction env request result0 pending w = (case buildToolCatalog (en_quote env) (rr_Tools request) of
      Inl err \<Rightarrow> (failResult result0 err, w)
    | Inr toolCatalog \<Rightarrow>
        if rs_Steps result0 = [] then (failResult result0 (run_error ErrorInvalidRequest 0 [] [] ''approval checkpoint has no execution step'' None), w)
        else
          let step0 = last (rs_Steps result0); actions = actions_from pending (st_Actions step0)
          in if actions = []
             then (failResult result0 (run_error ErrorInvalidRequest 0 [] [] ''pending approval action is missing from the checkpoint step'' None), w)
             else
               let obs0 = observationsWithoutAction (st_Observations step0) (ac_ID pending); step = step0\<lparr>st_Observations := obs0\<rparr>;
                   result = result0\<lparr>rs_Steps := butlast (rs_Steps result0) @ [step]\<rparr>
               in (case acquire env request (st_Index step) w of
                     (Some err, w1) \<Rightarrow> (failResult result err, w1)
                   | (None, w1) \<Rightarrow>
                       let (deadline, w2) = withBudgetContext env (rc_Budget (rr_Context request)) w1;
                           (stop, obs, msgs, w3) = run_actions env deadline (rr_Context request) toolCatalog (st_Index step) actions obs0 (rs_Messages result) w2;
                           (result1, w4) = refinish_step env result step obs msgs w3;
                           w5 = release_run env request w4
                       in (case stop of
                             Some (action, err) \<Rightarrow> (stop_at result1 action err (st_Index step), w5)
                           | None \<Rightarrow> runFromState env request result1 (st_Index step + 1) w5)))"

text \<open>
  The suspended tool is resumed while the permit of this call is held, and so is the rest of the run: the two
  deferred calls come when \<^verbatim>\<open>runFromState\<close> has returned.
\<close>

definition resume_held :: "run_env \<Rightarrow> RunRequest \<Rightarrow> (string \<times> ToolDefinition) list \<Rightarrow> RunResult \<Rightarrow> RunStep \<Rightarrow> Action \<Rightarrow> Action list
    \<Rightarrow> (run_log \<Rightarrow> ToolResumeRequest \<Rightarrow> gerr + ToolResult) \<Rightarrow> ToolResumeRequest \<Rightarrow> run_world \<Rightarrow> run_outcome \<times> run_world" where
  "resume_held env request toolCatalog result step pending rest resumeTool call w =
     (let (deadline, w1) = withBudgetContext env (rc_Budget (rr_Context request)) w; w2 = emit env (RResume call) w1
      in case resumeTool (wd_log w1) call of
           Inl execErr \<Rightarrow>
             let (result1, w3) = refinish_step env result step (st_Observations step @ [observation pending True]) (rs_Messages result) w2;
                 (cerr, w4) = ctx_Err env deadline w3
             in (case cerr of
                   Some c \<Rightarrow> (failResult result1 (contextRunError c (st_Index step)), w4)
                 | None \<Rightarrow> (case ToolContinuationFromError execErr of
                     Some continuation \<Rightarrow> (suspendForToolContinuation result1 pending continuation (st_Index step), w4)
                   | None \<Rightarrow> (failResult result1 (run_error ErrorTool (st_Index step) (ac_ID pending) [] [] (Some execErr)), w4)))
         | Inr toolResult \<Rightarrow>
             let b = (observation pending False)\<lparr>ob_Content := tr_Content toolResult, ob_StructuredContent := tr_StructuredContent toolResult\<rparr>;
                 (stop, obs, msgs, w3) = run_actions env deadline (rr_Context request) toolCatalog (st_Index step) rest (st_Observations step @ [b])
                   (rs_Messages result @ [tool_message pending (tr_Content toolResult)]) w2;
                 (result1, w4) = refinish_step env result step obs msgs w3
             in (case stop of
                   Some (action, err) \<Rightarrow> (stop_at result1 action err (st_Index step), w4)
                 | None \<Rightarrow> runFromState env request result1 (st_Index step + 1) w4))"

definition resumeSuspendedTool :: "run_env \<Rightarrow> RunRequest \<Rightarrow> RunResult \<Rightarrow> Action \<Rightarrow> ToolContinuation \<Rightarrow> string \<Rightarrow> string \<Rightarrow> string \<Rightarrow> run_world
    \<Rightarrow> run_outcome \<times> run_world" where
  "resumeSuspendedTool env request result0 pending continuation humanResponse approvalID resumeToken w =
     (let refuse = (\<lambda>code actionID message cause. (failResult result0 (run_error code 0 actionID [] message cause), w))
      in case validateToolContinuation (Some continuation) of
           Some err \<Rightarrow> refuse ErrorInvalidRequest [] ''tool continuation is invalid'' (Some err)
         | None \<Rightarrow> (case buildToolCatalog (en_quote env) (rr_Tools request) of
             Inl err \<Rightarrow> (failResult result0 err, w)
           | Inr toolCatalog \<Rightarrow>
               if (case map_of toolCatalog (ac_Name pending) of None \<Rightarrow> True | Some definition \<Rightarrow> tool_ApprovalRequired definition)
               then refuse ErrorUnknownTool (ac_ID pending) (''resumable tool '' @ en_quote env (ac_Name pending) @ '' is no longer available as read-only'') None
               else (case en_ResumeTool env of
                 None \<Rightarrow> refuse ErrorUnsupported (ac_ID pending) ''resumable tool executor is not configured'' None
               | Some resumeTool \<Rightarrow>
                   if rs_Steps result0 = [] then refuse ErrorInvalidRequest [] ''tool continuation checkpoint has no execution step'' None
                   else
                     let step0 = last (rs_Steps result0); actions = actions_from pending (st_Actions step0)
                     in if actions = [] then refuse ErrorInvalidRequest [] ''suspended tool action is missing from the checkpoint step'' None
                        else
                          let step = step0\<lparr>st_Observations := observationsWithoutAction (st_Observations step0) (ac_ID pending)\<rparr>;
                              result = result0\<lparr>rs_Steps := butlast (rs_Steps result0) @ [step]\<rparr>;
                              call = \<lparr>tq_Call = tool_call (rr_Context request) pending, tq_Continuation = continuation, tq_HumanResponse = trim_space humanResponse,
                                      tq_ApprovalID = trim_space approvalID, tq_ResumeToken = trim_space resumeToken\<rparr>
                          in (case acquire env request (st_Index step) w of
                                (Some err, w1) \<Rightarrow> (failResult result err, w1)
                              | (None, w1) \<Rightarrow>
                                  let (out, w2) = resume_held env request toolCatalog result step pending (tl actions) resumeTool call w1
                                  in (out, release_run env request w2)))))"

definition Resume :: "run_env \<Rightarrow> ResumeRequest \<Rightarrow> run_world \<Rightarrow> run_outcome \<times> run_world" where
  "Resume env request w =
     (let c = rm_Checkpoint request; pending = cp_PendingAction c;
          result = new_result (cp_Context c) (cp_Messages c) (cp_Steps c) (cp_Usage c);
          runRequest = \<lparr>rr_Context = cp_Context c, rr_Model = cp_Model c, rr_Messages = [], rr_Tools = rm_Tools request, rr_InitialToolChoice = []\<rparr>;
          humanResponse = trim_space (rm_HumanResponse request); approvalID = trim_space (rm_ApprovalID request);
          refuse = (\<lambda>message. (failResult result (run_error ErrorInvalidRequest 0 [] [] message None), w))
      in case ValidateRunCheckpoint c of
           Some err \<Rightarrow> (failResult (new_result (cp_Context c) [] [] zero_usage) (run_error ErrorInvalidRequest 0 [] [] ''invalid resume checkpoint'' (Some err)), w)
         | None \<Rightarrow>
             if ac_Type pending = ActionAskHuman
             then if humanResponse = [] then refuse ''human response is required''
                  else if approvalID \<noteq> [] then refuse ''approval id is not valid for a human response''
                  else runFromState env runRequest
                    (result\<lparr>rs_Messages := rs_Messages result @ [\<lparr>ms_Role = RoleUser, ms_Content = humanResponse, ms_Name = [], ms_ToolCallID = [], ms_Actions = []\<rparr>]\<rparr>)
                    (int (length (rs_Steps result)) + 1) w
             else if ac_Type pending = ActionToolCall
             then if cp_PendingResumeKind c = ResumeKindHumanResponse
                  then if humanResponse = [] then refuse ''human response is required''
                       else if approvalID \<noteq> [] then refuse ''approval id is not valid for a suspended tool response''
                       else resumeSuspendedTool env runRequest result pending (the (cp_PendingToolContinuation c)) humanResponse [] [] w
                  else if approvalID = [] \<or> approvalID \<noteq> cp_PendingApprovalID c then refuse ''approval id does not match the pending action''
                  else if humanResponse \<noteq> [] then refuse ''human response is not valid for an approval resume''
                  else if cp_PendingResumeKind c = ResumeKindDelegatedToolApproval
                  then resumeSuspendedTool env runRequest result pending (the (cp_PendingToolContinuation c)) [] approvalID (trim_space (rm_ResumeToken request)) w
                  else resumeApprovedAction env runRequest result pending w
             else refuse ''checkpoint action cannot be resumed'')"

end
