(* ===== verification/Goal_Types.thy ===== *)
theory Goal_Types
  imports React_Runner
begin

text \<open>
  Goals of agent runs and the evidence for them: \<^verbatim>\<open>src/internal/module/agent/runtime/goal.go\<close>, the collectors of
  \<^verbatim>\<open>runtime/evidence_collectors.go\<close> and \<^verbatim>\<open>runtime/verified_runner.go\<close>, the validation of repairs of
  \<^verbatim>\<open>runtime/verified_repair.go\<close> and the blocked model routes of \<^verbatim>\<open>runtime/model_routing.go\<close>.

  \<open>goal_env\<close> has the library functions the code uses: the hexadecimal SHA-256, the bytes of a raw message, the JSON of
  a routing trace, the escape of a URL path and the formatting of \<^verbatim>\<open>%q\<close>. \<^verbatim>\<open>reflect.DeepEqual\<close> is equality: the code
  compares values that went through its clone functions, which leave no difference between nil and empty slices.
\<close>

record goal_env =
  ge_sha256 :: "string \<Rightarrow> string"
  ge_raw :: "raw_message \<Rightarrow> string"
  ge_marshal :: "ModelRoutingTrace \<Rightarrow> gerr + string"
  ge_escape :: "string \<Rightarrow> string"
  ge_quote :: "string \<Rightarrow> string"

section \<open>Tasks\<close>

record TaskConstraint =
  cn_ID :: string
  cn_Description :: string

record CompletionCriterion =
  cr_ID :: string
  cr_Description :: string
  cr_Required :: bool

record TaskSpec =
  tk_ID :: string
  tk_Goal :: string
  tk_Constraints :: "TaskConstraint list"
  tk_CompletionCriteria :: "CompletionCriterion list"
  tk_AllowedTools :: "string list"
  tk_MaxRepairAttempts :: int

text \<open>The first identifier that occurred before, among trimmed identifiers with a check of each.\<close>

fun check_ids :: "('a \<Rightarrow> string) \<Rightarrow> ('a \<Rightarrow> bool) \<Rightarrow> string \<Rightarrow> (string \<Rightarrow> string) \<Rightarrow> string list \<Rightarrow> 'a list \<Rightarrow> gerr option" where
  "check_ids key bad missing duplicate seen [] = None"
| "check_ids key bad missing duplicate seen (x # xs) =
     (let i = trim_space (key x)
      in if i = [] \<or> bad x then Some (EMsg missing)
         else if i \<in> set seen then Some (EMsg (duplicate i))
         else check_ids key bad missing duplicate (i # seen) xs)"

definition TaskSpec_Validate :: "goal_env \<Rightarrow> TaskSpec \<Rightarrow> gerr option" where
  "TaskSpec_Validate g spec =
     (if trim_space (tk_Goal spec) = [] then Some (EMsg ''task goal is required'')
      else if tk_MaxRepairAttempts spec < 0 then Some (EMsg ''max repair attempts must not be negative'')
      else if tk_CompletionCriteria spec = [] then Some (EMsg ''at least one completion criterion is required'')
      else case check_ids cr_ID (\<lambda>c. trim_space (cr_Description c) = []) ''completion criterion id and description are required''
                  (\<lambda>i. ''duplicate completion criterion '' @ ge_quote g i) [] (tk_CompletionCriteria spec) of
        Some err \<Rightarrow> Some err
      | None \<Rightarrow>
          if \<not> list_ex cr_Required (tk_CompletionCriteria spec) then Some (EMsg ''at least one completion criterion must be required'')
          else (case check_ids cn_ID (\<lambda>c. trim_space (cn_Description c) = []) ''task constraint id and description are required''
                       (\<lambda>i. ''duplicate task constraint '' @ ge_quote g i) [] (tk_Constraints spec) of
              Some err \<Rightarrow> Some err
            | None \<Rightarrow> check_ids (\<lambda>t. t) (\<lambda>t. False) ''allowed tool name is required'' (\<lambda>i. ''duplicate allowed tool '' @ ge_quote g i) [] (tk_AllowedTools spec)))"

definition SnapshotPhaseBefore :: string where "SnapshotPhaseBefore = ''before''"
definition SnapshotPhaseAfter :: string where "SnapshotPhaseAfter = ''after''"

record SnapshotRequest =
  sq_Task :: TaskSpec
  sq_Phase :: string
  sq_Scope :: "string list"

record EnvironmentSnapshot =
  es_ID :: string
  es_Environment :: string
  es_CapturedAt :: int
  es_Digest :: string
  es_Reference :: string
  es_Metadata :: raw_message

text \<open>The methods of an environment act on the world outside, \<open>'w\<close>.\<close>

record 'w Environment =
  nv_Name :: string
  nv_Tools :: "TaskSpec \<Rightarrow> 'w \<Rightarrow> (gerr + ToolDefinition list) \<times> 'w"
  nv_Snapshot :: "SnapshotRequest \<Rightarrow> 'w \<Rightarrow> (gerr + EnvironmentSnapshot) \<times> 'w"

section \<open>Evidence\<close>

definition EvidenceToolObservation :: string where "EvidenceToolObservation = ''tool_observation''"
definition EvidenceArtifact :: string where "EvidenceArtifact = ''artifact''"
definition EvidenceCheckpointResume :: string where "EvidenceCheckpointResume = ''checkpoint_resume''"
definition EvidenceProviderRouting :: string where "EvidenceProviderRouting = ''provider_routing''"

record Evidence =
  vd_ID :: string
  vd_Kind :: string
  vd_Source :: string
  vd_CriterionIDs :: "string list"
  vd_Digest :: string
  vd_Reference :: string
  vd_StepIndex :: int
  vd_CapturedAt :: int

record EvidenceLedger =
  lg_Items :: "Evidence list"

definition ledger_With :: "goal_env \<Rightarrow> Evidence \<Rightarrow> EvidenceLedger \<Rightarrow> gerr + EvidenceLedger" where
  "ledger_With g item ledger =
     (if trim_space (vd_ID item) = [] \<or> trim_space (vd_Source item) = [] then Inl (EMsg ''evidence id and source are required'')
      else if vd_Kind item = [] then Inl (EMsg ''evidence kind is required'')
      else if trim_space (vd_Digest item) = [] \<and> trim_space (vd_Reference item) = [] then Inl (EMsg ''evidence digest or reference is required'')
      else if list_ex (\<lambda>e. vd_ID e = vd_ID item) (lg_Items ledger) then Inl (EMsg (''duplicate evidence '' @ ge_quote g (vd_ID item)))
      else case check_ids (\<lambda>c. c) (\<lambda>c. False) ''evidence criterion id is required'' (\<lambda>i. ''duplicate evidence criterion '' @ ge_quote g i) [] (vd_CriterionIDs item) of
        Some err \<Rightarrow> Inl err
      | None \<Rightarrow> Inr \<lparr>lg_Items = lg_Items ledger @ [item]\<rparr>)"

text \<open>The loop that adds collected items: an error leaves the empty ledger that the failed call returned.\<close>

fun append_evidence :: "goal_env \<Rightarrow> Evidence list \<Rightarrow> EvidenceLedger \<Rightarrow> gerr option \<times> EvidenceLedger" where
  "append_evidence g [] ledger = (None, ledger)"
| "append_evidence g (item # items) ledger = (case ledger_With g item ledger of
      Inl err \<Rightarrow> (Some err, \<lparr>lg_Items = []\<rparr>)
    | Inr l \<Rightarrow> append_evidence g items l)"

definition VerificationPassed :: string where "VerificationPassed = ''passed''"
definition VerificationFailed :: string where "VerificationFailed = ''failed''"
definition VerificationInconclusive :: string where "VerificationInconclusive = ''inconclusive''"

record CheckResult =
  cx_CriterionID :: string
  cx_Status :: string
  cx_Code :: string
  cx_EvidenceIDs :: "string list"

record VerificationRequest =
  vq_Task :: TaskSpec
  vq_Run :: RunResult
  vq_Before :: "EnvironmentSnapshot option"
  vq_After :: "EnvironmentSnapshot option"
  vq_Evidence :: EvidenceLedger
  vq_RepairAttempts :: int

record VerificationResult =
  vf_Status :: string
  vf_Checks :: "CheckResult list"
  vf_MissingEvidence :: "string list"
  vf_Retryable :: bool

definition Passed :: "VerificationResult \<Rightarrow> bool" where
  "Passed result \<longleftrightarrow> vf_Status result = VerificationPassed"

definition evidence_for :: "EvidenceLedger \<Rightarrow> string \<Rightarrow> string list" where
  "evidence_for ledger criterionID = concat (map (\<lambda>e. map (\<lambda>c. vd_ID e) (filter (\<lambda>c. c = criterionID) (vd_CriterionIDs e))) (lg_Items ledger))"

definition check_criterion :: "EvidenceLedger \<Rightarrow> CompletionCriterion \<Rightarrow> CheckResult" where
  "check_criterion ledger c =
     (let ids = evidence_for ledger (cr_ID c)
      in if ids = [] then \<lparr>cx_CriterionID = cr_ID c, cx_Status = VerificationFailed, cx_Code = ''required_evidence_missing'', cx_EvidenceIDs = ids\<rparr>
         else \<lparr>cx_CriterionID = cr_ID c, cx_Status = VerificationPassed, cx_Code = ''required_evidence_present'', cx_EvidenceIDs = ids\<rparr>)"

definition RequiredEvidenceVerifier_Verify :: "goal_env \<Rightarrow> VerificationRequest \<Rightarrow> gerr + VerificationResult" where
  "RequiredEvidenceVerifier_Verify g request = (case TaskSpec_Validate g (vq_Task request) of
      Some err \<Rightarrow> Inl err
    | None \<Rightarrow>
        let required = filter cr_Required (tk_CompletionCriteria (vq_Task request));
            missing = map cr_ID (filter (\<lambda>c. evidence_for (vq_Evidence request) (cr_ID c) = []) required);
            status = (if missing = [] then VerificationPassed else VerificationFailed)
        in Inr \<lparr>vf_Status = status, vf_Checks = map (check_criterion (vq_Evidence request)) required, vf_MissingEvidence = missing,
                vf_Retryable = (status = VerificationFailed \<and> vq_RepairAttempts request < tk_MaxRepairAttempts (vq_Task request))\<rparr>)"

section \<open>Collectors\<close>

record EvidenceCollectionRequest =
  eq_Task :: TaskSpec
  eq_Run :: RunResult
  eq_Before :: "EnvironmentSnapshot option"
  eq_After :: "EnvironmentSnapshot option"
  eq_Attempt :: int

definition sortedUniqueStrings :: "string list \<Rightarrow> string list" where
  "sortedUniqueStrings values = sort (remdups (filter (\<lambda>v. v \<noteq> []) (map trim_space values)))"

definition observation_evidence :: "goal_env \<Rightarrow> (string \<Rightarrow> string list) \<Rightarrow> EvidenceCollectionRequest \<Rightarrow> RunStep \<Rightarrow> Observation \<Rightarrow> Evidence" where
  "observation_evidence g bindings request step b =
     (let trimmed = trim_space (ob_ActionID b); actionID = (if trimmed = [] then ''unknown'' else trimmed); runID = rc_RunID (rs_Context (eq_Run request))
      in \<lparr>vd_ID = ''tool:'' @ runID @ '':'' @ show_int (eq_Attempt request) @ '':'' @ show_int (st_Index step) @ '':'' @ actionID,
          vd_Kind = EvidenceToolObservation, vd_Source = ob_Name b, vd_CriterionIDs = bindings (ob_Name b),
          vd_Digest = ''sha256:'' @ ge_sha256 g (ge_raw g (ob_StructuredContent b)),
          vd_Reference = ''agent-run://'' @ runID @ ''/attempt/'' @ show_int (eq_Attempt request) @ ''/step/'' @ show_int (st_Index step) @ ''/action/'' @ actionID,
          vd_StepIndex = st_Index step, vd_CapturedAt = st_FinishedAt step\<rparr>)"

definition bound_observation :: "(string \<Rightarrow> string list) \<Rightarrow> Observation \<Rightarrow> bool" where
  "bound_observation bindings b \<longleftrightarrow> \<not> ob_IsError b \<and> ob_StructuredContent b \<noteq> RawEmpty \<and> bindings (ob_Name b) \<noteq> []"

definition StructuredObservation_Collect :: "goal_env \<Rightarrow> (string \<Rightarrow> string list) \<Rightarrow> EvidenceCollectionRequest \<Rightarrow> Evidence list" where
  "StructuredObservation_Collect g bindings request =
     concat (map (\<lambda>step. map (observation_evidence g bindings request step) (filter (bound_observation bindings) (st_Observations step))) (rs_Steps (eq_Run request)))"

definition FinalAnswerArtifact_Collect :: "goal_env \<Rightarrow> string \<Rightarrow> string list \<Rightarrow> EvidenceCollectionRequest \<Rightarrow> gerr + Evidence list" where
  "FinalAnswerArtifact_Collect g artifactType0 criterionIDs0 request =
     (let artifactType = trim_space artifactType0; criterionIDs = sortedUniqueStrings criterionIDs0;
          run = eq_Run request; answer = trim_space (rs_FinalAnswer run); runID = rc_RunID (rs_Context run)
      in if artifactType = [] then Inl (EMsg ''artifact type is required'')
         else if criterionIDs = [] then Inl (EMsg ''artifact criterion IDs are required'')
         else if rs_Status run \<noteq> RunStatusCompleted \<or> answer = [] then Inr []
         else Inr [\<lparr>vd_ID = ''artifact:'' @ runID @ '':'' @ show_int (eq_Attempt request) @ '':final-answer'',
                vd_Kind = EvidenceArtifact, vd_Source = artifactType, vd_CriterionIDs = criterionIDs, vd_Digest = ''sha256:'' @ ge_sha256 g answer,
                vd_Reference = ''agent-run://'' @ runID @ ''/attempt/'' @ show_int (eq_Attempt request) @ ''/final-answer'',
                vd_StepIndex = int (length (rs_Steps run)), vd_CapturedAt = 0\<rparr>])"

text \<open>A missing collector is \<open>None\<close>.\<close>

fun composite_from :: "nat \<Rightarrow> (EvidenceCollectionRequest \<Rightarrow> 'w \<Rightarrow> (gerr + Evidence list) \<times> 'w) option list \<Rightarrow> EvidenceCollectionRequest \<Rightarrow> Evidence list \<Rightarrow> 'w
    \<Rightarrow> (gerr + Evidence list) \<times> 'w" where
  "composite_from index [] request result w = (Inr result, w)"
| "composite_from index (child # children) request result w = (case child of
      None \<Rightarrow> (Inl (EMsg (''evidence collector '' @ show_nat index @ '' is not configured'')), w)
    | Some collect \<Rightarrow> (case collect request w of
        (Inl err, w1) \<Rightarrow> (Inl (EWrap (''collect evidence with collector '' @ show_nat index @ '': '') err), w1)
      | (Inr items, w1) \<Rightarrow> composite_from (Suc index) children request (result @ items) w1))"

definition Composite_Collect :: "(EvidenceCollectionRequest \<Rightarrow> 'w \<Rightarrow> (gerr + Evidence list) \<times> 'w) option list \<Rightarrow> EvidenceCollectionRequest \<Rightarrow> 'w
    \<Rightarrow> (gerr + Evidence list) \<times> 'w" where
  "Composite_Collect collectors request w = composite_from 0 collectors request [] w"

section \<open>Verified runs\<close>

definition GoalRunVerified :: string where "GoalRunVerified = ''verified''"
definition GoalRunBlocked :: string where "GoalRunBlocked = ''blocked''"
definition GoalRunSuspended :: string where "GoalRunSuspended = ''suspended''"
definition VerifiedCheckpointVersion :: string where "VerifiedCheckpointVersion = ''goal.v1''"
definition CheckpointResumeEvidenceSource :: string where "CheckpointResumeEvidenceSource = ''agent_runtime.checkpoint_resume''"

lemmas goal_statuses = GoalRunVerified_def GoalRunBlocked_def GoalRunSuspended_def

record VerifiedRepairSignal =
  rg_Reason :: string
  rg_ErrorCode :: string
  rg_MissingCriterionIDs :: "string list"

definition VerifiedRepairExecutionFailed :: string where "VerifiedRepairExecutionFailed = ''execution_failed''"
definition VerifiedRepairEvidenceMissing :: string where "VerifiedRepairEvidenceMissing = ''evidence_missing''"

record VerifiedRepairRequest =
  rb_Task :: TaskSpec
  rb_Base :: RunRequest
  rb_Previous :: RunResult
  rb_Verification :: VerificationResult
  rb_Evidence :: EvidenceLedger
  rb_Attempt :: int
  rb_Signal :: VerifiedRepairSignal

type_synonym 'w repair_builder = "VerifiedRepairRequest \<Rightarrow> 'w \<Rightarrow> (gerr + RunRequest) \<times> 'w"

record 'w VerifiedRunRequest =
  gr_Task :: TaskSpec
  gr_Run :: RunRequest
  gr_Environment :: "'w Environment option"
  gr_Evidence :: EvidenceLedger
  gr_RepairBuilder :: "'w repair_builder option"

record VerifiedCheckpoint =
  vc_Version :: string
  vc_Revision :: int
  vc_Task :: TaskSpec
  vc_Run :: RunCheckpoint
  vc_Environment :: string
  vc_Evidence :: EvidenceLedger
  vc_Before :: "EnvironmentSnapshot option"
  vc_RepairAttempts :: int

record VerifiedRunResult =
  gs_Status :: string
  gs_Run :: RunResult
  gs_Verification :: VerificationResult
  gs_Evidence :: EvidenceLedger
  gs_Before :: "EnvironmentSnapshot option"
  gs_After :: "EnvironmentSnapshot option"
  gs_RepairAttempts :: int
  gs_Checkpoint :: "VerifiedCheckpoint option"

record 'w VerifiedResumeRequest =
  vm_Checkpoint :: VerifiedCheckpoint
  vm_HumanResponse :: string
  vm_ApprovalID :: string
  vm_ResumeToken :: string
  vm_Tools :: "ToolDefinition list"
  vm_Environment :: "'w Environment option"

section \<open>Repairs\<close>

definition zero_budget :: Budget where
  "zero_budget = \<lparr>bg_MaxSteps = 0, bg_MaxInputTokens = 0, bg_MaxOutputTokens = 0, bg_MaxTotalTokens = 0, bg_MaxEstimatedCostMicros = 0, bg_Timeout = 0, bg_Deadline = None\<rparr>"

definition sameRepairIdentity :: "RunContext \<Rightarrow> RunContext \<Rightarrow> bool" where
  "sameRepairIdentity base candidate \<longleftrightarrow>
     base\<lparr>rc_Budget := zero_budget, rc_StrategyPlanDigest := []\<rparr> = candidate\<lparr>rc_Budget := zero_budget, rc_StrategyPlanDigest := []\<rparr>"

fun check_repair_tools :: "goal_env \<Rightarrow> (string \<times> ToolDefinition) list \<Rightarrow> string list \<Rightarrow> ToolDefinition list \<Rightarrow> gerr option" where
  "check_repair_tools g catalog seen [] = None"
| "check_repair_tools g catalog seen (tool # tools) = (case map_of catalog (td_Name tool) of
      None \<Rightarrow> Some (run_error ErrorUnknownTool 0 [] [] ''repair request introduced an unauthorized tool'' None)
    | Some original \<Rightarrow>
        if td_Name tool \<in> set seen then Some (run_error ErrorInvalidRequest 0 [] [] ''repair request contains duplicate tools'' None)
        else if td_Category tool \<noteq> td_Category original \<or> tool_ApprovalRequired tool \<noteq> tool_ApprovalRequired original \<or> ge_raw g (td_InputSchema tool) \<noteq> ge_raw g (td_InputSchema original)
        then Some (run_error ErrorInvalidRequest 0 [] [] ''repair request changed tool authority'' None)
        else check_repair_tools g catalog (td_Name tool # seen) tools)"

definition validateRepairTools :: "goal_env \<Rightarrow> ToolDefinition list \<Rightarrow> ToolDefinition list \<Rightarrow> gerr option" where
  "validateRepairTools g authorized candidate = (case buildToolCatalog (ge_quote g) authorized of
      Inl err \<Rightarrow> Some err
    | Inr catalog \<Rightarrow> check_repair_tools g catalog [] candidate)"

definition remainingGoalBudget :: "Budget \<Rightarrow> RunResult \<Rightarrow> gerr + Budget" where
  "remainingGoalBudget base previous =
     (let steps = effective_max_steps base - int (length (rs_Steps previous));
          tokens = i64 (bg_MaxTotalTokens base - tu_TotalTokens (rs_Usage previous));
          cost = i64 (bg_MaxEstimatedCostMicros base - tu_EstimatedCostMicros (rs_Usage previous))
      in if steps \<le> 0 then Inl (run_error ErrorBudgetExceeded 0 [] [] ''repair step budget is exhausted'' None)
         else if 0 < bg_MaxTotalTokens base \<and> tokens \<le> 0 then Inl (run_error ErrorBudgetExceeded 0 [] [] ''repair token budget is exhausted'' None)
         else if 0 < bg_MaxEstimatedCostMicros base \<and> cost \<le> 0 then Inl (run_error ErrorBudgetExceeded 0 [] [] ''repair cost budget is exhausted'' None)
         else Inr (base\<lparr>bg_MaxSteps := steps, bg_MaxTotalTokens := (if 0 < bg_MaxTotalTokens base then tokens else bg_MaxTotalTokens base),
                bg_MaxEstimatedCostMicros := (if 0 < bg_MaxEstimatedCostMicros base then cost else bg_MaxEstimatedCostMicros base)\<rparr>))"

definition limitWithin :: "int \<Rightarrow> int \<Rightarrow> bool" where
  "limitWithin candidate allowed \<longleftrightarrow> allowed = 0 \<or> (0 < candidate \<and> candidate \<le> allowed)"

definition deadlineWithin :: "int option \<Rightarrow> int option \<Rightarrow> bool" where
  "deadlineWithin candidate allowed = (case allowed of None \<Rightarrow> True | Some a \<Rightarrow> (case candidate of None \<Rightarrow> False | Some c \<Rightarrow> c \<le> a))"

definition budgetWithin :: "Budget \<Rightarrow> Budget \<Rightarrow> bool" where
  "budgetWithin candidate allowed \<longleftrightarrow> limitWithin (bg_MaxSteps candidate) (bg_MaxSteps allowed) \<and> limitWithin (bg_MaxInputTokens candidate) (bg_MaxInputTokens allowed)
     \<and> limitWithin (bg_MaxOutputTokens candidate) (bg_MaxOutputTokens allowed) \<and> limitWithin (bg_MaxTotalTokens candidate) (bg_MaxTotalTokens allowed)
     \<and> limitWithin (bg_MaxEstimatedCostMicros candidate) (bg_MaxEstimatedCostMicros allowed) \<and> limitWithin (bg_Timeout candidate) (bg_Timeout allowed)
     \<and> deadlineWithin (bg_Deadline candidate) (bg_Deadline allowed)"

definition messagePrefix :: "Message list \<Rightarrow> Message list \<Rightarrow> bool" where
  "messagePrefix pre messages \<longleftrightarrow> length pre \<le> length messages \<and> take (length pre) messages = pre"

definition validateVerifiedRepairRequest :: "goal_env \<Rightarrow> RunRequest \<Rightarrow> RunResult \<Rightarrow> RunRequest \<Rightarrow> gerr option" where
  "validateVerifiedRepairRequest g base previous candidate =
     (if \<not> sameRepairIdentity (rr_Context base) (rr_Context candidate) \<or> rr_Model candidate \<noteq> rr_Model base
      then Some (run_error ErrorInvalidRequest 0 [] [] ''repair request changed run identity or model'' None)
      else if \<not> ToolChoice_Valid (rr_InitialToolChoice candidate) then Some (run_error ErrorInvalidRequest 0 [] [] ''repair request has invalid tool choice'' None)
      else case validateRepairTools g (rr_Tools base) (rr_Tools candidate) of
        Some err \<Rightarrow> Some err
      | None \<Rightarrow> (case remainingGoalBudget (rc_Budget (rr_Context base)) previous of
          Inl err \<Rightarrow> Some err
        | Inr remaining \<Rightarrow>
            if \<not> budgetWithin (rc_Budget (rr_Context candidate)) remaining
            then Some (run_error ErrorInvalidRequest 0 [] [] ''repair request expanded the remaining run budget'' None)
            else if \<not> messagePrefix (rs_Messages previous) (rr_Messages candidate)
            then Some (run_error ErrorInvalidRequest 0 [] [] ''repair request discarded or rewrote execution history'' None)
            else None))"

section \<open>Blocked model routes\<close>

definition ModelRouteFallbackAllowed :: string where "ModelRouteFallbackAllowed = ''fallback_allowed''"
definition ModelRouteFallbackDenied :: string where "ModelRouteFallbackDenied = ''fallback_denied''"
definition ModelRouteFallbackExhausted :: string where "ModelRouteFallbackExhausted = ''fallback_exhausted''"
definition ProviderRoutingEvidenceSource :: string where "ProviderRoutingEvidenceSource = ''agent_runtime.model_routing''"
definition ProviderRouteBlockedCode :: string where "ProviderRouteBlockedCode = ''provider_route_blocked''"

definition terminalBlockedModelRoute :: "RunStep list \<Rightarrow> (RunStep \<times> ModelRoutingTrace) option" where
  "terminalBlockedModelRoute steps = (case List.find (\<lambda>s. st_ModelRouting s \<noteq> None) (rev steps) of
      None \<Rightarrow> None
    | Some s \<Rightarrow> let trace = the (st_ModelRouting s)
        in if rt_TerminalDecision trace = ModelRouteFallbackDenied \<or> rt_TerminalDecision trace = ModelRouteFallbackExhausted then Some (s, trace) else None)"

fun check_attempts :: "nat \<Rightarrow> ModelRoutingAttempt list \<Rightarrow> gerr option" where
  "check_attempts index [] = None"
| "check_attempts index (a # as) =
     (if trim_space (ra_Model a) = [] \<or> trim_space (ra_Provider a) = [] \<or> ra_FailureCode a = [] \<or> ra_Decision a = []
      then Some (EMsg (''attempt '' @ show_nat (index + 1) @ '' is incomplete''))
      else if as \<noteq> [] \<and> ra_Decision a \<noteq> ModelRouteFallbackAllowed
      then Some (EMsg (''non-terminal attempt '' @ show_nat (index + 1) @ '' did not allow fallback''))
      else check_attempts (Suc index) as)"

definition validateBlockedModelRoute :: "ModelRoutingTrace \<Rightarrow> gerr option" where
  "validateBlockedModelRoute trace =
     (if trim_space (rt_RequestedModel trace) = [] then Some (EMsg ''requested model is required'')
      else if rt_SelectedModel trace \<noteq> [] \<or> rt_SelectedProvider trace \<noteq> [] then Some (EMsg ''blocked route cannot select a model'')
      else if rt_Attempts trace = [] then Some (EMsg ''blocked route requires at least one attempt'')
      else if rt_TerminalDecision trace \<noteq> ModelRouteFallbackDenied \<and> rt_TerminalDecision trace \<noteq> ModelRouteFallbackExhausted
      then Some (EMsg ''blocked route terminal decision is invalid'')
      else if ra_Decision (last (rt_Attempts trace)) \<noteq> rt_TerminalDecision trace then Some (EMsg ''last attempt does not match terminal decision'')
      else check_attempts 0 (rt_Attempts trace))"

definition route_evidence :: "goal_env \<Rightarrow> string \<Rightarrow> RunStep \<Rightarrow> string \<Rightarrow> Evidence" where
  "route_evidence g runID step payload =
     \<lparr>vd_ID = ''provider-route:'' @ runID @ '':'' @ show_int (st_Index step), vd_Kind = EvidenceProviderRouting, vd_Source = ProviderRoutingEvidenceSource, vd_CriterionIDs = [],
      vd_Digest = ''sha256:'' @ ge_sha256 g payload, vd_Reference = ''agent-run://'' @ ge_escape g runID @ ''/model-routes/'' @ show_int (st_Index step),
      vd_StepIndex = st_Index step, vd_CapturedAt = st_FinishedAt step\<rparr>"

text \<open>The result, whether it is blocked, and the error; a ledger that refuses the evidence is left empty.\<close>

definition projectProviderRoutingBlock :: "goal_env \<Rightarrow> TaskSpec \<Rightarrow> VerifiedRunResult \<Rightarrow> VerifiedRunResult \<times> bool \<times> gerr option" where
  "projectProviderRoutingBlock g task result = (case terminalBlockedModelRoute (rs_Steps (gs_Run result)) of
      None \<Rightarrow> (result, False, None)
    | Some (step, trace) \<Rightarrow> (case validateBlockedModelRoute trace of
        Some err \<Rightarrow> (result, False, Some (run_error ErrorInvalidAction (st_Index step) [] [] ''provider routing trace is invalid'' (Some err)))
      | None \<Rightarrow> (case ge_marshal g trace of
          Inl err \<Rightarrow> (result, False, Some (EWrap ''marshal provider routing evidence: '' err))
        | Inr payload \<Rightarrow>
            let item = route_evidence g (trim_space (rc_RunID (rs_Context (gs_Run result)))) step payload
            in (case ledger_With g item (gs_Evidence result) of
                  Inl err \<Rightarrow> (result\<lparr>gs_Evidence := \<lparr>lg_Items = []\<rparr>\<rparr>, False, Some (EWrap ''append provider routing evidence: '' err))
                | Inr ledger \<Rightarrow>
                    let required = filter cr_Required (tk_CompletionCriteria task)
                    in (result\<lparr>gs_Evidence := ledger, gs_Status := GoalRunBlocked,
                          gs_Verification := \<lparr>vf_Status = VerificationInconclusive,
                            vf_Checks = map (\<lambda>c. \<lparr>cx_CriterionID = cr_ID c, cx_Status = VerificationInconclusive, cx_Code = ProviderRouteBlockedCode, cx_EvidenceIDs = [vd_ID item]\<rparr>) required,
                            vf_MissingEvidence = map cr_ID required, vf_Retryable = False\<rparr>\<rparr>, True, None)))))"

end
