(* ===== verification/Short_Plan.thy ===== *)
theory Short_Plan
  imports Goal_Types
begin

text \<open>
  Short plans: the deterministic admission of a model's proposal (\<^verbatim>\<open>src/internal/module/agent/runtime/short_plan.go\<close>), the
  coordinator that asks a planner and repairs a refused proposal once (\<^verbatim>\<open>runtime/short_plan_coordinator.go\<close>), and planning
  after a failure (\<^verbatim>\<open>runtime/short_plan_recovery.go\<close>).

  The planner and the policy of a coordinator are functions on a world \<open>'w\<close>; \<open>plan_env\<close> has the library
  functions of \<open>goal_env\<close> and the JSON of a plan and of its projection for the model. The error of the context is read from the world.
\<close>

definition ShortPlanVersionV1 :: string where "ShortPlanVersionV1 = ''agent.short_plan.v1''"
definition MaxShortPlanSteps :: int where "MaxShortPlanSteps = 3"
definition ShortPlanStepTool :: string where "ShortPlanStepTool = ''tool''"
definition ShortPlanStepAskHuman :: string where "ShortPlanStepAskHuman = ''ask_human''"
definition ShortPlanStepRespond :: string where "ShortPlanStepRespond = ''respond''"
definition ShortPlanRepairInvalidAction :: string where "ShortPlanRepairInvalidAction = ''invalid_action''"
definition ShortPlanRepairUnknownTool :: string where "ShortPlanRepairUnknownTool = ''unknown_tool''"
definition ShortPlanRecoveryExecutionFailed :: string where "ShortPlanRecoveryExecutionFailed = ''execution_failed''"
definition ShortPlanRecoveryEvidenceMissing :: string where "ShortPlanRecoveryEvidenceMissing = ''evidence_missing''"
definition ToolCategoryRead :: string where "ToolCategoryRead = ''read''"

lemmas plan_kinds = ShortPlanStepTool_def ShortPlanStepAskHuman_def ShortPlanStepRespond_def
lemmas recovery_reasons = ShortPlanRecoveryExecutionFailed_def ShortPlanRecoveryEvidenceMissing_def

record ShortPlanStep =
  sp_ID :: string
  sp_Kind :: string
  sp_Objective :: string
  sp_ToolName :: string
  sp_CriterionIDs :: "string list"

record ShortPlanProposal =
  pp_Version :: string
  pp_Steps :: "ShortPlanStep list"

record ShortPlanRepairFeedback =
  rf_Reason :: string

record ShortPlanRecoveryFeedback =
  vb_Reason :: string

record ShortPlanRequest =
  sr_Context :: RunContext
  sr_Model :: string
  sr_Task :: TaskSpec
  sr_AvailableTools :: "ToolDefinition list"
  sr_Budget :: Budget
  sr_CompletedSteps :: int
  sr_TargetCriterionIDs :: "string list"
  sr_RepairFeedback :: "ShortPlanRepairFeedback option"
  sr_RecoveryFeedback :: "ShortPlanRecoveryFeedback option"

record ShortPlanResult =
  sl_Proposal :: ShortPlanProposal
  sl_Usage :: TokenUsage
  sl_Attempts :: int
  sl_Model :: string
  sl_Provider :: string

record AdmittedShortPlanStep =
  ad_ID :: string
  ad_Kind :: string
  ad_Objective :: string
  ad_ToolName :: string
  ad_ToolCategory :: string
  ad_ApprovalRequired :: bool
  ad_CriterionIDs :: "string list"

record AdmittedShortPlan =
  al_Version :: string
  al_Steps :: "AdmittedShortPlanStep list"
  al_Digest :: string

record admittedExecutionPlanStep =
  xs_Kind :: string
  xs_ToolName :: string
  xs_CriterionIDs :: "string list"

record admittedExecutionPlan =
  xp_Digest :: string
  xp_Steps :: "admittedExecutionPlanStep list"

record plan_env =
  pe_goal :: goal_env
  pe_marshal :: "AdmittedShortPlan \<Rightarrow> gerr + string"
  pe_project :: "admittedExecutionPlan \<Rightarrow> string"

section \<open>Admission\<close>

text \<open>Trimmed identifiers of a catalog, none of them twice.\<close>

fun normalize_ids :: "(string \<Rightarrow> gerr) \<Rightarrow> (string \<Rightarrow> gerr) \<Rightarrow> string list \<Rightarrow> string list \<Rightarrow> string list \<Rightarrow> gerr + string list" where
  "normalize_ids unknown duplicate catalog seen [] = Inr []"
| "normalize_ids unknown duplicate catalog seen (raw # raws) =
     (let criterionID = trim_space raw
      in if criterionID \<notin> set catalog then Inl (unknown criterionID)
         else if criterionID \<in> set seen then Inl (duplicate criterionID)
         else bind_res (normalize_ids unknown duplicate catalog (criterionID # seen) raws) (\<lambda>ids. Inr (criterionID # ids)))"

text \<open>The targets and the catalog of criteria.\<close>

definition planningCriteria :: "goal_env \<Rightarrow> TaskSpec \<Rightarrow> string list \<Rightarrow> gerr + string list \<times> string list" where
  "planningCriteria g task requested =
     (let catalog = map (\<lambda>c. trim_space (cr_ID c)) (tk_CompletionCriteria task);
          required = map (\<lambda>c. trim_space (cr_ID c)) (filter cr_Required (tk_CompletionCriteria task));
          targets = (if requested = [] then required else requested)
      in bind_res (normalize_ids (\<lambda>i. run_error ErrorInvalidRequest 0 [] [] (''unknown target criterion '' @ ge_quote g i) None)
             (\<lambda>i. run_error ErrorInvalidRequest 0 [] [] (''duplicate target criterion '' @ ge_quote g i) None) catalog [] targets)
           (\<lambda>normalized. Inr (sort normalized, catalog)))"

definition normalizePlanCriterionIDs :: "goal_env \<Rightarrow> string list \<Rightarrow> string list \<Rightarrow> int \<Rightarrow> gerr + string list" where
  "normalizePlanCriterionIDs g values catalog step =
     (if values = [] then Inl (run_error ErrorInvalidAction step [] [] ''short plan step must address a completion criterion'' None)
      else bind_res (normalize_ids (\<lambda>i. run_error ErrorInvalidAction step [] [] (''short plan step references unknown criterion '' @ ge_quote g i) None)
             (\<lambda>i. run_error ErrorInvalidAction step [] [] (''short plan step repeats criterion '' @ ge_quote g i) None) catalog [] values)
           (\<lambda>normalized. Inr (sort normalized)))"

definition validToolCategory :: "string \<Rightarrow> bool" where
  "validToolCategory category \<longleftrightarrow> category = ToolCategoryRead \<or> category = ToolCategoryWrite \<or> category = ToolCategoryRisky"

text \<open>The fields a step gets from its kind: nothing, or the name, category and approval of the governed tool.\<close>

definition admit_kind :: "goal_env \<Rightarrow> AdmittedShortPlanStep \<Rightarrow> string \<Rightarrow> string \<Rightarrow> nat \<Rightarrow> nat \<Rightarrow> (string \<times> ToolDefinition) list \<Rightarrow> string list \<Rightarrow> gerr + AdmittedShortPlanStep" where
  "admit_kind g admitted kind toolName index count_steps toolCatalog allowedTools =
     (let stepNumber = int index + 1; refuse = (\<lambda>code message. Inl (run_error code stepNumber [] [] message None))
      in if kind = ShortPlanStepTool
         then if toolName = [] then refuse ErrorInvalidAction ''tool plan step requires a tool name''
              else if toolName \<notin> set allowedTools then refuse ErrorUnknownTool (''tool '' @ ge_quote g toolName @ '' is not allowed by the task'')
              else (case map_of toolCatalog toolName of
                  None \<Rightarrow> refuse ErrorUnknownTool (''tool '' @ ge_quote g toolName @ '' is not available in the current environment'')
                | Some definition \<Rightarrow>
                    if \<not> validToolCategory (td_Category definition) then refuse ErrorInvalidRequest (''tool '' @ ge_quote g toolName @ '' has an invalid policy category'')
                    else Inr (admitted\<lparr>ad_ToolName := toolName, ad_ToolCategory := td_Category definition, ad_ApprovalRequired := tool_ApprovalRequired definition\<rparr>))
         else if kind = ShortPlanStepAskHuman \<or> kind = ShortPlanStepRespond
         then if toolName \<noteq> [] then refuse ErrorInvalidAction (kind @ '' plan step cannot name a tool'')
              else if Suc index \<noteq> count_steps then refuse ErrorInvalidAction (kind @ '' plan step must be terminal'')
              else Inr admitted
         else refuse ErrorInvalidAction (''unknown short plan step kind '' @ ge_quote g kind))"

text \<open>The admitted step with the identifiers seen and the criteria covered so far, which the code keeps in two maps.\<close>

definition admitShortPlanStep :: "goal_env \<Rightarrow> ShortPlanStep \<Rightarrow> nat \<Rightarrow> nat \<Rightarrow> (string \<times> ToolDefinition) list \<Rightarrow> string list \<Rightarrow> string list \<Rightarrow> string list \<Rightarrow> string list
    \<Rightarrow> gerr + AdmittedShortPlanStep \<times> string list \<times> string list" where
  "admitShortPlanStep g proposed index count_steps toolCatalog allowedTools criterionCatalog seenSteps coveredCriteria =
     (let i = trim_space (sp_ID proposed); objective = trim_space (sp_Objective proposed); toolName = trim_space (sp_ToolName proposed); stepNumber = int index + 1;
          refuse = (\<lambda>message. Inl (run_error ErrorInvalidAction stepNumber [] [] message None))
      in if i = [] \<or> objective = [] then refuse ''short plan step id and objective are required''
         else if 64 < length i \<or> 512 < length objective then refuse ''short plan step id or objective exceeds its limit''
         else if i \<in> set seenSteps then refuse (''duplicate short plan step '' @ ge_quote g i)
         else bind_res (normalizePlanCriterionIDs g (sp_CriterionIDs proposed) criterionCatalog stepNumber) (\<lambda>criterionIDs.
           bind_res (admit_kind g \<lparr>ad_ID = i, ad_Kind = sp_Kind proposed, ad_Objective = objective, ad_ToolName = [], ad_ToolCategory = [], ad_ApprovalRequired = False,
               ad_CriterionIDs = criterionIDs\<rparr> (sp_Kind proposed) toolName index count_steps toolCatalog allowedTools)
             (\<lambda>admitted. Inr (admitted, i # seenSteps, criterionIDs @ coveredCriteria))))"

text \<open>The loop over the proposed steps: the admitted steps and the covered criteria.\<close>

fun admit_steps :: "goal_env \<Rightarrow> nat \<Rightarrow> nat \<Rightarrow> (string \<times> ToolDefinition) list \<Rightarrow> string list \<Rightarrow> string list \<Rightarrow> string list \<Rightarrow> string list \<Rightarrow> ShortPlanStep list
    \<Rightarrow> gerr + AdmittedShortPlanStep list \<times> string list" where
  "admit_steps g index count_steps toolCatalog allowedTools criterionCatalog seenSteps coveredCriteria [] = Inr ([], coveredCriteria)"
| "admit_steps g index count_steps toolCatalog allowedTools criterionCatalog seenSteps coveredCriteria (proposed # rest) =
     bind_res (admitShortPlanStep g proposed index count_steps toolCatalog allowedTools criterionCatalog seenSteps coveredCriteria) (\<lambda>(step, seen, covered).
       bind_res (admit_steps g (Suc index) count_steps toolCatalog allowedTools criterionCatalog seen covered rest) (\<lambda>(steps, all). Inr (step # steps, all)))"

definition shortPlanDigest :: "plan_env \<Rightarrow> AdmittedShortPlan \<Rightarrow> gerr + string" where
  "shortPlanDigest p plan = (case pe_marshal p (plan\<lparr>al_Digest := []\<rparr>) of
      Inl err \<Rightarrow> Inl (run_error ErrorInvalidAction 0 [] [] ''marshal admitted short plan'' (Some err))
    | Inr payload \<Rightarrow> Inr (ge_sha256 (pe_goal p) payload))"

text \<open>The checks of \<^verbatim>\<open>Admit\<close> before the catalog is built.\<close>

definition check_proposal :: "plan_env \<Rightarrow> gerr option \<Rightarrow> ShortPlanRequest \<Rightarrow> ShortPlanProposal \<Rightarrow> gerr option" where
  "check_proposal p ctxErr request proposal =
     (let n = int (length (pp_Steps proposal)); maxSteps = effective_max_steps (sr_Budget request); left = maxSteps - sr_CompletedSteps request
      in case ctxErr of
           Some err \<Rightarrow> Some (contextRunError err (sr_CompletedSteps request))
         | None \<Rightarrow> (case TaskSpec_Validate (pe_goal p) (sr_Task request) of
             Some err \<Rightarrow> Some (run_error ErrorInvalidRequest 0 [] [] ''invalid planning task'' (Some err))
           | None \<Rightarrow>
               if sr_CompletedSteps request < 0 then Some (run_error ErrorInvalidRequest 0 [] [] ''completed planning steps cannot be negative'' None)
               else if trim_space (pp_Version proposal) \<noteq> ShortPlanVersionV1 then Some (run_error ErrorInvalidAction 0 [] [] ''short plan version is invalid'' None)
               else if n = 0 \<or> MaxShortPlanSteps < n
               then Some (run_error ErrorInvalidAction 0 [] [] (''short plan must contain between 1 and '' @ show_int MaxShortPlanSteps @ '' steps'') None)
               else if maxSteps < 1 \<or> MaxAllowedSteps < maxSteps
               then Some (run_error ErrorInvalidRequest 0 [] [] (''max steps must be between 1 and '' @ show_int MaxAllowedSteps) None)
               else if left \<le> 0 \<or> left < n
               then Some (run_error ErrorBudgetExceeded (sr_CompletedSteps request + 1) [] [] (''short plan requires '' @ show_int n @ '' steps but only '' @ show_int left @ '' remain'') None)
               else None))"

definition Admit :: "plan_env \<Rightarrow> gerr option \<Rightarrow> ShortPlanRequest \<Rightarrow> ShortPlanProposal \<Rightarrow> gerr + AdmittedShortPlan" where
  "Admit p ctxErr request proposal = (case check_proposal p ctxErr request proposal of
      Some err \<Rightarrow> Inl err
    | None \<Rightarrow>
        bind_res (buildToolCatalog (ge_quote (pe_goal p)) (sr_AvailableTools request)) (\<lambda>toolCatalog.
        bind_res (planningCriteria (pe_goal p) (sr_Task request) (sr_TargetCriterionIDs request)) (\<lambda>(targetCriteria, criterionCatalog).
        bind_res (admit_steps (pe_goal p) 0 (length (pp_Steps proposal)) toolCatalog (map trim_space (tk_AllowedTools (sr_Task request))) criterionCatalog [] [] (pp_Steps proposal))
          (\<lambda>(steps, coveredCriteria). case List.find (\<lambda>c. c \<notin> set coveredCriteria) targetCriteria of
              Some c \<Rightarrow> Inl (run_error ErrorInvalidAction 0 [] [] (''short plan does not address target criterion '' @ ge_quote (pe_goal p) c) None)
            | None \<Rightarrow>
                let admitted = \<lparr>al_Version = ShortPlanVersionV1, al_Steps = steps, al_Digest = []\<rparr>
                in bind_res (shortPlanDigest p admitted) (\<lambda>digest. Inr (admitted\<lparr>al_Digest := digest\<rparr>))))))"

section \<open>Coordination\<close>

definition bind_option2 :: "'a option \<Rightarrow> 'b option \<Rightarrow> ('a \<times> 'b) option" where
  "bind_option2 x y = Option.bind x (\<lambda>a. map_option (Pair a) y)"

definition maximumShortPlanAdmissionRepairs :: int where "maximumShortPlanAdmissionRepairs = 1"

record PlanningResult =
  pg_Plan :: AdmittedShortPlan
  pg_Usage :: TokenUsage
  pg_PlanningCalls :: int
  pg_ModelAttempts :: int
  pg_AdmissionAttempts :: int
  pg_AdmissionRepairs :: int
  pg_LastRepairReason :: string
  pg_Model :: string
  pg_Provider :: string

text \<open>A nil context, planner or policy is \<open>None\<close>.\<close>

record 'w PlanningCoordinator =
  pc_planner :: "(ShortPlanRequest \<Rightarrow> 'w \<Rightarrow> (ShortPlanResult \<times> gerr option) \<times> 'w) option"
  pc_policy :: "(ShortPlanRequest \<Rightarrow> ShortPlanProposal \<Rightarrow> 'w \<Rightarrow> (gerr + AdmittedShortPlan) \<times> 'w) option"
  pc_maxAdmissionRepairs :: int

type_synonym 'w plan_context = "('w \<Rightarrow> gerr option) option"
type_synonym planning_outcome = "PlanningResult \<times> gerr option"

definition DeterministicShortPlanPolicy :: "plan_env \<Rightarrow> ('w \<Rightarrow> gerr option) \<Rightarrow> ShortPlanRequest \<Rightarrow> ShortPlanProposal \<Rightarrow> 'w \<Rightarrow> (gerr + AdmittedShortPlan) \<times> 'w" where
  "DeterministicShortPlanPolicy p ctx_err request proposal w = (Admit p (ctx_err w) request proposal, w)"

definition WithShortPlanAdmissionRepairs :: "int \<Rightarrow> 'w PlanningCoordinator \<Rightarrow> 'w PlanningCoordinator" where
  "WithShortPlanAdmissionRepairs limit coordinator = coordinator\<lparr>pc_maxAdmissionRepairs := limit\<rparr>"

text \<open>The options are functions on the coordinator; nil ones are left out.\<close>

definition NewPlanningCoordinator :: "(ShortPlanRequest \<Rightarrow> 'w \<Rightarrow> (ShortPlanResult \<times> gerr option) \<times> 'w) option
    \<Rightarrow> (ShortPlanRequest \<Rightarrow> ShortPlanProposal \<Rightarrow> 'w \<Rightarrow> (gerr + AdmittedShortPlan) \<times> 'w) option \<Rightarrow> ('w PlanningCoordinator \<Rightarrow> 'w PlanningCoordinator) option list
    \<Rightarrow> gerr + 'w PlanningCoordinator" where
  "NewPlanningCoordinator planner policy options =
     (if planner = None then Inl (EMsg ''short plan planner is required'')
      else if policy = None then Inl (EMsg ''short plan admission policy is required'')
      else
        let coordinator = fold (\<lambda>option c. case option of None \<Rightarrow> c | Some f \<Rightarrow> f c) options
              \<lparr>pc_planner = planner, pc_policy = policy, pc_maxAdmissionRepairs = maximumShortPlanAdmissionRepairs\<rparr>
        in if pc_maxAdmissionRepairs coordinator < 0 \<or> maximumShortPlanAdmissionRepairs < pc_maxAdmissionRepairs coordinator
           then Inl (EMsg (''short plan admission repairs must be between 0 and '' @ show_int maximumShortPlanAdmissionRepairs))
           else Inr coordinator)"

definition shortPlanRepairFeedback :: "gerr \<Rightarrow> ShortPlanRepairFeedback option" where
  "shortPlanRepairFeedback err = (case errors_As as_run_error err of
      None \<Rightarrow> None
    | Some r \<Rightarrow> if re_Code r = ErrorInvalidAction then Some \<lparr>rf_Reason = ShortPlanRepairInvalidAction\<rparr>
                else if re_Code r = ErrorUnknownTool then Some \<lparr>rf_Reason = ShortPlanRepairUnknownTool\<rparr>
                else None)"

text \<open>
  What is left of a budget of tokens and cost. The coordinator and the planned runner have this function twice, with
  other messages and steps in their errors.
\<close>

definition remaining_budget :: "int \<Rightarrow> string \<Rightarrow> string \<Rightarrow> Budget \<Rightarrow> TokenUsage \<Rightarrow> gerr + Budget" where
  "remaining_budget step tokens_message cost_message budget usage =
     (let consumed = normalizedUsage usage;
          tokens = i64 (bg_MaxTotalTokens budget - tu_TotalTokens consumed); cost = i64 (bg_MaxEstimatedCostMicros budget - tu_EstimatedCostMicros consumed)
      in if 0 < bg_MaxTotalTokens budget \<and> tokens \<le> 0 then Inl (run_error ErrorBudgetExceeded step [] [] tokens_message None)
         else if 0 < bg_MaxEstimatedCostMicros budget \<and> cost \<le> 0 then Inl (run_error ErrorBudgetExceeded step [] [] cost_message None)
         else Inr (budget\<lparr>bg_MaxTotalTokens := (if 0 < bg_MaxTotalTokens budget then tokens else bg_MaxTotalTokens budget),
                bg_MaxEstimatedCostMicros := (if 0 < bg_MaxEstimatedCostMicros budget then cost else bg_MaxEstimatedCostMicros budget)\<rparr>))"

definition remainingShortPlanBudget :: "Budget \<Rightarrow> TokenUsage \<Rightarrow> int \<Rightarrow> gerr + Budget" where
  "remainingShortPlanBudget budget consumed step =
     remaining_budget step ''short plan repair requires another model call but the token budget is exhausted''
       ''short plan repair requires another model call but the cost budget is exhausted'' budget consumed"

definition zero_plan :: AdmittedShortPlan where
  "zero_plan = \<lparr>al_Version = [], al_Steps = [], al_Digest = []\<rparr>"

definition zero_planning :: PlanningResult where
  "zero_planning = \<lparr>pg_Plan = zero_plan, pg_Usage = zero_usage, pg_PlanningCalls = 0, pg_ModelAttempts = 0, pg_AdmissionAttempts = 0, pg_AdmissionRepairs = 0,
     pg_LastRepairReason = [], pg_Model = [], pg_Provider = []\<rparr>"

text \<open>One call of the planner and of the policy: the outcome, or the next request.\<close>

definition count_plan :: "ShortPlanResult \<Rightarrow> PlanningResult \<Rightarrow> PlanningResult" where
  "count_plan proposal result = result\<lparr>pg_PlanningCalls := pg_PlanningCalls result + 1, pg_ModelAttempts := pg_ModelAttempts result + sl_Attempts proposal,
     pg_Usage := usage_Add (pg_Usage result) (normalizedUsage (sl_Usage proposal)),
     pg_Model := (if sl_Model proposal \<noteq> [] then sl_Model proposal else pg_Model result),
     pg_Provider := (if sl_Provider proposal \<noteq> [] then sl_Provider proposal else pg_Provider result)\<rparr>"

definition coordinate_round :: "(ShortPlanRequest \<Rightarrow> 'w \<Rightarrow> (ShortPlanResult \<times> gerr option) \<times> 'w) \<Rightarrow> (ShortPlanRequest \<Rightarrow> ShortPlanProposal \<Rightarrow> 'w \<Rightarrow> (gerr + AdmittedShortPlan) \<times> 'w)
    \<Rightarrow> int \<Rightarrow> ShortPlanRequest \<Rightarrow> ShortPlanRequest \<Rightarrow> PlanningResult \<Rightarrow> 'w \<Rightarrow> (planning_outcome + ShortPlanRequest \<times> PlanningResult) \<times> 'w" where
  "coordinate_round planner policy maxRepairs request current result0 w =
     (let ((proposalResult, planErr), w1) = planner current w; result1 = count_plan proposalResult result0
      in case planErr of
           Some err \<Rightarrow> (Inl (result1, Some err), w1)
         | None \<Rightarrow>
             let result = result1\<lparr>pg_AdmissionAttempts := pg_AdmissionAttempts result1 + 1\<rparr>
             in (case policy request (sl_Proposal proposalResult) w1 of
                   (Inr admitted, w2) \<Rightarrow> (Inl (result\<lparr>pg_Plan := admitted\<rparr>, None), w2)
                 | (Inl admissionErr, w2) \<Rightarrow> (case shortPlanRepairFeedback admissionErr of
                     None \<Rightarrow> (Inl (result, Some admissionErr), w2)
                   | Some feedback \<Rightarrow>
                       if maxRepairs \<le> pg_AdmissionRepairs result then (Inl (result, Some admissionErr), w2)
                       else (case remainingShortPlanBudget (sr_Budget request) (pg_Usage result) (sr_CompletedSteps request + 1) of
                           Inl err \<Rightarrow> (Inl (result, Some err), w2)
                         | Inr remaining \<Rightarrow>
                             (Inr (request\<lparr>sr_Budget := remaining, sr_RepairFeedback := Some feedback\<rparr>,
                                result\<lparr>pg_AdmissionRepairs := pg_AdmissionRepairs result + 1, pg_LastRepairReason := rf_Reason feedback\<rparr>), w2)))))"

lemma coordinate_round_repairs:
  "coordinate_round planner policy n request current result w = (Inr (q, r), w') \<Longrightarrow> pg_AdmissionRepairs r = pg_AdmissionRepairs result + 1 \<and> pg_AdmissionRepairs result < n"
  by (auto simp: coordinate_round_def count_plan_def Let_def split: prod.splits option.splits sum.splits if_splits)

lemma coordinate_round_measure:
  "(Inr (q, r), w') = coordinate_round planner policy n request current result w \<Longrightarrow> nat (n - pg_AdmissionRepairs r) < nat (n - pg_AdmissionRepairs result)"
  using coordinate_round_repairs by (metis add_strict_increasing diff_gt_0_iff_gt diff_strict_left_mono less_add_one nat_mono_iff)

function coordinate_loop :: "(ShortPlanRequest \<Rightarrow> 'w \<Rightarrow> (ShortPlanResult \<times> gerr option) \<times> 'w) \<Rightarrow> (ShortPlanRequest \<Rightarrow> ShortPlanProposal \<Rightarrow> 'w \<Rightarrow> (gerr + AdmittedShortPlan) \<times> 'w)
    \<Rightarrow> int \<Rightarrow> ShortPlanRequest \<Rightarrow> ShortPlanRequest \<Rightarrow> PlanningResult \<Rightarrow> 'w \<Rightarrow> planning_outcome \<times> 'w" where
  "coordinate_loop planner policy maxRepairs request current result w = (case coordinate_round planner policy maxRepairs request current result w of
      (Inl out, w1) \<Rightarrow> (out, w1)
    | (Inr (current1, result1), w1) \<Rightarrow> coordinate_loop planner policy maxRepairs request current1 result1 w1)"
  by pat_completeness auto
termination
  by (relation "measure (\<lambda>(planner, policy, n, request, current, r, w). nat (n - pg_AdmissionRepairs r))") (auto dest!: coordinate_round_measure)

declare coordinate_loop.simps [simp del]

definition Coordinate :: "'w PlanningCoordinator option \<Rightarrow> 'w plan_context \<Rightarrow> ShortPlanRequest \<Rightarrow> 'w \<Rightarrow> planning_outcome \<times> 'w" where
  "Coordinate coordinator ctx request w =
     (let refuse = (\<lambda>message cause. ((zero_planning, Some (run_error ErrorInvalidRequest 0 [] [] message cause)), w))
      in case ctx of
           None \<Rightarrow> refuse ''planning context is required'' None
         | Some ctx_err \<Rightarrow> (case bind_option2 (Option.bind coordinator pc_planner) (Option.bind coordinator pc_policy) of
             None \<Rightarrow> refuse ''planning coordinator is not configured'' None
           | Some (planner, policy) \<Rightarrow> (case ctx_err w of
               Some err \<Rightarrow> ((zero_planning, Some (contextRunError err (sr_CompletedSteps request))), w)
             | None \<Rightarrow>
                 if sr_RepairFeedback request \<noteq> None \<or> sr_RecoveryFeedback request \<noteq> None
                 then refuse ''initial planning request cannot contain repair or recovery feedback'' None
                 else (case NewBudgetTracker (sr_Budget request) of
                     Inl err \<Rightarrow> refuse ''invalid planning budget'' (Some err)
                   | Inr tracker \<Rightarrow> coordinate_loop planner policy (pc_maxAdmissionRepairs (the coordinator)) request request zero_planning w))))"

section \<open>Planning after a failure\<close>

definition shortPlanRecoveryInstruction :: "ShortPlanRecoveryFeedback option \<Rightarrow> gerr + string" where
  "shortPlanRecoveryInstruction feedback = (case feedback of
      None \<Rightarrow> Inr []
    | Some f \<Rightarrow>
        if vb_Reason f = ShortPlanRecoveryExecutionFailed
        then Inr (''A governed tool action failed without usable output. Produce one fresh bounded plan using only available_tools and target criteria. ''
          @ ''Do not infer, repeat or quote the failure, provider response, tool output or previous proposal.'')
        else if vb_Reason f = ShortPlanRecoveryEvidenceMissing
        then Inr (''Completion verification is missing evidence for the target criteria. Produce one fresh bounded plan that obtains observable evidence using only available_tools. ''
          @ ''Do not repeat or quote prior answers, tool output or verifier details.'')
        else Inl (run_error ErrorInvalidRequest 0 [] [] ''short plan recovery feedback reason is invalid'' None))"

text \<open>The planner that adds the feedback to every request.\<close>

definition recovery_planner :: "ShortPlanRecoveryFeedback \<Rightarrow> (ShortPlanRequest \<Rightarrow> 'w \<Rightarrow> (ShortPlanResult \<times> gerr option) \<times> 'w) \<Rightarrow> ShortPlanRequest \<Rightarrow> 'w \<Rightarrow> (ShortPlanResult \<times> gerr option) \<times> 'w" where
  "recovery_planner feedback delegate request w = delegate (request\<lparr>sr_RecoveryFeedback := Some feedback\<rparr>) w"

definition CoordinateRecovery :: "'w PlanningCoordinator option \<Rightarrow> 'w plan_context \<Rightarrow> ShortPlanRequest \<Rightarrow> ShortPlanRecoveryFeedback \<Rightarrow> 'w \<Rightarrow> planning_outcome \<times> 'w" where
  "CoordinateRecovery coordinator ctx request feedback w = (case bind_option2 (Option.bind coordinator pc_planner) (Option.bind coordinator pc_policy) of
      None \<Rightarrow> ((zero_planning, Some (run_error ErrorInvalidRequest 0 [] [] ''planning coordinator is not configured'' None)), w)
    | Some (planner, policy) \<Rightarrow>
        if sr_RepairFeedback request \<noteq> None \<or> sr_RecoveryFeedback request \<noteq> None
        then ((zero_planning, Some (run_error ErrorInvalidRequest 0 [] [] ''recovery planning request already contains feedback'' None)), w)
        else (case shortPlanRecoveryInstruction (Some feedback) of
            Inl err \<Rightarrow> ((zero_planning, Some err), w)
          | Inr instruction \<Rightarrow> Coordinate (Some ((the coordinator)\<lparr>pc_planner := Some (recovery_planner feedback planner)\<rparr>)) ctx request w))"

end
