(* ===== verification/Verified_Runner.thy ===== *)
theory Verified_Runner
  imports Goal_Types
begin

text \<open>
  Verified runs: \<^verbatim>\<open>src/internal/module/agent/runtime/verified_runner.go\<close> runs an agent until a verifier is satisfied
  with the evidence collected on the way, repairing what is missing within the budget of the task, and
  \<^verbatim>\<open>runtime/verified_resume.go\<close> continues a suspended run, after the checks of \<^verbatim>\<open>runtime/verified_resume_validation.go\<close>.

  The interfaces the runner is built from (\<^verbatim>\<open>AgentRunner\<close>, \<^verbatim>\<open>Verifier\<close>, \<^verbatim>\<open>EvidenceCollector\<close> and their extensions) and the
  environment and the repair builder of a request are functions on a world \<open>'w\<close>, \<open>None\<close> where they are nil or do not have
  the extension. The context with the deadline of the goal is part of that world.
\<close>

record 'w verified_runner =
  vr_goal :: goal_env
  vr_Run :: "(RunRequest \<Rightarrow> 'w \<Rightarrow> run_outcome \<times> 'w) option"
  vr_Resume :: "(ResumeRequest \<Rightarrow> 'w \<Rightarrow> run_outcome \<times> 'w) option"
  vr_Verify :: "(VerificationRequest \<Rightarrow> 'w \<Rightarrow> (gerr + VerificationResult) \<times> 'w) option"
  vr_VerifySuspension :: "(VerificationRequest \<Rightarrow> 'w \<Rightarrow> (gerr + VerificationResult) \<times> 'w) option"
  vr_Collect :: "(EvidenceCollectionRequest \<Rightarrow> 'w \<Rightarrow> (gerr + Evidence list) \<times> 'w) option"

type_synonym goal_outcome = "VerifiedRunResult \<times> gerr option"

definition zero_context :: RunContext where
  "zero_context = \<lparr>rc_RunID = [], rc_ParentRunID = [], rc_RoleID = [], rc_StrategyPlanDigest = [], rc_WorkflowID = [], rc_UserID = 0, rc_Mode = [], rc_AgentProfileID = [],
     rc_AgentProfileVersion = [], rc_PromptTemplateID = [], rc_PromptTemplateVersion = [], rc_StartedAt = 0, rc_Budget = zero_budget\<rparr>"

definition zero_run :: RunResult where
  "zero_run = (new_result zero_context [] [] zero_usage)\<lparr>rs_Status := []\<rparr>"

definition zero_verification :: VerificationResult where
  "zero_verification = \<lparr>vf_Status = [], vf_Checks = [], vf_MissingEvidence = [], vf_Retryable = False\<rparr>"

definition new_goal_result :: "EvidenceLedger \<Rightarrow> EnvironmentSnapshot option \<Rightarrow> int \<Rightarrow> VerifiedRunResult" where
  "new_goal_result evidence snapshot attempts = \<lparr>gs_Status = [], gs_Run = zero_run, gs_Verification = zero_verification, gs_Evidence = evidence, gs_Before = snapshot,
     gs_After = None, gs_RepairAttempts = attempts, gs_Checkpoint = None\<rparr>"

definition isGoalSuspendedStatus :: "string \<Rightarrow> bool" where
  "isGoalSuspendedStatus status \<longleftrightarrow> status = RunStatusAwaitingHuman \<or> status = RunStatusApprovalRequired"

definition RoleDeveloper :: string where "RoleDeveloper = ''developer''"

section \<open>Tools of a goal\<close>

fun goal_catalog :: "string \<Rightarrow> string \<Rightarrow> ToolDefinition list \<Rightarrow> (string \<times> ToolDefinition) list \<Rightarrow> gerr + (string \<times> ToolDefinition) list" where
  "goal_catalog missing duplicate [] catalog = Inr catalog"
| "goal_catalog missing duplicate (tool # tools) catalog =
     (let name = trim_space (td_Name tool)
      in if name = [] then Inl (run_error ErrorInvalidRequest 0 [] [] missing None)
         else if map_of catalog name \<noteq> None then Inl (run_error ErrorInvalidRequest 0 [] [] (duplicate @ name) None)
         else goal_catalog missing duplicate tools (catalog @ [(name, tool)]))"

fun pick_tools :: "(string \<times> ToolDefinition) list \<Rightarrow> (string \<times> ToolDefinition) list \<Rightarrow> string list \<Rightarrow> gerr + ToolDefinition list" where
  "pick_tools requested available [] = Inr []"
| "pick_tools requested available (name # names) = (case map_of requested name of
      Some tool \<Rightarrow> if map_of available name = None then Inl (run_error ErrorInvalidRequest 0 [] [] (''task tool is unavailable: '' @ name) None)
                   else bind_res (pick_tools requested available names) (\<lambda>ts. Inr (tool # ts))
    | None \<Rightarrow> Inl (run_error ErrorInvalidRequest 0 [] [] (''task tool is unavailable: '' @ name) None))"

definition resolveGoalTools :: "TaskSpec \<Rightarrow> ToolDefinition list \<Rightarrow> 'w Environment option \<Rightarrow> 'w \<Rightarrow> (gerr + ToolDefinition list) \<times> 'w" where
  "resolveGoalTools task requestTools environment w = (case goal_catalog ''tool name is required'' ''duplicate request tool '' requestTools [] of
      Inl err \<Rightarrow> (Inl err, w)
    | Inr requestCatalog \<Rightarrow> (case environment of
        None \<Rightarrow> (pick_tools requestCatalog requestCatalog (tk_AllowedTools task), w)
      | Some e \<Rightarrow>
          if trim_space (nv_Name e) = [] then (Inl (run_error ErrorInvalidRequest 0 [] [] ''environment name is required'' None), w)
          else (case nv_Tools e task w of
              (Inl err, w1) \<Rightarrow> (Inl (EWrap ''resolve environment tools: '' err), w1)
            | (Inr available, w1) \<Rightarrow>
                (bind_res (goal_catalog ''environment tool name is required'' ''duplicate environment tool '' available [])
                  (\<lambda>environmentCatalog. pick_tools requestCatalog environmentCatalog (tk_AllowedTools task)), w1))))"

section \<open>Attempts\<close>

definition renumber :: "nat \<Rightarrow> RunStep list \<Rightarrow> RunStep list" where
  "renumber k steps = map2 (\<lambda>i s. s\<lparr>st_Index := int i + 1\<rparr>) [k..<k + length steps] steps"

definition mergeGoalRunResults :: "RunResult \<Rightarrow> RunResult \<Rightarrow> RunContext \<Rightarrow> RunResult" where
  "mergeGoalRunResults current next_run originalContext =
     (if rs_Messages current = [] \<and> rs_Steps current = [] then next_run\<lparr>rs_Context := originalContext\<rparr>
      else next_run\<lparr>rs_Context := originalContext, rs_Steps := rs_Steps current @ renumber (length (rs_Steps current)) (rs_Steps next_run),
             rs_Usage := usage_Add (rs_Usage current) (rs_Usage next_run)\<rparr>)"

definition repair_message :: "VerificationResult \<Rightarrow> Message" where
  "repair_message verification = \<lparr>ms_Role = RoleDeveloper,
     ms_Content = ''Completion verification failed. Continue the same task and repair only the missing required criteria. ''
       @ ''Do not claim completion until new observable evidence is available. Missing criteria: ''
       @ join_with '', '' (sortedUniqueStrings (vf_MissingEvidence verification)),
     ms_Name = [], ms_ToolCallID = [], ms_Actions = []\<rparr>"

definition buildGoalRepairRequest :: "RunRequest \<Rightarrow> RunResult \<Rightarrow> VerificationResult \<Rightarrow> gerr + RunRequest" where
  "buildGoalRepairRequest base previous verification =
     (let budget = rc_Budget (rr_Context base);
          maxSteps = (if bg_MaxSteps budget \<le> 0 then DefaultMaxSteps else bg_MaxSteps budget);
          remainingSteps = maxSteps - int (length (rs_Steps previous));
          tokens = i64 (bg_MaxTotalTokens budget - tu_TotalTokens (rs_Usage previous));
          cost = i64 (bg_MaxEstimatedCostMicros budget - tu_EstimatedCostMicros (rs_Usage previous))
      in if remainingSteps \<le> 0
         then Inl (run_error ErrorBudgetExceeded (int (length (rs_Steps previous))) [] [] ''repair requires another step but the run step budget is exhausted'' None)
         else if 0 < bg_MaxTotalTokens budget \<and> tokens \<le> 0 then Inl (run_error ErrorBudgetExceeded 0 [] [] ''repair token budget is exhausted'' None)
         else if 0 < bg_MaxEstimatedCostMicros budget \<and> cost \<le> 0 then Inl (run_error ErrorBudgetExceeded 0 [] [] ''repair cost budget is exhausted'' None)
         else Inr (base\<lparr>rr_InitialToolChoice := ToolChoiceAuto, rr_Messages := rs_Messages previous @ [repair_message verification],
                rr_Context := (rr_Context base)\<lparr>rc_Budget := budget\<lparr>bg_MaxSteps := remainingSteps,
                  bg_MaxTotalTokens := (if 0 < bg_MaxTotalTokens budget then tokens else bg_MaxTotalTokens budget),
                  bg_MaxEstimatedCostMicros := (if 0 < bg_MaxEstimatedCostMicros budget then cost else bg_MaxEstimatedCostMicros budget)\<rparr>\<rparr>\<rparr>))"

text \<open>
  What \<^verbatim>\<open>Run\<close> and \<^verbatim>\<open>Resume\<close> do alike after a part of the run, whether it is suspended or completed: take a snapshot of the
  environment, collect evidence and add it to the ledger. The first component is the error that ends the run.
\<close>

definition take_snapshot :: "TaskSpec \<Rightarrow> string \<Rightarrow> 'w Environment option \<Rightarrow> 'w \<Rightarrow> (gerr + EnvironmentSnapshot option) \<times> 'w" where
  "take_snapshot task phase environment w = (case environment of
      None \<Rightarrow> (Inr None, w)
    | Some e \<Rightarrow> (case nv_Snapshot e \<lparr>sq_Task = task, sq_Phase = phase, sq_Scope = []\<rparr> w of
        (Inl err, w1) \<Rightarrow> (Inl err, w1)
      | (Inr s, w1) \<Rightarrow> (Inr (Some s), w1)))"

definition observe_run :: "'w verified_runner \<Rightarrow> bool \<Rightarrow> TaskSpec \<Rightarrow> 'w Environment option \<Rightarrow> RunResult \<Rightarrow> int \<Rightarrow> VerifiedRunResult \<Rightarrow> 'w
    \<Rightarrow> gerr option \<times> VerifiedRunResult \<times> 'w" where
  "observe_run v suspended task environment run attempt result w = (case take_snapshot task SnapshotPhaseAfter environment w of
      (Inl err, w1) \<Rightarrow> (Some (EWrap (if suspended then ''capture suspended environment snapshot: '' else ''capture environment after snapshot: '') err), result, w1)
    | (Inr snapshot, w1) \<Rightarrow>
        let result1 = (case snapshot of None \<Rightarrow> result | Some s \<Rightarrow> result\<lparr>gs_After := Some s\<rparr>)
        in (case vr_Collect v of
              None \<Rightarrow> (None, result1, w1)
            | Some collect \<Rightarrow>
                (case collect \<lparr>eq_Task = task, eq_Run = run, eq_Before = gs_Before result1, eq_After = snapshot, eq_Attempt = attempt\<rparr> w1 of
                   (Inl err, w2) \<Rightarrow> (Some (EWrap (if suspended then ''collect suspended task evidence: '' else ''collect task evidence: '') err), result1, w2)
                 | (Inr items, w2) \<Rightarrow> (case append_evidence (vr_goal v) items (gs_Evidence result1) of
                     (Some err, ledger) \<Rightarrow>
                       (Some (EWrap (if suspended then ''append suspended task evidence: '' else ''append task evidence: '') err), result1\<lparr>gs_Evidence := ledger\<rparr>, w2)
                   | (None, ledger) \<Rightarrow> (None, result1\<lparr>gs_Evidence := ledger\<rparr>, w2)))))"

definition verification_request :: "TaskSpec \<Rightarrow> 'w Environment option \<Rightarrow> VerifiedRunResult \<Rightarrow> VerificationRequest" where
  "verification_request task environment result = \<lparr>vq_Task = task, vq_Run = gs_Run result, vq_Before = gs_Before result,
     vq_After = (case environment of None \<Rightarrow> None | Some e \<Rightarrow> gs_After result), vq_Evidence = gs_Evidence result, vq_RepairAttempts = gs_RepairAttempts result\<rparr>"

section \<open>Checkpoints\<close>

fun check_evidence :: "goal_env \<Rightarrow> string list \<Rightarrow> Evidence list \<Rightarrow> EvidenceLedger \<Rightarrow> gerr option" where
  "check_evidence g criteria [] ledger = None"
| "check_evidence g criteria (item # items) ledger =
     (case List.find (\<lambda>c. trim_space c \<notin> set criteria) (vd_CriterionIDs item) of
        Some c \<Rightarrow> Some (EMsg (''evidence references unknown criterion '' @ ge_quote g c))
      | None \<Rightarrow> (case ledger_With g item ledger of
          Inl err \<Rightarrow> Some (EWrap ''invalid checkpoint evidence: '' err)
        | Inr l \<Rightarrow> check_evidence g criteria items l))"

definition ValidateVerifiedCheckpoint :: "goal_env \<Rightarrow> VerifiedCheckpoint \<Rightarrow> gerr option" where
  "ValidateVerifiedCheckpoint g c =
     (if vc_Version c \<noteq> VerifiedCheckpointVersion then Some (EMsg ''unsupported verified checkpoint version'')
      else if vc_Revision c \<le> 0 then Some (EMsg ''verified checkpoint revision must be positive'')
      else case TaskSpec_Validate g (vc_Task c) of
        Some err \<Rightarrow> Some (EWrap ''invalid checkpoint task: '' err)
      | None \<Rightarrow>
          if trim_space (tk_ID (vc_Task c)) = [] then Some (EMsg ''verified checkpoint task id is required'')
          else (case ValidateRunCheckpoint (vc_Run c) of
              Some err \<Rightarrow> Some (EWrap ''invalid checkpoint run: '' err)
            | None \<Rightarrow>
                if vc_RepairAttempts c < 0 \<or> tk_MaxRepairAttempts (vc_Task c) < vc_RepairAttempts c then Some (EMsg ''verified checkpoint repair attempts are invalid'')
                else if (\<exists>s\<in>set_option (vc_Before c). trim_space (es_Environment s) \<noteq> trim_space (vc_Environment c))
                then Some (EMsg ''verified checkpoint environment snapshot is not bound to the environment'')
                else check_evidence g (map (\<lambda>c. trim_space (cr_ID c)) (tk_CompletionCriteria (vc_Task c))) (lg_Items (vc_Evidence c)) \<lparr>lg_Items = []\<rparr>))"

definition buildVerifiedCheckpoint :: "goal_env \<Rightarrow> TaskSpec \<Rightarrow> RunRequest \<Rightarrow> 'w Environment option \<Rightarrow> VerifiedRunResult \<Rightarrow> int \<Rightarrow> gerr + VerifiedCheckpoint" where
  "buildVerifiedCheckpoint g task base environment result previousRevision =
     (if \<not> isGoalSuspendedStatus (rs_Status (gs_Run result)) then Inl (run_error ErrorInvalidRequest 0 [] [] ''verified checkpoint requires a suspended run'' None)
      else case NewRunCheckpoint base (gs_Run result) of
        Inl err \<Rightarrow> Inl (EWrap ''build verified run checkpoint: '' err)
      | Inr runCheckpoint \<Rightarrow>
          let c = \<lparr>vc_Version = VerifiedCheckpointVersion, vc_Revision = i64 (previousRevision + 1), vc_Task = task, vc_Run = runCheckpoint,
                   vc_Environment = (case environment of None \<Rightarrow> [] | Some e \<Rightarrow> trim_space (nv_Name e)), vc_Evidence = gs_Evidence result, vc_Before = gs_Before result,
                   vc_RepairAttempts = gs_RepairAttempts result\<rparr>
          in (case ValidateVerifiedCheckpoint g c of Some err \<Rightarrow> Inl (EWrap ''validate verified checkpoint: '' err) | None \<Rightarrow> Inr c))"

text \<open>A suspended run with its checkpoint.\<close>

definition suspend_goal :: "goal_env \<Rightarrow> TaskSpec \<Rightarrow> RunRequest \<Rightarrow> 'w Environment option \<Rightarrow> VerifiedRunResult \<Rightarrow> int \<Rightarrow> goal_outcome" where
  "suspend_goal g task base environment result previousRevision =
     (let result1 = result\<lparr>gs_Status := GoalRunSuspended\<rparr>
      in case buildVerifiedCheckpoint g task base environment result1 previousRevision of
           Inl err \<Rightarrow> (result1, Some err)
         | Inr c \<Rightarrow> (result1\<lparr>gs_Checkpoint := Some c\<rparr>, None))"

section \<open>Run\<close>

type_synonym goal_progress = "goal_outcome + RunRequest \<times> VerifiedRunResult"

text \<open>A repair by the builder of the request, checked before it runs.\<close>

definition built_repair :: "goal_env \<Rightarrow> 'w repair_builder \<Rightarrow> RunRequest \<Rightarrow> VerifiedRepairRequest \<Rightarrow> VerifiedRunResult \<Rightarrow> 'w \<Rightarrow> goal_progress \<times> 'w" where
  "built_repair g build base repair result w = (case build repair w of
      (Inl err, w1) \<Rightarrow> (Inl (result, Some err), w1)
    | (Inr candidate, w1) \<Rightarrow> (case validateVerifiedRepairRequest g base (gs_Run result) candidate of
        Some err \<Rightarrow> (Inl (result, Some err), w1)
      | None \<Rightarrow> (Inr (candidate, result), w1)))"

definition failed_attempt :: "goal_env \<Rightarrow> 'w VerifiedRunRequest \<Rightarrow> int \<Rightarrow> gerr \<Rightarrow> VerifiedRunResult \<Rightarrow> 'w \<Rightarrow> goal_progress \<times> 'w" where
  "failed_attempt g request attempt runErr result w =
     (case (if HasErrorCode runErr ErrorModel then projectProviderRoutingBlock g (gr_Task request) result else (result, False, None)) of
        (result1, blocked, Some err) \<Rightarrow> (Inl (result1, Some err), w)
      | (result1, blocked, None) \<Rightarrow>
          if blocked then (Inl (result1, None), w)
          else (case gr_RepairBuilder request of
              None \<Rightarrow> (Inl (result1, Some runErr), w)
            | Some build \<Rightarrow>
                if \<not> HasErrorCode runErr ErrorTool \<or> tk_MaxRepairAttempts (gr_Task request) \<le> attempt then (Inl (result1, Some runErr), w)
                else built_repair g build (gr_Run request)
                  \<lparr>rb_Task = gr_Task request, rb_Base = gr_Run request, rb_Previous = gs_Run result1, rb_Verification = zero_verification, rb_Evidence = gs_Evidence result1,
                   rb_Attempt = attempt + 1, rb_Signal = \<lparr>rg_Reason = VerifiedRepairExecutionFailed, rg_ErrorCode = ErrorTool, rg_MissingCriterionIDs = []\<rparr>\<rparr> result1 w))"

definition suspended_attempt :: "'w verified_runner \<Rightarrow> 'w VerifiedRunRequest \<Rightarrow> int \<Rightarrow> RunResult \<Rightarrow> VerifiedRunResult \<Rightarrow> 'w \<Rightarrow> goal_outcome \<times> 'w" where
  "suspended_attempt v request attempt attemptResult result w =
     (case observe_run v True (gr_Task request) (gr_Environment request) attemptResult attempt result w of
        (Some err, result1, w1) \<Rightarrow> ((result1, Some err), w1)
      | (None, result1, w1) \<Rightarrow> (case vr_VerifySuspension v of
          None \<Rightarrow> (suspend_goal (vr_goal v) (gr_Task request) (gr_Run request) (gr_Environment request)
                     (result1\<lparr>gs_Verification := zero_verification\<lparr>vf_Status := VerificationInconclusive\<rparr>\<rparr>) 0, w1)
        | Some verify \<Rightarrow> (case verify (verification_request (gr_Task request) (gr_Environment request) result1) w1 of
            (Inl err, w2) \<Rightarrow> ((result1, Some (EWrap ''verify task suspension: '' err)), w2)
          | (Inr verification, w2) \<Rightarrow>
              let result2 = result1\<lparr>gs_Verification := verification\<rparr>
              in if \<not> Passed verification then ((result2\<lparr>gs_Status := GoalRunBlocked\<rparr>, None), w2)
                 else (suspend_goal (vr_goal v) (gr_Task request) (gr_Run request) (gr_Environment request) result2 0, w2))))"

definition completed_attempt :: "'w verified_runner \<Rightarrow> (VerificationRequest \<Rightarrow> 'w \<Rightarrow> (gerr + VerificationResult) \<times> 'w) \<Rightarrow> 'w VerifiedRunRequest \<Rightarrow> int \<Rightarrow> RunResult
    \<Rightarrow> VerifiedRunResult \<Rightarrow> 'w \<Rightarrow> goal_progress \<times> 'w" where
  "completed_attempt v verify request attempt attemptResult result w =
     (case observe_run v False (gr_Task request) (gr_Environment request) attemptResult attempt result w of
        (Some err, result1, w1) \<Rightarrow> (Inl (result1, Some err), w1)
      | (None, result1, w1) \<Rightarrow> (case verify (verification_request (gr_Task request) (gr_Environment request) result1) w1 of
          (Inl err, w2) \<Rightarrow> (Inl (result1, Some (EWrap ''verify task completion: '' err)), w2)
        | (Inr verification, w2) \<Rightarrow>
            let result2 = result1\<lparr>gs_Verification := verification\<rparr>
            in if Passed verification then (Inl (result2\<lparr>gs_Status := GoalRunVerified\<rparr>, None), w2)
               else if \<not> vf_Retryable verification \<or> tk_MaxRepairAttempts (gr_Task request) \<le> attempt then (Inl (result2\<lparr>gs_Status := GoalRunBlocked\<rparr>, None), w2)
               else (case gr_RepairBuilder request of
                   None \<Rightarrow> (case buildGoalRepairRequest (gr_Run request) (gs_Run result2) verification of
                       Inl err \<Rightarrow> (Inl (result2, Some err), w2)
                     | Inr candidate \<Rightarrow> (Inr (candidate, result2), w2))
                 | Some build \<Rightarrow> built_repair (vr_goal v) build (gr_Run request)
                     \<lparr>rb_Task = gr_Task request, rb_Base = gr_Run request, rb_Previous = gs_Run result2, rb_Verification = verification, rb_Evidence = gs_Evidence result2,
                      rb_Attempt = attempt + 1, rb_Signal = \<lparr>rg_Reason = VerifiedRepairEvidenceMissing, rg_ErrorCode = [],
                        rg_MissingCriterionIDs = sortedUniqueStrings (vf_MissingEvidence verification)\<rparr>\<rparr> result2 w2)))"

definition goal_attempt :: "'w verified_runner \<Rightarrow> (RunRequest \<Rightarrow> 'w \<Rightarrow> run_outcome \<times> 'w) \<Rightarrow> (VerificationRequest \<Rightarrow> 'w \<Rightarrow> (gerr + VerificationResult) \<times> 'w)
    \<Rightarrow> 'w VerifiedRunRequest \<Rightarrow> int \<Rightarrow> RunRequest \<Rightarrow> VerifiedRunResult \<Rightarrow> 'w \<Rightarrow> goal_progress \<times> 'w" where
  "goal_attempt v run verify request attempt currentRequest result w =
     (let ((attemptResult, runErr), w1) = run currentRequest w;
          result1 = result\<lparr>gs_Run := mergeGoalRunResults (gs_Run result) attemptResult (rr_Context (gr_Run request)), gs_RepairAttempts := attempt\<rparr>
      in case runErr of
           Some err \<Rightarrow> if \<not> isGoalSuspendedStatus (rs_Status attemptResult) then failed_attempt (vr_goal v) request attempt err result1 w1
                       else (let (out, w2) = suspended_attempt v request attempt attemptResult result1 w1 in (Inl out, w2))
         | None \<Rightarrow> if rs_Status attemptResult \<noteq> RunStatusCompleted
                   then (let (out, w2) = suspended_attempt v request attempt attemptResult result1 w1 in (Inl out, w2))
                   else completed_attempt v verify request attempt attemptResult result1 w1)"

lemma built_repair_run: "built_repair g build base repair result w = (Inr (q, r), w') \<Longrightarrow> r = result"
  by (auto simp: built_repair_def split: prod.splits sum.splits option.splits)

lemma goal_attempt_repairs: "goal_attempt v run verify request attempt q result w = (Inr x, w') \<Longrightarrow> attempt < tk_MaxRepairAttempts (gr_Task request)"
  by (auto simp: goal_attempt_def failed_attempt_def completed_attempt_def Let_def split: prod.splits option.splits sum.splits if_splits)

function goal_loop :: "'w verified_runner \<Rightarrow> (RunRequest \<Rightarrow> 'w \<Rightarrow> run_outcome \<times> 'w) \<Rightarrow> (VerificationRequest \<Rightarrow> 'w \<Rightarrow> (gerr + VerificationResult) \<times> 'w)
    \<Rightarrow> 'w VerifiedRunRequest \<Rightarrow> int \<Rightarrow> RunRequest \<Rightarrow> VerifiedRunResult \<Rightarrow> 'w \<Rightarrow> goal_outcome \<times> 'w" where
  "goal_loop v run verify request attempt currentRequest result w = (case goal_attempt v run verify request attempt currentRequest result w of
      (Inl out, w1) \<Rightarrow> (out, w1)
    | (Inr (nextRequest, result1), w1) \<Rightarrow> goal_loop v run verify request (attempt + 1) nextRequest result1 w1)"
  by pat_completeness auto
termination
  by (relation "measure (\<lambda>(v, run, verify, request, attempt, q, r, w). nat (tk_MaxRepairAttempts (gr_Task request) - attempt))")
    (auto dest!: sym [of "(_, _)"] goal_attempt_repairs)

declare goal_loop.simps [simp del]

definition VerifiedRunner_Run :: "'w verified_runner \<Rightarrow> 'w VerifiedRunRequest \<Rightarrow> 'w \<Rightarrow> goal_outcome \<times> 'w" where
  "VerifiedRunner_Run v request0 w =
     (let result = new_goal_result (gr_Evidence request0) None 0; refuse = (\<lambda>message cause. ((result, Some (run_error ErrorInvalidRequest 0 [] [] message cause)), w))
      in case vr_Run v of
           None \<Rightarrow> refuse ''agent runner is required'' None
         | Some run \<Rightarrow> (case vr_Verify v of
             None \<Rightarrow> refuse ''task verifier is required'' None
           | Some verify \<Rightarrow> (case TaskSpec_Validate (vr_goal v) (gr_Task request0) of
               Some err \<Rightarrow> refuse ''invalid task specification'' (Some err)
             | None \<Rightarrow> (case resolveGoalTools (gr_Task request0) (rr_Tools (gr_Run request0)) (gr_Environment request0) w of
                 (Inl err, w1) \<Rightarrow> ((result, Some err), w1)
               | (Inr tools, w1) \<Rightarrow>
                   let request = request0\<lparr>gr_Run := (gr_Run request0)\<lparr>rr_Tools := tools\<rparr>\<rparr>
                   in (case take_snapshot (gr_Task request) SnapshotPhaseBefore (gr_Environment request) w1 of
                         (Inl err, w2) \<Rightarrow> ((result, Some (EWrap ''capture environment before snapshot: '' err)), w2)
                       | (Inr snapshot, w2) \<Rightarrow> goal_loop v run verify request 0 (gr_Run request) (result\<lparr>gs_Before := snapshot\<rparr>) w2)))))"

section \<open>Resume\<close>

definition usageIsMonotonic :: "TokenUsage \<Rightarrow> TokenUsage \<Rightarrow> bool" where
  "usageIsMonotonic previous current \<longleftrightarrow> tu_InputTokens previous \<le> tu_InputTokens current \<and> tu_OutputTokens previous \<le> tu_OutputTokens current
     \<and> tu_TotalTokens previous \<le> tu_TotalTokens current \<and> tu_EstimatedCostMicros previous \<le> tu_EstimatedCostMicros current"

definition first_change :: "'a list \<Rightarrow> 'a list \<Rightarrow> nat option" where
  "first_change xs ys = List.find (\<lambda>i. xs ! i \<noteq> ys ! i) [0..<length xs]"

definition validateResumedGoalResult :: "goal_env \<Rightarrow> RunCheckpoint \<Rightarrow> RunResult \<Rightarrow> gerr option" where
  "validateResumedGoalResult g checkpoint resumed =
     (if cp_Context checkpoint \<noteq> rs_Context resumed then Some (EMsg ''resumed run context does not match the checkpoint'')
      else if rs_Status resumed \<noteq> RunStatusCompleted \<and> \<not> isGoalSuspendedStatus (rs_Status resumed)
      then Some (EMsg (''resumed run status '' @ ge_quote g (rs_Status resumed) @ '' is not valid''))
      else if length (rs_Messages resumed) < length (cp_Messages checkpoint) then Some (EMsg ''resumed run message history was truncated'')
      else case first_change (cp_Messages checkpoint) (rs_Messages resumed) of
        Some i \<Rightarrow> Some (EMsg (''resumed run message history changed at index '' @ show_nat i))
      | None \<Rightarrow>
          if length (rs_Steps resumed) < length (cp_Steps checkpoint) then Some (EMsg ''resumed run step history was truncated'')
          else (case first_change (butlast (cp_Steps checkpoint)) (rs_Steps resumed) of
              Some i \<Rightarrow> Some (EMsg (''resumed run step history changed at index '' @ show_nat i))
            | None \<Rightarrow>
                if cp_Steps checkpoint \<noteq> [] \<and> st_Actions (last (cp_Steps checkpoint)) \<noteq> st_Actions (rs_Steps resumed ! (length (cp_Steps checkpoint) - 1))
                then Some (EMsg ''resumed run pending step actions changed'')
                else if \<not> usageIsMonotonic (cp_Usage checkpoint) (rs_Usage resumed) then Some (EMsg ''resumed run usage moved backwards'')
                else None))"

definition validateVerifiedEnvironment :: "string \<Rightarrow> 'w Environment option \<Rightarrow> gerr option" where
  "validateVerifiedEnvironment expected environment =
     (let actual = (case environment of None \<Rightarrow> [] | Some e \<Rightarrow> trim_space (nv_Name e))
      in if trim_space expected \<noteq> actual then Some (EMsg ''verified checkpoint environment does not match the current environment'') else None)"

definition resume_evidence :: "goal_env \<Rightarrow> VerifiedCheckpoint \<Rightarrow> Evidence" where
  "resume_evidence g c =
     (let runID = trim_space (rc_RunID (cp_Context (vc_Run c))); steps = cp_Steps (vc_Run c);
          identity = vc_Version c @ ''|'' @ show_int (vc_Revision c) @ ''|'' @ cp_Version (vc_Run c) @ ''|'' @ runID @ ''|'' @ ac_ID (cp_PendingAction (vc_Run c)) @ ''|''
            @ cp_PendingResumeKind (vc_Run c) @ ''|'' @ show_nat (length steps)
      in \<lparr>vd_ID = ''checkpoint-resume:'' @ runID @ '':'' @ show_int (vc_Revision c), vd_Kind = EvidenceCheckpointResume, vd_Source = CheckpointResumeEvidenceSource,
          vd_CriterionIDs = [], vd_Digest = ''sha256:'' @ ge_sha256 g identity,
          vd_Reference = ''agent-run://'' @ runID @ ''/checkpoints/'' @ show_int (vc_Revision c) @ ''/resume'',
          vd_StepIndex = (if steps = [] then 0 else st_Index (last steps)), vd_CapturedAt = (if steps = [] then 0 else st_FinishedAt (last steps))\<rparr>)"

definition appendCheckpointResumeEvidence :: "goal_env \<Rightarrow> EvidenceLedger \<Rightarrow> VerifiedCheckpoint \<Rightarrow> gerr + EvidenceLedger" where
  "appendCheckpointResumeEvidence g ledger c = ledger_With g (resume_evidence g c) ledger"

definition resumedGoalSegment :: "RunCheckpoint \<Rightarrow> RunResult \<Rightarrow> RunResult" where
  "resumedGoalSegment checkpoint resumed = resumed\<lparr>rs_Steps := drop (length (cp_Steps checkpoint) - 1) (rs_Steps resumed)\<rparr>"

text \<open>One round of the loop: the result and the run that the next evidence comes from.\<close>

definition resumed_round :: "'w verified_runner \<Rightarrow> (RunRequest \<Rightarrow> 'w \<Rightarrow> run_outcome \<times> 'w) \<Rightarrow> (VerificationRequest \<Rightarrow> 'w \<Rightarrow> (gerr + VerificationResult) \<times> 'w)
    \<Rightarrow> VerifiedCheckpoint \<Rightarrow> RunRequest \<Rightarrow> 'w Environment option \<Rightarrow> RunResult \<Rightarrow> VerifiedRunResult \<Rightarrow> 'w \<Rightarrow> (goal_outcome + RunResult \<times> VerifiedRunResult) \<times> 'w" where
  "resumed_round v run verify checkpoint base environment evidenceRun result w =
     (let task = vc_Task checkpoint; suspended = (rs_Status (gs_Run result) \<noteq> RunStatusCompleted)
      in case observe_run v suspended task environment evidenceRun (gs_RepairAttempts result) result w of
           (Some err, result1, w1) \<Rightarrow> (Inl (result1, Some err), w1)
         | (None, result1, w1) \<Rightarrow>
             if suspended
             then (Inl (suspend_goal (vr_goal v) task base environment (result1\<lparr>gs_Verification := zero_verification\<lparr>vf_Status := VerificationInconclusive\<rparr>\<rparr>)
                     (vc_Revision checkpoint)), w1)
             else (case verify (verification_request task environment result1) w1 of
                 (Inl err, w2) \<Rightarrow> (Inl (result1, Some (EWrap ''verify task completion: '' err)), w2)
               | (Inr verification, w2) \<Rightarrow>
                   let result2 = result1\<lparr>gs_Verification := verification\<rparr>
                   in if Passed verification then (Inl (result2\<lparr>gs_Status := GoalRunVerified\<rparr>, None), w2)
                      else if \<not> vf_Retryable verification \<or> tk_MaxRepairAttempts task \<le> gs_RepairAttempts result2
                      then (Inl (result2\<lparr>gs_Status := GoalRunBlocked\<rparr>, None), w2)
                      else
                        let result3 = result2\<lparr>gs_RepairAttempts := gs_RepairAttempts result2 + 1\<rparr>
                        in (case buildGoalRepairRequest base (gs_Run result3) verification of
                              Inl err \<Rightarrow> (Inl (result3, Some err), w2)
                            | Inr repairRequest \<Rightarrow>
                                let ((repairResult, repairErr), w3) = run repairRequest w2
                                in if repairErr \<noteq> None \<and> \<not> isGoalSuspendedStatus (rs_Status repairResult) then (Inl (result3, repairErr), w3)
                                   else (Inr (repairResult, result3\<lparr>gs_Run := mergeGoalRunResults (gs_Run result3) repairResult (rr_Context base)\<rparr>), w3))))"

lemma observe_run_attempts: "observe_run v s task e run a result w = (err, result1, w') \<Longrightarrow> gs_RepairAttempts result1 = gs_RepairAttempts result"
  by (auto simp: observe_run_def Let_def split: prod.splits sum.splits option.splits)

lemma resumed_round_repairs:
  "resumed_round v run verify c base e er result w = (Inr (er', result'), w') \<Longrightarrow>
     gs_RepairAttempts result' = gs_RepairAttempts result + 1 \<and> gs_RepairAttempts result < tk_MaxRepairAttempts (vc_Task c)"
  by (auto simp: resumed_round_def Let_def dest: observe_run_attempts split: prod.splits option.splits sum.splits if_splits)

lemma resumed_round_measure:
  assumes "(Inr (er', result'), w') = resumed_round v run verify c base e er result w"
  shows "nat (tk_MaxRepairAttempts (vc_Task c) - gs_RepairAttempts result') < nat (tk_MaxRepairAttempts (vc_Task c) - gs_RepairAttempts result)"
  using resumed_round_repairs [OF assms [symmetric]] by simp

function resumed_loop :: "'w verified_runner \<Rightarrow> (RunRequest \<Rightarrow> 'w \<Rightarrow> run_outcome \<times> 'w) \<Rightarrow> (VerificationRequest \<Rightarrow> 'w \<Rightarrow> (gerr + VerificationResult) \<times> 'w)
    \<Rightarrow> VerifiedCheckpoint \<Rightarrow> RunRequest \<Rightarrow> 'w Environment option \<Rightarrow> RunResult \<Rightarrow> VerifiedRunResult \<Rightarrow> 'w \<Rightarrow> goal_outcome \<times> 'w" where
  "resumed_loop v run verify checkpoint base environment evidenceRun result w = (case resumed_round v run verify checkpoint base environment evidenceRun result w of
      (Inl out, w1) \<Rightarrow> (out, w1)
    | (Inr (evidenceRun1, result1), w1) \<Rightarrow> resumed_loop v run verify checkpoint base environment evidenceRun1 result1 w1)"
  by pat_completeness auto
termination
  by (relation "measure (\<lambda>(v, run, verify, c, base, e, er, r, w). nat (tk_MaxRepairAttempts (vc_Task c) - gs_RepairAttempts r))")
    (auto dest!: resumed_round_measure)

declare resumed_loop.simps [simp del]

definition VerifiedRunner_Resume :: "'w verified_runner \<Rightarrow> 'w VerifiedResumeRequest \<Rightarrow> 'w \<Rightarrow> goal_outcome \<times> 'w" where
  "VerifiedRunner_Resume v request w =
     (let c = vm_Checkpoint request; g = vr_goal v; result = new_goal_result (vc_Evidence c) (vc_Before c) (vc_RepairAttempts c);
          refuse = (\<lambda>code message cause. ((result, Some (run_error code 0 [] [] message cause)), w))
      in case vr_Run v of
           None \<Rightarrow> refuse ErrorInvalidRequest ''agent runner is required'' None
         | Some run \<Rightarrow> (case vr_Verify v of
             None \<Rightarrow> refuse ErrorInvalidRequest ''task verifier is required'' None
           | Some verify \<Rightarrow> (case ValidateVerifiedCheckpoint g c of
               Some err \<Rightarrow> refuse ErrorInvalidRequest ''invalid verified checkpoint'' (Some err)
             | None \<Rightarrow> (case validateVerifiedEnvironment (vc_Environment c) (vm_Environment request) of
                 Some err \<Rightarrow> refuse ErrorInvalidRequest (error_text err) None
               | None \<Rightarrow> (case vr_Resume v of
                   None \<Rightarrow> refuse ErrorUnsupported ''agent runner does not support verified resume'' None
                 | Some resume \<Rightarrow> (case resolveGoalTools (vc_Task c) (vm_Tools request) (vm_Environment request) w of
                     (Inl err, w1) \<Rightarrow> ((result, Some err), w1)
                   | (Inr tools, w1) \<Rightarrow>
                       let base = \<lparr>rr_Context = cp_Context (vc_Run c), rr_Model = cp_Model (vc_Run c), rr_Messages = [], rr_Tools = tools, rr_InitialToolChoice = []\<rparr>;
                           ((resumed, runErr), w2) = resume \<lparr>rm_Checkpoint = vc_Run c, rm_HumanResponse = vm_HumanResponse request, rm_ApprovalID = vm_ApprovalID request,
                             rm_ResumeToken = vm_ResumeToken request, rm_Tools = tools\<rparr> w1
                       in if runErr \<noteq> None \<and> \<not> isGoalSuspendedStatus (rs_Status resumed) then ((result, runErr), w2)
                          else (case validateResumedGoalResult g (vc_Run c) resumed of
                              Some err \<Rightarrow> ((result, Some (run_error ErrorInvalidRequest 0 [] [] ''invalid resumed run result'' (Some err))), w2)
                            | None \<Rightarrow> (case appendCheckpointResumeEvidence g (gs_Evidence result) c of
                                Inl err \<Rightarrow> ((result\<lparr>gs_Evidence := \<lparr>lg_Items = []\<rparr>\<rparr>, Some (EWrap ''append checkpoint resume evidence: '' err)), w2)
                              | Inr ledger \<Rightarrow>
                                  resumed_loop v run verify c base (vm_Environment request) (resumedGoalSegment (vc_Run c) resumed)
                                    (result\<lparr>gs_Evidence := ledger, gs_Run := resumed\<rparr>) w2))))))))"

end
