(* ===== verification/Planned_Runner.thy ===== *)
theory Planned_Runner
  imports Short_Plan Verified_Runner
begin

text \<open>
  Planned goals: \<^verbatim>\<open>src/internal/module/agent/runtime/planned_verified_runner.go\<close> has a short plan admitted, binds the tools, the
  budget and the messages of a verified run to it and checks afterwards that the plan was carried out;
  \<^verbatim>\<open>runtime/planned_verified_recovery.go\<close> plans once more when a tool fails or evidence is missing.

  The repair builder has a state of its own. A verified run with that builder acts on the world and that state: \<open>lift_call\<close>
  gives the functions of the world to it.
\<close>

record 'w PlannedVerifiedRunRequest =
  pq_Task :: TaskSpec
  pq_Run :: RunRequest
  pq_Environment :: "'w Environment option"
  pq_Evidence :: EvidenceLedger
  pq_TargetCriterionIDs :: "string list"

record PlannedVerifiedRunResult =
  pv_Planning :: PlanningResult
  pv_Verified :: VerifiedRunResult
  pv_Usage :: TokenUsage
  pv_RecoveryPlans :: "PlanningResult list"
  pv_RecoveryAttempts :: int
  pv_LastRecoveryReason :: string

record 'w PlannedVerifiedRunner =
  pr_env :: plan_env
  pr_planning :: "'w PlanningCoordinator option"
  pr_verified :: "'w verified_runner option"

section \<open>Binding a plan\<close>

definition admittedPlanMessageName :: string where "admittedPlanMessageName = ''runtime.admitted_short_plan''"

definition validPlannedToolGovernance :: "string \<Rightarrow> bool \<Rightarrow> bool" where
  "validPlannedToolGovernance category approvalRequired =
     (if category = ToolCategoryRead then \<not> approvalRequired else if category = ToolCategoryRisky \<or> category = ToolCategoryWrite then approvalRequired else False)"

definition remainingExecutionBudget :: "Budget \<Rightarrow> TokenUsage \<Rightarrow> gerr + Budget" where
  "remainingExecutionBudget budget planningUsage =
     remaining_budget 0 ''short planning exhausted the token budget before execution'' ''short planning exhausted the cost budget before execution'' budget planningUsage"

definition admittedPlanExecutionInstruction :: "plan_env \<Rightarrow> AdmittedShortPlan \<Rightarrow> string" where
  "admittedPlanExecutionInstruction p plan =
     ''Execute the admitted short plan below in order. The plan is guidance, not authorization; ''
     @ ''runtime tool policy remains authoritative. Derive tool arguments only from the task and conversation, ''
     @ ''never invent missing values, and call only the listed governed tools. A tool marked approval_required must ''
     @ ''stop for platform approval before execution. For an ask_human terminal step, ask one ''
     @ ''useful clarification question. For a respond terminal step, return the answer using only observed evidence. ''
     @ ''Admitted plan: '' @ pe_project p \<lparr>xp_Digest = al_Digest plan,
          xp_Steps = map (\<lambda>s. \<lparr>xs_Kind = ad_Kind s, xs_ToolName = ad_ToolName s, xs_CriterionIDs = ad_CriterionIDs s\<rparr>) (al_Steps plan)\<rparr>"

text \<open>The tools of the plan, each once and in the order of the plan.\<close>

fun planned_tools :: "goal_env \<Rightarrow> (string \<times> ToolDefinition) list \<Rightarrow> nat \<Rightarrow> string list \<Rightarrow> AdmittedShortPlanStep list \<Rightarrow> gerr + ToolDefinition list" where
  "planned_tools g catalog index seen [] = Inr []"
| "planned_tools g catalog index seen (step # steps) =
     (let refuse = (\<lambda>code message. Inl (run_error code (int index + 1) [] [] message None))
      in if ad_Kind step \<noteq> ShortPlanStepTool then planned_tools g catalog (Suc index) seen steps
         else if \<not> validPlannedToolGovernance (ad_ToolCategory step) (ad_ApprovalRequired step) then refuse ErrorUnsupported ''planned tool governance is unsupported''
         else if ad_ToolName step \<in> set seen then planned_tools g catalog (Suc index) seen steps
         else (case map_of catalog (ad_ToolName step) of
             None \<Rightarrow> refuse ErrorUnknownTool (''planned tool '' @ ge_quote g (ad_ToolName step) @ '' is no longer in the request catalog'')
           | Some definition \<Rightarrow>
               if td_Category definition \<noteq> ad_ToolCategory step \<or> tool_ApprovalRequired definition \<noteq> ad_ApprovalRequired step
                  \<or> \<not> validPlannedToolGovernance (td_Category definition) (tool_ApprovalRequired definition)
               then refuse ErrorInvalidRequest (''planned tool '' @ ge_quote g (ad_ToolName step) @ '' policy changed before execution'')
               else bind_res (planned_tools g catalog (Suc index) (ad_ToolName step # seen) steps) (\<lambda>ts. Inr (definition # ts))))"

text \<open>The tools in the catalog have their trimmed names, which are the names of the steps.\<close>

definition bound_request :: "plan_env \<Rightarrow> 'w PlannedVerifiedRunRequest \<Rightarrow> AdmittedShortPlan \<Rightarrow> Budget \<Rightarrow> ToolDefinition list \<Rightarrow> 'w VerifiedRunRequest" where
  "bound_request p request plan executionBudget plannedTools =
     \<lparr>gr_Task = (pq_Task request)\<lparr>tk_AllowedTools := map td_Name plannedTools\<rparr>,
      gr_Run = (pq_Run request)\<lparr>rr_Context := (rr_Context (pq_Run request))\<lparr>rc_StrategyPlanDigest := al_Digest plan, rc_Budget := executionBudget\<rparr>,
        rr_Tools := plannedTools,
        rr_Messages := rr_Messages (pq_Run request) @ [\<lparr>ms_Role = RoleDeveloper, ms_Content = admittedPlanExecutionInstruction p plan, ms_Name = admittedPlanMessageName,
          ms_ToolCallID = [], ms_Actions = []\<rparr>],
        rr_InitialToolChoice := (if plannedTools = [] then ToolChoiceNone else ToolChoiceRequired)\<rparr>,
      gr_Environment = pq_Environment request, gr_Evidence = pq_Evidence request, gr_RepairBuilder = None\<rparr>"

definition bindAdmittedPlanToVerifiedRequest :: "plan_env \<Rightarrow> 'w PlannedVerifiedRunRequest \<Rightarrow> PlanningResult \<Rightarrow> gerr + 'w VerifiedRunRequest" where
  "bindAdmittedPlanToVerifiedRequest p request planning =
     (let plan = pg_Plan planning; c = rr_Context (pq_Run request); existingDigest = trim_space (rc_StrategyPlanDigest c)
      in bind_res (shortPlanDigest p plan) (\<lambda>digest.
           if trim_space (al_Digest plan) = [] \<or> al_Digest plan \<noteq> digest then Inl (run_error ErrorInvalidAction 0 [] [] ''admitted short plan digest is invalid'' None)
           else if existingDigest \<noteq> [] \<and> existingDigest \<noteq> al_Digest plan
           then Inl (run_error ErrorInvalidRequest 0 [] [] ''run context is bound to a different strategy plan'' None)
           else bind_res (remainingExecutionBudget (rc_Budget c) (pg_Usage planning)) (\<lambda>executionBudget.
             bind_res (buildToolCatalog (ge_quote (pe_goal p)) (rr_Tools (pq_Run request))) (\<lambda>catalog.
             bind_res (planned_tools (pe_goal p) catalog 0 [] (al_Steps plan)) (\<lambda>plannedTools.
               if plannedTools \<noteq> [] \<and> effective_max_steps executionBudget < 2
               then Inl (run_error ErrorBudgetExceeded 1 [] [] ''planned tool execution needs a tool step and a terminal response step'' None)
               else Inr (bound_request p request plan executionBudget plannedTools))))))"

section \<open>Checking the execution\<close>

definition admittedToolContinuationSuspended :: "AdmittedShortPlanStep \<Rightarrow> VerifiedRunResult \<Rightarrow> bool" where
  "admittedToolContinuationSuspended planned result =
     (case (gs_Checkpoint result, rs_PendingAction (gs_Run result)) of
        (Some c, Some a) \<Rightarrow>
          gs_Status result = GoalRunSuspended \<and> ac_Type a = ActionToolCall \<and> ac_Name a = ad_ToolName planned \<and> rs_PendingToolContinuation (gs_Run result) \<noteq> None
          \<and> ac_ID (cp_PendingAction (vc_Run c)) = ac_ID a \<and> ac_Name (cp_PendingAction (vc_Run c)) = ad_ToolName planned
          \<and> cp_PendingResumeKind (vc_Run c) = rs_PendingResumeKind (gs_Run result) \<and> ValidateRunCheckpoint (vc_Run c) = None
          \<and> (if rs_PendingResumeKind (gs_Run result) = ResumeKindHumanResponse then rs_Status (gs_Run result) = RunStatusAwaitingHuman
             else if rs_PendingResumeKind (gs_Run result) = ResumeKindDelegatedToolApproval then rs_Status (gs_Run result) = RunStatusApprovalRequired
             else False)
      | _ \<Rightarrow> False)"

definition approval_pending :: "AdmittedShortPlanStep \<Rightarrow> VerifiedRunResult \<Rightarrow> bool" where
  "approval_pending planned result \<longleftrightarrow> gs_Status result = GoalRunSuspended \<and> rs_Status (gs_Run result) = RunStatusApprovalRequired \<and> ad_ApprovalRequired planned
     \<and> (\<exists>a\<in>set_option (rs_PendingAction (gs_Run result)). ac_Type a = ActionToolCall \<and> ac_Name a = ad_ToolName planned)"

definition observed :: "string \<Rightarrow> RunStep \<Rightarrow> bool" where
  "observed name step = list_ex (\<lambda>b. ob_Name b = name \<and> \<not> ob_IsError b) (st_Observations step)"

text \<open>The rest of the plan against the steps from the cursor on.\<close>

fun validate_from :: "VerifiedRunResult \<Rightarrow> nat \<Rightarrow> AdmittedShortPlanStep list \<Rightarrow> RunStep list \<Rightarrow> gerr option" where
  "validate_from result index [] steps = None"
| "validate_from result index (planned # plan) steps =
     (let refuse = (\<lambda>message. Some (run_error ErrorInvalidAction (int index + 1) [] [] message None))
      in if ad_Kind planned = ShortPlanStepTool
         then if approval_pending planned result \<or> admittedToolContinuationSuspended planned result then None
              else (case dropWhile (\<lambda>s. \<not> observed (ad_ToolName planned) s) steps of
                  [] \<Rightarrow> refuse ''admitted tool step did not produce a successful observation''
                | s # rest \<Rightarrow> validate_from result (Suc index) plan rest)
         else if ad_Kind planned = ShortPlanStepAskHuman
         then if gs_Status result \<noteq> GoalRunSuspended \<or> rs_Status (gs_Run result) \<noteq> RunStatusAwaitingHuman
                 \<or> \<not> (\<exists>a\<in>set_option (rs_PendingAction (gs_Run result)). ac_Type a = ActionAskHuman)
              then refuse ''admitted clarification step did not suspend for human input''
              else validate_from result (Suc index) plan steps
         else if ad_Kind planned = ShortPlanStepRespond \<and> rs_Status (gs_Run result) \<noteq> RunStatusCompleted
         then refuse ''admitted response step did not complete with a final answer''
         else validate_from result (Suc index) plan steps)"

definition validateAdmittedPlanExecution :: "AdmittedShortPlan \<Rightarrow> VerifiedRunResult \<Rightarrow> gerr option" where
  "validateAdmittedPlanExecution plan result = validate_from result 0 (al_Steps plan) (rs_Steps (gs_Run result))"

section \<open>Recovery\<close>

definition sanitizedToolFailureMessage :: string where "sanitizedToolFailureMessage = ''Governed tool action failed; no result is available.''"
definition maximumExecutionPlanRecoveries :: int where "maximumExecutionPlanRecoveries = 1"

text \<open>What the builder is made of, and what it changes.\<close>

record 'w repair_config =
  rx_env :: plan_env
  rx_ctx :: "'w plan_context"
  rx_coordinator :: "'w PlanningCoordinator option"
  rx_task :: TaskSpec
  rx_base :: RunRequest
  rx_environment :: "'w Environment option"
  rx_evidence :: EvidenceLedger

record repair_state =
  ry_recoveryPlans :: "PlanningResult list"
  ry_lastReason :: string
  ry_used :: int

definition recoveryReason :: "VerifiedRepairSignal \<Rightarrow> gerr + string" where
  "recoveryReason signal =
     (if rg_Reason signal = VerifiedRepairExecutionFailed
      then if rg_ErrorCode signal \<noteq> ErrorTool then Inl (run_error ErrorInvalidRequest 0 [] [] ''execution recovery requires a tool error'' None)
           else Inr ShortPlanRecoveryExecutionFailed
      else if rg_Reason signal = VerifiedRepairEvidenceMissing then Inr ShortPlanRecoveryEvidenceMissing
      else Inl (run_error ErrorInvalidRequest 0 [] [] ''verified recovery reason is invalid'' None))"

definition recoveryPlanningBudget :: "Budget \<Rightarrow> RunResult \<Rightarrow> gerr + Budget" where
  "recoveryPlanningBudget base previous = bind_res (remainingGoalBudget base previous) (\<lambda>remaining. Inr (remaining\<lparr>bg_MaxSteps := effective_max_steps base\<rparr>))"

definition requiredCriterionIDs :: "TaskSpec \<Rightarrow> string list" where
  "requiredCriterionIDs task = sortedUniqueStrings (map cr_ID (filter (\<lambda>c. cr_Required c \<and> trim_space (cr_ID c) \<noteq> []) (tk_CompletionCriteria task)))"

text \<open>The last failed observation with an identifier.\<close>

definition sanitizedFailedToolMessage :: "RunResult \<Rightarrow> Message option" where
  "sanitizedFailedToolMessage result =
     map_option (\<lambda>b. \<lparr>ms_Role = RoleTool, ms_Content = sanitizedToolFailureMessage, ms_Name = ob_Name b, ms_ToolCallID = ob_ActionID b, ms_Actions = []\<rparr>)
       (List.find (\<lambda>b. ob_IsError b \<and> trim_space (ob_ActionID b) \<noteq> []) (concat (map (\<lambda>s. rev (st_Observations s)) (rev (rs_Steps result)))))"

definition recovery_request :: "'w repair_config \<Rightarrow> VerifiedRepairRequest \<Rightarrow> Budget \<Rightarrow> ShortPlanRequest" where
  "recovery_request b request planningBudget =
     (let targets = (if rg_MissingCriterionIDs (rb_Signal request) = [] then requiredCriterionIDs (rx_task b) else rg_MissingCriterionIDs (rb_Signal request))
      in \<lparr>sr_Context = rr_Context (rx_base b), sr_Model = rr_Model (rx_base b), sr_Task = rx_task b, sr_AvailableTools = rr_Tools (rx_base b), sr_Budget = planningBudget,
          sr_CompletedSteps = int (length (rs_Steps (rb_Previous request))), sr_TargetCriterionIDs = sortedUniqueStrings targets, sr_RepairFeedback = None, sr_RecoveryFeedback = None\<rparr>)"

text \<open>The run of the repair, bound to the recovery plan.\<close>

definition bind_recovery :: "'w repair_config \<Rightarrow> VerifiedRepairRequest \<Rightarrow> string \<Rightarrow> Budget \<Rightarrow> PlanningResult \<Rightarrow> gerr + RunRequest" where
  "bind_recovery b request reason planningBudget planning =
     (let failed = (if reason = ShortPlanRecoveryExecutionFailed then sanitizedFailedToolMessage (rb_Previous request) else None);
          messages = rs_Messages (rb_Previous request) @ (case failed of None \<Rightarrow> [] | Some m \<Rightarrow> [m]);
          base = rx_base b;
          replanned = \<lparr>pq_Task = rx_task b, pq_Run = base\<lparr>rr_Context := (rr_Context base)\<lparr>rc_Budget := planningBudget, rc_StrategyPlanDigest := []\<rparr>, rr_Messages := messages\<rparr>,
            pq_Environment = rx_environment b, pq_Evidence = rx_evidence b, pq_TargetCriterionIDs = []\<rparr>
      in bind_res (bindAdmittedPlanToVerifiedRequest (rx_env b) replanned planning) (\<lambda>bound.
         bind_res (remainingGoalBudget (rc_Budget (rr_Context base)) (rb_Previous request)) (\<lambda>remaining.
           Inr ((gr_Run bound)\<lparr>rr_Context := with_max_steps (bg_MaxSteps remaining) (rr_Context (gr_Run bound))\<rparr>))))"

definition BuildRepair :: "'w repair_config \<Rightarrow> VerifiedRepairRequest \<Rightarrow> 'w \<times> repair_state \<Rightarrow> (gerr + RunRequest) \<times> 'w \<times> repair_state" where
  "BuildRepair b request = (\<lambda>(w, st).
     if rx_coordinator b = None then (Inl (run_error ErrorInvalidRequest 0 [] [] ''planned recovery is not configured'' None), w, st)
     else if maximumExecutionPlanRecoveries \<le> ry_used st then (Inl (run_error ErrorInvalidAction 0 [] [] ''planned recovery limit is exhausted'' None), w, st)
     else case recoveryReason (rb_Signal request) of
       Inl err \<Rightarrow> (Inl err, w, st)
     | Inr reason \<Rightarrow>
         let st1 = st\<lparr>ry_used := ry_used st + 1, ry_lastReason := reason\<rparr>
         in (case recoveryPlanningBudget (rc_Budget (rr_Context (rx_base b))) (rb_Previous request) of
               Inl err \<Rightarrow> (Inl err, w, st1)
             | Inr planningBudget \<Rightarrow>
                 let ((planning, err), w1) = CoordinateRecovery (rx_coordinator b) (rx_ctx b) (recovery_request b request planningBudget) \<lparr>vb_Reason = reason\<rparr> w;
                     st2 = st1\<lparr>ry_recoveryPlans := ry_recoveryPlans st1 @ [planning]\<rparr>
                 in (case err of
                       Some e \<Rightarrow> (Inl e, w1, st2)
                     | None \<Rightarrow> (bind_recovery b request reason planningBudget planning, w1, st2))))"

section \<open>Run\<close>

definition lift_call :: "('a \<Rightarrow> 'w \<Rightarrow> 'b \<times> 'w) \<Rightarrow> 'a \<Rightarrow> 'w \<times> 's \<Rightarrow> 'b \<times> 'w \<times> 's" where
  "lift_call f x = (\<lambda>(w, s). let (y, w1) = f x w in (y, w1, s))"

definition lift_environment :: "'w Environment \<Rightarrow> ('w \<times> 's) Environment" where
  "lift_environment e = \<lparr>nv_Name = nv_Name e, nv_Tools = lift_call (nv_Tools e), nv_Snapshot = lift_call (nv_Snapshot e)\<rparr>"

definition lift_runner :: "'w verified_runner \<Rightarrow> ('w \<times> 's) verified_runner" where
  "lift_runner v = \<lparr>vr_goal = vr_goal v, vr_Run = map_option lift_call (vr_Run v), vr_Resume = map_option lift_call (vr_Resume v), vr_Verify = map_option lift_call (vr_Verify v),
     vr_VerifySuspension = map_option lift_call (vr_VerifySuspension v), vr_Collect = map_option lift_call (vr_Collect v)\<rparr>"

definition with_builder :: "'w VerifiedRunRequest \<Rightarrow> ('w \<times> 's) repair_builder \<Rightarrow> ('w \<times> 's) VerifiedRunRequest" where
  "with_builder q build = \<lparr>gr_Task = gr_Task q, gr_Run = gr_Run q, gr_Environment = map_option lift_environment (gr_Environment q), gr_Evidence = gr_Evidence q,
     gr_RepairBuilder = Some build\<rparr>"

definition zero_planned :: PlannedVerifiedRunResult where
  "zero_planned = \<lparr>pv_Planning = zero_planning, pv_Verified = new_goal_result \<lparr>lg_Items = []\<rparr> None 0, pv_Usage = zero_usage, pv_RecoveryPlans = [], pv_RecoveryAttempts = 0,
     pv_LastRecoveryReason = []\<rparr>"

text \<open>The part after the plan is bound: the verified run with the builder, and the check of the execution.\<close>

definition execute_planned :: "'w verified_runner \<Rightarrow> 'w repair_config \<Rightarrow> 'w VerifiedRunRequest \<Rightarrow> PlannedVerifiedRunResult \<Rightarrow> 'w \<Rightarrow> (PlannedVerifiedRunResult \<times> gerr option) \<times> 'w" where
  "execute_planned verified builder verifiedRequest result w =
     (let ((goal, err), (w1, st)) = VerifiedRunner_Run (lift_runner verified) (with_builder verifiedRequest (BuildRepair builder))
            (w, \<lparr>ry_recoveryPlans = [], ry_lastReason = [], ry_used = 0\<rparr>);
          usage = usage_Add (fold (\<lambda>r u. usage_Add u (normalizedUsage (pg_Usage r))) (ry_recoveryPlans st) (pv_Usage result)) (normalizedUsage (rs_Usage (gs_Run goal)));
          result1 = result\<lparr>pv_Verified := goal, pv_RecoveryPlans := ry_recoveryPlans st, pv_RecoveryAttempts := ry_used st, pv_LastRecoveryReason := ry_lastReason st, pv_Usage := usage\<rparr>;
          plan = (if ry_recoveryPlans st = [] then pg_Plan (pv_Planning result) else pg_Plan (last (ry_recoveryPlans st)))
      in case err of
           Some e \<Rightarrow> ((result1, Some e), w1)
         | None \<Rightarrow> ((result1, validateAdmittedPlanExecution plan goal), w1))"

definition PlannedVerifiedRunner_Run :: "'w PlannedVerifiedRunner \<Rightarrow> 'w plan_context \<Rightarrow> 'w PlannedVerifiedRunRequest \<Rightarrow> 'w \<Rightarrow> (PlannedVerifiedRunResult \<times> gerr option) \<times> 'w" where
  "PlannedVerifiedRunner_Run runner ctx request w =
     (let p = pr_env runner; run = pq_Run request; refuse = (\<lambda>message cause. ((zero_planned, Some (run_error ErrorInvalidRequest 0 [] [] message cause)), w))
      in if ctx = None then refuse ''planned verified context is required'' None
         else case bind_option2 (pr_planning runner) (pr_verified runner) of
           None \<Rightarrow> refuse ''planned verified runner is not configured'' None
         | Some (planning, verified) \<Rightarrow> (case TaskSpec_Validate (pe_goal p) (pq_Task request) of
             Some err \<Rightarrow> refuse ''invalid planned task'' (Some err)
           | None \<Rightarrow> (case resolveGoalTools (pq_Task request) (rr_Tools run) (pq_Environment request) w of
               (Inl err, w1) \<Rightarrow> ((zero_planned, Some err), w1)
             | (Inr availableTools, w1) \<Rightarrow>
                 let ((planned, err), w2) = Coordinate (Some planning) ctx \<lparr>sr_Context = rr_Context run, sr_Model = rr_Model run, sr_Task = pq_Task request,
                       sr_AvailableTools = availableTools, sr_Budget = rc_Budget (rr_Context run), sr_CompletedSteps = 0, sr_TargetCriterionIDs = pq_TargetCriterionIDs request,
                       sr_RepairFeedback = None, sr_RecoveryFeedback = None\<rparr> w1;
                     result = zero_planned\<lparr>pv_Planning := planned, pv_Usage := normalizedUsage (pg_Usage planned)\<rparr>
                 in (case err of
                       Some e \<Rightarrow> ((result, Some e), w2)
                     | None \<Rightarrow> (case bindAdmittedPlanToVerifiedRequest p request planned of
                         Inl e \<Rightarrow> ((result, Some e), w2)
                       | Inr verifiedRequest \<Rightarrow>
                           execute_planned verified \<lparr>rx_env = p, rx_ctx = ctx, rx_coordinator = Some planning, rx_task = gr_Task verifiedRequest, rx_base = gr_Run verifiedRequest,
                             rx_environment = pq_Environment request, rx_evidence = gr_Evidence verifiedRequest\<rparr> verifiedRequest result w2)))))"

end
