(* ===== verification/React_Runs.thy ===== *)
theory React_Runs
  imports React_Runner
begin

text \<open>
  Properties of agent runs. The effects of a run are compared with \<open>protocol\<close>, an automaton that says in which order
  a runner may take and return permits, reserve and settle budget, call the model and run tools; it is the
  specification that \<open>Run\<close> and \<open>Resume\<close> refine, whatever the model, the tools and the other users of the budget do.
\<close>

section \<open>The protocol of a runner\<close>

fun accepts :: "('p \<Rightarrow> 'e \<Rightarrow> 'p option) \<Rightarrow> 'p \<Rightarrow> 'e list \<Rightarrow> 'p option" where
  "accepts M p [] = Some p"
| "accepts M p (e # es) = (case M p e of None \<Rightarrow> None | Some q \<Rightarrow> accepts M q es)"

text \<open>
  The permits held, the index of the last model call, whether a reservation is open, and whether actions may run:
  those of a model call that has been paid for.
\<close>

record phase =
  ph_held :: nat
  ph_step :: int
  ph_open :: bool
  ph_acting :: bool

definition call_allowed :: "(string \<times> ToolDefinition) list \<Rightarrow> bool \<Rightarrow> ToolCall \<Rightarrow> bool" where
  "call_allowed catalog gated call = (case map_of catalog (tl_Name call) of None \<Rightarrow> False | Some d \<Rightarrow> gated = tool_ApprovalRequired d)"

text \<open>Actions run with a permit, where there are permits, with no reservation open and never at the last step.\<close>

definition may_act :: "bool \<Rightarrow> int \<Rightarrow> phase \<Rightarrow> bool" where
  "may_act limited maxSteps p \<longleftrightarrow> ph_acting p \<and> \<not> ph_open p \<and> ph_step p < maxSteps \<and> (limited \<longrightarrow> 0 < ph_held p)"

fun protocol :: "bool \<Rightarrow> (string \<times> ToolDefinition) list \<Rightarrow> int \<Rightarrow> phase \<Rightarrow> run_effect \<Rightarrow> phase option" where
  "protocol limited catalog maxSteps p RClock = Some p"
| "protocol limited catalog maxSteps p RTimer = Some p"
| "protocol limited catalog maxSteps p (RCtx d) = Some p"
| "protocol limited catalog maxSteps p (RAcquire q granted) = Some (if granted then p\<lparr>ph_held := Suc (ph_held p)\<rparr> else p)"
| "protocol limited catalog maxSteps p (RReleasePermit q) = (if 0 < ph_held p \<and> \<not> ph_open p then Some (p\<lparr>ph_held := ph_held p - 1\<rparr>) else None)"
| "protocol limited catalog maxSteps p (RReserve e) = (if ph_open p then None else Some (p\<lparr>ph_open := True\<rparr>))"
| "protocol limited catalog maxSteps p (RModel m) =
     (if mr_StepIndex m = ph_step p + 1 \<and> ph_step p < maxSteps \<and> (limited \<longrightarrow> 0 < ph_held p)
         \<and> (mr_StepIndex m = maxSteps \<longrightarrow> mr_Tools m = [])
      then Some (p\<lparr>ph_step := ph_step p + 1, ph_acting := True\<rparr>) else None)"
| "protocol limited catalog maxSteps p (RCommit u) = (if ph_open p then Some (p\<lparr>ph_open := False\<rparr>) else None)"
| "protocol limited catalog maxSteps p RReturn = (if ph_open p then Some (p\<lparr>ph_open := False\<rparr>) else None)"
| "protocol limited catalog maxSteps p (RTool gated call) = (if may_act limited maxSteps p \<and> call_allowed catalog gated call then Some p else None)"
| "protocol limited catalog maxSteps p (RSearch q) = (if may_act limited maxSteps p then Some p else None)"
| "protocol limited catalog maxSteps p (RResume r) = (if may_act limited maxSteps p \<and> call_allowed catalog False (tq_Call r) then Some p else None)"

lemma accepts_append: "accepts M p (es @ fs) = (case accepts M p es of None \<Rightarrow> None | Some q \<Rightarrow> accepts M q fs)"
  by (induction es arbitrary: p) (auto split: option.splits)

text \<open>The log grows from one world to another by effects that take the automaton from one phase to another.\<close>

definition run_moves :: "(phase \<Rightarrow> run_effect \<Rightarrow> phase option) \<Rightarrow> phase \<Rightarrow> run_world \<Rightarrow> phase \<Rightarrow> run_world \<Rightarrow> bool" where
  "run_moves M p w q w' \<longleftrightarrow> (\<exists>es. wd_log w' = wd_log w @ es \<and> accepts M p es = Some q)"

lemma moves_refl [simp, intro]: "run_moves M p w p w"
  by (auto simp: run_moves_def)

lemma moves_trans: "run_moves M p w q w' \<Longrightarrow> run_moves M q w' r w'' \<Longrightarrow> run_moves M p w r w''"
  by (fastforce simp: run_moves_def accepts_append)

lemma emit_log [simp]: "wd_log (emit env e w) = wd_log w @ [e]"
  by (simp add: emit_def)

lemma emit_tracker [simp]: "(wd_tracker (emit env e w) = None) = (wd_tracker w = None)"
  by (simp add: emit_def)

lemma moves_emit: "M p e = Some q \<Longrightarrow> run_moves M p w q (emit env e w)"
  by (auto simp: run_moves_def)

lemma moves_emit_tracker: "M p e = Some q \<Longrightarrow> run_moves M p w q (emit env e (w\<lparr>wd_tracker := t\<rparr>))"
  by (auto simp: run_moves_def)

text \<open>
  The effects that any automaton lets pass: the clocks and the checks of the context. Then the effects of the actions of
  a step, for an automaton that in a given phase lets the tools of a catalog and the searches pass.
\<close>

locale quiet_monitor =
  fixes M :: "phase \<Rightarrow> run_effect \<Rightarrow> phase option"
  assumes clock_quiet: "M p RClock = Some p" and timer_quiet: "M p RTimer = Some p" and ctx_quiet: "M p (RCtx d) = Some p"
begin

lemma moves_clock: "clock env w = (t, w') \<Longrightarrow> run_moves M p w p w'"
  by (auto simp: clock_def clock_quiet intro: moves_emit)

lemma moves_ctx: "ctx_Err env d w = (err, w') \<Longrightarrow> run_moves M p w p w'"
  by (auto simp: ctx_Err_def ctx_quiet intro: moves_emit)

lemma moves_timer: "withBudgetContext env b w = (d, w') \<Longrightarrow> run_moves M p w p w'"
  by (auto simp: withBudgetContext_def Let_def timer_quiet intro: moves_emit split: if_splits)

lemma moves_finish: "finish_step env result step w = (result', w') \<Longrightarrow> run_moves M p w p w'"
  by (auto simp: finish_step_def split: prod.splits intro: moves_clock)

lemma moves_refinish: "refinish_step env result step obs msgs w = (result', w') \<Longrightarrow> run_moves M p w p w'"
  by (auto simp: refinish_step_def split: prod.splits intro: moves_clock)

lemma moves_failed_call: "failed_call env d action step err w = (x, w') \<Longrightarrow> run_moves M p w p w'"
  by (auto simp: failed_call_def split: prod.splits intro: moves_ctx)

end

locale acting_monitor = quiet_monitor +
  fixes catalog :: "(string \<times> ToolDefinition) list" and p :: phase
  assumes tool_passes: "call_allowed catalog gated call \<Longrightarrow> M p (RTool gated call) = Some p"
    and search_passes: "M p (RSearch q) = Some p"
begin

lemma moves_search:
  assumes "execute_search env d rc action step w = (x, w')"
  shows "run_moves M p w p w'"
proof (cases "en_Search env")
  case (Some f)
  have e: "run_moves M p w p (emit env (RSearch q) w)" for q by (simp add: moves_emit search_passes)
  show ?thesis using assms Some e moves_trans [OF e moves_failed_call]
    by (auto simp: execute_search_def Let_def split: sum.splits)
qed (use assms in \<open>auto simp: execute_search_def\<close>)

lemma moves_tool:
  assumes x: "execute_tool env d rc catalog action step w = (x, w')"
  shows "run_moves M p w p w'"
proof -
  have e: "run_moves M p w p (emit env (RTool (tool_ApprovalRequired t) (tool_call rc action)) w)"
    if "map_of catalog (ac_Name action) = Some t" for t
    using that by (intro moves_emit tool_passes) (simp add: call_allowed_def tool_call_def)
  show ?thesis using x moves_trans [OF e moves_failed_call] e
    by (auto simp: execute_tool_def Let_def split: option.splits sum.splits if_splits)
qed

lemma moves_action:
  assumes x: "executeAction env d rc catalog action step w = (x, w')"
  shows "run_moves M p w p w'"
proof -
  obtain err w1 where c: "ctx_Err env d w = (err, w1)" by (cases "ctx_Err env d w")
  have "run_moves M p w1 p w'"
    using x c moves_tool [of env d rc action step w1] moves_search [of env d rc action step w1]
    by (auto simp: executeAction_def split: option.splits if_splits)
  then show ?thesis using moves_trans moves_ctx [OF c] by blast
qed

lemma moves_actions:
  assumes "run_actions env d rc catalog step actions obs msgs w = (stop, obs', msgs', w')"
  shows "run_moves M p w p w'"
  using assms
proof (induction actions arbitrary: obs msgs w)
  case (Cons action actions)
  obtain b err w1 where e: "executeAction env d rc catalog action step w = ((b, err), w1)"
    by (metis prod.exhaust)
  note m1 = moves_action [OF e]
  show ?case
  proof (cases err)
    case None
    then have "run_moves M p w1 p w'" using Cons e by simp
    then show ?thesis using m1 moves_trans by blast
  qed (use Cons.prems e m1 in auto)
qed simp

end

interpretation prot: quiet_monitor "protocol l c m" for l c m
  by unfold_locales simp_all

lemma protocol_acting: "may_act l m p \<Longrightarrow> acting_monitor (protocol l c m) c p"
  by unfold_locales simp_all

text \<open>While actions run no permit is taken or given back, no budget is reserved and the model is not called.\<close>

fun only_actions :: "phase \<Rightarrow> run_effect \<Rightarrow> phase option" where
  "only_actions p (RTool g c) = Some p"
| "only_actions p (RSearch q) = Some p"
| "only_actions p (RResume r) = Some p"
| "only_actions p RClock = Some p"
| "only_actions p RTimer = Some p"
| "only_actions p (RCtx d) = Some p"
| "only_actions p e = None"

interpretation only: acting_monitor only_actions catalog p for catalog p
  by unfold_locales simp_all

text \<open>An open reservation of the automaton is one that the tracker knows.\<close>

definition reserved_ok :: "UsageReservation \<Rightarrow> phase \<Rightarrow> run_world \<Rightarrow> bool" where
  "reserved_ok r p w \<longleftrightarrow> ur_tracked r = ph_open p \<and> (ph_open p \<longrightarrow> wd_tracker w \<noteq> None)"

lemma reserved_closed: "\<not> ph_open p \<Longrightarrow> p\<lparr>ph_open := False\<rparr> = p"
  by (cases p) simp

lemma moves_closed [intro]: "\<not> ph_open p \<Longrightarrow> run_moves M p w (p\<lparr>ph_open := False\<rparr>) w"
  by (simp add: reserved_closed)

lemma moves_reserve:
  assumes "reserveSharedBudget env b model est w = Inr (r, w')" and "\<not> ph_open p"
  shows "run_moves (protocol l c m) p w (p\<lparr>ph_open := ur_tracked r\<rparr>) w'" "reserved_ok r (p\<lparr>ph_open := ur_tracked r\<rparr>) w'"
proof -
  have e: "run_moves (protocol l c m) p w (p\<lparr>ph_open := True\<rparr>) (emit env (RReserve e) (w\<lparr>wd_tracker := t\<rparr>))" for e t
    using assms(2) by (simp add: moves_emit_tracker)
  have t: "ur_tracked r' \<and> t' \<noteq> None" if "ReserveUsage x t = Inr (r', t0)" "t' = Some t0" for x t r' t0 t'
    using that by (auto simp: ReserveUsage_def Let_def split: option.splits)
  have "run_moves (protocol l c m) p w (p\<lparr>ph_open := ur_tracked r\<rparr>) w' \<and> reserved_ok r (p\<lparr>ph_open := ur_tracked r\<rparr>) w'"
  proof (cases "wd_tracker w")
    case None
    then show ?thesis using assms by (auto simp: reserveSharedBudget_def no_reservation_def reserved_ok_def)
  next
    case (Some tracker)
    then obtain e t0 where "ReserveUsage e tracker = Inr (r, t0)" "w' = emit env (RReserve e) (w\<lparr>wd_tracker := Some t0\<rparr>)"
      using assms(1) by (auto simp: reserveSharedBudget_def Let_def bind_res_def split: sum.splits if_splits option.splits prod.splits)
    then show ?thesis using e t by (auto simp: reserved_ok_def)
  qed
  then show "run_moves (protocol l c m) p w (p\<lparr>ph_open := ur_tracked r\<rparr>) w'" "reserved_ok r (p\<lparr>ph_open := ur_tracked r\<rparr>) w'" by auto
qed

lemma moves_release_usage: "reserved_ok r p w \<Longrightarrow> run_moves (protocol l c m) p w (p\<lparr>ph_open := False\<rparr>) (release_usage env r w)"
  by (cases "ph_open p") (auto simp: release_usage_def reserved_ok_def intro: moves_emit_tracker split: option.splits)

lemma moves_commit_usage:
  "reserved_ok r p w \<Longrightarrow> commit_usage env r usage w = (err, w') \<Longrightarrow> run_moves (protocol l c m) p w (p\<lparr>ph_open := False\<rparr>) w'"
  by (cases "ph_open p") (auto simp: commit_usage_def reserved_ok_def Let_def intro: moves_emit_tracker split: option.splits prod.splits)

lemma moves_charge_failed: "charge_failed env result step err w = (out, w') \<Longrightarrow> run_moves (protocol l c m) p w p w'"
  by (auto simp: charge_failed_def split: prod.splits intro: prot.moves_finish)

lemma moves_model_failed:
  assumes "model_failed env d result step response err w = (out, w')"
  shows "run_moves (protocol l c m) p w p w'"
proof -
  obtain result1 w1 where f: "(case mp_ModelRouting response of None \<Rightarrow> (result, w)
      | Some trace \<Rightarrow> finish_step env result (step\<lparr>st_ModelRouting := Some trace\<rparr>) w) = (result1, w1)" by fastforce
  have "run_moves (protocol l c m) p w p w1" using f prot.moves_finish by (auto split: option.splits)
  moreover have "run_moves (protocol l c m) p w1 p w'" using assms f prot.moves_ctx by (auto simp: model_failed_def split: prod.splits)
  ultimately show ?thesis by (rule moves_trans)
qed

lemma moves_settle:
  assumes r: "reserved_ok r p w" and s: "settle_response env request result step est r response w = (x, w')"
  shows "run_moves (protocol l c m) p w (p\<lparr>ph_open := False\<rparr>) w'"
proof -
  note rel = moves_release_usage [OF r] and com = moves_commit_usage [OF r]
  show ?thesis using s rel com moves_trans [OF rel moves_charge_failed] moves_trans [OF com moves_charge_failed]
    by (auto simp: settle_response_def Let_def split: sum.splits prod.splits option.splits)
qed

lemma moves_act:
  assumes p: "ph_step p < m \<Longrightarrow> may_act l m p" and i: "st_Index step = ph_step p" and le: "ph_step p \<le> m"
    and a: "act env d request catalog m step result w = (x, w')"
  shows "run_moves (protocol l catalog m) p w p w'"
proof -
  have run: "run_moves (protocol l catalog m) p w p w1" if "run_actions env d rc catalog k actions obs msgs w = (stop, obs', msgs', w1)" "st_Index step \<noteq> m"
    for rc k actions obs msgs stop obs' msgs' w1
    using acting_monitor.moves_actions [OF protocol_acting [OF p] that(1)] that(2) i le by simp
  show ?thesis using a prot.moves_finish moves_trans [OF run prot.moves_finish]
    by (auto simp: act_def Let_def split: if_splits prod.splits option.splits)
qed

section \<open>Runs follow the protocol\<close>

definition called :: "phase \<Rightarrow> phase" where
  "called p = p\<lparr>ph_step := ph_step p + 1, ph_acting := True\<rparr>"

lemma called_fields [simp]: "ph_held (called p) = ph_held p" "ph_step (called p) = ph_step p + 1" "ph_open (called p) = ph_open p" "ph_acting (called p)"
  by (simp_all add: called_def)

lemma called_closed: "\<not> ph_open p \<Longrightarrow> (called (p\<lparr>ph_open := b\<rparr>))\<lparr>ph_open := False\<rparr> = called p"
  by (cases p) (simp add: called_def)

text \<open>A phase before a model call: nothing reserved, and a permit where there are permits.\<close>

definition ready :: "bool \<Rightarrow> phase \<Rightarrow> bool" where
  "ready limited p \<longleftrightarrow> \<not> ph_open p \<and> (limited \<longrightarrow> 0 < ph_held p)"

lemma ready_called [simp]: "ready l (called p) = ready l p"
  by (simp add: ready_def)

lemma settle_index:
  "settle_response env request result step est r response w = (Inr (step1, result1), w') \<Longrightarrow> st_Index step1 = st_Index step"
  by (auto simp: settle_response_def Let_def split: sum.splits prod.splits option.splits)

lemma admit_step_moves:
  assumes "admit_step env request mreq k result w = Inr ((est, r), w')" and "\<not> ph_open p"
  shows "run_moves (protocol l c m) p w (p\<lparr>ph_open := ur_tracked r\<rparr>) w'" "reserved_ok r (p\<lparr>ph_open := ur_tracked r\<rparr>) w'"
proof -
  obtain b model where "reserveSharedBudget env b model est w = Inr (r, w')"
    using assms(1) by (auto simp: admit_step_def Let_def bind_res_def split: option.splits sum.splits)
  then show "run_moves (protocol l c m) p w (p\<lparr>ph_open := ur_tracked r\<rparr>) w'" "reserved_ok r (p\<lparr>ph_open := ur_tracked r\<rparr>) w'"
    using moves_reserve assms(2) by blast+
qed

lemma model_request_step [simp]: "mr_StepIndex (model_request request catalog m k result) = k"
  by (simp add: model_request_def Let_def)

lemma model_request_tools: "catalog = [] \<longrightarrow> rr_Tools request = [] \<Longrightarrow> mr_Tools (model_request request catalog m m result) = []"
  by (auto simp: model_request_def Let_def)

text \<open>The call and what follows it.\<close>

lemma moves_step_called:
  assumes rdy: "ready l p" and k: "k = ph_step p + 1" "k \<le> m" and cat: "catalog = [] \<longrightarrow> rr_Tools request = []"
    and adm: "admit_step env request (model_request request catalog m k result) k result w2 = Inr ((est, r), w3)"
    and w4: "w4 = emit env (RModel (model_request request catalog m k result)) w3"
    and step: "st_Index step = k"
    and x: "(case merr of Some err \<Rightarrow> (case model_failed env d result step response err (release_usage env r w4) of (out, w5) \<Rightarrow> (Inl out, w5))
       | None \<Rightarrow> (case settle_response env request result step est r response w4 of
            (Inl out, w5) \<Rightarrow> (Inl out, w5)
          | (Inr (step1, result1), w5) \<Rightarrow> act env d request catalog m step1 result1 w5)) = (x, w')"
  shows "run_moves (protocol l catalog m) p w2 (called p) w'"
proof -
  have cl: "\<not> ph_open p" using rdy by (simp add: ready_def)
  let ?p1 = "p\<lparr>ph_open := ur_tracked r\<rparr>"
  have m1: "run_moves (protocol l catalog m) p w2 ?p1 w3" and ok: "reserved_ok r ?p1 w3" using admit_step_moves [OF adm cl] by simp_all
  have "protocol l catalog m ?p1 (RModel (model_request request catalog m k result)) = Some (called ?p1)"
    using rdy k cat by (auto simp: model_request_step model_request_tools called_def ready_def)
  then have m2: "run_moves (protocol l catalog m) ?p1 w3 (called ?p1) w4" unfolding w4 by (rule moves_emit)
  have ok4: "reserved_ok r (called ?p1) w4" using ok by (simp add: reserved_ok_def w4)
  have pre: "run_moves (protocol l catalog m) p w2 (called p) w5" if "run_moves (protocol l catalog m) (called ?p1) w4 ((called ?p1)\<lparr>ph_open := False\<rparr>) w5" for w5
    using that moves_trans m1 m2 called_closed [OF cl] by metis
  have rel: "run_moves (protocol l catalog m) p w2 (called p) (release_usage env r w4)" using pre moves_release_usage [OF ok4] by blast
  have act: "run_moves (protocol l catalog m) (called p) w5 (called p) w6"
    if "act env d request catalog m step1 result1 w5 = (y, w6)" "st_Index step1 = k" for step1 result1 w5 w6 y
    using moves_act [of "called p" m l step1 env d request catalog result1 w5 y w6] that rdy k by (simp add: may_act_def ready_def)
  show ?thesis
  proof (cases merr)
    case (Some err)
    then show ?thesis using x moves_trans [OF rel moves_model_failed] by (auto split: prod.splits)
  next
    case None
    obtain y w5 where s: "settle_response env request result step est r response w4 = (y, w5)" by fastforce
    have "run_moves (protocol l catalog m) p w2 (called p) w5" using pre moves_settle [OF ok4 s] by blast
    then show ?thesis
    proof (cases y)
      case (Inr sr)
      then obtain step1 result1 where y: "y = Inr (step1, result1)" by (cases sr) auto
      have "run_moves (protocol l catalog m) (called p) w5 (called p) w'"
        using x None s y act settle_index [OF s [unfolded y]] step by simp
      with \<open>run_moves _ p w2 (called p) w5\<close> show ?thesis by (rule moves_trans)
    qed (use x None s in auto)
  qed
qed

lemma moves_step:
  assumes rdy: "ready l p" and k: "k = ph_step p + 1" "k \<le> m" and cat: "catalog = [] \<longrightarrow> rr_Tools request = []"
    and x: "run_step env answer d request catalog m k result w = (x, w')"
  obtains "run_moves (protocol l catalog m) p w (called p) w'" | out where "run_moves (protocol l catalog m) p w p w'" "x = Inl out"
proof -
  obtain cerr w1 where c: "ctx_Err env d w = (cerr, w1)" by fastforce
  obtain t w2 where t: "clock env w1 = (t, w2)" by fastforce
  have m2: "run_moves (protocol l catalog m) p w p w2" using prot.moves_ctx [OF c] prot.moves_clock [OF t] moves_trans by blast
  show thesis
  proof (cases "cerr = None \<and> (\<exists>y. admit_step env request (model_request request catalog m k result) k result w2 = Inr y)")
    case True
    then obtain est r w3 where adm: "admit_step env request (model_request request catalog m k result) k result w2 = Inr ((est, r), w3)" by auto
    obtain response merr where ans: "answer (wd_log w3) (model_request request catalog m k result) = (response, merr)" by fastforce
    have "run_moves (protocol l catalog m) p w2 (called p) w'"
    proof (rule moves_step_called [OF rdy k cat adm refl, where step = "new_step request k t" and merr = merr and response = response and d = d and x = x])
      show "st_Index (new_step request k t) = k" by (simp add: new_step_def)
    qed (use x True c t adm ans in \<open>simp add: run_step_def Let_def\<close>)
    then show thesis using that(1) m2 moves_trans by blast
  next
    case False
    then show thesis using x c t m2 prot.moves_ctx [OF c] that(2) by (auto simp: run_step_def failResult_def Let_def split: option.splits sum.splits)
  qed
qed

text \<open>At most as many calls as steps are left.\<close>

lemma moves_loop:
  assumes "ready l p" "k = ph_step p + 1" "int n \<le> m - ph_step p" "catalog = [] \<longrightarrow> rr_Tools request = []"
    and "run_loop env answer d request catalog m n k result w = (out, w')"
  shows "\<exists>q. run_moves (protocol l catalog m) p w q w' \<and> ready l q \<and> ph_held q = ph_held p"
  using assms
proof (induction n arbitrary: p k result w)
  case (Suc n)
  obtain x w1 where s: "run_step env answer d request catalog m k result w = (x, w1)" by fastforce
  have k: "k \<le> m" using Suc.prems by simp
  show ?case
  proof (rule moves_step [OF Suc.prems(1,2) k Suc.prems(4) s])
    fix out' assume "run_moves (protocol l catalog m) p w p w1" "x = Inl out'"
    then show ?thesis using Suc.prems s by auto
  next
    assume m1: "run_moves (protocol l catalog m) p w (called p) w1"
    show ?thesis
    proof (cases x)
      case (Inl out')
      then show ?thesis using Suc.prems s m1 by (intro exI [of _ "called p"]) auto
    next
      case (Inr result1)
      then have "\<exists>q. run_moves (protocol l catalog m) (called p) w1 q w' \<and> ready l q \<and> ph_held q = ph_held (called p)"
        using Suc.prems s by (intro Suc.IH [where k = "k + 1" and result = result1]) auto
      then show ?thesis using m1 moves_trans by (metis called_fields(1))
    qed
  qed
qed auto

lemma add_tools_length: "add_tools quote tools cat = Inr cat' \<Longrightarrow> length cat' = length cat + length tools"
  by (induction tools arbitrary: cat) (auto simp: Let_def split: if_splits)

lemma catalog_empty: "buildToolCatalog quote tools = Inr [] \<Longrightarrow> tools = []"
  unfolding buildToolCatalog_def using add_tools_length by fastforce

lemma check_request_catalog: "check_request env request m k = Inr catalog \<Longrightarrow> buildToolCatalog (en_quote env) (rr_Tools request) = Inr catalog \<and> 1 \<le> k"
  by (auto simp: check_request_def bind_res_def split: if_splits sum.splits)

abbreviation limited_by :: "run_env \<Rightarrow> bool" where
  "limited_by env \<equiv> en_Acquire env \<noteq> None"

definition taken :: "run_env \<Rightarrow> phase \<Rightarrow> phase" where
  "taken env p = (if limited_by env then p\<lparr>ph_held := Suc (ph_held p)\<rparr> else p)"

lemma taken_fields [simp]: "ph_step (taken env p) = ph_step p" "ph_open (taken env p) = ph_open p" "ph_acting (taken env p) = ph_acting p"
  "ph_held (taken env p) = ph_held p + (if limited_by env then 1 else 0)"
  by (simp_all add: taken_def)

lemma ready_taken: "\<not> ph_open p \<Longrightarrow> ready (limited_by env) (taken env p)"
  by (simp add: ready_def)

lemma moves_acquire:
  assumes "acquire env request k w = (err, w')"
  shows "run_moves (protocol l c m) p w (if err = None then taken env p else p) w'"
  using assms by (cases "en_Acquire env") (auto simp: acquire_def Let_def taken_def intro!: moves_emit)

lemma moves_release:
  assumes "ready (limited_by env) q" "ph_held q = ph_held (taken env p)"
  shows "\<exists>q'. run_moves (protocol l c m) q w q' (release_run env request w) \<and> \<not> ph_open q' \<and> ph_held q' = ph_held p"
proof (cases "limited_by env")
  case True
  then have "run_moves (protocol l c m) q w (q\<lparr>ph_held := ph_held p\<rparr>) (release_run env request w)"
    using assms by (auto simp: release_run_def ready_def intro: moves_emit)
  then show ?thesis using assms by (intro exI [of _ "q\<lparr>ph_held := ph_held p\<rparr>"]) (simp add: ready_def)
qed (use assms in \<open>auto simp: release_run_def ready_def\<close>)

lemma moves_untake: "\<not> ph_open p \<Longrightarrow> run_moves (protocol l c m) (taken env p) w p (release_run env request w)"
  by (cases "limited_by env") (auto simp: release_run_def taken_def intro: moves_emit)

lemma moves_runFromState:
  assumes cl: "\<not> ph_open p" and k: "k = ph_step p + 1" and cat: "buildToolCatalog (en_quote env) (rr_Tools request) = Inr catalog"
    and m: "m = effective_max_steps (rc_Budget (rr_Context request))"
    and r: "runFromState env request result k w = (out, w')"
  shows "\<exists>q. run_moves (protocol (limited_by env) catalog m) p w q w' \<and> \<not> ph_open q \<and> ph_held q = ph_held p"
proof -
  let ?M = "protocol (limited_by env) catalog m"
  let ?c = "with_max_steps m (rr_Context request)"
  let ?request = "request\<lparr>rr_Context := ?c\<rparr>" and ?result = "result\<lparr>rs_Context := ?c\<rparr>"
  consider "w' = w" | err where "acquire env ?request 0 w = (Some err, w')"
    | answer w1 d w2 w3 where "acquire env ?request 0 w = (None, w1)" "withBudgetContext env (rc_Budget ?c) w1 = (d, w2)"
        "run_loop env answer d ?request catalog m (nat (m - k + 1)) k ?result w2 = (out, w3)" "w' = release_run env ?request w3" "1 \<le> m" "1 \<le> k"
    using r m cat check_request_catalog
    by (fastforce simp: runFromState_def Let_def not_less split: option.splits if_splits sum.splits prod.splits)
  then show ?thesis
  proof cases
    case (2 err)
    then show ?thesis using moves_acquire [OF 2] cl by (intro exI [of _ p]) simp
  next
    case (3 answer w1 d w2 w3)
    have "run_moves ?M p w (taken env p) w1" using moves_acquire [OF 3(1)] by simp
    then have a: "run_moves ?M p w (taken env p) w2" using prot.moves_timer [OF 3(2)] moves_trans by blast
    obtain q where q: "run_moves ?M (taken env p) w2 q w3" "ready (limited_by env) q" "ph_held q = ph_held (taken env p)"
    proof (cases "k \<le> m")
      case True
      then show ?thesis using moves_loop [OF ready_taken [OF cl] _ _ _ 3(3)] k cat catalog_empty that by fastforce
    next
      case False
      then show ?thesis using 3(3) that [of "taken env p"] ready_taken [OF cl] by auto
    qed
    obtain q' where "run_moves ?M q w3 q' w'" "\<not> ph_open q'" "ph_held q' = ph_held p" using moves_release [OF q(2,3)] 3(4) by blast
    then show ?thesis using a q(1) moves_trans by blast
  qed (use cl in blast)
qed

definition first_phase :: phase where
  "first_phase = \<lparr>ph_held = 0, ph_step = 0, ph_open = False, ph_acting = False\<rparr>"

text \<open>A resumed run goes on in the last step of its checkpoint, whose actions may run.\<close>

definition resumed_phase :: "RunCheckpoint \<Rightarrow> phase" where
  "resumed_phase c = \<lparr>ph_held = 0, ph_step = st_Index (last (cp_Steps c)), ph_open = False, ph_acting = True\<rparr>"

lemma moves_resumeApproved:
  assumes p: "\<not> ph_open p" "ph_acting p" "ph_step p < m" "ph_step p = st_Index (last (rs_Steps result))"
    and cat: "buildToolCatalog (en_quote env) (rr_Tools request) = Inr catalog"
    and m: "m = effective_max_steps (rc_Budget (rr_Context request))"
    and r: "resumeApprovedAction env request result pending w = (out, w')"
  shows "\<exists>q. run_moves (protocol (limited_by env) catalog m) p w q w' \<and> \<not> ph_open q \<and> ph_held q = ph_held p"
proof -
  let ?M = "protocol (limited_by env) catalog m" and ?k = "st_Index (last (rs_Steps result))"
  consider "w' = w" | err where "acquire env request ?k w = (Some err, w')"
    | w1 d w2 actions obs0 stop obs msgs w3 result0 step result1 w4 where "acquire env request ?k w = (None, w1)" "withBudgetContext env (rc_Budget (rr_Context request)) w1 = (d, w2)"
        "run_actions env d (rr_Context request) catalog ?k actions obs0 (rs_Messages result) w2 = (stop, obs, msgs, w3)"
        "refinish_step env result0 step obs msgs w3 = (result1, w4)"
        "(case stop of Some (action, err) \<Rightarrow> (stop_at result1 action err ?k, release_run env request w4)
          | None \<Rightarrow> runFromState env request result1 (?k + 1) (release_run env request w4)) = (out, w')"
    using r cat by (fastforce simp: resumeApprovedAction_def Let_def split: option.splits if_splits prod.splits)
  then show ?thesis
  proof cases
    case (2 err)
    then show ?thesis using moves_acquire [OF 2] p by (intro exI [of _ p]) simp
  next
    case (3 w1 d w2 actions obs0 stop obs msgs w3 result0 step result1 w4)
    have "run_moves ?M p w (taken env p) w1" using moves_acquire [OF 3(1)] by simp
    then have a: "run_moves ?M p w (taken env p) w2" using prot.moves_timer [OF 3(2)] moves_trans by blast
    have may: "may_act (limited_by env) m (taken env p)" using p by (simp add: may_act_def)
    have b: "run_moves ?M p w (taken env p) w4" by (rule moves_trans [OF moves_trans [OF a acting_monitor.moves_actions [OF protocol_acting [OF may] 3(3)]] prot.moves_refinish [OF 3(4)]])
    then have e: "run_moves ?M p w p (release_run env request w4)" using moves_untake [OF p(1)] by (rule moves_trans)
    show ?thesis
    proof (cases stop)
      case None
      then have "runFromState env request result1 (?k + 1) (release_run env request w4) = (out, w')" using 3(5) by simp
      then obtain q where "run_moves ?M p (release_run env request w4) q w'" "\<not> ph_open q" "ph_held q = ph_held p"
        using moves_runFromState [OF p(1) _ cat m] p(4) by (metis (no_types, lifting))
      then show ?thesis using e moves_trans by blast
    qed (use 3(5) e p in \<open>auto split: prod.splits\<close>)
  qed (use p in blast)
qed

lemma moves_resume_held:
  assumes p: "\<not> ph_open p" "may_act (limited_by env) m p" "ph_step p = st_Index step"
    and cat: "buildToolCatalog (en_quote env) (rr_Tools request) = Inr catalog"
    and tool: "call_allowed catalog False (tq_Call call)"
    and m: "m = effective_max_steps (rc_Budget (rr_Context request))"
    and r: "resume_held env request catalog result step pending rest resumeTool call w = (out, w')"
  shows "\<exists>q. run_moves (protocol (limited_by env) catalog m) p w q w' \<and> \<not> ph_open q \<and> ph_held q = ph_held p"
proof -
  let ?M = "protocol (limited_by env) catalog m"
  obtain d w1 where t: "withBudgetContext env (rc_Budget (rr_Context request)) w = (d, w1)" by fastforce
  let ?w2 = "emit env (RResume call) w1"
  have e: "run_moves ?M p w p ?w2" using prot.moves_timer [OF t] by (rule moves_trans) (use p tool in \<open>auto intro: moves_emit\<close>)
  show ?thesis
  proof (cases "resumeTool (wd_log w1) call")
    case (Inl execErr)
    then obtain result1 w3 cerr where f: "refinish_step env result step (st_Observations step @ [observation pending True]) (rs_Messages result) ?w2 = (result1, w3)"
        "ctx_Err env d w3 = (cerr, w')"
      using r t by (auto simp: resume_held_def Let_def split: prod.splits option.splits)
    have "run_moves ?M p w p w'" by (rule moves_trans [OF moves_trans [OF e prot.moves_refinish [OF f(1)]] prot.moves_ctx [OF f(2)]])
    then show ?thesis using p by blast
  next
    case (Inr toolResult)
    then obtain obs0 msgs0 stop obs msgs w3 result1 w4 where f: "run_actions env d (rr_Context request) catalog (st_Index step) rest obs0 msgs0 ?w2 = (stop, obs, msgs, w3)"
        "refinish_step env result step obs msgs w3 = (result1, w4)"
        "(case stop of Some (action, err) \<Rightarrow> (stop_at result1 action err (st_Index step), w4)
          | None \<Rightarrow> runFromState env request result1 (st_Index step + 1) w4) = (out, w')"
      using r t by (auto simp: resume_held_def Let_def split: prod.splits)
    have e4: "run_moves ?M p w p w4" by (rule moves_trans [OF moves_trans [OF e acting_monitor.moves_actions [OF protocol_acting [OF p(2)] f(1)]] prot.moves_refinish [OF f(2)]])
    show ?thesis
    proof (cases stop)
      case None
      then have "runFromState env request result1 (st_Index step + 1) w4 = (out, w')" using f(3) by simp
      then obtain q where "run_moves ?M p w4 q w'" "\<not> ph_open q" "ph_held q = ph_held p"
        using moves_runFromState [OF p(1) _ cat m] p(3) by (metis (no_types, lifting))
      then show ?thesis using e4 moves_trans by blast
    qed (use f(3) e4 p in \<open>auto split: prod.splits\<close>)
  qed
qed

lemma moves_resumeSuspended:
  assumes p: "\<not> ph_open p" "ph_acting p" "ph_step p < m" "ph_step p = st_Index (last (rs_Steps result))"
    and cat: "buildToolCatalog (en_quote env) (rr_Tools request) = Inr catalog"
    and m: "m = effective_max_steps (rc_Budget (rr_Context request))"
    and r: "resumeSuspendedTool env request result pending continuation human approval token w = (out, w')"
  shows "\<exists>q. run_moves (protocol (limited_by env) catalog m) p w q w' \<and> \<not> ph_open q \<and> ph_held q = ph_held p"
proof -
  let ?M = "protocol (limited_by env) catalog m" and ?k = "st_Index (last (rs_Steps result))"
  consider "w' = w" | err where "acquire env request ?k w = (Some err, w')"
    | w1 result1 step actions resumeTool call w2 where "acquire env request ?k w = (None, w1)"
        "resume_held env request catalog result1 step pending actions resumeTool call w1 = (out, w2)" "w' = release_run env request w2"
        "st_Index step = ?k" "call_allowed catalog False (tq_Call call)"
  proof -
    show thesis if a: "w' = w \<Longrightarrow> thesis" and b: "\<And>err. acquire env request ?k w = (Some err, w') \<Longrightarrow> thesis"
      and c: "\<And>w1 result1 step actions resumeTool call w2. acquire env request ?k w = (None, w1) \<Longrightarrow>
        resume_held env request catalog result1 step pending actions resumeTool call w1 = (out, w2) \<Longrightarrow> w' = release_run env request w2 \<Longrightarrow>
        st_Index step = ?k \<Longrightarrow> call_allowed catalog False (tq_Call call) \<Longrightarrow> thesis"
      using r cat
      by (auto simp: resumeSuspendedTool_def Let_def split: option.splits if_splits prod.splits intro: a b)
        (rule c, assumption, assumption, assumption, simp_all add: call_allowed_def tool_call_def)
  qed
  then show ?thesis
  proof cases
    case (2 err)
    then show ?thesis using moves_acquire [OF 2] p by (intro exI [of _ p]) simp
  next
    case (3 w1 result1 step actions resumeTool call w2)
    have a: "run_moves ?M p w (taken env p) w1" using moves_acquire [OF 3(1)] by simp
    have may: "may_act (limited_by env) m (taken env p)" using p by (simp add: may_act_def)
    obtain q where q: "run_moves ?M (taken env p) w1 q w2" "\<not> ph_open q" "ph_held q = ph_held (taken env p)"
      using moves_resume_held [OF _ may _ cat 3(5) m 3(2)] p 3(4) by auto
    then have "ready (limited_by env) q" by (simp add: ready_def)
    then obtain q' where "run_moves ?M q w2 q' w'" "\<not> ph_open q'" "ph_held q' = ph_held p" using moves_release [OF _ q(3)] 3(3) by blast
    then show ?thesis using a q(1) moves_trans by blast
  qed (use p in blast)
qed

lemma moves_Resume:
  assumes cat: "buildToolCatalog (en_quote env) (rm_Tools request) = Inr catalog"
    and m: "m = effective_max_steps (rc_Budget (cp_Context (rm_Checkpoint request)))"
    and k: "st_Index (last (cp_Steps (rm_Checkpoint request))) = int (length (cp_Steps (rm_Checkpoint request)))"
      "st_Index (last (cp_Steps (rm_Checkpoint request))) < m"
    and r: "Resume env request w = (out, w')"
  shows "\<exists>q. run_moves (protocol (limited_by env) catalog m) (resumed_phase (rm_Checkpoint request)) w q w' \<and> \<not> ph_open q \<and> ph_held q = 0"
proof -
  let ?c = "rm_Checkpoint request" and ?M = "protocol (limited_by env) catalog m"
  let ?p = "resumed_phase ?c"
  let ?result = "new_result (cp_Context ?c) (cp_Messages ?c) (cp_Steps ?c) (cp_Usage ?c)"
  let ?request = "\<lparr>rr_Context = cp_Context ?c, rr_Model = cp_Model ?c, rr_Messages = [], rr_Tools = rm_Tools request, rr_InitialToolChoice = []\<rparr>"
  have p: "\<not> ph_open ?p" "ph_acting ?p" "ph_step ?p < m" "ph_step ?p = st_Index (last (rs_Steps ?result))" "ph_held ?p = 0"
    using k by (simp_all add: resumed_phase_def new_result_def)
  have cat': "buildToolCatalog (en_quote env) (rr_Tools ?request) = Inr catalog" and m': "m = effective_max_steps (rc_Budget (rr_Context ?request))"
    using cat m by simp_all
  consider "w' = w" | result' where "runFromState env ?request result' (int (length (cp_Steps ?c)) + 1) w = (out, w')"
    | k h a t where "resumeSuspendedTool env ?request ?result (cp_PendingAction ?c) k h a t w = (out, w')"
    | "resumeApprovedAction env ?request ?result (cp_PendingAction ?c) w = (out, w')"
    using r by (fastforce simp: Resume_def Let_def new_result_def split: option.splits if_splits)
  then show ?thesis
  proof cases
    case 2
    have "int (length (cp_Steps ?c)) + 1 = ph_step ?p + 1" using k by (simp add: resumed_phase_def)
    then show ?thesis using moves_runFromState [OF p(1) _ cat' m' 2] p(5) by simp
  next
    case 3
    then show ?thesis using moves_resumeSuspended [OF p(1-4) cat' m' 3] p(5) by simp
  next
    case 4
    then show ?thesis using moves_resumeApproved [OF p(1-4) cat' m' 4] p(5) by simp
  qed (use p in auto)
qed

section \<open>Results\<close>

text \<open>An action the runner accepts from the model.\<close>

definition action_ok :: "Action \<Rightarrow> bool" where
  "action_ok a \<longleftrightarrow> (terminal_action a \<and> trim_space (ac_Content a) \<noteq> [])
     \<or> ((ac_Type a = ActionToolCall \<or> ac_Type a = ActionRAGSearch) \<and> trim_space (ac_Name a) \<noteq> [] \<and> unmarshal_object (ac_Arguments a) \<noteq> None)"

lemma normalize_action_ok: "normalize_action env response step i a = Inr b \<Longrightarrow> action_ok b"
  by (auto simp: normalize_action_def Let_def action_ok_def terminal_action_def action_types split: if_splits option.splits)

lemma normalize_from_ok: "normalize_from env response step i as = Inr bs \<Longrightarrow> length bs = length as \<and> list_all action_ok bs"
  by (induction as arbitrary: i bs) (auto simp: bind_res_def normalize_action_ok split: sum.splits)

lemma normalizeActions_ok:
  assumes "normalizeActions env response step = Inr (as, response')"
  shows "as \<noteq> []" "list_all action_ok as" "list_ex terminal_action as \<Longrightarrow> length as = 1"
  using assms by (auto simp: normalizeActions_def Let_def bind_res_def dest!: normalize_from_ok dest: normalize_action_ok split: if_splits sum.splits)

definition within_budget :: "Budget \<Rightarrow> TokenUsage \<Rightarrow> bool" where
  "within_budget b u \<longleftrightarrow> (0 < bg_MaxTotalTokens b \<longrightarrow> tu_TotalTokens u \<le> bg_MaxTotalTokens b)
     \<and> (0 < bg_MaxEstimatedCostMicros b \<longrightarrow> tu_EstimatedCostMicros u \<le> bg_MaxEstimatedCostMicros b)"

lemma enforced_within: "enforceCompletedUsage b consumed current k = None \<Longrightarrow> within_budget b (usage_Add consumed current)"
  by (auto simp: enforceCompletedUsage_def within_budget_def usage_Add_def Let_def split: if_splits)

definition fresh :: "RunContext \<Rightarrow> RunResult \<Rightarrow> bool" where
  "fresh c r \<longleftrightarrow> rs_Context r = c \<and> rs_PendingAction r = None \<and> rs_PendingResumeKind r = [] \<and> rs_PendingToolContinuation r = None \<and> rs_ApprovalID r = []"

text \<open>The messages end with the answer of the model and the tool results for it; its actions are those of the step.\<close>

definition step_open :: "Action list \<Rightarrow> Message list \<Rightarrow> bool" where
  "step_open as msgs \<longleftrightarrow> (\<exists>x. latestAssistantMessage msgs = Some x \<and> ms_Actions x = as)"

lemma latest_snoc: "latestAssistantMessage (msgs @ [x]) = (if ms_Role x = RoleAssistant then Some x else latestAssistantMessage msgs)"
  by (simp add: latestAssistantMessage_def)

lemma step_open_tool [simp]: "step_open as (msgs @ [tool_message a s]) = step_open as msgs"
  by (simp add: step_open_def latest_snoc tool_message_def role_defs)

lemma step_open_assistant: "step_open as (msgs @ [assistant_message response as])"
  by (auto simp: step_open_def latest_snoc assistant_message_def Let_def)

lemma settle_result:
  assumes "settle_response env request result step est r response w = (x, w')"
  shows "case x of Inl (res, err) \<Rightarrow> rs_Status res = RunStatusFailed \<and> err \<noteq> None
    | Inr (step1, res) \<Rightarrow> st_Actions step1 \<noteq> [] \<and> list_all action_ok (st_Actions step1) \<and> (list_ex terminal_action (st_Actions step1) \<longrightarrow> length (st_Actions step1) = 1)
        \<and> st_Index step1 = st_Index step \<and> step_open (st_Actions step1) (rs_Messages res) \<and> within_budget (rc_Budget (rr_Context request)) (rs_Usage res)
        \<and> rs_Steps res = rs_Steps result \<and> fresh c res = fresh c result"
  using assms normalizeActions_ok
  by (auto simp: settle_response_def charge_failed_def failResult_def Let_def step_open_assistant enforced_within fresh_def
      split: sum.splits prod.splits option.splits)

lemma executeAction_failed:
  "executeAction env d rc catalog action step w = ((b, Some err), w') \<Longrightarrow> ob_ActionID b = ac_ID action \<and> ob_IsError b"
  by (auto simp: executeAction_def execute_tool_def execute_search_def failed_call_def observation_def Let_def
      split: prod.splits option.splits sum.splits if_splits)

lemma run_actions_result:
  assumes "run_actions env d rc catalog step actions obs msgs w = (stop, obs', msgs', w')"
  shows "step_open as msgs' = step_open as msgs"
    and "stop = Some (a, err) \<Longrightarrow> a \<in> set actions \<and> hasFailedObservation obs' (ac_ID a)"
  using assms by (induction actions arbitrary: obs msgs w)
    (auto simp: hasFailedObservation_def dest: executeAction_failed split: prod.splits option.splits)

text \<open>The steps of a result are numbered from one.\<close>

definition numbered :: "RunStep list \<Rightarrow> bool" where
  "numbered steps \<longleftrightarrow> map st_Index steps = map int [1..<Suc (length steps)]"

lemma numbered_Nil [simp]: "numbered []"
  by (simp add: numbered_def)

lemma numbered_snoc: "numbered (steps @ [s]) \<longleftrightarrow> numbered steps \<and> st_Index s = int (length steps) + 1"
  by (auto simp: numbered_def)

lemma numbered_last: "numbered steps \<Longrightarrow> steps \<noteq> [] \<Longrightarrow> st_Index (last steps) = int (length steps)"
  by (cases steps rule: rev_cases) (auto simp: numbered_snoc)

text \<open>The ways a run waits for somebody: for the answer to a question, for an approval, or for a tool.\<close>

definition waits_for_answer :: "RunResult \<Rightarrow> Action \<Rightarrow> bool" where
  "waits_for_answer r a \<longleftrightarrow> ac_Type a = ActionAskHuman \<and> trim_space (ac_Content a) \<noteq> [] \<and> rs_Status r = RunStatusAwaitingHuman
     \<and> rs_PendingResumeKind r = ResumeKindHumanResponse \<and> rs_PendingToolContinuation r = None \<and> rs_ApprovalID r = []"

definition waits_for_tool :: "RunResult \<Rightarrow> Action \<Rightarrow> bool" where
  "waits_for_tool r a \<longleftrightarrow> (ac_Type a = ActionToolCall \<or> ac_Type a = ActionRAGSearch) \<and> trim_space (ac_Name a) \<noteq> []
     \<and> hasFailedObservation (st_Observations (last (rs_Steps r))) (ac_ID a)
     \<and> (case rs_PendingToolContinuation r of
          None \<Rightarrow> rs_Status r = RunStatusApprovalRequired \<and> rs_PendingResumeKind r = ResumeKindToolApproval
        | Some t \<Rightarrow> if tc_ResumeKind t = ResumeKindDelegatedToolApproval
            then rs_Status r = RunStatusApprovalRequired \<and> rs_PendingResumeKind r = ResumeKindDelegatedToolApproval \<and> rs_ApprovalID r = trim_space (tc_ApprovalID t)
            else rs_Status r = RunStatusAwaitingHuman \<and> rs_PendingResumeKind r = ResumeKindHumanResponse \<and> rs_ApprovalID r = [])"

definition suspended_ok :: "RunResult \<Rightarrow> bool" where
  "suspended_ok r \<longleftrightarrow> (\<exists>a. rs_PendingAction r = Some a \<and> rs_Steps r \<noteq> [] \<and> a \<in> set (st_Actions (last (rs_Steps r)))
     \<and> step_open (st_Actions (last (rs_Steps r))) (rs_Messages r) \<and> (waits_for_answer r a \<or> waits_for_tool r a))"

definition outcome_ok :: "RunContext \<Rightarrow> run_outcome \<Rightarrow> bool" where
  "outcome_ok c = (\<lambda>(r, err).
     (rs_Status r = RunStatusFailed \<and> err \<noteq> None)
     \<or> (rs_Context r = c \<and> numbered (rs_Steps r) \<and> within_budget (rc_Budget c) (rs_Usage r)
        \<and> ((rs_Status r = RunStatusCompleted \<and> err = None)
         \<or> (suspended_ok r \<and> (rs_Status r = RunStatusAwaitingHuman \<and> err = None \<or> rs_Status r = RunStatusApprovalRequired \<and> err \<noteq> None)))))"

lemma failed_ok [simp]: "outcome_ok c (failResult r err)"
  by (simp add: outcome_ok_def failResult_def)

lemma stop_at_ok:
  assumes f: "fresh c r" and n: "numbered (rs_Steps r)" "within_budget (rc_Budget c) (rs_Usage r)" "rs_Steps r \<noteq> []"
    and a: "a \<in> set (st_Actions (last (rs_Steps r)))" "action_ok a" "\<not> terminal_action a" "hasFailedObservation (st_Observations (last (rs_Steps r))) (ac_ID a)"
    and o: "step_open (st_Actions (last (rs_Steps r))) (rs_Messages r)"
  shows "outcome_ok c (stop_at r a err k)"
proof (cases "ToolContinuationFromError err")
  case None
  then show ?thesis using assms by (auto simp: stop_at_def outcome_ok_def suspended_ok_def waits_for_tool_def fresh_def action_ok_def failResult_def)
next
  case (Some t)
  then show ?thesis using assms by (auto simp: stop_at_def suspendForToolContinuation_def Let_def outcome_ok_def suspended_ok_def waits_for_tool_def fresh_def action_ok_def)
qed

lemma act_ok:
  assumes acts: "st_Actions step \<noteq> []" "list_all action_ok (st_Actions step)" "list_ex terminal_action (st_Actions step) \<longrightarrow> length (st_Actions step) = 1"
    and o: "step_open (st_Actions step) (rs_Messages result)" and b: "within_budget (rc_Budget c) (rs_Usage result)" and f: "fresh c result"
    and n: "numbered (rs_Steps result)" "st_Index step = int (length (rs_Steps result)) + 1"
    and a: "act env d request catalog m step result w = (x, w')"
  shows "case x of Inl out \<Rightarrow> outcome_ok c out | Inr r \<Rightarrow> fresh c r \<and> numbered (rs_Steps r) \<and> within_budget (rc_Budget c) (rs_Usage r) \<and> length (rs_Steps r) = Suc (length (rs_Steps result))"
proof -
  let ?first = "hd (st_Actions step)"
  have hd: "?first \<in> set (st_Actions step)" "action_ok ?first" using acts by (simp_all add: list_all_iff)
  show ?thesis
  proof (cases "terminal_action ?first \<or> st_Index step = m")
    case True
    then show ?thesis using a hd f n o b
      by (auto simp: act_def Let_def finish_step_def outcome_ok_def numbered_snoc suspended_ok_def waits_for_answer_def fresh_def action_ok_def terminal_action_def action_types
          failResult_def split: if_splits prod.splits)
  next
    case False
    then have nt: "\<not> terminal_action y" if "y \<in> set (st_Actions step)" for y
      using acts that by (cases "st_Actions step") (auto simp: list_ex_iff)
    obtain stop obs msgs w1 where ra: "run_actions env d (rr_Context request) catalog (st_Index step) (st_Actions step) (st_Observations step) (rs_Messages result) w = (stop, obs, msgs, w1)"
      by (metis prod_cases4)
    obtain r w2 where fs: "finish_step env (result\<lparr>rs_Messages := msgs\<rparr>) (step\<lparr>st_Observations := obs\<rparr>) w1 = (r, w2)" by fastforce
    obtain t where r: "r = result\<lparr>rs_Messages := msgs, rs_Steps := rs_Steps result @ [step\<lparr>st_Observations := obs, st_FinishedAt := t\<rparr>]\<rparr>"
      using fs by (auto simp: finish_step_def split: prod.splits)
    have x: "x = (case stop of Some (y, err) \<Rightarrow> Inl (stop_at r y err (st_Index step)) | None \<Rightarrow> Inr r)"
      using a False ra fs by (auto simp: act_def Let_def terminal_action_def split: option.splits)
    show ?thesis
    proof (cases stop)
      case (Some ye)
      obtain y err where y: "stop = Some (y, err)" using Some by (cases ye) auto
      have "outcome_ok c (stop_at r y err (st_Index step))"
        using run_actions_result [OF ra] y nt acts o b f n by (intro stop_at_ok) (auto simp: r fresh_def numbered_snoc list_all_iff)
      then show ?thesis using x y by simp
    qed (use x r f n b in \<open>auto simp: fresh_def numbered_snoc\<close>)
  qed
qed

lemma model_failed_ok: "model_failed env d result step response err w = (out, w') \<Longrightarrow> outcome_ok c out"
  by (auto simp: model_failed_def Let_def split: prod.splits)

lemma run_step_ok:
  assumes f: "fresh (rr_Context request) result" and n: "numbered (rs_Steps result)" "k = int (length (rs_Steps result)) + 1"
    and x: "run_step env answer d request catalog m k result w = (x, w')"
  shows "case x of Inl out \<Rightarrow> outcome_ok (rr_Context request) out
    | Inr r \<Rightarrow> fresh (rr_Context request) r \<and> numbered (rs_Steps r) \<and> within_budget (rc_Budget (rr_Context request)) (rs_Usage r) \<and> length (rs_Steps r) = Suc (length (rs_Steps result))"
proof -
  consider "case x of Inl out \<Rightarrow> outcome_ok (rr_Context request) out | Inr r \<Rightarrow> False"
    | t est res response w4 w5 step1 result1 where "settle_response env request result (new_step request k t) est res response w4 = (Inr (step1, result1), w5)"
        "act env d request catalog m step1 result1 w5 = (x, w')"
    | t est res response w4 w5 out where "settle_response env request result (new_step request k t) est res response w4 = (Inl out, w5)" "x = Inl out"
    using x by (auto simp: run_step_def Let_def split: prod.splits option.splits sum.splits dest: model_failed_ok [where c = "rr_Context request"])
  then show ?thesis
  proof cases
    case (2 t est res response w4 w5 step1 result1)
    have s: "st_Actions step1 \<noteq> []" "list_all action_ok (st_Actions step1)" "list_ex terminal_action (st_Actions step1) \<longrightarrow> length (st_Actions step1) = 1"
      "step_open (st_Actions step1) (rs_Messages result1)" "within_budget (rc_Budget (rr_Context request)) (rs_Usage result1)"
      "fresh (rr_Context request) result1" "numbered (rs_Steps result1)" "st_Index step1 = int (length (rs_Steps result1)) + 1" "length (rs_Steps result1) = length (rs_Steps result)"
      using settle_result [OF 2(1)] f n by (simp_all add: new_step_def)
    show ?thesis using act_ok [OF s(1-8) 2(2)] s(9) by (auto split: sum.splits)
  next
    case 3
    then show ?thesis using settle_result [OF 3(1)] by (cases out) (simp add: outcome_ok_def)
  qed (auto split: sum.splits)
qed

lemma run_loop_ok:
  assumes "fresh (rr_Context request) result" "numbered (rs_Steps result)" "k = int (length (rs_Steps result)) + 1"
    and "run_loop env answer d request catalog m n k result w = (out, w')"
  shows "outcome_ok (rr_Context request) out"
  using assms
proof (induction n arbitrary: k result w)
  case (Suc n)
  obtain x w1 where s: "run_step env answer d request catalog m k result w = (x, w1)" by fastforce
  show ?case
  proof (cases x)
    case (Inr r)
    then show ?thesis using run_step_ok [OF Suc.prems(1-3) s] Suc.prems s by (intro Suc.IH [of r "k + 1" w1]) auto
  qed (use run_step_ok [OF Suc.prems(1-3) s] Suc.prems s in auto)
qed auto

lemma runFromState_ok:
  assumes "fresh c result" "numbered (rs_Steps result)" "k = int (length (rs_Steps result)) + 1"
    and r: "runFromState env request result k w = (out, w')"
    and m: "m = effective_max_steps (rc_Budget (rr_Context request))"
  shows "outcome_ok (with_max_steps m (rr_Context request)) out"
proof -
  let ?c = "with_max_steps m (rr_Context request)"
  let ?request = "request\<lparr>rr_Context := ?c\<rparr>" and ?result = "result\<lparr>rs_Context := ?c\<rparr>"
  consider r err where "out = failResult r err"
    | answer d catalog n w1 w2 where "run_loop env answer d ?request catalog m n k ?result w1 = (out, w2)"
    using r m by (fastforce simp: runFromState_def Let_def split: option.splits if_splits sum.splits prod.splits)
  then show ?thesis
  proof cases
    case 2
    have "fresh (rr_Context ?request) ?result" using assms(1) by (simp add: fresh_def)
    from run_loop_ok [OF this _ _ 2] assms show ?thesis by simp
  qed simp
qed

lemma Run_from:
  assumes "Run env request w = (out, w')"
  obtains t w1 where "run_moves (protocol l catalog m) p w p w1"
    "runFromState env (request\<lparr>rr_Context := (rr_Context request)\<lparr>rc_StartedAt := t\<rparr>\<rparr>) (new_result ((rr_Context request)\<lparr>rc_StartedAt := t\<rparr>) (rr_Messages request) [] zero_usage) 1 w1 = (out, w')"
proof (cases "rc_StartedAt (rr_Context request) = 0")
  case True
  obtain t w1 where t: "clock env w = (t, w1)" by fastforce
  then show thesis using True assms that [of w1 t] prot.moves_clock [OF t] by (simp add: Run_def)
qed (use assms that [of w "rc_StartedAt (rr_Context request)"] in \<open>simp add: Run_def\<close>)

lemma moves_Run:
  assumes "buildToolCatalog (en_quote env) (rr_Tools request) = Inr catalog" and "Run env request w = (out, w')"
  shows "\<exists>q. run_moves (protocol (limited_by env) catalog (effective_max_steps (rc_Budget (rr_Context request)))) first_phase w q w' \<and> \<not> ph_open q \<and> ph_held q = 0"
proof (rule Run_from [OF assms(2), where p = first_phase and l = "limited_by env" and catalog = catalog and m = "effective_max_steps (rc_Budget (rr_Context request))"])
  fix t w1
  let ?M = "protocol (limited_by env) catalog (effective_max_steps (rc_Budget (rr_Context request)))"
  let ?c = "(rr_Context request)\<lparr>rc_StartedAt := t\<rparr>"
  assume m: "run_moves ?M first_phase w first_phase w1"
    and r: "runFromState env (request\<lparr>rr_Context := ?c\<rparr>) (new_result ?c (rr_Messages request) [] zero_usage) 1 w1 = (out, w')"
  have "\<exists>q. run_moves ?M first_phase w1 q w' \<and> \<not> ph_open q \<and> ph_held q = ph_held first_phase"
    using assms(1) by (intro moves_runFromState [OF _ _ _ _ r]) (simp_all add: first_phase_def)
  moreover have "ph_held first_phase = 0" by (simp add: first_phase_def)
  ultimately show ?thesis using m moves_trans by metis
qed

text \<open>The context a run works with.\<close>

definition run_context :: "RunRequest \<Rightarrow> int \<Rightarrow> RunContext" where
  "run_context request t = with_max_steps (effective_max_steps (rc_Budget (rr_Context request))) ((rr_Context request)\<lparr>rc_StartedAt := t\<rparr>)"

lemma run_context_fields [simp]: "rc_RunID (run_context request t) = rc_RunID (rr_Context request)" "rc_UserID (run_context request t) = rc_UserID (rr_Context request)"
  "within_budget (rc_Budget (run_context request t)) u = within_budget (rc_Budget (rr_Context request)) u"
  by (simp_all add: run_context_def with_max_steps_def within_budget_def)

lemma Run_ok:
  assumes "Run env request w = (out, w')"
  obtains t where "outcome_ok (run_context request t) out"
proof (rule Run_from [OF assms])
  fix t w1
  assume "runFromState env (request\<lparr>rr_Context := (rr_Context request)\<lparr>rc_StartedAt := t\<rparr>\<rparr>) (new_result ((rr_Context request)\<lparr>rc_StartedAt := t\<rparr>) (rr_Messages request) [] zero_usage) 1 w1 = (out, w')"
  from runFromState_ok [OF _ _ _ this refl] that show thesis by (simp add: new_result_def fresh_def run_context_def)
qed

fun is_model :: "run_effect \<Rightarrow> bool" where
  "is_model (RModel m) = True"
| "is_model _ = False"

lemma accepts_calls:
  assumes "accepts (protocol l c m) p es = Some q"
  shows "ph_step q = ph_step p + int (length (filter is_model es))" "ph_step p \<le> m \<Longrightarrow> ph_step q \<le> m"
  using assms
proof (induction es arbitrary: p)
  case (Cons e es)
  {
    case 1
    then obtain r where r: "protocol l c m p e = Some r" "accepts (protocol l c m) r es = Some q" by (auto split: option.splits)
    have "ph_step r = ph_step p + (if is_model e then 1 else 0)" using r(1) by (cases e) (auto split: if_splits)
    then show ?case using Cons.IH(1) [OF r(2)] by simp
  next
    case 2
    then obtain r where r: "protocol l c m p e = Some r" "accepts (protocol l c m) r es = Some q" by (auto split: option.splits)
    have "ph_step r \<le> m" using r(1) 2(1) by (cases e) (auto split: if_splits)
    then show ?case using Cons.IH(2) r(2) by blast
  }
qed auto

text \<open>A request that is refused has no effects.\<close>

lemma runFromState_refused:
  assumes "m = effective_max_steps (rc_Budget (rr_Context request))" "m < 1 \<or> MaxAllowedSteps < m \<or> (\<exists>e. buildToolCatalog (en_quote env) (rr_Tools request) = Inl e)"
  shows "snd (runFromState env request result k w) = w"
  using assms by (auto simp: runFromState_def check_request_def bind_res_def Let_def split: option.splits)

definition start :: "BudgetTracker option \<Rightarrow> run_world" where
  "start tracker = \<lparr>wd_log = [], wd_tracker = tracker\<rparr>"

lemma moves_start: "run_moves M p (start tracker) q w \<longleftrightarrow> accepts M p (wd_log w) = Some q"
  by (simp add: run_moves_def start_def)

lemma Run_calls:
  assumes r: "Run env request (start tracker) = (out, w')" and m: "m = effective_max_steps (rc_Budget (rr_Context request))"
  shows "int (length (filter is_model (wd_log w'))) \<le> (if 1 \<le> m \<and> m \<le> MaxAllowedSteps then m else 0)"
proof (cases "m < 1 \<or> MaxAllowedSteps < m \<or> (\<exists>e. buildToolCatalog (en_quote env) (rr_Tools request) = Inl e)")
  case True
  obtain t w1 where f: "run_moves (protocol True [] 0) first_phase (start tracker) first_phase w1"
    "runFromState env (request\<lparr>rr_Context := (rr_Context request)\<lparr>rc_StartedAt := t\<rparr>\<rparr>) (new_result ((rr_Context request)\<lparr>rc_StartedAt := t\<rparr>) (rr_Messages request) [] zero_usage) 1 w1 = (out, w')"
    by (rule Run_from [OF r])
  have "snd (out, w') = w1" unfolding f(2) [symmetric] by (rule runFromState_refused [where m = m]) (use True m in simp_all)
  then have "accepts (protocol True [] 0) first_phase (wd_log w') = Some first_phase" using f(1) by (simp add: moves_start)
  from accepts_calls(1) [OF this] show ?thesis by (simp add: MaxAllowedSteps_def)
next
  case False
  then obtain catalog where "buildToolCatalog (en_quote env) (rr_Tools request) = Inr catalog" by (metis sumE)
  then obtain q where q: "accepts (protocol (limited_by env) catalog m) first_phase (wd_log w') = Some q"
    using moves_Run [OF _ r] m moves_start by blast
  then show ?thesis using False accepts_calls [OF q] by (simp add: first_phase_def)
qed

lemma checkpoint_step:
  assumes "suspended_ok r" "rs_PendingAction r = Some a"
  shows "rs_Messages r \<noteq> []" "rs_Steps r \<noteq> []" "actionsContain (st_Actions (last (rs_Steps r))) (ac_ID a) (ac_Type a)"
    "\<exists>x\<in>set_option (latestAssistantMessage (rs_Messages r)). messageContainsAction x (ac_ID a) (ac_Type a)"
  using assms by (auto simp: suspended_ok_def step_open_def actionsContain_def messageContainsAction_def list_ex_iff latestAssistantMessage_def)

lemma kinds_distinct [simp]:
  "ResumeKindHumanResponse \<noteq> []" "ResumeKindToolApproval \<noteq> []" "ResumeKindDelegatedToolApproval \<noteq> []"
  "ResumeKindHumanResponse \<noteq> ResumeKindDelegatedToolApproval" "ResumeKindDelegatedToolApproval \<noteq> ResumeKindHumanResponse"
  "ResumeKindToolApproval \<noteq> ResumeKindHumanResponse" "ResumeKindToolApproval \<noteq> ResumeKindDelegatedToolApproval"
  by (simp_all add: resume_kinds)

lemma actions_distinct [simp]: "ActionToolCall \<noteq> ActionAskHuman" "ActionAskHuman \<noteq> ActionToolCall" "ActionRAGSearch \<noteq> ActionAskHuman" "ActionAskHuman \<noteq> ActionRAGSearch"
  by (simp_all add: action_types)

lemma validate_checkpoint:
  assumes "cp_Version c = ReActCheckpointVersion" "trim_space (rc_RunID (cp_Context c)) \<noteq> []" "rc_UserID (cp_Context c) \<noteq> 0" "trim_space (cp_Model c) \<noteq> []"
    and "(ac_Type (cp_PendingAction c) = ActionAskHuman \<and> validate_pending_human c = None) \<or>
      (ac_Type (cp_PendingAction c) = ActionToolCall \<and> validate_pending_tool c = None \<and> hasFailedObservation (st_Observations (last (cp_Steps c))) (ac_ID (cp_PendingAction c)))"
    and "cp_Messages c \<noteq> []" "cp_Steps c \<noteq> []"
    and "\<exists>m\<in>set_option (latestAssistantMessage (cp_Messages c)). messageContainsAction m (ac_ID (cp_PendingAction c)) (ac_Type (cp_PendingAction c))"
    and "actionsContain (st_Actions (last (cp_Steps c))) (ac_ID (cp_PendingAction c)) (ac_Type (cp_PendingAction c))"
  shows "ValidateRunCheckpoint c = None"
  using assms by (auto simp: ValidateRunCheckpoint_def Let_def)

lemma checkpoint_created:
  assumes s: "suspended_ok r" "rs_PendingAction r = Some a"
    and i: "trim_space (rc_RunID (rs_Context r)) \<noteq> []" "rc_UserID (rs_Context r) \<noteq> 0" "trim_space (rr_Model request) \<noteq> []" "trim_space (ac_ID a) \<noteq> []"
    and t: "ac_Type a \<noteq> ActionRAGSearch" "rs_PendingToolContinuation r \<noteq> None \<Longrightarrow> validateToolContinuation (rs_PendingToolContinuation r) = None"
      "rs_Status r = RunStatusApprovalRequired \<Longrightarrow> trim_space (rs_ApprovalID r) \<noteq> []"
  shows "NewRunCheckpoint request r = Inr \<lparr>cp_Version = ReActCheckpointVersion, cp_Context = rs_Context r, cp_Model = trim_space (rr_Model request), cp_Messages = rs_Messages r,
     cp_Steps = rs_Steps r, cp_PendingAction = a, cp_PendingResumeKind = rs_PendingResumeKind r, cp_PendingToolContinuation = rs_PendingToolContinuation r,
     cp_PendingApprovalID = trim_space (rs_ApprovalID r), cp_Usage = rs_Usage r\<rparr>"
proof -
  note p = checkpoint_step [OF s]
  have kind: "rs_PendingResumeKind r \<noteq> []" and w: "waits_for_answer r a \<or> waits_for_tool r a"
    using s by (auto simp: suspended_ok_def waits_for_answer_def waits_for_tool_def resume_kinds split: option.splits if_splits)
  let ?c = "\<lparr>cp_Version = ReActCheckpointVersion, cp_Context = rs_Context r, cp_Model = trim_space (rr_Model request), cp_Messages = rs_Messages r,
     cp_Steps = rs_Steps r, cp_PendingAction = a, cp_PendingResumeKind = rs_PendingResumeKind r, cp_PendingToolContinuation = rs_PendingToolContinuation r,
     cp_PendingApprovalID = trim_space (rs_ApprovalID r), cp_Usage = rs_Usage r\<rparr>"
  have "(ac_Type a = ActionAskHuman \<and> validate_pending_human ?c = None)
    \<or> (ac_Type a = ActionToolCall \<and> validate_pending_tool ?c = None \<and> hasFailedObservation (st_Observations (last (rs_Steps r))) (ac_ID a))"
  proof (cases "waits_for_answer r a")
    case True
    then show ?thesis using i by (simp add: validate_pending_human_def waits_for_answer_def)
  next
    case False
    then have wt: "waits_for_tool r a" "ac_Type a = ActionToolCall" using w t(1) by (auto simp: waits_for_tool_def)
    have "validate_pending_tool ?c = None"
    proof (cases "rs_PendingToolContinuation r")
      case None
      then show ?thesis using wt i t(3) by (simp add: validate_pending_tool_def waits_for_tool_def Let_def)
    next
      case (Some k)
      then show ?thesis using wt i t(2,3) by (cases "tc_ResumeKind k = ResumeKindDelegatedToolApproval") (simp_all add: validate_pending_tool_def waits_for_tool_def Let_def)
    qed
    then show ?thesis using wt by (simp add: waits_for_tool_def)
  qed
  then have "ValidateRunCheckpoint ?c = None" using p i by (intro validate_checkpoint) simp_all
  then show ?thesis using kind s by (simp add: NewRunCheckpoint_def)
qed

section \<open>A permit too many\<close>

text \<open>
  The controller of \<^verbatim>\<open>admission.go\<close> as a runner sees it: a limiter with the permits of other runs, after the permits that
  the run has taken and given back so far. The caller's context has no admission of its own.
\<close>

fun replay :: "run_log \<Rightarrow> InMemoryConcurrencyLimiter \<Rightarrow> InMemoryConcurrencyLimiter" where
  "replay [] l = l"
| "replay (RAcquire q True # es) l = replay es (the (snd (Acquire None None q (Some l))))"
| "replay (RReleasePermit q # es) l = replay es (release_permit q l)"
| "replay (e # es) l = replay es l"

definition limiter_admission :: "InMemoryConcurrencyLimiter \<Rightarrow> run_log \<Rightarrow> AdmissionRequest \<Rightarrow> gerr option" where
  "limiter_admission limiter es q =
     (case fst (Acquire None None q (Some (replay es limiter))) of Inl err \<Rightarrow> Some err | Inr x \<Rightarrow> None)"

lemma replay_append: "replay (es @ fs) l = replay fs (replay es l)"
  by (induction es l rule: replay.induct) auto

lemma replay_actions: "accepts only_actions p es = Some q \<Longrightarrow> replay es l = l"
  by (induction es l arbitrary: p rule: replay.induct) (auto split: option.splits)

lemma only_actions_models: "accepts only_actions p es = Some q \<Longrightarrow> filter is_model es = []"
proof (induction es arbitrary: p)
  case (Cons e es)
  then show ?case by (cases e) (auto split: option.splits)
qed simp

text \<open>Fewer than two permits of a user are free.\<close>

definition last_permit :: "InMemoryConcurrencyLimiter \<Rightarrow> 64 word \<Rightarrow> bool" where
  "last_permit l u \<longleftrightarrow> u \<noteq> 0 \<and> 0 < lim_MaxPerUser (lm_limits l) \<and> lim_MaxPerUser (lm_limits l) \<le> map_get 0 (lm_users l) u + 1"

lemma second_permit_refused:
  assumes "last_permit l (aq_UserID q)" "accepts only_actions p es = Some p'" "limiter_admission l [] q = None"
  shows "\<exists>err. limiter_admission l (RAcquire q True # es) q = Some err \<and> errors_Is err ErrConcurrencyLimitExceeded"
proof -
  have "the (snd (Acquire None None q (Some l))) = take_permit q l"
    using assms(3) by (auto simp: limiter_admission_def Acquire_def Let_def split: if_splits)
  then have "replay (RAcquire q True # es) l = take_permit q l" using replay_actions [OF assms(2)] by simp
  moreover have "map_get 0 (lm_users (take_permit q l)) (aq_UserID q) = map_get 0 (lm_users l) (aq_UserID q) + 1" "lm_limits (take_permit q l) = lm_limits l"
    using assms(1) by (simp_all add: take_permit_def last_permit_def Let_def)
  ultimately show ?thesis using assms(1) by (simp add: limiter_admission_def Acquire_def last_permit_def Let_def errors_Is_def ErrConcurrencyLimitExceeded_def)
qed

lemma run_refused:
  assumes "en_Acquire env = Some f" "f (wd_log w) (admission_request request) = Some err" "errors_Is err ErrConcurrencyLimitExceeded"
    and r: "runFromState env request result k w = ((res, e), w')"
  shows "rs_Status res = RunStatusFailed \<and> filter is_model (wd_log w') = filter is_model (wd_log w)"
  using assms by (auto simp: runFromState_def failResult_def acquire_def admission_request_def with_max_steps_def Let_def
      split: option.splits if_splits sum.splits prod.splits)

lemma resume_held_blocked:
  assumes env: "en_Acquire env = Some (limiter_admission l)" "last_permit l (rc_UserID (rr_Context request))"
    and w: "wd_log w = [RAcquire (admission_request request) True]" "limiter_admission l [] (admission_request request) = None"
    and r: "resume_held env request catalog result step pending rest resumeTool call w = ((res, e), w')"
  shows "filter is_model (wd_log w') = [] \<and> rs_Status res \<noteq> RunStatusCompleted"
proof -
  let ?p = first_phase
  obtain d w1 where t: "withBudgetContext env (rc_Budget (rr_Context request)) w = (d, w1)" by fastforce
  let ?w2 = "emit env (RResume call) w1"
  have e: "run_moves only_actions ?p w ?p ?w2" using only.moves_timer [OF t] by (rule moves_trans) (auto intro: moves_emit)
  have none: "filter is_model (wd_log v) = []" if "run_moves only_actions ?p w ?p v" for v
    using that w(1) only_actions_models by (auto simp: run_moves_def)
  show ?thesis
  proof (cases "resumeTool (wd_log w1) call")
    case (Inl execErr)
    then obtain result1 w3 cerr where f: "refinish_step env result step (st_Observations step @ [observation pending True]) (rs_Messages result) ?w2 = (result1, w3)"
        "ctx_Err env d w3 = (cerr, w')" "rs_Status res \<noteq> RunStatusCompleted"
      using r t by (auto simp: resume_held_def Let_def failResult_def suspendForToolContinuation_def run_statuses split: prod.splits option.splits if_splits)
    have "run_moves only_actions ?p w ?p w'" by (rule moves_trans [OF moves_trans [OF e only.moves_refinish [OF f(1)]] only.moves_ctx [OF f(2)]])
    then show ?thesis using none f(3) by simp
  next
    case (Inr toolResult)
    then obtain obs0 msgs0 stop obs msgs w3 result1 w4 where f: "run_actions env d (rr_Context request) catalog (st_Index step) rest obs0 msgs0 ?w2 = (stop, obs, msgs, w3)"
        "refinish_step env result step obs msgs w3 = (result1, w4)"
        "(case stop of Some (action, err) \<Rightarrow> (stop_at result1 action err (st_Index step), w4)
          | None \<Rightarrow> runFromState env request result1 (st_Index step + 1) w4) = ((res, e), w')"
      using r t by (auto simp: resume_held_def Let_def split: prod.splits)
    have e4: "run_moves only_actions ?p w ?p w4" by (rule moves_trans [OF moves_trans [OF e only.moves_actions [OF f(1)]] only.moves_refinish [OF f(2)]])
    then obtain es where es: "wd_log w4 = RAcquire (admission_request request) True # es" "accepts only_actions ?p es = Some ?p"
      using w(1) by (auto simp: run_moves_def)
    show ?thesis
    proof (cases stop)
      case None
      obtain err where err: "limiter_admission l (wd_log w4) (admission_request request) = Some err" "errors_Is err ErrConcurrencyLimitExceeded"
        using second_permit_refused [OF _ es(2) w(2)] env(2) es(1) by (auto simp: admission_request_def)
      have "runFromState env request result1 (st_Index step + 1) w4 = ((res, e), w')" using f(3) None by simp
      from run_refused [OF env(1) err this] none [OF e4] show ?thesis by (simp add: run_statuses)
    next
      case (Some ae)
      then show ?thesis using f(3) none [OF e4]
        by (auto simp: stop_at_def suspendForToolContinuation_def failResult_def Let_def run_statuses split: prod.splits option.splits if_splits)
    qed
  qed
qed

lemma resumeSuspended_blocked:
  assumes env: "en_Acquire env = Some (limiter_admission l)" "last_permit l (rc_UserID (rr_Context request))"
    and r: "resumeSuspendedTool env request result pending continuation human approval token (start tracker) = ((res, e), w')"
  shows "filter is_model (wd_log w') = [] \<and> rs_Status res \<noteq> RunStatusCompleted"
proof -
  let ?q = "admission_request request"
  consider "rs_Status res = RunStatusFailed" "filter is_model (wd_log w') = []"
    | result1 step actions resumeTool call w2 catalog where "limiter_admission l [] ?q = None"
      "resume_held env request catalog result1 step pending actions resumeTool call (emit env (RAcquire ?q True) (start tracker)) = ((res, e), w2)" "w' = release_run env request w2"
    using r env(1) by (auto simp: resumeSuspendedTool_def acquire_def failResult_def start_def Let_def split: option.splits if_splits sum.splits prod.splits)
  then show ?thesis
  proof cases
    case 2
    from resume_held_blocked [OF env _ 2(1,2)] 2(3) show ?thesis by (simp add: start_def release_run_def)
  qed (simp add: run_statuses)
qed

end
