(* ===== verification/React_Properties.thy ===== *)
theory React_Properties
  imports React_Runs
begin

text \<open>
  What a caller may rely on in agent runs, and two things that it may not: a question on the last step, and a suspended
  tool that is resumed with the user's last permit. The scripted runs at the end of the theory show that each statement
  applies.
\<close>

section \<open>A scripted outside\<close>

text \<open>A model that gives the answers of a script one after the other, tools that echo their name, and a gated tool that waits for an approval.\<close>

definition react_demo_action :: "string \<Rightarrow> string \<Rightarrow> string \<Rightarrow> string \<Rightarrow> Action" where
  "react_demo_action i ty name content = \<lparr>ac_ID = i, ac_Type = ty, ac_Name = name, ac_Arguments = RawJSON (GMap []), ac_Content = content\<rparr>"

definition react_demo_response :: "Action list \<Rightarrow> ModelResponse" where
  "react_demo_response as = \<lparr>mp_shared = True, mp_Message = \<lparr>ms_Role = RoleAssistant, ms_Content = [], ms_Name = [], ms_ToolCallID = [], ms_Actions = as\<rparr>, mp_Actions = as,
     mp_Usage = zero_usage\<lparr>tu_InputTokens := 3, tu_OutputTokens := 2\<rparr>, mp_Model = ''m'', mp_Provider = ''p'', mp_ModelRouting = None\<rparr>"

definition scripted :: "Action list list \<Rightarrow> run_log \<Rightarrow> ModelRequest \<Rightarrow> ModelResponse \<times> gerr option" where
  "scripted script es q = (let n = length (filter is_model es) in if n < length script then (react_demo_response (script ! n), None) else (react_demo_response [], Some ECanceled))"

definition react_demo_pending :: gerr where
  "react_demo_pending = run_error ErrorApprovalRequired 0 [] ''ap1'' [] None"

definition react_demo_limiter :: InMemoryConcurrencyLimiter where
  "react_demo_limiter = NewInMemoryConcurrencyLimiter \<lparr>lim_MaxPerUser = 1, lim_MaxPerWorkflow = 0\<rparr>"

definition react_demo_continuation :: ToolContinuation where
  "react_demo_continuation = \<lparr>tc_Version = ''v1'', tc_Prompt = ''which one'', tc_ResumeKind = [], tc_ApprovalID = [], tc_State = RawJSON (GMap [])\<rparr>"

definition react_demo_env :: "Action list list \<Rightarrow> run_env" where
  "react_demo_env script = \<lparr>en_Complete = Some (scripted script),
     en_Execute = Some (\<lambda>es call. if tl_Name call = ''ask'' then Inl (EToolSuspension react_demo_continuation None) else Inr \<lparr>tr_Content = tl_Name call, tr_StructuredContent = RawEmpty\<rparr>),
     en_ExecuteApprovalGated = Some (\<lambda>es call. if length (filter is_model es) = 0 then Inr \<lparr>tr_Content = ''posted'', tr_StructuredContent = RawEmpty\<rparr> else Inl react_demo_pending),
     en_ResumeTool = Some (\<lambda>es call. Inr \<lparr>tr_Content = tq_HumanResponse call, tr_StructuredContent = RawEmpty\<rparr>),
     en_Search = None, en_EstimateRequest = (\<lambda>m. zero_usage\<lparr>tu_InputTokens := 4, tu_TotalTokens := 4\<rparr>), en_EstimateResponse = (\<lambda>r. zero_usage), en_EstimateCost = None,
     en_Acquire = Some (limiter_admission react_demo_limiter), en_now = (\<lambda>es. 100 + int (length es)), en_timer = (\<lambda>es. 0), en_ctx_Err = (\<lambda>es d. None),
     en_others = (\<lambda>es t. t), en_quote = (\<lambda>s. s), en_unmarshal_error = (\<lambda>r. EMsg [])\<rparr>"

definition react_demo_tools :: "ToolDefinition list" where
  "react_demo_tools = [\<lparr>td_Name = ''look'', td_Description = [], td_InputSchema = RawEmpty, td_Category = ''read'', td_RequiresApproval = False\<rparr>,
     \<lparr>td_Name = ''ask'', td_Description = [], td_InputSchema = RawEmpty, td_Category = ''read'', td_RequiresApproval = False\<rparr>,
     \<lparr>td_Name = ''post'', td_Description = [], td_InputSchema = RawEmpty, td_Category = ToolCategoryWrite, td_RequiresApproval = False\<rparr>]"

definition react_demo_request :: "int \<Rightarrow> RunRequest" where
  "react_demo_request maxSteps = \<lparr>rr_Context = \<lparr>rc_RunID = ''r1'', rc_ParentRunID = [], rc_RoleID = [], rc_StrategyPlanDigest = [], rc_WorkflowID = [], rc_UserID = 7, rc_Mode = [],
       rc_AgentProfileID = [], rc_AgentProfileVersion = [], rc_PromptTemplateID = [], rc_PromptTemplateVersion = [], rc_StartedAt = 0,
       rc_Budget = \<lparr>bg_MaxSteps = maxSteps, bg_MaxInputTokens = 0, bg_MaxOutputTokens = 0, bg_MaxTotalTokens = 20, bg_MaxEstimatedCostMicros = 0, bg_Timeout = 0, bg_Deadline = None\<rparr>\<rparr>,
     rr_Model = ''m'', rr_Messages = [], rr_Tools = react_demo_tools, rr_InitialToolChoice = []\<rparr>"

definition react_demo_tracker :: "BudgetTracker option" where
  "react_demo_tracker = Some \<lparr>bt_budget = \<lparr>bg_MaxSteps = 0, bg_MaxInputTokens = 0, bg_MaxOutputTokens = 0, bg_MaxTotalTokens = 100, bg_MaxEstimatedCostMicros = 0, bg_Timeout = 0, bg_Deadline = None\<rparr>,
     bt_nodeExecutions = 0, bt_usage = zero_usage, bt_reserved = zero_usage\<rparr>"

definition react_demo_run :: "int \<Rightarrow> Action list list \<Rightarrow> run_outcome \<times> run_world" where
  "react_demo_run maxSteps script = Run (react_demo_env script) (react_demo_request maxSteps) (start react_demo_tracker)"

definition react_demo_look_and_answer :: "Action list list" where
  "react_demo_look_and_answer = [[react_demo_action ''a1'' ActionToolCall ''look'' [], react_demo_action [] ActionToolCall ''look'' []], [react_demo_action ''a2'' ActionFinalAnswer [] ''fine'']]"

definition react_demo_post :: "Action list list" where
  "react_demo_post = [[react_demo_action ''a1'' ActionToolCall ''look'' [], react_demo_action ''a2'' ActionToolCall ''post'' []]]"

definition react_demo_question :: "Action list list" where
  "react_demo_question = [[react_demo_action ''a1'' ActionAskHuman [] ''who'']]"

definition react_demo_suspend :: "Action list list" where
  "react_demo_suspend = [[react_demo_action ''a1'' ActionToolCall ''ask'' [], react_demo_action ''a2'' ActionToolCall ''look'' []]]"

definition react_demo_checkpoint :: "int \<Rightarrow> Action list list \<Rightarrow> RunCheckpoint" where
  "react_demo_checkpoint maxSteps script = projr (NewRunCheckpoint (react_demo_request maxSteps) (fst (fst (react_demo_run maxSteps script))))"

definition react_demo_resume :: "int \<Rightarrow> Action list list \<Rightarrow> string \<Rightarrow> string \<Rightarrow> ResumeRequest" where
  "react_demo_resume maxSteps script human approval = \<lparr>rm_Checkpoint = react_demo_checkpoint maxSteps script, rm_HumanResponse = human, rm_ApprovalID = approval, rm_ResumeToken = [], rm_Tools = react_demo_tools\<rparr>"

definition react_demo_resumed :: "int \<Rightarrow> Action list list \<Rightarrow> string \<Rightarrow> string \<Rightarrow> Action list list \<Rightarrow> run_outcome \<times> run_world" where
  "react_demo_resumed maxSteps script human approval script' = Resume (react_demo_env script') (react_demo_resume maxSteps script human approval) (start react_demo_tracker)"

lemma react_demo_catalog: "buildToolCatalog (en_quote (react_demo_env script)) react_demo_tools = Inr (map (\<lambda>t. (td_Name t, t)) react_demo_tools)"
  by (simp add: react_demo_tools_def buildToolCatalog_def Let_def react_demo_env_def) code_simp

section \<open>Runs\<close>

text \<open>
  C4. Whatever the model, the tools, the clocks and the other users of the budget do, the effects of a run are accepted by
  the protocol of a runner: the model is called with consecutive step numbers up to the limit, with a permit, and without
  tools on the last step; every budget reservation is settled before an action runs or the permit is given back; only
  tools of the catalog run, with a permit, the write and risky ones only through the approval gate, and none on the last
  step. At the end no permit is held and no reservation is open.
\<close>
theorem run_follows_protocol:
  assumes "buildToolCatalog (en_quote env) (rr_Tools request) = Inr catalog"
  shows "\<exists>q. accepts (protocol (en_Acquire env \<noteq> None) catalog (effective_max_steps (rc_Budget (rr_Context request)))) first_phase
       (wd_log (snd (Run env request (start tracker)))) = Some q \<and> \<not> ph_open q \<and> ph_held q = 0"
proof -
  obtain out w' where r: "Run env request (start tracker) = (out, w')" by fastforce
  then show ?thesis using moves_Run [OF assms r] by (simp add: moves_start)
qed

theorem run_follows_protocol_witness:
  "(\<exists>q. accepts (protocol True (map (\<lambda>t. (td_Name t, t)) react_demo_tools) 3) first_phase (wd_log (snd (react_demo_run 3 react_demo_look_and_answer))) = Some q \<and> \<not> ph_open q \<and> ph_held q = 0)
   \<and> length (wd_log (snd (react_demo_run 3 react_demo_look_and_answer))) = 19"
proof
  show "\<exists>q. accepts (protocol True (map (\<lambda>t. (td_Name t, t)) react_demo_tools) 3) first_phase (wd_log (snd (react_demo_run 3 react_demo_look_and_answer))) = Some q \<and> \<not> ph_open q \<and> ph_held q = 0"
    using run_follows_protocol [of "react_demo_env react_demo_look_and_answer" "react_demo_request 3" "map (\<lambda>t. (td_Name t, t)) react_demo_tools" react_demo_tracker] react_demo_catalog
    by (simp add: react_demo_run_def react_demo_request_def react_demo_env_def effective_max_steps_def)
  show "length (wd_log (snd (react_demo_run 3 react_demo_look_and_answer))) = 19" by code_simp
qed

text \<open>
  C5. A run returns after at most as many model calls as its budget has steps, and never more than 64, with one of the
  four final statuses; there is no error exactly when it has an answer or waits for a human.
\<close>
theorem run_returns_within_steps:
  "case Run env request (start tracker) of ((r, err), w') \<Rightarrow>
     rs_Status r \<in> {RunStatusCompleted, RunStatusAwaitingHuman, RunStatusApprovalRequired, RunStatusFailed}
     \<and> (err = None) = (rs_Status r \<in> {RunStatusCompleted, RunStatusAwaitingHuman})
     \<and> int (length (filter is_model (wd_log w')))
        \<le> (let m = effective_max_steps (rc_Budget (rr_Context request)) in if 1 \<le> m \<and> m \<le> 64 then m else 0)"
proof -
  obtain r err w' where r: "Run env request (start tracker) = ((r, err), w')" by (metis prod.exhaust)
  obtain t where "outcome_ok (run_context request t) (r, err)" by (rule Run_ok [OF r])
  then show ?thesis using r Run_calls [OF r refl] by (auto simp: outcome_ok_def Let_def MaxAllowedSteps_def run_statuses)
qed

text \<open>
  C6. A run that does not fail stays within its token and cost budgets, by what the model reported or the counter
  estimated, with its steps numbered from one.
\<close>
theorem run_within_budget:
  assumes "Run env request w = ((r, err), w')" and "rs_Status r \<noteq> RunStatusFailed"
  shows "within_budget (rc_Budget (rr_Context request)) (rs_Usage r) \<and> map st_Index (rs_Steps r) = map int [1..<Suc (length (rs_Steps r))]"
proof -
  obtain t where "outcome_ok (run_context request t) (r, err)" by (rule Run_ok [OF assms(1)])
  then show ?thesis using assms(2) by (auto simp: outcome_ok_def numbered_def)
qed

theorem run_within_budget_witness:
  "within_budget (rc_Budget (rr_Context (react_demo_request 3))) (rs_Usage (fst (fst (react_demo_run 3 react_demo_look_and_answer)))) \<and> tu_TotalTokens (rs_Usage (fst (fst (react_demo_run 3 react_demo_look_and_answer)))) = 10"
proof
  obtain r err w' where r: "react_demo_run 3 react_demo_look_and_answer = ((r, err), w')" by (metis prod.exhaust)
  have "rs_Status (fst (fst (react_demo_run 3 react_demo_look_and_answer))) \<noteq> RunStatusFailed" by code_simp
  then show "within_budget (rc_Budget (rr_Context (react_demo_request 3))) (rs_Usage (fst (fst (react_demo_run 3 react_demo_look_and_answer))))"
    using run_within_budget [OF r [unfolded react_demo_run_def]] r by simp
  show "tu_TotalTokens (rs_Usage (fst (fst (react_demo_run 3 react_demo_look_and_answer)))) = 10" by code_simp
qed

section \<open>Suspended runs\<close>

text \<open>
  C7. A suspended run can be saved and taken up again. Assume that the run has a run identifier and a model that are not blank and a user that is not
  zero, that the pending action has an identifier that is not blank and is not a search, that the
  continuation of a pending tool passes its validation, and that a run waiting for an approval has an approval identifier that is
  not blank. Then the checkpoint of the result is created and valid and keeps the steps, the usage and the pending
  action; and the answer to a question is handed to the run loop at the step after the last one. (After a question on
  the last step of the budget that loop has no step left and fails.)
\<close>
theorem suspended_run_resumes:
  assumes run: "Run env request w = ((r, err), w')" "rs_Status r = RunStatusAwaitingHuman \<or> rs_Status r = RunStatusApprovalRequired"
    and identity: "trim_space (rc_RunID (rr_Context request)) \<noteq> []" "rc_UserID (rr_Context request) \<noteq> 0" "trim_space (rr_Model request) \<noteq> []"
    and pending: "rs_PendingAction r = Some a" "trim_space (ac_ID a) \<noteq> []" "ac_Type a \<noteq> ActionRAGSearch"
    and continuation: "rs_PendingToolContinuation r \<noteq> None \<Longrightarrow> validateToolContinuation (rs_PendingToolContinuation r) = None"
    and approval: "rs_Status r = RunStatusApprovalRequired \<Longrightarrow> trim_space (rs_ApprovalID r) \<noteq> []"
  shows "\<exists>c. NewRunCheckpoint request r = Inr c \<and> ValidateRunCheckpoint c = None \<and> cp_PendingAction c = a \<and> cp_Steps c = rs_Steps r \<and> cp_Usage c = rs_Usage r
    \<and> (ac_Type a = ActionAskHuman \<longrightarrow> (\<forall>env' tools s v. trim_space s \<noteq> [] \<longrightarrow>
         Resume env' \<lparr>rm_Checkpoint = c, rm_HumanResponse = s, rm_ApprovalID = [], rm_ResumeToken = [], rm_Tools = tools\<rparr> v =
         runFromState env' \<lparr>rr_Context = rs_Context r, rr_Model = trim_space (rr_Model request), rr_Messages = [], rr_Tools = tools, rr_InitialToolChoice = []\<rparr>
           (new_result (rs_Context r) (rs_Messages r @ [\<lparr>ms_Role = RoleUser, ms_Content = trim_space s, ms_Name = [], ms_ToolCallID = [], ms_Actions = []\<rparr>]) (rs_Steps r) (rs_Usage r))
           (st_Index (last (rs_Steps r)) + 1) v))"
proof -
  obtain t where o: "outcome_ok (run_context request t) (r, err)" by (rule Run_ok [OF run(1)])
  then have s: "suspended_ok r" and c: "rs_Context r = run_context request t" and n: "numbered (rs_Steps r)"
    using run(2) by (auto simp: outcome_ok_def run_statuses)
  note i = identity(1,2) [folded run_context_fields(1,2) [of request t], folded c]
  let ?c = "\<lparr>cp_Version = ReActCheckpointVersion, cp_Context = rs_Context r, cp_Model = trim_space (rr_Model request), cp_Messages = rs_Messages r,
     cp_Steps = rs_Steps r, cp_PendingAction = a, cp_PendingResumeKind = rs_PendingResumeKind r, cp_PendingToolContinuation = rs_PendingToolContinuation r,
     cp_PendingApprovalID = trim_space (rs_ApprovalID r), cp_Usage = rs_Usage r\<rparr>"
  have new: "NewRunCheckpoint request r = Inr ?c"
    by (rule checkpoint_created [OF s pending(1) i identity(3) pending(2,3) continuation approval])
  then have valid: "ValidateRunCheckpoint ?c = None" by (auto simp: NewRunCheckpoint_def Let_def split: option.splits)
  have "st_Index (last (rs_Steps r)) = int (length (rs_Steps r))" using numbered_last [OF n] checkpoint_step(2) [OF s pending(1)] by blast
  then show ?thesis using new valid by (intro exI [of _ ?c]) (simp add: Resume_def new_result_def Let_def trim_space_Nil)
qed

theorem suspended_run_resumes_witness:
  "\<exists>c. NewRunCheckpoint (react_demo_request 3) (fst (fst (react_demo_run 3 react_demo_question))) = Inr c \<and> ValidateRunCheckpoint c = None \<and> length (cp_Steps c) = 1"
proof -
  obtain r err w' where r: "react_demo_run 3 react_demo_question = ((r, err), w')" by (metis prod.exhaust)
  have f: "fst (fst (react_demo_run 3 react_demo_question)) = r" using r by simp
  have "rs_Status (fst (fst (react_demo_run 3 react_demo_question))) = RunStatusAwaitingHuman" "rs_PendingAction (fst (fst (react_demo_run 3 react_demo_question))) = Some (react_demo_action ''a1'' ActionAskHuman [] ''who'')"
    "rs_PendingToolContinuation (fst (fst (react_demo_run 3 react_demo_question))) = None" "length (rs_Steps (fst (fst (react_demo_run 3 react_demo_question)))) = 1" by code_simp+
  note s = this [unfolded f]
  have i: "trim_space (rc_RunID (rr_Context (react_demo_request 3))) \<noteq> []" "rc_UserID (rr_Context (react_demo_request 3)) \<noteq> 0" "trim_space (rr_Model (react_demo_request 3)) \<noteq> []"
    "trim_space (ac_ID (react_demo_action ''a1'' ActionAskHuman [] ''who'')) \<noteq> []" by code_simp+
  have "ac_Type (react_demo_action ''a1'' ActionAskHuman [] ''who'') \<noteq> ActionRAGSearch" "rs_Status r \<noteq> RunStatusApprovalRequired"
    using s by (simp_all add: react_demo_action_def run_statuses)
  with suspended_run_resumes [OF r [unfolded react_demo_run_def] _ i(1-3) s(2) i(4)] s show ?thesis unfolding f by auto
qed

text \<open>
  C8. A resumed run follows the same protocol, from the last step of its checkpoint on: the calls of all parts of a run
  together stay within its steps, the actions of the suspended step run under the same rules, a suspended tool is taken
  up only if it is still in the catalog and needs no approval, and at the end no permit is held.
\<close>
theorem resume_follows_protocol:
  assumes "buildToolCatalog (en_quote env) (rm_Tools request) = Inr catalog"
    and "st_Index (last (cp_Steps (rm_Checkpoint request))) = int (length (cp_Steps (rm_Checkpoint request)))"
    and "st_Index (last (cp_Steps (rm_Checkpoint request))) < effective_max_steps (rc_Budget (cp_Context (rm_Checkpoint request)))"
  shows "\<exists>q. accepts (protocol (en_Acquire env \<noteq> None) catalog (effective_max_steps (rc_Budget (cp_Context (rm_Checkpoint request))))) (resumed_phase (rm_Checkpoint request))
       (wd_log (snd (Resume env request (start tracker)))) = Some q \<and> \<not> ph_open q \<and> ph_held q = 0
       \<and> ph_step q \<le> effective_max_steps (rc_Budget (cp_Context (rm_Checkpoint request)))"
proof -
  obtain out w' where r: "Resume env request (start tracker) = (out, w')" by fastforce
  then obtain q where q: "accepts (protocol (limited_by env) catalog (effective_max_steps (rc_Budget (cp_Context (rm_Checkpoint request))))) (resumed_phase (rm_Checkpoint request)) (wd_log w') = Some q"
    "\<not> ph_open q" "ph_held q = 0"
    using moves_Resume [OF assms(1) refl assms(2,3) r] by (auto simp: moves_start)
  then show ?thesis using r accepts_calls(2) [OF q(1)] assms(3) by (auto simp: resumed_phase_def)
qed

theorem resume_follows_protocol_witness:
  "(\<exists>q. accepts (protocol True (map (\<lambda>t. (td_Name t, t)) react_demo_tools) 3) (resumed_phase (react_demo_checkpoint 3 react_demo_post))
      (wd_log (snd (react_demo_resumed 3 react_demo_post [] ''ap1'' [[react_demo_action ''a3'' ActionFinalAnswer [] ''posted'']]))) = Some q \<and> \<not> ph_open q \<and> ph_held q = 0)
   \<and> rs_Status (fst (fst (react_demo_resumed 3 react_demo_post [] ''ap1'' [[react_demo_action ''a3'' ActionFinalAnswer [] ''posted'']]))) = RunStatusCompleted"
proof
  let ?s = "[[react_demo_action ''a3'' ActionFinalAnswer [] ''posted'']]"
  have "st_Index (last (cp_Steps (react_demo_checkpoint 3 react_demo_post))) = int (length (cp_Steps (react_demo_checkpoint 3 react_demo_post)))"
    "st_Index (last (cp_Steps (react_demo_checkpoint 3 react_demo_post))) < effective_max_steps (rc_Budget (cp_Context (react_demo_checkpoint 3 react_demo_post)))"
    "effective_max_steps (rc_Budget (cp_Context (react_demo_checkpoint 3 react_demo_post))) = 3" by code_simp+
  then show "\<exists>q. accepts (protocol True (map (\<lambda>t. (td_Name t, t)) react_demo_tools) 3) (resumed_phase (react_demo_checkpoint 3 react_demo_post))
      (wd_log (snd (react_demo_resumed 3 react_demo_post [] ''ap1'' ?s))) = Some q \<and> \<not> ph_open q \<and> ph_held q = 0"
    using resume_follows_protocol [of "react_demo_env ?s" "react_demo_resume 3 react_demo_post [] ''ap1''" "map (\<lambda>t. (td_Name t, t)) react_demo_tools" react_demo_tracker] react_demo_catalog
    by (auto simp: react_demo_resumed_def react_demo_resume_def react_demo_env_def)
  show "rs_Status (fst (fst (react_demo_resumed 3 react_demo_post [] ''ap1'' ?s))) = RunStatusCompleted" by code_simp
qed

text \<open>
  A question that the model asks on the last step is lost: the run waits for an answer, and every attempt to resume
  it fails without a call to the model.
\<close>
theorem last_step_question_is_lost:
  assumes "ac_Type (cp_PendingAction (rm_Checkpoint request)) = ActionAskHuman"
    and "effective_max_steps (rc_Budget (cp_Context (rm_Checkpoint request))) \<le> int (length (cp_Steps (rm_Checkpoint request)))"
    and "Resume env request (start tracker) = ((r, err), w')"
  shows "rs_Status r = RunStatusFailed \<and> err \<noteq> None \<and> filter is_model (wd_log w') = []"
  using assms
  by (auto simp: Resume_def runFromState_def failResult_def acquire_def withBudgetContext_def release_run_def start_def new_result_def Let_def
      split: option.splits if_splits sum.splits prod.splits)

theorem last_step_question_is_lost_witness:
  "rs_Status (fst (fst (react_demo_run 1 react_demo_question))) = RunStatusAwaitingHuman
   \<and> rs_Status (fst (fst (react_demo_resumed 1 react_demo_question ''me'' [] [[react_demo_action ''a3'' ActionFinalAnswer [] ''done'']]))) = RunStatusFailed"
proof
  let ?s = "[[react_demo_action ''a3'' ActionFinalAnswer [] ''done'']]"
  obtain r err w' where r: "react_demo_resumed 1 react_demo_question ''me'' [] ?s = ((r, err), w')" by (metis prod.exhaust)
  have "ac_Type (cp_PendingAction (react_demo_checkpoint 1 react_demo_question)) = ActionAskHuman"
    "effective_max_steps (rc_Budget (cp_Context (react_demo_checkpoint 1 react_demo_question))) \<le> int (length (cp_Steps (react_demo_checkpoint 1 react_demo_question)))" by code_simp+
  then show "rs_Status (fst (fst (react_demo_resumed 1 react_demo_question ''me'' [] ?s))) = RunStatusFailed"
    using last_step_question_is_lost [OF _ _ r [unfolded react_demo_resumed_def]] r by (simp add: react_demo_resume_def)
  show "rs_Status (fst (fst (react_demo_run 1 react_demo_question))) = RunStatusAwaitingHuman" by code_simp
qed

text \<open>
  A suspended tool is taken up while the permit of the resumption is held, and the rest of the run asks for
  another: when the user has fewer than two permits free, the tool runs but the model is never called again and the run
  never completes.
\<close>
theorem resumed_tool_needs_two_permits:
  assumes "en_Acquire env = Some (limiter_admission l)" "last_permit l (rc_UserID (cp_Context (rm_Checkpoint request)))"
    and "cp_PendingResumeKind (rm_Checkpoint request) = ResumeKindHumanResponse \<or> cp_PendingResumeKind (rm_Checkpoint request) = ResumeKindDelegatedToolApproval"
    and "ac_Type (cp_PendingAction (rm_Checkpoint request)) = ActionToolCall"
    and "Resume env request (start tracker) = ((r, err), w')"
  shows "filter is_model (wd_log w') = [] \<and> rs_Status r \<noteq> RunStatusCompleted"
proof -
  let ?c = "rm_Checkpoint request"
  let ?request = "\<lparr>rr_Context = cp_Context ?c, rr_Model = cp_Model ?c, rr_Messages = [], rr_Tools = rm_Tools request, rr_InitialToolChoice = []\<rparr>"
  consider "rs_Status r = RunStatusFailed" "wd_log w' = []"
    | result k h a t where "resumeSuspendedTool env ?request result (cp_PendingAction ?c) k h a t (start tracker) = ((r, err), w')"
    using assms(3-5) by (auto simp: Resume_def Let_def failResult_def start_def split: option.splits if_splits)
  then show ?thesis
  proof cases
    case 2
    show ?thesis by (rule resumeSuspended_blocked [OF assms(1) _ 2]) (use assms(2) in simp)
  qed (simp add: run_statuses)
qed

theorem resumed_tool_needs_two_permits_witness:
  "ValidateRunCheckpoint (react_demo_checkpoint 3 react_demo_suspend) = None \<and>
   rs_Status (fst (fst (react_demo_resumed 3 react_demo_suspend ''me'' [] [[react_demo_action ''a3'' ActionFinalAnswer [] ''done'']]))) \<noteq> RunStatusCompleted"
proof
  let ?s = "[[react_demo_action ''a3'' ActionFinalAnswer [] ''done'']]"
  obtain r err w' where r: "react_demo_resumed 3 react_demo_suspend ''me'' [] ?s = ((r, err), w')" by (metis prod.exhaust)
  have "en_Acquire (react_demo_env ?s) = Some (limiter_admission react_demo_limiter)" by (simp add: react_demo_env_def)
  moreover have "last_permit react_demo_limiter (rc_UserID (cp_Context (react_demo_checkpoint 3 react_demo_suspend)))"
    "cp_PendingResumeKind (react_demo_checkpoint 3 react_demo_suspend) = ResumeKindHumanResponse" "ac_Type (cp_PendingAction (react_demo_checkpoint 3 react_demo_suspend)) = ActionToolCall" by code_simp+
  ultimately show "rs_Status (fst (fst (react_demo_resumed 3 react_demo_suspend ''me'' [] ?s))) \<noteq> RunStatusCompleted"
    using resumed_tool_needs_two_permits [OF _ _ _ _ r [unfolded react_demo_resumed_def]] r by (simp add: react_demo_resume_def)
  show "ValidateRunCheckpoint (react_demo_checkpoint 3 react_demo_suspend) = None" by code_simp
qed

section \<open>Identifiers of actions\<close>

text \<open>
  Two actions of one answer may carry the same identifier. The approval of the second one then runs the first one
  again, which had run when the answer came: here \<open>look\<close> is called once in the run and once more after the approval of
  \<open>post\<close>.
\<close>

definition react_demo_twins :: "Action list list" where
  "react_demo_twins = [[react_demo_action ''a1'' ActionToolCall ''look'' [], react_demo_action ''a1'' ActionToolCall ''post'' []]]"

fun called_tool :: "run_effect \<Rightarrow> string option" where
  "called_tool (RTool g c) = Some (tl_Name c)"
| "called_tool _ = None"

lemma duplicate_identifier_runs_twice:
  "List.map_filter called_tool (wd_log (snd (react_demo_run 3 react_demo_twins))) = [''look'', ''post'']"
  "List.map_filter called_tool (wd_log (snd (react_demo_resumed 3 react_demo_twins [] ''ap1'' [[react_demo_action ''a3'' ActionFinalAnswer [] ''posted'']]))) = [''look'', ''post'']"
  by code_simp+

text \<open>An identifier of white space only passes the checks of the runner, and the run it suspends has no checkpoint.\<close>

lemma blank_identifier_has_no_checkpoint:
  "rs_Status (fst (fst (react_demo_run 3 [[react_demo_action '' '' ActionAskHuman [] ''who'']]))) = RunStatusAwaitingHuman"
  "isl (NewRunCheckpoint (react_demo_request 3) (fst (fst (react_demo_run 3 [[react_demo_action '' '' ActionAskHuman [] ''who'']]))))"
  by code_simp+

end
