(* ===== verification/Verified_Runs.thy ===== *)
theory Verified_Runs
  imports React_Properties Verified_Runner
begin

text \<open>
  Properties of verified runs. What they need of the runner below them is the locale \<open>agent_runner\<close>; the reason-act
  runner of \<open>React_Runner\<close> is interpreted as one.
\<close>

section \<open>What a verified run needs of its runner\<close>

text \<open>The steps that a budget allows; a budget out of range allows none.\<close>

definition run_steps :: "Budget \<Rightarrow> nat" where
  "run_steps b = (let m = effective_max_steps b in if 1 \<le> m \<and> m \<le> MaxAllowedSteps then nat m else 0)"

lemma stop_at_steps:
  "stop_at r a err k = (r', e) \<Longrightarrow> rs_Steps r' = rs_Steps r \<and> rs_Context r' = rs_Context r \<and> rs_Status r' \<noteq> RunStatusCompleted"
  by (auto simp: stop_at_def suspendForToolContinuation_def failResult_def Let_def run_statuses split: option.splits if_splits)

definition grown :: "int \<Rightarrow> RunResult \<Rightarrow> RunResult \<Rightarrow> bool" where
  "grown k result r \<longleftrightarrow> rs_Context r = rs_Context result \<and> (\<exists>s. rs_Steps r = rs_Steps result @ [s] \<and> st_Index s = k)"

definition same_steps :: "RunResult \<Rightarrow> RunResult \<Rightarrow> bool" where
  "same_steps result r \<longleftrightarrow> rs_Context r = rs_Context result \<and> rs_Steps r = rs_Steps result"

lemmas grown_defs = grown_def same_steps_def

lemma finish_step_steps: "finish_step env result step w = (r, w') \<Longrightarrow> grown (st_Index step) result r"
  by (auto simp: finish_step_def grown_def split: prod.splits)

lemma settle_steps:
  assumes "settle_response env request result step est r response w = (x, w')"
  shows "case x of Inl out \<Rightarrow> same_steps result (fst out) \<or> grown (st_Index step) result (fst out) | Inr (step1, res) \<Rightarrow> same_steps result res \<and> st_Index step1 = st_Index step"
  using assms by (auto simp: settle_response_def charge_failed_def failResult_def grown_defs Let_def dest!: finish_step_steps split: sum.splits prod.splits option.splits)

lemma act_steps:
  assumes "act env d request catalog m step result w = (x, w')"
  shows "case x of Inl out \<Rightarrow> grown (st_Index step) result (fst out) | Inr r \<Rightarrow> grown (st_Index step) result r"
  using assms by (auto simp: act_def failResult_def grown_def Let_def dest!: finish_step_steps stop_at_steps split: sum.splits prod.splits option.splits if_splits)

lemma model_failed_steps:
  assumes "model_failed env d result step response err w = (out, w')"
  shows "same_steps result (fst out) \<or> grown (st_Index step) result (fst out)"
  using assms by (auto simp: model_failed_def failResult_def grown_defs Let_def dest!: finish_step_steps split: prod.splits option.splits)

lemma model_failed_new:
  "model_failed env d result (new_step request k t) response err w = (out, w') \<Longrightarrow> same_steps result (fst out) \<or> grown k result (fst out)"
  using model_failed_steps by (fastforce simp: new_step_def)

lemma run_step_steps:
  assumes x: "run_step env answer d request catalog m k result w = (x, w')"
  shows "case x of Inl out \<Rightarrow> same_steps result (fst out) \<or> grown k result (fst out) | Inr r \<Rightarrow> grown k result r"
proof -
  consider "case x of Inl out \<Rightarrow> same_steps result (fst out) \<or> grown k result (fst out) | Inr r \<Rightarrow> False"
    | t est res response w4 w5 step1 result1 where "settle_response env request result (new_step request k t) est res response w4 = (Inr (step1, result1), w5)"
        "act env d request catalog m step1 result1 w5 = (x, w')"
    | t est res response w4 w5 out where "settle_response env request result (new_step request k t) est res response w4 = (Inl out, w5)" "x = Inl out"
    using x by (auto simp: run_step_def failResult_def same_steps_def Let_def split: prod.splits option.splits sum.splits dest: model_failed_new)
  then show ?thesis
  proof cases
    case 2
    have "st_Index (new_step request k t) = k" for t by (simp add: new_step_def)
    then show ?thesis using settle_steps [OF 2(1)] act_steps [OF 2(2)] by (auto simp: grown_defs split: sum.splits)
  next
    case 3
    then show ?thesis using settle_steps [OF 3(1)] by (auto simp: new_step_def split: prod.splits)
  qed (auto split: sum.splits)
qed

lemma run_loop_steps:
  assumes "run_loop env answer d request catalog m n k result w = (out, w')"
  shows "length (rs_Steps (fst out)) \<le> length (rs_Steps result) + n \<and> rs_Context (fst out) = rs_Context result
    \<and> (numbered (rs_Steps result) \<and> k = int (length (rs_Steps result)) + 1 \<longrightarrow> numbered (rs_Steps (fst out)))"
  using assms
proof (induction n arbitrary: k result w)
  case (Suc n)
  obtain x w1 where s: "run_step env answer d request catalog m k result w = (x, w1)" by fastforce
  show ?case
  proof (cases x)
    case (Inr r)
    then have "run_loop env answer d request catalog m n (k + 1) r w1 = (out, w')" using Suc.prems s by simp
    from Suc.IH [OF this] run_step_steps [OF s] Inr show ?thesis by (auto simp: grown_def numbered_snoc)
  qed (use run_step_steps [OF s] Suc.prems s in \<open>auto simp: grown_defs numbered_snoc\<close>)
qed (auto simp: failResult_def)

lemma runFromState_steps:
  assumes "runFromState env request result k w = (out, w')"
  shows "length (rs_Steps (fst out)) \<le> length (rs_Steps result) + (if int (run_steps (rc_Budget (rr_Context request))) < k then 0 else nat (int (run_steps (rc_Budget (rr_Context request))) - k + 1))"
    and "rs_Status (fst out) \<noteq> RunStatusFailed \<Longrightarrow> rs_Context (fst out) = with_max_steps (effective_max_steps (rc_Budget (rr_Context request))) (rr_Context request)"
    and "numbered (rs_Steps result) \<Longrightarrow> k = int (length (rs_Steps result)) + 1 \<Longrightarrow> numbered (rs_Steps (fst out))"
proof -
  let ?m = "effective_max_steps (rc_Budget (rr_Context request))"
  let ?c = "with_max_steps ?m (rr_Context request)"
  consider r err where "out = failResult r err" "rs_Steps r = rs_Steps result"
    | answer d catalog w1 w2 where "run_loop env answer d (request\<lparr>rr_Context := ?c\<rparr>) catalog ?m (nat (?m - k + 1)) k (result\<lparr>rs_Context := ?c\<rparr>) w1 = (out, w2)" "1 \<le> ?m" "?m \<le> MaxAllowedSteps" "1 \<le> k"
    using assms by (auto simp: runFromState_def check_request_def Let_def split: option.splits if_splits sum.splits prod.splits)
  note cases = this
  show "length (rs_Steps (fst out)) \<le> length (rs_Steps result) + (if int (run_steps (rc_Budget (rr_Context request))) < k then 0 else nat (int (run_steps (rc_Budget (rr_Context request))) - k + 1))"
    using cases
  proof cases
    case 2
    then show ?thesis using run_loop_steps [OF 2(1)] by (auto simp: run_steps_def Let_def)
  qed (auto simp: failResult_def)
  show "rs_Context (fst out) = ?c" if "rs_Status (fst out) \<noteq> RunStatusFailed"
    using cases
  proof cases
    case 2
    then show ?thesis using run_loop_steps [OF 2(1)] by simp
  qed (use that in \<open>auto simp: failResult_def\<close>)
  show "numbered (rs_Steps (fst out))" if "numbered (rs_Steps result)" "k = int (length (rs_Steps result)) + 1"
    using cases
  proof cases
    case 2
    then show ?thesis using run_loop_steps [OF 2(1)] that by simp
  qed (use that in \<open>auto simp: failResult_def\<close>)
qed

definition same_run :: "VerifiedRunResult \<Rightarrow> VerifiedRunResult \<Rightarrow> bool" where
  "same_run r s \<longleftrightarrow> gs_Run s = gs_Run r \<and> gs_RepairAttempts s = gs_RepairAttempts r"

lemma observe_same: "observe_run v b task e run a result w = (err, result1, w') \<Longrightarrow> same_run result result1"
  by (auto simp: observe_run_def same_run_def Let_def split: prod.splits sum.splits option.splits)

lemma suspend_same: "suspend_goal g task base e result k = (result1, err) \<Longrightarrow> same_run result result1"
  by (auto simp: suspend_goal_def same_run_def Let_def split: sum.splits)

lemma route_same: "projectProviderRoutingBlock g task result = (result1, b, err) \<Longrightarrow> same_run result result1"
  by (auto simp: projectProviderRoutingBlock_def same_run_def Let_def split: prod.splits sum.splits option.splits)

lemma suspended_same: "suspended_attempt v request a run result w = ((result1, err), w') \<Longrightarrow> same_run result result1"
  by (auto simp: suspended_attempt_def same_run_def Let_def dest!: observe_same suspend_same split: prod.splits sum.splits option.splits if_splits)

text \<open>How a repair comes about: after a failed tool or after a verdict that asks for it, with a request that was built within what is left.\<close>

definition repairs :: "goal_env \<Rightarrow> RunRequest \<Rightarrow> RunResult \<Rightarrow> RunRequest \<Rightarrow> bool" where
  "repairs g base previous q \<longleftrightarrow> validateVerifiedRepairRequest g base previous q = None \<or> (\<exists>verification. buildGoalRepairRequest base previous verification = Inr q)"

lemma failed_attempt_result:
  assumes "failed_attempt g request a err result w = (x, w')"
  shows "case x of Inl (r, e) \<Rightarrow> same_run result r | Inr (q, r) \<Rightarrow> same_run result r \<and> HasErrorCode err ErrorTool \<and> validateVerifiedRepairRequest g (gr_Run request) (gs_Run r) q = None"
  using assms by (auto simp: failed_attempt_def built_repair_def dest!: route_same split: prod.splits option.splits sum.splits if_splits) (auto simp: same_run_def)

lemma completed_attempt_result:
  assumes "completed_attempt v verify request a run result w = (x, w')"
  shows "case x of Inl (r, e) \<Rightarrow> same_run result r | Inr (q, r) \<Rightarrow> same_run result r \<and> repairs (vr_goal v) (gr_Run request) (gs_Run r) q"
  using assms by (auto simp: completed_attempt_def built_repair_def repairs_def same_run_def Let_def dest!: observe_same split: prod.splits option.splits sum.splits if_splits)

lemma goal_attempt_result:
  assumes "goal_attempt v run verify request a q result w = (x, w')" and "run q w = ((ar, runErr), w1)"
    and "merged = mergeGoalRunResults (gs_Run result) ar (rr_Context (gr_Run request))"
  shows "case x of Inl (r, e) \<Rightarrow> gs_Run r = merged \<and> gs_RepairAttempts r = a
    | Inr (q', r) \<Rightarrow> gs_Run r = merged \<and> gs_RepairAttempts r = a \<and> repairs (vr_goal v) (gr_Run request) merged q'
        \<and> (rs_Status ar = RunStatusCompleted \<and> runErr = None \<or> (\<exists>err. runErr = Some err \<and> HasErrorCode err ErrorTool))"
proof -
  let ?result = "result\<lparr>gs_Run := merged, gs_RepairAttempts := a\<rparr>"
  have s: "same_run ?result r \<longleftrightarrow> gs_Run r = merged \<and> gs_RepairAttempts r = a" for r by (auto simp: same_run_def)
  consider err where "failed_attempt (vr_goal v) request a err ?result w1 = (x, w')" "runErr = Some err"
    | out where "suspended_attempt v request a ar ?result w1 = (out, w')" "x = Inl out"
    | "completed_attempt v verify request a ar ?result w1 = (x, w')" "rs_Status ar = RunStatusCompleted" "runErr = None"
    using assms by (auto simp: goal_attempt_def Let_def split: option.splits if_splits prod.splits)
  then show ?thesis
  proof cases
    case (1 err)
    then show ?thesis using failed_attempt_result [OF 1(1)] by (auto simp: s repairs_def split: sum.splits prod.splits)
  next
    case 2
    then show ?thesis using suspended_same s by (cases out) fastforce
  next
    case 3
    then show ?thesis using completed_attempt_result [OF 3(1)] by (auto simp: s split: sum.splits prod.splits)
  qed
qed

lemma renumber_length [simp]: "length (renumber k steps) = length steps"
  by (simp add: renumber_def)

lemma renumber_index: "map st_Index (renumber k steps) = map (\<lambda>i. int i + 1) [k..<k + length steps]"
  by (rule nth_equalityI) (auto simp: renumber_def)

lemma numbered_renumber: "numbered steps \<Longrightarrow> numbered (steps @ renumber (length steps) later)"
proof -
  assume "numbered steps"
  moreover have "map (\<lambda>i. int i + 1) [k..<k + n] = map int [Suc k..<Suc (k + n)]" for k n by (rule nth_equalityI) (auto simp del: upt_Suc)
  moreover have "[1..<Suc (a + b)] = [1..<Suc a] @ [Suc a..<Suc (a + b)]" for a b using upt_add_eq_append [of 1 "Suc a" b] by simp
  ultimately show ?thesis by (simp add: numbered_def renumber_index del: upt_Suc)
qed

lemma merge_steps:
  assumes "numbered (rs_Steps current)" "numbered (rs_Steps later)"
  shows "numbered (rs_Steps (mergeGoalRunResults current later c))" "length (rs_Steps (mergeGoalRunResults current later c)) \<le> length (rs_Steps current) + length (rs_Steps later)"
  using assms numbered_renumber by (auto simp: mergeGoalRunResults_def)

text \<open>A repair gets no more steps than are left.\<close>

lemma repair_steps:
  assumes r: "repairs g base previous q" and m: "1 \<le> run_steps (rc_Budget (rr_Context base))"
  shows "length (rs_Steps previous) + run_steps (rc_Budget (rr_Context q)) \<le> run_steps (rc_Budget (rr_Context base))"
proof -
  let ?b = "rc_Budget (rr_Context base)" and ?n = "int (length (rs_Steps previous))"
  have e: "1 \<le> effective_max_steps ?b" "effective_max_steps ?b \<le> MaxAllowedSteps" "run_steps ?b = nat (effective_max_steps ?b)"
    using m by (auto simp: run_steps_def Let_def split: if_splits)
  have "\<exists>k. bg_MaxSteps (rc_Budget (rr_Context q)) = k \<and> 0 < k \<and> k \<le> effective_max_steps ?b - ?n"
  proof (cases "validateVerifiedRepairRequest g base previous q = None")
    case True
    then show ?thesis
      by (auto simp: validateVerifiedRepairRequest_def remainingGoalBudget_def budgetWithin_def limitWithin_def Let_def split: if_splits option.splits sum.splits)
  next
    case False
    then obtain verification where "buildGoalRepairRequest base previous verification = Inr q" using r by (auto simp: repairs_def)
    then show ?thesis using e(1) by (auto simp: buildGoalRepairRequest_def effective_max_steps_def Let_def split: if_splits)
  qed
  then have "int (run_steps (rc_Budget (rr_Context q))) \<le> effective_max_steps ?b - ?n" "?n \<le> effective_max_steps ?b"
    by (auto simp: run_steps_def effective_max_steps_def Let_def)
  then show ?thesis using e by linarith
qed

text \<open>
  A runner never takes later steps than its budget allows, numbers them from one, and with a budget that allows none
  fails, and not because of a tool.
\<close>

locale agent_runner =
  fixes run :: "RunRequest \<Rightarrow> 'w \<Rightarrow> run_outcome \<times> 'w"
  assumes steps_bounded: "run request w = ((r, err), w') \<Longrightarrow> length (rs_Steps r) \<le> run_steps (rc_Budget (rr_Context request))"
    and steps_numbered: "run request w = ((r, err), w') \<Longrightarrow> numbered (rs_Steps r)"
    and no_steps_fails: "run request w = ((r, err), w') \<Longrightarrow> run_steps (rc_Budget (rr_Context request)) = 0 \<Longrightarrow> \<exists>e. err = Some e \<and> \<not> HasErrorCode e ErrorTool"
begin

lemma goal_loop_steps:
  assumes "goal_loop v run verify request a q result w = ((r, err), w')" and "0 \<le> a" "a \<le> tk_MaxRepairAttempts (gr_Task request)"
    and "length (rs_Steps (gs_Run result)) + run_steps (rc_Budget (rr_Context q)) \<le> run_steps (rc_Budget (rr_Context (gr_Run request)))"
    and "numbered (rs_Steps (gs_Run result))"
    and "a = 0 \<Longrightarrow> q = gr_Run request" "0 < a \<Longrightarrow> 1 \<le> run_steps (rc_Budget (rr_Context (gr_Run request)))"
  shows "length (rs_Steps (gs_Run r)) \<le> run_steps (rc_Budget (rr_Context (gr_Run request))) \<and> numbered (rs_Steps (gs_Run r))
    \<and> 0 \<le> gs_RepairAttempts r \<and> gs_RepairAttempts r \<le> tk_MaxRepairAttempts (gr_Task request)"
  using assms
proof (induction "nat (tk_MaxRepairAttempts (gr_Task request) - a)" arbitrary: a q result w rule: less_induct)
  case less
  let ?base = "gr_Run request"
  obtain x w1 where g: "goal_attempt v run verify request a q result w = (x, w1)" by fastforce
  obtain ar runErr w2 where ar: "run q w = ((ar, runErr), w2)" by (metis prod.exhaust)
  let ?merged = "mergeGoalRunResults (gs_Run result) ar (rr_Context ?base)"
  note res = goal_attempt_result [OF g ar refl]
  have m: "numbered (rs_Steps ?merged)" "length (rs_Steps ?merged) \<le> run_steps (rc_Budget (rr_Context ?base))"
    using merge_steps [OF less.prems(5) steps_numbered [OF ar], where c = "rr_Context ?base"] steps_bounded [OF ar] less.prems(4) by linarith+
  show ?case
  proof (cases x)
    case (Inl out)
    then have "(r, err) = out" using less.prems(1) g by (simp add: goal_loop.simps)
    then show ?thesis using res Inl m less.prems(2,3) by auto
  next
    case (Inr y)
    then obtain q' r' where y: "x = Inr (q', r')" by (cases y) auto
    have lt: "a < tk_MaxRepairAttempts (gr_Task request)" using goal_attempt_repairs [OF g [unfolded y]] .
    have one: "1 \<le> run_steps (rc_Budget (rr_Context ?base))"
    proof (cases "a = 0")
      case True
      then have "run_steps (rc_Budget (rr_Context ?base)) \<noteq> 0" using no_steps_fails [OF ar] less.prems(6) res y by auto
      then show ?thesis by simp
    qed (use less.prems in simp)
    have "goal_loop v run verify request (a + 1) q' r' w1 = ((r, err), w')" using less.prems(1) g y by (simp add: goal_loop.simps)
    then show ?thesis
      by (rule less.hyps [rotated]) (use lt less.prems(2) res y m one repair_steps [of "vr_goal v" ?base ?merged q'] in auto)
  qed
qed

end

lemma react_steps:
  assumes "Run env request w = ((r, err), w')"
  shows "length (rs_Steps r) \<le> run_steps (rc_Budget (rr_Context request))" "numbered (rs_Steps r)"
proof -
  obtain t w1 where f: "runFromState env (request\<lparr>rr_Context := (rr_Context request)\<lparr>rc_StartedAt := t\<rparr>\<rparr>) (new_result ((rr_Context request)\<lparr>rc_StartedAt := t\<rparr>) (rr_Messages request) [] zero_usage) 1 w1 = ((r, err), w')"
    by (rule Run_from [OF assms, where l = True and catalog = "[]" and m = 0 and p = first_phase])
  from runFromState_steps(1) [OF f] show "length (rs_Steps r) \<le> run_steps (rc_Budget (rr_Context request))" by (simp add: new_result_def split: if_splits)
  from runFromState_steps(3) [OF f] show "numbered (rs_Steps r)" by (simp add: new_result_def)
qed

lemma HasErrorCode_run_error [simp]: "HasErrorCode (run_error c k a p m cause) code = (c = code)"
  by (simp add: HasErrorCode_def errors_As_def run_error_def)

lemma react_no_steps:
  assumes "Run env request w = ((r, err), w')" and "run_steps (rc_Budget (rr_Context request)) = 0"
  shows "\<exists>e. err = Some e \<and> \<not> HasErrorCode e ErrorTool"
proof -
  obtain t w1 where f: "runFromState env (request\<lparr>rr_Context := (rr_Context request)\<lparr>rc_StartedAt := t\<rparr>\<rparr>) (new_result ((rr_Context request)\<lparr>rc_StartedAt := t\<rparr>) (rr_Messages request) [] zero_usage) 1 w1 = ((r, err), w')"
    by (rule Run_from [OF assms(1), where l = True and catalog = "[]" and m = 0 and p = first_phase])
  then show ?thesis using assms(2)
    by (auto simp: runFromState_def run_steps_def failResult_def error_code_defs Let_def split: option.splits if_splits)
qed

interpretation react: agent_runner "Run env" for env
proof
  show "length (rs_Steps r) \<le> run_steps (rc_Budget (rr_Context request))" if "Run env request w = ((r, err), w')" for request w r err w'
    using react_steps(1) that .
  show "numbered (rs_Steps r)" if "Run env request w = ((r, err), w')" for request w r err w'
    using react_steps(2) that .
  show "\<exists>e. err = Some e \<and> \<not> HasErrorCode e ErrorTool" if "Run env request w = ((r, err), w')" "run_steps (rc_Budget (rr_Context request)) = 0" for request w r err w'
    using react_no_steps that .
qed

section \<open>The ledger of evidence\<close>

text \<open>A later ledger has the items of the earlier one and others after them, with no identifier twice that was not twice before.\<close>

definition extends :: "EvidenceLedger \<Rightarrow> EvidenceLedger \<Rightarrow> bool" where
  "extends l k \<longleftrightarrow> (\<exists>es. lg_Items k = lg_Items l @ es) \<and> (distinct (map vd_ID (lg_Items l)) \<longrightarrow> distinct (map vd_ID (lg_Items k)))"

lemma extends_refl [simp]: "extends l l"
  by (simp add: extends_def)

lemma extends_trans: "extends l k \<Longrightarrow> extends k m \<Longrightarrow> extends l m"
  by (auto simp: extends_def)

lemma ledger_With_extends: "ledger_With g item l = Inr k \<Longrightarrow> extends l k"
  by (auto simp: ledger_With_def extends_def list_ex_iff eq_commute [of "vd_ID item"] image_iff split: if_splits option.splits)

lemma append_evidence_extends: "append_evidence g items l = (None, k) \<Longrightarrow> extends l k"
  by (induction items arbitrary: l) (auto split: sum.splits dest: ledger_With_extends extends_trans)

lemma check_evidence_distinct: "check_evidence g criteria items l = None \<Longrightarrow> distinct (map vd_ID (lg_Items l)) \<Longrightarrow> distinct (map vd_ID (lg_Items l @ items))"
proof (induction items arbitrary: l)
  case (Cons item items)
  then obtain k where k: "ledger_With g item l = Inr k" "check_evidence g criteria items k = None" by (auto split: option.splits sum.splits)
  then have "lg_Items k = lg_Items l @ [item]" by (auto simp: ledger_With_def split: if_splits option.splits)
  with Cons.IH [OF k(2)] ledger_With_extends [OF k(1)] Cons.prems(2) show ?case by (auto simp: extends_def)
qed simp

lemma ValidateVerifiedCheckpoint_distinct: "ValidateVerifiedCheckpoint g c = None \<Longrightarrow> distinct (map vd_ID (lg_Items (vc_Evidence c)))"
  by (auto simp: ValidateVerifiedCheckpoint_def dest!: check_evidence_distinct split: if_splits option.splits)

text \<open>What an observation of the environment leaves as it was.\<close>

lemma observe_fields:
  assumes "observe_run v b task e run a result w = (err, result1, w')"
  shows "gs_Status result1 = gs_Status result" "gs_Checkpoint result1 = gs_Checkpoint result" "err = None \<Longrightarrow> extends (gs_Evidence result) (gs_Evidence result1)"
  using assms by (auto simp: observe_run_def Let_def dest: append_evidence_extends split: prod.splits sum.splits option.splits)

lemma route_fields:
  assumes "projectProviderRoutingBlock g task result = (result1, b, None)"
  shows "gs_Checkpoint result1 = gs_Checkpoint result" "extends (gs_Evidence result) (gs_Evidence result1)" "gs_Status result1 = (if b then GoalRunBlocked else gs_Status result)"
  using assms by (auto simp: projectProviderRoutingBlock_def Let_def dest: ledger_With_extends split: prod.splits sum.splits option.splits)

lemma route_error: "projectProviderRoutingBlock g task result = (result1, b, Some err) \<Longrightarrow> gs_Status result1 = gs_Status result"
  by (auto simp: projectProviderRoutingBlock_def Let_def split: prod.splits sum.splits option.splits)

section \<open>How a goal settles\<close>

text \<open>
  What holds of the result of a goal, given the ledger it started with: without an error the goal is verified, blocked or
  suspended and its ledger extends the first one; a verified goal completed its run and the verifier passed what the
  result reports; a suspended goal has a valid checkpoint of itself.
\<close>

definition backed :: "(VerificationRequest \<Rightarrow> 'w \<Rightarrow> (gerr + VerificationResult) \<times> 'w) \<Rightarrow> TaskSpec \<Rightarrow> 'w Environment option \<Rightarrow> goal_outcome \<Rightarrow> bool" where
  "backed verify task e out \<longleftrightarrow> (case out of (r, err) \<Rightarrow> gs_Status r = GoalRunVerified \<longrightarrow> err = None \<and> rs_Status (gs_Run r) = RunStatusCompleted
     \<and> Passed (gs_Verification r) \<and> (\<exists>w w'. verify (verification_request task e r) w = (Inr (gs_Verification r), w')))"

definition saved :: "goal_env \<Rightarrow> TaskSpec \<Rightarrow> goal_outcome \<Rightarrow> bool" where
  "saved g task out \<longleftrightarrow> (case out of (r, err) \<Rightarrow> gs_Status r = GoalRunSuspended \<and> err = None \<longrightarrow> isGoalSuspendedStatus (rs_Status (gs_Run r))
     \<and> (\<exists>c. gs_Checkpoint r = Some c \<and> ValidateVerifiedCheckpoint g c = None \<and> vc_Task c = task \<and> vc_Evidence c = gs_Evidence r \<and> vc_Before c = gs_Before r
          \<and> vc_RepairAttempts c = gs_RepairAttempts r \<and> cp_Steps (vc_Run c) = rs_Steps (gs_Run r) \<and> cp_Usage (vc_Run c) = rs_Usage (gs_Run r)
          \<and> cp_Context (vc_Run c) = rs_Context (gs_Run r)))"

definition goal_settled :: "goal_env \<Rightarrow> (VerificationRequest \<Rightarrow> 'w \<Rightarrow> (gerr + VerificationResult) \<times> 'w) \<Rightarrow> TaskSpec \<Rightarrow> 'w Environment option \<Rightarrow> EvidenceLedger \<Rightarrow> goal_outcome \<Rightarrow> bool" where
  "goal_settled g verify task e l out \<longleftrightarrow> backed verify task e out \<and> saved g task out
     \<and> (snd out = None \<longrightarrow> extends l (gs_Evidence (fst out)) \<and> gs_Status (fst out) \<in> {GoalRunVerified, GoalRunBlocked, GoalRunSuspended})"

lemmas goal_settled_defs = goal_settled_def backed_def saved_def goal_statuses

lemma goal_settled_error: "gs_Status r = [] \<or> gs_Status r = GoalRunSuspended \<Longrightarrow> goal_settled g verify task e l (r, Some err)"
  by (auto simp: goal_settled_defs)

lemma goal_settled_extends: "extends k l \<Longrightarrow> goal_settled g verify task e l out \<Longrightarrow> goal_settled g verify task e k out"
  by (auto simp: goal_settled_def intro: extends_trans)

lemma verification_request_update [simp]:
  "verification_request task e (r\<lparr>gs_Verification := x\<rparr>) = verification_request task e r"
  "verification_request task e (r\<lparr>gs_Status := y\<rparr>) = verification_request task e r"
  by (simp_all add: verification_request_def cong: option.case_cong)

lemma goal_settled_blocked: "extends l (gs_Evidence r) \<Longrightarrow> goal_settled g verify task e l (r\<lparr>gs_Status := GoalRunBlocked\<rparr>, None)"
  by (auto simp: goal_settled_defs)

lemma goal_settled_verified:
  assumes "verify (verification_request task e r) w = (Inr x, w')" "Passed x" "rs_Status (gs_Run r) = RunStatusCompleted" "extends l (gs_Evidence r)"
  shows "goal_settled g verify task e l (r\<lparr>gs_Verification := x, gs_Status := GoalRunVerified\<rparr>, None)"
proof -
  have "verification_request task e (r\<lparr>gs_Verification := x, gs_Status := GoalRunVerified\<rparr>) = verification_request task e r" by simp
  then show ?thesis using assms by (auto simp: goal_settled_defs)
qed

lemma NewRunCheckpoint_fields: "NewRunCheckpoint base run = Inr c \<Longrightarrow> cp_Steps c = rs_Steps run \<and> cp_Usage c = rs_Usage run \<and> cp_Context c = rs_Context run"
  by (auto simp: NewRunCheckpoint_def Let_def split: option.splits if_splits)

lemma goal_settled_suspended:
  assumes "suspend_goal g task base e r k = out" "extends l (gs_Evidence r)"
  shows "goal_settled g verify task e' l out"
proof (cases "buildVerifiedCheckpoint g task base e (r\<lparr>gs_Status := GoalRunSuspended\<rparr>) k")
  case (Inl err)
  then show ?thesis using assms by (auto simp: suspend_goal_def intro: goal_settled_error)
next
  case (Inr c)
  then have "saved g task out" using assms(1)
    by (auto simp: suspend_goal_def saved_def buildVerifiedCheckpoint_def Let_def dest: NewRunCheckpoint_fields split: if_splits sum.splits option.splits)
  then show ?thesis using assms Inr by (auto simp: suspend_goal_def goal_settled_def backed_def goal_statuses)
qed

lemma merge_status [simp]: "rs_Status (mergeGoalRunResults current later c) = rs_Status later"
  by (simp add: mergeGoalRunResults_def)

text \<open>An attempt that goes on to a repair leaves the status and the checkpoint of the result open.\<close>

definition pending_goal :: "EvidenceLedger \<Rightarrow> VerifiedRunResult \<Rightarrow> bool" where
  "pending_goal l r \<longleftrightarrow> gs_Status r = [] \<and> extends l (gs_Evidence r)"

lemma pending_update [simp]: "pending_goal l (r\<lparr>gs_Run := x, gs_RepairAttempts := a\<rparr>) = pending_goal l r" "pending_goal l (r\<lparr>gs_Verification := y\<rparr>) = pending_goal l r"
  by (simp_all add: pending_goal_def)

lemma observe_pending:
  assumes "observe_run v b task e run a r w = (err, r1, w')" "pending_goal l r"
  shows "gs_Status r1 = []" "gs_Run r1 = gs_Run r" "gs_RepairAttempts r1 = gs_RepairAttempts r" "err = None \<Longrightarrow> pending_goal l r1"
  using observe_fields [OF assms(1)] observe_same [OF assms(1)] assms(2) by (auto simp: pending_goal_def same_run_def intro: extends_trans)

lemma built_repair_settles:
  assumes "built_repair g build base repair r w = (x, w')" "pending_goal l r"
  shows "case x of Inl out \<Rightarrow> goal_settled g verify task e l out | Inr (q, r') \<Rightarrow> pending_goal l r'"
  using assms by (auto simp: built_repair_def pending_goal_def intro: goal_settled_error split: prod.splits sum.splits option.splits)

lemma failed_attempt_settles:
  assumes x: "failed_attempt g request a err r w = (x, w')" and p: "pending_goal l r"
  shows "case x of Inl out \<Rightarrow> goal_settled g verify task e l out | Inr (q, r') \<Rightarrow> pending_goal l r'"
proof -
  obtain r1 b err' where o: "(if HasErrorCode err ErrorModel then projectProviderRoutingBlock g (gr_Task request) r else (r, False, None)) = (r1, b, err')"
    by (metis prod.exhaust)
  show ?thesis
  proof (cases err')
    case None
    then have r1: "extends l (gs_Evidence r1)" "gs_Status r1 = (if b then GoalRunBlocked else [])"
      using o p route_fields [of g "gr_Task request" r r1 b] by (auto simp: pending_goal_def intro: extends_trans split: if_splits)
    show ?thesis
    proof (cases b)
      case True
      then show ?thesis using x o None r1 by (auto simp: failed_attempt_def goal_settled_defs)
    next
      case False
      then have "pending_goal l r1" using r1 by (simp add: pending_goal_def)
      moreover from this have "goal_settled g verify task e l (r1, Some err)" by (auto simp: pending_goal_def intro: goal_settled_error)
      ultimately show ?thesis using x o None False by (auto simp: failed_attempt_def split: option.splits if_splits intro: built_repair_settles)
    qed
  next
    case (Some err1)
    then have "gs_Status r1 = []" using o p by (auto simp: pending_goal_def dest: route_error split: if_splits)
    then show ?thesis using x o Some by (auto simp: failed_attempt_def intro: goal_settled_error)
  qed
qed

lemma suspended_attempt_settles:
  assumes x: "suspended_attempt v request a run r w = (out, w')" and p: "pending_goal l r"
  shows "goal_settled (vr_goal v) verify (gr_Task request) e l out"
proof -
  obtain err r1 w1 where ob: "observe_run v True (gr_Task request) (gr_Environment request) run a r w = (err, r1, w1)" by (metis prod.exhaust)
  note r1 = observe_pending [OF ob p]
  show ?thesis
  proof (cases err)
    case None
    then have "extends l (gs_Evidence r1)" using r1(4) by (simp add: pending_goal_def)
    then show ?thesis using x ob None r1(1)
      by (auto simp: suspended_attempt_def Let_def intro: goal_settled_error goal_settled_suspended goal_settled_blocked [where r = "_\<lparr>gs_Verification := _\<rparr>"] split: option.splits sum.splits prod.splits if_splits)
  qed (use x ob r1(1) in \<open>auto simp: suspended_attempt_def intro: goal_settled_error\<close>)
qed

lemma completed_attempt_settles:
  assumes x: "completed_attempt v verify request a run r w = (x, w')" and p: "pending_goal l r" and s: "rs_Status (gs_Run r) = RunStatusCompleted"
  shows "case x of Inl out \<Rightarrow> goal_settled (vr_goal v) verify (gr_Task request) (gr_Environment request) l out | Inr (q, r') \<Rightarrow> pending_goal l r'"
proof -
  obtain err r1 w1 where ob: "observe_run v False (gr_Task request) (gr_Environment request) run a r w = (err, r1, w1)" by (metis prod.exhaust)
  note r1 = observe_pending [OF ob p]
  show ?thesis
  proof (cases err)
    case None
    then have l: "pending_goal l r1" "extends l (gs_Evidence r1)" "rs_Status (gs_Run r1) = RunStatusCompleted" using r1 s by (simp_all add: pending_goal_def)
    obtain y w2 where v: "verify (verification_request (gr_Task request) (gr_Environment request) r1) w1 = (y, w2)" by fastforce
    show ?thesis
    proof (cases y)
      case (Inl err1)
      then show ?thesis using x ob None v r1(1) by (auto simp: completed_attempt_def intro: goal_settled_error)
    next
      case (Inr verification)
      let ?r = "r1\<lparr>gs_Verification := verification\<rparr>"
      have q: "pending_goal l ?r" "extends l (gs_Evidence ?r)" using l by simp_all
      consider "Passed verification" | "\<not> Passed verification" "x = Inl (?r\<lparr>gs_Status := GoalRunBlocked\<rparr>, None)"
        | err1 where "x = Inl (?r, Some err1)" | q' where "x = Inr (q', ?r)" | build repair where "built_repair (vr_goal v) build (gr_Run request) repair ?r w2 = (x, w')"
        using x ob None v Inr by (auto simp: completed_attempt_def Let_def split: if_splits option.splits sum.splits)
      then show ?thesis
      proof cases
        case 1
        then show ?thesis using x ob None v Inr goal_settled_verified [of verify "gr_Task request" "gr_Environment request" r1 w1 verification w2 l "vr_goal v", OF v [unfolded Inr] 1 l(3,2)] by (auto simp: completed_attempt_def)
      next
        case 2
        then show ?thesis using goal_settled_blocked [OF q(2)] by auto
      next
        case 5
        then show ?thesis by (rule built_repair_settles [OF _ q(1)])
      qed (use q r1(1) in \<open>auto intro: goal_settled_error\<close>)
    qed
  qed (use x ob r1(1) in \<open>auto simp: completed_attempt_def intro: goal_settled_error\<close>)
qed

lemma goal_attempt_settles:
  assumes x: "goal_attempt v run verify request a q r w = (x, w')" and p: "pending_goal l r"
  shows "case x of Inl out \<Rightarrow> goal_settled (vr_goal v) verify (gr_Task request) (gr_Environment request) l out | Inr (q, r') \<Rightarrow> pending_goal l r'"
proof -
  obtain ar runErr w1 where ar: "run q w = ((ar, runErr), w1)" by (metis prod.exhaust)
  let ?r = "r\<lparr>gs_Run := mergeGoalRunResults (gs_Run r) ar (rr_Context (gr_Run request)), gs_RepairAttempts := a\<rparr>"
  have q: "pending_goal l ?r" using p by simp
  consider err where "failed_attempt (vr_goal v) request a err ?r w1 = (x, w')"
    | out where "suspended_attempt v request a ar ?r w1 = (out, w')" "x = Inl out"
    | "completed_attempt v verify request a ar ?r w1 = (x, w')" "rs_Status ar = RunStatusCompleted"
    using x ar by (auto simp: goal_attempt_def Let_def split: option.splits if_splits prod.splits)
  then show ?thesis
  proof cases
    case 1
    then show ?thesis by (rule failed_attempt_settles [OF _ q])
  next
    case 2
    then show ?thesis using suspended_attempt_settles [OF 2(1) q] by simp
  next
    case 3
    then show ?thesis by (intro completed_attempt_settles [OF 3(1) q]) simp
  qed
qed

lemma goal_loop_settles: "goal_loop v run verify request a q r w = (out, w') \<Longrightarrow> pending_goal l r \<Longrightarrow> goal_settled (vr_goal v) verify (gr_Task request) (gr_Environment request) l out"
proof (induction v run verify request a q r w rule: goal_loop.induct)
  case (1 v run verify request a q r w)
  obtain x w1 where g: "goal_attempt v run verify request a q r w = (x, w1)" by fastforce
  show ?case
  proof (cases x)
    case (Inr y)
    then obtain q' r' where y: "y = (q', r')" by fastforce
    then show ?thesis using "1.IH" [OF g [symmetric] Inr y [symmetric]] "1.prems"(1) goal_attempt_settles [OF g "1.prems"(2)] Inr g by (simp add: goal_loop.simps [of v run verify request a])
  qed (use "1.prems" goal_attempt_settles [OF g "1.prems"(2)] g in \<open>auto simp: goal_loop.simps [of v run verify request a]\<close>)
qed

text \<open>A resumed goal takes its rounds as the attempts of a first run.\<close>

lemma resumed_round_settles:
  assumes x: "resumed_round v run verify c base e er r w = (x, w')" and p: "pending_goal l r"
  shows "case x of Inl out \<Rightarrow> goal_settled (vr_goal v) verify (vc_Task c) e l out | Inr (er', r') \<Rightarrow> pending_goal l r'"
proof -
  let ?b = "rs_Status (gs_Run r) \<noteq> RunStatusCompleted"
  obtain err r1 w1 where ob: "observe_run v ?b (vc_Task c) e er (gs_RepairAttempts r) r w = (err, r1, w1)" by (metis prod.exhaust)
  note r1 = observe_pending [OF ob p]
  consider err1 where "err = Some err1" | "err = None" ?b | "err = None" "\<not> ?b" by blast
  then show ?thesis
  proof cases
    case 1
    then show ?thesis using x ob r1(1) by (auto simp: resumed_round_def Let_def intro: goal_settled_error)
  next
    case 2
    then have "extends l (gs_Evidence r1)" using r1(4) by (simp add: pending_goal_def)
    then have "goal_settled (vr_goal v) verify (vc_Task c) e l (suspend_goal (vr_goal v) (vc_Task c) base e (r1\<lparr>gs_Verification := y\<rparr>) k)" for y k
      by (intro goal_settled_suspended [OF refl]) simp
    then show ?thesis using x ob 2 by (auto simp: resumed_round_def Let_def)
  next
    case 3
    then have l: "pending_goal l r1" "extends l (gs_Evidence r1)" "rs_Status (gs_Run r1) = RunStatusCompleted" using r1 by (simp_all add: pending_goal_def)
    obtain y w2 where v: "verify (verification_request (vc_Task c) e r1) w1 = (y, w2)" by fastforce
    show ?thesis
    proof (cases y)
      case (Inl err1)
      then show ?thesis using x ob 3 v r1(1) by (auto simp: resumed_round_def Let_def intro: goal_settled_error)
    next
      case (Inr verification)
      let ?r = "r1\<lparr>gs_Verification := verification\<rparr>"
      have q: "pending_goal l ?r" "extends l (gs_Evidence ?r)" using l by simp_all
      consider "Passed verification" | "x = Inl (?r\<lparr>gs_Status := GoalRunBlocked\<rparr>, None)"
        | err1 a where "x = Inl (?r\<lparr>gs_RepairAttempts := a\<rparr>, Some err1)" | er' a run' where "x = Inr (er', ?r\<lparr>gs_RepairAttempts := a, gs_Run := run'\<rparr>)"
        using x ob 3 v Inr by (auto simp: resumed_round_def Let_def split: if_splits option.splits sum.splits prod.splits)
      then show ?thesis
      proof cases
        case 1
        then show ?thesis
          using x ob 3 v Inr goal_settled_verified [of verify "vc_Task c" e r1 w1 verification w2 l "vr_goal v", OF v [unfolded Inr] 1 l(3,2)] by (auto simp: resumed_round_def)
      next
        case 2
        then show ?thesis using goal_settled_blocked [OF q(2)] by auto
      qed (use q r1(1) in \<open>auto simp: pending_goal_def intro: goal_settled_error\<close>)
    qed
  qed
qed

lemma resumed_loop_settles: "resumed_loop v run verify c base e er r w = (out, w') \<Longrightarrow> pending_goal l r \<Longrightarrow> goal_settled (vr_goal v) verify (vc_Task c) e l out"
proof (induction v run verify c base e er r w rule: resumed_loop.induct)
  case (1 v run verify c base e er r w)
  obtain x w1 where g: "resumed_round v run verify c base e er r w = (x, w1)" by fastforce
  show ?case
  proof (cases x)
    case (Inr y)
    then obtain er' r' where y: "y = (er', r')" by fastforce
    then show ?thesis using "1.IH" [OF g [symmetric] Inr y [symmetric]] "1.prems"(1) resumed_round_settles [OF g "1.prems"(2)] Inr g
      by (simp add: resumed_loop.simps [of v run verify c base e er r])
  qed (use "1.prems" resumed_round_settles [OF g "1.prems"(2)] g in \<open>auto simp: resumed_loop.simps [of v run verify c base e er r]\<close>)
qed

lemma goal_run_settles:
  assumes "VerifiedRunner_Run v request w = ((r, err), w')" and "vr_Verify v = Some verify"
  shows "goal_settled (vr_goal v) verify (gr_Task request) (gr_Environment request) (gr_Evidence request) (r, err)"
proof -
  have p: "pending_goal (gr_Evidence request) ((new_goal_result (gr_Evidence request) None 0)\<lparr>gs_Before := b\<rparr>)" for b by (simp add: pending_goal_def new_goal_result_def)
  consider err' where "r = new_goal_result (gr_Evidence request) None 0" "err = Some err'"
    | run tools b w1 where "goal_loop v run verify (request\<lparr>gr_Run := (gr_Run request)\<lparr>rr_Tools := tools\<rparr>\<rparr>) 0 ((gr_Run request)\<lparr>rr_Tools := tools\<rparr>)
        ((new_goal_result (gr_Evidence request) None 0)\<lparr>gs_Before := b\<rparr>) w1 = ((r, err), w')"
    using assms by (auto simp: VerifiedRunner_Run_def Let_def split: option.splits sum.splits prod.splits)
  then show ?thesis
  proof cases
    case 1
    then show ?thesis by (auto simp: new_goal_result_def intro: goal_settled_error)
  next
    case 2
    then show ?thesis using goal_loop_settles [OF 2 p] by simp
  qed
qed

lemma goal_resume_settles:
  assumes "VerifiedRunner_Resume v request w = ((r, err), w')" and "vr_Verify v = Some verify"
  shows "goal_settled (vr_goal v) verify (vc_Task (vm_Checkpoint request)) (vm_Environment request) (vc_Evidence (vm_Checkpoint request)) (r, err)"
proof -
  let ?c = "vm_Checkpoint request"
  consider err' where "gs_Status r = []" "err = Some err'"
    | run base er l resumed w1 where "resumed_loop v run verify ?c base (vm_Environment request) er
        ((new_goal_result (vc_Evidence ?c) (vc_Before ?c) (vc_RepairAttempts ?c))\<lparr>gs_Evidence := l, gs_Run := resumed\<rparr>) w1 = ((r, err), w')"
        "appendCheckpointResumeEvidence (vr_goal v) (vc_Evidence ?c) ?c = Inr l"
    using assms by (auto simp: VerifiedRunner_Resume_def new_goal_result_def Let_def split: option.splits sum.splits prod.splits if_splits)
  then show ?thesis
  proof cases
    case 1
    then show ?thesis by (auto intro: goal_settled_error)
  next
    case 2
    then show ?thesis by (intro resumed_loop_settles [OF 2(1)]) (auto simp: pending_goal_def new_goal_result_def appendCheckpointResumeEvidence_def dest: ledger_With_extends)
  qed
qed

section \<open>Resumed runs keep their context\<close>

text \<open>A resumed run that completes did so in the loop of steps, which writes the default number of steps into the context.\<close>

lemma resumeApproved_context:
  assumes "resumeApprovedAction env request result pending w = ((r, err), w')" and "rs_Status r = RunStatusCompleted"
  shows "rs_Context r = with_max_steps (effective_max_steps (rc_Budget (rr_Context request))) (rr_Context request)"
proof -
  obtain result1 k w1 w2 where "runFromState env request result1 k w1 = ((r, err), w2)"
    using assms by (auto simp: resumeApprovedAction_def failResult_def run_statuses Let_def dest: stop_at_steps split: option.splits if_splits sum.splits prod.splits)
  then show ?thesis using runFromState_steps(2) [of env request result1 k w1 "(r, err)" w2] assms(2) by (simp add: run_statuses)
qed

lemma resumeSuspended_context:
  assumes "resumeSuspendedTool env request result pending k h a t w = ((r, err), w')" and "rs_Status r = RunStatusCompleted"
  shows "rs_Context r = with_max_steps (effective_max_steps (rc_Budget (rr_Context request))) (rr_Context request)"
proof -
  obtain result1 k w1 w2 where "runFromState env request result1 k w1 = ((r, err), w2)"
    using assms by (auto simp: resumeSuspendedTool_def resume_held_def suspendForToolContinuation_def failResult_def run_statuses Let_def dest: stop_at_steps split: option.splits if_splits sum.splits prod.splits)
  then show ?thesis using runFromState_steps(2) [of env request result1 k w1 "(r, err)" w2] assms(2) by (simp add: run_statuses)
qed

lemma Resume_context:
  assumes r: "Resume env request w = ((r, err), w')" and "rs_Status r = RunStatusCompleted"
  shows "rs_Context r = with_max_steps (effective_max_steps (rc_Budget (cp_Context (rm_Checkpoint request)))) (cp_Context (rm_Checkpoint request))"
proof -
  let ?c = "rm_Checkpoint request"
  let ?request = "\<lparr>rr_Context = cp_Context ?c, rr_Model = cp_Model ?c, rr_Messages = [], rr_Tools = rm_Tools request, rr_InitialToolChoice = []\<rparr>"
  let ?result = "new_result (cp_Context ?c) (cp_Messages ?c) (cp_Steps ?c) (cp_Usage ?c)"
  consider result k where "runFromState env ?request result k w = ((r, err), w')"
    | k h a t where "resumeSuspendedTool env ?request ?result (cp_PendingAction ?c) k h a t w = ((r, err), w')"
    | "resumeApprovedAction env ?request ?result (cp_PendingAction ?c) w = ((r, err), w')"
    using r assms(2) by (auto simp: Resume_def failResult_def run_statuses new_result_def Let_def split: option.splits if_splits)
  then show ?thesis
  proof cases
    case 1
    then show ?thesis using runFromState_steps(2) [OF 1] assms(2) by (simp add: run_statuses)
  next
    case 2
    then show ?thesis using resumeSuspended_context [OF 2] assms(2) by (simp add: new_result_def)
  next
    case 3
    then show ?thesis using resumeApproved_context [OF 3] assms(2) by (simp add: new_result_def)
  qed
qed

section \<open>Resumed runs keep the suspended step\<close>

lemma run_loop_prefix: "run_loop env answer d request catalog m n k result w = (out, w') \<Longrightarrow> \<exists>later. rs_Steps (fst out) = rs_Steps result @ later"
proof (induction n arbitrary: k result w)
  case (Suc n)
  obtain x w1 where s: "run_step env answer d request catalog m k result w = (x, w1)" by fastforce
  show ?case
  proof (cases x)
    case (Inr r)
    then have "run_loop env answer d request catalog m n (k + 1) r w1 = (out, w')" using Suc.prems s by simp
    from Suc.IH [OF this] run_step_steps [OF s] Inr show ?thesis by (auto simp: grown_def)
  qed (use run_step_steps [OF s] Suc.prems s in \<open>auto simp: grown_defs\<close>)
qed (auto simp: failResult_def)

lemma runFromState_prefix: "runFromState env request result k w = (out, w') \<Longrightarrow> \<exists>later. rs_Steps (fst out) = rs_Steps result @ later"
  by (auto simp: runFromState_def failResult_def Let_def dest!: run_loop_prefix split: option.splits if_splits sum.splits prod.splits)

lemma run_actions_grow: "run_actions env d c catalog k as obs msgs w = (stop, obs', msgs', w') \<Longrightarrow> set obs \<subseteq> set obs'"
  by (induction as arbitrary: obs msgs w) (fastforce split: prod.splits option.splits)+

text \<open>The \<open>n\<close>-th step of a result has the index \<open>i\<close> and the observations \<open>obs\<close> among its own.\<close>

definition keeps_step :: "nat \<Rightarrow> int \<Rightarrow> Observation set \<Rightarrow> RunResult \<Rightarrow> bool" where
  "keeps_step n i obs r \<longleftrightarrow> n < length (rs_Steps r) \<and> st_Index (rs_Steps r ! n) = i \<and> obs \<subseteq> set (st_Observations (rs_Steps r ! n))"

lemma keeps_step_append: "keeps_step n i obs r \<Longrightarrow> rs_Steps r' = rs_Steps r @ later \<Longrightarrow> keeps_step n i obs r'"
  by (auto simp: keeps_step_def nth_append)

lemma keeps_step_last: "steps \<noteq> [] \<Longrightarrow> n = length steps - 1 \<Longrightarrow> st_Index step = i \<Longrightarrow> obs \<subseteq> set obs' \<Longrightarrow> rs_Steps r = butlast steps @ [step\<lparr>st_Observations := obs', st_FinishedAt := t\<rparr>] \<Longrightarrow> keeps_step n i obs r"
  by (auto simp: keeps_step_def nth_append)

lemma refinish_keeps:
  assumes "refinish_step env result step obs' msgs w = (r, w')" "rs_Steps result \<noteq> []" "obs \<subseteq> set obs'"
  shows "keeps_step (length (rs_Steps result) - 1) (st_Index step) obs r"
  using assms by (auto simp: refinish_step_def intro: keeps_step_last split: prod.splits)

lemma runFromState_keeps: "runFromState env request result k w = ((r, err), w') \<Longrightarrow> keeps_step n i obs result \<Longrightarrow> keeps_step n i obs r"
  using runFromState_prefix [of env request result k w "(r, err)" w'] by (auto intro: keeps_step_append)

lemma stop_at_keeps: "stop_at result a e k = (r, err) \<Longrightarrow> keeps_step n i obs result \<Longrightarrow> keeps_step n i obs r"
  using stop_at_steps by (auto simp: keeps_step_def)

text \<open>The observations of the suspended step that are not the pending action's.\<close>

definition other_observations :: "RunCheckpoint \<Rightarrow> Observation set" where
  "other_observations c = {b \<in> set (st_Observations (last (cp_Steps c))). ob_ActionID b \<noteq> ac_ID (cp_PendingAction c)}"

lemma resumeApproved_keeps:
  assumes x: "resumeApprovedAction env request result pending w = ((r, err), w')" and "rs_Status r \<noteq> RunStatusFailed"
  shows "keeps_step (length (rs_Steps result) - 1) (st_Index (last (rs_Steps result))) {b \<in> set (st_Observations (last (rs_Steps result))). ob_ActionID b \<noteq> ac_ID pending} r"
proof -
  let ?step = "last (rs_Steps result)"
  let ?obs = "observationsWithoutAction (st_Observations ?step) (ac_ID pending)"
  let ?result = "result\<lparr>rs_Steps := butlast (rs_Steps result) @ [?step\<lparr>st_Observations := ?obs\<rparr>]\<rparr>"
  obtain d catalog as stop obs msgs r1 w2 w3 w4 where a: "run_actions env d (rr_Context request) catalog (st_Index ?step) as ?obs (rs_Messages result) w2 = (stop, obs, msgs, w3)"
    "refinish_step env ?result (?step\<lparr>st_Observations := ?obs\<rparr>) obs msgs w3 = (r1, w4)" "rs_Steps result \<noteq> []"
    and f: "(\<exists>action err'. stop_at r1 action err' (st_Index ?step) = (r, err)) \<or> (\<exists>w5. runFromState env request r1 (st_Index ?step + 1) w5 = ((r, err), w'))"
    using assms by (auto simp: resumeApprovedAction_def failResult_def Let_def split: option.splits if_splits sum.splits prod.splits) blast+
  have "keeps_step (length (rs_Steps result) - 1) (st_Index ?step) (set ?obs) r1"
    using refinish_keeps [OF a(2)] run_actions_grow [OF a(1)] a(3) by simp
  then show ?thesis using f stop_at_keeps runFromState_keeps by (auto simp: observationsWithoutAction_def)
qed

lemma resume_held_keeps:
  assumes x: "resume_held env request catalog result step pending rest tool call w = ((r, err), w')" and n: "rs_Steps result \<noteq> []"
  shows "keeps_step (length (rs_Steps result) - 1) (st_Index step) (set (st_Observations step)) r"
proof -
  let ?keeps = "keeps_step (length (rs_Steps result) - 1) (st_Index step) (set (st_Observations step))"
  have k: "?keeps r1" if "refinish_step env result step obs msgs v = (r1, v')" "set (st_Observations step) \<subseteq> set obs" for obs msgs v r1 v'
    using refinish_keeps [OF that(1) n that(2)] .
  obtain d w1 where b: "withBudgetContext env (rc_Budget (rr_Context request)) w = (d, w1)" by fastforce
  show ?thesis
  proof (cases "tool (wd_log w1) call")
    case (Inl execErr)
    obtain r1 w3 where f: "refinish_step env result step (st_Observations step @ [observation pending True]) (rs_Messages result) (emit env (RResume call) w1) = (r1, w3)" by fastforce
    then have "rs_Steps r = rs_Steps r1"
      using x b Inl by (auto simp: resume_held_def suspendForToolContinuation_def failResult_def Let_def split: option.splits prod.splits if_splits)
    moreover have "?keeps r1" by (rule k [OF f]) auto
    ultimately show ?thesis by (simp add: keeps_step_def)
  next
    case (Inr toolResult)
    obtain stop obs msgs w3 where ra: "run_actions env d (rr_Context request) catalog (st_Index step) rest
        (st_Observations step @ [(observation pending False)\<lparr>ob_Content := tr_Content toolResult, ob_StructuredContent := tr_StructuredContent toolResult\<rparr>])
        (rs_Messages result @ [tool_message pending (tr_Content toolResult)]) (emit env (RResume call) w1) = (stop, obs, msgs, w3)" by (metis prod.exhaust)
    obtain r1 w4 where f: "refinish_step env result step obs msgs w3 = (r1, w4)" by fastforce
    have "?keeps r1" using k [OF f] run_actions_grow [OF ra] by simp
    then show ?thesis using x b Inr ra f stop_at_keeps runFromState_keeps
      by (auto simp: resume_held_def Let_def split: option.splits)
  qed
qed

lemma resumeSuspended_keeps:
  assumes x: "resumeSuspendedTool env request result pending k h a t w = ((r, err), w')" and "rs_Status r \<noteq> RunStatusFailed"
  shows "keeps_step (length (rs_Steps result) - 1) (st_Index (last (rs_Steps result))) {b \<in> set (st_Observations (last (rs_Steps result))). ob_ActionID b \<noteq> ac_ID pending} r"
proof -
  let ?step = "(last (rs_Steps result))\<lparr>st_Observations := observationsWithoutAction (st_Observations (last (rs_Steps result))) (ac_ID pending)\<rparr>"
  obtain catalog rest tool call w1 w2 where "resume_held env request catalog (result\<lparr>rs_Steps := butlast (rs_Steps result) @ [?step]\<rparr>) ?step pending rest tool call w1 = ((r, err), w2)"
    using assms by (auto simp: resumeSuspendedTool_def failResult_def Let_def split: option.splits if_splits sum.splits prod.splits)
  from resume_held_keeps [OF this] show ?thesis by (auto simp: observationsWithoutAction_def)
qed

lemma Resume_keeps:
  assumes r: "Resume env request w = ((r, err), w')" and f: "rs_Status r \<noteq> RunStatusFailed" and n: "cp_Steps (rm_Checkpoint request) \<noteq> []"
  shows "keeps_step (length (cp_Steps (rm_Checkpoint request)) - 1) (st_Index (last (cp_Steps (rm_Checkpoint request)))) (other_observations (rm_Checkpoint request)) r"
proof -
  let ?c = "rm_Checkpoint request"
  let ?request = "\<lparr>rr_Context = cp_Context ?c, rr_Model = cp_Model ?c, rr_Messages = [], rr_Tools = rm_Tools request, rr_InitialToolChoice = []\<rparr>"
  let ?result = "new_result (cp_Context ?c) (cp_Messages ?c) (cp_Steps ?c) (cp_Usage ?c)"
  have [simp]: "rs_Steps ?result = cp_Steps ?c" by (simp add: new_result_def)
  consider k ms where "runFromState env ?request (?result\<lparr>rs_Messages := ms\<rparr>) k w = ((r, err), w')"
    | k h a t where "resumeSuspendedTool env ?request ?result (cp_PendingAction ?c) k h a t w = ((r, err), w')"
    | "resumeApprovedAction env ?request ?result (cp_PendingAction ?c) w = ((r, err), w')"
    using r f by (auto simp: Resume_def failResult_def Let_def split: option.splits if_splits)
  then show ?thesis
  proof cases
    case 1
    then show ?thesis by (rule runFromState_keeps) (use n in \<open>auto simp: keeps_step_def other_observations_def last_conv_nth\<close>)
  next
    case 2
    then show ?thesis using resumeSuspended_keeps [OF 2 f] by (simp add: other_observations_def)
  next
    case 3
    then show ?thesis using resumeApproved_keeps [OF 3 f] by (simp add: other_observations_def)
  qed
qed

section \<open>Evidence of a resumed step\<close>

definition observation_id :: "string \<Rightarrow> int \<Rightarrow> int \<Rightarrow> Observation \<Rightarrow> string" where
  "observation_id runID attempt step b = ''tool:'' @ runID @ '':'' @ show_int attempt @ '':'' @ show_int step @ '':''
     @ (if trim_space (ob_ActionID b) = [] then ''unknown'' else trim_space (ob_ActionID b))"

lemma observation_evidence_id: "vd_ID (observation_evidence g bindings q s b) = observation_id (rc_RunID (rs_Context (eq_Run q))) (eq_Attempt q) (st_Index s) b"
  by (simp add: observation_evidence_def observation_id_def Let_def)

lemma append_duplicate: "item \<in> set items \<Longrightarrow> vd_ID item \<in> vd_ID ` set (lg_Items l) \<Longrightarrow> fst (append_evidence g items l) \<noteq> None"
proof (induction items arbitrary: l)
  case (Cons i items)
  show ?case
  proof (cases "ledger_With g i l")
    case (Inr k)
    then have "lg_Items k = lg_Items l @ [i]" "vd_ID i \<notin> vd_ID ` set (lg_Items l)" by (auto simp: ledger_With_def list_ex_iff split: if_splits option.splits)
    then show ?thesis using Cons Inr by auto
  qed simp
qed simp

lemma collected_twice:
  assumes "vr_Collect v = Some (\<lambda>q w. (Inr (StructuredObservation_Collect g bindings q), w))" "s \<in> set (rs_Steps run)" "b \<in> set (st_Observations s)" "bound_observation bindings b"
    and "observation_id (rc_RunID (rs_Context run)) attempt (st_Index s) b \<in> vd_ID ` set (lg_Items (gs_Evidence r))"
    and "observe_run v suspended task e run attempt r w = (err, r1, w')"
  shows "err \<noteq> None"
proof
  assume n: "err = None"
  obtain snapshot w1 where t: "take_snapshot task SnapshotPhaseAfter e w = (Inr snapshot, w1)"
    using assms(6) n by (auto simp: observe_run_def split: prod.splits sum.splits)
  let ?r = "case snapshot of None \<Rightarrow> r | Some s \<Rightarrow> r\<lparr>gs_After := Some s\<rparr>"
  let ?q = "\<lparr>eq_Task = task, eq_Run = run, eq_Before = gs_Before ?r, eq_After = snapshot, eq_Attempt = attempt\<rparr>"
  have "observation_evidence g bindings ?q s b \<in> set (StructuredObservation_Collect g bindings ?q)" using assms(2-4) by (auto simp: StructuredObservation_Collect_def)
  then have "fst (append_evidence (vr_goal v) (StructuredObservation_Collect g bindings ?q) (gs_Evidence ?r)) \<noteq> None"
    by (rule append_duplicate) (use assms(5) in \<open>simp add: observation_evidence_id split: option.splits\<close>)
  then show False using assms(1,6) t n by (auto simp: observe_run_def Let_def split: prod.splits option.splits)
qed

end
