(* ===== verification/Goal_Properties.thy ===== *)
theory Goal_Properties
  imports Verified_Runs
begin

text \<open>
  The properties of verified runs (\<^verbatim>\<open>src/internal/module/agent/runtime/verified_runner.go\<close> and \<^verbatim>\<open>verified_resume.go\<close>), alone
  and over the reason-act runner, with the runs they are shown on: the script of \<open>React_Properties\<close> with tools that
  return structured content, a task with one required criterion, the verifier of required evidence and the collector
  of structured observations.
\<close>

section \<open>A goal with one criterion\<close>

definition goal_demo_goal :: goal_env where
  "goal_demo_goal = \<lparr>ge_sha256 = (\<lambda>s. s), ge_raw = (\<lambda>r. ''{}''), ge_marshal = (\<lambda>t. Inr ''{}''), ge_escape = (\<lambda>s. s), ge_quote = (\<lambda>s. s)\<rparr>"

definition goal_demo_env :: "Action list list \<Rightarrow> run_env" where
  "goal_demo_env script = (react_demo_env script)\<lparr>en_Execute := Some (\<lambda>es call. Inr \<lparr>tr_Content = tl_Name call, tr_StructuredContent = RawJSON (GMap [])\<rparr>)\<rparr>"

definition goal_demo_task :: TaskSpec where
  "goal_demo_task = \<lparr>tk_ID = ''t1'', tk_Goal = ''find it'', tk_Constraints = [], tk_CompletionCriteria = [\<lparr>cr_ID = ''c1'', cr_Description = ''it was looked up'', cr_Required = True\<rparr>],
     tk_AllowedTools = [''look'', ''post''], tk_MaxRepairAttempts = 1\<rparr>"

definition goal_demo_bindings :: "string \<Rightarrow> string list" where
  "goal_demo_bindings name = (if name = ''look'' then [''c1''] else [])"

definition goal_demo_runner :: "Action list list \<Rightarrow> run_world verified_runner" where
  "goal_demo_runner script = \<lparr>vr_goal = goal_demo_goal, vr_Run = Some (Run (goal_demo_env script)), vr_Resume = Some (Resume (goal_demo_env script)),
     vr_Verify = Some (\<lambda>q w. (RequiredEvidenceVerifier_Verify goal_demo_goal q, w)), vr_VerifySuspension = None,
     vr_Collect = Some (\<lambda>q w. (Inr (StructuredObservation_Collect goal_demo_goal goal_demo_bindings q), w))\<rparr>"

definition goal_demo_request :: "int \<Rightarrow> run_world VerifiedRunRequest" where
  "goal_demo_request maxSteps = \<lparr>gr_Task = goal_demo_task, gr_Run = react_demo_request maxSteps, gr_Environment = None, gr_Evidence = \<lparr>lg_Items = []\<rparr>, gr_RepairBuilder = None\<rparr>"

definition goal_demo_run :: "int \<Rightarrow> Action list list \<Rightarrow> goal_outcome \<times> run_world" where
  "goal_demo_run maxSteps script = VerifiedRunner_Run (goal_demo_runner script) (goal_demo_request maxSteps) (start react_demo_tracker)"

definition goal_demo_resume :: "int \<Rightarrow> Action list list \<Rightarrow> string \<Rightarrow> string \<Rightarrow> run_world VerifiedResumeRequest" where
  "goal_demo_resume maxSteps script human approval = \<lparr>vm_Checkpoint = the (gs_Checkpoint (fst (fst (goal_demo_run maxSteps script)))), vm_HumanResponse = human, vm_ApprovalID = approval,
     vm_ResumeToken = [], vm_Tools = react_demo_tools, vm_Environment = None\<rparr>"

definition goal_demo_resumed :: "int \<Rightarrow> Action list list \<Rightarrow> string \<Rightarrow> string \<Rightarrow> Action list list \<Rightarrow> goal_outcome \<times> run_world" where
  "goal_demo_resumed maxSteps script human approval script' =
     VerifiedRunner_Resume (goal_demo_runner script') (goal_demo_resume maxSteps script human approval) (start react_demo_tracker)"

definition goal_demo_answer :: "Action list list" where
  "goal_demo_answer = [[react_demo_action ''a9'' ActionFinalAnswer [] ''fine'']]"

text \<open>An answer without evidence, then a look and the answer again.\<close>

definition goal_demo_repaired :: "Action list list" where
  "goal_demo_repaired = goal_demo_answer @ [[react_demo_action ''a1'' ActionToolCall ''look'' []]] @ goal_demo_answer"

section \<open>What the results of goals mean\<close>

lemma RequiredEvidenceVerifier_passed:
  assumes "RequiredEvidenceVerifier_Verify g q = Inr x" "Passed x"
  shows "\<forall>c\<in>set (tk_CompletionCriteria (vq_Task q)). cr_Required c \<longrightarrow> (\<exists>e\<in>set (lg_Items (vq_Evidence q)). cr_ID c \<in> set (vd_CriterionIDs e))" "vf_MissingEvidence x = []"
proof -
  have m: "filter (\<lambda>c. evidence_for (vq_Evidence q) (cr_ID c) = []) (filter cr_Required (tk_CompletionCriteria (vq_Task q))) = []"
    using assms by (auto simp: RequiredEvidenceVerifier_Verify_def Passed_def VerificationPassed_def VerificationFailed_def Let_def split: option.splits if_splits)
  then show "\<forall>c\<in>set (tk_CompletionCriteria (vq_Task q)). cr_Required c \<longrightarrow> (\<exists>e\<in>set (lg_Items (vq_Evidence q)). cr_ID c \<in> set (vd_CriterionIDs e))"
    by (fastforce simp: filter_empty_conv evidence_for_def)
  show "vf_MissingEvidence x = []" using assms m by (auto simp: RequiredEvidenceVerifier_Verify_def Let_def split: option.splits)
qed

text \<open>
  C9. A goal that is reported as verified, by a first run or a resumed one, has proof: its run completed, no error is
  returned, and with the verifier of required evidence the ledger of the result has an item for every required
  criterion of the task.
\<close>
theorem verified_goal_has_evidence:
  assumes "VerifiedRunner_Run v request w = ((r, err), w') \<and> task = gr_Task request \<or> VerifiedRunner_Resume v resume w = ((r, err), w') \<and> task = vc_Task (vm_Checkpoint resume)"
    and "vr_Verify v = Some (\<lambda>q w. (RequiredEvidenceVerifier_Verify g q, w))" and "gs_Status r = GoalRunVerified"
  shows "err = None \<and> rs_Status (gs_Run r) = RunStatusCompleted \<and> vf_MissingEvidence (gs_Verification r) = []
    \<and> (\<forall>c\<in>set (tk_CompletionCriteria task). cr_Required c \<longrightarrow> (\<exists>e\<in>set (lg_Items (gs_Evidence r)). cr_ID c \<in> set (vd_CriterionIDs e)))"
proof -
  obtain e l where "goal_settled (vr_goal v) (the (vr_Verify v)) task e l (r, err)"
    using assms(1) by (auto simp: assms(2) dest: goal_run_settles [OF _ assms(2)] goal_resume_settles [OF _ assms(2)])
  then have "err = None" "rs_Status (gs_Run r) = RunStatusCompleted" "Passed (gs_Verification r)" "RequiredEvidenceVerifier_Verify g (verification_request task e r) = Inr (gs_Verification r)"
    using assms(2,3) by (auto simp: goal_settled_def backed_def)
  then show ?thesis using RequiredEvidenceVerifier_passed [of g "verification_request task e r"] by (simp add: verification_request_def)
qed

theorem verified_goal_has_evidence_witness:
  "gs_Status (fst (fst (goal_demo_run 4 goal_demo_repaired))) = GoalRunVerified
   \<and> (\<exists>e\<in>set (lg_Items (gs_Evidence (fst (fst (goal_demo_run 4 goal_demo_repaired))))). ''c1'' \<in> set (vd_CriterionIDs e))"
proof
  show s: "gs_Status (fst (fst (goal_demo_run 4 goal_demo_repaired))) = GoalRunVerified" by code_simp
  obtain r err w' where r: "goal_demo_run 4 goal_demo_repaired = ((r, err), w')" by (metis prod.exhaust)
  from verified_goal_has_evidence [of "goal_demo_runner goal_demo_repaired" "goal_demo_request 4" "start react_demo_tracker" r err w' goal_demo_task _ goal_demo_goal] r s
  show "\<exists>e\<in>set (lg_Items (gs_Evidence (fst (fst (goal_demo_run 4 goal_demo_repaired))))). ''c1'' \<in> set (vd_CriterionIDs e)"
    by (auto simp: goal_demo_run_def goal_demo_runner_def goal_demo_request_def goal_demo_task_def)
qed

text \<open>
  C10. The attempts of a goal share one budget of steps: over the reason-act runner, a goal with all its repairs takes no
  more steps than its budget allows one run, numbers them from one on, and makes no more repairs than its task allows.
\<close>
theorem goal_run_within_steps:
  assumes "vr_Run v = Some (Run env)" and "VerifiedRunner_Run v request w = ((r, err), w')"
  shows "length (rs_Steps (gs_Run r)) \<le> run_steps (rc_Budget (rr_Context (gr_Run request))) \<and> map st_Index (rs_Steps (gs_Run r)) = map int [1..<Suc (length (rs_Steps (gs_Run r)))]
    \<and> 0 \<le> gs_RepairAttempts r \<and> gs_RepairAttempts r \<le> max 0 (tk_MaxRepairAttempts (gr_Task request))"
proof -
  consider "r = new_goal_result (gr_Evidence request) None 0"
    | verify tools b w1 where "goal_loop v (Run env) verify (request\<lparr>gr_Run := (gr_Run request)\<lparr>rr_Tools := tools\<rparr>\<rparr>) 0 ((gr_Run request)\<lparr>rr_Tools := tools\<rparr>)
        ((new_goal_result (gr_Evidence request) None 0)\<lparr>gs_Before := b\<rparr>) w1 = ((r, err), w')" "TaskSpec_Validate (vr_goal v) (gr_Task request) = None"
    using assms by (auto simp: VerifiedRunner_Run_def Let_def split: option.splits sum.splits prod.splits)
  then have "length (rs_Steps (gs_Run r)) \<le> run_steps (rc_Budget (rr_Context (gr_Run request))) \<and> numbered (rs_Steps (gs_Run r))
    \<and> 0 \<le> gs_RepairAttempts r \<and> gs_RepairAttempts r \<le> max 0 (tk_MaxRepairAttempts (gr_Task request))"
  proof cases
    case 1
    then show ?thesis by (simp add: new_goal_result_def zero_run_def new_result_def)
  next
    case 2
    have "0 \<le> tk_MaxRepairAttempts (gr_Task request)" using 2(2) by (simp add: TaskSpec_Validate_def split: if_splits)
    then show ?thesis using react.goal_loop_steps [OF 2(1)] by (simp add: new_goal_result_def zero_run_def new_result_def)
  qed
  then show ?thesis by (simp add: numbered_def)
qed

theorem goal_run_within_steps_witness:
  "length (rs_Steps (gs_Run (fst (fst (goal_demo_run 4 goal_demo_repaired))))) \<le> run_steps (rc_Budget (rr_Context (react_demo_request 4)))
   \<and> gs_RepairAttempts (fst (fst (goal_demo_run 4 goal_demo_repaired))) = 1 \<and> length (rs_Steps (gs_Run (fst (fst (goal_demo_run 4 goal_demo_repaired))))) = 3"
proof (intro conjI)
  obtain r err w' where r: "goal_demo_run 4 goal_demo_repaired = ((r, err), w')" by (metis prod.exhaust)
  have "vr_Run (goal_demo_runner goal_demo_repaired) = Some (Run (goal_demo_env goal_demo_repaired))" by (simp add: goal_demo_runner_def)
  from goal_run_within_steps [OF this r [unfolded goal_demo_run_def]] r
  show "length (rs_Steps (gs_Run (fst (fst (goal_demo_run 4 goal_demo_repaired))))) \<le> run_steps (rc_Budget (rr_Context (react_demo_request 4)))" by (simp add: goal_demo_request_def)
  show "gs_RepairAttempts (fst (fst (goal_demo_run 4 goal_demo_repaired))) = 1" by code_simp
  show "length (rs_Steps (gs_Run (fst (fst (goal_demo_run 4 goal_demo_repaired))))) = 3" by code_simp
qed

text \<open>
  The ledger of a goal only grows: a first run or a resumed one that returns without an error has the evidence it
  started from, in order and at the front, and no identifier twice; what a resumed run starts from has none twice
  already, since its checkpoint was checked.
\<close>
theorem goal_ledger_grows:
  assumes "vr_Verify v = Some verify"
  shows "(VerifiedRunner_Run v request w = ((r, None), w') \<and> distinct (map vd_ID (lg_Items (gr_Evidence request))) \<longrightarrow>
      (\<exists>es. lg_Items (gs_Evidence r) = lg_Items (gr_Evidence request) @ es) \<and> distinct (map vd_ID (lg_Items (gs_Evidence r))))
    \<and> (VerifiedRunner_Resume v resume w = ((r, None), w') \<longrightarrow>
      (\<exists>es. lg_Items (gs_Evidence r) = lg_Items (vc_Evidence (vm_Checkpoint resume)) @ es) \<and> distinct (map vd_ID (lg_Items (gs_Evidence r))))"
proof (intro conjI impI)
  assume "VerifiedRunner_Run v request w = ((r, None), w') \<and> distinct (map vd_ID (lg_Items (gr_Evidence request)))"
  then show "\<exists>es. lg_Items (gs_Evidence r) = lg_Items (gr_Evidence request) @ es" "distinct (map vd_ID (lg_Items (gs_Evidence r)))"
    using goal_run_settles [OF _ assms, of request w r None w'] by (auto simp: goal_settled_def extends_def)
next
  assume r: "VerifiedRunner_Resume v resume w = ((r, None), w')"
  then have "extends (vc_Evidence (vm_Checkpoint resume)) (gs_Evidence r)" using goal_resume_settles [OF r assms] by (simp add: goal_settled_def)
  moreover have "ValidateVerifiedCheckpoint (vr_goal v) (vm_Checkpoint resume) = None"
    using r assms by (auto simp: VerifiedRunner_Resume_def Let_def split: option.splits)
  ultimately show "\<exists>es. lg_Items (gs_Evidence r) = lg_Items (vc_Evidence (vm_Checkpoint resume)) @ es" "distinct (map vd_ID (lg_Items (gs_Evidence r)))"
    by (auto simp: extends_def dest: ValidateVerifiedCheckpoint_distinct)
qed

theorem goal_ledger_grows_witness:
  "distinct (map vd_ID (lg_Items (gs_Evidence (fst (fst (goal_demo_resumed 4 react_demo_question ''me'' [] goal_demo_repaired))))))
   \<and> snd (fst (goal_demo_resumed 4 react_demo_question ''me'' [] goal_demo_repaired)) = None
   \<and> length (lg_Items (gs_Evidence (fst (fst (goal_demo_resumed 4 react_demo_question ''me'' [] goal_demo_repaired))))) = 2"
proof (intro conjI)
  obtain r err w' where r: "goal_demo_resumed 4 react_demo_question ''me'' [] goal_demo_repaired = ((r, err), w')" by (metis prod.exhaust)
  show e: "snd (fst (goal_demo_resumed 4 react_demo_question ''me'' [] goal_demo_repaired)) = None" by code_simp
  have "vr_Verify (goal_demo_runner goal_demo_repaired) = Some (\<lambda>q w. (RequiredEvidenceVerifier_Verify goal_demo_goal q, w))" by (simp add: goal_demo_runner_def)
  from goal_ledger_grows [OF this, of "goal_demo_request 4" "start react_demo_tracker" r w' "goal_demo_resume 4 react_demo_question ''me'' []"] r e
  show "distinct (map vd_ID (lg_Items (gs_Evidence (fst (fst (goal_demo_resumed 4 react_demo_question ''me'' [] goal_demo_repaired))))))" by (simp add: goal_demo_resumed_def)
  show "length (lg_Items (gs_Evidence (fst (fst (goal_demo_resumed 4 react_demo_question ''me'' [] goal_demo_repaired))))) = 2" by code_simp
qed

text \<open>
  C11. A goal that is suspended, in its first run or again after a resumption, can be saved: its result has a checkpoint
  that passes the checks of a resumption and has the task, the ledger, the snapshot, the repairs, the steps and the
  usage of the result.
\<close>
theorem suspended_goal_has_checkpoint:
  assumes "VerifiedRunner_Run v request w = ((r, None), w') \<and> task = gr_Task request \<or> VerifiedRunner_Resume v resume w = ((r, None), w') \<and> task = vc_Task (vm_Checkpoint resume)"
    and "vr_Verify v = Some verify" and "gs_Status r = GoalRunSuspended"
  shows "\<exists>c. gs_Checkpoint r = Some c \<and> ValidateVerifiedCheckpoint (vr_goal v) c = None \<and> vc_Task c = task \<and> vc_Evidence c = gs_Evidence r \<and> vc_Before c = gs_Before r
    \<and> vc_RepairAttempts c = gs_RepairAttempts r \<and> cp_Steps (vc_Run c) = rs_Steps (gs_Run r) \<and> cp_Usage (vc_Run c) = rs_Usage (gs_Run r)"
proof -
  obtain e l where "goal_settled (vr_goal v) verify task e l (r, None)"
    using assms(1) by (auto dest: goal_run_settles [OF _ assms(2)] goal_resume_settles [OF _ assms(2)])
  then show ?thesis using assms(3) by (auto simp: goal_settled_def saved_def)
qed

theorem suspended_goal_has_checkpoint_witness:
  "\<exists>c. gs_Checkpoint (fst (fst (goal_demo_run 4 react_demo_post))) = Some c \<and> ValidateVerifiedCheckpoint goal_demo_goal c = None \<and> length (lg_Items (vc_Evidence c)) = 1"
proof -
  obtain r err w' where r: "goal_demo_run 4 react_demo_post = ((r, err), w')" by (metis prod.exhaust)
  have s: "gs_Status (fst (fst (goal_demo_run 4 react_demo_post))) = GoalRunSuspended" "snd (fst (goal_demo_run 4 react_demo_post)) = None"
    "length (lg_Items (gs_Evidence (fst (fst (goal_demo_run 4 react_demo_post))))) = 1" by code_simp+
  have "VerifiedRunner_Run (goal_demo_runner react_demo_post) (goal_demo_request 4) (start react_demo_tracker) = ((r, None), w')" using r s(2) by (simp add: goal_demo_run_def)
  from suspended_goal_has_checkpoint [OF disjI1 [OF conjI [OF this refl]], of "\<lambda>q w. (RequiredEvidenceVerifier_Verify goal_demo_goal q, w)"] r s
  show ?thesis by (auto simp: goal_demo_runner_def)
qed

section \<open>Goals that cannot be resumed\<close>

text \<open>A resumed goal that settles ran its runner to a state the checks accept and collected the evidence of its last part.\<close>

lemma new_goal_result_evidence [simp]: "gs_Evidence (new_goal_result evidence snapshot attempts) = evidence"
  by (simp add: new_goal_result_def)

lemma goal_resumed:
  assumes "VerifiedRunner_Resume v request w = ((r, None), w')" and "vr_Resume v = Some resume"
  obtains run verify base tools resumed runErr l w1 w2
  where "resume \<lparr>rm_Checkpoint = vc_Run (vm_Checkpoint request), rm_HumanResponse = vm_HumanResponse request, rm_ApprovalID = vm_ApprovalID request, rm_ResumeToken = vm_ResumeToken request, rm_Tools = tools\<rparr> w1
      = ((resumed, runErr), w2)"
    and "validateResumedGoalResult (vr_goal v) (vc_Run (vm_Checkpoint request)) resumed = None" and "ValidateVerifiedCheckpoint (vr_goal v) (vm_Checkpoint request) = None"
    and "ledger_With (vr_goal v) (resume_evidence (vr_goal v) (vm_Checkpoint request)) (vc_Evidence (vm_Checkpoint request)) = Inr l"
    and "resumed_loop v run verify (vm_Checkpoint request) base (vm_Environment request) (resumedGoalSegment (vc_Run (vm_Checkpoint request)) resumed)
      ((new_goal_result (vc_Evidence (vm_Checkpoint request)) (vc_Before (vm_Checkpoint request)) (vc_RepairAttempts (vm_Checkpoint request)))\<lparr>gs_Evidence := l, gs_Run := resumed\<rparr>) w2 = ((r, None), w')"
  using assms
  by (auto simp: VerifiedRunner_Resume_def appendCheckpointResumeEvidence_def Let_def split: option.splits sum.splits prod.splits if_splits)

lemma resumed_valid:
  assumes "validateResumedGoalResult g c resumed = None"
  shows "rs_Context resumed = cp_Context c" "rs_Status resumed = RunStatusCompleted \<or> isGoalSuspendedStatus (rs_Status resumed)" "rs_Status resumed \<noteq> RunStatusFailed"
  using assms by (auto simp: validateResumedGoalResult_def isGoalSuspendedStatus_def run_statuses split: if_splits)

text \<open>
  A goal that runs with the default number of steps cannot be finished after a suspension: its checkpoint has the
  budget of the request, where the number of steps is zero, the resumed run has the budget with the default written
  into it, and the check that compares the two contexts refuses every resumed run that completed. Whatever the human
  answers, the outcome is an error or another suspension.
\<close>
theorem default_steps_cannot_resume:
  assumes "vr_Resume v = Some (Resume env)" and "bg_MaxSteps (rc_Budget (cp_Context (vc_Run (vm_Checkpoint request)))) = 0"
    and "VerifiedRunner_Resume v request w = ((r, err), w')"
  shows "err \<noteq> None \<or> gs_Status r = GoalRunSuspended"
proof (rule ccontr)
  let ?c = "vc_Run (vm_Checkpoint request)"
  assume n: "\<not> (err \<noteq> None \<or> gs_Status r = GoalRunSuspended)"
  then have "VerifiedRunner_Resume v request w = ((r, None), w')" using assms(3) by simp
  from this assms(1) obtain run verify base tools resumed runErr l w1 w2
    where r: "Resume env \<lparr>rm_Checkpoint = ?c, rm_HumanResponse = vm_HumanResponse request, rm_ApprovalID = vm_ApprovalID request, rm_ResumeToken = vm_ResumeToken request, rm_Tools = tools\<rparr> w1 = ((resumed, runErr), w2)"
      and v: "validateResumedGoalResult (vr_goal v) ?c resumed = None"
      and l: "resumed_loop v run verify (vm_Checkpoint request) base (vm_Environment request) (resumedGoalSegment ?c resumed)
        ((new_goal_result (vc_Evidence (vm_Checkpoint request)) (vc_Before (vm_Checkpoint request)) (vc_RepairAttempts (vm_Checkpoint request)))\<lparr>gs_Evidence := l, gs_Run := resumed\<rparr>) w2 = ((r, None), w')"
    by (rule goal_resumed)
  have "with_max_steps (effective_max_steps (rc_Budget (cp_Context ?c))) (cp_Context ?c) \<noteq> cp_Context ?c"
  proof
    assume "with_max_steps (effective_max_steps (rc_Budget (cp_Context ?c))) (cp_Context ?c) = cp_Context ?c"
    then have "bg_MaxSteps (rc_Budget (with_max_steps (effective_max_steps (rc_Budget (cp_Context ?c))) (cp_Context ?c))) = 0" using assms(2) by simp
    then show False using assms(2) by (simp add: with_max_steps_def effective_max_steps_def DefaultMaxSteps_def)
  qed
  then have "rs_Status resumed \<noteq> RunStatusCompleted" using Resume_context [OF r] resumed_valid(1) [OF v] by auto
  then have "gs_Status r = GoalRunSuspended" using l
    by (auto simp: resumed_loop.simps resumed_round_def suspend_goal_def Let_def split: prod.splits option.splits sum.splits)
  then show False using n by simp
qed

theorem default_steps_cannot_resume_witness:
  "gs_Status (fst (fst (goal_demo_run 0 react_demo_question))) = GoalRunSuspended \<and> snd (fst (goal_demo_resumed 0 react_demo_question ''me'' [] goal_demo_answer)) \<noteq> None
   \<and> snd (fst (goal_demo_resumed 4 react_demo_question ''me'' [] goal_demo_repaired)) = None"
proof (intro conjI)
  show "gs_Status (fst (fst (goal_demo_run 0 react_demo_question))) = GoalRunSuspended" by code_simp
  show "snd (fst (goal_demo_resumed 4 react_demo_question ''me'' [] goal_demo_repaired)) = None" by code_simp
  obtain r err w' where r: "goal_demo_resumed 0 react_demo_question ''me'' [] goal_demo_answer = ((r, err), w')" by (metis prod.exhaust)
  have "bg_MaxSteps (rc_Budget (cp_Context (vc_Run (vm_Checkpoint (goal_demo_resume 0 react_demo_question ''me'' []))))) = 0" by code_simp
  moreover have "gs_Status (fst (fst (goal_demo_resumed 0 react_demo_question ''me'' [] goal_demo_answer))) \<noteq> GoalRunSuspended" by code_simp
  ultimately show "snd (fst (goal_demo_resumed 0 react_demo_question ''me'' [] goal_demo_answer)) \<noteq> None"
    using default_steps_cannot_resume [OF _ _ r [unfolded goal_demo_resumed_def], of "goal_demo_env goal_demo_answer"] r by (simp add: goal_demo_runner_def)
qed

text \<open>
  Evidence of the suspended step is collected twice: when another action of that step was observed and its evidence
  is in the checkpoint, the resumed run reports the step again, the collector gives the observation the same identifier
  and the ledger refuses it. The goal fails after the approved action was carried out, whatever the run came to.
\<close>
theorem resumed_evidence_collides:
  assumes "vr_Resume v = Some (Resume env)" and "vr_Collect v = Some (\<lambda>q w. (Inr (StructuredObservation_Collect (vr_goal v) bindings q), w))"
    and "b \<in> other_observations (vc_Run (vm_Checkpoint request))" "bound_observation bindings b"
    and "observation_id (rc_RunID (cp_Context (vc_Run (vm_Checkpoint request)))) (vc_RepairAttempts (vm_Checkpoint request)) (st_Index (last (cp_Steps (vc_Run (vm_Checkpoint request))))) b
      \<in> vd_ID ` set (lg_Items (vc_Evidence (vm_Checkpoint request)))"
    and "VerifiedRunner_Resume v request w = ((r, err), w')"
  shows "err \<noteq> None"
proof
  let ?c = "vc_Run (vm_Checkpoint request)"
  assume "err = None"
  then have "VerifiedRunner_Resume v request w = ((r, None), w')" using assms(6) by simp
  from this assms(1) obtain run verify base tools resumed runErr l w1 w2
    where r: "Resume env \<lparr>rm_Checkpoint = ?c, rm_HumanResponse = vm_HumanResponse request, rm_ApprovalID = vm_ApprovalID request, rm_ResumeToken = vm_ResumeToken request, rm_Tools = tools\<rparr> w1 = ((resumed, runErr), w2)"
      and v: "validateResumedGoalResult (vr_goal v) ?c resumed = None" "ValidateVerifiedCheckpoint (vr_goal v) (vm_Checkpoint request) = None"
      and l: "ledger_With (vr_goal v) (resume_evidence (vr_goal v) (vm_Checkpoint request)) (vc_Evidence (vm_Checkpoint request)) = Inr l"
      and loop: "resumed_loop v run verify (vm_Checkpoint request) base (vm_Environment request) (resumedGoalSegment ?c resumed)
        ((new_goal_result (vc_Evidence (vm_Checkpoint request)) (vc_Before (vm_Checkpoint request)) (vc_RepairAttempts (vm_Checkpoint request)))\<lparr>gs_Evidence := l, gs_Run := resumed\<rparr>) w2 = ((r, None), w')"
    by (rule goal_resumed)
  let ?r = "(new_goal_result (vc_Evidence (vm_Checkpoint request)) (vc_Before (vm_Checkpoint request)) (vc_RepairAttempts (vm_Checkpoint request)))\<lparr>gs_Evidence := l, gs_Run := resumed\<rparr>"
  let ?n = "length (cp_Steps ?c) - 1"
  have ne: "cp_Steps ?c \<noteq> []" using v(2) by (auto simp: ValidateVerifiedCheckpoint_def ValidateRunCheckpoint_def Let_def split: if_splits option.splits)
  then have k: "keeps_step ?n (st_Index (last (cp_Steps ?c))) (other_observations ?c) resumed" using Resume_keeps [OF r resumed_valid(3) [OF v(1)]] by simp
  then have s: "rs_Steps resumed ! ?n \<in> set (rs_Steps (resumedGoalSegment ?c resumed))" "b \<in> set (st_Observations (rs_Steps resumed ! ?n))"
    using assms(3) by (auto simp: keeps_step_def resumedGoalSegment_def Cons_nth_drop_Suc [symmetric])
  have "extends (vc_Evidence (vm_Checkpoint request)) l" using l by (rule ledger_With_extends)
  then have "observation_id (rc_RunID (rs_Context (resumedGoalSegment ?c resumed))) (vc_RepairAttempts (vm_Checkpoint request)) (st_Index (rs_Steps resumed ! ?n)) b \<in> vd_ID ` set (lg_Items (gs_Evidence ?r))"
    using assms(5) k resumed_valid(1) [OF v(1)] by (auto simp: extends_def keeps_step_def resumedGoalSegment_def)
  from collected_twice [OF assms(2) s assms(4) this]
  have "\<exists>err' r1 w3. observe_run v suspended task e (resumedGoalSegment ?c resumed) (vc_RepairAttempts (vm_Checkpoint request)) ?r w2 = (Some err', r1, w3)" for suspended task e
    by (metis not_None_eq prod.exhaust)
  then obtain err' r1 w3 where "observe_run v (rs_Status (gs_Run ?r) \<noteq> RunStatusCompleted) (vc_Task (vm_Checkpoint request)) (vm_Environment request) (resumedGoalSegment ?c resumed)
      (vc_RepairAttempts (vm_Checkpoint request)) ?r w2 = (Some err', r1, w3)" by blast
  then show False using loop by (simp add: resumed_loop.simps resumed_round_def new_goal_result_def Let_def)
qed

theorem resumed_evidence_collides_witness:
  "gs_Status (fst (fst (goal_demo_run 4 react_demo_post))) = GoalRunSuspended \<and> snd (fst (goal_demo_resumed 4 react_demo_post [] ''ap1'' goal_demo_answer)) \<noteq> None"
proof
  show "gs_Status (fst (fst (goal_demo_run 4 react_demo_post))) = GoalRunSuspended" by code_simp
  let ?q = "goal_demo_resume 4 react_demo_post [] ''ap1''"
  let ?b = "hd (st_Observations (last (cp_Steps (vc_Run (vm_Checkpoint ?q)))))"
  obtain r err w' where r: "goal_demo_resumed 4 react_demo_post [] ''ap1'' goal_demo_answer = ((r, err), w')" by (metis prod.exhaust)
  have "?b \<in> set (st_Observations (last (cp_Steps (vc_Run (vm_Checkpoint ?q)))))" "ob_ActionID ?b \<noteq> ac_ID (cp_PendingAction (vc_Run (vm_Checkpoint ?q)))" by code_simp+
  then have "?b \<in> other_observations (vc_Run (vm_Checkpoint ?q))" by (simp add: other_observations_def)
  moreover have "bound_observation goal_demo_bindings ?b" by code_simp
  moreover have "observation_id (rc_RunID (cp_Context (vc_Run (vm_Checkpoint ?q)))) (vc_RepairAttempts (vm_Checkpoint ?q)) (st_Index (last (cp_Steps (vc_Run (vm_Checkpoint ?q))))) ?b
      \<in> vd_ID ` set (lg_Items (vc_Evidence (vm_Checkpoint ?q)))" by code_simp
  ultimately show "snd (fst (goal_demo_resumed 4 react_demo_post [] ''ap1'' goal_demo_answer)) \<noteq> None"
    using resumed_evidence_collides [OF _ _ _ _ _ r [unfolded goal_demo_resumed_def], of "goal_demo_env goal_demo_answer" goal_demo_bindings ?b] r by (simp add: goal_demo_runner_def)
qed

end
