(* ===== verification/Plan_Properties.thy ===== *)
theory Plan_Properties
  imports Planned_Runner Goal_Properties
begin

text \<open>
  The properties of short plans and of the goals that follow them: what admission guarantees of a plan, what the coordinator
  returns, when an execution counts as the plan's, and that a planned goal never gives a runner more authority than its
  plan has.
\<close>

section \<open>A goal with a plan\<close>

text \<open>
  The goal of \<open>Goal_Properties\<close> with two tools that only read, a planner that proposes to use both and then to answer,
  and a model that calls them one after the other or together.
\<close>

definition plan_demo_env :: plan_env where
  "plan_demo_env = \<lparr>pe_goal = goal_demo_goal, pe_marshal = (\<lambda>p. Inr ''plan''), pe_project = (\<lambda>x. ''{}'')\<rparr>"

definition plan_demo_task :: TaskSpec where
  "plan_demo_task = goal_demo_task\<lparr>tk_AllowedTools := [''look'', ''ask'']\<rparr>"

definition plan_demo_step :: "string \<Rightarrow> string \<Rightarrow> string \<Rightarrow> ShortPlanStep" where
  "plan_demo_step i kind tool = \<lparr>sp_ID = i, sp_Kind = kind, sp_Objective = ''do it'', sp_ToolName = tool, sp_CriterionIDs = [''c1'']\<rparr>"

definition plan_demo_proposal :: ShortPlanProposal where
  "plan_demo_proposal = \<lparr>pp_Version = ShortPlanVersionV1,
     pp_Steps = [plan_demo_step ''s1'' ShortPlanStepTool ''look'', plan_demo_step ''s2'' ShortPlanStepTool ''ask'', plan_demo_step ''s3'' ShortPlanStepRespond []]\<rparr>"

definition plan_demo_planner :: "ShortPlanRequest \<Rightarrow> run_world \<Rightarrow> (ShortPlanResult \<times> gerr option) \<times> run_world" where
  "plan_demo_planner request w = ((\<lparr>sl_Proposal = plan_demo_proposal, sl_Usage = zero_usage\<lparr>tu_TotalTokens := 5\<rparr>, sl_Attempts = 1, sl_Model = ''m'', sl_Provider = ''p''\<rparr>, None), w)"

definition plan_demo_coordinator :: "run_world PlanningCoordinator" where
  "plan_demo_coordinator = \<lparr>pc_planner = Some plan_demo_planner, pc_policy = Some (DeterministicShortPlanPolicy plan_demo_env (\<lambda>w. None)), pc_maxAdmissionRepairs = 1\<rparr>"

definition plan_demo_run_request :: RunRequest where
  "plan_demo_run_request = (react_demo_request 4)\<lparr>rr_Context := (rr_Context (react_demo_request 4))\<lparr>rc_Budget := (rc_Budget (rr_Context (react_demo_request 4)))\<lparr>bg_MaxTotalTokens := 0\<rparr>\<rparr>\<rparr>"

definition plan_demo_request :: "run_world PlannedVerifiedRunRequest" where
  "plan_demo_request = \<lparr>pq_Task = plan_demo_task, pq_Run = plan_demo_run_request, pq_Environment = None, pq_Evidence = \<lparr>lg_Items = []\<rparr>, pq_TargetCriterionIDs = []\<rparr>"

definition plan_demo_plan_request :: ShortPlanRequest where
  "plan_demo_plan_request = \<lparr>sr_Context = rr_Context plan_demo_run_request, sr_Model = ''m'', sr_Task = plan_demo_task, sr_AvailableTools = react_demo_tools,
     sr_Budget = rc_Budget (rr_Context plan_demo_run_request), sr_CompletedSteps = 0, sr_TargetCriterionIDs = [], sr_RepairFeedback = None, sr_RecoveryFeedback = None\<rparr>"

definition plan_demo_runner :: "Action list list \<Rightarrow> run_world PlannedVerifiedRunner" where
  "plan_demo_runner script = \<lparr>pr_env = plan_demo_env, pr_planning = Some plan_demo_coordinator, pr_verified = Some (goal_demo_runner script)\<rparr>"

definition plan_demo_run :: "Action list list \<Rightarrow> (PlannedVerifiedRunResult \<times> gerr option) \<times> run_world" where
  "plan_demo_run script = PlannedVerifiedRunner_Run (plan_demo_runner script) (Some (\<lambda>w. None)) plan_demo_request (start react_demo_tracker)"

definition plan_demo_one_by_one :: "Action list list" where
  "plan_demo_one_by_one = [[react_demo_action ''a1'' ActionToolCall ''look'' []], [react_demo_action ''a2'' ActionToolCall ''ask'' []]] @ goal_demo_answer"

definition plan_demo_together :: "Action list list" where
  "plan_demo_together = [[react_demo_action ''a1'' ActionToolCall ''look'' [], react_demo_action ''a2'' ActionToolCall ''ask'' []]] @ goal_demo_answer"

section \<open>Admitted plans\<close>

lemma normalize_ids_result:
  "normalize_ids u d catalog seen raws = Inr ids \<Longrightarrow> ids = map trim_space raws \<and> set ids \<subseteq> set catalog \<and> distinct ids \<and> set ids \<inter> set seen = {}"
  by (induction raws arbitrary: seen ids) (fastforce simp: Let_def split: if_splits)+

lemma sort_Nil_iff [simp]: "sort xs = [] \<longleftrightarrow> xs = []"
  by (metis length_0_conv length_sort)

text \<open>What the policy guarantees of the step at a position of a plan of \<open>n\<close> steps.\<close>

definition plan_step_ok :: "(string \<times> ToolDefinition) list \<Rightarrow> string list \<Rightarrow> nat \<Rightarrow> nat \<Rightarrow> AdmittedShortPlanStep \<Rightarrow> bool" where
  "plan_step_ok catalog allowed n i s \<longleftrightarrow>
     (if ad_Kind s = ShortPlanStepTool
      then ad_ToolName s \<in> set allowed \<and> (\<exists>t. map_of catalog (ad_ToolName s) = Some t \<and> ad_ToolCategory s = td_Category t \<and> ad_ApprovalRequired s = tool_ApprovalRequired t)
      else ad_Kind s \<in> {ShortPlanStepAskHuman, ShortPlanStepRespond} \<and> ad_ToolName s = [] \<and> Suc i = n)"

lemma admit_step_result:
  assumes "admitShortPlanStep g proposed i n catalog allowed criteria seen covered = Inr (s, seen', covered')"
  shows "plan_step_ok catalog allowed n i s" "ad_ID s \<notin> set seen" "seen' = ad_ID s # seen" "set (ad_CriterionIDs s) \<subseteq> set criteria" "ad_CriterionIDs s \<noteq> []"
    "covered' = ad_CriterionIDs s @ covered"
  using assms
  by (auto simp: admitShortPlanStep_def admit_kind_def normalizePlanCriterionIDs_def plan_step_ok_def Let_def plan_kinds
      dest!: normalize_ids_result split: if_splits option.splits)

lemma admit_steps_result:
  assumes "admit_steps g i n catalog allowed criteria seen covered proposed = Inr (steps, all)"
  shows "length steps = length proposed \<and> distinct (map ad_ID steps) \<and> (\<forall>s\<in>set steps. ad_ID s \<notin> set seen \<and> set (ad_CriterionIDs s) \<subseteq> set criteria \<and> ad_CriterionIDs s \<noteq> [])
    \<and> set all = set covered \<union> (\<Union>s\<in>set steps. set (ad_CriterionIDs s)) \<and> (\<forall>k<length steps. plan_step_ok catalog allowed n (i + k) (steps ! k))"
  using assms
proof (induction proposed arbitrary: i seen covered steps)
  case (Cons p proposed)
  then obtain s seen' covered' rest where s: "admitShortPlanStep g p i n catalog allowed criteria seen covered = Inr (s, seen', covered')"
    and r: "admit_steps g (Suc i) n catalog allowed criteria seen' covered' proposed = Inr (rest, all)" and [simp]: "steps = s # rest" by auto
  have "plan_step_ok catalog allowed n (i + k) (steps ! k)" if "k < length steps" for k
    using that Cons.IH [OF r] admit_step_result(1) [OF s] by (cases k) auto
  then show ?case using Cons.IH [OF r] admit_step_result(2-6) [OF s] by auto
qed auto

lemma add_tools_member:
  "add_tools quote tools catalog = Inr c \<Longrightarrow> map_of c name = Some d \<Longrightarrow> map_of catalog name = Some d \<or> (\<exists>t\<in>set tools. name = trim_space (td_Name t) \<and> d = t\<lparr>td_Name := name\<rparr>)"
proof (induction tools arbitrary: catalog)
  case (Cons t tools)
  then show ?case by (fastforce simp: Let_def map_of_append split: if_splits dest!: Cons.IH)
qed simp

lemma buildToolCatalog_member: "buildToolCatalog quote tools = Inr c \<Longrightarrow> map_of c name = Some d \<Longrightarrow> \<exists>t\<in>set tools. name = trim_space (td_Name t) \<and> d = t\<lparr>td_Name := name\<rparr>"
  using add_tools_member [of quote tools "[]"] by (simp add: buildToolCatalog_def)

lemma check_proposal_None:
  assumes "check_proposal p e request proposal = None"
  shows "pp_Steps proposal \<noteq> []" "length (pp_Steps proposal) \<le> 3" "0 \<le> sr_CompletedSteps request"
    "sr_CompletedSteps request + int (length (pp_Steps proposal)) \<le> effective_max_steps (sr_Budget request)" "effective_max_steps (sr_Budget request) \<le> MaxAllowedSteps"
proof -
  have "sr_CompletedSteps request + int (length (pp_Steps proposal)) \<le> effective_max_steps (sr_Budget request) \<and> effective_max_steps (sr_Budget request) \<le> MaxAllowedSteps
    \<and> 0 \<le> sr_CompletedSteps request \<and> int (length (pp_Steps proposal)) \<noteq> 0 \<and> int (length (pp_Steps proposal)) \<le> MaxShortPlanSteps"
    using assms by (auto simp: check_proposal_def Let_def split: option.splits if_splits)
  then show "pp_Steps proposal \<noteq> []" "length (pp_Steps proposal) \<le> 3" "0 \<le> sr_CompletedSteps request"
    "sr_CompletedSteps request + int (length (pp_Steps proposal)) \<le> effective_max_steps (sr_Budget request)" "effective_max_steps (sr_Budget request) \<le> MaxAllowedSteps"
    by (simp_all add: MaxShortPlanSteps_def)
qed

text \<open>The criteria a plan has to address: the requested ones, or all required ones.\<close>

definition plan_targets :: "ShortPlanRequest \<Rightarrow> string set" where
  "plan_targets request = trim_space ` (if sr_TargetCriterionIDs request = [] then cr_ID ` {c \<in> set (tk_CompletionCriteria (sr_Task request)). cr_Required c}
     else set (sr_TargetCriterionIDs request))"

lemma planningCriteria_result:
  assumes "planningCriteria g task requested = Inr (targets, catalog)"
  shows "set targets = trim_space ` (if requested = [] then cr_ID ` {c \<in> set (tk_CompletionCriteria task). cr_Required c} else set requested)"
    "catalog = map (\<lambda>c. trim_space (cr_ID c)) (tk_CompletionCriteria task)"
  using assms by (auto simp: planningCriteria_def Let_def image_iff dest!: normalize_ids_result split: if_splits)

text \<open>A step that is within the request: a governed tool, or a question or an answer at the end.\<close>

definition governed_step :: "ShortPlanRequest \<Rightarrow> nat \<Rightarrow> nat \<Rightarrow> AdmittedShortPlanStep \<Rightarrow> bool" where
  "governed_step request n i s \<longleftrightarrow>
     (if ad_Kind s = ShortPlanStepTool
      then ad_ToolName s \<in> trim_space ` set (tk_AllowedTools (sr_Task request))
        \<and> (\<exists>t\<in>set (sr_AvailableTools request). trim_space (td_Name t) = ad_ToolName s \<and> td_Category t = ad_ToolCategory s \<and> tool_ApprovalRequired t = ad_ApprovalRequired s)
      else ad_Kind s \<in> {ShortPlanStepAskHuman, ShortPlanStepRespond} \<and> ad_ToolName s = [] \<and> Suc i = n)"

text \<open>
  C12. An admitted plan is within everything the request allows, whatever the model proposed: it has one to three steps and
  fits in the steps left; every tool it names is allowed by the task and one of the available tools, with the category
  and the need for approval of that tool; a question or an answer is its last step; every criterion it names is the
  task's, and every target is addressed; and its digest is that of its content.
\<close>
theorem Admit_sound:
  assumes "Admit p ctxErr request proposal = Inr plan"
  shows "al_Steps plan \<noteq> [] \<and> length (al_Steps plan) \<le> 3 \<and> sr_CompletedSteps request + int (length (al_Steps plan)) \<le> effective_max_steps (sr_Budget request)
    \<and> distinct (map ad_ID (al_Steps plan))
    \<and> (\<forall>i<length (al_Steps plan). governed_step request (length (al_Steps plan)) i (al_Steps plan ! i))
    \<and> (\<Union>s\<in>set (al_Steps plan). set (ad_CriterionIDs s)) \<subseteq> (\<lambda>c. trim_space (cr_ID c)) ` set (tk_CompletionCriteria (sr_Task request))
    \<and> plan_targets request \<subseteq> (\<Union>s\<in>set (al_Steps plan). set (ad_CriterionIDs s))
    \<and> shortPlanDigest p plan = Inr (al_Digest plan)"
proof -
  obtain catalog targets criteria steps covered digest
    where check: "check_proposal p ctxErr request proposal = None"
      and catalog: "buildToolCatalog (ge_quote (pe_goal p)) (sr_AvailableTools request) = Inr catalog"
      and criteria: "planningCriteria (pe_goal p) (sr_Task request) (sr_TargetCriterionIDs request) = Inr (targets, criteria)"
      and steps: "admit_steps (pe_goal p) 0 (length (pp_Steps proposal)) catalog (map trim_space (tk_AllowedTools (sr_Task request))) criteria [] [] (pp_Steps proposal) = Inr (steps, covered)"
      and covered: "List.find (\<lambda>c. c \<notin> set covered) targets = None"
      and digest: "shortPlanDigest p \<lparr>al_Version = ShortPlanVersionV1, al_Steps = steps, al_Digest = []\<rparr> = Inr digest"
      and plan: "plan = \<lparr>al_Version = ShortPlanVersionV1, al_Steps = steps, al_Digest = digest\<rparr>"
    using assms by (auto simp: Admit_def Let_def split: option.splits)
  note admitted = admit_steps_result [OF steps]
  have tool: "\<exists>t\<in>set (sr_AvailableTools request). trim_space (td_Name t) = name \<and> td_Category t = td_Category d \<and> tool_ApprovalRequired t = tool_ApprovalRequired d"
    if "map_of catalog name = Some d" for name d
    using buildToolCatalog_member [OF catalog that] by (auto simp: tool_ApprovalRequired_def)
  have "governed_step request (length steps) i (steps ! i)" if "i < length steps" for i
  proof -
    have "plan_step_ok catalog (map trim_space (tk_AllowedTools (sr_Task request))) (length steps) i (steps ! i)" using that admitted by simp
    then show ?thesis using tool [of "ad_ToolName (steps ! i)"] by (auto simp: plan_step_ok_def governed_step_def split: if_splits)
  qed
  moreover have "shortPlanDigest p plan = Inr digest" using digest by (simp add: shortPlanDigest_def plan)
  moreover have "plan_targets request \<subseteq> set covered" using covered planningCriteria_result(1) [OF criteria] by (auto simp: plan_targets_def find_None_iff)
  ultimately show ?thesis using check_proposal_None [OF check] admitted planningCriteria_result(2) [OF criteria] by (auto simp: plan)
qed

theorem Admit_sound_witness:
  "\<exists>plan. Admit plan_demo_env None plan_demo_plan_request plan_demo_proposal = Inr plan \<and> length (al_Steps plan) = 3 \<and> shortPlanDigest plan_demo_env plan = Inr (al_Digest plan)"
proof -
  have "Admit plan_demo_env None plan_demo_plan_request plan_demo_proposal = Inr (projr (Admit plan_demo_env None plan_demo_plan_request plan_demo_proposal))"
    "length (al_Steps (projr (Admit plan_demo_env None plan_demo_plan_request plan_demo_proposal))) = 3" by code_simp+
  with Admit_sound [OF this(1)] show ?thesis by blast
qed

section \<open>Coordination\<close>

lemma coordinate_round_calls:
  assumes "coordinate_round planner policy n request current result w = (x, w')"
  shows "case x of Inl (r, err) \<Rightarrow> pg_PlanningCalls r = pg_PlanningCalls result + 1 \<and> pg_AdmissionRepairs r = pg_AdmissionRepairs result
      \<and> (err = None \<longrightarrow> (\<exists>proposal v v'. policy request proposal v = (Inr (pg_Plan r), v')))
    | Inr (q, r) \<Rightarrow> pg_PlanningCalls r = pg_PlanningCalls result + 1 \<and> pg_AdmissionRepairs r = pg_AdmissionRepairs result + 1 \<and> pg_AdmissionRepairs result < n"
  using assms by (auto simp: coordinate_round_def count_plan_def Let_def split: prod.splits option.splits sum.splits if_splits) blast+

lemma coordinate_loop_calls:
  assumes "coordinate_loop planner policy n request current result w = ((r, err), w')" "pg_PlanningCalls result = pg_AdmissionRepairs result" "pg_AdmissionRepairs result \<le> n"
  shows "pg_PlanningCalls r = pg_AdmissionRepairs r + 1 \<and> pg_AdmissionRepairs r \<le> n \<and> (err = None \<longrightarrow> (\<exists>proposal v v'. policy request proposal v = (Inr (pg_Plan r), v')))"
  using assms
proof (induction planner policy n request current result w rule: coordinate_loop.induct)
  case (1 planner policy n request current result w)
  obtain x w1 where x: "coordinate_round planner policy n request current result w = (x, w1)" by fastforce
  show ?case
  proof (cases x)
    case (Inl out)
    then show ?thesis using "1.prems" x coordinate_round_calls [OF x] by (auto simp: coordinate_loop.simps [of planner policy n request current])
  next
    case (Inr y)
    then obtain q r' where y: "y = (q, r')" by fastforce
    then have "coordinate_loop planner policy n request q r' w1 = ((r, err), w')" using "1.prems"(1) x Inr by (simp add: coordinate_loop.simps [of planner policy n request current])
    from "1.IH" [OF x [symmetric] Inr y [symmetric] this] show ?thesis using coordinate_round_calls [OF x] Inr y "1.prems"(2,3) by simp
  qed
qed

text \<open>
  A coordinator as the constructor makes it calls the planner at most twice and repairs at most one proposal, and the
  plan it returns was admitted by its policy for the request as it came, not for the one with the reduced budget and the
  feedback that the planner saw.
\<close>
theorem Coordinate_admits:
  assumes "NewPlanningCoordinator (Some planner) (Some (DeterministicShortPlanPolicy p ctx_err)) (map (\<lambda>limit. Some (WithShortPlanAdmissionRepairs limit)) limits) = Inr c"
    and "Coordinate (Some c) ctx request w = ((r, err), w')"
  shows "pg_PlanningCalls r \<le> 2 \<and> pg_AdmissionRepairs r \<le> 1 \<and> (err = None \<longrightarrow> (\<exists>proposal e. Admit p e request proposal = Inr (pg_Plan r)))"
proof -
  have option_fields: "pc_planner (fold (\<lambda>option c. case option of None \<Rightarrow> c | Some f \<Rightarrow> f c) (map (\<lambda>limit. Some (WithShortPlanAdmissionRepairs limit)) limits) c0) = pc_planner c0
    \<and> pc_policy (fold (\<lambda>option c. case option of None \<Rightarrow> c | Some f \<Rightarrow> f c) (map (\<lambda>limit. Some (WithShortPlanAdmissionRepairs limit)) limits) c0) = pc_policy c0" for c0 :: "'a PlanningCoordinator"
    by (induction limits arbitrary: c0) (auto simp: WithShortPlanAdmissionRepairs_def)
  then have c: "pc_planner c = Some planner" "pc_policy c = Some (DeterministicShortPlanPolicy p ctx_err)" "0 \<le> pc_maxAdmissionRepairs c" "pc_maxAdmissionRepairs c \<le> 1"
    using assms(1) by (auto simp: NewPlanningCoordinator_def maximumShortPlanAdmissionRepairs_def Let_def split: if_splits)
  consider "r = zero_planning" "err \<noteq> None"
    | "coordinate_loop planner (DeterministicShortPlanPolicy p ctx_err) (pc_maxAdmissionRepairs c) request request zero_planning w = ((r, err), w')"
    using assms(2) c(1,2) by (auto simp: Coordinate_def bind_option2_def Let_def split: option.splits if_splits sum.splits)
  then show ?thesis
  proof cases
    case 2
    then show ?thesis using coordinate_loop_calls [OF 2] c(3,4) by (fastforce simp: zero_planning_def DeterministicShortPlanPolicy_def)
  qed (auto simp: zero_planning_def)
qed

theorem Coordinate_admits_witness:
  "pg_PlanningCalls (fst (fst (Coordinate (Some plan_demo_coordinator) (Some (\<lambda>w. None)) plan_demo_plan_request (start react_demo_tracker)))) \<le> 2
   \<and> snd (fst (Coordinate (Some plan_demo_coordinator) (Some (\<lambda>w. None)) plan_demo_plan_request (start react_demo_tracker))) = None"
proof
  obtain r err w' where r: "Coordinate (Some plan_demo_coordinator) (Some (\<lambda>w. None)) plan_demo_plan_request (start react_demo_tracker) = ((r, err), w')" by (metis prod.exhaust)
  have "NewPlanningCoordinator (Some plan_demo_planner) (Some (DeterministicShortPlanPolicy plan_demo_env (\<lambda>w. None))) (map (\<lambda>limit. Some (WithShortPlanAdmissionRepairs limit)) [1]) = Inr plan_demo_coordinator"
    by (simp add: NewPlanningCoordinator_def WithShortPlanAdmissionRepairs_def plan_demo_coordinator_def maximumShortPlanAdmissionRepairs_def)
  from Coordinate_admits [OF this r] r
  show "pg_PlanningCalls (fst (fst (Coordinate (Some plan_demo_coordinator) (Some (\<lambda>w. None)) plan_demo_plan_request (start react_demo_tracker)))) \<le> 2" by simp
  show "snd (fst (Coordinate (Some plan_demo_coordinator) (Some (\<lambda>w. None)) plan_demo_plan_request (start react_demo_tracker))) = None" by code_simp
qed

section \<open>Executions of a plan\<close>

text \<open>Some of the steps, in their order, observe the tools one by one.\<close>

definition carried_out :: "string list \<Rightarrow> RunStep list \<Rightarrow> bool" where
  "carried_out names steps \<longleftrightarrow> (\<exists>ts. subseq ts steps \<and> list_all2 observed names ts)"

lemma carried_out_Nil [simp]: "carried_out [] steps"
  by (auto simp: carried_out_def)

lemma carried_out_Cons: "carried_out (name # names) (s # steps) = (if observed name s then carried_out names steps else carried_out (name # names) steps)"
proof (cases "observed name s")
  case True
  have "carried_out names steps" if sub: "subseq ts (s # steps)" and all: "list_all2 observed (name # names) ts" for ts
  proof -
    obtain t us where ts: "ts = t # us" "list_all2 observed names us" using all by (cases ts) auto
    then have "subseq us steps" using sub by (auto split: if_splits dest: subseq_Cons')
    then show ?thesis using ts(2) by (auto simp: carried_out_def)
  qed
  moreover have "\<exists>ts. subseq ts (s # steps) \<and> list_all2 observed (name # names) ts" if "subseq us steps" "list_all2 observed names us" for us
    using True that by (intro exI [of _ "s # us"]) simp
  ultimately show ?thesis using True by (auto simp: carried_out_def)
next
  case False
  have "subseq ts steps" if "subseq ts (s # steps)" "list_all2 observed (name # names) ts" for ts
    using that False by (cases ts) (auto split: if_splits)
  then show ?thesis using False by (auto simp: carried_out_def)
qed

lemma carried_out_greedy:
  "carried_out (name # names) steps \<longleftrightarrow> (case dropWhile (\<lambda>s. \<not> observed name s) steps of [] \<Rightarrow> False | s # rest \<Rightarrow> carried_out names rest)"
proof (induction steps)
  case Nil
  show ?case by (auto simp: carried_out_def dest: list_emb_Nil2)
qed (auto simp: carried_out_Cons)

lemma plan_execution:
  assumes "gs_Status r \<noteq> GoalRunSuspended"
  shows "validateAdmittedPlanExecution plan r = None \<longleftrightarrow>
    carried_out (map ad_ToolName (filter (\<lambda>s. ad_Kind s = ShortPlanStepTool) (al_Steps plan))) (rs_Steps (gs_Run r))
    \<and> ShortPlanStepAskHuman \<notin> ad_Kind ` set (al_Steps plan)
    \<and> (ShortPlanStepRespond \<in> ad_Kind ` set (al_Steps plan) \<longrightarrow> rs_Status (gs_Run r) = RunStatusCompleted)"
proof -
  have "validate_from r i steps rest = None \<longleftrightarrow> carried_out (map ad_ToolName (filter (\<lambda>s. ad_Kind s = ShortPlanStepTool) steps)) rest
    \<and> ShortPlanStepAskHuman \<notin> ad_Kind ` set steps \<and> (ShortPlanStepRespond \<in> ad_Kind ` set steps \<longrightarrow> rs_Status (gs_Run r) = RunStatusCompleted)" for i steps rest
  proof (induction steps arbitrary: i rest)
    case (Cons s steps)
    have n: "\<not> approval_pending s r" "\<not> admittedToolContinuationSuspended s r" using assms by (auto simp: approval_pending_def admittedToolContinuationSuspended_def split: option.splits)
    show ?case
    proof (cases "ad_Kind s = ShortPlanStepTool")
      case True
      then have "validate_from r i (s # steps) rest = None \<longleftrightarrow> (case dropWhile (\<lambda>t. \<not> observed (ad_ToolName s) t) rest of [] \<Rightarrow> False | t # ts \<Rightarrow> validate_from r (Suc i) steps ts = None)"
        using n by (cases "dropWhile (\<lambda>t. \<not> observed (ad_ToolName s) t) rest") (simp_all del: dropWhile_eq_Nil_conv)
      also have "\<dots> \<longleftrightarrow> carried_out (ad_ToolName s # map ad_ToolName (filter (\<lambda>s. ad_Kind s = ShortPlanStepTool) steps)) rest
        \<and> ShortPlanStepAskHuman \<notin> ad_Kind ` set steps \<and> (ShortPlanStepRespond \<in> ad_Kind ` set steps \<longrightarrow> rs_Status (gs_Run r) = RunStatusCompleted)"
        unfolding carried_out_greedy Cons.IH by (cases "dropWhile (\<lambda>t. \<not> observed (ad_ToolName s) t) rest") (simp_all del: dropWhile_eq_Nil_conv)
      finally show ?thesis using True by (simp add: plan_kinds)
    next
      case False
      then show ?thesis using assms Cons.IH by (auto simp: plan_kinds)
    qed
  qed simp
  then show ?thesis by (simp add: validateAdmittedPlanExecution_def)
qed

text \<open>
  C14. The check of an execution that is not suspended is exactly this: the tools of the plan, in order, have successful
  observations in steps of the run that follow one another, each in a step of its own; a plan with a question is
  refused, and one with an answer needs a completed run.
\<close>
theorem plan_execution_iff:
  assumes "gs_Status r \<noteq> GoalRunSuspended"
  shows "validateAdmittedPlanExecution plan r = None \<longleftrightarrow>
    carried_out (map ad_ToolName (filter (\<lambda>s. ad_Kind s = ShortPlanStepTool) (al_Steps plan))) (rs_Steps (gs_Run r))
    \<and> ShortPlanStepAskHuman \<notin> ad_Kind ` set (al_Steps plan)
    \<and> (ShortPlanStepRespond \<in> ad_Kind ` set (al_Steps plan) \<longrightarrow> rs_Status (gs_Run r) = RunStatusCompleted)"
  using assms by (rule plan_execution)

theorem plan_execution_iff_witness:
  "carried_out [''look'', ''ask''] (rs_Steps (gs_Run (pv_Verified (fst (fst (plan_demo_run plan_demo_one_by_one))))))"
proof -
  let ?r = "pv_Verified (fst (fst (plan_demo_run plan_demo_one_by_one)))" and ?plan = "pg_Plan (pv_Planning (fst (fst (plan_demo_run plan_demo_one_by_one))))"
  have "gs_Status ?r \<noteq> GoalRunSuspended" "validateAdmittedPlanExecution ?plan ?r = None"
    "map ad_ToolName (filter (\<lambda>s. ad_Kind s = ShortPlanStepTool) (al_Steps ?plan)) = [''look'', ''ask'']" by code_simp+
  then show ?thesis using plan_execution_iff [of ?r ?plan] by simp
qed

text \<open>
  A plan of several tools is refused when the model calls them together: an execution with fewer steps that observe
  anything than the plan has tools is not accepted, even if every tool succeeded, in order, and the goal was verified.
\<close>
theorem tools_called_together_are_refused:
  assumes "gs_Status r \<noteq> GoalRunSuspended"
    and "length (filter (\<lambda>s. list_ex (\<lambda>b. \<not> ob_IsError b) (st_Observations s)) (rs_Steps (gs_Run r))) < length (filter (\<lambda>s. ad_Kind s = ShortPlanStepTool) (al_Steps plan))"
  shows "validateAdmittedPlanExecution plan r \<noteq> None"
proof
  let ?names = "map ad_ToolName (filter (\<lambda>s. ad_Kind s = ShortPlanStepTool) (al_Steps plan))"
  assume "validateAdmittedPlanExecution plan r = None"
  then have "carried_out ?names (rs_Steps (gs_Run r))" using plan_execution [OF assms(1)] by blast
  then obtain ts where ts: "subseq ts (rs_Steps (gs_Run r))" "list_all2 observed ?names ts" by (auto simp: carried_out_def)
  have "filter (\<lambda>s. list_ex (\<lambda>b. \<not> ob_IsError b) (st_Observations s)) ts = ts"
    using ts(2) by (auto simp: filter_id_conv observed_def list_ex_iff list_all2_conv_all_nth in_set_conv_nth) blast
  moreover have "subseq (filter (\<lambda>s. list_ex (\<lambda>b. \<not> ob_IsError b) (st_Observations s)) ts) (filter (\<lambda>s. list_ex (\<lambda>b. \<not> ob_IsError b) (st_Observations s)) (rs_Steps (gs_Run r)))"
    using ts(1) by (rule subseq_filter)
  ultimately have "length ts \<le> length (filter (\<lambda>s. list_ex (\<lambda>b. \<not> ob_IsError b) (st_Observations s)) (rs_Steps (gs_Run r)))"
    by (metis list_emb_length)
  then show False using assms(2) list_all2_lengthD [OF ts(2)] by simp
qed

theorem tools_called_together_are_refused_witness:
  "gs_Status (pv_Verified (fst (fst (plan_demo_run plan_demo_together)))) = GoalRunVerified
   \<and> validateAdmittedPlanExecution (pg_Plan (pv_Planning (fst (fst (plan_demo_run plan_demo_together))))) (pv_Verified (fst (fst (plan_demo_run plan_demo_together)))) \<noteq> None
   \<and> snd (fst (plan_demo_run plan_demo_together)) \<noteq> None"
proof (intro conjI)
  let ?r = "pv_Verified (fst (fst (plan_demo_run plan_demo_together)))" and ?plan = "pg_Plan (pv_Planning (fst (fst (plan_demo_run plan_demo_together))))"
  show s: "gs_Status ?r = GoalRunVerified" by code_simp
  have "length (filter (\<lambda>s. list_ex (\<lambda>b. \<not> ob_IsError b) (st_Observations s)) (rs_Steps (gs_Run ?r))) < length (filter (\<lambda>s. ad_Kind s = ShortPlanStepTool) (al_Steps ?plan))" by code_simp
  then show "validateAdmittedPlanExecution ?plan ?r \<noteq> None" using tools_called_together_are_refused [of ?r ?plan] s by (simp add: goal_statuses)
  show "snd (fst (plan_demo_run plan_demo_together)) \<noteq> None" by code_simp
qed

section \<open>What a goal keeps of its world\<close>

text \<open>
  A property of the world that the parts of a verified run keep, and that counts repairs: a repair that was built takes it
  from one number to the next.
\<close>

locale goal_world =
  fixes v :: "'w verified_runner" and request :: "'w VerifiedRunRequest" and build :: "'w repair_builder" and inv :: "int \<Rightarrow> 'w \<Rightarrow> bool"
  assumes run_keeps: "vr_Run v = Some run \<Longrightarrow> run q w = (out, w') \<Longrightarrow> inv a w \<Longrightarrow> inv a w'"
    and verify_keeps: "vr_Verify v = Some verify \<Longrightarrow> verify vq w = (vx, w') \<Longrightarrow> inv a w \<Longrightarrow> inv a w'"
    and suspension_keeps: "vr_VerifySuspension v = Some verify \<Longrightarrow> verify vq w = (vx, w') \<Longrightarrow> inv a w \<Longrightarrow> inv a w'"
    and collect_keeps: "vr_Collect v = Some collect \<Longrightarrow> collect cq w = (cx, w') \<Longrightarrow> inv a w \<Longrightarrow> inv a w'"
    and tools_keep: "gr_Environment request = Some e \<Longrightarrow> nv_Tools e task w = (tx, w') \<Longrightarrow> inv a w \<Longrightarrow> inv a w'"
    and snapshot_keeps: "gr_Environment request = Some e \<Longrightarrow> nv_Snapshot e sq w = (sx, w') \<Longrightarrow> inv a w \<Longrightarrow> inv a w'"
    and builder: "gr_RepairBuilder request = Some build"
    and refusal_keeps: "build bq w = (Inl err, w') \<Longrightarrow> inv a w \<Longrightarrow> inv a w'"
    and repair_counts: "build bq w = (Inr q, w') \<Longrightarrow> inv a w \<Longrightarrow> inv (a + 1) w'"
begin

lemma take_snapshot_keeps: "take_snapshot task phase (gr_Environment request) w = (x, w') \<Longrightarrow> inv a w \<Longrightarrow> inv a w'"
  by (auto simp: take_snapshot_def split: option.splits prod.splits sum.splits dest: snapshot_keeps)

lemma observe_keeps:
  assumes "observe_run v b task (gr_Environment request) run k result w = (err, result1, w')" "inv a w"
  shows "inv a w'"
proof -
  obtain x w1 where t: "take_snapshot task SnapshotPhaseAfter (gr_Environment request) w = (x, w1)" by fastforce
  then have "inv a w1" using assms(2) by (rule take_snapshot_keeps)
  then show ?thesis using assms(1) t by (auto simp: observe_run_def Let_def split: sum.splits option.splits prod.splits dest: collect_keeps)
qed

lemma suspended_keeps:
  assumes "suspended_attempt v request k run result w = (out, w')" "inv a w"
  shows "inv a w'"
proof -
  obtain err r1 w1 where o: "observe_run v True (gr_Task request) (gr_Environment request) run k result w = (err, r1, w1)" by (metis prod.exhaust)
  then have "inv a w1" using assms(2) by (rule observe_keeps)
  then show ?thesis using assms(1) o by (auto simp: suspended_attempt_def Let_def split: option.splits prod.splits sum.splits if_splits dest: suspension_keeps)
qed

lemma built_keeps:
  assumes "built_repair g build base repair result w = (x, w')" "inv a w"
  shows "case x of Inl out \<Rightarrow> inv a w' \<or> inv (a + 1) w' | Inr y \<Rightarrow> inv (a + 1) w'"
  using assms by (auto simp: built_repair_def split: prod.splits sum.splits option.splits dest: refusal_keeps repair_counts)

lemma completed_keeps:
  assumes "completed_attempt v verify request k run result w = (x, w')" "vr_Verify v = Some verify" "inv a w"
  shows "case x of Inl out \<Rightarrow> inv a w' \<or> inv (a + 1) w' | Inr y \<Rightarrow> inv (a + 1) w'"
proof -
  obtain err r1 w1 where o: "observe_run v False (gr_Task request) (gr_Environment request) run k result w = (err, r1, w1)" by (metis prod.exhaust)
  then have w1: "inv a w1" using assms(3) by (rule observe_keeps)
  obtain y w2 where y: "verify (verification_request (gr_Task request) (gr_Environment request) r1) w1 = (y, w2)" by fastforce
  then have w2: "inv a w2" by (rule verify_keeps [OF assms(2) _ w1])
  consider out where "x = Inl out" "w' = w1 \<or> w' = w2" | repair r2 where "built_repair (vr_goal v) build (gr_Run request) repair r2 w2 = (x, w')"
    using assms(1) o y builder by (auto simp: completed_attempt_def Let_def split: option.splits sum.splits if_splits)
  then show ?thesis
  proof cases
    case 2
    then show ?thesis by (rule built_keeps [OF _ w2])
  qed (use w1 w2 in auto)
qed

lemma failed_keeps:
  assumes "failed_attempt g request k err result w = (x, w')" "inv a w"
  shows "case x of Inl out \<Rightarrow> inv a w' \<or> inv (a + 1) w' | Inr y \<Rightarrow> inv (a + 1) w'"
proof -
  consider out where "x = Inl out" "w' = w" | repair r1 where "built_repair g build (gr_Run request) repair r1 w = (x, w')"
    using assms(1) builder by (auto simp: failed_attempt_def split: option.splits prod.splits if_splits)
  then show ?thesis
  proof cases
    case 2
    then show ?thesis by (rule built_keeps [OF _ assms(2)])
  qed (use assms(2) in auto)
qed

lemma attempt_keeps:
  assumes g: "goal_attempt v run verify request k q result w = (x, w')" and v: "vr_Run v = Some run" "vr_Verify v = Some verify" and a: "inv a w"
  shows "case x of Inl out \<Rightarrow> inv a w' \<or> inv (a + 1) w' | Inr y \<Rightarrow> inv (a + 1) w'"
proof -
  obtain ar runErr w1 where ar: "run q w = ((ar, runErr), w1)" by (metis prod.exhaust)
  then have w1: "inv a w1" by (rule run_keeps [OF v(1) _ a])
  let ?r = "result\<lparr>gs_Run := mergeGoalRunResults (gs_Run result) ar (rr_Context (gr_Run request)), gs_RepairAttempts := k\<rparr>"
  consider err where "failed_attempt (vr_goal v) request k err ?r w1 = (x, w')"
    | out where "suspended_attempt v request k ar ?r w1 = (out, w')" "x = Inl out"
    | "completed_attempt v verify request k ar ?r w1 = (x, w')"
    using g ar by (auto simp: goal_attempt_def Let_def split: option.splits if_splits prod.splits)
  then show ?thesis
  proof cases
    case 1
    then show ?thesis by (rule failed_keeps [OF _ w1])
  next
    case 2
    then show ?thesis using suspended_keeps [OF 2(1) w1] by simp
  next
    case 3
    then show ?thesis by (rule completed_keeps [OF _ v(2) w1])
  qed
qed

lemma loop_keeps:
  assumes "goal_loop v run verify request a q result w = ((r, err), w')" "vr_Run v = Some run" "vr_Verify v = Some verify" "inv a w"
  shows "inv (gs_RepairAttempts r) w' \<or> inv (gs_RepairAttempts r + 1) w'"
  using assms
proof (induction "nat (tk_MaxRepairAttempts (gr_Task request) - a)" arbitrary: a q result w rule: less_induct)
  case less
  obtain x w1 where g: "goal_attempt v run verify request a q result w = (x, w1)" by fastforce
  note k = attempt_keeps [OF g less.prems(2-4)]
  obtain ar runErr w2 where ar: "run q w = ((ar, runErr), w2)" by (metis prod.exhaust)
  show ?case
  proof (cases x)
    case (Inl out)
    then show ?thesis using less.prems(1) g k goal_attempt_result [OF g ar refl] by (auto simp: goal_loop.simps)
  next
    case (Inr y)
    then obtain q' r' where y: "x = Inr (q', r')" by (cases y) auto
    have "a < tk_MaxRepairAttempts (gr_Task request)" using goal_attempt_repairs [OF g [unfolded y]] .
    moreover have "goal_loop v run verify request (a + 1) q' r' w1 = ((r, err), w')" using less.prems(1) g y by (simp add: goal_loop.simps)
    ultimately show ?thesis using less.hyps [of "a + 1" q' r' w1] less.prems(2,3) k y by simp
  qed
qed

end

section \<open>Recoveries\<close>

definition recoveries :: "int \<Rightarrow> 'w \<times> repair_state \<Rightarrow> bool" where
  "recoveries a ws \<longleftrightarrow> a \<le> ry_used (snd ws) \<and> 0 \<le> ry_used (snd ws) \<and> ry_used (snd ws) \<le> maximumExecutionPlanRecoveries \<and> int (length (ry_recoveryPlans (snd ws))) \<le> ry_used (snd ws)"

lemma lift_call_snd: "lift_call f x ws = (y, ws') \<Longrightarrow> snd ws' = snd ws"
  by (auto simp: lift_call_def split: prod.splits)

lemma lift_call_recoveries: "lift_call f x ws = (y, ws') \<Longrightarrow> recoveries a ws \<Longrightarrow> recoveries a ws'"
  by (simp add: recoveries_def lift_call_snd)

lemma BuildRepair_recoveries:
  assumes "BuildRepair b request ws = (x, ws')" "recoveries a ws"
  shows "case x of Inl err \<Rightarrow> recoveries a ws' | Inr q \<Rightarrow> recoveries (a + 1) ws'"
proof -
  obtain w st where ws: "ws = (w, st)" by fastforce
  consider err where "x = Inl err" "ws' = ws"
    | "ry_used st < maximumExecutionPlanRecoveries" "ry_used (snd ws') = ry_used st + 1"
      "length (ry_recoveryPlans (snd ws')) \<le> length (ry_recoveryPlans st) + 1"
    using assms(1) by (auto simp: BuildRepair_def ws Let_def split: if_splits sum.splits prod.splits option.splits)
  then show ?thesis using assms(2) by cases (auto simp: recoveries_def ws split: sum.splits)
qed

interpretation planned: goal_world "lift_runner v" "with_builder q (BuildRepair b)" "BuildRepair b" recoveries for v q b
proof
  show "recoveries a w'" if "BuildRepair b bq w = (Inl err, w')" "recoveries a w" for bq w err w' a
    using BuildRepair_recoveries [OF that] by simp
  show "recoveries (a + 1) w'" if "BuildRepair b bq w = (Inr c, w')" "recoveries a w" for bq w c w' a
    using BuildRepair_recoveries [OF that] by simp
qed (auto simp: lift_runner_def with_builder_def lift_environment_def intro: lift_call_recoveries)

lemma with_builder_run: "(with_builder q build)\<lparr>gr_Run := run\<rparr> = with_builder (q\<lparr>gr_Run := run\<rparr>) build"
  by (simp add: with_builder_def)

lemma with_builder_fields [simp]: "gr_Run (with_builder q build) = gr_Run q" "gr_Task (with_builder q build) = gr_Task q" "gr_Evidence (with_builder q build) = gr_Evidence q"
  by (simp_all add: with_builder_def)

lemma with_builder_environment: "gr_Environment (with_builder (q\<lparr>gr_Run := run\<rparr>) build) = gr_Environment (with_builder q build)"
  by (simp add: with_builder_def)

lemma planned_tools_keep:
  assumes "resolveGoalTools task tools (gr_Environment (with_builder q (BuildRepair b))) w = (x, w')" "recoveries a w"
  shows "recoveries a w'"
  using assms by (auto simp: resolveGoalTools_def split: sum.splits option.splits if_splits prod.splits dest: planned.tools_keep)

lemma planned_goal_recoveries:
  assumes "VerifiedRunner_Run (lift_runner v) (with_builder q (BuildRepair b)) w = ((r, err), w')" "recoveries 0 w"
  shows "recoveries (gs_RepairAttempts r) w' \<or> recoveries (gs_RepairAttempts r + 1) w'"
proof -
  let ?request = "with_builder q (BuildRepair b)"
  let ?zero = "new_goal_result (gr_Evidence q) None 0"
  obtain x w1 where t: "resolveGoalTools (gr_Task q) (rr_Tools (gr_Run q)) (gr_Environment ?request) w = (x, w1)" by (metis prod.exhaust)
  then have w1: "recoveries 0 w1" using assms(2) by (rule planned_tools_keep)
  obtain y w2 where s: "take_snapshot (gr_Task q) SnapshotPhaseBefore (gr_Environment ?request) w1 = (y, w2)" by (metis prod.exhaust)
  then have w2: "recoveries 0 w2" using w1 by (rule planned.take_snapshot_keeps)
  consider "r = ?zero" "w' = w \<or> w' = w1 \<or> w' = w2"
    | run verify tools snapshot where "vr_Run (lift_runner v) = Some run" "vr_Verify (lift_runner v) = Some verify"
      "goal_loop (lift_runner v) run verify (with_builder (q\<lparr>gr_Run := (gr_Run q)\<lparr>rr_Tools := tools\<rparr>\<rparr>) (BuildRepair b)) 0 ((gr_Run q)\<lparr>rr_Tools := tools\<rparr>) (?zero\<lparr>gs_Before := snapshot\<rparr>) w2 = ((r, err), w')"
    using assms(1) t s by (auto simp: VerifiedRunner_Run_def with_builder_run with_builder_environment Let_def split: option.splits sum.splits prod.splits)
  then show ?thesis
  proof cases
    case 1
    then show ?thesis using assms(2) w1 w2 by (auto simp: new_goal_result_def)
  next
    case 2
    then show ?thesis by (intro planned.loop_keeps [OF 2(3,1,2) w2])
  qed
qed

text \<open>
  C15. A planned goal is planned again at most once: it makes at most one repair, and no more repairs than it counts
  recoveries, whatever number of repairs the task allows.
\<close>
theorem planned_goal_recovers_once:
  assumes "PlannedVerifiedRunner_Run runner ctx request w = ((r, err), w')"
  shows "gs_RepairAttempts (pv_Verified r) \<le> pv_RecoveryAttempts r \<and> pv_RecoveryAttempts r \<le> 1 \<and> int (length (pv_RecoveryPlans r)) \<le> pv_RecoveryAttempts r"
proof -
  consider "pv_Verified r = new_goal_result \<lparr>lg_Items = []\<rparr> None 0" "pv_RecoveryAttempts r = 0" "pv_RecoveryPlans r = []"
    | v b q result w1 where "execute_planned v b q result w1 = ((r, err), w')"
    using assms by (auto simp: PlannedVerifiedRunner_Run_def zero_planned_def Let_def split: option.splits if_splits sum.splits prod.splits)
  then show ?thesis
  proof cases
    case 2
    obtain goal e w2 st where g: "VerifiedRunner_Run (lift_runner v) (with_builder q (BuildRepair b)) (w1, \<lparr>ry_recoveryPlans = [], ry_lastReason = [], ry_used = 0\<rparr>) = ((goal, e), (w2, st))"
      by (metis prod.exhaust)
    have "recoveries (gs_RepairAttempts goal) (w2, st) \<or> recoveries (gs_RepairAttempts goal + 1) (w2, st)"
      by (rule planned_goal_recoveries [OF g]) (simp add: recoveries_def maximumExecutionPlanRecoveries_def)
    moreover have "pv_Verified r = goal" "pv_RecoveryAttempts r = ry_used st" "pv_RecoveryPlans r = ry_recoveryPlans st"
      using 2 g by (auto simp: execute_planned_def Let_def split: option.splits)
    ultimately show ?thesis by (auto simp: recoveries_def maximumExecutionPlanRecoveries_def)
  qed (simp add: new_goal_result_def)
qed

theorem planned_goal_recovers_once_witness:
  "pv_RecoveryAttempts (fst (fst (plan_demo_run goal_demo_answer))) \<le> 1 \<and> pv_RecoveryAttempts (fst (fst (plan_demo_run goal_demo_answer))) = int (length (pv_RecoveryPlans (fst (fst (plan_demo_run goal_demo_answer)))))
   \<and> pv_RecoveryPlans (fst (fst (plan_demo_run goal_demo_answer))) \<noteq> []"
proof (intro conjI)
  obtain r err w' where r: "plan_demo_run goal_demo_answer = ((r, err), w')" by (metis prod.exhaust)
  from planned_goal_recovers_once [OF r [unfolded plan_demo_run_def]] r
  show "pv_RecoveryAttempts (fst (fst (plan_demo_run goal_demo_answer))) \<le> 1" by simp
  show "pv_RecoveryAttempts (fst (fst (plan_demo_run goal_demo_answer))) = int (length (pv_RecoveryPlans (fst (fst (plan_demo_run goal_demo_answer)))))" by code_simp
  show "pv_RecoveryPlans (fst (fst (plan_demo_run goal_demo_answer))) \<noteq> []" by code_simp
qed

section \<open>Authority\<close>

text \<open>Every tool of a request is one of the given tools, with its category and its need for approval.\<close>

definition within_tools :: "ToolDefinition list \<Rightarrow> RunRequest \<Rightarrow> bool" where
  "within_tools tools q \<longleftrightarrow> (\<forall>t\<in>set (rr_Tools q). \<exists>u\<in>set tools. trim_space (td_Name t) = trim_space (td_Name u) \<and> td_Category t = td_Category u \<and> tool_ApprovalRequired t = tool_ApprovalRequired u)"

lemma tool_ApprovalRequired_renamed [simp]: "tool_ApprovalRequired (t\<lparr>td_Name := name\<rparr>) = tool_ApprovalRequired t"
  by (simp add: tool_ApprovalRequired_def)

lemma within_tools_self: "within_tools (rr_Tools q) q"
  by (auto simp: within_tools_def)

lemma within_tools_subset: "set tools \<subseteq> set tools' \<Longrightarrow> within_tools tools q \<Longrightarrow> within_tools tools' q"
  by (fastforce simp: within_tools_def)

lemma check_repair_tools_None:
  "check_repair_tools g catalog seen tools = None \<Longrightarrow> t \<in> set tools \<Longrightarrow> \<exists>d. map_of catalog (td_Name t) = Some d \<and> td_Category t = td_Category d \<and> tool_ApprovalRequired t = tool_ApprovalRequired d"
  by (induction tools arbitrary: seen) (auto split: option.splits if_splits)

lemma repairs_within:
  assumes "repairs g base previous q"
  shows "within_tools (rr_Tools base) q"
proof (cases "validateVerifiedRepairRequest g base previous q = None")
  case True
  then obtain catalog where c: "buildToolCatalog (ge_quote g) (rr_Tools base) = Inr catalog" "check_repair_tools g catalog [] (rr_Tools q) = None"
    by (auto simp: validateVerifiedRepairRequest_def validateRepairTools_def split: if_splits option.splits sum.splits)
  show ?thesis unfolding within_tools_def
  proof
    fix t assume "t \<in> set (rr_Tools q)"
    from check_repair_tools_None [OF c(2) this] obtain d where d: "map_of catalog (td_Name t) = Some d" "td_Category t = td_Category d" "tool_ApprovalRequired t = tool_ApprovalRequired d" by blast
    from buildToolCatalog_member [OF c(1) d(1)] obtain u where "u \<in> set (rr_Tools base)" "td_Name t = trim_space (td_Name u)" "d = u\<lparr>td_Name := td_Name t\<rparr>" by blast
    with d(2,3) show "\<exists>u\<in>set (rr_Tools base). trim_space (td_Name t) = trim_space (td_Name u) \<and> td_Category t = td_Category u \<and> tool_ApprovalRequired t = tool_ApprovalRequired u"
      by (intro bexI [of _ u]) auto
  qed
next
  case False
  then obtain verification where "buildGoalRepairRequest base previous verification = Inr q" using assms by (auto simp: repairs_def)
  then have "rr_Tools q = rr_Tools base" by (auto simp: buildGoalRepairRequest_def Let_def split: if_splits)
  then show ?thesis by (auto simp: within_tools_def)
qed

text \<open>Two runners that agree on the requests within the tools of a goal give it the same results.\<close>

lemma observe_run_vr_Run [simp]: "observe_run (v\<lparr>vr_Run := x\<rparr>) b task e run a r w = observe_run v b task e run a r w"
  by (simp add: observe_run_def Let_def split: prod.split sum.split option.split)

lemma goal_attempt_agrees:
  assumes "run q w = run' q w"
  shows "goal_attempt (v\<lparr>vr_Run := x\<rparr>) run' verify request a q r w = goal_attempt v run verify request a q r w"
proof -
  have "suspended_attempt (v\<lparr>vr_Run := x\<rparr>) request a ar s w = suspended_attempt v request a ar s w" for ar s w
    by (simp add: suspended_attempt_def Let_def split: prod.split sum.split option.split)
  moreover have "completed_attempt (v\<lparr>vr_Run := x\<rparr>) verify request a ar s w = completed_attempt v verify request a ar s w" for ar s w
    by (simp add: completed_attempt_def Let_def split: prod.split sum.split option.split)
  ultimately show ?thesis using assms by (simp add: goal_attempt_def Let_def split: prod.split option.split)
qed

lemma goal_loop_agrees:
  assumes "within_tools (rr_Tools (gr_Run request)) q" and agree: "\<And>q w. within_tools (rr_Tools (gr_Run request)) q \<Longrightarrow> run q w = run' q w"
  shows "goal_loop (v\<lparr>vr_Run := x\<rparr>) run' verify request a q r w = goal_loop v run verify request a q r w"
  using assms(1)
proof (induction "nat (tk_MaxRepairAttempts (gr_Task request) - a)" arbitrary: a q r w rule: less_induct)
  case less
  obtain y w1 where g: "goal_attempt v run verify request a q r w = (y, w1)" by fastforce
  have g': "goal_attempt (v\<lparr>vr_Run := x\<rparr>) run' verify request a q r w = (y, w1)" using goal_attempt_agrees [of run q w run', OF agree [OF less.prems]] g by simp
  show ?case
  proof (cases y)
    case (Inr z)
    then obtain q' r' where y: "y = Inr (q', r')" by (cases z) auto
    obtain ar runErr w2 where ar: "run q w = ((ar, runErr), w2)" by (metis prod.exhaust)
    have "a < tk_MaxRepairAttempts (gr_Task request)" using goal_attempt_repairs [OF g [unfolded y]] .
    moreover have "within_tools (rr_Tools (gr_Run request)) q'" using goal_attempt_result [OF g ar refl] y by (auto intro: repairs_within)
    ultimately show ?thesis using less.hyps [of "a + 1" q' r' w1] g g' y by (simp add: goal_loop.simps)
  qed (use g g' in \<open>simp add: goal_loop.simps\<close>)
qed

lemma goal_catalog_member: "goal_catalog missing duplicate tools catalog = Inr c \<Longrightarrow> (name, t) \<in> set c \<Longrightarrow> (name, t) \<in> set catalog \<or> t \<in> set tools"
  by (induction tools arbitrary: catalog) (fastforce simp: Let_def split: if_splits)+

lemma pick_tools_member: "pick_tools requested available names = Inr ts \<Longrightarrow> t \<in> set ts \<Longrightarrow> t \<in> snd ` set requested"
proof (induction names arbitrary: ts)
  case (Cons name names)
  then show ?case by (force split: option.splits if_splits dest: map_of_SomeD)
qed simp

lemma resolveGoalTools_subset: "resolveGoalTools task tools e w = (Inr ts, w') \<Longrightarrow> set ts \<subseteq> set tools"
  by (fastforce simp: resolveGoalTools_def split: sum.splits option.splits if_splits prod.splits dest: pick_tools_member goal_catalog_member)

lemma goal_run_agrees:
  assumes "vr_Run v = Some run" and agree: "\<And>q w. within_tools (rr_Tools (gr_Run request)) q \<Longrightarrow> run q w = run' q w"
  shows "VerifiedRunner_Run (v\<lparr>vr_Run := Some run'\<rparr>) request w = VerifiedRunner_Run v request w"
proof -
  have "goal_loop (v\<lparr>vr_Run := Some run'\<rparr>) run' verify (request\<lparr>gr_Run := (gr_Run request)\<lparr>rr_Tools := tools\<rparr>\<rparr>) 0 ((gr_Run request)\<lparr>rr_Tools := tools\<rparr>) r w2
      = goal_loop v run verify (request\<lparr>gr_Run := (gr_Run request)\<lparr>rr_Tools := tools\<rparr>\<rparr>) 0 ((gr_Run request)\<lparr>rr_Tools := tools\<rparr>) r w2"
    if "set tools \<subseteq> set (rr_Tools (gr_Run request))" for tools verify r w2
  proof (rule goal_loop_agrees)
    show "within_tools (rr_Tools (gr_Run (request\<lparr>gr_Run := (gr_Run request)\<lparr>rr_Tools := tools\<rparr>\<rparr>))) ((gr_Run request)\<lparr>rr_Tools := tools\<rparr>)"
      using within_tools_self [of "(gr_Run request)\<lparr>rr_Tools := tools\<rparr>"] by simp
    show "run q w = run' q w" if "within_tools (rr_Tools (gr_Run (request\<lparr>gr_Run := (gr_Run request)\<lparr>rr_Tools := tools\<rparr>\<rparr>))) q" for q w
      using agree within_tools_subset [OF \<open>set tools \<subseteq> set (rr_Tools (gr_Run request))\<close>] that by simp
  qed
  then show ?thesis using assms(1)
    by (auto simp: VerifiedRunner_Run_def Let_def split: option.splits sum.splits prod.splits dest!: resolveGoalTools_subset)
qed

text \<open>Every tool of a request is a tool of the plan, with the category and the need for approval that were admitted.\<close>

definition in_plan :: "AdmittedShortPlan \<Rightarrow> RunRequest \<Rightarrow> bool" where
  "in_plan plan q \<longleftrightarrow> (\<forall>t\<in>set (rr_Tools q). \<exists>s\<in>set (al_Steps plan). ad_Kind s = ShortPlanStepTool \<and> ad_ToolName s = trim_space (td_Name t)
     \<and> ad_ToolCategory s = td_Category t \<and> ad_ApprovalRequired s = tool_ApprovalRequired t)"

lemma planned_tools_member:
  "planned_tools g catalog i seen steps = Inr ts \<Longrightarrow> t \<in> set ts \<Longrightarrow>
     \<exists>s\<in>set steps. ad_Kind s = ShortPlanStepTool \<and> map_of catalog (ad_ToolName s) = Some t \<and> ad_ToolCategory s = td_Category t \<and> ad_ApprovalRequired s = tool_ApprovalRequired t"
  by (induction steps arbitrary: i seen ts) (fastforce simp: Let_def split: if_splits option.splits)+

lemma bound_request_tools [simp]: "rr_Tools (gr_Run (bound_request p request plan budget tools)) = tools"
  by (simp add: bound_request_def)

lemma bound_in_plan:
  assumes "bindAdmittedPlanToVerifiedRequest p request planning = Inr q" "within_tools (rr_Tools (gr_Run q)) x"
  shows "in_plan (pg_Plan planning) x"
  unfolding in_plan_def
proof
  fix t assume "t \<in> set (rr_Tools x)"
  then obtain u where u: "u \<in> set (rr_Tools (gr_Run q))" "trim_space (td_Name t) = trim_space (td_Name u)" "td_Category t = td_Category u" "tool_ApprovalRequired t = tool_ApprovalRequired u"
    using assms(2) by (auto simp: within_tools_def)
  obtain catalog tools where c: "buildToolCatalog (ge_quote (pe_goal p)) (rr_Tools (pq_Run request)) = Inr catalog"
    "planned_tools (pe_goal p) catalog 0 [] (al_Steps (pg_Plan planning)) = Inr tools" "rr_Tools (gr_Run q) = tools"
    using assms(1) by (auto simp: bindAdmittedPlanToVerifiedRequest_def Let_def split: if_splits)
  from planned_tools_member [OF c(2)] u(1) c(3) obtain s where s: "s \<in> set (al_Steps (pg_Plan planning))" "ad_Kind s = ShortPlanStepTool"
    "map_of catalog (ad_ToolName s) = Some u" "ad_ToolCategory s = td_Category u" "ad_ApprovalRequired s = tool_ApprovalRequired u" by blast
  from buildToolCatalog_member [OF c(1) s(3)] have "trim_space (td_Name u) = ad_ToolName s" by auto
  with s u show "\<exists>s\<in>set (al_Steps (pg_Plan planning)). ad_Kind s = ShortPlanStepTool \<and> ad_ToolName s = trim_space (td_Name t)
      \<and> ad_ToolCategory s = td_Category t \<and> ad_ApprovalRequired s = tool_ApprovalRequired t" by (intro bexI [of _ s]) auto
qed

lemma lift_runner_run: "lift_runner (v\<lparr>vr_Run := Some run\<rparr>) = (lift_runner v)\<lparr>vr_Run := Some (lift_call run)\<rparr>"
  by (simp add: lift_runner_def)

lemma execute_planned_agrees:
  assumes "vr_Run v = Some run" "\<And>x w. within_tools (rr_Tools (gr_Run q)) x \<Longrightarrow> run x w = run' x w"
  shows "execute_planned (v\<lparr>vr_Run := Some run'\<rparr>) b q result w = execute_planned v b q result w"
proof -
  have "VerifiedRunner_Run ((lift_runner v)\<lparr>vr_Run := Some (lift_call run')\<rparr>) (with_builder q (BuildRepair b)) ws = VerifiedRunner_Run (lift_runner v) (with_builder q (BuildRepair b)) ws" for ws
    by (rule goal_run_agrees [where run = "lift_call run"]) (use assms in \<open>auto simp: lift_runner_def lift_call_def split: prod.split\<close>)
  then show ?thesis by (simp add: execute_planned_def lift_runner_run)
qed

lemma execute_planned_planning: "execute_planned v b q result w = ((r, err), w') \<Longrightarrow> pv_Planning r = pv_Planning result"
  by (auto simp: execute_planned_def Let_def split: prod.splits option.splits)

text \<open>
  C13. A planned goal stays within its plan: the runner below it is only ever asked for runs whose tools are in the first
  admitted plan, with the category and the need for approval admitted there, repairs after a recovery included. Any runner that
  answers such requests in the same way gives the same result, whatever it does on others.
\<close>
theorem planned_goal_stays_in_plan:
  assumes "pr_verified runner = Some v" "vr_Run v = Some run" and "PlannedVerifiedRunner_Run runner ctx request w = ((r, err), w')"
    and "\<And>q w. in_plan (pg_Plan (pv_Planning r)) q \<Longrightarrow> run q w = run' q w"
  shows "PlannedVerifiedRunner_Run (runner\<lparr>pr_verified := Some (v\<lparr>vr_Run := Some run'\<rparr>)\<rparr>) ctx request w = ((r, err), w')"
proof -
  have key: "execute_planned (v\<lparr>vr_Run := Some run'\<rparr>) b q result w2 = ((r, err), w')"
    if "bindAdmittedPlanToVerifiedRequest p request planning = Inr q" "execute_planned v b q result w2 = ((r, err), w')" "pv_Planning result = planning" for p b q result planning w2
  proof -
    have "pv_Planning r = planning" using that(3) execute_planned_planning [OF that(2)] by simp
    then have "run x w = run' x w" if "within_tools (rr_Tools (gr_Run q)) x" for x w
      using assms(4) bound_in_plan [OF \<open>bindAdmittedPlanToVerifiedRequest p request planning = Inr q\<close> that] by simp
    then show ?thesis using execute_planned_agrees [OF assms(2)] that(2) by metis
  qed
  show ?thesis
  proof (cases "pr_planning runner")
    case None
    then show ?thesis using assms(1,3) by (auto simp: PlannedVerifiedRunner_Run_def bind_option2_def Let_def split: if_splits)
  next
    case (Some planning)
    then show ?thesis using assms(1,3)
      by (auto simp: PlannedVerifiedRunner_Run_def bind_option2_def Let_def split: option.splits if_splits sum.splits prod.splits intro: key)
  qed
qed

definition plan_demo_guard :: "AdmittedShortPlan \<Rightarrow> (RunRequest \<Rightarrow> run_world \<Rightarrow> run_outcome \<times> run_world) \<Rightarrow> RunRequest \<Rightarrow> run_world \<Rightarrow> run_outcome \<times> run_world" where
  "plan_demo_guard plan run q w = (if in_plan plan q then run q w else ((zero_run, Some ECanceled), w))"

theorem planned_goal_stays_in_plan_witness:
  "PlannedVerifiedRunner_Run ((plan_demo_runner plan_demo_one_by_one)\<lparr>pr_verified := Some ((goal_demo_runner plan_demo_one_by_one)\<lparr>vr_Run :=
      Some (plan_demo_guard (pg_Plan (pv_Planning (fst (fst (plan_demo_run plan_demo_one_by_one))))) (Run (goal_demo_env plan_demo_one_by_one)))\<rparr>)\<rparr>)
     (Some (\<lambda>w. None)) plan_demo_request (start react_demo_tracker) = plan_demo_run plan_demo_one_by_one"
proof -
  obtain r err w' where r: "plan_demo_run plan_demo_one_by_one = ((r, err), w')" by (metis prod.exhaust)
  have v: "pr_verified (plan_demo_runner plan_demo_one_by_one) = Some (goal_demo_runner plan_demo_one_by_one)"
    "vr_Run (goal_demo_runner plan_demo_one_by_one) = Some (Run (goal_demo_env plan_demo_one_by_one))" by (simp_all add: plan_demo_runner_def goal_demo_runner_def)
  have "Run (goal_demo_env plan_demo_one_by_one) q w = plan_demo_guard (pg_Plan (pv_Planning r)) (Run (goal_demo_env plan_demo_one_by_one)) q w" if "in_plan (pg_Plan (pv_Planning r)) q" for q w
    using that by (simp add: plan_demo_guard_def)
  from planned_goal_stays_in_plan [OF v r [unfolded plan_demo_run_def] this] show ?thesis by (simp add: r)
qed

end
