(* ===== verification/Plan_Model.thy ===== *)
theory Plan_Model
  imports Plan_Properties
begin

text \<open>
  The planner that asks a model for a short plan: \<^verbatim>\<open>src/internal/module/agent/runtime/short_plan_model.go\<close>. It calls the model
  within the budget of the request and that of the workflow around it, decodes the answer strictly and asks once more when the answer is no plan.

  The model, counter and estimator of the planner are those of \<open>run_env\<close>, whose context it reads too; a context is never nil, since the coordinator
  refuses a nil one. The JSON of the prompt and the parser of \<^verbatim>\<open>encoding/json\<close> are library functions: \<open>jl_parse\<close> gives the value a text
  denotes, with the entries of an object in their order and with repeated keys, or an error when the text is not exactly one value.
\<close>

section \<open>Decoding\<close>

definition maxShortPlanResponseBytes :: int where "maxShortPlanResponseBytes = 32768"
definition maxShortPlanPromptBytes :: int where "maxShortPlanPromptBytes = 65536"
definition maxShortPlanJSONDepth :: nat where "maxShortPlanJSONDepth = 16"
definition defaultShortPlanOutputTokens :: int where "defaultShortPlanOutputTokens = 768"
definition defaultShortPlanParseRepairs :: int where "defaultShortPlanParseRepairs = 1"
definition maximumShortPlanParseRepairs :: int where "maximumShortPlanParseRepairs = 1"
definition shortPlanStructuredOutputHint :: string where
  "shortPlanStructuredOutputHint = ''Return exactly one JSON object and nothing else. Do not use Markdown fences or commentary.''"

datatype json = JNull | JBool bool | JNumber string | JString string | JArray "json list" | JObject "(string \<times> json) list"

text \<open>The parser, the error of the decoder for a value of another type than the field it is for, and the formatting of \<^verbatim>\<open>%q\<close>.\<close>

record json_lib =
  jl_parse :: "string \<Rightarrow> gerr + json"
  jl_type_error :: "json \<Rightarrow> gerr"
  jl_quote :: "string \<Rightarrow> string"

text \<open>\<^verbatim>\<open>utf8.Valid\<close>: no byte that does not start a rune.\<close>

function utf8_valid :: "string \<Rightarrow> bool" where
  "utf8_valid [] \<longleftrightarrow> True"
| "utf8_valid (c # s) \<longleftrightarrow> (c \<le> CHR 0x7F \<or> 1 < rune_width (c # s)) \<and> utf8_valid (drop (rune_width (c # s)) (c # s))"
  by pat_completeness auto
termination
  by (relation "measure length") (use rune_width_bounds(1) in \<open>auto simp: less_Suc_eq_le, metis Suc_leI diff_Suc_less diff_le_mono2 le_trans not_less_eq_eq zero_less_Suc\<close>)

text \<open>The walk over the tokens of a value: no key twice in an object, at most 16 levels.\<close>

fun consumeShortPlanJSONValue :: "(string \<Rightarrow> string) \<Rightarrow> string \<Rightarrow> nat \<Rightarrow> json \<Rightarrow> gerr option"
and consume_entries :: "(string \<Rightarrow> string) \<Rightarrow> string \<Rightarrow> nat \<Rightarrow> string list \<Rightarrow> (string \<times> json) list \<Rightarrow> gerr option"
and consume_items :: "(string \<Rightarrow> string) \<Rightarrow> string \<Rightarrow> nat \<Rightarrow> nat \<Rightarrow> json list \<Rightarrow> gerr option" where
  "consumeShortPlanJSONValue quote path depth v =
     (if maxShortPlanJSONDepth < depth then Some (EMsg (''JSON nesting exceeds '' @ show_nat maxShortPlanJSONDepth @ '' levels at '' @ path))
      else case v of
        JObject kvs \<Rightarrow> consume_entries quote path depth [] kvs
      | JArray vs \<Rightarrow> consume_items quote path depth 0 vs
      | _ \<Rightarrow> None)"
| "consume_entries quote path depth seen [] = None"
| "consume_entries quote path depth seen ((key, v) # kvs) =
     (if key \<in> set seen then Some (EMsg (''duplicate JSON object key '' @ quote key @ '' at '' @ path))
      else case consumeShortPlanJSONValue quote (path @ ''.'' @ key) (Suc depth) v of
        Some err \<Rightarrow> Some err
      | None \<Rightarrow> consume_entries quote path depth (key # seen) kvs)"
| "consume_items quote path depth index [] = None"
| "consume_items quote path depth index (v # vs) = (case consumeShortPlanJSONValue quote (path @ ''['' @ show_nat index @ '']'') (Suc depth) v of
      Some err \<Rightarrow> Some err
    | None \<Rightarrow> consume_items quote path depth (Suc index) vs)"

text \<open>A map has its fields in any order, so that of several unknown fields any may be named; here it is the first.\<close>

definition requireExactJSONFieldsWithOptional :: "(string \<Rightarrow> string) \<Rightarrow> (string \<times> json) list \<Rightarrow> string list \<Rightarrow> string list \<Rightarrow> string \<Rightarrow> gerr option" where
  "requireExactJSONFieldsWithOptional quote value required optional label =
     (case List.find (\<lambda>field. map_of value field = None) required of
        Some field \<Rightarrow> Some (EMsg (label @ '' is missing required field '' @ quote field))
      | None \<Rightarrow> (case List.find (\<lambda>field. field \<notin> set (required @ optional)) (map fst value) of
          Some field \<Rightarrow> Some (EMsg (label @ '' contains unknown field '' @ quote field))
        | None \<Rightarrow> None))"

definition requireExactJSONFields :: "(string \<Rightarrow> string) \<Rightarrow> (string \<times> json) list \<Rightarrow> string list \<Rightarrow> string \<Rightarrow> gerr option" where
  "requireExactJSONFields quote value required label = requireExactJSONFieldsWithOptional quote value required [] label"

text \<open>\<^verbatim>\<open>json.Unmarshal\<close> into a map and into a slice of maps: \<open>None\<close> for another type, and \<^verbatim>\<open>null\<close> for nil.\<close>

fun unmarshal_map :: "json \<Rightarrow> (string \<times> json) list option option" where
  "unmarshal_map (JObject kvs) = Some (Some kvs)"
| "unmarshal_map JNull = Some None"
| "unmarshal_map _ = None"

fun unmarshal_slice :: "json \<Rightarrow> json list option" where
  "unmarshal_slice (JArray vs) = Some vs"
| "unmarshal_slice JNull = Some []"
| "unmarshal_slice _ = None"

fun unmarshal_all :: "('a \<Rightarrow> 'b option) \<Rightarrow> 'a list \<Rightarrow> 'b list option" where
  "unmarshal_all f [] = Some []"
| "unmarshal_all f (x # xs) = Option.bind (f x) (\<lambda>y. map_option (\<lambda>ys. y # ys) (unmarshal_all f xs))"

fun unmarshal_string :: "json \<Rightarrow> string option" where
  "unmarshal_string (JString s) = Some s"
| "unmarshal_string JNull = Some []"
| "unmarshal_string _ = None"

fun check_step_fields :: "(string \<Rightarrow> string) \<Rightarrow> nat \<Rightarrow> (string \<times> json) list option list \<Rightarrow> gerr option" where
  "check_step_fields quote index [] = None"
| "check_step_fields quote index (step # steps) = (case step of
      None \<Rightarrow> Some (EMsg (''short plan step '' @ show_nat (index + 1) @ '' must be an object''))
    | Some kvs \<Rightarrow> (case requireExactJSONFieldsWithOptional quote kvs [''criterion_ids'', ''id'', ''kind'', ''objective''] [''tool_name''] (''short plan step '' @ show_nat (index + 1)) of
        Some err \<Rightarrow> Some err
      | None \<Rightarrow> check_step_fields quote (Suc index) steps))"

definition validateExactShortPlanFields :: "json_lib \<Rightarrow> json \<Rightarrow> gerr option" where
  "validateExactShortPlanFields j payload = (case unmarshal_map payload of
      None \<Rightarrow> Some (EWrap ''decode short plan envelope: '' (jl_type_error j payload))
    | Some m \<Rightarrow>
        let envelope = (case m of None \<Rightarrow> [] | Some kvs \<Rightarrow> kvs)
        in (case requireExactJSONFields (jl_quote j) envelope [''steps'', ''version''] ''short plan'' of
              Some err \<Rightarrow> Some err
            | None \<Rightarrow> (case Option.bind (unmarshal_slice (the (map_of envelope ''steps''))) (unmarshal_all unmarshal_map) of
                None \<Rightarrow> Some (EWrap ''decode short plan steps: '' (jl_type_error j (the (map_of envelope ''steps''))))
              | Some steps \<Rightarrow>
                  if steps = [] \<or> MaxShortPlanSteps < int (length steps)
                  then Some (EMsg (''short plan must contain between 1 and '' @ show_int MaxShortPlanSteps @ '' steps''))
                  else check_step_fields (jl_quote j) 0 steps)))"

text \<open>The decoder on objects whose fields are known: a field that is absent or \<^verbatim>\<open>null\<close> keeps its zero value.\<close>

definition decode_field :: "(json \<Rightarrow> 'a option) \<Rightarrow> 'a \<Rightarrow> (string \<times> json) list \<Rightarrow> string \<Rightarrow> 'a option" where
  "decode_field f zero kvs key = (case map_of kvs key of None \<Rightarrow> Some zero | Some v \<Rightarrow> f v)"

definition decode_step :: "json \<Rightarrow> ShortPlanStep option" where
  "decode_step v = Option.bind (unmarshal_map v) (\<lambda>m. let kvs = (case m of None \<Rightarrow> [] | Some kvs \<Rightarrow> kvs)
     in Option.bind (decode_field unmarshal_string [] kvs ''id'') (\<lambda>i.
        Option.bind (decode_field unmarshal_string [] kvs ''kind'') (\<lambda>kind.
        Option.bind (decode_field unmarshal_string [] kvs ''objective'') (\<lambda>objective.
        Option.bind (decode_field unmarshal_string [] kvs ''tool_name'') (\<lambda>toolName.
        map_option (\<lambda>criterionIDs. \<lparr>sp_ID = i, sp_Kind = kind, sp_Objective = objective, sp_ToolName = toolName, sp_CriterionIDs = criterionIDs\<rparr>)
          (decode_field (\<lambda>x. Option.bind (unmarshal_slice x) (unmarshal_all unmarshal_string)) [] kvs ''criterion_ids''))))))"

definition decode_proposal :: "json \<Rightarrow> ShortPlanProposal option" where
  "decode_proposal v = Option.bind (unmarshal_map v) (\<lambda>m. let kvs = (case m of None \<Rightarrow> [] | Some kvs \<Rightarrow> kvs)
     in Option.bind (decode_field unmarshal_string [] kvs ''version'') (\<lambda>version.
        map_option (\<lambda>steps. \<lparr>pp_Version = version, pp_Steps = steps\<rparr>)
          (decode_field (\<lambda>x. Option.bind (unmarshal_slice x) (unmarshal_all decode_step)) [] kvs ''steps'')))"

text \<open>The parser of the first walk reads one value and no more, so the trailer is empty for the others.\<close>

definition DecodeShortPlanProposal :: "json_lib \<Rightarrow> string \<Rightarrow> gerr + ShortPlanProposal" where
  "DecodeShortPlanProposal j payload =
     (if maxShortPlanResponseBytes < int (length payload) then Inl (EMsg (''short plan response exceeds '' @ show_int maxShortPlanResponseBytes @ '' bytes''))
      else if \<not> utf8_valid payload then Inl (EMsg ''short plan response is not valid UTF-8'')
      else case jl_parse j payload of
        Inl err \<Rightarrow> Inl (EWrap ''validate short plan JSON: '' err)
      | Inr v \<Rightarrow> (case consumeShortPlanJSONValue (jl_quote j) ''$'' 0 v of
          Some err \<Rightarrow> Inl (EWrap ''validate short plan JSON: '' err)
        | None \<Rightarrow> (case validateExactShortPlanFields j v of
            Some err \<Rightarrow> Inl err
          | None \<Rightarrow> (case decode_proposal v of
              None \<Rightarrow> Inl (EWrap ''decode short plan: '' (jl_type_error j v))
            | Some proposal \<Rightarrow> Inr proposal))))"

section \<open>The prompt\<close>

record promptConstraint =
  pn_ID :: string
  pn_Description :: string

record promptCriterion =
  pi_ID :: string
  pi_Description :: string
  pi_Required :: bool

record promptTool =
  pt_Name :: string
  pt_Description :: string
  pt_Category :: string
  pt_RequiresApproval :: bool

record promptContext =
  px_Goal :: string
  px_Constraints :: "promptConstraint list"
  px_CompletionCriteria :: "promptCriterion list"
  px_TargetCriterionIDs :: "string list"
  px_AvailableTools :: "promptTool list"
  px_CompletedSteps :: int
  px_MaximumPlanSteps :: int

record ModelShortHorizonPlanner =
  pm_env :: run_env
  pm_goal :: goal_env
  pm_json :: json_lib
  pm_marshal :: "promptContext \<Rightarrow> gerr + string"
  pm_maxOutputTokens :: int
  pm_maxParseRepairs :: int

definition shortPlanAdmissionRepairInstruction :: "ShortPlanRepairFeedback option \<Rightarrow> gerr + string" where
  "shortPlanAdmissionRepairInstruction feedback = (case feedback of
      None \<Rightarrow> Inr []
    | Some f \<Rightarrow>
        if rf_Reason f = ShortPlanRepairInvalidAction
        then Inr (''The previous proposal failed deterministic admission. Produce a fresh plan that covers all target criteria, uses unique step IDs, ''
          @ ''respects terminal ordering and fits the remaining step budget. Do not repeat or quote the rejected proposal.'')
        else if rf_Reason f = ShortPlanRepairUnknownTool
        then Inr (''The previous proposal selected a tool outside the current allowed and available tool set. ''
          @ ''Produce a fresh plan using only names in available_tools. Do not repeat or quote the rejected proposal.'')
        else Inl (run_error ErrorInvalidRequest 0 [] [] ''short plan repair feedback reason is invalid'' None))"

definition systemPrompt :: string where
  \<open>systemPrompt = ''You are a short-horizon task planner. Propose only the next one to three actions.'' @ [CHR 0x0A] @ ''The response schema is:'' @ [CHR 0x0A]
     @ ''{"version":"agent.short_plan.v1","steps":[{"id":"stable-short-id","kind":"tool|ask_human|respond","objective":"bounded action objective",''
     @ ''"tool_name":"required only for tool","criterion_ids":["supplied-criterion-id"]}]}'' @ [CHR 0x0A]
     @ ''Every step must address at least one supplied completion criterion. Use a tool only when it is listed in available_tools. ''
     @ ''ask_human and respond are terminal and may appear only as the final step. ''
     @ ''Authorization, approval and completion are decided by deterministic runtime policy, not by you. '' @ shortPlanStructuredOutputHint\<close>

definition prompt_context :: "ShortPlanRequest \<Rightarrow> int \<Rightarrow> string list \<Rightarrow> (string \<times> ToolDefinition) list \<Rightarrow> promptContext" where
  "prompt_context request maxSteps targetCriteria catalog =
     \<lparr>px_Goal = trim_space (tk_Goal (sr_Task request)),
      px_Constraints = map (\<lambda>c. \<lparr>pn_ID = trim_space (cn_ID c), pn_Description = trim_space (cn_Description c)\<rparr>) (tk_Constraints (sr_Task request)),
      px_CompletionCriteria = map (\<lambda>c. \<lparr>pi_ID = trim_space (cr_ID c), pi_Description = trim_space (cr_Description c), pi_Required = cr_Required c\<rparr>) (tk_CompletionCriteria (sr_Task request)),
      px_TargetCriterionIDs = targetCriteria,
      px_AvailableTools = map (\<lambda>name. let definition = the (map_of catalog name)
        in \<lparr>pt_Name = name, pt_Description = trim_space (td_Description definition), pt_Category = td_Category definition, pt_RequiresApproval = tool_ApprovalRequired definition\<rparr>)
        (sort (map fst catalog)),
      px_CompletedSteps = sr_CompletedSteps request, px_MaximumPlanSteps = min MaxShortPlanSteps (maxSteps - sr_CompletedSteps request)\<rparr>"

definition text_message :: "string \<Rightarrow> string \<Rightarrow> Message" where
  "text_message role content = \<lparr>ms_Role = role, ms_Content = content, ms_Name = [], ms_ToolCallID = [], ms_Actions = []\<rparr>"

text \<open>The code looks at the tools in any order, so that of several tools of an invalid category any may be named; here it is the first of the catalog.\<close>

definition buildShortPlanModelMessages :: "ModelShortHorizonPlanner \<Rightarrow> ShortPlanRequest \<Rightarrow> int \<Rightarrow> gerr + Message list" where
  "buildShortPlanModelMessages p request maxSteps =
     bind_res (planningCriteria (pm_goal p) (sr_Task request) (sr_TargetCriterionIDs request)) (\<lambda>(targetCriteria, criterionCatalog).
     bind_res (shortPlanRecoveryInstruction (sr_RecoveryFeedback request)) (\<lambda>recoveryInstruction.
     bind_res (shortPlanAdmissionRepairInstruction (sr_RepairFeedback request)) (\<lambda>repairInstruction.
     bind_res (buildToolCatalog (ge_quote (pm_goal p)) (sr_AvailableTools request)) (\<lambda>catalog.
       case List.find (\<lambda>(name, definition). \<not> validToolCategory (td_Category definition)) catalog of
         Some (name, definition) \<Rightarrow> Inl (run_error ErrorInvalidRequest 0 [] [] (''tool '' @ ge_quote (pm_goal p) name @ '' has an invalid policy category'') None)
       | None \<Rightarrow> (case pm_marshal p (prompt_context request maxSteps targetCriteria catalog) of
           Inl err \<Rightarrow> Inl (run_error ErrorInvalidRequest 0 [] [] ''marshal short plan context'' (Some err))
         | Inr payload \<Rightarrow>
             if maxShortPlanPromptBytes < int (length payload)
             then Inl (run_error ErrorInvalidRequest 0 [] [] (''short plan context exceeds '' @ show_int maxShortPlanPromptBytes @ '' bytes'') None)
             else Inr ([text_message RoleSystem systemPrompt, text_message RoleUser payload]
               @ (if recoveryInstruction \<noteq> [] then [text_message RoleDeveloper recoveryInstruction] else [])
               @ (if repairInstruction \<noteq> [] then [text_message RoleDeveloper repairInstruction] else [])))))))"

section \<open>Calls of the model\<close>

definition shortPlanModelContent :: "ModelResponse \<Rightarrow> gerr + string" where
  "shortPlanModelContent response =
     (let actions = (if mp_Actions response = [] then ms_Actions (mp_Message response) else mp_Actions response);
          content0 = trim_space (ms_Content (mp_Message response));
          content = (if content0 = [] \<and> length actions = 1 then trim_space (ac_Content (hd actions)) else content0)
      in if actions \<noteq> [] \<and> (length actions \<noteq> 1 \<or> ac_Type (hd actions) \<noteq> ActionFinalAnswer) then Inl (EMsg ''short plan model returned a non-text action'')
         else if content = [] then Inl (EMsg ''short plan model returned empty content'')
         else Inr content)"

definition admitShortPlanModelCost :: "run_env \<Rightarrow> Budget \<Rightarrow> string \<Rightarrow> TokenUsage \<Rightarrow> TokenUsage \<Rightarrow> int \<Rightarrow> gerr option" where
  "admitShortPlanModelCost env budget model consumed requestEstimate step =
     (if bg_MaxEstimatedCostMicros budget \<le> 0 then None
      else case en_EstimateCost env of
        None \<Rightarrow> Some (run_error ErrorInvalidRequest step [] [] ''short plan cost budget requires a cost estimator'' None)
      | Some f \<Rightarrow> (case f model (zero_usage\<lparr>tu_InputTokens := tu_InputTokens requestEstimate, tu_OutputTokens := bg_MaxOutputTokens budget,
                  tu_TotalTokens := i64 (tu_InputTokens requestEstimate + bg_MaxOutputTokens budget), tu_Estimated := True\<rparr>) of
            Inl err \<Rightarrow> Some (run_error ErrorInvalidRequest step [] [] ''estimate short plan model cost reservation'' (Some err))
          | Inr est \<Rightarrow>
              let cost = i64 (tu_EstimatedCostMicros consumed + ce_Micros est)
              in if bg_MaxEstimatedCostMicros budget < cost then Some (costBudgetExceededError step cost (bg_MaxEstimatedCostMicros budget)) else None))"

text \<open>The usage is never nil, and the rest is the code of \<^verbatim>\<open>resolveCompletedCost\<close> of the runner.\<close>

definition resolveShortPlanModelCost :: "run_env \<Rightarrow> string \<Rightarrow> ModelResponse \<Rightarrow> TokenUsage \<Rightarrow> gerr + TokenUsage" where
  "resolveShortPlanModelCost env requestedModel response usage = resolveCompletedCost env requestedModel response usage"

definition reserveShortPlanSharedBudget :: "run_env \<Rightarrow> Budget \<Rightarrow> string \<Rightarrow> TokenUsage \<Rightarrow> run_world \<Rightarrow> gerr + UsageReservation \<times> run_world" where
  "reserveShortPlanSharedBudget env budget model requestEstimate w = (case wd_tracker w of
      None \<Rightarrow> Inr (no_reservation, w)
    | Some tracker \<Rightarrow>
        let est = requestEstimate\<lparr>tu_OutputTokens := bg_MaxOutputTokens budget, tu_TotalTokens := i64 (tu_InputTokens requestEstimate + bg_MaxOutputTokens budget)\<rparr>;
            priced = (if 0 < bg_MaxEstimatedCostMicros (bt_budget tracker)
                      then (case en_EstimateCost env of
                              None \<Rightarrow> Inl (run_error ErrorInvalidRequest 0 [] [] ''shared short plan cost budget requires a cost estimator'' None)
                            | Some f \<Rightarrow> (case f model est of
                                Inl err \<Rightarrow> Inl (run_error ErrorInvalidRequest 0 [] [] ''estimate shared short plan model cost'' (Some err))
                              | Inr cost \<Rightarrow> Inr (est\<lparr>tu_EstimatedCostMicros := ce_Micros cost, tu_CostEstimated := True, tu_PricingVersion := ce_PricingVersion cost\<rparr>)))
                      else Inr est)
        in bind_res priced (\<lambda>e. bind_res (ReserveUsage e tracker) (\<lambda>(r, t). Inr (r, emit env (RReserve e) (w\<lparr>wd_tracker := Some t\<rparr>)))))"

definition parse_repair_message :: Message where
  "parse_repair_message = text_message RoleDeveloper (''The previous response did not satisfy the required JSON contract. '' @ shortPlanStructuredOutputHint
     @ '' Use only the supplied tool names and criterion IDs.'')"

definition plan_model_request :: "ShortPlanRequest \<Rightarrow> Budget \<Rightarrow> Message list \<Rightarrow> int \<Rightarrow> ModelRequest" where
  "plan_model_request request callBudget messages attempt =
     \<lparr>mr_Context = (sr_Context request)\<lparr>rc_Budget := callBudget\<rparr>, mr_StepIndex = sr_CompletedSteps request + attempt + 1, mr_Model = sr_Model request,
      mr_Messages = messages @ (if 0 < attempt then [parse_repair_message] else []), mr_Tools = [], mr_ToolChoice = ToolChoiceNone, mr_MaxOutputTokens = bg_MaxOutputTokens callBudget\<rparr>"

text \<open>One attempt up to the response: its error, or the result with the usage of the call and the response.\<close>

definition plan_call :: "run_env \<Rightarrow> (run_log \<Rightarrow> ModelRequest \<Rightarrow> ModelResponse \<times> gerr option) \<Rightarrow> ShortPlanRequest \<Rightarrow> Budget \<Rightarrow> Message list \<Rightarrow> int \<Rightarrow> ShortPlanResult \<Rightarrow> run_world
    \<Rightarrow> ((ShortPlanResult \<times> gerr) + ShortPlanResult \<times> ModelResponse) \<times> run_world" where
  "plan_call env answer request callBudget messages attempt result0 w =
     (let modelRequest = plan_model_request request callBudget messages attempt; step = mr_StepIndex modelRequest; est = en_EstimateRequest env modelRequest
      in case (case admitModelCall callBudget (sl_Usage result0) est step of
                 Some err \<Rightarrow> Some err
               | None \<Rightarrow> admitShortPlanModelCost env callBudget (sr_Model request) (sl_Usage result0) est step) of
           Some err \<Rightarrow> (Inl (result0, err), w)
         | None \<Rightarrow> (case reserveShortPlanSharedBudget env callBudget (sr_Model request) est w of
             Inl err \<Rightarrow> (Inl (result0, err), w)
           | Inr (reservation, w1) \<Rightarrow>
               let result = result0\<lparr>sl_Attempts := sl_Attempts result0 + 1\<rparr>;
                   (response, callErr) = answer (wd_log w1) modelRequest; w2 = emit env (RModel modelRequest) w1
               in (case callErr of
                     Some err \<Rightarrow>
                       let (cerr, w3) = ctx_Err env None (release_usage env reservation w2)
                       in (Inl (result, case cerr of Some c \<Rightarrow> contextRunError c step | None \<Rightarrow> run_error ErrorModel step [] [] [] (Some err)), w3)
                   | None \<Rightarrow> (case resolveShortPlanModelCost env (sr_Model request) response (resolvedModelUsage env est response) of
                       Inl err \<Rightarrow> (Inl (result, run_error ErrorModel step [] [] ''estimate short plan model cost'' (Some err)), release_usage env reservation w2)
                     | Inr usage \<Rightarrow>
                         let (cerr, w3) = commit_usage env reservation usage w2; model = trim_space (mp_Model response)
                         in (case cerr of
                               Some err \<Rightarrow> (Inl (result, err), w3)
                             | None \<Rightarrow> (case enforceCompletedUsage callBudget (sl_Usage result) usage step of
                                 Some err \<Rightarrow> (Inl (result\<lparr>sl_Usage := usage_Add (sl_Usage result) usage\<rparr>, err), w3)
                               | None \<Rightarrow> (Inr (result\<lparr>sl_Usage := usage_Add (sl_Usage result) usage, sl_Model := (if model = [] then sr_Model request else model),
                                    sl_Provider := trim_space (mp_Provider response)\<rparr>, response), w3)))))))"

text \<open>The loop over the attempts, with the number of those left. A proposal that does not decode leaves the zero proposal.\<close>

definition zero_proposal :: ShortPlanProposal where
  "zero_proposal = \<lparr>pp_Version = [], pp_Steps = []\<rparr>"

definition zero_short_plan :: ShortPlanResult where
  "zero_short_plan = \<lparr>sl_Proposal = zero_proposal, sl_Usage = zero_usage, sl_Attempts = 0, sl_Model = [], sl_Provider = []\<rparr>"

fun plan_attempts :: "ModelShortHorizonPlanner \<Rightarrow> (run_log \<Rightarrow> ModelRequest \<Rightarrow> ModelResponse \<times> gerr option) \<Rightarrow> ShortPlanRequest \<Rightarrow> Budget \<Rightarrow> Message list \<Rightarrow> nat \<Rightarrow> int \<Rightarrow> ShortPlanResult
    \<Rightarrow> run_world \<Rightarrow> (ShortPlanResult \<times> gerr option) \<times> run_world" where
  "plan_attempts p answer request callBudget messages 0 attempt result w = ((result, Some (run_error ErrorInvalidAction 0 [] [] ''short plan model attempts exhausted'' None)), w)"
| "plan_attempts p answer request callBudget messages (Suc left) attempt result w =
     (case plan_call (pm_env p) answer request callBudget messages attempt result w of
        (Inl (result1, err), w1) \<Rightarrow> ((result1, Some err), w1)
      | (Inr (result1, response), w1) \<Rightarrow> (case bind_res (shortPlanModelContent response) (DecodeShortPlanProposal (pm_json p)) of
          Inr proposal \<Rightarrow> ((result1\<lparr>sl_Proposal := proposal\<rparr>, None), w1)
        | Inl contentErr \<Rightarrow>
            if left = 0
            then ((result1, Some (run_error ErrorInvalidAction (sr_CompletedSteps request + attempt + 1) [] []
                   (''model did not return a valid short plan after '' @ show_int (sl_Attempts result1) @ '' attempt(s)'') (Some contentErr))), w1)
            else plan_attempts p answer request callBudget messages left (attempt + 1) result1 w1))"

definition call_budget :: "ModelShortHorizonPlanner \<Rightarrow> ShortPlanRequest \<Rightarrow> Budget" where
  "call_budget p request = (sr_Budget request)\<lparr>bg_MaxSteps := effective_max_steps (sr_Budget request),
     bg_MaxOutputTokens := (if 0 < bg_MaxOutputTokens (sr_Budget request) \<and> bg_MaxOutputTokens (sr_Budget request) < pm_maxOutputTokens p
       then bg_MaxOutputTokens (sr_Budget request) else pm_maxOutputTokens p)\<rparr>"

definition ModelShortHorizonPlanner_Plan :: "ModelShortHorizonPlanner \<Rightarrow> ShortPlanRequest \<Rightarrow> run_world \<Rightarrow> (ShortPlanResult \<times> gerr option) \<times> run_world" where
  "ModelShortHorizonPlanner_Plan p request0 w0 = (case en_Complete (pm_env p) of
      None \<Rightarrow> ((zero_short_plan, Some (run_error ErrorInvalidRequest 0 [] [] ''short plan model planner is not configured'' None)), w0)
    | Some answer \<Rightarrow>
        let (cerr, w) = ctx_Err (pm_env p) None w0; request = request0\<lparr>sr_Model := trim_space (sr_Model request0)\<rparr>;
            maxSteps = effective_max_steps (sr_Budget request); refuse = (\<lambda>message cause. ((zero_short_plan, Some (run_error ErrorInvalidRequest 0 [] [] message cause)), w))
        in (case cerr of
              Some err \<Rightarrow> ((zero_short_plan, Some (contextRunError err (sr_CompletedSteps request))), w)
            | None \<Rightarrow>
                if sr_Model request = [] then refuse ''short plan model is required'' None
                else (case TaskSpec_Validate (pm_goal p) (sr_Task request) of
                    Some err \<Rightarrow> refuse ''invalid planning task'' (Some err)
                  | None \<Rightarrow>
                      if sr_CompletedSteps request < 0 then refuse ''completed planning steps cannot be negative'' None
                      else if maxSteps < 1 \<or> MaxAllowedSteps < maxSteps then refuse (''max steps must be between 1 and '' @ show_int MaxAllowedSteps) None
                      else if maxSteps \<le> sr_CompletedSteps request
                      then ((zero_short_plan, Some (run_error ErrorBudgetExceeded (sr_CompletedSteps request + 1) [] []
                             ''short plan requires another step but the run step budget is exhausted'' None)), w)
                      else (case buildShortPlanModelMessages p request maxSteps of
                          Inl err \<Rightarrow> ((zero_short_plan, Some err), w)
                        | Inr messages \<Rightarrow> plan_attempts p answer request (call_budget p request) messages (nat (pm_maxParseRepairs p + 1)) 0 zero_short_plan w))))"

section \<open>Construction\<close>

definition WithShortPlanTokenCounter :: "((ModelRequest \<Rightarrow> TokenUsage) \<times> (ModelResponse \<Rightarrow> TokenUsage)) option \<Rightarrow> ModelShortHorizonPlanner \<Rightarrow> ModelShortHorizonPlanner" where
  "WithShortPlanTokenCounter counter p = (case counter of
      None \<Rightarrow> p
    | Some (request, response) \<Rightarrow> p\<lparr>pm_env := (pm_env p)\<lparr>en_EstimateRequest := request, en_EstimateResponse := response\<rparr>\<rparr>)"

definition WithShortPlanCostEstimator :: "(string \<Rightarrow> TokenUsage \<Rightarrow> gerr + CostEstimate) option \<Rightarrow> ModelShortHorizonPlanner \<Rightarrow> ModelShortHorizonPlanner" where
  "WithShortPlanCostEstimator estimator p = p\<lparr>pm_env := (pm_env p)\<lparr>en_EstimateCost := estimator\<rparr>\<rparr>"

definition WithShortPlanMaxOutputTokens :: "int \<Rightarrow> ModelShortHorizonPlanner \<Rightarrow> ModelShortHorizonPlanner" where
  "WithShortPlanMaxOutputTokens limit p = p\<lparr>pm_maxOutputTokens := limit\<rparr>"

definition WithShortPlanParseRepairs :: "int \<Rightarrow> ModelShortHorizonPlanner \<Rightarrow> ModelShortHorizonPlanner" where
  "WithShortPlanParseRepairs limit p = p\<lparr>pm_maxParseRepairs := limit\<rparr>"

text \<open>The model is that of the environment; a counter is never nil, as the option with a nil one changes nothing.\<close>

definition NewModelShortHorizonPlanner :: "run_env \<Rightarrow> goal_env \<Rightarrow> json_lib \<Rightarrow> (promptContext \<Rightarrow> gerr + string) \<Rightarrow> (ModelShortHorizonPlanner \<Rightarrow> ModelShortHorizonPlanner) option list
    \<Rightarrow> gerr + ModelShortHorizonPlanner" where
  "NewModelShortHorizonPlanner env g j marshal options =
     (if en_Complete env = None then Inl (EMsg ''short plan model client is required'')
      else
        let planner = fold (\<lambda>option p. case option of None \<Rightarrow> p | Some f \<Rightarrow> f p) options
              \<lparr>pm_env = env\<lparr>en_EstimateRequest := EstimateRequest (ge_raw g), en_EstimateResponse := EstimateResponse (ge_raw g), en_EstimateCost := None\<rparr>, pm_goal = g, pm_json = j,
               pm_marshal = marshal, pm_maxOutputTokens = defaultShortPlanOutputTokens, pm_maxParseRepairs = defaultShortPlanParseRepairs\<rparr>
        in if pm_maxOutputTokens planner \<le> 0 then Inl (EMsg ''short plan maximum output tokens must be positive'')
           else if pm_maxParseRepairs planner < 0 \<or> maximumShortPlanParseRepairs < pm_maxParseRepairs planner
           then Inl (EMsg (''short plan parse repairs must be between 0 and '' @ show_int maximumShortPlanParseRepairs))
           else Inr planner)"

end
