(* ===== verification/Goal_Budget.thy ===== *)
theory Goal_Budget
  imports Goal_Properties
begin

text \<open>
  The tokens and the cost of goals: all attempts of a goal share the budget of its run. The counts are machine integers, so the statements assume
  that providers report what they used and no absurd amounts: \<open>honest_model\<close>.
\<close>

section \<open>Usage that is counted\<close>

text \<open>Counts that are not negative and too small to overflow in a few additions, with a total for every token.\<close>

definition counted :: "int \<Rightarrow> TokenUsage \<Rightarrow> bool" where
  "counted k u \<longleftrightarrow> (\<forall>f. 0 \<le> uval f u \<and> uval f u \<le> k * 2 ^ 48) \<and> (tu_TotalTokens u = 0 \<longrightarrow> tu_InputTokens u = 0 \<and> tu_OutputTokens u = 0)"

lemma counted_bounds:
  assumes "counted k u"
  shows "0 \<le> uval f u" "uval f u \<le> k * 2 ^ 48" "0 \<le> tu_TotalTokens u" "0 \<le> tu_EstimatedCostMicros u" "0 \<le> tu_InputTokens u" "0 \<le> tu_OutputTokens u"
  using assms uval.simps [of u] unfolding counted_def by metis+

lemma counted_zero [simp]: "counted 0 zero_usage"
  by (simp add: counted_def) (simp add: zero_usage_def)

lemma counted_mono: "counted k u \<Longrightarrow> k \<le> m \<Longrightarrow> counted m u"
  unfolding counted_def by (meson mult_right_mono order_trans zero_le_numeral zero_le_power)

lemma counted_Add:
  assumes "counted k u" "counted m v" "k + m \<le> 16384"
  shows "uval f (usage_Add u v) = uval f u + uval f v" "counted (k + m) (usage_Add u v)"
proof -
  show sum: "uval f (usage_Add u v) = uval f u + uval f v" for f
    using counted_bounds(1,2) [OF assms(1), of f] counted_bounds(1,2) [OF assms(2), of f] assms(3) by (intro uval_Add) (auto simp: distrib_right [symmetric])
  have "tu_TotalTokens u = 0 \<and> tu_TotalTokens v = 0" if "tu_TotalTokens (usage_Add u v) = 0"
    using sum [of UTotal] that counted_bounds(3) [OF assms(1)] counted_bounds(3) [OF assms(2)] by simp
  then show "counted (k + m) (usage_Add u v)"
    using assms(1,2) sum [of UInput, unfolded uval.simps] sum [of UOutput, unfolded uval.simps] counted_bounds(1,2) [OF assms(1)] counted_bounds(1,2) [OF assms(2)]
    by (auto simp: counted_def sum distrib_right intro: add_mono)
qed

lemma counted_normalized: "counted k u \<Longrightarrow> normalizedUsage u = u"
  using counted_bounds [of k u] by (auto simp: counted_def normalizedUsage_def Let_def i64_id in_i64_def)

text \<open>What is left of a budget for the next call, as far as the budget has limits.\<close>

definition leaves :: "Budget \<Rightarrow> TokenUsage \<Rightarrow> Budget \<Rightarrow> bool" where
  "leaves budget used rest \<longleftrightarrow>
     (0 < bg_MaxTotalTokens budget \<longrightarrow> 0 < bg_MaxTotalTokens rest \<and> bg_MaxTotalTokens rest \<le> bg_MaxTotalTokens budget - tu_TotalTokens used)
     \<and> (0 < bg_MaxEstimatedCostMicros budget \<longrightarrow> 0 < bg_MaxEstimatedCostMicros rest \<and> bg_MaxEstimatedCostMicros rest \<le> bg_MaxEstimatedCostMicros budget - tu_EstimatedCostMicros used)"

lemma leaves_zero [simp]: "leaves budget zero_usage budget"
  by (simp add: leaves_def zero_usage_def)

lemma within_leaves:
  assumes "leaves budget used rest" "within_budget rest u" "counted k used" "counted m u" "k + m \<le> 16384"
  shows "within_budget budget (usage_Add used u)"
  using assms(1,2) counted_Add(1) [OF assms(3-5), of UTotal] counted_Add(1) [OF assms(3-5), of UCost]
  by (auto simp: leaves_def within_budget_def)

text \<open>The limits of a budget are machine integers.\<close>

definition machine_budget :: "Budget \<Rightarrow> bool" where
  "machine_budget b \<longleftrightarrow> in_i64 (bg_MaxTotalTokens b) \<and> in_i64 (bg_MaxEstimatedCostMicros b)"

section \<open>Runs\<close>

text \<open>What is assumed of providers, counters and estimators: they count what a call used, and no call uses more than \<open>2 ^ 48\<close>.\<close>

definition small_count :: "int \<Rightarrow> bool" where
  "small_count n \<longleftrightarrow> 0 \<le> n \<and> n \<le> 2 ^ 48"

definition honest_model :: "run_env \<Rightarrow> bool" where
  "honest_model env \<longleftrightarrow> (\<forall>answer es q f. en_Complete env = Some answer \<longrightarrow> small_count (uval f (mp_Usage (fst (answer es q)))))
     \<and> (\<forall>q. small_count (tu_InputTokens (en_EstimateRequest env q))) \<and> (\<forall>r. small_count (tu_OutputTokens (en_EstimateResponse env r)))
     \<and> (\<forall>f model u c. en_EstimateCost env = Some f \<longrightarrow> f model u = Inr c \<longrightarrow> small_count (ce_Micros c))"

definition small_usage :: "TokenUsage \<Rightarrow> bool" where
  "small_usage u \<longleftrightarrow> (\<forall>f. small_count (uval f u))"

lemma honest_answer: "honest_model env \<Longrightarrow> en_Complete env = Some answer \<Longrightarrow> answer es q = (response, e) \<Longrightarrow> small_usage (mp_Usage response)"
  unfolding honest_model_def small_usage_def by (metis fst_conv)

lemma resolved_usage_counted:
  assumes "honest_model env" "small_usage (mp_Usage response)"
  shows "counted 2 (resolvedModelUsage env (en_EstimateRequest env q) response)"
proof -
  have reported: "small_count (uval f (mp_Usage response))" for f using assms(2) by (simp add: small_usage_def)
  have estimates: "small_count (tu_InputTokens (en_EstimateRequest env q))" "small_count (tu_OutputTokens (en_EstimateResponse env response))"
    using assms(1) by (simp_all add: honest_model_def)
  let ?u = "resolvedModelUsage env (en_EstimateRequest env q) response"
  have "0 \<le> uval f ?u \<and> uval f ?u \<le> 2 * 2 ^ 48" "tu_TotalTokens ?u = 0 \<longrightarrow> tu_InputTokens ?u = 0 \<and> tu_OutputTokens ?u = 0" for f
    using reported [of UInput] reported [of UOutput] reported [of UTotal] reported [of UCost] estimates
    by (cases f; auto simp: resolvedModelUsage_def Let_def small_count_def zero_usage_def i64_id in_i64_def split: if_splits)+
  then show ?thesis by (simp add: counted_def)
qed

lemma priced_counted:
  assumes "honest_model env" "counted 2 u" "resolveCompletedCost env model response u = Inr usage"
  shows "counted 2 usage"
proof (cases "0 < tu_EstimatedCostMicros u \<or> en_EstimateCost env = None")
  case True
  then have "usage = u" using assms(3) by (auto simp: resolveCompletedCost_def split: if_splits)
  then show ?thesis using assms(2) by simp
next
  case False
  then obtain f where f: "en_EstimateCost env = Some f" by blast
  then obtain m c where c: "f m u = Inr c" "usage = u\<lparr>tu_EstimatedCostMicros := ce_Micros c, tu_CostEstimated := tu_Estimated u, tu_PricingVersion := ce_PricingVersion c\<rparr>"
    using assms(3) False by (auto simp: resolveCompletedCost_def Let_def)
  have "small_count (ce_Micros c)" using assms(1) f c(1) by (simp add: honest_model_def)
  then have "0 \<le> uval f usage \<and> uval f usage \<le> 2 * 2 ^ 48" for f
    using c counted_bounds(1,2) [OF assms(2), of UInput] counted_bounds(1,2) [OF assms(2), of UOutput] counted_bounds(1,2) [OF assms(2), of UTotal] by (cases f) (auto simp: small_count_def)
  then show ?thesis using assms(2) c(2) by (simp add: counted_def)
qed

text \<open>A run has a count of two for each of its steps, since every call of the model leaves a step.\<close>

definition run_counted :: "nat \<Rightarrow> RunResult \<Rightarrow> bool" where
  "run_counted n r \<longleftrightarrow> counted (2 * int n) (rs_Usage r)"

lemma run_counted_add: "run_counted n r \<Longrightarrow> counted 2 u \<Longrightarrow> n \<le> 4096 \<Longrightarrow> counted (2 * int (Suc n)) (usage_Add (rs_Usage r) u)"
  using counted_Add(2) [of "2 * int n" "rs_Usage r" 2 u] by (simp add: run_counted_def algebra_simps)

lemma run_counted_mono: "run_counted n r \<Longrightarrow> n \<le> m \<Longrightarrow> run_counted m r"
  unfolding run_counted_def by (erule counted_mono) simp

lemma normalizeActions_usage: "normalizeActions env response k = Inr (as, response') \<Longrightarrow> mp_Usage response' = mp_Usage response"
  by (auto simp: normalizeActions_def Let_def split: sum.splits if_splits)

lemma settle_counted:
  assumes "settle_response env request result step (en_EstimateRequest env q) r response w = (x, w')" and "honest_model env" "small_usage (mp_Usage response)"
    and "run_counted (length (rs_Steps result)) result" "length (rs_Steps result) \<le> 4096"
  shows "case x of Inl out \<Rightarrow> run_counted (length (rs_Steps (fst out))) (fst out) | Inr (step1, res) \<Rightarrow> rs_Steps res = rs_Steps result \<and> run_counted (Suc (length (rs_Steps result))) res"
proof (cases "normalizeActions env response (st_Index step)")
  case (Inl err)
  then show ?thesis using assms(1,4) by (auto simp: settle_response_def failResult_def run_counted_def)
next
  case (Inr y)
  then obtain as response' where n: "normalizeActions env response (st_Index step) = Inr (as, response')" by (cases y) simp
  let ?u = "resolvedModelUsage env (en_EstimateRequest env q) response'"
  have u: "counted 2 ?u" using assms(3) normalizeActions_usage [OF n] by (intro resolved_usage_counted [OF assms(2)]) simp
  have add: "counted (2 * int (Suc (length (rs_Steps result)))) (usage_Add (rs_Usage result) usage)" if "counted 2 usage" for usage
    using run_counted_add [OF assms(4) that assms(5)] .
  show ?thesis
    using assms(1) n add u priced_counted [OF assms(2) u]
    by (auto simp: settle_response_def charge_failed_def finish_step_def failResult_def run_counted_def Let_def split: sum.splits prod.splits option.splits)
qed

lemma act_counted:
  assumes "act env d request catalog m step result w = (x, w')" and "run_counted (Suc (length (rs_Steps result))) result"
  shows "case x of Inl out \<Rightarrow> run_counted (length (rs_Steps (fst out))) (fst out) | Inr r \<Rightarrow> run_counted (length (rs_Steps r)) r"
proof -
  have stop: "rs_Usage (fst (stop_at r a err k)) = rs_Usage r" "rs_Steps (fst (stop_at r a err k)) = rs_Steps r" for r a err k
    by (auto simp: stop_at_def suspendForToolContinuation_def failResult_def Let_def split: option.splits)
  show ?thesis using assms stop
    by (auto simp: act_def finish_step_def failResult_def run_counted_def Let_def split: prod.splits option.splits if_splits)
qed

lemma model_failed_counted:
  assumes "model_failed env d result step response err w = (out, w')" and "run_counted (length (rs_Steps result)) result"
  shows "run_counted (length (rs_Steps (fst out))) (fst out)"
proof -
  have "run_counted (Suc (length (rs_Steps result))) result" using run_counted_mono [OF assms(2)] by simp
  then show ?thesis using assms by (auto simp: model_failed_def finish_step_def failResult_def run_counted_def Let_def split: prod.splits option.splits)
qed

lemma run_step_counted:
  assumes x: "run_step env answer d request catalog m k result w = (x, w')" and "honest_model env" "en_Complete env = Some answer"
    and c: "run_counted (length (rs_Steps result)) result" "length (rs_Steps result) \<le> 4096"
  shows "case x of Inl out \<Rightarrow> run_counted (length (rs_Steps (fst out))) (fst out) | Inr r \<Rightarrow> run_counted (length (rs_Steps r)) r"
proof -
  consider out where "x = Inl out" "rs_Steps (fst out) = rs_Steps result" "rs_Usage (fst out) = rs_Usage result"
    | t response err w5 out where "model_failed env d result (new_step request k t) response err w5 = (out, w')" "x = Inl out"
    | t q es reservation response w4 w5 out where "answer es q = (response, None)" "x = Inl out"
        "settle_response env request result (new_step request k t) (en_EstimateRequest env q) reservation response w4 = (Inl out, w5)"
    | t q es reservation response w4 w5 step1 result1 where "answer es q = (response, None)"
        "settle_response env request result (new_step request k t) (en_EstimateRequest env q) reservation response w4 = (Inr (step1, result1), w5)"
        "act env d request catalog m step1 result1 w5 = (x, w')"
    using x by (auto simp: run_step_def admit_step_def bind_res_def failResult_def Let_def split: prod.splits option.splits sum.splits)
  then show ?thesis
  proof cases
    case 1
    then show ?thesis using c by (simp add: run_counted_def)
  next
    case 2
    then show ?thesis using model_failed_counted [OF 2(1) c(1)] by simp
  next
    case 3
    then show ?thesis using settle_counted [OF 3(3) assms(2) honest_answer [OF assms(2,3) 3(1)] c] by simp
  next
    case 4
    have "rs_Steps result1 = rs_Steps result" "run_counted (Suc (length (rs_Steps result))) result1"
      using settle_counted [OF 4(2) assms(2) honest_answer [OF assms(2,3) 4(1)] c] by simp_all
    then show ?thesis using act_counted [OF 4(3)] by simp
  qed
qed

lemma run_loop_counted:
  assumes "honest_model env" "en_Complete env = Some answer"
  shows "run_loop env answer d request catalog m n k result w = (out, w') \<Longrightarrow> run_counted (length (rs_Steps result)) result \<Longrightarrow> length (rs_Steps result) + n \<le> 4096
    \<Longrightarrow> run_counted (length (rs_Steps (fst out))) (fst out)"
proof (induction n arbitrary: k result w)
  case (Suc n)
  obtain x w1 where s: "run_step env answer d request catalog m k result w = (x, w1)" by fastforce
  note c = run_step_counted [OF s assms Suc.prems(2)]
  show ?case
  proof (cases x)
    case (Inr r)
    have "length (rs_Steps r) = Suc (length (rs_Steps result))" using run_step_steps [OF s] Inr by (auto simp: grown_def)
    then show ?thesis using Suc.IH [of "k + 1" r w1] Suc.prems s Inr c by simp
  qed (use Suc.prems s c in simp)
qed (auto simp: failResult_def run_counted_def)

lemma Run_counted:
  assumes "Run env request w = ((r, err), w')" and "honest_model env"
  shows "run_counted (length (rs_Steps r)) r"
proof -
  obtain t w1 where f: "runFromState env (request\<lparr>rr_Context := (rr_Context request)\<lparr>rc_StartedAt := t\<rparr>\<rparr>) (new_result ((rr_Context request)\<lparr>rc_StartedAt := t\<rparr>) (rr_Messages request) [] zero_usage) 1 w1 = ((r, err), w')"
    by (rule Run_from [OF assms(1), where l = True and catalog = "[]" and m = 0 and p = first_phase])
  let ?request = "request\<lparr>rr_Context := (rr_Context request)\<lparr>rc_StartedAt := t\<rparr>\<rparr>" and ?m = "effective_max_steps (rc_Budget (rr_Context request))"
  let ?c = "with_max_steps ?m (rr_Context ?request)" and ?new = "new_result ((rr_Context request)\<lparr>rc_StartedAt := t\<rparr>) (rr_Messages request) [] zero_usage"
  consider e where "r = fst (failResult ?new e) \<or> r = fst (failResult (?new\<lparr>rs_Context := ?c\<rparr>) e)"
    | answer d catalog w2 w3 where "en_Complete env = Some answer" "run_loop env answer d (?request\<lparr>rr_Context := ?c\<rparr>) catalog ?m (nat ?m) 1 (?new\<lparr>rs_Context := ?c\<rparr>) w2 = ((r, err), w3)" "?m \<le> MaxAllowedSteps"
    using f by (auto simp: runFromState_def check_request_def failResult_def Let_def split: option.splits if_splits sum.splits prod.splits)
  then show ?thesis
  proof cases
    case 1
    then show ?thesis by (auto simp: failResult_def new_result_def run_counted_def)
  next
    case 2
    have "run_counted (length (rs_Steps (?new\<lparr>rs_Context := ?c\<rparr>))) (?new\<lparr>rs_Context := ?c\<rparr>)" by (simp add: run_counted_def new_result_def)
    then show ?thesis using run_loop_counted [OF assms(2) 2(1,2)] 2(3) by (simp add: new_result_def MaxAllowedSteps_def)
  qed
qed

section \<open>Goals\<close>

text \<open>What is left after a count, without a wrap-around.\<close>

lemma left_exact:
  assumes "counted m used" "m \<le> 16384" "machine_budget budget"
  shows "0 < bg_MaxTotalTokens budget \<Longrightarrow> i64 (bg_MaxTotalTokens budget - tu_TotalTokens used) = bg_MaxTotalTokens budget - tu_TotalTokens used"
    and "0 < bg_MaxEstimatedCostMicros budget \<Longrightarrow> i64 (bg_MaxEstimatedCostMicros budget - tu_EstimatedCostMicros used) = bg_MaxEstimatedCostMicros budget - tu_EstimatedCostMicros used"
  using assms(2,3) counted_bounds(1,2) [OF assms(1), of UTotal] counted_bounds(1,2) [OF assms(1), of UCost]
  by (auto simp: in_i64_def machine_budget_def intro!: i64_id)

lemma run_steps_bound: "run_steps b \<le> 64"
  by (auto simp: run_steps_def Let_def MaxAllowedSteps_def)

lemma run_counted_usage: "run_counted n r \<Longrightarrow> n \<le> 8192 \<Longrightarrow> counted 16384 (rs_Usage r)"
  unfolding run_counted_def by (erule counted_mono) simp

lemma remainingGoalBudget_leaves:
  assumes "remainingGoalBudget base previous = Inr remaining" "run_counted n previous" "n \<le> 8192" "machine_budget base"
  shows "leaves base (rs_Usage previous) remaining" "machine_budget remaining"
proof -
  show "leaves base (rs_Usage previous) remaining" using assms(1) left_exact [OF run_counted_usage [OF assms(2,3)] _ assms(4)]
    by (auto simp: remainingGoalBudget_def leaves_def Let_def split: if_splits)
  show "machine_budget remaining" using assms(1,4) in_i64_i64 by (auto simp: remainingGoalBudget_def machine_budget_def Let_def split: if_splits)
qed

lemma leaves_within: "leaves budget used rest \<Longrightarrow> budgetWithin candidate rest \<Longrightarrow> leaves budget used candidate"
  by (auto simp: leaves_def budgetWithin_def limitWithin_def)

lemma repairs_leaves:
  assumes "repairs g base previous q" "run_counted n previous" "n \<le> 8192" "machine_budget (rc_Budget (rr_Context base))"
  shows "leaves (rc_Budget (rr_Context base)) (rs_Usage previous) (rc_Budget (rr_Context q))"
proof (cases "validateVerifiedRepairRequest g base previous q = None")
  case True
  then obtain remaining where "remainingGoalBudget (rc_Budget (rr_Context base)) previous = Inr remaining" "budgetWithin (rc_Budget (rr_Context q)) remaining"
    by (auto simp: validateVerifiedRepairRequest_def split: if_splits option.splits sum.splits)
  then show ?thesis using leaves_within remainingGoalBudget_leaves(1) assms(2-4) by blast
next
  case False
  then obtain verification where "buildGoalRepairRequest base previous verification = Inr q" using assms(1) by (auto simp: repairs_def)
  then show ?thesis using left_exact [OF run_counted_usage [OF assms(2,3)] _ assms(4)]
    by (auto simp: buildGoalRepairRequest_def leaves_def Let_def split: if_splits)
qed

lemma run_counted_no_steps: "run_counted 0 r \<Longrightarrow> uval f (rs_Usage r) = 0"
  using counted_bounds(1,2) [of 0 "rs_Usage r" f] by (auto simp: run_counted_def)

lemma merge_counted:
  assumes "run_counted (length (rs_Steps current)) current" "run_counted (length (rs_Steps later)) later" "length (rs_Steps current) + length (rs_Steps later) \<le> 8192"
  shows "run_counted (length (rs_Steps (mergeGoalRunResults current later c))) (mergeGoalRunResults current later c)"
  using assms counted_Add(2) [of "2 * int (length (rs_Steps current))" "rs_Usage current" "2 * int (length (rs_Steps later))" "rs_Usage later"]
  by (auto simp: mergeGoalRunResults_def run_counted_def algebra_simps)

lemma merge_within:
  assumes "leaves budget (rs_Usage current) rest" "within_budget rest (rs_Usage later)"
    and "run_counted (length (rs_Steps current)) current" "run_counted (length (rs_Steps later)) later" "length (rs_Steps current) + length (rs_Steps later) \<le> 8192"
  shows "within_budget budget (rs_Usage (mergeGoalRunResults current later c))"
proof (cases "rs_Messages current = [] \<and> rs_Steps current = []")
  case True
  then have "tu_TotalTokens (rs_Usage current) = 0" "tu_EstimatedCostMicros (rs_Usage current) = 0"
    using run_counted_no_steps [of current UTotal] run_counted_no_steps [of current UCost] assms(3) by simp_all
  then show ?thesis using assms(1,2) True by (auto simp: mergeGoalRunResults_def leaves_def within_budget_def)
next
  case False
  have "within_budget budget (usage_Add (rs_Usage current) (rs_Usage later))"
    using within_leaves [OF assms(1,2) assms(3,4) [unfolded run_counted_def]] assms(5) by simp
  then show ?thesis using False by (auto simp: mergeGoalRunResults_def)
qed

text \<open>A runner that stays within the budget of its request when it does not fail, and counts what it used in any case.\<close>

locale accounted_runner = agent_runner +
  fixes honest :: bool
  assumes run_within: "run request w = ((r, err), w') \<Longrightarrow> rs_Status r \<noteq> RunStatusFailed \<Longrightarrow> within_budget (rc_Budget (rr_Context request)) (rs_Usage r)"
    and run_counts: "honest \<Longrightarrow> run request w = ((r, err), w') \<Longrightarrow> run_counted (length (rs_Steps r)) r"
begin

lemma goal_loop_within:
  assumes "goal_loop v run verify request a q result w = ((r, err), w')" and "honest" "machine_budget (rc_Budget (rr_Context (gr_Run request)))"
    and "length (rs_Steps (gs_Run result)) + run_steps (rc_Budget (rr_Context q)) \<le> run_steps (rc_Budget (rr_Context (gr_Run request)))" "numbered (rs_Steps (gs_Run result))"
    and "a = 0 \<Longrightarrow> q = gr_Run request" "0 \<le> a" "0 < a \<Longrightarrow> 1 \<le> run_steps (rc_Budget (rr_Context (gr_Run request)))"
    and "run_counted (length (rs_Steps (gs_Run result))) (gs_Run result)" "leaves (rc_Budget (rr_Context (gr_Run request))) (rs_Usage (gs_Run result)) (rc_Budget (rr_Context q))"
  shows "run_counted (length (rs_Steps (gs_Run r))) (gs_Run r) \<and> (rs_Status (gs_Run r) \<noteq> RunStatusFailed \<longrightarrow> within_budget (rc_Budget (rr_Context (gr_Run request))) (rs_Usage (gs_Run r)))"
  using assms
proof (induction "nat (tk_MaxRepairAttempts (gr_Task request) - a)" arbitrary: a q result w rule: less_induct)
  case less
  let ?base = "gr_Run request"
  obtain x w1 where g: "goal_attempt v run verify request a q result w = (x, w1)" by fastforce
  obtain ar runErr w2 where ar: "run q w = ((ar, runErr), w2)" by (metis prod.exhaust)
  let ?merged = "mergeGoalRunResults (gs_Run result) ar (rr_Context ?base)"
  note res = goal_attempt_result [OF g ar refl]
  have small: "length (rs_Steps (gs_Run result)) + length (rs_Steps ar) \<le> 64"
    using steps_bounded [OF ar] less.prems(4) run_steps_bound [of "rc_Budget (rr_Context ?base)"] by linarith
  have m: "numbered (rs_Steps ?merged)" "length (rs_Steps ?merged) \<le> run_steps (rc_Budget (rr_Context ?base))" "length (rs_Steps ?merged) \<le> 64"
    using merge_steps [OF less.prems(5) steps_numbered [OF ar], where c = "rr_Context ?base"] steps_bounded [OF ar] less.prems(4) small by linarith+
  have c: "run_counted (length (rs_Steps ?merged)) ?merged" by (rule merge_counted [OF less.prems(9) run_counts [OF assms(2) ar]]) (use small in simp)
  have within: "within_budget (rc_Budget (rr_Context ?base)) (rs_Usage ?merged)" if "rs_Status ar \<noteq> RunStatusFailed"
    by (rule merge_within [OF less.prems(10) run_within [OF ar that] less.prems(9) run_counts [OF assms(2) ar]]) (use small in simp)
  show ?case
  proof (cases x)
    case (Inl out)
    then have "(r, err) = out" using less.prems(1) g by (simp add: goal_loop.simps)
    then show ?thesis using res Inl c within by auto
  next
    case (Inr y)
    then obtain q' r' where y: "x = Inr (q', r')" by (cases y) auto
    have lt: "a < tk_MaxRepairAttempts (gr_Task request)" using goal_attempt_repairs [OF g [unfolded y]] .
    have one: "1 \<le> run_steps (rc_Budget (rr_Context ?base))"
    proof (cases "a = 0")
      case True
      then have "run_steps (rc_Budget (rr_Context ?base)) \<noteq> 0" using no_steps_fails [OF ar] less.prems(6) res y by auto
      then show ?thesis by simp
    qed (use less.prems in simp)
    have "goal_loop v run verify request (a + 1) q' r' w1 = ((r, err), w')" using less.prems(1) g y by (simp add: goal_loop.simps)
    moreover have "leaves (rc_Budget (rr_Context ?base)) (rs_Usage ?merged) (rc_Budget (rr_Context q'))"
      by (rule repairs_leaves [OF _ c _ less.prems(3)]) (use res y m in auto)
    ultimately show ?thesis
      using less.hyps [of "a + 1" q' r' w1] lt less.prems(2,3,7) res y m one c repair_steps [of "vr_goal v" ?base ?merged q'] by auto
  qed
qed

end

interpretation react_accounts: accounted_runner "Run env" "honest_model env" for env
proof
  show "within_budget (rc_Budget (rr_Context request)) (rs_Usage r)" if run: "Run env request w = ((r, err), w')" and "rs_Status r \<noteq> RunStatusFailed" for request w r err w'
  proof -
    obtain t where "outcome_ok (run_context request t) (r, err)" by (rule Run_ok [OF run])
    then show ?thesis using \<open>rs_Status r \<noteq> RunStatusFailed\<close> by (auto simp: outcome_ok_def)
  qed
  show "run_counted (length (rs_Steps r)) r" if "honest_model env" "Run env request w = ((r, err), w')" for request w r err w'
    by (rule Run_counted [OF that(2,1)])
qed

lemma goal_run_accounts:
  assumes "vr_Run v = Some (Run env)" and "honest_model env" and "machine_budget (rc_Budget (rr_Context (gr_Run request)))"
    and "VerifiedRunner_Run v request w = ((r, err), w')" and "rs_Status (gs_Run r) \<noteq> RunStatusFailed"
  shows "within_budget (rc_Budget (rr_Context (gr_Run request))) (rs_Usage (gs_Run r))"
proof -
  let ?zero = "new_goal_result (gr_Evidence request) None 0"
  consider "r = ?zero"
    | verify tools b w1 where "goal_loop v (Run env) verify (request\<lparr>gr_Run := (gr_Run request)\<lparr>rr_Tools := tools\<rparr>\<rparr>) 0 ((gr_Run request)\<lparr>rr_Tools := tools\<rparr>) (?zero\<lparr>gs_Before := b\<rparr>) w1 = ((r, err), w')"
    using assms(1,4) by (auto simp: VerifiedRunner_Run_def Let_def split: option.splits sum.splits prod.splits)
  then show ?thesis
  proof cases
    case 1
    then show ?thesis by (simp add: new_goal_result_def zero_run_def new_result_def within_budget_def) (simp add: zero_usage_def)
  next
    case 2
    have zero: "rs_Steps (gs_Run ?zero) = []" "rs_Usage (gs_Run ?zero) = zero_usage" by (simp_all add: new_goal_result_def zero_run_def new_result_def)
    show ?thesis using react_accounts.goal_loop_within [OF 2 assms(2)] assms(3,5) by (simp add: zero run_counted_def)
  qed
qed

text \<open>
  C17. The attempts of a goal share one budget of tokens and cost: over the reason-act runner, a goal whose last attempt did not fail has used, with
  all its repairs, at most the tokens and the cost that its budget allows one run, whatever the repairs were built from. It is assumed that providers
  count what they used and that no call uses more than \<open>2 ^ 48\<close>.
\<close>
theorem goal_run_within_budget:
  assumes "vr_Run v = Some (Run env)" and "honest_model env" and "machine_budget (rc_Budget (rr_Context (gr_Run request)))"
    and "VerifiedRunner_Run v request w = ((r, err), w')" and "rs_Status (gs_Run r) \<noteq> RunStatusFailed"
  shows "within_budget (rc_Budget (rr_Context (gr_Run request))) (rs_Usage (gs_Run r))"
  by (rule goal_run_accounts [OF assms])

lemma react_demo_honest: "honest_model (react_demo_env script)"
proof -
  have "small_count (uval f (mp_Usage (fst (scripted script es q))))" for f es q
    by (cases f) (simp_all add: scripted_def react_demo_response_def small_count_def zero_usage_def Let_def)
  moreover have "small_count 4" "small_count 0" by (simp_all add: small_count_def)
  ultimately show ?thesis by (simp add: honest_model_def react_demo_env_def) (simp add: zero_usage_def)
qed

lemma goal_demo_honest: "honest_model (goal_demo_env script)"
  using react_demo_honest [of script] by (simp add: honest_model_def goal_demo_env_def)

theorem goal_run_within_budget_witness:
  "within_budget (rc_Budget (rr_Context (react_demo_request 4))) (rs_Usage (gs_Run (fst (fst (goal_demo_run 4 goal_demo_repaired)))))
   \<and> tu_TotalTokens (rs_Usage (gs_Run (fst (fst (goal_demo_run 4 goal_demo_repaired))))) = 15 \<and> bg_MaxTotalTokens (rc_Budget (rr_Context (react_demo_request 4))) = 20"
proof (intro conjI)
  obtain r err w' where r: "goal_demo_run 4 goal_demo_repaired = ((r, err), w')" by (metis prod.exhaust)
  have 1: "vr_Run (goal_demo_runner goal_demo_repaired) = Some (Run (goal_demo_env goal_demo_repaired))" by (simp add: goal_demo_runner_def)
  have 2: "machine_budget (rc_Budget (rr_Context (gr_Run (goal_demo_request 4))))" by code_simp
  have 3: "rs_Status (gs_Run (fst (fst (goal_demo_run 4 goal_demo_repaired)))) \<noteq> RunStatusFailed" by code_simp
  show "within_budget (rc_Budget (rr_Context (react_demo_request 4))) (rs_Usage (gs_Run (fst (fst (goal_demo_run 4 goal_demo_repaired)))))"
    using goal_run_within_budget [OF 1 goal_demo_honest 2 r [unfolded goal_demo_run_def]] 3 r by (simp add: goal_demo_request_def)
  show "tu_TotalTokens (rs_Usage (gs_Run (fst (fst (goal_demo_run 4 goal_demo_repaired))))) = 15" by code_simp
  show "bg_MaxTotalTokens (rc_Budget (rr_Context (react_demo_request 4))) = 20" by code_simp
qed

end
