(* ===== verification/Planner_Properties.thy ===== *)
theory Planner_Properties
  imports Plan_Model Goal_Budget
begin

text \<open>
  The properties of the model-backed planner: which texts it accepts as a plan, that a plan survives its encoding, how often
  it calls the model and with what, and that planning with its repairs stays within the budget of the request. What the coordinator needs
  of a planner for the last is the locale \<open>budgeted_planner\<close>.
\<close>

section \<open>Planners within their budget\<close>

lemma remaining_leaves:
  assumes "remaining_budget k tm cm budget used = Inr rest" "counted m used" "m \<le> 16384" "machine_budget budget"
  shows "leaves budget used rest"
proof -
  have "i64 (bg_MaxTotalTokens budget - tu_TotalTokens used) = bg_MaxTotalTokens budget - tu_TotalTokens used" if "0 < bg_MaxTotalTokens budget"
    using that assms(3,4) counted_bounds(1,2) [OF assms(2), of UTotal] by (intro i64_id) (auto simp: in_i64_def machine_budget_def)
  moreover have "i64 (bg_MaxEstimatedCostMicros budget - tu_EstimatedCostMicros used) = bg_MaxEstimatedCostMicros budget - tu_EstimatedCostMicros used" if "0 < bg_MaxEstimatedCostMicros budget"
    using that assms(3,4) counted_bounds(1,2) [OF assms(2), of UCost] by (intro i64_id) (auto simp: in_i64_def machine_budget_def)
  ultimately show ?thesis using assms(1)
    by (auto simp: remaining_budget_def Let_def counted_normalized [OF assms(2)] leaves_def split: if_splits)
qed

locale budgeted_planner =
  fixes planner :: "ShortPlanRequest \<Rightarrow> 'w \<Rightarrow> (ShortPlanResult \<times> gerr option) \<times> 'w" and honest :: bool
  assumes within: "planner q w = ((r, None), w') \<Longrightarrow> within_budget (sr_Budget q) (sl_Usage r)"
    and counts: "honest \<Longrightarrow> planner q w = ((r, None), w') \<Longrightarrow> counted 4 (sl_Usage r)"
begin

lemma round_within:
  assumes "honest" "machine_budget (sr_Budget request)" "coordinate_round planner policy n request current result w = (x, w')"
    and "counted (4 * pg_AdmissionRepairs result) (pg_Usage result)" "pg_AdmissionRepairs result \<le> 1" "leaves (sr_Budget request) (pg_Usage result) (sr_Budget current)"
  shows "case x of Inl (out, err) \<Rightarrow> err = None \<longrightarrow> within_budget (sr_Budget request) (pg_Usage out) \<and> counted 8 (pg_Usage out)
    | Inr (q, r) \<Rightarrow> leaves (sr_Budget request) (pg_Usage r) (sr_Budget q) \<and> counted (4 * pg_AdmissionRepairs r) (pg_Usage r)"
proof -
  obtain r err w1 where p: "planner current w = ((r, err), w1)" by (metis prod.exhaust)
  show ?thesis
  proof (cases err)
    case (Some e)
    then show ?thesis using assms(3) p by (auto simp: coordinate_round_def Let_def)
  next
    case None
    note u = within [OF p [unfolded None]] counts [OF assms(1) p [unfolded None]]
    let ?r = "count_plan r result"
    have usage: "pg_Usage ?r = usage_Add (pg_Usage result) (sl_Usage r)" "pg_AdmissionRepairs ?r = pg_AdmissionRepairs result"
      by (simp_all add: count_plan_def counted_normalized [OF u(2)])
    have le: "4 * pg_AdmissionRepairs result + 4 \<le> 16384" using assms(5) by simp
    have used: "counted (4 * pg_AdmissionRepairs result + 4) (pg_Usage ?r)" "within_budget (sr_Budget request) (pg_Usage ?r)"
      unfolding usage using counted_Add(2) [OF assms(4) u(2) le] within_leaves [OF assms(6) u(1) assms(4) u(2) le] .
    have "counted 8 (pg_Usage ?r)" using counted_mono [OF used(1)] assms(5) by simp
    moreover have "leaves (sr_Budget request) (pg_Usage ?r) rest" if "remainingShortPlanBudget (sr_Budget request) (pg_Usage ?r) k = Inr rest" for rest k
      using remaining_leaves [OF that [unfolded remainingShortPlanBudget_def] used(1) le assms(2)] .
    ultimately show ?thesis using assms(3) used p None
      by (auto simp: coordinate_round_def Let_def usage(2) distrib_left split: sum.splits option.splits if_splits prod.splits)
  qed
qed

lemma coordinate_loop_within:
  assumes "honest" "machine_budget (sr_Budget request)" "n \<le> 1"
  shows "coordinate_loop planner policy n request current result w = ((out, None), w') \<Longrightarrow> counted (4 * pg_AdmissionRepairs result) (pg_Usage result)
    \<Longrightarrow> pg_AdmissionRepairs result \<le> 1 \<Longrightarrow> leaves (sr_Budget request) (pg_Usage result) (sr_Budget current)
    \<Longrightarrow> within_budget (sr_Budget request) (pg_Usage out) \<and> counted 8 (pg_Usage out)"
proof (induction "nat (n - pg_AdmissionRepairs result)" arbitrary: current result w rule: less_induct)
  case less
  obtain x w1 where x: "coordinate_round planner policy n request current result w = (x, w1)" by fastforce
  note round = round_within [OF assms(1,2) x less.prems(2-4)]
  show ?case
  proof (cases x)
    case (Inl out')
    then show ?thesis using round less.prems(1) x by (auto simp: coordinate_loop.simps)
  next
    case (Inr y)
    then obtain q r where y: "x = Inr (q, r)" by (cases y) simp
    have "nat (n - pg_AdmissionRepairs r) < nat (n - pg_AdmissionRepairs result)" "pg_AdmissionRepairs r \<le> 1"
      using coordinate_round_measure [OF x [unfolded y, symmetric]] coordinate_round_repairs [OF x [unfolded y]] assms(3) by auto
    then show ?thesis using less.hyps [of r q w1] round less.prems(1) x y by (auto simp: coordinate_loop.simps)
  qed
qed

lemma Coordinate_within:
  assumes "honest" "machine_budget (sr_Budget request)" "pc_maxAdmissionRepairs coordinator \<le> 1" "pc_planner coordinator = Some planner"
    and "Coordinate (Some coordinator) ctx request w = ((out, None), w')"
  shows "within_budget (sr_Budget request) (pg_Usage out)" "counted 8 (pg_Usage out)"
proof -
  obtain policy where "coordinate_loop planner policy (pc_maxAdmissionRepairs coordinator) request request zero_planning w = ((out, None), w')"
    using assms(4,5) by (auto simp: Coordinate_def bind_option2_def Let_def split: option.splits if_splits sum.splits bind_splits)
  from coordinate_loop_within [OF assms(1-3) this]
  show "within_budget (sr_Budget request) (pg_Usage out)" "counted 8 (pg_Usage out)" by (simp_all add: zero_planning_def)
qed

end

section \<open>The planner that asks a model\<close>

lemma plan_call_response:
  assumes "plan_call env answer request callBudget messages attempt result w = (Inr (r, response), w')"
  obtains usage es e q' step where "sl_Usage r = usage_Add (sl_Usage result) usage" "answer es q' = (response, e)"
      "resolveShortPlanModelCost env (sr_Model request) response (resolvedModelUsage env (en_EstimateRequest env q') response) = Inr usage"
      "enforceCompletedUsage callBudget (sl_Usage result) usage step = None"
proof -
  let ?q = "plan_model_request request callBudget messages attempt"
  obtain reservation w1 where w1: "reserveShortPlanSharedBudget env callBudget (sr_Model request) (en_EstimateRequest env ?q) w = Inr (reservation, w1)"
    using assms by (auto simp: plan_call_def Let_def split: option.splits sum.splits)
  obtain response' e where a: "answer (wd_log w1) ?q = (response', e)" by fastforce
  then have e: "e = None" using assms w1 by (auto simp: plan_call_def Let_def split: option.splits prod.splits)
  obtain usage where u: "resolveShortPlanModelCost env (sr_Model request) response' (resolvedModelUsage env (en_EstimateRequest env ?q) response') = Inr usage"
    using assms w1 a e by (auto simp: plan_call_def Let_def split: option.splits prod.splits sum.splits)
  have "response' = response" "sl_Usage r = usage_Add (sl_Usage result) usage" "enforceCompletedUsage callBudget (sl_Usage result) usage (mr_StepIndex ?q) = None"
    using assms w1 a e u by (auto simp: plan_call_def Let_def split: option.splits prod.splits)
  then show thesis using that [of usage "wd_log w1" ?q e "mr_StepIndex ?q"] a u by simp
qed

lemma plan_call_usage:
  assumes "plan_call env answer request callBudget messages attempt result w = (Inr (r, response), w')"
  shows "within_budget callBudget (sl_Usage r)"
    and "honest_model env \<Longrightarrow> en_Complete env = Some answer \<Longrightarrow> counted k (sl_Usage result) \<Longrightarrow> k \<le> 16382 \<Longrightarrow> counted (k + 2) (sl_Usage r)"
proof -
  obtain usage es e q' step where u: "sl_Usage r = usage_Add (sl_Usage result) usage" "answer es q' = (response, e)"
      "resolveShortPlanModelCost env (sr_Model request) response (resolvedModelUsage env (en_EstimateRequest env q') response) = Inr usage"
      "enforceCompletedUsage callBudget (sl_Usage result) usage step = None"
    using assms by (rule plan_call_response)
  show "within_budget callBudget (sl_Usage r)" using enforced_within [OF u(4)] by (simp add: u(1))
  show "counted (k + 2) (sl_Usage r)" if "honest_model env" "en_Complete env = Some answer" "counted k (sl_Usage result)" "k \<le> 16382"
    unfolding u(1) using counted_Add(2) [OF that(3) priced_counted [OF that(1) resolved_usage_counted [OF that(1) honest_answer [OF that(1,2) u(2)]] u(3) [unfolded resolveShortPlanModelCost_def]]] that(4) by simp
qed

lemma plan_attempts_usage:
  assumes "plan_attempts p answer request callBudget messages left attempt result w = ((r, None), w')"
  shows "within_budget callBudget (sl_Usage r)"
    and "honest_model (pm_env p) \<Longrightarrow> en_Complete (pm_env p) = Some answer \<Longrightarrow> counted k (sl_Usage result) \<Longrightarrow> k + 2 * int left \<le> 16384 \<Longrightarrow> counted (k + 2 * int left) (sl_Usage r)"
proof -
  have "within_budget callBudget (sl_Usage r) \<and> (honest_model (pm_env p) \<longrightarrow> en_Complete (pm_env p) = Some answer \<longrightarrow> (\<forall>k. counted k (sl_Usage result) \<longrightarrow> k + 2 * int left \<le> 16384
      \<longrightarrow> counted (k + 2 * int left) (sl_Usage r)))"
    using assms
  proof (induction p answer request callBudget messages left attempt result w rule: plan_attempts.induct)
    case (2 p answer request callBudget messages left attempt result w)
    obtain result1 response w1 where call: "plan_call (pm_env p) answer request callBudget messages attempt result w = (Inr (result1, response), w1)"
      using 2(2) by (auto split: sum.splits prod.splits)
    note usage = plan_call_usage [OF call]
    show ?case
    proof (cases "bind_res (shortPlanModelContent response) (DecodeShortPlanProposal (pm_json p))")
      case (Inr proposal)
      then have r: "sl_Usage r = sl_Usage result1" using 2(2) call by auto
      show ?thesis
      proof (unfold r, intro conjI impI allI)
        show "within_budget callBudget (sl_Usage result1)" by (rule usage(1))
        show "counted (k + 2 * int (Suc left)) (sl_Usage result1)"
          if "honest_model (pm_env p)" "en_Complete (pm_env p) = Some answer" "counted k (sl_Usage result)" "k + 2 * int (Suc left) \<le> 16384" for k
          using usage(2) [OF that(1-3)] that(4) by (auto elim: counted_mono)
      qed
    next
      case (Inl err)
      then have rest: "left \<noteq> 0" "plan_attempts p answer request callBudget messages left (attempt + 1) result1 w1 = ((r, None), w')"
        using 2(2) call by (auto split: if_splits)
      note IH = 2(1) [OF call [symmetric] refl refl Inl rest]
      show ?thesis
      proof (intro conjI impI allI)
        show "within_budget callBudget (sl_Usage r)" using IH by blast
        show "counted (k + 2 * int (Suc left)) (sl_Usage r)"
          if "honest_model (pm_env p)" "en_Complete (pm_env p) = Some answer" "counted k (sl_Usage result)" "k + 2 * int (Suc left) \<le> 16384" for k
        proof -
          have "counted (k + 2) (sl_Usage result1)" using usage(2) [OF that(1-3)] that(4) by simp
          then have "counted (k + 2 + 2 * int left) (sl_Usage r)" using IH that by simp
          then show ?thesis by (simp add: algebra_simps)
        qed
      qed
    qed
  qed simp
  then show "within_budget callBudget (sl_Usage r)"
    and "honest_model (pm_env p) \<Longrightarrow> en_Complete (pm_env p) = Some answer \<Longrightarrow> counted k (sl_Usage result) \<Longrightarrow> k + 2 * int left \<le> 16384 \<Longrightarrow> counted (k + 2 * int left) (sl_Usage r)"
    by blast+
qed

lemma Plan_attempts:
  assumes "ModelShortHorizonPlanner_Plan p request w = ((r, None), w')"
  obtains answer messages w1 request' where "en_Complete (pm_env p) = Some answer" "sr_Budget request' = sr_Budget request"
    "plan_attempts p answer request' (call_budget p request') messages (nat (pm_maxParseRepairs p + 1)) 0 zero_short_plan w1 = ((r, None), w')"
proof -
  let ?q = "request\<lparr>sr_Model := trim_space (sr_Model request)\<rparr>"
  have "\<exists>answer messages w1. en_Complete (pm_env p) = Some answer
      \<and> plan_attempts p answer ?q (call_budget p ?q) messages (nat (pm_maxParseRepairs p + 1)) 0 zero_short_plan w1 = ((r, None), w')"
    using assms by (auto simp: ModelShortHorizonPlanner_Plan_def Let_def split: option.splits prod.splits if_splits sum.splits)
  then show thesis using that [of _ ?q] by auto
qed

interpretation model_planner: budgeted_planner "ModelShortHorizonPlanner_Plan p" "honest_model (pm_env p) \<and> pm_maxParseRepairs p \<le> 1" for p
proof
  show "within_budget (sr_Budget q) (sl_Usage r)" if "ModelShortHorizonPlanner_Plan p q w = ((r, None), w')" for q w r w'
    using that by (rule Plan_attempts) (auto dest: plan_attempts_usage(1) simp: within_budget_def call_budget_def)
  show "counted 4 (sl_Usage r)" if h: "honest_model (pm_env p) \<and> pm_maxParseRepairs p \<le> 1" and r: "ModelShortHorizonPlanner_Plan p q w = ((r, None), w')" for q w r w'
  proof -
    obtain answer messages w1 q' where a: "en_Complete (pm_env p) = Some answer"
        "plan_attempts p answer q' (call_budget p q') messages (nat (pm_maxParseRepairs p + 1)) 0 zero_short_plan w1 = ((r, None), w')"
      using r by (rule Plan_attempts)
    have "counted (0 + 2 * int (nat (pm_maxParseRepairs p + 1))) (sl_Usage r)"
      using plan_attempts_usage(2) [OF a(2) _ a(1), of 0] h by (simp add: zero_short_plan_def)
    then show ?thesis by (rule counted_mono) (use h in simp)
  qed
qed

section \<open>The calls of a planner\<close>

text \<open>A planner whose calls are counted in its result; \<open>made n\<close> relates the worlds before and after \<open>n\<close> of them.\<close>

locale counting_planner =
  fixes planner :: "ShortPlanRequest \<Rightarrow> 'w \<Rightarrow> (ShortPlanResult \<times> gerr option) \<times> 'w" and made :: "int \<Rightarrow> 'w \<Rightarrow> 'w \<Rightarrow> bool" and most :: int
  assumes made_none: "made 0 w w"
    and made_more: "made m w w1 \<Longrightarrow> made n w1 w2 \<Longrightarrow> made (m + n) w w2"
    and made_planning: "planner q w = ((r, err), w') \<Longrightarrow> made (sl_Attempts r) w w' \<and> 0 \<le> sl_Attempts r \<and> sl_Attempts r \<le> most"
begin

lemma round_made:
  assumes "coordinate_round planner (DeterministicShortPlanPolicy e ctx) n request current result w = (x, w')" and "made (pg_ModelAttempts result) w0 w"
  shows "case x of Inl (out, err) \<Rightarrow> made (pg_ModelAttempts out) w0 w' \<and> pg_ModelAttempts out \<le> pg_ModelAttempts result + most
    | Inr (q, r) \<Rightarrow> made (pg_ModelAttempts r) w0 w' \<and> pg_ModelAttempts r \<le> pg_ModelAttempts result + most"
proof -
  obtain r err w1 where p: "planner current w = ((r, err), w1)" by (metis prod.exhaust)
  then have "w' = w1" using assms(1) by (auto simp: coordinate_round_def DeterministicShortPlanPolicy_def Let_def split: option.splits sum.splits if_splits)
  moreover have "made (pg_ModelAttempts result + sl_Attempts r) w0 w1" "sl_Attempts r \<le> most" using made_more [OF assms(2)] made_planning [OF p] by simp_all
  ultimately show ?thesis using assms(1) p
    by (auto simp: coordinate_round_def count_plan_def Let_def split: option.splits sum.splits if_splits prod.splits)
qed

lemma coordinate_loop_made:
  "coordinate_loop planner (DeterministicShortPlanPolicy e ctx) n request current result w = ((out, err), w') \<Longrightarrow> made (pg_ModelAttempts result) w0 w
    \<Longrightarrow> made (pg_ModelAttempts out) w0 w' \<and> pg_ModelAttempts out \<le> pg_ModelAttempts result + (1 + max 0 (n - pg_AdmissionRepairs result)) * most"
proof (induction "nat (n - pg_AdmissionRepairs result)" arbitrary: current result w rule: less_induct)
  case less
  have most: "0 \<le> most" using made_planning [of current w] by (metis prod.exhaust order_trans)
  obtain x w1 where x: "coordinate_round planner (DeterministicShortPlanPolicy e ctx) n request current result w = (x, w1)" by fastforce
  note round = round_made [OF x less.prems(2)]
  show ?case
  proof (cases x)
    case (Inl out')
    have "0 \<le> max 0 (n - pg_AdmissionRepairs result) * most" using most by simp
    then show ?thesis using round less.prems(1) x Inl by (auto simp: coordinate_loop.simps [of planner] distrib_right)
  next
    case (Inr y)
    then obtain q r where y: "x = Inr (q, r)" by (cases y) simp
    have r: "pg_AdmissionRepairs r = pg_AdmissionRepairs result + 1" "pg_AdmissionRepairs result < n" using coordinate_round_repairs [OF x [unfolded y]] by auto
    have "made (pg_ModelAttempts out) w0 w' \<and> pg_ModelAttempts out \<le> pg_ModelAttempts r + (1 + max 0 (n - pg_AdmissionRepairs r)) * most"
      using less.hyps [of r q w1] round less.prems(1) x y coordinate_round_measure [OF x [unfolded y, symmetric]] by (auto simp: coordinate_loop.simps [of planner _ _ _ current])
    then show ?thesis using round y r by (auto simp: algebra_simps)
  qed
qed

lemma Coordinate_made:
  assumes "Coordinate (Some coordinator) ctx request w = ((out, err), w')" and "pc_planner coordinator = Some planner" "pc_policy coordinator = Some (DeterministicShortPlanPolicy e policy_ctx)"
  shows "made (pg_ModelAttempts out) w w' \<and> pg_ModelAttempts out \<le> (1 + max 0 (pc_maxAdmissionRepairs coordinator)) * most"
proof -
  have most: "0 \<le> most" using made_planning [of request w] by (metis prod.exhaust order_trans)
  then have "0 \<le> (1 + max 0 (pc_maxAdmissionRepairs coordinator)) * most" by simp
  moreover have "out = zero_planning \<and> w' = w \<or> coordinate_loop planner (DeterministicShortPlanPolicy e policy_ctx) (pc_maxAdmissionRepairs coordinator) request request zero_planning w = ((out, err), w')"
    using assms by (auto simp: Coordinate_def bind_option2_def Let_def split: option.splits if_splits sum.splits)
  ultimately show ?thesis using coordinate_loop_made [of e policy_ctx "pc_maxAdmissionRepairs coordinator" request request zero_planning w out err w' w] made_none
    by (auto simp: zero_planning_def)
qed

end

text \<open>The effects of planning: the model is called \<open>n\<close> times, without tools, and nothing else is called.\<close>

fun planning_effect :: "int \<Rightarrow> run_effect \<Rightarrow> bool" where
  "planning_effect m (RModel q) \<longleftrightarrow> mr_Tools q = [] \<and> mr_ToolChoice q = ToolChoiceNone \<and> mr_MaxOutputTokens q \<le> m"
| "planning_effect m (RTool g c) \<longleftrightarrow> False"
| "planning_effect m (RResume r) \<longleftrightarrow> False"
| "planning_effect m (RSearch q) \<longleftrightarrow> False"
| "planning_effect m (RAcquire q granted) \<longleftrightarrow> False"
| "planning_effect m (RReleasePermit q) \<longleftrightarrow> False"
| "planning_effect m RClock \<longleftrightarrow> False"
| "planning_effect m RTimer \<longleftrightarrow> False"
| "planning_effect m (RCtx deadline) \<longleftrightarrow> deadline = None"
| "planning_effect m (RReserve e) \<longleftrightarrow> True"
| "planning_effect m (RCommit u) \<longleftrightarrow> True"
| "planning_effect m RReturn \<longleftrightarrow> True"

definition planned :: "int \<Rightarrow> int \<Rightarrow> run_world \<Rightarrow> run_world \<Rightarrow> bool" where
  "planned m n w w' \<longleftrightarrow> (\<exists>es. wd_log w' = wd_log w @ es \<and> int (length (filter is_model es)) = n \<and> list_all (planning_effect m) es)"

lemma planned_refl: "planned m 0 w w"
  by (simp add: planned_def)

lemma planned_trans: "planned m a w w1 \<Longrightarrow> planned m b w1 w2 \<Longrightarrow> planned m (a + b) w w2"
  unfolding planned_def by (fastforce simp: list_all_append)

lemma planned_emit: "planning_effect m e \<Longrightarrow> planned m (if is_model e then 1 else 0) w (emit env e w)"
  by (simp add: planned_def emit_def)

lemma planned_quiet: "planning_effect m e \<Longrightarrow> \<not> is_model e \<Longrightarrow> wd_log w' = wd_log w @ [e] \<Longrightarrow> planned m 0 w w'"
  by (simp add: planned_def)

lemma reserve_planned: "reserveShortPlanSharedBudget env b model est w = Inr (r, w') \<Longrightarrow> planned m 0 w w'"
  by (auto simp: reserveShortPlanSharedBudget_def Let_def emit_def planned_refl split: option.splits sum.splits if_splits intro!: planned_quiet [where e = "RReserve e" for e])

lemma release_planned: "planned m 0 w (release_usage env r w)"
  by (auto simp: release_usage_def emit_def planned_refl split: option.splits intro!: planned_quiet [where e = RReturn])

lemma commit_planned: "commit_usage env r u w = (e, w') \<Longrightarrow> planned m 0 w w'"
  by (auto simp: commit_usage_def emit_def planned_refl split: option.splits if_splits prod.splits intro!: planned_quiet [where e = "RCommit u"])

lemma ctx_planned: "ctx_Err env None w = (e, w') \<Longrightarrow> planned m 0 w w'"
  by (auto simp: ctx_Err_def emit_def intro!: planned_quiet [where e = "RCtx None"])

lemma plan_call_planned:
  assumes "plan_call env answer request callBudget messages attempt result w = (x, w')" and "bg_MaxOutputTokens callBudget \<le> m"
  shows "case x of Inl (r, err) \<Rightarrow> sl_Attempts result \<le> sl_Attempts r \<and> sl_Attempts r \<le> sl_Attempts result + 1 \<and> planned m (sl_Attempts r - sl_Attempts result) w w'
    | Inr (r, response) \<Rightarrow> sl_Attempts r = sl_Attempts result + 1 \<and> planned m 1 w w'"
proof -
  let ?q = "plan_model_request request callBudget messages attempt" and ?est = "en_EstimateRequest env (plan_model_request request callBudget messages attempt)"
  show ?thesis
  proof (cases "reserveShortPlanSharedBudget env callBudget (sr_Model request) ?est w")
    case (Inl err)
    then show ?thesis using assms(1) by (auto simp: plan_call_def Let_def planned_refl split: option.splits)
  next
    case (Inr y)
    then obtain reservation w1 where w1: "reserveShortPlanSharedBudget env callBudget (sr_Model request) ?est w = Inr (reservation, w1)" by (cases y) simp
    let ?w2 = "emit env (RModel ?q) w1"
    have "planning_effect m (RModel ?q)" using assms(2) by (simp add: plan_model_request_def)
    from planned_trans [OF reserve_planned [OF w1] planned_emit [OF this, of w1 env]] have w2: "planned m 1 w ?w2" by simp
    have after: "planned m 1 w w'" if "planned m 0 ?w2 w'" for w' using planned_trans [OF w2 that] by simp
    have "planned m 1 w w3" if "ctx_Err env None (release_usage env reservation ?w2) = (c, w3)" for c w3
      using after planned_trans [OF release_planned ctx_planned [OF that]] by simp
    moreover have "planned m 1 w (release_usage env reservation ?w2)" using after release_planned by blast
    moreover have "planned m 1 w w3" if "commit_usage env reservation u ?w2 = (c, w3)" for u c w3 using after commit_planned [OF that] by blast
    ultimately show ?thesis using assms(1) w1
      by (auto simp: plan_call_def Let_def planned_refl split: option.splits prod.splits sum.splits)
  qed
qed

lemma plan_attempts_planned:
  "plan_attempts p answer request callBudget messages left attempt result w = ((r, err), w') \<Longrightarrow> bg_MaxOutputTokens callBudget \<le> m
    \<Longrightarrow> sl_Attempts result \<le> sl_Attempts r \<and> sl_Attempts r \<le> sl_Attempts result + int left \<and> planned m (sl_Attempts r - sl_Attempts result) w w'"
proof (induction p answer request callBudget messages left attempt result w rule: plan_attempts.induct)
  case (2 p answer request callBudget messages left attempt result w)
  obtain x w1 where x: "plan_call (pm_env p) answer request callBudget messages attempt result w = (x, w1)" by fastforce
  note call = plan_call_planned [OF x 2(3)]
  show ?case
  proof (cases x)
    case (Inl y)
    then show ?thesis using call 2(2) x by auto
  next
    case (Inr y)
    then obtain result1 response where y: "x = Inr (result1, response)" by (cases y) simp
    show ?thesis
    proof (cases "bind_res (shortPlanModelContent response) (DecodeShortPlanProposal (pm_json p))")
      case (Inr proposal)
      then show ?thesis using call 2(2) x y by auto
    next
      case (Inl e)
      show ?thesis
      proof (cases "left = 0")
        case True
        then show ?thesis using call 2(2) x y Inl by auto
      next
        case False
        then have rest: "plan_attempts p answer request callBudget messages left (attempt + 1) result1 w1 = ((r, err), w')" using 2(2) x y Inl by simp
        have "sl_Attempts result1 \<le> sl_Attempts r \<and> sl_Attempts r \<le> sl_Attempts result1 + int left \<and> planned m (sl_Attempts r - sl_Attempts result1) w1 w'"
          by (rule 2(1) [OF x [unfolded y, symmetric] refl refl Inl False rest 2(3)])
        then show ?thesis using call y planned_trans [of m 1 w w1 "sl_Attempts r - sl_Attempts result1" w'] by (simp add: algebra_simps)
      qed
    qed
  qed
qed (simp add: planned_refl)

interpretation model_calls: counting_planner "ModelShortHorizonPlanner_Plan p" "planned (pm_maxOutputTokens p)" "max 0 (pm_maxParseRepairs p + 1)" for p
proof
  show "planned (pm_maxOutputTokens p) (sl_Attempts r) w w' \<and> 0 \<le> sl_Attempts r \<and> sl_Attempts r \<le> max 0 (pm_maxParseRepairs p + 1)" if "ModelShortHorizonPlanner_Plan p q w = ((r, err), w')" for q w r err w'
  proof (cases "en_Complete (pm_env p)")
    case None
    then show ?thesis using that by (auto simp: ModelShortHorizonPlanner_Plan_def zero_short_plan_def planned_refl)
  next
    case (Some answer)
    let ?q = "q\<lparr>sr_Model := trim_space (sr_Model q)\<rparr>"
    obtain e w1 where c: "ctx_Err (pm_env p) None w = (e, w1)" by fastforce
    have "r = zero_short_plan \<and> w' = w1 \<or> (\<exists>messages. plan_attempts p answer ?q (call_budget p ?q) messages (nat (pm_maxParseRepairs p + 1)) 0 zero_short_plan w1 = ((r, err), w'))"
      using that Some c by (auto simp: ModelShortHorizonPlanner_Plan_def Let_def split: option.splits if_splits sum.splits)
    then have "0 \<le> sl_Attempts r \<and> sl_Attempts r \<le> max 0 (pm_maxParseRepairs p + 1) \<and> planned (pm_maxOutputTokens p) (sl_Attempts r) w1 w'"
    proof
      assume "\<exists>messages. plan_attempts p answer ?q (call_budget p ?q) messages (nat (pm_maxParseRepairs p + 1)) 0 zero_short_plan w1 = ((r, err), w')"
      then obtain messages where "plan_attempts p answer ?q (call_budget p ?q) messages (nat (pm_maxParseRepairs p + 1)) 0 zero_short_plan w1 = ((r, err), w')" by blast
      moreover have "bg_MaxOutputTokens (call_budget p ?q) \<le> pm_maxOutputTokens p" by (simp add: call_budget_def)
      ultimately show ?thesis using plan_attempts_planned [of p answer ?q "call_budget p ?q" messages "nat (pm_maxParseRepairs p + 1)" 0 zero_short_plan w1 r err w' "pm_maxOutputTokens p"]
        by (auto simp: zero_short_plan_def max_def split: if_splits)
    qed (simp add: zero_short_plan_def planned_refl)
    then show ?thesis using planned_trans [OF ctx_planned [OF c], of "pm_maxOutputTokens p" "sl_Attempts r" w'] by simp
  qed
qed (auto simp: planned_refl intro: planned_trans)

section \<open>What is decoded\<close>

fun unique_keys :: "json \<Rightarrow> bool" where
  "unique_keys (JObject kvs) \<longleftrightarrow> distinct (map fst kvs) \<and> (\<forall>(k, v)\<in>set kvs. unique_keys v)"
| "unique_keys (JArray vs) \<longleftrightarrow> (\<forall>v\<in>set vs. unique_keys v)"
| "unique_keys _ \<longleftrightarrow> True"

text \<open>How deep a value is nested.\<close>

fun nested :: "nat \<Rightarrow> json \<Rightarrow> bool" where
  "nested n (JObject kvs) \<longleftrightarrow> (\<forall>(k, v)\<in>set kvs. 0 < n \<and> nested (n - 1) v)"
| "nested n (JArray vs) \<longleftrightarrow> (\<forall>v\<in>set vs. 0 < n \<and> nested (n - 1) v)"
| "nested n _ \<longleftrightarrow> True"

lemma consume_iff:
  "consumeShortPlanJSONValue quote path d v = None \<longleftrightarrow> d \<le> 16 \<and> unique_keys v \<and> nested (16 - d) v"
  "consume_entries quote path d seen kvs = None \<longleftrightarrow> distinct (map fst kvs) \<and> set seen \<inter> set (map fst kvs) = {} \<and> (\<forall>(k, v)\<in>set kvs. d < 16 \<and> unique_keys v \<and> nested (16 - Suc d) v)"
  "consume_items quote path d i vs = None \<longleftrightarrow> (\<forall>v\<in>set vs. d < 16 \<and> unique_keys v \<and> nested (16 - Suc d) v)"
proof (induction quote path d v and quote path d seen kvs and quote path d i vs rule: consumeShortPlanJSONValue_consume_entries_consume_items.induct)
  case (1 quote path d v)
  show ?case
  proof (cases "16 < d")
    case False
    then show ?thesis using 1 by (cases v) (auto simp: maxShortPlanJSONDepth_def split: prod.splits)
  qed (simp add: maxShortPlanJSONDepth_def)
next
  case (3 quote path d seen key v kvs)
  show ?case
  proof (cases "key \<in> set seen \<or> consumeShortPlanJSONValue quote (path @ ''.'' @ key) (Suc d) v \<noteq> None")
    case True
    then show ?thesis using 3(1) by (auto simp del: consumeShortPlanJSONValue.simps split: option.splits)
  next
    case False
    then show ?thesis using 3 by (auto simp del: consumeShortPlanJSONValue.simps)
  qed
next
  case (5 quote path d i v vs)
  then show ?case by (auto simp del: consumeShortPlanJSONValue.simps split: option.splits)
qed (auto split: option.splits)

text \<open>The values that denote a string, a list of strings, a step and a plan; \<^verbatim>\<open>null\<close> is the empty string and the empty list.\<close>

definition denotes_string :: "json \<Rightarrow> string \<Rightarrow> bool" where
  "denotes_string v s \<longleftrightarrow> v = JString s \<or> v = JNull \<and> s = []"

definition denotes_strings :: "json \<Rightarrow> string list \<Rightarrow> bool" where
  "denotes_strings v ss \<longleftrightarrow> (\<exists>vs. v = JArray vs \<and> list_all2 denotes_string vs ss) \<or> v = JNull \<and> ss = []"

definition denotes_step :: "json \<Rightarrow> ShortPlanStep \<Rightarrow> bool" where
  "denotes_step v s \<longleftrightarrow> (\<exists>kvs i kind objective criteria. v = JObject kvs \<and> set (map fst kvs) \<subseteq> {''criterion_ids'', ''id'', ''kind'', ''objective'', ''tool_name''}
     \<and> map_of kvs ''id'' = Some i \<and> denotes_string i (sp_ID s) \<and> map_of kvs ''kind'' = Some kind \<and> denotes_string kind (sp_Kind s)
     \<and> map_of kvs ''objective'' = Some objective \<and> denotes_string objective (sp_Objective s)
     \<and> map_of kvs ''criterion_ids'' = Some criteria \<and> denotes_strings criteria (sp_CriterionIDs s)
     \<and> (case map_of kvs ''tool_name'' of None \<Rightarrow> sp_ToolName s = [] | Some tool \<Rightarrow> denotes_string tool (sp_ToolName s)))"

definition denotes_plan :: "json \<Rightarrow> ShortPlanProposal \<Rightarrow> bool" where
  "denotes_plan v plan \<longleftrightarrow> (\<exists>kvs version steps. v = JObject kvs \<and> set (map fst kvs) \<subseteq> {''steps'', ''version''}
     \<and> map_of kvs ''version'' = Some version \<and> denotes_string version (pp_Version plan)
     \<and> map_of kvs ''steps'' = Some (JArray steps) \<and> 1 \<le> length steps \<and> length steps \<le> 3 \<and> list_all2 denotes_step steps (pp_Steps plan))"

lemma unmarshal_all_iff: "unmarshal_all f xs = Some ys \<longleftrightarrow> list_all2 (\<lambda>x y. f x = Some y) xs ys"
  by (induction xs arbitrary: ys) (auto simp: list_all2_Cons1 Option.bind_eq_Some_conv)

lemma unmarshal_string_iff: "unmarshal_string v = Some s \<longleftrightarrow> denotes_string v s"
  by (cases v) (auto simp: denotes_string_def)

lemma unmarshal_strings_iff: "(\<exists>vs. unmarshal_slice v = Some vs \<and> unmarshal_all unmarshal_string vs = Some ss) \<longleftrightarrow> denotes_strings v ss"
  by (cases v) (auto simp: denotes_strings_def unmarshal_all_iff unmarshal_string_iff)

lemma exact_fields_iff:
  "requireExactJSONFieldsWithOptional quote kvs required optional label = None \<longleftrightarrow> (\<forall>k\<in>set required. map_of kvs k \<noteq> None) \<and> set (map fst kvs) \<subseteq> set required \<union> set optional"
  by (auto simp: requireExactJSONFieldsWithOptional_def option.case_eq_if find_None_iff split: if_splits)

definition step_fields :: "(string \<times> json) list \<Rightarrow> bool" where
  "step_fields kvs \<longleftrightarrow> (\<forall>k\<in>{''criterion_ids'', ''id'', ''kind'', ''objective''}. map_of kvs k \<noteq> None) \<and> set (map fst kvs) \<subseteq> {''criterion_ids'', ''id'', ''kind'', ''objective'', ''tool_name''}"

lemma step_fields_iff: "requireExactJSONFieldsWithOptional quote kvs [''criterion_ids'', ''id'', ''kind'', ''objective''] [''tool_name''] label = None \<longleftrightarrow> step_fields kvs"
  unfolding exact_fields_iff step_fields_def by (simp add: insert_commute)

lemma check_step_fields_iff: "check_step_fields quote i steps = None \<longleftrightarrow> (\<forall>s\<in>set steps. \<exists>kvs. s = Some kvs \<and> step_fields kvs)"
proof (induction quote i steps rule: check_step_fields.induct)
  case (2 quote index step steps)
  show ?case
  proof (cases step)
    case (Some kvs)
    then show ?thesis using 2 step_fields_iff by (cases "step_fields kvs") (auto simp del: append.simps simp: option.case_eq_if)
  qed simp
qed simp

lemma decode_field_iff:
  "decode_field f zero kvs key = Some x \<longleftrightarrow> (case map_of kvs key of None \<Rightarrow> x = zero | Some v \<Rightarrow> f v = Some x)"
  by (auto simp: decode_field_def split: option.splits)

lemma decode_step_iff: "(\<exists>kvs. v = JObject kvs \<and> step_fields kvs) \<and> decode_step v = Some s \<longleftrightarrow> denotes_step v s"
proof (cases v)
  case (JObject kvs)
  show ?thesis
  proof (cases "step_fields kvs")
    case True
    then obtain i kind objective criteria where m: "map_of kvs ''id'' = Some i" "map_of kvs ''kind'' = Some kind" "map_of kvs ''objective'' = Some objective" "map_of kvs ''criterion_ids'' = Some criteria"
      by (auto simp: step_fields_def)
    show ?thesis using True
      by (cases s) (auto simp: JObject decode_step_def denotes_step_def Let_def Option.bind_eq_Some_conv decode_field_iff unmarshal_string_iff unmarshal_strings_iff m step_fields_def split: option.splits)
  next
    case False
    then show ?thesis by (auto simp: JObject denotes_step_def step_fields_def)
  qed
qed (auto simp: denotes_step_def)

lemma unmarshal_all_steps:
  "(\<exists>ms. unmarshal_all unmarshal_map vs = Some ms \<and> (\<forall>m\<in>set ms. \<exists>kvs. m = Some kvs \<and> step_fields kvs)) \<longleftrightarrow> (\<forall>v\<in>set vs. \<exists>kvs. v = JObject kvs \<and> step_fields kvs)"
proof (induction vs)
  case (Cons v vs)
  have "unmarshal_map v = Some (Some kvs) \<longleftrightarrow> v = JObject kvs" for kvs by (cases v) auto
  then have "(\<exists>ms. unmarshal_all unmarshal_map (v # vs) = Some ms \<and> (\<forall>m\<in>set ms. \<exists>kvs. m = Some kvs \<and> step_fields kvs))
    \<longleftrightarrow> (\<exists>kvs. v = JObject kvs \<and> step_fields kvs) \<and> (\<exists>ms. unmarshal_all unmarshal_map vs = Some ms \<and> (\<forall>m\<in>set ms. \<exists>kvs. m = Some kvs \<and> step_fields kvs))"
    by (auto simp: Option.bind_eq_Some_conv)
  then show ?case using Cons by simp
qed simp

lemma unmarshal_all_length: "unmarshal_all f xs = Some ys \<Longrightarrow> length ys = length xs"
  by (auto simp: unmarshal_all_iff dest: list_all2_lengthD)

lemma list_all2_both: "(\<forall>x\<in>set xs. P x) \<and> list_all2 R xs ys \<longleftrightarrow> list_all2 (\<lambda>x y. P x \<and> R x y) xs ys"
  by (induction xs arbitrary: ys) (auto simp: list_all2_Cons1)

lemma plan_object_iff: "validateExactShortPlanFields j v = None \<and> decode_proposal v = Some plan \<longleftrightarrow> denotes_plan v plan"
proof (cases "\<exists>kvs. v = JObject kvs \<and> (\<forall>k\<in>{''steps'', ''version''}. map_of kvs k \<noteq> None) \<and> set (map fst kvs) \<subseteq> {''steps'', ''version''}")
  case False
  then show ?thesis by (cases v) (auto simp: validateExactShortPlanFields_def requireExactJSONFields_def exact_fields_iff denotes_plan_def split: option.splits)
next
  case True
  then obtain kvs version x where v: "v = JObject kvs" "map_of kvs ''version'' = Some version" "map_of kvs ''steps'' = Some x" "set (map fst kvs) \<subseteq> {''steps'', ''version''}" by auto
  then have exact: "requireExactJSONFields (jl_quote j) kvs [''steps'', ''version''] ''short plan'' = None" by (auto simp: requireExactJSONFields_def exact_fields_iff)
  have decoded: "decode_proposal v = Some plan \<longleftrightarrow> denotes_string version (pp_Version plan) \<and> (\<exists>vs. unmarshal_slice x = Some vs \<and> list_all2 (\<lambda>a s. decode_step a = Some s) vs (pp_Steps plan))"
    using v by (cases plan) (auto simp: decode_proposal_def Option.bind_eq_Some_conv decode_field_iff unmarshal_string_iff unmarshal_all_iff)
  show ?thesis
  proof (cases "\<exists>vs. unmarshal_slice x = Some vs")
    case False
    then show ?thesis using v exact by (cases x) (auto simp: validateExactShortPlanFields_def denotes_plan_def)
  next
    case True
    then obtain vs where vs: "unmarshal_slice x = Some vs" by blast
    have valid: "validateExactShortPlanFields j v = None \<longleftrightarrow> 1 \<le> length vs \<and> length vs \<le> 3 \<and> (\<forall>a\<in>set vs. \<exists>kvs. a = JObject kvs \<and> step_fields kvs)"
      using v exact vs unmarshal_all_steps [of vs]
      by (auto simp: validateExactShortPlanFields_def check_step_fields_iff MaxShortPlanSteps_def Suc_le_eq dest: unmarshal_all_length split: option.splits if_splits)
    have "denotes_plan v plan \<longleftrightarrow> denotes_string version (pp_Version plan) \<and> 1 \<le> length vs \<and> length vs \<le> 3 \<and> list_all2 denotes_step vs (pp_Steps plan)"
      using v vs by (cases x) (auto simp: denotes_plan_def)
    moreover have "list_all2 denotes_step vs (pp_Steps plan) \<longleftrightarrow> (\<forall>a\<in>set vs. \<exists>kvs. a = JObject kvs \<and> step_fields kvs) \<and> list_all2 (\<lambda>a s. decode_step a = Some s) vs (pp_Steps plan)"
      unfolding list_all2_both decode_step_iff ..
    ultimately show ?thesis unfolding valid decoded using vs by auto
  qed
qed

lemma decode_iff:
  "DecodeShortPlanProposal j text = Inr plan \<longleftrightarrow> int (length text) \<le> maxShortPlanResponseBytes \<and> utf8_valid text
    \<and> (\<exists>v. jl_parse j text = Inr v \<and> unique_keys v \<and> nested maxShortPlanJSONDepth v \<and> denotes_plan v plan)"
proof (cases "jl_parse j text")
  case (Inr v)
  have "consumeShortPlanJSONValue (jl_quote j) ''$'' 0 v = None \<longleftrightarrow> unique_keys v \<and> nested maxShortPlanJSONDepth v"
    using consume_iff(1) [of "jl_quote j" "''$''" 0 v] by (simp add: maxShortPlanJSONDepth_def)
  then show ?thesis using plan_object_iff [of j v plan] Inr
    by (cases "consumeShortPlanJSONValue (jl_quote j) ''$'' 0 v"; cases "validateExactShortPlanFields j v"; cases "decode_proposal v")
       (auto simp: DecodeShortPlanProposal_def simp del: consumeShortPlanJSONValue.simps)
qed (simp add: DecodeShortPlanProposal_def)

text \<open>The JSON of a plan: a tool name is left out when it is empty.\<close>

definition encode_step :: "ShortPlanStep \<Rightarrow> json" where
  "encode_step s = JObject ([(''id'', JString (sp_ID s)), (''kind'', JString (sp_Kind s)), (''objective'', JString (sp_Objective s))]
     @ (if sp_ToolName s = [] then [] else [(''tool_name'', JString (sp_ToolName s))]) @ [(''criterion_ids'', JArray (map JString (sp_CriterionIDs s)))])"

definition encode_proposal :: "ShortPlanProposal \<Rightarrow> json" where
  "encode_proposal plan = JObject [(''version'', JString (pp_Version plan)), (''steps'', JArray (map encode_step (pp_Steps plan)))]"

lemma denotes_encode_step: "denotes_step (encode_step s) s"
  by (auto simp: denotes_step_def encode_step_def denotes_string_def denotes_strings_def list_all2_map1 intro: list.rel_refl)

lemma encoded_plan:
  assumes "1 \<le> length (pp_Steps plan)" "length (pp_Steps plan) \<le> 3"
  shows "unique_keys (encode_proposal plan)" "nested maxShortPlanJSONDepth (encode_proposal plan)" "denotes_plan (encode_proposal plan) plan"
proof -
  have "list_all2 denotes_step (map encode_step (pp_Steps plan)) (pp_Steps plan)"
    by (simp add: list_all2_map1 denotes_encode_step list.rel_refl)
  then show "denotes_plan (encode_proposal plan) plan" using assms by (simp add: denotes_plan_def encode_proposal_def denotes_string_def)
  show "unique_keys (encode_proposal plan)" "nested maxShortPlanJSONDepth (encode_proposal plan)"
    by (auto simp: encode_proposal_def encode_step_def maxShortPlanJSONDepth_def)
qed

section \<open>A scripted planner\<close>

text \<open>A model that answers with the texts of a script; the text \<^verbatim>\<open>plan\<close> is the proposal of \<open>Plan_Properties\<close>, \<^verbatim>\<open>bad\<close> one with an unknown tool.\<close>

definition planner_demo_bad :: ShortPlanProposal where
  "planner_demo_bad = \<lparr>pp_Version = ShortPlanVersionV1, pp_Steps = [plan_demo_step ''s1'' ShortPlanStepTool ''drop'']\<rparr>"

definition planner_demo_json :: json_lib where
  "planner_demo_json = \<lparr>jl_parse = (\<lambda>text. if text = ''plan'' then Inr (encode_proposal plan_demo_proposal) else if text = ''bad'' then Inr (encode_proposal planner_demo_bad) else Inl (EMsg ''syntax'')),
     jl_type_error = (\<lambda>v. EMsg ''type''), jl_quote = (\<lambda>s. s)\<rparr>"

definition planner_demo_response :: "string \<Rightarrow> ModelResponse" where
  "planner_demo_response content = \<lparr>mp_shared = True, mp_Message = text_message RoleAssistant content, mp_Actions = [], mp_Usage = zero_usage\<lparr>tu_InputTokens := 3, tu_OutputTokens := 2\<rparr>,
     mp_Model = ''m'', mp_Provider = ''p'', mp_ModelRouting = None\<rparr>"

definition planner_demo_env :: "string list \<Rightarrow> run_env" where
  "planner_demo_env script = (react_demo_env [])\<lparr>en_Complete := Some (\<lambda>es q. (planner_demo_response (let n = length (filter is_model es) in if n < length script then script ! n else []), None))\<rparr>"

definition planner_demo_new :: "string list \<Rightarrow> gerr + ModelShortHorizonPlanner" where
  "planner_demo_new script = NewModelShortHorizonPlanner (planner_demo_env script) goal_demo_goal planner_demo_json (\<lambda>c. Inr ''context'')
     [Some (WithShortPlanTokenCounter (Some (\<lambda>q. zero_usage\<lparr>tu_InputTokens := 4, tu_TotalTokens := 4\<rparr>, \<lambda>r. zero_usage))), None, Some (WithShortPlanMaxOutputTokens 5)]"

definition planner_demo :: "string list \<Rightarrow> ModelShortHorizonPlanner" where
  "planner_demo script = \<lparr>pm_env = (planner_demo_env script)\<lparr>en_EstimateRequest := (\<lambda>q. zero_usage\<lparr>tu_InputTokens := 4, tu_TotalTokens := 4\<rparr>), en_EstimateResponse := (\<lambda>r. zero_usage), en_EstimateCost := None\<rparr>,
     pm_goal = goal_demo_goal, pm_json = planner_demo_json, pm_marshal = (\<lambda>c. Inr ''context''), pm_maxOutputTokens = 5, pm_maxParseRepairs = 1\<rparr>"

definition planner_demo_coordinator :: "string list \<Rightarrow> run_world PlanningCoordinator" where
  "planner_demo_coordinator script = \<lparr>pc_planner = Some (ModelShortHorizonPlanner_Plan (planner_demo script)), pc_policy = Some (DeterministicShortPlanPolicy plan_demo_env (\<lambda>w. None)), pc_maxAdmissionRepairs = 1\<rparr>"

definition planner_demo_request :: ShortPlanRequest where
  "planner_demo_request = plan_demo_plan_request\<lparr>sr_Budget := (sr_Budget plan_demo_plan_request)\<lparr>bg_MaxTotalTokens := 24\<rparr>\<rparr>"

definition planner_demo_run :: "string list \<Rightarrow> planning_outcome \<times> run_world" where
  "planner_demo_run script = Coordinate (Some (planner_demo_coordinator script)) (Some (\<lambda>w. None)) planner_demo_request (start react_demo_tracker)"

section \<open>Properties\<close>

lemma NewModelShortHorizonPlanner_repairs: "NewModelShortHorizonPlanner env g j marshal options = Inr p \<Longrightarrow> 0 \<le> pm_maxParseRepairs p \<and> pm_maxParseRepairs p \<le> 1"
  by (auto simp: NewModelShortHorizonPlanner_def Let_def maximumShortPlanParseRepairs_def split: if_splits)

lemma NewPlanningCoordinator_repairs: "NewPlanningCoordinator planner policy options = Inr coordinator \<Longrightarrow> 0 \<le> pc_maxAdmissionRepairs coordinator \<and> pc_maxAdmissionRepairs coordinator \<le> 1"
  by (auto simp: NewPlanningCoordinator_def Let_def maximumShortPlanAdmissionRepairs_def split: if_splits)

text \<open>
  Planning stays within the budget of its request: when a coordinator with the model-backed planner returns a plan, all its
  calls together, those for repaired answers and repaired admissions included, have used at most the tokens and the cost of the budget.
  It is assumed that the provider counts what it used and that no call uses more than \<open>2 ^ 48\<close> tokens.
\<close>
theorem planning_within_budget:
  assumes "NewModelShortHorizonPlanner env g j marshal options = Inr p" and "honest_model (pm_env p)"
    and "NewPlanningCoordinator (Some (ModelShortHorizonPlanner_Plan p)) policy coordinator_options = Inr coordinator" and "pc_planner coordinator = Some (ModelShortHorizonPlanner_Plan p)"
    and "machine_budget (sr_Budget request)" and "Coordinate (Some coordinator) ctx request w = ((result, None), w')"
  shows "within_budget (sr_Budget request) (pg_Usage result)"
  using model_planner.Coordinate_within(1) [OF _ assms(5) _ assms(4,6)] NewModelShortHorizonPlanner_repairs [OF assms(1)] NewPlanningCoordinator_repairs [OF assms(3)] assms(2)
  by simp

lemma planner_demo_new: "planner_demo_new script = Inr (planner_demo script)"
  by (simp add: planner_demo_def planner_demo_new_def NewModelShortHorizonPlanner_def WithShortPlanTokenCounter_def WithShortPlanMaxOutputTokens_def planner_demo_env_def Let_def
      defaultShortPlanParseRepairs_def maximumShortPlanParseRepairs_def)

lemma planner_demo_coordinator:
  "NewPlanningCoordinator (Some (ModelShortHorizonPlanner_Plan (planner_demo script))) (Some (DeterministicShortPlanPolicy plan_demo_env (\<lambda>w. None))) [] = Inr (planner_demo_coordinator script)"
  "pc_planner (planner_demo_coordinator script) = Some (ModelShortHorizonPlanner_Plan (planner_demo script))" "pc_policy (planner_demo_coordinator script) = Some (DeterministicShortPlanPolicy plan_demo_env (\<lambda>w. None))"
  by (simp_all add: planner_demo_coordinator_def NewPlanningCoordinator_def Let_def maximumShortPlanAdmissionRepairs_def)

lemma planner_demo_honest: "honest_model (pm_env (planner_demo script))"
proof -
  have "small_count (uval f (mp_Usage (planner_demo_response content)))" for f content
    by (cases f) (simp_all add: planner_demo_response_def small_count_def zero_usage_def)
  moreover have "en_Complete (pm_env (planner_demo script)) = Some (\<lambda>es q. (planner_demo_response (let n = length (filter is_model es) in if n < length script then script ! n else []), None))"
    and "en_EstimateRequest (pm_env (planner_demo script)) = (\<lambda>q. zero_usage\<lparr>tu_InputTokens := 4, tu_TotalTokens := 4\<rparr>)"
    and "en_EstimateResponse (pm_env (planner_demo script)) = (\<lambda>r. zero_usage)" and "en_EstimateCost (pm_env (planner_demo script)) = None"
    by (simp_all add: planner_demo_def planner_demo_new_def NewModelShortHorizonPlanner_def WithShortPlanTokenCounter_def WithShortPlanMaxOutputTokens_def planner_demo_env_def
        Let_def defaultShortPlanParseRepairs_def maximumShortPlanParseRepairs_def)
  moreover have "small_count 4" "small_count 0" by (simp_all add: small_count_def)
  ultimately show ?thesis by (simp add: honest_model_def) (simp add: zero_usage_def)
qed

lemma planner_demo_result: "planner_demo_run script = ((fst (fst (planner_demo_run script)), snd (fst (planner_demo_run script))), snd (planner_demo_run script))"
  by simp

theorem planning_within_budget_witness:
  "within_budget (sr_Budget planner_demo_request) (pg_Usage (fst (fst (planner_demo_run [''bad'', ''plan'']))))
   \<and> tu_TotalTokens (pg_Usage (fst (fst (planner_demo_run [''bad'', ''plan''])))) = 10 \<and> bg_MaxTotalTokens (sr_Budget planner_demo_request) = 24"
proof (intro conjI)
  let ?script = "[''bad'', ''plan'']"
  have "snd (fst (planner_demo_run ?script)) = None" by code_simp
  then have run: "Coordinate (Some (planner_demo_coordinator ?script)) (Some (\<lambda>w. None)) planner_demo_request (start react_demo_tracker)
      = ((fst (fst (planner_demo_run ?script)), None), snd (planner_demo_run ?script))"
    using planner_demo_result [of ?script] unfolding planner_demo_run_def by metis
  have budget: "machine_budget (sr_Budget planner_demo_request)" by code_simp
  show "within_budget (sr_Budget planner_demo_request) (pg_Usage (fst (fst (planner_demo_run ?script))))"
    by (rule planning_within_budget [OF planner_demo_new [unfolded planner_demo_new_def] planner_demo_honest planner_demo_coordinator(1,2) budget run])
  show "tu_TotalTokens (pg_Usage (fst (fst (planner_demo_run ?script)))) = 10" by code_simp
  show "bg_MaxTotalTokens (sr_Budget planner_demo_request) = 24" by code_simp
qed

text \<open>
  C19. Planning only talks: whatever the model answers, a coordinator with the model-backed planner and the deterministic policy calls the model at most
  four times, as often as it reports, each time without tools, with tool choice none and within the planner's output limit. Apart from these calls it
  only checks the context and reserves, commits and returns budget for the calls: it runs no tool and no search, takes and releases no admission
  permit, and starts no timer and reads no clock.
\<close>
theorem planning_only_asks:
  assumes "NewModelShortHorizonPlanner env g j marshal options = Inr p" and "NewPlanningCoordinator planner policy coordinator_options = Inr coordinator"
    and "pc_planner coordinator = Some (ModelShortHorizonPlanner_Plan p)" and "pc_policy coordinator = Some (DeterministicShortPlanPolicy e policy_ctx)"
    and "Coordinate (Some coordinator) ctx request w = ((result, err), w')"
  shows "pg_ModelAttempts result \<le> 4 \<and> (\<exists>es. wd_log w' = wd_log w @ es \<and> int (length (filter is_model es)) = pg_ModelAttempts result
    \<and> (\<forall>effect\<in>set es. planning_effect (pm_maxOutputTokens p) effect))"
proof -
  note repairs = NewModelShortHorizonPlanner_repairs [OF assms(1)] NewPlanningCoordinator_repairs [OF assms(2)]
  have made: "planned (pm_maxOutputTokens p) (pg_ModelAttempts result) w w'"
    and le: "pg_ModelAttempts result \<le> (1 + max 0 (pc_maxAdmissionRepairs coordinator)) * max 0 (pm_maxParseRepairs p + 1)"
    using model_calls.Coordinate_made [OF assms(5,3,4)] by simp_all
  have "(1 + max 0 (pc_maxAdmissionRepairs coordinator)) * max 0 (pm_maxParseRepairs p + 1) \<le> 2 * 2"
    using repairs by (intro mult_mono) auto
  with le have "pg_ModelAttempts result \<le> 4" by simp
  then show ?thesis using made by (auto simp: planned_def list_all_iff)
qed

theorem planning_only_asks_witness:
  "pg_ModelAttempts (fst (fst (planner_demo_run [''bad'', ''plan'']))) = 2
   \<and> (\<exists>es. wd_log (snd (planner_demo_run [''bad'', ''plan''])) = es \<and> length (filter is_model es) = 2)"
proof
  let ?script = "[''bad'', ''plan'']"
  show n: "pg_ModelAttempts (fst (fst (planner_demo_run ?script))) = 2" by code_simp
  have start: "wd_log (start react_demo_tracker) = []" by code_simp
  obtain es where "wd_log (snd (planner_demo_run ?script)) = wd_log (start react_demo_tracker) @ es" "int (length (filter is_model es)) = pg_ModelAttempts (fst (fst (planner_demo_run ?script)))"
    using planning_only_asks [OF planner_demo_new [unfolded planner_demo_new_def] planner_demo_coordinator planner_demo_result [unfolded planner_demo_run_def], of ?script]
    unfolding planner_demo_run_def by blast
  then show "\<exists>es. wd_log (snd (planner_demo_run ?script)) = es \<and> length (filter is_model es) = 2"
    unfolding n start by (intro exI [of _ es]) simp
qed

text \<open>
  C20. A text is decoded as a plan exactly when it is at most 32 KiB of valid UTF-8 and denotes a JSON value without a repeated key and at most 16 levels
  deep that is an object with the two fields of a plan, with one to three steps of which each has the fields of a step and no others;
  and then it is decoded as the plan that the value denotes.
\<close>
theorem decodes_exactly_plans:
  "DecodeShortPlanProposal j text = Inr plan \<longleftrightarrow> int (length text) \<le> maxShortPlanResponseBytes \<and> utf8_valid text
    \<and> (\<exists>v. jl_parse j text = Inr v \<and> unique_keys v \<and> nested maxShortPlanJSONDepth v \<and> denotes_plan v plan)"
  by (rule decode_iff)

text \<open>
  A proposal survives its encoding: a text that the parser reads as the JSON of a proposal with one to three steps is decoded as that proposal.
\<close>
theorem plan_roundtrip:
  assumes "jl_parse j text = Inr (encode_proposal plan)" and "1 \<le> length (pp_Steps plan)" "length (pp_Steps plan) \<le> 3"
    and "int (length text) \<le> maxShortPlanResponseBytes" "utf8_valid text"
  shows "DecodeShortPlanProposal j text = Inr plan"
  unfolding decode_iff using assms encoded_plan [OF assms(2,3)] by blast

theorem plan_roundtrip_witness: "DecodeShortPlanProposal planner_demo_json ''plan'' = Inr plan_demo_proposal"
  by (rule plan_roundtrip) (simp_all add: planner_demo_json_def plan_demo_proposal_def maxShortPlanResponseBytes_def)

text \<open>
  A call that crosses the budget of the workflow is kept by the tracker but not in the usage that the planner returns.
\<close>
lemma overdrawn_call_not_reported:
  assumes "answer (wd_log w1) (plan_model_request request callBudget messages attempt) = (response, None)"
    and "admitModelCall callBudget (sl_Usage result) (en_EstimateRequest env (plan_model_request request callBudget messages attempt)) (sr_CompletedSteps request + attempt + 1) = None"
    and "admitShortPlanModelCost env callBudget (sr_Model request) (sl_Usage result) (en_EstimateRequest env (plan_model_request request callBudget messages attempt)) (sr_CompletedSteps request + attempt + 1) = None"
    and "reserveShortPlanSharedBudget env callBudget (sr_Model request) (en_EstimateRequest env (plan_model_request request callBudget messages attempt)) w = Inr (reservation, w1)"
    and "resolveShortPlanModelCost env (sr_Model request) response (resolvedModelUsage env (en_EstimateRequest env (plan_model_request request callBudget messages attempt)) response) = Inr usage"
    and "commit_usage env reservation usage (emit env (RModel (plan_model_request request callBudget messages attempt)) w1) = (Some err, w')"
  shows "plan_call env answer request callBudget messages attempt result w = (Inl (result\<lparr>sl_Attempts := sl_Attempts result + 1\<rparr>, err), w')"
proof -
  have "mr_StepIndex (plan_model_request request callBudget messages attempt) = sr_CompletedSteps request + attempt + 1" by (simp add: plan_model_request_def)
  then show ?thesis using assms by (simp add: plan_call_def Let_def)
qed

end
