(* ===== verification/Task_Outcome.thy ===== *)
theory Task_Outcome
  imports Plan_Properties
begin

text \<open>
  Outcomes of tasks: \<^verbatim>\<open>src/internal/module/agent/runtime/task_outcome.go\<close> projects the result of a planned or observed goal to the
  artifacts it produced, each with the verdict on its criteria. An artifact passes exactly when every criterion it
  claims has a check that passed and lists it; the other two verdicts depend on the order of the criteria.
\<close>

definition TaskOutcomeVersionV1 :: string where "TaskOutcomeVersionV1 = ''goal.task_outcome.v1''"
definition TaskOutcomeExecutionPlanned :: string where "TaskOutcomeExecutionPlanned = ''planned_execution''"
definition TaskOutcomeExecutionObserved :: string where "TaskOutcomeExecutionObserved = ''observed_execution''"

record RecoveryDecision =
  rd_Attempt :: int
  rd_Reason :: string
  rd_PlanDigest :: string

record VerifiedArtifact =
  va_ID :: string
  va_Type :: string
  va_Digest :: string
  va_Reference :: string
  va_CriterionIDs :: "string list"
  va_SupportingEvidence :: "string list"
  va_Status :: string

record TaskOutcome =
  to_Version :: string
  to_ExecutionSource :: string
  to_TaskID :: string
  to_RunID :: string
  to_Status :: string
  to_PlanDigests :: "string list"
  to_RecoveryDecisions :: "RecoveryDecision list"
  to_Artifacts :: "VerifiedArtifact list"
  to_Evidence :: EvidenceLedger
  to_Verification :: VerificationResult
  to_RepairAttempts :: int
  to_FinalAnswerDigest :: string

text \<open>The map from criteria to checks, in which the last check of a criterion counts.\<close>

definition check_of :: "VerificationResult \<Rightarrow> string \<Rightarrow> CheckResult option" where
  "check_of verification criterionID = List.find (\<lambda>c. cx_CriterionID c = criterionID) (rev (vf_Checks verification))"

fun judge_criteria :: "goal_env \<Rightarrow> TaskSpec \<Rightarrow> VerificationResult \<Rightarrow> string \<Rightarrow> string list \<Rightarrow> string list \<Rightarrow> string \<Rightarrow> gerr + string list \<times> string" where
  "judge_criteria g task verification itemID [] support status = Inr (support, status)"
| "judge_criteria g task verification itemID (criterionID # criteria) support status =
     (if criterionID \<notin> set (map cr_ID (tk_CompletionCriteria task))
      then Inl (EMsg (''artifact evidence '' @ ge_quote g itemID @ '' references unknown criterion '' @ ge_quote g criterionID))
      else case check_of verification criterionID of
        None \<Rightarrow> judge_criteria g task verification itemID criteria support VerificationInconclusive
      | Some check \<Rightarrow> judge_criteria g task verification itemID criteria (support @ cx_EvidenceIDs check)
          (if cx_Status check \<noteq> VerificationPassed \<or> itemID \<notin> set (cx_EvidenceIDs check) then VerificationFailed else status))"

definition artifact_of :: "goal_env \<Rightarrow> TaskSpec \<Rightarrow> VerificationResult \<Rightarrow> Evidence \<Rightarrow> gerr + VerifiedArtifact" where
  "artifact_of g task verification item =
     (let criterionIDs = sortedUniqueStrings (vd_CriterionIDs item)
      in if criterionIDs = [] then Inl (EMsg (''artifact evidence '' @ ge_quote g (vd_ID item) @ '' has no completion criterion''))
         else bind_res (judge_criteria g task verification (vd_ID item) criterionIDs [] VerificationPassed) (\<lambda>(support, status).
           Inr \<lparr>va_ID = vd_ID item, va_Type = vd_Source item, va_Digest = vd_Digest item, va_Reference = vd_Reference item, va_CriterionIDs = criterionIDs,
             va_SupportingEvidence = sortedUniqueStrings support, va_Status = status\<rparr>))"

fun artifacts_of :: "goal_env \<Rightarrow> TaskSpec \<Rightarrow> VerificationResult \<Rightarrow> Evidence list \<Rightarrow> gerr + VerifiedArtifact list" where
  "artifacts_of g task verification [] = Inr []"
| "artifacts_of g task verification (item # items) =
     (if vd_Kind item \<noteq> EvidenceArtifact then artifacts_of g task verification items
      else bind_res (artifact_of g task verification item) (\<lambda>a. bind_res (artifacts_of g task verification items) (\<lambda>as. Inr (a # as))))"

text \<open>
  \<^verbatim>\<open>sort.Slice\<close> is not stable, but the identifiers of a ledger are distinct. Source and identity are checked after the task.
\<close>

definition buildTaskOutcome :: "goal_env \<Rightarrow> TaskSpec \<Rightarrow> VerifiedRunResult \<Rightarrow> string \<Rightarrow> gerr + TaskOutcome" where
  "buildTaskOutcome g task result source =
     (let taskID = trim_space (tk_ID task); runID = trim_space (rc_RunID (rs_Context (gs_Run result))); answer = trim_space (rs_FinalAnswer (gs_Run result))
      in case TaskSpec_Validate g task of
           Some err \<Rightarrow> Inl (EWrap ''invalid task outcome specification: '' err)
         | None \<Rightarrow>
             if source \<noteq> TaskOutcomeExecutionPlanned \<and> source \<noteq> TaskOutcomeExecutionObserved then Inl (EMsg ''task outcome execution source is invalid'')
             else if taskID = [] \<or> runID = [] then Inl (EMsg ''task and run identity are required'')
             else bind_res (artifacts_of g task (gs_Verification result) (lg_Items (gs_Evidence result))) (\<lambda>artifacts.
               Inr \<lparr>to_Version = TaskOutcomeVersionV1, to_ExecutionSource = source, to_TaskID = taskID, to_RunID = runID, to_Status = gs_Status result, to_PlanDigests = [],
                 to_RecoveryDecisions = [], to_Artifacts = sort_key va_ID artifacts, to_Evidence = gs_Evidence result, to_Verification = gs_Verification result,
                 to_RepairAttempts = gs_RepairAttempts result, to_FinalAnswerDigest = (if answer = [] then [] else ''sha256:'' @ ge_sha256 g answer)\<rparr>))"

definition BuildObservedTaskOutcome :: "goal_env \<Rightarrow> TaskSpec \<Rightarrow> VerifiedRunResult \<Rightarrow> gerr + TaskOutcome" where
  "BuildObservedTaskOutcome g task result = buildTaskOutcome g task result TaskOutcomeExecutionObserved"

text \<open>The decisions of the recoveries; only the last one has its reason.\<close>

fun recovery_decisions :: "nat \<Rightarrow> string \<Rightarrow> PlanningResult list \<Rightarrow> gerr + RecoveryDecision list" where
  "recovery_decisions index reason [] = Inr []"
| "recovery_decisions index reason (recovery # rest) =
     (let digest = al_Digest (pg_Plan recovery)
      in if digest = [] then Inl (EMsg (''recovery plan '' @ show_nat (index + 1) @ '' digest is required''))
         else bind_res (recovery_decisions (Suc index) reason rest) (\<lambda>ds.
           Inr (\<lparr>rd_Attempt = int index + 1, rd_Reason = (if rest = [] then reason else []), rd_PlanDigest = digest\<rparr> # ds)))"

definition BuildTaskOutcome :: "goal_env \<Rightarrow> TaskSpec \<Rightarrow> PlannedVerifiedRunResult \<Rightarrow> gerr + TaskOutcome" where
  "BuildTaskOutcome g task result =
     bind_res (buildTaskOutcome g task (pv_Verified result) TaskOutcomeExecutionPlanned) (\<lambda>outcome.
       if al_Digest (pg_Plan (pv_Planning result)) = [] then Inl (EMsg ''initial admitted plan digest is required'')
       else bind_res (recovery_decisions 0 (pv_LastRecoveryReason result) (pv_RecoveryPlans result)) (\<lambda>decisions.
         if int (length decisions) \<noteq> pv_RecoveryAttempts result then Inl (EMsg ''recovery attempt count does not match admitted recovery plans'')
         else Inr (outcome\<lparr>to_PlanDigests := al_Digest (pg_Plan (pv_Planning result)) # map rd_PlanDigest decisions, to_RecoveryDecisions := decisions\<rparr>)))"

section \<open>Verdicts on artifacts\<close>

text \<open>The criterion has a check that passed and lists the item.\<close>

definition supported :: "VerificationResult \<Rightarrow> string \<Rightarrow> string \<Rightarrow> bool" where
  "supported verification itemID criterionID \<longleftrightarrow> (\<exists>check. check_of verification criterionID = Some check \<and> cx_Status check = VerificationPassed \<and> itemID \<in> set (cx_EvidenceIDs check))"

lemma judge_criteria_passed:
  "judge_criteria g task verification i criteria support status = Inr (support', status') \<Longrightarrow>
     status' = VerificationPassed \<longleftrightarrow> status = VerificationPassed \<and> (\<forall>c\<in>set criteria. supported verification i c)"
proof (induction criteria arbitrary: support status)
  case (Cons c criteria)
  then show ?case
    by (cases "check_of verification c") (fastforce simp: supported_def VerificationPassed_def VerificationFailed_def VerificationInconclusive_def split: if_splits)+
qed auto

lemma artifacts_of_member:
  "artifacts_of g task verification items = Inr as \<Longrightarrow> a \<in> set as \<Longrightarrow> \<exists>item\<in>set items. vd_Kind item = EvidenceArtifact \<and> artifact_of g task verification item = Inr a"
  by (induction items arbitrary: as) (auto split: if_splits)

lemma artifact_passed:
  assumes "buildTaskOutcome g task result source = Inr outcome" and "a \<in> set (to_Artifacts outcome)"
  shows "va_Status a = VerificationPassed \<longleftrightarrow> (\<forall>c\<in>set (va_CriterionIDs a). supported (gs_Verification result) (va_ID a) c)"
    and "va_CriterionIDs a \<noteq> []" and "\<exists>item\<in>set (lg_Items (gs_Evidence result)). vd_ID item = va_ID a \<and> vd_Kind item = EvidenceArtifact"
proof -
  obtain as where "artifacts_of g task (gs_Verification result) (lg_Items (gs_Evidence result)) = Inr as" "a \<in> set as"
    using assms by (auto simp: buildTaskOutcome_def Let_def split: option.splits if_splits)
  then obtain item where item: "item \<in> set (lg_Items (gs_Evidence result))" "vd_Kind item = EvidenceArtifact" "artifact_of g task (gs_Verification result) item = Inr a"
    using artifacts_of_member by blast
  then show "va_Status a = VerificationPassed \<longleftrightarrow> (\<forall>c\<in>set (va_CriterionIDs a). supported (gs_Verification result) (va_ID a) c)"
    and "va_CriterionIDs a \<noteq> []" and "\<exists>item\<in>set (lg_Items (gs_Evidence result)). vd_ID item = va_ID a \<and> vd_Kind item = EvidenceArtifact"
    by (auto simp: artifact_of_def Let_def dest: judge_criteria_passed split: if_splits)
qed

text \<open>What the verifier of required evidence says of an item and a criterion.\<close>

lemma evidence_for_member: "i \<in> set (evidence_for ledger c) \<longleftrightarrow> (\<exists>e\<in>set (lg_Items ledger). vd_ID e = i \<and> c \<in> set (vd_CriterionIDs e))"
  by (auto simp: evidence_for_def)

lemma check_of_required:
  assumes "RequiredEvidenceVerifier_Verify g q = Inr x"
  shows "check_of x c = (if \<exists>k\<in>set (tk_CompletionCriteria (vq_Task q)). cr_Required k \<and> cr_ID k = c
    then Some (check_criterion (vq_Evidence q) \<lparr>cr_ID = c, cr_Description = [], cr_Required = True\<rparr>) else None)"
proof -
  have checks: "vf_Checks x = map (check_criterion (vq_Evidence q)) (filter cr_Required (tk_CompletionCriteria (vq_Task q)))"
    using assms by (auto simp: RequiredEvidenceVerifier_Verify_def Let_def split: option.splits)
  have "List.find (\<lambda>k. cx_CriterionID k = c) (map (check_criterion l) ks)
      = (if \<exists>k\<in>set ks. cr_ID k = c then Some (check_criterion l \<lparr>cr_ID = c, cr_Description = [], cr_Required = True\<rparr>) else None)" for l ks
    by (induction ks) (auto simp: check_criterion_def Let_def)
  from this [of "vq_Evidence q" "rev (filter cr_Required (tk_CompletionCriteria (vq_Task q)))"] show ?thesis
    by (auto simp: check_of_def checks rev_map)
qed

lemma supported_required:
  assumes "RequiredEvidenceVerifier_Verify g q = Inr x"
  shows "supported x i c \<longleftrightarrow> (\<exists>k\<in>set (tk_CompletionCriteria (vq_Task q)). cr_Required k \<and> cr_ID k = c) \<and> (\<exists>e\<in>set (lg_Items (vq_Evidence q)). vd_ID e = i \<and> c \<in> set (vd_CriterionIDs e))"
  unfolding evidence_for_member [symmetric] supported_def check_of_required [OF assms]
  by (auto simp: check_criterion_def Let_def VerificationPassed_def VerificationFailed_def split: if_splits)

text \<open>A goal whose final answer is an artifact for the criteria given; an optional criterion is added to the task.\<close>

definition outcome_demo_task :: TaskSpec where
  "outcome_demo_task = goal_demo_task\<lparr>tk_CompletionCriteria := tk_CompletionCriteria goal_demo_task @ [\<lparr>cr_ID = ''c2'', cr_Description = ''nice to have'', cr_Required = False\<rparr>]\<rparr>"

definition outcome_demo_runner :: "string list \<Rightarrow> run_world verified_runner" where
  "outcome_demo_runner criteria = (goal_demo_runner goal_demo_repaired)\<lparr>vr_Collect := Some (Composite_Collect
     [Some (\<lambda>q w. (Inr (StructuredObservation_Collect goal_demo_goal goal_demo_bindings q), w)), Some (\<lambda>q w. (FinalAnswerArtifact_Collect goal_demo_goal ''report'' criteria q, w))])\<rparr>"

definition outcome_demo_run :: "string list \<Rightarrow> VerifiedRunResult" where
  "outcome_demo_run criteria = fst (fst (VerifiedRunner_Run (outcome_demo_runner criteria) ((goal_demo_request 4)\<lparr>gr_Task := outcome_demo_task\<rparr>) (start react_demo_tracker)))"

definition outcome_demo :: "string list \<Rightarrow> gerr + TaskOutcome" where
  "outcome_demo criteria = BuildObservedTaskOutcome goal_demo_goal outcome_demo_task (outcome_demo_run criteria)"

text \<open>
  C16. In the outcome of a verified goal an artifact is reported as passed exactly when every criterion it claims is a
  required criterion of the task and is recorded on an item of the ledger with the identifier of the artifact. An artifact
  for an optional criterion never passes, however good its evidence is, since the verifier makes no check of it.
\<close>
theorem verified_artifact_passed_iff:
  assumes "VerifiedRunner_Run v request w = ((r, err), w')" and "vr_Verify v = Some (\<lambda>q w. (RequiredEvidenceVerifier_Verify g q, w))"
    and "gs_Status r = GoalRunVerified" and "buildTaskOutcome g' (gr_Task request) r source = Inr outcome" and "a \<in> set (to_Artifacts outcome)"
  shows "va_Status a = VerificationPassed \<longleftrightarrow> (\<forall>c\<in>set (va_CriterionIDs a). (\<exists>k\<in>set (tk_CompletionCriteria (gr_Task request)). cr_Required k \<and> cr_ID k = c)
    \<and> (\<exists>e\<in>set (lg_Items (gs_Evidence r)). vd_ID e = va_ID a \<and> c \<in> set (vd_CriterionIDs e)))"
proof -
  obtain e l where "goal_settled (vr_goal v) (the (vr_Verify v)) (gr_Task request) e l (r, err)"
    using goal_run_settles [OF assms(1,2)] by (auto simp: assms(2))
  then have "RequiredEvidenceVerifier_Verify g (verification_request (gr_Task request) e r) = Inr (gs_Verification r)"
    using assms(2,3) by (auto simp: goal_settled_def backed_def)
  from supported_required [OF this] show ?thesis by (simp add: artifact_passed(1) [OF assms(4,5)] verification_request_def)
qed

theorem verified_artifact_passed_iff_witness:
  "map va_Status (to_Artifacts (projr (outcome_demo [''c1'']))) = [VerificationPassed] \<and> map va_Status (to_Artifacts (projr (outcome_demo [''c1'', ''c2'']))) = [VerificationInconclusive]
   \<and> va_Status (hd (to_Artifacts (projr (outcome_demo [''c1'', ''c2''])))) \<noteq> VerificationPassed"
proof (intro conjI)
  show "map va_Status (to_Artifacts (projr (outcome_demo [''c1'']))) = [VerificationPassed]" by code_simp
  show s: "map va_Status (to_Artifacts (projr (outcome_demo [''c1'', ''c2'']))) = [VerificationInconclusive]" by code_simp
  obtain r err w' where r: "VerifiedRunner_Run (outcome_demo_runner [''c1'', ''c2'']) ((goal_demo_request 4)\<lparr>gr_Task := outcome_demo_task\<rparr>) (start react_demo_tracker) = ((r, err), w')"
    by (metis prod.exhaust)
  then have run: "outcome_demo_run [''c1'', ''c2''] = r" by (simp add: outcome_demo_run_def)
  let ?outcome = "projr (outcome_demo [''c1'', ''c2''])"
  have 1: "gs_Status (outcome_demo_run [''c1'', ''c2'']) = GoalRunVerified" by code_simp
  have "outcome_demo [''c1'', ''c2''] = Inr ?outcome" by code_simp
  then have 2: "buildTaskOutcome goal_demo_goal (gr_Task ((goal_demo_request 4)\<lparr>gr_Task := outcome_demo_task\<rparr>)) r TaskOutcomeExecutionObserved = Inr ?outcome"
    by (simp add: outcome_demo_def BuildObservedTaskOutcome_def run)
  have 3: "hd (to_Artifacts ?outcome) \<in> set (to_Artifacts ?outcome)" using s by (cases "to_Artifacts ?outcome") auto
  have 4: "''c2'' \<in> set (va_CriterionIDs (hd (to_Artifacts ?outcome)))" by code_simp
  have 5: "vr_Verify (outcome_demo_runner [''c1'', ''c2'']) = Some (\<lambda>q w. (RequiredEvidenceVerifier_Verify goal_demo_goal q, w))"
    by (simp add: outcome_demo_runner_def goal_demo_runner_def)
  show "va_Status (hd (to_Artifacts ?outcome)) \<noteq> VerificationPassed"
    unfolding verified_artifact_passed_iff [OF r 5 1 [unfolded run] 2 3] using 4 by (force simp: outcome_demo_task_def goal_demo_task_def)
qed

text \<open>
  A criterion without a check hides the failure of one before it: the verdict of an artifact whose criteria are not all
  checked is that of the last of them, in the order of their names.
\<close>
lemma unchecked_criterion_hides_failure:
  assumes "judge_criteria g task verification i (criteria @ [c]) support status = Inr (support', status')" and "check_of verification c = None"
  shows "status' = VerificationInconclusive"
  using assms by (induction criteria arbitrary: support status) (auto split: if_splits option.splits)

end
