(* ===== verification/Planned_Budget.thy ===== *)
theory Planned_Budget
  imports Planner_Properties Task_Outcome
begin

text \<open>
  The budget of a planned goal: planning, the run, planning again and the repair together stay within the budget of the request. Each
  part hands on what it left; the parts are the coordinator, the model-backed planner, the verified runner and the reason-act runner.
\<close>

section \<open>Sums of usages\<close>

definition fits :: "Budget \<Rightarrow> TokenUsage list \<Rightarrow> bool" where
  "fits budget us \<longleftrightarrow> (0 < bg_MaxTotalTokens budget \<longrightarrow> sum_list (map tu_TotalTokens us) \<le> bg_MaxTotalTokens budget)
     \<and> (0 < bg_MaxEstimatedCostMicros budget \<longrightarrow> sum_list (map tu_EstimatedCostMicros us) \<le> bg_MaxEstimatedCostMicros budget)"

definition leaves_after :: "Budget \<Rightarrow> TokenUsage list \<Rightarrow> Budget \<Rightarrow> bool" where
  "leaves_after budget us rest \<longleftrightarrow>
     (0 < bg_MaxTotalTokens budget \<longrightarrow> 0 < bg_MaxTotalTokens rest \<and> bg_MaxTotalTokens rest \<le> bg_MaxTotalTokens budget - sum_list (map tu_TotalTokens us))
     \<and> (0 < bg_MaxEstimatedCostMicros budget \<longrightarrow> 0 < bg_MaxEstimatedCostMicros rest \<and> bg_MaxEstimatedCostMicros rest \<le> bg_MaxEstimatedCostMicros budget - sum_list (map tu_EstimatedCostMicros us))"

lemma fits_single: "fits budget [u] \<longleftrightarrow> within_budget budget u"
  by (simp add: fits_def within_budget_def)

lemma leaves_single: "leaves_after budget [u] rest \<longleftrightarrow> leaves budget u rest"
  by (simp add: leaves_after_def leaves_def)

lemma leaves_trans: "leaves_after budget us rest \<Longrightarrow> leaves_after rest vs rest' \<Longrightarrow> leaves_after budget (us @ vs) rest'"
  by (auto simp: leaves_after_def)

lemma leaves_fits: "leaves_after budget us rest \<Longrightarrow> fits rest vs \<Longrightarrow> fits budget (us @ vs)"
  by (auto simp: leaves_after_def fits_def)

lemma fits_sum:
  assumes "tu_TotalTokens u = sum_list (map tu_TotalTokens us)" "tu_EstimatedCostMicros u = sum_list (map tu_EstimatedCostMicros us)"
  shows "fits budget us \<Longrightarrow> within_budget budget u"
  using assms by (simp add: fits_def within_budget_def)

lemma merge_uval:
  assumes "run_counted (length (rs_Steps current)) current" "run_counted (length (rs_Steps later)) later" "length (rs_Steps current) + length (rs_Steps later) \<le> 8192"
  shows "uval f (rs_Usage (mergeGoalRunResults current later c)) = uval f (rs_Usage current) + uval f (rs_Usage later)"
  using assms counted_Add(1) [of "2 * int (length (rs_Steps current))" "rs_Usage current" "2 * int (length (rs_Steps later))" "rs_Usage later" f]
    run_counted_no_steps [of current f] by (auto simp: mergeGoalRunResults_def run_counted_def)

section \<open>The parts\<close>

lemma lift_callD: "lift_call f x ws = (y, ws') \<Longrightarrow> f x (fst ws) = (y, fst ws') \<and> snd ws' = snd ws"
  by (auto simp: lift_call_def split: prod.splits)

interpretation lifted_run: accounted_runner "lift_call (Run env)" "honest_model env" for env
  by unfold_locales (auto dest!: lift_callD intro: react.steps_bounded react.steps_numbered react.no_steps_fails react_accounts.run_within react_accounts.run_counts)

interpretation recovery_planning: budgeted_planner "recovery_planner feedback (ModelShortHorizonPlanner_Plan p)" "honest_model (pm_env p) \<and> pm_maxParseRepairs p \<le> 1" for feedback p
proof
  show "within_budget (sr_Budget q) (sl_Usage r)" if "recovery_planner feedback (ModelShortHorizonPlanner_Plan p) q w = ((r, None), w')" for q w r w'
    using model_planner.within [OF that [unfolded recovery_planner_def]] by simp
  show "counted 4 (sl_Usage r)" if "honest_model (pm_env p) \<and> pm_maxParseRepairs p \<le> 1" "recovery_planner feedback (ModelShortHorizonPlanner_Plan p) q w = ((r, None), w')" for q w r w'
    using model_planner.counts [OF that(1) that(2) [unfolded recovery_planner_def]] .
qed

lemma lifted_environment [simp]: "gr_Environment (with_builder q build) = map_option lift_environment (gr_Environment q)"
  by (simp add: with_builder_def)

lemma lifted_builder [simp]: "gr_RepairBuilder (with_builder q build) = Some build"
  by (simp add: with_builder_def)

lemma lifted_goal [simp]: "vr_goal (lift_runner v) = vr_goal v"
  by (simp add: lift_runner_def)

lemma lifted_parts: "vr_Run v = Some f \<Longrightarrow> vr_Verify v = Some g \<Longrightarrow>
    vr_Run (lift_runner v) = Some (lift_call f) \<and> vr_Verify (lift_runner v) = Some (lift_call g)"
  by (simp add: lift_runner_def)

lemma lifted_snapshot: "take_snapshot task phase (map_option lift_environment e) ws = (x, ws') \<Longrightarrow> snd ws' = snd ws"
  by (auto simp: take_snapshot_def lift_environment_def dest!: lift_callD split: option.splits prod.splits sum.splits)

lemma lifted_observe: "observe_run (lift_runner v) b task (map_option lift_environment e) run k result ws = (err, result1, ws') \<Longrightarrow> snd ws' = snd ws"
  by (auto simp: observe_run_def lift_runner_def Let_def dest!: lifted_snapshot lift_callD split: sum.splits option.splits prod.splits)

lemma lifted_suspended: "suspended_attempt (lift_runner v) (with_builder q build) k run result ws = (out, ws') \<Longrightarrow> snd ws' = snd ws"
  by (auto simp: suspended_attempt_def Let_def dest!: lifted_observe split: sum.splits option.splits prod.splits if_splits)
     (auto simp: lift_runner_def dest!: lift_callD)

text \<open>What an attempt does with the builder: nothing when the goal ends well, one repair when it goes on.\<close>

definition builder_step :: "('w \<times> 's) repair_builder \<Rightarrow> 's \<Rightarrow> goal_progress \<Rightarrow> 'w \<times> 's \<Rightarrow> bool" where
  "builder_step build st x ws' \<longleftrightarrow> (case x of
      Inl (r, err) \<Rightarrow> err = None \<longrightarrow> snd ws' = st
    | Inr (q, r) \<Rightarrow> \<exists>repair ws. snd ws = st \<and> build repair ws = (Inr q, ws') \<and> rb_Previous repair = gs_Run r)"

lemma built_repair_step:
  assumes "built_repair g build base repair result ws = (x, ws')" "snd ws = st" "rb_Previous repair = gs_Run result"
  shows "builder_step build st x ws'"
proof -
  consider err where "x = Inl (result, Some err)" | candidate where "x = Inr (candidate, result)" "build repair ws = (Inr candidate, ws')"
    using assms(1) by (auto simp: built_repair_def split: prod.splits sum.splits option.splits)
  then show ?thesis
  proof cases
    case 2
    then have "\<exists>repair ws. snd ws = st \<and> build repair ws = (Inr candidate, ws') \<and> rb_Previous repair = gs_Run result" using assms(2,3) by blast
    then show ?thesis using 2 by (simp add: builder_step_def)
  qed (simp add: builder_step_def)
qed

lemma builder_step_ends: "snd ws' = st \<Longrightarrow> builder_step build st (Inl out) ws'"
  by (cases out) (simp add: builder_step_def)

lemma failed_attempt_step:
  assumes "failed_attempt g (with_builder q build) a err result ws = (x, ws')" "snd ws = st"
  shows "builder_step build st x ws'"
proof -
  consider r where "x = Inl r" "snd ws' = st"
    | repair r where "built_repair g build (gr_Run q) repair r ws = (x, ws')" "rb_Previous repair = gs_Run r"
    using assms by (auto simp: failed_attempt_def split: prod.splits option.splits if_splits)
  then show ?thesis
  proof cases
    case 2
    then show ?thesis by (rule built_repair_step [OF _ assms(2)])
  qed (simp add: builder_step_ends)
qed

lemma completed_attempt_step:
  assumes "completed_attempt (lift_runner v) (lift_call verify) (with_builder q build) a run result ws = (x, ws')" "snd ws = st"
  shows "builder_step build st x ws'"
proof -
  consider r where "x = Inl r" "snd ws' = st"
    | repair r ws1 where "built_repair (vr_goal v) build (gr_Run q) repair r ws1 = (x, ws')" "rb_Previous repair = gs_Run r" "snd ws1 = st"
    using assms by (auto simp: completed_attempt_def Let_def dest!: lifted_observe lift_callD split: prod.splits sum.splits option.splits if_splits)
  then show ?thesis
  proof cases
    case 2
    then show ?thesis by (intro built_repair_step [OF 2(1)])
  qed (simp add: builder_step_ends)
qed

lemma goal_attempt_step:
  assumes "goal_attempt (lift_runner v) (lift_call run) (lift_call verify) (with_builder q build) a current result ws = (x, ws')"
  shows "builder_step build (snd ws) x ws'"
proof -
  obtain ar runErr ws1 where r: "lift_call run current ws = ((ar, runErr), ws1)" by (metis prod.exhaust)
  then have "snd ws1 = snd ws" by (auto dest: lift_callD)
  then show ?thesis using assms r
    by (auto simp: goal_attempt_def Let_def builder_step_ends dest!: lifted_suspended intro: failed_attempt_step completed_attempt_step split: option.splits if_splits prod.splits)
qed

section \<open>Recovery within what is left\<close>

definition honest_planner :: "ModelShortHorizonPlanner \<Rightarrow> bool" where
  "honest_planner p \<longleftrightarrow> honest_model (pm_env p) \<and> pm_maxParseRepairs p \<le> 1"

definition honest_coordinator :: "ModelShortHorizonPlanner \<Rightarrow> run_world PlanningCoordinator \<Rightarrow> bool" where
  "honest_coordinator p c \<longleftrightarrow> honest_planner p \<and> pc_planner c = Some (ModelShortHorizonPlanner_Plan p) \<and> pc_maxAdmissionRepairs c \<le> 1"

lemma CoordinateRecovery_within:
  assumes "honest_coordinator p c" "machine_budget (sr_Budget request)" "CoordinateRecovery (Some c) ctx request feedback w = ((out, None), w')"
  shows "within_budget (sr_Budget request) (pg_Usage out)" "counted 8 (pg_Usage out)"
proof -
  have "Coordinate (Some (c\<lparr>pc_planner := Some (recovery_planner feedback (ModelShortHorizonPlanner_Plan p))\<rparr>)) ctx request w = ((out, None), w')"
    using assms(1,3) by (auto simp: CoordinateRecovery_def honest_coordinator_def bind_option2_def split: option.splits if_splits sum.splits)
  from recovery_planning.Coordinate_within [OF _ assms(2) _ _ this] assms(1)
  show "within_budget (sr_Budget request) (pg_Usage out)" "counted 8 (pg_Usage out)" by (auto simp: honest_coordinator_def honest_planner_def)
qed

lemma remaining_machine: "remaining_budget k tm cm budget used = Inr rest \<Longrightarrow> machine_budget budget \<Longrightarrow> machine_budget rest"
  using in_i64_i64 by (auto simp: remaining_budget_def machine_budget_def Let_def split: if_splits)

lemma bind_leaves:
  assumes "bindAdmittedPlanToVerifiedRequest e request planning = Inr bound" "counted 8 (pg_Usage planning)" "machine_budget (rc_Budget (rr_Context (pq_Run request)))"
  shows "leaves (rc_Budget (rr_Context (pq_Run request))) (pg_Usage planning) (rc_Budget (rr_Context (gr_Run bound)))"
    and "machine_budget (rc_Budget (rr_Context (gr_Run bound)))"
proof -
  obtain rest where rest: "remainingExecutionBudget (rc_Budget (rr_Context (pq_Run request))) (pg_Usage planning) = Inr rest" "rc_Budget (rr_Context (gr_Run bound)) = rest"
    using assms(1) by (auto simp: bindAdmittedPlanToVerifiedRequest_def bound_request_def bind_res_def Let_def split: sum.splits if_splits)
  then show "leaves (rc_Budget (rr_Context (pq_Run request))) (pg_Usage planning) (rc_Budget (rr_Context (gr_Run bound)))"
    using remaining_leaves [OF rest(1) [unfolded remainingExecutionBudget_def] assms(2) _ assms(3)] by simp
  show "machine_budget (rc_Budget (rr_Context (gr_Run bound)))"
    using rest(2) remaining_machine [OF rest(1) [unfolded remainingExecutionBudget_def] assms(3)] by simp
qed

text \<open>A repair by the builder: one more plan, and a budget of what the runs and that plan left.\<close>

lemma BuildRepair_leaves:
  assumes "BuildRepair b repair (w, st) = (Inr q, (w', st'))" "rx_coordinator b = Some c" "honest_coordinator p c" "machine_budget (rc_Budget (rr_Context (rx_base b)))"
    and "run_counted n (rb_Previous repair)" "n \<le> 8192"
  obtains planning where "ry_recoveryPlans st' = ry_recoveryPlans st @ [planning]" "ry_used st' = ry_used st + 1" "ry_used st < 1" "counted 8 (pg_Usage planning)"
    "leaves_after (rc_Budget (rr_Context (rx_base b))) [rs_Usage (rb_Previous repair), pg_Usage planning] (rc_Budget (rr_Context q))"
proof -
  let ?base = "rc_Budget (rr_Context (rx_base b))"
  obtain reason planningBudget planning where r: "recoveryPlanningBudget ?base (rb_Previous repair) = Inr planningBudget"
      "CoordinateRecovery (Some c) (rx_ctx b) (recovery_request b repair planningBudget) \<lparr>vb_Reason = reason\<rparr> w = ((planning, None), w')"
      "bind_recovery b repair reason planningBudget planning = Inr q" "ry_used st < 1"
      "ry_recoveryPlans st' = ry_recoveryPlans st @ [planning]" "ry_used st' = ry_used st + 1"
    using assms(1,2) by (auto simp: BuildRepair_def maximumExecutionPlanRecoveries_def Let_def split: if_splits sum.splits prod.splits option.splits)
  obtain remaining where remaining: "remainingGoalBudget ?base (rb_Previous repair) = Inr remaining" "planningBudget = remaining\<lparr>bg_MaxSteps := effective_max_steps ?base\<rparr>"
    using r(1) by (auto simp: recoveryPlanningBudget_def bind_res_def split: sum.splits)
  have left: "leaves ?base (rs_Usage (rb_Previous repair)) planningBudget" "machine_budget planningBudget"
    using remainingGoalBudget_leaves [OF remaining(1) assms(5,6,4)] by (auto simp: remaining(2) leaves_def machine_budget_def)
  have budget: "sr_Budget (recovery_request b repair planningBudget) = planningBudget" by (simp add: recovery_request_def Let_def)
  have used: "counted 8 (pg_Usage planning)"
    using CoordinateRecovery_within(2) [OF assms(3) _ r(2)] left(2) by (simp add: budget)
  have "leaves planningBudget (pg_Usage planning) (rc_Budget (rr_Context q))"
    using r(3) bind_leaves(1) [OF _ used] left(2) by (fastforce simp: bind_recovery_def bind_res_def Let_def with_max_steps_def leaves_def split: sum.splits)
  then have "leaves_after ?base ([rs_Usage (rb_Previous repair)] @ [pg_Usage planning]) (rc_Budget (rr_Context q))"
    using left(1) by (intro leaves_trans) (simp_all add: leaves_single)
  then show thesis using that r used by simp
qed

section \<open>The planned goal\<close>

lemma run_counted_256: "run_counted n r \<Longrightarrow> n \<le> 128 \<Longrightarrow> counted 256 (rs_Usage r)"
  unfolding run_counted_def by (erule counted_mono) simp

text \<open>The goal after its first plan: at most two attempts, with at most one more plan between them.\<close>

lemma planned_loop_within:
  assumes loop: "goal_loop (lift_runner v) (lift_call (Run env)) (lift_call verify) (with_builder q (BuildRepair b)) 0 (gr_Run q) result (w, st) = ((r, None), ws')"
    and honest: "honest_model env" "honest_coordinator p c" "rx_coordinator b = Some c"
    and base: "rc_Budget (rr_Context (gr_Run q)) = rc_Budget (rr_Context (rx_base b))" "machine_budget (rc_Budget (rr_Context (rx_base b)))"
    and fresh: "rs_Steps (gs_Run result) = []" "rs_Usage (gs_Run result) = zero_usage" "ry_recoveryPlans st = []" "ry_used st = 0"
    and completed: "rs_Status (gs_Run r) \<noteq> RunStatusFailed"
  shows "counted 256 (rs_Usage (gs_Run r)) \<and> (\<forall>planning\<in>set (ry_recoveryPlans (snd ws')). counted 8 (pg_Usage planning))
    \<and> length (ry_recoveryPlans (snd ws')) \<le> 1 \<and> fits (rc_Budget (rr_Context (rx_base b))) (map pg_Usage (ry_recoveryPlans (snd ws')) @ [rs_Usage (gs_Run r)])"
proof -
  let ?base = "rc_Budget (rr_Context (rx_base b))" and ?request = "with_builder q (BuildRepair b)"
  have bound: "length (rs_Steps ar) \<le> 64" if "lift_call (Run env) q' ws = ((ar, e), ws1)" for q' ws ar e ws1
    using react.steps_bounded [of env q' "fst ws" ar e "fst ws1"] lift_callD [OF that] run_steps_bound [of "rc_Budget (rr_Context q')"] by simp
  obtain x ws1 where g: "goal_attempt (lift_runner v) (lift_call (Run env)) (lift_call verify) ?request 0 (gr_Run q) result (w, st) = (x, ws1)" by (metis prod.exhaust)
  obtain ar err ws2 where ar: "lift_call (Run env) (gr_Run q) (w, st) = ((ar, err), ws2)" by (metis prod.exhaust)
  let ?m = "mergeGoalRunResults (gs_Run result) ar (rr_Context (gr_Run q))"
  have zero: "run_counted (length (rs_Steps (gs_Run result))) (gs_Run result)" by (simp add: run_counted_def fresh)
  have arc: "run_counted (length (rs_Steps ar)) ar" by (rule lifted_run.run_counts [OF honest(1) ar])
  have m: "run_counted (length (rs_Steps ?m)) ?m" "length (rs_Steps ?m) \<le> 64"
    using merge_counted [OF zero arc, of "rr_Context (gr_Run q)"] bound [OF ar] by (auto simp: fresh mergeGoalRunResults_def)
  have mu: "uval f (rs_Usage ?m) = uval f (rs_Usage ar)" for f using merge_uval [OF zero arc] bound [OF ar] by (simp add: fresh)
  have res: "case x of Inl (r, e) \<Rightarrow> gs_Run r = ?m | Inr (q', r) \<Rightarrow> gs_Run r = ?m"
    using goal_attempt_result [OF g ar refl] by (auto split: sum.splits prod.splits)
  show ?thesis
  proof (cases x)
    case (Inl out)
    then have out: "x = Inl (r, None)" "ws' = ws1" using loop g by (auto simp: goal_loop.simps)
    have "snd ws' = st" using goal_attempt_step [OF g] out by (simp add: builder_step_def)
    moreover have r: "gs_Run r = ?m" using res out by simp
    moreover have "within_budget ?base (rs_Usage ?m)"
      using lifted_run.run_within [OF ar] completed mu [of UTotal] mu [of UCost] by (auto simp: r base(1) within_budget_def)
    ultimately show ?thesis using run_counted_256 [OF m(1)] m(2) by (simp add: fresh fits_single)
  next
    case (Inr y)
    then obtain q' r1 where y: "x = Inr (q', r1)" by (cases y) simp
    then have r1: "gs_Run r1 = ?m" using res by simp
    obtain repair wa where rep: "BuildRepair b repair (wa, st) = (Inr q', ws1)" "rb_Previous repair = ?m"
      using goal_attempt_step [OF g] y r1 by (auto simp: builder_step_def)
    have rm: "run_counted (length (rs_Steps ?m)) (rb_Previous repair)" using m(1) by (simp add: rep(2))
    obtain planning where pl: "ry_recoveryPlans (snd ws1) = [planning]" "ry_used (snd ws1) = 1" "counted 8 (pg_Usage planning)"
        "leaves_after ?base [rs_Usage ?m, pg_Usage planning] (rc_Budget (rr_Context q'))"
      using BuildRepair_leaves [of b repair wa st q' "fst ws1" "snd ws1" c p, OF _ honest(3,2) base(2) rm] rep fresh m(2) by auto
    have loop1: "goal_loop (lift_runner v) (lift_call (Run env)) (lift_call verify) ?request 1 q' r1 ws1 = ((r, None), ws')"
      using loop g y by (simp add: goal_loop.simps [of _ _ _ _ 0])
    obtain x' ws3 where g': "goal_attempt (lift_runner v) (lift_call (Run env)) (lift_call verify) ?request 1 q' r1 ws1 = (x', ws3)" by (metis prod.exhaust)
    obtain br err' ws4 where br: "lift_call (Run env) q' ws1 = ((br, err'), ws4)" by (metis prod.exhaust)
    let ?n = "mergeGoalRunResults ?m br (rr_Context (gr_Run q))"
    have brc: "run_counted (length (rs_Steps br)) br" by (rule lifted_run.run_counts [OF honest(1) br])
    have n: "run_counted (length (rs_Steps ?n)) ?n" "length (rs_Steps ?n) \<le> 128"
      using merge_counted [OF m(1) brc, of "rr_Context (gr_Run q)"] bound [OF br] m(2) by (auto simp: mergeGoalRunResults_def [of ?m])
    have nu: "uval f (rs_Usage ?n) = uval f (rs_Usage ?m) + uval f (rs_Usage br)" for f using merge_uval [OF m(1) brc] bound [OF br] m(2) by simp
    have res': "case x' of Inl (r, e) \<Rightarrow> gs_Run r = ?n | Inr (q', r) \<Rightarrow> gs_Run r = ?n"
      using goal_attempt_result [OF g' br refl] r1 by (auto split: sum.splits prod.splits)
    note step = goal_attempt_step [OF g']
    show ?thesis
    proof (cases x')
      case (Inl out)
      then have out: "x' = Inl (r, None)" "ws' = ws3" using loop1 g' by (auto simp: goal_loop.simps)
      have st: "snd ws' = snd ws1" using step out by (simp add: builder_step_def)
      have r: "gs_Run r = ?n" using res' out by simp
      have "fits (rc_Budget (rr_Context q')) [rs_Usage br]" using lifted_run.run_within [OF br] completed by (simp add: fits_single r)
      from leaves_fits [OF pl(4) this] have "fits ?base [pg_Usage planning, rs_Usage ?n]"
        using nu [of UTotal] nu [of UCost] by (auto simp: fits_def)
      then show ?thesis using st pl(1,3) run_counted_256 [OF n(1)] n(2) by (simp add: r)
    next
      case (Inr z)
      then obtain q'' r2 repair' wb where "BuildRepair b repair' (wb, snd ws1) = (Inr q'', ws3)" using step by (cases z) (auto simp: builder_step_def)
      then show ?thesis using pl(2) by (auto simp: BuildRepair_def maximumExecutionPlanRecoveries_def split: if_splits)
    qed
  qed
qed

lemma planned_goal_within:
  assumes run: "VerifiedRunner_Run (lift_runner v) (with_builder q (BuildRepair b)) (w, st) = ((r, None), ws')" and "vr_Run v = Some (Run env)"
    and honest: "honest_model env" "honest_coordinator p c" "rx_coordinator b = Some c"
    and base: "rc_Budget (rr_Context (gr_Run q)) = rc_Budget (rr_Context (rx_base b))" "machine_budget (rc_Budget (rr_Context (rx_base b)))"
    and fresh: "ry_recoveryPlans st = []" "ry_used st = 0" and completed: "rs_Status (gs_Run r) \<noteq> RunStatusFailed"
  shows "counted 256 (rs_Usage (gs_Run r)) \<and> (\<forall>planning\<in>set (ry_recoveryPlans (snd ws')). counted 8 (pg_Usage planning))
    \<and> length (ry_recoveryPlans (snd ws')) \<le> 1 \<and> fits (rc_Budget (rr_Context (rx_base b))) (map pg_Usage (ry_recoveryPlans (snd ws')) @ [rs_Usage (gs_Run r)])"
proof -
  let ?zero = "new_goal_result (gr_Evidence q) None 0"
  obtain x ws1 where t: "resolveGoalTools (gr_Task q) (rr_Tools (gr_Run q)) (map_option lift_environment (gr_Environment q)) (w, st) = (x, ws1)" by (metis prod.exhaust)
  have ws1: "snd ws1 = st" using t by (auto simp: resolveGoalTools_def lift_environment_def dest!: lift_callD split: sum.splits option.splits if_splits prod.splits)
  obtain y ws2 where s: "take_snapshot (gr_Task q) SnapshotPhaseBefore (map_option lift_environment (gr_Environment q)) ws1 = (y, ws2)" by (metis prod.exhaust)
  have ws2: "snd ws2 = st" using lifted_snapshot [OF s] ws1 by simp
  obtain verify where v: "vr_Verify v = Some verify"
    using run by (auto simp: VerifiedRunner_Run_def lift_runner_def Let_def split: option.splits)
  note runner = lifted_parts [OF assms(2) v]
  obtain tools snapshot where "goal_loop (lift_runner v) (lift_call (Run env)) (lift_call verify) (with_builder (q\<lparr>gr_Run := (gr_Run q)\<lparr>rr_Tools := tools\<rparr>\<rparr>) (BuildRepair b)) 0
      ((gr_Run q)\<lparr>rr_Tools := tools\<rparr>) (?zero\<lparr>gs_Before := snapshot\<rparr>) ws2 = ((r, None), ws')"
    using run t s by (auto simp: VerifiedRunner_Run_def with_builder_run Let_def runner split: option.splits sum.splits prod.splits)
  then have loop: "goal_loop (lift_runner v) (lift_call (Run env)) (lift_call verify) (with_builder (q\<lparr>gr_Run := (gr_Run q)\<lparr>rr_Tools := tools\<rparr>\<rparr>) (BuildRepair b)) 0
      (gr_Run (q\<lparr>gr_Run := (gr_Run q)\<lparr>rr_Tools := tools\<rparr>\<rparr>)) (?zero\<lparr>gs_Before := snapshot\<rparr>) (fst ws2, st) = ((r, None), ws')"
    using ws2 by (metis prod.collapse VerifiedRunRequest.select_convs(2) VerifiedRunRequest.surjective VerifiedRunRequest.update_convs(2))
  show ?thesis
    by (rule planned_loop_within [OF loop honest _ base(2) _ _ fresh completed]) (simp_all add: base(1) new_goal_result_def zero_run_def new_result_def)
qed

lemma counted_sum:
  assumes "counted 8 p" "\<forall>u\<in>set us. counted 8 u" "length us \<le> 1" "counted 256 u"
  shows "uval f (usage_Add (fold (\<lambda>v acc. usage_Add acc (normalizedUsage v)) us (normalizedUsage p)) (normalizedUsage u)) = sum_list (map (uval f) (p # us @ [u]))"
proof (cases us)
  case Nil
  then show ?thesis using counted_Add(1) [OF assms(1,4), of f] counted_normalized [OF assms(1)] counted_normalized [OF assms(4)] by simp
next
  case (Cons v vs)
  then have v: "us = [v]" "counted 8 v" using assms(2,3) by simp_all
  have pv: "uval f (usage_Add p v) = uval f p + uval f v" "counted 16 (usage_Add p v)" using counted_Add [OF assms(1) v(2)] by simp_all
  then show ?thesis using counted_Add(1) [OF pv(2) assms(4), of f] counted_normalized [OF assms(1)] counted_normalized [OF assms(4)] counted_normalized [OF v(2)] by (simp add: v(1))
qed

lemma execute_planned_usage:
  assumes "execute_planned v b q result w = ((r, None), w')" and "vr_Run v = Some (Run env)"
    and honest: "honest_model env" "honest_coordinator p c" "rx_coordinator b = Some c"
    and base: "rx_base b = gr_Run q" "machine_budget (rc_Budget (rr_Context (gr_Run q)))"
    and completed: "rs_Status (gs_Run (pv_Verified r)) \<noteq> RunStatusFailed"
    and planning: "pv_Usage result = normalizedUsage u" "counted 8 u"
  obtains us where "fits (rc_Budget (rr_Context (gr_Run q))) us" "\<And>f. uval f (pv_Usage r) = sum_list (map (uval f) (u # us))"
proof -
  obtain goal e w1 st where g: "VerifiedRunner_Run (lift_runner v) (with_builder q (BuildRepair b)) (w, \<lparr>ry_recoveryPlans = [], ry_lastReason = [], ry_used = 0\<rparr>) = ((goal, e), (w1, st))"
    by (metis prod.exhaust)
  have e: "e = None" and r: "pv_Verified r = goal"
      "pv_Usage r = usage_Add (fold (\<lambda>r u. usage_Add u (normalizedUsage (pg_Usage r))) (ry_recoveryPlans st) (normalizedUsage u)) (normalizedUsage (rs_Usage (gs_Run goal)))"
    using assms(1) g planning(1) by (auto simp: execute_planned_def Let_def split: option.splits)
  let ?us = "map pg_Usage (ry_recoveryPlans st)" and ?run = "rs_Usage (gs_Run goal)"
  have parts: "counted 256 ?run" "\<forall>p\<in>set (ry_recoveryPlans st). counted 8 (pg_Usage p)" "length (ry_recoveryPlans st) \<le> 1" "fits (rc_Budget (rr_Context (gr_Run q))) (?us @ [?run])"
    using planned_goal_within [OF g [unfolded e] assms(2) honest] base completed by (simp_all add: r(1))
  have folded: "fold (\<lambda>r u. usage_Add u (normalizedUsage (pg_Usage r))) ps acc = fold (\<lambda>v acc. usage_Add acc (normalizedUsage v)) (map pg_Usage ps) acc" for ps acc
    by (induction ps arbitrary: acc) simp_all
  have "uval f (pv_Usage r) = sum_list (map (uval f) (u # ?us @ [?run]))" for f
    unfolding r(2) folded by (rule counted_sum) (use parts planning(2) in auto)
  then show thesis using that [of "?us @ [?run]"] parts(4) by blast
qed

lemma planned_goal_usage:
  assumes planner: "honest_coordinator p coordinator" and runner: "pr_planning runner = Some coordinator" "pr_verified runner = Some v" "vr_Run v = Some (Run env)" "honest_model env"
    and budget: "machine_budget (rc_Budget (rr_Context (pq_Run request)))"
    and run: "PlannedVerifiedRunner_Run runner ctx request w = ((r, None), w')" and completed: "rs_Status (gs_Run (pv_Verified r)) \<noteq> RunStatusFailed"
  shows "within_budget (rc_Budget (rr_Context (pq_Run request))) (pv_Usage r)"
proof -
  let ?budget = "rc_Budget (rr_Context (pq_Run request))"
  obtain plan_request planned w1 w2 q b where c: "Coordinate (Some coordinator) ctx plan_request w1 = ((planned, None), w2)" "sr_Budget plan_request = ?budget"
      and q: "bindAdmittedPlanToVerifiedRequest (pr_env runner) request planned = Inr q"
      and x: "execute_planned v b q (zero_planned\<lparr>pv_Planning := planned, pv_Usage := normalizedUsage (pg_Usage planned)\<rparr>) w2 = ((r, None), w')"
        "rx_coordinator b = Some coordinator" "rx_base b = gr_Run q"
    using run runner(1,2) by (auto simp: PlannedVerifiedRunner_Run_def bind_option2_def Let_def split: option.splits if_splits sum.splits prod.splits)
  have planned: "counted 8 (pg_Usage planned)"
    using model_planner.Coordinate_within(2) [OF _ _ _ _ c(1)] planner budget by (auto simp: c(2) honest_coordinator_def honest_planner_def)
  note left = bind_leaves [OF q planned budget]
  obtain us where us: "fits (rc_Budget (rr_Context (gr_Run q))) us" "\<And>f. uval f (pv_Usage r) = sum_list (map (uval f) (pg_Usage planned # us))"
    by (rule execute_planned_usage [OF x(1) runner(3,4) planner x(2,3) left(2) completed _ planned]) simp_all
  have "fits ?budget ([pg_Usage planned] @ us)" using leaves_fits us(1) left(1) by (metis leaves_single)
  moreover have "tu_TotalTokens (pv_Usage r) = sum_list (map tu_TotalTokens ([pg_Usage planned] @ us))" "tu_EstimatedCostMicros (pv_Usage r) = sum_list (map tu_EstimatedCostMicros ([pg_Usage planned] @ us))"
    using us(2) [of UTotal] us(2) [of UCost] by (simp_all add: uval.simps [abs_def])
  ultimately show ?thesis by (intro fits_sum)
qed

section \<open>A planned goal with a model for both\<close>

text \<open>
  The planner and the runner share one log of calls, so both scripts are positioned by it: the planner is asked first and after the answer that
  lacks evidence.
\<close>

definition budget_demo_plans :: "string list" where
  "budget_demo_plans = [''plan'', [], ''plan'']"

definition budget_demo_actions :: "Action list list" where
  "budget_demo_actions = [[]] @ goal_demo_answer @ [[]] @ plan_demo_one_by_one"

definition budget_demo_runner :: "run_world PlannedVerifiedRunner" where
  "budget_demo_runner = \<lparr>pr_env = plan_demo_env, pr_planning = Some (planner_demo_coordinator budget_demo_plans), pr_verified = Some (goal_demo_runner budget_demo_actions)\<rparr>"

definition budget_demo_request :: "run_world PlannedVerifiedRunRequest" where
  "budget_demo_request = plan_demo_request\<lparr>pq_Run := plan_demo_run_request\<lparr>rr_Context := (rr_Context plan_demo_run_request)\<lparr>rc_Budget := (rc_Budget (rr_Context plan_demo_run_request))\<lparr>bg_MaxTotalTokens := 40\<rparr>\<rparr>\<rparr>\<rparr>"

definition budget_demo_run :: "(PlannedVerifiedRunResult \<times> gerr option) \<times> run_world" where
  "budget_demo_run = PlannedVerifiedRunner_Run budget_demo_runner (Some (\<lambda>w. None)) budget_demo_request (start react_demo_tracker)"

text \<open>
  C18. A planned goal stays within the budget of its request, all of it: the plan with its repairs, the run, the plan after a failed attempt and the
  repaired run have together used at most the tokens and the cost of the budget, when the goal ends without an error and its last attempt did
  not fail. The planner is the one that asks a model, the runner the reason-act runner. It is assumed that providers count what they used, that no call
  uses more than \<open>2 ^ 48\<close> tokens, and that the limits of the request are machine integers.
\<close>
theorem planned_goal_within_budget:
  assumes "NewModelShortHorizonPlanner penv g j marshal options = Inr p" and "honest_model (pm_env p)"
    and "NewPlanningCoordinator (Some (ModelShortHorizonPlanner_Plan p)) policy coordinator_options = Inr coordinator" and "pc_planner coordinator = Some (ModelShortHorizonPlanner_Plan p)"
    and "pr_planning runner = Some coordinator" and "pr_verified runner = Some v" and "vr_Run v = Some (Run env)" and "honest_model env"
    and "machine_budget (rc_Budget (rr_Context (pq_Run request)))"
    and "PlannedVerifiedRunner_Run runner ctx request w = ((r, None), w')" and "rs_Status (gs_Run (pv_Verified r)) \<noteq> RunStatusFailed"
  shows "within_budget (rc_Budget (rr_Context (pq_Run request))) (pv_Usage r)"
proof -
  have "honest_coordinator p coordinator"
    using assms(2,4) NewModelShortHorizonPlanner_repairs [OF assms(1)] NewPlanningCoordinator_repairs [OF assms(3)] by (simp add: honest_coordinator_def honest_planner_def)
  then show ?thesis by (rule planned_goal_usage [OF _ assms(5-11)])
qed

text \<open>The run is evaluated once, for all that the witness needs of it.\<close>

definition budget_demo_summary :: "(PlannedVerifiedRunResult \<times> gerr option) \<times> run_world \<Rightarrow> bool \<times> string \<times> int \<times> int" where
  "budget_demo_summary x = (Option.is_none (snd (fst x)), rs_Status (gs_Run (pv_Verified (fst (fst x)))), tu_TotalTokens (pv_Usage (fst (fst x))), pv_RecoveryAttempts (fst (fst x)))"

lemma budget_demo_evaluated: "budget_demo_summary budget_demo_run = (True, RunStatusCompleted, 30, 1)"
  by code_simp

lemma budget_demo_facts:
  "snd (fst budget_demo_run) = None" "rs_Status (gs_Run (pv_Verified (fst (fst budget_demo_run)))) \<noteq> RunStatusFailed"
  "tu_TotalTokens (pv_Usage (fst (fst budget_demo_run))) = 30" "pv_RecoveryAttempts (fst (fst budget_demo_run)) = 1"
  using budget_demo_evaluated by (auto simp: budget_demo_summary_def Option.is_none_def RunStatusCompleted_def RunStatusFailed_def)

theorem planned_goal_within_budget_witness:
  "within_budget (rc_Budget (rr_Context (pq_Run budget_demo_request))) (pv_Usage (fst (fst budget_demo_run)))
   \<and> tu_TotalTokens (pv_Usage (fst (fst budget_demo_run))) = 30 \<and> pv_RecoveryAttempts (fst (fst budget_demo_run)) = 1
   \<and> bg_MaxTotalTokens (rc_Budget (rr_Context (pq_Run budget_demo_request))) = 40"
proof (intro conjI)
  obtain r err w' where r: "budget_demo_run = ((r, err), w')" by (metis prod.exhaust)
  have result: "fst (fst budget_demo_run) = r" by (simp add: r)
  have run: "PlannedVerifiedRunner_Run budget_demo_runner (Some (\<lambda>w. None)) budget_demo_request (start react_demo_tracker) = ((r, None), w')"
    using budget_demo_facts(1) r by (simp add: budget_demo_run_def)
  have budget: "machine_budget (rc_Budget (rr_Context (pq_Run budget_demo_request)))" by code_simp
  have parts: "pr_planning budget_demo_runner = Some (planner_demo_coordinator budget_demo_plans)" "pr_verified budget_demo_runner = Some (goal_demo_runner budget_demo_actions)"
      "vr_Run (goal_demo_runner budget_demo_actions) = Some (Run (goal_demo_env budget_demo_actions))"
    by (simp_all add: budget_demo_runner_def goal_demo_runner_def)
  show "within_budget (rc_Budget (rr_Context (pq_Run budget_demo_request))) (pv_Usage (fst (fst budget_demo_run)))"
    unfolding result
    by (rule planned_goal_within_budget [OF planner_demo_new [unfolded planner_demo_new_def] planner_demo_honest planner_demo_coordinator(1,2) parts goal_demo_honest budget run
          budget_demo_facts(2) [unfolded result]])
  show "tu_TotalTokens (pv_Usage (fst (fst budget_demo_run))) = 30" "pv_RecoveryAttempts (fst (fst budget_demo_run)) = 1" by (rule budget_demo_facts)+
  show "bg_MaxTotalTokens (rc_Budget (rr_Context (pq_Run budget_demo_request))) = 40" by code_simp
qed

end
