(* ===== verification/Strategy_Planner.thy ===== *)
theory Strategy_Planner
  imports Goal_Types
begin

text \<open>
  The choice of an execution strategy: \<^verbatim>\<open>src/internal/module/agent/strategy/planner.go\<close>. A request whose profile and capabilities
  have a template of roles, and that is complex enough, is a candidate for several agents; it is admitted when the roles fit the limits of
  the policy and the tools and the budget of the request, and runs with a single agent otherwise. A plan carries a digest of itself.

  The library functions are a record \<open>strategy_env\<close>: the JSON of a plan, the hex form of its SHA-256 and the formatting of \<^verbatim>\<open>%q\<close>. The keyword
  lists of the code are its bytes; a term of other than ASCII characters has no case, so that \<open>to_lower\<close> decides its occurrence as \<^verbatim>\<open>strings.ToLower\<close> does.
\<close>

section \<open>Types\<close>

definition PlanVersionV1 :: string where "PlanVersionV1 = ''agent.execution_strategy.v1''"

definition KindSingleAgent :: string where "KindSingleAgent = ''single_agent''"
definition KindMultiAgent :: string where "KindMultiAgent = ''multi_agent''"
definition DecisionSelected :: string where "DecisionSelected = ''selected''"
definition DecisionFallback :: string where "DecisionFallback = ''fallback''"
definition DecisionDisabled :: string where "DecisionDisabled = ''disabled''"
definition ReasonSingleCapabilityScope :: string where "ReasonSingleCapabilityScope = ''single_capability_scope''"
definition ReasonSingleComplexityBelowLimit :: string where "ReasonSingleComplexityBelowLimit = ''single_complexity_below_threshold''"
definition ReasonMultiFeatureDisabled :: string where "ReasonMultiFeatureDisabled = ''multi_feature_disabled''"
definition ReasonMultiRoleLimit :: string where "ReasonMultiRoleLimit = ''multi_role_limit''"
definition ReasonMultiParallelLimit :: string where "ReasonMultiParallelLimit = ''multi_parallel_limit''"
definition ReasonMultiToolScopeUnavailable :: string where "ReasonMultiToolScopeUnavailable = ''multi_tool_scope_unavailable''"
definition ReasonMultiBudgetUnbounded :: string where "ReasonMultiBudgetUnbounded = ''multi_budget_unbounded''"
definition ReasonMultiStepBudget :: string where "ReasonMultiStepBudget = ''multi_step_budget_insufficient''"
definition ReasonMultiTokenBudget :: string where "ReasonMultiTokenBudget = ''multi_token_budget_insufficient''"
definition ReasonMultiCostBudget :: string where "ReasonMultiCostBudget = ''multi_cost_budget_insufficient''"
definition ReasonMultiLatencyBudget :: string where "ReasonMultiLatencyBudget = ''multi_latency_budget_insufficient''"
definition ReasonMultiPolicyLatency :: string where "ReasonMultiPolicyLatency = ''multi_policy_latency_exceeded''"
definition ReasonMultiExecutorUnavailable :: string where "ReasonMultiExecutorUnavailable = ''multi_executor_unavailable''"
definition ReasonMultiAdmitted :: string where "ReasonMultiAdmitted = ''multi_admitted''"
definition ComplexityLow :: string where "ComplexityLow = ''low''"
definition ComplexityMedium :: string where "ComplexityMedium = ''medium''"
definition ComplexityHigh :: string where "ComplexityHigh = ''high''"

lemmas strategy_kinds = KindSingleAgent_def KindMultiAgent_def
lemmas strategy_decisions = DecisionSelected_def DecisionFallback_def DecisionDisabled_def
lemmas strategy_reasons = ReasonSingleCapabilityScope_def ReasonSingleComplexityBelowLimit_def ReasonMultiFeatureDisabled_def ReasonMultiRoleLimit_def
  ReasonMultiParallelLimit_def ReasonMultiToolScopeUnavailable_def ReasonMultiBudgetUnbounded_def ReasonMultiStepBudget_def
  ReasonMultiTokenBudget_def ReasonMultiCostBudget_def ReasonMultiLatencyBudget_def ReasonMultiPolicyLatency_def
  ReasonMultiExecutorUnavailable_def ReasonMultiAdmitted_def

record RolePlan =
  ol_RoleID :: string
  ol_CapabilityIDs :: "string list"
  ol_AllowedTools :: "string list"
  ol_MaxSteps :: int
  ol_MaxTotalTokens :: int
  ol_MaxEstimatedCostMicros :: int
  ol_TimeoutMillis :: int

record StrategyPlan =
  yp_Version :: string
  yp_TemplateID :: string
  yp_CandidateStrategy :: string
  yp_SelectedStrategy :: string
  yp_Decision :: string
  yp_ReasonCode :: string
  yp_ComplexityScore :: int
  yp_ComplexityClass :: string
  yp_ComplexitySignals :: "string list"
  yp_EstimatedLatencyMillis :: int
  yp_EstimatedTotalTokens :: int
  yp_EstimatedCostMicros :: int
  yp_MaxParallelRoles :: int
  yp_Roles :: "RolePlan list"
  yp_ProfileSetAnchor :: string
  yp_ProfileSetVersion :: string
  yp_PlanDigest :: string

record RoleTemplate =
  ot_RoleID :: string
  ot_CapabilityIDs :: "string list"
  ot_AllowedTools :: "string list"
  ot_MaxSteps :: int
  ot_RequiredTotalTokens :: int
  ot_RequiredCostMicros :: int
  ot_EstimatedLatency :: int

record StrategyTemplate =
  yt_ID :: string
  yt_ExecutionProfile :: string
  yt_RequiredCapabilityIDs :: "string list"
  yt_MaxParallelRoles :: int
  yt_Roles :: "RoleTemplate list"

record StrategyPolicy =
  yo_Enabled :: bool
  yo_ExecutorAvailable :: bool
  yo_MinimumComplexityScore :: int
  yo_MaxRoles :: int
  yo_MaxParallelRoles :: int
  yo_MaxEstimatedLatency :: int

record StrategyRequest =
  yq_Query :: string
  yq_ExecutionProfile :: string
  yq_CapabilityIDs :: "string list"
  yq_Budget :: Budget
  yq_AllowedTools :: "string list"

record DeterministicPlanner =
  yl_policy :: StrategyPolicy
  yl_templates :: "(string \<times> StrategyTemplate) list"

record strategy_env =
  ye_marshal :: "StrategyPlan \<Rightarrow> gerr + string"
  ye_sha256 :: "string \<Rightarrow> string"
  ye_quote :: "string \<Rightarrow> string"

section \<open>Complexity\<close>

definition analysisTerms :: "string list" where
  "analysisTerms = [
    [CHR 0xE6, CHR 0xB7, CHR 0xB1, CHR 0xE5, CHR 0x85, CHR 0xA5], [CHR 0xE7, CHR 0xA0, CHR 0x94, CHR 0xE7, CHR 0xA9, CHR 0xB6],
    [CHR 0xE8, CHR 0xB0, CHR 0x83, CHR 0xE7, CHR 0xA0, CHR 0x94], [CHR 0xE5, CHR 0x88, CHR 0x86, CHR 0xE6, CHR 0x9E, CHR 0x90],
    [CHR 0xE6, CHR 0xAF, CHR 0x94, CHR 0xE8, CHR 0xBE, CHR 0x83], [CHR 0xE5, CHR 0xAF, CHR 0xB9, CHR 0xE6, CHR 0xAF, CHR 0x94],
    [CHR 0xE7, CHR 0xBB, CHR 0xBC, CHR 0xE5, CHR 0x90, CHR 0x88], [CHR 0xE6, CHR 0x9D, CHR 0x83, CHR 0xE8, CHR 0xA1, CHR 0xA1],
    [CHR 0xE8, CHR 0xAE, CHR 0xBA, CHR 0xE8, CHR 0xAF, CHR 0x81], ''research'', ''analyze'', ''analyse'', ''compare'', ''synthesize'', ''investigate'']"

definition multipleOutputTerms :: "string list" where
  "multipleOutputTerms = [
    [CHR 0xE5, CHR 0xA4, CHR 0x9A, CHR 0xE4, CHR 0xB8, CHR 0xAA], [CHR 0xE5, CHR 0xA4, CHR 0x9A, CHR 0xE7, CHR 0xA7, CHR 0x8D],
    [CHR 0xE4, CHR 0xB8, CHR 0x89, CHR 0xE6, CHR 0x9D, CHR 0xA1], [CHR 0xE4, CHR 0xB8, CHR 0x89, CHR 0xE4, CHR 0xB8, CHR 0xAA],
    [CHR 0xE5, CHR 0x80, CHR 0x99, CHR 0xE9, CHR 0x80, CHR 0x89], [CHR 0xE6, CHR 0x96, CHR 0xB9, CHR 0xE6, CHR 0xA1, CHR 0x88],
    [CHR 0xE7, CHR 0xB3, CHR 0xBB, CHR 0xE5, CHR 0x88, CHR 0x97], [CHR 0xE7, CHR 0xBA, CHR 0xBF, CHR 0xE7, CHR 0xA8, CHR 0x8B],
    [CHR 0xE5, CHR 0x88, CHR 0x86, CHR 0xE5, CHR 0x88, CHR 0xAB], ''multiple'', ''alternatives'', ''options'', ''variants'', ''thread'']"

definition reviewTerms :: "string list" where
  "reviewTerms = [
    [CHR 0xE5, CHR 0xAE, CHR 0xA1, CHR 0xE6, CHR 0x9F, CHR 0xA5], [CHR 0xE5, CHR 0xAE, CHR 0xA1, CHR 0xE6, CHR 0xA0, CHR 0xB8],
    [CHR 0xE6, CHR 0xA0, CHR 0xA1, CHR 0xE5, CHR 0xAF, CHR 0xB9], [CHR 0xE9, CHR 0xAA, CHR 0x8C, CHR 0xE8, CHR 0xAF, CHR 0x81],
    [CHR 0xE6, CHR 0xA0, CHR 0xB8, CHR 0xE9, CHR 0xAA, CHR 0x8C],
    [CHR 0xE4, CHR 0xBA, CHR 0x8B, CHR 0xE5, CHR 0xAE, CHR 0x9E, CHR 0xE6, CHR 0xA3, CHR 0x80, CHR 0xE6, CHR 0x9F, CHR 0xA5],
    [CHR 0xE6, CHR 0x8C, CHR 0x91, CHR 0xE9, CHR 0x94, CHR 0x99], [CHR 0xE5, CHR 0xA4, CHR 0x8D, CHR 0xE7, CHR 0x9B, CHR 0x98], ''review'', ''verify'', ''validate'',
    ''fact-check'', ''critique'']"

definition explicitStepTerms :: "string list" where
  "explicitStepTerms = [
    [CHR 0xE5, CHR 0x88, CHR 0x86, CHR 0xE6, CHR 0xAD, CHR 0xA5, CHR 0xE9, CHR 0xAA, CHR 0xA4], [CHR 0xE9, CHR 0x80, CHR 0x90, CHR 0xE6, CHR 0xAD, CHR 0xA5],
    [CHR 0xE5, CHR 0x88, CHR 0x86, CHR 0xE9, CHR 0x98, CHR 0xB6, CHR 0xE6, CHR 0xAE, CHR 0xB5],
    [CHR 0xE7, CHR 0xAC, CHR 0xAC, CHR 0xE4, CHR 0xB8, CHR 0x80, CHR 0xE6, CHR 0xAD, CHR 0xA5],
    [CHR 0xE7, CHR 0xAC, CHR 0xAC, CHR 0xE4, CHR 0xBA, CHR 0x8C, CHR 0xE6, CHR 0xAD, CHR 0xA5], ''step by step'', ''in stages'']"

definition briefTerms :: "string list" where
  "briefTerms = [
    [CHR 0xE4, CHR 0xB8, CHR 0x80, CHR 0xE5, CHR 0x8F, CHR 0xA5, CHR 0xE8, CHR 0xAF, CHR 0x9D], [CHR 0xE7, CHR 0xAE, CHR 0x80, CHR 0xE7, CHR 0x9F, CHR 0xAD],
    [CHR 0xE7, CHR 0xAE, CHR 0x80, CHR 0xE6, CHR 0xB4, CHR 0x81],
    [CHR 0xE5, CHR 0xBF, CHR 0xAB, CHR 0xE9, CHR 0x80, CHR 0x9F, CHR 0xE5, CHR 0x9B, CHR 0x9E, CHR 0xE7, CHR 0xAD, CHR 0x94],
    [CHR 0xE5, CHR 0x8F, CHR 0xAA, CHR 0xE8, CHR 0xA6, CHR 0x81, CHR 0xE7, CHR 0xAD, CHR 0x94, CHR 0xE6, CHR 0xA1, CHR 0x88], ''brief'', ''concise'', ''one sentence'']"

text \<open>\<^verbatim>\<open>strings.Contains\<close> and \<^verbatim>\<open>utf8.RuneCountInString\<close>, for which a byte that starts no rune is a rune.\<close>

fun contains_text :: "string \<Rightarrow> string \<Rightarrow> bool" where
  "contains_text [] term \<longleftrightarrow> term = []"
| "contains_text (c # s) term \<longleftrightarrow> prefix term (c # s) \<or> contains_text s term"

function rune_count :: "string \<Rightarrow> int" where
  "rune_count [] = 0"
| "rune_count (c # s) = 1 + rune_count (drop (rune_width (c # s)) (c # s))"
  by pat_completeness auto
termination
  by (relation "measure length") (use rune_width_bounds(1) in \<open>auto simp: less_Suc_eq_le, metis Suc_leI diff_Suc_less diff_le_mono2 le_trans not_less_eq_eq zero_less_Suc\<close>)

definition containsAny :: "string \<Rightarrow> string list \<Rightarrow> bool" where
  "containsAny value terms \<longleftrightarrow> list_ex (contains_text value) terms"

definition complexityScore :: "string \<Rightarrow> int \<Rightarrow> int \<times> string list" where
  "complexityScore query0 capabilityCount =
     (let query = to_lower (trim_space query0);
          signals =
            [(1 < capabilityCount, 2, ''capability_composition''), (containsAny query analysisTerms, 2, ''analysis_request''),
             (containsAny query multipleOutputTerms, 2, ''multiple_outputs''), (containsAny query reviewTerms, 2, ''quality_review''),
             (containsAny query explicitStepTerms \<or> contains_text query [CHR 0xE5, CHR 0x85, CHR 0x88] \<and> contains_text query [CHR 0xE5, CHR 0x86, CHR 0x8D], 1, ''explicit_steps''),
             (160 \<le> rune_count query, 1, ''long_request''), (containsAny query briefTerms, - 2, ''brief_request'')];
          present = filter fst signals;
          score = sum_list (map (\<lambda>(_, points, _). points) present)
      in (if score < 0 then 0 else if 10 < score then 10 else score, map (\<lambda>(_, _, name). name) present))"

definition classifyComplexity :: "int \<Rightarrow> string" where
  "classifyComplexity score = (if 6 \<le> score then ComplexityHigh else if 3 \<le> score then ComplexityMedium else ComplexityLow)"

section \<open>Templates\<close>

definition uniqueSorted :: "string list \<Rightarrow> string list" where
  "uniqueSorted values = sort (remdups (filter (\<lambda>v. v \<noteq> []) (map trim_space values)))"

definition templateKey :: "string \<Rightarrow> string list \<Rightarrow> string" where
  "templateKey executionProfile capabilityIDs = trim_space executionProfile @ [CHR 0x00] @ join_with [CHR 0x00] (uniqueSorted capabilityIDs)"

fun normalize_roles :: "strategy_env \<Rightarrow> string list \<Rightarrow> RoleTemplate list \<Rightarrow> gerr + RoleTemplate list" where
  "normalize_roles e seen [] = Inr []"
| "normalize_roles e seen (role0 # roles) =
     (let role = role0\<lparr>ot_RoleID := trim_space (ot_RoleID role0), ot_CapabilityIDs := uniqueSorted (ot_CapabilityIDs role0), ot_AllowedTools := uniqueSorted (ot_AllowedTools role0)\<rparr>
      in if ot_RoleID role = [] \<or> ot_MaxSteps role \<le> 0 \<or> ot_RequiredTotalTokens role \<le> 0 \<or> ot_RequiredCostMicros role \<le> 0 \<or> ot_EstimatedLatency role \<le> 0
         then Inl (EMsg ''multi-agent role template is incomplete'')
         else if ot_RoleID role \<in> set seen then Inl (EMsg (''duplicate multi-agent role '' @ ye_quote e (ot_RoleID role)))
         else bind_res (normalize_roles e (ot_RoleID role # seen) roles) (\<lambda>rest. Inr (role # rest)))"

definition normalizeTemplate :: "strategy_env \<Rightarrow> StrategyTemplate \<Rightarrow> gerr + StrategyTemplate" where
  "normalizeTemplate e template0 =
     (let template = template0\<lparr>yt_ID := trim_space (yt_ID template0), yt_ExecutionProfile := trim_space (yt_ExecutionProfile template0),
            yt_RequiredCapabilityIDs := uniqueSorted (yt_RequiredCapabilityIDs template0)\<rparr>
      in if yt_ID template = [] \<or> yt_ExecutionProfile template = [] \<or> yt_RequiredCapabilityIDs template = [] \<or> yt_MaxParallelRoles template \<le> 0 \<or> yt_Roles template = []
         then Inl (EMsg ''multi-agent template identity and roles are required'')
         else bind_res (normalize_roles e [] (yt_Roles template)) (\<lambda>roles.
           if int (length roles) < yt_MaxParallelRoles template then Inl (EMsg ''multi-agent template parallelism exceeds role count'')
           else Inr (template\<lparr>yt_Roles := roles\<rparr>)))"

fun add_templates :: "strategy_env \<Rightarrow> nat \<Rightarrow> (string \<times> StrategyTemplate) list \<Rightarrow> StrategyTemplate list \<Rightarrow> gerr + (string \<times> StrategyTemplate) list" where
  "add_templates e index known [] = Inr known"
| "add_templates e index known (candidate # templates) = (case normalizeTemplate e candidate of
      Inl err \<Rightarrow> Inl (EWrap (''multi-agent template '' @ show_nat index @ '': '') err)
    | Inr normalized \<Rightarrow>
        let key = templateKey (yt_ExecutionProfile normalized) (yt_RequiredCapabilityIDs normalized)
        in if map_of known key \<noteq> None then Inl (EMsg (''duplicate multi-agent template for '' @ ye_quote e key))
           else add_templates e (Suc index) ((key, normalized) # known) templates)"

definition NewDeterministicPlanner :: "strategy_env \<Rightarrow> StrategyPolicy \<Rightarrow> StrategyTemplate list \<Rightarrow> gerr + DeterministicPlanner" where
  "NewDeterministicPlanner e policy0 templates =
     (let policy1 = (if yo_MinimumComplexityScore policy0 \<le> 0 then policy0\<lparr>yo_MinimumComplexityScore := 6\<rparr> else policy0);
          policy2 = (if yo_MaxRoles policy1 \<le> 0 then policy1\<lparr>yo_MaxRoles := 3\<rparr> else policy1);
          policy = (if yo_MaxParallelRoles policy2 \<le> 0 then policy2\<lparr>yo_MaxParallelRoles := 1\<rparr> else policy2)
      in if 10 < yo_MinimumComplexityScore policy then Inl (EMsg ''multi-agent minimum complexity score cannot exceed 10'')
         else if yo_MaxEstimatedLatency policy < 0 then Inl (EMsg ''multi-agent maximum estimated latency cannot be negative'')
         else bind_res (add_templates e 0 [] templates) (\<lambda>known. Inr \<lparr>yl_policy = policy, yl_templates = known\<rparr>))"

section \<open>Valid plans\<close>

definition validKind :: "string \<Rightarrow> bool" where
  "validKind kind \<longleftrightarrow> kind = KindSingleAgent \<or> kind = KindMultiAgent"

definition validDecision :: "string \<Rightarrow> bool" where
  "validDecision decision \<longleftrightarrow> decision = DecisionSelected \<or> decision = DecisionFallback \<or> decision = DecisionDisabled"

definition has_blank :: "string \<Rightarrow> bool" where
  "has_blank s \<longleftrightarrow> list_ex (\<lambda>c. c = CHR '' '' \<or> c = CHR 0x09 \<or> c = CHR 0x0D \<or> c = CHR 0x0A) s"

definition validateProfileSetBinding :: "string \<Rightarrow> string \<Rightarrow> gerr option" where
  "validateProfileSetBinding anchorID0 version0 =
     (let anchorID = trim_space anchorID0; version = trim_space version0
      in if (anchorID = []) \<noteq> (version = []) then Some (EMsg ''agent execution strategy profile set binding is incomplete'')
         else if 128 < length anchorID \<or> 128 < length version \<or> has_blank anchorID \<or> has_blank version
         then Some (EMsg ''agent execution strategy profile set binding is invalid'')
         else None)"

fun check_roles :: "string list \<Rightarrow> RolePlan list \<Rightarrow> gerr option" where
  "check_roles seen [] = None"
| "check_roles seen (role # roles) =
     (let roleID = trim_space (ol_RoleID role)
      in if roleID = [] \<or> ol_MaxSteps role \<le> 0 \<or> ol_MaxTotalTokens role \<le> 0 \<or> ol_MaxEstimatedCostMicros role \<le> 0 \<or> ol_TimeoutMillis role \<le> 0
         then Some (EMsg ''agent execution strategy role evidence is incomplete'')
         else if roleID \<in> set seen then Some (EMsg ''agent execution strategy role IDs must be unique'')
         else check_roles (roleID # seen) roles)"

definition digestPlan :: "strategy_env \<Rightarrow> StrategyPlan \<Rightarrow> gerr + string" where
  "digestPlan e plan = (case ye_marshal e (plan\<lparr>yp_PlanDigest := []\<rparr>) of
      Inl err \<Rightarrow> Inl (EWrap ''marshal agent execution strategy plan: '' err)
    | Inr payload \<Rightarrow> Inr (ye_sha256 e payload))"

definition ValidateStrategyPlan :: "strategy_env \<Rightarrow> StrategyPlan \<Rightarrow> gerr option" where
  "ValidateStrategyPlan e plan =
     (if trim_space (yp_Version plan) \<noteq> PlanVersionV1 \<or> \<not> validKind (yp_CandidateStrategy plan) \<or> \<not> validKind (yp_SelectedStrategy plan)
         \<or> \<not> validDecision (yp_Decision plan) \<or> trim_space (yp_ReasonCode plan) = []
      then Some (EMsg ''agent execution strategy plan identity is invalid'')
      else if yp_ComplexityScore plan < 0 \<or> 10 < yp_ComplexityScore plan \<or> yp_ComplexityClass plan \<noteq> classifyComplexity (yp_ComplexityScore plan)
      then Some (EMsg ''agent execution strategy complexity evidence is invalid'')
      else if yp_EstimatedLatencyMillis plan < 0 \<or> yp_EstimatedTotalTokens plan < 0 \<or> yp_EstimatedCostMicros plan < 0 \<or> yp_MaxParallelRoles plan < 0
      then Some (EMsg ''agent execution strategy estimates cannot be negative'')
      else case validateProfileSetBinding (yp_ProfileSetAnchor plan) (yp_ProfileSetVersion plan) of
        Some err \<Rightarrow> Some err
      | None \<Rightarrow> (case check_roles [] (yp_Roles plan) of
          Some err \<Rightarrow> Some err
        | None \<Rightarrow> (case digestPlan e plan of
            Inl err \<Rightarrow> Some err
          | Inr expected \<Rightarrow>
              if trim_space (yp_PlanDigest plan) = [] \<or> yp_PlanDigest plan \<noteq> expected then Some (EMsg ''agent execution strategy plan digest is invalid'') else None)))"

definition finalizePlan :: "strategy_env \<Rightarrow> StrategyPlan \<Rightarrow> gerr + StrategyPlan" where
  "finalizePlan e plan0 =
     bind_res (digestPlan e plan0) (\<lambda>digest. let plan = plan0\<lparr>yp_PlanDigest := digest\<rparr>
       in case ValidateStrategyPlan e plan of Some err \<Rightarrow> Inl err | None \<Rightarrow> Inr plan)"

definition BindProfileSet :: "strategy_env \<Rightarrow> StrategyPlan \<Rightarrow> string \<Rightarrow> string \<Rightarrow> gerr + StrategyPlan" where
  "BindProfileSet e plan anchorID version = (case ValidateStrategyPlan e plan of
      Some err \<Rightarrow> Inl (EWrap ''bind profile set to invalid plan: '' err)
    | None \<Rightarrow> finalizePlan e (plan\<lparr>yp_ProfileSetAnchor := trim_space anchorID, yp_ProfileSetVersion := trim_space version\<rparr>))"

section \<open>Planning\<close>

definition rolePlans :: "RoleTemplate list \<Rightarrow> RolePlan list" where
  "rolePlans templates = map (\<lambda>t. \<lparr>ol_RoleID = ot_RoleID t, ol_CapabilityIDs = ot_CapabilityIDs t, ol_AllowedTools = ot_AllowedTools t, ol_MaxSteps = ot_MaxSteps t,
     ol_MaxTotalTokens = ot_RequiredTotalTokens t, ol_MaxEstimatedCostMicros = ot_RequiredCostMicros t, ol_TimeoutMillis = ot_EstimatedLatency t div 1000000\<rparr>) templates"

definition roleToolsAreSubset :: "RolePlan list \<Rightarrow> string list \<Rightarrow> bool" where
  "roleToolsAreSubset roles allowed \<longleftrightarrow> list_all (\<lambda>role. list_all (\<lambda>name. name \<in> set allowed) (ol_AllowedTools role)) roles"

definition wrapped_sum :: "('a \<Rightarrow> int) \<Rightarrow> 'a list \<Rightarrow> int" where
  "wrapped_sum f xs = fold (\<lambda>x acc. i64 (acc + f x)) xs 0"

definition totalRoleSteps :: "RolePlan list \<Rightarrow> int" where
  "totalRoleSteps roles = wrapped_sum ol_MaxSteps roles"

text \<open>The candidate with the roles of its template, and the gates it has to pass.\<close>

definition candidate_plan :: "StrategyTemplate \<Rightarrow> StrategyPlan \<Rightarrow> StrategyPlan" where
  "candidate_plan template plan =
     (let roles = rolePlans (yt_Roles template)
      in plan\<lparr>yp_TemplateID := yt_ID template, yp_CandidateStrategy := KindMultiAgent, yp_Decision := DecisionFallback, yp_Roles := roles,
           yp_MaxParallelRoles := yt_MaxParallelRoles template, yp_EstimatedLatencyMillis := wrapped_sum ol_TimeoutMillis roles,
           yp_EstimatedTotalTokens := wrapped_sum ol_MaxTotalTokens roles, yp_EstimatedCostMicros := wrapped_sum ol_MaxEstimatedCostMicros roles\<rparr>)"

definition admit_candidate :: "StrategyPolicy \<Rightarrow> StrategyRequest \<Rightarrow> StrategyPlan \<Rightarrow> StrategyPlan" where
  "admit_candidate policy request plan =
     (let b = yq_Budget request; estimatedLatency = i64 (yp_EstimatedLatencyMillis plan * 1000000); refuse = (\<lambda>reason. plan\<lparr>yp_ReasonCode := reason\<rparr>)
      in if \<not> yo_Enabled policy then plan\<lparr>yp_Decision := DecisionDisabled, yp_ReasonCode := ReasonMultiFeatureDisabled\<rparr>
         else if yo_MaxRoles policy < int (length (yp_Roles plan)) then refuse ReasonMultiRoleLimit
         else if yo_MaxParallelRoles policy < yp_MaxParallelRoles plan then refuse ReasonMultiParallelLimit
         else if \<not> roleToolsAreSubset (yp_Roles plan) (yq_AllowedTools request) then refuse ReasonMultiToolScopeUnavailable
         else if bg_MaxSteps b \<le> 0 \<or> bg_MaxTotalTokens b \<le> 0 \<or> bg_MaxEstimatedCostMicros b \<le> 0 \<or> bg_Timeout b \<le> 0 then refuse ReasonMultiBudgetUnbounded
         else if bg_MaxSteps b < totalRoleSteps (yp_Roles plan) then refuse ReasonMultiStepBudget
         else if bg_MaxTotalTokens b < yp_EstimatedTotalTokens plan then refuse ReasonMultiTokenBudget
         else if bg_MaxEstimatedCostMicros b < yp_EstimatedCostMicros plan then refuse ReasonMultiCostBudget
         else if bg_Timeout b < estimatedLatency then refuse ReasonMultiLatencyBudget
         else if 0 < yo_MaxEstimatedLatency policy \<and> yo_MaxEstimatedLatency policy < estimatedLatency then refuse ReasonMultiPolicyLatency
         else if \<not> yo_ExecutorAvailable policy then refuse ReasonMultiExecutorUnavailable
         else plan\<lparr>yp_SelectedStrategy := KindMultiAgent, yp_Decision := DecisionSelected, yp_ReasonCode := ReasonMultiAdmitted\<rparr>)"

definition single_plan :: "int \<Rightarrow> string list \<Rightarrow> StrategyPlan" where
  "single_plan score signals = \<lparr>yp_Version = PlanVersionV1, yp_TemplateID = [], yp_CandidateStrategy = KindSingleAgent, yp_SelectedStrategy = KindSingleAgent,
     yp_Decision = DecisionSelected, yp_ReasonCode = ReasonSingleCapabilityScope, yp_ComplexityScore = score, yp_ComplexityClass = classifyComplexity score,
     yp_ComplexitySignals = signals, yp_EstimatedLatencyMillis = 0, yp_EstimatedTotalTokens = 0, yp_EstimatedCostMicros = 0, yp_MaxParallelRoles = 0, yp_Roles = [],
     yp_ProfileSetAnchor = [], yp_ProfileSetVersion = [], yp_PlanDigest = []\<rparr>"

definition DeterministicPlanner_Plan :: "strategy_env \<Rightarrow> DeterministicPlanner \<Rightarrow> gerr option \<Rightarrow> StrategyRequest \<Rightarrow> gerr + StrategyPlan" where
  "DeterministicPlanner_Plan e p ctxErr request0 = (case ctxErr of
      Some err \<Rightarrow> Inl err
    | None \<Rightarrow>
        let request = request0\<lparr>yq_Query := trim_space (yq_Query request0), yq_ExecutionProfile := trim_space (yq_ExecutionProfile request0),
              yq_CapabilityIDs := uniqueSorted (yq_CapabilityIDs request0), yq_AllowedTools := uniqueSorted (yq_AllowedTools request0)\<rparr>
        in if yq_Query request = [] \<or> yq_ExecutionProfile request = [] \<or> yq_CapabilityIDs request = []
           then Inl (EMsg ''agent execution strategy request is incomplete'')
           else let (score, signals) = complexityScore (yq_Query request) (int (length (yq_CapabilityIDs request))); plan = single_plan score signals
                in (case map_of (yl_templates p) (templateKey (yq_ExecutionProfile request) (yq_CapabilityIDs request)) of
                      None \<Rightarrow> finalizePlan e plan
                    | Some template \<Rightarrow>
                        if score < yo_MinimumComplexityScore (yl_policy p) then finalizePlan e (plan\<lparr>yp_ReasonCode := ReasonSingleComplexityBelowLimit\<rparr>)
                        else finalizePlan e (admit_candidate (yl_policy p) request (candidate_plan template plan))))"

section \<open>The template of the product\<close>

text \<open>\<^verbatim>\<open>src/internal/module/agent/multirole/template.go\<close>.\<close>

definition RoleResearcher :: string where "RoleResearcher = ''researcher''"
definition RoleDrafter :: string where "RoleDrafter = ''drafter''"
definition RoleReviewer :: string where "RoleReviewer = ''reviewer''"

definition ResearchDraftTemplate :: "string \<Rightarrow> string \<Rightarrow> string \<Rightarrow> string \<Rightarrow> string list \<Rightarrow> StrategyTemplate" where
  "ResearchDraftTemplate templateID executionProfile researchCapabilityID draftCapabilityID researchTools =
     \<lparr>yt_ID = templateID, yt_ExecutionProfile = executionProfile, yt_RequiredCapabilityIDs = [researchCapabilityID, draftCapabilityID], yt_MaxParallelRoles = 1,
      yt_Roles =
        [\<lparr>ot_RoleID = RoleResearcher, ot_CapabilityIDs = [researchCapabilityID], ot_AllowedTools = researchTools, ot_MaxSteps = 3, ot_RequiredTotalTokens = 10000,
           ot_RequiredCostMicros = 45000, ot_EstimatedLatency = 25000000000\<rparr>,
         \<lparr>ot_RoleID = RoleDrafter, ot_CapabilityIDs = [draftCapabilityID], ot_AllowedTools = [], ot_MaxSteps = 1, ot_RequiredTotalTokens = 9000,
           ot_RequiredCostMicros = 35000, ot_EstimatedLatency = 17000000000\<rparr>,
         \<lparr>ot_RoleID = RoleReviewer, ot_CapabilityIDs = [draftCapabilityID], ot_AllowedTools = [], ot_MaxSteps = 1, ot_RequiredTotalTokens = 5000,
           ot_RequiredCostMicros = 20000, ot_EstimatedLatency = 8000000000\<rparr>]\<rparr>"

section \<open>Sums of role budgets\<close>

lemma wrapped_fold_exact:
  assumes "\<forall>x\<in>set xs. 0 \<le> f x \<and> f x \<le> 2 ^ 50" "0 \<le> acc" "acc + int (length xs) * 2 ^ 50 < 2 ^ 63"
  shows "fold (\<lambda>x acc. i64 (acc + f x)) xs acc = acc + sum_list (map f xs)"
  using assms
proof (induction xs arbitrary: acc)
  case (Cons x xs)
  have x: "0 \<le> f x" "f x \<le> 2 ^ 50" using Cons.prems(1) by simp_all
  have "i64 (acc + f x) = acc + f x" using x Cons.prems(2,3) by (intro i64_id) (simp add: in_i64_def algebra_simps)
  then show ?case using Cons.IH [of "acc + f x"] Cons.prems x by (simp add: algebra_simps)
qed simp

lemma wrapped_sum_exact:
  assumes "\<forall>x\<in>set xs. 0 \<le> f x \<and> f x \<le> 2 ^ 50" "length xs \<le> 4096"
  shows "wrapped_sum f xs = sum_list (map f xs)"
  using wrapped_fold_exact [OF assms(1), of 0] assms(2) by (simp add: wrapped_sum_def)

lemma sum_list_bound: "\<forall>x\<in>set xs. f x \<le> (b::int) \<Longrightarrow> sum_list (map f xs) \<le> int (length xs) * b"
  by (induction xs) (auto simp: algebra_simps)

definition role_total :: "(RolePlan \<Rightarrow> int) \<Rightarrow> StrategyPlan \<Rightarrow> int" where
  "role_total f plan = sum_list (map f (yp_Roles plan))"

text \<open>Amounts of a template that are far from the limits of machine integers: a latency of thirteen days, say.\<close>

definition moderate_template :: "StrategyTemplate \<Rightarrow> bool" where
  "moderate_template t \<longleftrightarrow> length (yt_Roles t) \<le> 4096 \<and> (\<forall>r\<in>set (yt_Roles t). ot_MaxSteps r \<le> 2 ^ 50 \<and> ot_RequiredTotalTokens r \<le> 2 ^ 50
     \<and> ot_RequiredCostMicros r \<le> 2 ^ 50 \<and> ot_EstimatedLatency r \<le> 2 ^ 50)"

definition moderate_role :: "RolePlan \<Rightarrow> bool" where
  "moderate_role r \<longleftrightarrow> ol_MaxSteps r \<in> {1..2 ^ 50} \<and> ol_MaxTotalTokens r \<in> {1..2 ^ 50} \<and> ol_MaxEstimatedCostMicros r \<in> {1..2 ^ 50}
     \<and> 0 \<le> ol_TimeoutMillis r \<and> ol_TimeoutMillis r * 1000000 \<le> 2 ^ 50"

section \<open>Templates of a planner\<close>

lemma normalize_roles_result:
  "normalize_roles e seen roles = Inr out \<Longrightarrow> length out = length roles
     \<and> (\<forall>r\<in>set out. 0 < ot_MaxSteps r \<and> 0 < ot_RequiredTotalTokens r \<and> 0 < ot_RequiredCostMicros r \<and> 0 < ot_EstimatedLatency r
       \<and> (\<exists>r0\<in>set roles. ot_MaxSteps r = ot_MaxSteps r0 \<and> ot_RequiredTotalTokens r = ot_RequiredTotalTokens r0
            \<and> ot_RequiredCostMicros r = ot_RequiredCostMicros r0 \<and> ot_EstimatedLatency r = ot_EstimatedLatency r0))"
proof (induction roles arbitrary: seen out)
  case (Cons role roles)
  then show ?case by (fastforce simp: Let_def bind_res_def split: if_splits sum.splits)
qed simp

lemma normalizeTemplate_moderate:
  assumes "normalizeTemplate e t = Inr t'" "moderate_template t"
  shows "yt_Roles t' \<noteq> [] \<and> length (rolePlans (yt_Roles t')) \<le> 4096 \<and> (\<forall>r\<in>set (rolePlans (yt_Roles t')). moderate_role r)"
proof -
  obtain roles where n: "normalize_roles e [] (yt_Roles t) = Inr roles" "yt_Roles t' = roles" "yt_Roles t \<noteq> []"
    using assms(1) by (auto simp: normalizeTemplate_def Let_def bind_res_def split: if_splits sum.splits)
  have "moderate_role r'" if member: "r' \<in> set (rolePlans roles)" for r'
  proof -
    obtain r r0 where r: "r \<in> set roles" "r' \<in> set (rolePlans [r])" "r0 \<in> set (yt_Roles t)" "ot_MaxSteps r = ot_MaxSteps r0" "ot_RequiredTotalTokens r = ot_RequiredTotalTokens r0"
        "ot_RequiredCostMicros r = ot_RequiredCostMicros r0" "ot_EstimatedLatency r = ot_EstimatedLatency r0"
        "0 < ot_MaxSteps r" "0 < ot_RequiredTotalTokens r" "0 < ot_RequiredCostMicros r" "0 < ot_EstimatedLatency r"
      using member normalize_roles_result [OF n(1)] by (fastforce simp: rolePlans_def)
    then have "ot_MaxSteps r0 \<le> 2 ^ 50" "ot_RequiredTotalTokens r0 \<le> 2 ^ 50" "ot_RequiredCostMicros r0 \<le> 2 ^ 50" "ot_EstimatedLatency r0 \<le> 2 ^ 50"
      using assms(2) by (auto simp: moderate_template_def)
    moreover have "ot_EstimatedLatency r0 div 1000000 * 1000000 \<le> ot_EstimatedLatency r0" by simp
    ultimately show ?thesis using r by (auto simp: rolePlans_def moderate_role_def)
  qed
  then show ?thesis using n normalize_roles_result [OF n(1)] assms(2) by (auto simp: moderate_template_def rolePlans_def)
qed

lemma add_templates_source:
  "add_templates e index known templates = Inr out \<Longrightarrow> map_of out key = Some t' \<Longrightarrow> map_of known key = Some t' \<or> (\<exists>t\<in>set templates. normalizeTemplate e t = Inr t')"
proof (induction templates arbitrary: index known)
  case (Cons candidate templates)
  then obtain t where t: "normalizeTemplate e candidate = Inr t" by (auto split: sum.splits)
  let ?key = "templateKey (yt_ExecutionProfile t) (yt_RequiredCapabilityIDs t)"
  have rest: "add_templates e (Suc index) ((?key, t) # known) templates = Inr out" "map_of known ?key = None"
    using Cons.prems(1) t by (auto simp: Let_def split: if_splits)
  from Cons.IH [OF rest(1) Cons.prems(2)] t show ?case by (auto split: if_splits)
qed simp

lemma planner_template:
  assumes "NewDeterministicPlanner e policy templates = Inr p" "map_of (yl_templates p) key = Some t'"
  obtains t where "t \<in> set templates" "normalizeTemplate e t = Inr t'"
  using assms add_templates_source [of e 0 "[]" templates] by (fastforce simp: NewDeterministicPlanner_def Let_def bind_res_def split: if_splits sum.splits)

lemma planner_policy:
  "NewDeterministicPlanner e policy templates = Inr p \<Longrightarrow> yo_Enabled (yl_policy p) = yo_Enabled policy \<and> yo_ExecutorAvailable (yl_policy p) = yo_ExecutorAvailable policy
     \<and> yo_MaxEstimatedLatency (yl_policy p) = yo_MaxEstimatedLatency policy"
  by (auto simp: NewDeterministicPlanner_def Let_def bind_res_def split: if_splits sum.splits)

section \<open>Selected strategies\<close>

text \<open>What the roles of a plan take together is within a request: tools and budget.\<close>

definition strategy_fits :: "StrategyRequest \<Rightarrow> StrategyPlan \<Rightarrow> bool" where
  "strategy_fits request plan \<longleftrightarrow> (\<forall>role\<in>set (yp_Roles plan). set (ol_AllowedTools role) \<subseteq> trim_space ` set (yq_AllowedTools request))
     \<and> role_total ol_MaxSteps plan \<le> bg_MaxSteps (yq_Budget request)
     \<and> role_total ol_MaxTotalTokens plan \<le> bg_MaxTotalTokens (yq_Budget request)
     \<and> role_total ol_MaxEstimatedCostMicros plan \<le> bg_MaxEstimatedCostMicros (yq_Budget request)
     \<and> role_total ol_TimeoutMillis plan * 1000000 \<le> bg_Timeout (yq_Budget request)"

lemma finalizePlan_result:
  "finalizePlan e plan = Inr out \<Longrightarrow> ValidateStrategyPlan e out = None \<and> (\<exists>digest. out = plan\<lparr>yp_PlanDigest := digest\<rparr>)"
  by (auto simp: finalizePlan_def bind_res_def Let_def split: sum.splits option.splits)

lemma admit_candidate_selected:
  assumes "yp_SelectedStrategy (admit_candidate policy request plan) = KindMultiAgent" "yp_SelectedStrategy plan = KindSingleAgent"
  shows "yo_Enabled policy \<and> yo_ExecutorAvailable policy \<and> admit_candidate policy request plan = plan\<lparr>yp_SelectedStrategy := KindMultiAgent, yp_Decision := DecisionSelected, yp_ReasonCode := ReasonMultiAdmitted\<rparr>
    \<and> int (length (yp_Roles plan)) \<le> yo_MaxRoles policy
    \<and> roleToolsAreSubset (yp_Roles plan) (yq_AllowedTools request) \<and> totalRoleSteps (yp_Roles plan) \<le> bg_MaxSteps (yq_Budget request)
    \<and> yp_EstimatedTotalTokens plan \<le> bg_MaxTotalTokens (yq_Budget request) \<and> yp_EstimatedCostMicros plan \<le> bg_MaxEstimatedCostMicros (yq_Budget request)
    \<and> i64 (yp_EstimatedLatencyMillis plan * 1000000) \<le> bg_Timeout (yq_Budget request)"
  using assms by (auto simp: admit_candidate_def Let_def strategy_kinds split: if_splits)

lemma selected_plan_fits:
  assumes "NewDeterministicPlanner e policy templates = Inr p" and "\<forall>t\<in>set templates. moderate_template t"
    and "DeterministicPlanner_Plan e p ctxErr request = Inr plan" and "yp_SelectedStrategy plan = KindMultiAgent"
  shows "yo_Enabled policy \<and> yo_ExecutorAvailable policy \<and> ValidateStrategyPlan e plan = None \<and> strategy_fits request plan \<and> yp_Roles plan \<noteq> []"
    and "\<forall>role\<in>set (yp_Roles plan). moderate_role role"
proof -
  let ?request = "request\<lparr>yq_Query := trim_space (yq_Query request), yq_ExecutionProfile := trim_space (yq_ExecutionProfile request),
    yq_CapabilityIDs := uniqueSorted (yq_CapabilityIDs request), yq_AllowedTools := uniqueSorted (yq_AllowedTools request)\<rparr>"
  obtain score signals template key where f: "finalizePlan e (admit_candidate (yl_policy p) ?request (candidate_plan template (single_plan score signals))) = Inr plan"
      and template: "map_of (yl_templates p) key = Some template"
    using assms(3,4) by (auto simp: DeterministicPlanner_Plan_def Let_def single_plan_def strategy_kinds dest!: finalizePlan_result split: option.splits if_splits prod.splits)
  let ?c = "candidate_plan template (single_plan score signals)" and ?roles = "rolePlans (yt_Roles template)"
  obtain digest where plan: "ValidateStrategyPlan e plan = None" "plan = (admit_candidate (yl_policy p) ?request ?c)\<lparr>yp_PlanDigest := digest\<rparr>"
    using finalizePlan_result [OF f] by blast
  have "yp_SelectedStrategy (admit_candidate (yl_policy p) ?request ?c) = KindMultiAgent" "yp_SelectedStrategy ?c = KindSingleAgent"
    using assms(4) by (simp_all add: plan(2) candidate_plan_def single_plan_def Let_def)
  note sel = admit_candidate_selected [OF this]
  obtain t where t: "t \<in> set templates" "normalizeTemplate e t = Inr template" by (rule planner_template [OF assms(1) template])
  have roles: "yp_Roles plan = ?roles" using sel plan(2) by (simp add: candidate_plan_def Let_def)
  have m: "yt_Roles template \<noteq> []" "length ?roles \<le> 4096" "\<forall>r\<in>set ?roles. moderate_role r"
    using normalizeTemplate_moderate [OF t(2)] assms(2) t(1) by auto
  show "\<forall>role\<in>set (yp_Roles plan). moderate_role role" using m(3) by (simp add: roles)
  have sum: "wrapped_sum f ?roles = role_total f plan" if "\<And>r. moderate_role r \<Longrightarrow> 0 \<le> f r \<and> f r \<le> 2 ^ 50" for f
    unfolding role_total_def roles by (rule wrapped_sum_exact) (use m that in auto)
  have sums: "totalRoleSteps ?roles = role_total ol_MaxSteps plan" "wrapped_sum ol_MaxTotalTokens ?roles = role_total ol_MaxTotalTokens plan"
      "wrapped_sum ol_MaxEstimatedCostMicros ?roles = role_total ol_MaxEstimatedCostMicros plan" "wrapped_sum ol_TimeoutMillis ?roles = role_total ol_TimeoutMillis plan"
    unfolding totalRoleSteps_def by (rule sum; simp add: moderate_role_def)+
  have millis: "\<forall>r\<in>set ?roles. ol_TimeoutMillis r * 1000000 \<le> 2 ^ 50 \<and> 0 \<le> ol_TimeoutMillis r" using m(3) by (auto simp: moderate_role_def)
  have "sum_list (map (\<lambda>r. ol_TimeoutMillis r * 1000000) ?roles) \<le> int (length ?roles) * 2 ^ 50" by (rule sum_list_bound) (use millis in blast)
  moreover have "0 \<le> role_total ol_TimeoutMillis plan" unfolding role_total_def roles by (rule sum_list_nonneg) (use millis in auto)
  ultimately have "i64 (role_total ol_TimeoutMillis plan * 1000000) = role_total ol_TimeoutMillis plan * 1000000"
    using m(2) by (intro i64_id) (simp add: role_total_def roles sum_list_mult_const in_i64_def)
  then show "yo_Enabled policy \<and> yo_ExecutorAvailable policy \<and> ValidateStrategyPlan e plan = None \<and> strategy_fits request plan \<and> yp_Roles plan \<noteq> []"
    using sel plan(1) planner_policy [OF assms(1)] sums m(1)
    by (auto simp: strategy_fits_def candidate_plan_def single_plan_def Let_def roleToolsAreSubset_def list_all_iff roles uniqueSorted_def rolePlans_def)
qed

text \<open>
  A role of less than a millisecond is a legal template, but its plan has a timeout of zero milliseconds and is not valid: a request that
  reaches the template fails, where it could run with a single agent.
\<close>

lemma check_roles_timeouts: "check_roles seen roles = None \<Longrightarrow> r \<in> set roles \<Longrightarrow> 0 < ol_TimeoutMillis r"
  by (induction roles arbitrary: seen) (auto simp: Let_def split: if_splits)

lemma sub_millisecond_role_fails:
  assumes "map_of (yl_templates p) (templateKey (trim_space (yq_ExecutionProfile request)) (uniqueSorted (yq_CapabilityIDs request))) = Some template"
    and "r \<in> set (yt_Roles template)" "ot_EstimatedLatency r < 1000000"
    and "yo_MinimumComplexityScore (yl_policy p) \<le> fst (complexityScore (trim_space (yq_Query request)) (int (length (uniqueSorted (yq_CapabilityIDs request)))))"
  shows "\<exists>err. DeterministicPlanner_Plan e p ctxErr request = Inl err"
proof (cases "DeterministicPlanner_Plan e p ctxErr request")
  case (Inr plan)
  then obtain policy q score signals where f: "finalizePlan e (admit_candidate policy q (candidate_plan template (single_plan score signals))) = Inr plan"
    using assms(1,4) by (auto simp: DeterministicPlanner_Plan_def Let_def split: option.splits if_splits prod.splits)
  have "check_roles [] (yp_Roles plan) = None"
    using finalizePlan_result [OF f] by (auto simp: ValidateStrategyPlan_def split: if_splits option.splits)
  moreover have "yp_Roles plan = rolePlans (yt_Roles template)"
    using finalizePlan_result [OF f] by (auto simp: admit_candidate_def candidate_plan_def Let_def)
  ultimately have "\<forall>x\<in>set (rolePlans (yt_Roles template)). 0 < ol_TimeoutMillis x" using check_roles_timeouts by metis
  then have "0 < ot_EstimatedLatency r div 1000000" using assms(2) unfolding rolePlans_def by simp
  then have False using assms(3) by (simp add: pos_imp_zdiv_pos_iff)
  then show ?thesis ..
qed simp

section \<open>A request for two capabilities\<close>

definition strategy_demo_env :: strategy_env where
  "strategy_demo_env = \<lparr>ye_marshal = (\<lambda>p. Inr (yp_TemplateID p @ yp_ReasonCode p @ yp_ProfileSetVersion p)), ye_sha256 = (\<lambda>s. s), ye_quote = (\<lambda>s. s)\<rparr>"

definition strategy_demo_policy :: StrategyPolicy where
  "strategy_demo_policy = \<lparr>yo_Enabled = True, yo_ExecutorAvailable = True, yo_MinimumComplexityScore = 0, yo_MaxRoles = 0, yo_MaxParallelRoles = 0, yo_MaxEstimatedLatency = 0\<rparr>"

definition strategy_demo_template :: StrategyTemplate where
  "strategy_demo_template = ResearchDraftTemplate ''t1'' ''chat'' ''research'' ''draft'' [''look'']"

definition strategy_demo_request :: StrategyRequest where
  "strategy_demo_request = \<lparr>yq_Query = ''Compare the options and review'', yq_ExecutionProfile = ''chat'', yq_CapabilityIDs = [''research'', ''draft''],
     yq_Budget = \<lparr>bg_MaxSteps = 5, bg_MaxInputTokens = 0, bg_MaxOutputTokens = 0, bg_MaxTotalTokens = 24000, bg_MaxEstimatedCostMicros = 100000, bg_Timeout = 50000000000, bg_Deadline = None\<rparr>,
     yq_AllowedTools = [''look'', ''ask'']\<rparr>"

definition strategy_demo_planner :: DeterministicPlanner where
  "strategy_demo_planner = projr (NewDeterministicPlanner strategy_demo_env strategy_demo_policy [strategy_demo_template])"

definition strategy_demo_plan :: StrategyPlan where
  "strategy_demo_plan = projr (DeterministicPlanner_Plan strategy_demo_env strategy_demo_planner None strategy_demo_request)"

lemma strategy_demo_new: "NewDeterministicPlanner strategy_demo_env strategy_demo_policy [strategy_demo_template] = Inr strategy_demo_planner"
proof -
  have "\<not> isl (NewDeterministicPlanner strategy_demo_env strategy_demo_policy [strategy_demo_template])" by code_simp
  then show ?thesis by (simp add: strategy_demo_planner_def)
qed

lemma strategy_demo_planned: "DeterministicPlanner_Plan strategy_demo_env strategy_demo_planner None strategy_demo_request = Inr strategy_demo_plan"
proof -
  have "\<not> isl (DeterministicPlanner_Plan strategy_demo_env strategy_demo_planner None strategy_demo_request)" by code_simp
  then show ?thesis by (simp add: strategy_demo_plan_def)
qed

lemma strategy_demo_moderate: "\<forall>t\<in>set [strategy_demo_template]. moderate_template t"
  by (simp add: strategy_demo_template_def ResearchDraftTemplate_def moderate_template_def)

text \<open>
  Several agents are only selected within the request: when the planner selects a plan of several roles, the policy enables it and has an
  executor, the plan is valid, and its roles together take no tool that the request does not allow and no more steps, tokens, cost and time than
  the budget of the request has, whatever the templates. It is assumed that the amounts in templates are below \<open>2 ^ 50\<close>, since the code sums machine integers.
\<close>
theorem selected_strategy_fits:
  assumes "NewDeterministicPlanner e policy templates = Inr p" and "\<forall>t\<in>set templates. moderate_template t"
    and "DeterministicPlanner_Plan e p ctxErr request = Inr plan" and "yp_SelectedStrategy plan = KindMultiAgent"
  shows "yo_Enabled policy \<and> yo_ExecutorAvailable policy \<and> ValidateStrategyPlan e plan = None \<and> strategy_fits request plan \<and> yp_Roles plan \<noteq> []"
  by (rule selected_plan_fits(1) [OF assms])

theorem selected_strategy_fits_witness: "strategy_fits strategy_demo_request strategy_demo_plan \<and> length (yp_Roles strategy_demo_plan) = 3"
proof (rule conjI)
  have "yp_SelectedStrategy strategy_demo_plan = KindMultiAgent" by code_simp
  from selected_strategy_fits [OF strategy_demo_new strategy_demo_moderate strategy_demo_planned this] show "strategy_fits strategy_demo_request strategy_demo_plan" by blast
  show "length (yp_Roles strategy_demo_plan) = 3" by code_simp
qed

end
