(* ===== verification/Multi_Role.thy ===== *)
theory Multi_Role
  imports Goal_Budget Strategy_Planner "HOL-Library.Signed_Division"
begin

text \<open>
  The execution of a plan by three roles in turn: \<^verbatim>\<open>src/internal/module/agent/multirole/executor.go\<close> and \<^verbatim>\<open>multirole/handoff.go\<close>, with the
  profiles of \<^verbatim>\<open>profile/profile.go\<close> and the types of \<^verbatim>\<open>message/types.go\<close>. A researcher with tools gathers evidence, a drafter and a
  reviewer without tools write the answer from its handoff.

  The runner below, the message builder, the handoff builder and the clock are the interfaces of the code. The tracker of the context is that of the
  world: \<open>MultiRole_Execute\<close> puts one for the budget of the plan in its place and the outer one back. The deadline it sets with it is part of
  the context, whose error is up to the runner's environment. Reading the clock has no effect. An executor is never nil.
\<close>

section \<open>Profiles and messages\<close>

record PromptProfile =
  fp_ID :: string
  fp_Version :: string
  fp_SystemPrompt :: string

record AgentProfile =
  af_ID :: string
  af_Version :: string
  af_Prompt :: PromptProfile
  af_Budget :: Budget
  af_AllowedTools :: "string list"

definition AllowsTool :: "AgentProfile \<Rightarrow> string \<Rightarrow> bool" where
  "AllowsTool p name \<longleftrightarrow> name \<in> set (af_AllowedTools p)"

definition FilterTools :: "AgentProfile \<Rightarrow> ToolDefinition list \<Rightarrow> ToolDefinition list" where
  "FilterTools p tools = filter (\<lambda>tool. AllowsTool p (td_Name tool)) tools"

definition PrimaryTool :: "AgentProfile \<Rightarrow> string" where
  "PrimaryTool p = (case af_AllowedTools p of [] \<Rightarrow> [] | name # _ \<Rightarrow> name)"

record Fragment =
  fr_Source :: string
  fr_Name :: string
  fr_Content :: string
  fr_Score :: f64

record MessageBudget =
  mb_MaxInputTokens :: int
  mb_HistoryTokens :: int
  mb_MemoryTokens :: int
  mb_RAGTokens :: int
  mb_ToolResultTokens :: int
  mb_BlackboardTokens :: int

record BuildRequest =
  bq_System :: "Message list"
  bq_Developer :: "Message list"
  bq_Policy :: "Message list"
  bq_Current :: Message
  bq_History :: "Message list"
  bq_Persona :: "Fragment list"
  bq_Memory :: "Fragment list"
  bq_RAG :: "Fragment list"
  bq_Blackboard :: "Fragment list"
  bq_Budget :: MessageBudget

record BuildResult =
  bu_Messages :: "Message list"
  bu_EstimatedTokens :: int
  bu_Dropped :: "(string \<times> int) list"

section \<open>The request\<close>

definition DefaultMaxInputTokens :: int where "DefaultMaxInputTokens = 12000"
definition ErrPlanUnsupported :: gerr where "ErrPlanUnsupported = ESentinel ''multi-role execution plan is unsupported''"
definition ErrRoleExecutionFailed :: gerr where "ErrRoleExecutionFailed = ESentinel ''multi-role execution failed''"
definition ErrRequiredToolEvidence :: gerr where "ErrRequiredToolEvidence = ESentinel ''required read tool produced no successful evidence''"

text \<open>The errors of the executor: those of a role (a struct with the error of the role, which is also the sentinel), and those before any role ran.\<close>

datatype multi_role_error = RoleExecutionError string gerr | NotStarted gerr

fun multi_role_error_text :: "multi_role_error \<Rightarrow> string" where
  "multi_role_error_text (RoleExecutionError roleID err) = error_text ErrRoleExecutionFailed @ '': role '' @ roleID @ '': '' @ error_text err"
| "multi_role_error_text (NotStarted err) = error_text err"

fun multi_role_error_Is :: "multi_role_error \<Rightarrow> gerr \<Rightarrow> bool" where
  "multi_role_error_Is (RoleExecutionError roleID err) target \<longleftrightarrow> target = ErrRoleExecutionFailed \<or> errors_Is err target"
| "multi_role_error_Is (NotStarted err) target \<longleftrightarrow> errors_Is err target"

definition NewRoleExecutionError :: "string \<Rightarrow> gerr option \<Rightarrow> multi_role_error" where
  "NewRoleExecutionError roleID err = RoleExecutionError (trim_space roleID) (case err of None \<Rightarrow> EMsg ''unknown role failure'' | Some e \<Rightarrow> e)"

record Profiles =
  mf_Parent :: AgentProfile
  mf_Researcher :: AgentProfile
  mf_Drafter :: AgentProfile
  mf_Reviewer :: AgentProfile

record MultiRoleRequest =
  mq_ParentContext :: RunContext
  mq_Plan :: StrategyPlan
  mq_Model :: string
  mq_Input :: string
  mq_History :: "Message list"
  mq_Tools :: "ToolDefinition list"
  mq_RequiredTool :: string
  mq_Profiles :: Profiles
  mq_Handoff :: "(run_log \<Rightarrow> string \<Rightarrow> RunResult \<Rightarrow> gerr + string) option"

record RoleResult =
  ox_RoleID :: string
  ox_Result :: RunResult
  ox_Build :: BuildResult

record MultiRoleResult =
  mz_Aggregate :: RunResult
  mz_Roles :: "RoleResult list"

record MultiRoleExecutor =
  mx_strategy :: strategy_env
  mx_runner :: "(RunRequest \<Rightarrow> run_world \<Rightarrow> run_outcome \<times> run_world) option"
  mx_messages :: "BuildRequest \<Rightarrow> gerr + BuildResult"
  mx_now :: "run_log \<Rightarrow> int"

definition MultiRole_Role :: "MultiRoleResult \<Rightarrow> string \<Rightarrow> RoleResult option" where
  "MultiRole_Role r roleID = List.find (\<lambda>role. ox_RoleID role = roleID) (mz_Roles r)"

definition EstimatedContextTokens :: "MultiRoleResult \<Rightarrow> int" where
  "EstimatedContextTokens r = wrapped_sum (\<lambda>role. bu_EstimatedTokens (ox_Build role)) (mz_Roles r)"

text \<open>A nil builder is replaced by the one of the package, the argument \<open>builder\<close>.\<close>

definition NewExecutor :: "(BuildRequest \<Rightarrow> gerr + BuildResult) \<Rightarrow> strategy_env \<Rightarrow> (run_log \<Rightarrow> int) \<Rightarrow> (RunRequest \<Rightarrow> run_world \<Rightarrow> run_outcome \<times> run_world) option
    \<Rightarrow> (BuildRequest \<Rightarrow> gerr + BuildResult) option \<Rightarrow> MultiRoleExecutor" where
  "NewExecutor builder e now runner messages = \<lparr>mx_strategy = e, mx_runner = runner, mx_messages = (case messages of None \<Rightarrow> builder | Some f \<Rightarrow> f), mx_now = now\<rparr>"

section \<open>Checks\<close>

definition ValidateSequentialPlan :: "strategy_env \<Rightarrow> StrategyPlan \<Rightarrow> gerr option" where
  "ValidateSequentialPlan e plan = (case ValidateStrategyPlan e plan of
      Some err \<Rightarrow> Some (ENote ErrPlanUnsupported ('': '' @ error_text err))
    | None \<Rightarrow>
        if yp_SelectedStrategy plan \<noteq> KindMultiAgent \<or> yp_Decision plan \<noteq> DecisionSelected \<or> yp_ReasonCode plan \<noteq> ReasonMultiAdmitted \<or> yp_MaxParallelRoles plan \<noteq> 1
           \<or> map ol_RoleID (yp_Roles plan) \<noteq> [RoleResearcher, RoleDrafter, RoleReviewer]
        then Some (ENote ErrPlanUnsupported '': only the sequential researcher/drafter/reviewer topology is supported'')
        else None)"

definition profile_incomplete :: "AgentProfile \<Rightarrow> bool" where
  "profile_incomplete p \<longleftrightarrow> trim_space (af_ID p) = [] \<or> trim_space (af_Version p) = [] \<or> trim_space (fp_ID (af_Prompt p)) = []
     \<or> trim_space (fp_Version (af_Prompt p)) = [] \<or> trim_space (fp_SystemPrompt (af_Prompt p)) = []"

fun check_profiles :: "strategy_env \<Rightarrow> string \<Rightarrow> nat \<Rightarrow> AgentProfile list \<Rightarrow> gerr option" where
  "check_profiles e setVersion index [] = None"
| "check_profiles e setVersion index (selected # profiles) =
     (if profile_incomplete selected then Some (EMsg (''multi-role profile '' @ show_nat index @ '' is incomplete''))
      else if af_Version selected \<noteq> setVersion
      then Some (EMsg (''multi-role profile '' @ show_nat index @ '' version '' @ ye_quote e (af_Version selected) @ '' does not match parent profile set version '' @ ye_quote e setVersion))
      else check_profiles e setVersion (Suc index) profiles)"

definition validateMultiRoleRequest :: "strategy_env \<Rightarrow> MultiRoleRequest \<Rightarrow> gerr option" where
  "validateMultiRoleRequest e request = (case ValidateSequentialPlan e (mq_Plan request) of
      Some err \<Rightarrow> Some err
    | None \<Rightarrow>
        if trim_space (rc_RunID (mq_ParentContext request)) = [] \<or> trim_space (mq_Model request) = [] \<or> trim_space (mq_Input request) = [] \<or> trim_space (mq_RequiredTool request) = []
        then Some (EMsg ''multi-role run ID, model, input and required tool are required'')
        else if mq_Handoff request = None then Some (EMsg ''multi-role evidence handoff builder is required'')
        else let p = mq_Profiles request
             in check_profiles e (trim_space (af_Version (mf_Parent p))) 0 [mf_Parent p, mf_Researcher p, mf_Drafter p, mf_Reviewer p])"

definition ParentBudget :: "StrategyPlan \<Rightarrow> Budget" where
  "ParentBudget plan = \<lparr>bg_MaxSteps = wrapped_sum ol_MaxSteps (yp_Roles plan), bg_MaxInputTokens = 0, bg_MaxOutputTokens = 0,
     bg_MaxTotalTokens = wrapped_sum ol_MaxTotalTokens (yp_Roles plan), bg_MaxEstimatedCostMicros = wrapped_sum ol_MaxEstimatedCostMicros (yp_Roles plan),
     bg_Timeout = wrapped_sum (\<lambda>role. i64 (ol_TimeoutMillis role * 1000000)) (yp_Roles plan), bg_Deadline = None\<rparr>"

definition ValidateParentBudget :: "Budget \<Rightarrow> Budget \<Rightarrow> gerr option" where
  "ValidateParentBudget planBudget profileBudget =
     (if bg_MaxSteps profileBudget \<le> 0 \<or> bg_MaxTotalTokens profileBudget \<le> 0 \<or> bg_MaxEstimatedCostMicros profileBudget \<le> 0 \<or> bg_Timeout profileBudget \<le> 0
      then Some (ENote ErrPlanUnsupported '': parent profile budget is incomplete'')
      else if bg_MaxSteps profileBudget < bg_MaxSteps planBudget \<or> bg_MaxTotalTokens profileBudget < bg_MaxTotalTokens planBudget
        \<or> bg_MaxEstimatedCostMicros profileBudget < bg_MaxEstimatedCostMicros planBudget \<or> bg_Timeout profileBudget < bg_Timeout planBudget
      then Some (ENote ErrPlanUnsupported '': role budgets exceed the parent profile'')
      else None)"

definition BoundedRoleBudget :: "RolePlan \<Rightarrow> Budget \<Rightarrow> gerr + Budget" where
  "BoundedRoleBudget role b =
     (let roleTimeout = i64 (ol_TimeoutMillis role * 1000000)
      in if ol_MaxSteps role \<le> 0 \<or> ol_MaxTotalTokens role \<le> 0 \<or> ol_MaxEstimatedCostMicros role \<le> 0 \<or> roleTimeout \<le> 0
            \<or> bg_MaxSteps b \<le> 0 \<or> bg_MaxInputTokens b \<le> 0 \<or> bg_MaxOutputTokens b \<le> 0 \<or> bg_MaxTotalTokens b \<le> 0 \<or> bg_MaxEstimatedCostMicros b \<le> 0 \<or> bg_Timeout b \<le> 0
         then Inl (EMsg ''multi-role budget is incomplete'')
         else if bg_MaxSteps b < ol_MaxSteps role \<or> bg_MaxTotalTokens b < ol_MaxTotalTokens role \<or> bg_MaxEstimatedCostMicros b < ol_MaxEstimatedCostMicros role \<or> bg_Timeout b < roleTimeout
         then Inl (EMsg ''role plan exceeds its execution profile budget'')
         else Inr \<lparr>bg_MaxSteps = ol_MaxSteps role, bg_MaxInputTokens = bg_MaxInputTokens b, bg_MaxOutputTokens = bg_MaxOutputTokens b, bg_MaxTotalTokens = ol_MaxTotalTokens role,
                bg_MaxEstimatedCostMicros = ol_MaxEstimatedCostMicros role, bg_Timeout = roleTimeout, bg_Deadline = None\<rparr>)"

fun check_role_budgets :: "RolePlan list \<Rightarrow> AgentProfile list \<Rightarrow> gerr option" where
  "check_role_budgets (role # roles) (p # profiles) = (case BoundedRoleBudget role (af_Budget p) of
      Inl err \<Rightarrow> Some (ENote ErrPlanUnsupported ('': role '' @ ol_RoleID role @ '' budget: '' @ error_text err))
    | Inr _ \<Rightarrow> check_role_budgets roles profiles)"
| "check_role_budgets _ _ = None"

definition ValidateRoleBudgets :: "StrategyPlan \<Rightarrow> Profiles \<Rightarrow> gerr option" where
  "ValidateRoleBudgets plan p =
     (let selected = [mf_Researcher p, mf_Drafter p, mf_Reviewer p]
      in if length (yp_Roles plan) \<noteq> length selected then Some (ENote ErrPlanUnsupported '': role profile coverage is incomplete'')
         else check_role_budgets (yp_Roles plan) selected)"

definition ValidateRequiredReadTool :: "ToolDefinition list \<Rightarrow> string \<Rightarrow> gerr option" where
  "ValidateRequiredReadTool tools requiredName = (case List.find (\<lambda>tool. td_Name tool = requiredName) tools of
      None \<Rightarrow> Some (EMsg (''required runtime tool '' @ requiredName @ '' is unavailable''))
    | Some tool \<Rightarrow>
        if td_Category tool \<noteq> ''read'' \<or> tool_ApprovalRequired tool
        then Some (EMsg (''required runtime tool '' @ requiredName @ '' is not configured as a non-approval read tool'')) else None)"

definition filterToolsByNames :: "ToolDefinition list \<Rightarrow> string list \<Rightarrow> ToolDefinition list" where
  "filterToolsByNames tools allowedNames =
     (let allowed = filter (\<lambda>name. name \<noteq> []) (map trim_space allowedNames) in filter (\<lambda>tool. td_Name tool \<in> set allowed) tools)"

section \<open>Results of roles\<close>

definition HasSuccessfulToolEvidence :: "RunResult \<Rightarrow> string \<Rightarrow> bool" where
  "HasSuccessfulToolEvidence result toolName \<longleftrightarrow>
     list_ex (\<lambda>step. list_ex (\<lambda>action. ac_Type action = ActionToolCall \<and> ac_Name action = toolName
       \<and> list_ex (\<lambda>ob. ob_ActionID ob = ac_ID action \<and> \<not> ob_IsError ob \<and> (trim_space (ob_Content ob) \<noteq> [] \<or> ob_StructuredContent ob \<noteq> RawEmpty)) (st_Observations step))
       (st_Actions step)) (rs_Steps result)"

definition CompletedRoleResponse :: "string \<Rightarrow> RunResult \<Rightarrow> gerr + string" where
  "CompletedRoleResponse roleID result =
     (if rs_Status result \<noteq> RunStatusCompleted \<or> rs_PendingAction result \<noteq> None \<or> rs_PendingToolContinuation result \<noteq> None \<or> trim_space (rs_ApprovalID result) \<noteq> []
      then Inl (EMsg (''role '' @ roleID @ '' ended with unsupported status '' @ rs_Status result))
      else if trim_space (rs_FinalAnswer result) = [] then Inl (EMsg (''role '' @ roleID @ '' returned no final answer''))
      else Inr (trim_space (rs_FinalAnswer result)))"

text \<open>The texts handed from role to role.\<close>

definition lines :: "string list \<Rightarrow> string" where
  "lines = join_with [CHR 0x0A]"

definition DraftInput :: "string \<Rightarrow> string \<Rightarrow> string" where
  "DraftInput userRequest handoff = lines [''Current user request:'', ''<user_request>'', trim_space userRequest, ''</user_request>'', [], ''Untrusted research handoff:'',
     ''<research_handoff>'', handoff, ''</research_handoff>'', [], ''Create the requested complete draft.'']"

definition ReviewInput :: "string \<Rightarrow> string \<Rightarrow> string \<Rightarrow> string" where
  "ReviewInput userRequest handoff draft = lines [''Current user request:'', ''<user_request>'', trim_space userRequest, ''</user_request>'', [], ''Untrusted evidence handoff:'',
     ''<research_handoff>'', handoff, ''</research_handoff>'', [], ''Draft to review:'', ''<draft>'', trim_space draft, ''</draft>'', [], ''Return only the corrected final content.'']"

section \<open>Running a role\<close>

definition empty_build :: BuildResult where
  "empty_build = \<lparr>bu_Messages = [], bu_EstimatedTokens = 0, bu_Dropped = []\<rparr>"

definition role_message :: "string \<Rightarrow> string \<Rightarrow> Message" where
  "role_message role content = \<lparr>ms_Role = role, ms_Content = content, ms_Name = [], ms_ToolCallID = [], ms_Actions = []\<rparr>"

text \<open>Percentages truncate toward zero, and the product wraps around.\<close>

definition percent :: "int \<Rightarrow> int \<Rightarrow> int" where
  "percent tokens part = i64 (tokens * part) sdiv 100"

definition buildMessages :: "(BuildRequest \<Rightarrow> gerr + BuildResult) \<Rightarrow> string \<Rightarrow> string \<Rightarrow> Message list \<Rightarrow> Budget \<Rightarrow> gerr + BuildResult" where
  "buildMessages builder systemPrompt input history budget =
     (let maxInputTokens = (if bg_MaxInputTokens budget \<le> 0 then DefaultMaxInputTokens else bg_MaxInputTokens budget)
      in builder \<lparr>bq_System = [role_message RoleSystem systemPrompt], bq_Developer = [], bq_Policy = [], bq_Current = role_message RoleUser input, bq_History = history,
           bq_Persona = [], bq_Memory = [], bq_RAG = [], bq_Blackboard = [],
           bq_Budget = \<lparr>mb_MaxInputTokens = maxInputTokens, mb_HistoryTokens = percent maxInputTokens 60, mb_MemoryTokens = percent maxInputTokens 15,
             mb_RAGTokens = percent maxInputTokens 20, mb_ToolResultTokens = percent maxInputTokens 20, mb_BlackboardTokens = percent maxInputTokens 10\<rparr>\<rparr>)"

definition role_context :: "RunContext \<Rightarrow> RolePlan \<Rightarrow> AgentProfile \<Rightarrow> int \<Rightarrow> Budget \<Rightarrow> RunContext" where
  "role_context parent role selected now budget =
     \<lparr>rc_RunID = rc_RunID parent @ '':role:'' @ ol_RoleID role, rc_ParentRunID = rc_RunID parent, rc_RoleID = ol_RoleID role, rc_StrategyPlanDigest = rc_StrategyPlanDigest parent,
      rc_WorkflowID = [], rc_UserID = rc_UserID parent, rc_Mode = rc_Mode parent, rc_AgentProfileID = af_ID selected, rc_AgentProfileVersion = af_Version selected,
      rc_PromptTemplateID = fp_ID (af_Prompt selected), rc_PromptTemplateVersion = fp_Version (af_Prompt selected), rc_StartedAt = now, rc_Budget = budget\<rparr>"

definition label_steps :: "string \<Rightarrow> RunStep list \<Rightarrow> RunStep list" where
  "label_steps roleID = map (\<lambda>step. if trim_space (st_RoleID step) = [] then step\<lparr>st_RoleID := roleID\<rparr> else step)"

type_synonym role_outcome = "RunResult \<times> BuildResult \<times> gerr option"

definition runRole :: "MultiRoleExecutor \<Rightarrow> (RunRequest \<Rightarrow> run_world \<Rightarrow> run_outcome \<times> run_world) \<Rightarrow> RunContext \<Rightarrow> string \<Rightarrow> string \<Rightarrow> Message list \<Rightarrow> ToolDefinition list
    \<Rightarrow> RolePlan \<Rightarrow> AgentProfile \<Rightarrow> string \<Rightarrow> run_world \<Rightarrow> role_outcome \<times> run_world" where
  "runRole x run parent model input history tools role selected initialToolChoice w =
     (case BoundedRoleBudget role (af_Budget selected) of
        Inl err \<Rightarrow> ((zero_run, empty_build, Some (EWrap (''role '' @ ol_RoleID role @ '' budget: '') err)), w)
      | Inr budget \<Rightarrow>
          if ol_AllowedTools role = [] \<and> tools \<noteq> [] then ((zero_run, empty_build, Some (EMsg (''role '' @ ol_RoleID role @ '' received tools outside its plan''))), w)
          else (case buildMessages (mx_messages x) (fp_SystemPrompt (af_Prompt selected)) input history budget of
              Inl err \<Rightarrow> ((zero_run, empty_build, Some (EWrap (''build role '' @ ol_RoleID role @ '' messages: '') err)), w)
            | Inr build \<Rightarrow>
                let runContext = role_context parent role selected (mx_now x (wd_log w)) budget;
                    ((r, runErr), w1) = run \<lparr>rr_Context = runContext, rr_Model = model, rr_Messages = bu_Messages build, rr_Tools = tools, rr_InitialToolChoice = initialToolChoice\<rparr> w;
                    r1 = (if rc_RunID (rs_Context r) = [] then r\<lparr>rs_Context := runContext\<rparr> else r)
                in ((r1\<lparr>rs_Steps := label_steps (ol_RoleID role) (rs_Steps r1)\<rparr>, build, runErr), w1)))"

definition aggregate :: "RunContext \<Rightarrow> RoleResult list \<Rightarrow> string \<Rightarrow> string \<Rightarrow> RunResult" where
  "aggregate parent roles finalAnswer status =
     zero_run\<lparr>rs_Context := parent, rs_Status := status, rs_FinalAnswer := trim_space finalAnswer,
       rs_Usage := fold (\<lambda>role usage. usage_Add usage (rs_Usage (ox_Result role))) roles zero_usage,
       rs_Steps := concat (map (\<lambda>role. label_steps (ox_RoleID role) (rs_Steps (ox_Result role))) roles)\<rparr>"

section \<open>Execution\<close>

text \<open>The two kinds of stages: the result of the role and what it hands on, or the error that ends the execution.\<close>

definition research_stage :: "MultiRoleExecutor \<Rightarrow> (RunRequest \<Rightarrow> run_world \<Rightarrow> run_outcome \<times> run_world) \<Rightarrow> RunContext \<Rightarrow> MultiRoleRequest \<Rightarrow> ToolDefinition list \<Rightarrow> RolePlan
    \<Rightarrow> run_world \<Rightarrow> (RoleResult \<times> (gerr + string)) \<times> run_world" where
  "research_stage x run parent request tools role w =
     (let ((r, build, err), w1) = runRole x run parent (mq_Model request) (mq_Input request) (mq_History request) tools role (mf_Researcher (mq_Profiles request)) ToolChoiceRequired w
      in ((\<lparr>ox_RoleID = ol_RoleID role, ox_Result = r, ox_Build = build\<rparr>,
           case err of
             Some e \<Rightarrow> Inl e
           | None \<Rightarrow>
               if \<not> HasSuccessfulToolEvidence r (mq_RequiredTool request) then Inl (ENote ErrRequiredToolEvidence ('': '' @ mq_RequiredTool request))
               else bind_res (CompletedRoleResponse (ol_RoleID role) r) (\<lambda>summary. bind_res ((the (mq_Handoff request)) (wd_log w1) summary r) (\<lambda>handoff.
                 if trim_space handoff = [] then Inl (EMsg ''multi-role evidence handoff is empty'') else Inr handoff))), w1))"

definition answer_stage :: "MultiRoleExecutor \<Rightarrow> (RunRequest \<Rightarrow> run_world \<Rightarrow> run_outcome \<times> run_world) \<Rightarrow> RunContext \<Rightarrow> MultiRoleRequest \<Rightarrow> string \<Rightarrow> RolePlan \<Rightarrow> AgentProfile
    \<Rightarrow> run_world \<Rightarrow> (RoleResult \<times> (gerr + string)) \<times> run_world" where
  "answer_stage x run parent request input role selected w =
     (let ((r, build, err), w1) = runRole x run parent (mq_Model request) input [] [] role selected [] w
      in ((\<lparr>ox_RoleID = ol_RoleID role, ox_Result = r, ox_Build = build\<rparr>, case err of Some e \<Rightarrow> Inl e | None \<Rightarrow> CompletedRoleResponse (ol_RoleID role) r), w1))"

definition failed_execution :: "RunContext \<Rightarrow> RoleResult list \<Rightarrow> string \<Rightarrow> gerr \<Rightarrow> MultiRoleResult \<times> multi_role_error option" where
  "failed_execution parent roles roleID err = (\<lparr>mz_Aggregate = aggregate parent roles [] RunStatusFailed, mz_Roles = roles\<rparr>, Some (NewRoleExecutionError roleID (Some err)))"

definition run_roles :: "MultiRoleExecutor \<Rightarrow> (RunRequest \<Rightarrow> run_world \<Rightarrow> run_outcome \<times> run_world) \<Rightarrow> RunContext \<Rightarrow> MultiRoleRequest \<Rightarrow> ToolDefinition list \<Rightarrow> RolePlan \<Rightarrow> RolePlan \<Rightarrow> RolePlan
    \<Rightarrow> run_world \<Rightarrow> (MultiRoleResult \<times> multi_role_error option) \<times> run_world" where
  "run_roles x run parent request researchTools researchRole draftRole reviewRole w =
     (let ((research, handoff), w1) = research_stage x run parent request researchTools researchRole w; p = mq_Profiles request
      in case handoff of
           Inl err \<Rightarrow> (failed_execution parent [research] (ol_RoleID researchRole) err, w1)
         | Inr handoff \<Rightarrow>
             let ((draft, text), w2) = answer_stage x run parent request (DraftInput (mq_Input request) handoff) draftRole (mf_Drafter p) w1
             in (case text of
                   Inl err \<Rightarrow> (failed_execution parent [research, draft] (ol_RoleID draftRole) err, w2)
                 | Inr text \<Rightarrow>
                     let ((review, answer), w3) = answer_stage x run parent request (ReviewInput (mq_Input request) handoff text) reviewRole (mf_Reviewer p) w2; roles = [research, draft, review]
                     in (case answer of
                           Inl err \<Rightarrow> (failed_execution parent roles (ol_RoleID reviewRole) err, w3)
                         | Inr finalAnswer \<Rightarrow> ((\<lparr>mz_Aggregate = aggregate parent roles finalAnswer RunStatusCompleted, mz_Roles = roles\<rparr>, None), w3))))"

text \<open>The checks before the first role: the tools of the researcher and the tracker of the budget of the plan.\<close>

definition prepare_execution :: "strategy_env \<Rightarrow> MultiRoleRequest \<Rightarrow> gerr + (ToolDefinition list \<times> BudgetTracker)" where
  "prepare_execution e request =
     (let plan = mq_Plan request; p = mq_Profiles request
      in case validateMultiRoleRequest e request of
           Some err \<Rightarrow> Inl err
         | None \<Rightarrow> (case ValidateRoleBudgets plan p of
             Some err \<Rightarrow> Inl err
           | None \<Rightarrow>
               let researchTools = filterToolsByNames (FilterTools (mf_Researcher p) (FilterTools (mf_Parent p) (mq_Tools request))) (ol_AllowedTools (hd (yp_Roles plan)))
               in (case ValidateRequiredReadTool researchTools (mq_RequiredTool request) of
                     Some err \<Rightarrow> Inl (EWrap ''multi-role researcher tool scope: '' err)
                   | None \<Rightarrow> (case ValidateParentBudget (ParentBudget plan) (af_Budget (mf_Parent p)) of
                       Some err \<Rightarrow> Inl err
                     | None \<Rightarrow> (case NewBudgetTracker (ParentBudget plan) of
                         Inl err \<Rightarrow> Inl (EWrap ''create multi-role parent budget: '' err)
                       | Inr tracker \<Rightarrow> Inr (researchTools, tracker))))))"

definition parent_context :: "MultiRoleExecutor \<Rightarrow> MultiRoleRequest \<Rightarrow> run_world \<Rightarrow> RunContext" where
  "parent_context x request w =
     (let c = (mq_ParentContext request)\<lparr>rc_StrategyPlanDigest := yp_PlanDigest (mq_Plan request), rc_Budget := ParentBudget (mq_Plan request)\<rparr>
      in if rc_StartedAt c = 0 then c\<lparr>rc_StartedAt := mx_now x (wd_log w)\<rparr> else c)"

definition not_started :: "gerr \<Rightarrow> MultiRoleResult \<times> multi_role_error option" where
  "not_started err = (\<lparr>mz_Aggregate = zero_run, mz_Roles = []\<rparr>, Some (NotStarted err))"

definition MultiRole_Execute :: "MultiRoleExecutor \<Rightarrow> MultiRoleRequest \<Rightarrow> run_world \<Rightarrow> (MultiRoleResult \<times> multi_role_error option) \<times> run_world" where
  "MultiRole_Execute x request w = (case mx_runner x of
      None \<Rightarrow> (not_started (EMsg ''multi-role runtime runner is not configured''), w)
    | Some run \<Rightarrow> (case prepare_execution (mx_strategy x) request of
        Inl err \<Rightarrow> (not_started err, w)
      | Inr (researchTools, tracker) \<Rightarrow>
          let roles = yp_Roles (mq_Plan request);
              (out, w1) = run_roles x run (parent_context x request w) request researchTools (roles ! 0) (roles ! 1) (roles ! 2) (w\<lparr>wd_tracker := Some tracker\<rparr>)
          in (out, w1\<lparr>wd_tracker := wd_tracker w\<rparr>)))"

section \<open>The handoff of evidence\<close>

definition EvidenceHandoffSchema :: string where "EvidenceHandoffSchema = ''agent.multi_role_handoff.v1''"
definition MaxSummaryRunes :: int where "MaxSummaryRunes = 6000"

record Citation =
  ct_CitationID :: string
  ct_SourceType :: string
  ct_SourceID :: string
  ct_URL :: string
  ct_Title :: string
  ct_Snippet :: string

text \<open>The first runes of a string as \<^verbatim>\<open>[]rune\<close> and back gives them: a byte that starts no rune becomes the replacement character.\<close>

fun take_runes :: "nat \<Rightarrow> string \<Rightarrow> string" where
  "take_runes 0 s = []"
| "take_runes (Suc n) [] = []"
| "take_runes (Suc n) (c # s) =
     (let k = rune_width (c # s)
      in (if c \<le> CHR 0x7F \<or> 1 < k then take k (c # s) else [CHR 0xEF, CHR 0xBF, CHR 0xBD]) @ take_runes n (drop k (c # s)))"

definition BoundedRunes :: "string \<Rightarrow> int \<Rightarrow> string" where
  "BoundedRunes value0 limit =
     (let value = trim_space value0
      in if limit \<le> 0 then [] else if rune_count value \<le> limit then value else take_runes (nat limit) value)"

definition EncodeEvidenceHandoff :: "(string \<times> string \<times> Citation list \<Rightarrow> gerr + string) \<Rightarrow> string \<Rightarrow> Citation list \<Rightarrow> gerr + string" where
  "EncodeEvidenceHandoff marshal summary citations =
     (if citations = [] then Inl (ENote ErrRequiredToolEvidence '': no structured citation survived evidence validation'')
      else case marshal (EvidenceHandoffSchema, BoundedRunes summary MaxSummaryRunes, citations) of
        Inl err \<Rightarrow> Inl (EWrap ''encode multi-role evidence handoff: '' err)
      | Inr encoded \<Rightarrow> Inr encoded)"

end
