(* ===== verification/Multi_Role_Runs.thy ===== *)
theory Multi_Role_Runs
  imports Multi_Role
begin

text \<open>
  The properties of the execution by roles: it stays within the plan and so within the request the plan was made for, it never asks the runner for
  more than a role may have, and a completed one rests on evidence. The locale \<open>role_runner\<close> is the accounting runner of \<open>Goal_Budget\<close> on the
  world of the executor.
\<close>

section \<open>Roles within their budget\<close>

definition role_within :: "RolePlan \<Rightarrow> RunResult \<Rightarrow> bool" where
  "role_within role r \<longleftrightarrow> counted 128 (rs_Usage r) \<and> tu_TotalTokens (rs_Usage r) \<le> ol_MaxTotalTokens role
     \<and> tu_EstimatedCostMicros (rs_Usage r) \<le> ol_MaxEstimatedCostMicros role \<and> int (length (rs_Steps r)) \<le> ol_MaxSteps role"

lemma label_steps_length [simp]: "length (label_steps roleID steps) = length steps"
  by (simp add: label_steps_def)

lemma BoundedRoleBudget_result:
  assumes "BoundedRoleBudget role b = Inr budget"
  shows "bg_MaxSteps budget = ol_MaxSteps role" "bg_MaxTotalTokens budget = ol_MaxTotalTokens role" "bg_MaxEstimatedCostMicros budget = ol_MaxEstimatedCostMicros role"
    "0 < ol_MaxSteps role" "0 < ol_MaxTotalTokens role" "0 < ol_MaxEstimatedCostMicros role"
  using assms by (auto simp: BoundedRoleBudget_def Let_def split: if_splits)

lemma role_context_budget [simp]: "rc_Budget (role_context parent role selected now budget) = budget"
  by (simp add: role_context_def)

lemma runRole_run:
  assumes "runRole x run parent model input history tools role selected choice w = ((r, build, None), w')"
  obtains budget q r0 where "BoundedRoleBudget role (af_Budget selected) = Inr budget" "rc_Budget (rr_Context q) = budget" "run q w = ((r0, None), w')"
    "rs_Usage r = rs_Usage r0" "length (rs_Steps r) = length (rs_Steps r0)" "rs_Status r = rs_Status r0"
proof -
  obtain budget build' where b: "BoundedRoleBudget role (af_Budget selected) = Inr budget" "buildMessages (mx_messages x) (fp_SystemPrompt (af_Prompt selected)) input history budget = Inr build'"
    using assms by (auto simp: runRole_def split: sum.splits if_splits)
  let ?q = "\<lparr>rr_Context = role_context parent role selected (mx_now x (wd_log w)) budget, rr_Model = model, rr_Messages = bu_Messages build', rr_Tools = tools, rr_InitialToolChoice = choice\<rparr>"
  obtain r0 err w1 where r0: "run ?q w = ((r0, err), w1)" by (metis prod.exhaust)
  then show thesis using that [OF b(1), of ?q r0] assms b by (auto simp: runRole_def Let_def split: if_splits)
qed

text \<open>A role that ran to its end: what an execution knows of the roles of its result.\<close>

definition role_ran :: "(RunRequest \<Rightarrow> run_world \<Rightarrow> run_outcome \<times> run_world) \<Rightarrow> RolePlan \<Rightarrow> RoleResult \<Rightarrow> bool" where
  "role_ran run role out \<longleftrightarrow> (\<exists>x parent model input history tools selected choice w w'. runRole x run parent model input history tools role selected choice w = ((ox_Result out, ox_Build out, None), w'))
     \<and> rs_Status (ox_Result out) = RunStatusCompleted \<and> ox_RoleID out = ol_RoleID role"

lemma research_completed:
  assumes "research_stage x run parent request tools role w = ((out, Inr handoff), w')"
  shows "role_ran run role out" "HasSuccessfulToolEvidence (ox_Result out) (mq_RequiredTool request)" "trim_space handoff \<noteq> []"
proof -
  have "runRole x run parent (mq_Model request) (mq_Input request) (mq_History request) tools role (mf_Researcher (mq_Profiles request)) ToolChoiceRequired w = ((ox_Result out, ox_Build out, None), w')"
      "rs_Status (ox_Result out) = RunStatusCompleted" "ox_RoleID out = ol_RoleID role"
    and e: "HasSuccessfulToolEvidence (ox_Result out) (mq_RequiredTool request)" "trim_space handoff \<noteq> []"
    using assms by (auto simp: research_stage_def CompletedRoleResponse_def bind_res_def Let_def split: prod.splits option.splits if_splits sum.splits)
  then show "role_ran run role out" unfolding role_ran_def by blast
  show "HasSuccessfulToolEvidence (ox_Result out) (mq_RequiredTool request)" "trim_space handoff \<noteq> []" by (rule e)+
qed

lemma answer_completed:
  assumes "answer_stage x run parent request input role selected w = ((out, Inr answer), w')"
  shows "role_ran run role out" "trim_space answer \<noteq> []" "answer = trim_space (rs_FinalAnswer (ox_Result out))"
proof -
  have "runRole x run parent (mq_Model request) input [] [] role selected [] w = ((ox_Result out, ox_Build out, None), w')" "rs_Status (ox_Result out) = RunStatusCompleted"
      "ox_RoleID out = ol_RoleID role" and e: "trim_space answer \<noteq> []" "answer = trim_space (rs_FinalAnswer (ox_Result out))"
    using assms by (auto simp: answer_stage_def CompletedRoleResponse_def Let_def split: prod.splits option.splits if_splits)
  then show "role_ran run role out" unfolding role_ran_def by blast
  show "trim_space answer \<noteq> []" "answer = trim_space (rs_FinalAnswer (ox_Result out))" by (rule e)+
qed

text \<open>A completed execution has three roles that ran, and evidence from the first.\<close>

lemma Execute_completed:
  assumes "MultiRole_Execute x request w = ((result, None), w')" "mx_runner x = Some run"
  obtains role1 role2 role3 r1 r2 r3 answer tools tracker where "yp_Roles (mq_Plan request) = [role1, role2, role3]" "prepare_execution (mx_strategy x) request = Inr (tools, tracker)"
    "mz_Roles result = [r1, r2, r3]" "mz_Aggregate result = aggregate (parent_context x request w) [r1, r2, r3] answer RunStatusCompleted"
    "role_ran run role1 r1" "role_ran run role2 r2" "role_ran run role3 r3" "HasSuccessfulToolEvidence (ox_Result r1) (mq_RequiredTool request)" "trim_space answer \<noteq> []"
    "answer = trim_space (rs_FinalAnswer (ox_Result r3))"
proof -
  let ?roles = "yp_Roles (mq_Plan request)" and ?parent = "parent_context x request w"
  obtain tools tracker w1 where p: "prepare_execution (mx_strategy x) request = Inr (tools, tracker)"
      and r: "run_roles x run ?parent request tools (?roles ! 0) (?roles ! 1) (?roles ! 2) (w\<lparr>wd_tracker := Some tracker\<rparr>) = ((result, None), w1)"
    using assms by (auto simp: MultiRole_Execute_def not_started_def Let_def split: option.splits sum.splits prod.splits)
  have "map ol_RoleID ?roles = [RoleResearcher, RoleDrafter, RoleReviewer]"
    using p by (auto simp: prepare_execution_def validateMultiRoleRequest_def ValidateSequentialPlan_def Let_def split: option.splits if_splits sum.splits)
  then obtain role1 role2 role3 where roles: "?roles = [role1, role2, role3]" by auto
  obtain r1 handoff w2 r2 draft w3 r3 answer input1 input2 where stages: "research_stage x run ?parent request tools role1 (w\<lparr>wd_tracker := Some tracker\<rparr>) = ((r1, Inr handoff), w2)"
      "answer_stage x run ?parent request input1 role2 (mf_Drafter (mq_Profiles request)) w2 = ((r2, Inr draft), w3)"
      "answer_stage x run ?parent request input2 role3 (mf_Reviewer (mq_Profiles request)) w3 = ((r3, Inr answer), w1)"
      and result: "mz_Roles result = [r1, r2, r3]" "mz_Aggregate result = aggregate ?parent [r1, r2, r3] answer RunStatusCompleted"
    using r by (auto simp: run_roles_def failed_execution_def Let_def roles numeral_2_eq_2 split: prod.splits sum.splits)
  show thesis
    by (rule that [OF roles p result research_completed(1) [OF stages(1)] answer_completed(1) [OF stages(2)] answer_completed(1) [OF stages(3)] research_completed(2) [OF stages(1)]
          answer_completed(2,3) [OF stages(3)]])
qed

lemma aggregate_usage:
  assumes "counted 128 (rs_Usage (ox_Result r1))" "counted 128 (rs_Usage (ox_Result r2))" "counted 128 (rs_Usage (ox_Result r3))"
  shows "uval f (rs_Usage (aggregate parent [r1, r2, r3] answer status)) = uval f (rs_Usage (ox_Result r1)) + uval f (rs_Usage (ox_Result r2)) + uval f (rs_Usage (ox_Result r3))"
proof -
  note one = counted_Add [OF counted_zero assms(1)]
  have two: "uval f (usage_Add (usage_Add zero_usage (rs_Usage (ox_Result r1))) (rs_Usage (ox_Result r2))) = uval f (rs_Usage (ox_Result r1)) + uval f (rs_Usage (ox_Result r2))"
      "counted 256 (usage_Add (usage_Add zero_usage (rs_Usage (ox_Result r1))) (rs_Usage (ox_Result r2)))" for f
    using counted_Add [OF one(2) assms(2)] one(1) by (cases f; simp add: zero_usage_def)+
  show ?thesis using counted_Add(1) [OF two(2) assms(3)] two(1) by (simp add: aggregate_def)
qed

definition execution_within :: "StrategyPlan \<Rightarrow> RunResult \<Rightarrow> bool" where
  "execution_within plan r \<longleftrightarrow> tu_TotalTokens (rs_Usage r) \<le> role_total ol_MaxTotalTokens plan
     \<and> tu_EstimatedCostMicros (rs_Usage r) \<le> role_total ol_MaxEstimatedCostMicros plan \<and> int (length (rs_Steps r)) \<le> role_total ol_MaxSteps plan"

locale role_runner = accounted_runner run honest
  for run :: "RunRequest \<Rightarrow> run_world \<Rightarrow> run_outcome \<times> run_world" and honest :: bool
begin

lemma runRole_within:
  assumes "honest" "runRole x run parent model input history tools role selected choice w = ((r, build, None), w')" "rs_Status r = RunStatusCompleted"
  shows "role_within role r"
proof -
  obtain budget q r0 where b: "BoundedRoleBudget role (af_Budget selected) = Inr budget" and q: "rc_Budget (rr_Context q) = budget" "run q w = ((r0, None), w')"
      and r: "rs_Usage r = rs_Usage r0" "length (rs_Steps r) = length (rs_Steps r0)" "rs_Status r = rs_Status r0"
    using assms(2) by (rule runRole_run)
  note budget = BoundedRoleBudget_result [OF b]
  have steps: "length (rs_Steps r0) \<le> run_steps budget" using steps_bounded [OF q(2)] by (simp add: q(1))
  have "counted (2 * int (length (rs_Steps r0))) (rs_Usage r0)" using run_counts [OF assms(1) q(2)] by (simp add: run_counted_def)
  then have "counted 128 (rs_Usage r0)" by (rule counted_mono) (use steps run_steps_bound [of budget] in linarith)
  moreover have "rs_Status r0 \<noteq> RunStatusFailed" unfolding r(3) [symmetric] assms(3) by (simp add: run_statuses)
  then have "within_budget budget (rs_Usage r0)" using run_within [OF q(2)] by (simp add: q(1))
  moreover have "int (length (rs_Steps r0)) \<le> ol_MaxSteps role" using steps budget by (auto simp: run_steps_def effective_max_steps_def Let_def split: if_splits)
  ultimately show ?thesis using budget r by (simp add: role_within_def within_budget_def)
qed

lemma ran_within: "honest \<Longrightarrow> role_ran run role out \<Longrightarrow> role_within role (ox_Result out)"
  unfolding role_ran_def by (metis runRole_within)

lemma Execute_within:
  assumes "honest" "mx_runner x = Some run" "MultiRole_Execute x request w = ((result, None), w')"
  shows "execution_within (mq_Plan request) (mz_Aggregate result)"
proof -
  obtain role1 role2 role3 r1 r2 r3 answer where e: "yp_Roles (mq_Plan request) = [role1, role2, role3]" "mz_Aggregate result = aggregate (parent_context x request w) [r1, r2, r3] answer RunStatusCompleted"
      "role_ran run role1 r1" "role_ran run role2 r2" "role_ran run role3 r3"
    by (rule Execute_completed [OF assms(3,2)])
  have w: "role_within role1 (ox_Result r1)" "role_within role2 (ox_Result r2)" "role_within role3 (ox_Result r3)"
    using ran_within [OF assms(1)] e(3-5) by blast+
  then have c: "counted 128 (rs_Usage (ox_Result r1))" "counted 128 (rs_Usage (ox_Result r2))" "counted 128 (rs_Usage (ox_Result r3))" by (simp_all add: role_within_def)
  show ?thesis
    using aggregate_usage [OF c, of UTotal] aggregate_usage [OF c, of UCost] w e(1,2)
    by (auto simp: execution_within_def role_total_def role_within_def) (simp add: aggregate_def)
qed

end

interpretation react_roles: role_runner "Run env" "honest_model env" for env
  by (rule role_runner.intro) (rule react_accounts.accounted_runner_axioms)

section \<open>What the checks give\<close>

lemma prepared:
  assumes "prepare_execution e request = Inr (tools, tracker)"
  shows "ValidateSequentialPlan e (mq_Plan request) = None" "ValidateParentBudget (ParentBudget (mq_Plan request)) (af_Budget (mf_Parent (mq_Profiles request))) = None"
    and "tools = filterToolsByNames (FilterTools (mf_Researcher (mq_Profiles request)) (FilterTools (mf_Parent (mq_Profiles request)) (mq_Tools request))) (ol_AllowedTools (hd (yp_Roles (mq_Plan request))))"
    and "ValidateRequiredReadTool tools (mq_RequiredTool request) = None"
  using assms by (auto simp: prepare_execution_def validateMultiRoleRequest_def Let_def split: option.splits sum.splits if_splits)

lemma sequential_plan:
  "ValidateSequentialPlan e plan = None \<Longrightarrow> yp_SelectedStrategy plan = KindMultiAgent \<and> map ol_RoleID (yp_Roles plan) = [RoleResearcher, RoleDrafter, RoleReviewer]"
  by (auto simp: ValidateSequentialPlan_def split: option.splits if_splits)

lemma parent_budget_totals:
  assumes "ValidateParentBudget (ParentBudget plan) b = None" "\<forall>role\<in>set (yp_Roles plan). moderate_role role" "length (yp_Roles plan) \<le> 4096"
  shows "role_total ol_MaxSteps plan \<le> bg_MaxSteps b" "role_total ol_MaxTotalTokens plan \<le> bg_MaxTotalTokens b" "role_total ol_MaxEstimatedCostMicros plan \<le> bg_MaxEstimatedCostMicros b"
proof -
  have "wrapped_sum f (yp_Roles plan) = role_total f plan" if "\<And>r. moderate_role r \<Longrightarrow> 0 \<le> f r \<and> f r \<le> 2 ^ 50" for f
    unfolding role_total_def by (rule wrapped_sum_exact) (use assms that in auto)
  then have "wrapped_sum ol_MaxSteps (yp_Roles plan) = role_total ol_MaxSteps plan" "wrapped_sum ol_MaxTotalTokens (yp_Roles plan) = role_total ol_MaxTotalTokens plan"
      "wrapped_sum ol_MaxEstimatedCostMicros (yp_Roles plan) = role_total ol_MaxEstimatedCostMicros plan"
    by (simp_all add: moderate_role_def)
  then show "role_total ol_MaxSteps plan \<le> bg_MaxSteps b" "role_total ol_MaxTotalTokens plan \<le> bg_MaxTotalTokens b" "role_total ol_MaxEstimatedCostMicros plan \<le> bg_MaxEstimatedCostMicros b"
    using assms(1) by (auto simp: ValidateParentBudget_def ParentBudget_def split: if_splits)
qed

lemma Bind_keeps: "BindProfileSet e plan anchor version = Inr bound \<Longrightarrow> yp_Roles bound = yp_Roles plan \<and> yp_SelectedStrategy bound = yp_SelectedStrategy plan"
  by (auto simp: BindProfileSet_def dest!: finalizePlan_result split: option.splits)

definition execution_fits :: "Budget \<Rightarrow> RunResult \<Rightarrow> bool" where
  "execution_fits b r \<longleftrightarrow> tu_TotalTokens (rs_Usage r) \<le> bg_MaxTotalTokens b \<and> tu_EstimatedCostMicros (rs_Usage r) \<le> bg_MaxEstimatedCostMicros b \<and> int (length (rs_Steps r)) \<le> bg_MaxSteps b"

section \<open>An execution by three roles\<close>

definition role_demo_script :: "Action list list" where
  "role_demo_script = [[react_demo_action ''a1'' ActionToolCall ''look'' []]] @ goal_demo_answer @ goal_demo_answer @ goal_demo_answer"

definition role_demo_env :: run_env where
  "role_demo_env = (goal_demo_env role_demo_script)\<lparr>en_EstimateCost := Some (\<lambda>model u. Inr \<lparr>ce_Micros = 3, ce_PricingVersion = ''v1''\<rparr>)\<rparr>"

definition role_demo_profile :: "string \<Rightarrow> string list \<Rightarrow> AgentProfile" where
  "role_demo_profile i tools = \<lparr>af_ID = i, af_Version = ''v1'', af_Prompt = \<lparr>fp_ID = i, fp_Version = ''v1'', fp_SystemPrompt = ''do it''\<rparr>,
     af_Budget = \<lparr>bg_MaxSteps = 5, bg_MaxInputTokens = 1000, bg_MaxOutputTokens = 1000, bg_MaxTotalTokens = 24000, bg_MaxEstimatedCostMicros = 100000, bg_Timeout = 60000000000, bg_Deadline = None\<rparr>,
     af_AllowedTools = tools\<rparr>"

definition role_demo_plan :: StrategyPlan where
  "role_demo_plan = projr (BindProfileSet strategy_demo_env strategy_demo_plan ''set'' ''v1'')"

definition role_demo_request :: MultiRoleRequest where
  "role_demo_request = \<lparr>mq_ParentContext = rr_Context (react_demo_request 4), mq_Plan = role_demo_plan, mq_Model = ''m'', mq_Input = ''write it'', mq_History = [],
     mq_Tools = react_demo_tools, mq_RequiredTool = ''look'',
     mq_Profiles = \<lparr>mf_Parent = role_demo_profile ''p'' [''look'', ''ask''], mf_Researcher = role_demo_profile ''r'' [''look''], mf_Drafter = role_demo_profile ''d'' [], mf_Reviewer = role_demo_profile ''v'' []\<rparr>,
     mq_Handoff = Some (\<lambda>es summary r. Inr summary)\<rparr>"

definition role_demo_executor :: MultiRoleExecutor where
  "role_demo_executor = \<lparr>mx_strategy = strategy_demo_env, mx_runner = Some (Run role_demo_env),
     mx_messages = (\<lambda>q. Inr \<lparr>bu_Messages = bq_System q @ bq_History q @ [bq_Current q], bu_EstimatedTokens = 10, bu_Dropped = []\<rparr>), mx_now = (\<lambda>es. 100)\<rparr>"

definition role_demo_run :: "(MultiRoleResult \<times> multi_role_error option) \<times> run_world" where
  "role_demo_run = MultiRole_Execute role_demo_executor role_demo_request (start react_demo_tracker)"

definition role_demo_summary :: "(MultiRoleResult \<times> multi_role_error option) \<times> run_world \<Rightarrow> bool \<times> int \<times> int \<times> nat" where
  "role_demo_summary x = (Option.is_none (snd (fst x)), tu_TotalTokens (rs_Usage (mz_Aggregate (fst (fst x)))), tu_EstimatedCostMicros (rs_Usage (mz_Aggregate (fst (fst x)))),
     length (rs_Steps (mz_Aggregate (fst (fst x)))))"

lemma role_demo_bound: "BindProfileSet strategy_demo_env strategy_demo_plan ''set'' ''v1'' = Inr role_demo_plan"
proof -
  have "\<not> isl (BindProfileSet strategy_demo_env strategy_demo_plan ''set'' ''v1'')" by code_simp
  then show ?thesis by (simp add: role_demo_plan_def)
qed

lemma role_demo_evaluated: "role_demo_summary role_demo_run = (True, 20, 12, 4)"
  by code_simp

lemma role_demo_honest: "honest_model role_demo_env"
  using goal_demo_honest [of role_demo_script] by (simp add: honest_model_def role_demo_env_def) (simp add: goal_demo_env_def react_demo_env_def small_count_def)

lemma role_demo_result: "MultiRole_Execute role_demo_executor role_demo_request (start react_demo_tracker) = ((fst (fst role_demo_run), None), snd role_demo_run)"
  using role_demo_evaluated by (cases role_demo_run) (auto simp: role_demo_summary_def Option.is_none_def role_demo_run_def)

text \<open>
  C21. From the choice of a strategy to its end: when a plan for several agents is made for a request, bound to a set of profiles and executed to
  completion, its three runs together have used at most the tokens, the cost and the steps of the budget of the request, and at most those of the parent
  profile. Assumed are the bound on templates of the planner, and that providers count what they used.
\<close>
theorem multi_role_within_request:
  assumes "NewDeterministicPlanner e policy templates = Inr p" and "\<forall>t\<in>set templates. moderate_template t"
    and "DeterministicPlanner_Plan e p ctxErr strategy = Inr plan" and "BindProfileSet e plan anchor version = Inr (mq_Plan request)"
    and "mx_runner x = Some (Run env)" and "honest_model env"
    and "MultiRole_Execute x request w = ((result, None), w')"
  shows "execution_fits (yq_Budget strategy) (mz_Aggregate result) \<and> execution_fits (af_Budget (mf_Parent (mq_Profiles request))) (mz_Aggregate result)"
proof -
  obtain tools tracker where "prepare_execution (mx_strategy x) request = Inr (tools, tracker)"
    by (rule Execute_completed [OF assms(7,5)])
  note prep = prepared [OF this]
  have bound: "yp_Roles (mq_Plan request) = yp_Roles plan" "yp_SelectedStrategy plan = KindMultiAgent" "length (yp_Roles plan) = 3"
    using Bind_keeps [OF assms(4)] sequential_plan [OF prep(1)] by (auto dest: arg_cong [of _ _ length])
  note fits = selected_plan_fits [OF assms(1-3) bound(2)]
  have total: "role_total f (mq_Plan request) = role_total f plan" for f by (simp add: role_total_def bound(1))
  have "execution_within (mq_Plan request) (mz_Aggregate result)" by (rule react_roles.Execute_within [OF assms(6,5,7)])
  moreover have "role_total ol_MaxSteps plan \<le> bg_MaxSteps (af_Budget (mf_Parent (mq_Profiles request)))" "role_total ol_MaxTotalTokens plan \<le> bg_MaxTotalTokens (af_Budget (mf_Parent (mq_Profiles request)))"
      "role_total ol_MaxEstimatedCostMicros plan \<le> bg_MaxEstimatedCostMicros (af_Budget (mf_Parent (mq_Profiles request)))"
    using parent_budget_totals [OF prep(2)] fits(2) bound by (simp_all add: total)
  ultimately show ?thesis using fits(1) by (simp add: execution_within_def execution_fits_def strategy_fits_def total)
qed

theorem multi_role_within_request_witness:
  "execution_fits (yq_Budget strategy_demo_request) (mz_Aggregate (fst (fst role_demo_run))) \<and> tu_TotalTokens (rs_Usage (mz_Aggregate (fst (fst role_demo_run)))) = 20"
proof (rule conjI)
  have plan: "BindProfileSet strategy_demo_env strategy_demo_plan ''set'' ''v1'' = Inr (mq_Plan role_demo_request)" using role_demo_bound by (simp add: role_demo_request_def)
  have runner: "mx_runner role_demo_executor = Some (Run role_demo_env)" by (simp add: role_demo_executor_def)
  show "execution_fits (yq_Budget strategy_demo_request) (mz_Aggregate (fst (fst role_demo_run)))"
    using multi_role_within_request [OF strategy_demo_new strategy_demo_moderate strategy_demo_planned plan runner role_demo_honest role_demo_result] by blast
  show "tu_TotalTokens (rs_Usage (mz_Aggregate (fst (fst role_demo_run)))) = 20" using role_demo_evaluated by (simp add: role_demo_summary_def)
qed

section \<open>Evidence\<close>

lemma list_ex_mapped: "list_ex P xs \<Longrightarrow> (\<And>x. P (g x) = P x) \<Longrightarrow> list_ex P (map g xs @ ys)"
  by (induction xs) auto

lemma labelled_evidence:
  "HasSuccessfulToolEvidence r tool \<Longrightarrow> rs_Steps r' = label_steps roleID (rs_Steps r) @ others \<Longrightarrow> HasSuccessfulToolEvidence r' tool"
proof -
  assume ev: "HasSuccessfulToolEvidence r tool" and steps: "rs_Steps r' = label_steps roleID (rs_Steps r) @ others"
  show ?thesis using ev unfolding HasSuccessfulToolEvidence_def steps label_steps_def by (rule list_ex_mapped) simp
qed

text \<open>
  C23. A completed execution by roles rests on evidence: the required tool is one that only reads and needs no approval, a call of it was observed with a
  result and without an error in the steps reported, the roles are researcher, drafter and reviewer in this order, and there is an answer.
\<close>
theorem multi_role_rests_on_evidence:
  assumes "MultiRole_Execute x request w = ((result, None), w')"
  shows "HasSuccessfulToolEvidence (mz_Aggregate result) (mq_RequiredTool request)
    \<and> (\<exists>tool\<in>set (mq_Tools request). td_Name tool = mq_RequiredTool request \<and> td_Category tool = ''read'' \<and> \<not> tool_ApprovalRequired tool)
    \<and> map ox_RoleID (mz_Roles result) = [RoleResearcher, RoleDrafter, RoleReviewer]
    \<and> rs_Status (mz_Aggregate result) = RunStatusCompleted \<and> trim_space (rs_FinalAnswer (mz_Aggregate result)) \<noteq> []"
proof -
  obtain run where run: "mx_runner x = Some run" using assms by (auto simp: MultiRole_Execute_def not_started_def split: option.splits)
  obtain role1 role2 role3 r1 r2 r3 answer tools tracker where e: "yp_Roles (mq_Plan request) = [role1, role2, role3]" "prepare_execution (mx_strategy x) request = Inr (tools, tracker)"
      "mz_Roles result = [r1, r2, r3]" "mz_Aggregate result = aggregate (parent_context x request w) [r1, r2, r3] answer RunStatusCompleted"
      "role_ran run role1 r1" "role_ran run role2 r2" "role_ran run role3 r3" "HasSuccessfulToolEvidence (ox_Result r1) (mq_RequiredTool request)" "trim_space answer \<noteq> []"
    by (rule Execute_completed [OF assms run])
  note prep = prepared [OF e(2)]
  have "\<exists>tool\<in>set tools. td_Name tool = mq_RequiredTool request \<and> td_Category tool = ''read'' \<and> \<not> tool_ApprovalRequired tool"
    using prep(4) by (auto simp: ValidateRequiredReadTool_def find_Some_iff split: option.splits if_splits)
  moreover have "set tools \<subseteq> set (mq_Tools request)" by (auto simp: prep(3) filterToolsByNames_def FilterTools_def Let_def)
  moreover have "HasSuccessfulToolEvidence (mz_Aggregate result) (mq_RequiredTool request)"
    by (rule labelled_evidence [OF e(8)]) (simp add: e(4) aggregate_def)
  moreover have "map ox_RoleID (mz_Roles result) = [RoleResearcher, RoleDrafter, RoleReviewer]"
    using sequential_plan [OF prep(1)] e(1,3,5-7) by (simp add: role_ran_def)
  ultimately show ?thesis using e(4,9) by (auto simp: aggregate_def)
qed

theorem multi_role_rests_on_evidence_witness:
  "HasSuccessfulToolEvidence (mz_Aggregate (fst (fst role_demo_run))) ''look'' \<and> map ox_RoleID (mz_Roles (fst (fst role_demo_run))) = [RoleResearcher, RoleDrafter, RoleReviewer]"
  using multi_role_rests_on_evidence [OF role_demo_result] by (simp add: role_demo_request_def)

section \<open>Authority\<close>

text \<open>What a role may ask of the runner: the model of the request, the budget of the role and, as the researcher only, tools of the plan and of both profiles.\<close>

definition may_ask :: "MultiRoleRequest \<Rightarrow> RunRequest \<Rightarrow> bool" where
  "may_ask request q \<longleftrightarrow> (\<exists>role\<in>set (yp_Roles (mq_Plan request)).
     rc_RoleID (rr_Context q) = ol_RoleID role \<and> rc_ParentRunID (rr_Context q) = rc_RunID (mq_ParentContext request)
     \<and> rc_StrategyPlanDigest (rr_Context q) = yp_PlanDigest (mq_Plan request) \<and> rr_Model q = mq_Model request
     \<and> bg_MaxSteps (rc_Budget (rr_Context q)) = ol_MaxSteps role \<and> bg_MaxTotalTokens (rc_Budget (rr_Context q)) = ol_MaxTotalTokens role
     \<and> bg_MaxEstimatedCostMicros (rc_Budget (rr_Context q)) = ol_MaxEstimatedCostMicros role
     \<and> (\<forall>t\<in>set (rr_Tools q). ol_RoleID role = RoleResearcher \<and> t \<in> set (mq_Tools request) \<and> td_Name t \<in> trim_space ` set (ol_AllowedTools role)
          \<and> AllowsTool (mf_Parent (mq_Profiles request)) (td_Name t) \<and> AllowsTool (mf_Researcher (mq_Profiles request)) (td_Name t)))"

lemma runRole_agrees:
  assumes agree: "\<And>q w. may_ask request q \<Longrightarrow> run q w = run' q w"
    and parent: "rc_RunID parent = rc_RunID (mq_ParentContext request)" "rc_StrategyPlanDigest parent = yp_PlanDigest (mq_Plan request)"
    and role: "role \<in> set (yp_Roles (mq_Plan request))"
    and tools: "\<forall>t\<in>set tools. ol_RoleID role = RoleResearcher \<and> t \<in> set (mq_Tools request) \<and> td_Name t \<in> trim_space ` set (ol_AllowedTools role)
          \<and> AllowsTool (mf_Parent (mq_Profiles request)) (td_Name t) \<and> AllowsTool (mf_Researcher (mq_Profiles request)) (td_Name t)"
  shows "runRole (x\<lparr>mx_runner := y\<rparr>) run' parent (mq_Model request) input history tools role selected choice w = runRole x run parent (mq_Model request) input history tools role selected choice w"
proof -
  have "run \<lparr>rr_Context = role_context parent role selected now budget, rr_Model = mq_Model request, rr_Messages = messages, rr_Tools = tools, rr_InitialToolChoice = choice\<rparr> w
      = run' \<lparr>rr_Context = role_context parent role selected now budget, rr_Model = mq_Model request, rr_Messages = messages, rr_Tools = tools, rr_InitialToolChoice = choice\<rparr> w"
    if "BoundedRoleBudget role (af_Budget selected) = Inr budget" for budget now messages
    by (rule agree) (use parent role tools BoundedRoleBudget_result [OF that] in \<open>auto simp: may_ask_def role_context_def intro!: bexI [of _ role]\<close>)
  then show ?thesis
    by (cases "BoundedRoleBudget role (af_Budget selected)"; cases "buildMessages (mx_messages x) (fp_SystemPrompt (af_Prompt selected)) input history (projr (BoundedRoleBudget role (af_Budget selected)))")
       (simp_all add: runRole_def Let_def)
qed

text \<open>
  C22. Roles have no more authority than their plan gives them: the runner below an execution by roles is only asked for runs of a role of the plan, under
  the digest of the plan, with the steps, tokens and cost of that role, without tools for drafter and reviewer, and for the researcher with tools that the
  request has, the plan names and the profiles of parent and researcher both allow. Any runner that answers such requests in the same way gives
  the same execution, whatever it does on others.
\<close>
theorem multi_role_authority:
  assumes "mx_runner x = Some run" and "\<And>q w. may_ask request q \<Longrightarrow> run q w = run' q w"
  shows "MultiRole_Execute (x\<lparr>mx_runner := Some run'\<rparr>) request w = MultiRole_Execute x request w"
proof (cases "prepare_execution (mx_strategy x) request")
  case (Inl err)
  then show ?thesis using assms(1) by (simp add: MultiRole_Execute_def)
next
  case (Inr y)
  then obtain tools tracker where y: "prepare_execution (mx_strategy x) request = Inr (tools, tracker)" by (cases y) simp
  note prep = prepared [OF y]
  obtain role1 role2 role3 where roles: "yp_Roles (mq_Plan request) = [role1, role2, role3]" "ol_RoleID role1 = RoleResearcher"
    using sequential_plan [OF prep(1)] by auto
  have tools: "\<forall>t\<in>set tools. ol_RoleID role1 = RoleResearcher \<and> t \<in> set (mq_Tools request) \<and> td_Name t \<in> trim_space ` set (ol_AllowedTools role1)
      \<and> AllowsTool (mf_Parent (mq_Profiles request)) (td_Name t) \<and> AllowsTool (mf_Researcher (mq_Profiles request)) (td_Name t)"
    using roles by (auto simp: prep(3) filterToolsByNames_def FilterTools_def Let_def)
  have parent: "rc_RunID (parent_context x request w) = rc_RunID (mq_ParentContext request)" "rc_StrategyPlanDigest (parent_context x request w) = yp_PlanDigest (mq_Plan request)"
      "parent_context (x\<lparr>mx_runner := Some run'\<rparr>) request w = parent_context x request w"
    by (simp_all add: parent_context_def Let_def)
  note agrees = runRole_agrees [OF assms(2) parent(1,2), where y = "Some run'"]
  have "research_stage (x\<lparr>mx_runner := Some run'\<rparr>) run' (parent_context x request w) request tools role1 w1 = research_stage x run (parent_context x request w) request tools role1 w1" for w1
    unfolding research_stage_def by (subst agrees) (use roles tools in simp_all)
  moreover have "answer_stage (x\<lparr>mx_runner := Some run'\<rparr>) run' (parent_context x request w) request input role selected w1
      = answer_stage x run (parent_context x request w) request input role selected w1" if "role \<in> {role2, role3}" for input role selected w1
    unfolding answer_stage_def by (subst agrees) (use roles that in auto)
  ultimately have "run_roles (x\<lparr>mx_runner := Some run'\<rparr>) run' (parent_context x request w) request tools role1 role2 role3 w1
      = run_roles x run (parent_context x request w) request tools role1 role2 role3 w1" for w1
    by (simp add: run_roles_def Let_def split: prod.splits sum.splits)
  then show ?thesis using assms(1) y roles parent(3) by (simp add: MultiRole_Execute_def numeral_2_eq_2 Let_def)
qed

definition role_demo_guard :: "RunRequest \<Rightarrow> run_world \<Rightarrow> run_outcome \<times> run_world" where
  "role_demo_guard q w = (if may_ask role_demo_request q then Run role_demo_env q w else ((zero_run, Some ECanceled), w))"

theorem multi_role_authority_witness:
  "MultiRole_Execute (role_demo_executor\<lparr>mx_runner := Some role_demo_guard\<rparr>) role_demo_request (start react_demo_tracker) = role_demo_run \<and> snd (fst role_demo_run) = None"
proof (rule conjI)
  have runner: "mx_runner role_demo_executor = Some (Run role_demo_env)" by (simp add: role_demo_executor_def)
  have "Run role_demo_env q w = role_demo_guard q w" if "may_ask role_demo_request q" for q w using that by (simp add: role_demo_guard_def)
  from multi_role_authority [OF runner this] show "MultiRole_Execute (role_demo_executor\<lparr>mx_runner := Some role_demo_guard\<rparr>) role_demo_request (start react_demo_tracker) = role_demo_run"
    by (simp add: role_demo_run_def)
  show "snd (fst role_demo_run) = None" using role_demo_evaluated by (simp add: role_demo_summary_def Option.is_none_def)
qed

end
