(* ===== verification/Model_Router.thy ===== *)
theory Model_Router
  imports Goal_Types
begin

text \<open>
  The routing of model calls to providers: \<^verbatim>\<open>src/internal/module/agent/model/catalog.go\<close>, \<^verbatim>\<open>model/router.go\<close> and \<^verbatim>\<open>model/provider_error.go\<close>.
  A catalog gives each model its provider, prices, capabilities and fallbacks; the router tries the capable models reachable from the requested one in
  order, goes on only after failures that allow it, and reports the route it took.

  A client of a provider is a function on a world \<open>'w\<close>, from which the error of the context is read. The map of the catalog is an association list.
  Neither catalog nor router is nil, and a client is never nil after construction.
\<close>

section \<open>The catalog\<close>

definition CapabilityChat :: string where "CapabilityChat = ''chat''"
definition CapabilityToolCall :: string where "CapabilityToolCall = ''tool_call''"
definition ErrModelNotFound :: gerr where "ErrModelNotFound = ESentinel ''model not found''"
definition ErrCapabilityMissing :: gerr where "ErrCapabilityMissing = ESentinel ''model capability missing''"

record Pricing =
  py_InputMicrosPerMillionTokens :: int
  py_OutputMicrosPerMillionTokens :: int
  py_Version :: string

record ModelDefinition =
  df_ID :: string
  df_Provider :: string
  df_ContextWindow :: int
  df_MaxOutputTokens :: int
  df_Pricing :: Pricing
  df_Capabilities :: "string list"
  df_Fallbacks :: "string list"

type_synonym model_catalog = "(string \<times> ModelDefinition) list"

definition Supports :: "ModelDefinition \<Rightarrow> string list \<Rightarrow> bool" where
  "Supports d required \<longleftrightarrow> list_all (\<lambda>c. c \<in> set (df_Capabilities d)) required"

definition check_definition :: "(string \<Rightarrow> string) \<Rightarrow> ModelDefinition \<Rightarrow> gerr + ModelDefinition" where
  "check_definition quote d0 =
     (let d = d0\<lparr>df_ID := trim_space (df_ID d0), df_Provider := trim_space (df_Provider d0), df_Pricing := (df_Pricing d0)\<lparr>py_Version := trim_space (py_Version (df_Pricing d0))\<rparr>\<rparr>;
          p = df_Pricing d
      in if df_ID d = [] \<or> df_Provider d = [] then Inl (EMsg ''model id and provider are required'')
         else if df_ContextWindow d \<le> 0 then Inl (EMsg (''model '' @ quote (df_ID d) @ '' context window must be positive''))
         else if df_MaxOutputTokens d < 0 \<or> df_ContextWindow d < df_MaxOutputTokens d then Inl (EMsg (''model '' @ quote (df_ID d) @ '' max output tokens are invalid''))
         else if py_InputMicrosPerMillionTokens p < 0 \<or> py_OutputMicrosPerMillionTokens p < 0 then Inl (EMsg (''model '' @ quote (df_ID d) @ '' pricing cannot be negative''))
         else if (0 < py_InputMicrosPerMillionTokens p \<or> 0 < py_OutputMicrosPerMillionTokens p) \<and> py_Version p = []
         then Inl (EMsg (''model '' @ quote (df_ID d) @ '' priced definition requires a pricing version''))
         else Inr d)"

fun add_definitions :: "(string \<Rightarrow> string) \<Rightarrow> model_catalog \<Rightarrow> ModelDefinition list \<Rightarrow> gerr + model_catalog" where
  "add_definitions quote catalog [] = Inr catalog"
| "add_definitions quote catalog (d0 # ds) = (case check_definition quote d0 of
      Inl err \<Rightarrow> Inl err
    | Inr d \<Rightarrow> if map_of catalog (df_ID d) \<noteq> None then Inl (EMsg (''duplicate model '' @ quote (df_ID d)))
               else add_definitions quote ((df_ID d, d) # catalog) ds)"

text \<open>The code looks at the models in any order, so that of several unknown fallbacks any may be named; here it is the first.\<close>

definition NewCatalog :: "(string \<Rightarrow> string) \<Rightarrow> ModelDefinition list \<Rightarrow> gerr + model_catalog" where
  "NewCatalog quote definitions = bind_res (add_definitions quote [] definitions) (\<lambda>catalog.
     case List.find (\<lambda>(d, fallback). map_of catalog fallback = None) (concat (map (\<lambda>(_, d). map (Pair d) (df_Fallbacks d)) catalog)) of
       Some (d, fallback) \<Rightarrow> Inl (EMsg (''model '' @ quote (df_ID d) @ '' references unknown fallback '' @ quote fallback))
     | None \<Rightarrow> Inr catalog)"

definition Lookup :: "model_catalog \<Rightarrow> string \<Rightarrow> ModelDefinition option" where
  "Lookup catalog i = map_of catalog (trim_space i)"

definition zero_definition :: ModelDefinition where
  "zero_definition = \<lparr>df_ID = [], df_Provider = [], df_ContextWindow = 0, df_MaxOutputTokens = 0,
     df_Pricing = \<lparr>py_InputMicrosPerMillionTokens = 0, py_OutputMicrosPerMillionTokens = 0, py_Version = []\<rparr>, df_Capabilities = [], df_Fallbacks = []\<rparr>"

definition looked_up :: "model_catalog \<Rightarrow> string \<Rightarrow> ModelDefinition" where
  "looked_up catalog i = (case Lookup catalog i of None \<Rightarrow> zero_definition | Some d \<Rightarrow> d)"

text \<open>The breadth-first walk. It ends: an identifier is expanded once, and all that follow come from the catalog.\<close>

definition all_fallbacks :: "model_catalog \<Rightarrow> string set" where
  "all_fallbacks catalog = (\<Union>(_, d)\<in>set catalog. set (df_Fallbacks d))"

lemma looked_up_fallbacks: "set (df_Fallbacks (looked_up catalog i)) \<subseteq> all_fallbacks catalog"
  by (auto simp: looked_up_def Lookup_def all_fallbacks_def zero_definition_def split: option.splits dest!: map_of_SomeD)

function candidate_walk :: "model_catalog \<Rightarrow> string list \<Rightarrow> string list \<Rightarrow> string list \<Rightarrow> ModelDefinition list" where
  "candidate_walk catalog required [] visited = []"
| "candidate_walk catalog required (current # queue) visited =
     (if current \<in> set visited then candidate_walk catalog required queue visited
      else let d = looked_up catalog current; rest = candidate_walk catalog required (queue @ df_Fallbacks d) (current # visited)
           in if Supports d required then d # rest else rest)"
  by pat_completeness auto
termination
proof (relation "measures [\<lambda>(catalog, required, queue, visited). card ((set queue \<union> all_fallbacks catalog) - set visited), \<lambda>(catalog, required, queue, visited). length queue]")
  fix catalog :: model_catalog and required queue visited current
  have fin: "finite (all_fallbacks catalog)" by (auto simp: all_fallbacks_def)
  show "((catalog, required, queue, visited), (catalog, required, current # queue, visited)) \<in> measures [\<lambda>(catalog, required, queue, visited). card ((set queue \<union> all_fallbacks catalog) - set visited), \<lambda>(catalog, required, queue, visited). length queue]"
    if "current \<in> set visited"
  proof -
    have "set (current # queue) \<union> all_fallbacks catalog - set visited = set queue \<union> all_fallbacks catalog - set visited" using that by auto
    then show ?thesis by simp
  qed
  show "((catalog, required, queue @ df_Fallbacks d, current # visited), (catalog, required, current # queue, visited)) \<in> measures [\<lambda>(catalog, required, queue, visited). card ((set queue \<union> all_fallbacks catalog) - set visited), \<lambda>(catalog, required, queue, visited). length queue]"
    if "current \<notin> set visited" "d = looked_up catalog current" for d
  proof -
    have "set (queue @ df_Fallbacks d) \<union> all_fallbacks catalog - set (current # visited) \<subset> set (current # queue) \<union> all_fallbacks catalog - set visited"
      using that looked_up_fallbacks [of catalog current] by auto
    then show ?thesis using psubset_card_mono [of "set (current # queue) \<union> all_fallbacks catalog - set visited"] fin by simp
  qed
qed simp

definition Candidates :: "model_catalog \<Rightarrow> string \<Rightarrow> string list \<Rightarrow> gerr + ModelDefinition list" where
  "Candidates catalog i required =
     (let requested = trim_space i
      in if Lookup catalog requested = None then Inl (ENote ErrModelNotFound ('': '' @ requested))
         else let candidates = candidate_walk catalog required [requested] []
              in if candidates = [] then Inl (ENote ErrCapabilityMissing ('': model '' @ requested @ '' requires ['' @ join_with '' '' required @ '']''))
                 else Inr candidates)"

definition Resolve :: "model_catalog \<Rightarrow> string \<Rightarrow> string list \<Rightarrow> gerr + ModelDefinition" where
  "Resolve catalog i required = bind_res (Candidates catalog i required) (\<lambda>candidates. Inr (hd candidates))"

section \<open>Costs\<close>

definition maxInt64 :: int where "maxInt64 = 2 ^ 63 - 1"

definition conservativeTokenCost :: "int \<Rightarrow> int \<Rightarrow> int" where
  "conservativeTokenCost tokens microsPerMillion =
     (if tokens \<le> 0 \<or> microsPerMillion \<le> 0 then 0
      else if maxInt64 div microsPerMillion < tokens then maxInt64
      else let product = tokens * microsPerMillion in if maxInt64 - 999999 < product then maxInt64 else (product + 999999) div 1000000)"

definition estimateDefinitionCost :: "ModelDefinition \<Rightarrow> TokenUsage \<Rightarrow> CostEstimate" where
  "estimateDefinitionCost d usage =
     \<lparr>ce_Micros = i64 (conservativeTokenCost (tu_InputTokens usage) (py_InputMicrosPerMillionTokens (df_Pricing d))
        + conservativeTokenCost (tu_OutputTokens usage) (py_OutputMicrosPerMillionTokens (df_Pricing d))),
      ce_PricingVersion = py_Version (df_Pricing d)\<rparr>"

definition highest_estimate :: "TokenUsage \<Rightarrow> ModelDefinition list \<Rightarrow> CostEstimate \<Rightarrow> CostEstimate" where
  "highest_estimate usage = fold (\<lambda>d highest. let est = estimateDefinitionCost d usage
     in if ce_Micros highest < ce_Micros est \<or> ce_PricingVersion highest = [] then est else highest)"

definition Router_EstimateCost :: "model_catalog \<Rightarrow> string \<Rightarrow> TokenUsage \<Rightarrow> gerr + CostEstimate" where
  "Router_EstimateCost catalog model usage = bind_res (Candidates catalog model [CapabilityChat]) (\<lambda>candidates.
     Inr (highest_estimate usage candidates \<lparr>ce_Micros = 0, ce_PricingVersion = []\<rparr>))"

section \<open>Failures\<close>

definition ModelProviderFailureUnavailable :: string where "ModelProviderFailureUnavailable = ''provider_unavailable''"
definition ModelProviderFailureRateLimited :: string where "ModelProviderFailureRateLimited = ''provider_rate_limited''"
definition ModelProviderFailureTimeout :: string where "ModelProviderFailureTimeout = ''provider_timeout''"
definition ModelProviderFailureInvalidInput :: string where "ModelProviderFailureInvalidInput = ''provider_invalid_request''"
definition ModelProviderFailureUnauthorized :: string where "ModelProviderFailureUnauthorized = ''provider_unauthorized''"
definition ModelProviderFailureCanceled :: string where "ModelProviderFailureCanceled = ''provider_canceled''"
definition ModelProviderFailureUnclassified :: string where "ModelProviderFailureUnclassified = ''provider_unclassified''"
definition ModelRouteSelected :: string where "ModelRouteSelected = ''selected''"

lemmas failure_codes = ModelProviderFailureUnavailable_def ModelProviderFailureRateLimited_def ModelProviderFailureTimeout_def ModelProviderFailureInvalidInput_def
  ModelProviderFailureUnauthorized_def ModelProviderFailureCanceled_def ModelProviderFailureUnclassified_def
lemmas route_decisions = ModelRouteSelected_def ModelRouteFallbackAllowed_def ModelRouteFallbackDenied_def ModelRouteFallbackExhausted_def

definition ErrProviderClientNotFound :: gerr where "ErrProviderClientNotFound = ESentinel ''provider client not found''"

fun as_provider :: "gerr \<Rightarrow> (string \<times> bool) option" where
  "as_provider (EProvider code allowed c) = Some (code, allowed)"
| "as_provider _ = None"

fun as_api :: "gerr \<Rightarrow> int option" where
  "as_api (EAPI status s) = Some status"
| "as_api _ = None"

definition NewProviderCallError :: "string \<Rightarrow> bool \<Rightarrow> gerr option \<Rightarrow> gerr" where
  "NewProviderCallError code fallbackAllowed cause = EProvider code fallbackAllowed cause"

definition classify_status :: "int \<Rightarrow> (string \<times> bool) option" where
  "classify_status status =
     (if status = 401 \<or> status = 403 then Some (ModelProviderFailureUnauthorized, False)
      else if status = 408 then Some (ModelProviderFailureTimeout, True)
      else if status = 429 then Some (ModelProviderFailureRateLimited, True)
      else if 500 \<le> status then Some (ModelProviderFailureUnavailable, True)
      else if 400 \<le> status then Some (ModelProviderFailureInvalidInput, False)
      else None)"

definition classifyProviderFailure :: "gerr \<Rightarrow> string \<times> bool" where
  "classifyProviderFailure err = (case errors_As as_provider err of
      Some (code, allowed) \<Rightarrow> (if code = [] then ModelProviderFailureUnclassified else code, allowed)
    | None \<Rightarrow>
        if errors_Is err ECanceled then (ModelProviderFailureCanceled, False)
        else if errors_Is err EDeadline then (ModelProviderFailureTimeout, False)
        else (case Option.bind (errors_As as_api err) classify_status of
          Some result \<Rightarrow> result
        | None \<Rightarrow> (case errors_As as_net err of
            Some (timeout, _) \<Rightarrow> (if timeout then ModelProviderFailureTimeout else ModelProviderFailureUnavailable, True)
          | None \<Rightarrow>
              if errors_Is err ErrProviderClientNotFound then (ModelProviderFailureUnavailable, True) else (ModelProviderFailureUnclassified, True))))"

section \<open>The router\<close>

record ProviderAttempt =
  pa_Model :: string
  pa_Provider :: string
  pa_FailureCode :: string
  pa_Decision :: string
  pa_Err :: gerr

record RouteError =
  re_Requested :: string
  re_Attempts :: "ProviderAttempt list"
  re_Trace :: ModelRoutingTrace

text \<open>The errors of the router: a route that failed, and those before or between attempts.\<close>

datatype route_error = RouteFailed RouteError | RouteStopped gerr

definition RouteError_Unwrap :: "RouteError \<Rightarrow> gerr option" where
  "RouteError_Unwrap e = (if re_Attempts e = [] then None else Some (pa_Err (last (re_Attempts e))))"

definition RouteError_Error :: "(string \<Rightarrow> string) \<Rightarrow> RouteError \<Rightarrow> string" where
  "RouteError_Error quote e = ''model route '' @ quote (re_Requested e) @ '' terminated after '' @ show_nat (length (re_Attempts e)) @ '' attempt(s)''"

type_synonym 'w model_client = "ModelRequest \<Rightarrow> 'w \<Rightarrow> (ModelResponse \<times> gerr option) \<times> 'w"

record 'w ProviderRouter =
  ru_catalog :: model_catalog
  ru_providers :: "(string \<times> 'w model_client) list"

text \<open>The clients by trimmed name. The map is read in any order, so that of two names that differ in white space either client may stay.\<close>

fun clone_providers :: "(string \<times> 'w model_client) list \<Rightarrow> (string \<times> 'w model_client option) list \<Rightarrow> gerr + (string \<times> 'w model_client) list" where
  "clone_providers cloned [] = Inr cloned"
| "clone_providers cloned ((provider, client) # rest) = (case client of
      None \<Rightarrow> Inl (EMsg ''provider name and client are required'')
    | Some f \<Rightarrow> if trim_space provider = [] then Inl (EMsg ''provider name and client are required'') else clone_providers ((trim_space provider, f) # cloned) rest)"

definition NewProviderRouter :: "model_catalog option \<Rightarrow> (string \<times> 'w model_client option) list \<Rightarrow> gerr + 'w ProviderRouter" where
  "NewProviderRouter catalog providers = (case catalog of
      None \<Rightarrow> Inl (EMsg ''model catalog is required'')
    | Some c \<Rightarrow> bind_res (clone_providers [] providers) (\<lambda>cloned. Inr \<lparr>ru_catalog = c, ru_providers = cloned\<rparr>))"

definition recordProviderFailure :: "ModelRoutingTrace \<Rightarrow> ProviderAttempt list \<Rightarrow> ModelDefinition \<Rightarrow> gerr \<Rightarrow> bool \<Rightarrow> bool \<times> ModelRoutingTrace \<times> ProviderAttempt list" where
  "recordProviderFailure trace attempts candidate callErr hasFallback =
     (let (code, fallbackAllowed) = classifyProviderFailure callErr;
          (decision, terminal) = (if fallbackAllowed \<and> hasFallback then (ModelRouteFallbackAllowed, False)
            else if fallbackAllowed then (ModelRouteFallbackExhausted, True) else (ModelRouteFallbackDenied, True));
          attempts1 = attempts @ [\<lparr>pa_Model = df_ID candidate, pa_Provider = df_Provider candidate, pa_FailureCode = code, pa_Decision = decision, pa_Err = callErr\<rparr>];
          trace1 = trace\<lparr>rt_Attempts := rt_Attempts trace @ [\<lparr>ra_Model = df_ID candidate, ra_Provider = df_Provider candidate, ra_FailureCode = code, ra_Decision = decision\<rparr>]\<rparr>
      in (terminal, if terminal then trace1\<lparr>rt_TerminalDecision := decision\<rparr> else trace1, attempts1))"

definition traced_response :: "ModelRoutingTrace \<Rightarrow> ModelResponse" where
  "traced_response trace = \<lparr>mp_shared = False, mp_Message = \<lparr>ms_Role = [], ms_Content = [], ms_Name = [], ms_ToolCallID = [], ms_Actions = []\<rparr>, mp_Actions = [],
     mp_Usage = zero_usage, mp_Model = [], mp_Provider = [], mp_ModelRouting = Some trace\<rparr>"

definition failedRouteResponse :: "string \<Rightarrow> ModelRoutingTrace \<Rightarrow> ProviderAttempt list \<Rightarrow> ModelResponse \<times> route_error option" where
  "failedRouteResponse requested trace attempts = (traced_response trace, Some (RouteFailed \<lparr>re_Requested = requested, re_Attempts = attempts, re_Trace = trace\<rparr>))"

definition routed_request :: "ModelRequest \<Rightarrow> ModelDefinition \<Rightarrow> ModelRequest" where
  "routed_request request candidate = request\<lparr>mr_Model := df_ID candidate, mr_MaxOutputTokens :=
     (if 0 < df_MaxOutputTokens candidate \<and> (mr_MaxOutputTokens request \<le> 0 \<or> df_MaxOutputTokens candidate < mr_MaxOutputTokens request)
      then df_MaxOutputTokens candidate else mr_MaxOutputTokens request)\<rparr>"

definition selected_response :: "ModelRoutingTrace \<Rightarrow> ModelDefinition \<Rightarrow> ModelResponse \<Rightarrow> ModelResponse" where
  "selected_response trace candidate response =
     (let usage = mp_Usage response; est = estimateDefinitionCost candidate usage
      in response\<lparr>mp_Model := (if trim_space (mp_Model response) = [] then df_ID candidate else mp_Model response), mp_Provider := df_Provider candidate,
           mp_ModelRouting := Some (trace\<lparr>rt_SelectedModel := df_ID candidate, rt_SelectedProvider := df_Provider candidate, rt_TerminalDecision := ModelRouteSelected\<rparr>),
           mp_Usage := (if tu_EstimatedCostMicros usage = 0
             then usage\<lparr>tu_EstimatedCostMicros := ce_Micros est, tu_CostEstimated := tu_Estimated usage, tu_PricingVersion := ce_PricingVersion est\<rparr> else usage)\<rparr>)"

text \<open>A call of a candidate: a candidate without a client fails like a call.\<close>

definition call_candidate :: "'w ProviderRouter \<Rightarrow> ModelRequest \<Rightarrow> ModelDefinition \<Rightarrow> 'w \<Rightarrow> (gerr + ModelResponse) \<times> 'w" where
  "call_candidate router request candidate w = (case map_of (ru_providers router) (df_Provider candidate) of
      None \<Rightarrow> (Inl (ENote ErrProviderClientNotFound ('': '' @ df_Provider candidate)), w)
    | Some client \<Rightarrow> (case client (routed_request request candidate) w of ((response, callErr), w1) \<Rightarrow> (case callErr of Some err \<Rightarrow> Inl err | None \<Rightarrow> Inr response, w1)))"

fun route_loop :: "'w ProviderRouter \<Rightarrow> ('w \<Rightarrow> gerr option) \<Rightarrow> ModelRequest \<Rightarrow> ModelDefinition list \<Rightarrow> ModelRoutingTrace \<Rightarrow> ProviderAttempt list \<Rightarrow> 'w
    \<Rightarrow> (ModelResponse \<times> route_error option) \<times> 'w" where
  "route_loop router ctx request [] trace attempts w = (failedRouteResponse (mr_Model request) trace attempts, w)"
| "route_loop router ctx request (candidate # rest) trace attempts w = (case ctx w of
      Some err \<Rightarrow> ((traced_response trace, Some (RouteStopped err)), w)
    | None \<Rightarrow> (case call_candidate router request candidate w of
        (Inr response, w1) \<Rightarrow> ((selected_response trace candidate response, None), w1)
      | (Inl callErr, w1) \<Rightarrow> (case recordProviderFailure trace attempts candidate callErr (rest \<noteq> []) of (terminal, trace1, attempts1) \<Rightarrow>
          if terminal then (failedRouteResponse (mr_Model request) trace1 attempts1, w1) else route_loop router ctx request rest trace1 attempts1 w1)))"

definition Router_Complete :: "'w ProviderRouter \<Rightarrow> ('w \<Rightarrow> gerr option) \<Rightarrow> ModelRequest \<Rightarrow> 'w \<Rightarrow> (ModelResponse \<times> route_error option) \<times> 'w" where
  "Router_Complete router ctx request w =
     (let required = CapabilityChat # (if mr_Tools request \<noteq> [] then [CapabilityToolCall] else []);
          trace = \<lparr>rt_RequestedModel = trim_space (mr_Model request), rt_SelectedModel = [], rt_SelectedProvider = [], rt_Attempts = [], rt_TerminalDecision = []\<rparr>
      in case Candidates (ru_catalog router) (mr_Model request) required of
           Inl err \<Rightarrow> (((traced_response trace)\<lparr>mp_ModelRouting := None\<rparr>, Some (RouteStopped err)), w)
         | Inr candidates \<Rightarrow> route_loop router ctx request candidates trace [] w)"

end
