(* ===== verification/Router_Properties.thy ===== *)
theory Router_Properties
  imports Model_Router
begin

text \<open>
  The properties of the router: the trace of a failed route is one that the runner of goals accepts, a response comes from a model reachable through the
  declared fallbacks, and the cost reserved for a call covers every fallback.
\<close>

section \<open>The models of a catalog\<close>

definition valid_definition :: "ModelDefinition \<Rightarrow> bool" where
  "valid_definition d \<longleftrightarrow> trim_space (df_ID d) = df_ID d \<and> df_ID d \<noteq> [] \<and> trim_space (df_Provider d) = df_Provider d \<and> df_Provider d \<noteq> []
     \<and> 0 \<le> py_InputMicrosPerMillionTokens (df_Pricing d) \<and> 0 \<le> py_OutputMicrosPerMillionTokens (df_Pricing d)
     \<and> (py_Version (df_Pricing d) = [] \<longrightarrow> py_InputMicrosPerMillionTokens (df_Pricing d) = 0 \<and> py_OutputMicrosPerMillionTokens (df_Pricing d) = 0)"

definition same_prices :: "ModelDefinition \<Rightarrow> ModelDefinition \<Rightarrow> bool" where
  "same_prices d d0 \<longleftrightarrow> py_InputMicrosPerMillionTokens (df_Pricing d) = py_InputMicrosPerMillionTokens (df_Pricing d0)
     \<and> py_OutputMicrosPerMillionTokens (df_Pricing d) = py_OutputMicrosPerMillionTokens (df_Pricing d0)"

lemma check_definition_result: "check_definition quote d0 = Inr d \<Longrightarrow> valid_definition d \<and> same_prices d d0"
  by (auto simp: check_definition_def valid_definition_def same_prices_def Let_def split: if_splits)

lemma add_definitions_result:
  "add_definitions quote catalog ds = Inr out \<Longrightarrow> map_of out i = Some d \<Longrightarrow> map_of catalog i = Some d \<or> (valid_definition d \<and> df_ID d = i \<and> (\<exists>d0\<in>set ds. same_prices d d0))"
proof (induction ds arbitrary: catalog)
  case (Cons d0 ds)
  then obtain d1 where d1: "check_definition quote d0 = Inr d1" by (auto split: sum.splits)
  have rest: "add_definitions quote ((df_ID d1, d1) # catalog) ds = Inr out" using Cons.prems(1) d1 by (auto split: if_splits)
  from Cons.IH [OF rest Cons.prems(2)] check_definition_result [OF d1] show ?case by (auto split: if_splits)
qed simp

lemma catalog_definition:
  assumes "NewCatalog quote definitions = Inr catalog" "Lookup catalog i = Some d"
  shows "valid_definition d" "\<exists>d0\<in>set definitions. same_prices d d0" "df_ID d = trim_space i"
proof -
  have "add_definitions quote [] definitions = Inr catalog" using assms(1) by (auto simp: NewCatalog_def bind_res_def split: sum.splits option.splits)
  from add_definitions_result [OF this] assms(2)
  show "valid_definition d" "\<exists>d0\<in>set definitions. same_prices d d0" "df_ID d = trim_space i" by (auto simp: Lookup_def)
qed

lemma fallback_known:
  assumes "NewCatalog quote definitions = Inr catalog" "f \<in> all_fallbacks catalog"
  shows "trim_space f = f"
proof -
  have add: "add_definitions quote [] definitions = Inr catalog"
    and checked: "List.find (\<lambda>(d, fallback). map_of catalog fallback = None) (concat (map (\<lambda>(_, d). map (Pair d) (df_Fallbacks d)) catalog)) = None"
    using assms(1) unfolding NewCatalog_def bind_res_def
    by (cases "add_definitions quote [] definitions"; simp split: option.splits prod.splits)+
  obtain d where "map_of catalog f = Some d" using checked assms(2) by (fastforce simp: find_None_iff all_fallbacks_def)
  from add_definitions_result [OF add this] show ?thesis by (auto simp: valid_definition_def)
qed

section \<open>Candidates\<close>

declare candidate_walk.simps [simp del]

lemma candidate_walk_filter: "candidate_walk catalog required queue visited = filter (\<lambda>d. Supports d required) (candidate_walk catalog [] queue visited)"
proof (induction catalog required queue visited rule: candidate_walk.induct)
  case (2 catalog required current queue visited)
  then show ?case by (cases "current \<in> set visited") (simp_all add: candidate_walk.simps Let_def Supports_def)
qed (simp add: candidate_walk.simps)

text \<open>The models reachable from one through the fallbacks.\<close>

definition fallback_of :: "model_catalog \<Rightarrow> (string \<times> string) set" where
  "fallback_of catalog = {(i, f). f \<in> set (df_Fallbacks (looked_up catalog i))}"

lemma candidate_walk_reachable:
  "\<forall>i\<in>set queue. (start, i) \<in> (fallback_of catalog)\<^sup>* \<Longrightarrow> d \<in> set (candidate_walk catalog required queue visited)
    \<Longrightarrow> \<exists>i. (start, i) \<in> (fallback_of catalog)\<^sup>* \<and> d = looked_up catalog i \<and> Supports d required"
proof (induction catalog required queue visited rule: candidate_walk.induct)
  case (2 catalog required current queue visited)
  show ?case
  proof (cases "current \<in> set visited")
    case True
    then show ?thesis using 2 by (simp add: candidate_walk.simps)
  next
    case False
    let ?d = "looked_up catalog current"
    have "(start, f) \<in> (fallback_of catalog)\<^sup>*" if "f \<in> set (df_Fallbacks ?d)" for f
      using that 2(3) by (auto simp: fallback_of_def intro: rtrancl_into_rtrancl)
    then have "\<forall>i\<in>set (queue @ df_Fallbacks ?d). (start, i) \<in> (fallback_of catalog)\<^sup>*" using 2(3) by auto
    note IH = 2(2) [OF False refl this]
    show ?thesis using 2(3,4) False IH by (auto simp: candidate_walk.simps Let_def split: if_splits)
  qed
qed (simp add: candidate_walk.simps)

lemma Candidates_result:
  assumes "NewCatalog quote definitions = Inr catalog" "Candidates catalog i (CapabilityChat # more_required) = Inr candidates"
  shows "candidates \<noteq> []" "trim_space i \<noteq> []" "d \<in> set candidates \<Longrightarrow> valid_definition d \<and> (\<exists>d0\<in>set definitions. same_prices d d0) \<and> Supports d (CapabilityChat # more_required)
    \<and> (trim_space i, df_ID d) \<in> (fallback_of catalog)\<^sup>*"
proof -
  have c: "candidates = candidate_walk catalog (CapabilityChat # more_required) [trim_space i] []" "candidates \<noteq> []" "Lookup catalog (trim_space i) \<noteq> None"
    using assms(2) by (auto simp: Candidates_def Let_def split: if_splits)
  then show "candidates \<noteq> []" by simp
  show "trim_space i \<noteq> []"
    using c(3) catalog_definition(1,3) [OF assms(1)] by (force simp: valid_definition_def)
  show "valid_definition d \<and> (\<exists>d0\<in>set definitions. same_prices d d0) \<and> Supports d (CapabilityChat # more_required) \<and> (trim_space i, df_ID d) \<in> (fallback_of catalog)\<^sup>*"
    if member: "d \<in> set candidates"
  proof -
    obtain k where k: "(trim_space i, k) \<in> (fallback_of catalog)\<^sup>*" "d = looked_up catalog k" "Supports d (CapabilityChat # more_required)"
      using candidate_walk_reachable [OF _ member [unfolded c(1)], of "trim_space i"] by auto
    then have d: "Lookup catalog k = Some d" by (auto simp: looked_up_def Supports_def zero_definition_def split: option.splits)
    have "k = trim_space i \<or> k \<in> all_fallbacks catalog" using k(1) looked_up_fallbacks by (cases rule: rtranclE) (auto simp: fallback_of_def)
    then have "trim_space k = k" using fallback_known [OF assms(1)] by auto
    then show ?thesis using catalog_definition [OF assms(1) d] k by simp
  qed
qed

section \<open>Failed routes\<close>

definition attempt_ok :: "ModelRoutingAttempt \<Rightarrow> bool" where
  "attempt_ok a \<longleftrightarrow> trim_space (ra_Model a) \<noteq> [] \<and> trim_space (ra_Provider a) \<noteq> [] \<and> ra_FailureCode a \<noteq> [] \<and> ra_Decision a \<noteq> []"

lemma check_attempts_ok:
  "\<forall>a\<in>set as. attempt_ok a \<Longrightarrow> \<forall>a\<in>set (butlast as). ra_Decision a = ModelRouteFallbackAllowed \<Longrightarrow> check_attempts index as = None"
proof (induction as arbitrary: index)
  case (Cons a as)
  then show ?case by (cases as) (auto simp: attempt_ok_def)
qed simp

lemma classified_code: "fst (classifyProviderFailure err) \<noteq> []"
  by (auto simp: classifyProviderFailure_def classify_status_def failure_codes bind_eq_Some_conv split: option.splits if_splits)

text \<open>A trace on its way: every attempt so far failed and allowed the next one.\<close>

definition open_trace :: "ModelRoutingTrace \<Rightarrow> bool" where
  "open_trace t \<longleftrightarrow> trim_space (rt_RequestedModel t) \<noteq> [] \<and> rt_SelectedModel t = [] \<and> rt_SelectedProvider t = []
     \<and> (\<forall>a\<in>set (rt_Attempts t). attempt_ok a \<and> ra_Decision a = ModelRouteFallbackAllowed)"

lemma recorded_failure:
  assumes "recordProviderFailure trace attempts candidate err hasFallback = (terminal, trace1, attempts1)" "open_trace trace" "valid_definition candidate"
  shows "if terminal then validateBlockedModelRoute trace1 = None else open_trace trace1" "\<not> hasFallback \<Longrightarrow> terminal"
    "rt_Attempts trace1 = rt_Attempts trace @ [last (rt_Attempts trace1)]" "ra_Model (last (rt_Attempts trace1)) = df_ID candidate"
proof -
  obtain code allowed where c: "classifyProviderFailure err = (code, allowed)" "code \<noteq> []" using classified_code [of err] by (cases "classifyProviderFailure err") auto
  define decision where "decision = (if allowed \<and> hasFallback then ModelRouteFallbackAllowed else if allowed then ModelRouteFallbackExhausted else ModelRouteFallbackDenied)"
  define a where "a = \<lparr>ra_Model = df_ID candidate, ra_Provider = df_Provider candidate, ra_FailureCode = code, ra_Decision = decision\<rparr>"
  have r: "terminal = (\<not> (allowed \<and> hasFallback))" "trace1 = (if terminal then trace\<lparr>rt_Attempts := rt_Attempts trace @ [a], rt_TerminalDecision := decision\<rparr> else trace\<lparr>rt_Attempts := rt_Attempts trace @ [a]\<rparr>)"
    using assms(1) c(1) by (auto simp: recordProviderFailure_def a_def decision_def Let_def split: if_splits)
  have a: "attempt_ok a" using assms(3) c(2) by (simp add: attempt_ok_def a_def valid_definition_def decision_def route_decisions)
  show "if terminal then validateBlockedModelRoute trace1 = None else open_trace trace1"
  proof (cases terminal)
    case True
    have "check_attempts 0 (rt_Attempts trace @ [a]) = None" by (rule check_attempts_ok) (use a assms(2) in \<open>auto simp: open_trace_def\<close>)
    moreover have "decision = ModelRouteFallbackExhausted \<or> decision = ModelRouteFallbackDenied" using True r(1) by (auto simp: decision_def)
    ultimately show ?thesis using True r(2) assms(2) by (auto simp: validateBlockedModelRoute_def open_trace_def a_def)
  next
    case False
    then have "decision = ModelRouteFallbackAllowed" using r(1) by (auto simp: decision_def)
    then show ?thesis using False r(2) a assms(2) by (auto simp: open_trace_def a_def)
  qed
  show "\<not> hasFallback \<Longrightarrow> terminal" using r(1) by simp
  show "rt_Attempts trace1 = rt_Attempts trace @ [last (rt_Attempts trace1)]" "ra_Model (last (rt_Attempts trace1)) = df_ID candidate" using r(2) by (auto simp: a_def)
qed

lemma route_loop_failed:
  "route_loop router ctx request candidates trace attempts w = ((response, Some (RouteFailed e)), w') \<Longrightarrow> open_trace trace \<Longrightarrow> candidates \<noteq> [] \<Longrightarrow> \<forall>d\<in>set candidates. valid_definition d
    \<Longrightarrow> mp_ModelRouting response = Some (re_Trace e) \<and> validateBlockedModelRoute (re_Trace e) = None
      \<and> (\<exists>n. map ra_Model (rt_Attempts (re_Trace e)) = map ra_Model (rt_Attempts trace) @ map df_ID (take n candidates))"
proof (induction candidates arbitrary: trace attempts w)
  case (Cons candidate rest)
  obtain res w1 where r: "call_candidate router request candidate w = (res, w1)" by (cases "call_candidate router request candidate w")
  have c: "ctx w = None" using Cons.prems(1) by (cases "ctx w") simp_all
  obtain err where call: "call_candidate router request candidate w = (Inl err, w1)" using Cons.prems(1) c r by (cases res) simp_all
  obtain terminal trace1 attempts1 where rec: "recordProviderFailure trace attempts candidate err (rest \<noteq> []) = (terminal, trace1, attempts1)"
    by (cases "recordProviderFailure trace attempts candidate err (rest \<noteq> [])")
  have step: "route_loop router ctx request (candidate # rest) trace attempts w
      = (if terminal then (failedRouteResponse (mr_Model request) trace1 attempts1, w1) else route_loop router ctx request rest trace1 attempts1 w1)"
    using c call rec by simp
  have valid: "valid_definition candidate" using Cons.prems(4) by simp
  note f = recorded_failure [OF rec Cons.prems(2) valid]
  have "map ra_Model (rt_Attempts trace1) = map ra_Model (rt_Attempts trace @ [last (rt_Attempts trace1)])" by (rule arg_cong [OF f(3)])
  then have grows: "map ra_Model (rt_Attempts trace1) = map ra_Model (rt_Attempts trace) @ [df_ID candidate]" by (simp add: f(4))
  show ?case
  proof (cases terminal)
    case True
    then have "response = traced_response trace1" "re_Trace e = trace1" using Cons.prems(1) unfolding step by (auto simp: failedRouteResponse_def)
    moreover have "validateBlockedModelRoute trace1 = None" using f(1) True by simp
    moreover have "\<exists>n. map ra_Model (rt_Attempts trace1) = map ra_Model (rt_Attempts trace) @ map df_ID (take n (candidate # rest))"
      by (rule exI [of _ 1]) (simp add: grows)
    ultimately show ?thesis by (simp add: traced_response_def)
  next
    case False
    then have "rest \<noteq> []" "open_trace trace1" using f(1,2) by auto
    moreover have "route_loop router ctx request rest trace1 attempts1 w1 = ((response, Some (RouteFailed e)), w')" using Cons.prems(1) False unfolding step by simp
    moreover have "\<forall>d\<in>set rest. valid_definition d" using Cons.prems(4) by simp
    ultimately have IH: "mp_ModelRouting response = Some (re_Trace e) \<and> validateBlockedModelRoute (re_Trace e) = None
        \<and> (\<exists>n. map ra_Model (rt_Attempts (re_Trace e)) = map ra_Model (rt_Attempts trace1) @ map df_ID (take n rest))"
      using Cons.IH [of trace1 attempts1 w1] by blast
    then obtain n where "map ra_Model (rt_Attempts (re_Trace e)) = map ra_Model (rt_Attempts trace1) @ map df_ID (take n rest)" by blast
    then have "map ra_Model (rt_Attempts (re_Trace e)) = map ra_Model (rt_Attempts trace) @ map df_ID (take (Suc n) (candidate # rest))" using grows by simp
    then show ?thesis using IH by blast
  qed
qed simp

text \<open>
  C24. The router and the runner of goals agree on blocked routes: when a route fails, the trace in the response is one that the runner accepts as evidence
  of a block, so that a goal over the router never ends with an invalid trace; and its attempts are those of the first candidates, in order.
\<close>
theorem blocked_routes_are_valid:
  assumes "NewCatalog quote definitions = Inr (ru_catalog router)" and "Router_Complete router ctx request w = ((response, Some (RouteFailed e)), w')"
  shows "mp_ModelRouting response = Some (re_Trace e) \<and> validateBlockedModelRoute (re_Trace e) = None
    \<and> (\<exists>candidates n. Candidates (ru_catalog router) (mr_Model request) (CapabilityChat # (if mr_Tools request \<noteq> [] then [CapabilityToolCall] else [])) = Inr candidates
         \<and> map ra_Model (rt_Attempts (re_Trace e)) = map df_ID (take n candidates))"
proof -
  let ?required = "CapabilityChat # (if mr_Tools request \<noteq> [] then [CapabilityToolCall] else [])"
  let ?trace = "\<lparr>rt_RequestedModel = trim_space (mr_Model request), rt_SelectedModel = [], rt_SelectedProvider = [], rt_Attempts = [], rt_TerminalDecision = []\<rparr>"
  obtain candidates where c: "Candidates (ru_catalog router) (mr_Model request) ?required = Inr candidates"
      "route_loop router ctx request candidates ?trace [] w = ((response, Some (RouteFailed e)), w')"
    using assms(2) by (auto simp: Router_Complete_def Let_def split: sum.splits)
  note known = Candidates_result [OF assms(1) c(1)]
  have "open_trace ?trace" using known(2) by (simp add: open_trace_def)
  from route_loop_failed [OF c(2) this known(1)] known(3) c(1) show ?thesis by auto
qed

definition routed_catalog :: "ModelDefinition list" where
  "routed_catalog =
     [\<lparr>df_ID = ''small'', df_Provider = ''house'', df_ContextWindow = 8000, df_MaxOutputTokens = 1000,
        df_Pricing = \<lparr>py_InputMicrosPerMillionTokens = 100000, py_OutputMicrosPerMillionTokens = 200000, py_Version = ''v1''\<rparr>, df_Capabilities = [CapabilityChat], df_Fallbacks = [''large'']\<rparr>,
      \<lparr>df_ID = ''large'', df_Provider = ''away'', df_ContextWindow = 32000, df_MaxOutputTokens = 0,
        df_Pricing = \<lparr>py_InputMicrosPerMillionTokens = 3000000, py_OutputMicrosPerMillionTokens = 6000000, py_Version = ''v2''\<rparr>, df_Capabilities = [CapabilityChat, CapabilityToolCall], df_Fallbacks = [''small'']\<rparr>]"

text \<open>The small model is out of its rate limit; the large one answers with its usage, or refuses the request.\<close>

definition routed_response :: "ModelResponse" where
  "routed_response = (traced_response \<lparr>rt_RequestedModel = [], rt_SelectedModel = [], rt_SelectedProvider = [], rt_Attempts = [], rt_TerminalDecision = []\<rparr>)
     \<lparr>mp_ModelRouting := None, mp_Usage := zero_usage\<lparr>tu_InputTokens := 900, tu_OutputTokens := 100\<rparr>\<rparr>"

definition routed_clients :: "gerr option \<Rightarrow> (string \<times> nat model_client) list" where
  "routed_clients refusal = [(''house'', \<lambda>request w. ((routed_response, Some (EAPI 429 ''slow down'')), w + 1)), (''away'', \<lambda>request w. ((routed_response, refusal), w + 1))]"

definition routed_router :: "gerr option \<Rightarrow> nat ProviderRouter" where
  "routed_router refusal = \<lparr>ru_catalog = rev (map (\<lambda>d. (df_ID d, d)) routed_catalog), ru_providers = routed_clients refusal\<rparr>"

definition routed_question :: ModelRequest where
  "routed_question = \<lparr>mr_Context = \<lparr>rc_RunID = ''run'', rc_ParentRunID = [], rc_RoleID = [], rc_StrategyPlanDigest = [], rc_WorkflowID = [], rc_UserID = 0, rc_Mode = [], rc_AgentProfileID = [],
       rc_AgentProfileVersion = [], rc_PromptTemplateID = [], rc_PromptTemplateVersion = [], rc_StartedAt = 0, rc_Budget = zero_budget\<rparr>,
     mr_StepIndex = 0, mr_Model = ''small'', mr_Messages = [], mr_Tools = [], mr_ToolChoice = [], mr_MaxOutputTokens = 500\<rparr>"

lemma routed_catalog_new: "NewCatalog id routed_catalog = Inr (rev (map (\<lambda>d. (df_ID d, d)) routed_catalog))"
  by code_simp

definition routed_refused :: "(ModelResponse \<times> route_error option) \<times> nat" where
  "routed_refused = Router_Complete (routed_router (Some (EAPI 400 ''too long''))) (\<lambda>_. None) routed_question 0"

definition routed_summary :: "(string \<times> string \<times> string) list option" where
  "routed_summary = (case routed_refused of
      ((response, Some (RouteFailed e)), w) \<Rightarrow> Some (map (\<lambda>a. (ra_Model a, ra_FailureCode a, ra_Decision a)) (rt_Attempts (re_Trace e)))
    | _ \<Rightarrow> None)"

lemma routed_summary_value:
  "routed_summary = Some [(''small'', ModelProviderFailureRateLimited, ModelRouteFallbackAllowed), (''large'', ModelProviderFailureInvalidInput, ModelRouteFallbackDenied)]"
  by code_simp

lemma routed_refused_shape:
  obtains response e w' where "Router_Complete (routed_router (Some (EAPI 400 ''too long''))) (\<lambda>_. None) routed_question 0 = ((response, Some (RouteFailed e)), w')"
    "map ra_Model (rt_Attempts (re_Trace e)) = [''small'', ''large'']"
  using routed_summary_value unfolding routed_summary_def routed_refused_def by (auto split: prod.splits option.splits route_error.splits)

theorem blocked_routes_are_valid_witness:
  "\<exists>response e w'. Router_Complete (routed_router (Some (EAPI 400 ''too long''))) (\<lambda>_. None) routed_question 0 = ((response, Some (RouteFailed e)), w')
     \<and> mp_ModelRouting response = Some (re_Trace e) \<and> validateBlockedModelRoute (re_Trace e) = None \<and> map ra_Model (rt_Attempts (re_Trace e)) = [''small'', ''large'']"
proof -
  obtain response e w' where run: "Router_Complete (routed_router (Some (EAPI 400 ''too long''))) (\<lambda>_. None) routed_question 0 = ((response, Some (RouteFailed e)), w')"
    and models: "map ra_Model (rt_Attempts (re_Trace e)) = [''small'', ''large'']"
    by (rule routed_refused_shape)
  have "NewCatalog id routed_catalog = Inr (ru_catalog (routed_router (Some (EAPI 400 ''too long''))))" using routed_catalog_new by (simp add: routed_router_def)
  note v = conjunct1 [OF blocked_routes_are_valid [OF this run]] conjunct1 [OF conjunct2 [OF blocked_routes_are_valid [OF this run]]]
  show ?thesis by (rule exI [of _ response], rule exI [of _ e], rule exI [of _ w'], intro conjI run v models)
qed

section \<open>Costs\<close>

lemma cost_of_small:
  assumes "tokens \<le> 2 ^ 31" "p \<le> 2 ^ 31"
  shows "conservativeTokenCost tokens p = (if tokens \<le> 0 \<or> p \<le> 0 then 0 else (tokens * p + 999999) div 1000000)"
proof (cases "tokens \<le> 0 \<or> p \<le> 0")
  case False
  then have small: "tokens * p \<le> 2 ^ 31 * 2 ^ 31" using assms by (intro mult_mono) auto
  have "tokens * p div p \<le> maxInt64 div p" using False small by (intro zdiv_mono1) (auto simp: maxInt64_def)
  then have "\<not> maxInt64 div p < tokens" using False by simp
  then show ?thesis using False small by (auto simp: conservativeTokenCost_def Let_def maxInt64_def)
qed (auto simp: conservativeTokenCost_def)

lemma cost_mono:
  assumes "n \<le> k" "k \<le> 2 ^ 31" "p \<le> 2 ^ 31"
  shows "conservativeTokenCost n p \<le> conservativeTokenCost k p" "0 \<le> conservativeTokenCost n p" "conservativeTokenCost k p \<le> 2 ^ 43"
proof -
  have n: "n \<le> 2 ^ 31" using assms(1,2) by simp
  have pos: "0 \<le> conservativeTokenCost i p" if "i \<le> 2 ^ 31" for i
  proof (cases "i \<le> 0 \<or> p \<le> 0")
    case False
    then have "0 \<le> i * p" by simp
    then show ?thesis using False by (simp add: cost_of_small [OF that assms(3)] pos_imp_zdiv_nonneg_iff)
  qed (simp add: cost_of_small [OF that assms(3)])
  show "0 \<le> conservativeTokenCost n p" by (rule pos [OF n])
  show "conservativeTokenCost n p \<le> conservativeTokenCost k p"
  proof (cases "n \<le> 0 \<or> p \<le> 0")
    case True
    then show ?thesis using pos [OF assms(2)] by (auto simp: cost_of_small [OF n assms(3)])
  next
    case False
    then have "n * p \<le> k * p" using assms(1) by (intro mult_right_mono) auto
    then have "(n * p + 999999) div 1000000 \<le> (k * p + 999999) div 1000000" by (intro zdiv_mono1) auto
    then show ?thesis using False assms(1) by (simp add: cost_of_small [OF n assms(3)] cost_of_small [OF assms(2,3)])
  qed
  have "k * p \<le> 2 ^ 31 * 2 ^ 31" if "0 < k" "0 < p" using that assms(2,3) by (intro mult_mono) auto
  then show "conservativeTokenCost k p \<le> 2 ^ 43" by (auto simp: cost_of_small [OF assms(2,3)])
qed

text \<open>Prices of at most 2^31 micros for a million tokens; with them the two parts of a cost never reach the limit of the integers.\<close>

definition modest_prices :: "ModelDefinition \<Rightarrow> bool" where
  "modest_prices d \<longleftrightarrow> py_InputMicrosPerMillionTokens (df_Pricing d) \<le> 2 ^ 31 \<and> py_OutputMicrosPerMillionTokens (df_Pricing d) \<le> 2 ^ 31"

lemma estimate_mono:
  assumes "modest_prices d" "tu_InputTokens a \<le> tu_InputTokens b" "tu_OutputTokens a \<le> tu_OutputTokens b" "tu_InputTokens b \<le> 2 ^ 31" "tu_OutputTokens b \<le> 2 ^ 31"
  shows "ce_Micros (estimateDefinitionCost d a) \<le> ce_Micros (estimateDefinitionCost d b)" "0 \<le> ce_Micros (estimateDefinitionCost d a)"
proof -
  let ?in = "py_InputMicrosPerMillionTokens (df_Pricing d)" and ?out = "py_OutputMicrosPerMillionTokens (df_Pricing d)"
  have p: "?in \<le> 2 ^ 31" "?out \<le> 2 ^ 31" using assms(1) by (auto simp: modest_prices_def)
  note i = cost_mono [OF assms(2,4) p(1)] and o = cost_mono [OF assms(3,5) p(2)]
  have "ce_Micros (estimateDefinitionCost d u) = conservativeTokenCost (tu_InputTokens u) ?in + conservativeTokenCost (tu_OutputTokens u) ?out"
    if "0 \<le> conservativeTokenCost (tu_InputTokens u) ?in + conservativeTokenCost (tu_OutputTokens u) ?out" "conservativeTokenCost (tu_InputTokens u) ?in + conservativeTokenCost (tu_OutputTokens u) ?out \<le> 2 ^ 44" for u
    using that by (simp add: estimateDefinitionCost_def i64_id in_i64_def)
  note exact = this
  have "ce_Micros (estimateDefinitionCost d a) = conservativeTokenCost (tu_InputTokens a) ?in + conservativeTokenCost (tu_OutputTokens a) ?out"
    by (rule exact) (use i o in simp_all)
  moreover have "ce_Micros (estimateDefinitionCost d b) = conservativeTokenCost (tu_InputTokens b) ?in + conservativeTokenCost (tu_OutputTokens b) ?out"
    by (rule exact) (use i o in simp_all)
  ultimately show "ce_Micros (estimateDefinitionCost d a) \<le> ce_Micros (estimateDefinitionCost d b)" "0 \<le> ce_Micros (estimateDefinitionCost d a)" using i o by simp_all
qed

lemma saturated_costs_wrap:
  "ce_Micros (estimateDefinitionCost (zero_definition\<lparr>df_Pricing := \<lparr>py_InputMicrosPerMillionTokens = 2 ^ 40, py_OutputMicrosPerMillionTokens = 2 ^ 40, py_Version = ''v1''\<rparr>\<rparr>)
     (zero_usage\<lparr>tu_InputTokens := 2 ^ 30, tu_OutputTokens := 2 ^ 30\<rparr>)) = - 2"
  by code_simp

text \<open>Estimates that are not negative, and zero where the price has no version.\<close>

definition proper_estimate :: "CostEstimate \<Rightarrow> bool" where
  "proper_estimate e \<longleftrightarrow> 0 \<le> ce_Micros e \<and> (ce_PricingVersion e = [] \<longrightarrow> ce_Micros e = 0)"

lemma highest_is_highest:
  "\<forall>d\<in>set ds. proper_estimate (estimateDefinitionCost d usage) \<Longrightarrow> proper_estimate h
    \<Longrightarrow> ce_Micros h \<le> ce_Micros (highest_estimate usage ds h) \<and> (\<forall>d\<in>set ds. ce_Micros (estimateDefinitionCost d usage) \<le> ce_Micros (highest_estimate usage ds h))"
proof (induction ds arbitrary: h)
  case (Cons d ds)
  let ?e = "estimateDefinitionCost d usage"
  let ?h = "if ce_Micros h < ce_Micros ?e \<or> ce_PricingVersion h = [] then ?e else h"
  have e: "proper_estimate ?e" using Cons.prems(1) by simp
  then have h: "proper_estimate ?h" "ce_Micros h \<le> ce_Micros ?h" "ce_Micros ?e \<le> ce_Micros ?h" using Cons.prems(2) by (auto simp: proper_estimate_def)
  have "highest_estimate usage (d # ds) h = highest_estimate usage ds ?h" by (simp add: highest_estimate_def Let_def)
  moreover have "\<forall>d\<in>set ds. proper_estimate (estimateDefinitionCost d usage)" using Cons.prems(1) by simp
  note Cons.IH [OF this h(1)]
  ultimately show ?case using h(2,3) by (auto intro: order_trans)
qed (simp add: highest_estimate_def)

lemma valid_estimate:
  assumes "valid_definition d" "modest_prices d" "tu_InputTokens usage \<le> 2 ^ 31" "tu_OutputTokens usage \<le> 2 ^ 31"
  shows "proper_estimate (estimateDefinitionCost d usage)"
proof -
  have "ce_Micros (estimateDefinitionCost d usage) = 0" if "py_Version (df_Pricing d) = []"
    using that assms(1) by (simp add: estimateDefinitionCost_def valid_definition_def conservativeTokenCost_def i64_def)
  then show ?thesis using estimate_mono(2) [OF assms(2) order_refl order_refl assms(3,4)] by (auto simp: proper_estimate_def estimateDefinitionCost_def)
qed

lemma route_loop_selected:
  "route_loop router ctx request candidates trace attempts w = ((response, None), w') \<Longrightarrow>
    \<exists>d\<in>set candidates. \<exists>client v v' answer. map_of (ru_providers router) (df_Provider d) = Some client \<and> client (routed_request request d) v = ((answer, None), v')
      \<and> mp_Usage response = mp_Usage (selected_response trace d answer)"
proof (induction candidates arbitrary: trace attempts w)
  case (Cons candidate rest)
  obtain res w1 where r: "call_candidate router request candidate w = (res, w1)" by (cases "call_candidate router request candidate w")
  have c: "ctx w = None" using Cons.prems by (cases "ctx w") simp_all
  show ?case
  proof (cases res)
    case (Inr answer)
    then obtain client where "map_of (ru_providers router) (df_Provider candidate) = Some client" "client (routed_request request candidate) w = ((answer, None), w1)"
      using r by (auto simp: call_candidate_def split: option.splits prod.splits)
    moreover have "response = selected_response trace candidate answer" using Cons.prems c r Inr by simp
    ultimately show ?thesis by (intro bexI [of _ candidate]) auto
  next
    case (Inl err)
    obtain terminal trace1 attempts1 where rec: "recordProviderFailure trace attempts candidate err (rest \<noteq> []) = (terminal, trace1, attempts1)"
      by (cases "recordProviderFailure trace attempts candidate err (rest \<noteq> [])")
    have "route_loop router ctx request rest trace1 attempts1 w1 = ((response, None), w')" using Cons.prems c r Inl rec by (simp add: failedRouteResponse_def split: if_splits)
    from Cons.IH [OF this] show ?thesis by (auto simp: selected_response_def Let_def)
  qed
qed (simp add: failedRouteResponse_def)

lemma Candidates_chat:
  assumes "Candidates catalog i [CapabilityChat] = Inr chat" "Candidates catalog i (CapabilityChat # more_required) = Inr candidates"
  shows "set candidates \<subseteq> set chat"
proof -
  have "chat = candidate_walk catalog [CapabilityChat] [trim_space i] []" "candidates = candidate_walk catalog (CapabilityChat # more_required) [trim_space i] []"
    using assms by (auto simp: Candidates_def Let_def split: if_splits)
  then have "set chat = {d \<in> set (candidate_walk catalog [] [trim_space i] []). Supports d [CapabilityChat]}"
    "set candidates = {d \<in> set (candidate_walk catalog [] [trim_space i] []). Supports d (CapabilityChat # more_required)}"
    by (metis candidate_walk_filter set_filter)+
  then show ?thesis by (auto simp: Supports_def)
qed

text \<open>
  C25. A reserved cost covers every route: with prices of at most 2^31 micros for a million tokens, the cost estimated before a call for an upper bound of its
  tokens (at most 2^31 each way) is at least the cost the router puts into the response, whichever model reachable through the fallbacks has answered.
  The clients of the providers leave the cost to the router, as those of the code do.
\<close>
theorem reserved_cost_covers_fallbacks:
  assumes "NewCatalog quote definitions = Inr (ru_catalog router)" and "list_all modest_prices definitions"
    and "Router_EstimateCost (ru_catalog router) (mr_Model request) usage = Inr est" and "tu_InputTokens usage \<le> 2 ^ 31" and "tu_OutputTokens usage \<le> 2 ^ 31"
    and "Router_Complete router ctx request w = ((response, None), w')"
    and "\<And>name client asked v. map_of (ru_providers router) name = Some client \<Longrightarrow> tu_EstimatedCostMicros (mp_Usage (fst (fst (client asked v)))) = 0"
    and "tu_InputTokens (mp_Usage response) \<le> tu_InputTokens usage" and "tu_OutputTokens (mp_Usage response) \<le> tu_OutputTokens usage"
  shows "0 \<le> tu_EstimatedCostMicros (mp_Usage response) \<and> tu_EstimatedCostMicros (mp_Usage response) \<le> ce_Micros est"
proof -
  let ?more = "if mr_Tools request \<noteq> [] then [CapabilityToolCall] else []"
  let ?trace = "\<lparr>rt_RequestedModel = trim_space (mr_Model request), rt_SelectedModel = [], rt_SelectedProvider = [], rt_Attempts = [], rt_TerminalDecision = []\<rparr>"
  obtain chat where chat: "Candidates (ru_catalog router) (mr_Model request) [CapabilityChat] = Inr chat"
      "est = highest_estimate usage chat \<lparr>ce_Micros = 0, ce_PricingVersion = []\<rparr>"
    using assms(3) by (auto simp: Router_EstimateCost_def bind_res_def split: sum.splits)
  obtain candidates where c: "Candidates (ru_catalog router) (mr_Model request) (CapabilityChat # ?more) = Inr candidates"
      "route_loop router ctx request candidates ?trace [] w = ((response, None), w')"
    using assms(6) by (auto simp: Router_Complete_def Let_def split: sum.splits)
  from route_loop_selected [OF c(2)] obtain d client v v' answer where d: "d \<in> set candidates" "map_of (ru_providers router) (df_Provider d) = Some client"
      "client (routed_request request d) v = ((answer, None), v')" "mp_Usage response = mp_Usage (selected_response ?trace d answer)" by blast
  have free: "tu_EstimatedCostMicros (mp_Usage answer) = 0" using assms(7) [OF d(2), of "routed_request request d" v] d(3) by simp
  have cost: "tu_EstimatedCostMicros (mp_Usage response) = ce_Micros (estimateDefinitionCost d (mp_Usage answer))"
    and tokens: "tu_InputTokens (mp_Usage answer) \<le> tu_InputTokens usage" "tu_OutputTokens (mp_Usage answer) \<le> tu_OutputTokens usage"
    using d(4) free assms(8,9) by (simp_all add: selected_response_def Let_def)
  have known: "valid_definition k" "modest_prices k" if "k \<in> set chat" for k
    using Candidates_result(3) [OF assms(1) chat(1) that] assms(2) by (auto simp: list_all_iff modest_prices_def same_prices_def)
  have member: "d \<in> set chat" using Candidates_chat [OF chat(1) c(1)] d(1) by blast
  have "\<forall>k\<in>set chat. proper_estimate (estimateDefinitionCost k usage)" using valid_estimate [OF known assms(4,5)] by blast
  then have "ce_Micros (estimateDefinitionCost d usage) \<le> ce_Micros est"
    using highest_is_highest [of chat usage "\<lparr>ce_Micros = 0, ce_PricingVersion = []\<rparr>"] member chat(2) by (simp add: proper_estimate_def)
  then show ?thesis using estimate_mono [OF known(2) [OF member] tokens assms(4,5)] by (simp add: cost)
qed

definition routed_answer :: "(ModelResponse \<times> route_error option) \<times> nat" where
  "routed_answer = Router_Complete (routed_router None) (\<lambda>_. None) routed_question 0"

definition routed_bound :: TokenUsage where
  "routed_bound = zero_usage\<lparr>tu_InputTokens := 1000, tu_OutputTokens := 500\<rparr>"

definition answer_summary :: "(int \<times> int \<times> int \<times> string) option" where
  "answer_summary = (case routed_answer of
      ((response, None), w) \<Rightarrow> Some (tu_InputTokens (mp_Usage response), tu_OutputTokens (mp_Usage response), tu_EstimatedCostMicros (mp_Usage response), mp_Model response)
    | _ \<Rightarrow> None)"

lemma answer_summary_value: "answer_summary = Some (900, 100, 3300, ''large'')"
  by code_simp

lemma routed_estimate: "Router_EstimateCost (ru_catalog (routed_router None)) ''small'' routed_bound = Inr \<lparr>ce_Micros = 6000, ce_PricingVersion = ''v2''\<rparr>"
  by code_simp

lemma routed_clients_free: "map_of (ru_providers (routed_router refusal)) name = Some client \<Longrightarrow> tu_EstimatedCostMicros (mp_Usage (fst (fst (client asked v)))) = 0"
  by (auto simp: routed_router_def routed_clients_def routed_response_def traced_response_def zero_usage_def split: if_splits)

theorem reserved_cost_covers_fallbacks_witness:
  "\<exists>response w'. Router_Complete (routed_router None) (\<lambda>_. None) routed_question 0 = ((response, None), w') \<and> mp_Model response = ''large''
     \<and> tu_EstimatedCostMicros (mp_Usage response) \<le> 6000"
proof -
  obtain response w' where run: "Router_Complete (routed_router None) (\<lambda>_. None) routed_question 0 = ((response, None), w')" and model: "mp_Model response = ''large''"
      and tokens: "tu_InputTokens (mp_Usage response) = 900" "tu_OutputTokens (mp_Usage response) = 100"
    using answer_summary_value unfolding answer_summary_def routed_answer_def by (auto split: prod.splits option.splits)
  have new: "NewCatalog id routed_catalog = Inr (ru_catalog (routed_router None))" using routed_catalog_new by (simp add: routed_router_def)
  have modest: "list_all modest_prices routed_catalog" by (simp add: routed_catalog_def modest_prices_def)
  have est: "Router_EstimateCost (ru_catalog (routed_router None)) (mr_Model routed_question) routed_bound = Inr \<lparr>ce_Micros = 6000, ce_PricingVersion = ''v2''\<rparr>"
    using routed_estimate by (simp add: routed_question_def)
  have "0 \<le> tu_EstimatedCostMicros (mp_Usage response) \<and> tu_EstimatedCostMicros (mp_Usage response) \<le> ce_Micros \<lparr>ce_Micros = 6000, ce_PricingVersion = ''v2''\<rparr>"
    by (rule reserved_cost_covers_fallbacks [OF new modest est _ _ run]) (simp_all add: routed_bound_def tokens routed_clients_free)
  then show ?thesis using run model by auto
qed

end
