(* ===== verification/Spec2Isabelle.thy ===== *)
theory Spec2Isabelle
  imports Workflow_IR Scheduler_Resume Compensation Snowflake Tool_Node Shared_Admission Rollout Execution_Runs Planned_Budget Multi_Role_Runs
    Router_Properties
begin

text \<open>
  A verification development of the backend's agent platform. The repository is a Go monorepo: a
  social backend (tweets, follows, users) and, under \<^verbatim>\<open>src/internal/module/agent\<close>, a platform that runs
  agents and workflows for users. Modelled here is what decides: the agent loop, the workflow compiler and engine, the
  governance of tool calls, budgets, admission, the deletion of a user's data, and the id
  generator every service uses.

  \<^bold>\<open>The parts and how they interact.\<close> A workflow definition (\<^verbatim>\<open>workflow/dsl\<close>) is compiled to a plan
  (\<^verbatim>\<open>workflow/ir\<close>): a graph with a topological order, typed references and declared state writes. The
  scheduler (\<^verbatim>\<open>workflow/engine/scheduler.go\<close>) runs the plan in waves: the ready nodes run concurrently under
  a semaphore, each retried under its policy and within the step budget (\<^verbatim>\<open>runtime/budget_tracker.go\<close>), and their
  results are merged in topological order into the blackboard (\<^verbatim>\<open>workflow/engine/blackboard.go\<close>), which routes the
  outgoing edges. A run can be suspended and continued from a checkpoint, and a failed run is undone by
  the compensation plan. A tool node calls the governance pipeline (\<^verbatim>\<open>workflow/tool/executor.go\<close>), which checks identity,
  schema, guardrail, approval, idempotency and the circuit breaker before it lets the handler run. Runs and provider
  calls are admitted by limiters (\<^verbatim>\<open>runtime/admission.go\<close>, \<^verbatim>\<open>admission/shared.go\<close>). An agent
  run (\<^verbatim>\<open>runtime/runner.go\<close>) calls the model step by step within its own budget and that of the workflow around it, runs
  the tools the model asks for, and can be suspended for an answer or an approval. A verified run
  (\<^verbatim>\<open>runtime/verified_runner.go\<close>) repeats agent runs until a verifier accepts the evidence they left. A planned run
  (\<^verbatim>\<open>runtime/planned_verified_runner.go\<close>) asks a planner, which asks a model, for a short plan, admits it under a deterministic policy, gives the verified run
  only the tools of the plan, plans again at most once when evidence is missing, and checks what was executed
  against the plan; \<^verbatim>\<open>runtime/task_outcome.go\<close> reports the result. A complex request may instead get a strategy of several agents
  (\<^verbatim>\<open>strategy/planner.go\<close>), which three agent runs in turn carry out (\<^verbatim>\<open>multirole/executor.go\<close>). The calls of models are routed
  to providers along declared fallbacks (\<^verbatim>\<open>model/router.go\<close>). A deletion request executes a
  chain of stages under leases (\<^verbatim>\<open>deletion/\<close>).

  \<^bold>\<open>The theories.\<close>

  \<^item> \<open>Go_Prelude\<close>, \<open>Go_Values\<close>, \<open>Go_Errors\<close>: Go's strings as bytes with the library functions the code
    uses, maps, wrapping 64-bit integers, dynamic values and float comparison, error trees with
    \<^verbatim>\<open>errors.Is\<close> and \<^verbatim>\<open>errors.As\<close>.
  \<^item> \<open>Workflow_DSL\<close>, \<open>Graph_Loops\<close>, \<open>Workflow_IR\<close>: the definition language and \<^verbatim>\<open>workflow/ir/compiler.go\<close>. A compiled
    plan is well-formed, its order topological, cycle detection exact, references point upstream (those of a compensation
    also to their own node), and concurrent writers of a path share a reducer.
  \<^item> \<open>Blackboard\<close>: versioned state with an event log; replay recovers the state or fails closed at the first
    event that does not continue the log.
  \<^item> \<open>Budget\<close>: the tracker of tokens, cost and steps with reservations, under every interleaving
    of its operations (each holds the mutex).
  \<^item> \<open>Node_Lifecycle\<close>, \<open>State_Writes\<close>: the node state machine, retry decisions, placeholders, reducers and the
    all-or-nothing application of a result.
  \<^item> \<open>Scheduler\<close>, \<open>Scheduler_Waves\<close>, \<open>Scheduler_Runs\<close>, \<open>Scheduler_Resume\<close>: a wave is a transition system
    whose steps are those of the goroutines; its outcome does not depend on the schedule, the semaphore bounds the
    running nodes, no schedule is stuck. Whole runs merge nodes once and in order, are
    deterministic when no step limit is set and never stall from the start; a continued run can forget an unfinished entry node.
  \<^item> \<open>Compensation\<close>: the plan undoes the successful nodes in reverse order, and a task ends after its attempts.
  \<^item> \<open>Circuit_Breaker\<close>, \<open>Tool_Spec\<close>, \<open>Tool_Executor\<close>, \<open>Tool_Governance\<close>, \<open>Tool_Node\<close>: the tool package. The
    pipeline returns a result with the effects it had on the services in order; audit, gates and settlement
    are statements about that trace.
  \<^item> \<open>Admission\<close>, \<open>Shared_Admission\<close>: the locale \<open>admission_control\<close> states what a limiter promises; it is interpreted
    for the limiter of one process and for the Lua script that all processes share.
  \<^item> \<open>Runtime_Types\<close>, \<open>React_Runner\<close>, \<open>React_Runs\<close>, \<open>React_Properties\<close>: the types, checkpoints and token counter of agent runs, and the
    runner with its resumption. A run leaves a list of effects; \<open>protocol\<close> is an automaton that says in which order a runner may
    have them, and runs and resumptions refine it whatever the outside does. The locales \<open>quiet_monitor\<close> and \<open>acting_monitor\<close>
    state what the runner's parts need of an automaton; they are interpreted for \<open>protocol\<close> and for \<open>only_actions\<close>. Runs end
    within their steps and budgets, suspended runs have a checkpoint, and two ways to lose a suspended run are shown.
  \<^item> \<open>Goal_Types\<close>, \<open>Verified_Runner\<close>, \<open>Verified_Runs\<close>, \<open>Goal_Properties\<close>: tasks, evidence and its ledger, collectors, the checks of
    repairs and of resumed runs, and the runner of goals. What it needs of the runner below is the locale \<open>agent_runner\<close>,
    interpreted for the reason-act runner. A verified goal has its evidence, all attempts share one budget of steps, ledgers only grow,
    suspended goals have a valid checkpoint; two kinds of goals that cannot be resumed are shown.
  \<^item> \<open>Short_Plan\<close>, \<open>Planned_Runner\<close>, \<open>Plan_Properties\<close>: short plans, their admission, coordination and recovery, and planned goals. An
    admitted plan is within its request whatever was proposed; a planned goal stays within its first plan, recoveries included, and recovers once;
    the check of an execution is the in-order observation of the tools in different steps. The locale \<open>goal_world\<close> lifts
    what holds of the runs a goal asks for to the planned goal, which adds the state of the repair builder to the world.
  \<^item> \<open>Plan_Model\<close>, \<open>Planner_Properties\<close>: the planner that asks a model (\<^verbatim>\<open>runtime/short_plan_model.go\<close>). It accepts exactly the texts that denote a
    plan, calls the model at most four times and without tools, and stays within its budget. The locales \<open>budgeted_planner\<close> and \<open>counting_planner\<close>
    state what the coordinator needs of a planner; they are interpreted for this one.
  \<^item> \<open>Goal_Budget\<close>, \<open>Planned_Budget\<close>: the tokens and the cost of goals and of planned goals. The locale \<open>accounted_runner\<close> extends \<open>agent_runner\<close> by
    the accounting of a runner; it is interpreted for the reason-act runner and for that runner beside a repair builder. All parts of a planned goal together stay
    within the budget of its request. The counts wrap around, so it is assumed (\<open>honest_model\<close>) that providers report no negative counts and at most
    \<open>2 ^ 48\<close> for a call; a planned goal makes at most 136 calls, so no sum overflows.
  \<^item> \<open>Strategy_Planner\<close>, \<open>Multi_Role\<close>, \<open>Multi_Role_Runs\<close>: the choice between one and several agents, and the execution of a plan by researcher, drafter
    and reviewer. The locale \<open>role_runner\<close> is \<open>accounted_runner\<close> on the world of the executor, interpreted for the reason-act runner. An
    execution stays within the request its plan was made for, asks for no more than its roles may have and rests on evidence. Amounts in templates
    are assumed to be at most \<open>2 ^ 50\<close>, since the code sums machine integers.
  \<^item> \<open>Model_Router\<close>, \<open>Router_Properties\<close>: the catalog of models, the routed call and its costs. A failed route leaves a trace that the runner of goals accepts,
    and the cost reserved for a call covers every fallback. The walk through the fallbacks ends, since a model is expanded once.
  \<^item> \<open>Task_Outcome\<close>: outcomes of goals; when an artifact is reported as passed.
  \<^item> \<open>Rollout\<close>: the runtime switch, which round-trips through its text.
  \<^item> \<open>Deletion_Protocol\<close>, \<open>Deletion_Runs\<close>: plans, capability snapshots and checkpoints of data deletion;
    stages succeed in order under exclusive leases.
  \<^item> \<open>Deletion_Audit\<close>, \<open>Deletion_Store\<close>, \<open>Deletion_Execution\<close>, \<open>Execution_Runs\<close>: the audit trail, the stored documents with the
    updates of the repository, and the service by which workers claim and complete stages when calls of the
    database fail or their replies are lost. Documents hold times in whole milliseconds, digests are computed over nanoseconds. With clocks of
    whole milliseconds an orderly execution stays valid and its next operation succeeds as long as its trail has room; a
    preflight or a claim at a finer time, or the takeover of an abandoned stage, ends an execution.
  \<^item> \<open>Snowflake\<close>: ids and the claim of worker slots.

  \<^bold>\<open>Correspondence.\<close> A struct is a record, an enumeration of string constants is those strings, a
  function keeps its name (with its receiver in front where two types have the method). A function that returns a value
  and an error returns a sum or an option. Goroutines are steps of an explicit schedule; a section
  under a mutex is one step. Clocks, random tokens, SHA-256, JSON, Redis answers, tool handlers
  and node implementations are arguments. The documents of deletion requests are a map in which one update of MongoDB is one step; what
  is assumed of the database is the documented behaviour that an update of one document is atomic and that a BSON date has whole milliseconds.

  \<^bold>\<open>Bounds and fuel.\<close> The topological loop and the engine's main loop get one round per node and one more, which is
  proved enough: every round but the last takes a node off the work that is left. The breadth-first search
  terminates by a measure on unvisited nodes. The agent loop recurses on the steps left, at most 64, the loops of goals and of the plan
  coordinator on the repairs left, and the planner on its attempts left, at most two. The attempt loop of a tool call recurses on the
  attempts left, a compensation task likewise. Waiting for the next millisecond is a
  \<^theory_text>\<open>partial_function\<close>; that it returns when the clock passes is proved.

  \<^bold>\<open>Not modelled.\<close> Panics of tool handlers inside the tool executor, which has no recovery, so that such a call is not audited (a panic of a node is an outcome
  of the scheduler, which recovers it).
  Lower-casing of letters beyond ASCII, except the two whose lower case is an ASCII letter. The counter of node executions in the budget tracker
  is unbounded, where the code has 64 bits. Timestamps of the id generator are unbounded and its theorem assumes the 41-bit range. Log lines and metrics, and durations measured for them. The builder of messages and the clients of the model
  providers, which are arguments where they are used. The service layer, gateway handlers, gRPC servers and \<^verbatim>\<open>cmd\<close>, which decode, call and wire. The MCP
  manager, which drives processes and a third-party protocol. The social services, which are calls
  to databases, caches and queues. Expiry of Redis keys in shared admission, which only removes entries that
  no longer count.
\<close>

end
